(* ===== verification/Prelude.thy ===== *)
theory Prelude
  imports Main "HOL-Library.AList" "HOL-Library.Word" "HOL-Library.Char_ord"
    "HOL-Library.List_Lexorder" "HOL-Library.Product_Lexorder" "HOL-Library.Multiset"
begin

text \<open>
  Shared vocabulary of the development: the parts of the Rust standard library the modelled
  crates use, and the lemmas every component needs about them.

  \<^item> \<open>rust\<close>: a computation that returns a value or panics (an \<open>expect\<close> on \<open>None\<close>, an
    \<open>unreachable!\<close>, an overflow check). A \<open>Result\<close> is the sum type, \<open>Inl\<close> the error.
  \<^item> \<open>HashMap\<close>, \<open>DashMap\<close>: an association list with distinct keys. Its order is the iteration
    order of the map at that moment, which Rust leaves unspecified: theorems hold for every
    order, and the step relations that need it have a rule that permutes the list.
  \<^item> \<open>BTreeMap\<close>: an association list with strictly increasing keys; \<open>BTreeSet\<close>: a strictly
    increasing list. Strings are byte strings and are compared as \<open>str\<close> is, byte by byte.
  \<^item> \<open>u64\<close>, \<open>u32\<close>: words; \<open>i64\<close>: \<open>int\<close> with the bounds of the type written out.
\<close>

named_theorems map_simps \<open>lookups after updates of the map models\<close>
named_theorems key_simps \<open>the keys of the map models after updates\<close>

section \<open>Results and panics\<close>

datatype 'a rust = Ret (ret_val: 'a) | Panic

fun returns :: "'a rust \<Rightarrow> bool" where
  "returns (Ret _) = True"
| "returns Panic = False"

fun bind_rust :: "'a rust \<Rightarrow> ('a \<Rightarrow> 'b rust) \<Rightarrow> 'b rust" where
  "bind_rust (Ret x) f = f x"
| "bind_rust Panic f = Panic"

text \<open>\<open>expect\<close> and \<open>unwrap\<close> of an \<open>Option\<close>.\<close>

fun expect :: "'a option \<Rightarrow> 'a rust" where
  "expect (Some x) = Ret x"
| "expect None = Panic"

lemma bind_rust_eq_Ret [simp]:
  "bind_rust m f = Ret y \<longleftrightarrow> (\<exists>x. m = Ret x \<and> f x = Ret y)"
  by (cases m) auto

lemma expect_eq_Ret [simp]: "expect x = Ret y \<longleftrightarrow> x = Some y"
  by (cases x) auto

lemma returns_iff: "returns m \<longleftrightarrow> (\<exists>x. m = Ret x)"
  by (cases m) auto

section \<open>Lists\<close>

lemma count_list_distinct: "distinct xs \<Longrightarrow> count_list xs x = (if x \<in> set xs then 1 else 0)"
  by (induction xs) auto

lemma find_append: "find P (xs @ ys) = (case find P xs of None \<Rightarrow> find P ys | Some x \<Rightarrow> Some x)"
  by (induction xs) auto

section \<open>Maps\<close>

text \<open>Lookups stay lookups: they are not rewritten into membership in the list.\<close>

declare map_of_eq_Some_iff [simp del]

subsection \<open>\<open>HashMap\<close> as an association list\<close>

type_synonym ('k, 'v) hmap = "('k \<times> 'v) list"

abbreviation hm_keys :: "('k, 'v) hmap \<Rightarrow> 'k list" where
  "hm_keys m \<equiv> map fst m"

abbreviation hm_values :: "('k, 'v) hmap \<Rightarrow> 'v list" where
  "hm_values m \<equiv> map snd m"

definition hm_insert :: "'k \<Rightarrow> 'v \<Rightarrow> ('k, 'v) hmap \<Rightarrow> ('k, 'v) hmap" where
  "hm_insert k v m = AList.update k v m"

definition hm_remove :: "'k \<Rightarrow> ('k, 'v) hmap \<Rightarrow> ('k, 'v) hmap" where
  "hm_remove k m = filter (\<lambda>e. fst e \<noteq> k) m"

text \<open>Assignment through \<open>get_mut\<close>: nothing happens when the key is absent.\<close>

definition hm_modify :: "'k \<Rightarrow> ('v \<Rightarrow> 'v) \<Rightarrow> ('k, 'v) hmap \<Rightarrow> ('k, 'v) hmap" where
  "hm_modify k f m = map (\<lambda>e. (fst e, if fst e = k then f (snd e) else snd e)) m"

text \<open>A loop that assigns through \<open>get_mut\<close> for each key of a list.\<close>

definition hm_modify_all :: "'k list \<Rightarrow> ('v \<Rightarrow> 'v) \<Rightarrow> ('k, 'v) hmap \<Rightarrow> ('k, 'v) hmap" where
  "hm_modify_all ks f m = fold (\<lambda>k. hm_modify k f) ks m"

text \<open>\<open>retain\<close>.\<close>

definition hm_retain :: "('v \<Rightarrow> bool) \<Rightarrow> ('k, 'v) hmap \<Rightarrow> ('k, 'v) hmap" where
  "hm_retain p m = filter (\<lambda>e. p (snd e)) m"

text \<open>\<open>values_mut\<close>: every value is updated.\<close>

definition hm_map_values :: "('v \<Rightarrow> 'v) \<Rightarrow> ('k, 'v) hmap \<Rightarrow> ('k, 'v) hmap" where
  "hm_map_values f m = map (\<lambda>e. (fst e, f (snd e))) m"

lemma map_of_hm_insert [map_simps, simp]: "map_of (hm_insert k v m) = (map_of m)(k \<mapsto> v)"
  by (simp add: hm_insert_def update_conv')

lemma map_of_hm_remove [map_simps, simp]: "map_of (hm_remove k m) = (map_of m)(k := None)"
  by (induction m) (auto simp: hm_remove_def)

lemma map_of_hm_modify [map_simps, simp]:
  "map_of (hm_modify k f m) x = (if x = k then map_option f (map_of m x) else map_of m x)"
  by (induction m) (auto simp: hm_modify_def)

lemma map_of_hm_map_values [map_simps, simp]:
  "map_of (hm_map_values f m) x = map_option f (map_of m x)"
  by (induction m) (auto simp: hm_map_values_def)

lemma hm_keys_insert [key_simps]:
  "hm_keys (hm_insert k v m) = (if k \<in> set (hm_keys m) then hm_keys m else hm_keys m @ [k])"
  unfolding hm_insert_def by (rule update_keys)

lemma hm_keys_modify [key_simps, simp]: "hm_keys (hm_modify k f m) = hm_keys m"
  by (simp add: hm_modify_def)

lemma hm_keys_map_values [key_simps, simp]: "hm_keys (hm_map_values f m) = hm_keys m"
  by (simp add: hm_map_values_def)

lemma map_of_hm_modify_None: "map_of (hm_modify k f m) x = None \<longleftrightarrow> map_of m x = None"
  unfolding map_of_eq_None_iff set_map [symmetric] hm_keys_modify ..

lemma hm_keys_modify_all [key_simps, simp]: "hm_keys (hm_modify_all ks f m) = hm_keys m"
  unfolding hm_modify_all_def by (induction ks arbitrary: m) auto

lemma hm_modify_id [simp]: "hm_modify k id m = m"
  by (induction m) (simp_all add: hm_modify_def)

lemma hm_modify_all_simps [simp]:
  "hm_modify_all [] f m = m"
  "hm_modify_all (k # ks) f m = hm_modify_all ks f (hm_modify k f m)"
  by (simp_all add: hm_modify_all_def)

lemma map_of_hm_modify_all [map_simps]:
  assumes "\<And>v. f (f v) = f v"
  shows "map_of (hm_modify_all ks f m) x
    = (if x \<in> set ks then map_option f (map_of m x) else map_of m x)"
  using assms by (induction ks arbitrary: m) (auto simp: option.map_comp comp_def)

lemma distinct_hm_insert: "distinct (hm_keys m) \<Longrightarrow> distinct (hm_keys (hm_insert k v m))"
  unfolding hm_insert_def by (rule distinct_update)

lemma distinct_hm_remove: "distinct (hm_keys m) \<Longrightarrow> distinct (hm_keys (hm_remove k m))"
  unfolding hm_remove_def by (rule distinct_map_filter)

lemma distinct_hm_retain: "distinct (hm_keys m) \<Longrightarrow> distinct (hm_keys (hm_retain p m))"
  unfolding hm_retain_def by (rule distinct_map_filter)

lemma map_of_hm_retain:
  assumes "distinct (hm_keys m)"
  shows "map_of (hm_retain p m) k
    = (case map_of m k of None \<Rightarrow> None | Some v \<Rightarrow> if p v then Some v else None)"
  using assms
  by (induction m) (auto simp: hm_retain_def map_of_eq_None_iff rev_image_eqI split: option.splits)

lemma hm_values_iff:
  assumes "distinct (hm_keys m)"
  shows "v \<in> set (hm_values m) \<longleftrightarrow> (\<exists>k. map_of m k = Some v)"
  using assms by (auto simp: map_of_eq_Some_iff intro: rev_image_eqI)

lemma hm_keys_iff: "k \<in> set (hm_keys m) \<longleftrightarrow> map_of m k \<noteq> None"
  by (simp add: map_of_eq_None_iff)

text \<open>Rust may rehash at any insertion: the list may be permuted.\<close>

lemma map_of_perm:
  assumes "mset m' = mset m" and "distinct (hm_keys m)"
  shows "map_of m' = map_of m"
proof -
  have "mset (hm_keys m') = mset (hm_keys m)"
    using assms(1) by simp
  then have d: "distinct (hm_keys m')"
    using assms(2) mset_eq_imp_distinct_iff by blast
  have "set m' = set m"
    using assms(1) by (rule mset_eq_setD)
  then show ?thesis
    using map_of_inject_set [OF d assms(2)] by simp
qed

subsection \<open>\<open>BTreeMap\<close> as an association list with increasing keys\<close>

type_synonym ('k, 'v) bmap = "('k \<times> 'v) list"

fun bt_insert :: "'k::linorder \<Rightarrow> 'v \<Rightarrow> ('k, 'v) bmap \<Rightarrow> ('k, 'v) bmap" where
  "bt_insert k v [] = [(k, v)]"
| "bt_insert k v (e # m) =
     (if fst e < k then e # bt_insert k v m
      else if fst e = k then (k, v) # m
      else (k, v) # e # m)"

abbreviation bt_sorted :: "('k::linorder, 'v) bmap \<Rightarrow> bool" where
  "bt_sorted m \<equiv> sorted_wrt (<) (map fst m)"

lemma map_of_bt_insert [map_simps, simp]:
  "bt_sorted m \<Longrightarrow> map_of (bt_insert k v m) = (map_of m)(k \<mapsto> v)"
  by (induction m) (auto simp: fun_eq_iff)

lemma set_keys_bt_insert [key_simps]:
  "set (map fst (bt_insert k v m)) = insert k (set (map fst m))"
  by (induction m) auto

lemma bt_sorted_insert [simp]: "bt_sorted m \<Longrightarrow> bt_sorted (bt_insert k v m)"
proof (induction m)
  case (Cons e m)
  have "set (map fst (bt_insert k v m)) = insert k (set (map fst m))"
    by (rule set_keys_bt_insert)
  with Cons show ?case by fastforce
qed simp

lemma bt_sorted_modify [simp]: "bt_sorted (hm_modify k f m) = bt_sorted m"
  by (simp add: hm_modify_def comp_def)

lemma bt_sorted_map_values [simp]: "bt_sorted (hm_map_values f m) = bt_sorted m"
  by (simp add: hm_map_values_def comp_def)

lemma bt_sorted_distinct: "bt_sorted m \<Longrightarrow> distinct (map fst m)"
  by (simp add: strict_sorted_iff)

subsection \<open>\<open>BTreeSet\<close> and \<open>HashSet\<close>\<close>

definition btree_set :: "'a::linorder list \<Rightarrow> 'a list" where
  "btree_set xs = sort (remdups xs)"

lemma set_btree_set [simp]: "set (btree_set xs) = set xs"
  by (simp add: btree_set_def)

lemma sorted_btree_set: "sorted_wrt (<) (btree_set xs)"
  by (simp add: btree_set_def strict_sorted_iff)

lemma distinct_btree_set [simp]: "distinct (btree_set xs)"
  by (simp add: btree_set_def)

lemma btree_set_sorted [simp]: "sorted_wrt (<) xs \<Longrightarrow> btree_set xs = xs"
  by (simp add: btree_set_def strict_sorted_iff sorted_sort_id)

definition hash_set_len :: "'a list \<Rightarrow> nat" where
  "hash_set_len xs = length (remdups xs)"

lemma hash_set_len_eq_0 [simp]: "hash_set_len xs = 0 \<longleftrightarrow> xs = []"
  by (simp add: hash_set_len_def)

end
