(* ===== verification/Rust_Std.thy ===== *)
theory Rust_Std
  imports Prelude
begin

text \<open>
  The parts of Rust's standard library on strings and integers that the components share.
  A \<open>str\<close> is its UTF-8 bytes. The functions on it are those of \<open>core::str\<close>: \<open>trim\<close> knows
  every character of the Unicode property \<open>White_Space\<close> by its encoding; \<open>to_ascii_lowercase\<close>
  changes the bytes of ASCII letters only; \<open>contains\<close>, \<open>starts_with\<close> and \<open>split\<close> compare
  bytes. An \<open>i64\<close> is an \<open>int\<close> within the bounds of the type; its decimal rendering and
  \<open>parse\<close> are inverse to each other.
\<close>

named_theorems str_simps \<open>evaluation of the string functions\<close>

section \<open>Characters\<close>

definition byte :: "nat \<Rightarrow> char" where
  "byte n = char_of n"

abbreviation code :: "char \<Rightarrow> nat" where
  "code c \<equiv> of_char c"

definition is_ascii_upper :: "char \<Rightarrow> bool" where
  "is_ascii_upper c = (65 \<le> code c \<and> code c \<le> 90)"

definition is_ascii_lower :: "char \<Rightarrow> bool" where
  "is_ascii_lower c = (97 \<le> code c \<and> code c \<le> 122)"

definition is_ascii_digit :: "char \<Rightarrow> bool" where
  "is_ascii_digit c = (48 \<le> code c \<and> code c \<le> 57)"

definition is_ascii_alphanumeric :: "char \<Rightarrow> bool" where
  "is_ascii_alphanumeric c = (is_ascii_upper c \<or> is_ascii_lower c \<or> is_ascii_digit c)"

definition ascii_lower :: "char \<Rightarrow> char" where
  "ascii_lower c = (if is_ascii_upper c then byte (code c + 32) else c)"

definition ascii_upper :: "char \<Rightarrow> char" where
  "ascii_upper c = (if is_ascii_lower c then byte (code c - 32) else c)"

text \<open>\<open>to_ascii_lowercase\<close>; bytes above 127 are left alone.\<close>

definition to_ascii_lowercase :: "string \<Rightarrow> string" where
  "to_ascii_lowercase s = map ascii_lower s"

section \<open>Searching and splitting\<close>

fun starts_with :: "string \<Rightarrow> string \<Rightarrow> bool" where
  "starts_with s [] = True"
| "starts_with [] (p # ps) = False"
| "starts_with (c # s) (p # ps) = (c = p \<and> starts_with s ps)"

definition ends_with :: "string \<Rightarrow> string \<Rightarrow> bool" where
  "ends_with s p = starts_with (rev s) (rev p)"

fun str_contains :: "string \<Rightarrow> string \<Rightarrow> bool" where
  "str_contains [] p = (p = [])"
| "str_contains (c # s) p = (starts_with (c # s) p \<or> str_contains s p)"

definition strip_prefix :: "string \<Rightarrow> string \<Rightarrow> string option" where
  "strip_prefix p s = (if starts_with s p then Some (drop (length p) s) else None)"

text \<open>\<open>split(c)\<close> with an ASCII character: never empty, the separators are dropped.\<close>

fun split_char :: "char \<Rightarrow> string \<Rightarrow> string list" where
  "split_char d [] = [[]]"
| "split_char d (c # s) =
     (if c = d then [] # split_char d s
      else (case split_char d s of [] \<Rightarrow> [[c]] | w # ws \<Rightarrow> (c # w) # ws))"

text \<open>\<open>join(sep)\<close> of a slice of strings.\<close>

fun join :: "string \<Rightarrow> string list \<Rightarrow> string" where
  "join sep [] = []"
| "join sep [w] = w"
| "join sep (w # ws) = w @ sep @ join sep ws"

text \<open>
  The length in bytes of the whitespace character at the head of a string, 0 if there is none:
  U+0009 to U+000D, U+0020, U+0085, U+00A0, U+1680, U+2000 to U+200A, U+2028, U+2029, U+202F,
  U+205F, U+3000.
\<close>

definition ws_head :: "string \<Rightarrow> nat" where
  "ws_head s = (case map code (take 3 s) of
      [] \<Rightarrow> 0
    | a # r \<Rightarrow>
        if (9 \<le> a \<and> a \<le> 13) \<or> a = (32::nat) then 1
        else (case r of [] \<Rightarrow> 0
          | b # t \<Rightarrow>
              if a = 194 \<and> (b = 133 \<or> b = 160) then 2
              else (case t of [] \<Rightarrow> 0
                | c # _ \<Rightarrow>
                    if (a = 225 \<and> b = 154 \<and> c = 128)
                      \<or> (a = 226 \<and> b = 128
                          \<and> ((128 \<le> c \<and> c \<le> 138) \<or> c = 168 \<or> c = 169 \<or> c = 175))
                      \<or> (a = 226 \<and> b = 129 \<and> c = 159)
                      \<or> (a = 227 \<and> b = 128 \<and> c = 128)
                    then 3 else 0)))"

text \<open>The same for the last character of a string.\<close>

definition ws_last :: "string \<Rightarrow> nat" where
  "ws_last s =
     (if s \<noteq> [] \<and> ws_head [last s] = 1 then 1
      else if 2 \<le> length s \<and> ws_head (drop (length s - 2) s) = 2 then 2
      else if 3 \<le> length s \<and> ws_head (drop (length s - 3) s) = 3 then 3
      else 0)"

lemma ws_head_le: "ws_head s \<le> length s"
  by (cases s; cases "tl s"; cases "tl (tl s)") (auto simp: ws_head_def)

function trim_start :: "string \<Rightarrow> string" where
  "trim_start s = (if ws_head s = 0 then s else trim_start (drop (ws_head s) s))"
  by pat_completeness auto
termination
proof (relation "measure length")
  fix s :: string
  assume a: "ws_head s \<noteq> 0"
  with ws_head_le [of s] have "length s > 0" by linarith
  with a show "(drop (ws_head s) s, s) \<in> measure length" by simp
qed simp

declare trim_start.simps [simp del]

function trim_end :: "string \<Rightarrow> string" where
  "trim_end s = (if ws_last s = 0 then s else trim_end (take (length s - ws_last s) s))"
  by pat_completeness auto
termination
proof (relation "measure length")
  fix s :: string
  assume "ws_last s \<noteq> 0"
  then show "(take (length s - ws_last s) s, s) \<in> measure length"
    by (cases s) (auto simp: ws_last_def split: if_splits)
qed simp

declare trim_end.simps [simp del]

definition trim :: "string \<Rightarrow> string" where
  "trim s = trim_end (trim_start s)"

text \<open>\<open>split_whitespace\<close>: the maximal runs of characters that are not whitespace.\<close>

fun push_word :: "string \<Rightarrow> string list \<Rightarrow> string list" where
  "push_word [] ws = ws"
| "push_word w ws = rev w # ws"

function split_words :: "string \<Rightarrow> string \<Rightarrow> string list" where
  "split_words w s =
     (if s = [] then push_word w []
      else if ws_head s = 0 then split_words (hd s # w) (tl s)
      else push_word w (split_words [] (drop (ws_head s) s)))"
  by pat_completeness auto
termination
  by (relation "measure (\<lambda>(w, s). length s)") auto

declare split_words.simps [simp del]

definition split_whitespace :: "string \<Rightarrow> string list" where
  "split_whitespace s = split_words [] s"

lemma starts_with_append [simp]: "starts_with (p @ s) p"
  by (induction p) auto

lemma starts_with_iff: "starts_with s p \<longleftrightarrow> (\<exists>t. s = p @ t)"
  by (induction s p rule: starts_with.induct) auto

lemma strip_prefix_iff: "strip_prefix p s = Some t \<longleftrightarrow> s = p @ t"
  by (auto simp: strip_prefix_def starts_with_iff)

lemma split_char_ne [simp]: "split_char d s \<noteq> []"
  by (cases s) (auto split: list.splits)

lemma join_split_char: "join [d] (split_char d s) = s"
proof (induction s)
  case (Cons c s)
  obtain w ws where s: "split_char d s = w # ws" by (cases "split_char d s") auto
  with Cons show ?case by (cases ws) auto
qed simp

lemma split_char_join:
  assumes "ws \<noteq> []" and "\<forall>w\<in>set ws. d \<notin> set w"
  shows "split_char d (join [d] ws) = ws"
proof -
  have one: "split_char d w = [w]" if "d \<notin> set w" for w
    using that by (induction w) auto
  have sep: "split_char d (w @ d # s) = w # split_char d s" if "d \<notin> set w" for w s
    using that by (induction w) auto
  show ?thesis
    using assms by (induction "[d]" ws rule: join.induct) (auto simp: one sep)
qed

section \<open>\<open>i64\<close>\<close>

definition i64_min :: int where
  "i64_min = - (2 ^ 63)"

definition i64_max :: int where
  "i64_max = 2 ^ 63 - 1"

definition is_i64 :: "int \<Rightarrow> bool" where
  "is_i64 n = (i64_min \<le> n \<and> n \<le> i64_max)"

text \<open>\<open>checked_add\<close>, \<open>checked_mul\<close>, \<open>saturating_sub\<close>; \<open>+\<close> and \<open>*\<close> panic on overflow in a
  build with overflow checks.\<close>

definition i64_checked :: "int \<Rightarrow> int option" where
  "i64_checked n = (if is_i64 n then Some n else None)"

definition i64_or_panic :: "int \<Rightarrow> int rust" where
  "i64_or_panic n = (if is_i64 n then Ret n else Panic)"

definition i64_saturating :: "int \<Rightarrow> int" where
  "i64_saturating n = max i64_min (min i64_max n)"

lemma i64_checked_eq_Some [simp]: "i64_checked n = Some m \<longleftrightarrow> is_i64 n \<and> m = n"
  by (auto simp: i64_checked_def)

lemma is_i64_saturating [simp]: "is_i64 (i64_saturating n)"
  by (auto simp: is_i64_def i64_saturating_def i64_min_def i64_max_def)

lemma i64_saturating_id [simp]: "is_i64 n \<Longrightarrow> i64_saturating n = n"
  by (auto simp: is_i64_def i64_saturating_def)

section \<open>Decimal rendering and parsing\<close>

definition digit_char :: "nat \<Rightarrow> char" where
  "digit_char d = byte (48 + d)"

function show_digits :: "int \<Rightarrow> string" where
  "show_digits n =
     (if n < 10 then [digit_char (nat n)] else show_digits (n div 10) @ [digit_char (nat (n mod 10))])"
  by pat_completeness auto
termination
  by (relation "measure nat") auto

declare show_digits.simps [simp del]

text \<open>\<open>to_string\<close> of an \<open>i64\<close>.\<close>

definition show_int :: "int \<Rightarrow> string" where
  "show_int n = (if n < 0 then ''-'' @ show_digits (- n) else show_digits n)"

datatype parse_int_error = Empty_Digits | Invalid_Digit | Pos_Overflow | Neg_Overflow

definition digit_of :: "char \<Rightarrow> nat option" where
  "digit_of c = (if is_ascii_digit c then Some (code c - 48) else None)"

text \<open>
  The loop of \<open>from_str_radix\<close>: the digits are added for a non-negative number and subtracted
  for a negative one; the first failure in the order of the digits is reported.
\<close>

fun parse_digits :: "bool \<Rightarrow> int \<Rightarrow> string \<Rightarrow> parse_int_error + int" where
  "parse_digits neg acc [] = Inr acc"
| "parse_digits neg acc (c # cs) =
     (if \<not> is_i64 (acc * 10) then
        (case digit_of c of
           None \<Rightarrow> Inl Invalid_Digit
         | Some d \<Rightarrow> Inl (if neg then Neg_Overflow else Pos_Overflow))
      else (case digit_of c of
           None \<Rightarrow> Inl Invalid_Digit
         | Some d \<Rightarrow>
             (let r = (if neg then acc * 10 - int d else acc * 10 + int d) in
              if is_i64 r then parse_digits neg r cs
              else Inl (if neg then Neg_Overflow else Pos_Overflow))))"

text \<open>\<open>parse::<i64>\<close>: an optional sign, then at least one digit.\<close>

definition parse_i64 :: "string \<Rightarrow> parse_int_error + int" where
  "parse_i64 s = (case s of
      [] \<Rightarrow> Inl Empty_Digits
    | c # cs \<Rightarrow>
        if (c = CHR ''+'' \<or> c = CHR ''-'') \<and> cs = [] then Inl Invalid_Digit
        else if c = CHR ''+'' then parse_digits False 0 cs
        else if c = CHR ''-'' then parse_digits True 0 cs
        else parse_digits False 0 s)"

lemma code_byte [simp]: "n < 256 \<Longrightarrow> code (byte n) = (n::nat)"
  by (simp add: byte_def)

lemma digit_of_digit_char [simp]: "d < 10 \<Longrightarrow> digit_of (digit_char d) = Some d"
  by (simp add: digit_of_def digit_char_def is_ascii_digit_def)

lemma parse_digits_append:
  "parse_digits neg acc (xs @ ys)
    = (case parse_digits neg acc xs of Inl e \<Rightarrow> Inl e | Inr a \<Rightarrow> parse_digits neg a ys)"
  by (induction neg acc xs rule: parse_digits.induct) (auto simp: Let_def split: option.splits)

lemma parse_digits_show:
  assumes "0 \<le> n" and "is_i64 (if neg then - n else n)"
  shows "parse_digits neg 0 (show_digits n) = Inr (if neg then - n else n)"
  using assms
proof (induction n rule: show_digits.induct)
  case (1 n)
  show ?case
  proof (cases "n < 10")
    case True
    then show ?thesis
      using 1(2,3) by (subst show_digits.simps) (simp add: is_i64_def i64_min_def i64_max_def)
  next
    case False
    have n: "n = n div 10 * 10 + n mod 10" "0 \<le> n mod 10" "n mod 10 < 10" "0 \<le> n div 10"
      using False by simp_all
    have i: "is_i64 (if neg then - (n div 10) else n div 10)"
      "is_i64 ((if neg then - (n div 10) else n div 10) * 10)"
      using 1(3) n unfolding is_i64_def i64_min_def i64_max_def by (cases neg; simp; linarith)+
    have d: "digit_of (digit_char (nat (n mod 10))) = Some (nat (n mod 10))"
      using n by simp
    have IH: "parse_digits neg 0 (show_digits (n div 10))
        = Inr (if neg then - (n div 10) else n div 10)"
      by (rule 1(1) [OF False n(4) i(1)])
    have sh: "show_digits n = show_digits (n div 10) @ [digit_char (nat (n mod 10))]"
      using False by (subst show_digits.simps) simp
    have r: "(if neg then (if neg then - (n div 10) else n div 10) * 10 - int (nat (n mod 10))
        else (if neg then - (n div 10) else n div 10) * 10 + int (nat (n mod 10)))
        = (if neg then - n else n)"
    proof -
      have "n div 10 * 10 = n - n mod 10"
        using n(1) by linarith
      with n(2) show ?thesis by simp
    qed
    show ?thesis
      unfolding sh parse_digits_append IH sum.case parse_digits.simps d option.case Let_def r
      using i(2) 1(3) by simp
  qed
qed

lemma show_digits_head:
  assumes "0 \<le> n"
  shows "\<exists>d cs. show_digits n = digit_char d # cs \<and> d < 10"
  using assms
proof (induction n rule: show_digits.induct)
  case (1 n)
  show ?case
  proof (cases "n < 10")
    case True
    with 1(2) show ?thesis by (subst show_digits.simps) auto
  next
    case False
    then have "0 \<le> n div 10" by simp
    with 1(1) [OF False] obtain d cs where "show_digits (n div 10) = digit_char d # cs" "d < 10"
      by blast
    with False show ?thesis by (subst show_digits.simps) auto
  qed
qed

lemma digit_not_sign: "d < 10 \<Longrightarrow> digit_char d \<noteq> CHR ''+'' \<and> digit_char d \<noteq> CHR ''-''"
proof -
  assume "d < 10"
  then have "code (digit_char d) = 48 + d"
    by (simp add: digit_char_def)
  then show ?thesis
    by (auto dest: arg_cong [where f = "of_char :: char \<Rightarrow> nat"])
qed

text \<open>Parsing what was printed gives the number back.\<close>

lemma parse_show_i64 [simp]:
  assumes "is_i64 n"
  shows "parse_i64 (show_int n) = Inr n"
proof (cases "n < 0")
  case True
  then show ?thesis
    using assms parse_digits_show [of "- n" True] show_digits_head [of "- n"] by (simp add: show_int_def parse_i64_def)
      (auto simp: is_i64_def)
next
  case False
  obtain d cs where d: "show_digits n = digit_char d # cs" "d < 10"
    using show_digits_head [of n] False by auto
  show ?thesis
    using False assms parse_digits_show [of n False] d digit_not_sign [of d]
    by (simp add: show_int_def parse_i64_def)
qed

text \<open>A string between single quotes, as the messages show arguments.\<close>

definition quoted :: "string \<Rightarrow> string" where
  "quoted s = CHR 0x27 # s @ [CHR 0x27]"

section \<open>Results\<close>

text \<open>The \<open>?\<close> operator, \<open>map_err\<close>, and \<open>map(f).transpose()?\<close> of an \<open>Option\<close>.\<close>

fun and_then :: "'e + 'a \<Rightarrow> ('a \<Rightarrow> 'e + 'b) \<Rightarrow> 'e + 'b" where
  "and_then (Inl e) f = Inl e"
| "and_then (Inr x) f = f x"

fun map_err :: "('e \<Rightarrow> 'f) \<Rightarrow> 'e + 'a \<Rightarrow> 'f + 'a" where
  "map_err f (Inl e) = Inl (f e)"
| "map_err f (Inr x) = Inr x"

fun map_transpose :: "('a \<Rightarrow> 'e + 'b) \<Rightarrow> 'a option \<Rightarrow> 'e + 'b option" where
  "map_transpose f None = Inr None"
| "map_transpose f (Some x) = and_then (f x) (\<lambda>y. Inr (Some y))"

fun ok_or :: "'e \<Rightarrow> 'a option \<Rightarrow> 'e + 'a" where
  "ok_or e None = Inl e"
| "ok_or e (Some x) = Inr x"

fun is_err :: "'e + 'a \<Rightarrow> bool" where
  "is_err (Inl _) = True"
| "is_err (Inr _) = False"

lemma and_then_eq_Inr [simp]: "and_then m f = Inr y \<longleftrightarrow> (\<exists>x. m = Inr x \<and> f x = Inr y)"
  by (cases m) auto

lemma map_err_eq_Inr [simp]: "map_err f m = Inr y \<longleftrightarrow> m = Inr y"
  by (cases m) auto

lemma ok_or_eq_Inr [simp]: "ok_or e x = Inr y \<longleftrightarrow> x = Some y"
  by (cases x) auto

lemma map_transpose_eq_Inr:
  "map_transpose f x = Inr y \<longleftrightarrow> (case x of None \<Rightarrow> y = None
    | Some a \<Rightarrow> (\<exists>b. f a = Inr b \<and> y = Some b))"
  by (cases x) auto

section \<open>Enumerations stored as strings\<close>

text \<open>
  The contract of an enum with \<open>as_str\<close> and \<open>FromStr\<close> whose values are stored as text: every
  value is read back, and nothing else is accepted.
\<close>

locale str_codec =
  fixes as_str :: "'a \<Rightarrow> string" and from_str :: "string \<Rightarrow> 'e + 'a"
  assumes from_as [simp]: "from_str (as_str x) = Inr x"
    and as_from: "from_str s = Inr x \<Longrightarrow> as_str x = s"
begin

lemma as_str_inject: "as_str x = as_str y \<longleftrightarrow> x = y"
  using from_as by (metis sum.inject(2))

lemma accepts_iff: "(\<exists>x. from_str s = Inr x) \<longleftrightarrow> s \<in> range as_str"
  using as_from by force

text \<open>A nullable column.\<close>

lemma transpose_as_str [simp]: "map_transpose from_str (map_option as_str x) = Inr x"
  by (cases x) auto

lemma transpose_from_str: "map_transpose from_str s = Inr x \<Longrightarrow> map_option as_str x = s"
  by (cases s) (auto dest: as_from)

end

end
