(* ===== verification/Db_Error.thy ===== *)
theory Db_Error
  imports Rust_Std
begin

text \<open>The errors of the repositories (\<open>aionui-db/src/error.rs\<close>). The payload of an \<open>sqlx\<close> error is its
  text.\<close>

datatype db_error = Db_Query string | Db_Migration string | Db_Not_Found string | Db_Conflict string
  | Db_Init string

end
