(* ===== verification/Work_Model.thy ===== *)
theory Work_Model
  imports Db_Error
begin

text \<open>
  The data of the team work coordinator: \<open>aionui-team/src/work_source.rs\<close> and
  \<open>aionui-team/src/work_coordinator/model.rs\<close>. Each Rust struct is a record, each enum a
  datatype. Record fields carry a prefix of their struct (\<open>wi_\<close> for \<open>WorkIntent\<close>, \<open>wb_\<close> for
  \<open>WorkBatch\<close>, \<dots>), constructors a prefix of their enum (\<open>Rc\<close> for \<open>RuntimeConstraint\<close>, \<open>Ws\<close> for
  \<open>WorkIntentState\<close>, \<dots>), because several Rust types share their names.
\<close>

type_synonym timestamp_ms = int

datatype target_role = RoleLead | RoleTeammate

datatype team_error =
    TeamNotFound string
  | AgentNotFound string
  | TaskNotFound string
  | InvalidRequest string
  | LeaderOnly string
  | Forbidden string
  | SessionNotFound string
  | BlockedTaskNotFound string
  | BackendNotAllowed string
  | DuplicateAgentName string
  | RuntimeNotReady string
  | MemberRuntimeFailed string string string string
  | WorkspacePathUnavailable string
  | WorkspacePathRuntimeUnavailable string
  | DatabaseError db_error
  | JsonError string

section \<open>Work sources\<close>

datatype work_source =
    UserMessage
  | UserIntervention
  | McpSendMessage
  | McpShutdownRequest
  | SpawnWelcome
  | TeamMembershipChanged
  | SpawnAttachFailure
  | IdleNotification
  | InterruptedNotification
  | ShutdownRejected
  | RecoveryDrain

datatype work_priority = Foreground | Control | Background

fun priority :: "work_source \<Rightarrow> work_priority" where
  "priority UserMessage = Foreground"
| "priority UserIntervention = Foreground"
| "priority McpShutdownRequest = Control"
| "priority ShutdownRejected = Control"
| "priority McpSendMessage = Background"
| "priority SpawnWelcome = Background"
| "priority TeamMembershipChanged = Background"
| "priority SpawnAttachFailure = Background"
| "priority IdleNotification = Background"
| "priority InterruptedNotification = Background"
| "priority RecoveryDrain = Background"

definition resumes_paused_slot :: "work_source \<Rightarrow> bool" where
  "resumes_paused_slot s \<longleftrightarrow> s = UserMessage \<or> s = UserIntervention"

definition requires_mailbox_message :: "work_source \<Rightarrow> bool" where
  "requires_mailbox_message s \<longleftrightarrow>
     List.member [UserMessage, UserIntervention, McpSendMessage, McpShutdownRequest, SpawnWelcome,
       SpawnAttachFailure, InterruptedNotification, ShutdownRejected, RecoveryDrain] s"

text \<open>The \<open>Debug\<close> rendering used in the error message of \<open>commit_enqueue\<close>.\<close>

fun source_debug :: "work_source \<Rightarrow> string" where
  "source_debug UserMessage = ''UserMessage''"
| "source_debug UserIntervention = ''UserIntervention''"
| "source_debug McpSendMessage = ''McpSendMessage''"
| "source_debug McpShutdownRequest = ''McpShutdownRequest''"
| "source_debug SpawnWelcome = ''SpawnWelcome''"
| "source_debug TeamMembershipChanged = ''TeamMembershipChanged''"
| "source_debug SpawnAttachFailure = ''SpawnAttachFailure''"
| "source_debug IdleNotification = ''IdleNotification''"
| "source_debug InterruptedNotification = ''InterruptedNotification''"
| "source_debug ShutdownRejected = ''ShutdownRejected''"
| "source_debug RecoveryDrain = ''RecoveryDrain''"

text \<open>The \<open>Display\<close> rendering.\<close>

fun source_display :: "work_source \<Rightarrow> string" where
  "source_display UserMessage = ''user_message''"
| "source_display UserIntervention = ''user_intervention''"
| "source_display McpSendMessage = ''mcp_send_message''"
| "source_display McpShutdownRequest = ''mcp_shutdown_request''"
| "source_display SpawnWelcome = ''spawn_welcome''"
| "source_display TeamMembershipChanged = ''team_membership_changed''"
| "source_display SpawnAttachFailure = ''spawn_attach_failure''"
| "source_display IdleNotification = ''idle_notification''"
| "source_display InterruptedNotification = ''interrupted_notification''"
| "source_display ShutdownRejected = ''shutdown_rejected''"
| "source_display RecoveryDrain = ''recovery_drain''"

section \<open>Intents, leases and batches\<close>

datatype runtime_constraint =
    RcReady
  | RcStarting "64 word"
  | RcFailed "64 word" string
  | RcRemoving "64 word"
  | RcSessionStopped

datatype slot_phase = SpIdle | SpQueued | SpStarting | SpRunning | SpPaused | SpBlocked

datatype work_intent_state =
    WsQueued
  | WsStarting string "64 word"
  | WsRunning string "64 word" string
  | WsCompleted
  | WsFailed string
  | WsCancelled string

fun is_terminal :: "work_intent_state \<Rightarrow> bool" where
  "is_terminal WsCompleted = True"
| "is_terminal (WsFailed _) = True"
| "is_terminal (WsCancelled _) = True"
| "is_terminal _ = False"

record work_intent =
  wi_intent_id :: string
  wi_session_generation :: string
  wi_slot_id :: string
  wi_role :: target_role
  wi_source :: work_source
  wi_priority :: work_priority
  wi_mailbox_message_id :: "string option"
  wi_team_run_id :: "string option"
  wi_created_at_ms :: timestamp_ms
  wi_state :: work_intent_state

datatype causal_binding =
    UserVisible
  | InheritRunningBatch string
  | ActiveRunOrBackground
  | BackgroundBinding

record enqueue_request =
  er_slot_id :: string
  er_role :: target_role
  er_source :: work_source
  er_binding :: causal_binding

record enqueue_lease =
  el_lease_id :: string
  el_session_generation :: string
  el_slot_id :: string
  el_role :: target_role
  el_source :: work_source
  el_team_run_id :: "string option"

record work_batch =
  wb_batch_id :: string
  wb_session_generation :: string
  wb_slot_id :: string
  wb_intent_ids :: "string list"
  wb_mailbox_message_ids :: "string list"
  wb_highest_priority :: work_priority
  wb_team_run_ids :: "string list"
  wb_operation_id :: "64 word"

datatype reconcile_decision =
    Claim work_batch
  | WaitingForCompletion
  | Blocked runtime_constraint
  | SettleSignals "string list"
  | Quiescent

datatype commit_result = Committed | StaleOwner | Rejected

datatype start_commit_result = StartAccepted | CancelImmediately | StartStaleOwner

datatype enqueue_disposition = DispAccepted | DispQueued | BlockedRuntimeStarting

section \<open>Snapshots and results\<close>

record slot_work_snapshot =
  sw_slot_id :: string
  sw_role :: target_role
  sw_state :: slot_phase
  sw_queued_foreground_count :: nat
  sw_queued_background_count :: nat
  sw_active_batch :: "work_batch option"
  sw_active_turn_id :: "string option"
  sw_active_turn_started_at_ms :: "timestamp_ms option"
  sw_runtime_constraint :: runtime_constraint
  sw_team_run_id :: "string option"

record enqueue_commit =
  ec_intent_id :: string
  ec_team_run_id :: "string option"
  ec_disposition :: enqueue_disposition
  ec_slot :: slot_work_snapshot

record run_work_summary =
  rs_team_run_id :: string
  rs_queued_intent_count :: nat
  rs_starting_batch_count :: nat
  rs_running_batch_count :: nat
  rs_active_enqueue_lease_count :: nat
  rs_paused_intent_count :: nat
  rs_failed_intent_count :: nat
  rs_slots :: "slot_work_snapshot list"

record coordinator_snapshot =
  sn_session_generation :: string
  sn_slots :: "slot_work_snapshot list"
  sn_active_run_summary :: "run_work_summary option"

record reconcile_projection =
  rp_created_recovery_intent_ids :: "string list"
  rp_retained_intent_ids :: "string list"
  rp_cleared_stale_intent_ids :: "string list"

record batch_cancel_target =
  bc_batch :: work_batch
  bc_turn_id :: "string option"

record pause_work_result =
  pw_cancel_target :: "batch_cancel_target option"
  pw_slot :: slot_work_snapshot

record remove_work_result =
  rw_cancel_target :: "batch_cancel_target option"
  rw_terminal_message_ids :: "string list"
  rw_affected_run_summaries :: "run_work_summary list"

record cancel_run_work_result =
  cr_cancel_targets :: "batch_cancel_target list"
  cr_terminal_message_ids :: "string list"
  cr_summary :: run_work_summary

record runtime_constraint_update =
  rcu_slot :: slot_work_snapshot
  rcu_terminal_message_ids :: "string list"
  rcu_affected_run_summaries :: "run_work_summary list"

record run_binding =
  rb_team_run_id :: "string option"
  rb_created_new_run :: bool
  rb_user_intervention :: bool

text \<open>
  The trait \<open>RunCausalityPort\<close>: a trait object is a record of its methods, each over the state
  \<open>'r\<close> behind the object. \<open>bind_enqueue\<close> may generate one identifier, \<open>apply_work_summary\<close>
  may read the clock; both are arguments of the implementation, not of the trait.
\<close>

record 'r run_causality_port =
  bind_enqueue :: "enqueue_request \<Rightarrow> 'r \<Rightarrow> run_binding \<times> 'r"
  abort_binding :: "run_binding \<Rightarrow> 'r \<Rightarrow> 'r"
  apply_work_summary :: "run_work_summary \<Rightarrow> 'r \<Rightarrow> 'r"

section \<open>Facts about the data\<close>

lemma source_display_inj: "source_display a = source_display b \<longleftrightarrow> a = b"
  by (cases a; cases b) simp_all

lemma foreground_resumes: "resumes_paused_slot s \<longleftrightarrow> priority s = Foreground"
  by (cases s) (simp_all add: resumes_paused_slot_def)

lemma no_message_is_background:
  "\<not> requires_mailbox_message s \<Longrightarrow> priority s = Background"
  by (cases s) (simp_all add: requires_mailbox_message_def)

lemma is_terminal_cases:
  "\<not> is_terminal s \<longleftrightarrow> s = WsQueued \<or> (\<exists>b p. s = WsStarting b p) \<or> (\<exists>b p t. s = WsRunning b p t)"
  by (cases s) auto

end
