(* ===== verification/Work_Coordinator.thy ===== *)
theory Work_Coordinator
  imports Work_Model
begin

text \<open>
  The team work coordinator: \<open>SlotState\<close>, \<open>CoordinatorState\<close> and every operation of
  \<open>SlotWorkCoordinator\<close> (\<open>aionui-team/src/work_coordinator/coordinator.rs\<close>), with the snapshot
  functions of \<open>snapshot.rs\<close>.

  An operation takes the coordinator and returns its result with the new coordinator. Each
  operation holds the state mutex from its first to its last access to the state, so its section under the mutex
  is one atomic step, in which it also makes the summaries. The calls of the port that the source makes after it
  has dropped the mutex (the summaries, \<open>abort_binding\<close>) are made here at the end of the operation, and the port
  decides what they mean: \<open>manager_port\<close> (\<open>Team_Run\<close>) applies a call at once, as when no other thread comes in
  between; \<open>outbox_port\<close> (\<open>Run_Publication\<close>) keeps it as a message that a later step delivers. What the code
  reads from outside is an argument: the identifiers \<open>generate_id()\<close> returns, the clock, and the
  \<open>RunCausalityPort\<close>. An operation that contains an \<open>expect\<close> or an \<open>unreachable!\<close> has a result
  in \<open>rust\<close>. Logging is left out.
\<close>

section \<open>State\<close>

record lease_record =
  lr_lease :: enqueue_lease
  lr_binding :: run_binding

record active_batch =
  ab_batch :: work_batch
  ab_turn_id :: "string option"
  ab_started_at_ms :: "timestamp_ms option"

record slot_state =
  ss_role :: target_role
  ss_foreground :: "string list"
  ss_control :: "string list"
  ss_background :: "string list"
  ss_active :: "active_batch option"
  ss_paused :: bool
  ss_runtime_constraint :: runtime_constraint
  ss_known_unread_message_ids :: "string set"
  ss_removed :: bool

type_synonym slots = "(string, slot_state) bmap"
type_synonym intents = "(string, work_intent) hmap"
type_synonym leases = "(string, lease_record) hmap"

record coordinator_state =
  cs_slots :: slots
  cs_intents :: intents
  cs_enqueue_leases :: leases
  cs_next_operation_id :: "64 word"

record 'r coordinator =
  co_team_id :: string
  co_session_generation :: string
  co_run_causality :: 'r
  co_state :: coordinator_state

definition slot_new :: "target_role \<Rightarrow> slot_state" where
  "slot_new role =
     \<lparr>ss_role = role, ss_foreground = [], ss_control = [], ss_background = [], ss_active = None,
      ss_paused = False, ss_runtime_constraint = RcStarting 0,
      ss_known_unread_message_ids = {}, ss_removed = False\<rparr>"

fun queue :: "work_priority \<Rightarrow> slot_state \<Rightarrow> string list" where
  "queue Foreground s = ss_foreground s"
| "queue Control s = ss_control s"
| "queue Background s = ss_background s"

text \<open>An assignment through \<open>queue_mut\<close>.\<close>

fun queue_mut :: "work_priority \<Rightarrow> (string list \<Rightarrow> string list) \<Rightarrow> slot_state \<Rightarrow> slot_state" where
  "queue_mut Foreground f s = s\<lparr>ss_foreground := f (ss_foreground s)\<rparr>"
| "queue_mut Control f s = s\<lparr>ss_control := f (ss_control s)\<rparr>"
| "queue_mut Background f s = s\<lparr>ss_background := f (ss_background s)\<rparr>"

definition queued_ids :: "slot_state \<Rightarrow> string list" where
  "queued_ids s = ss_foreground s @ ss_control s @ ss_background s"

definition remove_queued :: "string \<Rightarrow> slot_state \<Rightarrow> slot_state" where
  "remove_queued x s =
     s\<lparr>ss_foreground := filter (\<lambda>y. y \<noteq> x) (ss_foreground s),
       ss_control := filter (\<lambda>y. y \<noteq> x) (ss_control s),
       ss_background := filter (\<lambda>y. y \<noteq> x) (ss_background s)\<rparr>"

definition push_back :: "string \<Rightarrow> string list \<Rightarrow> string list" where
  "push_back x xs = xs @ [x]"

definition empty_state :: coordinator_state where
  "empty_state = \<lparr>cs_slots = [], cs_intents = [], cs_enqueue_leases = [], cs_next_operation_id = 0\<rparr>"

definition new_coordinator :: "string \<Rightarrow> string \<Rightarrow> 'r \<Rightarrow> 'r coordinator" where
  "new_coordinator team_id generation run =
     \<lparr>co_team_id = team_id, co_session_generation = generation, co_run_causality = run,
      co_state = empty_state\<rparr>"

abbreviation set_state :: "work_intent_state \<Rightarrow> work_intent \<Rightarrow> work_intent" where
  "set_state s i \<equiv> i\<lparr>wi_state := s\<rparr>"

text \<open>\<open>entry(key).or_insert_with(default)\<close> followed by an assignment to the entry.\<close>

definition entry_update :: "string \<Rightarrow> slot_state \<Rightarrow> (slot_state \<Rightarrow> slot_state) \<Rightarrow> slots \<Rightarrow> slots" where
  "entry_update k d f m = bt_insert k (f (case map_of m k of None \<Rightarrow> d | Some s \<Rightarrow> s)) m"

section \<open>Snapshots\<close>

definition slot_phase_of :: "slot_state \<Rightarrow> slot_phase" where
  "slot_phase_of slot =
     (if ss_paused slot then SpPaused
      else if Option.bind (ss_active slot) ab_turn_id \<noteq> None then SpRunning
      else if ss_active slot \<noteq> None then SpStarting
      else if ss_runtime_constraint slot \<noteq> RcReady then SpBlocked
      else if queued_ids slot \<noteq> [] then SpQueued
      else SpIdle)"

definition first_run_id :: "string list \<Rightarrow> string option" where
  "first_run_id xs = (case xs of [] \<Rightarrow> None | x # _ \<Rightarrow> Some x)"

fun find_queued_run :: "intents \<Rightarrow> string list \<Rightarrow> string option" where
  "find_queued_run m [] = None"
| "find_queued_run m (x # xs) =
     (case Option.bind (map_of m x) wi_team_run_id of
        Some r \<Rightarrow> Some r
      | None \<Rightarrow> find_queued_run m xs)"

definition slot_snapshot_locked :: "coordinator_state \<Rightarrow> string \<Rightarrow> slot_work_snapshot option" where
  "slot_snapshot_locked st slot_id =
     map_option (\<lambda>slot.
       \<lparr>sw_slot_id = slot_id, sw_role = ss_role slot, sw_state = slot_phase_of slot,
        sw_queued_foreground_count = length (ss_foreground slot),
        sw_queued_background_count = length (ss_control slot) + length (ss_background slot),
        sw_active_batch = map_option ab_batch (ss_active slot),
        sw_active_turn_id = Option.bind (ss_active slot) ab_turn_id,
        sw_active_turn_started_at_ms = Option.bind (ss_active slot) ab_started_at_ms,
        sw_runtime_constraint = ss_runtime_constraint slot,
        sw_team_run_id =
          (case Option.bind (ss_active slot) (\<lambda>a. first_run_id (wb_team_run_ids (ab_batch a))) of
             Some r \<Rightarrow> Some r
           | None \<Rightarrow> find_queued_run (cs_intents st) (queued_ids slot))\<rparr>)
       (map_of (cs_slots st) slot_id)"

definition associated :: "coordinator_state \<Rightarrow> string \<Rightarrow> work_intent list" where
  "associated st run = filter (\<lambda>i. wi_team_run_id i = Some run) (hm_values (cs_intents st))"

definition run_leases :: "coordinator_state \<Rightarrow> string \<Rightarrow> enqueue_lease list" where
  "run_leases st run =
     filter (\<lambda>l. el_team_run_id l = Some run) (map lr_lease (hm_values (cs_enqueue_leases st)))"

fun starting_batch :: "work_intent_state \<Rightarrow> string option" where
  "starting_batch (WsStarting b p) = Some b"
| "starting_batch _ = None"

fun running_batch :: "work_intent_state \<Rightarrow> string option" where
  "running_batch (WsRunning b p t) = Some b"
| "running_batch _ = None"

fun is_failed :: "work_intent_state \<Rightarrow> bool" where
  "is_failed (WsFailed _) = True"
| "is_failed _ = False"

definition slot_is_paused :: "coordinator_state \<Rightarrow> string \<Rightarrow> bool" where
  "slot_is_paused st k = (case map_of (cs_slots st) k of None \<Rightarrow> False | Some s \<Rightarrow> ss_paused s)"

definition run_summary_locked :: "coordinator_state \<Rightarrow> string \<Rightarrow> run_work_summary" where
  "run_summary_locked st run =
     (let assoc = associated st run; leases = run_leases st run in
      \<lparr>rs_team_run_id = run,
       rs_queued_intent_count = length (filter (\<lambda>i. wi_state i = WsQueued) assoc),
       rs_starting_batch_count =
         hash_set_len (List.map_filter (\<lambda>i. starting_batch (wi_state i)) assoc),
       rs_running_batch_count =
         hash_set_len (List.map_filter (\<lambda>i. running_batch (wi_state i)) assoc),
       rs_active_enqueue_lease_count = length leases,
       rs_paused_intent_count =
         length (filter (\<lambda>i. wi_state i = WsQueued \<and> slot_is_paused st (wi_slot_id i)) assoc),
       rs_failed_intent_count = length (filter (\<lambda>i. is_failed (wi_state i)) assoc),
       rs_slots =
         List.map_filter (slot_snapshot_locked st)
           (btree_set (map wi_slot_id assoc @ map el_slot_id leases))\<rparr>)"

definition run_summaries_locked :: "coordinator_state \<Rightarrow> string list \<Rightarrow> run_work_summary list" where
  "run_summaries_locked st run_ids = map (run_summary_locked st) (btree_set run_ids)"

text \<open>The calls of the port after the mutex is dropped, one per summary; with an outbox they are only sent.\<close>

definition publish_run_summaries ::
  "'r run_causality_port \<Rightarrow> run_work_summary list \<Rightarrow> 'r \<Rightarrow> 'r" where
  "publish_run_summaries P summaries r = fold (apply_work_summary P) summaries r"

definition all_run_ids :: "coordinator_state \<Rightarrow> string list" where
  "all_run_ids st =
     btree_set (List.map_filter wi_team_run_id (hm_values (cs_intents st)) @
                List.map_filter (\<lambda>l. el_team_run_id (lr_lease l)) (hm_values (cs_enqueue_leases st)))"

definition slot_snapshot :: "string \<Rightarrow> 'r coordinator \<Rightarrow> slot_work_snapshot option" where
  "slot_snapshot slot_id c = slot_snapshot_locked (co_state c) slot_id"

definition summary_has_work :: "run_work_summary \<Rightarrow> bool" where
  "summary_has_work s \<longleftrightarrow>
     0 < rs_queued_intent_count s \<or> 0 < rs_starting_batch_count s \<or> 0 < rs_running_batch_count s
     \<or> 0 < rs_active_enqueue_lease_count s \<or> 0 < rs_paused_intent_count s"

definition snapshot :: "'r coordinator \<Rightarrow> coordinator_snapshot" where
  "snapshot c =
     (let st = co_state c in
      \<lparr>sn_session_generation = co_session_generation c,
       sn_slots = List.map_filter (slot_snapshot_locked st) (map fst (cs_slots st)),
       sn_active_run_summary =
         List.find summary_has_work (map (run_summary_locked st) (all_run_ids st))\<rparr>)"

text \<open>The end of an operation: the state as the section under the mutex leaves it, and the summaries handed to the port.\<close>

definition commit_state ::
  "'r run_causality_port \<Rightarrow> coordinator_state \<Rightarrow> run_work_summary list \<Rightarrow> 'r coordinator
   \<Rightarrow> 'r coordinator" where
  "commit_state P st summaries c =
     c\<lparr>co_state := st, co_run_causality := publish_run_summaries P summaries (co_run_causality c)\<rparr>"

section \<open>Enqueueing\<close>

fun validate_enqueue_constraint :: "string \<Rightarrow> slot_state \<Rightarrow> team_error + unit" where
  "validate_enqueue_constraint slot_id slot =
     (if ss_removed slot then Inl (InvalidRequest (''Team slot was removed: '' @ slot_id))
      else case ss_runtime_constraint slot of
        RcReady \<Rightarrow> Inr ()
      | RcStarting _ \<Rightarrow> Inr ()
      | RcFailed _ classification \<Rightarrow>
          Inl (InvalidRequest (''Team slot runtime failed ('' @ classification @ ''): '' @ slot_id))
      | RcRemoving _ \<Rightarrow> Inl (InvalidRequest (''Team slot is being removed: '' @ slot_id))
      | RcSessionStopped \<Rightarrow> Inl (InvalidRequest (''Team session stopped for slot: '' @ slot_id)))"

definition resolve_binding ::
  "'r run_causality_port \<Rightarrow> enqueue_request \<Rightarrow> slots \<Rightarrow> 'r \<Rightarrow> run_binding \<times> 'r" where
  "resolve_binding P request slots run =
     (case er_binding request of
        BackgroundBinding \<Rightarrow>
          (\<lparr>rb_team_run_id = None, rb_created_new_run = False, rb_user_intervention = False\<rparr>, run)
      | InheritRunningBatch caller \<Rightarrow>
          (\<lparr>rb_team_run_id =
              Option.bind (Option.bind (map_of slots caller) ss_active)
                (\<lambda>a. first_run_id (wb_team_run_ids (ab_batch a))),
            rb_created_new_run = False, rb_user_intervention = False\<rparr>, run)
      | UserVisible \<Rightarrow> bind_enqueue P request run
      | ActiveRunOrBackground \<Rightarrow> bind_enqueue P request run)"

definition new_lease :: "string \<Rightarrow> string \<Rightarrow> enqueue_request \<Rightarrow> run_binding \<Rightarrow> enqueue_lease" where
  "new_lease lease_id generation request binding =
     \<lparr>el_lease_id = lease_id, el_session_generation = generation, el_slot_id = er_slot_id request,
      el_role = er_role request, el_source = er_source request,
      el_team_run_id = rb_team_run_id binding\<rparr>"

definition acquire_enqueue ::
  "'r run_causality_port \<Rightarrow> string \<Rightarrow> enqueue_request \<Rightarrow> 'r coordinator
   \<Rightarrow> (team_error + enqueue_lease) \<times> 'r coordinator" where
  "acquire_enqueue P lease_id request c =
     (let st = co_state c;
          sid = er_slot_id request;
          slots = entry_update sid (slot_new (er_role request))
            (\<lambda>s. s\<lparr>ss_role := er_role request\<rparr>) (cs_slots st);
          st1 = st\<lparr>cs_slots := slots\<rparr>;
          slot = (case map_of slots sid of None \<Rightarrow> slot_new (er_role request) | Some s \<Rightarrow> s)
      in case validate_enqueue_constraint sid slot of
           Inl e \<Rightarrow> (Inl e, c\<lparr>co_state := st1\<rparr>)
         | Inr _ \<Rightarrow>
           (let (binding, run) = resolve_binding P request slots (co_run_causality c);
                lease = new_lease lease_id (co_session_generation c) request binding;
                st2 = st1\<lparr>cs_enqueue_leases :=
                  hm_insert lease_id \<lparr>lr_lease = lease, lr_binding = binding\<rparr> (cs_enqueue_leases st1)\<rparr>
            in (Inr lease, c\<lparr>co_state := st2, co_run_causality := run\<rparr>)))"

fun disposition_of :: "slot_state \<Rightarrow> enqueue_disposition rust" where
  "disposition_of slot =
     (case ss_runtime_constraint slot of
        RcStarting _ \<Rightarrow> Ret BlockedRuntimeStarting
      | RcReady \<Rightarrow>
          (if ss_active slot = None \<and> queued_ids slot = [] then Ret DispAccepted
           else Ret DispQueued)
      | _ \<Rightarrow> Panic)"

definition commit_enqueue_slot ::
  "work_source \<Rightarrow> string option \<Rightarrow> string \<Rightarrow> slot_state \<Rightarrow> slot_state" where
  "commit_enqueue_slot source msg intent_id slot =
     (let s1 = (if resumes_paused_slot source then slot\<lparr>ss_paused := False\<rparr> else slot);
          s2 = (case msg of None \<Rightarrow> s1
                | Some m \<Rightarrow> s1\<lparr>ss_known_unread_message_ids := insert m (ss_known_unread_message_ids s1)\<rparr>)
      in queue_mut (priority source) (push_back intent_id) s2)"

definition enqueued_intent ::
  "string \<Rightarrow> string \<Rightarrow> timestamp_ms \<Rightarrow> enqueue_lease \<Rightarrow> string option \<Rightarrow> work_intent" where
  "enqueued_intent generation intent_id now lease msg =
     \<lparr>wi_intent_id = intent_id, wi_session_generation = generation,
      wi_slot_id = el_slot_id lease, wi_role = el_role lease, wi_source = el_source lease,
      wi_priority = priority (el_source lease), wi_mailbox_message_id = msg,
      wi_team_run_id = el_team_run_id lease, wi_created_at_ms = now, wi_state = WsQueued\<rparr>"

definition commit_enqueue ::
  "'r run_causality_port \<Rightarrow> string \<Rightarrow> timestamp_ms \<Rightarrow> enqueue_lease \<Rightarrow> string option
   \<Rightarrow> 'r coordinator \<Rightarrow> ((team_error + enqueue_commit) \<times> 'r coordinator) rust" where
  "commit_enqueue P intent_id now lease msg c =
     (let st = co_state c; sid = el_slot_id lease in
      case map_of (cs_enqueue_leases st) (el_lease_id lease) of
        None \<Rightarrow> Ret (Inl (InvalidRequest ''enqueue lease is no longer active''), c)
      | Some record \<Rightarrow>
        if lr_lease record \<noteq> lease \<or> el_session_generation lease \<noteq> co_session_generation c
        then Ret (Inl (InvalidRequest ''stale enqueue lease owner''), c)
        else if requires_mailbox_message (el_source lease) \<and> msg = None
        then Ret (Inl (InvalidRequest (source_debug (el_source lease) @ '' requires a mailbox message'')), c)
        else case map_of (cs_slots st) sid of
          None \<Rightarrow> Ret (Inl (AgentNotFound sid), c)
        | Some slot \<Rightarrow>
          (case validate_enqueue_constraint sid slot of
             Inl e \<Rightarrow> Ret (Inl e, c)
           | Inr _ \<Rightarrow>
             bind_rust (disposition_of slot) (\<lambda>disposition.
               let st1 = st\<lparr>
                     cs_enqueue_leases := hm_remove (el_lease_id lease) (cs_enqueue_leases st),
                     cs_intents := hm_insert intent_id
                       (enqueued_intent (co_session_generation c) intent_id now lease msg)
                       (cs_intents st),
                     cs_slots := hm_modify sid
                       (commit_enqueue_slot (el_source lease) msg intent_id) (cs_slots st)\<rparr>
               in bind_rust (expect (slot_snapshot_locked st1 sid)) (\<lambda>snap.
                 let summaries = run_summaries_locked st1 (case el_team_run_id lease of None \<Rightarrow> [] | Some r \<Rightarrow> [r])
                 in Ret (Inr \<lparr>ec_intent_id = intent_id, ec_team_run_id = el_team_run_id lease,
                             ec_disposition = disposition, ec_slot = snap\<rparr>,
                         commit_state P st1 summaries c)))))"

definition abort_enqueue ::
  "'r run_causality_port \<Rightarrow> enqueue_lease \<Rightarrow> 'r coordinator \<Rightarrow> commit_result \<times> 'r coordinator" where
  "abort_enqueue P lease c =
     (let st = co_state c in
      case map_of (cs_enqueue_leases st) (el_lease_id lease) of
        None \<Rightarrow> (StaleOwner, c)
      | Some record \<Rightarrow>
        (let st1 = st\<lparr>cs_enqueue_leases := hm_remove (el_lease_id lease) (cs_enqueue_leases st)\<rparr> in
         if lr_lease record \<noteq> lease \<or> el_session_generation lease \<noteq> co_session_generation c
         then (StaleOwner,
               c\<lparr>co_state := st1\<lparr>cs_enqueue_leases :=
                 hm_insert (el_lease_id (lr_lease record)) record (cs_enqueue_leases st1)\<rparr>\<rparr>)
         else
           (let remove_empty_run =
                  (case el_team_run_id lease of
                     None \<Rightarrow> False
                   | Some run \<Rightarrow> associated st1 run = [] \<and> run_leases st1 run = []);
                summaries = run_summaries_locked st1 (case el_team_run_id lease of None \<Rightarrow> [] | Some r \<Rightarrow> [r]);
                run = (if remove_empty_run
                       then abort_binding P (lr_binding record) (co_run_causality c)
                       else co_run_causality c)
            in (Committed, commit_state P st1 summaries (c\<lparr>co_run_causality := run\<rparr>)))))"

section \<open>Reconciling with the mailbox\<close>

text \<open>The loop over the queued candidates: what is kept, what is completed as stale.\<close>

fun classify_candidates ::
  "string set \<Rightarrow> string list \<Rightarrow> intents \<Rightarrow> intents \<times> string list \<times> string list" where
  "classify_candidates unread [] m = (m, [], [])"
| "classify_candidates unread (x # xs) m =
     (case map_of m x of
        None \<Rightarrow> classify_candidates unread xs m
      | Some intent \<Rightarrow>
        (case wi_mailbox_message_id intent of
           None \<Rightarrow> (let (m', kept, cleared) = classify_candidates unread xs m
                    in (m', x # kept, cleared))
         | Some msg \<Rightarrow>
           if msg \<in> unread
           then (let (m', kept, cleared) = classify_candidates unread xs m
                 in (m', x # kept, cleared))
           else (let (m', kept, cleared) =
                       classify_candidates unread xs (hm_modify x (set_state WsCompleted) m)
                 in (m', kept, x # cleared))))"

definition already_owned :: "string \<Rightarrow> string \<Rightarrow> intents \<Rightarrow> bool" where
  "already_owned slot_id msg m \<longleftrightarrow>
     list_ex (\<lambda>i. wi_slot_id i = slot_id \<and> wi_mailbox_message_id i = Some msg
                  \<and> \<not> is_terminal (wi_state i)) (hm_values m)"

definition recovery_intent ::
  "string \<Rightarrow> string \<Rightarrow> target_role \<Rightarrow> string \<Rightarrow> timestamp_ms \<Rightarrow> string \<Rightarrow> work_intent" where
  "recovery_intent generation slot_id role intent_id now msg =
     \<lparr>wi_intent_id = intent_id, wi_session_generation = generation, wi_slot_id = slot_id,
      wi_role = role, wi_source = RecoveryDrain, wi_priority = Background,
      wi_mailbox_message_id = Some msg, wi_team_run_id = None, wi_created_at_ms = now,
      wi_state = WsQueued\<rparr>"

text \<open>
  The loop that creates a recovery intent for each unread message nobody owns. \<open>gen k\<close> and
  \<open>clock k\<close> are the identifier and the time read at the \<open>k\<close>-th creation.
\<close>

fun create_recovery ::
  "string \<Rightarrow> string \<Rightarrow> target_role \<Rightarrow> (nat \<Rightarrow> string) \<Rightarrow> (nat \<Rightarrow> timestamp_ms) \<Rightarrow> nat \<Rightarrow> string list
   \<Rightarrow> coordinator_state \<Rightarrow> (coordinator_state \<times> string list) rust" where
  "create_recovery generation slot_id role gen clock k [] st = Ret (st, [])"
| "create_recovery generation slot_id role gen clock k (msg # msgs) st =
     (if already_owned slot_id msg (cs_intents st)
      then create_recovery generation slot_id role gen clock k msgs st
      else case map_of (cs_slots st) slot_id of
        None \<Rightarrow> Panic
      | Some _ \<Rightarrow>
        bind_rust
          (create_recovery generation slot_id role gen clock (Suc k) msgs
             (st\<lparr>cs_intents := hm_insert (gen k)
                   (recovery_intent generation slot_id role (gen k) (clock k) msg) (cs_intents st),
                 cs_slots := hm_modify slot_id (queue_mut Background (push_back (gen k))) (cs_slots st)\<rparr>))
          (\<lambda>(st', created). Ret (st', gen k # created)))"

definition reconcile_mailbox ::
  "(nat \<Rightarrow> string) \<Rightarrow> (nat \<Rightarrow> timestamp_ms) \<Rightarrow> string \<Rightarrow> string list \<Rightarrow> target_role
   \<Rightarrow> 'r coordinator \<Rightarrow> (reconcile_projection \<times> 'r coordinator) rust" where
  "reconcile_mailbox gen clock slot_id unread_ids role c =
     (let st = co_state c;
          slots = entry_update slot_id (slot_new role)
            (\<lambda>s. s\<lparr>ss_role := role, ss_known_unread_message_ids := set unread_ids\<rparr>) (cs_slots st);
          candidates = (case map_of slots slot_id of None \<Rightarrow> [] | Some s \<Rightarrow> queued_ids s);
          (intents, retained, cleared) =
            classify_candidates (set unread_ids) candidates (cs_intents st);
          st1 = st\<lparr>cs_slots := hm_modify slot_id (fold remove_queued cleared) slots,
                   cs_intents := intents\<rparr>
      in bind_rust
           (create_recovery (co_session_generation c) slot_id role gen clock 0 unread_ids st1)
           (\<lambda>(st2, created).
              Ret (\<lparr>rp_created_recovery_intent_ids = created, rp_retained_intent_ids = retained,
                    rp_cleared_stale_intent_ids = cleared\<rparr>, c\<lparr>co_state := st2\<rparr>)))"

section \<open>Claiming, starting and ending batches\<close>

text \<open>\<open>saturating_add\<close> on \<open>u64\<close>.\<close>

definition saturating_add_one :: "64 word \<Rightarrow> 64 word" where
  "saturating_add_one x = (if x = - 1 then x else x + 1)"

definition selected_priority :: "slot_state \<Rightarrow> work_priority option" where
  "selected_priority slot = List.find (\<lambda>p. queue p slot \<noteq> []) [Foreground, Control, Background]"

definition is_message_intent :: "intents \<Rightarrow> string \<Rightarrow> bool" where
  "is_message_intent m x = (Option.bind (map_of m x) wi_mailbox_message_id \<noteq> None)"

text \<open>The loop that marks the intents of a new batch and collects their messages and runs.\<close>

fun claim_intents ::
  "string \<Rightarrow> 64 word \<Rightarrow> string list \<Rightarrow> intents \<Rightarrow> string list \<Rightarrow> string list
   \<Rightarrow> (intents \<times> string list \<times> string list) rust" where
  "claim_intents b p [] m msgs runs = Ret (m, msgs, runs)"
| "claim_intents b p (x # xs) m msgs runs =
     (case map_of m x of
        None \<Rightarrow> Panic
      | Some i \<Rightarrow>
        claim_intents b p xs (hm_modify x (set_state (WsStarting b p)) m)
          (case wi_mailbox_message_id i of None \<Rightarrow> msgs | Some k \<Rightarrow> msgs @ [k])
          (case wi_team_run_id i of None \<Rightarrow> runs
           | Some r \<Rightarrow> if r \<in> set runs then runs else runs @ [r]))"

definition claim_batch ::
  "'r run_causality_port \<Rightarrow> string \<Rightarrow> string \<Rightarrow> work_priority \<Rightarrow> string list \<Rightarrow> 'r coordinator
   \<Rightarrow> (reconcile_decision \<times> 'r coordinator) rust" where
  "claim_batch P batch_id slot_id prio ids c =
     (let st = co_state c;
          operation_id = saturating_add_one (cs_next_operation_id st)
      in bind_rust (claim_intents batch_id operation_id ids (cs_intents st) [] [])
           (\<lambda>(intents, msgs, runs).
              bind_rust (expect (map_of (cs_slots st) slot_id)) (\<lambda>_.
              let batch = \<lparr>wb_batch_id = batch_id,
                    wb_session_generation = co_session_generation c, wb_slot_id = slot_id,
                    wb_intent_ids = ids, wb_mailbox_message_ids = msgs,
                    wb_highest_priority = prio, wb_team_run_ids = runs,
                    wb_operation_id = operation_id\<rparr>;
                  st1 = st\<lparr>cs_next_operation_id := operation_id, cs_intents := intents,
                    cs_slots := hm_modify slot_id
                      (\<lambda>s. (fold remove_queued ids s)\<lparr>ss_active :=
                         Some \<lparr>ab_batch = batch, ab_turn_id = None, ab_started_at_ms = None\<rparr>\<rparr>)
                      (cs_slots st)\<rparr>
              in Ret (Claim batch, commit_state P st1 (run_summaries_locked st1 runs) c))))"

text \<open>The operation \<open>next\<close> of the coordinator.\<close>

definition next_work ::
  "'r run_causality_port \<Rightarrow> string \<Rightarrow> string \<Rightarrow> 'r coordinator
   \<Rightarrow> (reconcile_decision \<times> 'r coordinator) rust" where
  "next_work P batch_id slot_id c =
     (let st = co_state c in
      case map_of (cs_slots st) slot_id of
        None \<Rightarrow> Ret (Quiescent, c)
      | Some slot \<Rightarrow>
        if ss_active slot \<noteq> None then Ret (WaitingForCompletion, c)
        else if ss_runtime_constraint slot \<noteq> RcReady
        then Ret (Blocked (ss_runtime_constraint slot), c)
        else if ss_paused slot then Ret (Quiescent, c)
        else case selected_priority slot of
          None \<Rightarrow> Ret (Quiescent, c)
        | Some prio \<Rightarrow>
          (let ids = filter (is_message_intent (cs_intents st)) (queue prio slot) in
           if ids = [] then Ret (SettleSignals (queue prio slot), c)
           else claim_batch P batch_id slot_id prio ids c))"

definition is_current_batch :: "'r coordinator \<Rightarrow> work_batch \<Rightarrow> bool" where
  "is_current_batch c batch \<longleftrightarrow>
     wb_session_generation batch = co_session_generation c
     \<and> (case Option.bind (map_of (cs_slots (co_state c)) (wb_slot_id batch)) ss_active of
          None \<Rightarrow> False
        | Some a \<Rightarrow> wb_batch_id (ab_batch a) = wb_batch_id batch
            \<and> wb_operation_id (ab_batch a) = wb_operation_id batch
            \<and> wb_session_generation (ab_batch a) = wb_session_generation batch)"

fun is_cancelled :: "work_intent_state \<Rightarrow> bool" where
  "is_cancelled (WsCancelled _) = True"
| "is_cancelled _ = False"

definition mark_started ::
  "'r run_causality_port \<Rightarrow> timestamp_ms \<Rightarrow> work_batch \<Rightarrow> string \<Rightarrow> 'r coordinator
   \<Rightarrow> start_commit_result \<times> 'r coordinator" where
  "mark_started P now batch turn_id c =
     (let st = co_state c in
      if \<not> is_current_batch c batch
      then (if list_all (\<lambda>x. case map_of (cs_intents st) x of None \<Rightarrow> False
                             | Some i \<Rightarrow> is_cancelled (wi_state i)) (wb_intent_ids batch)
            then (CancelImmediately, c)
            else (StartStaleOwner, c))
      else
        (let cancel_immediately =
               (case map_of (cs_slots st) (wb_slot_id batch) of
                  None \<Rightarrow> False
                | Some slot \<Rightarrow> ss_paused slot \<or> ss_runtime_constraint slot \<noteq> RcReady);
             st1 = st\<lparr>
               cs_intents := hm_modify_all (wb_intent_ids batch)
                 (set_state (WsRunning (wb_batch_id batch) (wb_operation_id batch) turn_id))
                 (cs_intents st),
               cs_slots := hm_modify (wb_slot_id batch)
                 (\<lambda>s. s\<lparr>ss_active := map_option
                    (\<lambda>a. a\<lparr>ab_turn_id := Some turn_id, ab_started_at_ms := Some now\<rparr>) (ss_active s)\<rparr>)
                 (cs_slots st)\<rparr>
         in (if cancel_immediately then CancelImmediately else StartAccepted,
             commit_state P st1 (run_summaries_locked st1 (wb_team_run_ids batch)) c)))"

definition retry_start ::
  "'r run_causality_port \<Rightarrow> work_batch \<Rightarrow> 'r coordinator \<Rightarrow> (commit_result \<times> 'r coordinator) rust" where
  "retry_start P batch c =
     (let st = co_state c in
      if \<not> is_current_batch c batch then Ret (StaleOwner, c)
      else bind_rust (expect (map_of (cs_slots st) (wb_slot_id batch))) (\<lambda>_.
        let st1 = st\<lparr>
              cs_intents := hm_modify_all (wb_intent_ids batch) (set_state WsQueued) (cs_intents st),
              cs_slots := hm_modify (wb_slot_id batch)
                (\<lambda>s. queue_mut (wb_highest_priority batch) (\<lambda>q. foldr (#) (wb_intent_ids batch) q)
                       (s\<lparr>ss_active := None\<rparr>))
                (cs_slots st)\<rparr>
        in Ret (Committed, commit_state P st1 (run_summaries_locked st1 (wb_team_run_ids batch)) c)))"

definition terminalize_batch ::
  "'r run_causality_port \<Rightarrow> work_batch \<Rightarrow> work_intent_state \<Rightarrow> 'r coordinator
   \<Rightarrow> (commit_result \<times> 'r coordinator) rust" where
  "terminalize_batch P batch terminal_state c =
     (let st = co_state c in
      if \<not> is_current_batch c batch then Ret (StaleOwner, c)
      else bind_rust (expect (map_of (cs_slots st) (wb_slot_id batch))) (\<lambda>_.
        let st1 = st\<lparr>
              cs_intents := hm_modify_all (wb_intent_ids batch) (set_state terminal_state) (cs_intents st),
              cs_slots := hm_modify (wb_slot_id batch) (\<lambda>s. s\<lparr>ss_active := None\<rparr>) (cs_slots st)\<rparr>
        in Ret (Committed, commit_state P st1 (run_summaries_locked st1 (wb_team_run_ids batch)) c)))"

definition complete_batch ::
  "'r run_causality_port \<Rightarrow> work_batch \<Rightarrow> 'r coordinator \<Rightarrow> (commit_result \<times> 'r coordinator) rust" where
  "complete_batch P batch c = terminalize_batch P batch WsCompleted c"

definition fail_batch ::
  "'r run_causality_port \<Rightarrow> work_batch \<Rightarrow> string \<Rightarrow> 'r coordinator
   \<Rightarrow> (commit_result \<times> 'r coordinator) rust" where
  "fail_batch P batch classification c = terminalize_batch P batch (WsFailed classification) c"

definition cancel_batch ::
  "'r run_causality_port \<Rightarrow> work_batch \<Rightarrow> string \<Rightarrow> 'r coordinator
   \<Rightarrow> (commit_result \<times> 'r coordinator) rust" where
  "cancel_batch P batch classification c = terminalize_batch P batch (WsCancelled classification) c"

definition complete_signals ::
  "'r run_causality_port \<Rightarrow> string \<Rightarrow> string list \<Rightarrow> 'r coordinator \<Rightarrow> commit_result \<times> 'r coordinator" where
  "complete_signals P slot_id ids c =
     (let st = co_state c in
      if \<not> list_all (\<lambda>x. case map_of (cs_intents st) x of None \<Rightarrow> False
           | Some i \<Rightarrow> wi_slot_id i = slot_id \<and> wi_mailbox_message_id i = None
                       \<and> wi_state i = WsQueued) ids
      then (Rejected, c)
      else
        (let runs = List.map_filter (\<lambda>x. Option.bind (map_of (cs_intents st) x) wi_team_run_id) ids;
             st1 = st\<lparr>
               cs_intents := hm_modify_all ids (set_state WsCompleted) (cs_intents st),
               cs_slots := hm_modify slot_id (fold remove_queued ids) (cs_slots st)\<rparr>
         in (Committed, commit_state P st1 (run_summaries_locked st1 runs) c)))"

section \<open>Cancelling, pausing, constraining and removing\<close>

definition cancel_target_of :: "active_batch \<Rightarrow> batch_cancel_target" where
  "cancel_target_of a = \<lparr>bc_batch = ab_batch a, bc_turn_id = ab_turn_id a\<rparr>"

definition batch_in_run :: "intents \<Rightarrow> string \<Rightarrow> active_batch \<Rightarrow> bool" where
  "batch_in_run m run a \<longleftrightarrow>
     list_ex (\<lambda>x. Option.bind (map_of m x) wi_team_run_id = Some run) (wb_intent_ids (ab_batch a))"

definition run_active_slots :: "coordinator_state \<Rightarrow> string \<Rightarrow> (string \<times> active_batch) list" where
  "run_active_slots st run =
     List.map_filter (\<lambda>(slot_id, slot).
       case ss_active slot of
         None \<Rightarrow> None
       | Some a \<Rightarrow> if batch_in_run (cs_intents st) run a then Some (slot_id, a) else None)
       (cs_slots st)"

text \<open>The loop over the intents of one active batch: cancelled, or retained for requeueing.\<close>

fun cancel_active_intents ::
  "string \<Rightarrow> string list \<Rightarrow> intents \<Rightarrow> (intents \<times> string list \<times> (work_priority \<times> string) list) rust" where
  "cancel_active_intents run [] m = Ret (m, [], [])"
| "cancel_active_intents run (x # xs) m =
     (case map_of m x of
        None \<Rightarrow> Panic
      | Some i \<Rightarrow>
        if wi_team_run_id i = Some run
        then bind_rust (cancel_active_intents run xs
               (hm_modify x (set_state (WsCancelled ''run_cancelled'')) m))
               (\<lambda>(m', msgs, kept).
                  Ret (m', (case wi_mailbox_message_id i of None \<Rightarrow> msgs | Some k \<Rightarrow> k # msgs), kept))
        else bind_rust (cancel_active_intents run xs (hm_modify x (set_state WsQueued) m))
               (\<lambda>(m', msgs, kept). Ret (m', msgs, (wi_priority i, x) # kept)))"

text \<open>\<open>for (priority, id) in retained.into_iter().rev() { queue_mut(priority).push_front(id) }\<close>\<close>

definition requeue_front :: "(work_priority \<times> string) list \<Rightarrow> slot_state \<Rightarrow> slot_state" where
  "requeue_front kept s = foldr (\<lambda>(p, x). queue_mut p ((#) x)) kept s"

fun cancel_active_slots ::
  "string \<Rightarrow> (string \<times> active_batch) list \<Rightarrow> coordinator_state
   \<Rightarrow> (coordinator_state \<times> batch_cancel_target list \<times> string list) rust" where
  "cancel_active_slots run [] st = Ret (st, [], [])"
| "cancel_active_slots run ((slot_id, a) # rest) st =
     bind_rust (cancel_active_intents run (wb_intent_ids (ab_batch a)) (cs_intents st))
       (\<lambda>(intents, msgs, kept).
         bind_rust (expect (map_of (cs_slots st) slot_id)) (\<lambda>_.
         bind_rust (cancel_active_slots run rest
           (st\<lparr>cs_intents := intents,
               cs_slots := hm_modify slot_id (\<lambda>s. requeue_front kept (s\<lparr>ss_active := None\<rparr>))
                 (cs_slots st)\<rparr>))
         (\<lambda>(st', targets, msgs'). Ret (st', cancel_target_of a # targets, msgs @ msgs'))))"

text \<open>The loop over the queued intents of the run.\<close>

fun cancel_queued ::
  "string list \<Rightarrow> coordinator_state \<Rightarrow> (coordinator_state \<times> string list) rust" where
  "cancel_queued [] st = Ret (st, [])"
| "cancel_queued (x # xs) st =
     (case map_of (cs_intents st) x of
        None \<Rightarrow> Panic
      | Some i \<Rightarrow>
        bind_rust (cancel_queued xs
          (st\<lparr>cs_intents := hm_modify x (set_state (WsCancelled ''run_cancelled'')) (cs_intents st),
              cs_slots := hm_modify (wi_slot_id i) (remove_queued x) (cs_slots st)\<rparr>))
          (\<lambda>(st', msgs).
             Ret (st', case wi_mailbox_message_id i of None \<Rightarrow> msgs | Some k \<Rightarrow> k # msgs)))"

definition queued_of_run :: "string \<Rightarrow> intents \<Rightarrow> string list" where
  "queued_of_run run m =
     map wi_intent_id (filter (\<lambda>i. wi_team_run_id i = Some run \<and> wi_state i = WsQueued) (hm_values m))"

definition cancel_run ::
  "'r run_causality_port \<Rightarrow> string \<Rightarrow> 'r coordinator
   \<Rightarrow> (cancel_run_work_result \<times> 'r coordinator) rust" where
  "cancel_run P run c =
     (let st = co_state c in
      bind_rust (cancel_active_slots run (run_active_slots st run) st) (\<lambda>(st1, targets, msgs1).
      bind_rust (cancel_queued (queued_of_run run (cs_intents st1)) st1) (\<lambda>(st2, msgs2).
        let lease_ids = map el_lease_id (run_leases st2 run);
            st3 = st2\<lparr>cs_enqueue_leases := fold hm_remove lease_ids (cs_enqueue_leases st2)\<rparr>;
            summary = run_summary_locked st3 run
        in Ret (\<lparr>cr_cancel_targets = targets, cr_terminal_message_ids = msgs1 @ msgs2,
                 cr_summary = summary\<rparr>, commit_state P st3 [summary] c))))"

definition pause_slot :: "string \<Rightarrow> 'r coordinator \<Rightarrow> (pause_work_result \<times> 'r coordinator) rust" where
  "pause_slot slot_id c =
     (let st = co_state c;
          st1 = st\<lparr>cs_slots := entry_update slot_id (slot_new RoleTeammate)
            (\<lambda>s. s\<lparr>ss_paused := True\<rparr>) (cs_slots st)\<rparr>
      in bind_rust (expect (slot_snapshot_locked st1 slot_id)) (\<lambda>snap.
         Ret (\<lparr>pw_cancel_target =
                 map_option cancel_target_of (Option.bind (map_of (cs_slots st1) slot_id) ss_active),
               pw_slot = snap\<rparr>, c\<lparr>co_state := st1\<rparr>)))"

definition clear_slot :: "slot_state \<Rightarrow> slot_state" where
  "clear_slot s = s\<lparr>ss_foreground := [], ss_control := [], ss_background := [], ss_active := None\<rparr>"

definition open_intents_of_slot :: "string \<Rightarrow> intents \<Rightarrow> string list" where
  "open_intents_of_slot slot_id m =
     map wi_intent_id (filter (\<lambda>i. wi_slot_id i = slot_id \<and> \<not> is_terminal (wi_state i)) (hm_values m))"

text \<open>
  The loop of \<open>set_runtime_constraint\<close>: background intents are requeued unless the session
  stopped, all others end. Its result: the intents, the affected runs, the terminal messages and
  the intents to requeue.
\<close>

fun constrain_intents ::
  "bool \<Rightarrow> string \<Rightarrow> string list \<Rightarrow> intents
   \<Rightarrow> (intents \<times> string list \<times> string list \<times> (work_priority \<times> string) list) rust" where
  "constrain_intents stopped cls [] m = Ret (m, [], [], [])"
| "constrain_intents stopped cls (x # xs) m =
     (case map_of m x of
        None \<Rightarrow> Panic
      | Some i \<Rightarrow>
        if wi_team_run_id i = None \<and> \<not> stopped
        then bind_rust (constrain_intents stopped cls xs (hm_modify x (set_state WsQueued) m))
               (\<lambda>(m', runs, msgs, requeue). Ret (m', runs, msgs, (wi_priority i, x) # requeue))
        else bind_rust (constrain_intents stopped cls xs
               (hm_modify x (set_state (if stopped then WsCancelled cls else WsFailed cls)) m))
               (\<lambda>(m', runs, msgs, requeue).
                  Ret (m', (case wi_team_run_id i of None \<Rightarrow> runs | Some r \<Rightarrow> r # runs),
                       (case wi_mailbox_message_id i of None \<Rightarrow> msgs | Some k \<Rightarrow> k # msgs), requeue)))"

definition requeue_back :: "(work_priority \<times> string) list \<Rightarrow> slot_state \<Rightarrow> slot_state" where
  "requeue_back xs s = fold (\<lambda>(p, x). queue_mut p (push_back x)) xs s"

fun ending_constraint :: "runtime_constraint \<Rightarrow> (bool \<times> string) option" where
  "ending_constraint (RcFailed _ cls) = Some (False, cls)"
| "ending_constraint RcSessionStopped = Some (True, ''session_stopped'')"
| "ending_constraint _ = None"

definition set_runtime_constraint ::
  "'r run_causality_port \<Rightarrow> string \<Rightarrow> runtime_constraint \<Rightarrow> 'r coordinator
   \<Rightarrow> (runtime_constraint_update \<times> 'r coordinator) rust" where
  "set_runtime_constraint P slot_id constraint c =
     (let st = co_state c;
          st1 = st\<lparr>cs_slots := entry_update slot_id (slot_new RoleTeammate)
            (\<lambda>s. s\<lparr>ss_runtime_constraint := constraint\<rparr>) (cs_slots st)\<rparr>
      in bind_rust
           (case ending_constraint constraint of
              None \<Rightarrow> Ret (st1, [], [])
            | Some (stopped, cls) \<Rightarrow>
              bind_rust (constrain_intents stopped cls
                  (open_intents_of_slot slot_id (cs_intents st1)) (cs_intents st1))
                (\<lambda>(intents, runs, msgs, requeue).
                bind_rust (expect (map_of (cs_slots st1) slot_id)) (\<lambda>_.
                  Ret (st1\<lparr>cs_intents := intents,
                           cs_slots := hm_modify slot_id
                             (\<lambda>s. requeue_back requeue (clear_slot s)) (cs_slots st1)\<rparr>, runs, msgs))))
           (\<lambda>(st2, runs, msgs).
              let summaries = run_summaries_locked st2 runs in
              bind_rust (expect (slot_snapshot_locked st2 slot_id)) (\<lambda>snap.
              Ret (\<lparr>rcu_slot = snap, rcu_terminal_message_ids = msgs,
                    rcu_affected_run_summaries = summaries\<rparr>, commit_state P st2 summaries c))))"

text \<open>The loop of \<open>remove_slot\<close>.\<close>

fun cancel_removed ::
  "string list \<Rightarrow> intents \<Rightarrow> (intents \<times> string list \<times> string list) rust" where
  "cancel_removed [] m = Ret (m, [], [])"
| "cancel_removed (x # xs) m =
     (case map_of m x of
        None \<Rightarrow> Panic
      | Some i \<Rightarrow>
        bind_rust (cancel_removed xs (hm_modify x (set_state (WsCancelled ''slot_removed'')) m))
          (\<lambda>(m', msgs, runs).
             Ret (m', (case wi_mailbox_message_id i of None \<Rightarrow> msgs | Some k \<Rightarrow> k # msgs),
                  (case wi_team_run_id i of None \<Rightarrow> runs | Some r \<Rightarrow> r # runs))))"

definition removal_ids :: "coordinator_state \<Rightarrow> string \<Rightarrow> string list" where
  "removal_ids st slot_id =
     (let ordered =
            (case map_of (cs_slots st) slot_id of
               None \<Rightarrow> []
             | Some slot \<Rightarrow>
               (case ss_active slot of None \<Rightarrow> [] | Some a \<Rightarrow> wb_intent_ids (ab_batch a)) @ queued_ids slot);
          remaining =
            filter (\<lambda>i. wi_slot_id i = slot_id \<and> \<not> is_terminal (wi_state i)
                        \<and> wi_intent_id i \<notin> set ordered) (hm_values (cs_intents st))
      in ordered @ map wi_intent_id (sort_key (\<lambda>i. (wi_created_at_ms i, wi_intent_id i)) remaining))"

definition remove_slot ::
  "'r run_causality_port \<Rightarrow> string \<Rightarrow> 'r coordinator \<Rightarrow> (remove_work_result \<times> 'r coordinator) rust" where
  "remove_slot P slot_id c =
     (let st = co_state c;
          target = map_option cancel_target_of (Option.bind (map_of (cs_slots st) slot_id) ss_active)
      in bind_rust (cancel_removed (removal_ids st slot_id) (cs_intents st)) (\<lambda>(intents, msgs, runs).
         let st1 = st\<lparr>cs_intents := intents,
               cs_slots := hm_modify slot_id (\<lambda>s. (clear_slot s)\<lparr>ss_removed := True\<rparr>) (cs_slots st)\<rparr>;
             summaries = run_summaries_locked st1 runs
         in Ret (\<lparr>rw_cancel_target = target, rw_terminal_message_ids = msgs,
                  rw_affected_run_summaries = summaries\<rparr>, commit_state P st1 summaries c)))"

definition stop_intent :: "work_intent \<Rightarrow> work_intent" where
  "stop_intent i = (if is_terminal (wi_state i) then i else set_state (WsCancelled ''session_stopped'') i)"

definition stop ::
  "'r run_causality_port \<Rightarrow> 'r coordinator \<Rightarrow> run_work_summary list \<times> 'r coordinator" where
  "stop P c =
     (let st = co_state c;
          run_ids = all_run_ids st;
          st1 = st\<lparr>cs_intents := hm_map_values stop_intent (cs_intents st),
                   cs_slots := hm_map_values
                     (\<lambda>s. (clear_slot s)\<lparr>ss_runtime_constraint := RcSessionStopped\<rparr>) (cs_slots st),
                   cs_enqueue_leases := []\<rparr>;
          summaries = map (run_summary_locked st1) run_ids
      in (summaries, commit_state P st1 summaries c))"

end
