(* ===== verification/Team_Run.thy ===== *)
theory Team_Run
  imports Work_Coordinator
begin

text \<open>
  The run manager of a team (\<open>aionui-team/src/team_run/manager.rs\<close>) with its payload types
  (\<open>aionui-api-types/src/team.rs\<close>), and its implementation of \<open>RunCausalityPort\<close>. The manager
  holds at most one run record; the events it broadcasts are kept in order in \<open>tm_events\<close>. The
  clock is a function from the number of the read to its value: the code reads it once for the
  completion or start time and once for each slot of a payload.

  \<open>run_causality\<close> is the interface the coordinator's summaries rely on, interpreted on the
  manager's operations.
\<close>

section \<open>Types\<close>

datatype team_run_status =
  RunAccepted | RunRunning | RunCancelling | RunCompleted | RunCancelled | RunFailed

datatype team_run_source = SourceUserMessage

datatype team_slot_work_state = TsIdle | TsQueued | TsStarting | TsRunning | TsPaused | TsBlocked

datatype team_slot_blocked_reason =
  BlockedStarting | BlockedFailed | BlockedRemoving | BlockedSessionStopped

record team_slot_work_payload =
  sp_slot_id :: string
  sp_role :: target_role
  sp_state :: team_slot_work_state
  sp_queued_foreground_count :: nat
  sp_queued_background_count :: nat
  sp_active_turn_id :: "string option"
  sp_active_turn_started_at_ms :: "timestamp_ms option"
  sp_active_turn_elapsed_ms :: "64 word option"
  sp_active_turn_slow :: "bool option"
  sp_active_turn_slow_threshold_ms :: "64 word option"
  sp_blocked_reason :: "team_slot_blocked_reason option"
  sp_team_run_id :: "string option"

record team_run_payload =
  tp_team_id :: string
  tp_team_run_id :: string
  tp_source :: team_run_source
  tp_has_user_intervention :: bool
  tp_target_slot_id :: string
  tp_target_role :: target_role
  tp_status :: team_run_status
  tp_queued_intent_count :: nat
  tp_starting_batch_count :: nat
  tp_running_batch_count :: nat
  tp_active_enqueue_lease_count :: nat
  tp_slot_work :: "team_slot_work_payload list"

datatype team_event =
  EvAccepted | EvStarted | EvUpdated | EvCompleted | EvCancelled | EvFailed

text \<open>The names of the events on the wire.\<close>

fun event_name :: "team_event \<Rightarrow> string" where
  "event_name EvAccepted = ''team.runAccepted''"
| "event_name EvStarted = ''team.runStarted''"
| "event_name EvUpdated = ''team.runUpdated''"
| "event_name EvCompleted = ''team.runCompleted''"
| "event_name EvCancelled = ''team.runCancelled''"
| "event_name EvFailed = ''team.runFailed''"

record team_run_record =
  tr_team_run_id :: string
  tr_source :: team_run_source
  tr_has_user_intervention :: bool
  tr_target_slot_id :: string
  tr_target_role :: target_role
  tr_status :: team_run_status
  tr_started_at_ms :: "timestamp_ms option"
  tr_completed_at_ms :: "timestamp_ms option"
  tr_cancel_reason :: "string option"
  tr_summary :: "run_work_summary option"
  tr_accepted_emitted :: bool

record run_manager =
  tm_team_id :: string
  tm_state :: "team_run_record option"
  tm_events :: "(team_event \<times> team_run_payload) list"

type_synonym clock = "nat \<Rightarrow> timestamp_ms"

section \<open>Operations\<close>

definition status_is_active :: "team_run_status \<Rightarrow> bool" where
  "status_is_active s \<longleftrightarrow> s = RunAccepted \<or> s = RunRunning \<or> s = RunCancelling"

definition is_active :: "team_run_record \<Rightarrow> bool" where
  "is_active r \<longleftrightarrow> status_is_active (tr_status r)"

definition new_run_manager :: "string \<Rightarrow> run_manager" where
  "new_run_manager team_id = \<lparr>tm_team_id = team_id, tm_state = None, tm_events = []\<rparr>"

definition active_run :: "run_manager \<Rightarrow> team_run_record option" where
  "active_run m = Option.bind (tm_state m) (\<lambda>r. if is_active r then Some r else None)"

definition new_run :: "string \<Rightarrow> string \<Rightarrow> target_role \<Rightarrow> team_run_record" where
  "new_run run_id slot_id role =
     \<lparr>tr_team_run_id = run_id, tr_source = SourceUserMessage, tr_has_user_intervention = False,
      tr_target_slot_id = slot_id, tr_target_role = role, tr_status = RunAccepted,
      tr_started_at_ms = None, tr_completed_at_ms = None, tr_cancel_reason = None,
      tr_summary = None, tr_accepted_emitted = False\<rparr>"

definition bind_user_enqueue ::
  "string \<Rightarrow> string \<Rightarrow> target_role \<Rightarrow> run_manager \<Rightarrow> run_binding \<times> run_manager" where
  "bind_user_enqueue run_id slot_id role m =
     (case active_run m of
        Some r \<Rightarrow>
          (\<lparr>rb_team_run_id = Some (tr_team_run_id r), rb_created_new_run = False,
            rb_user_intervention = True\<rparr>,
           m\<lparr>tm_state := Some (r\<lparr>tr_has_user_intervention := True\<rparr>)\<rparr>)
      | None \<Rightarrow>
          (\<lparr>rb_team_run_id = Some run_id, rb_created_new_run = True, rb_user_intervention = False\<rparr>,
           m\<lparr>tm_state := Some (new_run run_id slot_id role)\<rparr>))"

definition current_active_run_id :: "run_manager \<Rightarrow> string option" where
  "current_active_run_id m = map_option tr_team_run_id (active_run m)"

text \<open>\<open>i64::saturating_sub\<close>.\<close>

definition i64_saturating_sub :: "int \<Rightarrow> int \<Rightarrow> int" where
  "i64_saturating_sub a b = max (- (2 ^ 63)) (min (2 ^ 63 - 1) (a - b))"

definition active_turn_slow_threshold_ms :: "64 word" where
  "active_turn_slow_threshold_ms = 10 * 60 * 1000"

fun slot_work_state :: "slot_phase \<Rightarrow> team_slot_work_state" where
  "slot_work_state SpIdle = TsIdle"
| "slot_work_state SpQueued = TsQueued"
| "slot_work_state SpStarting = TsStarting"
| "slot_work_state SpRunning = TsRunning"
| "slot_work_state SpPaused = TsPaused"
| "slot_work_state SpBlocked = TsBlocked"

fun blocked_reason :: "runtime_constraint \<Rightarrow> team_slot_blocked_reason option" where
  "blocked_reason RcReady = None"
| "blocked_reason (RcStarting _) = Some BlockedStarting"
| "blocked_reason (RcFailed _ _) = Some BlockedFailed"
| "blocked_reason (RcRemoving _) = Some BlockedRemoving"
| "blocked_reason RcSessionStopped = Some BlockedSessionStopped"

definition elapsed_ms :: "timestamp_ms \<Rightarrow> timestamp_ms \<Rightarrow> 64 word" where
  "elapsed_ms now started = word_of_int (max (i64_saturating_sub now started) 0)"

definition slot_payload :: "timestamp_ms \<Rightarrow> slot_work_snapshot \<Rightarrow> team_slot_work_payload" where
  "slot_payload now slot =
     (let elapsed = map_option (elapsed_ms now) (sw_active_turn_started_at_ms slot) in
      \<lparr>sp_slot_id = sw_slot_id slot, sp_role = sw_role slot, sp_state = slot_work_state (sw_state slot),
       sp_queued_foreground_count = sw_queued_foreground_count slot,
       sp_queued_background_count = sw_queued_background_count slot,
       sp_active_turn_id = sw_active_turn_id slot,
       sp_active_turn_started_at_ms = sw_active_turn_started_at_ms slot,
       sp_active_turn_elapsed_ms = elapsed,
       sp_active_turn_slow = map_option (\<lambda>e. active_turn_slow_threshold_ms \<le> e) elapsed,
       sp_active_turn_slow_threshold_ms =
         map_option (\<lambda>_. active_turn_slow_threshold_ms) (sw_active_turn_id slot),
       sp_blocked_reason = blocked_reason (sw_runtime_constraint slot),
       sp_team_run_id = sw_team_run_id slot\<rparr>)"

fun slot_payloads :: "clock \<Rightarrow> nat \<Rightarrow> slot_work_snapshot list \<Rightarrow> team_slot_work_payload list" where
  "slot_payloads clock k [] = []"
| "slot_payloads clock k (s # ss) = slot_payload (clock k) s # slot_payloads clock (Suc k) ss"

definition payload_locked ::
  "clock \<Rightarrow> run_manager \<Rightarrow> team_run_record \<Rightarrow> run_work_summary \<Rightarrow> team_run_payload" where
  "payload_locked clock m r s =
     \<lparr>tp_team_id = tm_team_id m, tp_team_run_id = tr_team_run_id r, tp_source = tr_source r,
      tp_has_user_intervention = tr_has_user_intervention r,
      tp_target_slot_id = tr_target_slot_id r, tp_target_role = tr_target_role r,
      tp_status = tr_status r, tp_queued_intent_count = rs_queued_intent_count s,
      tp_starting_batch_count = rs_starting_batch_count s,
      tp_running_batch_count = rs_running_batch_count s,
      tp_active_enqueue_lease_count = rs_active_enqueue_lease_count s,
      tp_slot_work = slot_payloads clock 1 (rs_slots s)\<rparr>"

definition broadcast_team_run :: "team_event \<Rightarrow> team_run_payload \<Rightarrow> run_manager \<Rightarrow> run_manager" where
  "broadcast_team_run e p m = m\<lparr>tm_events := tm_events m @ [(e, p)]\<rparr>"

text \<open>The status a summary gives a run.\<close>

definition no_work :: "run_work_summary \<Rightarrow> bool" where
  "no_work s \<longleftrightarrow> rs_queued_intent_count s = 0 \<and> rs_starting_batch_count s = 0
     \<and> rs_running_batch_count s = 0 \<and> rs_active_enqueue_lease_count s = 0
     \<and> rs_paused_intent_count s = 0"

definition next_status :: "run_work_summary \<Rightarrow> team_run_status \<Rightarrow> team_run_status" where
  "next_status s prev =
     (if 0 < rs_failed_intent_count s then RunFailed
      else if no_work s then (if prev = RunCancelling then RunCancelled else RunCompleted)
      else if 0 < rs_running_batch_count s then RunRunning
      else prev)"

definition summarise :: "timestamp_ms \<Rightarrow> run_work_summary \<Rightarrow> team_run_record \<Rightarrow> team_run_record" where
  "summarise now s r =
     (let r1 = r\<lparr>tr_summary := Some s, tr_status := next_status s (tr_status r)\<rparr> in
      if 0 < rs_failed_intent_count s \<or> no_work s then r1\<lparr>tr_completed_at_ms := Some now\<rparr>
      else if 0 < rs_running_batch_count s
      then r1\<lparr>tr_started_at_ms := (case tr_started_at_ms r of None \<Rightarrow> Some now | Some t \<Rightarrow> Some t)\<rparr>
      else r1)"

definition transition_event :: "team_run_status \<Rightarrow> team_run_status \<Rightarrow> team_event" where
  "transition_event prev status =
     (if status = RunFailed \<and> prev \<noteq> RunFailed then EvFailed
      else if status = RunCancelled \<and> prev \<noteq> RunCancelled then EvCancelled
      else if status = RunCompleted \<and> prev \<noteq> RunCompleted then EvCompleted
      else if status = RunRunning \<and> prev \<noteq> RunRunning then EvStarted
      else EvUpdated)"

definition apply_summary :: "clock \<Rightarrow> run_work_summary \<Rightarrow> run_manager \<Rightarrow> run_manager" where
  "apply_summary clock s m =
     (case tm_state m of
        None \<Rightarrow> m
      | Some r \<Rightarrow>
        if tr_team_run_id r \<noteq> rs_team_run_id s then m
        else
          (let r1 = summarise (clock 0) s r;
               event = (if \<not> tr_accepted_emitted r then EvAccepted
                        else transition_event (tr_status r) (tr_status r1));
               r2 = r1\<lparr>tr_accepted_emitted := True\<rparr>
           in broadcast_team_run event (payload_locked clock m r2 s) (m\<lparr>tm_state := Some r2\<rparr>)))"

definition begin_cancel ::
  "clock \<Rightarrow> string \<Rightarrow> string option \<Rightarrow> run_manager \<Rightarrow> (team_error + unit) \<times> run_manager" where
  "begin_cancel clock run_id reason m =
     (case tm_state m of
        None \<Rightarrow> (Inl (InvalidRequest (''team run is not active: '' @ run_id)), m)
      | Some r \<Rightarrow>
        if \<not> (tr_team_run_id r = run_id \<and> is_active r)
        then (Inl (InvalidRequest (''team run is not active: '' @ run_id)), m)
        else
          (let r1 = r\<lparr>tr_status := RunCancelling, tr_cancel_reason := reason\<rparr>;
               m1 = m\<lparr>tm_state := Some r1\<rparr>
           in (Inr (), case tr_summary r of
                         None \<Rightarrow> m1
                       | Some s \<Rightarrow> broadcast_team_run EvUpdated (payload_locked clock m r1 s) m1)))"

definition empty_summary :: "string \<Rightarrow> run_work_summary" where
  "empty_summary run_id =
     \<lparr>rs_team_run_id = run_id, rs_queued_intent_count = 0, rs_starting_batch_count = 0,
      rs_running_batch_count = 0, rs_active_enqueue_lease_count = 0, rs_paused_intent_count = 0,
      rs_failed_intent_count = 0, rs_slots = []\<rparr>"

definition current_payload :: "clock \<Rightarrow> coordinator_snapshot \<Rightarrow> run_manager \<Rightarrow> team_run_payload option" where
  "current_payload clock snap m =
     map_option (\<lambda>r.
       let from_snapshot = Option.bind (sn_active_run_summary snap)
             (\<lambda>s. if rs_team_run_id s = tr_team_run_id r then Some s else None);
           summary = (case tr_summary r of
                        Some s \<Rightarrow> s
                      | None \<Rightarrow> (case from_snapshot of
                                   Some s \<Rightarrow> s
                                 | None \<Rightarrow> empty_summary (tr_team_run_id r)))
       in payload_locked clock m r summary) (tm_state m)"

definition publish_snapshot_update :: "clock \<Rightarrow> coordinator_snapshot \<Rightarrow> run_manager \<Rightarrow> run_manager" where
  "publish_snapshot_update clock snap m =
     (case current_payload clock snap m of
        None \<Rightarrow> m
      | Some p \<Rightarrow>
        if tp_status p = RunAccepted \<or> tp_status p = RunRunning
        then broadcast_team_run EvUpdated p m else m)"

section \<open>The port\<close>

definition manager_bind_enqueue :: "string \<Rightarrow> enqueue_request \<Rightarrow> run_manager \<Rightarrow> run_binding \<times> run_manager" where
  "manager_bind_enqueue run_id request m =
     (case er_binding request of
        UserVisible \<Rightarrow> bind_user_enqueue run_id (er_slot_id request) (er_role request) m
      | ActiveRunOrBackground \<Rightarrow>
          (\<lparr>rb_team_run_id = current_active_run_id m, rb_created_new_run = False,
            rb_user_intervention = False\<rparr>, m)
      | InheritRunningBatch _ \<Rightarrow>
          (\<lparr>rb_team_run_id = None, rb_created_new_run = False, rb_user_intervention = False\<rparr>, m)
      | BackgroundBinding \<Rightarrow>
          (\<lparr>rb_team_run_id = None, rb_created_new_run = False, rb_user_intervention = False\<rparr>, m))"

definition manager_abort_binding :: "run_binding \<Rightarrow> run_manager \<Rightarrow> run_manager" where
  "manager_abort_binding b m =
     (case tm_state m of
        None \<Rightarrow> m
      | Some r \<Rightarrow> if Some (tr_team_run_id r) = rb_team_run_id b then m\<lparr>tm_state := None\<rparr> else m)"

definition manager_port :: "string \<Rightarrow> clock \<Rightarrow> run_manager run_causality_port" where
  "manager_port run_id clock =
     \<lparr>bind_enqueue = manager_bind_enqueue run_id, abort_binding = manager_abort_binding,
      apply_work_summary = apply_summary clock\<rparr>"

end
