(* ===== verification/Work_Invariant.thy ===== *)
theory Work_Invariant
  imports Work_Coordinator
begin

text \<open>
  The invariant of the work coordinator and its preservation by every operation.

  The invariant says that the queues, the active batches and the intent table agree: an intent is
  in a queue of its slot if and only if its state is \<open>Queued\<close> (and then in the queue of its
  priority, once), it is in the active batch of its slot if and only if it is starting or running
  (and then in the state the batch is in), and every open intent has a slot. It is stated per slot,
  over the intents of that slot (\<open>slot_inv\<close>), so that an operation on one slot only has to
  re-establish it there (\<open>work_inv_restate\<close>, \<open>work_inv_insert\<close>).
\<close>

section \<open>The invariant\<close>

type_synonym intent_map = "string \<rightharpoonup> work_intent"

fun in_flight :: "work_intent_state \<Rightarrow> bool" where
  "in_flight (WsStarting _ _) = True"
| "in_flight (WsRunning _ _ _) = True"
| "in_flight _ = False"

lemma open_iff: "\<not> is_terminal s \<longleftrightarrow> s = WsQueued \<or> in_flight s"
  by (cases s) auto

lemma in_flight_not_queued [simp]: "\<not> in_flight WsQueued"
  by simp

definition batch_state :: "active_batch \<Rightarrow> work_intent_state" where
  "batch_state a =
     (case ab_turn_id a of
        None \<Rightarrow> WsStarting (wb_batch_id (ab_batch a)) (wb_operation_id (ab_batch a))
      | Some t \<Rightarrow> WsRunning (wb_batch_id (ab_batch a)) (wb_operation_id (ab_batch a)) t)"

lemma in_flight_batch_state [simp]: "in_flight (batch_state a)"
  by (simp add: batch_state_def split: option.splits)

text \<open>The intents of one slot.\<close>

definition slot_intents :: "intent_map \<Rightarrow> string \<Rightarrow> intent_map" where
  "slot_intents I sid = (\<lambda>k. case I k of None \<Rightarrow> None
                             | Some i \<Rightarrow> if wi_slot_id i = sid then Some i else None)"

lemma slot_intents_Some [simp]:
  "slot_intents I sid k = Some i \<longleftrightarrow> I k = Some i \<and> wi_slot_id i = sid"
  by (auto simp: slot_intents_def split: option.splits)

definition active_inv :: "string \<Rightarrow> string \<Rightarrow> intent_map \<Rightarrow> active_batch \<Rightarrow> bool" where
  "active_inv g sid J a \<longleftrightarrow>
     wb_slot_id (ab_batch a) = sid
     \<and> wb_session_generation (ab_batch a) = g
     \<and> distinct (wb_intent_ids (ab_batch a))
     \<and> wb_intent_ids (ab_batch a) \<noteq> []
     \<and> (\<forall>x \<in> set (wb_intent_ids (ab_batch a)). \<exists>i. J x = Some i
          \<and> wi_state i = batch_state a \<and> wi_priority i = wb_highest_priority (ab_batch a)
          \<and> wi_mailbox_message_id i \<noteq> None)
     \<and> (\<forall>r. r \<in> set (wb_team_run_ids (ab_batch a))
          \<longleftrightarrow> (\<exists>x i. x \<in> set (wb_intent_ids (ab_batch a)) \<and> J x = Some i \<and> wi_team_run_id i = Some r))"

definition slot_inv :: "string \<Rightarrow> string \<Rightarrow> intent_map \<Rightarrow> slot_state \<Rightarrow> bool" where
  "slot_inv g sid J s \<longleftrightarrow>
     (\<forall>p. distinct (queue p s))
     \<and> (\<forall>p x. x \<in> set (queue p s)
          \<longleftrightarrow> (\<exists>i. J x = Some i \<and> wi_state i = WsQueued \<and> wi_priority i = p))
     \<and> (\<forall>x i. J x = Some i \<and> in_flight (wi_state i)
          \<longrightarrow> (\<exists>a. ss_active s = Some a \<and> x \<in> set (wb_intent_ids (ab_batch a))))
     \<and> (\<forall>a. ss_active s = Some a \<longrightarrow> active_inv g sid J a)"

definition lease_ok :: "string \<Rightarrow> string set \<Rightarrow> string \<Rightarrow> lease_record \<Rightarrow> bool" where
  "lease_ok g sids k l \<longleftrightarrow>
     el_lease_id (lr_lease l) = k \<and> el_session_generation (lr_lease l) = g
     \<and> el_slot_id (lr_lease l) \<in> sids \<and> rb_team_run_id (lr_binding l) = el_team_run_id (lr_lease l)"

definition work_inv ::
  "string \<Rightarrow> (string \<rightharpoonup> slot_state) \<Rightarrow> intent_map \<Rightarrow> (string \<rightharpoonup> lease_record) \<Rightarrow> bool" where
  "work_inv g S I L \<longleftrightarrow>
     (\<forall>k i. I k = Some i \<longrightarrow> wi_intent_id i = k \<and> wi_session_generation i = g)
     \<and> (\<forall>k i. I k = Some i \<and> \<not> is_terminal (wi_state i) \<longrightarrow> wi_slot_id i \<in> dom S)
     \<and> (\<forall>sid s. S sid = Some s \<longrightarrow> slot_inv g sid (slot_intents I sid) s)
     \<and> (\<forall>k l. L k = Some l \<longrightarrow> lease_ok g (dom S) k l)"

definition state_inv :: "string \<Rightarrow> coordinator_state \<Rightarrow> bool" where
  "state_inv g st \<longleftrightarrow>
     bt_sorted (cs_slots st) \<and> distinct (hm_keys (cs_intents st))
     \<and> distinct (hm_keys (cs_enqueue_leases st))
     \<and> work_inv g (map_of (cs_slots st)) (map_of (cs_intents st)) (map_of (cs_enqueue_leases st))"

definition coordinator_inv :: "'r coordinator \<Rightarrow> bool" where
  "coordinator_inv c \<longleftrightarrow> state_inv (co_session_generation c) (co_state c)"

section \<open>Local updates\<close>

text \<open>Changing the states of intents and nothing else.\<close>

definition restate :: "(string \<Rightarrow> work_intent \<Rightarrow> work_intent_state) \<Rightarrow> intent_map \<Rightarrow> intent_map" where
  "restate f I = (\<lambda>x. map_option (\<lambda>i. set_state (f x i) i) (I x))"

lemma restate_Some:
  "restate f I x = Some j \<longleftrightarrow> (\<exists>i. I x = Some i \<and> j = set_state (f x i) i)"
  by (auto simp: restate_def)

lemma slot_intents_restate: "slot_intents (restate f I) sid = restate f (slot_intents I sid)"
  by (auto simp: slot_intents_def restate_def fun_eq_iff split: option.splits)

lemma restate_id:
  assumes "\<And>x i. I x = Some i \<Longrightarrow> f x i = wi_state i"
  shows "restate f I = I"
  using assms by (auto simp: restate_def fun_eq_iff option.map_ident_strong
      intro!: option.map_ident_strong)

lemma restate_cong:
  assumes "\<And>x i. I x = Some i \<Longrightarrow> f x i = h x i"
  shows "restate f I = restate h I"
  using assms by (auto simp: restate_def fun_eq_iff intro!: map_option_cong)

lemma map_of_modify_all_set_state:
  "map_of (hm_modify_all ks (set_state s) m) = restate (\<lambda>x i. if x \<in> set ks then s else wi_state i) (map_of m)"
  by (auto simp: map_of_hm_modify_all restate_def fun_eq_iff option.map_ident_strong
      intro!: option.map_ident_strong [symmetric])

lemma map_of_modify_set_state:
  "map_of (hm_modify k (set_state s) m) = restate (\<lambda>x i. if x = k then s else wi_state i) (map_of m)"
  using map_of_modify_all_set_state [of "[k]" s m] by simp

lemma work_inv_local:
  assumes inv: "work_inv g S I L"
    and others: "\<And>sid'. sid' \<noteq> sid \<Longrightarrow> slot_intents I' sid' = slot_intents I sid'"
    and ids: "\<And>k i. I' k = Some i \<Longrightarrow> wi_intent_id i = k \<and> wi_session_generation i = g"
    and slot: "slot_inv g sid (slot_intents I' sid) s'"
    and leases: "\<And>k l. L' k = Some l \<Longrightarrow> lease_ok g (insert sid (dom S)) k l"
  shows "work_inv g (S(sid \<mapsto> s')) I' L'"
proof -
  have "wi_slot_id i \<in> dom (S(sid \<mapsto> s'))"
    if "I' k = Some i" "\<not> is_terminal (wi_state i)" for k i
  proof (cases "wi_slot_id i = sid")
    case False
    then have "slot_intents I (wi_slot_id i) k = Some i"
      using others [of "wi_slot_id i"] that by (metis slot_intents_Some)
    then show ?thesis
      using inv that by (auto simp: work_inv_def)
  qed simp
  then show ?thesis
    using inv ids slot leases others by (auto simp: work_inv_def)
qed

lemma work_inv_restate:
  assumes inv: "work_inv g S I L"
    and out: "\<And>x i. I x = Some i \<Longrightarrow> wi_slot_id i \<noteq> sid \<Longrightarrow> f x i = wi_state i"
    and slot: "slot_inv g sid (restate f (slot_intents I sid)) s'"
    and leases: "\<And>k l. L' k = Some l \<Longrightarrow> L k = Some l"
  shows "work_inv g (S(sid \<mapsto> s')) (restate f I) L'"
proof (rule work_inv_local [OF inv])
  show "slot_intents (restate f I) sid' = slot_intents I sid'" if "sid' \<noteq> sid" for sid'
    unfolding slot_intents_restate using that out by (intro restate_id) auto
  show "wi_intent_id i = k \<and> wi_session_generation i = g" if "restate f I k = Some i" for k i
    using that inv by (auto simp: restate_Some work_inv_def)
  show "slot_inv g sid (slot_intents (restate f I) sid) s'"
    unfolding slot_intents_restate by (rule slot)
  show "lease_ok g (insert sid (dom S)) k l" if "L' k = Some l" for k l
    using leases [OF that] inv by (auto simp: work_inv_def lease_ok_def)
qed

lemma work_inv_insert:
  assumes inv: "work_inv g S I L"
    and fresh: "I x = None"
    and new: "wi_intent_id i = x" "wi_session_generation i = g" "wi_slot_id i = sid"
    and slot: "slot_inv g sid ((slot_intents I sid)(x \<mapsto> i)) s'"
    and leases: "\<And>k l. L' k = Some l \<Longrightarrow> L k = Some l"
  shows "work_inv g (S(sid \<mapsto> s')) (I(x \<mapsto> i)) L'"
proof (rule work_inv_local [OF inv])
  show "slot_intents (I(x \<mapsto> i)) sid' = slot_intents I sid'" if "sid' \<noteq> sid" for sid'
    using that fresh new by (auto simp: slot_intents_def fun_eq_iff)
  show "wi_intent_id j = k \<and> wi_session_generation j = g" if "(I(x \<mapsto> i)) k = Some j" for k j
    using that inv new by (auto simp: work_inv_def split: if_splits)
  have "slot_intents (I(x \<mapsto> i)) sid = (slot_intents I sid)(x \<mapsto> i)"
    using new by (auto simp: slot_intents_def fun_eq_iff)
  then show "slot_inv g sid (slot_intents (I(x \<mapsto> i)) sid) s'"
    using slot by simp
  show "lease_ok g (insert sid (dom S)) k l" if "L' k = Some l" for k l
    using leases [OF that] inv by (auto simp: work_inv_def lease_ok_def)
qed

text \<open>An update that leaves the intents alone.\<close>

lemma work_inv_slot:
  assumes "work_inv g S I L" and "slot_inv g sid (slot_intents I sid) s'"
    and "\<And>k l. L' k = Some l \<Longrightarrow> lease_ok g (insert sid (dom S)) k l"
  shows "work_inv g (S(sid \<mapsto> s')) I L'"
  using assms by (intro work_inv_local [where I = I and L = L]) (auto simp: work_inv_def)

lemma work_inv_slotD: "work_inv g S I L \<Longrightarrow> S sid = Some s \<Longrightarrow> slot_inv g sid (slot_intents I sid) s"
  by (simp add: work_inv_def)

text \<open>A slot that does not exist yet has no open intents.\<close>

lemma slot_inv_new:
  assumes "work_inv g S I L" and "S sid = None"
  shows "slot_inv g sid (slot_intents I sid) (slot_new role)"
proof -
  have "is_terminal (wi_state i)" if "I x = Some i" "wi_slot_id i = sid" for x i
    using assms that unfolding work_inv_def by (metis domIff)
  then have "\<not> in_flight (wi_state i) \<and> wi_state i \<noteq> WsQueued" if "slot_intents I sid x = Some i" for x i
    using that open_iff by auto
  moreover have "queue p (slot_new role) = []" for p
    by (cases p) (simp_all add: slot_new_def)
  ultimately show ?thesis
    unfolding slot_inv_def by (auto simp: slot_new_def)
qed

section \<open>Queues\<close>

lemma queue_queue_mut [simp]:
  "queue p (queue_mut p' f s) = (if p = p' then f (queue p s) else queue p s)"
  by (cases p; cases p') simp_all

lemma queue_remove_queued [simp]: "queue p (remove_queued x s) = filter (\<lambda>y. y \<noteq> x) (queue p s)"
  by (cases p) (simp_all add: remove_queued_def)

lemma queue_fold_remove_queued [simp]:
  "queue p (fold remove_queued xs s) = filter (\<lambda>y. y \<notin> set xs) (queue p s)"
  by (induction xs arbitrary: s) (auto intro: filter_cong)

lemma queue_clear_slot [simp]: "queue p (clear_slot s) = []"
  by (cases p) (simp_all add: clear_slot_def)

lemma queue_frame [simp]:
  "queue p (s\<lparr>ss_active := a\<rparr>) = queue p s"
  "queue p (s\<lparr>ss_paused := b\<rparr>) = queue p s"
  "queue p (s\<lparr>ss_role := r\<rparr>) = queue p s"
  "queue p (s\<lparr>ss_runtime_constraint := k\<rparr>) = queue p s"
  "queue p (s\<lparr>ss_known_unread_message_ids := u\<rparr>) = queue p s"
  "queue p (s\<lparr>ss_removed := d\<rparr>) = queue p s"
  by (cases p; simp)+

lemma active_queue_mut [simp]: "ss_active (queue_mut p f s) = ss_active s"
  by (cases p) simp_all

lemma active_remove_queued [simp]: "ss_active (remove_queued x s) = ss_active s"
  by (simp add: remove_queued_def)

lemma active_fold_remove_queued [simp]: "ss_active (fold remove_queued xs s) = ss_active s"
  by (induction xs arbitrary: s) simp_all

lemma active_clear_slot [simp]: "ss_active (clear_slot s) = None"
  by (simp add: clear_slot_def)

lemma set_queued_ids: "x \<in> set (queued_ids s) \<longleftrightarrow> (\<exists>p. x \<in> set (queue p s))"
proof -
  have "(\<exists>p. x \<in> set (queue p s))
    \<longleftrightarrow> x \<in> set (queue Foreground s) \<or> x \<in> set (queue Control s) \<or> x \<in> set (queue Background s)"
    by (metis work_priority.exhaust)
  then show ?thesis by (simp add: queued_ids_def)
qed

lemma queue_requeue_back:
  "queue p (requeue_back xs s) = queue p s @ map snd (filter (\<lambda>e. fst e = p) xs)"
  unfolding requeue_back_def
  by (induction xs arbitrary: s) (auto simp: push_back_def)

lemma active_requeue_back [simp]: "ss_active (requeue_back xs s) = ss_active s"
  unfolding requeue_back_def by (induction xs arbitrary: s) auto

lemma queue_requeue_front:
  "queue p (requeue_front xs s) = map snd (filter (\<lambda>e. fst e = p) xs) @ queue p s"
  unfolding requeue_front_def by (induction xs) auto

lemma active_requeue_front [simp]: "ss_active (requeue_front xs s) = ss_active s"
  unfolding requeue_front_def by (induction xs) auto

lemma foldr_Cons_append [simp]: "foldr (#) xs ys = xs @ ys"
  by (induction xs) auto

lemma queue_commit_enqueue_slot:
  "queue p (commit_enqueue_slot src msg x s)
     = (if p = priority src then queue p s @ [x] else queue p s)"
  by (auto simp: commit_enqueue_slot_def push_back_def Let_def split: option.splits)

lemma active_commit_enqueue_slot [simp]:
  "ss_active (commit_enqueue_slot src msg x s) = ss_active s"
  by (auto simp: commit_enqueue_slot_def Let_def split: option.splits)

lemma slot_inv_distinct_queued:
  assumes "slot_inv g sid J s"
  shows "distinct (queued_ids s)"
proof -
  have disj: "set (queue p s) \<inter> set (queue p' s) = {}" if "p \<noteq> p'" for p p'
    using assms that by (fastforce simp: slot_inv_def)
  have "distinct (queue p s)" for p
    using assms by (simp add: slot_inv_def)
  from this [of Foreground] this [of Control] this [of Background]
    disj [of Foreground Control] disj [of Foreground Background] disj [of Control Background]
  show ?thesis by (auto simp: queued_ids_def)
qed

lemma slot_inv_queueD:
  "slot_inv g sid J s \<Longrightarrow> x \<in> set (queue p s)
    \<Longrightarrow> \<exists>i. J x = Some i \<and> wi_state i = WsQueued \<and> wi_priority i = p"
  by (simp add: slot_inv_def)

lemma slot_inv_queueI:
  "slot_inv g sid J s \<Longrightarrow> J x = Some i \<Longrightarrow> wi_state i = WsQueued
    \<Longrightarrow> x \<in> set (queue (wi_priority i) s)"
  by (simp add: slot_inv_def)

lemma slot_inv_queue_iff:
  "slot_inv g sid J s \<Longrightarrow> J x = Some i
    \<Longrightarrow> x \<in> set (queue p s) \<longleftrightarrow> wi_state i = WsQueued \<and> wi_priority i = p"
  by (auto simp: slot_inv_def)

lemma slot_inv_flightD:
  "slot_inv g sid J s \<Longrightarrow> J x = Some i \<Longrightarrow> in_flight (wi_state i)
    \<Longrightarrow> \<exists>a. ss_active s = Some a \<and> x \<in> set (wb_intent_ids (ab_batch a))"
  unfolding slot_inv_def by blast

lemma slot_inv_activeD: "slot_inv g sid J s \<Longrightarrow> ss_active s = Some a \<Longrightarrow> active_inv g sid J a"
  by (simp add: slot_inv_def)

lemma slot_inv_distinctD: "slot_inv g sid J s \<Longrightarrow> distinct (queue p s)"
  by (simp add: slot_inv_def)

lemma active_invD:
  assumes "active_inv g sid J a"
  shows "wb_slot_id (ab_batch a) = sid" and "wb_session_generation (ab_batch a) = g"
    and "distinct (wb_intent_ids (ab_batch a))" and "wb_intent_ids (ab_batch a) \<noteq> []"
  using assms by (simp_all add: active_inv_def)

lemma active_inv_intentD:
  "active_inv g sid J a \<Longrightarrow> x \<in> set (wb_intent_ids (ab_batch a)) \<Longrightarrow> \<exists>i. J x = Some i
    \<and> wi_state i = batch_state a \<and> wi_priority i = wb_highest_priority (ab_batch a)
    \<and> wi_mailbox_message_id i \<noteq> None"
  by (simp add: active_inv_def)

lemma active_inv_runs:
  "active_inv g sid J a \<Longrightarrow> r \<in> set (wb_team_run_ids (ab_batch a))
    \<longleftrightarrow> (\<exists>x i. x \<in> set (wb_intent_ids (ab_batch a)) \<and> J x = Some i \<and> wi_team_run_id i = Some r)"
  by (simp add: active_inv_def)

text \<open>Only the queues and the active batch matter to the invariant of a slot.\<close>

lemma slot_inv_frame:
  assumes "slot_inv g sid J s" and "\<And>p. queue p s' = queue p s" and "ss_active s' = ss_active s"
  shows "slot_inv g sid J s'"
  using assms by (simp add: slot_inv_def)

section \<open>Preservation: building blocks\<close>

lemma slot_inv_restate_inactive:
  assumes "\<And>x i. J x = Some i \<Longrightarrow> \<not> in_flight (f x i)" and "ss_active s' = None"
    and "\<And>p. distinct (queue p s')"
    and "\<And>p x. x \<in> set (queue p s') \<longleftrightarrow> (\<exists>i. J x = Some i \<and> f x i = WsQueued \<and> wi_priority i = p)"
  shows "slot_inv g sid (restate f J) s'"
  using assms by (auto simp: slot_inv_def restate_Some)

lemma active_inv_cong:
  assumes "\<And>x. x \<in> set (wb_intent_ids (ab_batch a)) \<Longrightarrow> J' x = J x"
  shows "active_inv g sid J' a = active_inv g sid J a"
  using assms unfolding active_inv_def by (simp cong: conj_cong ball_cong)

lemma active_inv_restate:
  assumes "active_inv g sid J a" and "ab_batch a' = ab_batch a"
    and "\<And>x i. x \<in> set (wb_intent_ids (ab_batch a)) \<Longrightarrow> J x = Some i \<Longrightarrow> f x i = batch_state a'"
  shows "active_inv g sid (restate f J) a'"
  using assms unfolding active_inv_def restate_Some by fastforce

lemma slot_inv_restate_active:
  assumes inv: "slot_inv g sid J s" and "ss_active s' = ss_active s"
    and flight: "\<And>x i. J x = Some i \<Longrightarrow> in_flight (wi_state i) \<Longrightarrow> f x i = wi_state i"
    and other: "\<And>x i. J x = Some i \<Longrightarrow> \<not> in_flight (wi_state i) \<Longrightarrow> \<not> in_flight (f x i)"
    and "\<And>p. distinct (queue p s')"
    and "\<And>p x. x \<in> set (queue p s') \<longleftrightarrow> (\<exists>i. J x = Some i \<and> f x i = WsQueued \<and> wi_priority i = p)"
  shows "slot_inv g sid (restate f J) s'"
proof -
  have "active_inv g sid (restate f J) a" if "ss_active s = Some a" for a
  proof (rule active_inv_restate [of g sid J a])
    show "active_inv g sid J a"
      using inv that by (simp add: slot_inv_def)
    then show "f x i = batch_state a" if "x \<in> set (wb_intent_ids (ab_batch a))" "J x = Some i" for x i
      using that flight unfolding active_inv_def by fastforce
  qed simp
  moreover have "\<exists>a. ss_active s = Some a \<and> x \<in> set (wb_intent_ids (ab_batch a))"
    if "J x = Some i" "in_flight (f x i)" for x i
    using that other inv unfolding slot_inv_def by blast
  ultimately show ?thesis
    using assms(2,5,6) by (auto simp: slot_inv_def restate_Some)
qed

lemma state_inv_operation_id [simp]:
  "state_inv g (st\<lparr>cs_next_operation_id := n\<rparr>) = state_inv g st"
  by (simp add: state_inv_def)

lemma state_inv_slotD:
  "state_inv g st \<Longrightarrow> map_of (cs_slots st) sid = Some s
    \<Longrightarrow> slot_inv g sid (slot_intents (map_of (cs_intents st)) sid) s"
  by (auto simp: state_inv_def dest: work_inv_slotD)

lemma map_of_entry_update:
  "bt_sorted m \<Longrightarrow> map_of (entry_update k d f m)
     = (map_of m)(k \<mapsto> f (case map_of m k of None \<Rightarrow> d | Some s \<Rightarrow> s))"
  by (simp add: entry_update_def)

lemma bt_sorted_entry_update [simp]: "bt_sorted m \<Longrightarrow> bt_sorted (entry_update k d f m)"
  by (simp add: entry_update_def)

lemma map_of_modify_upd:
  "map_of m k = Some v \<Longrightarrow> map_of (hm_modify k f m) = (map_of m)(k \<mapsto> f v)"
  by (auto simp: fun_eq_iff)

lemma state_inv_entry:
  assumes inv: "state_inv g st"
    and frame: "\<And>s p. queue p (f s) = queue p s" "\<And>s. ss_active (f s) = ss_active s"
  shows "state_inv g (st\<lparr>cs_slots := entry_update sid (slot_new role) f (cs_slots st)\<rparr>)"
proof -
  let ?s = "case map_of (cs_slots st) sid of None \<Rightarrow> slot_new role | Some s \<Rightarrow> s"
  have w: "work_inv g (map_of (cs_slots st)) (map_of (cs_intents st)) (map_of (cs_enqueue_leases st))"
    and so: "bt_sorted (cs_slots st)"
    using inv by (simp_all add: state_inv_def)
  have "slot_inv g sid (slot_intents (map_of (cs_intents st)) sid) ?s"
    using w slot_inv_new work_inv_slotD by (auto split: option.splits)
  then have "slot_inv g sid (slot_intents (map_of (cs_intents st)) sid) (f ?s)"
    by (rule slot_inv_frame) (simp_all add: frame)
  then have "work_inv g ((map_of (cs_slots st))(sid \<mapsto> f ?s)) (map_of (cs_intents st))
      (map_of (cs_enqueue_leases st))"
    using w by (intro work_inv_slot) (auto simp: work_inv_def lease_ok_def)
  then show ?thesis
    using inv so by (simp add: state_inv_def map_of_entry_update)
qed

lemma work_inv_leases:
  assumes "work_inv g S I L" and "\<And>k l. L' k = Some l \<Longrightarrow> lease_ok g (dom S) k l"
  shows "work_inv g S I L'"
  using assms unfolding work_inv_def by blast

lemma state_inv_lease:
  assumes "state_inv g st" and "lease_ok g (dom (map_of (cs_slots st))) k l"
  shows "state_inv g (st\<lparr>cs_enqueue_leases := hm_insert k l (cs_enqueue_leases st)\<rparr>)"
proof -
  have "lease_ok g (dom (map_of (cs_slots st))) k' l'"
    if "map_of (hm_insert k l (cs_enqueue_leases st)) k' = Some l'" for k' l'
    using that assms by (auto simp: state_inv_def work_inv_def split: if_splits)
  then show ?thesis
    using assms work_inv_leases [of g] unfolding state_inv_def
    by (simp add: distinct_hm_insert del: map_of_hm_insert) blast
qed

lemma state_inv_drop_lease:
  assumes "state_inv g st"
  shows "state_inv g (st\<lparr>cs_enqueue_leases := hm_remove k (cs_enqueue_leases st)\<rparr>)"
proof -
  have "lease_ok g (dom (map_of (cs_slots st))) k' l'"
    if "map_of (hm_remove k (cs_enqueue_leases st)) k' = Some l'" for k' l'
    using that assms by (auto simp: state_inv_def work_inv_def split: if_splits)
  then show ?thesis
    using assms work_inv_leases [of g] unfolding state_inv_def
    by (simp add: distinct_hm_remove del: map_of_hm_remove) blast
qed

text \<open>Intents change their states, one slot its contents.\<close>

lemma state_inv_restate:
  assumes inv: "state_inv g st" and slot: "map_of (cs_slots st) sid = Some s"
    and keys: "distinct (hm_keys ints)" and ints: "map_of ints = restate f (map_of (cs_intents st))"
    and out: "\<And>x i. map_of (cs_intents st) x = Some i \<Longrightarrow> wi_slot_id i \<noteq> sid \<Longrightarrow> f x i = wi_state i"
    and new: "slot_inv g sid (restate f (slot_intents (map_of (cs_intents st)) sid)) (h s)"
  shows "state_inv g (st\<lparr>cs_intents := ints, cs_slots := hm_modify sid h (cs_slots st)\<rparr>)"
proof -
  have "work_inv g ((map_of (cs_slots st))(sid \<mapsto> h s)) (restate f (map_of (cs_intents st)))
      (map_of (cs_enqueue_leases st))"
    using inv out new by (intro work_inv_restate [where L = "map_of (cs_enqueue_leases st)"])
      (auto simp: state_inv_def)
  then show ?thesis
    using inv keys ints map_of_modify_upd [OF slot] by (simp add: state_inv_def)
qed

lemma state_inv_insert:
  assumes inv: "state_inv g st" and slot: "map_of (cs_slots st) sid = Some s"
    and fresh: "map_of (cs_intents st) x = None"
    and new: "wi_intent_id i = x" "wi_session_generation i = g" "wi_slot_id i = sid"
      "wi_state i = WsQueued" "wi_priority i = p"
    and h: "\<And>q. queue q (h s) = (if q = p then queue q s @ [x] else queue q s)"
      "ss_active (h s) = ss_active s"
  shows "state_inv g (st\<lparr>cs_intents := hm_insert x i (cs_intents st),
                         cs_slots := hm_modify sid h (cs_slots st)\<rparr>)"
proof -
  let ?J = "slot_intents (map_of (cs_intents st)) sid"
  have old: "slot_inv g sid ?J s"
    using inv slot by (auto simp: state_inv_def dest: work_inv_slotD)
  have fr: "?J x = None"
    using fresh by (auto simp: slot_intents_def)
  have nq: "x \<notin> set (queue q s)" for q
    using old fresh by (auto simp: slot_inv_def)
  have na: "active_inv g sid (?J(x \<mapsto> i)) a" if "ss_active s = Some a" for a
  proof -
    have a: "active_inv g sid ?J a"
      using old that by (simp add: slot_inv_def)
    then have "x \<notin> set (wb_intent_ids (ab_batch a))"
      using fr unfolding active_inv_def by fastforce
    then have "(?J(x \<mapsto> i)) y = ?J y" if "y \<in> set (wb_intent_ids (ab_batch a))" for y
      using that by auto
    with a show ?thesis
      using active_inv_cong by blast
  qed
  have q1: "y \<in> set (queue q (h s))
      \<longleftrightarrow> (\<exists>j. (?J(x \<mapsto> i)) y = Some j \<and> wi_state j = WsQueued \<and> wi_priority j = q)" for q y
  proof (cases "y = x")
    case True
    then show ?thesis using nq h new by auto
  next
    case False
    then have "y \<in> set (queue q (h s)) \<longleftrightarrow> y \<in> set (queue q s)"
      using h by auto
    with False old show ?thesis by (simp add: slot_inv_def)
  qed
  have q2: "distinct (queue q (h s))" for q
    using old nq h by (simp add: slot_inv_def)
  have q3: "\<exists>a. ss_active s = Some a \<and> y \<in> set (wb_intent_ids (ab_batch a))"
    if "(?J(x \<mapsto> i)) y = Some j" "in_flight (wi_state j)" for y j
  proof -
    have "y \<noteq> x" using that new by auto
    with that have "?J y = Some j" by simp
    with that(2) old show ?thesis unfolding slot_inv_def by blast
  qed
  have "slot_inv g sid (?J(x \<mapsto> i)) (h s)"
    unfolding slot_inv_def h(2)
  proof (intro conjI allI impI)
    show "distinct (queue q (h s))" for q by (rule q2)
    show "y \<in> set (queue q (h s))
        \<longleftrightarrow> (\<exists>j. (?J(x \<mapsto> i)) y = Some j \<and> wi_state j = WsQueued \<and> wi_priority j = q)" for q y
      by (rule q1)
    show "\<exists>a. ss_active s = Some a \<and> y \<in> set (wb_intent_ids (ab_batch a))"
      if "(?J(x \<mapsto> i)) y = Some j \<and> in_flight (wi_state j)" for y j
      using that q3 by blast
    show "active_inv g sid (?J(x \<mapsto> i)) a" if "ss_active s = Some a" for a
      using that by (rule na)
  qed
  then have "work_inv g ((map_of (cs_slots st))(sid \<mapsto> h s)) ((map_of (cs_intents st))(x \<mapsto> i))
      (map_of (cs_enqueue_leases st))"
    using inv fresh new by (intro work_inv_insert [where L = "map_of (cs_enqueue_leases st)"])
      (auto simp: state_inv_def)
  then show ?thesis
    using inv map_of_modify_upd [OF slot] by (simp add: state_inv_def distinct_hm_insert)
qed

section \<open>Preservation: enqueueing\<close>

lemma state_inv_empty: "state_inv g empty_state"
  by (simp add: state_inv_def empty_state_def work_inv_def)

text \<open>The state after the slot entry is created or its role assigned.\<close>

definition touched :: "enqueue_request \<Rightarrow> coordinator_state \<Rightarrow> coordinator_state" where
  "touched req st = st\<lparr>cs_slots := entry_update (er_slot_id req) (slot_new (er_role req))
      (\<lambda>s. s\<lparr>ss_role := er_role req\<rparr>) (cs_slots st)\<rparr>"

lemma acquire_enqueue_cases:
  assumes "acquire_enqueue P lid req c = (res, c')"
  obtains e where "res = Inl e" and "c' = c\<lparr>co_state := touched req (co_state c)\<rparr>"
  | binding run lease where "res = Inr lease"
    and "resolve_binding P req (cs_slots (touched req (co_state c))) (co_run_causality c) = (binding, run)"
    and "lease = new_lease lid (co_session_generation c) req binding"
    and "c' = c\<lparr>co_state := (touched req (co_state c))\<lparr>cs_enqueue_leases :=
            hm_insert lid \<lparr>lr_lease = lease, lr_binding = binding\<rparr> (cs_enqueue_leases (co_state c))\<rparr>,
            co_run_causality := run\<rparr>"
  using assms unfolding acquire_enqueue_def touched_def Let_def
  by (auto simp del: validate_enqueue_constraint.simps split: sum.splits prod.splits)

lemma state_inv_touched: "state_inv g st \<Longrightarrow> state_inv g (touched req st)"
  unfolding touched_def by (rule state_inv_entry) simp_all

lemma acquire_enqueue_inv:
  assumes inv: "coordinator_inv c" and run: "acquire_enqueue P lid req c = (res, c')"
  shows "coordinator_inv c'"
  using run
proof (cases rule: acquire_enqueue_cases)
  case 1
  then show ?thesis
    using inv by (simp add: coordinator_inv_def state_inv_touched)
next
  case (2 binding run lease)
  let ?st = "touched req (co_state c)"
  have st: "state_inv (co_session_generation c) ?st"
    using inv by (simp add: coordinator_inv_def state_inv_touched)
  have "er_slot_id req \<in> dom (map_of (cs_slots ?st))"
    using inv by (simp add: coordinator_inv_def state_inv_def touched_def map_of_entry_update)
  then have "lease_ok (co_session_generation c) (dom (map_of (cs_slots ?st))) lid
      \<lparr>lr_lease = lease, lr_binding = binding\<rparr>"
    by (simp add: lease_ok_def 2 new_lease_def)
  from state_inv_lease [OF st this] show ?thesis
    by (simp add: coordinator_inv_def 2 touched_def)
qed

lemma commit_state_simps [simp]:
  "co_state (commit_state P st sums c) = st"
  "co_session_generation (commit_state P st sums c) = co_session_generation c"
  "co_team_id (commit_state P st sums c) = co_team_id c"
  "co_run_causality (commit_state P st sums c) = publish_run_summaries P sums (co_run_causality c)"
  by (simp_all add: commit_state_def)

text \<open>The state is written back and the summaries of the given runs are published.\<close>

definition commit_runs ::
  "'r run_causality_port \<Rightarrow> coordinator_state \<Rightarrow> string list \<Rightarrow> 'r coordinator \<Rightarrow> 'r coordinator" where
  "commit_runs P st runs c = commit_state P st (run_summaries_locked st runs) c"

definition published :: "'r run_causality_port \<Rightarrow> 'r coordinator \<Rightarrow> 'r coordinator \<Rightarrow> bool" where
  "published P c c' \<longleftrightarrow> (\<exists>runs. distinct runs \<and> co_run_causality c'
     = publish_run_summaries P (map (run_summary_locked (co_state c')) runs) (co_run_causality c))"

lemma commit_runs_simps [simp]:
  "co_state (commit_runs P st runs c) = st"
  "co_session_generation (commit_runs P st runs c) = co_session_generation c"
  by (simp_all add: commit_runs_def)

lemma published_commit_runs [simp, intro]: "published P c (commit_runs P st runs c)"
  unfolding published_def commit_runs_def
  by (intro exI [of _ "btree_set runs"]) (simp add: run_summaries_locked_def)

lemma published_refl [simp, intro]: "published P c c"
  unfolding published_def by (intro exI [of _ "[]"]) (simp add: publish_run_summaries_def)

lemma disposition_returns:
  "validate_enqueue_constraint sid slot = Inr u \<Longrightarrow> \<exists>d. disposition_of slot = Ret d"
  by (auto split: if_splits runtime_constraint.splits)

lemma slot_snapshot_defined:
  "map_of (cs_slots st) sid = Some s \<Longrightarrow> \<exists>snap. slot_snapshot_locked st sid = Some snap"
  by (simp add: slot_snapshot_locked_def)

lemma commit_enqueue_cases:
  assumes "commit_enqueue P x now lease msg c = Ret (res, c')"
  obtains e where "res = Inl e" and "c' = c"
  | slot lrec ec runs where "res = Inr ec" and "ec_intent_id ec = x"
    and "map_of (cs_enqueue_leases (co_state c)) (el_lease_id lease) = Some lrec"
    and "lr_lease lrec = lease" and "el_session_generation lease = co_session_generation c"
    and "requires_mailbox_message (el_source lease) \<longrightarrow> msg \<noteq> None"
    and "map_of (cs_slots (co_state c)) (el_slot_id lease) = Some slot"
    and "validate_enqueue_constraint (el_slot_id lease) slot = Inr ()"
    and "c' = commit_runs P ((co_state c)\<lparr>
            cs_enqueue_leases := hm_remove (el_lease_id lease) (cs_enqueue_leases (co_state c)),
            cs_intents := hm_insert x (enqueued_intent (co_session_generation c) x now lease msg)
              (cs_intents (co_state c)),
            cs_slots := hm_modify (el_slot_id lease) (commit_enqueue_slot (el_source lease) msg x)
              (cs_slots (co_state c))\<rparr>) runs c"
  using assms unfolding commit_enqueue_def Let_def
  by (auto simp: commit_runs_def simp del: validate_enqueue_constraint.simps disposition_of.simps
      split: option.splits if_splits sum.splits)

lemma commit_enqueue_returns:
  "returns (commit_enqueue P x now lease msg c)"
  unfolding commit_enqueue_def Let_def returns_iff
  by (auto simp: slot_snapshot_locked_def dest: disposition_returns
      simp del: validate_enqueue_constraint.simps disposition_of.simps
      split: option.splits sum.splits)

lemma commit_enqueue_inv:
  assumes inv: "coordinator_inv c" and fresh: "map_of (cs_intents (co_state c)) x = None"
    and run: "commit_enqueue P x now lease msg c = Ret (res, c')"
  shows "coordinator_inv c'"
  using run
proof (cases rule: commit_enqueue_cases)
  case 1
  then show ?thesis using inv by simp
next
  case (2 slot lrec ec runs)
  let ?st = "(co_state c)\<lparr>cs_enqueue_leases := hm_remove (el_lease_id lease) (cs_enqueue_leases (co_state c))\<rparr>"
  let ?i = "enqueued_intent (co_session_generation c) x now lease msg"
  have st: "state_inv (co_session_generation c) ?st"
    using inv unfolding coordinator_inv_def by (rule state_inv_drop_lease)
  have "state_inv (co_session_generation c) (?st\<lparr>cs_intents := hm_insert x ?i (cs_intents ?st),
      cs_slots := hm_modify (el_slot_id lease) (commit_enqueue_slot (el_source lease) msg x) (cs_slots ?st)\<rparr>)"
    using 2 fresh
    by (intro state_inv_insert [OF st, where s = slot and p = "priority (el_source lease)"])
      (simp_all add: enqueued_intent_def queue_commit_enqueue_slot)
  then show ?thesis
    by (simp add: coordinator_inv_def 2)
qed

lemma abort_enqueue_inv:
  assumes inv: "coordinator_inv c" and run: "abort_enqueue P lease c = (res, c')"
  shows "coordinator_inv c'"
proof (cases "map_of (cs_enqueue_leases (co_state c)) (el_lease_id lease)")
  case None
  then show ?thesis using run inv by (simp add: abort_enqueue_def)
next
  case (Some lrec)
  let ?st = "(co_state c)\<lparr>cs_enqueue_leases := hm_remove (el_lease_id lease) (cs_enqueue_leases (co_state c))\<rparr>"
  have st: "state_inv (co_session_generation c) ?st"
    using inv unfolding coordinator_inv_def by (rule state_inv_drop_lease)
  have ok: "lease_ok (co_session_generation c) (dom (map_of (cs_slots ?st)))
      (el_lease_id (lr_lease lrec)) lrec"
    using inv Some by (auto simp: coordinator_inv_def state_inv_def work_inv_def lease_ok_def)
  show ?thesis
    using run Some st state_inv_lease [OF st ok]
    by (auto simp: abort_enqueue_def coordinator_inv_def Let_def split: if_splits)
qed

end
