(* ===== verification/Work_Batches.thy ===== *)
theory Work_Batches
  imports Work_Invariant
begin

text \<open>
  The operations that move intents between queues and batches (\<open>next\<close>, \<open>mark_started\<close>,
  \<open>retry_start\<close>, \<open>complete_batch\<close>, \<open>fail_batch\<close>, \<open>cancel_batch\<close>, \<open>complete_signals\<close>), that
  reconcile a slot with its mailbox, and that pause it: each keeps the invariant and none panics.
  An operation that takes a batch back from its owner assumes that a batch that passes the
  ownership check is the active batch itself; \<open>Work_System\<close> proves that of every batch a claim
  has issued.
\<close>

section \<open>Preservation: claiming and ending batches\<close>

lemma bind_map_option_set_state [simp]:
  "Option.bind (map_option (set_state t) x) wi_mailbox_message_id = Option.bind x wi_mailbox_message_id"
  "Option.bind (map_option (set_state t) x) wi_team_run_id = Option.bind x wi_team_run_id"
  by (cases x; simp_all)+

lemma bind_modify_set_state:
  "Option.bind (map_of (hm_modify k (set_state t) m) y) wi_mailbox_message_id
     = Option.bind (map_of m y) wi_mailbox_message_id"
  "Option.bind (map_of (hm_modify k (set_state t) m) y) wi_team_run_id
     = Option.bind (map_of m y) wi_team_run_id"
  by (simp_all only: map_of_hm_modify bind_map_option_set_state split: if_split) simp_all

lemma claim_intents_Ret:
  assumes "claim_intents b p xs m msgs runs = Ret (m', msgs', runs')"
  shows "m' = hm_modify_all xs (set_state (WsStarting b p)) m
    \<and> (\<forall>x \<in> set xs. map_of m x \<noteq> None)
    \<and> msgs' = msgs @ List.map_filter (\<lambda>x. Option.bind (map_of m x) wi_mailbox_message_id) xs
    \<and> (\<forall>r. r \<in> set runs' \<longleftrightarrow> r \<in> set runs
          \<or> (\<exists>x \<in> set xs. Option.bind (map_of m x) wi_team_run_id = Some r))
    \<and> (distinct runs \<longrightarrow> distinct runs')"
  using assms
proof (induction xs arbitrary: m msgs runs)
  case Nil
  then show ?case by (simp add: List.map_filter_def)
next
  case (Cons x xs)
  then obtain i where i: "map_of m x = Some i" by (auto split: option.splits)
  let ?m = "hm_modify x (set_state (WsStarting b p)) m"
  from Cons.prems i have run: "claim_intents b p xs ?m
      (case wi_mailbox_message_id i of None \<Rightarrow> msgs | Some k \<Rightarrow> msgs @ [k])
      (case wi_team_run_id i of None \<Rightarrow> runs
       | Some r \<Rightarrow> if r \<in> set runs then runs else runs @ [r]) = Ret (m', msgs', runs')"
    by simp
  note IH = Cons.IH [OF this, unfolded bind_modify_set_state map_of_hm_modify_None]
  show ?case
  proof (intro conjI)
    show "m' = hm_modify_all (x # xs) (set_state (WsStarting b p)) m"
      using IH by simp
    show "\<forall>y \<in> set (x # xs). map_of m y \<noteq> None"
      using IH i by simp
    show "msgs' = msgs @ List.map_filter (\<lambda>x. Option.bind (map_of m x) wi_mailbox_message_id) (x # xs)"
      using IH i by (simp add: List.map_filter_simps split: option.splits)
    show "\<forall>r. r \<in> set runs' \<longleftrightarrow> r \<in> set runs
          \<or> (\<exists>y \<in> set (x # xs). Option.bind (map_of m y) wi_team_run_id = Some r)"
      using IH i by (auto split: option.splits)
    show "distinct runs \<longrightarrow> distinct runs'"
      using IH by (auto split: option.splits)
  qed
qed

lemma claim_intents_returns:
  assumes "\<And>x. x \<in> set xs \<Longrightarrow> map_of m x \<noteq> None"
  shows "\<exists>r. claim_intents b p xs m msgs runs = Ret r"
  using assms
proof (induction xs arbitrary: m msgs runs)
  case (Cons x xs)
  from Cons.prems [of x] obtain i where i: "map_of m x = Some i" by auto
  have "map_of (hm_modify x (set_state (WsStarting b p)) m) y \<noteq> None" if "y \<in> set xs" for y
    using Cons.prems [of y] that by (simp add: map_of_hm_modify_None del: map_of_hm_modify)
  from Cons.IH [OF this] i show ?case by simp
qed simp

text \<open>The batch a claim creates and the state it leaves.\<close>

definition claimed_batch ::
  "string \<Rightarrow> string \<Rightarrow> string \<Rightarrow> work_priority \<Rightarrow> string list \<Rightarrow> string list \<Rightarrow> string list \<Rightarrow> 64 word
   \<Rightarrow> work_batch" where
  "claimed_batch bid g sid prio ids msgs runs op =
     \<lparr>wb_batch_id = bid, wb_session_generation = g, wb_slot_id = sid, wb_intent_ids = ids,
      wb_mailbox_message_ids = msgs, wb_highest_priority = prio, wb_team_run_ids = runs,
      wb_operation_id = op\<rparr>"

definition claimed_slot :: "work_batch \<Rightarrow> slot_state \<Rightarrow> slot_state" where
  "claimed_slot batch s = (fold remove_queued (wb_intent_ids batch) s)\<lparr>ss_active :=
     Some \<lparr>ab_batch = batch, ab_turn_id = None, ab_started_at_ms = None\<rparr>\<rparr>"

lemma claim_batch_cases:
  assumes "claim_batch P bid sid prio ids c = Ret (d, c')"
  obtains intents msgs runs batch where
    "claim_intents bid (saturating_add_one (cs_next_operation_id (co_state c))) ids
       (cs_intents (co_state c)) [] [] = Ret (intents, msgs, runs)"
    and "batch = claimed_batch bid (co_session_generation c) sid prio ids msgs runs
          (saturating_add_one (cs_next_operation_id (co_state c)))"
    and "d = Claim batch"
    and "\<exists>pub. c' = commit_runs P ((co_state c)\<lparr>
            cs_next_operation_id := wb_operation_id batch, cs_intents := intents,
            cs_slots := hm_modify sid (claimed_slot batch) (cs_slots (co_state c))\<rparr>) pub c"
proof -
  have eta: "claimed_slot batch = (\<lambda>s. (fold remove_queued (wb_intent_ids batch) s)\<lparr>ss_active :=
     Some \<lparr>ab_batch = batch, ab_turn_id = None, ab_started_at_ms = None\<rparr>\<rparr>)" for batch
    by (simp add: claimed_slot_def fun_eq_iff)
  from assms obtain intents msgs runs where cl:
    "claim_intents bid (saturating_add_one (cs_next_operation_id (co_state c))) ids
       (cs_intents (co_state c)) [] [] = Ret (intents, msgs, runs)"
    unfolding claim_batch_def Let_def by (auto split: prod.splits)
  show ?thesis
  proof (rule that [OF cl refl])
    show "d = Claim (claimed_batch bid (co_session_generation c) sid prio ids msgs runs
          (saturating_add_one (cs_next_operation_id (co_state c))))"
      using assms cl by (simp add: claim_batch_def claimed_batch_def Let_def)
    show "\<exists>pub. c' = commit_runs P ((co_state c)\<lparr>
            cs_next_operation_id := wb_operation_id (claimed_batch bid (co_session_generation c) sid prio ids msgs runs
          (saturating_add_one (cs_next_operation_id (co_state c)))), cs_intents := intents,
            cs_slots := hm_modify sid (claimed_slot (claimed_batch bid (co_session_generation c) sid prio ids msgs runs
          (saturating_add_one (cs_next_operation_id (co_state c))))) (cs_slots (co_state c))\<rparr>) pub c"
      using assms cl by (auto simp: claim_batch_def claimed_batch_def eta Let_def commit_runs_def)
  qed
qed

lemma next_work_cases:
  assumes "next_work P bid sid c = Ret (d, c')"
  obtains "c' = c" and "\<And>b. d \<noteq> Claim b"
  | slot prio ids where
    "map_of (cs_slots (co_state c)) sid = Some slot" and "ss_active slot = None"
    and "ss_runtime_constraint slot = RcReady" and "\<not> ss_paused slot"
    and "selected_priority slot = Some prio"
    and "ids = filter (is_message_intent (cs_intents (co_state c))) (queue prio slot)" and "ids \<noteq> []"
    and "claim_batch P bid sid prio ids c = Ret (d, c')"
proof (cases "map_of (cs_slots (co_state c)) sid")
  case None
  with assms that(1) show ?thesis by (simp add: next_work_def)
next
  case (Some slot)
  note slot = this
  show ?thesis
  proof (cases "ss_active slot = None \<and> ss_runtime_constraint slot = RcReady \<and> \<not> ss_paused slot")
    case False
    then show ?thesis using assms that(1) slot by (auto simp: next_work_def split: if_splits)
  next
    case ready: True
    show ?thesis
    proof (cases "selected_priority slot")
      case None
      with assms that(1) slot ready show ?thesis by (simp add: next_work_def)
    next
      case (Some prio)
      define ids where "ids = filter (is_message_intent (cs_intents (co_state c))) (queue prio slot)"
      show ?thesis
      proof (cases "ids = []")
        case True
        then have "d = SettleSignals (queue prio slot)" "c' = c"
          using assms slot ready Some by (simp_all add: next_work_def ids_def [symmetric])
        then show ?thesis by (intro that(1)) simp_all
      next
        case False
        then have "claim_batch P bid sid prio ids c = Ret (d, c')"
          using assms slot ready Some by (simp add: next_work_def ids_def [symmetric])
        with that(2) slot ready Some ids_def False show ?thesis by blast
      qed
    qed
  qed
qed

lemma slot_inv_claim:
  assumes inv: "slot_inv g sid J s" and none: "ss_active s = None"
    and ids: "distinct (wb_intent_ids b)" "wb_intent_ids b \<noteq> []"
      "\<And>x. x \<in> set (wb_intent_ids b) \<Longrightarrow> x \<in> set (queue (wb_highest_priority b) s)"
      "\<And>x i. x \<in> set (wb_intent_ids b) \<Longrightarrow> J x = Some i \<Longrightarrow> wi_mailbox_message_id i \<noteq> None"
    and b: "wb_slot_id b = sid" "wb_session_generation b = g"
    and runs: "\<And>r. r \<in> set (wb_team_run_ids b)
      \<longleftrightarrow> (\<exists>x i. x \<in> set (wb_intent_ids b) \<and> J x = Some i \<and> wi_team_run_id i = Some r)"
  shows "slot_inv g sid (restate (\<lambda>x i. if x \<in> set (wb_intent_ids b)
            then WsStarting (wb_batch_id b) (wb_operation_id b) else wi_state i) J) (claimed_slot b s)"
    (is "slot_inv g sid (restate ?f J) ?s")
proof -
  have q: "\<exists>i. J x = Some i \<and> wi_state i = WsQueued \<and> wi_priority i = wb_highest_priority b
      \<and> wi_mailbox_message_id i \<noteq> None" if "x \<in> set (wb_intent_ids b)" for x
    using slot_inv_queueD [OF inv ids(3) [OF that]] ids(4) [OF that] by auto
  have nf: "\<not> in_flight (wi_state i)" if "J x = Some i" for x i
    using slot_inv_flightD [OF inv that] none by auto
  let ?a = "\<lparr>ab_batch = b, ab_turn_id = None, ab_started_at_ms = None\<rparr>"
  have act: "active_inv g sid (restate ?f J) ?a"
    unfolding active_inv_def
  proof (intro conjI ballI allI)
    show "\<exists>i. restate ?f J x = Some i \<and> wi_state i = batch_state ?a
        \<and> wi_priority i = wb_highest_priority (ab_batch ?a) \<and> wi_mailbox_message_id i \<noteq> None"
      if "x \<in> set (wb_intent_ids (ab_batch ?a))" for x
      using q [of x] that by (auto simp: restate_Some batch_state_def)
    show "r \<in> set (wb_team_run_ids (ab_batch ?a)) \<longleftrightarrow> (\<exists>x i. x \<in> set (wb_intent_ids (ab_batch ?a))
        \<and> restate ?f J x = Some i \<and> wi_team_run_id i = Some r)" for r
      unfolding active_batch.select_convs runs by (fastforce simp: restate_Some)
  qed (simp_all add: ids b)
  have s: "ss_active ?s = Some ?a"
    "\<And>p. queue p ?s = filter (\<lambda>y. y \<notin> set (wb_intent_ids b)) (queue p s)"
    by (simp_all add: claimed_slot_def)
  show ?thesis
    unfolding slot_inv_def s
  proof (intro conjI allI impI)
    show "distinct (filter (\<lambda>y. y \<notin> set (wb_intent_ids b)) (queue p s))" for p
      using slot_inv_distinctD [OF inv] by simp
    show "x \<in> set (filter (\<lambda>y. y \<notin> set (wb_intent_ids b)) (queue p s))
        \<longleftrightarrow> (\<exists>i. restate ?f J x = Some i \<and> wi_state i = WsQueued \<and> wi_priority i = p)" for p x
    proof (cases "x \<in> set (wb_intent_ids b)")
      case True
      then show ?thesis by (auto simp: restate_Some)
    next
      case False
      then have "restate ?f J x = J x"
        by (cases "J x") (simp_all add: restate_def)
      with False show ?thesis
        using slot_inv_queueD [OF inv] slot_inv_queueI [OF inv] by auto
    qed
    show "\<exists>a. Some ?a = Some a \<and> x \<in> set (wb_intent_ids (ab_batch a))"
      if "restate ?f J x = Some i \<and> in_flight (wi_state i)" for x i
      using that nf by (auto simp: restate_Some split: if_splits)
    show "active_inv g sid (restate ?f J) a" if "Some ?a = Some a" for a
      using that act by simp
  qed
qed

lemma next_work_inv:
  assumes inv: "coordinator_inv c" and run: "next_work P bid sid c = Ret (d, c')"
  shows "coordinator_inv c'"
  using run
proof (cases rule: next_work_cases)
  case 1
  then show ?thesis using inv by simp
next
  case (2 slot prio ids)
  let ?g = "co_session_generation c"
  let ?I = "map_of (cs_intents (co_state c))"
  have st: "state_inv ?g (co_state c)"
    using inv by (simp add: coordinator_inv_def)
  note old = state_inv_slotD [OF st 2(1)]
  from 2(8) obtain intents msgs runs b pub where
    cl: "claim_intents bid (saturating_add_one (cs_next_operation_id (co_state c))) ids
       (cs_intents (co_state c)) [] [] = Ret (intents, msgs, runs)"
    and b: "b = claimed_batch bid ?g sid prio ids msgs runs
          (saturating_add_one (cs_next_operation_id (co_state c)))"
    and c': "c' = commit_runs P ((co_state c)\<lparr>
            cs_next_operation_id := wb_operation_id b, cs_intents := intents,
            cs_slots := hm_modify sid (claimed_slot b) (cs_slots (co_state c))\<rparr>) pub c"
    by (elim claim_batch_cases) blast
  note cl = claim_intents_Ret [OF cl]
  have bf: "wb_intent_ids b = ids" "wb_highest_priority b = prio" "wb_slot_id b = sid"
    "wb_session_generation b = ?g" "wb_team_run_ids b = runs" "wb_batch_id b = bid"
    "wb_operation_id b = saturating_add_one (cs_next_operation_id (co_state c))"
    by (simp_all add: b claimed_batch_def)
  have mem: "x \<in> set (queue prio slot)" "is_message_intent (cs_intents (co_state c)) x"
    if "x \<in> set ids" for x
    using that by (simp_all add: 2(6))
  have own: "wi_slot_id i = sid" if "x \<in> set ids" "?I x = Some i" for x i
    using slot_inv_queueD [OF old mem(1) [OF that(1)]] that(2) by auto
  have "slot_inv ?g sid (restate (\<lambda>x i. if x \<in> set (wb_intent_ids b)
            then WsStarting (wb_batch_id b) (wb_operation_id b) else wi_state i) (slot_intents ?I sid))
          (claimed_slot b slot)"
  proof (rule slot_inv_claim [OF old 2(2)], unfold bf)
    show "distinct ids"
      using slot_inv_distinctD [OF old] by (simp add: 2(6))
    show "wi_mailbox_message_id i \<noteq> None" if "x \<in> set ids" "slot_intents ?I sid x = Some i" for x i
      using mem(2) [OF that(1)] that(2) by (auto simp: is_message_intent_def)
    show "r \<in> set runs \<longleftrightarrow> (\<exists>x i. x \<in> set ids \<and> slot_intents ?I sid x = Some i
        \<and> wi_team_run_id i = Some r)" for r
      using cl own by (fastforce simp: bind_eq_Some_conv)
  qed (use 2(7) mem(1) in auto)
  then have "state_inv ?g ((co_state c)\<lparr>cs_intents := intents,
      cs_slots := hm_modify sid (claimed_slot b) (cs_slots (co_state c))\<rparr>)"
  proof (rule state_inv_restate [OF st 2(1), rotated 3])
    show "distinct (hm_keys intents)"
      using cl st by (simp add: state_inv_def)
    show "map_of intents = restate (\<lambda>x i. if x \<in> set (wb_intent_ids b)
            then WsStarting (wb_batch_id b) (wb_operation_id b) else wi_state i) ?I"
      unfolding bf using cl by (simp only: map_of_modify_all_set_state)
  qed (use own bf in auto)
  then show ?thesis
    by (simp add: coordinator_inv_def c' state_inv_def)
qed

lemma next_work_returns:
  assumes "coordinator_inv c"
  shows "returns (next_work P bid sid c)"
proof -
  have cl: "\<exists>r. claim_intents b op (filter (is_message_intent m) q) m msgs runs = Ret r" for b op m q msgs runs
    by (rule claim_intents_returns) (auto simp: is_message_intent_def bind_eq_Some_conv)
  have "returns (claim_batch P bid sid prio (filter (is_message_intent (cs_intents (co_state c))) q) c)"
    if "map_of (cs_slots (co_state c)) sid \<noteq> None" for prio q
    using that cl [of bid "saturating_add_one (cs_next_operation_id (co_state c))"
        "cs_intents (co_state c)" q "[]" "[]"]
    by (auto simp: claim_batch_def Let_def)
  then show ?thesis
    by (simp add: next_work_def Let_def split: option.splits)
qed

text \<open>\<open>holds c b\<close>: the batch \<open>b\<close> itself is the active batch of its slot.\<close>

definition holds :: "'r coordinator \<Rightarrow> work_batch \<Rightarrow> bool" where
  "holds c b \<longleftrightarrow> map_option ab_batch
     (Option.bind (map_of (cs_slots (co_state c)) (wb_slot_id b)) ss_active) = Some b"

lemma holdsE:
  assumes "holds c b"
  obtains s a where "map_of (cs_slots (co_state c)) (wb_slot_id b) = Some s" and "ss_active s = Some a"
    and "ab_batch a = b"
  using assms by (auto simp: holds_def bind_eq_Some_conv)

lemma batch_state_not_queued [simp]: "batch_state a \<noteq> WsQueued" "WsQueued \<noteq> batch_state a"
  by (auto simp: batch_state_def split: option.splits)

abbreviation set_states :: "string list \<Rightarrow> work_intent_state \<Rightarrow> string \<Rightarrow> work_intent \<Rightarrow> work_intent_state" where
  "set_states xs t \<equiv> \<lambda>x i. if x \<in> set xs then t else wi_state i"

lemma slot_inv_start:
  assumes inv: "slot_inv g sid J s" and a: "ss_active s = Some a" and a': "ab_batch a' = ab_batch a"
    and s': "\<And>p. queue p s' = queue p s" "ss_active s' = Some a'"
  shows "slot_inv g sid (restate (set_states (wb_intent_ids (ab_batch a)) (batch_state a')) J) s'"
    (is "slot_inv g sid (restate ?f J) s'")
proof -
  let ?ids = "set (wb_intent_ids (ab_batch a))"
  note act = slot_inv_activeD [OF inv a]
  have nq: "wi_state i \<noteq> WsQueued" if "x \<in> ?ids" "J x = Some i" for x i
    using active_inv_intentD [OF act that(1)] that(2) by auto
  show ?thesis
    unfolding slot_inv_def s'
  proof (intro conjI allI impI)
    show "distinct (queue p s)" for p
      by (rule slot_inv_distinctD [OF inv])
    show "x \<in> set (queue p s)
        \<longleftrightarrow> (\<exists>i. restate ?f J x = Some i \<and> wi_state i = WsQueued \<and> wi_priority i = p)" for p x
    proof (cases "x \<in> ?ids")
      case True
      then have "x \<notin> set (queue p s)"
        using slot_inv_queueD [OF inv, of x p] nq by auto
      then show ?thesis
        using True by (auto simp: restate_Some)
    next
      case False
      then have "restate ?f J x = J x"
        by (cases "J x") (simp_all add: restate_def)
      then show ?thesis
        using slot_inv_queueD [OF inv] slot_inv_queueI [OF inv] by auto
    qed
    show "\<exists>b. Some a' = Some b \<and> x \<in> set (wb_intent_ids (ab_batch b))"
      if "restate ?f J x = Some i \<and> in_flight (wi_state i)" for x i
    proof (cases "x \<in> ?ids")
      case False
      then have "J x = Some i"
        using that by (auto simp: restate_Some)
      then show ?thesis
        using slot_inv_flightD [OF inv] that a a' by auto
    qed (simp add: a')
    show "active_inv g sid (restate ?f J) b" if "Some a' = Some b" for b
      using that active_inv_restate [OF act, of b ?f] a' by simp
  qed
qed

lemma slot_inv_release:
  assumes inv: "slot_inv g sid J s" and a: "ss_active s = Some a" and t: "\<not> in_flight t"
    and s': "ss_active s' = None" "\<And>p. distinct (queue p s')"
      "\<And>p x. x \<in> set (queue p s') \<longleftrightarrow> x \<in> set (queue p s) \<or> t = WsQueued
          \<and> p = wb_highest_priority (ab_batch a) \<and> x \<in> set (wb_intent_ids (ab_batch a))"
  shows "slot_inv g sid (restate (set_states (wb_intent_ids (ab_batch a)) t) J) s'"
    (is "slot_inv g sid (restate ?f J) s'")
proof (rule slot_inv_restate_inactive [OF _ s'(1,2)])
  let ?ids = "set (wb_intent_ids (ab_batch a))"
  note act = slot_inv_activeD [OF inv a]
  show "\<not> in_flight (?f x i)" if "J x = Some i" for x i
    using slot_inv_flightD [OF inv that] a t by auto
  show "x \<in> set (queue p s') \<longleftrightarrow> (\<exists>i. J x = Some i \<and> ?f x i = WsQueued \<and> wi_priority i = p)" for p x
  proof (cases "x \<in> ?ids")
    case True
    with active_inv_intentD [OF act] obtain i where i: "J x = Some i" "wi_state i = batch_state a"
      "wi_priority i = wb_highest_priority (ab_batch a)" by blast
    then have "x \<notin> set (queue p s)"
      using slot_inv_queueD [OF inv, of x p] by auto
    with True i show ?thesis unfolding s' by auto
  next
    case False
    then show ?thesis
      unfolding s' using slot_inv_queueD [OF inv] slot_inv_queueI [OF inv] by auto
  qed
qed

text \<open>An update of the intents of the active batch of a slot, and of the slot.\<close>

lemma state_inv_batch:
  assumes st: "state_inv g st" and slot: "map_of (cs_slots st) (wb_slot_id b) = Some s"
    and a: "ss_active s = Some a" "ab_batch a = b"
    and new: "\<And>J. slot_inv g (wb_slot_id b) J s
       \<Longrightarrow> slot_inv g (wb_slot_id b) (restate (set_states (wb_intent_ids b) t) J) (h s)"
  shows "state_inv g (st\<lparr>cs_intents := hm_modify_all (wb_intent_ids b) (set_state t) (cs_intents st),
           cs_slots := hm_modify (wb_slot_id b) h (cs_slots st)\<rparr>)"
proof (rule state_inv_restate [OF st slot _ map_of_modify_all_set_state])
  note old = state_inv_slotD [OF st slot]
  show "distinct (hm_keys (hm_modify_all (wb_intent_ids b) (set_state t) (cs_intents st)))"
    using st by (simp add: state_inv_def)
  show "set_states (wb_intent_ids b) t x i = wi_state i"
    if "map_of (cs_intents st) x = Some i" "wi_slot_id i \<noteq> wb_slot_id b" for x i
    using active_inv_intentD [OF slot_inv_activeD [OF old a(1)], of x] a(2) that by auto
  show "slot_inv g (wb_slot_id b) (restate (set_states (wb_intent_ids b) t)
      (slot_intents (map_of (cs_intents st)) (wb_slot_id b))) (h s)"
    by (rule new [OF old])
qed

lemma mark_started_inv:
  assumes inv: "coordinator_inv c" and own: "is_current_batch c b \<Longrightarrow> holds c b"
    and run: "mark_started P now b tid c = (res, c')"
  shows "coordinator_inv c'"
proof (cases "is_current_batch c b")
  case False
  then show ?thesis
    using inv run by (simp add: mark_started_def split: if_splits)
next
  case True
  from own [OF True] obtain s a where sa: "map_of (cs_slots (co_state c)) (wb_slot_id b) = Some s"
    "ss_active s = Some a" "ab_batch a = b" by (rule holdsE)
  let ?a = "a\<lparr>ab_turn_id := Some tid, ab_started_at_ms := Some now\<rparr>"
  have t: "batch_state ?a = WsRunning (wb_batch_id b) (wb_operation_id b) tid"
    by (simp add: batch_state_def sa)
  have "state_inv (co_session_generation c) ((co_state c)\<lparr>
      cs_intents := hm_modify_all (wb_intent_ids b)
        (set_state (WsRunning (wb_batch_id b) (wb_operation_id b) tid)) (cs_intents (co_state c)),
      cs_slots := hm_modify (wb_slot_id b) (\<lambda>s. s\<lparr>ss_active := map_option
          (\<lambda>a. a\<lparr>ab_turn_id := Some tid, ab_started_at_ms := Some now\<rparr>) (ss_active s)\<rparr>)
        (cs_slots (co_state c))\<rparr>)"
  proof (rule state_inv_batch [OF _ sa])
    show "state_inv (co_session_generation c) (co_state c)"
      using inv by (simp add: coordinator_inv_def)
    show "slot_inv (co_session_generation c) (wb_slot_id b) (restate (set_states (wb_intent_ids b)
        (WsRunning (wb_batch_id b) (wb_operation_id b) tid)) J) (s\<lparr>ss_active := map_option
          (\<lambda>a. a\<lparr>ab_turn_id := Some tid, ab_started_at_ms := Some now\<rparr>) (ss_active s)\<rparr>)"
      if J: "slot_inv (co_session_generation c) (wb_slot_id b) J s" for J
      using slot_inv_start [OF J sa(2), of ?a "s\<lparr>ss_active := Some ?a\<rparr>"] sa(2,3)
      unfolding t [symmetric] by simp
  qed
  then show ?thesis
    using run True by (auto simp: mark_started_def coordinator_inv_def Let_def)
qed

lemma retry_start_inv:
  assumes inv: "coordinator_inv c" and own: "is_current_batch c b \<Longrightarrow> holds c b"
    and run: "retry_start P b c = Ret (res, c')"
  shows "coordinator_inv c'"
proof (cases "is_current_batch c b")
  case False
  then show ?thesis
    using inv run by (simp add: retry_start_def)
next
  case True
  from own [OF True] obtain s a where sa: "map_of (cs_slots (co_state c)) (wb_slot_id b) = Some s"
    "ss_active s = Some a" "ab_batch a = b" by (rule holdsE)
  have "state_inv (co_session_generation c) ((co_state c)\<lparr>
      cs_intents := hm_modify_all (wb_intent_ids b) (set_state WsQueued) (cs_intents (co_state c)),
      cs_slots := hm_modify (wb_slot_id b) (\<lambda>s. queue_mut (wb_highest_priority b)
          (\<lambda>q. foldr (#) (wb_intent_ids b) q) (s\<lparr>ss_active := None\<rparr>)) (cs_slots (co_state c))\<rparr>)"
  proof (rule state_inv_batch [OF _ sa])
    show "state_inv (co_session_generation c) (co_state c)"
      using inv by (simp add: coordinator_inv_def)
    fix J
    assume J: "slot_inv (co_session_generation c) (wb_slot_id b) J s"
    note act = slot_inv_activeD [OF J sa(2), unfolded active_inv_def sa(3)]
    have "x \<notin> set (queue p s)" if "x \<in> set (wb_intent_ids b)" for x p
      using slot_inv_queueD [OF J, of x p] active_inv_intentD [OF slot_inv_activeD [OF J sa(2)], of x]
        that sa(3) by auto
    then show "slot_inv (co_session_generation c) (wb_slot_id b)
        (restate (set_states (wb_intent_ids b) WsQueued) J) (queue_mut (wb_highest_priority b)
          (\<lambda>q. foldr (#) (wb_intent_ids b) q) (s\<lparr>ss_active := None\<rparr>))"
      using slot_inv_distinctD [OF J] act sa(3)
      by (intro slot_inv_release [OF J sa(2), unfolded sa(3)]) auto
  qed
  then show ?thesis
    using run True sa by (auto simp: retry_start_def coordinator_inv_def Let_def simp del: foldr_Cons_append)
qed

lemma terminalize_batch_inv:
  assumes inv: "coordinator_inv c" and own: "is_current_batch c b \<Longrightarrow> holds c b"
    and t: "is_terminal t" and run: "terminalize_batch P b t c = Ret (res, c')"
  shows "coordinator_inv c'"
proof (cases "is_current_batch c b")
  case False
  then show ?thesis
    using inv run by (simp add: terminalize_batch_def)
next
  case True
  from own [OF True] obtain s a where sa: "map_of (cs_slots (co_state c)) (wb_slot_id b) = Some s"
    "ss_active s = Some a" "ab_batch a = b" by (rule holdsE)
  have t': "\<not> in_flight t" "t \<noteq> WsQueued"
    using t by (cases t; simp)+
  have "state_inv (co_session_generation c) ((co_state c)\<lparr>
      cs_intents := hm_modify_all (wb_intent_ids b) (set_state t) (cs_intents (co_state c)),
      cs_slots := hm_modify (wb_slot_id b) (\<lambda>s. s\<lparr>ss_active := None\<rparr>) (cs_slots (co_state c))\<rparr>)"
  proof (rule state_inv_batch [OF _ sa])
    show "state_inv (co_session_generation c) (co_state c)"
      using inv by (simp add: coordinator_inv_def)
    show "slot_inv (co_session_generation c) (wb_slot_id b)
        (restate (set_states (wb_intent_ids b) t) J) (s\<lparr>ss_active := None\<rparr>)"
      if J: "slot_inv (co_session_generation c) (wb_slot_id b) J s" for J
      using slot_inv_distinctD [OF J] t'
      by (intro slot_inv_release [OF J sa(2), unfolded sa(3)]) auto
  qed
  then show ?thesis
    using run True sa by (auto simp: terminalize_batch_def coordinator_inv_def Let_def)
qed

lemma is_current_batch_slot: "is_current_batch c b \<Longrightarrow> map_of (cs_slots (co_state c)) (wb_slot_id b) \<noteq> None"
  by (auto simp: is_current_batch_def bind_eq_Some_conv split: option.splits)

lemma retry_start_returns: "returns (retry_start P b c)"
  using is_current_batch_slot [of c b] by (auto simp: retry_start_def Let_def)

lemma terminalize_batch_returns: "returns (terminalize_batch P b t c)"
  using is_current_batch_slot [of c b] by (auto simp: terminalize_batch_def Let_def)

section \<open>Preservation: settling signals and reconciling\<close>

lemma terminal_not_open: "is_terminal t \<Longrightarrow> \<not> in_flight t \<and> t \<noteq> WsQueued"
  by (cases t) simp_all

lemma slot_inv_drop:
  assumes inv: "slot_inv g sid J s" and t: "is_terminal t"
    and nf: "\<And>x i. x \<in> set xs \<Longrightarrow> J x = Some i \<Longrightarrow> \<not> in_flight (wi_state i)"
  shows "slot_inv g sid (restate (set_states xs t) J) (fold remove_queued xs s)"
proof (rule slot_inv_restate_active [OF inv])
  show "set_states xs t x i = wi_state i" if "J x = Some i" "in_flight (wi_state i)" for x i
    using that nf by auto
  show "\<not> in_flight (set_states xs t x i)" if "J x = Some i" "\<not> in_flight (wi_state i)" for x i
    using that terminal_not_open [OF t] by simp
  show "distinct (queue p (fold remove_queued xs s))" for p
    using slot_inv_distinctD [OF inv] by simp
  show "x \<in> set (queue p (fold remove_queued xs s))
      \<longleftrightarrow> (\<exists>i. J x = Some i \<and> set_states xs t x i = WsQueued \<and> wi_priority i = p)" for p x
    using slot_inv_queueD [OF inv, of x p] slot_inv_queueI [OF inv, of x] terminal_not_open [OF t]
    by (auto split: if_splits)
qed simp

lemma state_inv_drop:
  assumes st: "state_inv g st" and t: "is_terminal t"
    and slot: "xs \<noteq> [] \<Longrightarrow> map_of (cs_slots st) sid \<noteq> None"
    and xs: "\<And>x i. x \<in> set xs \<Longrightarrow> map_of (cs_intents st) x = Some i
        \<Longrightarrow> wi_slot_id i = sid \<and> \<not> in_flight (wi_state i)"
  shows "state_inv g (st\<lparr>cs_intents := hm_modify_all xs (set_state t) (cs_intents st),
           cs_slots := hm_modify sid (fold remove_queued xs) (cs_slots st)\<rparr>)"
proof (cases "map_of (cs_slots st) sid")
  case None
  then have "xs = []" using slot by auto
  moreover have "hm_modify sid (fold remove_queued []) (cs_slots st) = cs_slots st"
    by simp
  ultimately show ?thesis using st by simp
next
  case (Some s)
  show ?thesis
  proof (rule state_inv_restate [OF st Some _ map_of_modify_all_set_state])
    show "distinct (hm_keys (hm_modify_all xs (set_state t) (cs_intents st)))"
      using st by (simp add: state_inv_def)
    show "set_states xs t x i = wi_state i"
      if "map_of (cs_intents st) x = Some i" "wi_slot_id i \<noteq> sid" for x i
      using xs that by auto
    show "slot_inv g sid (restate (set_states xs t) (slot_intents (map_of (cs_intents st)) sid))
        (fold remove_queued xs s)"
      using xs by (intro slot_inv_drop [OF state_inv_slotD [OF st Some] t]) auto
  qed
qed

lemma open_slot_exists:
  "state_inv g st \<Longrightarrow> map_of (cs_intents st) x = Some i \<Longrightarrow> \<not> is_terminal (wi_state i)
    \<Longrightarrow> map_of (cs_slots st) (wi_slot_id i) \<noteq> None"
  unfolding state_inv_def work_inv_def by (auto dest: domD)

lemma complete_signals_cases:
  assumes "complete_signals P sid ids c = (res, c')"
  obtains "res = Rejected" and "c' = c"
  | runs where "res = Committed"
    and "\<And>x. x \<in> set ids \<Longrightarrow> \<exists>i. map_of (cs_intents (co_state c)) x = Some i \<and> wi_slot_id i = sid
          \<and> wi_mailbox_message_id i = None \<and> wi_state i = WsQueued"
    and "c' = commit_runs P ((co_state c)\<lparr>
          cs_intents := hm_modify_all ids (set_state WsCompleted) (cs_intents (co_state c)),
          cs_slots := hm_modify sid (fold remove_queued ids) (cs_slots (co_state c))\<rparr>) runs c"
proof (cases "list_all (\<lambda>x. case map_of (cs_intents (co_state c)) x of None \<Rightarrow> False
           | Some i \<Rightarrow> wi_slot_id i = sid \<and> wi_mailbox_message_id i = None
                       \<and> wi_state i = WsQueued) ids")
  case False
  then have "res = Rejected" "c' = c"
    using assms by (simp_all only: complete_signals_def Let_def if_True not_False_eq_True prod.inject)
  then show ?thesis by (rule that(1))
next
  case True
  then have "\<exists>i. map_of (cs_intents (co_state c)) x = Some i \<and> wi_slot_id i = sid
          \<and> wi_mailbox_message_id i = None \<and> wi_state i = WsQueued" if "x \<in> set ids" for x
    using that by (auto simp: list_all_iff split: option.splits)
  moreover have "res = Committed \<and> (\<exists>runs. c' = commit_runs P ((co_state c)\<lparr>
          cs_intents := hm_modify_all ids (set_state WsCompleted) (cs_intents (co_state c)),
          cs_slots := hm_modify sid (fold remove_queued ids) (cs_slots (co_state c))\<rparr>) runs c)"
    using assms True
    by (auto simp only: complete_signals_def Let_def if_False not_True_eq_False prod.inject commit_runs_def)
  ultimately show ?thesis using that(2) by blast
qed

lemma complete_signals_inv:
  assumes inv: "coordinator_inv c" and run: "complete_signals P sid ids c = (res, c')"
  shows "coordinator_inv c'"
  using run
proof (cases rule: complete_signals_cases)
  case 1
  then show ?thesis using inv by simp
next
  case (2 runs)
  have st: "state_inv (co_session_generation c) (co_state c)"
    using inv by (simp add: coordinator_inv_def)
  have "map_of (cs_slots (co_state c)) sid \<noteq> None" if "ids \<noteq> []"
  proof -
    from 2(2) [of "hd ids"] that obtain i where
      "map_of (cs_intents (co_state c)) (hd ids) = Some i" "wi_slot_id i = sid" "wi_state i = WsQueued"
      by auto
    then show ?thesis using open_slot_exists [OF st] by force
  qed
  then have "state_inv (co_session_generation c) ((co_state c)\<lparr>
          cs_intents := hm_modify_all ids (set_state WsCompleted) (cs_intents (co_state c)),
          cs_slots := hm_modify sid (fold remove_queued ids) (cs_slots (co_state c))\<rparr>)"
    using 2(2) by (intro state_inv_drop [OF st]) fastforce+
  then show ?thesis by (simp add: coordinator_inv_def 2)
qed

text \<open>A queued intent is stale when its mailbox message is no longer unread.\<close>

definition stale_candidate :: "string set \<Rightarrow> intents \<Rightarrow> string \<Rightarrow> bool" where
  "stale_candidate unread m x \<longleftrightarrow>
     (case Option.bind (map_of m x) wi_mailbox_message_id of None \<Rightarrow> False | Some k \<Rightarrow> k \<notin> unread)"

lemma stale_candidate_set_state [simp]:
  "stale_candidate u (hm_modify k (set_state t) m) = stale_candidate u m"
  by (simp add: stale_candidate_def bind_modify_set_state fun_eq_iff)

lemma classify_candidates_eq:
  "classify_candidates u xs m =
     (hm_modify_all (filter (stale_candidate u m) xs) (set_state WsCompleted) m,
      filter (\<lambda>x. map_of m x \<noteq> None \<and> \<not> stale_candidate u m x) xs,
      filter (stale_candidate u m) xs)"
proof (induction xs arbitrary: m)
  case (Cons x xs)
  show ?case
  proof (cases "map_of m x")
    case None
    then have "\<not> stale_candidate u m x" by (simp add: stale_candidate_def)
    with None Cons show ?thesis by simp
  next
    case (Some i)
    show ?thesis
    proof (cases "stale_candidate u m x")
      case True
      then obtain k where "wi_mailbox_message_id i = Some k" "k \<notin> u"
        using Some by (auto simp: stale_candidate_def split: option.splits)
      with True Some show ?thesis
        by (simp add: Cons map_of_hm_modify_None del: map_of_hm_modify)
    next
      case False
      then have "wi_mailbox_message_id i = None \<or> (\<exists>k. wi_mailbox_message_id i = Some k \<and> k \<in> u)"
        using Some by (auto simp: stale_candidate_def split: option.splits)
      with False Some show ?thesis by (auto simp: Cons)
    qed
  qed
qed simp

lemma create_recovery_inv:
  assumes "create_recovery g sid role gen clock k msgs st = Ret (st', created)"
    and "state_inv g st" and "inj gen" and "\<And>j. k \<le> j \<Longrightarrow> map_of (cs_intents st) (gen j) = None"
  shows "state_inv g st'"
  using assms
proof (induction msgs arbitrary: k st created)
  case (Cons msg msgs)
  show ?case
  proof (cases "already_owned sid msg (cs_intents st)")
    case True
    then show ?thesis using Cons by auto
  next
    case False
    with Cons.prems(1) obtain s where s: "map_of (cs_slots st) sid = Some s"
      by (auto split: option.splits)
    let ?st = "st\<lparr>cs_intents := hm_insert (gen k)
                   (recovery_intent g sid role (gen k) (clock k) msg) (cs_intents st),
                 cs_slots := hm_modify sid (queue_mut Background (push_back (gen k))) (cs_slots st)\<rparr>"
    from Cons.prems(1) False s obtain created' where
      run: "create_recovery g sid role gen clock (Suc k) msgs ?st = Ret (st', created')"
      by (auto simp del: queue_mut.simps)
    have "state_inv g ?st"
      using Cons.prems(4) [of k]
      by (intro state_inv_insert [OF Cons.prems(2) s, where p = Background])
        (simp_all add: recovery_intent_def push_back_def del: queue_mut.simps)
    moreover have "map_of (cs_intents ?st) (gen j) = None" if "Suc k \<le> j" for j
      using Cons.prems(4) [of j] that injD [OF Cons.prems(3), of j k] by (auto simp del: map_of_eq_None_iff)
    ultimately show ?thesis
      using Cons.IH [OF run] Cons.prems(3) by blast
  qed
qed simp

lemma create_recovery_returns:
  assumes "map_of (cs_slots st) sid \<noteq> None"
  shows "\<exists>st' created. create_recovery g sid role gen clock k msgs st = Ret (st', created)"
  using assms
proof (induction msgs arbitrary: k st)
  case (Cons msg msgs)
  let ?st = "st\<lparr>cs_intents := hm_insert (gen k)
                   (recovery_intent g sid role (gen k) (clock k) msg) (cs_intents st),
                 cs_slots := hm_modify sid (queue_mut Background (push_back (gen k))) (cs_slots st)\<rparr>"
  have "map_of (cs_slots ?st) sid \<noteq> None"
    using Cons.prems by (simp add: map_of_hm_modify_None del: map_of_hm_modify)
  from Cons.IH [OF this, of "Suc k"] obtain st' created where
    "create_recovery g sid role gen clock (Suc k) msgs ?st = Ret (st', created)" by auto
  with Cons.prems show ?case
    by (cases "already_owned sid msg (cs_intents st)")
      (auto simp: Cons.IH simp del: queue_mut.simps)
qed simp

lemma reconcile_mailbox_cases:
  assumes "reconcile_mailbox gen clock sid unread role c = Ret (res, c')"
  obtains slots stale st1 st2 where
    "slots = entry_update sid (slot_new role)
            (\<lambda>s. s\<lparr>ss_role := role, ss_known_unread_message_ids := set unread\<rparr>) (cs_slots (co_state c))"
    and "stale = filter (stale_candidate (set unread) (cs_intents (co_state c)))
            (case map_of slots sid of None \<Rightarrow> [] | Some s \<Rightarrow> queued_ids s)"
    and "st1 = (co_state c)\<lparr>cs_slots := hm_modify sid (fold remove_queued stale) slots,
            cs_intents := hm_modify_all stale (set_state WsCompleted) (cs_intents (co_state c))\<rparr>"
    and "create_recovery (co_session_generation c) sid role gen clock 0 unread st1
          = Ret (st2, rp_created_recovery_intent_ids res)"
    and "rp_cleared_stale_intent_ids res = stale"
    and "c' = c\<lparr>co_state := st2\<rparr>"
  using assms unfolding reconcile_mailbox_def Let_def classify_candidates_eq by auto

lemma reconcile_mailbox_returns:
  assumes "coordinator_inv c"
  shows "returns (reconcile_mailbox gen clock sid unread role c)"
proof -
  have so: "bt_sorted (cs_slots (co_state c))"
    using assms by (simp add: coordinator_inv_def state_inv_def)
  define slots where "slots = entry_update sid (slot_new role)
      (\<lambda>s. s\<lparr>ss_role := role, ss_known_unread_message_ids := set unread\<rparr>) (cs_slots (co_state c))"
  define stale where "stale = filter (stale_candidate (set unread) (cs_intents (co_state c)))
      (case map_of slots sid of None \<Rightarrow> [] | Some s \<Rightarrow> queued_ids s)"
  define st1 where "st1 = (co_state c)\<lparr>cs_slots := hm_modify sid (fold remove_queued stale) slots,
      cs_intents := hm_modify_all stale (set_state WsCompleted) (cs_intents (co_state c))\<rparr>"
  have "map_of (cs_slots st1) sid \<noteq> None"
    using so by (simp add: st1_def slots_def map_of_entry_update)
  from create_recovery_returns [OF this] obtain st2 created where
    "create_recovery (co_session_generation c) sid role gen clock 0 unread st1 = Ret (st2, created)"
    by blast
  then show ?thesis
    by (simp add: reconcile_mailbox_def Let_def classify_candidates_eq slots_def stale_def st1_def)
qed

lemma reconcile_mailbox_inv:
  assumes inv: "coordinator_inv c" and gen: "inj gen" "\<And>j. map_of (cs_intents (co_state c)) (gen j) = None"
    and run: "reconcile_mailbox gen clock sid unread role c = Ret (res, c')"
  shows "coordinator_inv c'"
  using run
proof (cases rule: reconcile_mailbox_cases)
  case (1 slots stale st1 st2)
  let ?g = "co_session_generation c"
  have st: "state_inv ?g (co_state c)"
    using inv by (simp add: coordinator_inv_def)
  then have so: "bt_sorted (cs_slots (co_state c))"
    by (simp add: state_inv_def)
  have e: "state_inv ?g ((co_state c)\<lparr>cs_slots := slots\<rparr>)"
    unfolding 1(1) by (intro state_inv_entry [OF st]) simp_all
  obtain t where t: "map_of slots sid = Some t"
    using so by (simp add: 1(1) map_of_entry_update)
  have "state_inv ?g (((co_state c)\<lparr>cs_slots := slots\<rparr>)\<lparr>
      cs_intents := hm_modify_all stale (set_state WsCompleted) (cs_intents ((co_state c)\<lparr>cs_slots := slots\<rparr>)),
      cs_slots := hm_modify sid (fold remove_queued stale) (cs_slots ((co_state c)\<lparr>cs_slots := slots\<rparr>))\<rparr>)"
  proof (rule state_inv_drop [OF e])
    fix x i
    assume x: "x \<in> set stale" "map_of (cs_intents ((co_state c)\<lparr>cs_slots := slots\<rparr>)) x = Some i"
    then obtain p where p: "x \<in> set (queue p t)"
      using t set_queued_ids by (auto simp: 1(2))
    have "slot_inv ?g sid (slot_intents (map_of (cs_intents (co_state c))) sid) t"
      using state_inv_slotD [OF e, of sid t] t by simp
    from slot_inv_queueD [OF this p] x(2) show "wi_slot_id i = sid \<and> \<not> in_flight (wi_state i)"
      by auto
  qed (simp_all add: t)
  then have st1: "state_inv ?g st1"
    by (simp add: 1(3) state_inv_def)
  have "map_of (cs_intents st1) (gen j) = None" for j
    using gen(2) [of j] by (simp add: 1(3) map_of_modify_all_set_state restate_def del: map_of_eq_None_iff)
  with create_recovery_inv [OF 1(4) st1 gen(1)] have "state_inv ?g st2" by blast
  then show ?thesis by (simp add: coordinator_inv_def 1)
qed

lemma pause_slot_cases:
  assumes "pause_slot sid c = Ret (res, c')"
  shows "c' = c\<lparr>co_state := (co_state c)\<lparr>cs_slots := entry_update sid (slot_new RoleTeammate)
            (\<lambda>s. s\<lparr>ss_paused := True\<rparr>) (cs_slots (co_state c))\<rparr>\<rparr>"
  using assms unfolding pause_slot_def Let_def by auto

lemma pause_slot_inv:
  assumes inv: "coordinator_inv c" and run: "pause_slot sid c = Ret (res, c')"
  shows "coordinator_inv c'"
proof -
  have "state_inv (co_session_generation c) ((co_state c)\<lparr>cs_slots := entry_update sid (slot_new RoleTeammate)
            (\<lambda>s. s\<lparr>ss_paused := True\<rparr>) (cs_slots (co_state c))\<rparr>)"
    using inv by (intro state_inv_entry) (simp_all add: coordinator_inv_def)
  then show ?thesis
    by (simp add: pause_slot_cases [OF run] coordinator_inv_def)
qed

lemma pause_slot_returns:
  assumes "coordinator_inv c"
  shows "returns (pause_slot sid c)"
  using assms
  by (auto simp: pause_slot_def Let_def returns_iff slot_snapshot_locked_def map_of_entry_update
      coordinator_inv_def state_inv_def)

end
