(* ===== verification/Work_Cancel.thy ===== *)
theory Work_Cancel
  imports Work_Batches
begin

text \<open>
  The operations that end the work of a run, of a slot or of the session (\<open>cancel_run\<close>,
  \<open>set_runtime_constraint\<close>, \<open>remove_slot\<close>, \<open>stop\<close>). Their loops are described by one update of
  the intent table (\<open>run_cancelled\<close>, \<open>constrained\<close>, \<open>slot_removed\<close>, \<open>session_stopped\<close>): which
  state each intent has afterwards, whatever the order of the iteration. From it follow the
  invariant and what the operation promises.
\<close>

section \<open>Preservation: cancelling a run\<close>

text \<open>The state an intent of a cancelled batch gets.\<close>

definition cancel_state :: "string \<Rightarrow> work_intent \<Rightarrow> work_intent_state" where
  "cancel_state run i = (if wi_team_run_id i = Some run then WsCancelled ''run_cancelled'' else WsQueued)"

abbreviation restate_on ::
  "string list \<Rightarrow> (work_intent \<Rightarrow> work_intent_state) \<Rightarrow> string \<Rightarrow> work_intent \<Rightarrow> work_intent_state" where
  "restate_on xs f \<equiv> \<lambda>x i. if x \<in> set xs then f i else wi_state i"

lemma restate_restate_on:
  assumes "map_of m x = Some i" and "x \<notin> set xs"
  shows "restate (restate_on xs f) (map_of (hm_modify x (set_state (f i)) m))
    = restate (restate_on (x # xs) f) (map_of m)"
proof
  fix y
  show "restate (restate_on xs f) (map_of (hm_modify x (set_state (f i)) m)) y
    = restate (restate_on (x # xs) f) (map_of m) y"
    using assms by (cases "y = x"; cases "map_of m y") (simp_all add: restate_def)
qed

lemma cancel_active_intents_Ret:
  assumes "cancel_active_intents run xs m = Ret (m', msgs, kept)" and "distinct xs"
  shows "map_of m' = restate (restate_on xs (cancel_state run)) (map_of m)
    \<and> hm_keys m' = hm_keys m
    \<and> kept = map (\<lambda>x. (wi_priority (the (map_of m x)), x))
               (filter (\<lambda>x. Option.bind (map_of m x) wi_team_run_id \<noteq> Some run) xs)"
  using assms
proof (induction xs arbitrary: m m' msgs kept)
  case Nil
  then show ?case by (auto simp: restate_def fun_eq_iff option.map_ident_strong)
next
  case (Cons x xs)
  from Cons.prems(1) obtain i where i: "map_of m x = Some i" by (auto split: option.splits)
  let ?m = "hm_modify x (set_state (cancel_state run i)) m"
  from Cons.prems i obtain msgs' kept' where
    run: "cancel_active_intents run xs ?m = Ret (m', msgs', kept')" and
    kept: "kept = (if wi_team_run_id i = Some run then kept' else (wi_priority i, x) # kept')"
    by (auto simp: cancel_state_def split: if_splits)
  have x: "x \<notin> set xs" "distinct xs" using Cons.prems(2) by auto
  have frame: "map (\<lambda>x. (wi_priority (the (map_of ?m x)), x))
      (filter (\<lambda>x. Option.bind (map_of ?m x) wi_team_run_id \<noteq> Some run) xs)
    = map (\<lambda>x. (wi_priority (the (map_of m x)), x))
      (filter (\<lambda>x. Option.bind (map_of m x) wi_team_run_id \<noteq> Some run) xs)"
    using x by (intro map_cong filter_cong) (auto intro!: arg_cong2 [where f = Pair])
  show ?case
    using Cons.IH [OF run x(2)] unfolding restate_restate_on [OF i x(1)] frame
    using kept i by simp
qed

lemma cancel_active_intents_returns:
  assumes "\<And>x. x \<in> set xs \<Longrightarrow> map_of m x \<noteq> None"
  shows "\<exists>m' msgs kept. cancel_active_intents run xs m = Ret (m', msgs, kept)"
  using assms
proof (induction xs arbitrary: m)
  case (Cons x xs)
  from Cons.prems [of x] obtain i where i: "map_of m x = Some i" by auto
  have "\<exists>m' msgs kept. cancel_active_intents run xs (hm_modify x f m) = Ret (m', msgs, kept)" for f
    using Cons.prems by (intro Cons.IH) (simp add: map_of_hm_modify_None del: map_of_hm_modify)
  from this [of "set_state (WsCancelled ''run_cancelled'')"] this [of "set_state WsQueued"] i
  show ?case by auto
qed simp

lemma slot_inv_cancel_active:
  assumes inv: "slot_inv g sid J s" and a: "ss_active s = Some a"
    and kept: "kept = map (\<lambda>x. (wi_priority (the (J x)), x))
         (filter (\<lambda>x. Option.bind (J x) wi_team_run_id \<noteq> Some run) (wb_intent_ids (ab_batch a)))"
  shows "slot_inv g sid (restate (restate_on (wb_intent_ids (ab_batch a)) (cancel_state run)) J)
           (requeue_front kept (s\<lparr>ss_active := None\<rparr>))"
    (is "slot_inv g sid (restate ?f J) ?s")
proof -
  let ?ids = "wb_intent_ids (ab_batch a)"
  note act = slot_inv_activeD [OF inv a]
  have ids: "\<exists>i. J x = Some i \<and> wi_state i = batch_state a" if "x \<in> set ?ids" for x
    using active_inv_intentD [OF act that] by auto
  have front: "map snd (filter (\<lambda>e. fst e = p) kept)
      = filter (\<lambda>x. Option.bind (J x) wi_team_run_id \<noteq> Some run \<and> wi_priority (the (J x)) = p) ?ids" for p
    by (simp add: kept filter_map comp_def conj_commute)
  show ?thesis
  proof (rule slot_inv_restate_inactive)
    show "\<not> in_flight (?f x i)" if "J x = Some i" for x i
      using slot_inv_flightD [OF inv that] a by (auto simp: cancel_state_def)
    have nq: "x \<notin> set (queue p s)" if "x \<in> set ?ids" for x p
      using slot_inv_queueD [OF inv, of x p] ids [OF that] by auto
    show "distinct (queue p ?s)" for p
      using slot_inv_distinctD [OF inv, of p] active_invD(3) [OF act] nq
      by (auto simp: queue_requeue_front front)
    show "x \<in> set (queue p ?s) \<longleftrightarrow> (\<exists>i. J x = Some i \<and> ?f x i = WsQueued \<and> wi_priority i = p)" for p x
    proof (cases "x \<in> set ?ids")
      case True
      then obtain i where "J x = Some i" using ids by auto
      with True nq show ?thesis by (simp add: queue_requeue_front front cancel_state_def)
    next
      case False
      then show ?thesis
        using slot_inv_queueD [OF inv, of x p] slot_inv_queueI [OF inv, of x]
        by (auto simp: queue_requeue_front front)
    qed
  qed (simp add: requeue_front_def [symmetric])
qed

lemma state_inv_cancel_active:
  assumes st: "state_inv g st" and slot: "map_of (cs_slots st) sid = Some s" and a: "ss_active s = Some a"
    and run: "cancel_active_intents run (wb_intent_ids (ab_batch a)) (cs_intents st) = Ret (ints, msgs, kept)"
  shows "state_inv g (st\<lparr>cs_intents := ints,
           cs_slots := hm_modify sid (\<lambda>s. requeue_front kept (s\<lparr>ss_active := None\<rparr>)) (cs_slots st)\<rparr>)"
proof -
  let ?J = "slot_intents (map_of (cs_intents st)) sid"
  let ?ids = "wb_intent_ids (ab_batch a)"
  note old = state_inv_slotD [OF st slot]
  note act = slot_inv_activeD [OF old a]
  note C = cancel_active_intents_Ret [OF run active_invD(3) [OF act]]
  have J: "?J x = map_of (cs_intents st) x" if "x \<in> set ?ids" for x
    using active_inv_intentD [OF act that] by auto
  show ?thesis
  proof (rule state_inv_restate [OF st slot _ C [THEN conjunct1]])
    show "distinct (hm_keys ints)"
      using C st by (simp add: state_inv_def)
    show "restate_on ?ids (cancel_state run) x i = wi_state i"
      if "map_of (cs_intents st) x = Some i" "wi_slot_id i \<noteq> sid" for x i
      using J [of x] that by (auto dest!: sym [of "Some i"])
    have "kept = map (\<lambda>x. (wi_priority (the (?J x)), x))
         (filter (\<lambda>x. Option.bind (?J x) wi_team_run_id \<noteq> Some run) ?ids)"
      using C J by (auto intro!: map_cong filter_cong)
    then show "slot_inv g sid (restate (restate_on ?ids (cancel_state run)) ?J)
        (requeue_front kept (s\<lparr>ss_active := None\<rparr>))"
      by (rule slot_inv_cancel_active [OF old a])
  qed
qed

lemma restate_on_append:
  assumes "\<And>i t. f (set_state t i) = f i"
  shows "restate (restate_on ys f) (restate (restate_on xs f) I) = restate (restate_on (xs @ ys) f) I"
proof
  fix x
  show "restate (restate_on ys f) (restate (restate_on xs f) I) x = restate (restate_on (xs @ ys) f) I x"
    using assms by (cases "I x") (simp_all add: restate_def)
qed

lemma cancel_state_set_state [simp]: "cancel_state run (set_state t i) = cancel_state run i"
  by (simp add: cancel_state_def)

text \<open>The intents of the active batches of a list of slots.\<close>

definition batch_ids :: "(string \<times> active_batch) list \<Rightarrow> string list" where
  "batch_ids L = concat (map (\<lambda>e. wb_intent_ids (ab_batch (snd e))) L)"

lemma cancel_active_slots_Ret:
  assumes "cancel_active_slots run L st = Ret (st', targets, msgs)" and "state_inv g st"
    and "distinct (map fst L)"
    and "\<forall>e \<in> set L. \<exists>s. map_of (cs_slots st) (fst e) = Some s \<and> ss_active s = Some (snd e)"
  shows "state_inv g st'
    \<and> map_of (cs_intents st') = restate (restate_on (batch_ids L) (cancel_state run)) (map_of (cs_intents st))
    \<and> cs_enqueue_leases st' = cs_enqueue_leases st \<and> map fst (cs_slots st') = map fst (cs_slots st)
    \<and> cs_next_operation_id st' = cs_next_operation_id st
    \<and> (\<forall>sid s'. map_of (cs_slots st') sid = Some s' \<and> ss_active s' \<noteq> None
         \<longrightarrow> map_of (cs_slots st) sid = Some s')
    \<and> targets = map (\<lambda>e. cancel_target_of (snd e)) L"
  using assms
proof (induction L arbitrary: st targets msgs)
  case Nil
  then show ?case
    by (auto simp: restate_def fun_eq_iff option.map_ident_strong batch_ids_def)
next
  case (Cons e L)
  obtain sid a where e: "e = (sid, a)" by (cases e)
  from Cons.prems(4) e obtain s where
    s: "map_of (cs_slots st) sid = Some s" "ss_active s = Some a" by auto
  from Cons.prems(1) e s obtain ints msgs1 kept targets' msgs2 where
    act: "cancel_active_intents run (wb_intent_ids (ab_batch a)) (cs_intents st) = Ret (ints, msgs1, kept)"
    and rest: "cancel_active_slots run L (st\<lparr>cs_intents := ints,
           cs_slots := hm_modify sid (\<lambda>s. requeue_front kept (s\<lparr>ss_active := None\<rparr>)) (cs_slots st)\<rparr>)
         = Ret (st', targets', msgs2)"
    and t: "targets = cancel_target_of a # targets'"
    by (auto split: prod.splits)
  let ?st = "st\<lparr>cs_intents := ints,
           cs_slots := hm_modify sid (\<lambda>s. requeue_front kept (s\<lparr>ss_active := None\<rparr>)) (cs_slots st)\<rparr>"
  have st: "state_inv g ?st"
    by (rule state_inv_cancel_active [OF Cons.prems(2) s act])
  have L: "\<forall>e' \<in> set L. \<exists>s. map_of (cs_slots ?st) (fst e') = Some s \<and> ss_active s = Some (snd e')"
  proof
    fix e' assume e': "e' \<in> set L"
    then have "fst e' \<noteq> sid"
      using Cons.prems(3) e by force
    with Cons.prems(4) e' show "\<exists>s. map_of (cs_slots ?st) (fst e') = Some s \<and> ss_active s = Some (snd e')"
      by simp
  qed
  have d: "distinct (map fst L)" using Cons.prems(3) by simp
  note IH = Cons.IH [OF rest st d L]
  have dist: "distinct (wb_intent_ids (ab_batch a))"
    using state_inv_slotD [OF Cons.prems(2) s(1)] s(2) by (meson active_invD(3) slot_inv_activeD)
  note C = cancel_active_intents_Ret [OF act dist]
  show ?case
  proof (intro conjI)
    show "state_inv g st'" using IH by blast
    show "map_of (cs_intents st')
        = restate (restate_on (batch_ids (e # L)) (cancel_state run)) (map_of (cs_intents st))"
    proof -
      have b: "batch_ids (e # L) = wb_intent_ids (ab_batch a) @ batch_ids L"
        by (simp add: batch_ids_def e)
      have I: "map_of (cs_intents ?st)
          = restate (restate_on (wb_intent_ids (ab_batch a)) (cancel_state run)) (map_of (cs_intents st))"
        using C by simp
      show ?thesis
        unfolding IH [THEN conjunct2, THEN conjunct1] I b
        by (rule restate_on_append) (rule cancel_state_set_state)
    qed
    show "targets = map (\<lambda>e. cancel_target_of (snd e)) (e # L)"
      using IH t e by simp
    show "\<forall>sid s'. map_of (cs_slots st') sid = Some s' \<and> ss_active s' \<noteq> None
         \<longrightarrow> map_of (cs_slots st) sid = Some s'"
    proof (intro allI impI)
      fix k s'
      assume k: "map_of (cs_slots st') k = Some s' \<and> ss_active s' \<noteq> None"
      then have k': "map_of (cs_slots ?st) k = Some s'" using IH by blast
      then have "k \<noteq> sid" using k s by auto
      with k' show "map_of (cs_slots st) k = Some s'" by simp
    qed
  qed (use IH in simp_all)
qed

lemma cancel_active_slots_returns:
  assumes "state_inv g st" and "distinct (map fst L)"
    and "\<forall>e \<in> set L. \<exists>s. map_of (cs_slots st) (fst e) = Some s \<and> ss_active s = Some (snd e)"
  shows "\<exists>st' targets msgs. cancel_active_slots run L st = Ret (st', targets, msgs)"
  using assms
proof (induction L arbitrary: st)
  case (Cons e L)
  obtain sid a where e: "e = (sid, a)" by (cases e)
  from Cons.prems(3) e obtain s where
    s: "map_of (cs_slots st) sid = Some s" "ss_active s = Some a" by auto
  note act = slot_inv_activeD [OF state_inv_slotD [OF Cons.prems(1) s(1)] s(2)]
  have "map_of (cs_intents st) x \<noteq> None" if "x \<in> set (wb_intent_ids (ab_batch a))" for x
    using active_inv_intentD [OF act that] by auto
  from cancel_active_intents_returns [OF this] obtain ints msgs1 kept where
    c: "cancel_active_intents run (wb_intent_ids (ab_batch a)) (cs_intents st) = Ret (ints, msgs1, kept)"
    by blast
  let ?st = "st\<lparr>cs_intents := ints,
           cs_slots := hm_modify sid (\<lambda>s. requeue_front kept (s\<lparr>ss_active := None\<rparr>)) (cs_slots st)\<rparr>"
  have "\<exists>st' targets msgs. cancel_active_slots run L ?st = Ret (st', targets, msgs)"
  proof (rule Cons.IH)
    show "state_inv g ?st"
      by (rule state_inv_cancel_active [OF Cons.prems(1) s c])
    show "distinct (map fst L)" using Cons.prems(2) by simp
    show "\<forall>e' \<in> set L. \<exists>s. map_of (cs_slots ?st) (fst e') = Some s \<and> ss_active s = Some (snd e')"
    proof
      fix e' assume e': "e' \<in> set L"
      then have "fst e' \<noteq> sid"
        using Cons.prems(2) e by force
      with Cons.prems(3) e' show "\<exists>s. map_of (cs_slots ?st) (fst e') = Some s \<and> ss_active s = Some (snd e')"
        by simp
    qed
  qed
  then show ?case using e c s by auto
qed simp

lemma cancel_queued_Ret:
  assumes "cancel_queued xs st = Ret (st', msgs)" and "state_inv g st"
    and "\<forall>x \<in> set xs. \<exists>i. map_of (cs_intents st) x = Some i \<and> \<not> in_flight (wi_state i)
           \<and> map_of (cs_slots st) (wi_slot_id i) \<noteq> None"
  shows "state_inv g st'
    \<and> map_of (cs_intents st') = restate (set_states xs (WsCancelled ''run_cancelled'')) (map_of (cs_intents st))
    \<and> cs_enqueue_leases st' = cs_enqueue_leases st \<and> map fst (cs_slots st') = map fst (cs_slots st)
    \<and> cs_next_operation_id st' = cs_next_operation_id st
    \<and> (\<forall>sid. map_option ss_active (map_of (cs_slots st') sid) = map_option ss_active (map_of (cs_slots st) sid))"
  using assms
proof (induction xs arbitrary: st msgs)
  case Nil
  then show ?case by (auto simp: restate_def fun_eq_iff option.map_ident_strong)
next
  case (Cons x xs)
  let ?t = "WsCancelled ''run_cancelled''"
  from Cons.prems(3) obtain i where i: "map_of (cs_intents st) x = Some i"
    "\<not> in_flight (wi_state i)" "map_of (cs_slots st) (wi_slot_id i) \<noteq> None" by auto
  let ?st = "st\<lparr>cs_intents := hm_modify x (set_state ?t) (cs_intents st),
              cs_slots := hm_modify (wi_slot_id i) (remove_queued x) (cs_slots st)\<rparr>"
  from Cons.prems(1) i obtain msgs' where rest: "cancel_queued xs ?st = Ret (st', msgs')"
    by auto
  have "state_inv g (st\<lparr>cs_intents := hm_modify_all [x] (set_state ?t) (cs_intents st),
      cs_slots := hm_modify (wi_slot_id i) (fold remove_queued [x]) (cs_slots st)\<rparr>)"
    using i by (intro state_inv_drop [OF Cons.prems(2)]) auto
  then have st: "state_inv g ?st" by simp
  have "\<forall>y \<in> set xs. \<exists>j. map_of (cs_intents ?st) y = Some j \<and> \<not> in_flight (wi_state j)
           \<and> map_of (cs_slots ?st) (wi_slot_id j) \<noteq> None"
  proof
    fix y assume "y \<in> set xs"
    with Cons.prems(3) obtain j where j: "map_of (cs_intents st) y = Some j"
      "\<not> in_flight (wi_state j)" "map_of (cs_slots st) (wi_slot_id j) \<noteq> None" by auto
    define j' where "j' = (if y = x then set_state ?t j else j)"
    have "map_of (cs_intents ?st) y = Some j'" "\<not> in_flight (wi_state j')" "wi_slot_id j' = wi_slot_id j"
      using j(1,2) by (cases "y = x"; simp add: j'_def)+
    moreover have "map_of (cs_slots ?st) (wi_slot_id j) \<noteq> None"
      using j(3) by (simp add: map_of_hm_modify_None del: map_of_hm_modify map_of_eq_None_iff)
    ultimately show "\<exists>j. map_of (cs_intents ?st) y = Some j \<and> \<not> in_flight (wi_state j)
           \<and> map_of (cs_slots ?st) (wi_slot_id j) \<noteq> None"
      by auto
  qed
  note IH = Cons.IH [OF rest st this]
  show ?case
  proof (intro conjI allI)
    show "map_of (cs_intents st') = restate (set_states (x # xs) ?t) (map_of (cs_intents st))"
      using IH [THEN conjunct2, THEN conjunct1] restate_on_append [of "\<lambda>i. ?t" xs "[x]" "map_of (cs_intents st)"]
      by (simp add: map_of_modify_set_state)
    show "map_option ss_active (map_of (cs_slots st') sid) = map_option ss_active (map_of (cs_slots st) sid)" for sid
      using IH by (cases "map_of (cs_slots st) sid") auto
  qed (use IH in simp_all)
qed

lemma cancel_queued_returns:
  assumes "\<And>x. x \<in> set xs \<Longrightarrow> map_of (cs_intents st) x \<noteq> None"
  shows "\<exists>st' msgs. cancel_queued xs st = Ret (st', msgs)"
  using assms
proof (induction xs arbitrary: st)
  case (Cons x xs)
  from Cons.prems [of x] obtain i where i: "map_of (cs_intents st) x = Some i" by auto
  have "\<exists>st' msgs. cancel_queued xs (st\<lparr>cs_intents := hm_modify x f (cs_intents st), cs_slots := h\<rparr>)
      = Ret (st', msgs)" for f h
    using Cons.prems by (intro Cons.IH) (simp add: map_of_hm_modify_None del: map_of_hm_modify)
  from this [where f = "set_state (WsCancelled ''run_cancelled'')"
      and h = "hm_modify (wi_slot_id i) (remove_queued x) (cs_slots st)"] i
  show ?case by auto
qed simp

lemma state_inv_intent_id:
  "state_inv g st \<Longrightarrow> map_of (cs_intents st) x = Some i \<Longrightarrow> wi_intent_id i = x"
  by (auto simp: state_inv_def work_inv_def)

lemma map_filter_values_iff:
  assumes "state_inv g st"
  shows "x \<in> set (map wi_intent_id (filter p (hm_values (cs_intents st))))
    \<longleftrightarrow> (\<exists>i. map_of (cs_intents st) x = Some i \<and> p i)"
proof -
  have d: "distinct (hm_keys (cs_intents st))"
    using assms by (simp add: state_inv_def)
  show ?thesis
    using state_inv_intent_id [OF assms] hm_values_iff [OF d] by (fastforce simp: image_iff)
qed

lemma distinct_filter_values:
  assumes "state_inv g st"
  shows "distinct (map wi_intent_id (filter p (hm_values (cs_intents st))))"
proof -
  have d: "distinct (hm_keys (cs_intents st))"
    using assms by (simp add: state_inv_def)
  have "wi_intent_id (snd e) = fst e" if "e \<in> set (cs_intents st)" for e
    using that d by (intro state_inv_intent_id [OF assms]) (simp add: map_of_eq_Some_iff)
  then have "map wi_intent_id (hm_values (cs_intents st)) = hm_keys (cs_intents st)"
    by simp
  with d show ?thesis
    by (metis distinct_map_filter)
qed

lemma set_queued_of_run:
  "state_inv g st \<Longrightarrow> x \<in> set (queued_of_run run (cs_intents st))
    \<longleftrightarrow> (\<exists>i. map_of (cs_intents st) x = Some i \<and> wi_team_run_id i = Some run \<and> wi_state i = WsQueued)"
  unfolding queued_of_run_def by (rule map_filter_values_iff)

lemma set_open_intents_of_slot:
  "state_inv g st \<Longrightarrow> x \<in> set (open_intents_of_slot sid (cs_intents st))
    \<longleftrightarrow> (\<exists>i. map_of (cs_intents st) x = Some i \<and> wi_slot_id i = sid \<and> \<not> is_terminal (wi_state i))"
  unfolding open_intents_of_slot_def by (rule map_filter_values_iff)

lemma map_of_fold_hm_remove:
  "map_of (fold hm_remove ks m) k = (if k \<in> set ks then None else map_of m k)"
  by (induction ks arbitrary: m) (auto simp del: map_of_eq_None_iff)

lemma state_inv_drop_leases:
  "state_inv g st \<Longrightarrow> state_inv g (st\<lparr>cs_enqueue_leases := fold hm_remove ks (cs_enqueue_leases st)\<rparr>)"
proof (induction ks arbitrary: st)
  case (Cons k ks)
  from Cons.IH [OF state_inv_drop_lease [OF Cons.prems, of k]] show ?case by simp
qed simp

lemma run_leases_dropped:
  assumes "state_inv g st"
  shows "map_of (fold hm_remove (map el_lease_id (run_leases st run)) (cs_enqueue_leases st)) k = Some l
    \<longleftrightarrow> map_of (cs_enqueue_leases st) k = Some l \<and> el_team_run_id (lr_lease l) \<noteq> Some run"
proof -
  have d: "distinct (hm_keys (cs_enqueue_leases st))"
    and ok: "\<And>k l. map_of (cs_enqueue_leases st) k = Some l \<Longrightarrow> el_lease_id (lr_lease l) = k"
    using assms by (auto simp: state_inv_def work_inv_def lease_ok_def)
  have "k \<in> set (map el_lease_id (run_leases st run))
      \<longleftrightarrow> (\<exists>l. map_of (cs_enqueue_leases st) k = Some l \<and> el_team_run_id (lr_lease l) = Some run)"
    using ok hm_values_iff [OF d] by (fastforce simp: run_leases_def image_iff)
  then show ?thesis
    by (auto simp: map_of_fold_hm_remove)
qed

lemma run_active_slots_iff:
  "bt_sorted (cs_slots st) \<Longrightarrow> (sid, a) \<in> set (run_active_slots st run)
    \<longleftrightarrow> (\<exists>s. map_of (cs_slots st) sid = Some s \<and> ss_active s = Some a \<and> batch_in_run (cs_intents st) run a)"
  by (force simp: run_active_slots_def map_filter_def map_of_eq_Some_iff bt_sorted_distinct
      split: option.splits if_splits)

lemma distinct_keys_map_filter:
  assumes "distinct (map fst m)" and "\<And>e y. f e = Some y \<Longrightarrow> fst y = fst e"
  shows "distinct (map fst (List.map_filter f m)) \<and> fst ` set (List.map_filter f m) \<subseteq> fst ` set m"
  using assms by (induction m) (auto simp: List.map_filter_simps split: option.splits)

lemma distinct_run_active_slots:
  assumes "bt_sorted (cs_slots st)"
  shows "distinct (map fst (run_active_slots st run))"
  unfolding run_active_slots_def
  by (rule distinct_keys_map_filter [OF bt_sorted_distinct [OF assms], THEN conjunct1])
    (auto split: option.splits if_splits)

text \<open>What \<open>cancel_run\<close> does to the intents.\<close>

definition run_cancelled :: "string \<Rightarrow> string list \<Rightarrow> string \<Rightarrow> work_intent \<Rightarrow> work_intent_state" where
  "run_cancelled run batched x i =
     (if is_terminal (wi_state i) then wi_state i
      else if wi_team_run_id i = Some run then WsCancelled ''run_cancelled''
      else if x \<in> set batched then WsQueued else wi_state i)"

lemma cancel_run_Ret:
  assumes inv: "coordinator_inv c" and ret: "cancel_run P run c = Ret (res, c')"
  shows "coordinator_inv c'
    \<and> map_of (cs_intents (co_state c')) = restate (run_cancelled run
         (batch_ids (run_active_slots (co_state c) run))) (map_of (cs_intents (co_state c)))
    \<and> (\<forall>k l. map_of (cs_enqueue_leases (co_state c')) k = Some l
          \<longleftrightarrow> map_of (cs_enqueue_leases (co_state c)) k = Some l \<and> el_team_run_id (lr_lease l) \<noteq> Some run)
    \<and> map fst (cs_slots (co_state c')) = map fst (cs_slots (co_state c))
    \<and> (\<forall>sid s'. map_of (cs_slots (co_state c')) sid = Some s' \<and> ss_active s' \<noteq> None
         \<longrightarrow> map_option ss_active (map_of (cs_slots (co_state c)) sid) = Some (ss_active s'))
    \<and> cs_next_operation_id (co_state c') = cs_next_operation_id (co_state c)
    \<and> co_session_generation c' = co_session_generation c
    \<and> co_run_causality c' = apply_work_summary P (run_summary_locked (co_state c') run) (co_run_causality c)
    \<and> published P c c'
    \<and> cr_cancel_targets res = map (\<lambda>e. cancel_target_of (snd e)) (run_active_slots (co_state c) run)"
proof -
  let ?g = "co_session_generation c" and ?st = "co_state c"
  let ?A = "run_active_slots ?st run"
  let ?I = "map_of (cs_intents ?st)"
  have st: "state_inv ?g ?st"
    using inv by (simp add: coordinator_inv_def)
  then have so: "bt_sorted (cs_slots ?st)" by (simp add: state_inv_def)
  from ret obtain st1 targets msgs1 st2 msgs2 where
    A: "cancel_active_slots run ?A ?st = Ret (st1, targets, msgs1)" and
    Q: "cancel_queued (queued_of_run run (cs_intents st1)) st1 = Ret (st2, msgs2)" and
    c': "c' = commit_runs P (st2\<lparr>cs_enqueue_leases := fold hm_remove
        (map el_lease_id (run_leases st2 run)) (cs_enqueue_leases st2)\<rparr>) [run] c" and
    res: "cr_cancel_targets res = targets"
    by (auto simp: cancel_run_def Let_def commit_runs_def run_summaries_locked_def split: prod.splits)
  have el: "\<forall>e \<in> set ?A. \<exists>s. map_of (cs_slots ?st) (fst e) = Some s \<and> ss_active s = Some (snd e)"
    using run_active_slots_iff [OF so] by (metis prod.collapse)
  note R1 = cancel_active_slots_Ret [OF A st distinct_run_active_slots [OF so] el]
  then have st1: "state_inv ?g st1" by blast
  have q: "\<forall>x \<in> set (queued_of_run run (cs_intents st1)). \<exists>i. map_of (cs_intents st1) x = Some i
      \<and> \<not> in_flight (wi_state i) \<and> map_of (cs_slots st1) (wi_slot_id i) \<noteq> None"
    using set_queued_of_run [OF st1] open_slot_exists [OF st1] by fastforce
  note R2 = cancel_queued_Ret [OF Q st1 q]
  then have st2: "state_inv ?g st2" by blast
  have batched: "x \<in> set (batch_ids ?A)"
    if "?I x = Some i" "in_flight (wi_state i)" "wi_team_run_id i = Some run" for x i
  proof -
    from open_slot_exists [OF st that(1)] that(2) obtain s where
      s: "map_of (cs_slots ?st) (wi_slot_id i) = Some s" by (cases "wi_state i") auto
    have "slot_intents ?I (wi_slot_id i) x = Some i" using that by simp
    from slot_inv_flightD [OF state_inv_slotD [OF st s] this that(2)] obtain a where
      a: "ss_active s = Some a" "x \<in> set (wb_intent_ids (ab_batch a))" by blast
    then have "batch_in_run (cs_intents ?st) run a"
      using that unfolding batch_in_run_def list_ex_iff by (intro bexI [of _ x]) auto
    then have "(wi_slot_id i, a) \<in> set ?A"
      using run_active_slots_iff [OF so] s a by blast
    with a show ?thesis by (force simp: batch_ids_def)
  qed
  have flight: "in_flight (wi_state i)" if x: "x \<in> set (batch_ids ?A)" "?I x = Some i" for x i
  proof -
    from x obtain sid a where a: "(sid, a) \<in> set ?A" "x \<in> set (wb_intent_ids (ab_batch a))"
      by (auto simp: batch_ids_def)
    then obtain s where s: "map_of (cs_slots ?st) sid = Some s" "ss_active s = Some a"
      using run_active_slots_iff [OF so] by blast
    from active_inv_intentD [OF slot_inv_activeD [OF state_inv_slotD [OF st s(1)] s(2)] a(2)] x
    show ?thesis by auto
  qed
  have I1: "map_of (cs_intents st1) = restate (restate_on (batch_ids ?A) (cancel_state run)) ?I"
    using R1 by blast
  have qs: "x \<in> set (queued_of_run run (cs_intents st1)) \<longleftrightarrow> wi_team_run_id i = Some run \<and> wi_state i = WsQueued"
    if "?I x = Some i" for x i
    unfolding set_queued_of_run [OF st1] I1
    using that flight [of x i] by (auto simp: restate_Some cancel_state_def split: if_splits)
  have I2: "map_of (cs_intents st2) = restate (run_cancelled run (batch_ids ?A)) ?I"
  proof -
    have "map_of (cs_intents st2) = restate (set_states (queued_of_run run (cs_intents st1))
        (WsCancelled ''run_cancelled'')) (restate (restate_on (batch_ids ?A) (cancel_state run)) ?I)"
      using R2 I1 by simp
    also have "\<dots> = restate (run_cancelled run (batch_ids ?A)) ?I"
    proof
      fix x
      show "restate (set_states (queued_of_run run (cs_intents st1)) (WsCancelled ''run_cancelled''))
          (restate (restate_on (batch_ids ?A) (cancel_state run)) ?I) x
        = restate (run_cancelled run (batch_ids ?A)) ?I x"
      proof (cases "?I x")
        case (Some i)
        then show ?thesis
          using qs [OF Some] flight [of x i] batched [OF Some]
          by (cases "wi_state i") (auto simp: restate_def run_cancelled_def cancel_state_def)
      qed (simp add: restate_def)
    qed
    finally show ?thesis .
  qed
  have act: "map_option ss_active (map_of (cs_slots ?st) sid) = Some (ss_active s')"
    if s': "map_of (cs_slots st2) sid = Some s'" "ss_active s' \<noteq> None" for sid s'
  proof -
    have "map_option ss_active (map_of (cs_slots st1) sid) = Some (ss_active s')"
      using R2 s'(1) by (metis option.map(2))
    then obtain t where "map_of (cs_slots st1) sid = Some t" "ss_active t = ss_active s'" by auto
    with R1 s'(2) show ?thesis by (metis option.map(2))
  qed
  show ?thesis
    unfolding c'
    using state_inv_drop_leases [OF st2] run_leases_dropped [OF st2] R1 R2 I2 act res
    by (simp add: coordinator_inv_def commit_runs_def [of P _ "[run]"]
        run_summaries_locked_def publish_run_summaries_def published_def exI [of _ "[run]"])
qed

lemma cancel_run_returns:
  assumes inv: "coordinator_inv c"
  shows "returns (cancel_run P run c)"
proof -
  let ?g = "co_session_generation c" and ?st = "co_state c"
  let ?A = "run_active_slots ?st run"
  have st: "state_inv ?g ?st"
    using inv by (simp add: coordinator_inv_def)
  then have so: "bt_sorted (cs_slots ?st)" by (simp add: state_inv_def)
  have el: "\<forall>e \<in> set ?A. \<exists>s. map_of (cs_slots ?st) (fst e) = Some s \<and> ss_active s = Some (snd e)"
    using run_active_slots_iff [OF so] by (metis prod.collapse)
  from cancel_active_slots_returns [OF st distinct_run_active_slots [OF so] el] obtain st1 targets msgs where
    A: "cancel_active_slots run ?A ?st = Ret (st1, targets, msgs)" by blast
  have st1: "state_inv ?g st1"
    using cancel_active_slots_Ret [OF A st distinct_run_active_slots [OF so] el] by blast
  have "\<exists>st' msgs. cancel_queued (queued_of_run run (cs_intents st1)) st1 = Ret (st', msgs)"
    using set_queued_of_run [OF st1] by (intro cancel_queued_returns) auto
  with A show ?thesis
    by (auto simp: cancel_run_def Let_def)
qed

section \<open>Preservation: runtime constraints and removal\<close>

text \<open>The state an open intent gets when its slot fails or the session stops.\<close>

definition constrained_state :: "bool \<Rightarrow> string \<Rightarrow> work_intent \<Rightarrow> work_intent_state" where
  "constrained_state stopped cls i =
     (if wi_team_run_id i = None \<and> \<not> stopped then WsQueued
      else if stopped then WsCancelled cls else WsFailed cls)"

lemma constrain_intents_Ret:
  assumes "constrain_intents stopped cls xs m = Ret (m', runs, msgs, requeue)" and "distinct xs"
  shows "map_of m' = restate (restate_on xs (constrained_state stopped cls)) (map_of m)
    \<and> hm_keys m' = hm_keys m
    \<and> requeue = map (\<lambda>x. (wi_priority (the (map_of m x)), x))
               (filter (\<lambda>x. Option.bind (map_of m x) wi_team_run_id = None \<and> \<not> stopped) xs)"
  using assms
proof (induction xs arbitrary: m m' runs msgs requeue)
  case Nil
  then show ?case by (auto simp: restate_def fun_eq_iff option.map_ident_strong)
next
  case (Cons x xs)
  from Cons.prems(1) obtain i where i: "map_of m x = Some i" by (auto split: option.splits)
  let ?m = "hm_modify x (set_state (constrained_state stopped cls i)) m"
  from Cons.prems i obtain runs' msgs' requeue' where
    run: "constrain_intents stopped cls xs ?m = Ret (m', runs', msgs', requeue')" and
    requeue: "requeue = (if wi_team_run_id i = None \<and> \<not> stopped
                then (wi_priority i, x) # requeue' else requeue')"
    by (auto simp: constrained_state_def split: if_splits)
  have x: "x \<notin> set xs" "distinct xs" using Cons.prems(2) by auto
  have frame: "map (\<lambda>x. (wi_priority (the (map_of ?m x)), x))
      (filter (\<lambda>x. Option.bind (map_of ?m x) wi_team_run_id = None \<and> \<not> stopped) xs)
    = map (\<lambda>x. (wi_priority (the (map_of m x)), x))
      (filter (\<lambda>x. Option.bind (map_of m x) wi_team_run_id = None \<and> \<not> stopped) xs)"
    using x by (intro map_cong filter_cong) (auto intro!: arg_cong2 [where f = Pair])
  show ?case
    using Cons.IH [OF run x(2)] unfolding restate_restate_on [OF i x(1)] frame
    using requeue i by simp
qed

lemma constrain_intents_returns:
  assumes "\<And>x. x \<in> set xs \<Longrightarrow> map_of m x \<noteq> None"
  shows "\<exists>m' runs msgs requeue. constrain_intents stopped cls xs m = Ret (m', runs, msgs, requeue)"
  using assms
proof (induction xs arbitrary: m)
  case (Cons x xs)
  from Cons.prems [of x] obtain i where i: "map_of m x = Some i" by auto
  have "\<exists>m' runs msgs requeue. constrain_intents stopped cls xs (hm_modify x f m) = Ret (m', runs, msgs, requeue)" for f
    using Cons.prems by (intro Cons.IH) (simp add: map_of_hm_modify_None del: map_of_hm_modify)
  from this [of "set_state WsQueued"] this [of "set_state (if stopped then WsCancelled cls else WsFailed cls)"] i
  show ?case by (auto split: option.splits)
qed simp

lemma slot_inv_constrain:
  assumes ids: "\<And>x. x \<in> set ids \<longleftrightarrow> (\<exists>i. J x = Some i \<and> \<not> is_terminal (wi_state i))"
    and "distinct ids"
    and requeue: "requeue = map (\<lambda>x. (wi_priority (the (J x)), x))
         (filter (\<lambda>x. Option.bind (J x) wi_team_run_id = None \<and> \<not> stopped) ids)"
  shows "slot_inv g sid (restate (restate_on ids (constrained_state stopped cls)) J)
           (requeue_back requeue (clear_slot s))"
    (is "slot_inv g sid (restate ?f J) ?s")
proof -
  have bk: "queue p ?s
      = filter (\<lambda>x. Option.bind (J x) wi_team_run_id = None \<and> \<not> stopped \<and> wi_priority (the (J x)) = p) ids" for p
    by (simp add: queue_requeue_back requeue filter_map comp_def conj_ac)
  show ?thesis
  proof (rule slot_inv_restate_inactive)
    show "\<not> in_flight (?f x i)" if "J x = Some i" for x i
      using ids [of x] that by (auto simp: constrained_state_def open_iff)
    show "x \<in> set (queue p ?s) \<longleftrightarrow> (\<exists>i. J x = Some i \<and> ?f x i = WsQueued \<and> wi_priority i = p)" for p x
    proof (cases "J x")
      case (Some i)
      then show ?thesis
        using ids [of x] by (cases "wi_state i") (auto simp: bk constrained_state_def)
    qed (use ids [of x] in \<open>simp add: bk\<close>)
    show "distinct (queue p ?s)" for p
      unfolding bk using assms(2) by simp
  qed simp
qed

lemma state_inv_constrain:
  assumes st: "state_inv g st" and slot: "map_of (cs_slots st) sid = Some s"
    and run: "constrain_intents stopped cls (open_intents_of_slot sid (cs_intents st)) (cs_intents st)
      = Ret (ints, runs, msgs, requeue)"
  shows "state_inv g (st\<lparr>cs_intents := ints,
           cs_slots := hm_modify sid (\<lambda>s. requeue_back requeue (clear_slot s)) (cs_slots st)\<rparr>)"
proof -
  let ?J = "slot_intents (map_of (cs_intents st)) sid"
  let ?ids = "open_intents_of_slot sid (cs_intents st)"
  have d: "distinct ?ids"
    unfolding open_intents_of_slot_def by (rule distinct_filter_values [OF st])
  note C = constrain_intents_Ret [OF run d]
  note ids = set_open_intents_of_slot [OF st, of _ sid]
  have J: "?J x = map_of (cs_intents st) x" if "x \<in> set ?ids" for x
    using that ids [of x] by (auto simp: slot_intents_def)
  show ?thesis
  proof (rule state_inv_restate [OF st slot _ C [THEN conjunct1]])
    show "distinct (hm_keys ints)"
      using C st by (simp add: state_inv_def)
    show "restate_on ?ids (constrained_state stopped cls) x i = wi_state i"
      if "map_of (cs_intents st) x = Some i" "wi_slot_id i \<noteq> sid" for x i
      using ids [of x] that by auto
    show "slot_inv g sid (restate (restate_on ?ids (constrained_state stopped cls)) ?J)
        (requeue_back requeue (clear_slot s))"
    proof (rule slot_inv_constrain [OF _ d])
      show "x \<in> set ?ids \<longleftrightarrow> (\<exists>i. ?J x = Some i \<and> \<not> is_terminal (wi_state i))" for x
        using ids [of x] by auto
      show "requeue = map (\<lambda>x. (wi_priority (the (?J x)), x))
         (filter (\<lambda>x. Option.bind (?J x) wi_team_run_id = None \<and> \<not> stopped) ?ids)"
        using C J by (auto intro!: map_cong filter_cong)
    qed
  qed
qed

text \<open>What \<open>set_runtime_constraint\<close> does to the intents.\<close>

definition constrained ::
  "runtime_constraint \<Rightarrow> string \<Rightarrow> string \<Rightarrow> work_intent \<Rightarrow> work_intent_state" where
  "constrained k sid x i =
     (case ending_constraint k of
        None \<Rightarrow> wi_state i
      | Some (stopped, cls) \<Rightarrow>
        if wi_slot_id i = sid \<and> \<not> is_terminal (wi_state i) then constrained_state stopped cls i
        else wi_state i)"

lemma constrained_eq:
  assumes "state_inv g st" and "ending_constraint k = Some (stopped, cls)"
  shows "restate (restate_on (open_intents_of_slot sid (cs_intents st)) (constrained_state stopped cls))
      (map_of (cs_intents st)) = restate (constrained k sid) (map_of (cs_intents st))"
  using set_open_intents_of_slot [OF assms(1)] assms(2)
  by (intro restate_cong) (auto simp: constrained_def)

lemma set_runtime_constraint_Ret:
  assumes inv: "coordinator_inv c" and ret: "set_runtime_constraint P sid k c = Ret (res, c')"
  shows "coordinator_inv c'
    \<and> map_of (cs_intents (co_state c')) = restate (constrained k sid) (map_of (cs_intents (co_state c)))
    \<and> cs_enqueue_leases (co_state c') = cs_enqueue_leases (co_state c)
    \<and> cs_next_operation_id (co_state c') = cs_next_operation_id (co_state c)
    \<and> co_session_generation c' = co_session_generation c
    \<and> (\<exists>s'. map_of (cs_slots (co_state c')) sid = Some s' \<and> ss_runtime_constraint s' = k
        \<and> (ss_active s' \<noteq> None \<longrightarrow> ending_constraint k = None
             \<and> map_option ss_active (map_of (cs_slots (co_state c)) sid) = Some (ss_active s')))
    \<and> (\<forall>sid'. sid' \<noteq> sid \<longrightarrow> map_of (cs_slots (co_state c')) sid' = map_of (cs_slots (co_state c)) sid')
    \<and> published P c c'"
proof -
  let ?g = "co_session_generation c" and ?st = "co_state c"
  define slots where "slots = entry_update sid (slot_new RoleTeammate)
      (\<lambda>s. s\<lparr>ss_runtime_constraint := k\<rparr>) (cs_slots ?st)"
  let ?st1 = "?st\<lparr>cs_slots := slots\<rparr>"
  have st: "state_inv ?g ?st"
    using inv by (simp add: coordinator_inv_def)
  then have so: "bt_sorted (cs_slots ?st)" by (simp add: state_inv_def)
  have st1: "state_inv ?g ?st1"
    unfolding slots_def by (intro state_inv_entry [OF st]) simp_all
  define t where "t = (case map_of (cs_slots ?st) sid of None \<Rightarrow> slot_new RoleTeammate | Some s \<Rightarrow> s)
      \<lparr>ss_runtime_constraint := k\<rparr>"
  have slots: "map_of slots = (map_of (cs_slots ?st))(sid \<mapsto> t)"
    using so by (simp add: slots_def map_of_entry_update t_def)
  have t_active: "map_option ss_active (map_of (cs_slots ?st) sid) = Some (ss_active t)" if "ss_active t \<noteq> None"
    using that by (auto simp: t_def slot_new_def split: option.splits)
  have rb: "ss_runtime_constraint (requeue_back xs (clear_slot s)) = ss_runtime_constraint s" for xs s
  proof -
    have "ss_runtime_constraint (requeue_back xs s) = ss_runtime_constraint s" for s
      unfolding requeue_back_def
    proof (induction xs arbitrary: s)
      case (Cons e xs)
      then show ?case by (cases e; cases "fst e") simp_all
    qed simp
    then show ?thesis by (simp add: clear_slot_def)
  qed
  show ?thesis
  proof (cases "ending_constraint k")
    case None
    with ret obtain pub where c': "c' = commit_runs P ?st1 pub c"
      by (auto simp: commit_runs_def set_runtime_constraint_def Let_def slots_def)
    have "restate (constrained k sid) (map_of (cs_intents ?st)) = map_of (cs_intents ?st)"
      using None by (intro restate_id) (simp add: constrained_def)
    then show ?thesis
      using st1 None t_active by (auto simp: c' coordinator_inv_def slots t_def)
  next
    case (Some e)
    obtain stopped cls where e: "e = (stopped, cls)" by (cases e)
    from ret Some e obtain ints runs msgs requeue pub where
      C: "constrain_intents stopped cls (open_intents_of_slot sid (cs_intents ?st1)) (cs_intents ?st1)
        = Ret (ints, runs, msgs, requeue)" and
      c': "c' = commit_runs P (?st1\<lparr>cs_intents := ints,
          cs_slots := hm_modify sid (\<lambda>s. requeue_back requeue (clear_slot s)) (cs_slots ?st1)\<rparr>) pub c"
      by (auto simp: set_runtime_constraint_def Let_def slots_def commit_runs_def split: prod.splits)
    have slot: "map_of (cs_slots ?st1) sid = Some t" by (simp add: slots)
    have d: "distinct (open_intents_of_slot sid (cs_intents ?st1))"
      unfolding open_intents_of_slot_def by (rule distinct_filter_values [OF st1])
    have I: "map_of ints = restate (constrained k sid) (map_of (cs_intents ?st))"
      using constrain_intents_Ret [OF C d] constrained_eq [OF st1 Some [unfolded e], of sid] by simp
    show ?thesis
      using state_inv_constrain [OF st1 slot C] I Some
      by (auto simp: c' coordinator_inv_def slots rb t_def)
  qed
qed

lemma set_runtime_constraint_returns:
  assumes inv: "coordinator_inv c"
  shows "returns (set_runtime_constraint P sid k c)"
proof -
  define slots where "slots = entry_update sid (slot_new RoleTeammate)
      (\<lambda>s. s\<lparr>ss_runtime_constraint := k\<rparr>) (cs_slots (co_state c))"
  have st: "state_inv (co_session_generation c) (co_state c)"
    using inv by (simp add: coordinator_inv_def)
  then have slot: "map_of (hm_modify sid h slots) sid \<noteq> None" "map_of slots sid \<noteq> None" for h
    by (auto simp: slots_def map_of_entry_update state_inv_def)
  have snap: "\<exists>s. slot_snapshot_locked st' sid = Some s" if "map_of (cs_slots st') sid \<noteq> None" for st'
    using that by (auto simp: slot_snapshot_locked_def)
  show ?thesis
  proof (cases "ending_constraint k")
    case None
    with snap [of "(co_state c)\<lparr>cs_slots := slots\<rparr>"] slot(2) show ?thesis
      by (auto simp: set_runtime_constraint_def Let_def slots_def)
  next
    case (Some e)
    obtain stopped cls where e: "e = (stopped, cls)" by (cases e)
    have "map_of (cs_intents (co_state c)) x \<noteq> None"
      if "x \<in> set (open_intents_of_slot sid (cs_intents (co_state c)))" for x
      using that set_open_intents_of_slot [OF st] by auto
    from constrain_intents_returns [OF this] obtain m' runs msgs requeue where
      C: "constrain_intents stopped cls (open_intents_of_slot sid (cs_intents (co_state c)))
         (cs_intents (co_state c)) = Ret (m', runs, msgs, requeue)" by blast
    from slot(2) obtain t where "map_of slots sid = Some t" by auto
    then show ?thesis
      using Some e C
      by (simp add: set_runtime_constraint_def Let_def slots_def [symmetric] slot_snapshot_locked_def)
  qed
qed

lemma cancel_removed_Ret:
  assumes "cancel_removed xs m = Ret (m', msgs, runs)"
  shows "m' = hm_modify_all xs (set_state (WsCancelled ''slot_removed'')) m"
  using assms
  by (induction xs arbitrary: m m' msgs runs) (auto split: option.splits)

lemma cancel_removed_returns:
  assumes "\<And>x. x \<in> set xs \<Longrightarrow> map_of m x \<noteq> None"
  shows "\<exists>m' msgs runs. cancel_removed xs m = Ret (m', msgs, runs)"
  using assms
proof (induction xs arbitrary: m)
  case (Cons x xs)
  from Cons.prems [of x] obtain i where i: "map_of m x = Some i" by auto
  have "\<exists>m' msgs runs. cancel_removed xs (hm_modify x f m) = Ret (m', msgs, runs)" for f
    using Cons.prems by (intro Cons.IH) (simp add: map_of_hm_modify_None del: map_of_hm_modify)
  from this [of "set_state (WsCancelled ''slot_removed'')"] i show ?case by auto
qed simp

lemma set_sort_key_values:
  assumes "state_inv g st"
  shows "x \<in> set (map wi_intent_id (sort_key k (filter p (hm_values (cs_intents st)))))
    \<longleftrightarrow> (\<exists>i. map_of (cs_intents st) x = Some i \<and> p i)"
  using map_filter_values_iff [OF assms, of x p] by simp

text \<open>\<open>remove_slot\<close> cancels the open intents of the slot, all of them and only them.\<close>

lemma set_removal_ids:
  assumes st: "state_inv g st"
  shows "x \<in> set (removal_ids st sid)
    \<longleftrightarrow> (\<exists>i. map_of (cs_intents st) x = Some i \<and> wi_slot_id i = sid \<and> \<not> is_terminal (wi_state i))"
proof -
  define ordered where "ordered = (case map_of (cs_slots st) sid of
               None \<Rightarrow> []
             | Some slot \<Rightarrow>
               (case ss_active slot of None \<Rightarrow> [] | Some a \<Rightarrow> wb_intent_ids (ab_batch a)) @ queued_ids slot)"
  have ordered: "\<exists>i. map_of (cs_intents st) y = Some i \<and> wi_slot_id i = sid \<and> \<not> is_terminal (wi_state i)"
    if y: "y \<in> set ordered" for y
  proof -
    from y obtain s where s: "map_of (cs_slots st) sid = Some s"
      by (cases "map_of (cs_slots st) sid") (auto simp: ordered_def)
    then have cases: "(\<exists>a. ss_active s = Some a \<and> y \<in> set (wb_intent_ids (ab_batch a))) \<or> y \<in> set (queued_ids s)"
      using y by (cases "ss_active s") (auto simp: ordered_def)
    note inv = state_inv_slotD [OF st s]
    from cases show ?thesis
    proof
      assume "\<exists>a. ss_active s = Some a \<and> y \<in> set (wb_intent_ids (ab_batch a))"
      then obtain a where a: "ss_active s = Some a" "y \<in> set (wb_intent_ids (ab_batch a))" by blast
      from active_inv_intentD [OF slot_inv_activeD [OF inv a(1)] a(2)] show ?thesis
        by (auto simp: open_iff)
    next
      assume "y \<in> set (queued_ids s)"
      then obtain p where "y \<in> set (queue p s)" using set_queued_ids by blast
      from slot_inv_queueD [OF inv this] show ?thesis by (auto simp: open_iff)
    qed
  qed
  have "x \<in> set (removal_ids st sid) \<longleftrightarrow> x \<in> set ordered
      \<or> x \<in> set (map wi_intent_id (sort_key (\<lambda>i. (wi_created_at_ms i, wi_intent_id i))
          (filter (\<lambda>i. wi_slot_id i = sid \<and> \<not> is_terminal (wi_state i)
                        \<and> wi_intent_id i \<notin> set ordered) (hm_values (cs_intents st)))))"
    unfolding removal_ids_def Let_def ordered_def by simp
  then show ?thesis
    unfolding set_sort_key_values [OF st]
    using ordered [of x] state_inv_intent_id [OF st, of x] by metis
qed

lemma slot_inv_clear:
  assumes "\<And>x i. J x = Some i \<Longrightarrow> is_terminal (f x i)"
    and "\<And>p. queue p s' = []" and "ss_active s' = None"
  shows "slot_inv g sid (restate f J) s'"
  using assms terminal_not_open by (intro slot_inv_restate_inactive) fastforce+

definition slot_removed :: "string \<Rightarrow> string \<Rightarrow> work_intent \<Rightarrow> work_intent_state" where
  "slot_removed sid x i =
     (if wi_slot_id i = sid \<and> \<not> is_terminal (wi_state i) then WsCancelled ''slot_removed'' else wi_state i)"

lemma remove_slot_Ret:
  assumes inv: "coordinator_inv c" and ret: "remove_slot P sid c = Ret (res, c')"
  shows "coordinator_inv c'
    \<and> map_of (cs_intents (co_state c')) = restate (slot_removed sid) (map_of (cs_intents (co_state c)))
    \<and> cs_slots (co_state c') = hm_modify sid (\<lambda>s. (clear_slot s)\<lparr>ss_removed := True\<rparr>) (cs_slots (co_state c))
    \<and> cs_enqueue_leases (co_state c') = cs_enqueue_leases (co_state c)
    \<and> cs_next_operation_id (co_state c') = cs_next_operation_id (co_state c)
    \<and> co_session_generation c' = co_session_generation c
    \<and> published P c c'
    \<and> rw_cancel_target res
        = map_option cancel_target_of (Option.bind (map_of (cs_slots (co_state c)) sid) ss_active)"
proof -
  let ?g = "co_session_generation c" and ?st = "co_state c"
  let ?t = "WsCancelled ''slot_removed''"
  have st: "state_inv ?g ?st"
    using inv by (simp add: coordinator_inv_def)
  note ids = set_removal_ids [OF st, of _ sid]
  from ret obtain ints msgs runs pub where
    C: "cancel_removed (removal_ids ?st sid) (cs_intents ?st) = Ret (ints, msgs, runs)" and
    c': "c' = commit_runs P (?st\<lparr>cs_intents := ints, cs_slots := hm_modify sid
        (\<lambda>s. (clear_slot s)\<lparr>ss_removed := True\<rparr>) (cs_slots ?st)\<rparr>) pub c" and
    res: "rw_cancel_target res
        = map_option cancel_target_of (Option.bind (map_of (cs_slots ?st) sid) ss_active)"
    by (auto simp: remove_slot_def Let_def commit_runs_def split: prod.splits)
  have "map_of ints = restate (set_states (removal_ids ?st sid) ?t) (map_of (cs_intents ?st))"
    by (simp add: cancel_removed_Ret [OF C] map_of_modify_all_set_state)
  also have "\<dots> = restate (slot_removed sid) (map_of (cs_intents ?st))"
    using ids by (intro restate_cong) (auto simp: slot_removed_def)
  finally have I: "map_of ints = restate (slot_removed sid) (map_of (cs_intents ?st))" .
  have d: "distinct (hm_keys ints)"
    using st by (simp add: cancel_removed_Ret [OF C] state_inv_def)
  have "state_inv ?g (?st\<lparr>cs_intents := ints, cs_slots := hm_modify sid
        (\<lambda>s. (clear_slot s)\<lparr>ss_removed := True\<rparr>) (cs_slots ?st)\<rparr>)"
  proof (cases "map_of (cs_slots ?st) sid")
    case None
    then have "slot_removed sid x i = wi_state i" if "map_of (cs_intents ?st) x = Some i" for x i
      using open_slot_exists [OF st that] by (auto simp: slot_removed_def)
    then have "map_of ints = map_of (cs_intents ?st)"
      unfolding I by (rule restate_id)
    moreover have "map_of (hm_modify sid h (cs_slots ?st)) = map_of (cs_slots ?st)" for h
      using None by (auto simp: fun_eq_iff)
    ultimately show ?thesis
      using st d by (simp add: state_inv_def)
  next
    case (Some s)
    show ?thesis
      by (rule state_inv_restate [OF st Some d I])
        (auto simp: slot_removed_def intro!: slot_inv_clear)
  qed
  then show ?thesis
    using I res by (auto simp: c' coordinator_inv_def)
qed

lemma remove_slot_returns:
  assumes inv: "coordinator_inv c"
  shows "returns (remove_slot P sid c)"
proof -
  have st: "state_inv (co_session_generation c) (co_state c)"
    using inv by (simp add: coordinator_inv_def)
  have "map_of (cs_intents (co_state c)) x \<noteq> None" if "x \<in> set (removal_ids (co_state c) sid)" for x
    using that set_removal_ids [OF st] by auto
  from cancel_removed_returns [OF this] obtain ints msgs runs where
    "cancel_removed (removal_ids (co_state c) sid) (cs_intents (co_state c)) = Ret (ints, msgs, runs)"
    by blast
  then show ?thesis
    by (simp add: remove_slot_def Let_def)
qed

definition session_stopped :: "string \<Rightarrow> work_intent \<Rightarrow> work_intent_state" where
  "session_stopped x i =
     (if is_terminal (wi_state i) then wi_state i else WsCancelled ''session_stopped'')"

lemma stop_intent_eq: "stop_intent i = set_state (session_stopped x i) i"
  by (simp add: stop_intent_def session_stopped_def)

lemma stop_Ret:
  assumes inv: "coordinator_inv c" and ret: "stop P c = (sums, c')"
  shows "coordinator_inv c'
    \<and> map_of (cs_intents (co_state c')) = restate session_stopped (map_of (cs_intents (co_state c)))
    \<and> (\<forall>sid s'. map_of (cs_slots (co_state c')) sid = Some s' \<longrightarrow>
          ss_runtime_constraint s' = RcSessionStopped \<and> ss_active s' = None \<and> queued_ids s' = [])
    \<and> cs_enqueue_leases (co_state c') = []
    \<and> cs_next_operation_id (co_state c') = cs_next_operation_id (co_state c)
    \<and> co_session_generation c' = co_session_generation c
    \<and> published P c c'"
proof -
  let ?g = "co_session_generation c" and ?st = "co_state c"
  let ?h = "\<lambda>s. (clear_slot s)\<lparr>ss_runtime_constraint := RcSessionStopped\<rparr>"
  let ?st1 = "?st\<lparr>cs_intents := hm_map_values stop_intent (cs_intents ?st),
      cs_slots := hm_map_values ?h (cs_slots ?st), cs_enqueue_leases := []\<rparr>"
  have st: "state_inv ?g ?st"
    using inv by (simp add: coordinator_inv_def)
  have "sorted_wrt (<) (all_run_ids ?st)"
    by (simp add: all_run_ids_def sorted_btree_set)
  then have c': "c' = commit_runs P ?st1 (all_run_ids ?st) c"
    using ret by (auto simp: stop_def Let_def commit_runs_def run_summaries_locked_def)
  have I: "map_of (hm_map_values stop_intent (cs_intents ?st)) = restate session_stopped (map_of (cs_intents ?st))"
    by (auto simp: restate_def fun_eq_iff stop_intent_eq [symmetric] intro!: map_option_cong)
  have S: "map_of (hm_map_values ?h (cs_slots ?st)) = (\<lambda>k. map_option ?h (map_of (cs_slots ?st) k))"
    by (simp add: fun_eq_iff)
  have clear: "slot_inv ?g sid (restate session_stopped J) (?h s)" for sid J s
    by (rule slot_inv_clear) (auto simp: session_stopped_def)
  have "work_inv ?g (\<lambda>k. map_option ?h (map_of (cs_slots ?st) k))
      (restate session_stopped (map_of (cs_intents ?st))) (map_of [])"
    unfolding work_inv_def slot_intents_restate
  proof (intro conjI allI impI)
    fix k i
    assume "restate session_stopped (map_of (cs_intents ?st)) k = Some i"
    then show "wi_intent_id i = k" "wi_session_generation i = ?g"
      using st by (auto simp: restate_Some state_inv_def work_inv_def)
  next
    fix k i
    assume "restate session_stopped (map_of (cs_intents ?st)) k = Some i \<and> \<not> is_terminal (wi_state i)"
    then obtain j where "i = set_state (session_stopped k j) j" "\<not> is_terminal (wi_state i)"
      by (auto simp: restate_Some)
    moreover have "is_terminal (session_stopped k j)"
      by (simp add: session_stopped_def)
    ultimately show "wi_slot_id i \<in> dom (\<lambda>k. map_option ?h (map_of (cs_slots ?st) k))"
      by simp
  next
    fix sid s
    assume "map_option ?h (map_of (cs_slots ?st) sid) = Some s"
    then show "slot_inv ?g sid (restate session_stopped (slot_intents (map_of (cs_intents ?st)) sid)) s"
      using clear by auto
  qed simp
  then have "state_inv ?g ?st1"
    using st by (simp add: state_inv_def I S)
  then show ?thesis
    using I by (auto simp: c' coordinator_inv_def queued_ids_def clear_slot_def)
qed

end
