(* ===== verification/Run_Causality.thy ===== *)
theory Run_Causality
  imports Team_Run Work_Cancel
begin

text \<open>
  How the run manager follows the coordinator. A summary of the coordinator's state says whether
  a run still has work (\<open>no_work_summary\<close>) and whether one of its intents failed
  (\<open>failed_summary\<close>). The locale \<open>run_causality\<close> states what the coordinator relies on of its
  \<open>RunCausalityPort\<close> and proves that what the port reports of ended runs stays justified as long as
  the summaries that reach it are; \<open>rc\<close> interprets it on the manager's operations.
\<close>

section \<open>What a summary says of the state\<close>

definition run_has_work :: "coordinator_state \<Rightarrow> string \<Rightarrow> bool" where
  "run_has_work st run \<longleftrightarrow>
     list_ex (\<lambda>i. wi_team_run_id i = Some run \<and> \<not> is_terminal (wi_state i)) (hm_values (cs_intents st))
     \<or> list_ex (\<lambda>l. el_team_run_id (lr_lease l) = Some run) (hm_values (cs_enqueue_leases st))"

definition run_has_failed :: "coordinator_state \<Rightarrow> string \<Rightarrow> bool" where
  "run_has_failed st run \<longleftrightarrow>
     list_ex (\<lambda>i. wi_team_run_id i = Some run \<and> is_failed (wi_state i)) (hm_values (cs_intents st))"

lemma starting_batch_None: "starting_batch s = None \<longleftrightarrow> (\<nexists>b p. s = WsStarting b p)"
  by (cases s) auto

lemma running_batch_None: "running_batch s = None \<longleftrightarrow> (\<nexists>b p t. s = WsRunning b p t)"
  by (cases s) auto

lemma map_filter_Nil: "List.map_filter f xs = [] \<longleftrightarrow> (\<forall>x \<in> set xs. f x = None)"
  by (induction xs) (auto simp: List.map_filter_simps split: option.splits)

lemma no_work_summary: "no_work (run_summary_locked st run) \<longleftrightarrow> \<not> run_has_work st run"
proof -
  have "no_work (run_summary_locked st run) \<longleftrightarrow>
      (\<forall>i \<in> set (associated st run). wi_state i \<noteq> WsQueued \<and> starting_batch (wi_state i) = None
          \<and> running_batch (wi_state i) = None) \<and> run_leases st run = []"
    by (auto simp: no_work_def run_summary_locked_def Let_def map_filter_Nil filter_empty_conv)
  also have "\<dots> \<longleftrightarrow> (\<forall>i \<in> set (associated st run). is_terminal (wi_state i)) \<and> run_leases st run = []"
    unfolding starting_batch_None running_batch_None by (metis is_terminal_cases)
  also have "\<dots> \<longleftrightarrow> \<not> run_has_work st run"
    by (auto simp: run_has_work_def associated_def run_leases_def list_ex_iff filter_empty_conv)
  finally show ?thesis .
qed

lemma summary_has_work_iff: "summary_has_work s \<longleftrightarrow> \<not> no_work s"
  by (auto simp: summary_has_work_def no_work_def)

lemma failed_summary: "0 < rs_failed_intent_count (run_summary_locked st run) \<longleftrightarrow> run_has_failed st run"
  by (auto simp: run_summary_locked_def Let_def run_has_failed_def associated_def list_ex_iff
      filter_empty_conv)

lemma rs_team_run_id_locked [simp]: "rs_team_run_id (run_summary_locked st run) = run"
  by (simp add: run_summary_locked_def Let_def)

lemma run_has_work_iff:
  assumes "state_inv g st"
  shows "run_has_work st run \<longleftrightarrow>
     (\<exists>x i. map_of (cs_intents st) x = Some i \<and> wi_team_run_id i = Some run \<and> \<not> is_terminal (wi_state i))
     \<or> (\<exists>k l. map_of (cs_enqueue_leases st) k = Some l \<and> el_team_run_id (lr_lease l) = Some run)"
proof -
  have "distinct (hm_keys (cs_intents st))" "distinct (hm_keys (cs_enqueue_leases st))"
    using assms by (simp_all add: state_inv_def)
  then show ?thesis
    unfolding run_has_work_def list_ex_iff by (metis hm_values_iff)
qed

lemma run_has_failed_iff:
  assumes "state_inv g st"
  shows "run_has_failed st run \<longleftrightarrow>
     (\<exists>x i. map_of (cs_intents st) x = Some i \<and> wi_team_run_id i = Some run \<and> is_failed (wi_state i))"
proof -
  have "distinct (hm_keys (cs_intents st))"
    using assms by (simp add: state_inv_def)
  then show ?thesis
    unfolding run_has_failed_def list_ex_iff by (metis hm_values_iff)
qed

section \<open>The interface\<close>

text \<open>
  What the coordinator relies on: \<open>status r x\<close> is the status of the run \<open>x\<close> when the port knows
  it. A summary moves the run it names, and only it, as \<open>next_status\<close> says; a binding creates at most
  the run with the new identifier \<open>run_id\<close>, as accepted, and returns an active run if it returns one;
  an aborted binding can only forget a run.
\<close>

locale run_causality =
  fixes P :: "'r run_causality_port" and run_id :: string and status :: "'r \<Rightarrow> string \<Rightarrow> team_run_status option"
  assumes apply_status: "status (apply_work_summary P s r) x
      = (if x = rs_team_run_id s then map_option (next_status s) (status r x) else status r x)"
    and bind_status: "bind_enqueue P req r = (b, r') \<Longrightarrow> status r' x = Some q
      \<Longrightarrow> status r x = Some q \<or> x = run_id \<and> q = RunAccepted"
    and bind_active: "bind_enqueue P req r = (b, r') \<Longrightarrow> rb_team_run_id b = Some x
      \<Longrightarrow> \<exists>q. status r' x = Some q \<and> status_is_active q"
    and abort_status: "status (abort_binding P b r) x = status r x \<or> status (abort_binding P b r) x = None"
begin

text \<open>
  What is reported of the runs that have ended is justified: \<open>failed x\<close> for a run reported as failed, \<open>idle x\<close>
  for one reported as completed or cancelled.
\<close>

definition justified :: "(string \<Rightarrow> bool) \<Rightarrow> (string \<Rightarrow> bool) \<Rightarrow> 'r \<Rightarrow> bool" where
  "justified failed idle r \<longleftrightarrow>
     (\<forall>x q. status r x = Some q \<longrightarrow> (q = RunFailed \<longrightarrow> failed x) \<and> (q = RunCompleted \<or> q = RunCancelled \<longrightarrow> idle x))"

lemma justified_mono:
  assumes "justified failed idle r" and "\<And>x. failed x \<Longrightarrow> failed' x" and "\<And>x. idle x \<Longrightarrow> idle' x"
  shows "justified failed' idle' r"
  using assms unfolding justified_def by blast

lemma justified_apply:
  assumes "justified failed idle r" and "0 < rs_failed_intent_count s \<Longrightarrow> failed (rs_team_run_id s)"
    and "no_work s \<Longrightarrow> status r (rs_team_run_id s) \<noteq> None \<Longrightarrow> idle (rs_team_run_id s)"
  shows "justified failed idle (apply_work_summary P s r)"
  unfolding justified_def
proof (intro allI impI)
  fix x q
  assume q: "status (apply_work_summary P s r) x = Some q"
  show "(q = RunFailed \<longrightarrow> failed x) \<and> (q = RunCompleted \<or> q = RunCancelled \<longrightarrow> idle x)"
  proof (cases "x = rs_team_run_id s")
    case True
    with q obtain p where p: "status r x = Some p" "q = next_status s p" by (auto simp: apply_status)
    then have "(p = RunFailed \<longrightarrow> failed x) \<and> (p = RunCompleted \<or> p = RunCancelled \<longrightarrow> idle x)"
      using assms(1) unfolding justified_def by blast
    with p assms(2,3) True show ?thesis by (auto simp: next_status_def split: if_splits)
  next
    case False
    with q assms(1) show ?thesis unfolding justified_def by (simp add: apply_status)
  qed
qed

lemma justified_bind:
  assumes "justified failed idle r" and "bind_enqueue P req r = (b, r')"
  shows "justified failed idle r'"
  using assms(1) bind_status [OF assms(2)] unfolding justified_def by fastforce

lemma justified_abort:
  assumes "justified failed idle r"
  shows "justified failed idle (abort_binding P b r)"
  using assms abort_status unfolding justified_def by (metis option.distinct(1))

text \<open>No run but the new one becomes known.\<close>

lemma unknown_stays:
  assumes "status r x = None"
  shows "status (apply_work_summary P s r) x = None" and "status (abort_binding P b r) x = None"
    and "bind_enqueue P req r = (b', r') \<Longrightarrow> x \<noteq> run_id \<Longrightarrow> status r' x = None"
proof -
  show "status (apply_work_summary P s r) x = None" using assms by (auto simp: apply_status)
  show "status (abort_binding P b r) x = None" using assms abort_status [of b r x] by auto
  show "status r' x = None" if "bind_enqueue P req r = (b', r')" "x \<noteq> run_id"
    using bind_status [OF that(1), of x] assms that(2) by (cases "status r' x") auto
qed

end

definition run_status :: "run_manager \<Rightarrow> string \<Rightarrow> team_run_status option" where
  "run_status m x =
     (case tm_state m of None \<Rightarrow> None
      | Some r \<Rightarrow> if tr_team_run_id r = x then Some (tr_status r) else None)"

lemma summarise_simps [simp]:
  "tr_status (summarise now s r) = next_status s (tr_status r)"
  "tr_team_run_id (summarise now s r) = tr_team_run_id r"
  by (simp_all add: summarise_def Let_def)

lemma run_status_apply:
  "run_status (apply_summary clock s m) x
     = (if x = rs_team_run_id s then map_option (next_status s) (run_status m x) else run_status m x)"
  by (auto simp: apply_summary_def run_status_def broadcast_team_run_def Let_def split: option.splits)

lemma run_status_bind_user:
  assumes "bind_user_enqueue run_id slot_id role m = (b, m')" and "run_status m' x = Some q"
  shows "run_status m x = Some q \<or> x = run_id \<and> q = RunAccepted"
proof (cases "active_run m")
  case None
  then have "m' = m\<lparr>tm_state := Some (new_run run_id slot_id role)\<rparr>"
    using assms(1) by (simp add: bind_user_enqueue_def)
  with assms(2) show ?thesis
    by (simp add: run_status_def new_run_def split: if_splits)
next
  case (Some r)
  then have "m' = m\<lparr>tm_state := Some (r\<lparr>tr_has_user_intervention := True\<rparr>)\<rparr>"
    using assms(1) by (simp add: bind_user_enqueue_def)
  moreover have "tm_state m = Some r"
    using Some by (auto simp: active_run_def bind_eq_Some_conv split: if_splits)
  ultimately show ?thesis
    using assms(2) by (auto simp: run_status_def split: if_splits)
qed

lemma run_bound_active:
  assumes "bind_user_enqueue run_id slot_id role m = (b, m')" and "rb_team_run_id b = Some x"
  shows "\<exists>q. run_status m' x = Some q \<and> status_is_active q"
proof (cases "active_run m")
  case None
  then show ?thesis
    using assms by (auto simp: bind_user_enqueue_def run_status_def new_run_def status_is_active_def)
next
  case (Some r)
  then have "is_active r" by (auto simp: active_run_def bind_eq_Some_conv split: if_splits)
  with Some show ?thesis
    using assms by (auto simp: bind_user_enqueue_def run_status_def is_active_def)
qed

lemma run_status_current:
  "current_active_run_id m = Some x \<Longrightarrow> \<exists>q. run_status m x = Some q \<and> status_is_active q"
  by (auto simp: current_active_run_id_def active_run_def run_status_def is_active_def
      bind_eq_Some_conv split: if_splits)

interpretation rc: run_causality "manager_port run_id clock" run_id run_status
proof unfold_locales
  fix r s q b x
  fix r' :: run_manager and req :: enqueue_request
  show "run_status (apply_work_summary (manager_port run_id clock) s r) x
      = (if x = rs_team_run_id s then map_option (next_status s) (run_status r x) else run_status r x)"
    by (simp add: manager_port_def run_status_apply)
  show "run_status r x = Some q \<or> x = run_id \<and> q = RunAccepted"
    if "bind_enqueue (manager_port run_id clock) req r = (b, r')" "run_status r' x = Some q"
    using that run_status_bind_user
    by (fastforce simp: manager_port_def manager_bind_enqueue_def split: causal_binding.splits)
  show "\<exists>q. run_status r' x = Some q \<and> status_is_active q"
    if "bind_enqueue (manager_port run_id clock) req r = (b, r')" "rb_team_run_id b = Some x"
    using that run_bound_active run_status_current
    by (fastforce simp: manager_port_def manager_bind_enqueue_def split: causal_binding.splits)
  show "run_status (abort_binding (manager_port run_id clock) b r) x = run_status r x
      \<or> run_status (abort_binding (manager_port run_id clock) b r) x = None"
    by (auto simp: manager_port_def manager_abort_binding_def run_status_def split: option.splits)
qed

lemma begin_cancel_status:
  assumes "begin_cancel clock run reason m = (res, m')" and "run_status m' x = Some q"
  shows "run_status m x = Some q \<or> q = RunCancelling"
proof (cases "tm_state m")
  case None
  with assms show ?thesis by (simp add: begin_cancel_def)
next
  case (Some r)
  show ?thesis
  proof (cases "tr_team_run_id r = run \<and> is_active r")
    case True
    then have "tm_state m' = Some (r\<lparr>tr_status := RunCancelling, tr_cancel_reason := reason\<rparr>)"
      using assms(1) Some by (auto simp: begin_cancel_def broadcast_team_run_def Let_def split: option.splits)
    with assms(2) show ?thesis by (simp add: run_status_def split: if_splits)
  next
    case False
    then have "m' = m" using assms(1) Some by (auto simp: begin_cancel_def)
    with assms(2) show ?thesis by simp
  qed
qed

end
