(* ===== verification/Work_Effects.thy ===== *)
theory Work_Effects
  imports Run_Causality
begin

text \<open>
  The effect of each operation on what the run manager is told: which intents and leases may appear, which
  batches may become active, which runs may have work or failed intents that did not have them, and what
  is published.
\<close>

section \<open>Operations that only settle work\<close>

text \<open>
  Most operations create no intent and no lease, never change the state of an intent that has
  ended, and activate no batch that was not active; what they publish are summaries of the state
  they leave.
\<close>

definition settles :: "coordinator_state \<Rightarrow> coordinator_state \<Rightarrow> bool" where
  "settles st st' \<longleftrightarrow>
     (\<exists>f. map_of (cs_intents st') = restate f (map_of (cs_intents st))
        \<and> (\<forall>x i. map_of (cs_intents st) x = Some i \<and> is_terminal (wi_state i) \<longrightarrow> f x i = wi_state i))
     \<and> (\<forall>k l. map_of (cs_enqueue_leases st') k = Some l \<longrightarrow> map_of (cs_enqueue_leases st) k = Some l)"

definition active_in :: "coordinator_state \<Rightarrow> work_batch \<Rightarrow> bool" where
  "active_in st b \<longleftrightarrow> (\<exists>sid s a. map_of (cs_slots st) sid = Some s \<and> ss_active s = Some a \<and> ab_batch a = b)"

definition tame :: "'r run_causality_port \<Rightarrow> 'r coordinator \<Rightarrow> 'r coordinator \<Rightarrow> bool" where
  "tame P c c' \<longleftrightarrow>
     co_session_generation c' = co_session_generation c \<and> published P c c'
     \<and> settles (co_state c) (co_state c')
     \<and> (\<forall>b. active_in (co_state c') b \<longrightarrow> active_in (co_state c) b)"

lemma settles_refl [simp]: "settles st st"
proof -
  have "map_of (cs_intents st) = restate (\<lambda>x i. wi_state i) (map_of (cs_intents st))"
    by (rule restate_id [symmetric]) simp
  then show ?thesis unfolding settles_def by blast
qed

lemma settles_slots: "settles st (st\<lparr>cs_slots := S\<rparr>)"
  using settles_refl [of st] unfolding settles_def by simp

lemma tame_refl [simp]: "tame P c c"
  by (simp add: tame_def)

lemma settlesI:
  assumes "map_of (cs_intents st') = restate f (map_of (cs_intents st))"
    and "\<And>x i. map_of (cs_intents st) x = Some i \<Longrightarrow> is_terminal (wi_state i) \<Longrightarrow> f x i = wi_state i"
    and "\<And>k l. map_of (cs_enqueue_leases st') k = Some l \<Longrightarrow> map_of (cs_enqueue_leases st) k = Some l"
  shows "settles st st'"
  using assms unfolding settles_def by blast

lemma settlesE:
  assumes "settles st st'" and "map_of (cs_intents st') x = Some j"
  obtains i where "map_of (cs_intents st) x = Some i" and "j = set_state (wi_state j) i"
    and "is_terminal (wi_state i) \<Longrightarrow> j = i"
  using assms unfolding settles_def by (auto simp: restate_Some)

lemma settles_dom: "settles st st' \<Longrightarrow> dom (map_of (cs_intents st')) = dom (map_of (cs_intents st))"
  unfolding settles_def by (auto simp: restate_def dom_def)

lemma settles_work:
  assumes "settles st st'" and "state_inv g st" and "state_inv g st'" and "run_has_work st' x"
  shows "run_has_work st x"
  using assms(4) unfolding run_has_work_iff [OF assms(2)] run_has_work_iff [OF assms(3)]
proof (elim disjE exE conjE)
  fix y i
  assume y: "map_of (cs_intents st') y = Some i" "wi_team_run_id i = Some x" "\<not> is_terminal (wi_state i)"
  from settlesE [OF assms(1) y(1)] obtain j where "map_of (cs_intents st) y = Some j"
    "i = set_state (wi_state i) j" "is_terminal (wi_state j) \<Longrightarrow> i = j" by metis
  moreover from this(2) have "wi_team_run_id j = wi_team_run_id i"
    by (metis work_intent.ext_inject work_intent.surjective work_intent.update_convs(10))
  ultimately show "(\<exists>x' i. map_of (cs_intents st) x' = Some i \<and> wi_team_run_id i = Some x \<and> \<not> is_terminal (wi_state i))
     \<or> (\<exists>k l. map_of (cs_enqueue_leases st) k = Some l \<and> el_team_run_id (lr_lease l) = Some x)"
    using y by metis
next
  fix k l
  assume "map_of (cs_enqueue_leases st') k = Some l" "el_team_run_id (lr_lease l) = Some x"
  with assms(1) show "(\<exists>x' i. map_of (cs_intents st) x' = Some i \<and> wi_team_run_id i = Some x \<and> \<not> is_terminal (wi_state i))
     \<or> (\<exists>k l. map_of (cs_enqueue_leases st) k = Some l \<and> el_team_run_id (lr_lease l) = Some x)"
    unfolding settles_def by blast
qed

lemma settles_failed:
  assumes "settles st st'" and "state_inv g st" and "state_inv g st'" and "run_has_failed st x"
  shows "run_has_failed st' x"
proof -
  from assms(4) obtain y i where y: "map_of (cs_intents st) y = Some i" "wi_team_run_id i = Some x"
    "is_failed (wi_state i)"
    unfolding run_has_failed_iff [OF assms(2)] by blast
  then have "is_terminal (wi_state i)" by (cases "wi_state i") simp_all
  with assms(1) y(1) have "map_of (cs_intents st') y = Some i"
    unfolding settles_def by (auto simp: restate_def)
  with y show ?thesis
    unfolding run_has_failed_iff [OF assms(3)] by blast
qed

lemma active_in_modify:
  assumes "active_in (st\<lparr>cs_intents := I, cs_slots := hm_modify sid h (cs_slots st)\<rparr>) b"
    and "\<And>s a. map_of (cs_slots st) sid = Some s \<Longrightarrow> ss_active (h s) = Some a
       \<Longrightarrow> \<exists>a'. ss_active s = Some a' \<and> ab_batch a' = ab_batch a"
  shows "active_in st b"
proof -
  from assms(1) obtain k s a where k: "map_of (hm_modify sid h (cs_slots st)) k = Some s"
    "ss_active s = Some a" "ab_batch a = b" by (auto simp: active_in_def)
  show ?thesis
  proof (cases "k = sid")
    case True
    with k obtain s0 where "map_of (cs_slots st) sid = Some s0" "s = h s0" by auto
    with assms(2) k show ?thesis unfolding active_in_def by metis
  next
    case False
    with k show ?thesis by (auto simp: active_in_def)
  qed
qed

lemma settles_batch:
  assumes inv: "coordinator_inv c" and "holds c b"
  shows "settles (co_state c) ((co_state c)\<lparr>cs_intents := hm_modify_all (wb_intent_ids b) (set_state t)
      (cs_intents (co_state c)), cs_slots := S\<rparr>)"
proof -
  from assms(2) obtain s a where sa: "map_of (cs_slots (co_state c)) (wb_slot_id b) = Some s"
    "ss_active s = Some a" "ab_batch a = b" by (rule holdsE)
  have "state_inv (co_session_generation c) (co_state c)"
    using inv by (simp add: coordinator_inv_def)
  note act = slot_inv_activeD [OF state_inv_slotD [OF this sa(1)] sa(2)]
  show ?thesis
  proof (rule settlesI)
    show "set_states (wb_intent_ids b) t x i = wi_state i"
      if "map_of (cs_intents (co_state c)) x = Some i" "is_terminal (wi_state i)" for x i
    proof (cases "x \<in> set (wb_intent_ids b)")
      case True
      with active_inv_intentD [OF act, of x] sa(3) that have "wi_state i = batch_state a" by auto
      then show ?thesis using that(2) in_flight_batch_state [of a] terminal_not_open by metis
    qed simp
  qed (simp_all add: map_of_modify_all_set_state)
qed

lemma mark_started_tame:
  assumes inv: "coordinator_inv c" and own: "is_current_batch c b \<Longrightarrow> holds c b"
    and run: "mark_started P now b tid c = (res, c')"
  shows "tame P c c'"
proof (cases "is_current_batch c b")
  case False
  then show ?thesis
    using run by (auto simp: mark_started_def split: if_splits)
next
  case True
  let ?h = "\<lambda>s. s\<lparr>ss_active := map_option (\<lambda>a. a\<lparr>ab_turn_id := Some tid, ab_started_at_ms := Some now\<rparr>) (ss_active s)\<rparr>"
  let ?st = "(co_state c)\<lparr>cs_intents := hm_modify_all (wb_intent_ids b)
        (set_state (WsRunning (wb_batch_id b) (wb_operation_id b) tid)) (cs_intents (co_state c)),
      cs_slots := hm_modify (wb_slot_id b) ?h (cs_slots (co_state c))\<rparr>"
  have c': "c' = commit_runs P ?st (wb_team_run_ids b) c"
    using run True by (auto simp: mark_started_def Let_def commit_runs_def)
  have "active_in (co_state c) b'" if "active_in ?st b'" for b'
    using that by (rule active_in_modify) auto
  then show ?thesis
    using settles_batch [OF inv own [OF True]] by (simp add: tame_def c')
qed

lemma retry_start_tame:
  assumes inv: "coordinator_inv c" and own: "is_current_batch c b \<Longrightarrow> holds c b"
    and run: "retry_start P b c = Ret (res, c')"
  shows "tame P c c'"
proof (cases "is_current_batch c b")
  case False
  then show ?thesis using run by (simp add: retry_start_def)
next
  case True
  let ?h = "\<lambda>s. queue_mut (wb_highest_priority b) (\<lambda>q. foldr (#) (wb_intent_ids b) q) (s\<lparr>ss_active := None\<rparr>)"
  let ?st = "(co_state c)\<lparr>cs_intents := hm_modify_all (wb_intent_ids b) (set_state WsQueued) (cs_intents (co_state c)),
      cs_slots := hm_modify (wb_slot_id b) ?h (cs_slots (co_state c))\<rparr>"
  have c': "c' = commit_runs P ?st (wb_team_run_ids b) c"
    using run True by (auto simp: retry_start_def Let_def commit_runs_def simp del: foldr_Cons_append)
  have "active_in (co_state c) b'" if "active_in ?st b'" for b'
    using that by (rule active_in_modify) auto
  then show ?thesis
    using settles_batch [OF inv own [OF True]] by (simp add: tame_def c' del: foldr_Cons_append)
qed

lemma terminalize_batch_tame:
  assumes inv: "coordinator_inv c" and own: "is_current_batch c b \<Longrightarrow> holds c b"
    and run: "terminalize_batch P b t c = Ret (res, c')"
  shows "tame P c c'"
proof (cases "is_current_batch c b")
  case False
  then show ?thesis using run by (simp add: terminalize_batch_def)
next
  case True
  let ?st = "(co_state c)\<lparr>cs_intents := hm_modify_all (wb_intent_ids b) (set_state t) (cs_intents (co_state c)),
      cs_slots := hm_modify (wb_slot_id b) (\<lambda>s. s\<lparr>ss_active := None\<rparr>) (cs_slots (co_state c))\<rparr>"
  have c': "c' = commit_runs P ?st (wb_team_run_ids b) c"
    using run True by (auto simp: terminalize_batch_def Let_def commit_runs_def)
  have "active_in (co_state c) b'" if "active_in ?st b'" for b'
    using that by (rule active_in_modify) auto
  then show ?thesis
    using settles_batch [OF inv own [OF True]] by (simp add: tame_def c')
qed

lemma complete_signals_tame:
  assumes inv: "coordinator_inv c" and run: "complete_signals P sid ids c = (res, c')"
  shows "tame P c c'"
  using run
proof (cases rule: complete_signals_cases)
  case 1
  then show ?thesis by simp
next
  case (2 runs)
  let ?st = "(co_state c)\<lparr>cs_intents := hm_modify_all ids (set_state WsCompleted) (cs_intents (co_state c)),
          cs_slots := hm_modify sid (fold remove_queued ids) (cs_slots (co_state c))\<rparr>"
  have "settles (co_state c) ?st"
  proof (rule settlesI)
    show "map_of (cs_intents ?st) = restate (set_states ids WsCompleted) (map_of (cs_intents (co_state c)))"
      by (simp add: map_of_modify_all_set_state)
    show "set_states ids WsCompleted x i = wi_state i"
      if "map_of (cs_intents (co_state c)) x = Some i" "is_terminal (wi_state i)" for x i
      using 2(2) [of x] that by auto
  qed simp
  moreover have "active_in (co_state c) b'" if "active_in ?st b'" for b'
    using that by (rule active_in_modify) auto
  ultimately show ?thesis by (simp add: tame_def 2)
qed

lemma pause_slot_tame:
  assumes inv: "coordinator_inv c" and run: "pause_slot sid c = Ret (res, c')"
  shows "tame P c c'"
proof -
  have so: "bt_sorted (cs_slots (co_state c))"
    using inv by (simp add: coordinator_inv_def state_inv_def)
  let ?st = "(co_state c)\<lparr>cs_slots := entry_update sid (slot_new RoleTeammate)
            (\<lambda>s. s\<lparr>ss_paused := True\<rparr>) (cs_slots (co_state c))\<rparr>"
  have "active_in (co_state c) b" if "active_in ?st b" for b
    using that so by (auto simp: active_in_def map_of_entry_update slot_new_def split: if_splits option.splits)
  moreover have "settles (co_state c) ?st"
    by (rule settles_slots)
  ultimately show ?thesis
    by (simp add: pause_slot_cases [OF run] tame_def published_def exI [of _ "[]"] publish_run_summaries_def)
qed

lemma cancel_run_tame:
  assumes inv: "coordinator_inv c" and run: "cancel_run P x c = Ret (res, c')"
  shows "tame P c c'"
proof -
  note R = cancel_run_Ret [OF inv run]
  have "settles (co_state c) (co_state c')"
    by (rule settlesI [OF R [THEN conjunct2, THEN conjunct1]]) (use R in \<open>auto simp: run_cancelled_def\<close>)
  moreover have "active_in (co_state c) b" if b: "active_in (co_state c') b" for b
  proof -
    from b obtain sid s a where s: "map_of (cs_slots (co_state c')) sid = Some s" "ss_active s = Some a"
      "ab_batch a = b" by (auto simp: active_in_def)
    from R have "map_of (cs_slots (co_state c')) sid = Some s \<and> ss_active s \<noteq> None
        \<longrightarrow> map_option ss_active (map_of (cs_slots (co_state c)) sid) = Some (ss_active s)"
      by blast
    with s have "map_option ss_active (map_of (cs_slots (co_state c)) sid) = Some (ss_active s)"
      by simp
    with s show ?thesis by (auto simp: active_in_def)
  qed
  ultimately show ?thesis using R by (simp add: tame_def)
qed

lemma set_runtime_constraint_tame:
  assumes inv: "coordinator_inv c" and run: "set_runtime_constraint P sid k c = Ret (res, c')"
  shows "tame P c c'"
proof -
  note R = set_runtime_constraint_Ret [OF inv run]
  have "settles (co_state c) (co_state c')"
    by (rule settlesI [OF R [THEN conjunct2, THEN conjunct1]])
      (use R in \<open>auto simp: constrained_def split: option.splits\<close>)
  moreover have "active_in (co_state c) b" if b: "active_in (co_state c') b" for b
  proof -
    from b obtain sid' s a where s: "map_of (cs_slots (co_state c')) sid' = Some s" "ss_active s = Some a"
      "ab_batch a = b" by (auto simp: active_in_def)
    show ?thesis
    proof (cases "sid' = sid")
      case True
      with R s have "map_option ss_active (map_of (cs_slots (co_state c)) sid) = Some (ss_active s)"
        by auto
      with s show ?thesis by (auto simp: active_in_def)
    next
      case False
      with R s have "map_of (cs_slots (co_state c)) sid' = Some s" by auto
      with s show ?thesis by (auto simp: active_in_def)
    qed
  qed
  ultimately show ?thesis using R by (simp add: tame_def)
qed

lemma remove_slot_tame:
  assumes inv: "coordinator_inv c" and run: "remove_slot P sid c = Ret (res, c')"
  shows "tame P c c'"
proof -
  note R = remove_slot_Ret [OF inv run]
  have "settles (co_state c) (co_state c')"
    by (rule settlesI [OF R [THEN conjunct2, THEN conjunct1]])
      (use R in \<open>auto simp: slot_removed_def\<close>)
  moreover have "active_in (co_state c) b" if b: "active_in (co_state c') b" for b
    using b R by (auto simp: active_in_def split: if_splits)
  ultimately show ?thesis using R by (simp add: tame_def)
qed

lemma stop_tame:
  assumes inv: "coordinator_inv c" and run: "stop P c = (sums, c')"
  shows "tame P c c'"
proof -
  note R = stop_Ret [OF inv run]
  have "settles (co_state c) (co_state c')"
    by (rule settlesI [OF R [THEN conjunct2, THEN conjunct1]])
      (use R in \<open>auto simp: session_stopped_def\<close>)
  moreover have "\<not> active_in (co_state c') b" for b
    using R by (auto simp: active_in_def)
  ultimately show ?thesis using R by (simp add: tame_def)
qed

section \<open>Operations that create work\<close>

lemma next_work_effect:
  assumes inv: "coordinator_inv c" and run: "next_work P bid sid c = Ret (d, c')"
  shows "settles (co_state c) (co_state c') \<and> published P c c'
    \<and> co_session_generation c' = co_session_generation c
    \<and> (\<forall>b. active_in (co_state c') b \<longrightarrow> active_in (co_state c) b \<or> d = Claim b)
    \<and> (\<forall>b. d = Claim b \<longrightarrow> wb_batch_id b = bid \<and> wb_session_generation b = co_session_generation c
          \<and> wb_slot_id b = sid \<and> holds c' b)"
  using run
proof (cases rule: next_work_cases)
  case 1
  then show ?thesis by simp
next
  case (2 slot prio ids)
  have st: "state_inv (co_session_generation c) (co_state c)"
    using inv by (simp add: coordinator_inv_def)
  note old = state_inv_slotD [OF st 2(1)]
  from 2(8) obtain intents msgs runs b pub where
    cl: "claim_intents bid (saturating_add_one (cs_next_operation_id (co_state c))) ids
       (cs_intents (co_state c)) [] [] = Ret (intents, msgs, runs)"
    and b: "b = claimed_batch bid (co_session_generation c) sid prio ids msgs runs
          (saturating_add_one (cs_next_operation_id (co_state c)))"
    and d: "d = Claim b"
    and c': "c' = commit_runs P ((co_state c)\<lparr>
            cs_next_operation_id := wb_operation_id b, cs_intents := intents,
            cs_slots := hm_modify sid (claimed_slot b) (cs_slots (co_state c))\<rparr>) pub c"
    by (elim claim_batch_cases) blast
  have I: "map_of intents = restate (set_states ids (WsStarting bid
      (saturating_add_one (cs_next_operation_id (co_state c))))) (map_of (cs_intents (co_state c)))"
    using claim_intents_Ret [OF cl] by (simp only: map_of_modify_all_set_state)
  have s: "settles (co_state c) (co_state c')"
  proof (rule settlesI)
    show "map_of (cs_intents (co_state c')) = restate (set_states ids (WsStarting bid
      (saturating_add_one (cs_next_operation_id (co_state c))))) (map_of (cs_intents (co_state c)))"
      by (simp add: c' I)
    show "set_states ids (WsStarting bid (saturating_add_one (cs_next_operation_id (co_state c)))) x i = wi_state i"
      if "map_of (cs_intents (co_state c)) x = Some i" "is_terminal (wi_state i)" for x i
    proof -
      have "x \<notin> set ids"
      proof
        assume "x \<in> set ids"
        then have "x \<in> set (queue prio slot)" by (simp add: 2(6))
        from slot_inv_queueD [OF old this] that show False by auto
      qed
      then show ?thesis by simp
    qed
  qed (simp add: c')
  have slots: "map_of (cs_slots (co_state c')) = (map_of (cs_slots (co_state c)))(sid \<mapsto> claimed_slot b slot)"
    using map_of_modify_upd [OF 2(1)] by (simp add: c')
  have act: "active_in (co_state c) b' \<or> d = Claim b'" if "active_in (co_state c') b'" for b'
    using that by (auto simp: active_in_def slots claimed_slot_def d split: if_splits)
  have "holds c' b"
    by (simp add: holds_def slots b claimed_batch_def claimed_slot_def)
  with s act show ?thesis
    by (simp add: c' d) (simp add: b claimed_batch_def)
qed

lemma acquire_enqueue_run:
  assumes "resolve_binding P req slots r = (b, r')"
  obtains "r' = r" and "rb_team_run_id b = None"
  | caller where "r' = r" and "er_binding req = InheritRunningBatch caller"
    and "rb_team_run_id b = Option.bind (Option.bind (map_of slots caller) ss_active)
                (\<lambda>a. first_run_id (wb_team_run_ids (ab_batch a)))"
  | "bind_enqueue P req r = (b, r')"
  using assms by (auto simp: resolve_binding_def split: causal_binding.splits)

lemma first_run_has_work:
  assumes inv: "state_inv g st"
    and x: "Option.bind (Option.bind (map_of (cs_slots st) caller) ss_active)
                (\<lambda>a. first_run_id (wb_team_run_ids (ab_batch a))) = Some x"
  shows "run_has_work st x"
proof -
  from x obtain s a where sa: "map_of (cs_slots st) caller = Some s" "ss_active s = Some a"
    "first_run_id (wb_team_run_ids (ab_batch a)) = Some x" by (auto simp: bind_eq_Some_conv)
  then have "x \<in> set (wb_team_run_ids (ab_batch a))"
    by (auto simp: first_run_id_def split: list.splits)
  note act = slot_inv_activeD [OF state_inv_slotD [OF inv sa(1)] sa(2)]
  with active_inv_runs [OF act] \<open>x \<in> _\<close> obtain y i where
    y: "y \<in> set (wb_intent_ids (ab_batch a))" "map_of (cs_intents st) y = Some i" "wi_team_run_id i = Some x"
    by auto
  with active_inv_intentD [OF act y(1)] have "in_flight (wi_state i)" by auto
  then have "\<not> is_terminal (wi_state i)" by (auto simp: open_iff)
  with y show ?thesis unfolding run_has_work_iff [OF inv] by blast
qed

lemma touched_simps [simp]:
  "cs_intents (touched req st) = cs_intents st"
  "cs_enqueue_leases (touched req st) = cs_enqueue_leases st"
  by (simp_all add: touched_def)

lemma active_in_touched:
  assumes "state_inv g st" and "active_in (touched req st) b"
  shows "active_in st b"
  using assms by (auto simp: active_in_def touched_def map_of_entry_update slot_new_def state_inv_def
      split: if_splits option.splits)

lemma first_run_touched:
  assumes "state_inv g st"
  shows "Option.bind (map_of (cs_slots (touched req st)) k) ss_active
    = Option.bind (map_of (cs_slots st) k) ss_active"
  using assms by (auto simp: touched_def map_of_entry_update slot_new_def state_inv_def split: option.splits)

lemma run_has_work_frame:
  "cs_intents st' = cs_intents st \<Longrightarrow> cs_enqueue_leases st' = cs_enqueue_leases st
    \<Longrightarrow> run_has_work st' x = run_has_work st x"
  by (simp add: run_has_work_def)

lemma run_has_failed_frame: "cs_intents st' = cs_intents st \<Longrightarrow> run_has_failed st' x = run_has_failed st x"
  by (simp add: run_has_failed_def)

lemma commit_enqueue_work:
  assumes inv: "coordinator_inv c" and fresh: "map_of (cs_intents (co_state c)) x = None"
    and run: "commit_enqueue P x now lease msg c = Ret (res, c')"
  shows "run_has_work (co_state c') y \<longrightarrow> run_has_work (co_state c) y"
    and "run_has_failed (co_state c) y \<longrightarrow> run_has_failed (co_state c') y"
proof -
  have st: "state_inv (co_session_generation c) (co_state c)"
    using inv by (simp add: coordinator_inv_def)
  have st': "state_inv (co_session_generation c') (co_state c')"
    using commit_enqueue_inv [OF inv fresh run] by (simp add: coordinator_inv_def)
  from run have "(run_has_work (co_state c') y \<longrightarrow> run_has_work (co_state c) y)
    \<and> (run_has_failed (co_state c) y \<longrightarrow> run_has_failed (co_state c') y)"
  proof (cases rule: commit_enqueue_cases)
    case (2 slot lrec ec runs)
    let ?i = "enqueued_intent (co_session_generation c) x now lease msg"
    have I: "map_of (cs_intents (co_state c')) = (map_of (cs_intents (co_state c)))(x \<mapsto> ?i)"
      and L: "map_of (cs_enqueue_leases (co_state c'))
        = (map_of (cs_enqueue_leases (co_state c)))(el_lease_id lease := None)"
      by (simp_all add: 2)
    have i: "wi_team_run_id ?i = el_team_run_id lease" by (simp add: enqueued_intent_def)
    have "run_has_work (co_state c) y" if "run_has_work (co_state c') y"
      using that unfolding run_has_work_iff [OF st] run_has_work_iff [OF st'] I L
      using i 2(3,4) by (auto split: if_splits)
    moreover have "run_has_failed (co_state c') y" if "run_has_failed (co_state c) y"
    proof -
      from that obtain z j where z: "map_of (cs_intents (co_state c)) z = Some j"
        "wi_team_run_id j = Some y" "is_failed (wi_state j)"
        unfolding run_has_failed_iff [OF st] by blast
      with fresh have "((map_of (cs_intents (co_state c)))(x \<mapsto> ?i)) z = Some j" by auto
      with z show ?thesis unfolding run_has_failed_iff [OF st'] I by blast
    qed
    ultimately show ?thesis by blast
  qed simp
  then show "run_has_work (co_state c') y \<longrightarrow> run_has_work (co_state c) y"
    "run_has_failed (co_state c) y \<longrightarrow> run_has_failed (co_state c') y" by blast+
qed

lemma abort_enqueue_cases:
  assumes "abort_enqueue P lease c = (res, c')"
  obtains "res = StaleOwner" and "c' = c"
  | lrec where "res = StaleOwner"
    and "map_of (cs_enqueue_leases (co_state c)) (el_lease_id lease) = Some lrec"
    and "c' = c\<lparr>co_state := (co_state c)\<lparr>cs_enqueue_leases :=
                 hm_insert (el_lease_id (lr_lease lrec)) lrec
                   (hm_remove (el_lease_id lease) (cs_enqueue_leases (co_state c)))\<rparr>\<rparr>"
  | lrec r runs where "res = Committed"
    and "map_of (cs_enqueue_leases (co_state c)) (el_lease_id lease) = Some lrec" and "lr_lease lrec = lease"
    and "r = co_run_causality c \<or> r = abort_binding P (lr_binding lrec) (co_run_causality c)"
    and "c' = commit_runs P ((co_state c)\<lparr>cs_enqueue_leases :=
                hm_remove (el_lease_id lease) (cs_enqueue_leases (co_state c))\<rparr>) runs
              (c\<lparr>co_run_causality := r\<rparr>)"
proof (cases "map_of (cs_enqueue_leases (co_state c)) (el_lease_id lease)")
  case None
  with assms that(1) show ?thesis by (simp add: abort_enqueue_def)
next
  case (Some lrec)
  show ?thesis
  proof (cases "lr_lease lrec \<noteq> lease \<or> el_session_generation lease \<noteq> co_session_generation c")
    case True
    with Some assms that(2) show ?thesis by (auto simp: abort_enqueue_def Let_def)
  next
    case False
    define st1 where "st1 = (co_state c)\<lparr>cs_enqueue_leases :=
                hm_remove (el_lease_id lease) (cs_enqueue_leases (co_state c))\<rparr>"
    define empty where "empty = (case el_team_run_id lease of None \<Rightarrow> False
                   | Some run \<Rightarrow> associated st1 run = [] \<and> run_leases st1 run = [])"
    from Some assms False have "res = Committed"
      "c' = commit_runs P st1 (case el_team_run_id lease of None \<Rightarrow> [] | Some r \<Rightarrow> [r])
         (c\<lparr>co_run_causality := (if empty then abort_binding P (lr_binding lrec) (co_run_causality c)
            else co_run_causality c)\<rparr>)"
      by (simp_all only: abort_enqueue_def Let_def st1_def [symmetric] empty_def [symmetric]
          commit_runs_def option.case if_False prod.inject)
    with Some False show ?thesis
      by (intro that(3) [of lrec]) (auto simp: st1_def)
  qed
qed

text \<open>The intents a reconciliation creates belong to no run.\<close>

lemma create_recovery_intents:
  assumes "create_recovery g sid role gen clock k msgs st = Ret (st', created)"
    and "inj gen" and "\<And>j. k \<le> j \<Longrightarrow> map_of (cs_intents st) (gen j) = None"
  shows "(\<forall>x i. map_of (cs_intents st) x = Some i \<longrightarrow> map_of (cs_intents st') x = Some i)
    \<and> (\<forall>x i. map_of (cs_intents st') x = Some i \<longrightarrow> map_of (cs_intents st) x = Some i
          \<or> x \<in> set created \<and> wi_team_run_id i = None \<and> wi_state i = WsQueued \<and> wi_slot_id i = sid
             \<and> wi_mailbox_message_id i \<in> Some ` set msgs)
    \<and> set created \<subseteq> gen ` {k..} \<and> cs_enqueue_leases st' = cs_enqueue_leases st
    \<and> (\<forall>k. map_option ss_active (map_of (cs_slots st') k) = map_option ss_active (map_of (cs_slots st) k))"
  using assms
proof (induction msgs arbitrary: k st created)
  case (Cons msg msgs)
  show ?case
  proof (cases "already_owned sid msg (cs_intents st)")
    case True
    with Cons.prems(1) have run: "create_recovery g sid role gen clock k msgs st = Ret (st', created)"
      by simp
    note IH = Cons.IH [OF run Cons.prems(2,3)]
    have "map_of (cs_intents st) x = Some i \<or> x \<in> set created \<and> wi_team_run_id i = None
        \<and> wi_state i = WsQueued \<and> wi_slot_id i = sid \<and> wi_mailbox_message_id i \<in> Some ` set (msg # msgs)"
      if "map_of (cs_intents st') x = Some i" for x i
    proof -
      from IH that have "map_of (cs_intents st) x = Some i \<or> x \<in> set created \<and> wi_team_run_id i = None
        \<and> wi_state i = WsQueued \<and> wi_slot_id i = sid \<and> wi_mailbox_message_id i \<in> Some ` set msgs" by blast
      then show ?thesis by auto
    qed
    with IH show ?thesis by blast
  next
    case False
    with Cons.prems(1) obtain s where s: "map_of (cs_slots st) sid = Some s"
      by (auto split: option.splits)
    let ?i = "recovery_intent g sid role (gen k) (clock k) msg"
    let ?st = "st\<lparr>cs_intents := hm_insert (gen k) ?i (cs_intents st),
                 cs_slots := hm_modify sid (queue_mut Background (push_back (gen k))) (cs_slots st)\<rparr>"
    from Cons.prems(1) False s obtain created' where
      run: "create_recovery g sid role gen clock (Suc k) msgs ?st = Ret (st', created')"
      and created: "created = gen k # created'"
      by (auto simp del: queue_mut.simps)
    have fresh: "map_of (cs_intents ?st) (gen j) = None" if "Suc k \<le> j" for j
      using Cons.prems(3) [of j] that injD [OF Cons.prems(2), of j k] by (auto simp del: map_of_eq_None_iff)
    note IH = Cons.IH [OF run Cons.prems(2) fresh]
    have new: "map_of (cs_intents ?st) = (map_of (cs_intents st))(gen k \<mapsto> ?i)" by simp
    have k: "map_of (cs_intents st) (gen k) = None" using Cons.prems(3) by blast
    have "set created' \<subseteq> gen ` {Suc k..}" using IH by blast
    then have "set created \<subseteq> gen ` {k..}" by (force simp: created)
    moreover have "\<forall>x i. map_of (cs_intents st) x = Some i \<longrightarrow> map_of (cs_intents st') x = Some i"
    proof (intro allI impI)
      fix x i
      assume x: "map_of (cs_intents st) x = Some i"
      with k have "map_of (cs_intents ?st) x = Some i" unfolding new by auto
      with IH show "map_of (cs_intents st') x = Some i" by blast
    qed
    moreover have "\<forall>x i. map_of (cs_intents st') x = Some i \<longrightarrow> map_of (cs_intents st) x = Some i
          \<or> x \<in> set created \<and> wi_team_run_id i = None \<and> wi_state i = WsQueued \<and> wi_slot_id i = sid
             \<and> wi_mailbox_message_id i \<in> Some ` set (msg # msgs)"
    proof (intro allI impI)
      fix x i
      assume "map_of (cs_intents st') x = Some i"
      with IH have "map_of (cs_intents ?st) x = Some i
          \<or> x \<in> set created' \<and> wi_team_run_id i = None \<and> wi_state i = WsQueued \<and> wi_slot_id i = sid
             \<and> wi_mailbox_message_id i \<in> Some ` set msgs" by blast
      then show "map_of (cs_intents st) x = Some i
          \<or> x \<in> set created \<and> wi_team_run_id i = None \<and> wi_state i = WsQueued \<and> wi_slot_id i = sid
             \<and> wi_mailbox_message_id i \<in> Some ` set (msg # msgs)"
        unfolding new by (auto simp: created recovery_intent_def split: if_splits)
    qed
    moreover have "map_option ss_active (map_of (cs_slots ?st) k') = map_option ss_active (map_of (cs_slots st) k')" for k'
      by (cases "map_of (cs_slots st) k'") auto
    ultimately show ?thesis using IH by simp
  qed
qed simp

lemma reconcile_mailbox_effect:
  assumes inv: "coordinator_inv c" and gen: "inj gen" "\<And>j. map_of (cs_intents (co_state c)) (gen j) = None"
    and run: "reconcile_mailbox gen clock sid unread role c = Ret (res, c')"
  shows "co_session_generation c' = co_session_generation c \<and> co_run_causality c' = co_run_causality c
    \<and> dom (map_of (cs_intents (co_state c')))
        \<subseteq> dom (map_of (cs_intents (co_state c))) \<union> set (rp_created_recovery_intent_ids res)
    \<and> (run_has_work (co_state c') x \<longrightarrow> run_has_work (co_state c) x)
    \<and> (run_has_failed (co_state c) x \<longrightarrow> run_has_failed (co_state c') x)
    \<and> (\<forall>b. active_in (co_state c') b \<longrightarrow> active_in (co_state c) b)"
  using run
proof (cases rule: reconcile_mailbox_cases)
  case (1 slots stale st1 st2)
  have st: "state_inv (co_session_generation c) (co_state c)"
    using inv by (simp add: coordinator_inv_def)
  have st': "state_inv (co_session_generation c) st2"
    using reconcile_mailbox_inv [OF inv gen run] by (simp add: coordinator_inv_def 1(6))
  have so: "bt_sorted (cs_slots (co_state c))" using st by (simp add: state_inv_def)
  let ?I = "map_of (cs_intents (co_state c))"
  have I1: "map_of (cs_intents st1) = restate (set_states stale WsCompleted) ?I"
    by (simp add: 1(3) map_of_modify_all_set_state)
  have fresh: "map_of (cs_intents st1) (gen j) = None" for j
    using gen(2) [of j] by (simp add: I1 restate_def del: map_of_eq_None_iff)
  note C = create_recovery_intents [OF 1(4) gen(1) fresh]
  have L: "cs_enqueue_leases st2 = cs_enqueue_leases (co_state c)"
    using C by (simp add: 1(3))
  have queued: "wi_state i = WsQueued" if x: "x \<in> set stale" "?I x = Some i" for x i
  proof -
    from x(1) obtain t where t: "map_of slots sid = Some t" "x \<in> set (queued_ids t)"
      by (cases "map_of slots sid") (auto simp: 1(2))
    then obtain p where p: "x \<in> set (queue p t)" using set_queued_ids by blast
    have "state_inv (co_session_generation c) ((co_state c)\<lparr>cs_slots := slots\<rparr>)"
      unfolding 1(1) by (intro state_inv_entry [OF st]) simp_all
    from state_inv_slotD [OF this, of sid t] t(1) slot_inv_queueD p have
      "\<exists>i. slot_intents ?I sid x = Some i \<and> wi_state i = WsQueued" by fastforce
    with x(2) show ?thesis by auto
  qed
  have old: "\<exists>j. ?I y = Some j \<and> wi_team_run_id j = wi_team_run_id i \<and> \<not> is_terminal (wi_state j)"
    if "map_of (cs_intents st2) y = Some i" "wi_team_run_id i = Some x" "\<not> is_terminal (wi_state i)" for y i
  proof -
    from C that have "map_of (cs_intents st1) y = Some i" by fastforce
    then obtain j where j: "?I y = Some j" "i = set_state (set_states stale WsCompleted y j) j"
      unfolding I1 restate_Some by blast
    with that(3) have "y \<notin> set stale" by auto
    with j that(3) show ?thesis by simp
  qed
  have work: "run_has_work (co_state c) x" if "run_has_work st2 x"
    using that old unfolding run_has_work_iff [OF st] run_has_work_iff [OF st'] L by metis
  have failed: "run_has_failed st2 x" if "run_has_failed (co_state c) x"
  proof -
    from that obtain y j where y: "?I y = Some j" "wi_team_run_id j = Some x" "is_failed (wi_state j)"
      unfolding run_has_failed_iff [OF st] by blast
    then have "y \<notin> set stale" using queued [of y j] by auto
    with y(1) have "map_of (cs_intents st1) y = Some j" by (auto simp: I1 restate_def)
    with C have "map_of (cs_intents st2) y = Some j" by blast
    with y show ?thesis unfolding run_has_failed_iff [OF st'] by blast
  qed
  have dom: "dom (map_of (cs_intents st2)) \<subseteq> dom ?I \<union> set (rp_created_recovery_intent_ids res)"
  proof
    fix y assume "y \<in> dom (map_of (cs_intents st2))"
    then obtain i where "map_of (cs_intents st2) y = Some i" by blast
    with C have "map_of (cs_intents st1) y = Some i \<or> y \<in> set (rp_created_recovery_intent_ids res)" by blast
    then show "y \<in> dom ?I \<union> set (rp_created_recovery_intent_ids res)"
      by (auto simp: I1 restate_Some)
  qed
  have act: "active_in (co_state c) b" if b: "active_in st2 b" for b
  proof -
    from b obtain k s a where k: "map_of (cs_slots st2) k = Some s" "ss_active s = Some a" "ab_batch a = b"
      by (auto simp: active_in_def)
    with C have "map_option ss_active (map_of (cs_slots st1) k) = Some (Some a)" by (metis option.map(2))
    then have "map_option ss_active (map_of slots k) = Some (Some a)"
      by (auto simp: 1(3) split: if_splits)
    then have "map_option ss_active (map_of (cs_slots (co_state c)) k) = Some (Some a)"
      using so by (auto simp: 1(1) map_of_entry_update slot_new_def split: if_splits option.splits)
    with k(3) show ?thesis by (auto simp: active_in_def)
  qed
  show ?thesis
    using work failed dom act by (simp add: 1(6))
qed

end
