(* ===== verification/Work_System.thy ===== *)
theory Work_System
  imports Work_Effects
begin

text \<open>
  The coordinator of a team and the port to its run manager as one transition system. A step is a
  call of a coordinator operation with any arguments and any port (\<open>coordinator_call\<close>), or a change
  of what is behind the port (\<open>port_moved\<close>): the run manager has a lock of its own, so \<open>begin_cancel\<close>
  and summaries that arrive late move it between the calls, in any order. What holds in the reachable
  states of this system holds whenever summaries arrive; \<open>Run_Publication\<close> follows the summaries on
  their way to the run manager.
  Two ghost components record the environment: \<open>sy_issued\<close> the batches that claims have handed
  out (an owner can only call back with one of these), \<open>sy_used\<close> the identifiers that
  \<open>generate_id()\<close> has returned (it returns a new one each time). The rule \<open>rehash\<close> permutes the
  hash maps: their iteration order is not specified.
\<close>

section \<open>Steps\<close>

record 'r system =
  sy_coordinator :: "'r coordinator"
  sy_issued :: "work_batch set"
  sy_used :: "string set"

fun claimed :: "reconcile_decision \<Rightarrow> work_batch set" where
  "claimed (Claim b) = {b}"
| "claimed _ = {}"

definition rehashed :: "coordinator_state \<Rightarrow> coordinator_state \<Rightarrow> bool" where
  "rehashed st st' \<longleftrightarrow>
     mset (cs_intents st') = mset (cs_intents st)
     \<and> mset (cs_enqueue_leases st') = mset (cs_enqueue_leases st)
     \<and> cs_slots st' = cs_slots st \<and> cs_next_operation_id st' = cs_next_operation_id st"

inductive coordinator_call :: "'r run_causality_port \<Rightarrow> 'r system \<Rightarrow> 'r system \<Rightarrow> bool" for P where
  acquire:
    "lid \<notin> U \<Longrightarrow> acquire_enqueue P lid req c = (res, c')
     \<Longrightarrow> coordinator_call P \<lparr>sy_coordinator = c, sy_issued = B, sy_used = U\<rparr>
              \<lparr>sy_coordinator = c', sy_issued = B, sy_used = insert lid U\<rparr>"
| commit:
    "x \<notin> U \<Longrightarrow> commit_enqueue P x now lease msg c = Ret (res, c')
     \<Longrightarrow> coordinator_call P \<lparr>sy_coordinator = c, sy_issued = B, sy_used = U\<rparr>
              \<lparr>sy_coordinator = c', sy_issued = B, sy_used = insert x U\<rparr>"
| abort:
    "abort_enqueue P lease c = (res, c')
     \<Longrightarrow> coordinator_call P \<lparr>sy_coordinator = c, sy_issued = B, sy_used = U\<rparr>
              \<lparr>sy_coordinator = c', sy_issued = B, sy_used = U\<rparr>"
| reconcile:
    "inj gen \<Longrightarrow> (\<And>j. gen j \<notin> U)
     \<Longrightarrow> reconcile_mailbox gen times_ms sid unread role c = Ret (proj, c')
     \<Longrightarrow> coordinator_call P \<lparr>sy_coordinator = c, sy_issued = B, sy_used = U\<rparr>
              \<lparr>sy_coordinator = c', sy_issued = B, sy_used = U \<union> set (rp_created_recovery_intent_ids proj)\<rparr>"
| claim:
    "bid \<notin> U \<Longrightarrow> next_work P bid sid c = Ret (d, c')
     \<Longrightarrow> coordinator_call P \<lparr>sy_coordinator = c, sy_issued = B, sy_used = U\<rparr>
              \<lparr>sy_coordinator = c', sy_issued = B \<union> claimed d, sy_used = insert bid U\<rparr>"
| started:
    "b \<in> B \<Longrightarrow> mark_started P now b tid c = (sres, c')
     \<Longrightarrow> coordinator_call P \<lparr>sy_coordinator = c, sy_issued = B, sy_used = U\<rparr>
              \<lparr>sy_coordinator = c', sy_issued = B, sy_used = U\<rparr>"
| retried:
    "b \<in> B \<Longrightarrow> retry_start P b c = Ret (cres, c')
     \<Longrightarrow> coordinator_call P \<lparr>sy_coordinator = c, sy_issued = B, sy_used = U\<rparr>
              \<lparr>sy_coordinator = c', sy_issued = B, sy_used = U\<rparr>"
| completed:
    "b \<in> B \<Longrightarrow> complete_batch P b c = Ret (cres, c')
     \<Longrightarrow> coordinator_call P \<lparr>sy_coordinator = c, sy_issued = B, sy_used = U\<rparr>
              \<lparr>sy_coordinator = c', sy_issued = B, sy_used = U\<rparr>"
| failed:
    "b \<in> B \<Longrightarrow> fail_batch P b cls c = Ret (cres, c')
     \<Longrightarrow> coordinator_call P \<lparr>sy_coordinator = c, sy_issued = B, sy_used = U\<rparr>
              \<lparr>sy_coordinator = c', sy_issued = B, sy_used = U\<rparr>"
| cancelled:
    "b \<in> B \<Longrightarrow> cancel_batch P b cls c = Ret (cres, c')
     \<Longrightarrow> coordinator_call P \<lparr>sy_coordinator = c, sy_issued = B, sy_used = U\<rparr>
              \<lparr>sy_coordinator = c', sy_issued = B, sy_used = U\<rparr>"
| signals:
    "complete_signals P sid ids c = (cres, c')
     \<Longrightarrow> coordinator_call P \<lparr>sy_coordinator = c, sy_issued = B, sy_used = U\<rparr>
              \<lparr>sy_coordinator = c', sy_issued = B, sy_used = U\<rparr>"
| run_cancelled:
    "cancel_run P run c = Ret (rres, c')
     \<Longrightarrow> coordinator_call P \<lparr>sy_coordinator = c, sy_issued = B, sy_used = U\<rparr>
              \<lparr>sy_coordinator = c', sy_issued = B, sy_used = U\<rparr>"
| paused:
    "pause_slot sid c = Ret (pres, c')
     \<Longrightarrow> coordinator_call P \<lparr>sy_coordinator = c, sy_issued = B, sy_used = U\<rparr>
              \<lparr>sy_coordinator = c', sy_issued = B, sy_used = U\<rparr>"
| constraint:
    "set_runtime_constraint P sid k c = Ret (ures, c')
     \<Longrightarrow> coordinator_call P \<lparr>sy_coordinator = c, sy_issued = B, sy_used = U\<rparr>
              \<lparr>sy_coordinator = c', sy_issued = B, sy_used = U\<rparr>"
| removed:
    "remove_slot P sid c = Ret (wres, c')
     \<Longrightarrow> coordinator_call P \<lparr>sy_coordinator = c, sy_issued = B, sy_used = U\<rparr>
              \<lparr>sy_coordinator = c', sy_issued = B, sy_used = U\<rparr>"
| stopped:
    "stop P c = (sums, c')
     \<Longrightarrow> coordinator_call P \<lparr>sy_coordinator = c, sy_issued = B, sy_used = U\<rparr>
              \<lparr>sy_coordinator = c', sy_issued = B, sy_used = U\<rparr>"
| rehash:
    "rehashed (co_state c) st
     \<Longrightarrow> coordinator_call P \<lparr>sy_coordinator = c, sy_issued = B, sy_used = U\<rparr>
              \<lparr>sy_coordinator = c\<lparr>co_state := st\<rparr>, sy_issued = B, sy_used = U\<rparr>"

inductive step :: "'r system \<Rightarrow> 'r system \<Rightarrow> bool" where
  by_call: "coordinator_call P s s' \<Longrightarrow> step s s'"
| port_moved:
    "step \<lparr>sy_coordinator = c, sy_issued = B, sy_used = U\<rparr>
          \<lparr>sy_coordinator = c\<lparr>co_run_causality := r\<rparr>, sy_issued = B, sy_used = U\<rparr>"

lemma step_port: "step s (s\<lparr>sy_coordinator := (sy_coordinator s)\<lparr>co_run_causality := r\<rparr>\<rparr>)"
  by (cases s) (simp add: step.port_moved)

text \<open>The rules of the calls as rules of \<open>step\<close>.\<close>

lemmas step_acquire = step.by_call [OF coordinator_call.acquire]
lemmas step_commit = step.by_call [OF coordinator_call.commit]
lemmas step_abort = step.by_call [OF coordinator_call.abort]
lemmas step_reconcile = step.by_call [OF coordinator_call.reconcile]
lemmas step_claim = step.by_call [OF coordinator_call.claim]
lemmas step_started = step.by_call [OF coordinator_call.started]
lemmas step_retried = step.by_call [OF coordinator_call.retried]
lemmas step_completed = step.by_call [OF coordinator_call.completed]
lemmas step_failed = step.by_call [OF coordinator_call.failed]
lemmas step_cancelled = step.by_call [OF coordinator_call.cancelled]
lemmas step_signals = step.by_call [OF coordinator_call.signals]
lemmas step_run_cancelled = step.by_call [OF coordinator_call.run_cancelled]
lemmas step_paused = step.by_call [OF coordinator_call.paused]
lemmas step_constraint = step.by_call [OF coordinator_call.constraint]
lemmas step_removed = step.by_call [OF coordinator_call.removed]
lemmas step_stopped = step.by_call [OF coordinator_call.stopped]
lemmas step_rehash = step.by_call [OF coordinator_call.rehash]

definition initial_system :: "string \<Rightarrow> string \<Rightarrow> 'r \<Rightarrow> 'r system" where
  "initial_system team generation r =
     \<lparr>sy_coordinator = new_coordinator team generation r,
      sy_issued = {}, sy_used = {}\<rparr>"

inductive reachable :: "string \<Rightarrow> string \<Rightarrow> 'r system \<Rightarrow> bool" for team generation where
  initially: "reachable team generation (initial_system team generation r)"
| by_step: "reachable team generation s \<Longrightarrow> step s s' \<Longrightarrow> reachable team generation s'"

section \<open>The invariant of the system\<close>

definition ids_ok :: "coordinator_state \<Rightarrow> work_batch set \<Rightarrow> string set \<Rightarrow> bool" where
  "ids_ok st B U \<longleftrightarrow>
     dom (map_of (cs_intents st)) \<subseteq> U
     \<and> (\<forall>b. active_in st b \<longrightarrow> b \<in> B)
     \<and> wb_batch_id ` B \<subseteq> U \<and> inj_on wb_batch_id B"

definition system_inv :: "'r system \<Rightarrow> bool" where
  "system_inv s \<longleftrightarrow>
     coordinator_inv (sy_coordinator s)
     \<and> ids_ok (co_state (sy_coordinator s)) (sy_issued s) (sy_used s)"

text \<open>A batch an owner calls back with is the active batch itself if it passes the check.\<close>

lemma is_current_batchE:
  assumes "is_current_batch c b"
  obtains s a where "map_of (cs_slots (co_state c)) (wb_slot_id b) = Some s" and "ss_active s = Some a"
    and "wb_batch_id (ab_batch a) = wb_batch_id b"
  using assms by (auto simp: is_current_batch_def bind_eq_Some_conv split: option.splits)

lemma issued_holds:
  assumes "ids_ok (co_state c) B U" and "b \<in> B" and "is_current_batch c b"
  shows "holds c b"
proof -
  from assms(3) obtain s a where s: "map_of (cs_slots (co_state c)) (wb_slot_id b) = Some s"
    "ss_active s = Some a" "wb_batch_id (ab_batch a) = wb_batch_id b" by (rule is_current_batchE)
  then have "active_in (co_state c) (ab_batch a)"
    unfolding active_in_def by blast
  then have "ab_batch a \<in> B"
    using assms(1) by (simp add: ids_ok_def)
  with assms(1,2) s(3) have "ab_batch a = b"
    by (auto simp: ids_ok_def dest: inj_onD)
  with s show ?thesis by (simp add: holds_def)
qed

lemma ids_ok_tame:
  assumes "ids_ok (co_state c) B U" and "tame P c c'"
  shows "ids_ok (co_state c') B U"
proof -
  have "dom (map_of (cs_intents (co_state c'))) = dom (map_of (cs_intents (co_state c)))"
    using assms(2) settles_dom unfolding tame_def by blast
  with assms show ?thesis
    unfolding ids_ok_def tame_def by simp
qed

lemma system_inv_tame:
  assumes inv: "system_inv \<lparr>sy_coordinator = c, sy_issued = B, sy_used = U\<rparr>"
    and "coordinator_inv c'" and t: "tame P c c'"
  shows "system_inv \<lparr>sy_coordinator = c', sy_issued = B, sy_used = U\<rparr>"
  using inv assms(2) ids_ok_tame [OF _ t] by (simp add: system_inv_def)

lemma rehashed_maps:
  assumes "state_inv g st" and "rehashed st st'"
  shows "map_of (cs_intents st') = map_of (cs_intents st)"
    and "map_of (cs_enqueue_leases st') = map_of (cs_enqueue_leases st)"
    and "state_inv g st'"
proof -
  have d: "distinct (hm_keys (cs_intents st))" "distinct (hm_keys (cs_enqueue_leases st))"
    using assms(1) by (simp_all add: state_inv_def)
  show 1: "map_of (cs_intents st') = map_of (cs_intents st)"
    and 2: "map_of (cs_enqueue_leases st') = map_of (cs_enqueue_leases st)"
    using assms(2) d by (auto simp: rehashed_def intro!: map_of_perm)
  have "mset (hm_keys (cs_intents st')) = mset (hm_keys (cs_intents st))"
    "mset (hm_keys (cs_enqueue_leases st')) = mset (hm_keys (cs_enqueue_leases st))"
    using assms(2) by (simp_all add: rehashed_def)
  then have "distinct (hm_keys (cs_intents st'))" "distinct (hm_keys (cs_enqueue_leases st'))"
    using d mset_eq_imp_distinct_iff by blast+
  then show "state_inv g st'"
    using assms 1 2 by (simp add: state_inv_def rehashed_def)
qed

lemma active_in_leases [simp]: "active_in (st\<lparr>cs_enqueue_leases := L\<rparr>) b = active_in st b"
  by (simp add: active_in_def)

lemma initial_inv: "system_inv (initial_system team generation r)"
proof -
  have "\<not> active_in empty_state b" for b
    by (simp add: active_in_def empty_state_def)
  moreover have "map_of (cs_intents empty_state) = Map.empty"
    by (simp add: empty_state_def)
  ultimately show ?thesis
    by (simp add: system_inv_def initial_system_def new_coordinator_def coordinator_inv_def
        state_inv_empty ids_ok_def)
qed

lemma call_inv:
  assumes "coordinator_call P s s'" and inv: "system_inv s"
  shows "system_inv s'"
  using assms(1) inv
proof (induction rule: coordinator_call.induct)
  case (acquire lid U req c res c' B)
  then have c: "coordinator_inv c" and ids: "ids_ok (co_state c) B U"
    by (simp_all add: system_inv_def)
  have st: "state_inv (co_session_generation c) (co_state c)"
    using c by (simp add: coordinator_inv_def)
  have "cs_intents (co_state c') = cs_intents (co_state c) \<and> (\<forall>b. active_in (co_state c') b \<longrightarrow> active_in (co_state c) b)"
    using acquire(2)
  proof (cases rule: acquire_enqueue_cases)
    case 1
    then show ?thesis using active_in_touched [OF st] by simp
  next
    case 2
    then show ?thesis using active_in_touched [OF st] by simp
  qed
  then have "ids_ok (co_state c') B (insert lid U)"
    using ids by (auto simp: ids_ok_def)
  then show ?case
    using acquire_enqueue_inv [OF c acquire(2)]
    by (simp add: system_inv_def)
next
  case (commit x U now lease msg c res c' B)
  then have c: "coordinator_inv c" and ids: "ids_ok (co_state c) B U"
    by (simp_all add: system_inv_def)
  have fresh: "map_of (cs_intents (co_state c)) x = None"
    using ids commit(1) by (auto simp: ids_ok_def)
  have "ids_ok (co_state c') B (insert x U)"
    using commit(2)
  proof (cases rule: commit_enqueue_cases)
    case 1
    then show ?thesis using ids by (auto simp: ids_ok_def)
  next
    case (2 slot lrec ec runs)
    have "active_in (co_state c) b" if b: "active_in (co_state c') b" for b
    proof (rule active_in_modify)
      show "active_in ((co_state c)\<lparr>cs_intents := cs_intents (co_state c),
          cs_slots := hm_modify (el_slot_id lease) (commit_enqueue_slot (el_source lease) msg x)
            (cs_slots (co_state c))\<rparr>) b"
        using b by (simp add: active_in_def 2)
    qed simp
    then show ?thesis using ids by (auto simp: ids_ok_def 2)
  qed
  then show ?case
    using commit_enqueue_inv [OF c fresh commit(2)]
    by (simp add: system_inv_def)
next
  case (abort lease c res c' B U)
  then have c: "coordinator_inv c" and ids: "ids_ok (co_state c) B U"
    by (simp_all add: system_inv_def)
  have "cs_intents (co_state c') = cs_intents (co_state c) \<and> cs_slots (co_state c') = cs_slots (co_state c)"
    using abort(1) by (cases rule: abort_enqueue_cases) simp_all
  then have "ids_ok (co_state c') B U"
    using ids by (simp add: ids_ok_def active_in_def)
  then show ?case
    using abort_enqueue_inv [OF c abort(1)]
    by (simp add: system_inv_def)
next
  case (reconcile gen U times_ms sid unread role c proj c' B)
  then have c: "coordinator_inv c" and ids: "ids_ok (co_state c) B U"
    by (simp_all add: system_inv_def)
  have fresh: "map_of (cs_intents (co_state c)) (gen j) = None" for j
    using ids reconcile(2) [of j] by (auto simp: ids_ok_def)
  have dom: "dom (map_of (cs_intents (co_state c')))
        \<subseteq> dom (map_of (cs_intents (co_state c))) \<union> set (rp_created_recovery_intent_ids proj)"
    and act: "\<forall>b. active_in (co_state c') b \<longrightarrow> active_in (co_state c) b"
    using reconcile_mailbox_effect [OF c reconcile(1) fresh reconcile(3)] by blast+
  have U: "dom (map_of (cs_intents (co_state c))) \<subseteq> U" "wb_batch_id ` B \<subseteq> U"
    using ids by (simp_all add: ids_ok_def)
  have "ids_ok (co_state c') B (U \<union> set (rp_created_recovery_intent_ids proj))"
    unfolding ids_ok_def
    using order_trans [OF dom Un_mono [OF U(1) order_refl]] act ids le_supI1 [OF U(2)]
    by (simp add: ids_ok_def)
  then show ?case
    using reconcile_mailbox_inv [OF c reconcile(1) fresh reconcile(3)]
    by (simp add: system_inv_def)
next
  case (claim bid U sid c d c' B)
  then have c: "coordinator_inv c" and ids: "ids_ok (co_state c) B U"
    by (simp_all add: system_inv_def)
  note E = next_work_effect [OF c claim(2)]
  have c': "coordinator_inv c'" by (rule next_work_inv [OF c claim(2)])
  have "wb_batch_id b = bid" if "b \<in> claimed d" for b
    using that E by (cases d) auto
  moreover have "claimed d = {} \<or> (\<exists>b. claimed d = {b})" by (cases d) auto
  moreover have "bid \<notin> wb_batch_id ` B"
    using ids claim(1) by (auto simp: ids_ok_def)
  ultimately have "inj_on wb_batch_id (B \<union> claimed d)" "wb_batch_id ` (B \<union> claimed d) \<subseteq> insert bid U"
    using ids by (auto simp: ids_ok_def inj_on_Un)
  moreover have "dom (map_of (cs_intents (co_state c'))) = dom (map_of (cs_intents (co_state c)))"
    using E settles_dom by blast
  ultimately have "ids_ok (co_state c') (B \<union> claimed d) (insert bid U)"
    using ids E by (auto simp: ids_ok_def)
  then show ?case
    using c' by (simp add: system_inv_def)
next
  case (started b B now tid c sres c' U)
  then have c: "coordinator_inv c" and own: "is_current_batch c b \<Longrightarrow> holds c b"
    by (auto simp: system_inv_def intro: issued_holds)
  show ?case
    by (rule system_inv_tame [OF started(3) mark_started_inv [OF c own started(2)]
          mark_started_tame [OF c own started(2)]])
next
  case (retried b B c cres c' U)
  then have c: "coordinator_inv c" and own: "is_current_batch c b \<Longrightarrow> holds c b"
    by (auto simp: system_inv_def intro: issued_holds)
  show ?case
    by (rule system_inv_tame [OF retried(3) retry_start_inv [OF c own retried(2)]
          retry_start_tame [OF c own retried(2)]])
next
  case (completed b B c cres c' U)
  then have c: "coordinator_inv c" and own: "is_current_batch c b \<Longrightarrow> holds c b"
    by (auto simp: system_inv_def intro: issued_holds)
  show ?case
    by (rule system_inv_tame [OF completed(3) terminalize_batch_inv [OF c own _ completed(2) [unfolded complete_batch_def]]
          terminalize_batch_tame [OF c own completed(2) [unfolded complete_batch_def]]]) simp_all
next
  case (failed b B cls c cres c' U)
  then have c: "coordinator_inv c" and own: "is_current_batch c b \<Longrightarrow> holds c b"
    by (auto simp: system_inv_def intro: issued_holds)
  show ?case
    by (rule system_inv_tame [OF failed(3) terminalize_batch_inv [OF c own _ failed(2) [unfolded fail_batch_def]]
          terminalize_batch_tame [OF c own failed(2) [unfolded fail_batch_def]]]) simp_all
next
  case (cancelled b B cls c cres c' U)
  then have c: "coordinator_inv c" and own: "is_current_batch c b \<Longrightarrow> holds c b"
    by (auto simp: system_inv_def intro: issued_holds)
  show ?case
    by (rule system_inv_tame [OF cancelled(3) terminalize_batch_inv [OF c own _ cancelled(2) [unfolded cancel_batch_def]]
          terminalize_batch_tame [OF c own cancelled(2) [unfolded cancel_batch_def]]]) simp_all
next
  case (signals sid ids c cres c' B U)
  then have c: "coordinator_inv c" by (simp add: system_inv_def)
  show ?case
    by (rule system_inv_tame [OF signals(2) complete_signals_inv [OF c signals(1)]
          complete_signals_tame [OF c signals(1)]])
next
  case (run_cancelled run c rres c' B U)
  then have c: "coordinator_inv c" by (simp add: system_inv_def)
  show ?case
    by (rule system_inv_tame [OF run_cancelled(2) cancel_run_Ret [OF c run_cancelled(1), THEN conjunct1]
          cancel_run_tame [OF c run_cancelled(1)]])
next
  case (paused sid c pres c' B U)
  then have c: "coordinator_inv c" by (simp add: system_inv_def)
  show ?case
    by (rule system_inv_tame [OF paused(2) pause_slot_inv [OF c paused(1)] pause_slot_tame [OF c paused(1)]])
next
  case (constraint sid k c ures c' B U)
  then have c: "coordinator_inv c" by (simp add: system_inv_def)
  show ?case
    by (rule system_inv_tame [OF constraint(2) set_runtime_constraint_Ret [OF c constraint(1), THEN conjunct1]
          set_runtime_constraint_tame [OF c constraint(1)]])
next
  case (removed sid c wres c' B U)
  then have c: "coordinator_inv c" by (simp add: system_inv_def)
  show ?case
    by (rule system_inv_tame [OF removed(2) remove_slot_Ret [OF c removed(1), THEN conjunct1]
          remove_slot_tame [OF c removed(1)]])
next
  case (stopped c sums c' B U)
  then have c: "coordinator_inv c" by (simp add: system_inv_def)
  show ?case
    by (rule system_inv_tame [OF stopped(2) stop_Ret [OF c stopped(1), THEN conjunct1]
          stop_tame [OF c stopped(1)]])
next
  case (rehash c st B U)
  then have st: "state_inv (co_session_generation c) (co_state c)"
    by (simp add: system_inv_def coordinator_inv_def)
  note R = rehashed_maps [OF st rehash(1)]
  show ?case
    using rehash R by (simp add: system_inv_def coordinator_inv_def ids_ok_def active_in_def rehashed_def)
qed

lemma step_inv:
  assumes "step s s'" and "system_inv s"
  shows "system_inv s'"
  using assms
proof cases
  case by_call
  then show ?thesis using assms(2) by (rule call_inv)
next
  case port_moved
  then show ?thesis using assms(2) by (simp add: system_inv_def coordinator_inv_def)
qed

lemma reachable_inv: "reachable team generation s \<Longrightarrow> system_inv s"
  by (induction rule: reachable.induct) (auto intro: initial_inv step_inv)

section \<open>What every step preserves\<close>

text \<open>
  No step loses an intent or changes anything in it but its state; the state of an intent that has
  ended never changes; the only batch that can become active is a new one.
\<close>

definition evolves :: "'r coordinator \<Rightarrow> 'r coordinator \<Rightarrow> string set \<Rightarrow> bool" where
  "evolves c c' U \<longleftrightarrow>
     co_session_generation c' = co_session_generation c
     \<and> (\<forall>x i. map_of (cs_intents (co_state c)) x = Some i
          \<longrightarrow> (\<exists>t. map_of (cs_intents (co_state c')) x = Some (set_state t i)
                 \<and> (is_terminal (wi_state i) \<longrightarrow> t = wi_state i)))
     \<and> (\<forall>b. active_in (co_state c') b \<longrightarrow> active_in (co_state c) b \<or> wb_batch_id b \<notin> U)"

lemma set_state_same: "set_state (wi_state i) i = i"
  by simp

lemma evolves_frame:
  assumes "co_session_generation c' = co_session_generation c"
    and "\<And>x i. map_of (cs_intents (co_state c)) x = Some i \<Longrightarrow> map_of (cs_intents (co_state c')) x = Some i"
    and "\<And>b. active_in (co_state c') b \<Longrightarrow> active_in (co_state c) b \<or> wb_batch_id b \<notin> U"
  shows "evolves c c' U"
  unfolding evolves_def
proof (intro conjI allI impI)
  fix x i
  assume "map_of (cs_intents (co_state c)) x = Some i"
  then show "\<exists>t. map_of (cs_intents (co_state c')) x = Some (set_state t i)
      \<and> (is_terminal (wi_state i) \<longrightarrow> t = wi_state i)"
    using assms(2) by (intro exI [of _ "wi_state i"]) simp
qed (use assms in auto)

lemma evolves_settles:
  assumes "co_session_generation c' = co_session_generation c" and "settles (co_state c) (co_state c')"
    and "\<And>b. active_in (co_state c') b \<Longrightarrow> active_in (co_state c) b \<or> wb_batch_id b \<notin> U"
  shows "evolves c c' U"
  unfolding evolves_def
proof (intro conjI allI impI)
  fix x i
  assume x: "map_of (cs_intents (co_state c)) x = Some i"
  from assms(2) obtain f where f: "map_of (cs_intents (co_state c')) = restate f (map_of (cs_intents (co_state c)))"
    "is_terminal (wi_state i) \<Longrightarrow> f x i = wi_state i"
    using x unfolding settles_def by blast
  then show "\<exists>t. map_of (cs_intents (co_state c')) x = Some (set_state t i)
      \<and> (is_terminal (wi_state i) \<longrightarrow> t = wi_state i)"
    using x by (intro exI [of _ "f x i"]) (simp add: restate_def)
qed (use assms in auto)

lemma evolves_tame: "tame P c c' \<Longrightarrow> evolves c c' U"
  by (rule evolves_settles) (simp_all add: tame_def)

lemma evolves_reconcile:
  assumes inv: "coordinator_inv c" and gen: "inj gen" "\<And>j. map_of (cs_intents (co_state c)) (gen j) = None"
    and run: "reconcile_mailbox gen clock sid unread role c = Ret (res, c')"
  shows "evolves c c' U"
proof -
  note E = reconcile_mailbox_effect [OF inv gen run]
  from run show ?thesis
  proof (cases rule: reconcile_mailbox_cases)
    case (1 slots stale st1 st2)
    have I1: "map_of (cs_intents st1) = restate (set_states stale WsCompleted) (map_of (cs_intents (co_state c)))"
      by (simp add: 1(3) map_of_modify_all_set_state)
    have fresh: "map_of (cs_intents st1) (gen j) = None" for j
      using gen(2) [of j] by (simp add: I1 restate_def del: map_of_eq_None_iff)
    note C = create_recovery_intents [OF 1(4) gen(1) fresh]
    show ?thesis
      unfolding evolves_def
    proof (intro conjI allI impI)
      fix x i
      assume x: "map_of (cs_intents (co_state c)) x = Some i"
      then have "map_of (cs_intents st1) x = Some (set_state (set_states stale WsCompleted x i) i)"
        by (simp add: I1 restate_def)
      with C have x': "map_of (cs_intents (co_state c')) x = Some (set_state (set_states stale WsCompleted x i) i)"
        by (simp add: 1(6))
      have st: "state_inv (co_session_generation c) ((co_state c)\<lparr>cs_slots := slots\<rparr>)"
        unfolding 1(1) using inv by (intro state_inv_entry) (simp_all add: coordinator_inv_def)
      have "set_states stale WsCompleted x i = wi_state i" if "is_terminal (wi_state i)"
      proof -
        have "x \<notin> set stale"
        proof
          assume "x \<in> set stale"
          then obtain t where t: "map_of slots sid = Some t" "x \<in> set (queued_ids t)"
            by (cases "map_of slots sid") (auto simp: 1(2))
          then obtain p where p: "x \<in> set (queue p t)" using set_queued_ids by blast
          from state_inv_slotD [OF st, of sid t] t(1) slot_inv_queueD p x have "wi_state i = WsQueued"
            by fastforce
          with that show False by simp
        qed
        then show ?thesis by simp
      qed
      with x' show "\<exists>t. map_of (cs_intents (co_state c')) x = Some (set_state t i)
          \<and> (is_terminal (wi_state i) \<longrightarrow> t = wi_state i)" by blast
    qed (use E in auto)
  qed
qed

lemma call_evolves:
  assumes "coordinator_call P s s'" and inv: "system_inv s"
  shows "evolves (sy_coordinator s) (sy_coordinator s') (sy_used s)
    \<and> sy_issued s \<subseteq> sy_issued s' \<and> sy_used s \<subseteq> sy_used s'"
  using assms(1) inv
proof (induction rule: coordinator_call.induct)
  case (acquire lid U req c res c' B)
  then have st: "state_inv (co_session_generation c) (co_state c)"
    by (simp add: system_inv_def coordinator_inv_def)
  from acquire(2) have "evolves c c' U"
  proof (cases rule: acquire_enqueue_cases)
    case 1
    then show ?thesis using active_in_touched [OF st] by (intro evolves_frame) simp_all
  next
    case 2
    then show ?thesis using active_in_touched [OF st] by (intro evolves_frame) simp_all
  qed
  then show ?case by auto
next
  case (commit x U now lease msg c res c' B)
  then have fresh: "map_of (cs_intents (co_state c)) x = None"
    by (auto simp: system_inv_def ids_ok_def)
  from commit(2) have "evolves c c' U"
  proof (cases rule: commit_enqueue_cases)
    case 1
    then show ?thesis by (intro evolves_frame) simp_all
  next
    case (2 slot lrec ec runs)
    show ?thesis
    proof (rule evolves_frame)
      show "map_of (cs_intents (co_state c')) y = Some i" if "map_of (cs_intents (co_state c)) y = Some i" for y i
        using that fresh by (auto simp: 2)
      show "active_in (co_state c) b \<or> wb_batch_id b \<notin> U" if "active_in (co_state c') b" for b
      proof (rule disjI1, rule active_in_modify)
        show "active_in ((co_state c)\<lparr>cs_intents := cs_intents (co_state c),
            cs_slots := hm_modify (el_slot_id lease) (commit_enqueue_slot (el_source lease) msg x)
              (cs_slots (co_state c))\<rparr>) b"
          using that by (simp add: active_in_def 2)
      qed simp
    qed (simp add: 2)
  qed
  then show ?case by auto
next
  case (abort lease c res c' B U)
  have "evolves c c' U"
    using abort(1) by (cases rule: abort_enqueue_cases) (auto intro!: evolves_frame)
  then show ?case by simp
next
  case (reconcile gen U times_ms sid unread role c proj c' B)
  then have c: "coordinator_inv c" and fresh: "\<And>j. map_of (cs_intents (co_state c)) (gen j) = None"
    by (auto simp: system_inv_def ids_ok_def)
  show ?case using evolves_reconcile [OF c reconcile(1) fresh reconcile(3)] by simp
next
  case (claim bid U sid c d c' B)
  then have c: "coordinator_inv c" by (simp add: system_inv_def)
  note E = next_work_effect [OF c claim(2)]
  have "evolves c c' U"
    using E claim(1) by (intro evolves_settles) auto
  then show ?case by auto
next
  case (started b B now tid c sres c' U)
  then have c: "coordinator_inv c" and own: "is_current_batch c b \<Longrightarrow> holds c b"
    by (auto simp: system_inv_def intro: issued_holds)
  show ?case using evolves_tame [OF mark_started_tame [OF c own started(2)]] by simp
next
  case (retried b B c cres c' U)
  then have c: "coordinator_inv c" and own: "is_current_batch c b \<Longrightarrow> holds c b"
    by (auto simp: system_inv_def intro: issued_holds)
  show ?case using evolves_tame [OF retry_start_tame [OF c own retried(2)]] by simp
next
  case (completed b B c cres c' U)
  then have c: "coordinator_inv c" and own: "is_current_batch c b \<Longrightarrow> holds c b"
    by (auto simp: system_inv_def intro: issued_holds)
  show ?case
    using evolves_tame [OF terminalize_batch_tame [OF c own completed(2) [unfolded complete_batch_def]]] by simp
next
  case (failed b B cls c cres c' U)
  then have c: "coordinator_inv c" and own: "is_current_batch c b \<Longrightarrow> holds c b"
    by (auto simp: system_inv_def intro: issued_holds)
  show ?case
    using evolves_tame [OF terminalize_batch_tame [OF c own failed(2) [unfolded fail_batch_def]]] by simp
next
  case (cancelled b B cls c cres c' U)
  then have c: "coordinator_inv c" and own: "is_current_batch c b \<Longrightarrow> holds c b"
    by (auto simp: system_inv_def intro: issued_holds)
  show ?case
    using evolves_tame [OF terminalize_batch_tame [OF c own cancelled(2) [unfolded cancel_batch_def]]] by simp
next
  case (signals sid ids c cres c' B U)
  then have c: "coordinator_inv c" by (simp add: system_inv_def)
  show ?case using evolves_tame [OF complete_signals_tame [OF c signals(1)]] by simp
next
  case (run_cancelled run c rres c' B U)
  then have c: "coordinator_inv c" by (simp add: system_inv_def)
  show ?case using evolves_tame [OF cancel_run_tame [OF c run_cancelled(1)]] by simp
next
  case (paused sid c pres c' B U)
  then have c: "coordinator_inv c" by (simp add: system_inv_def)
  show ?case using evolves_tame [OF pause_slot_tame [OF c paused(1)]] by simp
next
  case (constraint sid k c ures c' B U)
  then have c: "coordinator_inv c" by (simp add: system_inv_def)
  show ?case using evolves_tame [OF set_runtime_constraint_tame [OF c constraint(1)]] by simp
next
  case (removed sid c wres c' B U)
  then have c: "coordinator_inv c" by (simp add: system_inv_def)
  show ?case using evolves_tame [OF remove_slot_tame [OF c removed(1)]] by simp
next
  case (stopped c sums c' B U)
  then have c: "coordinator_inv c" by (simp add: system_inv_def)
  show ?case using evolves_tame [OF stop_tame [OF c stopped(1)]] by simp
next
  case (rehash c st B U)
  then have st: "state_inv (co_session_generation c) (co_state c)"
    by (simp add: system_inv_def coordinator_inv_def)
  have "evolves c (c\<lparr>co_state := st\<rparr>) U"
    using rehashed_maps [OF st rehash(1)] rehash(1)
    by (intro evolves_frame) (simp_all add: active_in_def rehashed_def)
  then show ?case by simp
qed

lemma step_evolves:
  assumes "step s s'" and "system_inv s"
  shows "evolves (sy_coordinator s) (sy_coordinator s') (sy_used s)
    \<and> sy_issued s \<subseteq> sy_issued s' \<and> sy_used s \<subseteq> sy_used s'"
  using assms
proof cases
  case by_call
  then show ?thesis using assms(2) by (rule call_evolves)
next
  case (port_moved c B U r)
  have "evolves c (c\<lparr>co_run_causality := r\<rparr>) U"
    by (intro evolves_frame) simp_all
  then show ?thesis using port_moved by simp
qed

text \<open>An issued batch that is not active any more is never active again.\<close>

lemma current_iff_active:
  assumes inv: "system_inv s" and b: "b \<in> sy_issued s"
  shows "is_current_batch (sy_coordinator s) b \<longleftrightarrow> active_in (co_state (sy_coordinator s)) b"
proof
  assume "is_current_batch (sy_coordinator s) b"
  then have "holds (sy_coordinator s) b"
    using inv b by (auto simp: system_inv_def intro: issued_holds)
  then show "active_in (co_state (sy_coordinator s)) b"
    unfolding active_in_def by (metis holdsE)
next
  assume "active_in (co_state (sy_coordinator s)) b"
  then obtain sid t a where a: "map_of (cs_slots (co_state (sy_coordinator s))) sid = Some t"
    "ss_active t = Some a" "ab_batch a = b" by (auto simp: active_in_def)
  have "state_inv (co_session_generation (sy_coordinator s)) (co_state (sy_coordinator s))"
    using inv by (simp add: system_inv_def coordinator_inv_def)
  note act = active_invD [OF slot_inv_activeD [OF state_inv_slotD [OF this a(1)] a(2)]]
  show "is_current_batch (sy_coordinator s) b"
    using a act by (simp add: is_current_batch_def)
qed

lemma step_stays_stale:
  assumes inv: "system_inv s" and step: "step s s'" and b: "b \<in> sy_issued s"
    and stale: "\<not> is_current_batch (sy_coordinator s) b"
  shows "\<not> is_current_batch (sy_coordinator s') b"
proof -
  note E = step_evolves [OF step inv]
  have b': "b \<in> sy_issued s'" using E b by blast
  have "wb_batch_id b \<in> sy_used s"
    using inv b by (auto simp: system_inv_def ids_ok_def)
  moreover have "\<not> active_in (co_state (sy_coordinator s)) b"
    using stale current_iff_active [OF inv b] by simp
  ultimately have "\<not> active_in (co_state (sy_coordinator s')) b"
    using E unfolding evolves_def by blast
  then show ?thesis
    using current_iff_active [OF step_inv [OF step inv] b'] by simp
qed

end
