(* ===== verification/Run_Publication.thy ===== *)
theory Run_Publication
  imports Work_System
begin

text \<open>
  How the summaries of the coordinator reach the run manager (\<open>aionui-team/src/work_coordinator/coordinator.rs\<close>,
  \<open>aionui-team/src/team_run/manager.rs\<close>). An operation of the coordinator makes its summaries under the state lock
  and drops the lock before \<open>publish_run_summaries\<close> (and before \<open>abort_binding\<close>) takes the lock of the run manager;
  only \<open>bind_enqueue\<close> is called under both. So a summary is on its way for some time, other operations come in
  between, and summaries of different operations can overtake each other. Here the port of the coordinator is an
  outbox: an operation leaves what it publishes in \<open>ln_pending\<close>, and a later step delivers it. Any pending delivery may be
  the next one, which allows at least the orders that the threads of the program can produce.
\<close>

section \<open>The outbox\<close>

datatype delivery = Deliver_Summary run_work_summary | Deliver_Abort run_binding

record run_link =
  ln_manager :: run_manager
  ln_pending :: "delivery list"

definition outbox_port :: "string \<Rightarrow> run_link run_causality_port" where
  "outbox_port run_id =
     \<lparr>bind_enqueue = (\<lambda>req l. case manager_bind_enqueue run_id req (ln_manager l) of (b, m) \<Rightarrow> (b, l\<lparr>ln_manager := m\<rparr>)),
      abort_binding = (\<lambda>b l. l\<lparr>ln_pending := ln_pending l @ [Deliver_Abort b]\<rparr>),
      apply_work_summary = (\<lambda>s l. l\<lparr>ln_pending := ln_pending l @ [Deliver_Summary s]\<rparr>)\<rparr>"

fun deliver :: "clock \<Rightarrow> delivery \<Rightarrow> run_manager \<Rightarrow> run_manager" where
  "deliver clock (Deliver_Summary s) m = apply_summary clock s m"
| "deliver clock (Deliver_Abort b) m = manager_abort_binding b m"

text \<open>
  The identifier a new run gets is new: of what \<open>generate_id()\<close> promises, that nothing on its way is about this run and that the manager does not hold it.
\<close>

fun about_run :: "string \<Rightarrow> delivery \<Rightarrow> bool" where
  "about_run run_id (Deliver_Summary s) \<longleftrightarrow> rs_team_run_id s = run_id"
| "about_run run_id (Deliver_Abort b) \<longleftrightarrow> rb_team_run_id b = Some run_id"

definition fresh_run :: "string \<Rightarrow> run_link \<Rightarrow> bool" where
  "fresh_run run_id l \<longleftrightarrow>
     run_status (ln_manager l) run_id = None \<and> \<not> list_ex (about_run run_id) (ln_pending l)"

abbreviation link_of :: "run_link system \<Rightarrow> run_link" where
  "link_of s \<equiv> co_run_causality (sy_coordinator s)"

abbreviation state_of :: "'r system \<Rightarrow> coordinator_state" where
  "state_of s \<equiv> co_state (sy_coordinator s)"

inductive run_step :: "run_link system \<Rightarrow> run_link system \<Rightarrow> bool" where
  called: "fresh_run run_id (link_of s) \<Longrightarrow> coordinator_call (outbox_port run_id) s s' \<Longrightarrow> run_step s s'"
| delivered:
    "ln_pending (link_of s) = ds @ d # es
     \<Longrightarrow> l = \<lparr>ln_manager = deliver clock d (ln_manager (link_of s)), ln_pending = ds @ es\<rparr>
     \<Longrightarrow> run_step s (s\<lparr>sy_coordinator := (sy_coordinator s)\<lparr>co_run_causality := l\<rparr>\<rparr>)"
| cancel_begun:
    "begin_cancel clock run reason (ln_manager (link_of s)) = (res, m)
     \<Longrightarrow> run_step s (s\<lparr>sy_coordinator := (sy_coordinator s)\<lparr>co_run_causality := (link_of s)\<lparr>ln_manager := m\<rparr>\<rparr>\<rparr>)"

inductive run_reachable :: "string \<Rightarrow> string \<Rightarrow> run_link system \<Rightarrow> bool" for team generation where
  created: "run_reachable team generation
      (initial_system team generation \<lparr>ln_manager = new_run_manager team, ln_pending = []\<rparr>)"
| moved: "run_reachable team generation s \<Longrightarrow> run_step s s' \<Longrightarrow> run_reachable team generation s'"

lemma run_step_step: "run_step s s' \<Longrightarrow> step s s'"
  by (induction rule: run_step.induct) (auto intro: step.by_call step_port)

lemma run_reachable_reachable: "run_reachable team g s \<Longrightarrow> reachable team g s"
  by (induction rule: run_reachable.induct) (auto intro: reachable.intros run_step_step)

lemma run_reachable_inv: "run_reachable team g s \<Longrightarrow> system_inv s"
  by (rule reachable_inv [OF run_reachable_reachable])

lemma run_reachable_steps: "run_step\<^sup>*\<^sup>* s s' \<Longrightarrow> run_reachable team g s \<Longrightarrow> run_reachable team g s'"
  by (induction rule: rtranclp_induct) (auto intro: moved)

section \<open>What an operation leaves in the outbox\<close>

text \<open>Each summary shows the state the operation wrote; only a binding moves the run manager.\<close>

definition publishes :: "string \<Rightarrow> coordinator_state \<Rightarrow> run_link \<Rightarrow> run_link \<Rightarrow> bool" where
  "publishes run_id st l l' \<longleftrightarrow>
     (\<exists>ds. ln_pending l' = ln_pending l @ ds
        \<and> (\<forall>s. Deliver_Summary s \<in> set ds \<longrightarrow> (\<exists>x. s = run_summary_locked st x)))
     \<and> (ln_manager l' = ln_manager l
        \<or> (\<exists>req b. manager_bind_enqueue run_id req (ln_manager l) = (b, ln_manager l')))"

lemma publish_outbox:
  "publish_run_summaries (outbox_port run_id) ss l = l\<lparr>ln_pending := ln_pending l @ map Deliver_Summary ss\<rparr>"
  unfolding publish_run_summaries_def
  by (induction ss arbitrary: l) (simp_all add: outbox_port_def)

lemma publishes_refl [simp]: "publishes run_id st l l"
  by (simp add: publishes_def)

lemma published_publishes:
  assumes "published (outbox_port run_id) c c'" and "co_run_causality c = l \<or> (\<exists>b. co_run_causality c = l\<lparr>ln_pending := ln_pending l @ [Deliver_Abort b]\<rparr>)"
  shows "publishes run_id (co_state c') l (co_run_causality c')"
  using assms by (auto simp: published_def publish_outbox publishes_def)

lemma tame_publishes: "tame (outbox_port run_id) c c' \<Longrightarrow> publishes run_id (co_state c') (co_run_causality c) (co_run_causality c')"
  by (rule published_publishes [of _ c]) (simp_all add: tame_def)

lemma acquire_publishes:
  assumes "acquire_enqueue (outbox_port run_id) lid req c = (res, c')"
  shows "publishes run_id (co_state c') (co_run_causality c) (co_run_causality c')"
  using assms
proof (cases rule: acquire_enqueue_cases)
  case (2 binding r lease)
  from 2(2) show ?thesis
  proof (cases rule: acquire_enqueue_run)
    case 3
    then show ?thesis
      by (auto simp: 2(4) outbox_port_def publishes_def split: prod.splits)
  qed (simp_all add: 2(4))
qed simp

lemma call_publishes:
  assumes "coordinator_call (outbox_port run_id) s s'" and "system_inv s"
  shows "publishes run_id (state_of s') (link_of s) (link_of s')"
  using assms
proof (induction rule: coordinator_call.induct)
  case (acquire lid U req c res c' B)
  then show ?case using acquire_publishes by simp
next
  case (commit x U now lease msg c res c' B)
  from commit(2) have "published (outbox_port run_id) c c'"
    by (cases rule: commit_enqueue_cases) simp_all
  then show ?case by (simp add: published_publishes)
next
  case (abort lease c res c' B U)
  from abort(1) show ?case
  proof (cases rule: abort_enqueue_cases)
    case (3 lrec r runs)
    have "published (outbox_port run_id) (c\<lparr>co_run_causality := r\<rparr>) c'" by (simp add: 3(5))
    moreover have "r = co_run_causality c
        \<or> (\<exists>b. r = (co_run_causality c)\<lparr>ln_pending := ln_pending (co_run_causality c) @ [Deliver_Abort b]\<rparr>)"
      using 3(4) by (auto simp: outbox_port_def)
    ultimately show ?thesis by (simp add: published_publishes)
  qed simp_all
next
  case (reconcile gen U times_ms sid unread role c proj c' B)
  then have c: "coordinator_inv c" and fresh: "\<And>j. map_of (cs_intents (co_state c)) (gen j) = None"
    by (auto simp: system_inv_def ids_ok_def)
  show ?case using reconcile_mailbox_effect [OF c reconcile(1) fresh reconcile(3)] by simp
next
  case (claim bid U sid c d c' B)
  then have c: "coordinator_inv c" by (simp add: system_inv_def)
  have "published (outbox_port run_id) c c'" using next_work_effect [OF c claim(2)] by blast
  then show ?case by (simp add: published_publishes)
next
  case (started b B now tid c sres c' U)
  then have c: "coordinator_inv c" and own: "is_current_batch c b \<Longrightarrow> holds c b"
    by (auto simp: system_inv_def intro: issued_holds)
  show ?case using tame_publishes [OF mark_started_tame [OF c own started(2)]] by simp
next
  case (retried b B c cres c' U)
  then have c: "coordinator_inv c" and own: "is_current_batch c b \<Longrightarrow> holds c b"
    by (auto simp: system_inv_def intro: issued_holds)
  show ?case using tame_publishes [OF retry_start_tame [OF c own retried(2)]] by simp
next
  case (completed b B c cres c' U)
  then have c: "coordinator_inv c" and own: "is_current_batch c b \<Longrightarrow> holds c b"
    by (auto simp: system_inv_def intro: issued_holds)
  show ?case
    using tame_publishes [OF terminalize_batch_tame [OF c own completed(2) [unfolded complete_batch_def]]] by simp
next
  case (failed b B cls c cres c' U)
  then have c: "coordinator_inv c" and own: "is_current_batch c b \<Longrightarrow> holds c b"
    by (auto simp: system_inv_def intro: issued_holds)
  show ?case
    using tame_publishes [OF terminalize_batch_tame [OF c own failed(2) [unfolded fail_batch_def]]] by simp
next
  case (cancelled b B cls c cres c' U)
  then have c: "coordinator_inv c" and own: "is_current_batch c b \<Longrightarrow> holds c b"
    by (auto simp: system_inv_def intro: issued_holds)
  show ?case
    using tame_publishes [OF terminalize_batch_tame [OF c own cancelled(2) [unfolded cancel_batch_def]]] by simp
next
  case (signals sid ids c cres c' B U)
  then have c: "coordinator_inv c" by (simp add: system_inv_def)
  show ?case using tame_publishes [OF complete_signals_tame [OF c signals(1)]] by simp
next
  case (run_cancelled run c rres c' B U)
  then have c: "coordinator_inv c" by (simp add: system_inv_def)
  show ?case using tame_publishes [OF cancel_run_tame [OF c run_cancelled(1)]] by simp
next
  case (paused sid c pres c' B U)
  then have c: "coordinator_inv c" by (simp add: system_inv_def)
  show ?case using tame_publishes [OF pause_slot_tame [OF c paused(1)]] by simp
next
  case (constraint sid k c ures c' B U)
  then have c: "coordinator_inv c" by (simp add: system_inv_def)
  show ?case using tame_publishes [OF set_runtime_constraint_tame [OF c constraint(1)]] by simp
next
  case (removed sid c wres c' B U)
  then have c: "coordinator_inv c" by (simp add: system_inv_def)
  show ?case using tame_publishes [OF remove_slot_tame [OF c removed(1)]] by simp
next
  case (stopped c sums c' B U)
  then have c: "coordinator_inv c" by (simp add: system_inv_def)
  show ?case using tame_publishes [OF stop_tame [OF c stopped(1)]] by simp
next
  case (rehash c st B U)
  then show ?case by simp
qed

section \<open>Who gives a run work\<close>

text \<open>The only call that gives work to a run that had none is the one that binds a lease to it.\<close>

lemma acquire_work:
  assumes inv: "coordinator_inv c" and run: "acquire_enqueue P lid req c = (res, c')"
    and work: "run_has_work (co_state c') x" "\<not> run_has_work (co_state c) x"
  shows "\<exists>b. bind_enqueue P req (co_run_causality c) = (b, co_run_causality c') \<and> rb_team_run_id b = Some x"
  using run
proof (cases rule: acquire_enqueue_cases)
  case 1
  with work show ?thesis by (simp add: run_has_work_def)
next
  case (2 b r lease)
  have st: "state_inv (co_session_generation c) (co_state c)"
    using inv by (simp add: coordinator_inv_def)
  have st': "state_inv (co_session_generation c) (co_state c')"
    using acquire_enqueue_inv [OF inv run] by (simp add: coordinator_inv_def 2)
  have b: "rb_team_run_id b = Some x"
    using work unfolding run_has_work_iff [OF st] run_has_work_iff [OF st']
    by (auto simp: 2 new_lease_def split: if_splits)
  from 2(2) show ?thesis
  proof (cases rule: acquire_enqueue_run)
    case 1
    with b show ?thesis by simp
  next
    case (2 caller)
    with b have False using work(2) first_run_has_work [OF st] unfolding first_run_touched [OF st] by simp
    then show ?thesis ..
  next
    case 3
    with b show ?thesis by (simp add: 2(4))
  qed
qed

lemma abort_work:
  assumes inv: "coordinator_inv c" and run: "abort_enqueue P lease c = (res, c')"
    and work: "run_has_work (co_state c') x"
  shows "run_has_work (co_state c) x"
proof -
  have st: "state_inv (co_session_generation c) (co_state c)"
    using inv by (simp add: coordinator_inv_def)
  have g: "co_session_generation c' = co_session_generation c"
    using run by (cases rule: abort_enqueue_cases) simp_all
  have st': "state_inv (co_session_generation c) (co_state c')"
    using abort_enqueue_inv [OF inv run] g by (simp add: coordinator_inv_def)
  from run have "cs_intents (co_state c') = cs_intents (co_state c)
    \<and> map_of (cs_enqueue_leases (co_state c')) \<subseteq>\<^sub>m map_of (cs_enqueue_leases (co_state c))"
  proof (cases rule: abort_enqueue_cases)
    case (2 lrec)
    have "el_lease_id (lr_lease lrec) = el_lease_id lease"
      using st 2(2) by (auto simp: state_inv_def work_inv_def lease_ok_def)
    then show ?thesis using 2(2) by (auto simp: 2 map_le_def)
  qed (auto simp: map_le_def)
  with work show ?thesis
    unfolding run_has_work_iff [OF st] run_has_work_iff [OF st'] by (auto simp: map_le_def dom_def)
qed

lemma call_work:
  assumes "coordinator_call P s s'" and "system_inv s"
    and "run_has_work (state_of s') x" and "\<not> run_has_work (state_of s) x"
  shows "\<exists>req b. bind_enqueue P req (co_run_causality (sy_coordinator s)) = (b, co_run_causality (sy_coordinator s'))
    \<and> rb_team_run_id b = Some x"
proof -
  have tame: False if "tame P (sy_coordinator s) (sy_coordinator s')"
  proof -
    have "state_inv (co_session_generation (sy_coordinator s)) (state_of s)"
      "state_inv (co_session_generation (sy_coordinator s')) (state_of s')"
      using assms(2) call_inv [OF assms(1,2)] by (simp_all add: system_inv_def coordinator_inv_def)
    moreover have "settles (state_of s) (state_of s')"
      "co_session_generation (sy_coordinator s') = co_session_generation (sy_coordinator s)"
      using that by (simp_all add: tame_def)
    ultimately show False using settles_work assms(3,4) by metis
  qed
  have c: "coordinator_inv (sy_coordinator s)" using assms(2) by (simp add: system_inv_def)
  have own: "is_current_batch (sy_coordinator s) b \<Longrightarrow> holds (sy_coordinator s) b" if "b \<in> sy_issued s" for b
    using assms(2) that by (auto simp: system_inv_def intro: issued_holds)
  from assms(1) show ?thesis
  proof cases
    case (acquire lid U req c0 res c' B)
    then show ?thesis using acquire_work [of c0 P lid req res c' x] c assms(3,4) by auto
  next
    case (commit y U now lease msg c0 res c' B)
    have "map_of (cs_intents (co_state c0)) y = None"
      using assms(2) commit by (auto simp: system_inv_def ids_ok_def)
    from commit_enqueue_work(1) [OF _ this commit(4)] commit c assms(3,4) show ?thesis by simp
  next
    case (abort lease c0 res c' B U)
    then show ?thesis using abort_work [of c0 P lease res c' x] c assms(3,4) by simp
  next
    case (reconcile gen U times_ms sid unread role c0 proj c' B)
    have "\<And>j. map_of (cs_intents (co_state c0)) (gen j) = None"
      using assms(2) reconcile by (auto simp: system_inv_def ids_ok_def)
    from reconcile_mailbox_effect [OF _ reconcile(3) this reconcile(5), of x] reconcile c assms(3,4)
    show ?thesis by simp
  next
    case (claim bid U sid c0 d c' B)
    then have "settles (co_state c0) (co_state c')" "co_session_generation c' = co_session_generation c0"
      "coordinator_inv c'"
      using next_work_effect [of c0 P bid sid d c'] next_work_inv [of c0 P bid sid d c'] c by simp_all
    then show ?thesis
      using settles_work [of "co_state c0" "co_state c'" "co_session_generation c0" x] c assms(3,4) claim
      by (simp add: coordinator_inv_def)
  next
    case (started b B now tid c0 sres c' U)
    then show ?thesis using tame mark_started_tame [of c0 b P now tid sres c'] c own by auto
  next
    case (retried b B c0 cres c' U)
    then show ?thesis using tame retry_start_tame [of c0 b P cres c'] c own by auto
  next
    case (completed b B c0 cres c' U)
    then show ?thesis using tame terminalize_batch_tame [of c0 b P] c own by (auto simp: complete_batch_def)
  next
    case (failed b B cls c0 cres c' U)
    then show ?thesis using tame terminalize_batch_tame [of c0 b P] c own by (auto simp: fail_batch_def)
  next
    case (cancelled b B cls c0 cres c' U)
    then show ?thesis using tame terminalize_batch_tame [of c0 b P] c own by (auto simp: cancel_batch_def)
  next
    case (signals sid ids c0 cres c' B U)
    then show ?thesis using tame complete_signals_tame [of c0 P sid ids cres c'] c by simp
  next
    case (run_cancelled run c0 rres c' B U)
    then show ?thesis using tame cancel_run_tame [of c0 P run rres c'] c by simp
  next
    case (paused sid c0 pres c' B U)
    then show ?thesis using tame pause_slot_tame [of c0 sid pres c' P] c by simp
  next
    case (constraint sid k c0 ures c' B U)
    then show ?thesis using tame set_runtime_constraint_tame [of c0 P sid k ures c'] c by simp
  next
    case (removed sid c0 wres c' B U)
    then show ?thesis using tame remove_slot_tame [of c0 P sid wres c'] c by simp
  next
    case (stopped c0 sums c' B U)
    then show ?thesis using tame stop_tame [of c0 P sums c'] c by simp
  next
    case (rehash c0 st B U)
    have st: "state_inv (co_session_generation c0) (co_state c0)"
      using c rehash by (simp add: coordinator_inv_def)
    note R = rehashed_maps [OF st rehash(3)]
    have "run_has_work st x = run_has_work (co_state c0) x"
      by (simp add: run_has_work_iff [OF st] run_has_work_iff [OF R(3)] R)
    with rehash assms(3,4) show ?thesis by simp
  qed
qed

section \<open>What is pending and what is reported is justified\<close>

text \<open>The run had no work at some earlier moment at which the run manager already knew it.\<close>

definition out_of_work :: "string \<Rightarrow> string \<Rightarrow> run_link system \<Rightarrow> string \<Rightarrow> bool" where
  "out_of_work team g s x \<longleftrightarrow>
     (\<exists>s0. run_reachable team g s0 \<and> run_step\<^sup>*\<^sup>* s0 s \<and> run_status (ln_manager (link_of s0)) x \<noteq> None
        \<and> \<not> run_has_work (state_of s0) x)"

definition summary_true :: "string \<Rightarrow> string \<Rightarrow> run_link system \<Rightarrow> run_work_summary \<Rightarrow> bool" where
  "summary_true team g s m \<longleftrightarrow>
     (0 < rs_failed_intent_count m \<longrightarrow> run_has_failed (state_of s) (rs_team_run_id m))
     \<and> (no_work m \<longrightarrow> run_status (ln_manager (link_of s)) (rs_team_run_id m) \<noteq> None
          \<longrightarrow> out_of_work team g s (rs_team_run_id m))"

definition runs_ok :: "string \<Rightarrow> string \<Rightarrow> run_link system \<Rightarrow> bool" where
  "runs_ok team g s \<longleftrightarrow>
     (\<forall>m. Deliver_Summary m \<in> set (ln_pending (link_of s)) \<longrightarrow> summary_true team g s m)
     \<and> rc.justified (run_has_failed (state_of s)) (out_of_work team g s) (ln_manager (link_of s))"

lemma out_of_work_step: "out_of_work team g s x \<Longrightarrow> run_step s s' \<Longrightarrow> out_of_work team g s' x"
  unfolding out_of_work_def by (meson rtranclp.rtrancl_into_rtrancl)

lemma evolves_failed:
  assumes "evolves c c' U" and "coordinator_inv c" and "coordinator_inv c'"
    and "run_has_failed (co_state c) x"
  shows "run_has_failed (co_state c') x"
proof -
  have st: "state_inv (co_session_generation c) (co_state c)" "state_inv (co_session_generation c') (co_state c')"
    using assms(2,3) by (simp_all add: coordinator_inv_def)
  from assms(4) obtain y i where y: "map_of (cs_intents (co_state c)) y = Some i" "wi_team_run_id i = Some x"
    "is_failed (wi_state i)" unfolding run_has_failed_iff [OF st(1)] by blast
  moreover have "is_terminal (wi_state i)" using y(3) by (cases "wi_state i") simp_all
  ultimately have "map_of (cs_intents (co_state c')) y = Some i"
    using assms(1) unfolding evolves_def by fastforce
  with y show ?thesis unfolding run_has_failed_iff [OF st(2)] by blast
qed

lemma run_step_failed:
  assumes "run_step s s'" and "system_inv s" and "run_has_failed (state_of s) x"
  shows "run_has_failed (state_of s') x"
proof (rule evolves_failed [OF _ _ _ assms(3)])
  show "evolves (sy_coordinator s) (sy_coordinator s') (sy_used s)"
    using step_evolves [OF run_step_step [OF assms(1)] assms(2)] by blast
  show "coordinator_inv (sy_coordinator s)" "coordinator_inv (sy_coordinator s')"
    using assms(2) step_inv [OF run_step_step [OF assms(1)] assms(2)] by (simp_all add: system_inv_def)
qed

lemma summary_true_step:
  assumes "summary_true team g s m" and "run_step s s'" and "system_inv s"
    and "run_status (ln_manager (link_of s')) (rs_team_run_id m) \<noteq> None
      \<Longrightarrow> run_status (ln_manager (link_of s)) (rs_team_run_id m) \<noteq> None"
  shows "summary_true team g s' m"
  using assms(1,4) run_step_failed [OF assms(2,3)] out_of_work_step [OF _ assms(2)]
  unfolding summary_true_def by blast

lemma summary_true_locked:
  assumes "run_reachable team g s"
  shows "summary_true team g s (run_summary_locked (state_of s) x)"
  using assms unfolding summary_true_def out_of_work_def
  by (auto simp: failed_summary no_work_summary)

lemma called_ok:
  assumes ok: "runs_ok team g s" and r: "run_reachable team g s" and fresh: "fresh_run run_id (link_of s)"
    and call: "coordinator_call (outbox_port run_id) s s'"
  shows "runs_ok team g s'"
proof -
  have step: "run_step s s'" by (rule run_step.called [OF fresh call])
  note inv = run_reachable_inv [OF r]
  from call_publishes [OF call inv] obtain ds where
    ds: "ln_pending (link_of s') = ln_pending (link_of s) @ ds"
      "\<And>m. Deliver_Summary m \<in> set ds \<Longrightarrow> \<exists>x. m = run_summary_locked (state_of s') x"
    and m: "ln_manager (link_of s') = ln_manager (link_of s)
      \<or> (\<exists>req b. manager_bind_enqueue run_id req (ln_manager (link_of s)) = (b, ln_manager (link_of s')))"
    unfolding publishes_def by blast
  have known: "x = run_id" if "run_status (ln_manager (link_of s')) x \<noteq> None" "run_status (ln_manager (link_of s)) x = None" for x
  proof (rule ccontr)
    assume "x \<noteq> run_id"
    then have "run_status r' x = None" if "manager_bind_enqueue run_id req (ln_manager (link_of s)) = (b, r')" for req b r'
      using rc.unknown_stays(3) [of "ln_manager (link_of s)" x run_id "\<lambda>_. 0" req b r'] that \<open>run_status (ln_manager (link_of s)) x = None\<close>
      by (simp add: manager_port_def)
    with m that show False by auto
  qed
  have "summary_true team g s' m" if "Deliver_Summary m \<in> set (ln_pending (link_of s'))" for m
  proof (cases "Deliver_Summary m \<in> set ds")
    case True
    with ds(2) summary_true_locked [OF moved [OF r step]] show ?thesis by blast
  next
    case False
    with that ds(1) have p: "Deliver_Summary m \<in> set (ln_pending (link_of s))" by simp
    then have "rs_team_run_id m \<noteq> run_id" using fresh by (auto simp: fresh_run_def list_ex_iff)
    with known [of "rs_team_run_id m"] p ok show ?thesis
      by (intro summary_true_step [OF _ step inv]) (auto simp: runs_ok_def)
  qed
  moreover have "rc.justified (run_has_failed (state_of s')) (out_of_work team g s') (ln_manager (link_of s))"
    using ok run_step_failed [OF step inv] out_of_work_step [OF _ step]
    by (auto simp: runs_ok_def intro: rc.justified_mono)
  then have "rc.justified (run_has_failed (state_of s')) (out_of_work team g s') (ln_manager (link_of s'))"
    using m rc.justified_bind [of _ _ _ run_id "\<lambda>_. 0"] by (auto simp: manager_port_def)
  ultimately show ?thesis by (simp add: runs_ok_def)
qed

lemma delivered_justified:
  assumes "rc.justified F I m" and "\<And>s. d = Deliver_Summary s \<Longrightarrow> 0 < rs_failed_intent_count s \<Longrightarrow> F (rs_team_run_id s)"
    and "\<And>s. d = Deliver_Summary s \<Longrightarrow> no_work s \<Longrightarrow> run_status m (rs_team_run_id s) \<noteq> None \<Longrightarrow> I (rs_team_run_id s)"
  shows "rc.justified F I (deliver clock d m)"
proof (cases d)
  case (Deliver_Summary s)
  with assms rc.justified_apply [of F I m s "[]" clock] show ?thesis by (simp add: manager_port_def)
next
  case (Deliver_Abort b)
  with assms rc.justified_abort [of F I m "[]" clock b] show ?thesis by (simp add: manager_port_def)
qed

lemma deliver_unknown: "run_status m x = None \<Longrightarrow> run_status (deliver clock d m) x = None"
  using rc.unknown_stays(1,2) [of m x "[]" clock] by (cases d) (auto simp: manager_port_def)

lemma begin_cancel_justified:
  assumes "rc.justified F I m" and "begin_cancel clock run reason m = (res, m')"
  shows "rc.justified F I m'"
  using assms(1) begin_cancel_status [OF assms(2)] unfolding rc.justified_def by fastforce

lemma begin_cancel_known:
  assumes "begin_cancel clock run reason m = (res, m')" and "run_status m' x \<noteq> None"
  shows "run_status m x \<noteq> None"
  using assms by (auto simp: begin_cancel_def run_status_def broadcast_team_run_def Let_def split: option.splits if_splits)

lemma step_runs_ok:
  assumes "run_step s s'" and "runs_ok team g s" and r: "run_reachable team g s"
  shows "runs_ok team g s'"
  using assms(1,2) r
proof (induction rule: run_step.induct)
  case (called run_id s s')
  then show ?case using called_ok by blast
next
  case (delivered s ds d es l clock)
  let ?s = "s\<lparr>sy_coordinator := (sy_coordinator s)\<lparr>co_run_causality := l\<rparr>\<rparr>"
  have step: "run_step s ?s" by (rule run_step.delivered [OF delivered(1,2)])
  note inv = run_reachable_inv [OF delivered(4)]
  have "summary_true team g ?s m" if "Deliver_Summary m \<in> set (ds @ es)" for m
  proof (rule summary_true_step [OF _ step inv])
    show "summary_true team g s m" using that delivered(1,3) by (auto simp: runs_ok_def)
    show "run_status (ln_manager (link_of s)) (rs_team_run_id m) \<noteq> None"
      if "run_status (ln_manager (link_of ?s)) (rs_team_run_id m) \<noteq> None"
      using that deliver_unknown [of "ln_manager (link_of s)" "rs_team_run_id m" clock d]
      by (auto simp: delivered(2) simp del: not_None_eq)
  qed
  moreover have "rc.justified (run_has_failed (state_of s)) (out_of_work team g s) (deliver clock d (ln_manager (link_of s)))"
    using delivered(1,3) by (intro delivered_justified) (auto simp: runs_ok_def summary_true_def)
  then have "rc.justified (run_has_failed (state_of ?s)) (out_of_work team g ?s) (ln_manager (link_of ?s))"
    using out_of_work_step [OF _ step] by (auto simp: delivered(2) intro: rc.justified_mono)
  ultimately show ?case by (simp add: runs_ok_def delivered(2))
next
  case (cancel_begun clock run reason s res m)
  let ?s = "s\<lparr>sy_coordinator := (sy_coordinator s)\<lparr>co_run_causality := (link_of s)\<lparr>ln_manager := m\<rparr>\<rparr>\<rparr>"
  have step: "run_step s ?s" by (rule run_step.cancel_begun [OF cancel_begun(1)])
  note inv = run_reachable_inv [OF cancel_begun(3)]
  have "summary_true team g ?s t" if "Deliver_Summary t \<in> set (ln_pending (link_of s))" for t
    using that cancel_begun(2) begin_cancel_known [OF cancel_begun(1)]
    by (intro summary_true_step [OF _ step inv]) (auto simp: runs_ok_def)
  moreover have "rc.justified (run_has_failed (state_of s)) (out_of_work team g s) m"
    using cancel_begun(2) begin_cancel_justified [OF _ cancel_begun(1)] by (simp add: runs_ok_def)
  then have "rc.justified (run_has_failed (state_of ?s)) (out_of_work team g ?s) (ln_manager (link_of ?s))"
    using out_of_work_step [OF _ step] by (auto intro: rc.justified_mono)
  ultimately show ?case by (simp add: runs_ok_def)
qed

lemma run_reachable_ok: "run_reachable team g s \<Longrightarrow> runs_ok team g s"
proof (induction rule: run_reachable.induct)
  case created
  then show ?case
    by (simp add: runs_ok_def initial_system_def new_coordinator_def new_run_manager_def run_status_def rc.justified_def)
next
  case (moved s s')
  then show ?case using step_runs_ok by blast
qed

text \<open>A run that gets work back is active in the run manager at that moment.\<close>

lemma new_work_of_active_run:
  assumes "run_step s s'" and "system_inv s" and "run_has_work (state_of s') x" and "\<not> run_has_work (state_of s) x"
  shows "\<exists>q. run_status (ln_manager (link_of s')) x = Some q \<and> status_is_active q"
  using assms(1)
proof cases
  case (called run_id)
  from call_work [OF called(2) assms(2-4)] obtain req b where
    b: "bind_enqueue (outbox_port run_id) req (link_of s) = (b, link_of s')" "rb_team_run_id b = Some x" by blast
  then have "manager_bind_enqueue run_id req (ln_manager (link_of s)) = (b, ln_manager (link_of s'))"
    by (auto simp: outbox_port_def split: prod.splits dest!: arg_cong [where f = ln_manager])
  then show ?thesis
    using rc.bind_active [of run_id "\<lambda>_. 0" req _ b] b(2) by (simp add: manager_port_def)
qed (use assms(3,4) in auto)

end
