(* ===== verification/Work_Properties.thy ===== *)
theory Work_Properties
  imports Run_Publication
begin

text \<open>
  The properties of the team work coordinator and its run manager: what holds in every reachable
  state of the system (\<open>Work_System\<close>), and what each operation promises.
\<close>

section \<open>Small systems\<close>

text \<open>A request, a system reached by a few steps: the inputs of the witnesses.\<close>

definition demo_request :: "string \<Rightarrow> work_source \<Rightarrow> causal_binding \<Rightarrow> enqueue_request" where
  "demo_request sid src bnd =
     \<lparr>er_slot_id = sid, er_role = RoleTeammate, er_source = src, er_binding = bnd\<rparr>"

abbreviation demo_port :: "string \<Rightarrow> run_manager run_causality_port" where
  "demo_port rid \<equiv> manager_port rid (\<lambda>_. 0)"

definition demo_lease :: "enqueue_lease" where
  "demo_lease = \<lparr>el_lease_id = ''l'', el_session_generation = ''g'', el_slot_id = ''s'',
     el_role = RoleTeammate, el_source = UserMessage, el_team_run_id = Some ''r''\<rparr>"

text \<open>A user message for the slot \<open>s\<close> in the new run \<open>r\<close>: lease, intent, ready, batch.\<close>

definition demo_leased :: "run_manager coordinator" where
  "demo_leased = snd (acquire_enqueue (demo_port ''r'') ''l'' (demo_request ''s'' UserMessage UserVisible)
     (new_coordinator ''t'' ''g'' (new_run_manager ''t'')))"

definition demo_queued :: "run_manager coordinator" where
  "demo_queued = snd (ret_val (commit_enqueue (demo_port ''r'') ''i'' 5 demo_lease (Some ''m'') demo_leased))"

definition demo_ready :: "run_manager coordinator" where
  "demo_ready = snd (ret_val (set_runtime_constraint (demo_port ''r'') ''s'' RcReady demo_queued))"

definition demo_batch :: work_batch where
  "demo_batch = \<lparr>wb_batch_id = ''b'', wb_session_generation = ''g'', wb_slot_id = ''s'',
     wb_intent_ids = [''i''], wb_mailbox_message_ids = [''m''], wb_highest_priority = Foreground,
     wb_team_run_ids = [''r''], wb_operation_id = 1\<rparr>"

definition demo_claimed :: "run_manager coordinator" where
  "demo_claimed = snd (ret_val (next_work (demo_port ''r'') ''b'' ''s'' demo_ready))"

definition demo_completed :: "run_manager coordinator" where
  "demo_completed = snd (ret_val (complete_batch (demo_port ''r'') demo_batch demo_claimed))"

lemma demo_leased_step:
  "fst (acquire_enqueue (demo_port ''r'') ''l'' (demo_request ''s'' UserMessage UserVisible)
     (new_coordinator ''t'' ''g'' (new_run_manager ''t''))) = Inr demo_lease"
  by code_simp

lemma demo_queued_step:
  "commit_enqueue (demo_port ''r'') ''i'' 5 demo_lease (Some ''m'') demo_leased
     = Ret (fst (ret_val (commit_enqueue (demo_port ''r'') ''i'' 5 demo_lease (Some ''m'') demo_leased)), demo_queued)"
  using commit_enqueue_returns [of "demo_port ''r''" "''i''" 5 demo_lease "Some ''m''" demo_leased]
  by (auto simp: demo_queued_def returns_iff)

lemma returns_pair: "returns m \<Longrightarrow> m = Ret (fst (ret_val m), snd (ret_val m))"
  by (cases m) simp_all

definition demo_system :: "run_manager system" where
  "demo_system = \<lparr>sy_coordinator = demo_claimed, sy_issued = {demo_batch},
     sy_used = {''b'', ''i'', ''l''}\<rparr>"

lemma demo_claim: "fst (ret_val (next_work (demo_port ''r'') ''b'' ''s'' demo_ready)) = Claim demo_batch"
  by code_simp

lemma demo_reachable_leased:
  "reachable ''t'' ''g'' \<lparr>sy_coordinator = demo_leased, sy_issued = {}, sy_used = {''l''}\<rparr>"
proof (rule by_step [OF initially])
  show "step (initial_system ''t'' ''g'' (new_run_manager ''t''))
      \<lparr>sy_coordinator = demo_leased, sy_issued = {}, sy_used = {''l''}\<rparr>"
    unfolding initial_system_def
    by (rule step_acquire [of "''l''" "{}" "demo_port ''r''" "demo_request ''s'' UserMessage UserVisible"
          _ "fst (acquire_enqueue (demo_port ''r'') ''l'' (demo_request ''s'' UserMessage UserVisible)
             (new_coordinator ''t'' ''g'' (new_run_manager ''t'')))"])
      (simp_all add: demo_leased_def)
qed

lemma demo_reachable_queued:
  "reachable ''t'' ''g'' \<lparr>sy_coordinator = demo_queued, sy_issued = {}, sy_used = {''i'', ''l''}\<rparr>"
  by (rule by_step [OF demo_reachable_leased], rule step_commit [OF _ demo_queued_step]) simp

lemma demo_reachable_ready:
  "reachable ''t'' ''g'' \<lparr>sy_coordinator = demo_ready, sy_issued = {}, sy_used = {''i'', ''l''}\<rparr>"
proof -
  have "coordinator_inv demo_queued"
    using reachable_inv [OF demo_reachable_queued] by (simp add: system_inv_def)
  from returns_pair [OF set_runtime_constraint_returns [OF this, of "demo_port ''r''" "''s''" RcReady]]
  have "set_runtime_constraint (demo_port ''r'') ''s'' RcReady demo_queued
    = Ret (fst (ret_val (set_runtime_constraint (demo_port ''r'') ''s'' RcReady demo_queued)), demo_ready)"
    by (simp add: demo_ready_def)
  then show ?thesis
    by (rule by_step [OF demo_reachable_queued step_constraint])
qed

lemma demo_reachable: "reachable ''t'' ''g'' demo_system"
proof -
  have "coordinator_inv demo_ready"
    using reachable_inv [OF demo_reachable_ready] by (simp add: system_inv_def)
  from returns_pair [OF next_work_returns [OF this, of "demo_port ''r''" "''b''" "''s''"]]
  have "next_work (demo_port ''r'') ''b'' ''s'' demo_ready = Ret (Claim demo_batch, demo_claimed)"
    unfolding demo_claim by (simp add: demo_claimed_def)
  then have "step \<lparr>sy_coordinator = demo_ready, sy_issued = {}, sy_used = {''i'', ''l''}\<rparr>
      \<lparr>sy_coordinator = demo_claimed, sy_issued = {} \<union> claimed (Claim demo_batch),
       sy_used = insert ''b'' {''i'', ''l''}\<rparr>"
    by (intro step_claim) simp_all
  then show ?thesis
    using by_step [OF demo_reachable_ready] by (simp add: demo_system_def)
qed

section \<open>Where the intents are\<close>

definition in_batch :: "string \<Rightarrow> slot_state \<Rightarrow> bool" where
  "in_batch x slot \<longleftrightarrow>
     (case ss_active slot of None \<Rightarrow> False | Some a \<Rightarrow> x \<in> set (wb_intent_ids (ab_batch a)))"

lemma reachable_state_inv:
  "reachable team g s \<Longrightarrow> state_inv (co_session_generation (sy_coordinator s)) (co_state (sy_coordinator s))"
  using reachable_inv [of team g s] by (simp add: system_inv_def coordinator_inv_def)

lemma slot_members_open:
  assumes st: "state_inv g st" and slot: "map_of (cs_slots st) sid = Some slot"
    and x: "x \<in> set (queued_ids slot) \<or> in_batch x slot"
  shows "\<exists>i. map_of (cs_intents st) x = Some i \<and> wi_slot_id i = sid \<and> \<not> is_terminal (wi_state i)"
proof -
  note inv = state_inv_slotD [OF st slot]
  from x show ?thesis
  proof
    assume "x \<in> set (queued_ids slot)"
    then obtain p where "x \<in> set (queue p slot)" using set_queued_ids by blast
    from slot_inv_queueD [OF inv this] show ?thesis by auto
  next
    assume "in_batch x slot"
    then obtain a where a: "ss_active slot = Some a" "x \<in> set (wb_intent_ids (ab_batch a))"
      by (auto simp: in_batch_def split: option.splits)
    from active_inv_intentD [OF slot_inv_activeD [OF inv a(1)] a(2)] show ?thesis
      by (auto simp: open_iff)
  qed
qed

text \<open>C1. In every reachable state an open intent is in exactly one place: a queued one is once in
  the queues of its own slot, in the queue of its priority, and in no batch; a starting or running
  one is in no queue but in the active batch of its own slot, in the state the batch is in; and no
  other slot has it.\<close>

theorem open_intent_in_one_place:
  assumes "reachable team g s" and "st = co_state (sy_coordinator s)"
    and "map_of (cs_intents st) x = Some i" and "\<not> is_terminal (wi_state i)"
  shows "\<exists>slot. map_of (cs_slots st) (wi_slot_id i) = Some slot
    \<and> (if wi_state i = WsQueued
        then count_list (queued_ids slot) x = 1 \<and> x \<in> set (queue (wi_priority i) slot) \<and> \<not> in_batch x slot
        else x \<notin> set (queued_ids slot) \<and> in_batch x slot
             \<and> map_option batch_state (ss_active slot) = Some (wi_state i))
    \<and> (\<forall>(k, other) \<in> set (cs_slots st). k \<noteq> wi_slot_id i
         \<longrightarrow> x \<notin> set (queued_ids other) \<and> \<not> in_batch x other)"
proof -
  have inv: "state_inv (co_session_generation (sy_coordinator s)) st" (is "state_inv ?g st")
    using reachable_state_inv [OF assms(1)] assms(2) by simp
  from open_slot_exists [OF inv assms(3,4)] obtain slot where
    slot: "map_of (cs_slots st) (wi_slot_id i) = Some slot" by blast
  note sl = state_inv_slotD [OF inv slot]
  have J: "slot_intents (map_of (cs_intents st)) (wi_slot_id i) x = Some i"
    using assms(3) by simp
  have "x \<notin> set (queued_ids other) \<and> \<not> in_batch x other"
    if "(k, other) \<in> set (cs_slots st)" "k \<noteq> wi_slot_id i" for k other
  proof -
    have "map_of (cs_slots st) k = Some other"
      using that(1) inv by (simp add: state_inv_def bt_sorted_distinct)
    from slot_members_open [OF inv this, of x] assms(3) that(2) show ?thesis by auto
  qed
  moreover have "if wi_state i = WsQueued
        then count_list (queued_ids slot) x = 1 \<and> x \<in> set (queue (wi_priority i) slot) \<and> \<not> in_batch x slot
        else x \<notin> set (queued_ids slot) \<and> in_batch x slot
             \<and> map_option batch_state (ss_active slot) = Some (wi_state i)"
  proof (cases "wi_state i = WsQueued")
    case True
    have q: "x \<in> set (queue (wi_priority i) slot)"
      by (rule slot_inv_queueI [OF sl J True])
    then have "x \<in> set (queued_ids slot)" using set_queued_ids by blast
    with slot_inv_distinct_queued [OF sl] have "count_list (queued_ids slot) x = 1"
      by (simp add: count_list_distinct)
    moreover have "\<not> in_batch x slot"
    proof
      assume "in_batch x slot"
      then obtain a where a: "ss_active slot = Some a" "x \<in> set (wb_intent_ids (ab_batch a))"
        by (auto simp: in_batch_def split: option.splits)
      from active_inv_intentD [OF slot_inv_activeD [OF sl a(1)] a(2)] J True show False by auto
    qed
    ultimately show ?thesis using q True by simp
  next
    case False
    then have "in_flight (wi_state i)" using assms(4) by (simp add: open_iff)
    from slot_inv_flightD [OF sl J this] obtain a where
      a: "ss_active slot = Some a" "x \<in> set (wb_intent_ids (ab_batch a))" by blast
    moreover from active_inv_intentD [OF slot_inv_activeD [OF sl a(1)] a(2)] J
    have "wi_state i = batch_state a" by auto
    moreover have "x \<notin> set (queued_ids slot)"
      using set_queued_ids [of x slot] slot_inv_queueD [OF sl] J False by fastforce
    ultimately show ?thesis using False by (simp add: in_batch_def)
  qed
  ultimately show ?thesis using slot by auto
qed

theorem open_intent_in_one_place_witness:
  "\<exists>i slot. map_of (cs_intents (co_state demo_claimed)) ''i'' = Some i
    \<and> map_of (cs_slots (co_state demo_claimed)) (wi_slot_id i) = Some slot \<and> in_batch ''i'' slot"
proof -
  obtain i where i: "map_of (cs_intents (co_state demo_claimed)) ''i'' = Some i"
    "wi_state i = WsStarting ''b'' 1"
  proof -
    have "map_option wi_state (map_of (cs_intents (co_state demo_claimed)) ''i'') = Some (WsStarting ''b'' 1)"
      by code_simp
    then show ?thesis using that by auto
  qed
  have "\<not> is_terminal (wi_state i)" using i(2) by simp
  from open_intent_in_one_place [OF demo_reachable refl, of "''i''" i] i this show ?thesis
    by (auto simp: demo_system_def)
qed

text \<open>C2. Conversely, in every reachable state each identifier in a queue or in the active batch of
  a slot is an open intent of that slot, no identifier is queued twice, and the active batch has
  its slot's name, the session's generation and the same priority as each of its intents.\<close>

theorem queues_and_batches_are_open:
  assumes "reachable team g s" and "st = co_state (sy_coordinator s)"
    and "map_of (cs_slots st) sid = Some slot"
  shows "distinct (queued_ids slot)
    \<and> (\<forall>x. x \<in> set (queued_ids slot) \<or> in_batch x slot \<longrightarrow>
          (\<exists>i. map_of (cs_intents st) x = Some i \<and> wi_slot_id i = sid \<and> \<not> is_terminal (wi_state i)))
    \<and> (\<forall>a. ss_active slot = Some a \<longrightarrow>
          wb_slot_id (ab_batch a) = sid \<and> wb_intent_ids (ab_batch a) \<noteq> []
          \<and> wb_session_generation (ab_batch a) = co_session_generation (sy_coordinator s)
          \<and> (\<forall>x \<in> set (wb_intent_ids (ab_batch a)). map_option wi_priority (map_of (cs_intents st) x)
                = Some (wb_highest_priority (ab_batch a))))"
proof -
  have inv: "state_inv (co_session_generation (sy_coordinator s)) st"
    using reachable_state_inv [OF assms(1)] assms(2) by simp
  note sl = state_inv_slotD [OF inv assms(3)]
  have "wb_slot_id (ab_batch a) = sid \<and> wb_intent_ids (ab_batch a) \<noteq> []
          \<and> wb_session_generation (ab_batch a) = co_session_generation (sy_coordinator s)
          \<and> (\<forall>x \<in> set (wb_intent_ids (ab_batch a)). map_option wi_priority (map_of (cs_intents st) x)
                = Some (wb_highest_priority (ab_batch a)))" if a: "ss_active slot = Some a" for a
    using active_invD [OF slot_inv_activeD [OF sl a]] active_inv_intentD [OF slot_inv_activeD [OF sl a]]
    by fastforce
  then show ?thesis
    using slot_inv_distinct_queued [OF sl] slot_members_open [OF inv assms(3)] by blast
qed

theorem queues_and_batches_are_open_witness:
  "\<exists>slot. map_of (cs_slots (co_state demo_claimed)) ''s'' = Some slot \<and> distinct (queued_ids slot)
     \<and> ss_active slot \<noteq> None"
proof -
  have "map_option (\<lambda>s. ss_active s \<noteq> None) (map_of (cs_slots (co_state demo_claimed)) ''s'') = Some True"
    by code_simp
  then obtain slot where "map_of (cs_slots (co_state demo_claimed)) ''s'' = Some slot"
    "ss_active slot \<noteq> None" by auto
  with queues_and_batches_are_open [OF demo_reachable refl, of "''s''" slot] show ?thesis
    by (auto simp: demo_system_def)
qed

text \<open>C3. No operation of the coordinator panics in a reachable state, whatever its arguments: every
  \<open>expect\<close> and \<open>unreachable!\<close> of the code is safe.\<close>

theorem no_operation_panics:
  assumes "reachable team g s" and "c = sy_coordinator s"
  shows "returns (commit_enqueue P x now lease msg c)
    \<and> returns (reconcile_mailbox gen times_ms sid unread role c)
    \<and> returns (next_work P bid sid c) \<and> returns (retry_start P b c)
    \<and> returns (complete_batch P b c) \<and> returns (fail_batch P b cls c) \<and> returns (cancel_batch P b cls c)
    \<and> returns (cancel_run P run c) \<and> returns (pause_slot sid c)
    \<and> returns (set_runtime_constraint P sid k c) \<and> returns (remove_slot P sid c)"
proof -
  have "coordinator_inv c"
    using reachable_inv [OF assms(1)] assms(2) by (simp add: system_inv_def)
  then show ?thesis
    by (simp add: commit_enqueue_returns reconcile_mailbox_returns next_work_returns retry_start_returns
        complete_batch_def fail_batch_def cancel_batch_def terminalize_batch_returns cancel_run_returns
        pause_slot_returns set_runtime_constraint_returns remove_slot_returns)
qed

theorem no_operation_panics_witness:
  "returns (cancel_run (demo_port ''r'') ''r'' demo_claimed)
    \<and> returns (set_runtime_constraint (demo_port ''r'') ''s'' RcSessionStopped demo_claimed)"
  using no_operation_panics [OF demo_reachable refl, where P = "demo_port ''r''"]
  by (simp add: demo_system_def)

section \<open>Over time\<close>

lemma steps_reachable: "step\<^sup>*\<^sup>* s s' \<Longrightarrow> reachable team g s \<Longrightarrow> reachable team g s'"
  by (induction rule: rtranclp_induct) (auto intro: by_step)



definition demo_ended :: "run_manager system" where
  "demo_ended = \<lparr>sy_coordinator = demo_completed, sy_issued = {demo_batch},
     sy_used = {''b'', ''i'', ''l''}\<rparr>"

lemma demo_step: "step demo_system demo_ended"
proof -
  have "returns (complete_batch (demo_port ''r'') demo_batch demo_claimed)"
    by (simp add: complete_batch_def terminalize_batch_returns)
  from returns_pair [OF this] have "complete_batch (demo_port ''r'') demo_batch demo_claimed
    = Ret (fst (ret_val (complete_batch (demo_port ''r'') demo_batch demo_claimed)), demo_completed)"
    by (simp add: demo_completed_def)
  then show ?thesis
    unfolding demo_system_def demo_ended_def by (rule step_completed [rotated]) simp
qed



lemma steps_keep_intents:
  assumes "step\<^sup>*\<^sup>* s s'" and "system_inv s"
    and "map_of (cs_intents (co_state (sy_coordinator s))) x = Some i"
  shows "system_inv s' \<and> (\<exists>t. map_of (cs_intents (co_state (sy_coordinator s'))) x = Some (set_state t i)
    \<and> (is_terminal (wi_state i) \<longrightarrow> t = wi_state i))"
  using assms(1)
proof (induction rule: rtranclp_induct)
  case base
  have "set_state (wi_state i) i = i" by simp
  with assms(2,3) show ?case by metis
next
  case (step s1 s2)
  then obtain t where inv: "system_inv s1"
    and t: "map_of (cs_intents (co_state (sy_coordinator s1))) x = Some (set_state t i)"
    "is_terminal (wi_state i) \<longrightarrow> t = wi_state i" by blast
  from step_evolves [OF step(2) inv] t(1) obtain u where
    "map_of (cs_intents (co_state (sy_coordinator s2))) x = Some (set_state u (set_state t i))"
    "is_terminal (wi_state (set_state t i)) \<longrightarrow> u = wi_state (set_state t i)"
    unfolding evolves_def by blast
  then show ?case
    using t(2) step_inv [OF step(2) inv] by auto
qed

text \<open>C5. Intents are never lost, and their outcome is final: after any steps from a reachable state
  an intent is still there with the same slot, source, priority, message and run, only its state
  may differ; once it is completed, failed or cancelled, not even that.\<close>

theorem intents_persist_and_outcomes_are_final:
  assumes "reachable team g s" and "map_of (cs_intents (co_state (sy_coordinator s))) x = Some i"
    and "step\<^sup>*\<^sup>* s s'"
  shows "\<exists>t. map_of (cs_intents (co_state (sy_coordinator s'))) x = Some (i\<lparr>wi_state := t\<rparr>)
    \<and> (is_terminal (wi_state i) \<longrightarrow> t = wi_state i)"
  using steps_keep_intents [OF assms(3) reachable_inv [OF assms(1)] assms(2)] by blast

theorem intents_persist_and_outcomes_are_final_witness:
  "\<exists>i t. map_of (cs_intents (co_state demo_claimed)) ''i'' = Some i
    \<and> map_of (cs_intents (co_state demo_completed)) ''i'' = Some (i\<lparr>wi_state := t\<rparr>)"
proof -
  have "map_of (cs_intents (co_state demo_claimed)) ''i'' \<noteq> None" by code_simp
  then obtain i where i: "map_of (cs_intents (co_state (sy_coordinator demo_system))) ''i'' = Some i"
    by (auto simp: demo_system_def simp del: map_of_eq_None_iff)
  from intents_persist_and_outcomes_are_final [OF demo_reachable i r_into_rtranclp [of step, OF demo_step]] i
  show ?thesis
    unfolding demo_system_def demo_ended_def system.simps by blast
qed

text \<open>C6. The run manager ends a run only with reason, however late and in whatever order the summaries of
  the coordinator reach it: a run it reports as failed has an intent that failed; a run it reports as
  completed or cancelled had, at an earlier moment at which the manager already knew it, no queued,
  starting or running intent and no lease; and no step gives work back to a run that has none unless the
  manager reports that run as active in the state after the step.\<close>

theorem runs_end_with_reason:
  assumes "run_reachable team g s" and "run_status (ln_manager (link_of s)) run = Some q"
  shows "(q = RunFailed \<longrightarrow> (\<exists>i \<in> set (hm_values (cs_intents (state_of s))).
          wi_team_run_id i = Some run \<and> is_failed (wi_state i)))
    \<and> (q = RunCompleted \<or> q = RunCancelled \<longrightarrow>
        (\<exists>s0. run_reachable team g s0 \<and> run_step\<^sup>*\<^sup>* s0 s \<and> run_status (ln_manager (link_of s0)) run \<noteq> None
          \<and> (\<forall>i \<in> set (hm_values (cs_intents (state_of s0))). wi_team_run_id i = Some run \<longrightarrow> is_terminal (wi_state i))
          \<and> run_leases (state_of s0) run = []))
    \<and> (\<forall>s'. run_step s s' \<and> \<not> run_has_work (state_of s) run \<and> run_has_work (state_of s') run \<longrightarrow>
        (\<exists>p. run_status (ln_manager (link_of s')) run = Some p \<and> status_is_active p))"
proof (intro conjI impI allI)
  have "rc.justified (run_has_failed (state_of s)) (out_of_work team g s) (ln_manager (link_of s))"
    using run_reachable_ok [OF assms(1)] by (simp add: runs_ok_def)
  with assms(2) have j: "q = RunFailed \<Longrightarrow> run_has_failed (state_of s) run"
    "q = RunCompleted \<or> q = RunCancelled \<Longrightarrow> out_of_work team g s run"
    unfolding rc.justified_def by blast+
  show "\<exists>i \<in> set (hm_values (cs_intents (state_of s))). wi_team_run_id i = Some run \<and> is_failed (wi_state i)"
    if "q = RunFailed"
    using j(1) [OF that] by (auto simp: run_has_failed_def list_ex_iff)
  show "\<exists>s0. run_reachable team g s0 \<and> run_step\<^sup>*\<^sup>* s0 s \<and> run_status (ln_manager (link_of s0)) run \<noteq> None
          \<and> (\<forall>i \<in> set (hm_values (cs_intents (state_of s0))). wi_team_run_id i = Some run \<longrightarrow> is_terminal (wi_state i))
          \<and> run_leases (state_of s0) run = []"
    if "q = RunCompleted \<or> q = RunCancelled"
    using j(2) [OF that] unfolding out_of_work_def run_has_work_def list_ex_iff run_leases_def filter_empty_conv
    by fastforce
  show "\<exists>p. run_status (ln_manager (link_of s')) run = Some p \<and> status_is_active p"
    if "run_step s s' \<and> \<not> run_has_work (state_of s) run \<and> run_has_work (state_of s') run" for s'
    using that new_work_of_active_run [OF _ run_reachable_inv [OF assms(1)]] by blast
qed

text \<open>The user message of the small system again, with the outbox between coordinator and run manager: the
  summaries of the enqueue, the claim and the completion are still on their way when a second message comes.\<close>

definition late_leased :: "run_link coordinator" where
  "late_leased = snd (acquire_enqueue (outbox_port ''r'') ''l'' (demo_request ''s'' UserMessage UserVisible)
     (new_coordinator ''t'' ''g'' \<lparr>ln_manager = new_run_manager ''t'', ln_pending = []\<rparr>))"

definition late_queued :: "run_link coordinator" where
  "late_queued = snd (ret_val (commit_enqueue (outbox_port ''r2'') ''i'' 5 demo_lease (Some ''m'') late_leased))"

definition late_ready :: "run_link coordinator" where
  "late_ready = snd (ret_val (set_runtime_constraint (outbox_port ''r2'') ''s'' RcReady late_queued))"

definition late_claimed :: "run_link coordinator" where
  "late_claimed = snd (ret_val (next_work (outbox_port ''r2'') ''b'' ''s'' late_ready))"

definition late_completed :: "run_link coordinator" where
  "late_completed = snd (ret_val (complete_batch (outbox_port ''r2'') demo_batch late_claimed))"

definition late_again :: "run_link coordinator" where
  "late_again = snd (acquire_enqueue (outbox_port ''r2'') ''l2'' (demo_request ''s'' UserMessage UserVisible) late_completed)"

definition late_delivered :: "run_link coordinator" where
  "late_delivered = late_again\<lparr>co_run_causality :=
     \<lparr>ln_manager = deliver (\<lambda>_. 0) (last (ln_pending (co_run_causality late_again))) (ln_manager (co_run_causality late_again)),
      ln_pending = butlast (ln_pending (co_run_causality late_again)) @ []\<rparr>\<rparr>"

abbreviation late_system :: "run_link coordinator \<Rightarrow> work_batch set \<Rightarrow> string set \<Rightarrow> run_link system" where
  "late_system c B U \<equiv> \<lparr>sy_coordinator = c, sy_issued = B, sy_used = U\<rparr>"

lemma late_reachable_leased: "run_reachable ''t'' ''g'' (late_system late_leased {} {''l''})"
proof (rule moved [OF created])
  have "coordinator_call (outbox_port ''r'')
      (initial_system ''t'' ''g'' \<lparr>ln_manager = new_run_manager ''t'', ln_pending = []\<rparr>) (late_system late_leased {} {''l''})"
    unfolding initial_system_def late_leased_def
    by (rule coordinator_call.acquire [of "''l''" "{}" _ _ _ "fst (acquire_enqueue (outbox_port ''r'') ''l''
          (demo_request ''s'' UserMessage UserVisible)
          (new_coordinator ''t'' ''g'' \<lparr>ln_manager = new_run_manager ''t'', ln_pending = []\<rparr>))"]) simp_all
  then show "run_step (initial_system ''t'' ''g'' \<lparr>ln_manager = new_run_manager ''t'', ln_pending = []\<rparr>)
      (late_system late_leased {} {''l''})"
    by (rule run_step.called [rotated])
      (simp add: fresh_run_def initial_system_def new_coordinator_def new_run_manager_def run_status_def)
qed

text \<open>A call with the identifier \<open>r2\<close> at hand.\<close>

lemma late_call:
  assumes "run_reachable ''t'' ''g'' (late_system c B U)"
    and "coordinator_call (outbox_port ''r2'') (late_system c B U) s'" and "fresh_run ''r2'' (co_run_causality c)"
  shows "run_reachable ''t'' ''g'' s'"
  using assms by (intro moved [OF assms(1)] run_step.called [OF _ assms(2)]) simp_all

lemma late_reachable_queued: "run_reachable ''t'' ''g'' (late_system late_queued {} {''i'', ''l''})"
proof (rule late_call [OF late_reachable_leased])
  show "fresh_run ''r2'' (co_run_causality late_leased)" by code_simp
  have "commit_enqueue (outbox_port ''r2'') ''i'' 5 demo_lease (Some ''m'') late_leased
     = Ret (fst (ret_val (commit_enqueue (outbox_port ''r2'') ''i'' 5 demo_lease (Some ''m'') late_leased)), late_queued)"
    using returns_pair [OF commit_enqueue_returns] by (simp add: late_queued_def)
  then show "coordinator_call (outbox_port ''r2'') (late_system late_leased {} {''l''})
      (late_system late_queued {} {''i'', ''l''})"
    by (rule coordinator_call.commit [rotated]) simp
qed

lemma late_coordinator_inv: "run_reachable ''t'' ''g'' (late_system c B U) \<Longrightarrow> coordinator_inv c"
  using run_reachable_inv by (fastforce simp: system_inv_def)

lemma late_reachable_ready: "run_reachable ''t'' ''g'' (late_system late_ready {} {''i'', ''l''})"
proof (rule late_call [OF late_reachable_queued])
  show "fresh_run ''r2'' (co_run_causality late_queued)" by code_simp
  have "set_runtime_constraint (outbox_port ''r2'') ''s'' RcReady late_queued
    = Ret (fst (ret_val (set_runtime_constraint (outbox_port ''r2'') ''s'' RcReady late_queued)), late_ready)"
    using returns_pair [OF set_runtime_constraint_returns [OF late_coordinator_inv [OF late_reachable_queued]]]
    by (simp add: late_ready_def)
  then show "coordinator_call (outbox_port ''r2'') (late_system late_queued {} {''i'', ''l''})
      (late_system late_ready {} {''i'', ''l''})"
    by (rule coordinator_call.constraint)
qed

lemma late_claim: "fst (ret_val (next_work (outbox_port ''r2'') ''b'' ''s'' late_ready)) = Claim demo_batch"
  by code_simp

lemma late_reachable_claimed: "run_reachable ''t'' ''g'' (late_system late_claimed {demo_batch} {''b'', ''i'', ''l''})"
proof (rule late_call [OF late_reachable_ready])
  show "fresh_run ''r2'' (co_run_causality late_ready)" by code_simp
  have "next_work (outbox_port ''r2'') ''b'' ''s'' late_ready = Ret (Claim demo_batch, late_claimed)"
    using returns_pair [OF next_work_returns [OF late_coordinator_inv [OF late_reachable_ready], of "outbox_port ''r2''" "''b''" "''s''"]]
    unfolding late_claim by (simp add: late_claimed_def)
  from coordinator_call.claim [OF _ this, of "{''i'', ''l''}" "{}"]
  show "coordinator_call (outbox_port ''r2'') (late_system late_ready {} {''i'', ''l''})
      (late_system late_claimed {demo_batch} {''b'', ''i'', ''l''})" by simp
qed

lemma late_reachable_completed: "run_reachable ''t'' ''g'' (late_system late_completed {demo_batch} {''b'', ''i'', ''l''})"
proof (rule late_call [OF late_reachable_claimed])
  show "fresh_run ''r2'' (co_run_causality late_claimed)" by code_simp
  have "complete_batch (outbox_port ''r2'') demo_batch late_claimed
    = Ret (fst (ret_val (complete_batch (outbox_port ''r2'') demo_batch late_claimed)), late_completed)"
    using returns_pair [OF terminalize_batch_returns] by (simp add: complete_batch_def late_completed_def)
  from coordinator_call.completed [OF _ this, of "{demo_batch}" "{''b'', ''i'', ''l''}"]
  show "coordinator_call (outbox_port ''r2'') (late_system late_claimed {demo_batch} {''b'', ''i'', ''l''})
      (late_system late_completed {demo_batch} {''b'', ''i'', ''l''})" by simp
qed

lemma late_reachable_delivered:
  "run_reachable ''t'' ''g'' (late_system late_delivered {demo_batch} {''l2'', ''b'', ''i'', ''l''})"
proof -
  have "coordinator_call (outbox_port ''r2'') (late_system late_completed {demo_batch} {''b'', ''i'', ''l''})
      (late_system late_again {demo_batch} {''l2'', ''b'', ''i'', ''l''})"
    unfolding late_again_def
    by (rule coordinator_call.acquire [of "''l2''" "{''b'', ''i'', ''l''}" _ _ _ "fst (acquire_enqueue (outbox_port ''r2'') ''l2''
          (demo_request ''s'' UserMessage UserVisible) late_completed)"]) simp_all
  moreover have "fresh_run ''r2'' (co_run_causality late_completed)" by code_simp
  ultimately have again: "run_reachable ''t'' ''g'' (late_system late_again {demo_batch} {''l2'', ''b'', ''i'', ''l''})"
    using late_call [OF late_reachable_completed] by blast
  have "ln_pending (co_run_causality late_again) \<noteq> []" by code_simp
  then have "ln_pending (link_of (late_system late_again {demo_batch} {''l2'', ''b'', ''i'', ''l''}))
      = butlast (ln_pending (co_run_causality late_again)) @ last (ln_pending (co_run_causality late_again)) # []"
    by simp
  from moved [OF again run_step.delivered [OF this refl, of "\<lambda>_. 0"]] show ?thesis
    by (simp add: late_delivered_def)
qed

theorem runs_end_with_reason_witness:
  "run_status (ln_manager (co_run_causality late_delivered)) ''r'' = Some RunCompleted
   \<and> (\<exists>s0. run_reachable ''t'' ''g'' s0 \<and> run_leases (state_of s0) ''r'' = [])"
proof -
  have "run_status (ln_manager (co_run_causality late_delivered)) ''r'' = Some RunCompleted" by code_simp
  with runs_end_with_reason [OF late_reachable_delivered, of "''r''" RunCompleted] show ?thesis
    by auto
qed

text \<open>The earlier moment is needed: a summary without work that is delivered late ends a run to which a
  message has been bound in the meantime.\<close>

theorem late_summary_ends_run_with_work:
  "\<exists>s. run_reachable ''t'' ''g'' s \<and> run_status (ln_manager (link_of s)) ''r'' = Some RunCompleted
     \<and> run_has_work (state_of s) ''r''"
proof -
  have "run_status (ln_manager (co_run_causality late_delivered)) ''r'' = Some RunCompleted" by code_simp
  moreover have "run_has_work (co_state late_delivered) ''r''" by code_simp
  ultimately show ?thesis
    using late_reachable_delivered by (intro exI [of _ "late_system late_delivered {demo_batch} {''l2'', ''b'', ''i'', ''l''}"]) simp
qed

section \<open>What a claim takes\<close>

lemma reachable_coordinator_inv: "reachable team g s \<Longrightarrow> coordinator_inv (sy_coordinator s)"
  using reachable_inv [of team g s] by (simp add: system_inv_def)

lemma selected_priority_queues:
  "selected_priority slot = Some p \<longleftrightarrow> queue p slot \<noteq> []
     \<and> (p = Control \<longrightarrow> queue Foreground slot = [])
     \<and> (p = Background \<longrightarrow> queue Foreground slot = [] \<and> queue Control slot = [])"
  by (cases p) (auto simp: selected_priority_def)

lemma map_filter_the:
  "(\<And>x. x \<in> set xs \<Longrightarrow> f x \<noteq> None) \<Longrightarrow> List.map_filter f xs = map (\<lambda>x. the (f x)) xs"
proof (induction xs)
  case (Cons a xs)
  then obtain y where "f a = Some y" by fastforce
  with Cons show ?case by (simp add: List.map_filter_simps)
qed (simp add: List.map_filter_simps)

definition message_of :: "intents \<Rightarrow> string \<Rightarrow> string option" where
  "message_of m x = Option.bind (map_of m x) wi_mailbox_message_id"

text \<open>C7. A claim takes from an idle, ready, unpaused slot, from its highest non-empty queue: all the
  intents there that carry a message, in the order they were queued, with their messages in that
  order. They are starting in the new batch afterwards, what was queued without a message stays
  queued, and the other queues are untouched.\<close>

theorem claim_takes_highest_queue_in_order:
  assumes "reachable team g s" and "c = sy_coordinator s"
    and "next_work P bid sid c = Ret (Claim b, c')"
  shows "\<exists>slot slot'. map_of (cs_slots (co_state c)) sid = Some slot
    \<and> map_of (cs_slots (co_state c')) sid = Some slot'
    \<and> ss_active slot = None \<and> ss_runtime_constraint slot = RcReady \<and> \<not> ss_paused slot
    \<and> (wb_highest_priority b \<noteq> Foreground \<longrightarrow> queue Foreground slot = [])
    \<and> (wb_highest_priority b = Background \<longrightarrow> queue Control slot = [])
    \<and> wb_intent_ids b = filter (\<lambda>x. message_of (cs_intents (co_state c)) x \<noteq> None)
                          (queue (wb_highest_priority b) slot)
    \<and> map Some (wb_mailbox_message_ids b) = map (message_of (cs_intents (co_state c))) (wb_intent_ids b)
    \<and> (\<forall>x \<in> set (wb_intent_ids b). map_option wi_state (map_of (cs_intents (co_state c')) x)
          = Some (WsStarting bid (wb_operation_id b)))
    \<and> map_option ab_batch (ss_active slot') = Some b
    \<and> (\<forall>p. queue p slot' = (if p = wb_highest_priority b
          then filter (\<lambda>x. message_of (cs_intents (co_state c)) x = None) (queue p slot)
          else queue p slot))"
  using assms(3)
proof (cases rule: next_work_cases)
  case 1
  then show ?thesis by blast
next
  case (2 slot prio ids)
  let ?m = "cs_intents (co_state c)"
  let ?op = "saturating_add_one (cs_next_operation_id (co_state c))"
  have st: "state_inv (co_session_generation c) (co_state c)"
    using reachable_state_inv [OF assms(1)] assms(2) by simp
  note sl = state_inv_slotD [OF st 2(1)]
  from 2(8) obtain intents msgs runs pub where
    cl: "claim_intents bid ?op ids ?m [] [] = Ret (intents, msgs, runs)"
    and b: "b = claimed_batch bid (co_session_generation c) sid prio ids msgs runs ?op"
    and c': "c' = commit_runs P ((co_state c)\<lparr>
            cs_next_operation_id := wb_operation_id b, cs_intents := intents,
            cs_slots := hm_modify sid (claimed_slot b) (cs_slots (co_state c))\<rparr>) pub c"
    by (elim claim_batch_cases) blast
  note C = claim_intents_Ret [OF cl]
  have bf: "wb_intent_ids b = ids" "wb_highest_priority b = prio" "wb_mailbox_message_ids b = msgs"
    "wb_operation_id b = ?op"
    by (simp_all add: b claimed_batch_def)
  have ids: "ids = filter (\<lambda>x. message_of ?m x \<noteq> None) (queue prio slot)"
    unfolding 2(6) by (intro filter_cong) (simp_all add: is_message_intent_def message_of_def)
  have msgs: "map Some msgs = map (message_of ?m) ids"
  proof -
    have "message_of ?m = (\<lambda>x. Option.bind (map_of ?m x) wi_mailbox_message_id)"
      by (simp add: message_of_def fun_eq_iff)
    then have "msgs = List.map_filter (message_of ?m) ids"
      using C by simp
    also have "\<dots> = map (\<lambda>x. the (message_of ?m x)) ids"
      by (rule map_filter_the) (simp add: ids)
    finally show ?thesis using ids by (simp add: comp_def)
  qed
  have I: "map_of intents = restate (set_states ids (WsStarting bid ?op)) (map_of ?m)"
    using C by (simp only: map_of_modify_all_set_state)
  have other: "x \<notin> set ids" if "x \<in> set (queue p slot)" "p \<noteq> prio" for x p
    using that slot_inv_queueD [OF sl, of x p] slot_inv_queueD [OF sl, of x prio] ids by auto
  have q: "queue p (claimed_slot b slot) = (if p = wb_highest_priority b
      then filter (\<lambda>x. message_of ?m x = None) (queue p slot) else queue p slot)" for p
  proof (cases "p = prio")
    case True
    then show ?thesis by (auto simp: claimed_slot_def bf ids intro!: filter_cong)
  next
    case False
    then have "filter (\<lambda>y. y \<notin> set ids) (queue p slot) = queue p slot"
      using other by (simp add: filter_id_conv)
    with False show ?thesis by (simp add: claimed_slot_def bf)
  qed
  have states: "map_option wi_state (map_of intents x) = Some (WsStarting bid ?op)" if "x \<in> set ids" for x
  proof -
    from C that obtain i where "map_of ?m x = Some i" by blast
    with that show ?thesis unfolding I by (simp add: restate_def)
  qed
  have slot': "map_of (cs_slots (co_state c')) sid = Some (claimed_slot b slot)"
    using 2(1) by (simp add: c')
  have sel: "(prio \<noteq> Foreground \<longrightarrow> queue Foreground slot = []) \<and> (prio = Background \<longrightarrow> queue Control slot = [])"
    using 2(5) unfolding selected_priority_queues by (cases prio) simp_all
  show ?thesis
  proof (rule exI [of _ slot], rule exI [of _ "claimed_slot b slot"], intro conjI)
    show "\<forall>p. queue p (claimed_slot b slot) = (if p = wb_highest_priority b
          then filter (\<lambda>x. message_of ?m x = None) (queue p slot) else queue p slot)"
      using q by blast
    show "\<forall>x \<in> set (wb_intent_ids b). map_option wi_state (map_of (cs_intents (co_state c')) x)
          = Some (WsStarting bid (wb_operation_id b))"
      using states by (simp add: c' bf)
  qed (use 2(1-4) slot' sel ids msgs in \<open>simp_all add: bf claimed_slot_def\<close>)
qed

theorem claim_takes_highest_queue_in_order_witness:
  "\<exists>slot. map_of (cs_slots (co_state demo_ready)) ''s'' = Some slot
     \<and> wb_intent_ids demo_batch = filter (\<lambda>x. message_of (cs_intents (co_state demo_ready)) x \<noteq> None)
                          (queue (wb_highest_priority demo_batch) slot)"
proof -
  have "next_work (demo_port ''r'') ''b'' ''s'' demo_ready = Ret (Claim demo_batch, demo_claimed)"
    using returns_pair [OF next_work_returns [OF reachable_coordinator_inv [OF demo_reachable_ready, simplified],
        of "demo_port ''r''" "''b''" "''s''"]]
    unfolding demo_claim by (simp add: demo_claimed_def)
  from claim_takes_highest_queue_in_order [OF demo_reachable_ready _ this] show ?thesis
    by auto
qed

section \<open>Cancelling a run\<close>

lemma values_iff:
  "state_inv g st \<Longrightarrow> i \<in> set (hm_values (cs_intents st)) \<longleftrightarrow> (\<exists>x. map_of (cs_intents st) x = Some i)"
  by (rule hm_values_iff) (simp add: state_inv_def)

text \<open>C8. After \<open>cancel_run\<close> no open intent and no lease of the run is left, no active batch has an
  intent of the run, and the batches to stop are those that had one; an open intent of any other
  run, or of none, stays open, and what had ended stays as it was.\<close>

theorem cancel_run_leaves_no_work:
  assumes "reachable team g s" and "c = sy_coordinator s" and "cancel_run P run c = Ret (res, c')"
  shows "(\<forall>i \<in> set (hm_values (cs_intents (co_state c'))). wi_team_run_id i = Some run \<longrightarrow> is_terminal (wi_state i))
    \<and> run_leases (co_state c') run = [] \<and> run_active_slots (co_state c') run = []
    \<and> cr_cancel_targets res = map (\<lambda>e. cancel_target_of (snd e)) (run_active_slots (co_state c) run)
    \<and> (\<forall>(x, i) \<in> set (cs_intents (co_state c)). \<exists>t. map_of (cs_intents (co_state c')) x = Some (i\<lparr>wi_state := t\<rparr>)
          \<and> (is_terminal (wi_state i) \<longrightarrow> t = wi_state i)
          \<and> (\<not> is_terminal (wi_state i) \<and> wi_team_run_id i \<noteq> Some run \<longrightarrow> \<not> is_terminal t))"
proof -
  have inv: "coordinator_inv c" using reachable_coordinator_inv [OF assms(1)] assms(2) by simp
  note R = cancel_run_Ret [OF inv assms(3)]
  have st: "state_inv (co_session_generation c) (co_state c)"
    using inv by (simp add: coordinator_inv_def)
  have st': "state_inv (co_session_generation c') (co_state c')"
    using R [THEN conjunct1] by (simp add: coordinator_inv_def)
  have I: "map_of (cs_intents (co_state c')) = restate (run_cancelled run
      (batch_ids (run_active_slots (co_state c) run))) (map_of (cs_intents (co_state c)))"
    using R by blast
  have ended: "is_terminal (wi_state i)"
    if "map_of (cs_intents (co_state c')) x = Some i" "wi_team_run_id i = Some run" for x i
  proof -
    from that(1) obtain j where j: "i = set_state (run_cancelled run
        (batch_ids (run_active_slots (co_state c) run)) x j) j"
      unfolding I restate_Some by blast
    then have "wi_team_run_id j = Some run" using that(2) by simp
    then have "is_terminal (run_cancelled run (batch_ids (run_active_slots (co_state c) run)) x j)"
      by (simp add: run_cancelled_def)
    with j show ?thesis by simp
  qed
  have "run_active_slots (co_state c') run = []"
  proof (rule ccontr)
    assume "run_active_slots (co_state c') run \<noteq> []"
    then obtain k a where "(k, a) \<in> set (run_active_slots (co_state c') run)"
      by (metis list.set_intros(1) neq_Nil_conv surj_pair)
    then obtain slot where slot: "map_of (cs_slots (co_state c')) k = Some slot" "ss_active slot = Some a"
      "batch_in_run (cs_intents (co_state c')) run a"
      using run_active_slots_iff st' by (auto simp: state_inv_def)
    then obtain x where x: "x \<in> set (wb_intent_ids (ab_batch a))"
      "Option.bind (map_of (cs_intents (co_state c')) x) wi_team_run_id = Some run"
      by (auto simp: batch_in_run_def list_ex_iff)
    from active_inv_intentD [OF slot_inv_activeD [OF state_inv_slotD [OF st' slot(1)] slot(2)] x(1)]
    obtain i where "map_of (cs_intents (co_state c')) x = Some i" "wi_state i = batch_state a" by auto
    with ended x(2) in_flight_batch_state [of a] terminal_not_open show False by fastforce
  qed
  moreover have "run_leases (co_state c') run = []"
  proof -
    have "distinct (hm_keys (cs_enqueue_leases (co_state c')))" using st' by (simp add: state_inv_def)
    then have "el_team_run_id (lr_lease l) \<noteq> Some run"
      if "l \<in> set (hm_values (cs_enqueue_leases (co_state c')))" for l
      using that hm_values_iff R by metis
    then show ?thesis by (auto simp: run_leases_def filter_empty_conv)
  qed
  moreover have "\<exists>t. map_of (cs_intents (co_state c')) x = Some (i\<lparr>wi_state := t\<rparr>)
          \<and> (is_terminal (wi_state i) \<longrightarrow> t = wi_state i)
          \<and> (\<not> is_terminal (wi_state i) \<and> wi_team_run_id i \<noteq> Some run \<longrightarrow> \<not> is_terminal t)"
    if "(x, i) \<in> set (cs_intents (co_state c))" for x i
  proof -
    have "map_of (cs_intents (co_state c)) x = Some i"
      using that st by (simp add: state_inv_def)
    then show ?thesis
      unfolding I by (intro exI [of _ "run_cancelled run (batch_ids (run_active_slots (co_state c) run)) x i"])
        (simp add: restate_def run_cancelled_def)
  qed
  moreover have "\<forall>i \<in> set (hm_values (cs_intents (co_state c'))). wi_team_run_id i = Some run \<longrightarrow> is_terminal (wi_state i)"
    using values_iff [OF st'] ended by blast
  ultimately show ?thesis using R by auto
qed

lemma demo_cancel:
  "cancel_run (demo_port ''r'') ''r'' demo_claimed
    = Ret (fst (ret_val (cancel_run (demo_port ''r'') ''r'' demo_claimed)),
           snd (ret_val (cancel_run (demo_port ''r'') ''r'' demo_claimed)))"
  using reachable_coordinator_inv [OF demo_reachable]
  by (intro returns_pair cancel_run_returns) (simp add: demo_system_def)

theorem cancel_run_leaves_no_work_witness:
  "run_active_slots (co_state demo_claimed) ''r'' \<noteq> []
   \<and> run_active_slots (co_state (snd (ret_val (cancel_run (demo_port ''r'') ''r'' demo_claimed)))) ''r'' = []"
proof
  show "run_active_slots (co_state demo_claimed) ''r'' \<noteq> []" by code_simp
  show "run_active_slots (co_state (snd (ret_val (cancel_run (demo_port ''r'') ''r'' demo_claimed)))) ''r'' = []"
    using cancel_run_leaves_no_work [OF demo_reachable _ demo_cancel] by (simp add: demo_system_def)
qed

lemma begin_cancel_Inr:
  assumes "begin_cancel clock run reason m = (Inr (), m')"
  shows "run_status m' run = Some RunCancelling"
proof (cases "tm_state m")
  case None
  with assms show ?thesis by (simp add: begin_cancel_def)
next
  case (Some r)
  with assms have "tr_team_run_id r = run"
    "tm_state m' = Some (r\<lparr>tr_status := RunCancelling, tr_cancel_reason := reason\<rparr>)"
    by (auto simp: begin_cancel_def broadcast_team_run_def Let_def split: option.splits if_splits)
  then show ?thesis by (simp add: run_status_def)
qed

text \<open>C9. When \<open>begin_cancel\<close> accepts, nothing happens before \<open>cancel_run\<close> and its summaries are delivered
  at once, the run manager reports the run as cancelled afterwards, or as failed if one of its intents had failed before; and it
  accepts only the run that is active.\<close>

theorem cancelled_run_is_reported:
  assumes "reachable team g s" and "c = sy_coordinator s"
    and "begin_cancel clock run reason (co_run_causality c) = (Inr (), m)"
    and "cancel_run (manager_port rid clock') run (c\<lparr>co_run_causality := m\<rparr>) = Ret (res, c')"
  shows "current_active_run_id (co_run_causality c) = Some run
    \<and> run_status (co_run_causality c') run
        = Some (if run_has_failed (co_state c) run then RunFailed else RunCancelled)"
proof
  show "current_active_run_id (co_run_causality c) = Some run"
    using assms(3) by (auto simp: begin_cancel_def current_active_run_id_def active_run_def
        split: option.splits if_splits)
  let ?c = "c\<lparr>co_run_causality := m\<rparr>"
  have inv: "coordinator_inv ?c"
    using reachable_coordinator_inv [OF assms(1)] assms(2) by (simp add: coordinator_inv_def)
  note R = cancel_run_Ret [OF inv assms(4)]
  have inv': "coordinator_inv c'" using R by blast
  have s: "settles (co_state ?c) (co_state c')"
    using cancel_run_tame [OF inv assms(4)] by (simp add: tame_def)
  have st: "state_inv (co_session_generation c) (co_state c)"
    and st': "state_inv (co_session_generation c) (co_state c')"
    using inv inv' R by (simp_all add: coordinator_inv_def)
  have "run_has_failed (co_state c') run" if "run_has_failed (co_state c) run"
    using settles_failed [OF s _ st'] st that by simp
  moreover have "run_has_failed (co_state c) run" if f: "run_has_failed (co_state c') run"
  proof -
    from f obtain x i where x: "map_of (cs_intents (co_state c')) x = Some i" "wi_team_run_id i = Some run"
      "is_failed (wi_state i)" unfolding run_has_failed_iff [OF st'] by blast
    from R have "map_of (cs_intents (co_state c')) = restate (Work_Cancel.run_cancelled run
         (batch_ids (run_active_slots (co_state c) run))) (map_of (cs_intents (co_state c)))" by simp
    with x(1) obtain j where j: "map_of (cs_intents (co_state c)) x = Some j"
      "i = set_state (Work_Cancel.run_cancelled run (batch_ids (run_active_slots (co_state c) run)) x j) j"
      by (auto simp: restate_Some)
    with x(3) have "is_failed (wi_state j)" by (auto simp: run_cancelled_def split: if_splits)
    with j x(2) show ?thesis unfolding run_has_failed_iff [OF st] by auto
  qed
  moreover have "\<not> run_has_work (co_state c') run"
    using cancel_run_leaves_no_work [OF assms(1) assms(2)] R
    unfolding run_has_work_iff [OF st'] by (auto simp: restate_Some run_cancelled_def split: if_splits)
  moreover have "run_status (co_run_causality c') run
      = Some (next_status (run_summary_locked (co_state c') run) RunCancelling)"
    using R begin_cancel_Inr [OF assms(3)] by (simp add: manager_port_def run_status_apply)
  ultimately show "run_status (co_run_causality c') run
        = Some (if run_has_failed (co_state c) run then RunFailed else RunCancelled)"
    by (auto simp: next_status_def failed_summary no_work_summary)
qed

definition demo_cancelling :: run_manager where
  "demo_cancelling = snd (begin_cancel (\<lambda>_. 0) ''r'' None (co_run_causality demo_claimed))"

theorem cancelled_run_is_reported_witness:
  "run_status (co_run_causality (snd (ret_val (cancel_run (demo_port ''r'') ''r''
      (demo_claimed\<lparr>co_run_causality := demo_cancelling\<rparr>))))) ''r'' = Some RunCancelled"
proof -
  let ?c = "demo_claimed\<lparr>co_run_causality := demo_cancelling\<rparr>"
  have "coordinator_inv ?c"
    using reachable_coordinator_inv [OF demo_reachable] by (simp add: demo_system_def coordinator_inv_def)
  then have run: "cancel_run (demo_port ''r'') ''r'' ?c
      = Ret (fst (ret_val (cancel_run (demo_port ''r'') ''r'' ?c)),
             snd (ret_val (cancel_run (demo_port ''r'') ''r'' ?c)))"
    by (intro returns_pair cancel_run_returns)
  have "fst (begin_cancel (\<lambda>_. 0) ''r'' None (co_run_causality demo_claimed)) = Inr ()"
    by code_simp
  then have b: "begin_cancel (\<lambda>_. 0) ''r'' None (co_run_causality demo_claimed) = (Inr (), demo_cancelling)"
    by (simp add: demo_cancelling_def prod_eq_iff)
  have f: "\<not> run_has_failed (co_state demo_claimed) ''r''" by code_simp
  show ?thesis
    using cancelled_run_is_reported [OF demo_reachable _ b run] f by (simp add: demo_system_def)
qed

text \<open>The request to cancel a run can be lost: when a batch of the run starts between
  \<open>begin_cancel\<close> and \<open>cancel_run\<close>, its summary moves the run from cancelling back to running, and
  the run whose work is then cancelled is reported as completed.\<close>

theorem cancel_request_can_be_lost:
  assumes "begin_cancel clock0 run reason m = (Inr (), m0)"
    and "rs_team_run_id started = run" and "rs_failed_intent_count started = 0"
    and "0 < rs_running_batch_count started"
    and "rs_team_run_id ended = run" and "rs_failed_intent_count ended = 0" and "no_work ended"
  shows "run_status (apply_summary clock1 started m0) run = Some RunRunning
    \<and> run_status (apply_summary clock2 ended (apply_summary clock1 started m0)) run = Some RunCompleted"
  using begin_cancel_Inr [OF assms(1)] assms(2-)
  by (simp add: run_status_apply next_status_def no_work_def)

definition demo_lost :: "run_manager coordinator" where
  "demo_lost = snd (ret_val (cancel_run (demo_port ''r'') ''r''
     (snd (mark_started (demo_port ''r'') 7 demo_batch ''turn''
       (demo_claimed\<lparr>co_run_causality := demo_cancelling\<rparr>)))))"

theorem cancel_request_can_be_lost_witness:
  "run_status (co_run_causality demo_lost) ''r'' = Some RunCompleted
   \<and> (let c1 = snd (mark_started (demo_port ''r'') 7 demo_batch ''turn''
            (demo_claimed\<lparr>co_run_causality := demo_cancelling\<rparr>));
         started = run_summary_locked (co_state c1) ''r'';
         ended = run_summary_locked (co_state demo_lost) ''r''
      in run_status (apply_summary (\<lambda>_. 0) ended (apply_summary (\<lambda>_. 0) started demo_cancelling)) ''r''
           = Some RunCompleted)"
proof -
  let ?c1 = "snd (mark_started (demo_port ''r'') 7 demo_batch ''turn''
            (demo_claimed\<lparr>co_run_causality := demo_cancelling\<rparr>))"
  have "fst (begin_cancel (\<lambda>_. 0) ''r'' None (co_run_causality demo_claimed)) = Inr ()"
    by code_simp
  then have b: "begin_cancel (\<lambda>_. 0) ''r'' None (co_run_causality demo_claimed) = (Inr (), demo_cancelling)"
    by (simp add: demo_cancelling_def prod_eq_iff)
  have 1: "rs_failed_intent_count (run_summary_locked (co_state ?c1) ''r'') = 0" by code_simp
  have 2: "0 < rs_running_batch_count (run_summary_locked (co_state ?c1) ''r'')" by code_simp
  have 3: "rs_failed_intent_count (run_summary_locked (co_state demo_lost) ''r'') = 0" by code_simp
  have 4: "no_work (run_summary_locked (co_state demo_lost) ''r'')" by code_simp
  have "run_status (co_run_causality demo_lost) ''r'' = Some RunCompleted" by code_simp
  with cancel_request_can_be_lost [OF b _ 1 2 _ 3 4] show ?thesis by simp
qed

section \<open>Reconciling with the mailbox\<close>

lemma already_owned_iff:
  assumes "distinct (hm_keys m)"
  shows "already_owned sid msg m \<longleftrightarrow> (\<exists>x i. map_of m x = Some i \<and> wi_slot_id i = sid
    \<and> wi_mailbox_message_id i = Some msg \<and> \<not> is_terminal (wi_state i))"
  unfolding already_owned_def list_ex_iff using hm_values_iff [OF assms] by metis

lemma create_recovery_owned:
  assumes "create_recovery g sid role gen clock k msgs st = Ret (st', created)"
    and "distinct (hm_keys (cs_intents st))"
    and "inj gen" and "\<And>j. k \<le> j \<Longrightarrow> map_of (cs_intents st) (gen j) = None"
  shows "(\<forall>msg. already_owned sid msg (cs_intents st')
        \<longleftrightarrow> already_owned sid msg (cs_intents st) \<or> msg \<in> set msgs)
    \<and> length created = card {msg \<in> set msgs. \<not> already_owned sid msg (cs_intents st)}"
  using assms
proof (induction msgs arbitrary: k st created)
  case (Cons msg msgs)
  show ?case
  proof (cases "already_owned sid msg (cs_intents st)")
    case True
    then have "{m \<in> set (msg # msgs). \<not> already_owned sid m (cs_intents st)}
        = {m \<in> set msgs. \<not> already_owned sid m (cs_intents st)}" by auto
    with True Cons.IH [OF _ Cons.prems(2-4)] Cons.prems(1) show ?thesis by auto
  next
    case False
    with Cons.prems(1) obtain s where s: "map_of (cs_slots st) sid = Some s"
      by (auto split: option.splits)
    let ?i = "recovery_intent g sid role (gen k) (clock k) msg"
    let ?st = "st\<lparr>cs_intents := hm_insert (gen k) ?i (cs_intents st),
                 cs_slots := hm_modify sid (queue_mut Background (push_back (gen k))) (cs_slots st)\<rparr>"
    from Cons.prems(1) False s obtain created' where
      run: "create_recovery g sid role gen clock (Suc k) msgs ?st = Ret (st', created')"
      and created: "created = gen k # created'"
      by (auto simp del: queue_mut.simps)
    have d: "distinct (hm_keys (cs_intents ?st))"
      using Cons.prems(2) by (simp add: distinct_hm_insert)
    have fresh: "map_of (cs_intents ?st) (gen j) = None" if "Suc k \<le> j" for j
      using Cons.prems(4) [of j] that injD [OF Cons.prems(3), of j k] by (auto simp del: map_of_eq_None_iff)
    have k: "map_of (cs_intents st) (gen k) = None" using Cons.prems(4) by blast
    have own: "already_owned sid m (cs_intents ?st) \<longleftrightarrow> already_owned sid m (cs_intents st) \<or> m = msg" for m
    proof -
      have new: "map_of (cs_intents ?st) = (map_of (cs_intents st))(gen k \<mapsto> ?i)" by simp
      have i: "wi_slot_id ?i = sid" "wi_mailbox_message_id ?i = Some msg" "\<not> is_terminal (wi_state ?i)"
        by (simp_all add: recovery_intent_def)
      show ?thesis
        unfolding already_owned_iff [OF d] already_owned_iff [OF Cons.prems(2)] new
      proof
        assume "\<exists>x j. ((map_of (cs_intents st))(gen k \<mapsto> ?i)) x = Some j \<and> wi_slot_id j = sid
            \<and> wi_mailbox_message_id j = Some m \<and> \<not> is_terminal (wi_state j)"
        then obtain x j where j: "((map_of (cs_intents st))(gen k \<mapsto> ?i)) x = Some j" "wi_slot_id j = sid"
          "wi_mailbox_message_id j = Some m" "\<not> is_terminal (wi_state j)" by blast
        then show "(\<exists>x i. map_of (cs_intents st) x = Some i \<and> wi_slot_id i = sid
            \<and> wi_mailbox_message_id i = Some m \<and> \<not> is_terminal (wi_state i)) \<or> m = msg"
          using i by (cases "x = gen k") auto
      next
        assume "(\<exists>x i. map_of (cs_intents st) x = Some i \<and> wi_slot_id i = sid
            \<and> wi_mailbox_message_id i = Some m \<and> \<not> is_terminal (wi_state i)) \<or> m = msg"
        then show "\<exists>x j. ((map_of (cs_intents st))(gen k \<mapsto> ?i)) x = Some j \<and> wi_slot_id j = sid
            \<and> wi_mailbox_message_id j = Some m \<and> \<not> is_terminal (wi_state j)"
        proof
          assume "\<exists>x i. map_of (cs_intents st) x = Some i \<and> wi_slot_id i = sid
            \<and> wi_mailbox_message_id i = Some m \<and> \<not> is_terminal (wi_state i)"
          then obtain x j where j: "map_of (cs_intents st) x = Some j" "wi_slot_id j = sid"
            "wi_mailbox_message_id j = Some m" "\<not> is_terminal (wi_state j)" by blast
          with k have "((map_of (cs_intents st))(gen k \<mapsto> ?i)) x = Some j" by auto
          with j show ?thesis by blast
        next
          assume "m = msg"
          with i have "((map_of (cs_intents st))(gen k \<mapsto> ?i)) (gen k) = Some ?i \<and> wi_slot_id ?i = sid
            \<and> wi_mailbox_message_id ?i = Some m \<and> \<not> is_terminal (wi_state ?i)" by simp
          then show ?thesis by blast
        qed
      qed
    qed
    have "{m \<in> set (msg # msgs). \<not> already_owned sid m (cs_intents st)}
        = insert msg {m \<in> set msgs. \<not> already_owned sid m (cs_intents ?st)}"
      using False own by auto
    moreover have "msg \<notin> {m \<in> set msgs. \<not> already_owned sid m (cs_intents ?st)}"
      using own by simp
    ultimately have "card {m \<in> set (msg # msgs). \<not> already_owned sid m (cs_intents st)}
        = Suc (card {m \<in> set msgs. \<not> already_owned sid m (cs_intents ?st)})"
      by (simp del: coordinator_state.simps)
    with Cons.IH [OF run d Cons.prems(3) fresh] own created show ?thesis by auto
  qed
qed simp

lemma state_inv_distinct: "state_inv g st \<Longrightarrow> distinct (hm_keys (cs_intents st))"
  by (simp add: state_inv_def)

lemma restate_owned:
  assumes "distinct (hm_keys m)" and "distinct (hm_keys m')"
    and "map_of m' = restate (set_states xs WsCompleted) (map_of m)"
    and "\<And>x i. x \<in> set xs \<Longrightarrow> map_of m x = Some i \<Longrightarrow> wi_mailbox_message_id i \<noteq> Some msg"
  shows "already_owned sid msg m' \<longleftrightarrow> already_owned sid msg m"
proof -
  have "map_of m' x = map_of m x" if "map_of m x = Some i" "wi_mailbox_message_id i = Some msg" for x i
    using assms(3) assms(4) [of x] that by (auto simp: restate_def)
  moreover have "\<exists>j. map_of m x = Some j \<and> wi_mailbox_message_id j = wi_mailbox_message_id i"
    if "map_of m' x = Some i" for x i
    using that unfolding assms(3) restate_Some by auto
  ultimately show ?thesis
    unfolding already_owned_iff [OF assms(1)] already_owned_iff [OF assms(2)] by (metis option.inject)
qed

text \<open>After \<open>reconcile_mailbox\<close> every unread message of the slot has an open intent; a recovery
  intent is created for exactly the unread messages that had none, once each, however often the
  message is listed; no queued intent of the slot is left whose message is not unread; and the
  slot and its role are there.\<close>

theorem reconcile_owns_every_unread_message:
  assumes "reachable team g s" and "c = sy_coordinator s"
    and "inj gen" and "\<forall>j. gen j \<notin> sy_used s"
    and "reconcile_mailbox gen times_ms sid unread role c = Ret (res, c')"
  shows "(\<forall>msg \<in> set unread. already_owned sid msg (cs_intents (co_state c')))
    \<and> length (rp_created_recovery_intent_ids res)
        = card {msg \<in> set unread. \<not> already_owned sid msg (cs_intents (co_state c))}
    \<and> (\<forall>i \<in> set (hm_values (cs_intents (co_state c'))). wi_slot_id i = sid \<and> wi_state i = WsQueued
          \<longrightarrow> (\<forall>msg. wi_mailbox_message_id i = Some msg \<longrightarrow> msg \<in> set unread))"
proof -
  have inv: "coordinator_inv c" and ids: "ids_ok (co_state c) (sy_issued s) (sy_used s)"
    using reachable_inv [OF assms(1)] assms(2) by (simp_all add: system_inv_def)
  have fresh0: "map_of (cs_intents (co_state c)) (gen j) = None" for j
    using ids assms(4) by (auto simp: ids_ok_def)
  have st: "state_inv (co_session_generation c) (co_state c)"
    using inv by (simp add: coordinator_inv_def)
  from assms(5) show ?thesis
  proof (cases rule: reconcile_mailbox_cases)
    case (1 slots stale st1 st2)
    let ?I = "map_of (cs_intents (co_state c))"
    have st': "state_inv (co_session_generation c) st2"
      using reconcile_mailbox_inv [OF inv assms(3) fresh0 assms(5)] by (simp add: coordinator_inv_def 1(6))
    have I1: "map_of (cs_intents st1) = restate (set_states stale WsCompleted) ?I"
      by (simp add: 1(3) map_of_modify_all_set_state)
    have fresh: "map_of (cs_intents st1) (gen j) = None" for j
      using fresh0 [of j] by (simp add: I1 restate_def del: map_of_eq_None_iff)
    have d1: "distinct (hm_keys (cs_intents st1))"
      using st by (simp add: 1(3) state_inv_def)
    note O = create_recovery_owned [OF 1(4) d1 assms(3) fresh]
    note C = create_recovery_intents [OF 1(4) assms(3) fresh]
    have "already_owned sid msg (cs_intents st1) = already_owned sid msg (cs_intents (co_state c))"
      if "msg \<in> set unread" for msg
    proof (rule restate_owned [OF state_inv_distinct [OF st] d1 I1])
      show "wi_mailbox_message_id i \<noteq> Some msg" if "x \<in> set stale" "?I x = Some i" for x i
        using that \<open>msg \<in> set unread\<close> by (auto simp: 1(2) stale_candidate_def split: option.splits)
    qed
    then have owned: "{msg \<in> set unread. \<not> already_owned sid msg (cs_intents st1)}
        = {msg \<in> set unread. \<not> already_owned sid msg (cs_intents (co_state c))}" by auto
    have qs: "msg \<in> set unread"
      if x: "map_of (cs_intents st2) x = Some i" and i: "wi_slot_id i = sid" "wi_state i = WsQueued"
        "wi_mailbox_message_id i = Some msg" for x i msg
    proof (cases "map_of (cs_intents st1) x = Some i")
      case True
      then obtain j where j: "?I x = Some j" "i = set_state (set_states stale WsCompleted x j) j"
        by (auto simp: I1 restate_Some)
      with i(2) have ns: "x \<notin> set stale" "wi_state j = WsQueued" by (auto split: if_splits)
      have e: "state_inv (co_session_generation c) ((co_state c)\<lparr>cs_slots := slots\<rparr>)"
        unfolding 1(1) by (intro state_inv_entry [OF st]) simp_all
      have so: "bt_sorted (cs_slots (co_state c))" using st by (simp add: state_inv_def)
      obtain t where t: "map_of slots sid = Some t"
        using so by (simp add: 1(1) map_of_entry_update)
      have "slot_intents ?I sid x = Some j" using j i(1) by auto
      from slot_inv_queueI [OF state_inv_slotD [OF e, of sid t] _ ns(2), of x] this t
      have "x \<in> set (queued_ids t)" using set_queued_ids by auto
      with ns(1) t have "\<not> stale_candidate (set unread) (cs_intents (co_state c)) x" by (simp add: 1(2))
      then show ?thesis using j i(3) by (simp add: stale_candidate_def)
    next
      case False
      \<comment> \<open>a new recovery intent\<close>
      with C x have "wi_mailbox_message_id i \<in> Some ` set unread" by blast
      with i(3) show ?thesis by auto
    qed
    have "\<forall>i \<in> set (hm_values (cs_intents st2)). wi_slot_id i = sid \<and> wi_state i = WsQueued
          \<longrightarrow> (\<forall>msg. wi_mailbox_message_id i = Some msg \<longrightarrow> msg \<in> set unread)"
      using values_iff [OF st'] qs by blast
    with owned O show ?thesis by (simp add: 1(6))
  qed
qed

definition demo_gen :: "nat \<Rightarrow> string" where
  "demo_gen k = replicate (k + 5) CHR ''x''"

lemma demo_gen_inj: "inj demo_gen"
  by (rule injI) (metis add_right_imp_eq demo_gen_def length_replicate)

lemma demo_gen_fresh: "demo_gen j \<notin> {''b'', ''i'', ''l'', ''r''}"
proof
  assume "demo_gen j \<in> {''b'', ''i'', ''l'', ''r''}"
  then have "length (demo_gen j) = 1" by auto
  then show False by (simp add: demo_gen_def)
qed

definition demo_reconciled :: "reconcile_projection \<times> run_manager coordinator" where
  "demo_reconciled = ret_val (reconcile_mailbox demo_gen (\<lambda>_. 9) ''s'' [''m'', ''n'', ''n''] RoleLead demo_claimed)"

lemma demo_reconciled_run:
  "reconcile_mailbox demo_gen (\<lambda>_. 9) ''s'' [''m'', ''n'', ''n''] RoleLead demo_claimed
     = Ret (fst demo_reconciled, snd demo_reconciled)"
  unfolding demo_reconciled_def
  using reachable_coordinator_inv [OF demo_reachable]
  by (intro returns_pair reconcile_mailbox_returns) (simp add: demo_system_def)

theorem reconcile_owns_every_unread_message_witness:
  "already_owned ''s'' ''n'' (cs_intents (co_state (snd demo_reconciled)))
   \<and> length (rp_created_recovery_intent_ids (fst demo_reconciled)) = 1"
proof -
  have "{msg \<in> set [''m'', ''n'', ''n'']. \<not> already_owned ''s'' msg (cs_intents (co_state demo_claimed))} = {''n''}"
    by code_simp
  then show ?thesis
    using reconcile_owns_every_unread_message [OF demo_reachable _ demo_gen_inj _ demo_reconciled_run]
      demo_gen_fresh by (simp add: demo_system_def)
qed

section \<open>Enqueueing\<close>

text \<open>A lease buys one intent. A commit that succeeds inserts one new queued intent with the
  lease's slot, role, source and run and the given message, at the end of the queue of the source's
  priority, unpauses the slot exactly if the source is a user's, and consumes the lease: committing
  it again is rejected and changes nothing. A commit that fails changes nothing either.\<close>

theorem lease_commits_once:
  assumes "reachable team g s" and "c = sy_coordinator s"
    and "x \<notin> sy_used s" and "commit_enqueue P x now lease msg c = Ret (res, c')"
  shows "(case res of
      Inl _ \<Rightarrow> c' = c
    | Inr ec \<Rightarrow>
        ec_intent_id ec = x
        \<and> map_of (cs_intents (co_state c')) = (map_of (cs_intents (co_state c)))
            (x \<mapsto> enqueued_intent (co_session_generation c) x now lease msg)
        \<and> (\<exists>slot slot'. map_of (cs_slots (co_state c)) (el_slot_id lease) = Some slot
            \<and> map_of (cs_slots (co_state c')) (el_slot_id lease) = Some slot'
            \<and> (\<forall>p. queue p slot' = queue p slot @ (if p = priority (el_source lease) then [x] else []))
            \<and> (ss_paused slot' \<longleftrightarrow> ss_paused slot
                 \<and> el_source lease \<noteq> UserMessage \<and> el_source lease \<noteq> UserIntervention)
            \<and> \<not> ss_removed slot)
        \<and> commit_enqueue P y now' lease msg' c'
            = Ret (Inl (InvalidRequest ''enqueue lease is no longer active''), c'))"
  using assms(4)
proof (cases rule: commit_enqueue_cases)
  case (2 slot lrec ec runs)
  have slot': "map_of (cs_slots (co_state c')) (el_slot_id lease)
      = Some (commit_enqueue_slot (el_source lease) msg x slot)"
    using 2 by simp
  have pq: "ss_paused (queue_mut p f s) = ss_paused s" for p f s
    by (cases p) simp_all
  have "ss_paused (commit_enqueue_slot (el_source lease) msg x slot) \<longleftrightarrow> ss_paused slot
      \<and> el_source lease \<noteq> UserMessage \<and> el_source lease \<noteq> UserIntervention"
    by (simp add: commit_enqueue_slot_def Let_def pq resumes_paused_slot_def split: option.splits)
  moreover have "\<not> ss_removed slot"
    using 2 by (auto split: if_splits)
  moreover have "map_of (cs_enqueue_leases (co_state c')) (el_lease_id lease) = None"
    by (simp add: 2)
  then have "commit_enqueue P y now' lease msg' c'
      = Ret (Inl (InvalidRequest ''enqueue lease is no longer active''), c')"
    by (simp add: commit_enqueue_def)
  ultimately show ?thesis
    using 2 slot' by (auto simp: queue_commit_enqueue_slot)
qed simp

theorem lease_commits_once_witness:
  "commit_enqueue (demo_port ''r'') ''i2'' 6 demo_lease (Some ''m'') demo_queued
     = Ret (Inl (InvalidRequest ''enqueue lease is no longer active''), demo_queued)"
proof -
  have reach: "reachable ''t'' ''g'' \<lparr>sy_coordinator = demo_leased, sy_issued = {}, sy_used = {''l''}\<rparr>"
    by (rule demo_reachable_leased)
  have "\<not> isl (fst (ret_val (commit_enqueue (demo_port ''r'') ''i'' 5 demo_lease (Some ''m'') demo_leased)))"
    by code_simp
  then obtain ec where ec: "fst (ret_val (commit_enqueue (demo_port ''r'') ''i'' 5 demo_lease (Some ''m'') demo_leased)) = Inr ec"
    by (metis sum.collapse(2))
  show ?thesis
    using lease_commits_once [OF reach _ _ demo_queued_step [unfolded ec]] by simp
qed

section \<open>Ending a slot and a session\<close>

text \<open>C10. After \<open>stop\<close> every intent has ended, there is no lease, no queue and no active batch, no
  run has work, and no further work can be added to a slot that exists: the next enqueue for it is
  rejected.\<close>

theorem stop_ends_the_session:
  assumes "reachable team g s" and "c = sy_coordinator s" and "stop P c = (sums, c')"
  shows "(\<forall>i \<in> set (hm_values (cs_intents (co_state c'))). is_terminal (wi_state i))
    \<and> cs_enqueue_leases (co_state c') = []
    \<and> (\<forall>(k, slot) \<in> set (cs_slots (co_state c')). queued_ids slot = [] \<and> ss_active slot = None)
    \<and> (\<forall>run. \<not> run_has_work (co_state c') run)
    \<and> (map_of (cs_slots (co_state c)) (er_slot_id req) \<noteq> None
        \<longrightarrow> (\<exists>e. fst (acquire_enqueue P' lid req c') = Inl e))"
proof -
  have inv: "coordinator_inv c" using reachable_coordinator_inv [OF assms(1)] assms(2) by simp
  note R = stop_Ret [OF inv assms(3)]
  have st': "state_inv (co_session_generation c') (co_state c')"
    using R [THEN conjunct1] by (simp add: coordinator_inv_def)
  then have so: "bt_sorted (cs_slots (co_state c'))" by (simp add: state_inv_def)
  have ended: "is_terminal (wi_state i)" if "map_of (cs_intents (co_state c')) x = Some i" for x i
  proof -
    have "map_of (cs_intents (co_state c')) = restate session_stopped (map_of (cs_intents (co_state c)))"
      using R by blast
    with that obtain j where "i = set_state (session_stopped x j) j" by (auto simp: restate_Some)
    then show ?thesis by (simp add: session_stopped_def)
  qed
  have slots: "ss_runtime_constraint t = RcSessionStopped \<and> ss_active t = None \<and> queued_ids t = []"
    if "map_of (cs_slots (co_state c')) k = Some t" for k t
    using R that by blast
  have "\<not> run_has_work (co_state c') run" for run
    using ended R unfolding run_has_work_iff [OF st'] by auto
  moreover have "\<exists>e. fst (acquire_enqueue P' lid req c') = Inl e"
    if "map_of (cs_slots (co_state c)) (er_slot_id req) \<noteq> None"
  proof -
    have "map fst (cs_slots (co_state c')) = map fst (cs_slots (co_state c))"
      using assms(3) by (auto simp: stop_def Let_def)
    then have "map_of (cs_slots (co_state c')) (er_slot_id req) \<noteq> None"
      using that by (metis hm_keys_iff)
    then obtain t where t: "map_of (cs_slots (co_state c')) (er_slot_id req) = Some t" by auto
    then show ?thesis
      using slots [OF t] so by (simp add: acquire_enqueue_def Let_def map_of_entry_update)
  qed
  moreover have "\<forall>i \<in> set (hm_values (cs_intents (co_state c'))). is_terminal (wi_state i)"
    using ended values_iff [OF st'] by blast
  moreover have "\<forall>(k, slot) \<in> set (cs_slots (co_state c')). queued_ids slot = [] \<and> ss_active slot = None"
  proof
    fix e assume "e \<in> set (cs_slots (co_state c'))"
    then have "map_of (cs_slots (co_state c')) (fst e) = Some (snd e)"
      using so by (simp add: bt_sorted_distinct)
    from slots [OF this] show "case e of (k, slot) \<Rightarrow> queued_ids slot = [] \<and> ss_active slot = None"
      by (simp add: case_prod_beta)
  qed
  moreover have "cs_enqueue_leases (co_state c') = []" using R by blast
  ultimately show ?thesis by blast
qed

theorem stop_ends_the_session_witness:
  "\<exists>e. fst (acquire_enqueue (demo_port ''r'') ''l2'' (demo_request ''s'' UserMessage UserVisible)
     (snd (stop (demo_port ''r'') demo_claimed))) = Inl e"
proof -
  have "map_of (cs_slots (co_state demo_claimed)) ''s'' \<noteq> None" by code_simp
  then show ?thesis
    using stop_ends_the_session [OF demo_reachable refl prod.collapse [symmetric],
        where P = "demo_port ''r''" and P' = "demo_port ''r''" and lid = "''l2''"
          and req = "demo_request ''s'' UserMessage UserVisible"]
    by (simp add: demo_system_def demo_request_def del: map_of_eq_None_iff)
qed

text \<open>C28. \<open>remove_slot\<close> cancels every open intent of the slot and no other intent changes; the slot
  is left without queued work and without a batch, marked as removed, and the next enqueue or
  commit for it is rejected.\<close>

theorem remove_slot_ends_the_slot:
  assumes "reachable team g s" and "c = sy_coordinator s"
    and "map_of (cs_slots (co_state c)) sid = Some slot" and "remove_slot P sid c = Ret (res, c')"
  shows "(\<forall>(x, i) \<in> set (cs_intents (co_state c)). map_of (cs_intents (co_state c')) x =
            Some (if wi_slot_id i = sid \<and> \<not> is_terminal (wi_state i)
                  then i\<lparr>wi_state := WsCancelled ''slot_removed''\<rparr> else i))
    \<and> (\<exists>slot'. map_of (cs_slots (co_state c')) sid = Some slot'
          \<and> queued_ids slot' = [] \<and> ss_active slot' = None \<and> ss_removed slot')
    \<and> rw_cancel_target res = map_option cancel_target_of (ss_active slot)
    \<and> (er_slot_id req = sid \<longrightarrow> (\<exists>e. fst (acquire_enqueue P' lid req c') = Inl e))
    \<and> (el_slot_id lease = sid \<longrightarrow> (\<exists>e. commit_enqueue P' x' now lease msg c' = Ret (Inl e, c')))"
proof -
  have inv: "coordinator_inv c" using reachable_coordinator_inv [OF assms(1)] assms(2) by simp
  note R = remove_slot_Ret [OF inv assms(4)]
  have st: "state_inv (co_session_generation c) (co_state c)"
    using inv by (simp add: coordinator_inv_def)
  have so: "bt_sorted (cs_slots (co_state c'))"
    using R [THEN conjunct1] by (simp add: coordinator_inv_def state_inv_def)
  have I: "map_of (cs_intents (co_state c')) = restate (slot_removed sid) (map_of (cs_intents (co_state c)))"
    using R by blast
  let ?slot = "(clear_slot slot)\<lparr>ss_removed := True\<rparr>"
  have slot': "map_of (cs_slots (co_state c')) sid = Some ?slot"
    using R assms(3) by simp
  have "map_of (cs_intents (co_state c')) x =
            Some (if wi_slot_id i = sid \<and> \<not> is_terminal (wi_state i)
                  then i\<lparr>wi_state := WsCancelled ''slot_removed''\<rparr> else i)"
    if "(x, i) \<in> set (cs_intents (co_state c))" for x i
  proof -
    have "map_of (cs_intents (co_state c)) x = Some i" using that st by (simp add: state_inv_def)
    then show ?thesis by (simp add: I restate_def slot_removed_def)
  qed
  moreover have "\<exists>e. fst (acquire_enqueue P' lid req c') = Inl e" if "er_slot_id req = sid"
    using that slot' so by (simp add: acquire_enqueue_def Let_def map_of_entry_update)
  moreover have "\<exists>e. commit_enqueue P' x' now lease msg c' = Ret (Inl e, c')" if "el_slot_id lease = sid"
    using that slot' by (auto simp: commit_enqueue_def Let_def split: option.splits)
  moreover have "queued_ids ?slot = [] \<and> ss_active ?slot = None \<and> ss_removed ?slot"
    by (simp add: clear_slot_def queued_ids_def)
  ultimately show ?thesis
    using slot' R assms(3) by auto
qed

theorem remove_slot_ends_the_slot_witness:
  "\<exists>e. fst (acquire_enqueue (demo_port ''r'') ''l2'' (demo_request ''s'' UserMessage UserVisible)
     (snd (ret_val (remove_slot (demo_port ''r'') ''s'' demo_claimed)))) = Inl e"
proof -
  obtain slot where slot: "map_of (cs_slots (co_state demo_claimed)) ''s'' = Some slot"
  proof -
    have "map_of (cs_slots (co_state demo_claimed)) ''s'' \<noteq> None" by code_simp
    then show ?thesis using that by (auto simp del: map_of_eq_None_iff)
  qed
  have "remove_slot (demo_port ''r'') ''s'' demo_claimed
      = Ret (fst (ret_val (remove_slot (demo_port ''r'') ''s'' demo_claimed)),
             snd (ret_val (remove_slot (demo_port ''r'') ''s'' demo_claimed)))"
    using reachable_coordinator_inv [OF demo_reachable]
    by (intro returns_pair remove_slot_returns) (simp add: demo_system_def)
  from remove_slot_ends_the_slot [OF demo_reachable _ slot this,
      where P' = "demo_port ''r''" and lid = "''l2''" and req = "demo_request ''s'' UserMessage UserVisible"]
  show ?thesis by (simp add: demo_system_def demo_request_def)
qed

text \<open>C38. When the runtime of a slot fails, its background work (the open intents of no run) is queued
  again and its other open intents fail with the given classification; when the session stops for
  the slot, all its open intents are cancelled. In both cases its batch is taken away, and any
  other constraint changes no intent.\<close>

theorem constraint_ends_or_requeues:
  assumes "reachable team g s" and "c = sy_coordinator s"
    and "set_runtime_constraint P sid k c = Ret (res, c')"
    and "(x, i) \<in> set (cs_intents (co_state c))"
  shows "map_option wi_state (map_of (cs_intents (co_state c')) x) = Some
     (if wi_slot_id i \<noteq> sid \<or> is_terminal (wi_state i) then wi_state i
      else case k of
          RcFailed _ cls \<Rightarrow> if wi_team_run_id i = None then WsQueued else WsFailed cls
        | RcSessionStopped \<Rightarrow> WsCancelled ''session_stopped''
        | _ \<Rightarrow> wi_state i)
    \<and> (\<exists>slot'. map_of (cs_slots (co_state c')) sid = Some slot' \<and> ss_runtime_constraint slot' = k
        \<and> (k = RcSessionStopped \<or> (\<exists>p cls. k = RcFailed p cls) \<longrightarrow> ss_active slot' = None))"
proof -
  have inv: "coordinator_inv c" using reachable_coordinator_inv [OF assms(1)] assms(2) by simp
  note R = set_runtime_constraint_Ret [OF inv assms(3)]
  have "map_of (cs_intents (co_state c)) x = Some i"
    using assms(4) inv by (simp add: coordinator_inv_def state_inv_def)
  moreover have "map_of (cs_intents (co_state c')) = restate (constrained k sid) (map_of (cs_intents (co_state c)))"
    using R by blast
  ultimately have "map_option wi_state (map_of (cs_intents (co_state c')) x) = Some
     (if wi_slot_id i \<noteq> sid \<or> is_terminal (wi_state i) then wi_state i
      else case k of
          RcFailed _ cls \<Rightarrow> if wi_team_run_id i = None then WsQueued else WsFailed cls
        | RcSessionStopped \<Rightarrow> WsCancelled ''session_stopped''
        | _ \<Rightarrow> wi_state i)"
    by (cases k) (simp_all add: restate_def constrained_def constrained_state_def)
  moreover from R obtain slot' where "map_of (cs_slots (co_state c')) sid = Some slot'"
    "ss_runtime_constraint slot' = k" "ss_active slot' \<noteq> None \<longrightarrow> ending_constraint k = None" by auto
  ultimately show ?thesis by auto
qed

theorem constraint_ends_or_requeues_witness:
  "map_option wi_state (map_of (cs_intents (co_state
      (snd (ret_val (set_runtime_constraint (demo_port ''r'') ''s'' (RcFailed 1 ''crash'') demo_claimed))))) ''i'')
     = Some (WsFailed ''crash'')"
proof -
  have "list_all (\<lambda>(x, i). x = ''i'' \<longrightarrow> wi_slot_id i = ''s'' \<and> \<not> is_terminal (wi_state i) \<and> wi_team_run_id i \<noteq> None)
      (cs_intents (co_state demo_claimed)) \<and> ''i'' \<in> fst ` set (cs_intents (co_state demo_claimed))"
    by code_simp
  then obtain i where i: "(''i'', i) \<in> set (cs_intents (co_state (sy_coordinator demo_system)))"
    "wi_slot_id i = ''s''" "\<not> is_terminal (wi_state i)" "wi_team_run_id i \<noteq> None"
    by (auto simp: list_all_iff demo_system_def)
  have "set_runtime_constraint (demo_port ''r'') ''s'' (RcFailed 1 ''crash'') (sy_coordinator demo_system)
      = Ret (fst (ret_val (set_runtime_constraint (demo_port ''r'') ''s'' (RcFailed 1 ''crash'') demo_claimed)),
             snd (ret_val (set_runtime_constraint (demo_port ''r'') ''s'' (RcFailed 1 ''crash'') demo_claimed)))"
    using reachable_coordinator_inv [OF demo_reachable] unfolding demo_system_def system.simps
    by (rule returns_pair [OF set_runtime_constraint_returns])
  from constraint_ends_or_requeues [OF demo_reachable refl this i(1)] i(2-) show ?thesis by simp
qed

section \<open>Payloads\<close>

text \<open>The elapsed time of a turn in a payload never wraps around: for any two 64-bit times it is
  the time passed, 0 when the clock went back, at most the largest 64-bit time; and the turn is
  reported as slow from ten minutes on.\<close>

theorem elapsed_time_is_exact:
  assumes "sw_active_turn_started_at_ms slot = Some started"
    and "- (2 ^ 63) \<le> started" and "started < 2 ^ 63" and "- (2 ^ 63) \<le> now" and "now < 2 ^ 63"
  shows "map_option uint (sp_active_turn_elapsed_ms (slot_payload now slot))
      = Some (max 0 (min (2 ^ 63 - 1) (now - started)))
    \<and> (sp_active_turn_slow (slot_payload now slot) = Some True \<longleftrightarrow> 600000 \<le> now - started)"
proof -
  have u: "uint (elapsed_ms now started) = max 0 (min (2 ^ 63 - 1) (now - started))"
    using assms by (auto simp: elapsed_ms_def i64_saturating_sub_def uint_word_of_int take_bit_int_eq_self_iff
        max_def min_def)
  have "uint active_turn_slow_threshold_ms = 600000"
    by (simp add: active_turn_slow_threshold_ms_def)
  then have "active_turn_slow_threshold_ms \<le> elapsed_ms now started \<longleftrightarrow> 600000 \<le> now - started"
    unfolding word_le_def u by (simp add: max_def min_def)
  with u show ?thesis
    using assms(1) by (simp add: slot_payload_def Let_def)
qed

theorem elapsed_time_is_exact_witness:
  "map_option uint (sp_active_turn_elapsed_ms (slot_payload (2 ^ 63 - 1)
      \<lparr>sw_slot_id = ''s'', sw_role = RoleLead, sw_state = SpRunning, sw_queued_foreground_count = 0,
       sw_queued_background_count = 0, sw_active_batch = None, sw_active_turn_id = Some ''turn'',
       sw_active_turn_started_at_ms = Some (- 5), sw_runtime_constraint = RcReady, sw_team_run_id = None\<rparr>))
     = Some (2 ^ 63 - 1)"
  using elapsed_time_is_exact [of "\<lparr>sw_slot_id = ''s'', sw_role = RoleLead, sw_state = SpRunning,
       sw_queued_foreground_count = 0, sw_queued_background_count = 0, sw_active_batch = None,
       sw_active_turn_id = Some ''turn'', sw_active_turn_started_at_ms = Some (- 5),
       sw_runtime_constraint = RcReady, sw_team_run_id = None\<rparr>" "- 5" "2 ^ 63 - 1"]
  by simp

end
