(* ===== verification/Cron_Types.thy ===== *)
theory Cron_Types
  imports Rust_Std Db_Error Work_Model
begin

text \<open>
  Scheduled jobs: the types of \<open>aionui-cron/src/types.rs\<close>, the row of table \<open>cron_jobs\<close> and the
  conversions between a job, its row and its response. The JSON text of an agent configuration is
  made and read by \<open>serde_json\<close>, a parameter \<open>config_json\<close>. The enumerations stored as text are
  interpretations of \<open>str_codec\<close>, on which the round trip of a whole job rests.
\<close>

section \<open>Errors\<close>

datatype cron_error =
    Job_Not_Found string
  | Invalid_Schedule string
  | Invalid_Cron_Expression string
  | Invalid_Execution_Mode string
  | Invalid_Created_By string
  | Invalid_Job_Status string
  | Invalid_Timezone string
  | Invalid_Skill_Content string
  | Invalid_Agent_Config string
  | Assistant_Not_Found string
  | Scheduler_Error string
  | Workspace_Path_Unavailable string
  | Workspace_Path_Runtime_Unavailable string
  | Conversation_Failed string
  | Database_Failed db_error
  | Json_Failed string

section \<open>Domain types\<close>

datatype cron_schedule =
    At (at_ms: timestamp_ms) (description_of: "string option")
  | Every (every_ms: int) (description_of: "string option")
  | Cron (cron_expr: string) (cron_tz: "string option") (description_of: "string option")

datatype execution_mode = Existing | New_Conversation

fun execution_mode_str :: "execution_mode \<Rightarrow> string" where
  "execution_mode_str Existing = ''existing''"
| "execution_mode_str New_Conversation = ''new_conversation''"

definition execution_mode_from_str :: "string \<Rightarrow> cron_error + execution_mode" where
  "execution_mode_from_str s =
     (if s = ''existing'' then Inr Existing
      else if s = ''new_conversation'' then Inr New_Conversation
      else Inl (Invalid_Execution_Mode s))"

datatype created_by = By_User | By_Agent

fun created_by_str :: "created_by \<Rightarrow> string" where
  "created_by_str By_User = ''user''"
| "created_by_str By_Agent = ''agent''"

definition created_by_from_str :: "string \<Rightarrow> cron_error + created_by" where
  "created_by_from_str s =
     (if s = ''user'' then Inr By_User
      else if s = ''agent'' then Inr By_Agent
      else Inl (Invalid_Created_By s))"

datatype job_status = Job_Ok | Job_Error | Job_Skipped | Job_Missed

fun job_status_str :: "job_status \<Rightarrow> string" where
  "job_status_str Job_Ok = ''ok''"
| "job_status_str Job_Error = ''error''"
| "job_status_str Job_Skipped = ''skipped''"
| "job_status_str Job_Missed = ''missed''"

definition job_status_from_str :: "string \<Rightarrow> cron_error + job_status" where
  "job_status_from_str s =
     (if s = ''ok'' then Inr Job_Ok
      else if s = ''error'' then Inr Job_Error
      else if s = ''skipped'' then Inr Job_Skipped
      else if s = ''missed'' then Inr Job_Missed
      else Inl (Invalid_Job_Status s))"

interpretation mode_codec: str_codec execution_mode_str execution_mode_from_str
proof
  show "execution_mode_from_str (execution_mode_str x) = Inr x" for x
    by (cases x) (simp_all add: execution_mode_from_str_def)
  show "execution_mode_from_str s = Inr x \<Longrightarrow> execution_mode_str x = s" for s x
    by (auto simp: execution_mode_from_str_def split: if_splits)
qed

interpretation creator_codec: str_codec created_by_str created_by_from_str
proof
  show "created_by_from_str (created_by_str x) = Inr x" for x
    by (cases x) (simp_all add: created_by_from_str_def)
  show "created_by_from_str s = Inr x \<Longrightarrow> created_by_str x = s" for s x
    by (auto simp: created_by_from_str_def split: if_splits)
qed

interpretation status_codec: str_codec job_status_str job_status_from_str
proof
  show "job_status_from_str (job_status_str x) = Inr x" for x
    by (cases x) (simp_all add: job_status_from_str_def)
  show "job_status_from_str s = Inr x \<Longrightarrow> job_status_str x = s" for s x
    by (auto simp: job_status_from_str_def split: if_splits)
qed

record provider_with_model =
  provider_id :: string
  provider_model :: string
  use_model :: "string option"

record cron_agent_config =
  cfg_name :: string
  cfg_cli_path :: "string option"
  cfg_is_preset :: "bool option"
  cfg_assistant_id :: "string option"
  cfg_custom_agent_id :: "string option"
  cfg_mode :: "string option"
  cfg_model_id :: "string option"
  cfg_model :: "provider_with_model option"
  cfg_config_options :: "(string \<rightharpoonup> string) option"
  cfg_workspace :: "string option"

record cron_job =
  job_id :: string
  job_name :: string
  job_enabled :: bool
  job_schedule :: cron_schedule
  job_message :: string
  job_mode :: execution_mode
  job_config :: "cron_agent_config option"
  job_conversation :: string
  job_title :: "string option"
  job_agent_type :: string
  job_creator :: created_by
  job_skill :: "string option"
  job_description :: "string option"
  job_created_at :: timestamp_ms
  job_updated_at :: timestamp_ms
  job_next_run :: "timestamp_ms option"
  job_last_run :: "timestamp_ms option"
  job_last_status :: "job_status option"
  job_last_error :: "string option"
  job_run_count :: int
  job_retry_count :: int
  job_max_retries :: int
  job_queue_enabled :: bool

text \<open>A row of \<open>cron_jobs\<close>.\<close>

record cron_job_row =
  row_id :: string
  row_name :: string
  row_enabled :: bool
  row_kind :: string
  row_value :: string
  row_tz :: "string option"
  row_schedule_desc :: "string option"
  row_message :: string
  row_mode :: string
  row_config :: "string option"
  row_conversation :: string
  row_title :: "string option"
  row_creator :: string
  row_skill :: "string option"
  row_description :: "string option"
  row_created_at :: timestamp_ms
  row_updated_at :: timestamp_ms
  row_next_run :: "timestamp_ms option"
  row_last_run :: "timestamp_ms option"
  row_last_status :: "string option"
  row_last_error :: "string option"
  row_run_count :: int
  row_retry_count :: int
  row_max_retries :: int
  row_queue_enabled :: bool

text \<open>\<open>serde_json::to_string\<close> and \<open>from_str\<close> on a configuration; the error is its rendering.\<close>

record config_json =
  to_json :: "cron_agent_config \<Rightarrow> string + string"
  of_json :: "string \<Rightarrow> string + cron_agent_config"

section \<open>Rows\<close>

fun parse_error_str :: "parse_int_error \<Rightarrow> string" where
  "parse_error_str Empty_Digits = ''cannot parse integer from empty string''"
| "parse_error_str Invalid_Digit = ''invalid digit found in string''"
| "parse_error_str Pos_Overflow = ''number too large to fit in target type''"
| "parse_error_str Neg_Overflow = ''number too small to fit in target type''"

definition parse_schedule ::
  "string \<Rightarrow> string \<Rightarrow> string option \<Rightarrow> string option \<Rightarrow> cron_error + cron_schedule" where
  "parse_schedule kind v tz d =
     (if kind = ''at'' then
        and_then (map_err (\<lambda>e. Invalid_Schedule (''invalid at_ms '' @ quoted v @ '': '' @ parse_error_str e))
            (parse_i64 v))
          (\<lambda>t. Inr (At t d))
      else if kind = ''every'' then
        and_then (map_err (\<lambda>e. Invalid_Schedule (''invalid every_ms '' @ quoted v @ '': '' @ parse_error_str e))
            (parse_i64 v))
          (\<lambda>n. Inr (Every n d))
      else if kind = ''cron'' then Inr (Cron v tz d)
      else Inl (Invalid_Schedule (''unknown schedule kind: '' @ kind)))"

fun schedule_to_row_fields ::
  "cron_schedule \<Rightarrow> string \<times> string \<times> string option \<times> string option" where
  "schedule_to_row_fields (At t d) = (''at'', show_int t, None, d)"
| "schedule_to_row_fields (Every n d) = (''every'', show_int n, None, d)"
| "schedule_to_row_fields (Cron e tz d) = (''cron'', e, tz, d)"

definition cron_job_from_row :: "config_json \<Rightarrow> cron_job_row \<Rightarrow> cron_error + cron_job" where
  "cron_job_from_row J r =
     and_then (parse_schedule (row_kind r) (row_value r) (row_tz r) (row_schedule_desc r)) (\<lambda>schedule.
     and_then (execution_mode_from_str (row_mode r)) (\<lambda>mode.
     and_then (created_by_from_str (row_creator r)) (\<lambda>creator.
     and_then (map_transpose (\<lambda>t. map_err Json_Failed (of_json J t)) (row_config r)) (\<lambda>config.
     and_then (map_transpose job_status_from_str (row_last_status r)) (\<lambda>status.
     Inr \<lparr>job_id = row_id r, job_name = row_name r, job_enabled = row_enabled r,
       job_schedule = schedule, job_message = row_message r, job_mode = mode, job_config = config,
       job_conversation = row_conversation r, job_title = row_title r, job_agent_type = [],
       job_creator = creator, job_skill = row_skill r, job_description = row_description r,
       job_created_at = row_created_at r, job_updated_at = row_updated_at r,
       job_next_run = row_next_run r, job_last_run = row_last_run r, job_last_status = status,
       job_last_error = row_last_error r, job_run_count = row_run_count r,
       job_retry_count = row_retry_count r, job_max_retries = row_max_retries r,
       job_queue_enabled = row_queue_enabled r\<rparr>)))))"

definition cron_job_to_row :: "config_json \<Rightarrow> cron_job \<Rightarrow> cron_error + cron_job_row" where
  "cron_job_to_row J j =
     (case schedule_to_row_fields (job_schedule j) of (kind, v, tz, d) \<Rightarrow>
     and_then (map_transpose (\<lambda>c. map_err Json_Failed (to_json J c)) (job_config j)) (\<lambda>config.
     Inr \<lparr>row_id = job_id j, row_name = job_name j, row_enabled = job_enabled j,
       row_kind = kind, row_value = v, row_tz = tz, row_schedule_desc = d,
       row_message = job_message j, row_mode = execution_mode_str (job_mode j),
       row_config = config, row_conversation = job_conversation j, row_title = job_title j,
       row_creator = created_by_str (job_creator j), row_skill = job_skill j,
       row_description = job_description j, row_created_at = job_created_at j,
       row_updated_at = job_updated_at j, row_next_run = job_next_run j,
       row_last_run = job_last_run j,
       row_last_status = map_option job_status_str (job_last_status j),
       row_last_error = job_last_error j, row_run_count = job_run_count j,
       row_retry_count = job_retry_count j, row_max_retries = job_max_retries j,
       row_queue_enabled = job_queue_enabled j\<rparr>))"

section \<open>Responses and requests\<close>

datatype cron_schedule_dto =
    At_Dto timestamp_ms "string option"
  | Every_Dto int "string option"
  | Cron_Dto string "string option" "string option"

record agent_config_dto =
  dto_name :: string
  dto_cli_path :: "string option"
  dto_is_preset :: "bool option"
  dto_assistant_id :: "string option"
  dto_custom_agent_id :: "string option"
  dto_mode :: "string option"
  dto_model_id :: "string option"
  dto_model :: "provider_with_model option"
  dto_config_options :: "(string \<rightharpoonup> string) option"
  dto_workspace :: "string option"

record cron_job_response =
  resp_id :: string
  resp_name :: string
  resp_description :: "string option"
  resp_enabled :: bool
  resp_schedule :: cron_schedule_dto
  target_message :: string
  target_mode :: "string option"
  meta_conversation :: string
  meta_title :: "string option"
  meta_agent_type :: string
  meta_creator :: string
  meta_created_at :: timestamp_ms
  meta_updated_at :: timestamp_ms
  meta_config :: "agent_config_dto option"
  state_next_run :: "timestamp_ms option"
  state_last_run :: "timestamp_ms option"
  state_last_status :: "string option"
  state_last_error :: "string option"
  state_run_count :: int
  state_retry_count :: int
  state_max_retries :: int
  state_queue_enabled :: bool

fun schedule_to_dto :: "cron_schedule \<Rightarrow> cron_schedule_dto" where
  "schedule_to_dto (At t d) = At_Dto t d"
| "schedule_to_dto (Every n d) = Every_Dto n d"
| "schedule_to_dto (Cron e tz d) = Cron_Dto e tz d"

fun schedule_from_dto :: "cron_schedule_dto \<Rightarrow> cron_schedule" where
  "schedule_from_dto (At_Dto t d) = At t d"
| "schedule_from_dto (Every_Dto n d) = Every n d"
| "schedule_from_dto (Cron_Dto e tz d) = Cron e tz d"

text \<open>\<open>or_else\<close> of an \<open>Option\<close>.\<close>

fun or_else :: "'a option \<Rightarrow> 'a option \<Rightarrow> 'a option" where
  "or_else None y = y"
| "or_else (Some x) y = Some x"

definition config_to_dto :: "cron_agent_config \<Rightarrow> agent_config_dto" where
  "config_to_dto c =
     (let assistant = or_else (cfg_assistant_id c) (cfg_custom_agent_id c);
          backed = assistant \<noteq> None in
      \<lparr>dto_name = cfg_name c,
       dto_cli_path = (if backed then None else cfg_cli_path c),
       dto_is_preset = (if backed then None else cfg_is_preset c),
       dto_assistant_id = assistant,
       dto_custom_agent_id = (if backed then None else cfg_custom_agent_id c),
       dto_mode = cfg_mode c, dto_model_id = cfg_model_id c, dto_model = cfg_model c,
       dto_config_options = cfg_config_options c, dto_workspace = cfg_workspace c\<rparr>)"

definition cron_job_to_response :: "cron_job \<Rightarrow> cron_job_response" where
  "cron_job_to_response j =
     \<lparr>resp_id = job_id j, resp_name = job_name j, resp_description = job_description j,
      resp_enabled = job_enabled j, resp_schedule = schedule_to_dto (job_schedule j),
      target_message = job_message j, target_mode = Some (execution_mode_str (job_mode j)),
      meta_conversation = job_conversation j, meta_title = job_title j,
      meta_agent_type = job_agent_type j, meta_creator = created_by_str (job_creator j),
      meta_created_at = job_created_at j, meta_updated_at = job_updated_at j,
      meta_config = map_option config_to_dto (job_config j),
      state_next_run = job_next_run j, state_last_run = job_last_run j,
      state_last_status = map_option job_status_str (job_last_status j),
      state_last_error = job_last_error j, state_run_count = job_run_count j,
      state_retry_count = job_retry_count j, state_max_retries = job_max_retries j,
      state_queue_enabled = job_queue_enabled j\<rparr>"

section \<open>Round trips\<close>

lemma schedule_dto_inverse [simp]: "schedule_from_dto (schedule_to_dto s) = s"
  by (cases s) simp_all

lemma dto_schedule_inverse [simp]: "schedule_to_dto (schedule_from_dto d) = d"
  by (cases d) simp_all

text \<open>A schedule whose numbers are of type \<open>i64\<close>.\<close>

fun schedule_in_range :: "cron_schedule \<Rightarrow> bool" where
  "schedule_in_range (At t d) = is_i64 t"
| "schedule_in_range (Every n d) = is_i64 n"
| "schedule_in_range (Cron e tz d) = True"

lemma parse_schedule_fields:
  assumes "schedule_in_range s" and "schedule_to_row_fields s = (k, v, tz, d)"
  shows "parse_schedule k v tz d = Inr s"
  using assms by (cases s) (auto simp: parse_schedule_def)

text \<open>What \<open>serde_json\<close> documents of the derived implementations: the text of a configuration is
  read back as that configuration.\<close>

definition config_json_ok :: "config_json \<Rightarrow> cron_agent_config \<Rightarrow> bool" where
  "config_json_ok J c = (\<exists>t. to_json J c = Inr t \<and> of_json J t = Inr c)"

lemma config_json_round:
  assumes "\<forall>x. c = Some x \<longrightarrow> config_json_ok J x"
  shows "\<exists>t. map_transpose (\<lambda>c. map_err Json_Failed (to_json J c)) c = Inr t
    \<and> map_transpose (\<lambda>t. map_err Json_Failed (of_json J t)) t = Inr c"
proof (cases c)
  case (Some x)
  then obtain t where "to_json J x = Inr t" "of_json J t = Inr x"
    using assms unfolding config_json_ok_def by blast
  with Some show ?thesis by (intro exI [of _ "Some t"]) simp
qed simp

lemma from_row_to_row:
  assumes "\<forall>c. job_config j = Some c \<longrightarrow> config_json_ok J c" and "schedule_in_range (job_schedule j)"
  shows "\<exists>r. cron_job_to_row J j = Inr r \<and> cron_job_from_row J r = Inr (j\<lparr>job_agent_type := []\<rparr>)"
proof -
  obtain k v tz d where f: "schedule_to_row_fields (job_schedule j) = (k, v, tz, d)"
    by (cases "schedule_to_row_fields (job_schedule j)") auto
  note s = parse_schedule_fields [OF assms(2) f]
  obtain t where t: "map_transpose (\<lambda>c. map_err Json_Failed (to_json J c)) (job_config j) = Inr t"
    "map_transpose (\<lambda>t. map_err Json_Failed (of_json J t)) t = Inr (job_config j)"
    using config_json_round [OF assms(1)] by blast
  show ?thesis
    by (simp add: cron_job_to_row_def cron_job_from_row_def f s t)
qed

end
