(* ===== verification/Cron_Schedule.thy ===== *)
theory Cron_Schedule
  imports Cron_Types
begin

text \<open>
  \<open>aionui-cron/src/scheduler.rs\<close>: validation of schedules, the next run of a schedule, and the
  timers of \<open>CronScheduler\<close>. The crates \<open>cron\<close>, \<open>chrono\<close> and \<open>chrono-tz\<close> are the record
  \<open>cron_lib\<close>; the clock is an argument. Sums of \<open>i64\<close> panic on overflow, as in a build with
  overflow checks. A timer is a task that sleeps until an instant, reports a tick and goes on by
  its plan. \<open>abort\<close> removes it while it sleeps, but does not stop one that has woken up. The operations are given
  twice: composed, as a caller uses them when no other operation comes in between (\<open>schedule_job\<close>), and as
  the sequence of their accesses, which \<open>timer_step\<close> interleaves with those of other operations and with the timers
  (\<open>call_alone\<close>: an operation that runs alone is the composed one).
\<close>

section \<open>Expressions and zones\<close>

text \<open>
  \<open>lib_parse\<close> is \<open>Schedule::from_str\<close> (the error rendered), \<open>lib_zone\<close> the parser of zone names,
  \<open>lib_instant\<close> is \<open>timestamp_millis_opt(now).single()\<close> in a zone (\<open>None\<close>: UTC) and
  \<open>lib_next\<close> is \<open>after(..).next()\<close> with \<open>timestamp_millis\<close>.
\<close>

record ('s, 'z, 'd) cron_lib =
  lib_parse :: "string \<Rightarrow> string + 's"
  lib_zone :: "string \<Rightarrow> 'z option"
  lib_instant :: "'z option \<Rightarrow> timestamp_ms \<Rightarrow> 'd option"
  lib_next :: "'s \<Rightarrow> 'd \<Rightarrow> timestamp_ms option"

definition normalize_cron_expr :: "string \<Rightarrow> string" where
  "normalize_cron_expr expr =
     (if length (split_whitespace (trim expr)) = 5 then ''0 '' @ trim expr else trim expr)"

definition validate_cron_expression ::
  "('s, 'z, 'd) cron_lib \<Rightarrow> string \<Rightarrow> cron_error + 's" where
  "validate_cron_expression L expr =
     map_err (\<lambda>e. Invalid_Cron_Expression (expr @ '': '' @ e))
       (lib_parse L (normalize_cron_expr expr))"

definition validate_timezone :: "('s, 'z, 'd) cron_lib \<Rightarrow> string \<Rightarrow> cron_error + 'z" where
  "validate_timezone L tz = ok_or (Invalid_Timezone tz) (lib_zone L tz)"

section \<open>The next run\<close>

definition compute_cron_next_run ::
  "('s, 'z, 'd) cron_lib \<Rightarrow> string \<Rightarrow> string option \<Rightarrow> timestamp_ms \<Rightarrow> timestamp_ms option" where
  "compute_cron_next_run L expr tz now =
     (case lib_parse L (normalize_cron_expr expr) of
        Inl _ \<Rightarrow> None
      | Inr schedule \<Rightarrow>
          (case tz of
             Some z \<Rightarrow> Option.bind (lib_zone L z) (\<lambda>zone.
               Option.bind (lib_instant L (Some zone) now) (lib_next L schedule))
           | None \<Rightarrow> Option.bind (lib_instant L None now) (lib_next L schedule)))"

fun compute_next_run ::
  "('s, 'z, 'd) cron_lib \<Rightarrow> cron_schedule \<Rightarrow> timestamp_ms \<Rightarrow> timestamp_ms option rust" where
  "compute_next_run L (At t d) now = Ret (Some t)"
| "compute_next_run L (Every n d) now =
     (if n \<le> 0 then Ret None
      else bind_rust (i64_or_panic (now + n)) (\<lambda>t. Ret (Some t)))"
| "compute_next_run L (Cron e tz d) now = Ret (compute_cron_next_run L e tz now)"

text \<open>\<open>div_euclid\<close> by a positive number is \<open>div\<close>.\<close>

fun compute_next_run_after_occurrence ::
  "('s, 'z, 'd) cron_lib \<Rightarrow> cron_schedule \<Rightarrow> timestamp_ms \<Rightarrow> timestamp_ms
    \<Rightarrow> timestamp_ms option rust" where
  "compute_next_run_after_occurrence L (At t d) scheduled now = Ret None"
| "compute_next_run_after_occurrence L (Every n d) scheduled now =
     (if n \<le> 0 then Ret None
      else bind_rust (i64_or_panic (i64_saturating (now - scheduled) div n + 1)) (\<lambda>steps.
        Ret (Option.bind (i64_checked (steps * n)) (\<lambda>m. i64_checked (scheduled + m)))))"
| "compute_next_run_after_occurrence L (Cron e tz d) scheduled now =
     Ret (compute_cron_next_run L e tz (max now scheduled))"

fun validate_schedule :: "('s, 'z, 'd) cron_lib \<Rightarrow> cron_schedule \<Rightarrow> cron_error + unit" where
  "validate_schedule L (At t d) = Inr ()"
| "validate_schedule L (Every n d) =
     (if n \<le> 0 then Inl (Invalid_Schedule ''every_ms must be positive'') else Inr ())"
| "validate_schedule L (Cron e tz d) =
     (if trim e = [] then Inr ()
      else and_then (validate_cron_expression L e) (\<lambda>_.
        (case tz of None \<Rightarrow> Inr ()
         | Some z \<Rightarrow> and_then (validate_timezone L z) (\<lambda>_. Inr ()))))"

lemma i64_or_panic_eq_Ret [simp]: "i64_or_panic n = Ret m \<longleftrightarrow> is_i64 n \<and> m = n"
  by (auto simp: i64_or_panic_def)

text \<open>The next run of an interval is the first point of its grid after the current time.\<close>

lemma interval_next:
  assumes n: "0 < n" and r: "compute_next_run_after_occurrence L (Every n d) scheduled now = Ret (Some r)"
    and small: "is_i64 scheduled" "is_i64 now"
  shows "now < r" and "n dvd r - scheduled" and "is_i64 (now - scheduled) \<Longrightarrow> r \<le> now + n"
    and "is_i64 r"
proof -
  define e where "e = i64_saturating (now - scheduled)"
  have s: "is_i64 (e div n + 1)" "is_i64 ((e div n + 1) * n)" "r = scheduled + (e div n + 1) * n" "is_i64 r"
    using r n unfolding e_def by (auto simp: bind_eq_Some_conv)
  have m: "(e div n) * n + e mod n = e" "0 \<le> e mod n" "e mod n < n"
    using n by simp_all
  have "e < (e div n + 1) * n"
    unfolding distrib_right using m by linarith
  moreover have "now - scheduled < (e div n + 1) * n"
  proof (cases "now - scheduled \<le> i64_max")
    case True
    then have "now - scheduled \<le> e" by (simp add: e_def i64_saturating_def)
    with calculation show ?thesis by linarith
  next
    case False
    then have "e = i64_max" by (simp add: e_def i64_saturating_def i64_min_def i64_max_def)
    with s(2) calculation show ?thesis by (simp add: is_i64_def)
  qed
  ultimately show "now < r" using s(3) by linarith
  show "n dvd r - scheduled" using s(3) by simp
  show "is_i64 r" by (rule s(4))
  assume "is_i64 (now - scheduled)"
  then have "e = now - scheduled" by (simp add: e_def)
  then show "r \<le> now + n"
    using m s(3) unfolding distrib_right by linarith
qed

section \<open>Timers\<close>

record scheduled_tick =
  tick_job :: string
  tick_scheduled_at :: timestamp_ms

text \<open>
  What a timer does after its next tick: stop; start an interval (\<open>Starting\<close>), tick again after
  each period; or compute the next instant of an expression.
\<close>

datatype timer_plan = Once | Starting int | Ticking int | By_Expr string "string option"

record timer =
  tm_job :: string
  tm_scheduled :: timestamp_ms
  tm_wake :: timestamp_ms
  tm_plan :: timer_plan

record scheduler =
  handles :: "(string, nat) hmap"
  tasks :: "(nat, timer) hmap"
  next_task :: nat

definition new_scheduler :: scheduler where
  "new_scheduler = \<lparr>handles = [], tasks = [], next_task = 0\<rparr>"

definition delay_until :: "timestamp_ms \<Rightarrow> timestamp_ms \<Rightarrow> int rust" where
  "delay_until target now = bind_rust (i64_or_panic (target - now)) (\<lambda>d. Ret (max d 0))"

text \<open>A task whose delay overflows dies before its first tick: \<open>None\<close>.\<close>

definition sleeping ::
  "timestamp_ms \<Rightarrow> string \<Rightarrow> timestamp_ms \<Rightarrow> timestamp_ms \<Rightarrow> timer_plan \<Rightarrow> timer option" where
  "sleeping now job scheduled run_at plan =
     (case delay_until run_at now of
        Panic \<Rightarrow> None
      | Ret d \<Rightarrow> Some \<lparr>tm_job = job, tm_scheduled = scheduled, tm_wake = now + d, tm_plan = plan\<rparr>)"

definition spawn_occurrence_timer ::
  "timestamp_ms \<Rightarrow> string \<Rightarrow> timestamp_ms \<Rightarrow> timestamp_ms \<Rightarrow> timer option" where
  "spawn_occurrence_timer now job scheduled run_at = sleeping now job scheduled run_at Once"

definition spawn_at_timer :: "timestamp_ms \<Rightarrow> string \<Rightarrow> timestamp_ms \<Rightarrow> timer option" where
  "spawn_at_timer now job run_at = spawn_occurrence_timer now job run_at run_at"

definition spawn_every_timer ::
  "timestamp_ms \<Rightarrow> string \<Rightarrow> timestamp_ms \<Rightarrow> int \<Rightarrow> timer option" where
  "spawn_every_timer now job first every = sleeping now job first first (Starting every)"

definition spawn_cron_timer ::
  "timestamp_ms \<Rightarrow> string \<Rightarrow> timestamp_ms \<Rightarrow> string \<Rightarrow> string option \<Rightarrow> timer option" where
  "spawn_cron_timer now job first expr tz = sleeping now job first first (By_Expr expr tz)"

text \<open>
  A task after its tick at time \<open>now\<close>. \<open>every_ms as u64\<close> wraps a negative period, and
  \<open>tokio::time::interval\<close> panics on a period of zero; later ticks follow the previous deadline.
\<close>

definition period :: "int \<Rightarrow> int" where
  "period every = every mod 2 ^ 64"

fun after_tick ::
  "('s, 'z, 'd) cron_lib \<Rightarrow> timestamp_ms \<Rightarrow> timer \<Rightarrow> timer option" where
  "after_tick L now t = (case tm_plan t of
      Once \<Rightarrow> None
    | Starting every \<Rightarrow>
        (if every = 0 \<or> \<not> is_i64 (tm_scheduled t + every) then None
         else Some (t\<lparr>tm_scheduled := tm_scheduled t + every, tm_wake := now + period every,
           tm_plan := Ticking every\<rparr>))
    | Ticking every \<Rightarrow>
        (if \<not> is_i64 (tm_scheduled t + every) then None
         else Some (t\<lparr>tm_scheduled := tm_scheduled t + every, tm_wake := tm_wake t + period every\<rparr>))
    | By_Expr expr tz \<Rightarrow>
        (case compute_cron_next_run L expr tz now of
           None \<Rightarrow> None
         | Some next_at \<Rightarrow> sleeping now (tm_job t) next_at next_at (By_Expr expr tz)))"

text \<open>
  The accesses to the map of handles and to the runtime, each one step: take the handle of a job out of the
  map, abort the task of a handle, spawn a task, put its handle into the map (a handle that was there is
  dropped, which leaves its task running).
\<close>

definition take_handle :: "string \<Rightarrow> scheduler \<Rightarrow> nat option \<times> scheduler" where
  "take_handle job s = (map_of (handles s) job, s\<lparr>handles := hm_remove job (handles s)\<rparr>)"

definition abort_task :: "nat \<Rightarrow> scheduler \<Rightarrow> scheduler" where
  "abort_task tid s = s\<lparr>tasks := hm_remove tid (tasks s)\<rparr>"

definition spawn_task :: "timer option \<Rightarrow> scheduler \<Rightarrow> nat \<times> scheduler" where
  "spawn_task tm s = (next_task s,
     s\<lparr>tasks := (case tm of None \<Rightarrow> tasks s | Some t \<Rightarrow> hm_insert (next_task s) t (tasks s)),
       next_task := Suc (next_task s)\<rparr>)"

definition register_handle :: "string \<Rightarrow> nat \<Rightarrow> scheduler \<Rightarrow> scheduler" where
  "register_handle job tid s = s\<lparr>handles := hm_insert job tid (handles s)\<rparr>"

text \<open>The operations as they run when no other operation comes between their accesses.\<close>

definition cancel_job :: "string \<Rightarrow> scheduler \<Rightarrow> scheduler" where
  "cancel_job job s = (case take_handle job s of
      (None, s) \<Rightarrow> s
    | (Some tid, s) \<Rightarrow> abort_task tid s)"

definition insert_handle :: "string \<Rightarrow> timer option \<Rightarrow> scheduler \<Rightarrow> scheduler" where
  "insert_handle job tm s = (case spawn_task tm s of (tid, s) \<Rightarrow> register_handle job tid s)"

fun job_timer :: "timestamp_ms \<Rightarrow> string \<Rightarrow> cron_schedule \<Rightarrow> timestamp_ms \<Rightarrow> timer option" where
  "job_timer now job (At t d) next_run = spawn_at_timer now job next_run"
| "job_timer now job (Every n d) next_run = spawn_every_timer now job next_run n"
| "job_timer now job (Cron e tz d) next_run = spawn_cron_timer now job next_run e tz"

definition schedule_job :: "timestamp_ms \<Rightarrow> cron_job \<Rightarrow> scheduler \<Rightarrow> scheduler" where
  "schedule_job now job s =
     (let s = cancel_job (job_id job) s in
      if \<not> job_enabled job then s
      else (case job_next_run job of
          None \<Rightarrow> s
        | Some t \<Rightarrow>
            insert_handle (job_id job) (job_timer now (job_id job) (job_schedule job) t) s))"

definition reschedule_job :: "timestamp_ms \<Rightarrow> cron_job \<Rightarrow> scheduler \<Rightarrow> scheduler" where
  "reschedule_job = schedule_job"

definition schedule_occurrence ::
  "timestamp_ms \<Rightarrow> string \<Rightarrow> timestamp_ms \<Rightarrow> timestamp_ms \<Rightarrow> scheduler \<Rightarrow> scheduler" where
  "schedule_occurrence now job scheduled_at retry_at s =
     insert_handle job (spawn_occurrence_timer now job scheduled_at retry_at) (cancel_job job s)"

definition cancel_all :: "scheduler \<Rightarrow> scheduler" where
  "cancel_all s = s\<lparr>handles := [],
     tasks := filter (\<lambda>e. fst e \<notin> set (hm_values (handles s))) (tasks s)\<rparr>"

definition active_count :: "scheduler \<Rightarrow> nat" where
  "active_count s = length (handles s)"

definition is_scheduled :: "string \<Rightarrow> scheduler \<Rightarrow> bool" where
  "is_scheduled job s = (map_of (handles s) job \<noteq> None)"

declare after_tick.simps [simp del]

section \<open>Operations in progress\<close>

text \<open>
  The scheduler is shared by the threads of the service and has no lock but that of the map of handles, so
  the accesses of several operations can come in any order. \<open>call_step\<close> is the next access of an operation,
  \<open>call_pc\<close> where it stands.
\<close>

datatype timer_call =
    Schedule_Call cron_job
  | Retry_Call string timestamp_ms timestamp_ms
  | Cancel_Call string

fun call_job :: "timer_call \<Rightarrow> string" where
  "call_job (Schedule_Call job) = job_id job"
| "call_job (Retry_Call job scheduled_at retry_at) = job"
| "call_job (Cancel_Call job) = job"

text \<open>The timer that the operation spawns after it has cancelled the old one, if it spawns one.\<close>

fun call_timer :: "timestamp_ms \<Rightarrow> timer_call \<Rightarrow> timer option option" where
  "call_timer now (Schedule_Call job) =
     (if \<not> job_enabled job then None
      else map_option (job_timer now (job_id job) (job_schedule job)) (job_next_run job))"
| "call_timer now (Retry_Call job scheduled_at retry_at) =
     Some (spawn_occurrence_timer now job scheduled_at retry_at)"
| "call_timer now (Cancel_Call job) = None"

datatype call_pc = At_Remove | At_Abort nat | At_Spawn | At_Insert nat | At_End

fun call_step :: "timestamp_ms \<Rightarrow> timer_call \<Rightarrow> call_pc \<Rightarrow> scheduler \<Rightarrow> call_pc \<times> scheduler" where
  "call_step now c At_Remove s =
     (case take_handle (call_job c) s of
        (None, s) \<Rightarrow> (At_Spawn, s)
      | (Some tid, s) \<Rightarrow> (At_Abort tid, s))"
| "call_step now c (At_Abort tid) s = (At_Spawn, abort_task tid s)"
| "call_step now c At_Spawn s =
     (case call_timer now c of
        None \<Rightarrow> (At_End, s)
      | Some tm \<Rightarrow> (case spawn_task tm s of (tid, s) \<Rightarrow> (At_Insert tid, s)))"
| "call_step now c (At_Insert tid) s = (At_End, register_handle (call_job c) tid s)"
| "call_step now c At_End s = (At_End, s)"

text \<open>An operation that runs alone is the composed one.\<close>

fun call_steps :: "nat \<Rightarrow> timestamp_ms \<Rightarrow> timer_call \<Rightarrow> call_pc \<times> scheduler \<Rightarrow> call_pc \<times> scheduler" where
  "call_steps 0 now c (pc, s) = (pc, s)"
| "call_steps (Suc n) now c (pc, s) = call_steps n now c (call_step now c pc s)"

lemma call_alone:
  "call_steps 4 now (Schedule_Call job) (At_Remove, s) = (At_End, schedule_job now job s)"
  "call_steps 4 now (Retry_Call i at retry_at) (At_Remove, s) = (At_End, schedule_occurrence now i at retry_at s)"
  "call_steps 4 now (Cancel_Call i) (At_Remove, s) = (At_End, cancel_job i s)"
  by (simp_all add: eval_nat_numeral schedule_job_def schedule_occurrence_def cancel_job_def insert_handle_def
      take_handle_def spawn_task_def Let_def split: option.split)

text \<open>
  The scheduler with the operations in progress and with the timers that have woken up and not yet reported
  their tick: \<open>abort\<close> does not stop these. \<open>ti_overlapped\<close> is a ghost: the jobs of which an operation has
  begun while another operation of the same job was in progress.
\<close>

record timer_world =
  ti_sched :: scheduler
  ti_calls :: "(timer_call \<times> call_pc) list"
  ti_polls :: "(nat \<times> timer) list"
  ti_overlapped :: "string set"

definition new_timer_world :: timer_world where
  "new_timer_world = \<lparr>ti_sched = new_scheduler, ti_calls = [], ti_polls = [], ti_overlapped = {}\<rparr>"

definition in_progress :: "string \<Rightarrow> timer_world \<Rightarrow> bool" where
  "in_progress job w = list_ex (\<lambda>e. call_job (fst e) = job) (ti_calls w)"

definition begin_call :: "timer_call \<Rightarrow> timer_world \<Rightarrow> timer_world" where
  "begin_call c w = w\<lparr>ti_calls := ti_calls w @ [(c, At_Remove)],
     ti_overlapped := (if in_progress (call_job c) w then insert (call_job c) (ti_overlapped w) else ti_overlapped w)\<rparr>"

definition advance_call :: "timestamp_ms \<Rightarrow> nat \<Rightarrow> timer_world \<Rightarrow> timer_world" where
  "advance_call now k w =
     (case ti_calls w ! k of (c, pc) \<Rightarrow> (case call_step now c pc (ti_sched w) of
        (pc', s) \<Rightarrow> w\<lparr>ti_sched := s, ti_calls := (ti_calls w)[k := (c, pc')]\<rparr>))"

definition end_call :: "nat \<Rightarrow> timer_world \<Rightarrow> timer_world" where
  "end_call k w = w\<lparr>ti_calls := take k (ti_calls w) @ drop (Suc k) (ti_calls w)\<rparr>"

text \<open>A timer whose sleep has ended wakes up; later it reports its tick and, unless it has been aborted, goes on.\<close>

definition wake_timer :: "timestamp_ms \<Rightarrow> nat \<Rightarrow> timer_world \<Rightarrow> timer_world option" where
  "wake_timer now tid w =
     (case map_of (tasks (ti_sched w)) tid of
        None \<Rightarrow> None
      | Some t \<Rightarrow>
          if now < tm_wake t \<or> tid \<in> set (map fst (ti_polls w)) then None
          else Some (w\<lparr>ti_polls := (tid, t) # ti_polls w\<rparr>))"

definition report_tick ::
  "('s, 'z, 'd) cron_lib \<Rightarrow> timestamp_ms \<Rightarrow> nat \<Rightarrow> timer_world \<Rightarrow> (scheduled_tick \<times> timer_world) option" where
  "report_tick L now tid w =
     (case map_of (ti_polls w) tid of
        None \<Rightarrow> None
      | Some t \<Rightarrow>
          (let s = ti_sched w;
               left = (case map_of (tasks s) tid of
                   None \<Rightarrow> tasks s
                 | Some t \<Rightarrow> (case after_tick L now t of
                     None \<Rightarrow> hm_remove tid (tasks s)
                   | Some t' \<Rightarrow> hm_insert tid t' (tasks s)))
           in Some (\<lparr>tick_job = tm_job t, tick_scheduled_at = tm_scheduled t\<rparr>,
                w\<lparr>ti_sched := s\<lparr>tasks := left\<rparr>, ti_polls := hm_remove tid (ti_polls w)\<rparr>)))"

text \<open>\<open>cancel_all\<close> is called when the scheduler is dropped, when no operation can be in progress.\<close>

inductive timer_step :: "('s, 'z, 'd) cron_lib \<Rightarrow> timer_world \<Rightarrow> timer_world \<Rightarrow> bool" for L where
  begun: "timer_step L w (begin_call c w)"
| advanced: "k < length (ti_calls w) \<Longrightarrow> timer_step L w (advance_call now k w)"
| ended: "k < length (ti_calls w) \<Longrightarrow> snd (ti_calls w ! k) = At_End \<Longrightarrow> timer_step L w (end_call k w)"
| woken: "wake_timer now tid w = Some w' \<Longrightarrow> timer_step L w w'"
| reported: "report_tick L now tid w = Some (tick, w') \<Longrightarrow> timer_step L w w'"
| dropped: "ti_calls w = [] \<Longrightarrow> timer_step L w (w\<lparr>ti_sched := cancel_all (ti_sched w)\<rparr>)"

inductive timer_reachable :: "('s, 'z, 'd) cron_lib \<Rightarrow> timer_world \<Rightarrow> bool" for L where
  created: "timer_reachable L new_timer_world"
| stepped: "timer_reachable L w \<Longrightarrow> timer_step L w w' \<Longrightarrow> timer_reachable L w'"

section \<open>One timer per job\<close>

text \<open>The tasks of a job.\<close>

definition live_of :: "string \<Rightarrow> scheduler \<Rightarrow> nat set" where
  "live_of job s = {tid. \<exists>t. map_of (tasks s) tid = Some t \<and> tm_job t = job}"

lemma sleeping_job: "sleeping now job at run_at plan = Some t \<Longrightarrow> tm_job t = job"
  by (auto simp: sleeping_def split: rust.splits)

lemma job_timer_job: "job_timer now job sch run = Some t \<Longrightarrow> tm_job t = job"
  by (cases sch) (auto simp: spawn_at_timer_def spawn_occurrence_timer_def spawn_every_timer_def
      spawn_cron_timer_def dest: sleeping_job)

lemma call_timer_job: "call_timer now c = Some (Some t) \<Longrightarrow> tm_job t = call_job c"
  by (cases c) (auto simp: spawn_occurrence_timer_def dest: sleeping_job job_timer_job split: if_splits)

lemma after_tick_job: "after_tick L now t = Some t' \<Longrightarrow> tm_job t' = tm_job t"
  by (auto simp: after_tick.simps dest: sleeping_job split: timer_plan.splits option.splits if_splits)

lemma live_of_simps [simp]:
  "live_of job (abort_task tid s) = live_of job s - {tid}"
  "live_of job (register_handle j tid s) = live_of job s"
  "live_of job (s\<lparr>handles := H\<rparr>) = live_of job s"
  "handles (abort_task tid s) = handles s"
  by (auto simp: live_of_def abort_task_def register_handle_def)

lemma map_of_register [simp]: "map_of (handles (register_handle j tid s)) = (map_of (handles s))(j \<mapsto> tid)"
  by (simp add: register_handle_def)

lemma spawn_task_simps:
  assumes "spawn_task tm s = (tid, s')" and "\<And>t. tm = Some t \<Longrightarrow> tm_job t = job"
  shows "handles s' = handles s" and "live_of job s' \<subseteq> insert tid (live_of job s)"
    and "j \<noteq> job \<Longrightarrow> live_of j s' \<subseteq> live_of j s"
  using assms by (auto simp: spawn_task_def live_of_def split: option.splits if_splits)

text \<open>
  Where the tasks of a job can be while one of its operations stands at \<open>pc\<close>: before the first access, and
  when there is no operation, only the registered one.
\<close>

definition registered :: "string \<Rightarrow> scheduler \<Rightarrow> bool" where
  "registered job s \<longleftrightarrow> (\<forall>tid \<in> live_of job s. map_of (handles s) job = Some tid)"

fun owned_at :: "timer_call \<Rightarrow> call_pc \<Rightarrow> scheduler \<Rightarrow> bool" where
  "owned_at c At_Remove s = registered (call_job c) s"
| "owned_at c (At_Abort tid) s = (map_of (handles s) (call_job c) = None \<and> live_of (call_job c) s \<subseteq> {tid})"
| "owned_at c At_Spawn s = (map_of (handles s) (call_job c) = None \<and> live_of (call_job c) s = {})"
| "owned_at c (At_Insert tid) s = (map_of (handles s) (call_job c) = None \<and> live_of (call_job c) s \<subseteq> {tid}
     \<and> (\<forall>job. c \<noteq> Cancel_Call job))"
| "owned_at c At_End s = (registered (call_job c) s
     \<and> (\<forall>job. c = Cancel_Call job \<longrightarrow> map_of (handles s) job = None))"

lemma call_step_owned:
  assumes "owned_at c pc s" and "call_step now c pc s = (pc', s')"
  shows "owned_at c pc' s'"
proof (cases pc)
  case At_Spawn
  show ?thesis
  proof (cases "call_timer now c")
    case None
    with At_Spawn assms show ?thesis by (auto simp: registered_def)
  next
    case (Some tm)
    then obtain tid where sp: "spawn_task tm s = (tid, s')" "pc' = At_Insert tid"
      using At_Spawn assms(2) by (auto split: prod.splits)
    have "tm_job t = call_job c" if "tm = Some t" for t
      using call_timer_job Some that by blast
    moreover have "\<forall>job. c \<noteq> Cancel_Call job" using Some by auto
    ultimately show ?thesis
      using spawn_task_simps(1,2) [OF sp(1), of "call_job c"] At_Spawn assms(1) sp(2) by auto
  qed
qed (use assms in \<open>auto simp: take_handle_def registered_def split: option.splits\<close>)

lemma call_step_other:
  assumes "call_step now c pc s = (pc', s')" and "j \<noteq> call_job c"
  shows "live_of j s' \<subseteq> live_of j s" and "map_of (handles s') j = map_of (handles s) j"
proof -
  have "live_of j s' \<subseteq> live_of j s \<and> map_of (handles s') j = map_of (handles s) j"
  proof (cases pc)
    case At_Spawn
    show ?thesis
    proof (cases "call_timer now c")
      case (Some tm)
      then obtain tid where sp: "spawn_task tm s = (tid, s')"
        using At_Spawn assms(1) by (auto split: prod.splits)
      have "tm_job t = call_job c" if "tm = Some t" for t
        using call_timer_job Some that by blast
      from spawn_task_simps(1,3) [OF sp this] assms(2) show ?thesis by simp
    qed (use At_Spawn assms(1) in simp)
  qed (use assms in \<open>auto simp: take_handle_def split: option.splits\<close>)
  then show "live_of j s' \<subseteq> live_of j s" and "map_of (handles s') j = map_of (handles s) j" by blast+
qed

lemma owned_at_shrinks:
  assumes "owned_at c pc s" and "live_of (call_job c) s' \<subseteq> live_of (call_job c) s"
    and "map_of (handles s') (call_job c) = map_of (handles s) (call_job c)"
  shows "owned_at c pc s'"
  using assms by (cases pc) (fastforce simp: registered_def)+

definition calls_of :: "string \<Rightarrow> timer_world \<Rightarrow> (timer_call \<times> call_pc) list" where
  "calls_of job w = filter (\<lambda>e. call_job (fst e) = job) (ti_calls w)"

definition job_owned :: "string \<Rightarrow> timer_world \<Rightarrow> bool" where
  "job_owned job w = (case calls_of job w of
      [] \<Rightarrow> registered job (ti_sched w)
    | [(c, pc)] \<Rightarrow> owned_at c pc (ti_sched w)
    | _ \<Rightarrow> False)"

lemma calls_of_job: "e \<in> set (calls_of job w) \<Longrightarrow> call_job (fst e) = job"
  by (simp add: calls_of_def)

lemma job_owned_cases:
  assumes "job_owned job w"
  obtains "calls_of job w = []" and "registered job (ti_sched w)"
  | c pc where "calls_of job w = [(c, pc)]" and "call_job c = job" and "owned_at c pc (ti_sched w)"
proof (cases "calls_of job w")
  case Nil
  with assms that(1) show ?thesis by (simp add: job_owned_def)
next
  case (Cons e es)
  obtain c pc where e: "e = (c, pc)" by fastforce
  with Cons assms have "es = []" "owned_at c pc (ti_sched w)"
    by (auto simp: job_owned_def split: list.splits)
  with that(2) Cons e calls_of_job [of e job w] show ?thesis by simp
qed

lemma job_owned_shrinks:
  assumes "job_owned job w" and "calls_of job w' = calls_of job w"
    and "live_of job (ti_sched w') \<subseteq> live_of job (ti_sched w)"
    and "map_of (handles (ti_sched w')) job = map_of (handles (ti_sched w)) job"
  shows "job_owned job w'"
  using assms(1)
proof (cases rule: job_owned_cases)
  case 1
  with assms(2-4) show ?thesis by (auto simp: job_owned_def registered_def)
next
  case (2 c pc)
  with assms(2-4) owned_at_shrinks [of c pc "ti_sched w" "ti_sched w'"] show ?thesis by (simp add: job_owned_def)
qed

text \<open>The step of one operation; the calls before and after it in the list are other ones.\<close>

lemma advance_owned:
  assumes "job_owned job w" and k: "k < length (ti_calls w)"
  shows "job_owned job (advance_call now k w)"
proof -
  obtain c pc where e: "ti_calls w ! k = (c, pc)" by fastforce
  obtain pc' s' where st: "call_step now c pc (ti_sched w) = (pc', s')" by fastforce
  define xs where "xs = take k (ti_calls w)"
  define ys where "ys = drop (Suc k) (ti_calls w)"
  have calls: "ti_calls w = xs @ (c, pc) # ys"
    unfolding xs_def ys_def using id_take_nth_drop [OF k] e by simp
  have w': "advance_call now k w = w\<lparr>ti_sched := s', ti_calls := xs @ (c, pc') # ys\<rparr>"
    using k by (simp add: advance_call_def e st xs_def ys_def upd_conv_take_nth_drop)
  show ?thesis
  proof (cases "call_job c = job")
    case True
    from assms(1) have "calls_of job w = [(c, pc)]" "owned_at c pc (ti_sched w)"
      by (cases rule: job_owned_cases; use True in \<open>auto simp: calls_of_def calls append_eq_Cons_conv\<close>)+
    then have "calls_of job (advance_call now k w) = [(c, pc')]"
      using True by (auto simp: calls_of_def calls w' append_eq_Cons_conv)
    with call_step_owned [OF _ st] \<open>owned_at c pc (ti_sched w)\<close> show ?thesis
      by (simp add: job_owned_def w')
  next
    case False
    then have "calls_of job (advance_call now k w) = calls_of job w"
      by (simp add: calls_of_def calls w')
    with False call_step_other [OF st] show ?thesis
      by (intro job_owned_shrinks [OF assms(1)]) (auto simp: w')
  qed
qed

lemma end_owned:
  assumes "job_owned job w" and k: "k < length (ti_calls w)" and e: "snd (ti_calls w ! k) = At_End"
  shows "job_owned job (end_call k w)"
proof -
  obtain c where c: "ti_calls w ! k = (c, At_End)" using e by (cases "ti_calls w ! k") simp
  define xs where "xs = take k (ti_calls w)"
  define ys where "ys = drop (Suc k) (ti_calls w)"
  have calls: "ti_calls w = xs @ (c, At_End) # ys"
    unfolding xs_def ys_def using id_take_nth_drop [OF k] c by simp
  have w': "end_call k w = w\<lparr>ti_calls := xs @ ys\<rparr>"
    by (simp add: end_call_def xs_def ys_def)
  show ?thesis
  proof (cases "call_job c = job")
    case True
    from assms(1) have "calls_of job (end_call k w) = []" "owned_at c At_End (ti_sched w)"
      by (cases rule: job_owned_cases; use True in \<open>auto simp: calls_of_def calls w' append_eq_Cons_conv\<close>)+
    with True show ?thesis by (simp add: job_owned_def w')
  next
    case False
    then have "calls_of job (end_call k w) = calls_of job w"
      by (simp add: calls_of_def calls w')
    then show ?thesis by (rule job_owned_shrinks [OF assms(1)]) (simp_all add: w')
  qed
qed

lemma begin_owned:
  assumes "job_owned job w" and "job \<notin> ti_overlapped (begin_call c w)"
  shows "job_owned job (begin_call c w)"
proof (cases "call_job c = job")
  case True
  then have "calls_of job w = []"
    using assms(2) by (auto simp: begin_call_def in_progress_def calls_of_def list_ex_iff filter_empty_conv split: if_splits)
  moreover from this assms(1) have "registered job (ti_sched w)" by (simp add: job_owned_def)
  ultimately show ?thesis
    using True by (simp add: job_owned_def calls_of_def begin_call_def)
next
  case False
  then have "calls_of job (begin_call c w) = calls_of job w" by (simp add: calls_of_def begin_call_def)
  then show ?thesis by (rule job_owned_shrinks [OF assms(1)]) (simp_all add: begin_call_def)
qed

lemma report_owned:
  assumes "job_owned job w" and "report_tick L now tid w = Some (tick, w')"
  shows "job_owned job w'"
proof (rule job_owned_shrinks [OF assms(1)])
  show "calls_of job w' = calls_of job w" "map_of (handles (ti_sched w')) job = map_of (handles (ti_sched w)) job"
    using assms(2) by (auto simp: report_tick_def Let_def calls_of_def split: option.splits)
  show "live_of job (ti_sched w') \<subseteq> live_of job (ti_sched w)"
    using assms(2) after_tick_job [of L now]
    by (auto simp: report_tick_def Let_def live_of_def split: option.splits if_splits)
qed

lemma map_of_filter_keys: "P k \<Longrightarrow> map_of (filter (\<lambda>e. P (fst e)) m) k = map_of m k"
  by (induction m) auto

lemma cancel_all_none:
  assumes "registered job s"
  shows "live_of job (cancel_all s) = {}"
proof -
  have False if t: "map_of (tasks (cancel_all s)) tid = Some t" "tm_job t = job" for tid t
  proof -
    from map_of_SomeD [OF t(1)] have n: "(tid, t) \<in> set (tasks s)" "tid \<notin> set (hm_values (handles s))"
      by (auto simp: cancel_all_def)
    have "map_of (tasks s) tid = map_of (tasks (cancel_all s)) tid"
      using n(2) map_of_filter_keys [of "\<lambda>k. k \<notin> set (hm_values (handles s))" tid "tasks s"] by (simp add: cancel_all_def)
    with t have "tid \<in> live_of job s" by (auto simp: live_of_def)
    with assms have "map_of (handles s) job = Some tid" by (simp add: registered_def)
    with n(2) map_of_SomeD [OF this] show False by force
  qed
  then show ?thesis by (auto simp: live_of_def)
qed

lemma step_owned:
  assumes "timer_step L w w'" and "job_owned job w" and "job \<notin> ti_overlapped w'"
  shows "job_owned job w'"
  using assms(1)
proof cases
  case (begun c)
  with begin_owned assms(2,3) show ?thesis by simp
next
  case (advanced k now)
  with advance_owned [OF assms(2)] show ?thesis by simp
next
  case (ended k)
  with end_owned [OF assms(2)] show ?thesis by simp
next
  case (woken now tid)
  then have "ti_sched w' = ti_sched w" "ti_calls w' = ti_calls w"
    by (auto simp: wake_timer_def split: option.splits if_splits)
  then show ?thesis
    by (intro job_owned_shrinks [OF assms(2)]) (simp_all add: calls_of_def)
next
  case (reported now tid tick)
  then show ?thesis by (rule report_owned [OF assms(2)])
next
  case dropped
  then have "registered job (ti_sched w)" using assms(2) by (simp add: job_owned_def calls_of_def)
  from cancel_all_none [OF this] dropped show ?thesis
    by (simp add: job_owned_def calls_of_def registered_def)
qed

lemma step_overlapped: "timer_step L w w' \<Longrightarrow> ti_overlapped w \<subseteq> ti_overlapped w'"
  by (induction rule: timer_step.induct)
    (auto simp: begin_call_def advance_call_def end_call_def wake_timer_def report_tick_def Let_def
      split: prod.splits option.splits if_splits)

lemma timer_reachable_owned:
  "timer_reachable L w \<Longrightarrow> job \<notin> ti_overlapped w \<Longrightarrow> job_owned job w"
proof (induction rule: timer_reachable.induct)
  case created
  show ?case
    by (simp add: job_owned_def calls_of_def registered_def live_of_def new_timer_world_def new_scheduler_def)
next
  case (stepped w w')
  then show ?case using step_owned step_overlapped by blast
qed

end
