(* ===== verification/Cron_Store.thy ===== *)
theory Cron_Store
  imports Cron_Types
begin

text \<open>
  \<open>aionui-db/src/repository/sqlite_cron.rs\<close>: the tables \<open>cron_jobs\<close> and \<open>cron_job_runs\<close> and
  every query on them. A table is the list of its rows in the order of insertion; each query is
  the function its SQL text denotes, with the constraints of the migrations 001 and 022 (primary
  keys, \<open>CHECK\<close>, the foreign key with \<open>ON DELETE CASCADE\<close>). \<open>claim_run\<close> runs in an immediate
  transaction, so it is one step and an error leaves the tables as they were. Input and output
  failures of SQLite itself are not modelled here: the service takes the repository as a
  parameter and handles them there. Fresh identifiers and the clock are arguments.
\<close>

section \<open>Tables\<close>

record cron_run =
  run_id :: string
  run_job :: string
  run_scheduled_at :: timestamp_ms
  run_status :: string
  run_owner :: "string option"
  run_lease_until :: "timestamp_ms option"
  run_conversation :: "string option"
  run_error :: "string option"
  run_started_at :: "timestamp_ms option"
  run_finished_at :: "timestamp_ms option"
  run_created_at :: timestamp_ms
  run_updated_at :: timestamp_ms

record cron_db =
  cron_jobs :: "cron_job_row list"
  cron_runs :: "cron_run list"

definition empty_cron_db :: cron_db where
  "empty_cron_db = \<lparr>cron_jobs = [], cron_runs = []\<rparr>"

text \<open>The \<open>CHECK\<close> constraints of \<open>cron_jobs\<close> and of \<open>cron_job_runs\<close>.\<close>

definition job_row_check :: "cron_job_row \<Rightarrow> bool" where
  "job_row_check r =
     (row_kind r \<in> set [''at'', ''every'', ''cron'']
      \<and> row_mode r \<in> set [''existing'', ''new_conversation'']
      \<and> row_creator r \<in> set [''user'', ''agent'']
      \<and> (case row_last_status r of None \<Rightarrow> True
         | Some s \<Rightarrow> s \<in> set [''ok'', ''error'', ''skipped'', ''missed'']))"

definition run_check :: "cron_run \<Rightarrow> bool" where
  "run_check r = (run_status r \<in> set [''running'', ''retrying'', ''ok'', ''error'', ''skipped''])"

section \<open>Parameters and results\<close>

datatype claim_result = Claimed | Duplicate | Queue_Busy

record claim_params =
  cl_job :: string
  cl_at :: timestamp_ms
  cl_owner :: string
  cl_now :: timestamp_ms
  cl_until :: timestamp_ms
  cl_queue :: bool

record finish_params =
  fin_job :: string
  fin_at :: timestamp_ms
  fin_owner :: string
  fin_status :: string
  fin_conversation :: "string option"
  fin_error :: "string option"
  fin_now :: timestamp_ms

record recoverable_run =
  rec_scheduled_at :: timestamp_ms
  rec_wake_at :: timestamp_ms

text \<open>\<open>None\<close> keeps a column; of a nullable column \<open>Some None\<close> clears it.\<close>

record update_params =
  up_name :: "string option"
  up_enabled :: "bool option"
  up_kind :: "string option"
  up_value :: "string option"
  up_tz :: "string option option"
  up_schedule_desc :: "string option option"
  up_message :: "string option"
  up_mode :: "string option"
  up_config :: "string option option"
  up_conversation :: "string option"
  up_title :: "string option option"
  up_skill :: "string option option"
  up_description :: "string option option"
  up_next_run :: "timestamp_ms option option"
  up_last_run :: "timestamp_ms option option"
  up_last_status :: "string option option"
  up_last_error :: "string option option"
  up_run_count :: "int option"
  up_retry_count :: "int option"
  up_queue :: "bool option"

definition no_update :: update_params where
  "no_update = \<lparr>up_name = None, up_enabled = None, up_kind = None, up_value = None, up_tz = None,
     up_schedule_desc = None, up_message = None, up_mode = None, up_config = None,
     up_conversation = None, up_title = None, up_skill = None, up_description = None,
     up_next_run = None, up_last_run = None, up_last_status = None, up_last_error = None,
     up_run_count = None, up_retry_count = None, up_queue = None\<rparr>"

section \<open>Jobs\<close>

definition constraint_failed :: "string \<Rightarrow> db_error" where
  "constraint_failed what = Db_Query (what @ '' constraint failed'')"

definition insert_job :: "cron_job_row \<Rightarrow> cron_db \<Rightarrow> (db_error + unit) \<times> cron_db" where
  "insert_job r db =
     (if row_id r \<in> set (map row_id (cron_jobs db)) then (Inl (constraint_failed ''UNIQUE''), db)
      else if \<not> job_row_check r then (Inl (constraint_failed ''CHECK''), db)
      else (Inr (), db\<lparr>cron_jobs := cron_jobs db @ [r]\<rparr>))"

fun keep :: "'a option \<Rightarrow> 'a \<Rightarrow> 'a" where
  "keep None old = old"
| "keep (Some v) old = v"

definition set_columns :: "update_params \<Rightarrow> timestamp_ms \<Rightarrow> cron_job_row \<Rightarrow> cron_job_row" where
  "set_columns p now r = r\<lparr>
     row_name := keep (up_name p) (row_name r),
     row_enabled := keep (up_enabled p) (row_enabled r),
     row_kind := keep (up_kind p) (row_kind r),
     row_value := keep (up_value p) (row_value r),
     row_tz := keep (up_tz p) (row_tz r),
     row_schedule_desc := keep (up_schedule_desc p) (row_schedule_desc r),
     row_message := keep (up_message p) (row_message r),
     row_mode := keep (up_mode p) (row_mode r),
     row_config := keep (up_config p) (row_config r),
     row_conversation := keep (up_conversation p) (row_conversation r),
     row_title := keep (up_title p) (row_title r),
     row_skill := keep (up_skill p) (row_skill r),
     row_description := keep (up_description p) (row_description r),
     row_next_run := keep (up_next_run p) (row_next_run r),
     row_last_run := keep (up_last_run p) (row_last_run r),
     row_last_status := keep (up_last_status p) (row_last_status r),
     row_last_error := keep (up_last_error p) (row_last_error r),
     row_run_count := keep (up_run_count p) (row_run_count r),
     row_retry_count := keep (up_retry_count p) (row_retry_count r),
     row_queue_enabled := keep (up_queue p) (row_queue_enabled r),
     row_updated_at := now\<rparr>"

definition update_job_row ::
  "string \<Rightarrow> update_params \<Rightarrow> timestamp_ms \<Rightarrow> cron_db \<Rightarrow> (db_error + unit) \<times> cron_db" where
  "update_job_row i p now db =
     (if p = no_update then (Inr (), db)
      else if i \<notin> set (map row_id (cron_jobs db)) then
        (Inl (Db_Not_Found (''cron job '' @ quoted i)), db)
      else
        (let js = map (\<lambda>r. if row_id r = i then set_columns p now r else r) (cron_jobs db) in
         if list_all job_row_check js then (Inr (), db\<lparr>cron_jobs := js\<rparr>)
         else (Inl (constraint_failed ''CHECK''), db)))"

definition delete_job :: "string \<Rightarrow> cron_db \<Rightarrow> (db_error + unit) \<times> cron_db" where
  "delete_job i db =
     (if i \<notin> set (map row_id (cron_jobs db)) then
        (Inl (Db_Not_Found (''cron job '' @ quoted i)), db)
      else (Inr (), \<lparr>cron_jobs = filter (\<lambda>r. row_id r \<noteq> i) (cron_jobs db),
          cron_runs = filter (\<lambda>r. run_job r \<noteq> i) (cron_runs db)\<rparr>))"

definition get_job_row :: "string \<Rightarrow> cron_db \<Rightarrow> cron_job_row option" where
  "get_job_row i db = find (\<lambda>r. row_id r = i) (cron_jobs db)"

definition list_all_jobs :: "cron_db \<Rightarrow> cron_job_row list" where
  "list_all_jobs db = sort_key row_created_at (cron_jobs db)"

definition list_enabled_jobs :: "cron_db \<Rightarrow> cron_job_row list" where
  "list_enabled_jobs db = sort_key row_created_at (filter row_enabled (cron_jobs db))"

definition list_conversation_jobs :: "string \<Rightarrow> cron_db \<Rightarrow> cron_job_row list" where
  "list_conversation_jobs c db =
     sort_key row_created_at (filter (\<lambda>r. row_conversation r = c) (cron_jobs db))"

definition delete_conversation_jobs :: "string \<Rightarrow> cron_db \<Rightarrow> nat \<times> cron_db" where
  "delete_conversation_jobs c db =
     (let gone = map row_id (filter (\<lambda>r. row_conversation r = c) (cron_jobs db)) in
      (length gone, \<lparr>cron_jobs = filter (\<lambda>r. row_conversation r \<noteq> c) (cron_jobs db),
         cron_runs = filter (\<lambda>r. run_job r \<notin> set gone) (cron_runs db)\<rparr>))"

section \<open>Runs\<close>

definition occurrence :: "string \<Rightarrow> timestamp_ms \<Rightarrow> cron_run \<Rightarrow> bool" where
  "occurrence job at r = (run_job r = job \<and> run_scheduled_at r = at)"

definition run_open :: "cron_run \<Rightarrow> bool" where
  "run_open r = (run_status r = ''running'' \<or> run_status r = ''retrying'')"

text \<open>\<open>lease_until <= now\<close> and \<open>lease_until > now\<close>: no comparison holds with \<open>NULL\<close>.\<close>

definition lease_expired :: "timestamp_ms \<Rightarrow> cron_run \<Rightarrow> bool" where
  "lease_expired now r = (case run_lease_until r of None \<Rightarrow> False | Some l \<Rightarrow> l \<le> now)"

definition lease_live :: "timestamp_ms \<Rightarrow> cron_run \<Rightarrow> bool" where
  "lease_live now r = (case run_lease_until r of None \<Rightarrow> False | Some l \<Rightarrow> now < l)"

text \<open>\<open>UPDATE\<close>: the number of rows it changed and the table after it.\<close>

definition update_runs :: "(cron_run \<Rightarrow> bool) \<Rightarrow> (cron_run \<Rightarrow> cron_run) \<Rightarrow> cron_db \<Rightarrow> nat \<times> cron_db"
  where
  "update_runs p f db =
     (length (filter p (cron_runs db)),
      db\<lparr>cron_runs := map (\<lambda>r. if p r then f r else r) (cron_runs db)\<rparr>)"

definition insert_run :: "cron_run \<Rightarrow> cron_db \<Rightarrow> (db_error + unit) \<times> cron_db" where
  "insert_run r db =
     (if run_id r \<in> set (map run_id (cron_runs db))
        \<or> list_ex (occurrence (run_job r) (run_scheduled_at r)) (cron_runs db)
      then (Inl (constraint_failed ''UNIQUE''), db)
      else if run_job r \<notin> set (map row_id (cron_jobs db)) then
        (Inl (constraint_failed ''FOREIGN KEY''), db)
      else if \<not> run_check r then (Inl (constraint_failed ''CHECK''), db)
      else (Inr (), db\<lparr>cron_runs := cron_runs db @ [r]\<rparr>))"

definition skipped_run :: "string \<Rightarrow> claim_params \<Rightarrow> cron_run" where
  "skipped_run i p = \<lparr>run_id = i, run_job = cl_job p, run_scheduled_at = cl_at p,
     run_status = ''skipped'', run_owner = None, run_lease_until = None, run_conversation = None,
     run_error = None, run_started_at = None, run_finished_at = Some (cl_now p),
     run_created_at = cl_now p, run_updated_at = cl_now p\<rparr>"

definition running_run :: "string \<Rightarrow> claim_params \<Rightarrow> cron_run" where
  "running_run i p = \<lparr>run_id = i, run_job = cl_job p, run_scheduled_at = cl_at p,
     run_status = ''running'', run_owner = Some (cl_owner p), run_lease_until = Some (cl_until p),
     run_conversation = None, run_error = None, run_started_at = Some (cl_now p),
     run_finished_at = None, run_created_at = cl_now p, run_updated_at = cl_now p\<rparr>"

definition reclaimed :: "claim_params \<Rightarrow> cron_run \<Rightarrow> cron_run" where
  "reclaimed p r = r\<lparr>run_status := ''running'', run_owner := Some (cl_owner p),
     run_lease_until := Some (cl_until p),
     run_started_at := Some (case run_started_at r of None \<Rightarrow> cl_now p | Some t \<Rightarrow> t),
     run_finished_at := None, run_error := None, run_updated_at := cl_now p\<rparr>"

definition claim_run ::
  "string \<Rightarrow> claim_params \<Rightarrow> cron_db \<Rightarrow> (db_error + claim_result) \<times> cron_db" where
  "claim_run i p db =
     (case find (occurrence (cl_job p) (cl_at p)) (cron_runs db) of
        Some r \<Rightarrow>
          if run_open r \<and> lease_expired (cl_now p) r then
            (let u = update_runs (\<lambda>r. occurrence (cl_job p) (cl_at p) r \<and> run_open r
                \<and> lease_expired (cl_now p) r) (reclaimed p) db in
             (Inr (if fst u = 1 then Claimed else Duplicate), snd u))
          else (Inr Duplicate, db)
      | None \<Rightarrow>
          if cl_queue p
            \<and> list_ex (\<lambda>r. run_job r = cl_job p \<and> run_open r \<and> lease_live (cl_now p) r) (cron_runs db)
          then (case insert_run (skipped_run i p) db of
                  (Inl e, _) \<Rightarrow> (Inl e, db)
                | (Inr _, db') \<Rightarrow> (Inr Queue_Busy, db'))
          else (case insert_run (running_run i p) db of
                  (Inl e, _) \<Rightarrow> (Inl e, db)
                | (Inr _, db') \<Rightarrow> (Inr Claimed, db')))"

definition owned_running :: "string \<Rightarrow> timestamp_ms \<Rightarrow> string \<Rightarrow> cron_run \<Rightarrow> bool" where
  "owned_running job at owner r =
     (occurrence job at r \<and> run_status r = ''running'' \<and> run_owner r = Some owner)"

definition renew_run_lease ::
  "string \<Rightarrow> timestamp_ms \<Rightarrow> string \<Rightarrow> timestamp_ms \<Rightarrow> timestamp_ms \<Rightarrow> cron_db \<Rightarrow> bool \<times> cron_db" where
  "renew_run_lease job at owner until now db =
     (let u = update_runs (owned_running job at owner)
        (\<lambda>r. r\<lparr>run_lease_until := Some until, run_updated_at := now\<rparr>) db in
      (fst u = 1, snd u))"

definition defer_run ::
  "string \<Rightarrow> timestamp_ms \<Rightarrow> string \<Rightarrow> timestamp_ms \<Rightarrow> timestamp_ms \<Rightarrow> cron_db \<Rightarrow> bool \<times> cron_db" where
  "defer_run job at owner retry_at now db =
     (let u = update_runs (owned_running job at owner)
        (\<lambda>r. r\<lparr>run_status := ''retrying'', run_owner := None, run_lease_until := Some retry_at,
           run_updated_at := now\<rparr>) db in
      (fst u = 1, snd u))"

definition finish_run :: "finish_params \<Rightarrow> cron_db \<Rightarrow> (db_error + bool) \<times> cron_db" where
  "finish_run p db =
     (let u = update_runs (owned_running (fin_job p) (fin_at p) (fin_owner p))
        (\<lambda>r. r\<lparr>run_status := fin_status p, run_conversation := fin_conversation p,
           run_error := fin_error p, run_lease_until := None, run_finished_at := Some (fin_now p),
           run_updated_at := fin_now p\<rparr>) db in
      if list_all run_check (cron_runs (snd u)) then (Inr (fst u = 1), snd u)
      else (Inl (constraint_failed ''CHECK''), db))"

definition run_over :: "cron_run \<Rightarrow> bool" where
  "run_over r = (run_status r \<in> set [''ok'', ''error'', ''skipped''])"

definition cleanup_runs_before :: "timestamp_ms \<Rightarrow> cron_db \<Rightarrow> nat \<times> cron_db" where
  "cleanup_runs_before cutoff db =
     (let old = (\<lambda>r. run_over r \<and> (case run_finished_at r of None \<Rightarrow> False | Some t \<Rightarrow> t < cutoff)) in
      (length (filter old (cron_runs db)),
       db\<lparr>cron_runs := filter (\<lambda>r. \<not> old r) (cron_runs db)\<rparr>))"

text \<open>
  \<open>ORDER BY lease_until ASC LIMIT 1\<close>; between equal leases SQLite may choose any row, here the
  oldest. \<open>MAX(lease_until, now)\<close> is the scalar maximum.
\<close>

definition get_recoverable_run :: "string \<Rightarrow> timestamp_ms \<Rightarrow> cron_db \<Rightarrow> recoverable_run option" where
  "get_recoverable_run job now db =
     (case sort_key (\<lambda>r. the (run_lease_until r))
        (filter (\<lambda>r. run_job r = job \<and> run_open r \<and> run_lease_until r \<noteq> None) (cron_runs db)) of
        [] \<Rightarrow> None
      | r # _ \<Rightarrow> Some \<lparr>rec_scheduled_at = run_scheduled_at r,
          rec_wake_at = max (the (run_lease_until r)) now\<rparr>)"

section \<open>The invariant of the tables\<close>

definition run_ok :: "cron_run \<Rightarrow> bool" where
  "run_ok r = (run_check r
     \<and> (run_status r = ''running'' \<longrightarrow> run_owner r \<noteq> None)
     \<and> (run_open r \<longleftrightarrow> run_lease_until r \<noteq> None))"

definition run_key :: "cron_run \<Rightarrow> string \<times> timestamp_ms" where
  "run_key r = (run_job r, run_scheduled_at r)"

definition cron_db_inv :: "cron_db \<Rightarrow> bool" where
  "cron_db_inv db =
     (distinct (map row_id (cron_jobs db)) \<and> (\<forall>r\<in>set (cron_jobs db). job_row_check r)
      \<and> distinct (map run_key (cron_runs db)) \<and> (\<forall>r\<in>set (cron_runs db). run_ok r)
      \<and> (\<forall>r\<in>set (cron_runs db). run_job r \<in> set (map row_id (cron_jobs db))))"

lemma cron_db_invD:
  assumes "cron_db_inv db"
  shows "distinct (map run_key (cron_runs db))" and "r \<in> set (cron_runs db) \<Longrightarrow> run_ok r"
    and "r \<in> set (cron_runs db) \<Longrightarrow> run_job r \<in> row_id ` set (cron_jobs db)"
    and "distinct (map row_id (cron_jobs db))" and "j \<in> set (cron_jobs db) \<Longrightarrow> job_row_check j"
  using assms by (auto simp: cron_db_inv_def)

lemma occurrence_key: "occurrence job at r \<longleftrightarrow> run_key r = (job, at)"
  by (simp add: occurrence_def run_key_def)

text \<open>An update that keeps the keys and the well-formedness of the rows keeps the invariant.\<close>

lemma cron_db_inv_update_runs:
  assumes "cron_db_inv db" and "\<And>r. r \<in> set (cron_runs db) \<Longrightarrow> p r \<Longrightarrow> run_ok r \<Longrightarrow> run_ok (f r)"
    and "\<And>r. run_key (f r) = run_key r"
  shows "cron_db_inv (snd (update_runs p f db))"
proof -
  have k: "run_key (if p r then f r else r) = run_key r" for r
    using assms(3) by simp
  have j: "run_job (f r) = run_job r" for r
    using assms(3) [of r] by (simp add: run_key_def)
  show ?thesis
    using assms(1,2) j
    by (auto simp: cron_db_inv_def update_runs_def comp_def k)
qed

lemma find_map_key:
  assumes "\<And>r. run_key (g r) = run_key r"
  shows "find (occurrence job at) (map g rs) = map_option g (find (occurrence job at) rs)"
  using assms by (induction rs) (auto simp: occurrence_key)

lemma find_occurrence:
  assumes "distinct (map run_key rs)"
  shows "find (occurrence job at) rs = Some r \<longleftrightarrow> r \<in> set rs \<and> run_key r = (job, at)"
  using assms by (induction rs) (auto simp: occurrence_key image_iff)

lemma find_occurrence_None:
  "find (occurrence job at) rs = None \<longleftrightarrow> (job, at) \<notin> run_key ` set rs"
  by (induction rs) (auto simp: occurrence_key)

lemma filter_occurrence:
  assumes "distinct (map run_key rs)"
  shows "filter (\<lambda>r. occurrence job at r \<and> q r) rs
    = (case find (occurrence job at) rs of None \<Rightarrow> [] | Some r \<Rightarrow> if q r then [r] else [])"
  using assms
proof (induction rs)
  case (Cons a rs)
  show ?case
  proof (cases "occurrence job at a")
    case True
    with Cons.prems have "find (occurrence job at) rs = None"
      by (auto simp: find_occurrence_None occurrence_key)
    then have "filter (\<lambda>r. occurrence job at r \<and> q r) rs = []"
      using Cons by simp
    with True show ?thesis by simp
  next
    case False
    with Cons show ?thesis by simp
  qed
qed simp

section \<open>An occurrence as a lease\<close>

text \<open>
  What the table promises of one occurrence, without rows: nobody holds it, an owner holds it
  until an instant, it waits for a retry from an instant on, or it is over.
\<close>

datatype lease_state = Free | Held string timestamp_ms | Waiting timestamp_ms | Over string

definition lease_of_run :: "cron_run \<Rightarrow> lease_state" where
  "lease_of_run r =
     (if run_status r = ''running'' then Held (the (run_owner r)) (the (run_lease_until r))
      else if run_status r = ''retrying'' then Waiting (the (run_lease_until r))
      else Over (run_status r))"

definition lease_of :: "cron_db \<Rightarrow> string \<Rightarrow> timestamp_ms \<Rightarrow> lease_state" where
  "lease_of db job at = (case find (occurrence job at) (cron_runs db) of
      None \<Rightarrow> Free | Some r \<Rightarrow> lease_of_run r)"

fun claimable :: "timestamp_ms \<Rightarrow> lease_state \<Rightarrow> bool" where
  "claimable now Free = True"
| "claimable now (Held _ until) = (until \<le> now)"
| "claimable now (Waiting from_t) = (from_t \<le> now)"
| "claimable now (Over _) = False"

definition held_by :: "string \<Rightarrow> lease_state \<Rightarrow> bool" where
  "held_by owner l = (case l of Held o' _ \<Rightarrow> o' = owner | _ \<Rightarrow> False)"

lemma run_ok_lease:
  assumes "run_ok r"
  shows "claimable now (lease_of_run r) \<longleftrightarrow> run_open r \<and> lease_expired now r"
    and "held_by owner (lease_of_run r)
      \<longleftrightarrow> run_status r = ''running'' \<and> run_owner r = Some owner"
    and "lease_of_run r \<noteq> Free"
  using assms
  by (auto simp: run_ok_def lease_of_run_def run_open_def lease_expired_def held_by_def
      split: option.splits)

lemma update_runs_lease:
  assumes inv: "cron_db_inv db" and key: "\<And>r. run_key (f r) = run_key r"
  shows "fst (update_runs (\<lambda>r. occurrence job at r \<and> q r) f db) = 1
      \<longleftrightarrow> (\<exists>r. find (occurrence job at) (cron_runs db) = Some r \<and> q r)"
    and "lease_of (snd (update_runs (\<lambda>r. occurrence job at r \<and> q r) f db)) job' at'
      = (case find (occurrence job at) (cron_runs db) of
           Some r \<Rightarrow> if (job', at') = (job, at) \<and> q r then lease_of_run (f r)
             else lease_of db job' at'
         | None \<Rightarrow> lease_of db job' at')"
proof -
  note d = cron_db_invD(1) [OF inv]
  show "fst (update_runs (\<lambda>r. occurrence job at r \<and> q r) f db) = 1
      \<longleftrightarrow> (\<exists>r. find (occurrence job at) (cron_runs db) = Some r \<and> q r)"
    by (simp add: update_runs_def filter_occurrence [OF d] split: option.splits)
  have k: "run_key (if occurrence job at r \<and> q r then f r else r) = run_key r" for r
    using key by simp
  have e: "lease_of (snd (update_runs (\<lambda>r. occurrence job at r \<and> q r) f db)) job' at'
      = (case find (occurrence job' at') (cron_runs db) of None \<Rightarrow> Free
         | Some r \<Rightarrow> lease_of_run (if occurrence job at r \<and> q r then f r else r))"
    unfolding lease_of_def update_runs_def by (simp add: find_map_key [OF k] split: option.split)
  show "lease_of (snd (update_runs (\<lambda>r. occurrence job at r \<and> q r) f db)) job' at'
      = (case find (occurrence job at) (cron_runs db) of
           Some r \<Rightarrow> if (job', at') = (job, at) \<and> q r then lease_of_run (f r)
             else lease_of db job' at'
         | None \<Rightarrow> lease_of db job' at')"
  proof (cases "(job', at') = (job, at)")
    case True
    show ?thesis
    proof (cases "find (occurrence job at) (cron_runs db)")
      case None
      with True show ?thesis unfolding e by (simp add: lease_of_def)
    next
      case (Some r)
      then have "occurrence job at r" by (auto simp: find_Some_iff)
      with True Some show ?thesis unfolding e by (simp add: lease_of_def)
    qed
  next
    case False
    then have "\<not> occurrence job at r" if "find (occurrence job' at') (cron_runs db) = Some r" for r
      using that by (auto simp: find_occurrence [OF d] occurrence_key)
    with False show ?thesis
      unfolding e by (auto simp: lease_of_def split: option.splits)
  qed
qed

lemma insert_run_lease:
  assumes "insert_run r db = (Inr (), db')"
  shows "lease_of db' job at
      = (if run_key r = (job, at) then lease_of_run r else lease_of db job at)"
    and "lease_of db (run_job r) (run_scheduled_at r) = Free"
proof -
  have f: "find (occurrence (run_job r) (run_scheduled_at r)) (cron_runs db) = None"
    and d: "db' = db\<lparr>cron_runs := cron_runs db @ [r]\<rparr>"
    using assms
    by (auto simp: insert_run_def find_None_iff list_ex_iff split: if_splits)
  show "lease_of db (run_job r) (run_scheduled_at r) = Free"
    by (simp add: lease_of_def f)
  show "lease_of db' job at
      = (if run_key r = (job, at) then lease_of_run r else lease_of db job at)"
    using f unfolding d
    by (auto simp: lease_of_def find_append occurrence_key run_key_def split: option.splits)
qed

lemma insert_run_inv:
  assumes "cron_db_inv db" "insert_run r db = (Inr (), db')" "run_ok r"
  shows "cron_db_inv db'"
  using assms
  by (auto simp: insert_run_def cron_db_inv_def list_ex_iff occurrence_def run_key_def split: if_splits)
    blast


section \<open>The operations refine the lease\<close>

text \<open>The abstract operations on one occurrence.\<close>

definition renew_lease :: "string \<Rightarrow> timestamp_ms \<Rightarrow> lease_state \<Rightarrow> lease_state" where
  "renew_lease owner until = (\<lambda>l. if held_by owner l then Held owner until else l)"

definition defer_lease :: "string \<Rightarrow> timestamp_ms \<Rightarrow> lease_state \<Rightarrow> lease_state" where
  "defer_lease owner retry_at = (\<lambda>l. if held_by owner l then Waiting retry_at else l)"

definition finish_lease :: "string \<Rightarrow> string \<Rightarrow> lease_state \<Rightarrow> lease_state" where
  "finish_lease owner status = (\<lambda>l. if held_by owner l then Over status else l)"

text \<open>One occurrence changes as given, every other stays.\<close>

definition at_occurrence ::
  "string \<Rightarrow> timestamp_ms \<Rightarrow> (lease_state \<Rightarrow> lease_state) \<Rightarrow> cron_db \<Rightarrow> cron_db \<Rightarrow> bool" where
  "at_occurrence job at f db db' =
     (\<forall>job' at'. lease_of db' job' at'
        = (if job' = job \<and> at' = at then f (lease_of db job' at') else lease_of db job' at'))"

lemma owned_lease:
  assumes inv: "cron_db_inv db" and key: "\<And>r. run_key (g r) = run_key r"
    and lg: "\<And>r. run_ok r \<Longrightarrow> run_status r = ''running'' \<Longrightarrow> run_owner r = Some owner
      \<Longrightarrow> lease_of_run (g r) = new"
  shows "fst (update_runs (owned_running job at owner) g db) = 1 \<longleftrightarrow> held_by owner (lease_of db job at)"
    and "at_occurrence job at (\<lambda>l. if held_by owner l then new else l) db
      (snd (update_runs (owned_running job at owner) g db))"
proof -
  have o: "owned_running job at owner
      = (\<lambda>r. occurrence job at r \<and> (run_status r = ''running'' \<and> run_owner r = Some owner))"
    by (rule ext) (simp add: owned_running_def)
  note u = update_runs_lease [OF inv key]
  have ok: "run_ok r" if "find (occurrence job at) (cron_runs db) = Some r" for r
    using that cron_db_invD(2) [OF inv] by (auto simp: find_occurrence [OF cron_db_invD(1) [OF inv]])
  show "fst (update_runs (owned_running job at owner) g db) = 1 \<longleftrightarrow> held_by owner (lease_of db job at)"
  proof (cases "find (occurrence job at) (cron_runs db)")
    case None
    then show ?thesis unfolding o u(1) by (simp add: lease_of_def held_by_def)
  next
    case (Some r)
    then show ?thesis
      unfolding o u(1) using run_ok_lease(2) [OF ok [OF Some]] by (simp add: lease_of_def)
  qed
  show "at_occurrence job at (\<lambda>l. if held_by owner l then new else l) db
      (snd (update_runs (owned_running job at owner) g db))"
  proof (cases "find (occurrence job at) (cron_runs db)")
    case None
    then show ?thesis
      unfolding o at_occurrence_def u(2) by (simp add: lease_of_def held_by_def)
  next
    case (Some r)
    note l = run_ok_lease(2) [OF ok [OF Some], of owner]
    have "lease_of db job at = lease_of_run r"
      using Some by (simp add: lease_of_def)
    then show ?thesis
      unfolding o at_occurrence_def u(2) using Some l lg [OF ok [OF Some]] by simp
  qed
qed

lemma renew_refines:
  assumes "cron_db_inv db"
  shows "fst (renew_run_lease job at owner until now db) \<longleftrightarrow> held_by owner (lease_of db job at)"
    and "at_occurrence job at (renew_lease owner until) db
      (snd (renew_run_lease job at owner until now db))"
  unfolding renew_run_lease_def Let_def fst_conv snd_conv renew_lease_def
  by (rule owned_lease [OF assms]; simp add: run_key_def lease_of_run_def)+

lemma defer_refines:
  assumes "cron_db_inv db"
  shows "fst (defer_run job at owner retry_at now db) \<longleftrightarrow> held_by owner (lease_of db job at)"
    and "at_occurrence job at (defer_lease owner retry_at) db
      (snd (defer_run job at owner retry_at now db))"
  unfolding defer_run_def Let_def fst_conv snd_conv defer_lease_def
  by (rule owned_lease [OF assms]; simp add: run_key_def lease_of_run_def)+

definition final_status :: "string \<Rightarrow> bool" where
  "final_status s = (s \<in> set [''ok'', ''error'', ''skipped''])"

lemma finish_checks:
  assumes "cron_db_inv db" and "final_status (fin_status p)"
  shows "list_all run_check (cron_runs (snd (update_runs q
    (\<lambda>r. r\<lparr>run_status := fin_status p, run_conversation := fin_conversation p,
           run_error := fin_error p, run_lease_until := None, run_finished_at := Some (fin_now p),
           run_updated_at := fin_now p\<rparr>) db)))"
proof -
  have "run_check r" if "r \<in> set (cron_runs db)" for r
    using cron_db_invD(2) [OF assms(1) that] by (simp add: run_ok_def)
  then show ?thesis
    using assms(2) by (auto simp: list_all_iff update_runs_def run_check_def final_status_def)
qed

lemma finish_refines:
  assumes inv: "cron_db_inv db" and s: "final_status (fin_status p)"
  shows "fst (finish_run p db) = Inr (held_by (fin_owner p) (lease_of db (fin_job p) (fin_at p)))"
    and "at_occurrence (fin_job p) (fin_at p) (finish_lease (fin_owner p) (fin_status p)) db
      (snd (finish_run p db))"
proof -
  have n: "fin_status p \<noteq> ''running''" "fin_status p \<noteq> ''retrying''"
    using s by (auto simp: final_status_def)
  note o = owned_lease [OF inv, of "\<lambda>r. r\<lparr>run_status := fin_status p,
      run_conversation := fin_conversation p, run_error := fin_error p, run_lease_until := None,
      run_finished_at := Some (fin_now p), run_updated_at := fin_now p\<rparr>" "fin_owner p"
      "Over (fin_status p)" "fin_job p" "fin_at p"]
  have 1: "finish_run p db = (let u = update_runs (owned_running (fin_job p) (fin_at p) (fin_owner p))
        (\<lambda>r. r\<lparr>run_status := fin_status p, run_conversation := fin_conversation p,
           run_error := fin_error p, run_lease_until := None, run_finished_at := Some (fin_now p),
           run_updated_at := fin_now p\<rparr>) db in (Inr (fst u = 1), snd u))"
    unfolding finish_run_def Let_def using finish_checks [OF inv s] by simp
  show "fst (finish_run p db) = Inr (held_by (fin_owner p) (lease_of db (fin_job p) (fin_at p)))"
    unfolding 1 Let_def using o(1) n by (simp add: run_key_def lease_of_run_def)
  show "at_occurrence (fin_job p) (fin_at p) (finish_lease (fin_owner p) (fin_status p)) db
      (snd (finish_run p db))"
    unfolding 1 Let_def finish_lease_def using o(2) n by (simp add: run_key_def lease_of_run_def)
qed

text \<open>A claim that succeeds takes a claimable occurrence; any other changes only what it skips.\<close>

lemma reclaim_refines:
  assumes inv: "cron_db_inv db" and f: "find (occurrence (cl_job p) (cl_at p)) (cron_runs db) = Some r"
    and e: "run_open r" "lease_expired (cl_now p) r"
  shows "\<exists>db'. claim_run i p db = (Inr Claimed, db')
    \<and> at_occurrence (cl_job p) (cl_at p) (\<lambda>_. Held (cl_owner p) (cl_until p)) db db'"
proof -
  have key: "run_key (reclaimed p r) = run_key r" for r
    by (simp add: reclaimed_def run_key_def)
  note u = update_runs_lease [OF inv key, where q = "\<lambda>r. run_open r \<and> lease_expired (cl_now p) r"]
  have "at_occurrence (cl_job p) (cl_at p) (\<lambda>_. Held (cl_owner p) (cl_until p)) db
      (snd (update_runs (\<lambda>r. occurrence (cl_job p) (cl_at p) r \<and> run_open r
          \<and> lease_expired (cl_now p) r) (reclaimed p) db))"
    unfolding at_occurrence_def u(2) using f e by (simp add: reclaimed_def lease_of_run_def)
  moreover have "fst (update_runs (\<lambda>r. occurrence (cl_job p) (cl_at p) r \<and> run_open r
          \<and> lease_expired (cl_now p) r) (reclaimed p) db) = 1"
    unfolding u(1) using f e by simp
  ultimately show ?thesis
    using f e by (simp add: claim_run_def Let_def)
qed

lemma claim_refines:
  assumes inv: "cron_db_inv db" and c: "claim_run i p db = (Inr c, db')"
  shows "case c of
      Claimed \<Rightarrow> claimable (cl_now p) (lease_of db (cl_job p) (cl_at p))
        \<and> at_occurrence (cl_job p) (cl_at p) (\<lambda>_. Held (cl_owner p) (cl_until p)) db db'
    | Duplicate \<Rightarrow> \<not> claimable (cl_now p) (lease_of db (cl_job p) (cl_at p)) \<and> db' = db
    | Queue_Busy \<Rightarrow> lease_of db (cl_job p) (cl_at p) = Free
        \<and> at_occurrence (cl_job p) (cl_at p) (\<lambda>_. Over ''skipped'') db db'"
proof (cases "find (occurrence (cl_job p) (cl_at p)) (cron_runs db)")
  case (Some r)
  have ok: "run_ok r"
    using Some cron_db_invD(2) [OF inv] by (auto simp: find_occurrence [OF cron_db_invD(1) [OF inv]])
  have l: "claimable (cl_now p) (lease_of db (cl_job p) (cl_at p))
      \<longleftrightarrow> run_open r \<and> lease_expired (cl_now p) r"
    using run_ok_lease(1) [OF ok] Some by (simp add: lease_of_def)
  show ?thesis
  proof (cases "run_open r \<and> lease_expired (cl_now p) r")
    case True
    then obtain d where "claim_run i p db = (Inr Claimed, d)"
      "at_occurrence (cl_job p) (cl_at p) (\<lambda>_. Held (cl_owner p) (cl_until p)) db d"
      using reclaim_refines [OF inv Some] by blast
    with c l True show ?thesis by simp
  next
    case False
    with c Some have "c = Duplicate" "db' = db" by (auto simp: claim_run_def)
    with l False show ?thesis by simp
  qed
next
  case None
  then have free: "lease_of db (cl_job p) (cl_at p) = Free"
    by (simp add: lease_of_def)
  have s: "lease_of_run (skipped_run i p) = Over ''skipped''"
      "lease_of_run (running_run i p) = Held (cl_owner p) (cl_until p)"
      "run_key (skipped_run i p) = (cl_job p, cl_at p)"
      "run_key (running_run i p) = (cl_job p, cl_at p)"
    by (simp_all add: lease_of_run_def skipped_run_def running_run_def run_key_def)
  from c None consider
      (busy) "c = Queue_Busy" "insert_run (skipped_run i p) db = (Inr (), db')"
    | (new) "c = Claimed" "insert_run (running_run i p) db = (Inr (), db')"
    by (auto simp: claim_run_def split: if_splits prod.splits sum.splits)
  then show ?thesis
  proof cases
    case busy
    then show ?thesis
      using free insert_run_lease(1) [OF busy(2)] s by (simp add: at_occurrence_def)
  next
    case new
    then show ?thesis
      using free insert_run_lease(1) [OF new(2)] s by (simp add: at_occurrence_def)
  qed
qed

section \<open>Every operation keeps the invariant\<close>

lemma run_ok_status:
  "run_ok r \<Longrightarrow> run_status r = ''running'' \<Longrightarrow> run_ok (r\<lparr>run_lease_until := Some l, run_updated_at := n\<rparr>)"
  by (simp add: run_ok_def run_check_def run_open_def)

lemma inv_renew: "cron_db_inv db \<Longrightarrow> cron_db_inv (snd (renew_run_lease job at owner until now db))"
  unfolding renew_run_lease_def Let_def snd_conv
  by (rule cron_db_inv_update_runs)
    (auto simp: run_ok_def run_check_def run_open_def run_key_def owned_running_def)

lemma inv_defer: "cron_db_inv db \<Longrightarrow> cron_db_inv (snd (defer_run job at owner retry_at now db))"
  unfolding defer_run_def Let_def snd_conv
  by (rule cron_db_inv_update_runs)
    (auto simp: run_ok_def run_check_def run_open_def run_key_def owned_running_def)

lemma inv_finish:
  assumes "cron_db_inv db" and "final_status (fin_status p)"
  shows "cron_db_inv (snd (finish_run p db))"
proof -
  let ?f = "\<lambda>r. r\<lparr>run_status := fin_status p, run_conversation := fin_conversation p,
           run_error := fin_error p, run_lease_until := None, run_finished_at := Some (fin_now p),
           run_updated_at := fin_now p\<rparr>"
  have "cron_db_inv (snd (update_runs (owned_running (fin_job p) (fin_at p) (fin_owner p)) ?f db))"
    by (rule cron_db_inv_update_runs [OF assms(1)])
      (use assms(2) in \<open>auto simp: run_ok_def run_check_def run_open_def run_key_def final_status_def\<close>)
  then show ?thesis
    using finish_checks [OF assms] by (simp add: finish_run_def Let_def)
qed

lemma run_ok_new: "run_ok (skipped_run i p)" "run_ok (running_run i p)"
  by (simp_all add: run_ok_def run_check_def run_open_def skipped_run_def running_run_def)

lemma inv_claim:
  assumes "cron_db_inv db"
  shows "cron_db_inv (snd (claim_run i p db))"
proof (cases "find (occurrence (cl_job p) (cl_at p)) (cron_runs db)")
  case (Some r)
  have "cron_db_inv (snd (update_runs (\<lambda>r. occurrence (cl_job p) (cl_at p) r \<and> run_open r
                \<and> lease_expired (cl_now p) r) (reclaimed p) db))"
    by (rule cron_db_inv_update_runs [OF assms])
      (auto simp: run_ok_def run_check_def run_open_def run_key_def reclaimed_def)
  with assms Some show ?thesis by (simp add: claim_run_def Let_def)
next
  case None
  have ins: "cron_db_inv (snd (insert_run r db))" if "run_ok r" for r
  proof (cases "fst (insert_run r db)")
    case (Inl e)
    with assms show ?thesis by (auto simp: insert_run_def split: if_splits)
  next
    case (Inr u)
    then have "insert_run r db = (Inr (), snd (insert_run r db))" by (simp add: prod_eq_iff)
    from insert_run_inv [OF assms this that] show ?thesis .
  qed
  from None assms ins [OF run_ok_new(1), of i p] ins [OF run_ok_new(2), of i p]
  show ?thesis by (auto simp: claim_run_def split: prod.splits sum.splits)
qed

lemma inv_cleanup: "cron_db_inv db \<Longrightarrow> cron_db_inv (snd (cleanup_runs_before t db))"
  by (auto simp: cleanup_runs_before_def cron_db_inv_def Let_def distinct_map_filter)

lemma inv_insert_job: "cron_db_inv db \<Longrightarrow> cron_db_inv (snd (insert_job r db))"
  by (auto simp: insert_job_def cron_db_inv_def)

lemma row_id_set_columns [simp]: "row_id (set_columns p now r) = row_id r"
  by (simp add: set_columns_def)

lemma cron_db_inv_jobs:
  assumes "cron_db_inv db" and "map row_id js = map row_id (cron_jobs db)"
    and "list_all job_row_check js"
  shows "cron_db_inv (db\<lparr>cron_jobs := js\<rparr>)"
proof -
  have "row_id ` set js = row_id ` set (cron_jobs db)"
    using arg_cong [OF assms(2), of set] by simp
  then show ?thesis
    using assms by (simp add: cron_db_inv_def list_all_iff)
qed

lemma inv_update_job:
  assumes "cron_db_inv db"
  shows "cron_db_inv (snd (update_job_row i p now db))"
proof -
  have "map row_id (map (\<lambda>r. if row_id r = i then set_columns p now r else r) (cron_jobs db))
      = map row_id (cron_jobs db)"
    by (auto simp: comp_def)
  from cron_db_inv_jobs [OF assms this] assms show ?thesis
    by (simp add: update_job_row_def Let_def)
qed

lemma inv_delete_job: "cron_db_inv db \<Longrightarrow> cron_db_inv (snd (delete_job i db))"
  by (auto simp: delete_job_def cron_db_inv_def distinct_map_filter)

lemma inv_delete_conversation: 
  "cron_db_inv db \<Longrightarrow> cron_db_inv (snd (delete_conversation_jobs c db))"
  by (simp add: delete_conversation_jobs_def cron_db_inv_def Let_def distinct_map_filter) blast

section \<open>All operations as one type\<close>

datatype run_op =
    Claim_Op string claim_params
  | Renew_Op string timestamp_ms string timestamp_ms timestamp_ms
  | Defer_Op string timestamp_ms string timestamp_ms timestamp_ms
  | Finish_Op finish_params
  | Insert_Op cron_job_row
  | Update_Op string update_params timestamp_ms
  | Delete_Op string
  | Delete_Conversation_Op string
  | Cleanup_Op timestamp_ms

fun apply_op :: "run_op \<Rightarrow> cron_db \<Rightarrow> cron_db" where
  "apply_op (Claim_Op i p) db = snd (claim_run i p db)"
| "apply_op (Renew_Op job at owner until now) db = snd (renew_run_lease job at owner until now db)"
| "apply_op (Defer_Op job at owner retry_at now) db = snd (defer_run job at owner retry_at now db)"
| "apply_op (Finish_Op p) db = snd (finish_run p db)"
| "apply_op (Insert_Op r) db = snd (insert_job r db)"
| "apply_op (Update_Op i p now) db = snd (update_job_row i p now db)"
| "apply_op (Delete_Op i) db = snd (delete_job i db)"
| "apply_op (Delete_Conversation_Op c) db = snd (delete_conversation_jobs c db)"
| "apply_op (Cleanup_Op t) db = snd (cleanup_runs_before t db)"

text \<open>
  The process behind an operation, and the operations of a process other than \<open>me\<close> at instants
  before \<open>until\<close>. Finishing uses one of the three final statuses, as the service does.
\<close>

fun foreign_op :: "string \<Rightarrow> timestamp_ms \<Rightarrow> run_op \<Rightarrow> bool" where
  "foreign_op me until (Claim_Op i p) = (cl_now p < until)"
| "foreign_op me until (Renew_Op job at owner l now) = (owner \<noteq> me)"
| "foreign_op me until (Defer_Op job at owner l now) = (owner \<noteq> me)"
| "foreign_op me until (Finish_Op p) = (fin_owner p \<noteq> me \<and> final_status (fin_status p))"
| "foreign_op me until (Insert_Op r) = True"
| "foreign_op me until (Update_Op i p now) = True"
| "foreign_op me until (Delete_Op i) = True"
| "foreign_op me until (Delete_Conversation_Op c) = True"
| "foreign_op me until (Cleanup_Op t) = True"

text \<open>The operations of any process, the clean-up removing only what was over before \<open>t\<close>.\<close>

fun later_op :: "timestamp_ms \<Rightarrow> run_op \<Rightarrow> bool" where
  "later_op t (Finish_Op p) = final_status (fin_status p)"
| "later_op t (Cleanup_Op cutoff) = (cutoff \<le> t)"
| "later_op t _ = True"

text \<open>The job is there before, between and after the operations: none of them deletes it.\<close>

definition job_there :: "string \<Rightarrow> cron_db \<Rightarrow> bool" where
  "job_there job db = (job \<in> set (map row_id (cron_jobs db)))"

fun job_stays :: "string \<Rightarrow> run_op list \<Rightarrow> cron_db \<Rightarrow> bool" where
  "job_stays job [] db = job_there job db"
| "job_stays job (x # ops) db = (job_there job db \<and> job_stays job ops (apply_op x db))"

lemma job_stays_there: "job_stays job ops db \<Longrightarrow> job_there job db"
  by (cases ops) simp_all

lemma runs_of_job_ops [simp]:
  "cron_runs (snd (insert_job r db)) = cron_runs db"
  "cron_runs (snd (update_job_row i p now db)) = cron_runs db"
  by (simp_all add: insert_job_def update_job_row_def Let_def)

lemma claim_elsewhere:
  assumes "cron_db_inv db" and "\<not> claimable (cl_now p) (lease_of db job at)"
  shows "lease_of (snd (claim_run i p db)) job at = lease_of db job at"
proof (cases "claim_run i p db")
  case (Pair res db')
  show ?thesis
  proof (cases res)
    case (Inl e)
    with Pair show ?thesis
      by (auto simp: claim_run_def Let_def split: option.splits if_splits prod.splits sum.splits)
  next
    case (Inr c)
    from claim_refines [OF assms(1) Pair [unfolded Inr]] assms(2) show ?thesis
      by (cases c) (auto simp: Pair at_occurrence_def)
  qed
qed

text \<open>Deletions and the clean-up keep the rows they do not name.\<close>

lemma lease_of_filter:
  assumes "cron_db_inv db" and "cron_runs db' = filter p (cron_runs db)"
    and "\<And>r. find (occurrence job at) (cron_runs db) = Some r \<Longrightarrow> p r"
  shows "lease_of db' job at = lease_of db job at"
proof -
  have d: "distinct (map run_key (filter p (cron_runs db)))"
    using cron_db_invD(1) [OF assms(1)] by (rule distinct_map_filter)
  have "find (occurrence job at) (filter p (cron_runs db)) = find (occurrence job at) (cron_runs db)"
  proof (cases "find (occurrence job at) (cron_runs db)")
    case None
    then have "find (occurrence job at) (filter p (cron_runs db)) = None" by (auto simp: find_None_iff)
    with None show ?thesis by simp
  next
    case (Some r)
    then have "r \<in> set (cron_runs db) \<and> run_key r = (job, at)"
      by (simp add: find_occurrence [OF cron_db_invD(1) [OF assms(1)]])
    with assms(3) [OF Some] have "find (occurrence job at) (filter p (cron_runs db)) = Some r"
      by (simp add: find_occurrence [OF d])
    with Some show ?thesis by simp
  qed
  then show ?thesis by (simp add: lease_of_def assms(2))
qed

lemma deletion_spares:
  assumes "cron_db_inv db" and "job_there job (apply_op x db)" and "run_job r = job" and "r \<in> set (cron_runs db)"
    and "x = Delete_Op i \<or> x = Delete_Conversation_Op c"
  shows "r \<in> set (cron_runs (apply_op x db))"
  using assms(5)
proof
  assume "x = Delete_Op i"
  with assms(2-4) show ?thesis by (cases "i \<in> row_id ` set (cron_jobs db)") (auto simp: delete_job_def job_there_def)
next
  assume x: "x = Delete_Conversation_Op c"
  then obtain j where j: "j \<in> set (cron_jobs db)" "row_conversation j \<noteq> c" "row_id j = job"
    using assms(2) by (auto simp: delete_conversation_jobs_def job_there_def)
  have "job \<notin> row_id ` {j \<in> set (cron_jobs db). row_conversation j = c}"
    using j cron_db_invD(4) [OF assms(1)] by (auto simp: distinct_map dest: inj_onD)
  with x assms(3,4) show ?thesis by (auto simp: delete_conversation_jobs_def Let_def)
qed

lemma deletion_filters:
  assumes "x = Delete_Op i \<or> x = Delete_Conversation_Op c"
  obtains p where "cron_runs (apply_op x db) = filter p (cron_runs db)"
proof (cases "x = Delete_Op i \<and> i \<notin> row_id ` set (cron_jobs db)")
  case True
  then have "cron_runs (apply_op x db) = filter (\<lambda>_. True) (cron_runs db)" by (simp add: delete_job_def)
  then show ?thesis by (rule that)
next
  case False
  with assms that show ?thesis by (auto simp: delete_job_def delete_conversation_jobs_def Let_def)
qed

lemma deletion_keeps_lease:
  assumes inv: "cron_db_inv db" and there: "job_there job (apply_op x db)"
    and x: "x = Delete_Op i \<or> x = Delete_Conversation_Op c"
  shows "lease_of (apply_op x db) job at = lease_of db job at"
proof -
  from x obtain p where p: "cron_runs (apply_op x db) = filter p (cron_runs db)"
    by (rule deletion_filters)
  show ?thesis
  proof (rule lease_of_filter [OF inv p])
    fix r
    assume "find (occurrence job at) (cron_runs db) = Some r"
    then have "r \<in> set (cron_runs db)" "run_job r = job"
      by (auto simp: find_occurrence [OF cron_db_invD(1) [OF inv]] run_key_def)
    with deletion_spares [OF inv there _ _ x, of r] show "p r" by (simp add: p)
  qed
qed

lemma cleanup_keeps_held:
  assumes "cron_db_inv db" and "lease_of db job at = Held me until"
  shows "lease_of (snd (cleanup_runs_before t db)) job at = Held me until"
proof -
  have "cron_runs (snd (cleanup_runs_before t db)) = filter (\<lambda>r. \<not> (run_over r
      \<and> (case run_finished_at r of None \<Rightarrow> False | Some f \<Rightarrow> f < t))) (cron_runs db)"
    by (simp add: cleanup_runs_before_def Let_def)
  then have "lease_of (snd (cleanup_runs_before t db)) job at = lease_of db job at"
    by (rule lease_of_filter [OF assms(1)])
      (use assms(2) in \<open>auto simp: run_over_def lease_of_def lease_of_run_def split: if_splits\<close>)
  with assms(2) show ?thesis by simp
qed

lemma foreign_op_keeps:
  assumes inv: "cron_db_inv db" and h: "lease_of db job at = Held me until"
    and f: "foreign_op me until x" and there: "job_there job (apply_op x db)"
  shows "lease_of (apply_op x db) job at = Held me until"
proof (cases x)
  case (Claim_Op i p)
  with f h claim_elsewhere [OF inv, of p job at i] show ?thesis by simp
next
  case (Renew_Op job' at' owner l now)
  with f h renew_refines(2) [OF inv, of job' at' owner l now] show ?thesis
    by (auto simp: at_occurrence_def renew_lease_def held_by_def)
next
  case (Defer_Op job' at' owner l now)
  with f h defer_refines(2) [OF inv, of job' at' owner l now] show ?thesis
    by (auto simp: at_occurrence_def defer_lease_def held_by_def)
next
  case (Finish_Op p)
  with f h finish_refines(2) [OF inv, of p] show ?thesis
    by (auto simp: at_occurrence_def finish_lease_def held_by_def)
next
  case (Delete_Op i)
  with h deletion_keeps_lease [OF inv there] show ?thesis by simp
next
  case (Delete_Conversation_Op c)
  with h deletion_keeps_lease [OF inv there] show ?thesis by simp
next
  case (Cleanup_Op t)
  with cleanup_keeps_held [OF inv h] show ?thesis by simp
qed (use h in \<open>simp_all add: lease_of_def\<close>)

text \<open>The row of an occurrence that is over stays as it is.\<close>

lemma finished_row_stays:
  assumes inv: "cron_db_inv db" and r: "r \<in> set (cron_runs db)" "run_over r" "run_finished_at r = Some t"
    and x: "later_op t x" and there: "job_there (run_job r) (apply_op x db)"
  shows "r \<in> set (cron_runs (apply_op x db))"
proof -
  have n: "\<not> run_open r" "\<not> owned_running j a o' r" for j a o'
    using r(2) by (auto simp: run_over_def run_open_def owned_running_def)
  have u: "r \<in> set (cron_runs (snd (update_runs p f db)))" if "\<not> p r" for p f
    using r(1) that by (auto simp: update_runs_def image_iff intro!: bexI [of _ r])
  have i: "r \<in> set (cron_runs db')" if "insert_run y db = (q, db')" for y q db'
    using r(1) that by (auto simp: insert_run_def split: if_splits)
  show ?thesis
  proof (cases x)
    case (Claim_Op k p)
    then show ?thesis
      using r(1) n(1) u i by (auto simp: claim_run_def Let_def split: option.splits if_splits prod.splits sum.splits)
  next
    case (Renew_Op j a o' l now)
    then show ?thesis using n u by (simp add: renew_run_lease_def Let_def)
  next
    case (Defer_Op j a o' l now)
    then show ?thesis using n u by (simp add: defer_run_def Let_def)
  next
    case (Finish_Op p)
    then show ?thesis using r(1) n u by (simp add: finish_run_def Let_def)
  next
    case (Delete_Op k)
    then show ?thesis using deletion_spares [OF inv there refl r(1)] by blast
  next
    case (Delete_Conversation_Op c)
    then show ?thesis using deletion_spares [OF inv there refl r(1)] by blast
  next
    case (Cleanup_Op cutoff)
    with r x show ?thesis by (auto simp: cleanup_runs_before_def Let_def)
  qed (use r in simp_all)
qed

lemma inv_run_op:
  assumes "cron_db_inv db" and "case x of Finish_Op p \<Rightarrow> final_status (fin_status p) | _ \<Rightarrow> True"
  shows "cron_db_inv (apply_op x db)"
  using assms
  by (cases x) (auto simp: inv_claim inv_renew inv_defer inv_finish inv_insert_job inv_update_job
      inv_delete_job inv_delete_conversation inv_cleanup)

end
