(* ===== verification/Cron_Service.thy ===== *)
theory Cron_Service
  imports Cron_Schedule Cron_Store
begin

text \<open>
  \<open>aionui-cron/src/service.rs\<close>: adding, updating and removing jobs, the tick of an occurrence, its
  result, recovery at start and after a system resume. The repository is the record \<open>cron_repo\<close>
  (the trait \<open>ICronRepository\<close>), whose operations may fail; \<open>sqlite_repo\<close> is the implementation of
  \<open>Cron_Store\<close>. What the service asks of the assistant repositories, the executor, the file
  system and \<open>serde_json\<close> is the record \<open>cron_env\<close>. An operation is one step, except that an
  execution is three: the claim (\<open>tick\<close>), the binding of the prepared conversation, and the result
  (\<open>handle_execution_result\<close>), between which other operations run; the operations of the scheduler that a step contains are the
  composed ones of \<open>Cron_Schedule\<close>, where their interleavings are treated. The clock stands still during
  a step. Logging and the heartbeat task itself are left out; \<open>renew_heartbeat\<close> is one beat.
\<close>

section \<open>Interfaces\<close>

record 'db cron_repo =
  repo_insert :: "cron_job_row \<Rightarrow> 'db \<Rightarrow> (db_error + unit) \<times> 'db"
  repo_update :: "string \<Rightarrow> update_params \<Rightarrow> timestamp_ms \<Rightarrow> 'db \<Rightarrow> (db_error + unit) \<times> 'db"
  repo_delete :: "string \<Rightarrow> 'db \<Rightarrow> (db_error + unit) \<times> 'db"
  repo_get :: "string \<Rightarrow> 'db \<Rightarrow> db_error + cron_job_row option"
  repo_list_all :: "'db \<Rightarrow> db_error + cron_job_row list"
  repo_list_enabled :: "'db \<Rightarrow> db_error + cron_job_row list"
  repo_list_conversation :: "string \<Rightarrow> 'db \<Rightarrow> db_error + cron_job_row list"
  repo_claim :: "string \<Rightarrow> claim_params \<Rightarrow> 'db \<Rightarrow> (db_error + claim_result) \<times> 'db"
  repo_renew :: "string \<Rightarrow> timestamp_ms \<Rightarrow> string \<Rightarrow> timestamp_ms \<Rightarrow> timestamp_ms \<Rightarrow> 'db
    \<Rightarrow> (db_error + bool) \<times> 'db"
  repo_defer :: "string \<Rightarrow> timestamp_ms \<Rightarrow> string \<Rightarrow> timestamp_ms \<Rightarrow> timestamp_ms \<Rightarrow> 'db
    \<Rightarrow> (db_error + bool) \<times> 'db"
  repo_finish :: "finish_params \<Rightarrow> 'db \<Rightarrow> (db_error + bool) \<times> 'db"
  repo_cleanup :: "timestamp_ms \<Rightarrow> 'db \<Rightarrow> (db_error + nat) \<times> 'db"
  repo_recoverable :: "string \<Rightarrow> timestamp_ms \<Rightarrow> 'db \<Rightarrow> db_error + recoverable_run option"

definition sqlite_repo :: "cron_db cron_repo" where
  "sqlite_repo = \<lparr>
     repo_insert = insert_job,
     repo_update = update_job_row,
     repo_delete = delete_job,
     repo_get = (\<lambda>i db. Inr (get_job_row i db)),
     repo_list_all = (\<lambda>db. Inr (list_all_jobs db)),
     repo_list_enabled = (\<lambda>db. Inr (list_enabled_jobs db)),
     repo_list_conversation = (\<lambda>c db. Inr (list_conversation_jobs c db)),
     repo_claim = claim_run,
     repo_renew = (\<lambda>j a o' u n db. apfst Inr (renew_run_lease j a o' u n db)),
     repo_defer = (\<lambda>j a o' r n db. apfst Inr (defer_run j a o' r n db)),
     repo_finish = finish_run,
     repo_cleanup = (\<lambda>t db. apfst Inr (cleanup_runs_before t db)),
     repo_recoverable = (\<lambda>j n db. Inr (get_recoverable_run j n db))\<rparr>"

record config_write_dto =
  wr_name :: string
  wr_cli_path :: "string option"
  wr_assistant_id :: "string option"
  wr_mode :: "string option"
  wr_model_id :: "string option"
  wr_model :: "provider_with_model option"
  wr_config_options :: "(string \<rightharpoonup> string) option"
  wr_workspace :: "string option"

text \<open>
  \<open>env_runtime_type\<close> is \<open>resolve_agent_type_for_assistant_id\<close>, \<open>env_backend\<close>
  \<open>resolve_assistant_backend\<close>, \<open>env_full_auto\<close> \<open>resolve_cron_full_auto_mode\<close>, \<open>env_team_job\<close>
  whether a conversation row names a team, \<open>env_auto_workspace\<close> the workspace created for a
  conversation, \<open>env_same_path\<close> \<open>workspace_matches_path\<close>, \<open>env_workspace\<close> the workspace check.
\<close>

record ('s, 'z, 'd) cron_env =
  env_json :: config_json
  env_lib :: "('s, 'z, 'd) cron_lib"
  env_instance :: string
  env_runtime_type :: "string \<Rightarrow> cron_error + string"
  env_backend :: "string \<Rightarrow> cron_error + string option"
  env_full_auto :: "string \<Rightarrow> string \<Rightarrow> string \<Rightarrow> cron_error + string"
  env_team_job :: "string \<Rightarrow> cron_error + bool"
  env_auto_workspace :: "string \<Rightarrow> string option"
  env_same_path :: "string \<Rightarrow> string \<Rightarrow> bool"
  env_workspace :: "cron_job \<Rightarrow> cron_error + unit"

text \<open>The events of \<open>CronEventEmitter\<close>, and the calls that bind a conversation to a job.\<close>

datatype cron_event =
    Job_Created cron_job_response
  | Job_Updated cron_job_response
  | Job_Removed string
  | Job_Executed string string "string option"
  | Conversation_Tips string string string
  | Bound string string "string option"
  | Unbound string string

record 'db cron_world =
  cw_db :: 'db
  cw_sched :: scheduler
  cw_events :: "cron_event list"

definition emit :: "cron_event \<Rightarrow> 'db cron_world \<Rightarrow> 'db cron_world" where
  "emit e w = w\<lparr>cw_events := cw_events w @ [e]\<rparr>"

definition with_sched :: "(scheduler \<Rightarrow> scheduler) \<Rightarrow> 'db cron_world \<Rightarrow> 'db cron_world" where
  "with_sched f w = w\<lparr>cw_sched := f (cw_sched w)\<rparr>"

text \<open>An operation of the repository on the world.\<close>

definition on_db :: "('db \<Rightarrow> ('e + 'a) \<times> 'db) \<Rightarrow> 'db cron_world \<Rightarrow> ('e + 'a) \<times> 'db cron_world" where
  "on_db f w = (let r = f (cw_db w) in (fst r, w\<lparr>cw_db := snd r\<rparr>))"

definition do_update ::
  "'db cron_repo \<Rightarrow> string \<Rightarrow> update_params \<Rightarrow> timestamp_ms \<Rightarrow> 'db cron_world
    \<Rightarrow> (db_error + unit) \<times> 'db cron_world" where
  "do_update R i p now w = on_db (repo_update R i p now) w"

definition run_lease_ms :: int where "run_lease_ms = 60000"
definition retry_interval_ms :: int where "retry_interval_ms = 30000"
definition run_history_retention_ms :: int where
  "run_history_retention_ms = 30 * 24 * 60 * 60 * 1000"

section \<open>Requests\<close>

definition parse_execution_mode :: "string option \<Rightarrow> cron_error + execution_mode" where
  "parse_execution_mode m = (case m of
      None \<Rightarrow> Inr Existing
    | Some s \<Rightarrow> if s = ''existing'' then Inr Existing else execution_mode_from_str s)"

definition runtime_agent_type_for_backend :: "string \<Rightarrow> string" where
  "runtime_agent_type_for_backend b = (if b = ''aionrs'' then ''aionrs'' else ''acp'')"

definition aionrs_model_error :: cron_error where
  "aionrs_model_error = Invalid_Agent_Config
     ''aionrs cron jobs require agent_config.model.provider_id and agent_config.model.model''"

definition normalize_model ::
  "provider_with_model option \<Rightarrow> string \<Rightarrow> cron_error + provider_with_model option" where
  "normalize_model m runtime = (case m of
      None \<Rightarrow> Inr None
    | Some m \<Rightarrow>
        (let p = trim (provider_id m); n = trim (provider_model m);
             u = (case map_option trim (use_model m) of None \<Rightarrow> None
                  | Some v \<Rightarrow> if v = [] then None else Some v) in
         if runtime = ''aionrs'' \<and> (p = [] \<or> n = []) then Inl aionrs_model_error
         else if p = [] \<or> n = [] then Inr None
         else Inr (Some \<lparr>provider_id = p, provider_model = n, use_model = u\<rparr>)))"

definition validate_aionrs_agent_config :: "string \<Rightarrow> config_write_dto option \<Rightarrow> cron_error + unit" where
  "validate_aionrs_agent_config agent_type c =
     (if agent_type \<noteq> ''aionrs'' then Inr ()
      else if (case Option.bind c wr_model of None \<Rightarrow> False
          | Some m \<Rightarrow> trim (provider_id m) \<noteq> [] \<and> trim (provider_model m) \<noteq> [])
        then Inr ()
      else Inl aionrs_model_error)"

definition sanitize_agent_config_dto :: "config_write_dto \<Rightarrow> config_write_dto" where
  "sanitize_agent_config_dto c = (case wr_assistant_id c of
      None \<Rightarrow> c
    | Some v \<Rightarrow> c\<lparr>wr_assistant_id := (if trim v = [] then None else Some (trim v))\<rparr>)"

fun schedule_from_dto_with_existing_timezone :: "cron_schedule_dto \<Rightarrow> cron_schedule \<Rightarrow> cron_schedule"
  where
  "schedule_from_dto_with_existing_timezone (Cron_Dto e tz d) existing =
     Cron e (or_else tz (case existing of Cron _ tz' _ \<Rightarrow> tz' | _ \<Rightarrow> None)) d"
| "schedule_from_dto_with_existing_timezone dto existing = schedule_from_dto dto"

definition should_bind_success_conversation :: "string \<Rightarrow> string \<Rightarrow> string \<Rightarrow> bool" where
  "should_bind_success_conversation mode existing success =
     (mode = execution_mode_str Existing \<and> trim success \<noteq> [] \<and> trim existing \<noteq> trim success)"

definition resolve_new_job_agent_type ::
  "('s, 'z, 'd) cron_env \<Rightarrow> config_write_dto option \<Rightarrow> cron_error + string" where
  "resolve_new_job_agent_type E c = (case Option.bind c wr_assistant_id of
      None \<Rightarrow> Inl (Invalid_Agent_Config ''assistant_id is required for new cron jobs'')
    | Some a \<Rightarrow> env_runtime_type E a)"

definition resolve_job_agent_type :: "('s, 'z, 'd) cron_env \<Rightarrow> cron_job \<Rightarrow> cron_error + string" where
  "resolve_job_agent_type E j =
     (if trim (job_agent_type j) \<noteq> [] then Inr (job_agent_type j)
      else (case Option.bind (job_config j) (\<lambda>c. or_else (cfg_assistant_id c) (cfg_custom_agent_id c)) of
          None \<Rightarrow> Inl (Invalid_Agent_Config ''assistant_id is required for cron jobs'')
        | Some a \<Rightarrow>
            if trim a = [] then
              Inl (Invalid_Agent_Config ''assistant_id is required for cron jobs'')
            else env_runtime_type E a))"

definition build_cron_agent_config ::
  "('s, 'z, 'd) cron_env \<Rightarrow> string \<Rightarrow> config_write_dto \<Rightarrow> cron_error + cron_agent_config" where
  "build_cron_agent_config E runtime c =
     (case wr_assistant_id c of
        None \<Rightarrow> Inl (Invalid_Agent_Config ''assistant_id is required for cron jobs'')
      | Some a \<Rightarrow>
          if trim a = [] then Inl (Invalid_Agent_Config ''assistant_id is required for cron jobs'')
          else
            and_then (env_backend E a) (\<lambda>b.
            and_then (ok_or (Invalid_Agent_Config
                (''assistant '' @ quoted a @ '' could not resolve a runtime backend'')) b) (\<lambda>backend.
            and_then (env_full_auto E runtime a backend) (\<lambda>full_auto.
            and_then (normalize_model (wr_model c) runtime) (\<lambda>model.
            Inr \<lparr>cfg_name = wr_name c, cfg_cli_path = wr_cli_path c, cfg_is_preset = None,
              cfg_assistant_id = wr_assistant_id c, cfg_custom_agent_id = None,
              cfg_mode = Some full_auto, cfg_model_id = wr_model_id c, cfg_model = model,
              cfg_config_options = wr_config_options c, cfg_workspace = wr_workspace c\<rparr>)))))"

section \<open>Adding a job\<close>

record create_request =
  cr_name :: string
  cr_description :: "string option"
  cr_schedule :: cron_schedule_dto
  cr_prompt :: "string option"
  cr_message :: "string option"
  cr_conversation :: string
  cr_title :: "string option"
  cr_created_by :: string
  cr_mode :: "string option"
  cr_queue :: bool
  cr_config :: "config_write_dto option"

definition bind_existing_conversation :: "cron_job \<Rightarrow> 'db cron_world \<Rightarrow> 'db cron_world" where
  "bind_existing_conversation j w =
     (if job_mode j \<noteq> Existing \<or> trim (job_conversation j) = [] then w
      else emit (Bound (job_conversation j) (job_id j) (Option.bind (job_config j) cfg_mode)) w)"

text \<open>Everything \<open>add_job_internal\<close> checks before it reads the clock.\<close>

definition check_create ::
  "('s, 'z, 'd) cron_env \<Rightarrow> string option \<Rightarrow> create_request
    \<Rightarrow> cron_error + string \<times> execution_mode \<times> created_by \<times> cron_agent_config option" where
  "check_create E runtime q =
     and_then (validate_schedule (env_lib E) (schedule_from_dto (cr_schedule q))) (\<lambda>_.
     and_then (case runtime of Some t \<Rightarrow> Inr t | None \<Rightarrow> resolve_new_job_agent_type E (cr_config q)) (\<lambda>t.
     and_then (validate_aionrs_agent_config t (cr_config q)) (\<lambda>_.
     and_then (parse_execution_mode (cr_mode q)) (\<lambda>mode.
     and_then (created_by_from_str (cr_created_by q)) (\<lambda>creator.
     and_then (map_transpose (\<lambda>c. build_cron_agent_config E t (sanitize_agent_config_dto c))
         (cr_config q)) (\<lambda>config.
     Inr (t, mode, creator, config)))))))"

definition new_job ::
  "string \<Rightarrow> timestamp_ms \<Rightarrow> timestamp_ms option \<Rightarrow> create_request
    \<Rightarrow> string \<times> execution_mode \<times> created_by \<times> cron_agent_config option \<Rightarrow> cron_job" where
  "new_job i now next_run q c = (case c of (t, mode, creator, config) \<Rightarrow>
     \<lparr>job_id = i, job_name = cr_name q, job_enabled = True,
      job_schedule = schedule_from_dto (cr_schedule q),
      job_message = (case or_else (cr_message q) (cr_prompt q) of None \<Rightarrow> [] | Some m \<Rightarrow> m),
      job_mode = mode, job_config = config, job_conversation = cr_conversation q,
      job_title = cr_title q, job_agent_type = t, job_creator = creator, job_skill = None,
      job_description = cr_description q, job_created_at = now, job_updated_at = now,
      job_next_run = next_run, job_last_run = None, job_last_status = None, job_last_error = None,
      job_run_count = 0, job_retry_count = 0, job_max_retries = 3,
      job_queue_enabled = cr_queue q\<rparr>)"

definition add_job ::
  "('s, 'z, 'd) cron_env \<Rightarrow> 'db cron_repo \<Rightarrow> timestamp_ms \<Rightarrow> string \<Rightarrow> string option
    \<Rightarrow> create_request \<Rightarrow> 'db cron_world \<Rightarrow> ((cron_error + cron_job) \<times> 'db cron_world) rust" where
  "add_job E R now i runtime q w =
     (case check_create E runtime q of
        Inl e \<Rightarrow> Ret (Inl e, w)
      | Inr c \<Rightarrow>
          bind_rust (compute_next_run (env_lib E) (schedule_from_dto (cr_schedule q)) now) (\<lambda>next_run.
          (let j = new_job i now next_run q c in
           case and_then (env_workspace E j) (\<lambda>_. cron_job_to_row (env_json E) j) of
             Inl e \<Rightarrow> Ret (Inl e, w)
           | Inr row \<Rightarrow>
               (case on_db (repo_insert R row) w of
                  (Inl e, w) \<Rightarrow> Ret (Inl (Database_Failed e), w)
                | (Inr _, w) \<Rightarrow>
                    Ret (Inr j, emit (Job_Created (cron_job_to_response j))
                      (with_sched (schedule_job now j) (bind_existing_conversation j w)))))))"

section \<open>Updating and removing a job\<close>

record update_request =
  uq_name :: "string option"
  uq_description :: "string option"
  uq_enabled :: "bool option"
  uq_schedule :: "cron_schedule_dto option"
  uq_message :: "string option"
  uq_mode :: "string option"
  uq_config :: "config_write_dto option"
  uq_title :: "string option"
  uq_max_retries :: "int option"
  uq_queue :: "bool option"

text \<open>\<open>get_by_id\<close> with \<open>ok_or_else\<close> and the conversion of the row, as several operations begin.\<close>

definition load_job ::
  "('s, 'z, 'd) cron_env \<Rightarrow> 'db cron_repo \<Rightarrow> string \<Rightarrow> 'db cron_world \<Rightarrow> cron_error + cron_job" where
  "load_job E R i w =
     and_then (map_err Database_Failed (repo_get R i (cw_db w))) (\<lambda>row.
     and_then (ok_or (Job_Not_Found i) row) (\<lambda>row.
     and_then (cron_job_from_row (env_json E) row) (\<lambda>j.
     and_then (resolve_job_agent_type E j) (\<lambda>t. Inr (j\<lparr>job_agent_type := t\<rparr>)))))"

definition requested_mode ::
  "('s, 'z, 'd) cron_env \<Rightarrow> update_request \<Rightarrow> cron_job \<Rightarrow> cron_error + cron_job \<times> bool" where
  "requested_mode E q j = (case uq_mode q of
      None \<Rightarrow> Inr (j, False)
    | Some m \<Rightarrow>
        and_then (parse_execution_mode (Some m)) (\<lambda>mode.
        and_then (if mode = job_mode j then Inr False
            else if trim (job_conversation j) = [] then Inr False
            else env_team_job E (trim (job_conversation j))) (\<lambda>team.
        if team then Inl (Invalid_Execution_Mode
          ''Team cron jobs must keep running in their owning Team conversation'')
        else if mode \<noteq> job_mode j \<and> mode = New_Conversation then
          Inr (j\<lparr>job_mode := mode, job_conversation := [], job_title := None\<rparr>,
            trim (job_conversation j) \<noteq> [])
        else Inr (j\<lparr>job_mode := mode\<rparr>, False))))"

definition requested_config ::
  "('s, 'z, 'd) cron_env \<Rightarrow> update_request \<Rightarrow> execution_mode \<Rightarrow> cron_job \<Rightarrow> cron_error + cron_job" where
  "requested_config E q original j = (case uq_config q of
      None \<Rightarrow> Inr j
    | Some c \<Rightarrow>
        if original = Existing \<or> job_mode j = Existing then
          Inl (Invalid_Agent_Config ''ongoing conversation jobs must keep their original assistant'')
        else
          and_then (resolve_new_job_agent_type E (Some (sanitize_agent_config_dto c))) (\<lambda>t.
          and_then (validate_aionrs_agent_config t (Some (sanitize_agent_config_dto c))) (\<lambda>_.
          and_then (build_cron_agent_config E t (sanitize_agent_config_dto c)) (\<lambda>config.
          Inr (j\<lparr>job_agent_type := t, job_config := Some config\<rparr>)))))"

definition requested_schedule ::
  "('s, 'z, 'd) cron_env \<Rightarrow> update_request \<Rightarrow> cron_job \<Rightarrow> cron_error + cron_job" where
  "requested_schedule E q j = (case uq_schedule q of
      None \<Rightarrow> Inr j
    | Some dto \<Rightarrow>
        (let s = schedule_from_dto_with_existing_timezone dto (job_schedule j) in
         and_then (validate_schedule (env_lib E) s) (\<lambda>_. Inr (j\<lparr>job_schedule := s\<rparr>))))"

text \<open>The job after the request and whether its conversation is to be unbound.\<close>

definition apply_update_request ::
  "('s, 'z, 'd) cron_env \<Rightarrow> update_request \<Rightarrow> cron_job \<Rightarrow> cron_error + cron_job \<times> bool" where
  "apply_update_request E q j =
     and_then (requested_schedule E q (j\<lparr>job_name := keep (uq_name q) (job_name j),
        job_description := or_else (uq_description q) (job_description j),
        job_enabled := keep (uq_enabled q) (job_enabled j)\<rparr>)) (\<lambda>j1.
     and_then (requested_mode E q (j1\<lparr>job_message := keep (uq_message q) (job_message j1)\<rparr>)) (\<lambda>(j2, clear).
     and_then (requested_config E q (job_mode j) j2) (\<lambda>j3.
     Inr (j3\<lparr>job_title := (if uq_title q \<noteq> None \<and> \<not> clear then uq_title q else job_title j3),
        job_max_retries := keep (uq_max_retries q) (job_max_retries j3),
        job_queue_enabled := keep (uq_queue q) (job_queue_enabled j3)\<rparr>, clear))))"

definition clear_auto_workspace ::
  "('s, 'z, 'd) cron_env \<Rightarrow> string \<Rightarrow> cron_job \<Rightarrow> cron_job \<times> bool" where
  "clear_auto_workspace E conversation j =
     (case Option.bind (job_config j) cfg_workspace of
        None \<Rightarrow> (j, False)
      | Some ws \<Rightarrow>
          (case env_auto_workspace E conversation of
             None \<Rightarrow> (j, False)
           | Some path \<Rightarrow>
               if env_same_path E ws path then
                 (j\<lparr>job_config := map_option (\<lambda>c. c\<lparr>cfg_workspace := None\<rparr>) (job_config j)\<rparr>, True)
               else (j, False)))"

definition build_update_params :: "config_json \<Rightarrow> cron_job \<Rightarrow> update_request \<Rightarrow> update_params" where
  "build_update_params J j q =
     (case schedule_to_row_fields (job_schedule j) of (kind, v, tz, d) \<Rightarrow>
      (let given = (uq_schedule q \<noteq> None) in
       \<lparr>up_name = uq_name q, up_enabled = uq_enabled q,
        up_kind = (if given then Some kind else None), up_value = (if given then Some v else None),
        up_tz = (if given then Some tz else None),
        up_schedule_desc = (if given then Some d else None),
        up_message = uq_message q, up_mode = uq_mode q,
        up_config = Option.bind (uq_config q) (\<lambda>_. map_option (\<lambda>c. Some
          (case to_json J c of Inl _ \<Rightarrow> [] | Inr t \<Rightarrow> t)) (job_config j)),
        up_conversation = None, up_title = map_option Some (uq_title q), up_skill = None,
        up_description = map_option Some (uq_description q),
        up_next_run = (if given \<or> uq_enabled q \<noteq> None then Some (job_next_run j) else None),
        up_last_run = None, up_last_status = None, up_last_error = None, up_run_count = None,
        up_retry_count = None, up_queue = uq_queue q\<rparr>))"

definition update_params_of ::
  "config_json \<Rightarrow> cron_job \<Rightarrow> update_request \<Rightarrow> bool \<Rightarrow> bool \<Rightarrow> cron_error + update_params" where
  "update_params_of J j q clear changed =
     (let p = build_update_params J j q;
          p = (if clear then p\<lparr>up_conversation := Some [], up_title := Some None\<rparr> else p) in
      if changed then
        and_then (map_transpose (\<lambda>c. map_err Json_Failed (to_json J c)) (job_config j)) (\<lambda>t.
        Inr (p\<lparr>up_config := Some t\<rparr>))
      else Inr p)"

definition update_job ::
  "('s, 'z, 'd) cron_env \<Rightarrow> 'db cron_repo \<Rightarrow> timestamp_ms \<Rightarrow> string \<Rightarrow> update_request
    \<Rightarrow> 'db cron_world \<Rightarrow> ((cron_error + cron_job) \<times> 'db cron_world) rust" where
  "update_job E R now i q w =
     (case and_then (load_job E R i w) (\<lambda>j. and_then (apply_update_request E q j) (\<lambda>r. Inr (j, r))) of
        Inl e \<Rightarrow> Ret (Inl e, w)
      | Inr (old, j, clear) \<Rightarrow>
          bind_rust (if uq_schedule q \<noteq> None \<or> uq_enabled q \<noteq> None
              then compute_next_run (env_lib E) (job_schedule j) now
              else Ret (job_next_run j)) (\<lambda>next_run.
          (case (if clear then clear_auto_workspace E (job_conversation old) (j\<lparr>job_next_run := next_run\<rparr>)
                 else (j\<lparr>job_next_run := next_run\<rparr>, False)) of (j, changed) \<Rightarrow>
           let j = j\<lparr>job_updated_at := now\<rparr> in
           case and_then (env_workspace E j) (\<lambda>_. update_params_of (env_json E) j q clear changed) of
             Inl e \<Rightarrow> Ret (Inl e, w)
           | Inr p \<Rightarrow>
               (case do_update R i p now w of
                  (Inl e, w) \<Rightarrow> Ret (Inl (Database_Failed e), w)
                | (Inr _, w) \<Rightarrow>
                    (let w = (if clear then emit (Unbound (job_conversation old) (job_id j)) w else w);
                         w = bind_existing_conversation j w in
                     Ret (Inr j, emit (Job_Updated (cron_job_to_response j))
                       (with_sched (reschedule_job now j) w)))))))"

definition remove_job ::
  "'db cron_repo \<Rightarrow> string \<Rightarrow> 'db cron_world \<Rightarrow> (cron_error + unit) \<times> 'db cron_world" where
  "remove_job R i w =
     (case on_db (repo_delete R i) (with_sched (cancel_job i) w) of
        (Inl e, w) \<Rightarrow> (Inl (Database_Failed e), w)
      | (Inr _, w) \<Rightarrow> (Inr (), emit (Job_Removed i) w))"

fun collect_jobs ::
  "('s, 'z, 'd) cron_env \<Rightarrow> cron_job_row list \<Rightarrow> cron_error + cron_job list" where
  "collect_jobs E [] = Inr []"
| "collect_jobs E (r # rs) =
     and_then (cron_job_from_row (env_json E) r) (\<lambda>j.
     (case resolve_job_agent_type E j of
        Inl (Assistant_Not_Found _) \<Rightarrow> collect_jobs E rs
      | Inl e \<Rightarrow> Inl e
      | Inr t \<Rightarrow> and_then (collect_jobs E rs) (\<lambda>js. Inr (j\<lparr>job_agent_type := t\<rparr> # js))))"

definition list_jobs ::
  "('s, 'z, 'd) cron_env \<Rightarrow> 'db cron_repo \<Rightarrow> string option \<Rightarrow> 'db cron_world
    \<Rightarrow> cron_error + cron_job list" where
  "list_jobs E R conversation w =
     and_then (map_err Database_Failed (case conversation of
         Some c \<Rightarrow> repo_list_conversation R c (cw_db w)
       | None \<Rightarrow> repo_list_all R (cw_db w))) (collect_jobs E)"

section \<open>The outcome of an execution\<close>

datatype execution_result = Success string | Retrying int | Skipped | Failed string

text \<open>\<open>JobExecutor::handle_busy\<close>: the conversation of the job has an active turn.\<close>

definition handle_busy :: "cron_job \<Rightarrow> execution_result" where
  "handle_busy j =
     (if job_queue_enabled j then Skipped
      else if job_retry_count j \<ge> job_max_retries j then Skipped
      else Retrying (job_retry_count j + 1))"

definition schedule_recovered ::
  "timestamp_ms \<Rightarrow> string \<Rightarrow> recoverable_run \<Rightarrow> scheduler \<Rightarrow> scheduler" where
  "schedule_recovered now i r = schedule_occurrence now i (rec_scheduled_at r) (rec_wake_at r)"

definition reschedule_after_execution ::
  "('s, 'z, 'd) cron_env \<Rightarrow> 'db cron_repo \<Rightarrow> timestamp_ms \<Rightarrow> cron_job \<Rightarrow> timestamp_ms
    \<Rightarrow> 'db cron_world \<Rightarrow> 'db cron_world rust" where
  "reschedule_after_execution E R now j scheduled_at w =
     (case repo_recoverable R (job_id j) now (cw_db w) of
        Inr (Some r) \<Rightarrow> Ret (with_sched (schedule_recovered now (job_id j) r) w)
      | _ \<Rightarrow>
          (case job_schedule j of
             At _ _ \<Rightarrow>
               (let w = snd (do_update R (job_id j)
                      (no_update\<lparr>up_enabled := Some False, up_next_run := Some None\<rparr>) now w) in
                Ret (emit (Job_Updated (cron_job_to_response
                      (j\<lparr>job_enabled := False, job_next_run := None\<rparr>)))
                  (with_sched (cancel_job (job_id j)) w)))
           | _ \<Rightarrow>
               bind_rust (compute_next_run_after_occurrence (env_lib E) (job_schedule j) scheduled_at now)
                 (\<lambda>next_run.
               (let w = snd (do_update R (job_id j) (no_update\<lparr>up_next_run := Some next_run\<rparr>) now w) in
                Ret (with_sched (reschedule_job now (j\<lparr>job_next_run := next_run\<rparr>)) w)))))"

definition update_job_after_success ::
  "'db cron_repo \<Rightarrow> timestamp_ms \<Rightarrow> string \<Rightarrow> string \<Rightarrow> 'db cron_world \<Rightarrow> 'db cron_world rust" where
  "update_job_after_success R now i conversation w =
     (case repo_get R i (cw_db w) of
        Inr (Some row) \<Rightarrow>
          bind_rust (i64_or_panic (row_run_count row + 1)) (\<lambda>n.
          (let bind = should_bind_success_conversation (row_mode row) (row_conversation row) conversation;
               p = no_update\<lparr>up_last_run := Some (Some now), up_last_status := Some (Some ''ok''),
                 up_last_error := Some None, up_retry_count := Some 0, up_run_count := Some n,
                 up_conversation := (if bind then Some conversation else None)\<rparr> in
           case do_update R i p now w of
             (Inl _, w) \<Rightarrow> Ret w
           | (Inr _, w) \<Rightarrow> Ret (if bind then emit (Bound conversation i None) w else w)))
      | _ \<Rightarrow> Ret w)"

definition update_job_after_error ::
  "'db cron_repo \<Rightarrow> timestamp_ms \<Rightarrow> string \<Rightarrow> string \<Rightarrow> 'db cron_world \<Rightarrow> 'db cron_world rust" where
  "update_job_after_error R now i message w =
     (case repo_get R i (cw_db w) of
        Inr (Some row) \<Rightarrow>
          bind_rust (i64_or_panic (row_run_count row + 1)) (\<lambda>n.
          Ret (snd (do_update R i (no_update\<lparr>up_last_run := Some (Some now),
            up_last_status := Some (Some ''error''), up_last_error := Some (Some message),
            up_retry_count := Some 0, up_run_count := Some n\<rparr>) now w)))
      | _ \<Rightarrow> Ret w)"

definition finish_scheduled_run ::
  "('s, 'z, 'd) cron_env \<Rightarrow> 'db cron_repo \<Rightarrow> timestamp_ms \<Rightarrow> string \<Rightarrow> timestamp_ms \<Rightarrow> string
    \<Rightarrow> string option \<Rightarrow> string option \<Rightarrow> 'db cron_world \<Rightarrow> bool \<times> 'db cron_world" where
  "finish_scheduled_run E R now i scheduled_at status conversation err w =
     (case on_db (repo_finish R \<lparr>fin_job = i, fin_at = scheduled_at, fin_owner = env_instance E,
         fin_status = status, fin_conversation = conversation, fin_error = err, fin_now = now\<rparr>) w of
        (Inr True, w) \<Rightarrow> (True, w)
      | (_, w) \<Rightarrow> (False, w))"

definition service_schedule_retry ::
  "('s, 'z, 'd) cron_env \<Rightarrow> 'db cron_repo \<Rightarrow> timestamp_ms \<Rightarrow> string \<Rightarrow> timestamp_ms
    \<Rightarrow> 'db cron_world \<Rightarrow> bool \<times> 'db cron_world" where
  "service_schedule_retry E R now i scheduled_at w =
     (let next_run = now + retry_interval_ms in
      case on_db (repo_defer R i scheduled_at (env_instance E) next_run now) w of
        (Inr True, w) \<Rightarrow> (True, with_sched (schedule_occurrence now i scheduled_at next_run) w)
      | (_, w) \<Rightarrow> (False, w))"

definition skip_params :: update_params where
  "skip_params = no_update\<lparr>up_last_status := Some (Some ''skipped''), up_retry_count := Some 0\<rparr>"

fun handle_execution_result ::
  "('s, 'z, 'd) cron_env \<Rightarrow> 'db cron_repo \<Rightarrow> timestamp_ms \<Rightarrow> cron_job \<Rightarrow> timestamp_ms
    \<Rightarrow> execution_result \<Rightarrow> 'db cron_world \<Rightarrow> 'db cron_world rust" where
  "handle_execution_result E R now j at (Success c) w =
     (case finish_scheduled_run E R now (job_id j) at ''ok'' (Some c) None w of
        (False, w) \<Rightarrow> Ret w
      | (True, w) \<Rightarrow>
          bind_rust (update_job_after_success R now (job_id j) c w) (\<lambda>w.
          bind_rust (reschedule_after_execution E R now j at w) (\<lambda>w.
          Ret (emit (Job_Executed (job_id j) ''ok'' None) w))))"
| "handle_execution_result E R now j at (Retrying attempt) w =
     (case service_schedule_retry E R now (job_id j) at w of
        (False, w) \<Rightarrow> Ret w
      | (True, w) \<Rightarrow>
          Ret (snd (do_update R (job_id j) (no_update\<lparr>up_retry_count := Some attempt\<rparr>) now w)))"
| "handle_execution_result E R now j at Skipped w =
     (case finish_scheduled_run E R now (job_id j) at ''skipped'' None None w of
        (False, w) \<Rightarrow> Ret w
      | (True, w) \<Rightarrow>
          bind_rust (reschedule_after_execution E R now j at
              (snd (do_update R (job_id j) skip_params now w))) (\<lambda>w.
          Ret (emit (Job_Executed (job_id j) ''skipped'' None) w)))"
| "handle_execution_result E R now j at (Failed m) w =
     (case finish_scheduled_run E R now (job_id j) at ''error'' None (Some m) w of
        (False, w) \<Rightarrow> Ret w
      | (True, w) \<Rightarrow>
          bind_rust (update_job_after_error R now (job_id j) m w) (\<lambda>w.
          bind_rust (reschedule_after_execution E R now j at w) (\<lambda>w.
          Ret (emit (Job_Executed (job_id j) ''error'' (Some m)) w))))"

text \<open>The result of an execution started by hand, which has no occurrence to finish.\<close>

fun handle_run_now_result ::
  "'db cron_repo \<Rightarrow> timestamp_ms \<Rightarrow> string \<Rightarrow> execution_result \<Rightarrow> 'db cron_world \<Rightarrow> 'db cron_world rust"
  where
  "handle_run_now_result R now i (Success c) w =
     bind_rust (update_job_after_success R now i c w) (\<lambda>w.
     Ret (emit (Job_Executed i ''ok'' None) w))"
| "handle_run_now_result R now i (Failed m) w =
     bind_rust (update_job_after_error R now i m w) (\<lambda>w.
     Ret (emit (Job_Executed i ''error'' (Some m)) w))"
| "handle_run_now_result R now i (Retrying attempt) w =
     Ret (snd (do_update R i (no_update\<lparr>up_retry_count := Some attempt\<rparr>) now w))"
| "handle_run_now_result R now i Skipped w =
     Ret (emit (Job_Executed i ''skipped'' None) (snd (do_update R i skip_params now w)))"

section \<open>A tick\<close>

datatype tick_result = Tick_Done | Tick_Run cron_job

text \<open>\<open>CronService::tick\<close> up to the execution: \<open>Tick_Run\<close> is a claimed occurrence to execute.\<close>

definition tick ::
  "('s, 'z, 'd) cron_env \<Rightarrow> 'db cron_repo \<Rightarrow> timestamp_ms \<Rightarrow> string \<Rightarrow> string \<Rightarrow> timestamp_ms
    \<Rightarrow> 'db cron_world \<Rightarrow> (tick_result \<times> 'db cron_world) rust" where
  "tick E R now new_run_id i at w =
     (case repo_get R i (cw_db w) of
        Inl _ \<Rightarrow> Ret (Tick_Done, w)
      | Inr None \<Rightarrow> Ret (Tick_Done, with_sched (cancel_job i) w)
      | Inr (Some row) \<Rightarrow>
     (case and_then (cron_job_from_row (env_json E) row) (\<lambda>j.
          and_then (resolve_job_agent_type E j) (\<lambda>t. Inr (j\<lparr>job_agent_type := t\<rparr>))) of
        Inl _ \<Rightarrow> Ret (Tick_Done, w)
      | Inr j \<Rightarrow>
          if \<not> job_enabled j then Ret (Tick_Done, w)
          else
     (case on_db (repo_claim R new_run_id \<lparr>cl_job = i, cl_at = at, cl_owner = env_instance E,
          cl_now = now, cl_until = now + run_lease_ms, cl_queue = job_queue_enabled j\<rparr>) w of
        (Inl _, w) \<Rightarrow> Ret (Tick_Done, w)
      | (Inr Claimed, w) \<Rightarrow> Ret (Tick_Run j, w)
      | (Inr Duplicate, w) \<Rightarrow>
          (case repo_recoverable R i now (cw_db w) of
             Inr (Some r) \<Rightarrow> Ret (Tick_Done, with_sched (schedule_recovered now i r) w)
           | _ \<Rightarrow> bind_rust (reschedule_after_execution E R now j at w) (\<lambda>w. Ret (Tick_Done, w)))
      | (Inr Queue_Busy, w) \<Rightarrow>
          bind_rust (reschedule_after_execution E R now j at
              (snd (do_update R (job_id j) skip_params now w))) (\<lambda>w.
          Ret (Tick_Done, emit (Job_Executed i ''skipped'' None) w)))))"

text \<open>
  Before the execution, an existing-mode job is bound to the conversation the executor made for
  it; \<open>bound\<close> is the answer of the executor to the binding.
\<close>

definition bind_materialized ::
  "'db cron_repo \<Rightarrow> timestamp_ms \<Rightarrow> cron_error + unit \<Rightarrow> cron_job \<Rightarrow> string \<Rightarrow> 'db cron_world
    \<Rightarrow> (cron_error + cron_job) \<times> 'db cron_world" where
  "bind_materialized R now bound j conversation w =
     (let c = trim conversation in
      if job_mode j \<noteq> Existing \<or> c = [] \<or> trim (job_conversation j) = c then (Inr j, w)
      else (case do_update R (job_id j) (no_update\<lparr>up_conversation := Some c\<rparr>) now w of
          (Inl e, w) \<Rightarrow> (Inl (Database_Failed e), w)
        | (Inr _, w) \<Rightarrow>
            (case bound of
               Inl e \<Rightarrow> (Inl e, w)
             | Inr _ \<Rightarrow> (Inr (j\<lparr>job_conversation := c\<rparr>),
                 emit (Bound c (job_id j) (Option.bind (job_config j) cfg_mode)) w))))"

text \<open>One beat of the heartbeat that runs during an execution; \<open>False\<close> ends it.\<close>

definition renew_heartbeat ::
  "('s, 'z, 'd) cron_env \<Rightarrow> 'db cron_repo \<Rightarrow> timestamp_ms \<Rightarrow> string \<Rightarrow> timestamp_ms
    \<Rightarrow> 'db cron_world \<Rightarrow> bool \<times> 'db cron_world" where
  "renew_heartbeat E R now i at w =
     (case on_db (repo_renew R i at (env_instance E) (now + run_lease_ms) now) w of
        (Inr False, w) \<Rightarrow> (False, w)
      | (_, w) \<Rightarrow> (True, w))"

section \<open>Start and resume\<close>

fun init_jobs ::
  "('s, 'z, 'd) cron_env \<Rightarrow> 'db cron_repo \<Rightarrow> timestamp_ms \<Rightarrow> cron_job_row list
    \<Rightarrow> 'db cron_world \<Rightarrow> 'db cron_world" where
  "init_jobs E R now [] w = w"
| "init_jobs E R now (row # rows) w =
     init_jobs E R now rows
      (case cron_job_from_row (env_json E) row of
         Inl _ \<Rightarrow> w
       | Inr j \<Rightarrow>
           (case repo_recoverable R (job_id j) now (cw_db w) of
              Inr (Some r) \<Rightarrow> with_sched (schedule_recovered now (job_id j) r) w
            | _ \<Rightarrow> with_sched (schedule_job now j) w))"

definition init ::
  "('s, 'z, 'd) cron_env \<Rightarrow> 'db cron_repo \<Rightarrow> timestamp_ms \<Rightarrow> 'db cron_world \<Rightarrow> 'db cron_world" where
  "init E R now w =
     (let w = snd (on_db (repo_cleanup R (now - run_history_retention_ms)) w) in
      case repo_list_enabled R (cw_db w) of
        Inl _ \<Rightarrow> w
      | Inr rows \<Rightarrow> init_jobs E R now rows w)"

definition missed_tips :: "cron_job \<Rightarrow> string" where
  "missed_tips j = ''Scheduled task '' @ [CHR 0x22] @ job_name j @ [CHR 0x22]
     @ '' was missed while the system was unavailable. It was not run automatically.''"

text \<open>\<open>stored\<close> is whether the executor persisted the message.\<close>

definition insert_missed_job_tips :: "bool \<Rightarrow> cron_job \<Rightarrow> 'db cron_world \<Rightarrow> 'db cron_world" where
  "insert_missed_job_tips stored j w =
     (if trim (job_conversation j) = [] \<or> \<not> stored then w
      else emit (Conversation_Tips (job_conversation j) (missed_tips j) ''warning'') w)"

definition record_missed_execution ::
  "'db cron_repo \<Rightarrow> timestamp_ms \<Rightarrow> cron_job \<Rightarrow> 'db cron_world \<Rightarrow> 'db cron_world" where
  "record_missed_execution R now j w =
     snd (do_update R (job_id j) (no_update\<lparr>up_last_status := Some (Some ''missed''),
       up_last_error := Some None, up_retry_count := Some 0\<rparr>) now w)"

definition reschedule_after_missed ::
  "('s, 'z, 'd) cron_env \<Rightarrow> 'db cron_repo \<Rightarrow> timestamp_ms \<Rightarrow> cron_job \<Rightarrow> 'db cron_world
    \<Rightarrow> 'db cron_world rust" where
  "reschedule_after_missed E R now j w =
     (case job_schedule j of
        At _ _ \<Rightarrow>
          Ret (with_sched (cancel_job (job_id j)) (snd (do_update R (job_id j)
            (no_update\<lparr>up_enabled := Some False, up_next_run := Some None\<rparr>) now w)))
      | _ \<Rightarrow>
          bind_rust (compute_next_run (env_lib E) (job_schedule j) now) (\<lambda>next_run.
          (case do_update R (job_id j) (no_update\<lparr>up_next_run := Some next_run\<rparr>) now w of
             (Inl _, w) \<Rightarrow> Ret w
           | (Inr _, w) \<Rightarrow>
               Ret (with_sched (reschedule_job now (j\<lparr>job_next_run := next_run\<rparr>)) w))))"

definition resume_job ::
  "('s, 'z, 'd) cron_env \<Rightarrow> 'db cron_repo \<Rightarrow> timestamp_ms \<Rightarrow> bool \<Rightarrow> cron_job \<Rightarrow> 'db cron_world
    \<Rightarrow> 'db cron_world rust" where
  "resume_job E R now stored j w =
     (case repo_recoverable R (job_id j) now (cw_db w) of
        Inr (Some r) \<Rightarrow> Ret (with_sched (schedule_recovered now (job_id j) r) w)
      | _ \<Rightarrow>
          (case job_next_run j of
             Some next_run \<Rightarrow>
               if next_run < now then
                 bind_rust (reschedule_after_missed E R now j
                     (insert_missed_job_tips stored j (record_missed_execution R now j w))) (\<lambda>w.
                 Ret (emit (Job_Executed (job_id j) ''missed'' None) w))
               else Ret (with_sched (reschedule_job now j) w)
           | None \<Rightarrow> Ret (with_sched (reschedule_job now j) w)))"

fun resume_jobs ::
  "('s, 'z, 'd) cron_env \<Rightarrow> 'db cron_repo \<Rightarrow> timestamp_ms \<Rightarrow> bool \<Rightarrow> cron_job_row list
    \<Rightarrow> 'db cron_world \<Rightarrow> 'db cron_world rust" where
  "resume_jobs E R now stored [] w = Ret w"
| "resume_jobs E R now stored (row # rows) w =
     (case cron_job_from_row (env_json E) row of
        Inl _ \<Rightarrow> resume_jobs E R now stored rows w
      | Inr j \<Rightarrow> bind_rust (resume_job E R now stored j w) (resume_jobs E R now stored rows))"

definition handle_system_resume ::
  "('s, 'z, 'd) cron_env \<Rightarrow> 'db cron_repo \<Rightarrow> timestamp_ms \<Rightarrow> bool \<Rightarrow> 'db cron_world
    \<Rightarrow> 'db cron_world rust" where
  "handle_system_resume E R now stored w =
     (case repo_list_enabled R (cw_db w) of
        Inl _ \<Rightarrow> Ret w
      | Inr rows \<Rightarrow> resume_jobs E R now stored rows w)"

section \<open>Effects of the service on the tables\<close>

lemma Ret_eq_bind [simp]: "Ret y = bind_rust m f \<longleftrightarrow> (\<exists>x. m = Ret x \<and> f x = Ret y)"
  by (cases m) auto

lemma with_sched_simps [simp]:
  "cw_db (with_sched f w) = cw_db w" "cw_sched (with_sched f w) = f (cw_sched w)"
  "cw_events (with_sched f w) = cw_events w"
  by (simp_all add: with_sched_def)

lemma emit_simps [simp]:
  "cw_db (emit e w) = cw_db w" "cw_sched (emit e w) = cw_sched w"
  "cw_events (emit e w) = cw_events w @ [e]"
  by (simp_all add: emit_def)

lemma on_db_simps [simp]:
  "fst (on_db f w) = fst (f (cw_db w))" "cw_db (snd (on_db f w)) = snd (f (cw_db w))"
  "cw_sched (snd (on_db f w)) = cw_sched w" "cw_events (snd (on_db f w)) = cw_events w"
  by (simp_all add: on_db_def Let_def)

lemma do_update_simps [simp]:
  "cw_db (snd (do_update sqlite_repo i p now w)) = snd (update_job_row i p now (cw_db w))"
  "fst (do_update sqlite_repo i p now w) = fst (update_job_row i p now (cw_db w))"
  "cw_sched (snd (do_update R i p now w)) = cw_sched w"
  "cw_events (snd (do_update R i p now w)) = cw_events w"
  by (simp_all add: do_update_def sqlite_repo_def)

lemma lease_of_runs: "cron_runs db' = cron_runs db \<Longrightarrow> lease_of db' i at = lease_of db i at"
  by (simp add: lease_of_def)

lemma reschedule_runs:
  assumes "reschedule_after_execution E sqlite_repo now j at w = Ret w'"
  shows "cron_runs (cw_db w') = cron_runs (cw_db w)"
  using assms
  by (auto simp: reschedule_after_execution_def Let_def split: sum.splits option.splits cron_schedule.splits)

text \<open>
  What a tick does: it runs only what it has claimed, and leaves an occurrence that cannot be
  claimed as it was. \<open>tick_cases\<close> lists its ways through the code.
\<close>

definition tick_params ::
  "('s, 'z, 'd) cron_env \<Rightarrow> timestamp_ms \<Rightarrow> string \<Rightarrow> timestamp_ms \<Rightarrow> cron_job \<Rightarrow> claim_params" where
  "tick_params E now i at j = \<lparr>cl_job = i, cl_at = at, cl_owner = env_instance E,
     cl_now = now, cl_until = now + run_lease_ms, cl_queue = job_queue_enabled j\<rparr>"

lemma tick_cases:
  assumes "tick E sqlite_repo now rid i at w = Ret (r, w')"
  obtains (ignored) "r = Tick_Done" "cw_db w' = cw_db w"
  | (failed) e j where "r = Tick_Done"
      "claim_run rid (tick_params E now i at j) (cw_db w) = (Inl e, cw_db w')"
  | (claimed) j where "r = Tick_Run j"
      "claim_run rid (tick_params E now i at j) (cw_db w) = (Inr Claimed, cw_db w')"
  | (other) c j db' where "r = Tick_Done" "c \<noteq> Claimed" "cron_runs (cw_db w') = cron_runs db'"
      "claim_run rid (tick_params E now i at j) (cw_db w) = (Inr c, db')"
proof (cases "\<exists>row j. get_job_row i (cw_db w) = Some row
    \<and> and_then (cron_job_from_row (env_json E) row) (\<lambda>j.
          and_then (resolve_job_agent_type E j) (\<lambda>t. Inr (j\<lparr>job_agent_type := t\<rparr>))) = Inr j \<and> job_enabled j")
  case False
  then have "r = Tick_Done \<and> cw_db w' = cw_db w"
    using assms by (auto simp: tick_def sqlite_repo_def split: option.splits sum.splits if_splits)
  then show ?thesis using ignored by blast
next
  case True
  then obtain row j where j: "get_job_row i (cw_db w) = Some row"
    "and_then (cron_job_from_row (env_json E) row) (\<lambda>j.
          and_then (resolve_job_agent_type E j) (\<lambda>t. Inr (j\<lparr>job_agent_type := t\<rparr>))) = Inr j" "job_enabled j"
    by blast
  obtain res db' where c: "claim_run rid (tick_params E now i at j) (cw_db w) = (res, db')"
    by fastforce
  let ?w = "w\<lparr>cw_db := db'\<rparr>"
  have o: "on_db (repo_claim sqlite_repo rid \<lparr>cl_job = i, cl_at = at, cl_owner = env_instance E,
          cl_now = now, cl_until = now + run_lease_ms, cl_queue = job_queue_enabled j\<rparr>) w = (res, ?w)"
    using c by (simp add: on_db_def sqlite_repo_def tick_params_def)
  have g: "repo_get sqlite_repo i (cw_db w) = Inr (Some row)"
    using j(1) by (simp add: sqlite_repo_def)
  have t: "tick E sqlite_repo now rid i at w = (case (res, ?w) of
        (Inl _, w) \<Rightarrow> Ret (Tick_Done, w)
      | (Inr Claimed, w) \<Rightarrow> Ret (Tick_Run j, w)
      | (Inr Duplicate, w) \<Rightarrow>
          (case repo_recoverable sqlite_repo i now (cw_db w) of
             Inr (Some r) \<Rightarrow> Ret (Tick_Done, with_sched (schedule_recovered now i r) w)
           | _ \<Rightarrow> bind_rust (reschedule_after_execution E sqlite_repo now j at w) (\<lambda>w. Ret (Tick_Done, w)))
      | (Inr Queue_Busy, w) \<Rightarrow>
          bind_rust (reschedule_after_execution E sqlite_repo now j at
              (snd (do_update sqlite_repo (job_id j) skip_params now w))) (\<lambda>w.
          Ret (Tick_Done, emit (Job_Executed i ''skipped'' None) w)))"
    unfolding tick_def g sum.case option.case j(2) o using j(3) by simp
  show ?thesis
  proof (cases res)
    case (Inl e)
    with t assms c show ?thesis using failed [of j e] by simp
  next
    case (Inr x)
    show ?thesis
    proof (cases x)
      case Claimed
      with Inr t assms c show ?thesis using claimed [of j] by simp
    next
      case Duplicate
      have "r = Tick_Done \<and> cron_runs (cw_db w') = cron_runs db'"
        using t assms unfolding Inr Duplicate
        by (auto dest: reschedule_runs split: sum.splits option.splits)
      with c Inr Duplicate show ?thesis using other [of Duplicate db' j] by simp
    next
      case Queue_Busy
      have "r = Tick_Done \<and> cron_runs (cw_db w') = cron_runs db'"
        using t assms unfolding Inr Queue_Busy by (auto dest: reschedule_runs)
      with c Inr Queue_Busy show ?thesis using other [of Queue_Busy db' j] by simp
    qed
  qed
qed

lemma tick_params_simps [simp]:
  "cl_job (tick_params E now i at j) = i" "cl_at (tick_params E now i at j) = at"
  "cl_now (tick_params E now i at j) = now" "cl_owner (tick_params E now i at j) = env_instance E"
  "cl_until (tick_params E now i at j) = now + run_lease_ms"
  by (simp_all add: tick_params_def)

lemma tick_run_claims:
  assumes inv: "cron_db_inv (cw_db w)" and t: "tick E sqlite_repo now rid i at w = Ret (Tick_Run j, w')"
  shows "claimable now (lease_of (cw_db w) i at)"
    and "lease_of (cw_db w') i at = Held (env_instance E) (now + run_lease_ms)"
  using t by (auto elim!: tick_cases dest!: claim_refines [OF inv] simp: at_occurrence_def)

lemma tick_leaves_held:
  assumes inv: "cron_db_inv (cw_db w)" and t: "tick E sqlite_repo now rid i at w = Ret (r, w')"
    and n: "\<not> claimable now (lease_of (cw_db w) i at)"
  shows "r = Tick_Done" and "lease_of (cw_db w') i at = lease_of (cw_db w) i at"
proof -
  have k: "lease_of (snd (claim_run rid (tick_params E now i at j) (cw_db w))) i at
      = lease_of (cw_db w) i at" for j
    by (rule claim_elsewhere [OF inv]) (simp add: n)
  have nc: "fst (claim_run rid (tick_params E now i at j) (cw_db w)) \<noteq> Inr Claimed" for j
    using claim_refines [OF inv, of rid "tick_params E now i at j" Claimed] n
    by (cases "claim_run rid (tick_params E now i at j) (cw_db w)") auto
  show "r = Tick_Done"
    using t nc by (cases rule: tick_cases) (metis fst_conv)+
  show "lease_of (cw_db w') i at = lease_of (cw_db w) i at"
    using t
  proof (cases rule: tick_cases)
    case (failed e j)
    then show ?thesis using k [of j] by simp
  next
    case (claimed j)
    then show ?thesis using k [of j] by simp
  next
    case (other c j db')
    then show ?thesis using k [of j] lease_of_runs [OF other(3)] by simp
  qed simp
qed

text \<open>A tick that executes nothing at most skips a free occurrence; no tick touches another one.\<close>

lemma claim_error_unchanged:
  assumes "claim_run rid p db = (Inl e, db')"
  shows "db' = db"
  using assms by (auto simp: claim_run_def Let_def split: option.splits if_splits prod.splits sum.splits)

lemma tick_idle:
  assumes inv: "cron_db_inv (cw_db w)" and t: "tick E sqlite_repo now rid i at w = Ret (Tick_Done, w')"
  shows "lease_of (cw_db w') i at = lease_of (cw_db w) i at
    \<or> lease_of (cw_db w) i at = Free \<and> lease_of (cw_db w') i at = Over ''skipped''"
  using t
proof (cases rule: tick_cases)
  case (other c j db')
  from claim_refines [OF inv other(4)] other(2) have
    "db' = cw_db w \<or> lease_of (cw_db w) i at = Free \<and> lease_of db' i at = Over ''skipped''"
    by (cases c) (auto simp: at_occurrence_def)
  then show ?thesis using lease_of_runs [OF other(3)] by auto
qed (auto dest: claim_error_unchanged)

lemma tick_frame:
  assumes inv: "cron_db_inv (cw_db w)" and t: "tick E sqlite_repo now rid i at w = Ret (r, w')"
    and n: "(i', at') \<noteq> (i, at)"
  shows "lease_of (cw_db w') i' at' = lease_of (cw_db w) i' at'"
  using t
proof (cases rule: tick_cases)
  case (claimed j)
  from claim_refines [OF inv claimed(2)] n show ?thesis by (auto simp: at_occurrence_def)
next
  case (other c j db')
  from claim_refines [OF inv other(4)] n have "lease_of db' i' at' = lease_of (cw_db w) i' at'"
    by (cases c) (auto simp: at_occurrence_def)
  then show ?thesis using lease_of_runs [OF other(3)] by simp
qed (auto dest: claim_error_unchanged)

section \<open>A recurring job is armed again\<close>

lemma held_row:
  assumes inv: "cron_db_inv db" and h: "held_by me (lease_of db job at)"
    and r: "r \<in> set (cron_runs db)" "run_key r = (job, at)"
  shows "owned_running job at me r"
proof -
  have "find (occurrence job at) (cron_runs db) = Some r"
    using r by (simp add: find_occurrence [OF cron_db_invD(1) [OF inv]])
  then show ?thesis
    using h run_ok_lease(2) [OF cron_db_invD(2) [OF inv r(1)], of me] r(2)
    by (simp add: lease_of_def owned_running_def occurrence_key)
qed

lemma no_recoverable_after_finish:
  assumes inv: "cron_db_inv db" and h: "held_by (fin_owner p) (lease_of db (fin_job p) (fin_at p))"
    and f: "final_status (fin_status p)"
    and only: "\<forall>r\<in>set (cron_runs db). run_job r = fin_job p \<and> run_open r \<longrightarrow> run_scheduled_at r = fin_at p"
  shows "get_recoverable_run (fin_job p) now (snd (finish_run p db)) = None"
proof -
  let ?f = "\<lambda>r. r\<lparr>run_status := fin_status p, run_conversation := fin_conversation p,
           run_error := fin_error p, run_lease_until := None, run_finished_at := Some (fin_now p),
           run_updated_at := fin_now p\<rparr>"
  have "snd (finish_run p db)
      = snd (update_runs (owned_running (fin_job p) (fin_at p) (fin_owner p)) ?f db)"
    using finish_checks [OF inv f] by (simp add: finish_run_def Let_def)
  moreover have "\<not> (run_job r' = fin_job p \<and> run_open r')"
    if "r' \<in> set (cron_runs (snd (update_runs (owned_running (fin_job p) (fin_at p) (fin_owner p)) ?f db)))"
    for r'
  proof -
    obtain r where r: "r \<in> set (cron_runs db)"
      "r' = (if owned_running (fin_job p) (fin_at p) (fin_owner p) r then ?f r else r)"
      using \<open>r' \<in> _\<close> by (auto simp: update_runs_def)
    show ?thesis
    proof (cases "owned_running (fin_job p) (fin_at p) (fin_owner p) r")
      case True
      with r f show ?thesis by (auto simp: run_open_def final_status_def)
    next
      case False
      then have "run_key r \<noteq> (fin_job p, fin_at p)"
        using held_row [OF inv h r(1)] by blast
      with False r only show ?thesis by (auto simp: run_key_def)
    qed
  qed
  ultimately have "filter (\<lambda>r. run_job r = fin_job p \<and> run_open r \<and> run_lease_until r \<noteq> None)
      (cron_runs (snd (finish_run p db))) = []"
    by (auto simp: filter_empty_conv)
  then show ?thesis
    unfolding get_recoverable_run_def by (simp only:) simp
qed

lemma insert_handle_task:
  "map_of (tasks (insert_handle job (Some t) s)) (next_task s) = Some t"
  by (simp add: insert_handle_def spawn_task_def register_handle_def)

lemma schedule_every_task:
  assumes "job_enabled j" "job_next_run j = Some r" "job_schedule j = Every n d" "is_i64 (r - now)"
  shows "\<exists>tid t. map_of (tasks (schedule_job now j s)) tid = Some t \<and> tm_job t = job_id j
    \<and> tm_scheduled t = r \<and> tm_wake t = max now r \<and> tm_plan t = Starting n"
proof -
  have "job_timer now (job_id j) (job_schedule j) r
      = Some \<lparr>tm_job = job_id j, tm_scheduled = r, tm_wake = now + max (r - now) 0, tm_plan = Starting n\<rparr>"
    using assms by (simp add: spawn_every_timer_def sleeping_def delay_until_def i64_or_panic_def)
  then show ?thesis
    using assms insert_handle_task unfolding schedule_job_def Let_def
    by (intro exI conjI) (simp, (rule insert_handle_task)?, simp_all)
qed

lemma interval_next_exists:
  assumes n: "0 < n" and b: "0 \<le> at" "at \<le> i64_max" "0 \<le> now" "now + n \<le> i64_max"
  shows "\<exists>r. compute_next_run_after_occurrence L (Every n d) at now = Ret (Some r)
    \<and> now < r \<and> r \<le> now + n"
proof -
  have i: "is_i64 at" "is_i64 now" "is_i64 (now - at)"
    using n b by (auto simp: is_i64_def i64_min_def i64_max_def)
  define s where "s = (now - at) div n + 1"
  have m: "(now - at) div n * n + (now - at) mod n = now - at"
    "0 \<le> (now - at) mod n" "(now - at) mod n < n"
    using n by simp_all
  have s1: "s * n = (now - at) div n * n + n"
    by (simp add: s_def distrib_right)
  have low: "now - at < s * n" and up: "s * n \<le> now - at + n"
    using m s1 by linarith+
  have "is_i64 (s * n)" "is_i64 (at + s * n)"
    using low up b by (auto simp: is_i64_def i64_min_def i64_max_def)
  moreover have "is_i64 s"
  proof -
    have "s \<le> now - at + 1" if "0 \<le> now - at"
      using zdiv_mono2 [of "now - at" 1 n] n that by (simp add: s_def)
    moreover have "now - at \<le> s" if "now - at < 0"
      using zdiv_mono2_neg [of "now - at" 1 n] n that by (simp add: s_def)
    moreover have "s \<le> 1" if "now - at < 0"
      using n that by (simp add: s_def div_neg_pos_less0 less_imp_le)
    moreover have "0 \<le> s" if "0 \<le> now - at"
      using n that by (simp add: s_def pos_imp_zdiv_nonneg_iff add_nonneg_nonneg)
    ultimately show ?thesis
      using b n by (cases "0 \<le> now - at") (auto simp: is_i64_def i64_min_def i64_max_def)
  qed
  ultimately have "compute_next_run_after_occurrence L (Every n d) at now = Ret (Some (at + s * n))"
    using n i by (simp add: i64_or_panic_def i64_checked_def s_def)
  then show ?thesis
    using low up by (intro exI [of _ "at + s * n"]) simp
qed

lemma finish_scheduled_run_held:
  assumes inv: "cron_db_inv (cw_db w)"
    and h: "held_by (env_instance E) (lease_of (cw_db w) i at)" and f: "final_status status"
    and only: "\<forall>r\<in>set (cron_runs (cw_db w)). run_job r = i \<and> run_open r \<longrightarrow> run_scheduled_at r = at"
  obtains db' where
    "finish_scheduled_run E sqlite_repo now i at status c e w = (True, w\<lparr>cw_db := db'\<rparr>)"
    "get_recoverable_run i now db' = None" "cron_db_inv db'" "lease_of db' i at = Over status"
proof -
  define p where "p = \<lparr>fin_job = i, fin_at = at, fin_owner = env_instance E,
         fin_status = status, fin_conversation = c, fin_error = e, fin_now = now\<rparr>"
  let ?db = "snd (finish_run p (cw_db w))"
  have fst: "fst (finish_run p (cw_db w)) = Inr True"
    using finish_refines(1) [OF inv, of p] h f by (simp add: p_def)
  then have "finish_scheduled_run E sqlite_repo now i at status c e w = (True, w\<lparr>cw_db := ?db\<rparr>)"
    by (simp add: finish_scheduled_run_def on_db_def Let_def sqlite_repo_def p_def [symmetric])
  moreover have "get_recoverable_run i now ?db = None"
    using no_recoverable_after_finish [OF inv, of p now] h f only by (simp add: p_def)
  moreover have "cron_db_inv ?db"
    using inv_finish [OF inv] f by (simp add: p_def)
  moreover have "lease_of ?db i at = Over status"
    using finish_refines(2) [OF inv, of p] h f
    by (simp add: at_occurrence_def finish_lease_def p_def)
  ultimately show ?thesis using that by blast
qed

text \<open>The tail of an execution: with nothing to recover, the next point of the grid is armed.\<close>

lemma recoverable_runs:
  "cron_runs db' = cron_runs db \<Longrightarrow> get_recoverable_run i now db' = get_recoverable_run i now db"
  by (simp add: get_recoverable_run_def)

lemma reschedule_arms:
  assumes s: "job_schedule j = Every n d" "0 < n" "job_enabled j"
    and b: "0 \<le> at" "at \<le> i64_max" "0 \<le> now" "now + n \<le> i64_max"
    and none: "get_recoverable_run (job_id j) now (cw_db w) = None"
    and r: "reschedule_after_execution E sqlite_repo now j at w = Ret w'"
  shows "\<exists>tid t. map_of (tasks (cw_sched w')) tid = Some t \<and> tm_job t = job_id j
    \<and> now < tm_scheduled t \<and> tm_scheduled t \<le> now + n \<and> tm_wake t = tm_scheduled t"
proof -
  obtain x where x: "compute_next_run_after_occurrence (env_lib E) (Every n d) at now = Ret (Some x)"
    "now < x" "x \<le> now + n"
    using interval_next_exists [OF s(2) b] by blast
  have i: "is_i64 (x - now)"
    using x b s(2) by (auto simp: is_i64_def i64_min_def i64_max_def)
  have "w' = with_sched (reschedule_job now (j\<lparr>job_next_run := Some x\<rparr>))
      (snd (do_update sqlite_repo (job_id j) (no_update\<lparr>up_next_run := Some (Some x)\<rparr>) now w))"
    using r none unfolding reschedule_after_execution_def s(1) cron_schedule.case x(1)
    by (simp add: sqlite_repo_def Let_def)
  then have "cw_sched w' = schedule_job now (j\<lparr>job_next_run := Some x\<rparr>) (cw_sched w)"
    by (simp add: reschedule_job_def)
  then show ?thesis
    using schedule_every_task [of "j\<lparr>job_next_run := Some x\<rparr>" x n d now "cw_sched w"] s i x
    by (auto simp: max_def)
qed

lemma success_runs:
  assumes "update_job_after_success sqlite_repo now i c w = Ret w'"
  shows "cron_runs (cw_db w') = cron_runs (cw_db w)" "cw_sched w' = cw_sched w"
  using assms do_update_simps
  by (auto simp: update_job_after_success_def Let_def split: sum.splits option.splits prod.splits
      intro: do_update_simps) (metis do_update_simps(1,3) runs_of_job_ops(2) snd_conv emit_simps(1,2))+

lemma error_runs:
  assumes "update_job_after_error sqlite_repo now i m w = Ret w'"
  shows "cron_runs (cw_db w') = cron_runs (cw_db w)"
  using assms by (auto simp: update_job_after_error_def split: sum.splits option.splits)

lemma execution_rearms:
  assumes inv: "cron_db_inv (cw_db w)"
    and h: "held_by (env_instance E) (lease_of (cw_db w) (job_id j) at)"
    and only: "\<forall>r\<in>set (cron_runs (cw_db w)). run_job r = job_id j \<and> run_open r \<longrightarrow> run_scheduled_at r = at"
    and s: "job_schedule j = Every n d" "0 < n" "job_enabled j"
    and b: "0 \<le> at" "at \<le> i64_max" "0 \<le> now" "now + n \<le> i64_max"
    and res: "\<forall>k. res \<noteq> Retrying k"
    and e: "handle_execution_result E sqlite_repo now j at res w = Ret w'"
  shows "\<exists>tid t. map_of (tasks (cw_sched w')) tid = Some t \<and> tm_job t = job_id j
    \<and> now < tm_scheduled t \<and> tm_scheduled t \<le> now + n \<and> tm_wake t = tm_scheduled t"
proof (cases res)
  case (Success c)
  obtain db' where f: "finish_scheduled_run E sqlite_repo now (job_id j) at ''ok'' (Some c) None w
        = (True, w\<lparr>cw_db := db'\<rparr>)" "get_recoverable_run (job_id j) now db' = None"
    by (rule finish_scheduled_run_held [OF inv h _ only, where status = "''ok''" and now = now
          and c = "Some c" and e = "None"]) (simp add: final_status_def)
  then obtain w1 w2 where w: "update_job_after_success sqlite_repo now (job_id j) c (w\<lparr>cw_db := db'\<rparr>) = Ret w1"
    "reschedule_after_execution E sqlite_repo now j at w1 = Ret w2"
    "w' = emit (Job_Executed (job_id j) ''ok'' None) w2"
    using e unfolding Success by auto
  have "get_recoverable_run (job_id j) now (cw_db w1) = None"
    using recoverable_runs [OF success_runs(1) [OF w(1)], of "job_id j" now] f(2) by simp
  from reschedule_arms [OF s b this w(2)] show ?thesis by (simp add: w(3))
next
  case Skipped
  obtain db' where f: "finish_scheduled_run E sqlite_repo now (job_id j) at ''skipped'' None None w
        = (True, w\<lparr>cw_db := db'\<rparr>)" "get_recoverable_run (job_id j) now db' = None"
    by (rule finish_scheduled_run_held [OF inv h _ only, where status = "''skipped''" and now = now
          and c = "None" and e = "None"]) (simp add: final_status_def)
  then obtain w2 where w:
    "reschedule_after_execution E sqlite_repo now j at
       (snd (do_update sqlite_repo (job_id j) skip_params now (w\<lparr>cw_db := db'\<rparr>))) = Ret w2"
    "w' = emit (Job_Executed (job_id j) ''skipped'' None) w2"
    using e unfolding Skipped by auto
  have "get_recoverable_run (job_id j) now
      (cw_db (snd (do_update sqlite_repo (job_id j) skip_params now (w\<lparr>cw_db := db'\<rparr>)))) = None"
    using recoverable_runs [of _ db' "job_id j" now] f(2) by simp
  from reschedule_arms [OF s b this w(1)] show ?thesis by (simp add: w(2))
next
  case (Failed m)
  obtain db' where f: "finish_scheduled_run E sqlite_repo now (job_id j) at ''error'' None (Some m) w
        = (True, w\<lparr>cw_db := db'\<rparr>)" "get_recoverable_run (job_id j) now db' = None"
    by (rule finish_scheduled_run_held [OF inv h _ only, where status = "''error''" and now = now
          and c = "None" and e = "Some m"]) (simp add: final_status_def)
  then obtain w1 w2 where w: "update_job_after_error sqlite_repo now (job_id j) m (w\<lparr>cw_db := db'\<rparr>) = Ret w1"
    "reschedule_after_execution E sqlite_repo now j at w1 = Ret w2"
    "w' = emit (Job_Executed (job_id j) ''error'' (Some m)) w2"
    using e unfolding Failed by auto
  have "get_recoverable_run (job_id j) now (cw_db w1) = None"
    using recoverable_runs [OF error_runs [OF w(1)], of "job_id j" now] f(2) by simp
  from reschedule_arms [OF s b this w(2)] show ?thesis by (simp add: w(3))
qed (use res in simp)

end
