(* ===== verification/Cron_Properties.thy ===== *)
theory Cron_Properties
  imports Cron_Service
begin

text \<open>
  The properties of scheduled jobs, each with a witness at a concrete job: the round trip of a
  stored job, the next point of an interval, one timer per job, the lease on an occurrence, the
  tick that runs at most once, two overlapping operations that leave two timers, and the two places where an
  update is lost.
\<close>

section \<open>Values for the witnesses\<close>

definition demo_lib :: "(unit, unit, int) cron_lib" where
  "demo_lib = \<lparr>lib_parse = (\<lambda>_. Inr ()), lib_zone = (\<lambda>_. Some ()), lib_instant = (\<lambda>_ t. Some t),
     lib_next = (\<lambda>_ t. Some (t + 60000))\<rparr>"

definition demo_config :: cron_agent_config where
  "demo_config = \<lparr>cfg_name = ''daily'', cfg_cli_path = None, cfg_is_preset = None,
     cfg_assistant_id = Some ''a1'', cfg_custom_agent_id = None, cfg_mode = None, cfg_model_id = None,
     cfg_model = None, cfg_config_options = None, cfg_workspace = None\<rparr>"

definition demo_json :: config_json where
  "demo_json = \<lparr>to_json = (\<lambda>c. Inr (cfg_name c)), of_json = (\<lambda>_. Inr demo_config)\<rparr>"

definition demo_env :: "(unit, unit, int) cron_env" where
  "demo_env = \<lparr>env_json = demo_json, env_lib = demo_lib, env_instance = ''me'',
     env_runtime_type = (\<lambda>_. Inr ''acp''), env_backend = (\<lambda>_. Inr None),
     env_full_auto = (\<lambda>_ _ _. Inr ''yolo''), env_team_job = (\<lambda>_. Inr False),
     env_auto_workspace = (\<lambda>_. None), env_same_path = (=), env_workspace = (\<lambda>_. Inr ())\<rparr>"

definition demo_job :: cron_job where
  "demo_job = \<lparr>job_id = ''c1'', job_name = ''daily'', job_enabled = True,
     job_schedule = Every 1000 None, job_message = ''go'', job_mode = Existing,
     job_config = Some demo_config, job_conversation = ''k1'', job_title = None, job_agent_type = ''acp'',
     job_creator = By_User, job_skill = None, job_description = None, job_created_at = 0,
     job_updated_at = 0, job_next_run = Some 5000, job_last_run = None, job_last_status = None,
     job_last_error = None, job_run_count = 0, job_retry_count = 0, job_max_retries = 3,
     job_queue_enabled = False\<rparr>"

definition demo_row :: cron_job_row where
  "demo_row = (case cron_job_to_row demo_json demo_job of Inr r \<Rightarrow> r)"

text \<open>The job is stored, its timer is armed.\<close>

definition demo_world :: "cron_db cron_world" where
  "demo_world = \<lparr>cw_db = \<lparr>cron_jobs = [demo_row], cron_runs = []\<rparr>,
     cw_sched = schedule_job 0 demo_job new_scheduler, cw_events = []\<rparr>"

text \<open>The occurrence of instant 5000 is claimed by \<open>me\<close> at that instant.\<close>

definition demo_claimed_world :: "cron_db cron_world" where
  "demo_claimed_world =
     (case tick demo_env sqlite_repo 5000 ''r1'' ''c1'' 5000 demo_world of Ret (_, w) \<Rightarrow> w)"

section \<open>Stored jobs\<close>

lemma enum_strings:
  "execution_mode_str m \<in> set [''existing'', ''new_conversation'']"
  "created_by_str c \<in> set [''user'', ''agent'']"
  "job_status_str s \<in> set [''ok'', ''error'', ''skipped'', ''missed'']"
  subgoal by (cases m) simp_all
  subgoal by (cases c) simp_all
  subgoal by (cases s) simp_all
  done

lemma schedule_kind:
  "schedule_to_row_fields s = (k, v, tz, d) \<Longrightarrow> k \<in> set [''at'', ''every'', ''cron'']"
  by (cases s) auto

text \<open>C16. A job that is converted to a row, inserted under a new identifier and read back is the
same job, except for the runtime type of its agent, which is not stored; the row satisfies every
constraint of the table.\<close>

theorem stored_job_is_read_back:
  assumes json: "\<forall>c. job_config j = Some c \<longrightarrow> config_json_ok J c"
    and range: "schedule_in_range (job_schedule j)"
    and new: "job_id j \<notin> set (map row_id (cron_jobs db))"
  shows "\<exists>r. cron_job_to_row J j = Inr r \<and> fst (insert_job r db) = Inr ()
    \<and> (\<exists>r'. get_job_row (job_id j) (snd (insert_job r db)) = Some r'
        \<and> cron_job_from_row J r' = Inr (j\<lparr>job_agent_type := []\<rparr>))"
proof -
  obtain r where r: "cron_job_to_row J j = Inr r" "cron_job_from_row J r = Inr (j\<lparr>job_agent_type := []\<rparr>)"
    using from_row_to_row [OF json range] by blast
  have i: "row_id r = job_id j"
    using r(1) by (auto simp: cron_job_to_row_def split: prod.splits)
  have "job_row_check r"
  proof -
    obtain k v tz d where f: "schedule_to_row_fields (job_schedule j) = (k, v, tz, d)"
      by (cases "schedule_to_row_fields (job_schedule j)") auto
    have "row_kind r = k" "row_mode r = execution_mode_str (job_mode j)"
      "row_creator r = created_by_str (job_creator j)"
      "row_last_status r = map_option job_status_str (job_last_status j)"
      using r(1) by (auto simp: cron_job_to_row_def f)
    then show ?thesis
      unfolding job_row_check_def using enum_strings schedule_kind [OF f]
      by (auto simp only: option.map option.case split: option.splits)
  qed
  then have ins: "insert_job r db = (Inr (), db\<lparr>cron_jobs := cron_jobs db @ [r]\<rparr>)"
    using new i by (simp add: insert_job_def)
  have "find (\<lambda>r. row_id r = job_id j) (cron_jobs db) = None"
    using new by (auto simp: find_None_iff rev_image_eqI)
  then have "get_job_row (job_id j) (snd (insert_job r db)) = Some r"
    by (simp add: ins get_job_row_def find_append i)
  with r ins show ?thesis by (intro exI [of _ r]) auto
qed

theorem stored_job_is_read_back_witness:
  "\<exists>r. cron_job_to_row demo_json demo_job = Inr r \<and> fst (insert_job r empty_cron_db) = Inr ()
    \<and> (\<exists>r'. get_job_row ''c1'' (snd (insert_job r empty_cron_db)) = Some r'
        \<and> cron_job_from_row demo_json r' = Inr (demo_job\<lparr>job_agent_type := []\<rparr>))"
proof -
  have "\<exists>r. cron_job_to_row demo_json demo_job = Inr r \<and> fst (insert_job r empty_cron_db) = Inr ()
    \<and> (\<exists>r'. get_job_row (job_id demo_job) (snd (insert_job r empty_cron_db)) = Some r'
        \<and> cron_job_from_row demo_json r' = Inr (demo_job\<lparr>job_agent_type := []\<rparr>))"
    by (rule stored_job_is_read_back)
      (simp_all add: demo_job_def demo_json_def demo_config_def config_json_ok_def is_i64_def
        i64_min_def i64_max_def empty_cron_db_def)
  then show ?thesis by (simp add: demo_job_def)
qed

section \<open>The next run\<close>

text \<open>C17. After an occurrence of an interval schedule the next run is the first point of the grid of
that occurrence strictly after the current time: on the grid, later than now, at most one period
away when the elapsed time fits in an i64, and itself an i64.\<close>

theorem next_interval_run:
  assumes "0 < n" and "compute_next_run_after_occurrence L (Every n d) scheduled now = Ret (Some r)"
    and "is_i64 scheduled" and "is_i64 now"
  shows "now < r \<and> n dvd r - scheduled \<and> (is_i64 (now - scheduled) \<longrightarrow> r \<le> now + n) \<and> is_i64 r"
  using interval_next [OF assms] by blast

theorem next_interval_run_witness:
  "7500 < (8000::int) \<and> 1000 dvd 8000 - (5000::int)
    \<and> 8000 \<le> 7500 + (1000::int) \<and> is_i64 8000"
  using next_interval_run [of 1000 demo_lib None 5000 7500 8000]
  by (simp add: i64_or_panic_def i64_checked_def i64_saturating_def is_i64_def i64_min_def i64_max_def)

section \<open>Timers\<close>

text \<open>C14. Whatever the accesses of the operations of the scheduler and the timers of the runtime interleave:
of a job of which no two operations have overlapped, at most one timer is ever live; when no operation of
it is in progress, that timer is the one registered for the job; when a cancel_job of it returns, the job is
not scheduled, it has no live timer, and no timer that wakes from then on is one of it (a timer that had
woken before may still report its tick); and cancel_all leaves no timer of it.\<close>

theorem one_timer_per_job:
  assumes "timer_reachable L w" and "job \<notin> ti_overlapped w"
  shows "(\<forall>a b. a \<in> live_of job (ti_sched w) \<and> b \<in> live_of job (ti_sched w) \<longrightarrow> a = b)
    \<and> (\<not> in_progress job w \<longrightarrow>
        (\<forall>tid \<in> live_of job (ti_sched w). map_of (handles (ti_sched w)) job = Some tid))
    \<and> ((Cancel_Call job, At_End) \<in> set (ti_calls w) \<longrightarrow>
        \<not> is_scheduled job (ti_sched w) \<and> live_of job (ti_sched w) = {}
        \<and> (\<forall>now tid w' t. wake_timer now tid w = Some w' \<and> map_of (ti_polls w') tid = Some t \<longrightarrow> tm_job t \<noteq> job))
    \<and> (ti_calls w = [] \<longrightarrow> live_of job (cancel_all (ti_sched w)) = {})"
proof (intro conjI impI)
  have o: "job_owned job w" by (rule timer_reachable_owned [OF assms])
  show "\<forall>a b. a \<in> live_of job (ti_sched w) \<and> b \<in> live_of job (ti_sched w) \<longrightarrow> a = b"
    using o
  proof (cases rule: job_owned_cases)
    case 1
    then show ?thesis unfolding registered_def by (metis option.inject)
  next
    case (2 c pc)
    show ?thesis
    proof (cases "registered job (ti_sched w)")
      case True
      then show ?thesis unfolding registered_def by (metis option.inject)
    next
      case False
      with 2 obtain tid where "live_of job (ti_sched w) \<subseteq> {tid}" by (cases pc) auto
      then show ?thesis by auto
    qed
  qed
  have reg: "registered job (ti_sched w)" if "\<not> in_progress job w"
    using o that by (auto simp: job_owned_def in_progress_def list_ex_iff calls_of_def filter_empty_conv)
  then show "\<forall>tid \<in> live_of job (ti_sched w). map_of (handles (ti_sched w)) job = Some tid" if "\<not> in_progress job w"
    using that by (simp add: registered_def)
  show "live_of job (cancel_all (ti_sched w)) = {}" if "ti_calls w = []"
    using that reg by (intro cancel_all_none) (simp add: in_progress_def)
  have at_end: "owned_at (Cancel_Call job) At_End (ti_sched w)" if "(Cancel_Call job, At_End) \<in> set (ti_calls w)"
  proof -
    have "(Cancel_Call job, At_End) \<in> set (calls_of job w)" using that by (simp add: calls_of_def)
    with o show ?thesis by (cases rule: job_owned_cases) auto
  qed
  show "\<not> is_scheduled job (ti_sched w)" if "(Cancel_Call job, At_End) \<in> set (ti_calls w)"
    using at_end [OF that] by (simp add: is_scheduled_def)
  show live: "live_of job (ti_sched w) = {}" if "(Cancel_Call job, At_End) \<in> set (ti_calls w)"
    using at_end [OF that] by (auto simp: registered_def)
  show "\<forall>now tid w' t. wake_timer now tid w = Some w' \<and> map_of (ti_polls w') tid = Some t \<longrightarrow> tm_job t \<noteq> job"
    if "(Cancel_Call job, At_End) \<in> set (ti_calls w)"
    using live [OF that] by (auto simp: wake_timer_def live_of_def split: option.splits if_splits)
qed

text \<open>The job is scheduled, and cancelled again: the worlds after each access.\<close>

fun advances :: "nat \<Rightarrow> timestamp_ms \<Rightarrow> timer_world \<Rightarrow> timer_world" where
  "advances 0 now w = w"
| "advances (Suc n) now w = advances n now (advance_call now 0 w)"

lemma length_advance_call [simp]: "length (ti_calls (advance_call now k w)) = length (ti_calls w)"
  by (simp add: advance_call_def split: prod.split)

lemma advances_reachable:
  "timer_reachable L w \<Longrightarrow> ti_calls w \<noteq> [] \<Longrightarrow> timer_reachable L (advances n now w)"
proof (induction n arbitrary: w)
  case (Suc n)
  have "timer_reachable L (advance_call now 0 w)"
    using Suc.prems by (intro stepped [OF Suc.prems(1)] advanced) simp
  moreover have "ti_calls (advance_call now 0 w) \<noteq> []"
    using Suc.prems(2) length_advance_call [of now 0 w] by (metis length_0_conv)
  ultimately show ?case using Suc.IH by simp
qed simp

definition demo_scheduled :: timer_world where
  "demo_scheduled = end_call 0 (advances 4 0 (begin_call (Schedule_Call demo_job) new_timer_world))"

definition demo_cancelled :: timer_world where
  "demo_cancelled = advances 3 9 (begin_call (Cancel_Call ''c1'') demo_scheduled)"

lemma demo_cancelled_reachable: "timer_reachable demo_lib demo_cancelled"
proof -
  have "timer_reachable demo_lib (advances 4 0 (begin_call (Schedule_Call demo_job) new_timer_world))"
    by (intro advances_reachable stepped [OF timer_reachable.created] begun) (simp add: begin_call_def)
  then have "timer_reachable demo_lib demo_scheduled"
    unfolding demo_scheduled_def by (rule stepped) (rule ended; code_simp)
  then have "timer_reachable demo_lib (begin_call (Cancel_Call ''c1'') demo_scheduled)"
    by (rule stepped) (rule begun)
  then show ?thesis
    unfolding demo_cancelled_def by (rule advances_reachable) (simp add: begin_call_def)
qed

theorem one_timer_per_job_witness:
  "tasks (ti_sched demo_scheduled) \<noteq> [] \<and> \<not> is_scheduled ''c1'' (ti_sched demo_cancelled)
    \<and> live_of ''c1'' (ti_sched demo_cancelled) = {}"
proof -
  have "list_ex (\<lambda>e. case e of (Cancel_Call j, At_End) \<Rightarrow> j = ''c1'' | _ \<Rightarrow> False) (ti_calls demo_cancelled)"
    by code_simp
  then obtain c pc where "(c, pc) \<in> set (ti_calls demo_cancelled)"
    "case (c, pc) of (Cancel_Call j, At_End) \<Rightarrow> j = ''c1'' | _ \<Rightarrow> False"
    by (auto simp: list_ex_iff)
  then have "(Cancel_Call ''c1'', At_End) \<in> set (ti_calls demo_cancelled)"
    by (cases c; cases pc) simp_all
  moreover have "ti_overlapped demo_cancelled = {}" by code_simp
  moreover have "tasks (ti_sched demo_scheduled) \<noteq> []" by code_simp
  ultimately show ?thesis
    using one_timer_per_job [OF demo_cancelled_reachable, of "''c1''"] by simp
qed

text \<open>When two operations of one job overlap, the timer of one of them can stay without a handle: two timers of
the job are live after both have returned, and cancel_job stops only one of them.\<close>

definition demo_overlap :: timer_world where
  "demo_overlap =
     (let step = (\<lambda>w. advance_call 0 1 (advance_call 0 0 w)) in
      end_call 0 (end_call 0 (step (step (step
        (begin_call (Schedule_Call demo_job) (begin_call (Schedule_Call demo_job) new_timer_world)))))))"

theorem overlapping_operations_leave_two_timers:
  "timer_reachable demo_lib demo_overlap \<and> ti_calls demo_overlap = []
    \<and> length (filter (\<lambda>e. tm_job (snd e) = ''c1'') (tasks (ti_sched demo_overlap))) = 2
    \<and> length (filter (\<lambda>e. tm_job (snd e) = ''c1'') (tasks (cancel_job ''c1'' (ti_sched demo_overlap)))) = 1"
proof (intro conjI)
  let ?step = "\<lambda>w. advance_call 0 1 (advance_call 0 0 w)"
  let ?two = "begin_call (Schedule_Call demo_job) (begin_call (Schedule_Call demo_job) new_timer_world)"
  have "length (ti_calls ?two) = 2" by (simp add: begin_call_def new_timer_world_def)
  moreover have "timer_reachable demo_lib ?two"
    by (rule stepped [OF stepped [OF timer_reachable.created]]; rule begun)
  moreover have "timer_reachable demo_lib (?step w)" "length (ti_calls (?step w)) = 2"
    if "timer_reachable demo_lib w" "length (ti_calls w) = 2" for w
    using that by (auto intro!: stepped [OF stepped [OF that(1)]] advanced)
  ultimately have r: "timer_reachable demo_lib (?step (?step (?step ?two)))" by blast
  have e: "snd (ti_calls (?step (?step (?step ?two))) ! 0) = At_End" "0 < length (ti_calls (?step (?step (?step ?two))))"
    "snd (ti_calls (end_call 0 (?step (?step (?step ?two)))) ! 0) = At_End"
    "0 < length (ti_calls (end_call 0 (?step (?step (?step ?two)))))"
    by code_simp+
  show "timer_reachable demo_lib demo_overlap"
    unfolding demo_overlap_def Let_def
    by (rule stepped [OF stepped [OF r ended [OF e(2,1)]] ended [OF e(4,3)]])
qed code_simp+

section \<open>The lease on an occurrence\<close>

text \<open>C13. The statements of the run table implement the lease of one occurrence: a claim succeeds
exactly on a free, expired or due occurrence and gives it to the claimer, a queue-limited claim of a
new occurrence may skip it instead, renewing, deferring and finishing act only for the holder, and
no operation touches another occurrence.\<close>

theorem run_table_refines_lease:
  assumes inv: "cron_db_inv db" and final: "final_status (fin_status q)"
  shows "(\<forall>c db'. claim_run i p db = (Inr c, db') \<longrightarrow> (case c of
          Claimed \<Rightarrow> claimable (cl_now p) (lease_of db (cl_job p) (cl_at p))
            \<and> at_occurrence (cl_job p) (cl_at p) (\<lambda>_. Held (cl_owner p) (cl_until p)) db db'
        | Duplicate \<Rightarrow> \<not> claimable (cl_now p) (lease_of db (cl_job p) (cl_at p)) \<and> db' = db
        | Queue_Busy \<Rightarrow> lease_of db (cl_job p) (cl_at p) = Free
            \<and> at_occurrence (cl_job p) (cl_at p) (\<lambda>_. Over ''skipped'') db db'))
    \<and> fst (renew_run_lease job at me until now db) = held_by me (lease_of db job at)
    \<and> at_occurrence job at (renew_lease me until) db (snd (renew_run_lease job at me until now db))
    \<and> fst (defer_run job at me retry_at now db) = held_by me (lease_of db job at)
    \<and> at_occurrence job at (defer_lease me retry_at) db (snd (defer_run job at me retry_at now db))
    \<and> fst (finish_run q db) = Inr (held_by (fin_owner q) (lease_of db (fin_job q) (fin_at q)))
    \<and> at_occurrence (fin_job q) (fin_at q) (finish_lease (fin_owner q) (fin_status q)) db
        (snd (finish_run q db))"
  by (intro conjI allI impI claim_refines [OF inv] renew_refines [OF inv] defer_refines [OF inv]
      finish_refines [OF inv final])

lemma demo_world_inv: "cron_db_inv (cw_db demo_world)" "cron_db_inv (cw_db demo_claimed_world)"
  by code_simp+

theorem run_table_refines_lease_witness:
  "fst (finish_run \<lparr>fin_job = ''c1'', fin_at = 5000, fin_owner = ''me'', fin_status = ''ok'',
      fin_conversation = None, fin_error = None, fin_now = 6000\<rparr> (cw_db demo_claimed_world)) = Inr True"
proof -
  have "fst (finish_run \<lparr>fin_job = ''c1'', fin_at = 5000, fin_owner = ''me'', fin_status = ''ok'',
      fin_conversation = None, fin_error = None, fin_now = 6000\<rparr> (cw_db demo_claimed_world))
    = Inr (held_by ''me'' (lease_of (cw_db demo_claimed_world) ''c1'' 5000))"
    using run_table_refines_lease [OF demo_world_inv(2), of "\<lparr>fin_job = ''c1'', fin_at = 5000,
        fin_owner = ''me'', fin_status = ''ok'', fin_conversation = None, fin_error = None, fin_now = 6000\<rparr>"]
    by (simp add: final_status_def)
  moreover have "held_by ''me'' (lease_of (cw_db demo_claimed_world) ''c1'' 5000)"
    by code_simp
  ultimately show ?thesis by simp
qed

lemma foreign_ops_keep:
  assumes "cron_db_inv db" "lease_of db job at = Held me until" "list_all (foreign_op me until) ops"
    and "job_stays job ops db"
  shows "cron_db_inv (fold apply_op ops db) \<and> lease_of (fold apply_op ops db) job at = Held me until"
  using assms
proof (induction ops arbitrary: db)
  case (Cons x ops)
  then have x: "foreign_op me until x" and there: "job_stays job ops (apply_op x db)" by simp_all
  have "cron_db_inv (apply_op x db)"
    by (rule inv_run_op [OF Cons.prems(1)]) (use x in \<open>auto split: run_op.splits\<close>)
  with Cons x foreign_op_keeps [OF Cons.prems(1,2) x job_stays_there [OF there]] there show ?case by simp
qed simp

lemma later_ops_keep:
  assumes "cron_db_inv db" and "r \<in> set (cron_runs db)" "run_over r" "run_finished_at r = Some t"
    and "list_all (later_op t) ops" and "job_stays (run_job r) ops db"
  shows "cron_db_inv (fold apply_op ops db) \<and> r \<in> set (cron_runs (fold apply_op ops db))"
  using assms
proof (induction ops arbitrary: db)
  case (Cons x ops)
  then have x: "later_op t x" and there: "job_stays (run_job r) ops (apply_op x db)" by simp_all
  have "cron_db_inv (apply_op x db)"
    by (rule inv_run_op [OF Cons.prems(1)]) (use x in \<open>auto split: run_op.splits\<close>)
  with Cons x finished_row_stays [OF Cons.prems(1-4) x job_stays_there [OF there]] there show ?case by simp
qed simp

lemma finish_leaves_row:
  assumes inv: "cron_db_inv db" and held: "held_by (fin_owner q) (lease_of db (fin_job q) (fin_at q))"
    and final: "final_status (fin_status q)"
  obtains r where "r \<in> set (cron_runs (snd (finish_run q db)))" and "run_over r" and "run_finished_at r = Some (fin_now q)"
    and "run_key r = (fin_job q, fin_at q)"
proof -
  obtain r where r: "find (occurrence (fin_job q) (fin_at q)) (cron_runs db) = Some r"
    using held by (auto simp: lease_of_def held_by_def split: option.splits)
  then have k: "r \<in> set (cron_runs db)" "run_key r = (fin_job q, fin_at q)"
    by (auto simp: find_occurrence [OF cron_db_invD(1) [OF inv]])
  note o = held_row [OF inv held k]
  let ?r = "r\<lparr>run_status := fin_status q, run_conversation := fin_conversation q,
           run_error := fin_error q, run_lease_until := None, run_finished_at := Some (fin_now q),
           run_updated_at := fin_now q\<rparr>"
  have "?r \<in> set (cron_runs (snd (finish_run q db)))"
    using k(1) o finish_checks [OF inv final]
    by (auto simp: finish_run_def Let_def update_runs_def image_iff intro!: bexI [of _ r])
  then show ?thesis
    by (rule that) (use final k(2) in \<open>auto simp: run_over_def final_status_def run_key_def\<close>)
qed

lemma over_row_duplicate:
  assumes "cron_db_inv db" and "r \<in> set (cron_runs db)" "run_over r" "run_key r = (cl_job p, cl_at p)"
  shows "fst (claim_run i p db) = Inr Duplicate"
proof -
  have "find (occurrence (cl_job p) (cl_at p)) (cron_runs db) = Some r"
    using assms by (simp add: find_occurrence [OF cron_db_invD(1) [OF assms(1)]])
  moreover have "\<not> run_open r" using assms(3) by (auto simp: run_over_def run_open_def)
  ultimately show ?thesis by (simp add: claim_run_def)
qed

text \<open>C11. While a process holds the lease of an occurrence, nothing that other processes do before it
expires (claims, renewals, deferrals, completions, changes and deletions of other jobs, clean-ups of old
runs, in any order) takes it away as long as the job itself is not deleted: afterwards the holder still
completes the occurrence. And then, whatever any process does with the tables as long as the job is not
deleted and no clean-up reaches past the instant of the completion, no claim of the occurrence succeeds
again.\<close>

theorem lease_is_exclusive:
  assumes inv: "cron_db_inv db" and held: "lease_of db job at = Held me until"
    and foreign: "list_all (foreign_op me until) ops" and stays: "job_stays job ops db"
    and fin: "final_status (fin_status q)" "fin_job q = job" "fin_at q = at" "fin_owner q = me"
    and after: "db' = snd (finish_run q (fold apply_op ops db))"
    and later: "list_all (later_op (fin_now q)) ops'" "job_stays job ops' db'"
    and again: "cl_job p = job" "cl_at p = at"
  shows "fst (finish_run q (fold apply_op ops db)) = Inr True
    \<and> fst (claim_run i p (fold apply_op ops' db')) = Inr Duplicate"
proof
  have k: "cron_db_inv (fold apply_op ops db)" "lease_of (fold apply_op ops db) job at = Held me until"
    using foreign_ops_keep [OF inv held foreign stays] by auto
  then have h: "held_by (fin_owner q) (lease_of (fold apply_op ops db) (fin_job q) (fin_at q))"
    using fin by (simp add: held_by_def)
  with finish_refines(1) [OF k(1) fin(1)] show "fst (finish_run q (fold apply_op ops db)) = Inr True" by simp
  obtain r where r: "r \<in> set (cron_runs db')" "run_over r" "run_finished_at r = Some (fin_now q)"
    "run_key r = (job, at)"
    unfolding after using fin(2,3) by (blast intro: finish_leaves_row [OF k(1) h fin(1)])
  have "run_job r = job" using r(4) by (simp add: run_key_def)
  with later_ops_keep [OF _ r(1-3) later(1)] later(2) inv_finish [OF k(1) fin(1)]
  have "cron_db_inv (fold apply_op ops' db') \<and> r \<in> set (cron_runs (fold apply_op ops' db'))"
    by (simp add: after)
  with r(2,4) again show "fst (claim_run i p (fold apply_op ops' db')) = Inr Duplicate"
    by (intro over_row_duplicate) auto
qed

definition demo_finish :: finish_params where
  "demo_finish = \<lparr>fin_job = ''c1'', fin_at = 5000, fin_owner = ''me'', fin_status = ''ok'',
      fin_conversation = None, fin_error = None, fin_now = 70000\<rparr>"

definition demo_claim_by :: "string \<Rightarrow> timestamp_ms \<Rightarrow> claim_params" where
  "demo_claim_by owner now = \<lparr>cl_job = ''c1'', cl_at = 5000, cl_owner = owner, cl_now = now,
     cl_until = now + 60000, cl_queue = False\<rparr>"

theorem lease_is_exclusive_witness:
  "fst (claim_run ''r3'' (demo_claim_by ''you'' 90000) (fold apply_op [Cleanup_Op 60000, Delete_Op ''c2'']
      (snd (finish_run demo_finish (fold apply_op
        [Claim_Op ''r2'' (demo_claim_by ''you'' 6000), Delete_Conversation_Op ''k2'', Cleanup_Op 99999, Defer_Op ''c1'' 5000 ''you'' 9 9]
        (cw_db demo_claimed_world)))))) = Inr Duplicate"
proof -
  have h: "lease_of (cw_db demo_claimed_world) ''c1'' 5000 = Held ''me'' 65000"
    and s: "job_stays ''c1'' [Claim_Op ''r2'' (demo_claim_by ''you'' 6000), Delete_Conversation_Op ''k2'', Cleanup_Op 99999,
        Defer_Op ''c1'' 5000 ''you'' 9 9] (cw_db demo_claimed_world)"
    and t: "job_stays ''c1'' [Cleanup_Op 60000, Delete_Op ''c2''] (snd (finish_run demo_finish (fold apply_op
        [Claim_Op ''r2'' (demo_claim_by ''you'' 6000), Delete_Conversation_Op ''k2'', Cleanup_Op 99999, Defer_Op ''c1'' 5000 ''you'' 9 9]
        (cw_db demo_claimed_world))))"
    by code_simp+
  show ?thesis
    by (rule lease_is_exclusive [OF demo_world_inv(2) h _ s _ _ _ _ refl _ t, THEN conjunct2])
      (simp_all add: demo_finish_def demo_claim_by_def final_status_def)
qed

text \<open>C12. A tick runs the job only for an occurrence it has just claimed, which it then holds for the
lease time; a tick of an occurrence that is running elsewhere, is waiting for a retry or is over
executes nothing and leaves the occurrence as it is; a tick that executes nothing changes the lease of its
occurrence only from free to skipped, which is what it does when the queue of the job is busy; and no
tick touches another occurrence.\<close>

theorem tick_runs_only_claimed:
  assumes inv: "cron_db_inv (cw_db w)" and t: "tick E sqlite_repo now rid i at w = Ret (r, w')"
  shows "(\<forall>j. r = Tick_Run j \<longrightarrow> claimable now (lease_of (cw_db w) i at)
        \<and> lease_of (cw_db w') i at = Held (env_instance E) (now + 60000))
    \<and> (\<not> claimable now (lease_of (cw_db w) i at)
        \<longrightarrow> r = Tick_Done \<and> lease_of (cw_db w') i at = lease_of (cw_db w) i at)
    \<and> (r = Tick_Done \<longrightarrow> lease_of (cw_db w') i at = lease_of (cw_db w) i at
        \<or> lease_of (cw_db w) i at = Free \<and> lease_of (cw_db w') i at = Over ''skipped'')
    \<and> (\<forall>i' at'. (i', at') \<noteq> (i, at) \<longrightarrow> lease_of (cw_db w') i' at' = lease_of (cw_db w) i' at')"
proof -
  have 1: "claimable now (lease_of (cw_db w) i at) \<and> lease_of (cw_db w') i at = Held (env_instance E) (now + 60000)"
    if "r = Tick_Run j" for j
    using tick_run_claims [OF inv, of E now rid i at j w'] t that by (simp add: run_lease_ms_def)
  have 2: "lease_of (cw_db w') i at = lease_of (cw_db w) i at
      \<or> lease_of (cw_db w) i at = Free \<and> lease_of (cw_db w') i at = Over ''skipped''" if "r = Tick_Done"
    using tick_idle [OF inv, of E now rid i at w'] t that by simp
  show ?thesis using 1 2 tick_leaves_held [OF inv t] tick_frame [OF inv t] by blast
qed

theorem tick_runs_only_claimed_witness:
  "lease_of (cw_db demo_claimed_world) ''c1'' 5000 = Held ''me'' 65000"
proof -
  have "case tick demo_env sqlite_repo 5000 ''r1'' ''c1'' 5000 demo_world of
      Ret (Tick_Run _, _) \<Rightarrow> True | _ \<Rightarrow> False"
    by code_simp
  then obtain j where
    "tick demo_env sqlite_repo 5000 ''r1'' ''c1'' 5000 demo_world = Ret (Tick_Run j, demo_claimed_world)"
    unfolding demo_claimed_world_def by (auto split: rust.splits tick_result.splits prod.splits)
  from tick_runs_only_claimed [OF demo_world_inv(1) this] show ?thesis
    by (simp add: demo_env_def)
qed

section \<open>After an execution\<close>

text \<open>C15. When a process reports the result of an execution of an enabled interval job while it still holds the
lease of the occurrence, no other occurrence of the job is open, and the result is a success, a failure or a
skip and not a retry, the job has a live timer again, due at its next tick, which lies after
now and at most one period away.\<close>

theorem interval_job_is_armed_again:
  assumes "cron_db_inv (cw_db w)"
    and "held_by (env_instance E) (lease_of (cw_db w) (job_id j) at)"
    and "\<forall>r\<in>set (cron_runs (cw_db w)). run_job r = job_id j \<and> run_open r \<longrightarrow> run_scheduled_at r = at"
    and "job_schedule j = Every n d" "0 < n" "job_enabled j"
    and "0 \<le> at" "at \<le> i64_max" "0 \<le> now" "now + n \<le> i64_max"
    and "\<forall>k. res \<noteq> Retrying k"
    and "handle_execution_result E sqlite_repo now j at res w = Ret w'"
  shows "\<exists>tid t. map_of (tasks (cw_sched w')) tid = Some t \<and> tm_job t = job_id j
    \<and> now < tm_scheduled t \<and> tm_scheduled t \<le> now + n \<and> tm_wake t = tm_scheduled t"
  using assms by (rule execution_rearms)

definition demo_finished_world :: "cron_db cron_world" where
  "demo_finished_world = (case handle_execution_result demo_env sqlite_repo 5500 demo_job 5000
     (Success ''k1'') demo_claimed_world of Ret w \<Rightarrow> w)"

theorem interval_job_is_armed_again_witness:
  "\<exists>tid t. map_of (tasks (cw_sched demo_finished_world)) tid = Some t \<and> tm_job t = ''c1''
    \<and> 5500 < tm_scheduled t \<and> tm_scheduled t \<le> 6500 \<and> tm_wake t = tm_scheduled t"
proof -
  have "returns (handle_execution_result demo_env sqlite_repo 5500 demo_job 5000
     (Success ''k1'') demo_claimed_world)"
    by code_simp
  then have w: "handle_execution_result demo_env sqlite_repo 5500 demo_job 5000
     (Success ''k1'') demo_claimed_world = Ret demo_finished_world"
    by (auto simp: demo_finished_world_def returns_iff)
  have h: "held_by (env_instance demo_env) (lease_of (cw_db demo_claimed_world) (job_id demo_job) 5000)"
    "\<forall>r\<in>set (cron_runs (cw_db demo_claimed_world)).
        run_job r = job_id demo_job \<and> run_open r \<longrightarrow> run_scheduled_at r = 5000"
    by code_simp+
  have "\<exists>tid t. map_of (tasks (cw_sched demo_finished_world)) tid = Some t \<and> tm_job t = job_id demo_job
    \<and> 5500 < tm_scheduled t \<and> tm_scheduled t \<le> 5500 + 1000 \<and> tm_wake t = tm_scheduled t"
    by (rule interval_job_is_armed_again [OF demo_world_inv(2) h _ _ _ _ _ _ _ _ w])
      (simp_all add: demo_job_def i64_max_def)
  then show ?thesis by (simp add: demo_job_def)
qed

definition no_request :: update_request where
  "no_request = \<lparr>uq_name = None, uq_description = None, uq_enabled = None, uq_schedule = None,
     uq_message = None, uq_mode = None, uq_config = None, uq_title = None, uq_max_retries = None,
     uq_queue = None\<rparr>"

definition demo_changed_world :: "cron_db cron_world" where
  "demo_changed_world = (case update_job demo_env sqlite_repo 5200 ''c1''
     (no_request\<lparr>uq_schedule := Some (Every_Dto 3600000 None)\<rparr>) demo_claimed_world of Ret (_, w) \<Rightarrow> w)"

definition demo_reverted_world :: "cron_db cron_world" where
  "demo_reverted_world = (case handle_execution_result demo_env sqlite_repo 5500 demo_job 5000
     (Success ''k1'') demo_changed_world of Ret w \<Rightarrow> w)"

definition next_ticks :: "string \<Rightarrow> scheduler \<Rightarrow> (timestamp_ms \<times> timer_plan) list" where
  "next_ticks job s =
     map (\<lambda>e. (tm_scheduled (snd e), tm_plan (snd e))) (filter (\<lambda>e. tm_job (snd e) = job) (tasks s))"

text \<open>An execution reports its result with the job as it was when the tick began: when the
schedule is changed from every second to every hour while the job runs, the stored schedule is the
new one, but the result brings back the next run and the timer of the old one.\<close>

theorem result_reverts_a_changed_schedule:
  "map (\<lambda>r. (row_value r, row_next_run r)) (cron_jobs (cw_db demo_changed_world))
      = [(''3600000'', Some 3605200)]
    \<and> next_ticks ''c1'' (cw_sched demo_changed_world) = [(3605200, Starting 3600000)]
    \<and> map (\<lambda>r. (row_value r, row_next_run r)) (cron_jobs (cw_db demo_reverted_world))
      = [(''3600000'', Some 6000)]
    \<and> next_ticks ''c1'' (cw_sched demo_reverted_world) = [(6000, Starting 1000)]"
  by code_simp

section \<open>Updates\<close>

lemma update_params_no_request:
  "update_params_of J j (no_request\<lparr>uq_max_retries := Some n\<rparr>) False False = Inr no_update"
  by (simp add: update_params_of_def build_update_params_def no_request_def no_update_def
      split: prod.split)

text \<open>A request that changes the retry limit of a job is answered with the new limit, and stores
nothing: the tables are unchanged.\<close>

theorem retry_limit_is_not_stored:
  assumes "load_job E sqlite_repo i w = Inr j"
    and "env_workspace E (j\<lparr>job_max_retries := n, job_updated_at := now\<rparr>) = Inr ()"
  shows "\<exists>j' w'. update_job E sqlite_repo now i (no_request\<lparr>uq_max_retries := Some n\<rparr>) w = Ret (Inr j', w')
    \<and> job_max_retries j' = n \<and> cw_db w' = cw_db w"
proof -
  let ?q = "no_request\<lparr>uq_max_retries := Some n\<rparr>"
  have a: "apply_update_request E ?q j = Inr (j\<lparr>job_max_retries := n\<rparr>, False)"
    by (simp add: apply_update_request_def requested_schedule_def requested_mode_def
        requested_config_def no_request_def)
  have q: "uq_schedule ?q = None" "uq_enabled ?q = None"
    by (simp_all add: no_request_def)
  have u: "do_update sqlite_repo i no_update now w = (Inr (), w)" for w
    by (simp add: do_update_def on_db_def sqlite_repo_def update_job_row_def)
  show ?thesis
    using assms
    by (simp add: update_job_def a q u update_params_no_request Let_def
        bind_existing_conversation_def)
qed

definition limited_job :: cron_job where
  "limited_job = demo_job\<lparr>job_agent_type := ''acp''\<rparr>"

theorem retry_limit_is_not_stored_witness:
  "\<exists>j' w'. update_job demo_env sqlite_repo 9 ''c1'' (no_request\<lparr>uq_max_retries := Some 7\<rparr>) demo_world
      = Ret (Inr j', w') \<and> job_max_retries j' = 7 \<and> cw_db w' = cw_db demo_world"
proof -
  have "load_job demo_env sqlite_repo ''c1'' demo_world \<noteq> Inl e" for e
  proof -
    have "\<not> is_err (load_job demo_env sqlite_repo ''c1'' demo_world)" by code_simp
    then show ?thesis by auto
  qed
  then obtain j where "load_job demo_env sqlite_repo ''c1'' demo_world = Inr j"
    by (metis sum.exhaust)
  then show ?thesis
    by (rule retry_limit_is_not_stored) (simp add: demo_env_def)
qed

end
