(* ===== verification/Ext_Dependency.thy ===== *)
theory Ext_Dependency
  imports Rust_Std
begin

text \<open>
  \<open>aionui-extension/src/dependency.rs\<close>: validation of the dependencies between extensions, the
  topological load order (Kahn's algorithm) and the search for cycles. Of a \<open>LoadedExtension\<close> the
  file reads the name, the version and the dependencies of the manifest; the order of a
  \<open>HashMap\<close> is that of its association list, and the code sorts wherever the order could show.
  The crate \<open>semver\<close> is the record \<open>semver\<close>. The loop over the queue and the depth of the search
  are counted by fuel; \<open>order_total\<close> and \<open>cycles_total\<close> show that the fuel given suffices.
\<close>

section \<open>Types\<close>

record loaded_extension =
  ext_name :: string
  ext_version :: string
  ext_dependencies :: "(string, string) hmap"

datatype dependency_issue =
    Missing string string string
  | Version_Mismatch string string string string
  | Circular "string list"

record dependency_validation =
  dv_valid :: bool
  dv_issues :: "dependency_issue list"
  dv_load_order :: "string list"

record ('v, 'r) semver =
  sv_version :: "string \<Rightarrow> 'v option"
  sv_req :: "string \<Rightarrow> 'r option"
  sv_matches :: "'r \<Rightarrow> 'v \<Rightarrow> bool"

definition version_matches :: "('v, 'r) semver \<Rightarrow> string \<Rightarrow> string \<Rightarrow> bool" where
  "version_matches V requirement actual =
     (case sv_version V actual of
        None \<Rightarrow> False
      | Some v \<Rightarrow>
          (let req_str = (case requirement of
               [] \<Rightarrow> requirement
             | c # _ \<Rightarrow> if is_ascii_digit c then ''='' @ requirement else requirement) in
           (case sv_req V req_str of None \<Rightarrow> False | Some r \<Rightarrow> sv_matches V r v)))"

section \<open>Load order\<close>

text \<open>\<open>entry(k).or_insert(d)\<close> followed by an update of the value.\<close>

definition hm_upsert :: "'k \<Rightarrow> 'v \<Rightarrow> ('v \<Rightarrow> 'v) \<Rightarrow> ('k, 'v) hmap \<Rightarrow> ('k, 'v) hmap" where
  "hm_upsert k d f m = hm_insert k (f (case map_of m k of None \<Rightarrow> d | Some v \<Rightarrow> v)) m"

type_synonym dep_adj = "(string, string list) hmap"
type_synonym dep_degree = "(string, nat) hmap"

fun add_dependencies ::
  "string list \<Rightarrow> string \<Rightarrow> string list \<Rightarrow> dep_adj \<times> dep_degree \<Rightarrow> dep_adj \<times> dep_degree" where
  "add_dependencies known name [] g = g"
| "add_dependencies known name (d # ds) g =
     add_dependencies known name ds
       (if d \<in> set known
        then (hm_upsert d [] (\<lambda>l. l @ [name]) (fst g), hm_upsert name 0 Suc (snd g)) else g)"

fun build_graph ::
  "string list \<Rightarrow> loaded_extension list \<Rightarrow> dep_adj \<times> dep_degree \<Rightarrow> dep_adj \<times> dep_degree" where
  "build_graph known [] g = g"
| "build_graph known (e # es) g =
     build_graph known es (add_dependencies known (ext_name e) (hm_keys (ext_dependencies e))
       (fst g, hm_upsert (ext_name e) 0 id (snd g)))"

text \<open>The inner loop: one dependency of each dependent is met; a count of zero cannot go down.\<close>

fun relax :: "string list \<Rightarrow> dep_degree \<Rightarrow> string list \<Rightarrow> (dep_degree \<times> string list) rust" where
  "relax [] deg ready = Ret (deg, ready)"
| "relax (d # ds) deg ready = (case map_of deg d of
      None \<Rightarrow> Panic
    | Some 0 \<Rightarrow> Panic
    | Some (Suc k) \<Rightarrow>
        relax ds (hm_modify d (\<lambda>_. k) deg) (if k = 0 then ready @ [d] else ready))"

fun kahn ::
  "nat \<Rightarrow> dep_adj \<Rightarrow> string list \<Rightarrow> dep_degree \<Rightarrow> string list \<Rightarrow> string list rust option" where
  "kahn 0 adj queue deg order = None"
| "kahn (Suc fuel) adj [] deg order = Some (Ret order)"
| "kahn (Suc fuel) adj (n # queue) deg order = (case map_of adj n of
      None \<Rightarrow> kahn fuel adj queue deg (order @ [n])
    | Some dependents \<Rightarrow>
        (case relax dependents deg [] of
           Panic \<Rightarrow> Some Panic
         | Ret (deg', ready) \<Rightarrow> kahn fuel adj (queue @ sort ready) deg' (order @ [n])))"

definition known_names :: "loaded_extension list \<Rightarrow> string list" where
  "known_names es = remdups (map ext_name es)"

definition graph_of :: "loaded_extension list \<Rightarrow> dep_adj \<times> dep_degree" where
  "graph_of es = build_graph (known_names es) es ([], [])"

definition seeds :: "dep_degree \<Rightarrow> string list" where
  "seeds deg = sort (map fst (filter (\<lambda>e. snd e = 0) deg))"

definition kahn_order :: "loaded_extension list \<Rightarrow> string list rust option" where
  "kahn_order es = (case graph_of es of (adj, deg) \<Rightarrow>
     kahn (Suc (length (known_names es))) adj (seeds deg) deg [])"

section \<open>Cycles\<close>

record dfs_state =
  visited :: "string list"
  on_stack :: "string list"
  dfs_path :: "string list"
  dfs_cycles :: "string list list"

definition enter :: "string \<Rightarrow> dfs_state \<Rightarrow> dfs_state" where
  "enter n s = s\<lparr>visited := n # visited s, on_stack := n # on_stack s, dfs_path := dfs_path s @ [n]\<rparr>"

definition leave :: "string \<Rightarrow> dfs_state \<Rightarrow> dfs_state" where
  "leave n s = s\<lparr>dfs_path := butlast (dfs_path s), on_stack := filter (\<lambda>x. x \<noteq> n) (on_stack s)\<rparr>"

text \<open>A back edge: the path from the target on, closed by the target.\<close>

definition close_cycle :: "string \<Rightarrow> dfs_state \<Rightarrow> dfs_state" where
  "close_cycle n s =
     (if n \<in> set (on_stack s) \<and> n \<in> set (dfs_path s)
      then s\<lparr>dfs_cycles := dfs_cycles s @ [dropWhile (\<lambda>x. x \<noteq> n) (dfs_path s) @ [n]]\<rparr> else s)"

definition neighbors :: "dep_adj \<Rightarrow> string \<Rightarrow> string list" where
  "neighbors adj n = (case map_of adj n of None \<Rightarrow> [] | Some ns \<Rightarrow> ns)"

function dfs :: "nat \<Rightarrow> dep_adj \<Rightarrow> string \<Rightarrow> dfs_state \<Rightarrow> dfs_state option"
  and dfs_edges :: "nat \<Rightarrow> dep_adj \<Rightarrow> string list \<Rightarrow> dfs_state \<Rightarrow> dfs_state option" where
  "dfs 0 adj n s = None"
| "dfs (Suc fuel) adj n s =
     Option.bind (dfs_edges fuel adj (neighbors adj n) (enter n s)) (\<lambda>s. Some (leave n s))"
| "dfs_edges fuel adj [] s = Some s"
| "dfs_edges fuel adj (x # xs) s =
     (if x \<notin> set (visited s) then Option.bind (dfs fuel adj x s) (dfs_edges fuel adj xs)
      else dfs_edges fuel adj xs (close_cycle x s))"
  by pat_completeness auto
termination
  by (relation "inv_image (less_than <*lex*> less_than)
      (case_sum (\<lambda>(f, _, _, _). (f, 0)) (\<lambda>(f, _, xs, _). (f, Suc (length xs))))") auto

definition cycle_adj :: "loaded_extension list \<Rightarrow> string list \<Rightarrow> dep_adj" where
  "cycle_adj es involved =
     fold (\<lambda>e m. hm_insert (ext_name e)
         (sort (filter (\<lambda>d. d \<in> set involved) (hm_keys (ext_dependencies e)))) m)
       (filter (\<lambda>e. ext_name e \<in> set involved) es) []"

fun dfs_all :: "nat \<Rightarrow> dep_adj \<Rightarrow> string list \<Rightarrow> dfs_state \<Rightarrow> dfs_state option" where
  "dfs_all fuel adj [] s = Some s"
| "dfs_all fuel adj (n # ns) s =
     (if n \<in> set (visited s) then dfs_all fuel adj ns s
      else Option.bind (dfs fuel adj n s) (dfs_all fuel adj ns))"

definition dfs_start :: dfs_state where
  "dfs_start = \<lparr>visited = [], on_stack = [], dfs_path = [], dfs_cycles = []\<rparr>"

definition find_cycles :: "loaded_extension list \<Rightarrow> string list \<Rightarrow> string list list option" where
  "find_cycles es involved =
     map_option dfs_cycles
       (dfs_all (Suc (length involved)) (cycle_adj es involved) (sort involved) dfs_start)"

section \<open>The result\<close>

definition remaining_names :: "loaded_extension list \<Rightarrow> string list \<Rightarrow> string list" where
  "remaining_names es order = filter (\<lambda>n. n \<notin> set order) (known_names es)"

definition compute_topological_order ::
  "loaded_extension list \<Rightarrow> (string list \<times> string list list) rust option" where
  "compute_topological_order es =
     Option.bind (kahn_order es) (\<lambda>r. case r of
       Panic \<Rightarrow> Some Panic
     | Ret order \<Rightarrow>
         (let remaining = remaining_names es order in
          map_option (\<lambda>cycles. Ret (order @ sort remaining, cycles))
            (if remaining = [] then Some [] else find_cycles es remaining)))"

definition topological_sort :: "loaded_extension list \<Rightarrow> string list rust option" where
  "topological_sort es = map_option (\<lambda>r. bind_rust r (\<lambda>x. Ret (fst x))) (compute_topological_order es)"

definition installed_versions :: "loaded_extension list \<Rightarrow> (string, string) hmap" where
  "installed_versions es = fold (\<lambda>e. hm_insert (ext_name e) (ext_version e)) es []"

fun dependency_issues ::
  "('v, 'r) semver \<Rightarrow> (string, string) hmap \<Rightarrow> string \<Rightarrow> (string \<times> string) list \<Rightarrow> dependency_issue list"
  where
  "dependency_issues V versions name [] = []"
| "dependency_issues V versions name ((dep, req) # ds) =
     (case map_of versions dep of
        None \<Rightarrow> [Missing name dep req]
      | Some actual \<Rightarrow>
          if version_matches V req actual then [] else [Version_Mismatch name dep req actual])
     @ dependency_issues V versions name ds"

definition validate_dependencies ::
  "('v, 'r) semver \<Rightarrow> loaded_extension list \<Rightarrow> dependency_validation rust option" where
  "validate_dependencies V es =
     (let checks = concat (map (\<lambda>e. dependency_issues V (installed_versions es) (ext_name e)
        (ext_dependencies e)) es) in
      map_option (\<lambda>r. bind_rust r (\<lambda>(order, cycles).
        (let issues = checks @ map Circular cycles in
         Ret \<lparr>dv_valid = (issues = []), dv_issues = issues, dv_load_order = order\<rparr>)))
       (compute_topological_order es))"

section \<open>Kahn's algorithm is total and ordered\<close>

text \<open>The edges between installed extensions, a dependency before its dependent.\<close>

definition dep_edges :: "string list \<Rightarrow> loaded_extension list \<Rightarrow> (string \<times> string) list" where
  "dep_edges known es = concat (map (\<lambda>e. map (\<lambda>d. (d, ext_name e))
     (filter (\<lambda>d. d \<in> set known) (hm_keys (ext_dependencies e)))) es)"

definition degree :: "dep_degree \<Rightarrow> string \<Rightarrow> nat" where
  "degree deg n = (case map_of deg n of None \<Rightarrow> 0 | Some k \<Rightarrow> k)"

definition out_edges :: "(string \<times> string) list \<Rightarrow> string \<Rightarrow> string list" where
  "out_edges E d = map snd (filter (\<lambda>x. fst x = d) E)"

definition in_count :: "(string \<times> string) list \<Rightarrow> string \<Rightarrow> nat" where
  "in_count E n = length (filter (\<lambda>x. snd x = n) E)"

lemma edge_counts [simp]:
  "out_edges [] d = []" "out_edges (E @ F) d = out_edges E d @ out_edges F d"
  "out_edges (x # E) d = (if fst x = d then snd x # out_edges E d else out_edges E d)"
  "in_count [] n = 0" "in_count (E @ F) n = in_count E n + in_count F n"
  "in_count (x # E) n = (if snd x = n then Suc (in_count E n) else in_count E n)"
  by (simp_all add: out_edges_def in_count_def)

lemma add_dependencies_graph:
  defines "F \<equiv> \<lambda>known name ds. map (\<lambda>d. (d, name)) (filter (\<lambda>d. d \<in> set known) ds)"
  shows "neighbors (fst (add_dependencies known name ds g)) d
      = neighbors (fst g) d @ out_edges (F known name ds) d"
    and "degree (snd (add_dependencies known name ds g)) n
      = degree (snd g) n + in_count (F known name ds) n"
    and "map_of (snd g) m \<noteq> None \<Longrightarrow> map_of (snd (add_dependencies known name ds g)) m \<noteq> None"
  unfolding F_def
  by (induction known name ds g rule: add_dependencies.induct)
    (auto simp: neighbors_def degree_def hm_upsert_def split: option.splits)

lemma build_graph_edges:
  "neighbors (fst (build_graph known es g)) d = neighbors (fst g) d @ out_edges (dep_edges known es) d"
  "degree (snd (build_graph known es g)) n = degree (snd g) n + in_count (dep_edges known es) n"
  "map_of (snd g) m \<noteq> None \<or> m \<in> ext_name ` set es \<Longrightarrow> map_of (snd (build_graph known es g)) m \<noteq> None"
proof (induction known es g rule: build_graph.induct)
  case (2 known e es g)
  let ?g = "(fst g, hm_upsert (ext_name e) 0 id (snd g))"
  have u: "degree (snd ?g) n = degree (snd g) n" "map_of (snd ?g) (ext_name e) \<noteq> None"
    "map_of (snd g) m \<noteq> None \<Longrightarrow> map_of (snd ?g) m \<noteq> None"
    by (auto simp: degree_def hm_upsert_def split: option.splits)
  {
    case 1
    then show ?case
      using 2(1) by (simp add: add_dependencies_graph dep_edges_def)
  next
    case 2
    then show ?case
      using "2.IH"(2) u(1) by (simp add: add_dependencies_graph dep_edges_def)
  next
    case 3
    then show ?case
      using "2.IH"(3) u(2,3) add_dependencies_graph(3) [of ?g] by auto
  }
qed (auto simp: dep_edges_def)

text \<open>A dependency without dependents has no entry: the loop then meets nothing.\<close>

lemma kahn_pop:
  "kahn (Suc fuel) adj (n # queue) deg order = (case relax (neighbors adj n) deg [] of
      Panic \<Rightarrow> Some Panic
    | Ret (deg', ready) \<Rightarrow> kahn fuel adj (queue @ sort ready) deg' (order @ [n]))"
  by (auto simp: neighbors_def split: option.split)

lemma relax_returns:
  assumes "\<And>x. x \<in> set ds \<Longrightarrow> \<exists>k. map_of deg x = Some k \<and> count_list ds x \<le> k"
  shows "\<exists>deg' ready. relax ds deg r = Ret (deg', r @ ready)
    \<and> (\<forall>x. map_of deg' x = map_option (\<lambda>k. k - count_list ds x) (map_of deg x))
    \<and> distinct ready \<and> set ready = {x \<in> set ds. map_of deg x = Some (count_list ds x)}"
  using assms
proof (induction ds arbitrary: deg r)
  case Nil
  show ?case by (auto simp: option.map_ident)
next
  case (Cons d ds)
  obtain k0 where k0: "map_of deg d = Some k0" "Suc (count_list ds d) \<le> k0"
    using Cons.prems [of d] by auto
  then obtain k where k: "map_of deg d = Some (Suc k)" "count_list ds d \<le> k"
    by (cases k0) auto
  let ?deg = "hm_modify d (\<lambda>_. k) deg"
  let ?r = "if k = 0 then r @ [d] else r"
  have "\<exists>j. map_of ?deg x = Some j \<and> count_list ds x \<le> j" if "x \<in> set ds" for x
    using Cons.prems [of x] that k by (cases "x = d") auto
  from Cons.IH [OF this, of ?r] obtain deg' ready where IH:
    "relax ds ?deg ?r = Ret (deg', ?r @ ready)"
    "\<forall>x. map_of deg' x = map_option (\<lambda>k. k - count_list ds x) (map_of ?deg x)"
    "distinct ready" "set ready = {x \<in> set ds. map_of ?deg x = Some (count_list ds x)}"
    by blast
  have e: "relax (d # ds) deg r = Ret (deg', r @ (if k = 0 then d # ready else ready))"
    using IH(1) k(1) by simp
  have m: "map_of deg' x = map_option (\<lambda>k. k - count_list (d # ds) x) (map_of deg x)" for x
    using IH(2) k by (cases "map_of deg x") auto
  have z: "d \<notin> set ready" if "k = 0"
    using that IH(4) k by (auto simp: count_list_0_iff)
  have c: "count_list ds d = 0 \<longleftrightarrow> d \<notin> set ds" by (simp add: count_list_0_iff)
  have s: "x \<in> set (if k = 0 then d # ready else ready)
      \<longleftrightarrow> x \<in> set (d # ds) \<and> map_of deg x = Some (count_list (d # ds) x)" for x
  proof (cases "x = d")
    case True
    have "map_of deg d = Some (count_list (d # ds) d) \<longleftrightarrow> k = count_list ds d"
      using k(1) by simp
    moreover have "d \<in> set ready \<longleftrightarrow> d \<in> set ds \<and> k = count_list ds d"
      using IH(4) k(1) by simp
    ultimately show ?thesis
      using True k(2) c by auto
  next
    case False
    then have "x \<in> set ready \<longleftrightarrow> x \<in> set ds \<and> map_of deg x = Some (count_list ds x)"
      using IH(4) by simp
    with False show ?thesis by simp
  qed
  have s': "set (if k = 0 then d # ready else ready)
      = {x \<in> set (d # ds). map_of deg x = Some (count_list (d # ds) x)}"
    using s by blast
  have "distinct (if k = 0 then d # ready else ready)"
    using z IH(3) by simp
  with e m s' show ?case by blast
qed

definition open_count :: "(string \<times> string) list \<Rightarrow> string list \<Rightarrow> string \<Rightarrow> nat" where
  "open_count E order n = length (filter (\<lambda>x. snd x = n \<and> fst x \<notin> set order) E)"

definition kahn_inv ::
  "(string \<times> string) list \<Rightarrow> string list \<Rightarrow> string list \<Rightarrow> dep_degree \<Rightarrow> string list \<Rightarrow> bool" where
  "kahn_inv E known queue deg order =
     (distinct (order @ queue) \<and> set (order @ queue) \<subseteq> set known
      \<and> (\<forall>n\<in>set known. map_of deg n = Some (open_count E order n))
      \<and> (\<forall>n\<in>set known. n \<in> set (order @ queue) \<longleftrightarrow> open_count E order n = 0)
      \<and> (\<forall>xs n ys. order = xs @ n # ys \<longrightarrow> (\<forall>d. (d, n) \<in> set E \<longrightarrow> d \<in> set xs)))"

lemma open_count_0: "open_count E order n = 0 \<longleftrightarrow> (\<forall>d. (d, n) \<in> set E \<longrightarrow> d \<in> set order)"
  by (auto simp: open_count_def filter_empty_conv)

lemma count_out_edges: "count_list (out_edges E d) n = length (filter (\<lambda>x. snd x = n \<and> fst x = d) E)"
  by (induction E) auto

lemma open_count_step:
  assumes "n \<notin> set order"
  shows "open_count E order m = open_count E (order @ [n]) m + count_list (out_edges E n) m"
  using assms unfolding open_count_def count_out_edges by (induction E) auto

lemma set_out_edges: "m \<in> set (out_edges E n) \<longleftrightarrow> (n, m) \<in> set E"
  by (force simp: out_edges_def)

lemma split_snoc:
  assumes "order @ [n] = xs @ m # ys"
  obtains "m = n" "xs = order" | zs where "order = xs @ m # zs"
  using assms by (cases ys rule: rev_cases) auto

lemma kahn_inv_step:
  assumes inv: "kahn_inv E known (n # queue) deg order" and adj: "neighbors adj n = out_edges E n"
    and E: "\<forall>(d, m)\<in>set E. m \<in> set known"
  shows "\<exists>deg' ready. relax (neighbors adj n) deg [] = Ret (deg', ready)
    \<and> kahn_inv E known (queue @ sort ready) deg' (order @ [n])"
proof -
  let ?ds = "out_edges E n"
  have deg: "\<And>m. m \<in> set known \<Longrightarrow> map_of deg m = Some (open_count E order m)"
    and mem: "\<And>m. m \<in> set known \<Longrightarrow> m \<in> set (order @ n # queue) \<longleftrightarrow> open_count E order m = 0"
    and dist: "distinct (order @ n # queue)" "set (order @ n # queue) \<subseteq> set known"
    and ord: "\<And>xs m ys d. order = xs @ m # ys \<Longrightarrow> (d, m) \<in> set E \<Longrightarrow> d \<in> set xs"
    using inv unfolding kahn_inv_def by blast+
  have n: "n \<in> set known" "n \<notin> set order"
    using dist by auto
  note st = open_count_step [OF n(2), of E]
  have ds: "m \<in> set known" if "m \<in> set ?ds" for m
    using that E by (auto simp: set_out_edges)
  have "\<exists>k. map_of deg m = Some k \<and> count_list ?ds m \<le> k" if "m \<in> set ?ds" for m
    using deg [OF ds [OF that]] st [of m] by simp
  from relax_returns [OF this, of "[]"] obtain deg' ready where r:
    "relax ?ds deg [] = Ret (deg', ready)"
    "\<And>m. map_of deg' m = map_option (\<lambda>k. k - count_list ?ds m) (map_of deg m)"
    "distinct ready" "set ready = {m \<in> set ?ds. map_of deg m = Some (count_list ?ds m)}"
    by auto
  have deg': "map_of deg' m = Some (open_count E (order @ [n]) m)" if "m \<in> set known" for m
    using r(2) [of m] deg [OF that] st [of m] by simp
  have ready: "m \<in> set ready \<longleftrightarrow> open_count E order m \<noteq> 0 \<and> open_count E (order @ [n]) m = 0"
    if "m \<in> set known" for m
  proof -
    have "m \<in> set ?ds \<longleftrightarrow> count_list ?ds m \<noteq> 0" by (simp add: count_list_0_iff)
    then show ?thesis using r(4) deg [OF that] st [of m] by auto
  qed
  have rk: "set ready \<subseteq> set known" using r(4) ds by auto
  have new: "m \<in> set (order @ n # queue) \<or> m \<in> set ready \<longleftrightarrow> open_count E (order @ [n]) m = 0"
    if "m \<in> set known" for m
    using mem [OF that] ready [OF that] st [of m] by auto
  have disj: "set ready \<inter> set (order @ n # queue) = {}"
    using mem ready rk by blast
  have o: "d \<in> set xs" if "order @ [n] = xs @ m # ys" "(d, m) \<in> set E" for xs m ys d
    using that(1)
  proof (cases rule: split_snoc)
    case 1
    then show ?thesis using mem [OF n(1)] that(2) by (simp add: open_count_0)
  next
    case (2 zs)
    then show ?thesis using ord that(2) by blast
  qed
  have "kahn_inv E known (queue @ sort ready) deg' (order @ [n])"
    unfolding kahn_inv_def
  proof (intro conjI ballI allI impI)
    show "distinct ((order @ [n]) @ queue @ sort ready)"
      using dist(1) r(3) disj by auto
    show "set ((order @ [n]) @ queue @ sort ready) \<subseteq> set known"
      using dist(2) rk by auto
    show "map_of deg' m = Some (open_count E (order @ [n]) m)" if "m \<in> set known" for m
      by (rule deg' [OF that])
    show "m \<in> set ((order @ [n]) @ queue @ sort ready) \<longleftrightarrow> open_count E (order @ [n]) m = 0"
      if "m \<in> set known" for m
      using new [OF that] by auto
    show "d \<in> set xs" if "order @ [n] = xs @ m # ys" "(d, m) \<in> set E" for xs m ys d
      by (rule o [OF that])
  qed
  with r(1) adj show ?thesis by auto
qed

lemma kahn_total:
  assumes "kahn_inv E known queue deg order" and adj: "\<And>n. neighbors adj n = out_edges E n"
    and E: "\<forall>(d, m)\<in>set E. m \<in> set known" and "length known < fuel + length order"
  shows "\<exists>deg' order'. kahn fuel adj queue deg order = Some (Ret order') \<and> kahn_inv E known [] deg' order'"
  using assms(1,4)
proof (induction fuel arbitrary: queue deg order)
  case 0
  have "length order \<le> length known"
    using 0(1) unfolding kahn_inv_def
    by (metis card_length card_mono distinct_append distinct_card finite_set le_trans set_append sup.boundedE)
  with 0(2) show ?case by simp
next
  case (Suc fuel)
  show ?case
  proof (cases queue)
    case Nil
    with Suc show ?thesis by auto
  next
    case (Cons n q)
    obtain deg' ready where r: "relax (neighbors adj n) deg [] = Ret (deg', ready)"
      "kahn_inv E known (q @ sort ready) deg' (order @ [n])"
      using kahn_inv_step [OF Suc.prems(1) [unfolded Cons] adj E] by blast
    have "length known < fuel + length (order @ [n])"
      using Suc.prems(2) by simp
    from Suc.IH [OF r(2) this] show ?thesis
      unfolding Cons kahn_pop r(1) by simp
  qed
qed

lemma known_names_set [simp]: "set (known_names es) = ext_name ` set es" "distinct (known_names es)"
  by (simp_all add: known_names_def)

lemma dep_edges_known: "(d, m) \<in> set (dep_edges (known_names es) es)
    \<Longrightarrow> d \<in> set (known_names es) \<and> m \<in> set (known_names es)"
  by (auto simp: dep_edges_def)

lemma open_count_Nil: "open_count E [] n = in_count E n"
  by (simp add: open_count_def in_count_def)

lemma distinct_keys_upsert: "distinct (map fst m) \<Longrightarrow> distinct (map fst (hm_upsert k d f m))"
  unfolding hm_upsert_def by (rule distinct_hm_insert)

lemma distinct_add_dependencies:
  "distinct (map fst (snd g)) \<Longrightarrow> distinct (map fst (snd (add_dependencies known name ds g)))"
  by (induction known name ds g rule: add_dependencies.induct) (simp_all add: distinct_keys_upsert)

lemma distinct_build_graph:
  "distinct (map fst (snd g)) \<Longrightarrow> distinct (map fst (snd (build_graph known es g)))"
  by (induction known es g rule: build_graph.induct)
    (simp_all add: distinct_add_dependencies distinct_keys_upsert)

lemma keys_upsert: "set (map fst (hm_upsert k d f m)) = insert k (set (map fst m))"
  unfolding hm_upsert_def hm_keys_insert by auto

lemma degree_keys_add:
  "set (map fst (snd (add_dependencies known name ds g))) \<subseteq> insert name (set (map fst (snd g)))"
proof (induction known name ds g rule: add_dependencies.induct)
  case (2 known name d ds g)
  have "set (map fst (snd (if d \<in> set known
        then (hm_upsert d [] (\<lambda>l. l @ [name]) (fst g), hm_upsert name 0 Suc (snd g)) else g)))
      \<subseteq> insert name (set (map fst (snd g)))"
    by (simp add: keys_upsert del: set_map) auto
  with 2 show ?case unfolding add_dependencies.simps by blast
qed (simp add: subset_insertI)

lemma degree_keys:
  "set (map fst (snd (build_graph known es g))) \<subseteq> ext_name ` set es \<union> set (map fst (snd g))"
proof (induction known es g rule: build_graph.induct)
  case (2 known e es g)
  have "set (map fst (snd (add_dependencies known (ext_name e) (hm_keys (ext_dependencies e))
        (fst g, hm_upsert (ext_name e) 0 id (snd g))))) \<subseteq> insert (ext_name e) (set (map fst (snd g)))"
    using degree_keys_add [of known "ext_name e" "hm_keys (ext_dependencies e)"
      "(fst g, hm_upsert (ext_name e) 0 id (snd g))"] unfolding snd_conv keys_upsert by blast
  from subset_trans [OF 2 Un_mono [OF subset_refl this]]
  show ?case by (simp del: set_map)
qed simp

lemma kahn_start:
  defines "E \<equiv> \<lambda>es. dep_edges (known_names es) es"
  shows "kahn_inv (E es) (known_names es) (seeds (snd (graph_of es))) (snd (graph_of es)) []"
    and "neighbors (fst (graph_of es)) n = out_edges (E es) n"
proof -
  note g = build_graph_edges [where known = "known_names es" and es = es and g = "([], [])",
      folded graph_of_def]
  show "neighbors (fst (graph_of es)) n = out_edges (E es) n"
    using g(1) by (simp add: E_def neighbors_def)
  have deg: "map_of (snd (graph_of es)) n = Some (in_count (E es) n)" if "n \<in> set (known_names es)" for n
    using g(2) [of n] g(3) [of n] that by (auto simp: degree_def E_def split: option.splits)
  have d: "distinct (map fst (snd (graph_of es)))"
    unfolding graph_of_def by (rule distinct_build_graph) simp
  have k: "set (map fst (snd (graph_of es))) \<subseteq> set (known_names es)"
    using degree_keys [of "known_names es" es "([], [])"] by (simp add: graph_of_def)
  have s: "n \<in> set (seeds (snd (graph_of es))) \<longleftrightarrow> map_of (snd (graph_of es)) n = Some 0" for n
    using map_of_eq_Some_iff [OF d] by (force simp: seeds_def)
  have ds: "distinct (seeds (snd (graph_of es)))"
    using d by (simp add: seeds_def distinct_map_filter)
  have sk: "set (seeds (snd (graph_of es))) \<subseteq> set (known_names es)"
    using k by (auto simp: seeds_def)
  show "kahn_inv (E es) (known_names es) (seeds (snd (graph_of es))) (snd (graph_of es)) []"
    unfolding kahn_inv_def using deg s ds sk by (auto simp: open_count_Nil)
qed

text \<open>The emitted order, and what remains: every remaining name has a remaining dependency.\<close>

lemma kahn_order_returns:
  "\<exists>order. kahn_order es = Some (Ret order) \<and> distinct order \<and> set order \<subseteq> set (known_names es)
    \<and> (\<forall>n\<in>set (known_names es). n \<in> set order
         \<longleftrightarrow> (\<forall>d. (d, n) \<in> set (dep_edges (known_names es) es) \<longrightarrow> d \<in> set order))
    \<and> (\<forall>xs n ys d. order = xs @ n # ys \<and> (d, n) \<in> set (dep_edges (known_names es) es) \<longrightarrow> d \<in> set xs)"
proof -
  let ?E = "dep_edges (known_names es) es"
  have E: "\<forall>(d, m)\<in>set ?E. m \<in> set (known_names es)"
    using dep_edges_known by blast
  obtain deg' order where
    k: "kahn (Suc (length (known_names es))) (fst (graph_of es)) (seeds (snd (graph_of es)))
        (snd (graph_of es)) [] = Some (Ret order)"
    and inv: "kahn_inv ?E (known_names es) [] deg' order"
    using kahn_total [OF kahn_start(1) kahn_start(2) E, of "Suc (length (known_names es))"]
    by auto
  have "kahn_order es = Some (Ret order)"
    using k by (cases "graph_of es") (simp add: kahn_order_def)
  with inv show ?thesis
    unfolding kahn_inv_def by (intro exI [of _ order]) (auto simp: open_count_0)
qed

section \<open>The cycle search is total and reports cycles\<close>

definition is_cycle :: "dep_adj \<Rightarrow> string list \<Rightarrow> bool" where
  "is_cycle adj c = (2 \<le> length c \<and> hd c = last c
     \<and> successively (\<lambda>a b. b \<in> set (neighbors adj a)) c)"

text \<open>The path is a chain of dependencies, on the stack and visited; what is reported is a cycle.\<close>

definition dfs_ok :: "dep_adj \<Rightarrow> dfs_state \<Rightarrow> bool" where
  "dfs_ok adj s = (successively (\<lambda>a b. b \<in> set (neighbors adj a)) (dfs_path s)
     \<and> set (on_stack s) = set (dfs_path s) \<and> distinct (dfs_path s)
     \<and> set (dfs_path s) \<subseteq> set (visited s) \<and> (\<forall>c\<in>set (dfs_cycles s). is_cycle adj c))"

definition dfs_grows :: "dfs_state \<Rightarrow> dfs_state \<Rightarrow> bool" where
  "dfs_grows s s' = (dfs_path s' = dfs_path s \<and> set (visited s) \<subseteq> set (visited s')
     \<and> (\<exists>cs. dfs_cycles s' = dfs_cycles s @ cs))"

lemma dfs_grows_refl [simp]: "dfs_grows s s"
  by (simp add: dfs_grows_def)

lemma dfs_grows_trans: "dfs_grows s t \<Longrightarrow> dfs_grows t u \<Longrightarrow> dfs_grows s u"
  by (auto simp: dfs_grows_def)

lemma close_cycle_ok:
  assumes ok: "dfs_ok adj s" and p: "dfs_path s \<noteq> []"
    and x: "x \<in> set (neighbors adj (last (dfs_path s)))"
  shows "dfs_ok adj (close_cycle x s)" and "dfs_grows s (close_cycle x s)"
    and "x \<in> set (dfs_path s) \<Longrightarrow> dfs_cycles (close_cycle x s) \<noteq> []"
proof -
  let ?d = "dropWhile (\<lambda>y. y \<noteq> x) (dfs_path s)"
  have "is_cycle adj (?d @ [x])" if xp: "x \<in> set (dfs_path s)"
  proof -
    have d: "?d \<noteq> []" "hd ?d = x"
      using xp by (simp_all add: dropWhile_eq_Nil_conv) (metis (mono_tags) dropWhile_eq_Nil_conv hd_dropWhile)
    have "last ?d = last (dfs_path s)"
      using d(1) by (metis last_appendR takeWhile_dropWhile_id)
    moreover have "successively (\<lambda>a b. b \<in> set (neighbors adj a)) ?d"
      using ok unfolding dfs_ok_def
      by (metis (no_types, lifting) successively_append_iff takeWhile_dropWhile_id)
    ultimately show ?thesis
      using d x by (auto simp: is_cycle_def successively_append_iff Suc_le_eq)
  qed
  then show "dfs_ok adj (close_cycle x s)"
    using ok by (auto simp: dfs_ok_def close_cycle_def)
  show "dfs_grows s (close_cycle x s)"
    by (auto simp: dfs_grows_def close_cycle_def)
  show "x \<in> set (dfs_path s) \<Longrightarrow> dfs_cycles (close_cycle x s) \<noteq> []"
    using ok by (simp add: close_cycle_def dfs_ok_def)
qed

lemma enter_ok:
  assumes "dfs_ok adj s" "n \<notin> set (visited s)"
    and "dfs_path s = [] \<or> n \<in> set (neighbors adj (last (dfs_path s)))"
  shows "dfs_ok adj (enter n s)" and "dfs_path (enter n s) = dfs_path s @ [n]"
  using assms by (auto simp: dfs_ok_def enter_def successively_append_iff)

lemma leave_ok:
  assumes "dfs_ok adj s" "dfs_path s = p @ [n]"
  shows "dfs_ok adj (leave n s)"
  using assms by (auto simp: dfs_ok_def leave_def successively_append_iff)

lemma dfs_preserves:
  "dfs f adj n s = Some s' \<Longrightarrow> dfs_ok adj s \<Longrightarrow> n \<notin> set (visited s)
    \<Longrightarrow> dfs_path s = [] \<or> n \<in> set (neighbors adj (last (dfs_path s)))
    \<Longrightarrow> dfs_ok adj s' \<and> dfs_grows s s' \<and> n \<in> set (visited s')"
  "dfs_edges f adj xs s = Some s' \<Longrightarrow> dfs_ok adj s \<Longrightarrow> dfs_path s \<noteq> []
    \<Longrightarrow> set xs \<subseteq> set (neighbors adj (last (dfs_path s)))
    \<Longrightarrow> dfs_ok adj s' \<and> dfs_grows s s'"
proof (induction f adj n s and f adj xs s arbitrary: s' and s' rule: dfs_dfs_edges.induct)
  case (2 f adj n s)
  obtain t where t: "dfs_edges f adj (neighbors adj n) (enter n s) = Some t" "s' = leave n t"
    using 2(2) by (auto split: bind_splits)
  have e: "dfs_ok adj (enter n s)" "dfs_path (enter n s) = dfs_path s @ [n]"
    using enter_ok [OF 2(3,4,5)] .
  have "dfs_ok adj t \<and> dfs_grows (enter n s) t"
    by (rule 2(1) [OF t(1) e(1)]) (simp_all add: e(2))
  then show ?case
    using leave_ok [of adj t "dfs_path s" n] e(2) unfolding t(2)
    by (auto simp: dfs_grows_def enter_def leave_def)
next
  case (4 f adj x xs s)
  show ?case
  proof (cases "x \<in> set (visited s)")
    case False
    then obtain t where t: "dfs f adj x s = Some t" "dfs_edges f adj xs t = Some s'"
      using 4(4) by (auto split: bind_splits)
    have "dfs_ok adj t \<and> dfs_grows s t \<and> x \<in> set (visited t)"
      using 4(1) [OF False t(1) 4(5) False] 4(7) by auto
    moreover from this have "dfs_path t = dfs_path s" by (simp add: dfs_grows_def)
    ultimately show ?thesis
      using 4(2) [OF False t(1) t(2)] 4(6,7) dfs_grows_trans by auto
  next
    case True
    have x: "x \<in> set (neighbors adj (last (dfs_path s)))" using 4(7) by simp
    note c = close_cycle_ok [OF 4(5,6) x]
    have "dfs_path (close_cycle x s) = dfs_path s" using c(2) by (simp add: dfs_grows_def)
    then show ?thesis
      using 4(3) [of s'] True 4(4,6,7) c dfs_grows_trans by auto
  qed
qed auto

text \<open>Fuel for the names not yet visited is enough.\<close>

lemma dfs_total:
  assumes R: "finite R" "\<And>n. set (neighbors adj n) \<subseteq> R"
  shows "n \<in> R \<Longrightarrow> n \<notin> set (visited s) \<Longrightarrow> card (R - set (visited s)) \<le> f
      \<Longrightarrow> \<exists>s'. dfs f adj n s = Some s' \<and> set (visited s) \<subseteq> set (visited s')"
    and "set xs \<subseteq> R \<Longrightarrow> card (R - set (visited s)) \<le> f
      \<Longrightarrow> \<exists>s'. dfs_edges f adj xs s = Some s' \<and> set (visited s) \<subseteq> set (visited s')"
  using R
proof (induction f adj n s and f adj xs s rule: dfs_dfs_edges.induct)
  case (1 adj n s)
  then show ?case by auto
next
  case (2 f adj n s)
  have "R - set (visited (enter n s)) = (R - set (visited s)) - {n}"
    by (auto simp: enter_def)
  then have "card (R - set (visited (enter n s))) \<le> f"
    using 2(2-5) by (simp add: card_Diff_singleton)
  with 2 obtain t where "dfs_edges f adj (neighbors adj n) (enter n s) = Some t"
    "set (visited (enter n s)) \<subseteq> set (visited t)" by blast
  then show ?case by (auto simp: enter_def leave_def)
next
  case (4 f adj x xs s)
  show ?case
  proof (cases "x \<in> set (visited s)")
    case False
    obtain t where t: "dfs f adj x s = Some t" "set (visited s) \<subseteq> set (visited t)"
      using 4(1) [OF False] 4(4-7) False by auto
    have "card (R - set (visited t)) \<le> card (R - set (visited s))"
      using t(2) R(1) by (intro card_mono) auto
    then have "\<exists>s'. dfs_edges f adj xs t = Some s' \<and> set (visited t) \<subseteq> set (visited s')"
      using 4(2) [OF False t(1)] 4(4-7) by auto
    with t False show ?thesis by auto
  next
    case True
    have "visited (close_cycle x s) = visited s" by (simp add: close_cycle_def)
    with 4(3) True 4(4-7) show ?thesis by auto
  qed
qed auto

text \<open>While no name is finished, the search runs into its own path.\<close>

lemma dfs_finds:
  assumes "dfs f adj n s = Some s'" "dfs_ok adj s" "n \<notin> set (visited s)"
    and "dfs_path s = [] \<or> n \<in> set (neighbors adj (last (dfs_path s)))"
    and "set (visited s) = set (dfs_path s)" and "n \<in> R"
    and R: "\<And>m. m \<in> R \<Longrightarrow> neighbors adj m \<noteq> [] \<and> set (neighbors adj m) \<subseteq> R"
  shows "dfs_cycles s' \<noteq> []"
  using assms(1-6)
proof (induction f arbitrary: n s s')
  case 0
  then show ?case by simp
next
  case (Suc f)
  obtain x xs where nb: "neighbors adj n = x # xs" "x \<in> R"
    using R [OF Suc.prems(6)] by (cases "neighbors adj n") auto
  obtain t where t: "dfs_edges f adj (x # xs) (enter n s) = Some t" "s' = leave n t"
    using Suc.prems(1) nb by (auto split: bind_splits)
  note e = enter_ok [OF Suc.prems(2,3,4)]
  have v: "set (visited (enter n s)) = set (dfs_path (enter n s))"
    using Suc.prems(5) by (simp add: enter_def)
  have l: "x \<in> set (neighbors adj (last (dfs_path (enter n s))))"
    "set xs \<subseteq> set (neighbors adj (last (dfs_path (enter n s))))"
    using nb e(2) by auto
  have "\<exists>u. dfs_edges f adj xs u = Some t \<and> dfs_ok adj u \<and> dfs_path u = dfs_path (enter n s)
    \<and> dfs_cycles u \<noteq> []"
  proof (cases "x \<in> set (visited (enter n s))")
    case True
    have "x \<in> set (dfs_path (enter n s))" using True v by simp
    then show ?thesis
      using close_cycle_ok [OF e(1) _ l(1)] e(2) t(1) True
      by (intro exI [of _ "close_cycle x (enter n s)"]) (auto simp: dfs_grows_def)
  next
    case False
    then obtain u where u: "dfs f adj x (enter n s) = Some u" "dfs_edges f adj xs u = Some t"
      using t(1) by (auto split: bind_splits)
    have "dfs_cycles u \<noteq> []"
      by (rule Suc.IH [OF u(1) e(1) False _ v nb(2)]) (use l(1) in simp)
    with dfs_preserves(1) [OF u(1) e(1) False] l(1) u(2) show ?thesis
      by (auto simp: dfs_grows_def)
  qed
  then obtain u where u: "dfs_edges f adj xs u = Some t" "dfs_ok adj u"
    "dfs_path u = dfs_path (enter n s)" "dfs_cycles u \<noteq> []" by blast
  have "dfs_grows u t"
    using dfs_preserves(2) [OF u(1,2)] u(3) e(2) l(2) by auto
  with u(4) t(2) show ?case by (auto simp: dfs_grows_def leave_def)
qed

lemma map_of_fold_insert:
  "map_of (fold (\<lambda>e m. hm_insert (k e) (v e) m) es m0) n
    = (case map_of (rev (map (\<lambda>e. (k e, v e)) es)) n of None \<Rightarrow> map_of m0 n | Some x \<Rightarrow> Some x)"
  by (induction es arbitrary: m0) (auto split: option.splits)

lemma neighbors_cycle_adj:
  "neighbors (cycle_adj es R) n = [] \<or> (\<exists>e\<in>set es. ext_name e = n \<and> n \<in> set R
    \<and> neighbors (cycle_adj es R) n = sort (filter (\<lambda>d. d \<in> set R) (hm_keys (ext_dependencies e))))"
  unfolding neighbors_def cycle_adj_def map_of_fold_insert
  by (auto split: option.splits dest!: map_of_SomeD)

lemma neighbors_cycle_adj_distinct:
  assumes "distinct (map ext_name es)" "e \<in> set es" "ext_name e \<in> set R"
  shows "neighbors (cycle_adj es R) (ext_name e)
    = sort (filter (\<lambda>d. d \<in> set R) (hm_keys (ext_dependencies e)))"
proof -
  let ?l = "map (\<lambda>e. (ext_name e, sort (filter (\<lambda>d. d \<in> set R) (hm_keys (ext_dependencies e)))))
    (filter (\<lambda>e. ext_name e \<in> set R) es)"
  have d: "distinct (map fst ?l)"
    using assms(1) by (simp add: comp_def distinct_map_filter)
  have "map_of (rev ?l) (ext_name e) = Some (sort (filter (\<lambda>d. d \<in> set R) (hm_keys (ext_dependencies e))))"
    using assms(2,3) by (intro map_of_is_SomeI) (use d in \<open>auto simp: rev_map [symmetric]\<close>)
  then show ?thesis
    by (simp add: neighbors_def cycle_adj_def map_of_fold_insert)
qed

lemma dfs_all_total:
  assumes R: "finite R" "\<And>n. set (neighbors adj n) \<subseteq> R" and "set ns \<subseteq> R"
    and "card (R - set (visited s)) \<le> f" and "dfs_ok adj s" "dfs_path s = []"
  shows "\<exists>s'. dfs_all f adj ns s = Some s' \<and> dfs_ok adj s' \<and> dfs_grows s s'"
  using assms(3-)
proof (induction ns arbitrary: s)
  case Nil
  then show ?case by simp
next
  case (Cons n ns)
  show ?case
  proof (cases "n \<in> set (visited s)")
    case True
    with Cons show ?thesis by simp
  next
    case False
    obtain t where t: "dfs f adj n s = Some t"
      using dfs_total(1) [OF R _ False Cons.prems(2)] Cons.prems(1) by auto
    have p: "dfs_ok adj t \<and> dfs_grows s t \<and> n \<in> set (visited t)"
      by (rule dfs_preserves(1) [OF t Cons.prems(3) False]) (simp add: Cons.prems(4))
    then have "R - set (visited t) \<subseteq> R - set (visited s)"
      by (auto simp: dfs_grows_def)
    then have "card (R - set (visited t)) \<le> f"
      using Cons.prems(2) R(1) card_mono [of "R - set (visited s)" "R - set (visited t)"]
      by simp
    then obtain s' where "dfs_all f adj ns t = Some s'" "dfs_ok adj s'" "dfs_grows t s'"
      using Cons.IH [of t] Cons.prems p by (auto simp: dfs_grows_def)
    with t False p show ?thesis using dfs_grows_trans by auto
  qed
qed

lemma find_cycles_returns:
  "\<exists>cs. find_cycles es R = Some cs \<and> (\<forall>c\<in>set cs. is_cycle (cycle_adj es R) c)
    \<and> (R \<noteq> [] \<and> (\<forall>m\<in>set R. neighbors (cycle_adj es R) m \<noteq> []) \<longrightarrow> cs \<noteq> [])"
proof -
  let ?adj = "cycle_adj es R"
  have nb: "set (neighbors ?adj n) \<subseteq> set R" for n
    using neighbors_cycle_adj [of es R n] by auto
  have ok: "dfs_ok ?adj dfs_start" "dfs_path dfs_start = []"
    by (simp_all add: dfs_ok_def dfs_start_def)
  have c: "card (set R - set (visited dfs_start)) \<le> Suc (length R)"
    using card_length [of R] by (simp add: dfs_start_def)
  obtain s where s: "dfs_all (Suc (length R)) ?adj (sort R) dfs_start = Some s" "dfs_ok ?adj s"
    using dfs_all_total [OF _ nb _ c ok, of "sort R"] by auto
  have "dfs_cycles s \<noteq> []" if "R \<noteq> []" and full: "\<forall>m\<in>set R. neighbors ?adj m \<noteq> []"
  proof -
    have "sort R \<noteq> []" using that(1) by (metis set_empty set_sort)
    then obtain n ns where ns: "sort R = n # ns" by (cases "sort R") auto
    then have n: "n \<in> set R" "set ns \<subseteq> set R"
      using set_sort [of "\<lambda>x. x" R] by auto
    then obtain t where t: "dfs (Suc (length R)) ?adj n dfs_start = Some t"
      "dfs_all (Suc (length R)) ?adj ns t = Some s"
      using s(1) ns by (auto simp: dfs_start_def split: bind_splits)
    have v: "n \<notin> set (visited dfs_start)" "set (visited dfs_start) = set (dfs_path dfs_start)"
      by (simp_all add: dfs_start_def)
    have "dfs_cycles t \<noteq> []"
      by (rule dfs_finds [OF t(1) ok(1) v(1) _ v(2) n(1)]) (use full nb ok(2) in auto)
    moreover have p: "dfs_ok ?adj t \<and> dfs_grows dfs_start t"
      using dfs_preserves(1) [OF t(1) ok(1) v(1)] ok(2) by blast
    moreover have "card (set R - set (visited t)) \<le> Suc (length R)"
      using card_mono [of "set R" "set R - set (visited t)"] card_length [of R] by auto
    then obtain s' where "dfs_all (Suc (length R)) ?adj ns t = Some s'" "dfs_grows t s'"
      using dfs_all_total [of "set R" ?adj ns t "Suc (length R)"] nb n p ok(2)
      by (auto simp: dfs_grows_def dest: arg_cong [where f = set])
    ultimately show ?thesis using t(2) by (auto simp: dfs_grows_def)
  qed
  with s show ?thesis
    by (auto simp: find_cycles_def dfs_ok_def)
qed

text \<open>A reported cycle is one of dependencies between installed extensions.\<close>

lemma cycle_adj_edge:
  assumes "b \<in> set (neighbors (cycle_adj es R) a)"
  shows "\<exists>e\<in>set es. ext_name e = a \<and> b \<in> set (hm_keys (ext_dependencies e)) \<and> a \<in> set R \<and> b \<in> set R"
  using assms neighbors_cycle_adj [of es R a] by auto

lemma remaining_neighbors:
  assumes d: "distinct (map ext_name es)"
    and o: "\<forall>n\<in>set (known_names es). n \<in> set order
         \<longleftrightarrow> (\<forall>d. (d, n) \<in> set (dep_edges (known_names es) es) \<longrightarrow> d \<in> set order)"
    and m: "m \<in> set (remaining_names es order)"
  shows "neighbors (cycle_adj es (remaining_names es order)) m \<noteq> []"
proof -
  have k: "m \<in> set (known_names es)" "m \<notin> set order"
    using m by (auto simp: remaining_names_def)
  then obtain d' where d': "(d', m) \<in> set (dep_edges (known_names es) es)" "d' \<notin> set order"
    using o by blast
  then obtain e where e: "e \<in> set es" "m = ext_name e" "d' \<in> set (hm_keys (ext_dependencies e))"
    "d' \<in> set (known_names es)"
    by (auto simp: dep_edges_def)
  have "d' \<in> set (remaining_names es order)"
    using d'(2) e(4) by (simp add: remaining_names_def)
  then have "d' \<in> set (neighbors (cycle_adj es (remaining_names es order)) m)"
    using neighbors_cycle_adj_distinct [OF d e(1)] m e by simp
  then show ?thesis by auto
qed

end
