(* ===== verification/Ext_Properties.thy ===== *)
theory Ext_Properties
  imports Ext_Dependency
begin

text \<open>
  The properties of the dependency check: it always ends with a result, its load order respects the
  dependencies, and it reports a cycle exactly when the dependency relation has one.
\<close>

lemma topological_order_returns:
  obtains order cycles where
    "compute_topological_order es = Some (Ret (order @ sort (remaining_names es order), cycles))"
    "distinct order" "set order \<subseteq> set (known_names es)"
    "\<forall>n\<in>set (known_names es). n \<in> set order
       \<longleftrightarrow> (\<forall>d. (d, n) \<in> set (dep_edges (known_names es) es) \<longrightarrow> d \<in> set order)"
    "\<forall>xs n ys d. order = xs @ n # ys \<and> (d, n) \<in> set (dep_edges (known_names es) es) \<longrightarrow> d \<in> set xs"
    "if remaining_names es order = [] then cycles = []
      else find_cycles es (remaining_names es order) = Some cycles"
proof -
  obtain order where o: "kahn_order es = Some (Ret order)" "distinct order"
    "set order \<subseteq> set (known_names es)"
    "\<forall>n\<in>set (known_names es). n \<in> set order
       \<longleftrightarrow> (\<forall>d. (d, n) \<in> set (dep_edges (known_names es) es) \<longrightarrow> d \<in> set order)"
    "\<forall>xs n ys d. order = xs @ n # ys \<and> (d, n) \<in> set (dep_edges (known_names es) es) \<longrightarrow> d \<in> set xs"
    using kahn_order_returns [of es] by (elim exE conjE)
  obtain cs where cs: "find_cycles es (remaining_names es order) = Some cs"
    using find_cycles_returns by blast
  show ?thesis
  proof (cases "remaining_names es order = []")
    case True
    then show ?thesis
      using that [of order "[]"] o by (simp add: compute_topological_order_def Let_def)
  next
    case False
    then show ?thesis
      using that [of order cs] o cs by (simp add: compute_topological_order_def Let_def)
  qed
qed

text \<open>C20. The dependency check ends with a result for every set of extensions: neither the loop over
the queue nor the search for cycles runs forever, no counter goes below zero and no entry is
missing.\<close>

theorem dependency_check_terminates:
  "\<exists>v. validate_dependencies V es = Some (Ret v)"
  by (rule topological_order_returns [of es]) (simp add: validate_dependencies_def Let_def)

text \<open>C19. The load order lists every installed extension once: first, each after all its installed
dependencies, those that can be ordered; then in alphabetical order those that cannot, each of which
has a dependency among them.\<close>

theorem load_order_respects_dependencies:
  assumes "compute_topological_order es = Some (Ret (load, cycles))"
  shows "distinct load \<and> set load = ext_name ` set es
    \<and> (\<exists>ordered rest. load = ordered @ rest \<and> sorted rest
        \<and> (\<forall>xs n ys e d. ordered = xs @ n # ys \<and> e \<in> set es \<and> ext_name e = n
             \<and> d \<in> set (hm_keys (ext_dependencies e)) \<and> d \<in> ext_name ` set es \<longrightarrow> d \<in> set xs)
        \<and> (\<forall>n\<in>set rest. \<exists>e\<in>set es. ext_name e = n
             \<and> (\<exists>d\<in>set (hm_keys (ext_dependencies e)). d \<in> set rest)))"
proof (rule topological_order_returns [of es])
  fix order cs
  let ?rest = "sort (remaining_names es order)"
  assume c: "compute_topological_order es = Some (Ret (order @ ?rest, cs))"
    and o: "distinct order" "set order \<subseteq> set (known_names es)"
    and mem: "\<forall>n\<in>set (known_names es). n \<in> set order
       \<longleftrightarrow> (\<forall>d. (d, n) \<in> set (dep_edges (known_names es) es) \<longrightarrow> d \<in> set order)"
    and ord: "\<forall>xs n ys d. order = xs @ n # ys \<and> (d, n) \<in> set (dep_edges (known_names es) es) \<longrightarrow> d \<in> set xs"
  have load: "load = order @ ?rest" using assms c by simp
  have edge: "(d, ext_name e) \<in> set (dep_edges (known_names es) es)"
    if "e \<in> set es" "d \<in> set (hm_keys (ext_dependencies e))" "d \<in> ext_name ` set es" for e d
    using that by (force simp: dep_edges_def)
  have rest: "\<exists>e\<in>set es. ext_name e = n \<and> (\<exists>d\<in>set (hm_keys (ext_dependencies e)). d \<in> set ?rest)"
    if "n \<in> set ?rest" for n
  proof -
    have "n \<in> set (known_names es)" "n \<notin> set order"
      using that by (simp_all add: remaining_names_def)
    then obtain d where d: "(d, n) \<in> set (dep_edges (known_names es) es)" "d \<notin> set order"
      using mem by blast
    then have "d \<in> set ?rest"
      using dep_edges_known by (auto simp: remaining_names_def simp del: known_names_set)
    with d(1) show ?thesis by (fastforce simp: dep_edges_def)
  qed
  have dist: "distinct load" "set load = ext_name ` set es"
    using o by (auto simp: load remaining_names_def)
  have before: "d \<in> set xs" if "order = xs @ n # ys \<and> e \<in> set es \<and> ext_name e = n
      \<and> d \<in> set (hm_keys (ext_dependencies e)) \<and> d \<in> ext_name ` set es" for xs n ys e d
  proof -
    have "(d, n) \<in> set (dep_edges (known_names es) es)" using edge [of e d] that by simp
    with ord that show ?thesis by blast
  qed
  have "\<exists>ordered rest. load = ordered @ rest \<and> sorted rest
        \<and> (\<forall>xs n ys e d. ordered = xs @ n # ys \<and> e \<in> set es \<and> ext_name e = n
             \<and> d \<in> set (hm_keys (ext_dependencies e)) \<and> d \<in> ext_name ` set es \<longrightarrow> d \<in> set xs)
        \<and> (\<forall>n\<in>set rest. \<exists>e\<in>set es. ext_name e = n
             \<and> (\<exists>d\<in>set (hm_keys (ext_dependencies e)). d \<in> set rest))"
    by (rule exI [of _ order], rule exI [of _ ?rest], intro conjI allI impI ballI)
      (rule load, simp, erule before, erule rest)
  with dist show ?thesis by blast
qed

definition demo_ext :: "string \<Rightarrow> string list \<Rightarrow> loaded_extension" where
  "demo_ext n ds = \<lparr>ext_name = n, ext_version = ''1.0.0'',
     ext_dependencies = map (\<lambda>d. (d, ''1.0.0'')) ds\<rparr>"

theorem load_order_respects_dependencies_witness:
  "compute_topological_order [demo_ext ''b'' [''a''], demo_ext ''a'' []] = Some (Ret ([''a'', ''b''], []))
    \<and> distinct [''a'', ''b'']"
proof -
  have c: "compute_topological_order [demo_ext ''b'' [''a''], demo_ext ''a'' []]
      = Some (Ret ([''a'', ''b''], []))"
    by code_simp
  from load_order_respects_dependencies [OF c] c show ?thesis by blast
qed

lemma order_acyclic:
  assumes "\<forall>xs n ys d. order = xs @ n # ys \<and> (d, n) \<in> E \<longrightarrow> d \<in> set xs"
    and "\<forall>(d, n)\<in>E. n \<in> set order"
  shows "acyclic E"
proof -
  let ?pos = "\<lambda>n. length (takeWhile (\<lambda>x. x \<noteq> n) order)"
  have "?pos d < ?pos n" if "(d, n) \<in> E" for d n
  proof -
    have "n \<in> set order" using assms(2) that by auto
    then obtain xs ys where s: "order = xs @ n # ys" "n \<notin> set xs"
      by (meson split_list_first)
    then have "d \<in> set xs" using assms(1) that by blast
    then have "length (takeWhile (\<lambda>x. x \<noteq> d) xs) < length xs"
      by (induction xs) auto
    moreover have "takeWhile (\<lambda>x. x \<noteq> d) order = takeWhile (\<lambda>x. x \<noteq> d) xs"
      using s(1) \<open>d \<in> set xs\<close> by simp
    moreover have "takeWhile (\<lambda>x. x \<noteq> n) order = xs"
      using s by (auto simp: takeWhile_append)
    ultimately show ?thesis by simp
  qed
  then have "E \<subseteq> measure ?pos" by auto
  then show ?thesis
    using wf_acyclic [OF wf_measure] acyclic_subset by blast
qed

lemma walk_trancl:
  assumes "successively (\<lambda>a b. (b, a) \<in> E) c" "2 \<le> length c"
  shows "(last c, hd c) \<in> E\<^sup>+"
  using assms
proof (induction c rule: induct_list012)
  case (3 x y zs)
  show ?case
  proof (cases zs)
    case Nil
    with 3 show ?thesis by auto
  next
    case (Cons z zs')
    with 3 have "(last (y # zs), y) \<in> E\<^sup>+" by simp
    with 3 show ?thesis by (auto intro: trancl_into_trancl simp: Cons)
  qed
qed auto

text \<open>C18. When the names of the extensions are distinct, the check reports a circular dependency
exactly when the relation between dependency and dependent has a cycle, and every reported list is
a closed walk along dependencies.\<close>

theorem cycles_reported_iff_cyclic:
  assumes d: "distinct (map ext_name es)"
    and c: "compute_topological_order es = Some (Ret (load, cycles))"
  shows "(cycles = [] \<longleftrightarrow> acyclic (set (dep_edges (known_names es) es)))
    \<and> (\<forall>w\<in>set cycles. 2 \<le> length w \<and> hd w = last w
        \<and> successively (\<lambda>a b. (b, a) \<in> set (dep_edges (known_names es) es)) w)"
proof (rule topological_order_returns [of es])
  fix order cs
  let ?E = "set (dep_edges (known_names es) es)" and ?rest = "remaining_names es order"
  assume r: "compute_topological_order es = Some (Ret (order @ sort ?rest, cs))"
    and o: "set order \<subseteq> set (known_names es)"
    and mem: "\<forall>n\<in>set (known_names es). n \<in> set order \<longleftrightarrow> (\<forall>d. (d, n) \<in> ?E \<longrightarrow> d \<in> set order)"
    and ord: "\<forall>xs n ys d. order = xs @ n # ys \<and> (d, n) \<in> ?E \<longrightarrow> d \<in> set xs"
    and f: "if ?rest = [] then cs = [] else find_cycles es ?rest = Some cs"
  have cs: "cycles = cs" using r c by simp
  have edge: "(b, a) \<in> ?E" if "b \<in> set (neighbors (cycle_adj es ?rest) a)" for a b
    using cycle_adj_edge [OF that] by (force simp: dep_edges_def remaining_names_def)
  have walks: "2 \<le> length w \<and> hd w = last w \<and> successively (\<lambda>a b. (b, a) \<in> ?E) w" if "w \<in> set cs" for w
  proof -
    have "is_cycle (cycle_adj es ?rest) w"
      using f find_cycles_returns [of es ?rest] that by (auto split: if_splits)
    then show ?thesis
      using edge by (auto simp: is_cycle_def intro: successively_mono)
  qed
  have "acyclic ?E" if "cs = []"
  proof -
    have "?rest = []"
      using f that find_cycles_returns [of es ?rest] remaining_neighbors [OF d mem]
      by (auto split: if_splits)
    then have "\<forall>(d, n)\<in>?E. n \<in> set order"
      using dep_edges_known by (fastforce simp: remaining_names_def filter_empty_conv)
    with ord show ?thesis by (rule order_acyclic)
  qed
  moreover have "\<not> acyclic ?E" if "cs \<noteq> []"
  proof -
    have w: "hd cs \<in> set cs" using that by simp
    from walks [OF w] have "(last (hd cs), hd (hd cs)) \<in> ?E\<^sup>+" "hd (hd cs) = last (hd cs)"
      using walk_trancl by blast+
    then show ?thesis by (auto simp: acyclic_def)
  qed
  ultimately show ?thesis using walks cs by blast
qed

theorem cycles_reported_iff_cyclic_witness:
  "\<not> acyclic (set (dep_edges [''a'', ''b''] [demo_ext ''a'' [''b''], demo_ext ''b'' [''a'']]))"
proof -
  let ?es = "[demo_ext ''a'' [''b''], demo_ext ''b'' [''a'']]"
  have "compute_topological_order ?es = Some (Ret ([''a'', ''b''], [[''a'', ''b'', ''a'']]))"
    by code_simp
  moreover have "distinct (map ext_name ?es)" by code_simp
  ultimately have "[[''a'', ''b'', ''a'']] = [] \<longleftrightarrow> acyclic (set (dep_edges (known_names ?es) ?es))"
    using cycles_reported_iff_cyclic by blast
  then show ?thesis by (simp add: known_names_def demo_ext_def)
qed

text \<open>An extension that only depends on a cycle is not emitted either and is appended with the
cyclic ones, though it is part of no cycle.\<close>

theorem dependents_of_cycles_are_appended:
  "compute_topological_order
      [demo_ext ''a'' [''b''], demo_ext ''b'' [''a''], demo_ext ''c'' [''a''], demo_ext ''d'' []]
    = Some (Ret ([''d'', ''a'', ''b'', ''c''], [[''a'', ''b'', ''a'']]))"
  by code_simp

end
