(* ===== verification/Turn_State.thy ===== *)
theory Turn_State
  imports Rust_Std
begin

text \<open>
  The runtime state of conversations (\<open>aionui-conversation/src/runtime_state.rs\<close>): which turn
  a conversation runs, and whether it is being deleted, cancelled or shut down. The service is
  one mutex around the maps and a \<open>Notify\<close> that wakes the tasks in \<open>wait_until_unclaimed\<close>.

  A mutex is poisoned when a task panics while it holds the guard; every operation has a branch
  for that, so \<open>lock_poisoned\<close> is part of the state and \<open>lock\<close> may fail. \<open>tokio::sync::Notify\<close>
  is the record \<open>notify_lib\<close> of its functions; \<open>notify_laws\<close> states what its documentation
  promises: a future made by \<open>notified()\<close> is completed by every later \<open>notify_waiters\<close>, also
  when it has not been polled yet.

  The second half composes the operations as the tasks of the server do: turns that hold a
  \<open>TurnClaim\<close>, calls of \<open>cancel\<close> and \<open>delete\<close> of \<open>service.rs\<close>, and waiters, interleaved at their
  \<open>await\<close> points.
\<close>

section \<open>Errors\<close>

datatype 'a conversation_error =
    Conv_Not_Found string
  | Conv_Message_Not_Found string
  | Conv_Artifact_Not_Found string
  | Conv_Active_Agent_Not_Found string
  | Conv_Archived string string
  | Conv_Bad_Request string
  | Conv_Busy string
  | Conv_Forbidden string
  | Conv_Not_Found_Reason string
  | Conv_Unauthorized string
  | Conv_Rate_Limited
  | Conv_Bad_Gateway string
  | Conv_Timeout string
  | Conv_Config_Confirmation_Timeout string string string "string option"
  | Conv_Config_Update_In_Progress string string string
  | Conv_Team_Runtime_Required string string
  | Conv_Unprocessable string
  | Conv_Internal string
  | Conv_Workspace_Path_Unavailable string
  | Conv_Workspace_Path_Runtime_Unavailable string
  | Conv_Openclaw_Gateway_Unreachable string
  | Conv_Acp 'a

section \<open>State\<close>

record conv_runtime =
  active_turns :: "(string, string) hmap"
  deleting_conversations :: "string set"
  cancelling_conversations :: "string set"
  shutting_down :: bool

record 'n runtime_service =
  lock_poisoned :: bool
  runtime :: conv_runtime
  release_notify :: 'n

text \<open>A \<open>TurnClaim\<close>; its \<open>Weak\<close> pointer to the service is the argument of the operations that
  upgrade it, \<open>None\<close> when the service is gone.\<close>

record turn_claim =
  claim_conversation :: string
  claim_turn :: string
  claim_released :: bool

datatype lifecycle = Lc_Active | Lc_Deleting | Lc_Cancelling | Lc_Shutting_Down

record 'n notify_lib =
  notified :: "'n \<Rightarrow> nat \<times> 'n"
  notify_waiters :: "'n \<Rightarrow> 'n"
  is_notified :: "'n \<Rightarrow> nat \<Rightarrow> bool"
  is_issued :: "'n \<Rightarrow> nat \<Rightarrow> bool"

definition notify_laws :: "'n notify_lib \<Rightarrow> bool" where
  "notify_laws N \<longleftrightarrow>
     (\<forall>n t n'. notified N n = (t, n') \<longrightarrow> is_issued N n' t
        \<and> (\<forall>u. is_issued N n u \<longrightarrow> is_issued N n' u \<and> (is_notified N n u \<longrightarrow> is_notified N n' u)))
   \<and> (\<forall>n u. is_issued N n u \<longrightarrow> is_issued N (notify_waiters N n) u \<and> is_notified N (notify_waiters N n) u)"

definition lock :: "'n runtime_service \<Rightarrow> unit + conv_runtime" where
  "lock s = (if lock_poisoned s then Inl () else Inr (runtime s))"

definition new_runtime :: conv_runtime where
  "new_runtime = \<lparr>active_turns = [], deleting_conversations = {}, cancelling_conversations = {},
     shutting_down = False\<rparr>"

definition new_runtime_service :: "'n \<Rightarrow> 'n runtime_service" where
  "new_runtime_service n = \<lparr>lock_poisoned = False, runtime = new_runtime, release_notify = n\<rparr>"

section \<open>Operations\<close>

definition is_claimed :: "string \<Rightarrow> 'n runtime_service \<Rightarrow> bool" where
  "is_claimed c s = (case lock s of Inl _ \<Rightarrow> False | Inr st \<Rightarrow> map_of (active_turns st) c \<noteq> None)"

definition active_turn_id_for :: "string \<Rightarrow> 'n runtime_service \<Rightarrow> string option" where
  "active_turn_id_for c s = (case lock s of Inl _ \<Rightarrow> None | Inr st \<Rightarrow> map_of (active_turns st) c)"

definition try_claim_turn ::
  "string \<Rightarrow> string \<Rightarrow> 'n runtime_service \<Rightarrow> ('a conversation_error + turn_claim) \<times> 'n runtime_service" where
  "try_claim_turn c t s =
     (case lock s of
        Inl _ \<Rightarrow> (Inl (Conv_Internal ''conversation runtime state lock poisoned''), s)
      | Inr st \<Rightarrow>
          if shutting_down st then (Inl (Conv_Busy ''conversation runtime is shutting down''), s)
          else if c \<in> deleting_conversations st
          then (Inl (Conv_Busy (''conversation '' @ c @ '' is being deleted'')), s)
          else if map_of (active_turns st) c \<noteq> None
          then (Inl (Conv_Busy (''conversation '' @ c @ '' is already running'')), s)
          else (Inr \<lparr>claim_conversation = c, claim_turn = t, claim_released = False\<rparr>,
                s\<lparr>runtime := st\<lparr>active_turns := hm_insert c t (active_turns st)\<rparr>\<rparr>))"

definition mark_deleting :: "string \<Rightarrow> 'n runtime_service \<Rightarrow> bool \<times> 'n runtime_service" where
  "mark_deleting c s =
     (case lock s of
        Inl _ \<Rightarrow> (False, s)
      | Inr st \<Rightarrow> (map_of (active_turns st) c \<noteq> None,
          s\<lparr>runtime := st\<lparr>deleting_conversations := insert c (deleting_conversations st)\<rparr>\<rparr>))"

definition clear_deleting :: "string \<Rightarrow> 'n runtime_service \<Rightarrow> 'n runtime_service" where
  "clear_deleting c s =
     (case lock s of
        Inl _ \<Rightarrow> s
      | Inr st \<Rightarrow> s\<lparr>runtime := st\<lparr>deleting_conversations := deleting_conversations st - {c}\<rparr>\<rparr>)"

definition is_deleting :: "string \<Rightarrow> 'n runtime_service \<Rightarrow> bool" where
  "is_deleting c s = (case lock s of Inl _ \<Rightarrow> False | Inr st \<Rightarrow> c \<in> deleting_conversations st)"

definition mark_cancelling :: "string \<Rightarrow> 'n runtime_service \<Rightarrow> 'n runtime_service" where
  "mark_cancelling c s =
     (case lock s of
        Inl _ \<Rightarrow> s
      | Inr st \<Rightarrow> s\<lparr>runtime := st\<lparr>cancelling_conversations := insert c (cancelling_conversations st)\<rparr>\<rparr>)"

definition clear_cancelling :: "string \<Rightarrow> 'n runtime_service \<Rightarrow> 'n runtime_service" where
  "clear_cancelling c s =
     (case lock s of
        Inl _ \<Rightarrow> s
      | Inr st \<Rightarrow> s\<lparr>runtime := st\<lparr>cancelling_conversations := cancelling_conversations st - {c}\<rparr>\<rparr>)"

definition is_cancelling :: "string \<Rightarrow> 'n runtime_service \<Rightarrow> bool" where
  "is_cancelling c s = (case lock s of Inl _ \<Rightarrow> False | Inr st \<Rightarrow> c \<in> cancelling_conversations st)"

definition mark_shutting_down :: "'n runtime_service \<Rightarrow> nat \<times> 'n runtime_service" where
  "mark_shutting_down s =
     (case lock s of
        Inl _ \<Rightarrow> (0, s)
      | Inr st \<Rightarrow> (length (active_turns st), s\<lparr>runtime := st\<lparr>shutting_down := True\<rparr>\<rparr>))"

definition is_shutting_down :: "'n runtime_service \<Rightarrow> bool" where
  "is_shutting_down s = (case lock s of Inl _ \<Rightarrow> True | Inr st \<Rightarrow> shutting_down st)"

definition lifecycle_for :: "string \<Rightarrow> 'n runtime_service \<Rightarrow> lifecycle" where
  "lifecycle_for c s =
     (case lock s of
        Inl _ \<Rightarrow> Lc_Shutting_Down
      | Inr st \<Rightarrow>
          if shutting_down st then Lc_Shutting_Down
          else if c \<in> deleting_conversations st then Lc_Deleting
          else if c \<in> cancelling_conversations st then Lc_Cancelling
          else Lc_Active)"

datatype conversation_status = Status_Pending | Status_Running | Status_Finished

datatype runtime_kind = Rk_Idle | Rk_Starting | Rk_Running | Rk_Cancelling | Rk_Waiting_Confirmation

record runtime_summary =
  sum_state :: runtime_kind
  sum_can_send :: bool
  sum_has_task :: bool
  sum_task_status :: "conversation_status option"
  sum_is_processing :: bool
  sum_pending :: nat
  sum_turn_id :: "string option"

definition summary_from_parts ::
  "string \<Rightarrow> conversation_status option \<Rightarrow> bool \<Rightarrow> nat \<Rightarrow> 'n runtime_service \<Rightarrow> runtime_summary" where
  "summary_from_parts c status has_task pending s =
     (let (turn, cancelling) = (case lock s of
            Inl _ \<Rightarrow> (None, False)
          | Inr st \<Rightarrow> (map_of (active_turns st) c, c \<in> cancelling_conversations st));
          claimed = turn \<noteq> None;
          kind = (if 0 < pending then Rk_Waiting_Confirmation
                  else if cancelling then Rk_Cancelling
                  else if claimed \<and> status \<noteq> Some Status_Running then Rk_Starting
                  else if claimed \<or> status = Some Status_Running then Rk_Running
                  else Rk_Idle)
      in \<lparr>sum_state = kind, sum_can_send = (kind = Rk_Idle), sum_has_task = has_task,
          sum_task_status = status, sum_is_processing = (kind \<noteq> Rk_Idle), sum_pending = pending,
          sum_turn_id = turn\<rparr>)"

section \<open>Releasing a claim\<close>

definition service_release ::
  "'n notify_lib \<Rightarrow> string \<Rightarrow> string \<Rightarrow> 'n runtime_service \<Rightarrow> bool \<times> 'n runtime_service" where
  "service_release N c t s =
     (case lock s of
        Inl _ \<Rightarrow> (False, s)
      | Inr st \<Rightarrow>
          if map_of (active_turns st) c = Some t
          then (c \<in> deleting_conversations st,
                s\<lparr>runtime := st\<lparr>active_turns := hm_remove c (active_turns st),
                    deleting_conversations := deleting_conversations st - {c},
                    cancelling_conversations := cancelling_conversations st - {c}\<rparr>,
                  release_notify := notify_waiters N (release_notify s)\<rparr>)
          else (False, s))"

definition release_inner ::
  "'n notify_lib \<Rightarrow> turn_claim \<Rightarrow> 'n runtime_service option
    \<Rightarrow> bool \<times> turn_claim \<times> 'n runtime_service option" where
  "release_inner N k so =
     (if claim_released k then (False, k, so)
      else (case so of
          None \<Rightarrow> (False, k\<lparr>claim_released := True\<rparr>, None)
        | Some s \<Rightarrow> (case service_release N (claim_conversation k) (claim_turn k) s of
            (d, s') \<Rightarrow> (d, k\<lparr>claim_released := True\<rparr>, Some s'))))"

definition release_for_turn ::
  "'n notify_lib \<Rightarrow> string \<Rightarrow> turn_claim \<Rightarrow> 'n runtime_service option
    \<Rightarrow> bool \<times> turn_claim \<times> 'n runtime_service option" where
  "release_for_turn N t k so =
     (if claim_turn k \<noteq> t then (False, k, so) else release_inner N k so)"

end
