(* ===== verification/Turn_World.thy ===== *)
theory Turn_World
  imports Turn_State
begin

text \<open>
  The tasks that share the runtime state of conversations, interleaved: turns that claim a
  conversation and release it (\<open>TurnClaim\<close>, also by \<open>Drop\<close>), the calls of
  \<open>ConversationService::cancel\<close> and \<open>delete\<close> (\<open>service.rs\<close>), which touch the state, await
  something else and touch it again, the tasks in \<open>wait_until_unclaimed\<close>, the shutdown of the
  server and a panic that poisons the lock.
\<close>

section \<open>Tasks\<close>

datatype waiter_phase = Registered nat | Parked nat | Returned

record waiter =
  wt_conversation :: string
  wt_phase :: waiter_phase

text \<open>A call of \<open>cancel\<close> has compared the turn id, or has marked the conversation and awaits
  \<open>agent.cancel()\<close>; a call of \<open>delete\<close> has marked the conversation, remembers \<open>had_active_turn\<close> and
  awaits the hooks and the repository.\<close>

datatype service_call =
    Cancel_Checked string
  | Cancel_Marked string
  | Delete_Marked string bool
  | Call_Done

record 'n turn_world =
  tw_service :: "'n runtime_service"
  tw_claims :: "turn_claim list"
  tw_calls :: "service_call list"
  tw_waiters :: "waiter list"

definition new_turn_world :: "'n \<Rightarrow> 'n turn_world" where
  "new_turn_world n = \<lparr>tw_service = new_runtime_service n, tw_claims = [], tw_calls = [], tw_waiters = []\<rparr>"

definition delete_finished :: "string \<Rightarrow> bool \<Rightarrow> 'n runtime_service \<Rightarrow> 'n runtime_service" where
  "delete_finished c had s = (if had then s else clear_deleting c s)"

section \<open>\<open>wait_until_unclaimed\<close>\<close>

text \<open>One round of the loop: the future is created first, then the claim is looked up, then the
  future is awaited; when it completes the next round begins.\<close>

definition wait_register :: "'n notify_lib \<Rightarrow> 'n runtime_service \<Rightarrow> waiter_phase \<times> 'n runtime_service" where
  "wait_register N s = (case notified N (release_notify s) of
     (tok, n) \<Rightarrow> (Registered tok, s\<lparr>release_notify := n\<rparr>))"

definition wait_check :: "string \<Rightarrow> nat \<Rightarrow> 'n runtime_service \<Rightarrow> waiter_phase" where
  "wait_check c tok s = (if is_claimed c s then Parked tok else Returned)"

section \<open>Steps\<close>

inductive turn_step :: "'n notify_lib \<Rightarrow> 'n turn_world \<Rightarrow> 'n turn_world \<Rightarrow> bool" for N where
  claim: "try_claim_turn c t (tw_service w) = (Inr k :: unit conversation_error + turn_claim, s) \<Longrightarrow>
    turn_step N w (w\<lparr>tw_service := s, tw_claims := tw_claims w @ [k]\<rparr>)"
| release: "i < length (tw_claims w) \<Longrightarrow>
    release_inner N (tw_claims w ! i) (Some (tw_service w)) = (d, k, Some s) \<Longrightarrow>
    turn_step N w (w\<lparr>tw_service := s, tw_claims := (tw_claims w)[i := k]\<rparr>)"
| release_for: "i < length (tw_claims w) \<Longrightarrow>
    release_for_turn N t (tw_claims w ! i) (Some (tw_service w)) = (d, k, Some s) \<Longrightarrow>
    turn_step N w (w\<lparr>tw_service := s, tw_claims := (tw_claims w)[i := k]\<rparr>)"
| cancel_check: "active_turn_id_for c (tw_service w) = Some t \<Longrightarrow>
    turn_step N w (w\<lparr>tw_calls := tw_calls w @ [Cancel_Checked c]\<rparr>)"
| cancel_mark: "i < length (tw_calls w) \<Longrightarrow> tw_calls w ! i = Cancel_Checked c \<Longrightarrow>
    turn_step N w (w\<lparr>tw_service := mark_cancelling c (tw_service w), tw_calls := (tw_calls w)[i := Cancel_Marked c]\<rparr>)"
| cancel_ok: "i < length (tw_calls w) \<Longrightarrow> tw_calls w ! i = Cancel_Marked c \<Longrightarrow>
    turn_step N w (w\<lparr>tw_calls := (tw_calls w)[i := Call_Done]\<rparr>)"
| cancel_failed: "i < length (tw_calls w) \<Longrightarrow> tw_calls w ! i = Cancel_Marked c \<Longrightarrow>
    turn_step N w (w\<lparr>tw_service := clear_cancelling c (tw_service w), tw_calls := (tw_calls w)[i := Call_Done]\<rparr>)"
| delete_mark: "mark_deleting c (tw_service w) = (had, s) \<Longrightarrow>
    turn_step N w (w\<lparr>tw_service := s, tw_calls := tw_calls w @ [Delete_Marked c had]\<rparr>)"
| delete_ok: "i < length (tw_calls w) \<Longrightarrow> tw_calls w ! i = Delete_Marked c had \<Longrightarrow>
    turn_step N w (w\<lparr>tw_service := delete_finished c had (tw_service w), tw_calls := (tw_calls w)[i := Call_Done]\<rparr>)"
| delete_failed: "i < length (tw_calls w) \<Longrightarrow> tw_calls w ! i = Delete_Marked c had \<Longrightarrow>
    turn_step N w (w\<lparr>tw_service := clear_deleting c (tw_service w), tw_calls := (tw_calls w)[i := Call_Done]\<rparr>)"
| shutdown: "mark_shutting_down (tw_service w) = (n, s) \<Longrightarrow> turn_step N w (w\<lparr>tw_service := s\<rparr>)"
| poison: "turn_step N w (w\<lparr>tw_service := (tw_service w)\<lparr>lock_poisoned := True\<rparr>\<rparr>)"
| wait_begin: "wait_register N (tw_service w) = (p, s) \<Longrightarrow>
    turn_step N w (w\<lparr>tw_service := s, tw_waiters := tw_waiters w @ [\<lparr>wt_conversation = c, wt_phase = p\<rparr>]\<rparr>)"
| wait_look: "i < length (tw_waiters w) \<Longrightarrow> wt_phase (tw_waiters w ! i) = Registered tok \<Longrightarrow>
    turn_step N w (w\<lparr>tw_waiters := (tw_waiters w)[i := (tw_waiters w ! i)
      \<lparr>wt_phase := wait_check (wt_conversation (tw_waiters w ! i)) tok (tw_service w)\<rparr>]\<rparr>)"
| wait_wake: "i < length (tw_waiters w) \<Longrightarrow> wt_phase (tw_waiters w ! i) = Parked tok \<Longrightarrow>
    is_notified N (release_notify (tw_service w)) tok \<Longrightarrow> wait_register N (tw_service w) = (p, s) \<Longrightarrow>
    turn_step N w (w\<lparr>tw_service := s, tw_waiters := (tw_waiters w)[i := (tw_waiters w ! i)\<lparr>wt_phase := p\<rparr>]\<rparr>)"

inductive turn_reachable :: "'n notify_lib \<Rightarrow> 'n turn_world \<Rightarrow> bool" for N where
  start: "turn_reachable N (new_turn_world n)"
| step: "turn_reachable N w \<Longrightarrow> turn_step N w w' \<Longrightarrow> turn_reachable N w'"

section \<open>The claims\<close>

text \<open>Every claim not yet released is the registered turn of its conversation, and no two are of
  one conversation. The converse needs a lock that works.\<close>

definition live :: "turn_claim list \<Rightarrow> nat \<Rightarrow> bool" where
  "live ks i \<longleftrightarrow> i < length ks \<and> \<not> claim_released (ks ! i)"

definition claims_ok :: "bool \<Rightarrow> (string, string) hmap \<Rightarrow> turn_claim list \<Rightarrow> bool" where
  "claims_ok poisoned A ks \<longleftrightarrow>
     (\<forall>i. live ks i \<longrightarrow> map_of A (claim_conversation (ks ! i)) = Some (claim_turn (ks ! i)))
   \<and> (\<forall>i j. live ks i \<and> live ks j \<and> claim_conversation (ks ! i) = claim_conversation (ks ! j) \<longrightarrow> i = j)
   \<and> (\<not> poisoned \<longrightarrow> (\<forall>c t. map_of A c = Some t \<longrightarrow>
        (\<exists>i. live ks i \<and> claim_conversation (ks ! i) = c \<and> claim_turn (ks ! i) = t)))"

definition claims_inv :: "'n turn_world \<Rightarrow> bool" where
  "claims_inv w = claims_ok (lock_poisoned (tw_service w)) (active_turns (runtime (tw_service w))) (tw_claims w)"

lemma live_append [simp]: "live (ks @ [k]) i \<longleftrightarrow> live ks i \<or> i = length ks \<and> \<not> claim_released k"
  by (auto simp: live_def nth_append)

lemma live_released [simp]:
  "live (ks[i := (ks ! i)\<lparr>claim_released := True\<rparr>]) j \<longleftrightarrow> live ks j \<and> j \<noteq> i"
  by (cases "j = i") (auto simp: live_def nth_list_update)

lemma live_bound: "live ks i \<Longrightarrow> i < length ks"
  by (simp add: live_def)

lemma claims_ok_poison: "claims_ok p A ks \<Longrightarrow> claims_ok True A ks"
  by (simp add: claims_ok_def)

lemma claims_okD:
  assumes "claims_ok p A ks"
  shows "live ks i \<Longrightarrow> map_of A (claim_conversation (ks ! i)) = Some (claim_turn (ks ! i))"
    and "live ks i \<Longrightarrow> live ks j \<Longrightarrow> claim_conversation (ks ! i) = claim_conversation (ks ! j) \<Longrightarrow> i = j"
    and "\<not> p \<Longrightarrow> map_of A c = Some t \<Longrightarrow> \<exists>i. live ks i \<and> claim_conversation (ks ! i) = c \<and> claim_turn (ks ! i) = t"
  using assms unfolding claims_ok_def by auto

lemma claims_okI:
  assumes "\<And>i. live ks i \<Longrightarrow> map_of A (claim_conversation (ks ! i)) = Some (claim_turn (ks ! i))"
    and "\<And>i j. live ks i \<Longrightarrow> live ks j \<Longrightarrow> claim_conversation (ks ! i) = claim_conversation (ks ! j) \<Longrightarrow> i = j"
    and "\<And>c t. \<not> p \<Longrightarrow> map_of A c = Some t \<Longrightarrow> \<exists>i. live ks i \<and> claim_conversation (ks ! i) = c \<and> claim_turn (ks ! i) = t"
  shows "claims_ok p A ks"
  using assms unfolding claims_ok_def by blast

lemma claims_ok_claim:
  assumes ok: "claims_ok p A ks" and c: "map_of A c = None"
  shows "claims_ok p (hm_insert c t A) (ks @ [\<lparr>claim_conversation = c, claim_turn = t, claim_released = False\<rparr>])"
    (is "claims_ok p _ ?ks")
proof (rule claims_okI)
  have old: "?ks ! i = ks ! i" "claim_conversation (ks ! i) \<noteq> c" if "live ks i" for i
    using claims_okD(1) [OF ok that] c live_bound [OF that] by (auto simp: nth_append)
  have new: "claim_conversation (?ks ! i) = c \<longleftrightarrow> i = length ks" if "live ?ks i" for i
    using that old by auto
  show "map_of (hm_insert c t A) (claim_conversation (?ks ! i)) = Some (claim_turn (?ks ! i))" if "live ?ks i" for i
    using that old claims_okD(1) [OF ok] by auto
  show "i = j" if "live ?ks i" "live ?ks j" "claim_conversation (?ks ! i) = claim_conversation (?ks ! j)" for i j
  proof (cases "i = length ks \<or> j = length ks")
    case True then show ?thesis using that new by metis
  next
    case False then show ?thesis using that old claims_okD(2) [OF ok] by auto
  qed
  show "\<exists>i. live ?ks i \<and> claim_conversation (?ks ! i) = c' \<and> claim_turn (?ks ! i) = t'"
    if p: "\<not> p" and m: "map_of (hm_insert c t A) c' = Some t'" for c' t'
  proof (cases "c' = c")
    case True with m show ?thesis by (intro exI [where x = "length ks"]) simp
  next
    case False
    with m obtain i where "live ks i" "claim_conversation (ks ! i) = c'" "claim_turn (ks ! i) = t'"
      using claims_okD(3) [OF ok p] by auto
    then show ?thesis using old by (intro exI [where x = i]) auto
  qed
qed

lemma claims_ok_release:
  assumes ok: "claims_ok p A ks" and i: "live ks i"
    and A: "A' = (if p then A else hm_remove (claim_conversation (ks ! i)) A)"
  shows "claims_ok p A' (ks[i := (ks ! i)\<lparr>claim_released := True\<rparr>])" (is "claims_ok p A' ?ks")
proof (rule claims_okI)
  have others: "claim_conversation (ks ! j) \<noteq> claim_conversation (ks ! i)" if "live ks j" "j \<noteq> i" for j
    using claims_okD(2) [OF ok] i that by auto
  show "map_of A' (claim_conversation (?ks ! j)) = Some (claim_turn (?ks ! j))" if "live ?ks j" for j
    using that others claims_okD(1) [OF ok] by (auto simp: A)
  show "a = b" if "live ?ks a" "live ?ks b" "claim_conversation (?ks ! a) = claim_conversation (?ks ! b)" for a b
    using that claims_okD(2) [OF ok, of a b] by auto
  show "\<exists>j. live ?ks j \<and> claim_conversation (?ks ! j) = c \<and> claim_turn (?ks ! j) = t"
    if p: "\<not> p" and m: "map_of A' c = Some t" for c t
  proof -
    from p m have "map_of A c = Some t" "c \<noteq> claim_conversation (ks ! i)" by (auto simp: A split: if_splits)
    then obtain j where "live ks j" "claim_conversation (ks ! j) = c" "claim_turn (ks ! j) = t" "j \<noteq> i"
      using claims_okD(3) [OF ok p] by auto
    then show ?thesis by (intro exI [where x = j]) simp
  qed
qed

named_theorems mark_simps \<open>what the operations on the marks leave alone\<close>

lemma active_turns_marks [mark_simps]:
  "active_turns (runtime (mark_cancelling c s)) = active_turns (runtime s)"
  "active_turns (runtime (clear_cancelling c s)) = active_turns (runtime s)"
  "active_turns (runtime (clear_deleting c s)) = active_turns (runtime s)"
  "active_turns (runtime (delete_finished c b s)) = active_turns (runtime s)"
  "mark_deleting c s = (had, s') \<Longrightarrow> active_turns (runtime s') = active_turns (runtime s)"
  "mark_shutting_down s = (n, s') \<Longrightarrow> active_turns (runtime s') = active_turns (runtime s)"
  "wait_register N s = (p, s') \<Longrightarrow> active_turns (runtime s') = active_turns (runtime s)"
  by (auto simp: mark_cancelling_def clear_cancelling_def clear_deleting_def delete_finished_def
      mark_deleting_def mark_shutting_down_def wait_register_def lock_def split: sum.splits if_splits prod.splits)

lemma poisoned_marks [mark_simps]:
  "lock_poisoned (mark_cancelling c s) = lock_poisoned s"
  "lock_poisoned (clear_cancelling c s) = lock_poisoned s"
  "lock_poisoned (clear_deleting c s) = lock_poisoned s"
  "lock_poisoned (delete_finished c b s) = lock_poisoned s"
  "mark_deleting c s = (had, s') \<Longrightarrow> lock_poisoned s' = lock_poisoned s"
  "mark_shutting_down s = (n, s') \<Longrightarrow> lock_poisoned s' = lock_poisoned s"
  "wait_register N s = (p, s') \<Longrightarrow> lock_poisoned s' = lock_poisoned s"
  by (auto simp: mark_cancelling_def clear_cancelling_def clear_deleting_def delete_finished_def
      mark_deleting_def mark_shutting_down_def wait_register_def lock_def split: sum.splits if_splits prod.splits)

lemma notify_marks [mark_simps]:
  "release_notify (mark_cancelling c s) = release_notify s"
  "release_notify (clear_cancelling c s) = release_notify s"
  "release_notify (clear_deleting c s) = release_notify s"
  "release_notify (delete_finished c b s) = release_notify s"
  "mark_deleting c s = (had, s') \<Longrightarrow> release_notify s' = release_notify s"
  "mark_shutting_down s = (n, s') \<Longrightarrow> release_notify s' = release_notify s"
  by (auto simp: mark_cancelling_def clear_cancelling_def clear_deleting_def delete_finished_def
      mark_deleting_def mark_shutting_down_def lock_def split: sum.splits if_splits prod.splits)

lemma try_claim_turn_Inr:
  assumes "try_claim_turn c t s = (Inr k, s')"
  shows "\<not> lock_poisoned s" and "map_of (active_turns (runtime s)) c = None"
    and "k = \<lparr>claim_conversation = c, claim_turn = t, claim_released = False\<rparr>"
    and "s' = s\<lparr>runtime := (runtime s)\<lparr>active_turns := hm_insert c t (active_turns (runtime s))\<rparr>\<rparr>"
    and "\<not> shutting_down (runtime s)" and "c \<notin> deleting_conversations (runtime s)"
  using assms by (auto simp: try_claim_turn_def lock_def split: if_splits)

lemma claims_inv_claim:
  assumes inv: "claims_inv w" and c: "try_claim_turn c t (tw_service w) = (Inr k, s)"
  shows "claims_inv (w\<lparr>tw_service := s, tw_claims := tw_claims w @ [k]\<rparr>)"
  using claims_ok_claim [OF inv [unfolded claims_inv_def] try_claim_turn_Inr(2) [OF c], of t]
  by (simp add: claims_inv_def try_claim_turn_Inr(3,4) [OF c])

lemma claims_inv_release:
  assumes inv: "claims_inv w" and i: "i < length (tw_claims w)"
    and r: "release_inner N (tw_claims w ! i) (Some (tw_service w)) = (d, k, Some s)"
  shows "claims_inv (w\<lparr>tw_service := s, tw_claims := (tw_claims w)[i := k]\<rparr>)"
proof (cases "claim_released (tw_claims w ! i)")
  case True
  with r inv show ?thesis by (auto simp: release_inner_def claims_inv_def)
next
  case False
  let ?k = "tw_claims w ! i" and ?A = "active_turns (runtime (tw_service w))"
  have l: "live (tw_claims w) i" using i False by (simp add: live_def)
  then have a: "map_of ?A (claim_conversation ?k) = Some (claim_turn ?k)"
    using inv unfolding claims_inv_def claims_ok_def by auto
  have "k = ?k\<lparr>claim_released := True\<rparr>"
    using r False by (auto simp: release_inner_def split: prod.splits)
  moreover have "active_turns (runtime s)
      = (if lock_poisoned (tw_service w) then ?A else hm_remove (claim_conversation ?k) ?A)"
    "lock_poisoned s = lock_poisoned (tw_service w)"
    using r False a by (auto simp: release_inner_def service_release_def lock_def split: prod.splits if_splits)
  ultimately show ?thesis
    using claims_ok_release [OF inv [unfolded claims_inv_def] l refl] by (simp add: claims_inv_def)
qed

lemma claims_inv_step:
  assumes "turn_step N w w'" and "claims_inv w"
  shows "claims_inv w'"
  using assms
proof (induction rule: turn_step.induct)
  case (release_for i w t d k s)
  then show ?case
    using claims_inv_release [of w i N d k s] by (auto simp: release_for_turn_def claims_inv_def split: if_splits)
next
  case (poison w)
  then show ?case by (simp add: claims_inv_def claims_ok_poison)
qed (simp_all add: claims_inv_claim claims_inv_release, simp_all add: claims_inv_def mark_simps)

lemma turn_reachable_claims: "turn_reachable N w \<Longrightarrow> claims_inv w"
proof (induction rule: turn_reachable.induct)
  case (start n)
  show ?case
    by (simp add: new_turn_world_def new_runtime_service_def new_runtime_def claims_inv_def claims_ok_def live_def)
qed (rule claims_inv_step)

section \<open>The waiters\<close>

text \<open>A parked waiter that has not been notified waits for a claim that still exists: no release
  comes between its look at the claim and its wait unnoticed.\<close>

definition waiter_ok :: "'n notify_lib \<Rightarrow> 'n runtime_service \<Rightarrow> waiter \<Rightarrow> bool" where
  "waiter_ok N s v = (case wt_phase v of
      Registered tok \<Rightarrow> is_issued N (release_notify s) tok
    | Parked tok \<Rightarrow> is_issued N (release_notify s) tok
        \<and> (\<not> lock_poisoned s \<longrightarrow> is_notified N (release_notify s) tok \<or> is_claimed (wt_conversation v) s)
    | Returned \<Rightarrow> True)"

definition waiters_inv :: "'n notify_lib \<Rightarrow> 'n turn_world \<Rightarrow> bool" where
  "waiters_inv N w \<longleftrightarrow> (\<forall>v \<in> set (tw_waiters w). waiter_ok N (tw_service w) v)"

text \<open>An operation that forgets no future and releases no turn keeps every waiter in order; so does
  one that releases a turn and notifies.\<close>

definition keeps_waiters :: "'n notify_lib \<Rightarrow> 'n runtime_service \<Rightarrow> 'n runtime_service \<Rightarrow> bool" where
  "keeps_waiters N s s' \<longleftrightarrow> (\<forall>v. waiter_ok N s v \<longrightarrow> waiter_ok N s' v)"

lemma keeps_waiters_same:
  assumes "release_notify s' = release_notify s" and "lock_poisoned s \<Longrightarrow> lock_poisoned s'"
    and "\<And>c. is_claimed c s \<Longrightarrow> \<not> lock_poisoned s' \<Longrightarrow> is_claimed c s'"
  shows "keeps_waiters N s s'"
  using assms unfolding keeps_waiters_def waiter_ok_def by (auto split: waiter_phase.splits)

lemma is_claimed_iff: "is_claimed c s \<longleftrightarrow> \<not> lock_poisoned s \<and> map_of (active_turns (runtime s)) c \<noteq> None"
  by (simp add: is_claimed_def lock_def)

lemma keeps_waiters_marks:
  "keeps_waiters N s (mark_cancelling c s)"
  "keeps_waiters N s (clear_cancelling c s)"
  "keeps_waiters N s (clear_deleting c s)"
  "keeps_waiters N s (delete_finished c b s)"
  "mark_deleting c s = (had, s') \<Longrightarrow> keeps_waiters N s s'"
  "mark_shutting_down s = (n, s') \<Longrightarrow> keeps_waiters N s s'"
  "keeps_waiters N s (s\<lparr>lock_poisoned := True\<rparr>)"
  by (rule keeps_waiters_same; simp add: is_claimed_iff mark_simps)+

lemma keeps_waiters_claim:
  assumes "try_claim_turn c t s = (Inr k, s')"
  shows "keeps_waiters N s s'"
  using try_claim_turn_Inr [OF assms] by (intro keeps_waiters_same) (auto simp: is_claimed_iff)

lemma keeps_waiters_register:
  assumes N: "notify_laws N" and r: "wait_register N s = (p, s')"
  shows "keeps_waiters N s s'" and "waiter_ok N s' (v\<lparr>wt_phase := p\<rparr>)"
  using N r unfolding keeps_waiters_def waiter_ok_def notify_laws_def wait_register_def
  by (auto simp: is_claimed_iff split: waiter_phase.splits prod.splits)

lemma keeps_waiters_release:
  assumes N: "notify_laws N" and r: "service_release N c t s = (d, s')"
  shows "keeps_waiters N s s'"
  using N r unfolding keeps_waiters_def waiter_ok_def notify_laws_def service_release_def lock_def
  by (auto split: waiter_phase.splits if_splits)

lemma keeps_waiters_release_inner:
  assumes N: "notify_laws N" and r: "release_inner N k (Some s) = (d, k', Some s')"
  shows "keeps_waiters N s s'"
  using r keeps_waiters_release [OF N] by (auto simp: release_inner_def keeps_waiters_def split: if_splits prod.splits)

lemma keeps_waiters_release_for:
  assumes N: "notify_laws N" and r: "release_for_turn N t k (Some s) = (d, k', Some s')"
  shows "keeps_waiters N s s'"
  using r keeps_waiters_release_inner [OF N] by (auto simp: release_for_turn_def keeps_waiters_def split: if_splits)

lemma keeps_waitersD: "keeps_waiters N s s' \<Longrightarrow> waiter_ok N s v \<Longrightarrow> waiter_ok N s' v"
  by (simp add: keeps_waiters_def)

lemmas waiter_ok_kept = keeps_waiters_marks [THEN keeps_waitersD] keeps_waiters_claim [THEN keeps_waitersD]
  keeps_waiters_release_inner [THEN keeps_waitersD] keeps_waiters_release_for [THEN keeps_waitersD]

lemma waiters_inv_step:
  assumes N: "notify_laws N" and "turn_step N w w'" and "waiters_inv N w"
  shows "waiters_inv N w'"
  using assms(2,3)
proof (induction rule: turn_step.induct)
  case (wait_begin w p s c)
  then show ?case
    using keeps_waiters_register(1) [OF N wait_begin(1)]
      keeps_waiters_register(2) [OF N wait_begin(1), of "\<lparr>wt_conversation = c, wt_phase = p\<rparr>"]
    by (auto simp: waiters_inv_def keeps_waiters_def)
next
  case (wait_look i w tok)
  have "waiter_ok N (tw_service w) (tw_waiters w ! i)"
    using wait_look by (simp add: waiters_inv_def)
  then have "waiter_ok N (tw_service w) ((tw_waiters w ! i)
      \<lparr>wt_phase := wait_check (wt_conversation (tw_waiters w ! i)) tok (tw_service w)\<rparr>)"
    using wait_look(2) by (simp add: waiter_ok_def wait_check_def)
  then show ?case
    using wait_look(3) by (auto simp: waiters_inv_def dest!: set_update_subset_insert [THEN subsetD])
next
  case (wait_wake i w tok p s)
  then show ?case
    using keeps_waiters_register [OF N wait_wake(4)]
    by (auto simp: waiters_inv_def keeps_waiters_def dest!: set_update_subset_insert [THEN subsetD])
qed (auto simp: waiters_inv_def intro: waiter_ok_kept N)

lemma turn_reachable_waiters:
  assumes "notify_laws N"
  shows "turn_reachable N w \<Longrightarrow> waiters_inv N w"
proof (induction rule: turn_reachable.induct)
  case (start n)
  show ?case by (simp add: new_turn_world_def waiters_inv_def)
qed (rule waiters_inv_step [OF assms])

end
