(* ===== verification/Turn_Policy.thy ===== *)
theory Turn_Policy
  imports Turn_State
begin

text \<open>
  What a turn may do, decided from the lifecycle of its conversation and from the outcome of an
  attempt: which writes reach the repository (\<open>runtime_persistence.rs\<close>), whether the system
  responses of an attempt are sent back to the agent (\<open>turn_continuation_policy.rs\<close>), whether a
  failed attempt is repeated (\<open>turn_recovery_policy.rs\<close>) and whether its agent task is evicted
  (\<open>agent_health_policy.rs\<close>); and the outcome itself (\<open>stream_relay.rs\<close>).
\<close>

section \<open>Agents and their errors\<close>

datatype agent_type = Acp | Openclaw_Gateway | Nanobot | Remote | Aionrs | Gemini | Codex

datatype agent_error_code =
    Aionui_Conversation_Busy | Aionui_Stream_Broken | Aionui_State_Inconsistent | Aionui_Permission_Error
  | Aionui_Internal_Error | Workspace_Path_Runtime_Unavailable | User_Agent_Handshake_Failed
  | User_Agent_Handshake_Timeout | User_Agent_Acp_Init_Failed | User_Agent_Protocol_Mismatch
  | User_Agent_Not_Installed | User_Agent_Startup_Failed | User_Agent_Openclaw_Gateway_Unreachable
  | User_Agent_Disconnected | User_Agent_Auth_Required | User_Agent_Session_Not_Found
  | User_Agent_No_Previous_Session | User_Agent_Protocol_Parse_Error | User_Agent_Invalid_Request
  | User_Agent_Resource_Not_Found | User_Agent_Protocol_Error | User_Agent_Command_Not_Found
  | User_Agent_Missing_Env | User_Agent_Unsupported_Method | User_Agent_Invalid_Params
  | User_Llm_Provider_Auth_Failed | User_Llm_Provider_Aws_Sso_Expired | User_Llm_Provider_Permission_Denied
  | User_Llm_Provider_Billing_Required | User_Llm_Provider_Config_Error | User_Llm_Provider_Model_Not_Found
  | User_Llm_Provider_Unsupported_Model | User_Llm_Provider_Endpoint_Not_Found
  | User_Llm_Provider_Invalid_Request | User_Llm_Provider_Invalid_Tool_Schema
  | User_Llm_Provider_Context_Too_Large | User_Llm_Provider_Rate_Limited | User_Llm_Provider_Timeout
  | User_Llm_Provider_Network_Error | User_Llm_Provider_Empty_Response | User_Llm_Provider_Gateway_Error
  | Unknown_Upstream_Error

text \<open>\<open>AgentStreamErrorData\<close>; ownership and resolution are carried along, never looked at.\<close>

record 'x stream_error =
  err_message :: string
  err_code :: "agent_error_code option"
  err_detail :: "string option"
  err_retryable :: "bool option"
  err_rest :: 'x

section \<open>The outcome of an attempt\<close>

datatype relay_terminal =
    Term_Finish
  | Term_Error "agent_error_code option" "bool option"
  | Term_Channel_Closed

fun term_is_error :: "relay_terminal \<Rightarrow> bool" where
  "term_is_error (Term_Error _ _) = True"
| "term_is_error _ = False"

fun term_code :: "relay_terminal \<Rightarrow> agent_error_code option" where
  "term_code (Term_Error c _) = c"
| "term_code _ = None"

fun term_retryable :: "relay_terminal \<Rightarrow> bool option" where
  "term_retryable (Term_Error _ r) = r"
| "term_retryable _ = None"

record 'x attempt_summary =
  saw_visible_output :: bool
  saw_tool_or_side_effect :: bool
  persisted_assistant_output :: bool
  terminal_error :: "'x stream_error option"
  terminal_error_deferred :: bool

definition default_attempt :: "'x attempt_summary" where
  "default_attempt = \<lparr>saw_visible_output = False, saw_tool_or_side_effect = False,
     persisted_assistant_output = False, terminal_error = None, terminal_error_deferred = False\<rparr>"

definition safe_to_auto_replay :: "'x attempt_summary \<Rightarrow> bool" where
  "safe_to_auto_replay a \<longleftrightarrow>
     \<not> saw_visible_output a \<and> \<not> saw_tool_or_side_effect a \<and> \<not> persisted_assistant_output a"

definition merge_attempt :: "'x attempt_summary \<Rightarrow> 'x attempt_summary \<Rightarrow> 'x attempt_summary" where
  "merge_attempt a b =
     \<lparr>saw_visible_output = saw_visible_output a \<or> saw_visible_output b,
      saw_tool_or_side_effect = saw_tool_or_side_effect a \<or> saw_tool_or_side_effect b,
      persisted_assistant_output = persisted_assistant_output a \<or> persisted_assistant_output b,
      terminal_error = (case terminal_error b of None \<Rightarrow> terminal_error a | Some e \<Rightarrow> Some e),
      terminal_error_deferred = terminal_error_deferred a \<or> terminal_error_deferred b\<rparr>"

record 'x relay_outcome =
  system_responses :: "string list"
  outcome_terminal :: relay_terminal
  outcome_attempt :: "'x attempt_summary"

definition default_outcome :: "'x relay_outcome" where
  "default_outcome = \<lparr>system_responses = [], outcome_terminal = Term_Finish, outcome_attempt = default_attempt\<rparr>"

lemma safe_to_auto_replay_merge [simp]:
  "safe_to_auto_replay (merge_attempt a b) \<longleftrightarrow> safe_to_auto_replay a \<and> safe_to_auto_replay b"
  by (auto simp: safe_to_auto_replay_def merge_attempt_def)

section \<open>Writes\<close>

datatype write_kind =
    Wk_User_Message | Wk_Assistant_Text_Create | Wk_Assistant_Text_Flush | Wk_Assistant_Text_Finalize
  | Wk_Assistant_Thinking_Finalize | Wk_Tool_Call_Persist | Wk_Acp_Tool_Call_Persist | Wk_Tool_Group_Persist
  | Wk_Terminal_Finalize | Wk_Conversation_Finished | Wk_Send_Failure_Tip | Wk_Session_Key
  | Wk_Acp_Recovery_Cleanup | Wk_Resolved_Workspace | Wk_Startup_Recovery

datatype write_decision = Write_Allow | Write_Skip lifecycle

definition cancelling_writes :: "write_kind list" where
  "cancelling_writes = [Wk_Assistant_Text_Create, Wk_Assistant_Text_Flush, Wk_Assistant_Text_Finalize,
     Wk_Assistant_Thinking_Finalize, Wk_Tool_Call_Persist, Wk_Acp_Tool_Call_Persist, Wk_Tool_Group_Persist,
     Wk_Terminal_Finalize, Wk_Conversation_Finished]"

fun lifecycle_allows :: "lifecycle \<Rightarrow> write_kind \<Rightarrow> bool" where
  "lifecycle_allows Lc_Active k = True"
| "lifecycle_allows Lc_Deleting k = (k = Wk_User_Message)"
| "lifecycle_allows Lc_Cancelling k = (k \<in> set cancelling_writes)"
| "lifecycle_allows Lc_Shutting_Down k = (k = Wk_User_Message)"

definition decide_write :: "string \<Rightarrow> write_kind \<Rightarrow> 'n runtime_service \<Rightarrow> write_decision" where
  "decide_write c k s = (let l = lifecycle_for c s in if lifecycle_allows l k then Write_Allow else Write_Skip l)"

definition allows :: "string \<Rightarrow> write_kind \<Rightarrow> 'n runtime_service \<Rightarrow> bool" where
  "allows c k s \<longleftrightarrow> decide_write c k s = Write_Allow"

lemma allows_iff: "allows c k s \<longleftrightarrow> lifecycle_allows (lifecycle_for c s) k"
  by (simp add: allows_def decide_write_def Let_def)

section \<open>Continuing\<close>

datatype stop_reason = No_System_Responses | Terminal_Not_Finish | Lifecycle_Not_Active | Limit_Reached

datatype continuation_decision = Continue string nat | Stop stop_reason

definition decide_continuation ::
  "nat \<Rightarrow> nat \<Rightarrow> 'x relay_outcome \<Rightarrow> lifecycle \<Rightarrow> continuation_decision" where
  "decide_continuation max_continuations done_so_far ro l =
     (if l \<noteq> Lc_Active then Stop Lifecycle_Not_Active
      else if term_is_error (outcome_terminal ro) then Stop Terminal_Not_Finish
      else if system_responses ro = [] then Stop No_System_Responses
      else if max_continuations \<le> done_so_far then Stop Limit_Reached
      else Continue (join ''\<newline>'' (system_responses ro)) (done_so_far + 1))"

section \<open>Recovering\<close>

datatype recovery_signal = Compact_Failed | Resume_Failed

datatype kill_reason =
    Kill_Idle_Timeout | Kill_Agent_Error_Recovery | Kill_Team_Mcp_Rebuild | Kill_Team_Deleted
  | Kill_Conversation_Deleted | Kill_User_Cancel_Timeout | Kill_Runtime_Capability_Changed

datatype recovery_decision =
    Recovery_None
  | Auto_Replay_Once kill_reason bool "recovery_signal option"

definition classify_recovery_signal :: "'x relay_outcome \<Rightarrow> recovery_signal option" where
  "classify_recovery_signal ro =
     (case terminal_error (outcome_attempt ro) of
        None \<Rightarrow> None
      | Some e \<Rightarrow>
          (let hay = to_ascii_lowercase (err_message e @ ''\<newline>'' @ (case err_detail e of None \<Rightarrow> '''' | Some d \<Rightarrow> d)) in
           if str_contains hay ''/responses/compact'' \<or> str_contains hay ''remote compact failed'' then Some Compact_Failed
           else if str_contains hay ''session/load'' \<or> str_contains hay ''resume'' then Some Resume_Failed
           else None))"

definition decide_recovery ::
  "agent_type \<Rightarrow> 'x relay_outcome \<Rightarrow> lifecycle \<Rightarrow> bool \<Rightarrow> recovery_decision" where
  "decide_recovery ag ro l already_replayed =
     (if l = Lc_Active \<and> ag = Acp \<and> term_is_error (outcome_terminal ro)
        \<and> term_retryable (outcome_terminal ro) = Some True
        \<and> term_code (outcome_terminal ro) \<noteq> Some User_Llm_Provider_Model_Not_Found
        \<and> safe_to_auto_replay (outcome_attempt ro) \<and> \<not> already_replayed
      then Auto_Replay_Once Kill_Agent_Error_Recovery (safe_to_auto_replay (outcome_attempt ro))
             (classify_recovery_signal ro)
      else Recovery_None)"

section \<open>Evicting\<close>

datatype health_action = Keep_Task | Evict_Acp_Task "agent_error_code option" "bool option" bool

definition decide_health :: "agent_type \<Rightarrow> 'x relay_outcome \<Rightarrow> lifecycle \<Rightarrow> health_action" where
  "decide_health ag ro l =
     (if l \<in> {Lc_Deleting, Lc_Shutting_Down} then Keep_Task
      else if ag \<noteq> Acp \<or> \<not> term_is_error (outcome_terminal ro) then Keep_Task
      else Evict_Acp_Task (term_code (outcome_terminal ro)) (term_retryable (outcome_terminal ro))
             (term_code (outcome_terminal ro) = Some User_Llm_Provider_Model_Not_Found))"

end
