(* ===== verification/Conv_Store.thy ===== *)
theory Conv_Store
  imports Db_Error
begin

text \<open>
  The tables of conversations and messages as the streaming code sees them
  (\<open>IConversationRepository\<close> in \<open>aionui-db/src/repository/conversation.rs\<close>): the interface
  \<open>conv_repo\<close>, its implementation on the tables (\<open>sqlite_conversation.rs\<close>, with the constraints of
  the schema), and the contract \<open>message_store\<close> that the relay relies on. The JSON in the column
  \<open>content\<close> is the value it encodes, of a type left open; \<open>json_patch\<close>, \<open>json_set\<close> and \<open>json_extract\<close>
  of SQLite, which \<open>upsert_message\<close> applies to it, are the two functions of \<open>json_sql\<close>.
\<close>

section \<open>Rows\<close>

record 'c message_row =
  msg_id :: string
  msg_conversation :: string
  msg_msg_id :: "string option"
  msg_type :: string
  msg_content :: 'c
  msg_position :: "string option"
  msg_status :: "string option"
  msg_hidden :: bool
  msg_created_at :: int

record 'c message_update =
  upd_content :: "'c option"
  upd_status :: "string option option"
  upd_hidden :: "bool option"

text \<open>The column \<open>extra\<close>: a JSON object, of whose values only the strings matter, or \<open>None\<close>, a text that
  does not parse.\<close>

datatype extra_value = Extra_Str string | Extra_Other string

type_synonym extra_column = "(string, extra_value) hmap option"

record conversation_row =
  conv_id :: string
  conv_user :: string
  conv_extra :: extra_column
  conv_status :: string
  conv_updated_at :: int

text \<open>\<open>ConversationRowUpdate\<close>, with the columns the turns write; its \<open>extra\<close> is always a JSON object.\<close>

record conversation_update =
  cu_extra :: "(string, extra_value) hmap option"
  cu_status :: "string option"
  cu_updated_at :: "int option"

record 'c conv_db =
  db_conversations :: "conversation_row list"
  db_messages :: "'c message_row list"

record ('c, 'db) conv_repo =
  cr_get :: "string \<Rightarrow> 'db \<Rightarrow> db_error + conversation_row option"
  cr_update_conv :: "string \<Rightarrow> conversation_update \<Rightarrow> 'db \<Rightarrow> (db_error + unit) \<times> 'db"
  cr_insert :: "'c message_row \<Rightarrow> 'db \<Rightarrow> (db_error + unit) \<times> 'db"
  cr_upsert :: "'c message_row \<Rightarrow> 'db \<Rightarrow> (db_error + unit) \<times> 'db"
  cr_update :: "string \<Rightarrow> 'c message_update \<Rightarrow> 'db \<Rightarrow> (db_error + unit) \<times> 'db"
  cr_find :: "string \<Rightarrow> string \<Rightarrow> string \<Rightarrow> 'db \<Rightarrow> db_error + 'c message_row option"

section \<open>The tables\<close>

definition conversation_get :: "string \<Rightarrow> 'c conv_db \<Rightarrow> db_error + conversation_row option" where
  "conversation_get c db = Inr (find (\<lambda>r. conv_id r = c) (db_conversations db))"

definition apply_conversation_update :: "conversation_update \<Rightarrow> conversation_row \<Rightarrow> conversation_row" where
  "apply_conversation_update u r = r
     \<lparr>conv_extra := (case cu_extra u of None \<Rightarrow> conv_extra r | Some m \<Rightarrow> Some m),
      conv_status := (case cu_status u of None \<Rightarrow> conv_status r | Some s \<Rightarrow> s),
      conv_updated_at := (case cu_updated_at u of None \<Rightarrow> conv_updated_at r | Some t \<Rightarrow> t)\<rparr>"

definition update_conversation :: "string \<Rightarrow> conversation_update \<Rightarrow> 'c conv_db \<Rightarrow> (db_error + unit) \<times> 'c conv_db" where
  "update_conversation c u db =
     (if cu_extra u = None \<and> cu_status u = None \<and> cu_updated_at u = None then (Inr (), db)
      else if list_ex (\<lambda>r. conv_id r = c) (db_conversations db)
      then (Inr (), db\<lparr>db_conversations := map (\<lambda>r. if conv_id r = c then apply_conversation_update u r else r)
              (db_conversations db)\<rparr>)
      else (Inl (Db_Not_Found (''Conversation '' @ quoted c @ '' not found'')), db))"

definition message_checks :: "'c message_row \<Rightarrow> bool" where
  "message_checks r \<longleftrightarrow>
     (case msg_position r of None \<Rightarrow> True | Some p \<Rightarrow> p \<in> set [''left'', ''right'', ''center'', ''pop''])
   \<and> (case msg_status r of None \<Rightarrow> True | Some s \<Rightarrow> s \<in> set [''finish'', ''pending'', ''error'', ''work''])"

definition insert_message :: "'c message_row \<Rightarrow> 'c conv_db \<Rightarrow> (db_error + unit) \<times> 'c conv_db" where
  "insert_message r db =
     (if list_ex (\<lambda>m. msg_id m = msg_id r) (db_messages db)
      then (Inl (Db_Query ''UNIQUE constraint failed: messages.id''), db)
      else if \<not> message_checks r then (Inl (Db_Query ''CHECK constraint failed''), db)
      else if \<not> list_ex (\<lambda>c. conv_id c = msg_conversation r) (db_conversations db)
      then (Inl (Db_Query ''FOREIGN KEY constraint failed''), db)
      else (Inr (), db\<lparr>db_messages := db_messages db @ [r]\<rparr>))"

definition apply_update :: "'c message_update \<Rightarrow> 'c message_row \<Rightarrow> 'c message_row" where
  "apply_update u m = m
     \<lparr>msg_content := (case upd_content u of None \<Rightarrow> msg_content m | Some c \<Rightarrow> c),
      msg_status := (case upd_status u of None \<Rightarrow> msg_status m | Some s \<Rightarrow> s),
      msg_hidden := (case upd_hidden u of None \<Rightarrow> msg_hidden m | Some h \<Rightarrow> h)\<rparr>"

definition update_message :: "string \<Rightarrow> 'c message_update \<Rightarrow> 'c conv_db \<Rightarrow> (db_error + unit) \<times> 'c conv_db" where
  "update_message i u db =
     (if upd_content u = None \<and> upd_status u = None \<and> upd_hidden u = None then (Inr (), db)
      else if \<not> list_ex (\<lambda>m. msg_id m = i) (db_messages db)
      then (Inl (Db_Not_Found (''Message '' @ quoted i @ '' not found'')), db)
      else if \<not> list_all (\<lambda>m. msg_id m = i \<longrightarrow> message_checks (apply_update u m)) (db_messages db)
      then (Inl (Db_Query ''CHECK constraint failed''), db)
      else (Inr (), db\<lparr>db_messages := map (\<lambda>m. if msg_id m = i then apply_update u m else m) (db_messages db)\<rparr>))"

text \<open>\<open>patch old new\<close> merges the two values; \<open>patch_keep acp old new\<close> merges them and keeps the status
  inside the old one, at \<open>$.update.status\<close> for an ACP tool call and at \<open>$.status\<close> otherwise.\<close>

record 'c json_sql =
  sql_patch :: "'c \<Rightarrow> 'c \<Rightarrow> 'c"
  sql_patch_keep :: "bool \<Rightarrow> 'c \<Rightarrow> 'c \<Rightarrow> 'c"

definition is_settled :: "string option \<Rightarrow> bool" where
  "is_settled s \<longleftrightarrow> s = Some ''finish'' \<or> s = Some ''error''"

definition merge_message :: "'c json_sql \<Rightarrow> 'c message_row \<Rightarrow> 'c message_row \<Rightarrow> 'c message_row" where
  "merge_message J r m =
     (let keep = is_settled (msg_status m) \<and> msg_status r = Some ''work'' in
      m\<lparr>msg_content := (if keep then sql_patch_keep J (msg_type m = ''acp_tool_call'') (msg_content m) (msg_content r)
                        else sql_patch J (msg_content m) (msg_content r)),
        msg_status := (if keep then msg_status m else msg_status r),
        msg_position := (case msg_position m of None \<Rightarrow> msg_position r | Some p \<Rightarrow> Some p),
        msg_hidden := msg_hidden r,
        msg_created_at := min (msg_created_at m) (msg_created_at r)\<rparr>)"

text \<open>A row that violates a constraint is refused before the conflict on \<open>id\<close> is looked at.\<close>

definition upsert_message :: "'c json_sql \<Rightarrow> 'c message_row \<Rightarrow> 'c conv_db \<Rightarrow> (db_error + unit) \<times> 'c conv_db" where
  "upsert_message J r db =
     (if \<not> message_checks r then (Inl (Db_Query ''CHECK constraint failed''), db)
      else if list_ex (\<lambda>m. msg_id m = msg_id r) (db_messages db)
      then (Inr (), db\<lparr>db_messages := map (\<lambda>m. if msg_id m = msg_id r then merge_message J r m else m) (db_messages db)\<rparr>)
      else insert_message r db)"

definition find_message :: "string \<Rightarrow> string \<Rightarrow> string \<Rightarrow> 'c conv_db \<Rightarrow> db_error + 'c message_row option" where
  "find_message c i ty db =
     Inr (find (\<lambda>m. msg_conversation m = c \<and> msg_msg_id m = Some i \<and> msg_type m = ty) (db_messages db))"

definition sqlite_conv_repo :: "'c json_sql \<Rightarrow> ('c, 'c conv_db) conv_repo" where
  "sqlite_conv_repo J = \<lparr>cr_get = conversation_get, cr_update_conv = update_conversation, cr_insert = insert_message,
     cr_upsert = upsert_message J, cr_update = update_message, cr_find = find_message\<rparr>"

section \<open>What the relay relies on\<close>

text \<open>A store of messages that works, seen as the row of each id: a well-formed row under an id not yet
  in use is added, the row of an id is changed in place, and no operation touches another id.
  \<open>ready c\<close> is what it takes for the conversation \<open>c\<close>.\<close>

definition known_status :: "string \<Rightarrow> bool" where
  "known_status s \<longleftrightarrow> s \<in> set [''finish'', ''pending'', ''error'', ''work'']"

lemma known_status_simps [simp]:
  "known_status ''finish''" "known_status ''pending''" "known_status ''error''" "known_status ''work''"
  by (simp_all add: known_status_def)

locale message_store =
  fixes R :: "('c, 'db) conv_repo"
    and row :: "'db \<Rightarrow> string \<Rightarrow> 'c message_row option"
    and ready :: "string \<Rightarrow> 'db \<Rightarrow> bool"
  assumes insert_new: "ready c db \<Longrightarrow> msg_conversation r = c \<Longrightarrow> message_checks r \<Longrightarrow> row db (msg_id r) = None
      \<Longrightarrow> \<exists>db'. cr_insert R r db = (Inr (), db') \<and> row db' = (row db)(msg_id r \<mapsto> r)"
    and update_known: "ready c db \<Longrightarrow> row db i = Some m \<Longrightarrow> upd_status u = Some (Some s) \<Longrightarrow> known_status s
      \<Longrightarrow> \<exists>db'. cr_update R i u db = (Inr (), db') \<and> row db' = (row db)(i \<mapsto> apply_update u m)"
    and insert_frame: "ready c db \<Longrightarrow> ready c (snd (cr_insert R r db))
      \<and> (j \<noteq> msg_id r \<longrightarrow> row (snd (cr_insert R r db)) j = row db j)"
    and upsert_frame: "ready c db \<Longrightarrow> ready c (snd (cr_upsert R r db))
      \<and> (j \<noteq> msg_id r \<longrightarrow> row (snd (cr_upsert R r db)) j = row db j)"
    and update_frame: "ready c db \<Longrightarrow> ready c (snd (cr_update R i u db))
      \<and> (j \<noteq> i \<longrightarrow> row (snd (cr_update R i u db)) j = row db j)"
    and conv_frame: "ready c db \<Longrightarrow> ready c (snd (cr_update_conv R c' cu db))
      \<and> row (snd (cr_update_conv R c' cu db)) = row db"
begin

text \<open>The same laws for a result at hand.\<close>

lemma insert_known:
  assumes "ready (msg_conversation r) db" and "message_checks r" and "row db (msg_id r) = None"
    and "cr_insert R r db = (res, db')"
  shows "row db' = (row db)(msg_id r \<mapsto> r)" and "res = Inr ()" and "ready (msg_conversation r) db'"
  using insert_new [OF assms(1) refl assms(2,3)] insert_frame [OF assms(1), of r] assms(4) by auto

lemma update_row:
  assumes "ready c db" and "row db i = Some m" and "upd_status u = Some (Some s)" and "known_status s"
    and "cr_update R i u db = (res, db')"
  shows "row db' = (row db)(i \<mapsto> apply_update u m)" and "res = Inr ()" and "ready c db'"
  using update_known [OF assms(1-4)] update_frame [OF assms(1), of i u] assms(5) by auto

end

text \<open>The tables meet the contract for every conversation that has a row, as long as the messages
  satisfy the checks of the schema.\<close>

definition sqlite_row :: "'c conv_db \<Rightarrow> string \<Rightarrow> 'c message_row option" where
  "sqlite_row db i = find (\<lambda>m. msg_id m = i) (db_messages db)"

definition sqlite_ready :: "string \<Rightarrow> 'c conv_db \<Rightarrow> bool" where
  "sqlite_ready c db \<longleftrightarrow> list_ex (\<lambda>r. conv_id r = c) (db_conversations db) \<and> list_all message_checks (db_messages db)"

lemma message_checks_update:
  assumes "message_checks m" and "upd_status u = Some (Some s)" and "known_status s"
  shows "message_checks (apply_update u m)"
  using assms by (simp add: message_checks_def apply_update_def known_status_def)

lemma find_map_id:
  assumes "\<And>m. msg_id (f m) = msg_id m"
  shows "find (\<lambda>m. msg_id m = j) (map (\<lambda>m. if msg_id m = i then f m else m) ms)
    = (if j = i then map_option f (find (\<lambda>m. msg_id m = j) ms) else find (\<lambda>m. msg_id m = j) ms)"
  using assms by (induction ms) auto

lemma find_id_None: "find (\<lambda>m. msg_id m = i) ms = None \<longleftrightarrow> \<not> list_ex (\<lambda>m. msg_id m = i) ms"
  by (induction ms) auto

lemma msg_id_apply_update [simp]: "msg_id (apply_update u m) = msg_id m"
  by (simp add: apply_update_def)

lemma msg_id_merge [simp]: "msg_id (merge_message J r m) = msg_id m"
  by (simp add: merge_message_def Let_def)

lemma message_checks_merge:
  assumes "message_checks m" and "message_checks r"
  shows "message_checks (merge_message J r m)"
  using assms by (auto simp: message_checks_def merge_message_def Let_def split: option.splits)

lemma sqlite_insert:
  "sqlite_ready c db \<Longrightarrow> sqlite_ready c (snd (insert_message r db))"
  "j \<noteq> msg_id r \<Longrightarrow> sqlite_row (snd (insert_message r db)) j = sqlite_row db j"
  by (auto simp: insert_message_def sqlite_ready_def sqlite_row_def find_append split: option.splits)

lemma conv_id_apply_update [simp]: "conv_id (apply_conversation_update u r) = conv_id r"
  by (simp add: apply_conversation_update_def)

lemma conversations_update:
  "list_ex (\<lambda>r. conv_id r = c) (map (\<lambda>r. if conv_id r = c' then apply_conversation_update u r else r) rs)
    = list_ex (\<lambda>r. conv_id r = c) rs"
  by (induction rs) auto

interpretation sqlite_messages: message_store "sqlite_conv_repo J" sqlite_row sqlite_ready
proof unfold_locales
  fix c j and db :: "'a conv_db" and r :: "'a message_row"
  assume ready: "sqlite_ready c db"
  then show "sqlite_ready c (snd (cr_insert (sqlite_conv_repo J) r db))
      \<and> (j \<noteq> msg_id r \<longrightarrow> sqlite_row (snd (cr_insert (sqlite_conv_repo J) r db)) j = sqlite_row db j)"
    by (simp add: sqlite_conv_repo_def sqlite_insert)
  show "sqlite_ready c (snd (cr_upsert (sqlite_conv_repo J) r db))
      \<and> (j \<noteq> msg_id r \<longrightarrow> sqlite_row (snd (cr_upsert (sqlite_conv_repo J) r db)) j = sqlite_row db j)"
    using ready by (auto simp: sqlite_conv_repo_def upsert_message_def sqlite_insert)
      (auto simp: sqlite_ready_def sqlite_row_def find_map_id message_checks_merge list_all_iff)
  assume "msg_conversation r = c" and "message_checks r" and "sqlite_row db (msg_id r) = None"
  then show "\<exists>db'. cr_insert (sqlite_conv_repo J) r db = (Inr (), db') \<and> sqlite_row db' = (sqlite_row db)(msg_id r \<mapsto> r)"
    using ready find_id_None [of "msg_id r" "db_messages db"]
    by (auto simp: sqlite_conv_repo_def insert_message_def sqlite_ready_def sqlite_row_def find_append
        fun_eq_iff split: option.splits)
next
  fix c i j and db :: "'a conv_db" and u :: "'a message_update"
  assume ready: "sqlite_ready c db"
  then show "sqlite_ready c (snd (cr_update (sqlite_conv_repo J) i u db))
      \<and> (j \<noteq> i \<longrightarrow> sqlite_row (snd (cr_update (sqlite_conv_repo J) i u db)) j = sqlite_row db j)"
    by (auto simp: sqlite_conv_repo_def update_message_def sqlite_ready_def sqlite_row_def find_map_id list_all_iff)
  fix m s
  assume m: "sqlite_row db i = Some m" and u: "upd_status u = Some (Some s)" "known_status s"
  have "list_all (\<lambda>m. msg_id m = i \<longrightarrow> message_checks (apply_update u m)) (db_messages db)"
    using ready message_checks_update [OF _ u] by (auto simp: sqlite_ready_def list_all_iff)
  moreover have "list_ex (\<lambda>m. msg_id m = i) (db_messages db)"
    using m find_id_None [of i "db_messages db"] by (simp add: sqlite_row_def)
  ultimately show "\<exists>db'. cr_update (sqlite_conv_repo J) i u db = (Inr (), db')
      \<and> sqlite_row db' = (sqlite_row db)(i \<mapsto> apply_update u m)"
    using m u by (simp add: sqlite_conv_repo_def update_message_def sqlite_row_def find_map_id fun_eq_iff)
next
  fix c c' u and db :: "'a conv_db"
  assume "sqlite_ready c db"
  then show "sqlite_ready c (snd (cr_update_conv (sqlite_conv_repo J) c' u db))
      \<and> sqlite_row (snd (cr_update_conv (sqlite_conv_repo J) c' u db)) = sqlite_row db"
    by (auto simp: sqlite_conv_repo_def update_conversation_def sqlite_ready_def sqlite_row_def fun_eq_iff conversations_update)
qed

end
