(* ===== verification/Stream_Relay.thy ===== *)
theory Stream_Relay
  imports Turn_Policy Conv_Store
begin

text \<open>
  The relay of one agent stream (\<open>aionui-conversation/src/stream_relay.rs\<close>) with its persistence
  adapter (\<open>stream_persistence.rs\<close>), the publication of a finished turn (\<open>runtime_completion.rs\<close>) and
  the processing of the final text (\<open>response_middleware.rs\<close>). One relay reads the events of an agent
  until the stream ends, forwards them to the clients, groups text and thinking into segments,
  stores them, and reports what it saw.

  Everything the relay shares with other tasks is read through an oracle indexed by the number of
  reads so far: \<open>env_service\<close> gives the runtime state at the moment of each read, \<open>env_now\<close> the
  clock, \<open>env_mint\<close> the identifiers. A theorem that holds for every oracle holds for every
  interleaving with the tasks that change that state. The two regular expressions of the
  middleware are the functions \<open>env_strip\<close> (\<open>replace_all\<close>) and \<open>env_captures\<close> (group 1 of each match).
  JSON values are modelled by the data they are built from.
\<close>

section \<open>Events\<close>

datatype tip_type = Tip_Error | Tip_Info | Tip_Success | Tip_Warning

record 'd tips_data =
  tip_content :: string
  tip_kind :: tip_type
  tip_code :: "string option"
  tip_params :: "'d option"

record thinking_data =
  th_content :: string
  th_subject :: "string option"
  th_duration :: "nat option"
  th_status :: "string option"

datatype tool_status = Tool_Running | Tool_Completed | Tool_Error

record 'd tool_call =
  tc_call_id :: string
  tc_name :: string
  tc_status :: tool_status
  tc_rest :: 'd

record tool_group_entry =
  tg_call_id :: string
  tg_name :: string
  tg_status :: tool_status
  tg_description :: "string option"

datatype acp_tool_status = Acp_Pending | Acp_In_Progress | Acp_Completed | Acp_Failed

record 'd acp_tool_call =
  acp_tool_call_id :: string
  acp_status :: "acp_tool_status option"
  acp_rest :: 'd

datatype ('x, 'd) stream_event =
    Ev_Start "string option"
  | Ev_Text string
  | Ev_Tips "'d tips_data"
  | Ev_Tool_Call "'d tool_call"
  | Ev_Acp_Tool_Call "'d acp_tool_call"
  | Ev_Tool_Group "tool_group_entry list"
  | Ev_Agent_Status 'd
  | Ev_Thinking thinking_data
  | Ev_Plan 'd
  | Ev_Permission 'd
  | Ev_Acp_Permission 'd
  | Ev_Skill_Suggest 'd
  | Ev_Cron_Trigger 'd
  | Ev_Acp_Model_Info 'd
  | Ev_Acp_Mode_Info 'd
  | Ev_Acp_Config_Option 'd
  | Ev_Acp_Session_Info 'd
  | Ev_Acp_Context_Usage 'd
  | Ev_Acp_Prompt_Hook_Warning 'd
  | Ev_Slash_Commands_Updated 'd
  | Ev_Available_Commands 'd
  | Ev_Finish "string option"
  | Ev_Error "'x stream_error"
  | Ev_System 'd
  | Ev_Request_Trace 'd
  | Ev_Session_Assigned string

fun is_terminal_event :: "('x, 'd) stream_event \<Rightarrow> bool" where
  "is_terminal_event (Ev_Finish _) = True"
| "is_terminal_event (Ev_Error _) = True"
| "is_terminal_event _ = False"

fun terminal_from_event :: "('x, 'd) stream_event \<Rightarrow> relay_terminal" where
  "terminal_from_event (Ev_Error e) = Term_Error (err_code e) (err_retryable e)"
| "terminal_from_event (Ev_Finish _) = Term_Finish"
| "terminal_from_event _ = Term_Channel_Closed"

section \<open>Segments, content and messages to the clients\<close>

record text_segment =
  ts_id :: string
  ts_buffer :: string
  ts_created_at :: int
  ts_record_created :: bool
  ts_flush_counter :: nat

record thinking_segment =
  hs_id :: string
  hs_buffer :: string
  hs_started_at :: int

datatype ('x, 'd) msg_json =
    Json_Text string
  | Json_Thinking string nat
  | Json_Error_Tip "'x stream_error"
  | Json_Tip "'d tips_data"
  | Json_Tool "'d tool_call"
  | Json_Acp_Tool "'d acp_tool_call"
  | Json_Tool_Group "tool_group_entry list"
  | Json_Send_Tip "string option" "'x stream_error"

datatype ('x, 'd) client_message =
    Stream_Event string "('x, 'd) stream_event"
  | Content_Override string string bool
  | System_Response string string
  | Turn_Completed string "runtime_summary option"
  | Stream_Row string "('x, 'd) msg_json message_row"

record loaded_skill =
  skill_name :: string
  skill_body :: string

section \<open>The relay\<close>

record ('x, 'd, 'n, 'db) relay_env =
  env_conversation :: string
  env_msg :: string
  env_turn :: string
  env_persistence :: bool
  env_watches_runtime :: bool
  env_skill_loader :: "(string list \<Rightarrow> loaded_skill list) option"
  env_allowed_skills :: "string list"
  env_complete_turn :: bool
  env_defer_clean_errors :: bool
  env_external_reply :: "(string \<times> string) option"
  env_strip :: "string \<Rightarrow> string"
  env_captures :: "string \<Rightarrow> string list"
  env_serializes :: "('x, 'd) stream_event \<Rightarrow> bool"
  env_repo :: "(('x, 'd) msg_json, 'db) conv_repo"
  env_service :: "nat \<Rightarrow> 'n runtime_service"
  env_now :: "nat \<Rightarrow> int"
  env_mint :: "nat \<Rightarrow> string"

record ('x, 'd, 'db) relay_state =
  rl_reads :: nat
  rl_ticks :: nat
  rl_minted :: nat
  rl_db :: 'db
  rl_sent :: "('x, 'd) client_message list"
  rl_replies :: "(string \<times> string \<times> string) list"
  rl_full_text :: string
  rl_segments :: "string list"
  rl_text :: "text_segment option"
  rl_thinking :: "thinking_segment option"
  rl_used_primary :: bool
  rl_send_done :: bool
  rl_send_error :: "'x stream_error option"
  rl_attempt :: "'x attempt_summary"

text \<open>\<open>consume\<close> has no send error to wait for, \<open>consume_with_send_error\<close> has.\<close>

definition new_relay :: "bool \<Rightarrow> 'db \<Rightarrow> ('x, 'd, 'db) relay_state" where
  "new_relay with_send_error db =
     \<lparr>rl_reads = 0, rl_ticks = 0, rl_minted = 0, rl_db = db, rl_sent = [], rl_replies = [],
      rl_full_text = [], rl_segments = [], rl_text = None, rl_thinking = None, rl_used_primary = False,
      rl_send_done = (\<not> with_send_error), rl_send_error = None, rl_attempt = default_attempt\<rparr>"

type_synonym ('x, 'd, 'n, 'db, 'a) relay_op =
  "('x, 'd, 'n, 'db) relay_env \<Rightarrow> ('x, 'd, 'db) relay_state \<Rightarrow> 'a \<times> ('x, 'd, 'db) relay_state"

subsection \<open>Reading what is shared\<close>

definition read_service :: "('x, 'd, 'n, 'db, 'n runtime_service) relay_op" where
  "read_service E st = (env_service E (rl_reads st), st\<lparr>rl_reads := Suc (rl_reads st)\<rparr>)"

definition now_ms :: "('x, 'd, 'n, 'db, int) relay_op" where
  "now_ms E st = (env_now E (rl_ticks st), st\<lparr>rl_ticks := Suc (rl_ticks st)\<rparr>)"

definition mint_msg_id :: "('x, 'd, 'n, 'db, string) relay_op" where
  "mint_msg_id E st = (env_mint E (rl_minted st), st\<lparr>rl_minted := Suc (rl_minted st)\<rparr>)"

definition allows_write :: "write_kind \<Rightarrow> ('x, 'd, 'n, 'db, bool) relay_op" where
  "allows_write k E st =
     (if \<not> env_persistence E then (True, st)
      else case read_service E st of (s, st) \<Rightarrow> (allows (env_conversation E) k s, st))"

definition relay_is_deleting :: "('x, 'd, 'n, 'db, bool) relay_op" where
  "relay_is_deleting E st =
     (if \<not> env_watches_runtime E then (False, st)
      else case read_service E st of (s, st) \<Rightarrow> (is_deleting (env_conversation E) s, st))"

definition mint_segment_msg_id :: "('x, 'd, 'n, 'db, string) relay_op" where
  "mint_segment_msg_id E st =
     (if \<not> rl_used_primary st then (env_msg E, st\<lparr>rl_used_primary := True\<rparr>) else mint_msg_id E st)"

definition broadcast :: "('x, 'd) client_message \<Rightarrow> ('x, 'd, 'db) relay_state \<Rightarrow> ('x, 'd, 'db) relay_state" where
  "broadcast m st = st\<lparr>rl_sent := rl_sent st @ [m]\<rparr>"

definition forward ::
  "string \<Rightarrow> ('x, 'd) stream_event \<Rightarrow> ('x, 'd, 'n, 'db) relay_env \<Rightarrow> ('x, 'd, 'db) relay_state \<Rightarrow> ('x, 'd, 'db) relay_state" where
  "forward i ev E st = (if env_serializes E ev then broadcast (Stream_Event i ev) st else st)"

subsection \<open>Writing\<close>

definition run_insert ::
  "('x, 'd) msg_json message_row \<Rightarrow> ('x, 'd, 'n, 'db, bool) relay_op" where
  "run_insert r E st = (case cr_insert (env_repo E) r (rl_db st) of (res, db) \<Rightarrow> (\<not> is_err res, st\<lparr>rl_db := db\<rparr>))"

definition run_upsert ::
  "('x, 'd) msg_json message_row \<Rightarrow> ('x, 'd, 'n, 'db, bool) relay_op" where
  "run_upsert r E st = (case cr_upsert (env_repo E) r (rl_db st) of (res, db) \<Rightarrow> (\<not> is_err res, st\<lparr>rl_db := db\<rparr>))"

definition run_update ::
  "string \<Rightarrow> ('x, 'd) msg_json message_update \<Rightarrow> ('x, 'd, 'n, 'db, bool) relay_op" where
  "run_update i u E st = (case cr_update (env_repo E) i u (rl_db st) of (res, db) \<Rightarrow> (\<not> is_err res, st\<lparr>rl_db := db\<rparr>))"

definition left_row ::
  "('x, 'd, 'n, 'db) relay_env \<Rightarrow> string \<Rightarrow> string option \<Rightarrow> string \<Rightarrow> ('x, 'd) msg_json \<Rightarrow> string \<Rightarrow> int
    \<Rightarrow> ('x, 'd) msg_json message_row" where
  "left_row E i mid ty c status at =
     \<lparr>msg_id = i, msg_conversation = env_conversation E, msg_msg_id = mid, msg_type = ty, msg_content = c,
      msg_position = Some ''left'', msg_status = Some status, msg_hidden = False, msg_created_at = at\<rparr>"

definition flush_text_segment :: "text_segment \<Rightarrow> ('x, 'd, 'n, 'db, text_segment) relay_op" where
  "flush_text_segment g E st =
     (case allows_write Wk_Assistant_Text_Flush E st of (ok, st) \<Rightarrow>
        if \<not> ok \<or> ts_buffer g = [] then (g, st)
        else if ts_record_created g then
          (g, snd (run_update (ts_id g) \<lparr>upd_content = Some (Json_Text (ts_buffer g)), upd_status = Some (Some ''work''),
             upd_hidden = None\<rparr> E st))
        else
          (g\<lparr>ts_record_created := True\<rparr>, snd (run_insert (left_row E (ts_id g) (Some (ts_id g)) ''text''
             (Json_Text (ts_buffer g)) ''work'' (ts_created_at g)) E st)))"

definition finalize_text_segment :: "text_segment \<Rightarrow> string \<Rightarrow> ('x, 'd, 'n, 'db, string option) relay_op" where
  "finalize_text_segment g status E st =
     (case allows_write Wk_Assistant_Text_Finalize E st of (ok, st) \<Rightarrow>
        if \<not> ok \<or> ts_buffer g = [] then (None, st)
        else case (if ts_record_created g then
            run_update (ts_id g) \<lparr>upd_content = Some (Json_Text (ts_buffer g)), upd_status = Some (Some status),
              upd_hidden = Some False\<rparr> E st
          else run_insert (left_row E (ts_id g) (Some (ts_id g)) ''text'' (Json_Text (ts_buffer g)) status
              (ts_created_at g)) E st) of
          (done, st) \<Rightarrow> (if done then Some (ts_id g) else None, st))"

definition persist_thinking_segment ::
  "thinking_segment \<Rightarrow> nat \<Rightarrow> ('x, 'd, 'n, 'db) relay_env \<Rightarrow> ('x, 'd, 'db) relay_state \<Rightarrow> ('x, 'd, 'db) relay_state" where
  "persist_thinking_segment h duration E st =
     (if hs_buffer h = [] then st
      else case allows_write Wk_Assistant_Thinking_Finalize E st of (ok, st) \<Rightarrow>
        if \<not> ok then st
        else snd (run_insert (left_row E (hs_id h) (Some (hs_id h)) ''thinking''
               (Json_Thinking (hs_buffer h) duration) ''finish'' (hs_started_at h)) E st))"

definition persist_error_tip ::
  "'x stream_error \<Rightarrow> ('x, 'd, 'n, 'db) relay_env \<Rightarrow> ('x, 'd, 'db) relay_state \<Rightarrow> ('x, 'd, 'db) relay_state" where
  "persist_error_tip e E st =
     (case allows_write Wk_Terminal_Finalize E st of (ok, st) \<Rightarrow>
        if \<not> ok then st
        else case mint_msg_id E st of (i, st) \<Rightarrow>
             case now_ms E st of (t, st) \<Rightarrow>
               snd (run_insert (left_row E i None ''tips'' (Json_Error_Tip e) ''error'' t) E st))"

definition persist_tip ::
  "'d tips_data \<Rightarrow> ('x, 'd, 'n, 'db) relay_env \<Rightarrow> ('x, 'd, 'db) relay_state \<Rightarrow> ('x, 'd, 'db) relay_state" where
  "persist_tip d E st =
     (case allows_write Wk_Terminal_Finalize E st of (ok, st) \<Rightarrow>
        if \<not> ok then st
        else case mint_msg_id E st of (i, st) \<Rightarrow>
             case now_ms E st of (t, st) \<Rightarrow>
               snd (run_insert (left_row E i None ''tips'' (Json_Tip d)
                 (if tip_kind d = Tip_Error then ''error'' else ''finish'') t) E st))"

fun tool_row_status :: "tool_status \<Rightarrow> string" where
  "tool_row_status Tool_Running = ''work''"
| "tool_row_status Tool_Completed = ''finish''"
| "tool_row_status Tool_Error = ''error''"

definition persist_tool_call ::
  "'d tool_call \<Rightarrow> ('x, 'd, 'n, 'db) relay_env \<Rightarrow> ('x, 'd, 'db) relay_state \<Rightarrow> ('x, 'd, 'db) relay_state" where
  "persist_tool_call d E st =
     (case allows_write Wk_Tool_Call_Persist E st of (ok, st) \<Rightarrow>
        if \<not> ok \<or> trim (tc_call_id d) = [] then st
        else case now_ms E st of (t, st) \<Rightarrow>
          snd (run_upsert (left_row E (tc_call_id d) (Some (tc_call_id d)) ''tool_call'' (Json_Tool d)
            (tool_row_status (tc_status d)) t) E st))"

fun acp_row_status :: "acp_tool_status option \<Rightarrow> string" where
  "acp_row_status None = ''work''"
| "acp_row_status (Some Acp_Pending) = ''work''"
| "acp_row_status (Some Acp_In_Progress) = ''work''"
| "acp_row_status (Some Acp_Completed) = ''finish''"
| "acp_row_status (Some Acp_Failed) = ''error''"

definition persist_acp_tool_call ::
  "'d acp_tool_call \<Rightarrow> ('x, 'd, 'n, 'db) relay_env \<Rightarrow> ('x, 'd, 'db) relay_state \<Rightarrow> ('x, 'd, 'db) relay_state" where
  "persist_acp_tool_call d E st =
     (case allows_write Wk_Acp_Tool_Call_Persist E st of (ok, st) \<Rightarrow>
        if \<not> ok then st
        else case now_ms E st of (t, st) \<Rightarrow>
          snd (run_upsert (left_row E (acp_tool_call_id d) (Some (acp_tool_call_id d)) ''acp_tool_call''
            (Json_Acp_Tool d) (acp_row_status (acp_status d)) t) E st))"

definition persist_tool_group ::
  "tool_group_entry list \<Rightarrow> ('x, 'd, 'n, 'db) relay_env \<Rightarrow> ('x, 'd, 'db) relay_state \<Rightarrow> ('x, 'd, 'db) relay_state" where
  "persist_tool_group ds E st =
     (case allows_write Wk_Tool_Group_Persist E st of (ok, st) \<Rightarrow>
        if \<not> ok then st
        else
          (let status = (if list_all (\<lambda>d. tg_status d \<noteq> Tool_Running) ds then ''finish'' else ''work'') in
           case (case ds of [] \<Rightarrow> mint_msg_id E st | d # _ \<Rightarrow> (tg_call_id d, st)) of (i, st) \<Rightarrow>
             (case cr_find (env_repo E) (env_conversation E) i ''tool_group'' (rl_db st) of
                Inr (Some _) \<Rightarrow> snd (run_update i \<lparr>upd_content = Some (Json_Tool_Group ds),
                    upd_status = Some (Some status), upd_hidden = None\<rparr> E st)
              | _ \<Rightarrow> (case now_ms E st of (t, st) \<Rightarrow>
                    snd (run_insert (left_row E i (Some i) ''tool_group'' (Json_Tool_Group ds) status t) E st)))))"

subsection \<open>Closing segments\<close>

definition complete_active_thinking ::
  "('x, 'd, 'n, 'db) relay_env \<Rightarrow> ('x, 'd, 'db) relay_state \<Rightarrow> ('x, 'd, 'db) relay_state" where
  "complete_active_thinking E st =
     (case rl_thinking st of
        None \<Rightarrow> st
      | Some h \<Rightarrow>
          (case now_ms E (st\<lparr>rl_thinking := None\<rparr>) of (t, st) \<Rightarrow>
             let duration = nat (max 0 (t - hs_started_at h));
                 st = forward (hs_id h) (Ev_Thinking \<lparr>th_content = [], th_subject = None,
                        th_duration = Some duration, th_status = Some ''done''\<rparr>) E st
             in persist_thinking_segment h duration E st))"

definition close_active_text_segment ::
  "string \<Rightarrow> ('x, 'd, 'n, 'db) relay_env \<Rightarrow> ('x, 'd, 'db) relay_state \<Rightarrow> ('x, 'd, 'db) relay_state" where
  "close_active_text_segment status E st =
     (case rl_text st of
        None \<Rightarrow> st
      | Some g \<Rightarrow>
          (case finalize_text_segment g status E (st\<lparr>rl_text := None\<rparr>) of (res, st) \<Rightarrow>
             case res of None \<Rightarrow> st | Some i \<Rightarrow> st\<lparr>rl_segments := rl_segments st @ [i]\<rparr>))"

subsection \<open>The final text\<close>

definition detect_skill_load_requests :: "(string \<Rightarrow> string list) \<Rightarrow> string \<Rightarrow> string list" where
  "detect_skill_load_requests captures text =
     fold (\<lambda>cap names. let n = trim cap in if n = [] \<or> n \<in> set names then names else names @ [n])
       (captures text) []"

definition load_skill_bodies :: "('x, 'd, 'n, 'db) relay_env \<Rightarrow> (string list \<Rightarrow> loaded_skill list) \<Rightarrow> string list \<Rightarrow> loaded_skill list" where
  "load_skill_bodies E load names =
     (if env_allowed_skills E = [] then []
      else load (filter (\<lambda>n. n \<in> set (env_allowed_skills E)) names))"

definition load_requested_skills :: "('x, 'd, 'n, 'db) relay_env \<Rightarrow> string list \<Rightarrow> string list" where
  "load_requested_skills E names =
     (if names = [] then []
      else case env_skill_loader E of
        None \<Rightarrow> []
      | Some load \<Rightarrow> map (\<lambda>s. ''[Skill: '' @ skill_name s @ '']'' @ ''\<newline>'' @ skill_body s) (load_skill_bodies E load names))"

definition process_final_text :: "('x, 'd, 'n, 'db) relay_env \<Rightarrow> string \<Rightarrow> string \<times> string list" where
  "process_final_text E text =
     (let cleaned = env_strip E text in
      (cleaned, load_requested_skills E (detect_skill_load_requests (env_captures E) cleaned)))"

fun hide_superseded ::
  "string \<Rightarrow> string list \<Rightarrow> ('x, 'd, 'n, 'db) relay_env \<Rightarrow> ('x, 'd, 'db) relay_state \<Rightarrow> ('x, 'd, 'db) relay_state" where
  "hide_superseded status [] E st = st"
| "hide_superseded status (i # is) E st = hide_superseded status is E
     (snd (run_update i \<lparr>upd_content = None, upd_status = Some (Some status), upd_hidden = Some True\<rparr> E st))"

fun settle_segments ::
  "string \<Rightarrow> string list \<Rightarrow> ('x, 'd, 'n, 'db) relay_env \<Rightarrow> ('x, 'd, 'db) relay_state \<Rightarrow> ('x, 'd, 'db) relay_state" where
  "settle_segments status [] E st = st"
| "settle_segments status (i # is) E st = settle_segments status is E
     (snd (run_update i \<lparr>upd_content = None, upd_status = Some (Some status), upd_hidden = Some False\<rparr> E st))"

text \<open>The overrides to announce are the message ids with their text and visibility.\<close>

definition persist_final_text ::
  "string list \<Rightarrow> string \<Rightarrow> string \<Rightarrow> bool \<Rightarrow> bool \<Rightarrow> ('x, 'd, 'n, 'db, (string \<times> string \<times> bool) list) relay_op" where
  "persist_final_text segs status final_text hid rewrite E st =
     (case allows_write Wk_Terminal_Finalize E st of (ok, st) \<Rightarrow>
        if \<not> ok then ([], st)
        else case segs of
          [] \<Rightarrow>
            if hid then ([], st)
            else (case now_ms E st of (t, st) \<Rightarrow>
              ([], snd (run_insert (left_row E (env_msg E) (Some (env_msg E)) ''text'' (Json_Text final_text) status t) E st)))
        | primary # others \<Rightarrow>
            if rewrite then
              (let st = snd (run_update primary \<lparr>upd_content = Some (Json_Text final_text),
                     upd_status = Some (Some status), upd_hidden = Some hid\<rparr> E st)
               in ((primary, final_text, hid) # map (\<lambda>i. (i, [], True)) others, hide_superseded status others E st))
            else ([], settle_segments status segs E st))"

fun send_overrides :: "(string \<times> string \<times> bool) list \<Rightarrow> ('x, 'd, 'db) relay_state \<Rightarrow> ('x, 'd, 'db) relay_state" where
  "send_overrides [] st = st"
| "send_overrides ((i, text, hid) # os) st = send_overrides os (broadcast (Content_Override i text hid) st)"

fun send_system_responses ::
  "string list \<Rightarrow> ('x, 'd, 'n, 'db) relay_env \<Rightarrow> ('x, 'd, 'db) relay_state \<Rightarrow> ('x, 'd, 'db) relay_state" where
  "send_system_responses [] E st = st"
| "send_system_responses (r # rs) E st = (case mint_msg_id E st of (i, st) \<Rightarrow>
     send_system_responses rs E (broadcast (System_Response i r) st))"

fun is_error_event :: "('x, 'd) stream_event \<Rightarrow> bool" where
  "is_error_event (Ev_Error _) = True"
| "is_error_event _ = False"

definition finalize ::
  "string \<Rightarrow> string list \<Rightarrow> ('x, 'd) stream_event \<Rightarrow> relay_terminal \<Rightarrow> ('x, 'd, 'n, 'db, 'x relay_outcome) relay_op" where
  "finalize text segs ev term E st =
     (let status = (if is_error_event ev then ''error'' else ''finish'');
          outcome = \<lparr>system_responses = [], outcome_terminal = term, outcome_attempt = default_attempt\<rparr> in
      if text \<noteq> [] then
        (case process_final_text E text of (message, responses) \<Rightarrow>
           let final_text = trim message; hid = (final_text = []); rewrite = (message \<noteq> text \<or> hid) in
           case persist_final_text segs status final_text hid rewrite E st of (overrides, st) \<Rightarrow>
             let st = send_system_responses responses E (send_overrides overrides st);
                 st = (if status = ''finish'' \<and> final_text \<noteq> []
                       then (case env_external_reply E of None \<Rightarrow> st
                             | Some (source, chat) \<Rightarrow> st\<lparr>rl_replies := rl_replies st @ [(source, chat, final_text)]\<rparr>)
                       else st)
             in (outcome\<lparr>system_responses := responses\<rparr>, st))
      else (case ev of Ev_Error e \<Rightarrow> (outcome, persist_error_tip e E st) | _ \<Rightarrow> (outcome, st)))"

subsection \<open>The end of a turn\<close>

definition finished_at :: "int \<Rightarrow> conversation_update" where
  "finished_at t = \<lparr>cu_extra = None, cu_status = Some ''finished'', cu_updated_at = Some t\<rparr>"

definition publish_completion ::
  "runtime_summary option \<Rightarrow> ('x, 'd, 'n, 'db) relay_env \<Rightarrow> ('x, 'd, 'db) relay_state \<Rightarrow> ('x, 'd, 'db) relay_state" where
  "publish_completion summary E st =
     (case read_service E st of (s, st) \<Rightarrow>
        if \<not> allows (env_conversation E) Wk_Conversation_Finished s then st
        else case cr_get (env_repo E) (env_conversation E) (rl_db st) of
          Inl _ \<Rightarrow> st
        | Inr None \<Rightarrow> st
        | Inr (Some _) \<Rightarrow> (case now_ms E st of (t, st) \<Rightarrow>
            case cr_update_conv (env_repo E) (env_conversation E) (finished_at t) (rl_db st) of (res, db) \<Rightarrow>
              if is_err res then st\<lparr>rl_db := db\<rparr>
              else broadcast (Turn_Completed (env_turn E) summary) (st\<lparr>rl_db := db\<rparr>)))"

definition complete_conversation ::
  "('x, 'd, 'n, 'db) relay_env \<Rightarrow> ('x, 'd, 'db) relay_state \<Rightarrow> ('x, 'd, 'db) relay_state" where
  "complete_conversation E st =
     (if env_persistence E then publish_completion None E st
      else case now_ms E st of (t, st) \<Rightarrow>
        case cr_update_conv (env_repo E) (env_conversation E) (finished_at t) (rl_db st) of (res, db) \<Rightarrow>
          broadcast (Turn_Completed (env_turn E) None) (st\<lparr>rl_db := db\<rparr>))"

end
