(* ===== verification/Relay_Loop.thy ===== *)
theory Relay_Loop
  imports Stream_Relay
begin

text \<open>
  The loop of the relay (\<open>consume_inner\<close> of \<open>stream_relay.rs\<close>). The relay polls the channel of
  events and, until it has answered, the one-shot channel of the task that called
  \<open>send_message\<close>; a \<open>poll\<close> is what one of them yields. \<open>relay_run\<close> consumes a list of polls and is
  \<open>None\<close> as long as the relay still waits. A poll that the current state does not ask for (an
  empty channel while the relay awaits it, a second answer of the one-shot channel) changes
  nothing. Log lines and the clock readings that only they use are left out.
\<close>

section \<open>One event\<close>

definition flush_interval :: nat where
  "flush_interval = 20"

definition saw_output :: "bool \<Rightarrow> ('x, 'd, 'db) relay_state \<Rightarrow> ('x, 'd, 'db) relay_state" where
  "saw_output b st = (if b then st\<lparr>rl_attempt := (rl_attempt st)\<lparr>saw_visible_output := True\<rparr>\<rparr> else st)"

definition saw_side_effect :: "('x, 'd, 'db) relay_state \<Rightarrow> ('x, 'd, 'db) relay_state" where
  "saw_side_effect st = st\<lparr>rl_attempt := (rl_attempt st)\<lparr>saw_tool_or_side_effect := True\<rparr>\<rparr>"

definition active_thinking_segment :: "('x, 'd, 'n, 'db, thinking_segment) relay_op" where
  "active_thinking_segment E st =
     (case rl_thinking st of
        Some h \<Rightarrow> (h, st)
      | None \<Rightarrow> (case mint_segment_msg_id E st of (i, st) \<Rightarrow>
          case now_ms E st of (t, st) \<Rightarrow> (\<lparr>hs_id = i, hs_buffer = [], hs_started_at = t\<rparr>, st)))"

definition active_text_segment :: "('x, 'd, 'n, 'db, text_segment) relay_op" where
  "active_text_segment E st =
     (case rl_text st of
        Some g \<Rightarrow> (g, st)
      | None \<Rightarrow> (case mint_segment_msg_id E st of (i, st) \<Rightarrow>
          case now_ms E st of (t, st) \<Rightarrow>
            (\<lparr>ts_id = i, ts_buffer = [], ts_created_at = t, ts_record_created = False, ts_flush_counter = 0\<rparr>, st)))"

definition on_thinking ::
  "thinking_data \<Rightarrow> ('x, 'd, 'n, 'db) relay_env \<Rightarrow> ('x, 'd, 'db) relay_state \<Rightarrow> ('x, 'd, 'db) relay_state" where
  "on_thinking d E st =
     (if th_status d = Some ''done'' then complete_active_thinking E st
      else
        (let st = saw_output (th_content d \<noteq> []) (close_active_text_segment ''finish'' E st) in
         case active_thinking_segment E st of (h, st) \<Rightarrow>
           forward (hs_id h) (Ev_Thinking d) E
             (st\<lparr>rl_thinking := Some (h\<lparr>hs_buffer := hs_buffer h @ th_content d\<rparr>)\<rparr>)))"

definition on_text ::
  "string \<Rightarrow> ('x, 'd, 'n, 'db) relay_env \<Rightarrow> ('x, 'd, 'db) relay_state \<Rightarrow> ('x, 'd, 'db) relay_state" where
  "on_text content E st =
     (let st = saw_output (content \<noteq> []) (complete_active_thinking E st) in
      case active_text_segment E st of (g, st) \<Rightarrow>
        let st = forward (ts_id g) (Ev_Text content) E st;
            g = g\<lparr>ts_buffer := ts_buffer g @ content, ts_flush_counter := ts_flush_counter g + 1\<rparr>;
            st = st\<lparr>rl_full_text := rl_full_text st @ content\<rparr>
        in if flush_interval \<le> ts_flush_counter g then
             (case flush_text_segment g E st of (g, st) \<Rightarrow> st\<lparr>rl_text := Some (g\<lparr>ts_flush_counter := 0\<rparr>)\<rparr>)
           else st\<lparr>rl_text := Some g\<rparr>)"

definition close_segments ::
  "string \<Rightarrow> ('x, 'd, 'n, 'db) relay_env \<Rightarrow> ('x, 'd, 'db) relay_state \<Rightarrow> ('x, 'd, 'db) relay_state" where
  "close_segments status E st = close_active_text_segment status E (complete_active_thinking E st)"

definition on_tool ::
  "('x, 'd) stream_event \<Rightarrow> ('x, 'd, 'n, 'db) relay_env \<Rightarrow> ('x, 'd, 'db) relay_state \<Rightarrow> ('x, 'd, 'db) relay_state" where
  "on_tool ev E st = forward (env_msg E) ev E (close_segments ''finish'' E (saw_side_effect st))"

definition on_tips ::
  "'d tips_data \<Rightarrow> ('x, 'd, 'n, 'db) relay_env \<Rightarrow> ('x, 'd, 'db) relay_state \<Rightarrow> ('x, 'd, 'db) relay_state" where
  "on_tips d E st =
     (let shown = tip_kind d \<in> {Tip_Success, Tip_Warning, Tip_Info};
          st = forward (env_msg E) (Ev_Tips d) E (saw_output shown st)
      in if shown then persist_tip d E st else st)"

fun handle_event ::
  "('x, 'd) stream_event \<Rightarrow> ('x, 'd, 'n, 'db) relay_env \<Rightarrow> ('x, 'd, 'db) relay_state \<Rightarrow> ('x, 'd, 'db) relay_state" where
  "handle_event (Ev_Thinking d) E st = on_thinking d E st"
| "handle_event (Ev_Text content) E st = on_text content E st"
| "handle_event (Ev_Tool_Call d) E st = persist_tool_call d E (on_tool (Ev_Tool_Call d) E st)"
| "handle_event (Ev_Acp_Tool_Call d) E st = persist_acp_tool_call d E (on_tool (Ev_Acp_Tool_Call d) E st)"
| "handle_event (Ev_Tool_Group ds) E st = persist_tool_group ds E (on_tool (Ev_Tool_Group ds) E st)"
| "handle_event (Ev_Tips d) E st = on_tips d E st"
| "handle_event (Ev_Cron_Trigger d) E st = forward (env_msg E) (Ev_Cron_Trigger d) E (saw_side_effect st)"
| "handle_event (Ev_Permission d) E st = forward (env_msg E) (Ev_Permission d) E (saw_side_effect st)"
| "handle_event (Ev_Acp_Permission d) E st = forward (env_msg E) (Ev_Acp_Permission d) E (saw_side_effect st)"
| "handle_event ev E st = forward (env_msg E) ev E st"

section \<open>The end of the stream\<close>

definition defers :: "relay_terminal \<Rightarrow> ('x, 'd, 'n, 'db) relay_env \<Rightarrow> ('x, 'd, 'db) relay_state \<Rightarrow> bool" where
  "defers term E st \<longleftrightarrow> env_defer_clean_errors E \<and> term_is_error term \<and> term_retryable term = Some True
     \<and> term_code term \<noteq> Some User_Llm_Provider_Model_Not_Found \<and> safe_to_auto_replay (rl_attempt st)"

text \<open>Finalizing and completing, common to a terminal event and a closed channel; \<open>deleting\<close> skips the
  database.\<close>

definition conclude ::
  "bool \<Rightarrow> ('x, 'd) stream_event \<Rightarrow> relay_terminal \<Rightarrow> ('x, 'd, 'n, 'db, 'x relay_outcome) relay_op" where
  "conclude deleting ev term E st =
     (case (if deleting
            then (\<lparr>system_responses = [], outcome_terminal = term, outcome_attempt = rl_attempt st\<rparr>, st)
            else finalize (rl_full_text st) (rl_segments st) ev term E st) of (ro, st) \<Rightarrow>
        let a = rl_attempt st;
            a = (if rl_full_text st \<noteq> [] then a\<lparr>persisted_assistant_output := True\<rparr> else a)
        in (ro\<lparr>outcome_attempt := a\<rparr>,
            if env_complete_turn E \<and> \<not> deleting then complete_conversation E st else st))"

fun event_error :: "('x, 'd) stream_event \<Rightarrow> 'x stream_error option" where
  "event_error (Ev_Error e) = Some e"
| "event_error _ = None"

definition note_error :: "('x, 'd) stream_event \<Rightarrow> ('x, 'd, 'db) relay_state \<Rightarrow> ('x, 'd, 'db) relay_state" where
  "note_error ev st = (case event_error ev of None \<Rightarrow> st
     | Some e \<Rightarrow> st\<lparr>rl_attempt := (rl_attempt st)\<lparr>terminal_error := Some e\<rparr>\<rparr>)"

definition on_terminal ::
  "bool \<Rightarrow> ('x, 'd) stream_event \<Rightarrow> ('x, 'd, 'n, 'db, 'x relay_outcome) relay_op" where
  "on_terminal deleting ev E st =
     (let term = terminal_from_event ev in
      if defers term E st then
        (let a = (case event_error ev of None \<Rightarrow> rl_attempt st
                  | Some e \<Rightarrow> (rl_attempt st)\<lparr>terminal_error := Some e, terminal_error_deferred := True\<rparr>)
         in (\<lparr>system_responses = [], outcome_terminal = term, outcome_attempt = a\<rparr>, st\<lparr>rl_attempt := a\<rparr>))
      else
        (let st = (if deleting then st
                   else close_segments (if is_error_event ev then ''error'' else ''finish'') E st);
             st = note_error ev (forward (env_msg E) ev E st)
         in conclude deleting ev term E st))"

definition on_closed :: "('x, 'd, 'n, 'db, 'x relay_outcome) relay_op" where
  "on_closed E st =
     (case relay_is_deleting E st of (deleting, st) \<Rightarrow>
        conclude deleting (Ev_Finish None) Term_Channel_Closed E
          (if deleting then st else close_segments ''finish'' E st))"

section \<open>The loop\<close>

datatype ('x, 'd) poll =
    Poll_Event "('x, 'd) stream_event"
  | Poll_Lagged nat
  | Poll_Closed
  | Poll_Empty
  | Poll_Send_Error "'x stream_error"
  | Poll_Send_Dropped

definition receive ::
  "('x, 'd) stream_event \<Rightarrow> ('x, 'd, 'n, 'db, 'x relay_outcome option) relay_op" where
  "receive ev E st =
     (case relay_is_deleting E st of (deleting, st) \<Rightarrow>
        if is_terminal_event ev then (case on_terminal deleting ev E st of (ro, st) \<Rightarrow> (Some ro, st))
        else (None, if deleting then st else handle_event ev E st))"

text \<open>What the relay waits for: the events and the answer of the sender; after a send error, whatever
  is left in the channel, without waiting; otherwise the events.\<close>

fun relay_step ::
  "('x, 'd) poll \<Rightarrow> ('x, 'd, 'n, 'db, 'x relay_outcome option) relay_op" where
  "relay_step (Poll_Event ev) E st =
     receive ev E (if rl_send_done st \<and> is_terminal_event ev then st\<lparr>rl_send_error := None\<rparr> else st)"
| "relay_step (Poll_Lagged n) E st = (None, if rl_send_done st then st\<lparr>rl_send_error := None\<rparr> else st)"
| "relay_step Poll_Closed E st =
     (case (if rl_send_done st then rl_send_error st else None) of
        Some e \<Rightarrow> receive (Ev_Error e) E (st\<lparr>rl_send_error := None\<rparr>)
      | None \<Rightarrow> (case on_closed E st of (ro, st) \<Rightarrow> (Some ro, st)))"
| "relay_step Poll_Empty E st =
     (case (if rl_send_done st then rl_send_error st else None) of
        Some e \<Rightarrow> receive (Ev_Error e) E (st\<lparr>rl_send_error := None\<rparr>)
      | None \<Rightarrow> (None, st))"
| "relay_step (Poll_Send_Error e) E st =
     (None, if rl_send_done st then st else st\<lparr>rl_send_done := True, rl_send_error := Some e\<rparr>)"
| "relay_step Poll_Send_Dropped E st = (None, st\<lparr>rl_send_done := True\<rparr>)"

fun relay_run ::
  "('x, 'd) poll list \<Rightarrow> ('x, 'd, 'n, 'db) relay_env \<Rightarrow> ('x, 'd, 'db) relay_state
    \<Rightarrow> ('x relay_outcome \<times> ('x, 'd, 'db) relay_state) option" where
  "relay_run [] E st = None"
| "relay_run (p # ps) E st = (case relay_step p E st of
     (Some ro, st) \<Rightarrow> Some (ro, st)
   | (None, st) \<Rightarrow> relay_run ps E st)"

end
