(* ===== verification/Relay_Facts.thy ===== *)
theory Relay_Facts
  imports Relay_Loop
begin

text \<open>
  What the relay does not do: which parts of its state an operation leaves alone, what the clients
  have seen when an attempt is reported as safe to repeat, and that nothing is stored for a
  conversation that is being deleted.
\<close>

section \<open>Quiet operations\<close>

text \<open>What a client can take for the work of the agent.\<close>

fun shows_event :: "('x, 'd) stream_event \<Rightarrow> bool" where
  "shows_event (Ev_Text c) = (c \<noteq> [])"
| "shows_event (Ev_Thinking d) = (th_content d \<noteq> [])"
| "shows_event (Ev_Tool_Call _) = True"
| "shows_event (Ev_Acp_Tool_Call _) = True"
| "shows_event (Ev_Tool_Group _) = True"
| "shows_event (Ev_Cron_Trigger _) = True"
| "shows_event (Ev_Permission _) = True"
| "shows_event (Ev_Acp_Permission _) = True"
| "shows_event (Ev_Tips d) = (tip_kind d \<noteq> Tip_Error)"
| "shows_event _ = False"

fun shows_message :: "('x, 'd) client_message \<Rightarrow> bool" where
  "shows_message (Stream_Event _ ev) = shows_event ev"
| "shows_message (Content_Override _ _ _) = True"
| "shows_message (System_Response _ _) = True"
| "shows_message (Turn_Completed _ _) = False"
| "shows_message (Stream_Row _ _) = False"

text \<open>An operation is quiet when it leaves the summary of the attempt, the text received and the state of
  the send error alone and shows nothing.\<close>

definition quiet :: "('x, 'd, 'db) relay_state \<Rightarrow> ('x, 'd, 'db) relay_state \<Rightarrow> bool" where
  "quiet st st' \<longleftrightarrow> rl_attempt st' = rl_attempt st \<and> rl_full_text st' = rl_full_text st
     \<and> rl_send_done st' = rl_send_done st \<and> rl_send_error st' = rl_send_error st
     \<and> (\<exists>ms. rl_sent st' = rl_sent st @ ms \<and> (\<forall>m \<in> set ms. \<not> shows_message m))"

lemma quiet_refl [simp, intro]: "quiet st st"
  by (simp add: quiet_def)

lemma quiet_trans [trans]: "quiet st st' \<Longrightarrow> quiet st' st'' \<Longrightarrow> quiet st st''"
  unfolding quiet_def by (elim conjE exE) (intro conjI, simp_all, blast)

lemma quietI:
  assumes "rl_attempt st' = rl_attempt st" and "rl_full_text st' = rl_full_text st"
    and "rl_send_done st' = rl_send_done st" and "rl_send_error st' = rl_send_error st" and "rl_sent st' = rl_sent st"
  shows "quiet st st'"
  using assms by (simp add: quiet_def)

lemma quiet_basic [intro]:
  "quiet st (snd (read_service E st))" "quiet st (snd (now_ms E st))" "quiet st (snd (mint_msg_id E st))"
  "quiet st (snd (allows_write k E st))" "quiet st (snd (relay_is_deleting E st))"
  "quiet st (snd (mint_segment_msg_id E st))" "quiet st (snd (run_insert r E st))"
  "quiet st (snd (run_upsert r E st))" "quiet st (snd (run_update i u E st))"
  by (auto simp: read_service_def now_ms_def mint_msg_id_def allows_write_def relay_is_deleting_def
      mint_segment_msg_id_def run_insert_def run_upsert_def run_update_def split_beta intro!: quietI)

lemma quiet_forward: "\<not> shows_event ev \<Longrightarrow> quiet st (forward i ev E st)"
  by (auto simp: quiet_def forward_def broadcast_def)

lemma quiet_after:
  "quiet st st1 \<Longrightarrow> quiet st (snd (read_service E st1))"
  "quiet st st1 \<Longrightarrow> quiet st (snd (now_ms E st1))"
  "quiet st st1 \<Longrightarrow> quiet st (snd (mint_msg_id E st1))"
  "quiet st st1 \<Longrightarrow> quiet st (snd (allows_write k E st1))"
  "quiet st st1 \<Longrightarrow> quiet st (snd (relay_is_deleting E st1))"
  "quiet st st1 \<Longrightarrow> quiet st (snd (run_insert r E st1))"
  "quiet st st1 \<Longrightarrow> quiet st (snd (run_upsert r E st1))"
  "quiet st st1 \<Longrightarrow> quiet st (snd (run_update i u E st1))"
  by (erule quiet_trans, rule quiet_basic)+

lemma quiet_adapter:
  "quiet st (snd (flush_text_segment g E st))"
  "quiet st (snd (finalize_text_segment g status E st))"
  "quiet st (persist_thinking_segment h n E st)"
  "quiet st (persist_error_tip e E st)"
  "quiet st (persist_tip d E st)"
  "quiet st (persist_tool_call tc E st)"
  "quiet st (persist_acp_tool_call ac E st)"
  unfolding flush_text_segment_def finalize_text_segment_def persist_thinking_segment_def
      persist_error_tip_def persist_tip_def persist_tool_call_def persist_acp_tool_call_def split_beta
  by (simp_all add: quiet_after quiet_basic)

lemma quiet_tool_group: "quiet st (persist_tool_group ds E st)"
  by (auto simp: persist_tool_group_def split_beta Let_def intro!: quiet_after
      split: list.splits sum.splits option.splits)

lemma quiet_complete_active_thinking: "quiet st (complete_active_thinking E st)"
proof (cases "rl_thinking st")
  case None
  then show ?thesis by (simp add: complete_active_thinking_def)
next
  case (Some h)
  let ?st = "st\<lparr>rl_thinking := None\<rparr>"
  have "quiet st ?st" by (rule quietI) simp_all
  also have "quiet ?st (snd (now_ms E ?st))" by (rule quiet_basic)
  finally have 1: "quiet st (snd (now_ms E ?st))" .
  show ?thesis
    unfolding complete_active_thinking_def Some option.case split_beta Let_def
    by (rule quiet_trans [OF 1]) (rule quiet_trans [OF quiet_forward quiet_adapter(3)], simp)
qed

lemma quiet_close_active_text_segment: "quiet st (close_active_text_segment status E st)"
proof (cases "rl_text st")
  case None
  then show ?thesis by (simp add: close_active_text_segment_def)
next
  case (Some g)
  let ?st = "st\<lparr>rl_text := None\<rparr>"
  have "quiet st ?st" by (rule quietI) simp_all
  also have "quiet ?st (snd (finalize_text_segment g status E ?st))" by (rule quiet_adapter)
  finally have 1: "quiet st (snd (finalize_text_segment g status E ?st))" .
  show ?thesis
    unfolding close_active_text_segment_def Some
    by (auto simp: split_beta 1 split: option.splits intro!: quiet_trans [OF 1] quietI)
qed

lemma quiet_close_segments: "quiet st (close_segments status E st)"
  unfolding close_segments_def
  by (rule quiet_trans [OF quiet_complete_active_thinking quiet_close_active_text_segment])

lemma quiet_active_segment:
  "quiet st (snd (active_thinking_segment E st))" "quiet st (snd (active_text_segment E st))"
  by (auto simp: active_thinking_segment_def active_text_segment_def split_beta
      intro!: quiet_after quiet_basic split: option.splits)

lemma quiet_publish: "quiet st (publish_completion sm E st)"
proof -
  let ?st = "snd (read_service E st)"
  let ?st2 = "snd (now_ms E ?st)"
  have 1: "quiet st ?st" and 2: "quiet st ?st2" by (auto intro: quiet_after quiet_basic)
  have 3: "quiet ?st2 (?st2\<lparr>rl_db := db\<rparr>)" for db by (rule quietI) simp_all
  have 5: "quiet st (broadcast (Turn_Completed i sm) (?st2\<lparr>rl_db := db\<rparr>))" for i db
    by (rule quiet_trans [OF quiet_trans [OF 2 3]]) (simp add: quiet_def broadcast_def)
  show ?thesis
    unfolding publish_completion_def split_beta
    by (simp add: 1 5 quiet_trans [OF 2 3] split: sum.split option.split)
qed

lemma quiet_complete_conversation: "quiet st (complete_conversation E st)"
proof -
  let ?st = "snd (now_ms E st)"
  have "quiet st (broadcast (Turn_Completed i None) (?st\<lparr>rl_db := db\<rparr>))" for i db
    by (rule quiet_trans [OF quiet_basic(2)]) (auto simp: quiet_def broadcast_def)
  then show ?thesis
    by (auto simp: complete_conversation_def split_beta quiet_publish)
qed

section \<open>Clean attempts\<close>

definition clean_inv :: "('x, 'd, 'db) relay_state \<Rightarrow> bool" where
  "clean_inv st \<longleftrightarrow> (safe_to_auto_replay (rl_attempt st) \<longrightarrow>
     rl_full_text st = [] \<and> (\<forall>m \<in> set (rl_sent st). \<not> shows_message m))"

lemma clean_inv_quiet: "clean_inv st \<Longrightarrow> quiet st st' \<Longrightarrow> clean_inv st'"
  unfolding clean_inv_def quiet_def by auto

lemma clean_inv_marked:
  "\<not> safe_to_auto_replay (rl_attempt st) \<Longrightarrow> clean_inv st"
  by (simp add: clean_inv_def)

lemma clean_inv_cong:
  assumes "clean_inv st" and "rl_attempt st' = rl_attempt st" and "rl_full_text st' = rl_full_text st"
    and "rl_sent st' = rl_sent st"
  shows "clean_inv st'"
  using assms by (simp add: clean_inv_def)

lemma attempt_forward [simp]: "rl_attempt (forward i ev E st) = rl_attempt st"
  by (simp add: forward_def broadcast_def)

lemma full_text_forward [simp]: "rl_full_text (forward i ev E st) = rl_full_text st"
  by (simp add: forward_def broadcast_def)

lemma clean_inv_forward:
  assumes "clean_inv st" and "safe_to_auto_replay (rl_attempt st) \<Longrightarrow> \<not> shows_event ev"
  shows "clean_inv (forward i ev E st)"
  using assms by (auto simp: clean_inv_def forward_def broadcast_def)

lemma clean_inv_saw:
  "clean_inv st \<Longrightarrow> clean_inv (saw_output b st)" "clean_inv (saw_side_effect st)"
  by (auto simp: clean_inv_def saw_output_def saw_side_effect_def safe_to_auto_replay_def)

lemma attempt_quiet: "quiet st st' \<Longrightarrow> rl_attempt st' = rl_attempt st"
  by (simp add: quiet_def)

lemma safe_saw_output [simp]:
  "safe_to_auto_replay (rl_attempt (saw_output b st)) \<longleftrightarrow> \<not> b \<and> safe_to_auto_replay (rl_attempt st)"
  by (simp add: saw_output_def safe_to_auto_replay_def)

lemma safe_saw_side_effect [simp]: "\<not> safe_to_auto_replay (rl_attempt (saw_side_effect st))"
  by (simp add: saw_side_effect_def safe_to_auto_replay_def)

lemma clean_inv_segment_closed:
  "clean_inv st \<Longrightarrow> clean_inv (complete_active_thinking E st)"
  "clean_inv st \<Longrightarrow> clean_inv (close_active_text_segment status E st)"
  "clean_inv st \<Longrightarrow> clean_inv (close_segments status E st)"
  by (auto intro: clean_inv_quiet quiet_complete_active_thinking quiet_close_active_text_segment quiet_close_segments)

lemma clean_on_thinking:
  assumes "clean_inv st"
  shows "clean_inv (on_thinking d E st)"
proof (cases "th_status d = Some ''done''")
  case True
  then show ?thesis using assms by (simp add: on_thinking_def clean_inv_segment_closed)
next
  case False
  let ?s1 = "saw_output (th_content d \<noteq> []) (close_active_text_segment ''finish'' E st)"
  let ?s2 = "active_thinking_segment E ?s1"
  have "clean_inv (snd ?s2)"
    by (rule clean_inv_quiet [OF _ quiet_active_segment(1)])
      (simp add: assms clean_inv_saw clean_inv_segment_closed)
  moreover have "rl_attempt (snd ?s2) = rl_attempt ?s1"
    by (rule attempt_quiet [OF quiet_active_segment(1)])
  ultimately show ?thesis
    using False by (auto simp: on_thinking_def split_beta Let_def
        intro!: clean_inv_forward clean_inv_cong [of "snd ?s2"])
qed

lemma clean_on_text:
  assumes "clean_inv st"
  shows "clean_inv (on_text content E st)"
proof -
  let ?s1 = "saw_output (content \<noteq> []) (complete_active_thinking E st)"
  let ?s2 = "active_text_segment E ?s1"
  let ?s3 = "forward (ts_id (fst ?s2)) (Ev_Text content) E (snd ?s2)"
  let ?s4 = "?s3\<lparr>rl_full_text := rl_full_text ?s3 @ content\<rparr>"
  have "clean_inv (snd ?s2)"
    by (rule clean_inv_quiet [OF _ quiet_active_segment(2)])
      (simp add: assms clean_inv_saw clean_inv_segment_closed)
  moreover have a: "rl_attempt (snd ?s2) = rl_attempt ?s1"
    by (rule attempt_quiet [OF quiet_active_segment(2)])
  ultimately have "clean_inv ?s3"
    by (auto intro!: clean_inv_forward)
  then have 4: "clean_inv ?s4"
    using a by (auto simp: clean_inv_def)
  have "clean_inv (st'\<lparr>rl_text := g\<rparr>)" if "quiet ?s4 st'" for st' g
    using clean_inv_quiet [OF 4 that] by (rule clean_inv_cong) simp_all
  then show ?thesis
    by (simp add: on_text_def split_beta Let_def quiet_adapter)
qed

lemma clean_on_tool: "clean_inv (on_tool ev E st)"
  using attempt_quiet [OF quiet_close_segments, of "''finish''" E "saw_side_effect st"]
  by (auto simp: on_tool_def intro!: clean_inv_marked)

lemma clean_forward_side_effect: "clean_inv (forward i ev E (saw_side_effect st))"
  by (simp add: clean_inv_marked)

lemma clean_on_tips:
  assumes "clean_inv st"
  shows "clean_inv (on_tips d E st)"
proof -
  have 1: "clean_inv (forward (env_msg E) (Ev_Tips d) E (saw_output (tip_kind d \<noteq> Tip_Error) st))"
    using assms by (auto intro!: clean_inv_forward clean_inv_saw)
  have "tip_kind d \<in> {Tip_Success, Tip_Warning, Tip_Info} \<longleftrightarrow> tip_kind d \<noteq> Tip_Error"
    by (cases "tip_kind d") auto
  then show ?thesis
    using 1 clean_inv_quiet [OF 1 quiet_adapter(5)] unfolding on_tips_def Let_def
    by (cases "tip_kind d = Tip_Error") simp_all
qed

lemma clean_handle_event:
  assumes "clean_inv st"
  shows "clean_inv (handle_event ev E st)"
proof (cases ev)
  case (Ev_Tool_Call d)
  then show ?thesis using clean_inv_quiet [OF clean_on_tool quiet_adapter(6)] by simp
next
  case (Ev_Acp_Tool_Call d)
  then show ?thesis using clean_inv_quiet [OF clean_on_tool quiet_adapter(7)] by simp
next
  case (Ev_Tool_Group d)
  then show ?thesis using clean_inv_quiet [OF clean_on_tool quiet_tool_group] by simp
qed (simp_all add: assms clean_on_thinking clean_on_text clean_on_tips clean_inv_forward clean_forward_side_effect)

section \<open>What a finished attempt has shown\<close>

text \<open>Only the database and the clients are affected by finalizing.\<close>

definition keeps_attempt :: "('x, 'd, 'db) relay_state \<Rightarrow> ('x, 'd, 'db) relay_state \<Rightarrow> bool" where
  "keeps_attempt st st' \<longleftrightarrow> rl_attempt st' = rl_attempt st \<and> rl_full_text st' = rl_full_text st"

lemma keeps_attempt_quiet: "quiet st st' \<Longrightarrow> keeps_attempt st st'"
  by (simp add: quiet_def keeps_attempt_def)

lemma keeps_attempt_trans [trans]: "keeps_attempt a b \<Longrightarrow> keeps_attempt b c \<Longrightarrow> keeps_attempt a c"
  by (simp add: keeps_attempt_def)

lemma keeps_attempt_refl [simp]: "keeps_attempt st st"
  by (simp add: keeps_attempt_def)

lemma quiet_hide_superseded: "quiet st (hide_superseded status is E st)"
  by (induction "is" arbitrary: st) (auto intro: quiet_trans [OF quiet_basic(9)])

lemma quiet_settle_segments: "quiet st (settle_segments status is E st)"
  by (induction "is" arbitrary: st) (auto intro: quiet_trans [OF quiet_basic(9)])

lemma quiet_persist_final_text: "quiet st (snd (persist_final_text segs status text hid rewrite E st))"
  unfolding persist_final_text_def split_beta
  by (auto simp: Let_def quiet_basic quiet_after intro!: quiet_trans [OF _ quiet_hide_superseded]
      quiet_trans [OF _ quiet_settle_segments] split: list.splits)

lemma keeps_send_overrides: "keeps_attempt st (send_overrides os st)"
  by (induction os st rule: send_overrides.induct) (auto simp: keeps_attempt_def broadcast_def)

lemma keeps_send_system_responses: "keeps_attempt st (send_system_responses rs E st)"
  by (induction rs E st rule: send_system_responses.induct)
    (auto simp: keeps_attempt_def broadcast_def mint_msg_id_def)

lemma finalize_keeps: "keeps_attempt st (snd (finalize text segs ev term E st))"
proof -
  let ?p = "process_final_text E text" and ?status = "if is_error_event ev then ''error'' else ''finish''"
  let ?o = "persist_final_text segs ?status (trim (fst ?p)) (trim (fst ?p) = []) (fst ?p \<noteq> text \<or> trim (fst ?p) = []) E st"
  let ?s = "send_system_responses (snd ?p) E (send_overrides (fst ?o) (snd ?o))"
  have "keeps_attempt st (snd ?o)" by (rule keeps_attempt_quiet [OF quiet_persist_final_text])
  also have "keeps_attempt \<dots> (send_overrides (fst ?o) (snd ?o))" by (rule keeps_send_overrides)
  also have "keeps_attempt \<dots> ?s" by (rule keeps_send_system_responses)
  finally have 1: "keeps_attempt st ?s" .
  show ?thesis
  proof (cases "text = []")
    case True
    then show ?thesis
      by (auto simp: finalize_def Let_def intro: keeps_attempt_quiet quiet_adapter split: stream_event.split)
  next
    case False
    then show ?thesis
      using 1 by (auto simp: finalize_def Let_def split_beta keeps_attempt_def split: option.split)
  qed
qed

lemma quiet_finalize_empty: "quiet st (snd (finalize [] segs ev term E st))"
  by (auto simp: finalize_def Let_def quiet_adapter split: stream_event.split)

definition unseen :: "('x, 'd, 'db) relay_state \<Rightarrow> bool" where
  "unseen st \<longleftrightarrow> rl_full_text st = [] \<and> (\<forall>m \<in> set (rl_sent st). \<not> shows_message m)"

lemma unseen_quiet: "unseen st \<Longrightarrow> quiet st st' \<Longrightarrow> unseen st'"
  by (auto simp: unseen_def quiet_def)

lemma clean_inv_unseen: "clean_inv st \<Longrightarrow> safe_to_auto_replay (rl_attempt st) \<Longrightarrow> unseen st"
  by (simp add: clean_inv_def unseen_def)

lemma clean_conclude:
  assumes inv: "clean_inv st" and c: "conclude deleting ev term E st = (ro, st')"
    and safe: "safe_to_auto_replay (outcome_attempt ro)"
  shows "unseen st'"
proof -
  let ?f = "if deleting then (\<lparr>system_responses = [], outcome_terminal = term, outcome_attempt = rl_attempt st\<rparr>, st)
      else finalize (rl_full_text st) (rl_segments st) ev term E st"
  let ?s = "snd ?f"
  have st': "st' = (if env_complete_turn E \<and> \<not> deleting then complete_conversation E ?s else ?s)"
    and ro: "outcome_attempt ro = (if rl_full_text ?s \<noteq> [] then (rl_attempt ?s)\<lparr>persisted_assistant_output := True\<rparr>
      else rl_attempt ?s)"
    using c by (auto simp: conclude_def split_beta Let_def)
  have empty: "rl_full_text ?s = []" and a: "safe_to_auto_replay (rl_attempt ?s)"
    using safe ro by (auto simp: safe_to_auto_replay_def split: if_splits)
  have "rl_full_text ?s = rl_full_text st" "rl_attempt ?s = rl_attempt st"
    using finalize_keeps [of st "rl_full_text st" "rl_segments st" ev "term" E] by (auto simp: keeps_attempt_def)
  with empty a have "rl_full_text st = []" "safe_to_auto_replay (rl_attempt st)" by simp_all
  moreover from this have "quiet st ?s" using quiet_finalize_empty [of st "rl_segments st" ev "term" E] by simp
  ultimately have "unseen ?s" using inv clean_inv_unseen unseen_quiet by blast
  then show ?thesis
    using st' unseen_quiet [OF _ quiet_complete_conversation] by (simp split: if_splits)
qed

lemma clean_on_terminal:
  assumes inv: "clean_inv st" and c: "on_terminal deleting ev E st = (ro, st')" and ev: "is_terminal_event ev"
    and safe: "safe_to_auto_replay (outcome_attempt ro)"
  shows "unseen st'"
proof (cases "defers (terminal_from_event ev) E st")
  case True
  then have "safe_to_auto_replay (rl_attempt st)" by (simp add: defers_def)
  moreover have "unseen st' = unseen st"
    using c True by (auto simp: on_terminal_def Let_def unseen_def)
  ultimately show ?thesis using clean_inv_unseen [OF inv] by simp
next
  case False
  let ?s1 = "if deleting then st else close_segments (if is_error_event ev then ''error'' else ''finish'') E st"
  let ?s2 = "forward (env_msg E) ev E ?s1"
  have "clean_inv ?s1" using inv by (simp add: clean_inv_segment_closed)
  then have 2: "clean_inv ?s2" using ev by (cases ev) (auto intro: clean_inv_forward)
  then have "clean_inv (note_error ev ?s2)"
    by (auto simp: note_error_def clean_inv_def safe_to_auto_replay_def split: option.splits)
  then show ?thesis
    using clean_conclude [OF _ _ safe] c False by (simp add: on_terminal_def Let_def)
qed

lemma clean_receive:
  assumes inv: "clean_inv st" and r: "receive ev E st = (res, st')"
  shows "res = None \<Longrightarrow> clean_inv st'"
    and "res = Some ro \<Longrightarrow> safe_to_auto_replay (outcome_attempt ro) \<Longrightarrow> unseen st'"
proof -
  let ?s = "snd (relay_is_deleting E st)"
  have 1: "clean_inv ?s" using clean_inv_quiet [OF inv quiet_basic(5)] .
  show "clean_inv st'" if "res = None"
    using r that 1 clean_handle_event [OF 1] by (auto simp: receive_def split_beta split: if_splits)
  show "unseen st'" if "res = Some ro" "safe_to_auto_replay (outcome_attempt ro)"
    using r that clean_on_terminal [OF 1 surjective_pairing] by (auto simp: receive_def split_beta split: if_splits)
qed

lemma clean_step:
  assumes inv: "clean_inv st" and r: "relay_step p E st = (res, st')"
  shows "res = None \<Longrightarrow> clean_inv st'"
    and "res = Some ro \<Longrightarrow> safe_to_auto_replay (outcome_attempt ro) \<Longrightarrow> unseen st'"
proof -
  have upd: "clean_inv (st\<lparr>rl_send_error := e\<rparr>)" "clean_inv (st\<lparr>rl_send_done := b\<rparr>)"
    "clean_inv (st\<lparr>rl_send_done := b, rl_send_error := e\<rparr>)" for e b
    by (rule clean_inv_cong [OF inv]; simp)+
  have closed: "unseen s'" if "on_closed E st = (ro, s')" "safe_to_auto_replay (outcome_attempt ro)" for ro s'
  proof -
    let ?s = "snd (relay_is_deleting E st)"
    have "clean_inv ?s" using clean_inv_quiet [OF inv quiet_basic(5)] .
    then have "clean_inv (if fst (relay_is_deleting E st) then ?s else close_segments ''finish'' E ?s)"
      by (simp add: clean_inv_segment_closed)
    then show ?thesis using that clean_conclude by (simp add: on_closed_def split_beta)
  qed
  show "clean_inv st'" if "res = None"
    using r that clean_receive(1) [OF upd(1)] clean_receive(1) [OF inv] inv upd
    by (cases p) (auto split: if_splits option.splits prod.splits)
  show "unseen st'" if "res = Some ro" "safe_to_auto_replay (outcome_attempt ro)"
    using r that clean_receive(2) [OF upd(1)] clean_receive(2) [OF inv] closed
    by (cases p) (auto split: if_splits option.splits prod.splits)
qed

lemma clean_run:
  assumes "relay_run ps E st = Some (ro, st')" and "clean_inv st" and "safe_to_auto_replay (outcome_attempt ro)"
  shows "unseen st'"
  using assms
proof (induction ps arbitrary: st)
  case (Cons p ps)
  show ?case
  proof (cases "relay_step p E st")
    case (Pair res s)
    then show ?thesis
      using Cons clean_step [OF Cons.prems(2) Pair] by (cases res) auto
  qed
qed simp

lemma clean_inv_new [simp]: "clean_inv (new_relay b db)"
  by (simp add: clean_inv_def new_relay_def)

section \<open>Nothing is stored while the conversation is being deleted\<close>

text \<open>From the next read on the conversation is marked as being deleted.\<close>

definition doomed :: "('x, 'd, 'n, 'db) relay_env \<Rightarrow> ('x, 'd, 'db) relay_state \<Rightarrow> bool" where
  "doomed E st \<longleftrightarrow> env_persistence E \<and> env_watches_runtime E
     \<and> (\<forall>n \<ge> rl_reads st. is_deleting (env_conversation E) (env_service E n))"

definition unwritten ::
  "('x, 'd, 'n, 'db) relay_env \<Rightarrow> ('x, 'd, 'db) relay_state \<Rightarrow> ('x, 'd, 'db) relay_state \<Rightarrow> bool" where
  "unwritten E st st' \<longleftrightarrow> (doomed E st \<longrightarrow> rl_db st' = rl_db st \<and> doomed E st')"

lemma unwritten_refl [simp]: "unwritten E st st"
  by (simp add: unwritten_def)

lemma unwritten_trans [trans]: "unwritten E a b \<Longrightarrow> unwritten E b c \<Longrightarrow> unwritten E a c"
  by (simp add: unwritten_def)

lemma unwrittenI: "rl_db st' = rl_db st \<Longrightarrow> rl_reads st \<le> rl_reads st' \<Longrightarrow> unwritten E st st'"
  by (auto simp: unwritten_def doomed_def)

lemma deleting_writes: "is_deleting c s \<Longrightarrow> allows c k s \<Longrightarrow> k = Wk_User_Message"
  by (auto simp: is_deleting_def allows_iff lifecycle_for_def split: sum.splits if_splits)

lemma doomed_reads:
  assumes "doomed E st"
  shows "k \<noteq> Wk_User_Message \<Longrightarrow> \<not> fst (allows_write k E st)" and "fst (relay_is_deleting E st)"
  using assms deleting_writes unfolding doomed_def
  by (auto simp: allows_write_def read_service_def relay_is_deleting_def)

lemma unwritten_basic:
  "unwritten E st (snd (read_service E st))" "unwritten E st (snd (now_ms E st))"
  "unwritten E st (snd (mint_msg_id E st))" "unwritten E st (snd (allows_write k E st))"
  "unwritten E st (snd (relay_is_deleting E st))" "unwritten E st (snd (mint_segment_msg_id E st))"
  "unwritten E st (forward i ev E st)" "unwritten E st (saw_output b st)" "unwritten E st (saw_side_effect st)"
  "unwritten E st (broadcast m st)" "unwritten E st (note_error ev st)"
  by (auto simp: read_service_def now_ms_def mint_msg_id_def allows_write_def relay_is_deleting_def
      mint_segment_msg_id_def forward_def broadcast_def saw_output_def saw_side_effect_def note_error_def
      split_beta intro!: unwrittenI split: option.splits)

lemma unwritten_fields [simp]:
  "unwritten E st (st'\<lparr>rl_text := g\<rparr>) = unwritten E st st'"
  "unwritten E st (st'\<lparr>rl_thinking := h\<rparr>) = unwritten E st st'"
  "unwritten E st (st'\<lparr>rl_full_text := x\<rparr>) = unwritten E st st'"
  "unwritten E st (st'\<lparr>rl_segments := segs\<rparr>) = unwritten E st st'"
  "unwritten E st (st'\<lparr>rl_attempt := a\<rparr>) = unwritten E st st'"
  by (simp_all add: unwritten_def doomed_def)

text \<open>An adapter operation asks first, and is refused.\<close>

lemma unwritten_ask:
  assumes "doomed E st \<Longrightarrow> \<not> fst (allows_write k E st) \<Longrightarrow> st' = snd (allows_write k E st)"
    and "k \<noteq> Wk_User_Message"
  shows "unwritten E st st'"
  using assms doomed_reads(1) [of E st k] unwritten_basic(4) [of E st k] by (auto simp: unwritten_def)

lemma unwritten_adapter:
  "unwritten E st (snd (flush_text_segment g E st))"
  "unwritten E st (snd (finalize_text_segment g status E st))"
  "unwritten E st (persist_thinking_segment h n E st)"
  "unwritten E st (persist_error_tip e E st)"
  "unwritten E st (persist_tip d E st)"
  "unwritten E st (persist_tool_call tc E st)"
  "unwritten E st (persist_acp_tool_call ac E st)"
  "unwritten E st (persist_tool_group ds E st)"
  "unwritten E st (snd (persist_final_text segs status txt hid rewrite E st))"
         apply (rule unwritten_ask [where k = Wk_Assistant_Text_Flush]; simp add: flush_text_segment_def split_beta)
        apply (rule unwritten_ask [where k = Wk_Assistant_Text_Finalize]; simp add: finalize_text_segment_def split_beta)
       apply (cases "hs_buffer h = []", simp add: persist_thinking_segment_def)
       apply (rule unwritten_ask [where k = Wk_Assistant_Thinking_Finalize]; simp add: persist_thinking_segment_def split_beta)
      apply (rule unwritten_ask [where k = Wk_Terminal_Finalize]; simp add: persist_error_tip_def split_beta)
     apply (rule unwritten_ask [where k = Wk_Terminal_Finalize]; simp add: persist_tip_def split_beta)
    apply (rule unwritten_ask [where k = Wk_Tool_Call_Persist]; simp add: persist_tool_call_def split_beta)
   apply (rule unwritten_ask [where k = Wk_Acp_Tool_Call_Persist]; simp add: persist_acp_tool_call_def split_beta)
  apply (rule unwritten_ask [where k = Wk_Tool_Group_Persist]; simp add: persist_tool_group_def split_beta)
  apply (rule unwritten_ask [where k = Wk_Terminal_Finalize]; simp add: persist_final_text_def split_beta)
  done

lemma unwritten_complete_active_thinking: "unwritten E st (complete_active_thinking E st)"
proof (cases "rl_thinking st")
  case None
  then show ?thesis by (simp add: complete_active_thinking_def)
next
  case (Some h)
  let ?st = "st\<lparr>rl_thinking := None\<rparr>"
  have "unwritten E st ?st" by (rule unwrittenI) simp_all
  also have "unwritten E ?st (snd (now_ms E ?st))" by (rule unwritten_basic)
  finally have 1: "unwritten E st (snd (now_ms E ?st))" .
  show ?thesis
    unfolding complete_active_thinking_def Some option.case split_beta Let_def
    by (rule unwritten_trans [OF 1]) (rule unwritten_trans [OF unwritten_basic(7) unwritten_adapter(3)])
qed

lemma unwritten_close_active_text_segment: "unwritten E st (close_active_text_segment status E st)"
proof (cases "rl_text st")
  case None
  then show ?thesis by (simp add: close_active_text_segment_def)
next
  case (Some g)
  let ?st = "st\<lparr>rl_text := None\<rparr>"
  have "unwritten E st ?st" by (rule unwrittenI) simp_all
  also have "unwritten E ?st (snd (finalize_text_segment g status E ?st))" by (rule unwritten_adapter)
  finally have 1: "unwritten E st (snd (finalize_text_segment g status E ?st))" .
  show ?thesis
    unfolding close_active_text_segment_def Some option.case split_beta
    by (simp add: 1 unwritten_trans [OF 1] unwrittenI split: option.split)
qed

lemma unwritten_close_segments: "unwritten E st (close_segments status E st)"
  unfolding close_segments_def
  by (rule unwritten_trans [OF unwritten_complete_active_thinking unwritten_close_active_text_segment])

lemma unwritten_on_thinking: "unwritten E st (on_thinking d E st)"
proof -
  let ?s1 = "saw_output (th_content d \<noteq> []) (close_active_text_segment ''finish'' E st)"
  have 1: "unwritten E st ?s1"
    by (rule unwritten_trans [OF unwritten_close_active_text_segment unwritten_basic(8)])
  have 2: "unwritten E ?s1 (snd (active_thinking_segment E ?s1))"
    by (auto simp: active_thinking_segment_def split_beta split: option.split
        intro: unwritten_trans [OF unwritten_basic(6) unwritten_basic(2)])
  have "unwritten E st (forward i ev E ((snd (active_thinking_segment E ?s1))\<lparr>rl_thinking := h\<rparr>))" for i ev h
    by (rule unwritten_trans [OF unwritten_trans [OF 1 2] unwritten_trans [OF unwrittenI unwritten_basic(7)]]) simp_all
  then show ?thesis
    by (simp add: on_thinking_def split_beta Let_def unwritten_complete_active_thinking)
qed

lemma unwritten_on_text: "unwritten E st (on_text content E st)"
proof -
  let ?s1 = "saw_output (content \<noteq> []) (complete_active_thinking E st)"
  let ?s2 = "active_text_segment E ?s1"
  let ?s3 = "forward (ts_id (fst ?s2)) (Ev_Text content) E (snd ?s2)"
  let ?s4 = "?s3\<lparr>rl_full_text := rl_full_text ?s3 @ content\<rparr>"
  have "unwritten E st ?s1"
    by (rule unwritten_trans [OF unwritten_complete_active_thinking unwritten_basic(8)])
  also have "unwritten E ?s1 (snd ?s2)"
    by (auto simp: active_text_segment_def split_beta split: option.split
        intro: unwritten_trans [OF unwritten_basic(6) unwritten_basic(2)])
  also have "unwritten E (snd ?s2) ?s3" by (rule unwritten_basic)
  also have "unwritten E ?s3 ?s4" by (rule unwrittenI) simp_all
  finally have 4: "unwritten E st ?s4" .
  have "unwritten E st (snd (flush_text_segment g E ?s4))" for g
    by (rule unwritten_trans [OF 4 unwritten_adapter(1)])
  with 4 show ?thesis
    unfolding on_text_def split_beta Let_def by simp
qed

lemma unwritten_on_tool: "unwritten E st (on_tool ev E st)"
  unfolding on_tool_def
  by (rule unwritten_trans [OF unwritten_basic(9) unwritten_trans [OF unwritten_close_segments unwritten_basic(7)]])

lemma unwritten_handle_event: "unwritten E st (handle_event ev E st)"
proof (cases ev)
  case (Ev_Tips d)
  have "unwritten E st (forward i e E (saw_output b st))" for i e b
    by (rule unwritten_trans [OF unwritten_basic(8) unwritten_basic(7)])
  then show ?thesis
    using Ev_Tips by (simp add: on_tips_def Let_def unwritten_trans [OF _ unwritten_adapter(5)])
qed (simp_all add: unwritten_on_thinking unwritten_on_text unwritten_basic
    unwritten_trans [OF unwritten_on_tool unwritten_adapter(6)] unwritten_trans [OF unwritten_on_tool unwritten_adapter(7)]
    unwritten_trans [OF unwritten_on_tool unwritten_adapter(8)] unwritten_trans [OF unwritten_basic(9) unwritten_basic(7)])

text \<open>A stream that ends while the mark is set stores nothing and asks for no continuation.\<close>

lemma doomed_on_terminal:
  assumes d: "doomed E st" and t: "on_terminal True ev E st = (ro, st')"
  shows "rl_db st' = rl_db st" and "doomed E st'" and "system_responses ro = []"
proof -
  have 1: "unwritten E st (note_error ev (forward (env_msg E) ev E st))"
    by (rule unwritten_trans [OF unwritten_basic(7) unwritten_basic(11)])
  have 2: "unwritten E st (st\<lparr>rl_attempt := a\<rparr>)" for a
    by (rule unwrittenI) simp_all
  show "rl_db st' = rl_db st" "doomed E st'" "system_responses ro = []"
    using t d 1 2 by (auto simp: on_terminal_def Let_def conclude_def unwritten_def split: if_splits)
qed

lemma doomed_receive:
  assumes "doomed E st" and "receive ev E st = (res, st')"
  shows "rl_db st' = rl_db st \<and> doomed E st' \<and> (\<forall>ro. res = Some ro \<longrightarrow> system_responses ro = [])"
proof -
  let ?s = "snd (relay_is_deleting E st)"
  have s: "rl_db ?s = rl_db st" "doomed E ?s"
    using unwritten_basic(5) [of E st] assms(1) by (auto simp: unwritten_def)
  then show ?thesis
    using assms(2) doomed_reads(2) [OF assms(1)] doomed_on_terminal [OF s(2) surjective_pairing, of ev]
    by (auto simp: receive_def split_beta split: if_splits)
qed

lemma doomed_step:
  assumes d: "doomed E st" and r: "relay_step p E st = (res, st')"
  shows "rl_db st' = rl_db st \<and> doomed E st' \<and> (\<forall>ro. res = Some ro \<longrightarrow> system_responses ro = [])"
proof -
  have upd: "doomed E (st\<lparr>rl_send_error := e\<rparr>)" "doomed E (st\<lparr>rl_send_done := b\<rparr>)"
    "doomed E (st\<lparr>rl_send_done := b, rl_send_error := e\<rparr>)" for e b
    using d by (simp_all add: doomed_def)
  have closed: "rl_db s' = rl_db st \<and> doomed E s' \<and> system_responses ro = []" if "on_closed E st = (ro, s')" for ro s'
    using that doomed_reads(2) [OF d] unwritten_basic(5) [of E st] d
    by (auto simp: on_closed_def split_beta conclude_def Let_def unwritten_def)
  let ?ok = "\<lambda>res s'. rl_db s' = rl_db st \<and> doomed E s' \<and> (\<forall>ro. res = Some ro \<longrightarrow> system_responses ro = [])"
  have rcv1: "receive ev E st = (res, s') \<Longrightarrow> ?ok res s'" for ev res s'
    using doomed_receive [OF d] by simp
  have rcv2: "receive ev E (st\<lparr>rl_send_error := e\<rparr>) = (res, s') \<Longrightarrow> ?ok res s'" for ev e res s'
    using doomed_receive [OF upd(1), of ev e] by simp
  show ?thesis
  proof (cases p)
    case (Poll_Event ev)
    then show ?thesis using r by (cases "rl_send_done st \<and> is_terminal_event ev") (auto dest!: rcv1 rcv2)
  next
    case Poll_Closed
    then show ?thesis using r by (auto split: if_splits option.splits prod.splits dest!: rcv1 rcv2 closed)
  next
    case Poll_Empty
    then show ?thesis using r d by (auto split: if_splits option.splits dest!: rcv1 rcv2)
  qed (use r d upd in \<open>auto split: if_splits\<close>)
qed

lemma doomed_run:
  assumes "relay_run ps E st = Some (ro, st')" and "doomed E st"
  shows "rl_db st' = rl_db st \<and> system_responses ro = []"
  using assms
proof (induction ps arbitrary: st)
  case (Cons p ps)
  show ?case
  proof (cases "relay_step p E st")
    case (Pair res s)
    then show ?thesis
      using Cons doomed_step [OF Cons.prems(2) Pair] by (cases res) auto
  qed
qed simp

end
