(* ===== verification/Relay_Text.thy ===== *)
theory Relay_Text
  imports Relay_Facts
begin

text \<open>
  No streamed text is lost: the client of the contract \<open>message_store\<close>. As long as the conversation
  is active, the identifiers are fresh and the store works, the rows of the segments of a turn hold
  the text received so far, and after the stream has ended what they show is the reply: the text
  as it was streamed, or, when the middleware has rewritten it, the rewritten text in the first
  row with the other rows hidden.
\<close>

section \<open>Identifiers\<close>

definition own_ids :: "('x, 'd, 'n, 'db) relay_env \<Rightarrow> string set" where
  "own_ids E = insert (env_msg E) (range (env_mint E))"

definition issued_ids :: "('x, 'd, 'n, 'db) relay_env \<Rightarrow> ('x, 'd, 'db) relay_state \<Rightarrow> string set" where
  "issued_ids E st = (if rl_used_primary st then {env_msg E} else {}) \<union> env_mint E ` {..< rl_minted st}"

definition fresh_mint :: "('x, 'd, 'n, 'db) relay_env \<Rightarrow> bool" where
  "fresh_mint E \<longleftrightarrow> inj (env_mint E) \<and> env_msg E \<notin> range (env_mint E)"

fun event_ids :: "('x, 'd) stream_event \<Rightarrow> string set" where
  "event_ids (Ev_Tool_Call d) = {tc_call_id d}"
| "event_ids (Ev_Acp_Tool_Call d) = {acp_tool_call_id d}"
| "event_ids (Ev_Tool_Group ds) = set (map tg_call_id ds)"
| "event_ids _ = {}"

fun event_text :: "('x, 'd) stream_event \<Rightarrow> string" where
  "event_text (Ev_Text c) = c"
| "event_text _ = []"

definition streamed_text :: "('x, 'd) stream_event list \<Rightarrow> string" where
  "streamed_text evs = concat (map event_text evs)"

lemma issued_own: "issued_ids E st \<subseteq> own_ids E"
  by (auto simp: issued_ids_def own_ids_def)

lemma mint_fresh:
  assumes "fresh_mint E"
  shows "env_mint E (rl_minted st) \<notin> issued_ids E st"
  using assms by (auto simp: fresh_mint_def issued_ids_def dest: injD) (metis rangeI)

section \<open>What the rows show\<close>

fun json_text :: "('x, 'd) msg_json \<Rightarrow> string" where
  "json_text (Json_Text s) = s"
| "json_text _ = []"

definition shown_text :: "('x, 'd) msg_json message_row option \<Rightarrow> string" where
  "shown_text m = (case m of None \<Rightarrow> [] | Some m \<Rightarrow> if msg_hidden m then [] else json_text (msg_content m))"

definition visible_text :: "(string \<Rightarrow> ('x, 'd) msg_json message_row option) \<Rightarrow> string list \<Rightarrow> string" where
  "visible_text f segs = concat (map (\<lambda>i. shown_text (f i)) segs)"

lemma visible_text_simps [simp]:
  "visible_text f [] = []"
  "visible_text f (segs @ [i]) = visible_text f segs @ shown_text (f i)"
  "visible_text f (i # segs) = shown_text (f i) @ visible_text f segs"
  by (simp_all add: visible_text_def)

lemma visible_text_cong: "(\<And>i. i \<in> set segs \<Longrightarrow> f i = g i) \<Longrightarrow> visible_text f segs = visible_text g segs"
  unfolding visible_text_def by (intro arg_cong [where f = concat] map_cong) auto

text \<open>What the reply shows.\<close>

definition reply_text :: "('x, 'd, 'n, 'db) relay_env \<Rightarrow> string \<Rightarrow> string" where
  "reply_text E txt = (let m = env_strip E txt in
     if txt = [] then [] else if m = txt \<and> trim m \<noteq> [] then txt else trim m)"

section \<open>An active conversation\<close>

definition active_env :: "('x, 'd, 'n, 'db) relay_env \<Rightarrow> bool" where
  "active_env E \<longleftrightarrow> (\<forall>n. lifecycle_for (env_conversation E) (env_service E n) = Lc_Active)"

lemma active_reads:
  assumes "active_env E"
  shows "fst (allows_write k E st)" and "\<not> fst (relay_is_deleting E st)"
  using assms
  by (auto simp: active_env_def allows_write_def relay_is_deleting_def read_service_def allows_iff
      lifecycle_for_def is_deleting_def split_beta split: sum.splits if_splits)

text \<open>Everything that the rows of the segments depend on.\<close>

definition same_text :: "('x, 'd, 'db) relay_state \<Rightarrow> ('x, 'd, 'db) relay_state \<Rightarrow> bool" where
  "same_text st st' \<longleftrightarrow> rl_db st' = rl_db st \<and> rl_used_primary st' = rl_used_primary st
     \<and> rl_minted st' = rl_minted st \<and> rl_segments st' = rl_segments st \<and> rl_text st' = rl_text st
     \<and> rl_thinking st' = rl_thinking st \<and> rl_full_text st' = rl_full_text st"

lemma same_text_basic [simp]:
  "same_text st (snd (read_service E st))" "same_text st (snd (now_ms E st))"
  "same_text st (snd (allows_write k E st))" "same_text st (snd (relay_is_deleting E st))"
  "same_text st (forward i ev E st)" "same_text st (saw_output b st)" "same_text st (saw_side_effect st)"
  "same_text st (note_error ev st)" "same_text st st"
  by (auto simp: same_text_def read_service_def now_ms_def allows_write_def relay_is_deleting_def
      forward_def broadcast_def saw_output_def saw_side_effect_def note_error_def split_beta split: option.splits)

lemma same_text_trans: "same_text a b \<Longrightarrow> same_text b c \<Longrightarrow> same_text a c"
  by (simp add: same_text_def)

lemma quiet_full_text: "quiet st st' \<Longrightarrow> rl_full_text st' = rl_full_text st"
  by (simp add: quiet_def)

lemma full_text_handle_event:
  assumes "\<not> is_terminal_event ev"
  shows "rl_full_text (handle_event ev E st) = rl_full_text st @ event_text ev"
proof -
  note full = quiet_full_text
  note closed = full [OF quiet_complete_active_thinking] full [OF quiet_close_active_text_segment] full [OF quiet_close_segments]
    full [OF quiet_adapter(1)] full [OF quiet_adapter(5)] full [OF quiet_adapter(6)] full [OF quiet_adapter(7)]
    full [OF quiet_tool_group] full [OF quiet_active_segment(1)] full [OF quiet_active_segment(2)]
  have [simp]: "rl_full_text (saw_output b st) = rl_full_text st" "rl_full_text (saw_side_effect st) = rl_full_text st"
    for b and st :: "('a, 'b, 'c) relay_state"
    by (simp_all add: saw_output_def saw_side_effect_def)
  show ?thesis
    using assms
    by (cases ev) (simp_all add: on_thinking_def on_text_def on_tool_def on_tips_def split_beta Let_def closed)
qed

lemma segments_run_update [simp]: "rl_segments (snd (run_update i u E st)) = rl_segments st"
  by (simp add: run_update_def split_beta)

lemma segments_hide_superseded [simp]: "rl_segments (hide_superseded status segs E st) = rl_segments st"
  by (induction segs arbitrary: st) auto

lemma segments_settle [simp]: "rl_segments (settle_segments status segs E st) = rl_segments st"
  by (induction segs arbitrary: st) auto

lemma segments_persist_final_text:
  "rl_segments (snd (persist_final_text segs status message hid rewrite E st)) = rl_segments st"
  by (auto simp: persist_final_text_def split_beta Let_def allows_write_def read_service_def now_ms_def
      run_insert_def split: list.split)

lemma announce_overrides [simp]:
  "rl_db (send_overrides os st) = rl_db st" "rl_segments (send_overrides os st) = rl_segments st"
  "rl_full_text (send_overrides os st) = rl_full_text st"
  by (induction os st rule: send_overrides.induct) (simp_all add: broadcast_def)

lemma announce_responses [simp]:
  "rl_db (send_system_responses rs E st) = rl_db st" "rl_segments (send_system_responses rs E st) = rl_segments st"
  "rl_full_text (send_system_responses rs E st) = rl_full_text st"
  by (induction rs arbitrary: st) (simp_all add: broadcast_def mint_msg_id_def)

section \<open>The rows of the segments\<close>

locale relay_store = message_store R row ready
  for R :: "(('x, 'd) msg_json, 'db) conv_repo"
    and row :: "'db \<Rightarrow> string \<Rightarrow> ('x, 'd) msg_json message_row option"
    and ready :: "string \<Rightarrow> 'db \<Rightarrow> bool"
begin

text \<open>The invariant. An active text segment has a row when it says so, an active thinking segment has none;
  the two are never active together.\<close>

definition segment_ok :: "('x, 'd, 'n, 'db) relay_env \<Rightarrow> ('x, 'd, 'db) relay_state \<Rightarrow> text_segment \<Rightarrow> bool" where
  "segment_ok E st g \<longleftrightarrow> ts_id g \<in> issued_ids E st \<and> ts_id g \<notin> set (rl_segments st)
     \<and> (row (rl_db st) (ts_id g) \<noteq> None \<longleftrightarrow> ts_record_created g)"

definition thinking_ok :: "('x, 'd, 'n, 'db) relay_env \<Rightarrow> ('x, 'd, 'db) relay_state \<Rightarrow> thinking_segment \<Rightarrow> bool" where
  "thinking_ok E st h \<longleftrightarrow> hs_id h \<in> issued_ids E st \<and> hs_id h \<notin> set (rl_segments st)"

definition buffer :: "('x, 'd, 'db) relay_state \<Rightarrow> string" where
  "buffer st = (case rl_text st of None \<Rightarrow> [] | Some g \<Rightarrow> ts_buffer g)"

definition rows_ok :: "('x, 'd, 'n, 'db) relay_env \<Rightarrow> ('x, 'd, 'db) relay_state \<Rightarrow> bool" where
  "rows_ok E st \<longleftrightarrow> ready (env_conversation E) (rl_db st)
     \<and> (\<forall>i \<in> own_ids E - issued_ids E st. row (rl_db st) i = None)
     \<and> set (rl_segments st) \<subseteq> issued_ids E st \<and> distinct (rl_segments st)
     \<and> (\<forall>i \<in> set (rl_segments st). \<exists>m. row (rl_db st) i = Some m \<and> \<not> msg_hidden m)"

definition text_inv :: "('x, 'd, 'n, 'db) relay_env \<Rightarrow> ('x, 'd, 'db) relay_state \<Rightarrow> bool" where
  "text_inv E st \<longleftrightarrow> rows_ok E st
     \<and> (\<forall>g. rl_text st = Some g \<longrightarrow> segment_ok E st g \<and> rl_thinking st = None)
     \<and> (\<forall>h. rl_thinking st = Some h \<longrightarrow> thinking_ok E st h)
     \<and> visible_text (row (rl_db st)) (rl_segments st) @ buffer st = rl_full_text st"

lemma same_text_issued: "same_text st st' \<Longrightarrow> issued_ids E st' = issued_ids E st"
  by (simp add: same_text_def issued_ids_def)

lemma text_inv_same: "same_text st st' \<Longrightarrow> text_inv E st \<Longrightarrow> text_inv E st'"
  unfolding text_inv_def rows_ok_def segment_ok_def thinking_ok_def buffer_def
  by (simp add: same_text_def issued_ids_def)

text \<open>An operation that changes the row of one identifier, neither fresh nor that of a segment, keeps the
  invariant.\<close>

lemma text_inv_row:
  assumes inv: "text_inv E st" and db: "ready (env_conversation E) db"
    and frame: "\<And>j. j \<noteq> i \<Longrightarrow> row db j = row (rl_db st) j"
    and i: "i \<notin> own_ids E - issued_ids E st" "i \<notin> set (rl_segments st)" "\<forall>g. rl_text st = Some g \<longrightarrow> ts_id g \<noteq> i"
  shows "text_inv E (st\<lparr>rl_db := db\<rparr>)"
proof -
  have "row db j = row (rl_db st) j" if "j \<in> own_ids E - issued_ids E st \<or> j \<in> set (rl_segments st)
      \<or> (\<exists>g. rl_text st = Some g \<and> j = ts_id g)" for j
    using that i by (intro frame) auto
  moreover from this have "visible_text (row db) (rl_segments st) = visible_text (row (rl_db st)) (rl_segments st)"
    by (intro visible_text_cong) simp
  ultimately show ?thesis
    using inv db unfolding text_inv_def rows_ok_def segment_ok_def thinking_ok_def buffer_def
    by (auto simp: issued_ids_def)
qed

lemma text_inv_run:
  assumes inv: "text_inv E st" and R: "env_repo E = R"
    and i: "i \<notin> own_ids E - issued_ids E st" "i \<notin> set (rl_segments st)" "\<forall>g. rl_text st = Some g \<longrightarrow> ts_id g \<noteq> i"
  shows "msg_id r = i \<Longrightarrow> text_inv E (snd (run_insert r E st))"
    and "msg_id r = i \<Longrightarrow> text_inv E (snd (run_upsert r E st))"
    and "text_inv E (snd (run_update i u E st))"
proof -
  have db: "ready (env_conversation E) (rl_db st)" using inv by (simp add: text_inv_def rows_ok_def)
  note row = text_inv_row [OF inv _ _ i]
  show "msg_id r = i \<Longrightarrow> text_inv E (snd (run_insert r E st))"
    using row [of "snd (cr_insert R r (rl_db st))"] insert_frame [OF db, of r] by (simp add: run_insert_def split_beta R)
  show "msg_id r = i \<Longrightarrow> text_inv E (snd (run_upsert r E st))"
    using row [of "snd (cr_upsert R r (rl_db st))"] upsert_frame [OF db, of r] by (simp add: run_upsert_def split_beta R)
  show "text_inv E (snd (run_update i u E st))"
    using row [of "snd (cr_update R i u (rl_db st))"] update_frame [OF db, of i u] by (simp add: run_update_def split_beta R)
qed

text \<open>Minting an identifier.\<close>

definition minted ::
  "('x, 'd, 'n, 'db) relay_env \<Rightarrow> string \<Rightarrow> ('x, 'd, 'db) relay_state \<Rightarrow> ('x, 'd, 'db) relay_state \<Rightarrow> bool" where
  "minted E i st st' \<longleftrightarrow> i \<in> own_ids E - issued_ids E st \<and> issued_ids E st' = insert i (issued_ids E st)
     \<and> rl_db st' = rl_db st \<and> rl_segments st' = rl_segments st \<and> rl_text st' = rl_text st
     \<and> rl_thinking st' = rl_thinking st \<and> rl_full_text st' = rl_full_text st"

lemma minted_mint:
  assumes "fresh_mint E"
  shows "minted E (fst (mint_msg_id E st)) st (snd (mint_msg_id E st))"
    and "minted E (fst (mint_segment_msg_id E st)) st (snd (mint_segment_msg_id E st))"
  using mint_fresh [OF assms, of st] assms
  by (auto simp: minted_def mint_msg_id_def mint_segment_msg_id_def own_ids_def issued_ids_def fresh_mint_def
      lessThan_Suc)

lemma text_inv_minted:
  assumes inv: "text_inv E st" and m: "minted E i st st'"
  shows "text_inv E st'" and "i \<in> issued_ids E st'" and "i \<notin> set (rl_segments st')" and "row (rl_db st') i = None"
    and "rl_text st' = Some g \<Longrightarrow> ts_id g \<noteq> i" and "rl_thinking st' = Some h \<Longrightarrow> hs_id h \<noteq> i"
  using inv m unfolding text_inv_def rows_ok_def segment_ok_def thinking_ok_def minted_def buffer_def
  by auto

lemma minted_same: "minted E i st st' \<Longrightarrow> same_text st' st'' \<Longrightarrow> minted E i st st''"
  unfolding minted_def using same_text_issued [of st' st'' E] by (auto simp: same_text_def)

lemma text_inv_insert_minted:
  assumes inv: "text_inv E st" and R: "env_repo E = R" and m: "minted E (msg_id r) st st'"
  shows "text_inv E (snd (run_insert r E st'))"
  using text_inv_minted [OF inv m] by (intro text_inv_run(1) [OF _ R]) auto

text \<open>The rows of tips and tools.\<close>

lemma text_inv_tip:
  assumes inv: "text_inv E st" and R: "env_repo E = R" and E: "fresh_mint E"
  shows "text_inv E (persist_tip d E st)" and "text_inv E (persist_error_tip e E st)"
proof -
  let ?a = "snd (allows_write Wk_Terminal_Finalize E st)"
  let ?m = "mint_msg_id E ?a"
  let ?t = "snd (now_ms E (snd ?m))"
  have a: "text_inv E ?a" by (rule text_inv_same [OF _ inv]) simp
  have "minted E (fst ?m) ?a ?t" by (rule minted_same [OF minted_mint(1) [OF E]]) simp
  then have "text_inv E (snd (run_insert (left_row E (fst ?m) mid ty c s at) E ?t))" for mid ty c s at
    by (intro text_inv_insert_minted [OF a R]) (simp add: left_row_def)
  then show "text_inv E (persist_tip d E st)" "text_inv E (persist_error_tip e E st)"
    using a by (simp_all add: persist_tip_def persist_error_tip_def split_beta)
qed

lemma foreign_id:
  assumes "text_inv E st" and "i \<notin> own_ids E"
  shows "i \<notin> own_ids E - issued_ids E st" "i \<notin> set (rl_segments st)" "\<forall>g. rl_text st = Some g \<longrightarrow> ts_id g \<noteq> i"
  using assms issued_own [of E st] unfolding text_inv_def rows_ok_def segment_ok_def by auto

lemma text_inv_tool:
  assumes inv: "text_inv E st" and R: "env_repo E = R"
  shows "tc_call_id d \<notin> own_ids E \<Longrightarrow> text_inv E (persist_tool_call d E st)"
    and "acp_tool_call_id a \<notin> own_ids E \<Longrightarrow> text_inv E (persist_acp_tool_call a E st)"
proof -
  have a: "text_inv E (snd (allows_write k E st))" for k
    by (rule text_inv_same [OF _ inv]) simp
  have n: "text_inv E (snd (now_ms E (snd (allows_write k E st))))" for k
    by (rule text_inv_same [OF _ a [of k]]) simp
  note * = a n
  show "text_inv E (persist_tool_call d E st)" if "tc_call_id d \<notin> own_ids E"
    using * text_inv_run(2) [OF *(2) R foreign_id [OF *(2) that]]
    by (simp add: persist_tool_call_def split_beta left_row_def)
  show "text_inv E (persist_acp_tool_call a E st)" if "acp_tool_call_id a \<notin> own_ids E"
    using * text_inv_run(2) [OF *(2) R foreign_id [OF *(2) that]]
    by (simp add: persist_acp_tool_call_def split_beta left_row_def)
qed

lemma text_inv_tool_group:
  assumes inv: "text_inv E st" and R: "env_repo E = R" and E: "fresh_mint E" and ids: "set (map tg_call_id ds) \<inter> own_ids E = {}"
  shows "text_inv E (persist_tool_group ds E st)"
proof -
  let ?a = "snd (allows_write Wk_Tool_Group_Persist E st)"
  let ?m = "case ds of [] \<Rightarrow> mint_msg_id E ?a | d # _ \<Rightarrow> (tg_call_id d, ?a)"
  have a: "text_inv E ?a" by (rule text_inv_same [OF _ inv]) simp
  have m: "text_inv E (snd ?m)" and i: "fst ?m \<notin> own_ids E - issued_ids E (snd ?m)" "fst ?m \<notin> set (rl_segments (snd ?m))"
    "\<forall>g. rl_text (snd ?m) = Some g \<longrightarrow> ts_id g \<noteq> fst ?m"
  proof (atomize (full), cases ds)
    case Nil
    then show "text_inv E (snd ?m) \<and> fst ?m \<notin> own_ids E - issued_ids E (snd ?m) \<and> fst ?m \<notin> set (rl_segments (snd ?m))
      \<and> (\<forall>g. rl_text (snd ?m) = Some g \<longrightarrow> ts_id g \<noteq> fst ?m)"
      using text_inv_minted [OF a minted_mint(1) [OF E]] by auto
  next
    case (Cons d ds')
    then show "text_inv E (snd ?m) \<and> fst ?m \<notin> own_ids E - issued_ids E (snd ?m) \<and> fst ?m \<notin> set (rl_segments (snd ?m))
      \<and> (\<forall>g. rl_text (snd ?m) = Some g \<longrightarrow> ts_id g \<noteq> fst ?m)"
      using a foreign_id [OF a, of "tg_call_id d"] ids by auto
  qed
  let ?t = "snd (now_ms E (snd ?m))"
  have t: "text_inv E ?t" by (rule text_inv_same [OF _ m]) simp
  have "issued_ids E ?t = issued_ids E (snd ?m)" "rl_segments ?t = rl_segments (snd ?m)" "rl_text ?t = rl_text (snd ?m)"
    by (simp_all add: now_ms_def issued_ids_def)
  then have "text_inv E (snd (run_insert (left_row E (fst ?m) mid ty c s at) E ?t))" for mid ty c s at
    using i by (intro text_inv_run(1) [OF t R, where i = "fst ?m"]) (auto simp: left_row_def)
  then show ?thesis
    using a text_inv_run(3) [OF m R i] unfolding persist_tool_group_def split_beta Let_def
    by (simp split: sum.split option.split)
qed

subsection \<open>Closing\<close>

lemma text_inv_complete_thinking:
  assumes inv: "text_inv E st" and R: "env_repo E = R"
  shows "text_inv E (complete_active_thinking E st)" and "rl_thinking (complete_active_thinking E st) = None"
    and "rl_text (complete_active_thinking E st) = rl_text st"
proof (atomize (full), cases "rl_thinking st")
  case None
  then show "text_inv E (complete_active_thinking E st) \<and> rl_thinking (complete_active_thinking E st) = None
    \<and> rl_text (complete_active_thinking E st) = rl_text st"
    using inv by (simp add: complete_active_thinking_def)
next
  case (Some h)
  define s0 where "s0 = st\<lparr>rl_thinking := None\<rparr>"
  define s1 where "s1 = snd (now_ms E s0)"
  define n where "n = nat (max 0 (fst (now_ms E s0) - hs_started_at h))"
  define s2 where "s2 = forward (hs_id h) (Ev_Thinking \<lparr>th_content = [], th_subject = None,
    th_duration = Some n, th_status = Some ''done''\<rparr>) E s1"
  define s3 where "s3 = snd (allows_write Wk_Assistant_Thinking_Finalize E s2)"
  have h: "thinking_ok E st h" and none: "rl_text st = None" using inv Some by (auto simp: text_inv_def)
  have 0: "text_inv E s0" and h0: "hs_id h \<in> issued_ids E s0" "hs_id h \<notin> set (rl_segments s0)" "rl_text s0 = None"
    using inv Some h none unfolding text_inv_def rows_ok_def segment_ok_def buffer_def thinking_ok_def
    by (simp_all add: s0_def issued_ids_def)
  have s02: "same_text s0 s2" unfolding s2_def s1_def
    by (rule same_text_trans [OF same_text_basic(2) same_text_basic(5)])
  have s03: "same_text s0 s3" unfolding s3_def by (rule same_text_trans [OF s02]) simp
  have 2: "text_inv E s2" by (rule text_inv_same [OF s02 0])
  have 3: "text_inv E s3" by (rule text_inv_same [OF s03 0])
  have h3: "hs_id h \<in> issued_ids E s3" "hs_id h \<notin> set (rl_segments s3)" "rl_text s3 = None"
    using h0 s03 same_text_issued [OF s03] by (auto simp: same_text_def)
  let ?r = "left_row E (hs_id h) (Some (hs_id h)) ''thinking'' (Json_Thinking (hs_buffer h) n) ''finish'' (hs_started_at h)"
  have 4: "text_inv E (snd (run_insert ?r E s3))"
    using h3 by (intro text_inv_run(1) [OF 3 R, where i = "hs_id h"]) (auto simp: left_row_def)
  have "complete_active_thinking E st = persist_thinking_segment h n E s2"
    unfolding s2_def s1_def s0_def n_def complete_active_thinking_def Some by (simp add: split_beta Let_def)
  also have "\<dots> \<in> {s2, s3, snd (run_insert ?r E s3)}"
    by (simp add: persist_thinking_segment_def split_beta s3_def)
  finally have *: "complete_active_thinking E st \<in> {s2, s3, snd (run_insert ?r E s3)}" .
  moreover have "rl_thinking s = None \<and> rl_text s = rl_text st" if "s \<in> {s2, s3, snd (run_insert ?r E s3)}" for s
    using that s02 s03 none by (auto simp: same_text_def s0_def run_insert_def split_beta)
  ultimately show "text_inv E (complete_active_thinking E st) \<and> rl_thinking (complete_active_thinking E st) = None
    \<and> rl_text (complete_active_thinking E st) = rl_text st"
    using 2 3 4 by auto
qed

text \<open>The segment that is closed gets its row.\<close>

lemma text_inv_segment_stored:
  assumes inv: "text_inv E st" and g: "rl_text st = Some g"
    and db: "ready (env_conversation E) db" and row: "row db = (row (rl_db st))(ts_id g \<mapsto> m)"
    and m: "\<not> msg_hidden m" "msg_content m = Json_Text (ts_buffer g)"
  shows "text_inv E (st\<lparr>rl_text := None, rl_db := db, rl_segments := rl_segments st @ [ts_id g]\<rparr>)"
proof -
  have g': "ts_id g \<in> issued_ids E st" "ts_id g \<notin> set (rl_segments st)" "rl_thinking st = None"
    using inv g by (auto simp: text_inv_def segment_ok_def)
  have "visible_text (row db) (rl_segments st) = visible_text (row (rl_db st)) (rl_segments st)"
    using g' by (intro visible_text_cong) (auto simp: row)
  moreover have "shown_text (row db (ts_id g)) = ts_buffer g"
    using m by (simp add: row shown_text_def)
  ultimately have "visible_text (row db) (rl_segments st @ [ts_id g]) = rl_full_text st"
    using inv g by (simp add: text_inv_def buffer_def)
  then show ?thesis
    using inv g g' db m unfolding text_inv_def rows_ok_def buffer_def
    by (auto simp: issued_ids_def row)
qed

lemma text_inv_close_text:
  assumes inv: "text_inv E st" and R: "env_repo E = R" and act: "active_env E" and s: "known_status status"
  shows "text_inv E (close_active_text_segment status E st)" and "rl_text (close_active_text_segment status E st) = None"
    and "rl_thinking (close_active_text_segment status E st) = rl_thinking st"
proof (atomize (full), cases "rl_text st")
  case None
  then show "text_inv E (close_active_text_segment status E st) \<and> rl_text (close_active_text_segment status E st) = None
    \<and> rl_thinking (close_active_text_segment status E st) = rl_thinking st"
    using inv by (simp add: close_active_text_segment_def)
next
  case (Some g)
  define s0 where "s0 = snd (allows_write Wk_Assistant_Text_Finalize E st)"
  have same: "same_text st s0" unfolding s0_def by simp
  have 0: "text_inv E s0" by (rule text_inv_same [OF same inv])
  have g: "rl_text s0 = Some g" "rl_thinking s0 = rl_thinking st" using Some same by (auto simp: same_text_def)
  have ok: "segment_ok E s0 g" "ready (env_conversation E) (rl_db s0)" using 0 g by (auto simp: text_inv_def rows_ok_def)
  have ask: "allows_write Wk_Assistant_Text_Finalize E (st\<lparr>rl_text := None\<rparr>) = (True, s0\<lparr>rl_text := None\<rparr>)"
    using active_reads(1) [OF act, of Wk_Assistant_Text_Finalize "st\<lparr>rl_text := None\<rparr>"]
    by (auto simp: s0_def allows_write_def read_service_def)
  let ?u = "\<lparr>upd_content = Some (Json_Text (ts_buffer g)), upd_status = Some (Some status), upd_hidden = Some False\<rparr>"
  let ?r = "left_row E (ts_id g) (Some (ts_id g)) ''text'' (Json_Text (ts_buffer g)) status (ts_created_at g)"
  consider "ts_buffer g = []" | "ts_buffer g \<noteq> []" "ts_record_created g" | "ts_buffer g \<noteq> []" "\<not> ts_record_created g"
    by auto
  then show "text_inv E (close_active_text_segment status E st) \<and> rl_text (close_active_text_segment status E st) = None
    \<and> rl_thinking (close_active_text_segment status E st) = rl_thinking st"
  proof cases
    case 1
    then have "close_active_text_segment status E st = s0\<lparr>rl_text := None\<rparr>"
      by (simp add: close_active_text_segment_def Some finalize_text_segment_def ask)
    moreover have "text_inv E (s0\<lparr>rl_text := None\<rparr>)"
      using 0 g 1 unfolding text_inv_def rows_ok_def buffer_def thinking_ok_def by (auto simp: issued_ids_def)
    ultimately show ?thesis using g by simp
  next
    case 2
    then obtain m where m: "row (rl_db s0) (ts_id g) = Some m" using ok by (auto simp: segment_ok_def)
    obtain db where db: "cr_update R (ts_id g) ?u (rl_db s0) = (Inr (), db)"
      "row db = (row (rl_db s0))(ts_id g \<mapsto> apply_update ?u m)" "ready (env_conversation E) db"
      using update_row [OF ok(2) m _ s, of ?u] by (cases "cr_update R (ts_id g) ?u (rl_db s0)") auto
    have "close_active_text_segment status E st = s0\<lparr>rl_text := None, rl_db := db, rl_segments := rl_segments s0 @ [ts_id g]\<rparr>"
      using 2 db by (simp add: close_active_text_segment_def Some finalize_text_segment_def ask run_update_def R)
    then show ?thesis
      using text_inv_segment_stored [OF 0 g(1) db(3,2)] g by (simp add: apply_update_def)
  next
    case 3
    then have none: "row (rl_db s0) (msg_id ?r) = None" using ok by (auto simp: segment_ok_def left_row_def)
    have "message_checks ?r" using s by (simp add: message_checks_def left_row_def known_status_def)
    then obtain db where db: "cr_insert R ?r (rl_db s0) = (Inr (), db)"
      "row db = (row (rl_db s0))(ts_id g \<mapsto> ?r)" "ready (env_conversation E) db"
      using insert_known [of ?r "rl_db s0"] none ok(2) by (cases "cr_insert R ?r (rl_db s0)") (auto simp: left_row_def)
    have "close_active_text_segment status E st = s0\<lparr>rl_text := None, rl_db := db, rl_segments := rl_segments s0 @ [ts_id g]\<rparr>"
      using 3 db by (simp add: close_active_text_segment_def Some finalize_text_segment_def ask run_insert_def R)
    then show ?thesis
      using text_inv_segment_stored [OF 0 g(1) db(3,2)] g by (simp add: left_row_def)
  qed
qed

subsection \<open>Receiving\<close>

lemma text_inv_on_thinking:
  assumes inv: "text_inv E st" and R: "env_repo E = R" and act: "active_env E" and E: "fresh_mint E"
  shows "text_inv E (on_thinking d E st)"
proof (cases "th_status d = Some ''done''")
  case True
  then show ?thesis using text_inv_complete_thinking(1) [OF inv R] by (simp add: on_thinking_def)
next
  case False
  define s1 where "s1 = saw_output (th_content d \<noteq> []) (close_active_text_segment ''finish'' E st)"
  have same: "same_text (close_active_text_segment ''finish'' E st) s1" by (simp add: s1_def)
  have 1: "text_inv E s1" by (rule text_inv_same [OF same text_inv_close_text(1) [OF inv R act]]) simp
  have t1: "rl_text s1 = None"
    using same text_inv_close_text(2) [OF inv R act, of "''finish''"] by (simp add: same_text_def)
  define h where "h = fst (active_thinking_segment E s1)"
  define s2 where "s2 = snd (active_thinking_segment E s1)"
  have "text_inv E s2 \<and> rl_text s2 = None \<and> thinking_ok E s2 h"
  proof (cases "rl_thinking s1")
    case None
    let ?m = "mint_segment_msg_id E s1"
    have "minted E (fst ?m) s1 s2"
      unfolding s2_def active_thinking_segment_def None
      by (simp add: split_beta minted_same [OF minted_mint(2) [OF E]])
    moreover have "hs_id h = fst ?m"
      by (simp add: h_def active_thinking_segment_def None split_beta)
    ultimately show ?thesis
      using text_inv_minted [OF 1] t1 by (auto simp: thinking_ok_def minted_def)
  next
    case (Some h')
    then show ?thesis using 1 t1 by (auto simp: s2_def h_def active_thinking_segment_def text_inv_def)
  qed
  then have "text_inv E (s2\<lparr>rl_thinking := Some (h\<lparr>hs_buffer := b\<rparr>)\<rparr>)" for b
    unfolding text_inv_def rows_ok_def thinking_ok_def buffer_def by (auto simp: issued_ids_def)
  then have "text_inv E (forward (hs_id h) (Ev_Thinking d) E (s2\<lparr>rl_thinking := Some (h\<lparr>hs_buffer := b\<rparr>)\<rparr>))" for b
    by (rule text_inv_same [OF same_text_basic(5)])
  then show ?thesis
    using False by (simp add: on_thinking_def split_beta Let_def s2_def h_def s1_def)
qed

text \<open>The row of the active segment may be written again.\<close>

lemma text_inv_active_row:
  assumes inv: "text_inv E (st\<lparr>rl_text := Some g\<rparr>)" and db: "ready (env_conversation E) db"
    and frame: "\<And>j. j \<noteq> ts_id g \<Longrightarrow> row db j = row (rl_db st) j"
    and g': "ts_id g' = ts_id g" "ts_buffer g' = ts_buffer g" "row db (ts_id g) \<noteq> None \<longleftrightarrow> ts_record_created g'"
  shows "text_inv E (st\<lparr>rl_db := db, rl_text := Some g'\<rparr>)"
proof -
  have i: "ts_id g \<in> issued_ids E st" "ts_id g \<notin> set (rl_segments st)"
    using inv by (auto simp: text_inv_def segment_ok_def issued_ids_def)
  then have "visible_text (row db) (rl_segments st) = visible_text (row (rl_db st)) (rl_segments st)"
    by (intro visible_text_cong frame) auto
  moreover have "row db j = row (rl_db st) j" if "j \<in> own_ids E - issued_ids E st \<or> j \<in> set (rl_segments st)" for j
    using that i by (intro frame) auto
  ultimately show ?thesis
    using inv db g' unfolding text_inv_def rows_ok_def segment_ok_def thinking_ok_def buffer_def
    by (auto simp: issued_ids_def)
qed

lemma text_inv_flush:
  assumes inv: "text_inv E (st\<lparr>rl_text := Some g\<rparr>)" and R: "env_repo E = R"
    and f: "flush_text_segment g E st = (g', st')"
  shows "text_inv E (st'\<lparr>rl_text := Some (g'\<lparr>ts_flush_counter := 0\<rparr>)\<rparr>)"
proof -
  define s0 where "s0 = snd (allows_write Wk_Assistant_Text_Flush E st)"
  have same: "same_text st s0" by (simp add: s0_def)
  then have 0: "text_inv E (s0\<lparr>rl_text := Some g\<rparr>)"
    by (intro text_inv_same [OF _ inv]) (simp add: same_text_def)
  have db0: "ready (env_conversation E) (rl_db s0)" and g: "row (rl_db s0) (ts_id g) \<noteq> None \<longleftrightarrow> ts_record_created g"
    using 0 by (auto simp: text_inv_def rows_ok_def segment_ok_def)
  have keep: "text_inv E (s0\<lparr>rl_text := Some (g\<lparr>ts_flush_counter := 0\<rparr>)\<rparr>)"
    using text_inv_active_row [OF 0 db0, of "g\<lparr>ts_flush_counter := 0\<rparr>"] g by simp
  let ?u = "\<lparr>upd_content = Some (Json_Text (ts_buffer g)), upd_status = Some (Some ''work''), upd_hidden = None\<rparr>"
  let ?r = "left_row E (ts_id g) (Some (ts_id g)) ''text'' (Json_Text (ts_buffer g)) ''work'' (ts_created_at g)"
  have upd: "text_inv E ((snd (run_update (ts_id g) ?u E s0))\<lparr>rl_text := Some (g\<lparr>ts_flush_counter := 0\<rparr>)\<rparr>)"
    if c: "ts_record_created g"
  proof -
    obtain m where m: "row (rl_db s0) (ts_id g) = Some m" using g c by auto
    show ?thesis
      using update_row [OF db0 m, of ?u "''work''"] 
      by (cases "cr_update R (ts_id g) ?u (rl_db s0)")
        (auto simp: run_update_def R split_beta c intro!: text_inv_active_row [OF 0])
  qed
  have ins: "text_inv E ((snd (run_insert ?r E s0))\<lparr>rl_text := Some (g\<lparr>ts_record_created := True, ts_flush_counter := 0\<rparr>)\<rparr>)"
    if c: "\<not> ts_record_created g"
  proof -
    have none: "row (rl_db s0) (msg_id ?r) = None" using g c by (auto simp: left_row_def)
    have "message_checks ?r" by (simp add: message_checks_def left_row_def)
    then show ?thesis
      using insert_known [of ?r "rl_db s0"] none db0
      by (cases "cr_insert R ?r (rl_db s0)")
        (auto simp: run_insert_def R split_beta left_row_def intro!: text_inv_active_row [OF 0])
  qed
  show ?thesis
    using f keep upd ins by (auto simp: flush_text_segment_def split_beta s0_def split: if_splits)
qed

lemma text_inv_on_text:
  assumes inv: "text_inv E st" and R: "env_repo E = R" and E: "fresh_mint E"
  shows "text_inv E (on_text content E st)"
proof -
  define s1 where "s1 = saw_output (content \<noteq> []) (complete_active_thinking E st)"
  have same: "same_text (complete_active_thinking E st) s1" by (simp add: s1_def)
  have 1: "text_inv E s1" by (rule text_inv_same [OF same text_inv_complete_thinking(1) [OF inv R]])
  have h1: "rl_thinking s1 = None"
    using same text_inv_complete_thinking(2) [OF inv R] by (simp add: same_text_def)
  define g where "g = fst (active_text_segment E s1)"
  define s2 where "s2 = snd (active_text_segment E s1)"
  have 2: "text_inv E (s2\<lparr>rl_text := Some g\<rparr>)" "rl_thinking s2 = None"
  proof (atomize (full), cases "rl_text s1")
    case None
    let ?m = "mint_segment_msg_id E s1"
    have m: "minted E (fst ?m) s1 s2"
      unfolding s2_def active_text_segment_def None
      by (simp add: split_beta minted_same [OF minted_mint(2) [OF E]])
    have g: "ts_id g = fst ?m" "ts_buffer g = []" "\<not> ts_record_created g"
      by (simp_all add: g_def active_text_segment_def None split_beta)
    show "text_inv E (s2\<lparr>rl_text := Some g\<rparr>) \<and> rl_thinking s2 = None"
      using text_inv_minted [OF 1 m] m g h1 None
      unfolding text_inv_def rows_ok_def segment_ok_def buffer_def minted_def by (auto simp: issued_ids_def)
  next
    case (Some g')
    then have "s2 = s1" "g = g'" by (simp_all add: s2_def g_def active_text_segment_def)
    moreover have "same_text s1 (s1\<lparr>rl_text := Some g'\<rparr>)" using Some by (simp add: same_text_def)
    ultimately show "text_inv E (s2\<lparr>rl_text := Some g\<rparr>) \<and> rl_thinking s2 = None"
      using h1 text_inv_same [OF _ 1] by simp
  qed
  define s3 where "s3 = forward (ts_id g) (Ev_Text content) E s2"
  define g3 where "g3 = g\<lparr>ts_buffer := ts_buffer g @ content, ts_flush_counter := ts_flush_counter g + 1\<rparr>"
  define s4 where "s4 = s3\<lparr>rl_full_text := rl_full_text s3 @ content\<rparr>"
  have "same_text (s2\<lparr>rl_text := Some g\<rparr>) (s3\<lparr>rl_text := Some g\<rparr>)"
    by (simp add: s3_def same_text_def forward_def broadcast_def)
  then have "text_inv E (s3\<lparr>rl_text := Some g\<rparr>)" by (rule text_inv_same [OF _ 2(1)])
  then have 4: "text_inv E (s4\<lparr>rl_text := Some g3\<rparr>)"
    unfolding text_inv_def rows_ok_def segment_ok_def thinking_ok_def buffer_def s4_def g3_def
    by (auto simp: issued_ids_def)
  have "on_text content E st = (if flush_interval \<le> ts_flush_counter g3
      then (case flush_text_segment g3 E s4 of (g, st) \<Rightarrow> st\<lparr>rl_text := Some (g\<lparr>ts_flush_counter := 0\<rparr>)\<rparr>)
      else s4\<lparr>rl_text := Some g3\<rparr>)"
    by (simp add: on_text_def split_beta Let_def s1_def s2_def g_def s3_def s4_def g3_def)
  then show ?thesis
    using 4 text_inv_flush [OF 4 R] by (auto split: prod.splits)
qed

lemma text_inv_close_segments:
  assumes inv: "text_inv E st" and R: "env_repo E = R" and act: "active_env E" and s: "known_status status"
  shows "text_inv E (close_segments status E st)" and "rl_text (close_segments status E st) = None"
    and "rl_thinking (close_segments status E st) = None"
  using text_inv_close_text [OF text_inv_complete_thinking(1) [OF inv R] R act s]
    text_inv_complete_thinking(2) [OF inv R]
  by (simp_all add: close_segments_def)

lemma text_inv_on_tool:
  assumes inv: "text_inv E st" and R: "env_repo E = R" and act: "active_env E"
  shows "text_inv E (on_tool ev E st)"
  unfolding on_tool_def
  by (rule text_inv_same [OF same_text_basic(5)] text_inv_close_segments(1) text_inv_same [OF same_text_basic(7)]
      R act inv known_status_simps)+

lemma text_inv_handle_event:
  assumes inv: "text_inv E st" and R: "env_repo E = R" and act: "active_env E" and E: "fresh_mint E"
    and ids: "event_ids ev \<inter> own_ids E = {}"
  shows "text_inv E (handle_event ev E st)"
proof (cases ev)
  case (Ev_Tips d)
  have "text_inv E (forward i ev E (saw_output b st))" for i ev b
    by (rule text_inv_same [OF same_text_basic(5)] text_inv_same [OF same_text_basic(6) inv])+
  then show ?thesis using Ev_Tips text_inv_tip(1) [OF _ R E] by (simp add: on_tips_def Let_def)
qed (use ids in \<open>simp_all add: text_inv_on_thinking [OF inv R act E] text_inv_on_text [OF inv R E]
    text_inv_tool [OF text_inv_on_tool [OF inv R act] R] text_inv_tool_group [OF text_inv_on_tool [OF inv R act] R E]
    text_inv_same [OF same_text_trans [OF same_text_basic(7) same_text_basic(5)] inv] text_inv_same [OF same_text_basic(5) inv]\<close>)

subsection \<open>Finalizing\<close>

definition settled :: "string \<Rightarrow> 'db \<Rightarrow> string list \<Rightarrow> bool" where
  "settled status db segs \<longleftrightarrow> (\<forall>i \<in> set segs. \<exists>m. row db i = Some m \<and> msg_status m = Some status)"

lemma run_update_known:
  assumes R: "env_repo E = R" and db: "ready c (rl_db st)" and m: "row (rl_db st) i = Some m"
    and u: "upd_status u = Some (Some s)" "known_status s"
  shows "row (rl_db (snd (run_update i u E st))) = (row (rl_db st))(i \<mapsto> apply_update u m)"
    and "ready c (rl_db (snd (run_update i u E st)))"
  using update_row [OF db m u surjective_pairing] by (simp_all add: run_update_def R split_beta)

lemma settle_segments_rows:
  assumes R: "env_repo E = R" and s: "known_status status" and db: "ready c (rl_db st)"
    and segs: "distinct segs" "\<And>i. i \<in> set segs \<Longrightarrow> \<exists>m. row (rl_db st) i = Some m \<and> \<not> msg_hidden m"
  shows "settled status (rl_db (settle_segments status segs E st)) segs
    \<and> visible_text (row (rl_db (settle_segments status segs E st))) segs = visible_text (row (rl_db st)) segs
    \<and> ready c (rl_db (settle_segments status segs E st))
    \<and> (\<forall>j. j \<notin> set segs \<longrightarrow> row (rl_db (settle_segments status segs E st)) j = row (rl_db st) j)"
  using db segs
proof (induction segs arbitrary: st)
  case Nil
  then show ?case by (simp add: settled_def)
next
  case (Cons i segs)
  let ?u = "\<lparr>upd_content = None, upd_status = Some (Some status), upd_hidden = Some False\<rparr>"
  let ?s = "snd (run_update i ?u E st)"
  from Cons.prems(3) [of i] obtain m where m: "row (rl_db st) i = Some m" "\<not> msg_hidden m" by auto
  note upd = run_update_known [OF R Cons.prems(1) m(1), of ?u status, simplified, OF s]
  have others: "j \<noteq> i \<Longrightarrow> row (rl_db ?s) j = row (rl_db st) j" for j by (simp add: upd)
  have "\<exists>m. row (rl_db ?s) j = Some m \<and> \<not> msg_hidden m" if "j \<in> set segs" for j
  proof -
    have "j \<noteq> i" using that Cons.prems(2) by auto
    then show ?thesis using Cons.prems(3) [of j] that others [of j] by simp
  qed
  then have IH: "settled status (rl_db (settle_segments status segs E ?s)) segs"
    "visible_text (row (rl_db (settle_segments status segs E ?s))) segs = visible_text (row (rl_db ?s)) segs"
    "ready c (rl_db (settle_segments status segs E ?s))"
    "\<And>j. j \<notin> set segs \<Longrightarrow> row (rl_db (settle_segments status segs E ?s)) j = row (rl_db ?s) j"
    using Cons.IH [of ?s] Cons.prems(2) upd(2) by auto
  have "row (rl_db (settle_segments status segs E ?s)) i = Some (apply_update ?u m)"
    using IH(4) [of i] Cons.prems(2) by (simp add: upd)
  moreover have "visible_text (row (rl_db ?s)) segs = visible_text (row (rl_db st)) segs"
    using Cons.prems(2) by (intro visible_text_cong others) auto
  ultimately show ?case
    using IH others m by (auto simp: settled_def shown_text_def apply_update_def)
qed

lemma hide_superseded_rows:
  assumes R: "env_repo E = R" and s: "known_status status" and db: "ready c (rl_db st)"
    and segs: "distinct segs" "\<And>i. i \<in> set segs \<Longrightarrow> row (rl_db st) i \<noteq> None"
  shows "settled status (rl_db (hide_superseded status segs E st)) segs
    \<and> visible_text (row (rl_db (hide_superseded status segs E st))) segs = []
    \<and> ready c (rl_db (hide_superseded status segs E st))
    \<and> (\<forall>j. j \<notin> set segs \<longrightarrow> row (rl_db (hide_superseded status segs E st)) j = row (rl_db st) j)"
  using db segs
proof (induction segs arbitrary: st)
  case Nil
  then show ?case by (simp add: settled_def)
next
  case (Cons i segs)
  let ?u = "\<lparr>upd_content = None, upd_status = Some (Some status), upd_hidden = Some True\<rparr>"
  let ?s = "snd (run_update i ?u E st)"
  from Cons.prems(3) [of i] obtain m where m: "row (rl_db st) i = Some m" by auto
  note upd = run_update_known [OF R Cons.prems(1) m, of ?u status, simplified, OF s]
  have others: "j \<noteq> i \<Longrightarrow> row (rl_db ?s) j = row (rl_db st) j" for j by (simp add: upd)
  have "row (rl_db ?s) j \<noteq> None" if "j \<in> set segs" for j
  proof -
    have "j \<noteq> i" using that Cons.prems(2) by auto
    then show ?thesis using Cons.prems(3) [of j] that others [of j] by simp
  qed
  then have IH: "settled status (rl_db (hide_superseded status segs E ?s)) segs"
    "visible_text (row (rl_db (hide_superseded status segs E ?s))) segs = []"
    "ready c (rl_db (hide_superseded status segs E ?s))"
    "\<And>j. j \<notin> set segs \<Longrightarrow> row (rl_db (hide_superseded status segs E ?s)) j = row (rl_db ?s) j"
    using Cons.IH [of ?s] Cons.prems(2) upd(2) by auto
  have "row (rl_db (hide_superseded status segs E ?s)) i = Some (apply_update ?u m)"
    using IH(4) [of i] Cons.prems(2) by (simp add: upd)
  then show ?case
    using IH others by (auto simp: settled_def shown_text_def apply_update_def)
qed

lemma persist_final_text_rows:
  assumes inv: "text_inv E st" and R: "env_repo E = R" and act: "active_env E" and closed: "rl_text st = None"
    and whole: "rl_full_text st = txt" "txt \<noteq> []" and m: "m = env_strip E txt"
    and fin: "persist_final_text (rl_segments st) ''finish'' (trim m) (trim m = []) (m \<noteq> txt \<or> trim m = []) E st = (os, st')"
  shows "settled ''finish'' (rl_db st') (rl_segments st)
    \<and> visible_text (row (rl_db st')) (rl_segments st) = reply_text E txt \<and> ready (env_conversation E) (rl_db st')"
proof -
  define s0 where "s0 = snd (allows_write Wk_Terminal_Finalize E st)"
  have same: "same_text st s0" by (simp add: s0_def)
  have 0: "text_inv E s0" by (rule text_inv_same [OF same inv])
  have full: "visible_text (row (rl_db s0)) (rl_segments s0) = txt" and rows: "rows_ok E s0"
    using 0 same whole closed by (auto simp: text_inv_def buffer_def same_text_def)
  have segs: "rl_segments s0 = rl_segments st" using same by (simp add: same_text_def)
  have db: "ready (env_conversation E) (rl_db s0)" "distinct (rl_segments s0)"
    "\<And>i. i \<in> set (rl_segments s0) \<Longrightarrow> \<exists>m. row (rl_db s0) i = Some m \<and> \<not> msg_hidden m"
    using rows by (auto simp: rows_ok_def)
  obtain i more where seg: "rl_segments s0 = i # more" using full whole(2) by (cases "rl_segments s0") auto
  have ask: "allows_write Wk_Terminal_Finalize E st = (True, s0)"
    using active_reads(1) [OF act, of Wk_Terminal_Finalize st] by (simp add: s0_def prod_eq_iff)
  show ?thesis
  proof (cases "m \<noteq> txt \<or> trim m = []")
    case False
    then have "st' = settle_segments ''finish'' (rl_segments s0) E s0"
      using fin by (auto simp: persist_final_text_def ask seg segs [symmetric])
    then show ?thesis
      using settle_segments_rows [OF R _ db, of "''finish''"] full False segs whole(2) m by (auto simp: reply_text_def)
  next
    case True
    let ?u = "\<lparr>upd_content = Some (Json_Text (trim m)), upd_status = Some (Some ''finish''), upd_hidden = Some (trim m = [])\<rparr>"
    let ?s = "snd (run_update i ?u E s0)"
    have st': "st' = hide_superseded ''finish'' more E ?s"
      using fin True by (auto simp: persist_final_text_def ask seg segs [symmetric] Let_def)
    obtain r where r: "row (rl_db s0) i = Some r" using db(3) [of i] by (auto simp: seg)
    note upd = run_update_known [OF R db(1) r, of ?u "''finish''", simplified]
    have "row (rl_db ?s) j \<noteq> None" if "j \<in> set more" for j
      using db(3) [of j] that by (auto simp: seg upd)
    then have hide: "settled ''finish'' (rl_db st') more" "visible_text (row (rl_db st')) more = []"
      "ready (env_conversation E) (rl_db st')" "row (rl_db st') i = Some (apply_update ?u r)"
      using hide_superseded_rows [OF R _ upd(2), of "''finish''" more] db(2) by (auto simp: seg st' upd)
    have sg: "rl_segments st = i # more" using seg segs by simp
    show ?thesis
      unfolding sg using hide True whole(2) m by (auto simp: settled_def shown_text_def apply_update_def reply_text_def Let_def)
  qed
qed

subsection \<open>A whole stream\<close>

lemma full_text_step [simp]: "rl_full_text (snd (relay_is_deleting E st)) = rl_full_text st"
  using quiet_basic(5) [of st E] by (simp add: quiet_def)

lemma run_events:
  assumes act: "active_env E" and R: "env_repo E = R" and E: "fresh_mint E"
    and evs: "\<forall>ev \<in> set evs. \<not> is_terminal_event ev \<and> event_ids ev \<inter> own_ids E = {}" and inv: "text_inv E st"
  shows "\<exists>st'. relay_run (map Poll_Event evs @ ps) E st = relay_run ps E st' \<and> text_inv E st'
    \<and> rl_full_text st' = rl_full_text st @ streamed_text evs"
  using evs inv
proof (induction evs arbitrary: st)
  case Nil
  then show ?case by (auto simp: streamed_text_def)
next
  case (Cons ev evs)
  let ?s = "snd (relay_is_deleting E st)"
  let ?s' = "handle_event ev E ?s"
  have "relay_step (Poll_Event ev) E st = (None, ?s')"
    using active_reads(2) [OF act, of st] Cons.prems(1) by (simp add: receive_def split_beta)
  moreover have "text_inv E ?s'"
    using Cons.prems by (intro text_inv_handle_event [OF text_inv_same R act E]) auto
  moreover have "rl_full_text ?s' = rl_full_text st @ event_text ev"
    using full_text_handle_event [of ev E ?s] Cons.prems(1) by simp
  ultimately show ?case
    using Cons.IH [of ?s'] Cons.prems(1) by (auto simp: streamed_text_def)
qed

lemma text_inv_new:
  assumes "ready (env_conversation E) db" and "\<forall>i \<in> own_ids E. row db i = None"
  shows "text_inv E (new_relay b db)"
  using assms by (simp add: text_inv_def rows_ok_def new_relay_def buffer_def issued_ids_def)

lemma new_relay_text: "rl_full_text (new_relay b db) = []"
  by (simp add: new_relay_def)

text \<open>Finalizing a stream whose segments are closed.\<close>

lemma finalize_rows:
  assumes inv: "text_inv E st" and R: "env_repo E = R" and act: "active_env E" and none: "rl_text st = None"
    and f: "finalize (rl_full_text st) (rl_segments st) (Ev_Finish x) Term_Finish E st = (ro, st')"
  shows "visible_text (row (rl_db st')) (rl_segments st') = reply_text E (rl_full_text st)
    \<and> (rl_full_text st \<noteq> [] \<longrightarrow> settled ''finish'' (rl_db st') (rl_segments st'))
    \<and> ready (env_conversation E) (rl_db st') \<and> rl_full_text st' = rl_full_text st \<and> outcome_terminal ro = Term_Finish"
proof (cases "rl_full_text st = []")
  case True
  then show ?thesis
    using inv none f by (auto simp: finalize_def Let_def text_inv_def rows_ok_def buffer_def reply_text_def)
next
  case False
  let ?m = "env_strip E (rl_full_text st)"
  obtain os s where p: "persist_final_text (rl_segments st) ''finish'' (trim ?m) (trim ?m = [])
      (?m \<noteq> rl_full_text st \<or> trim ?m = []) E st = (os, s)" by fastforce
  have "rl_db st' = rl_db s" "rl_segments st' = rl_segments s" "rl_full_text st' = rl_full_text s" "outcome_terminal ro = Term_Finish"
    using f False p by (auto simp: finalize_def process_final_text_def Let_def split: if_splits option.splits)
  moreover have "quiet st s" using quiet_persist_final_text [of st "rl_segments st"] p by (metis snd_conv)
  moreover have "rl_segments s = rl_segments st"
    using segments_persist_final_text [of "rl_segments st" "''finish''"] p by (metis snd_conv)
  ultimately show ?thesis
    using persist_final_text_rows [OF inv R act none refl False refl p] by (simp add: quiet_def)
qed

lemma complete_rows:
  assumes R: "env_repo E = R" and db: "ready c (rl_db st)"
  shows "row (rl_db (complete_conversation E st)) = row (rl_db st)"
    and "rl_segments (complete_conversation E st) = rl_segments st"
    and "rl_full_text (complete_conversation E st) = rl_full_text st"
  using conv_frame [OF db]
  by (auto simp: complete_conversation_def publish_completion_def read_service_def now_ms_def broadcast_def split_beta R
      split: sum.split option.split)

lemma reply_complete:
  assumes act: "active_env E" and R: "env_repo E = R" and E: "fresh_mint E"
    and evs: "\<forall>ev \<in> set evs. \<not> is_terminal_event ev \<and> event_ids ev \<inter> own_ids E = {}"
    and db: "ready (env_conversation E) db" "\<forall>i \<in> own_ids E. row db i = None"
  shows "\<exists>ro st'. relay_run (map Poll_Event evs @ [Poll_Event (Ev_Finish x)]) E (new_relay b db) = Some (ro, st')
    \<and> outcome_terminal ro = Term_Finish \<and> rl_full_text st' = streamed_text evs
    \<and> visible_text (row (rl_db st')) (rl_segments st') = reply_text E (streamed_text evs)
    \<and> (streamed_text evs \<noteq> [] \<longrightarrow> settled ''finish'' (rl_db st') (rl_segments st'))"
proof -
  let ?fin = "Ev_Finish x :: ('x, 'd) stream_event"
  obtain s0 where run: "relay_run (map Poll_Event evs @ [Poll_Event ?fin]) E (new_relay b db)
      = relay_run [Poll_Event ?fin] E s0" and inv0: "text_inv E s0" and full0: "rl_full_text s0 = streamed_text evs"
    using run_events [OF act R E evs text_inv_new [OF db], of "[Poll_Event ?fin]" b]
    unfolding new_relay_text append_Nil by (elim exE conjE) (rule that)
  define s1 where "s1 = snd (relay_is_deleting E (if rl_send_done s0 then s0\<lparr>rl_send_error := None\<rparr> else s0))"
  have same: "same_text s0 s1"
    unfolding s1_def by (rule same_text_trans [OF _ same_text_basic(4)]) (simp add: same_text_def)
  have inv1: "text_inv E s1" by (rule text_inv_same [OF same inv0])
  define s2 where "s2 = note_error ?fin (forward (env_msg E) ?fin E (close_segments ''finish'' E s1))"
  have same2: "same_text (close_segments ''finish'' E s1) s2"
    unfolding s2_def by (rule same_text_trans [OF same_text_basic(5) same_text_basic(8)])
  have inv2: "text_inv E s2"
    by (rule text_inv_same [OF same2 text_inv_close_segments(1) [OF inv1 R act]]) simp
  have none2: "rl_text s2 = None"
    using same2 text_inv_close_segments(2) [OF inv1 R act, of "''finish''"] by (simp add: same_text_def)
  have full2: "rl_full_text s2 = streamed_text evs"
    using same2 same full0 quiet_close_segments [of s1 "''finish''" E] by (simp add: same_text_def quiet_def)
  obtain ro s3 where f: "finalize (rl_full_text s2) (rl_segments s2) ?fin Term_Finish E s2 = (ro, s3)" by fastforce
  note rows = finalize_rows [OF inv2 R act none2 f]
  note db3 = rows [THEN conjunct2, THEN conjunct2, THEN conjunct1]
  have "relay_run [Poll_Event ?fin] E s0 = (case on_terminal False ?fin E s1 of (ro, st) \<Rightarrow> Some (ro, st))"
    using active_reads(2) [OF act] by (simp add: receive_def split_beta s1_def)
  also have "on_terminal False ?fin E s1 = conclude False ?fin Term_Finish E s2"
    by (simp add: on_terminal_def defers_def Let_def s2_def)
  finally show ?thesis
    using run rows complete_rows [OF R db3] f
    by (auto simp: conclude_def full2 Let_def settled_def)
qed

end

text \<open>The tables of SQLite are such a store.\<close>

interpretation sqlite_relay: relay_store "sqlite_conv_repo J" sqlite_row sqlite_ready
  by unfold_locales

end
