(* ===== verification/Api_Error.thy ===== *)
theory Api_Error
  imports Db_Error
begin

text \<open>
  \<open>ApiError\<close> (\<open>aionui-common/src/error.rs\<close>): the error a request is answered with, its status, code,
  public message and details. A status is its number, the JSON value of the details the list of its fields.
\<close>

section \<open>Errors of a request\<close>

datatype detail_value = Det_Str string | Det_Opt_Str "string option" | Det_Num nat

datatype api_error =
    Api_Not_Found string
  | Api_Bad_Request string
  | Api_Payload_Too_Large string
  | Api_Unsupported_Media_Type string
  | Api_Unauthorized string
  | Api_Forbidden string
  | Api_Path_Outside_Sandbox string "string option" "string option"
  | Api_Csrf_Invalid string
  | Api_Conflict string
  | Api_Rate_Limited
  | Api_Internal string
  | Api_Bad_Gateway string
  | Api_Timeout string
  | Api_Coded nat string string "(string \<times> detail_value) list option"
  | Api_Unprocessable_Entity string
  | Api_Conversation_Archived string
  | Api_Workspace_Path_Unavailable string
  | Api_Workspace_Path_Runtime_Unavailable string

fun status_code :: "api_error \<Rightarrow> nat" where
  "status_code (Api_Not_Found _) = 404"
| "status_code (Api_Bad_Request _) = 400"
| "status_code (Api_Payload_Too_Large _) = 413"
| "status_code (Api_Unsupported_Media_Type _) = 415"
| "status_code (Api_Unauthorized _) = 401"
| "status_code (Api_Forbidden _) = 403"
| "status_code (Api_Path_Outside_Sandbox _ _ _) = 403"
| "status_code (Api_Csrf_Invalid _) = 403"
| "status_code (Api_Conflict _) = 409"
| "status_code Api_Rate_Limited = 429"
| "status_code (Api_Internal _) = 500"
| "status_code (Api_Bad_Gateway _) = 502"
| "status_code (Api_Timeout _) = 504"
| "status_code (Api_Coded s _ _ _) = s"
| "status_code (Api_Unprocessable_Entity _) = 422"
| "status_code (Api_Conversation_Archived _) = 410"
| "status_code (Api_Workspace_Path_Unavailable _) = 400"
| "status_code (Api_Workspace_Path_Runtime_Unavailable _) = 400"

fun api_error_code :: "api_error \<Rightarrow> string" where
  "api_error_code (Api_Not_Found _) = ''NOT_FOUND''"
| "api_error_code (Api_Bad_Request _) = ''BAD_REQUEST''"
| "api_error_code (Api_Payload_Too_Large _) = ''PAYLOAD_TOO_LARGE''"
| "api_error_code (Api_Unsupported_Media_Type _) = ''UNSUPPORTED_MEDIA_TYPE''"
| "api_error_code (Api_Unauthorized _) = ''UNAUTHORIZED''"
| "api_error_code (Api_Forbidden _) = ''FORBIDDEN''"
| "api_error_code (Api_Path_Outside_Sandbox _ _ _) = ''PATH_OUTSIDE_SANDBOX''"
| "api_error_code (Api_Csrf_Invalid _) = ''CSRF_INVALID''"
| "api_error_code (Api_Conflict _) = ''CONFLICT''"
| "api_error_code Api_Rate_Limited = ''RATE_LIMITED''"
| "api_error_code (Api_Internal _) = ''INTERNAL_ERROR''"
| "api_error_code (Api_Bad_Gateway _) = ''BAD_GATEWAY''"
| "api_error_code (Api_Timeout _) = ''GATEWAY_TIMEOUT''"
| "api_error_code (Api_Coded _ c _ _) = c"
| "api_error_code (Api_Unprocessable_Entity _) = ''UNPROCESSABLE_ENTITY''"
| "api_error_code (Api_Conversation_Archived _) = ''CONVERSATION_ARCHIVED''"
| "api_error_code (Api_Workspace_Path_Unavailable _) = ''WORKSPACE_PATH_UNAVAILABLE''"
| "api_error_code (Api_Workspace_Path_Runtime_Unavailable _) = ''WORKSPACE_PATH_RUNTIME_UNAVAILABLE''"

definition workspace_path_details :: "string \<Rightarrow> string \<Rightarrow> (string \<times> detail_value) list" where
  "workspace_path_details path operation =
     [(''field'', Det_Str ''workspace''), (''workspace_path'', Det_Str path), (''operation'', Det_Str operation)]"

definition path_outside_sandbox_details ::
  "string option \<Rightarrow> string option \<Rightarrow> (string \<times> detail_value) list" where
  "path_outside_sandbox_details field operation =
     (case field of None \<Rightarrow> [] | Some f \<Rightarrow> [(''field'', Det_Str f)])
     @ (case operation of None \<Rightarrow> [] | Some p \<Rightarrow> [(''operation'', Det_Str p)])"

fun error_details :: "api_error \<Rightarrow> (string \<times> detail_value) list option" where
  "error_details (Api_Path_Outside_Sandbox _ f p) = Some (path_outside_sandbox_details f p)"
| "error_details (Api_Coded _ _ _ d) = d"
| "error_details (Api_Workspace_Path_Unavailable path) = Some (workspace_path_details path ''create'')"
| "error_details (Api_Workspace_Path_Runtime_Unavailable path) = Some (workspace_path_details path ''runtime'')"
| "error_details _ = None"

fun public_message :: "api_error \<Rightarrow> string" where
  "public_message (Api_Bad_Request m) = m"
| "public_message (Api_Unauthorized m) = m"
| "public_message (Api_Forbidden _) = ''Forbidden.''"
| "public_message (Api_Not_Found m) = m"
| "public_message (Api_Path_Outside_Sandbox _ _ _) = ''Path is outside the allowed sandbox.''"
| "public_message (Api_Payload_Too_Large _) = ''Request body is too large.''"
| "public_message (Api_Unsupported_Media_Type _) = ''Unsupported media type.''"
| "public_message (Api_Csrf_Invalid m) = m"
| "public_message (Api_Conflict m) = m"
| "public_message Api_Rate_Limited = ''Rate limited''"
| "public_message (Api_Internal _) = ''Internal server error.''"
| "public_message (Api_Bad_Gateway _) = ''Upstream service unavailable.''"
| "public_message (Api_Timeout _) = ''Request timed out.''"
| "public_message (Api_Coded _ _ m _) = m"
| "public_message (Api_Unprocessable_Entity m) = m"
| "public_message (Api_Conversation_Archived m) = m"
| "public_message (Api_Workspace_Path_Unavailable _) = ''Workspace path is unavailable.''"
| "public_message (Api_Workspace_Path_Runtime_Unavailable _) = ''Workspace path is unavailable at runtime.''"

text \<open>What a client sees of an error.\<close>

record error_response =
  er_status :: nat
  er_code :: string
  er_message :: string
  er_details :: "(string \<times> detail_value) list option"

definition error_response_of :: "api_error \<Rightarrow> error_response" where
  "error_response_of e = \<lparr>er_status = status_code e, er_code = api_error_code e, er_message = public_message e,
     er_details = error_details e\<rparr>"

end
