(* ===== verification/Conv_Errors.thy ===== *)
theory Conv_Errors
  imports Turn_State Api_Error
begin

text \<open>
  The errors of a conversation on their way to a client: \<open>AgentError\<close>
  (\<open>aionui-ai-agent/src/error.rs\<close>), \<open>ConversationError\<close> (\<open>aionui-conversation/src/error.rs\<close>),
  and its mapping to \<open>ApiError\<close> (\<open>routes.rs\<close>). An ACP error is of a type left open with its text
  \<open>acp_text\<close>.
\<close>

section \<open>Errors of an agent\<close>

datatype 'a agent_error =
    Ag_Bad_Request string
  | Ag_Unauthorized string
  | Ag_Forbidden string
  | Ag_Not_Found string
  | Ag_Conflict string
  | Ag_Bad_Gateway string
  | Ag_Timeout string
  | Ag_Rate_Limited
  | Ag_Conversation_Archived string
  | Ag_Workspace_Path_Runtime_Unavailable string
  | Ag_Internal string
  | Ag_Acp 'a

fun agent_error_text :: "('a \<Rightarrow> string) \<Rightarrow> 'a agent_error \<Rightarrow> string" where
  "agent_error_text tx (Ag_Bad_Request m) = ''Bad request: '' @ m"
| "agent_error_text tx (Ag_Unauthorized m) = ''Unauthorized: '' @ m"
| "agent_error_text tx (Ag_Forbidden m) = ''Forbidden: '' @ m"
| "agent_error_text tx (Ag_Not_Found m) = ''Not found: '' @ m"
| "agent_error_text tx (Ag_Conflict m) = ''Conflict: '' @ m"
| "agent_error_text tx (Ag_Bad_Gateway m) = ''Bad gateway: '' @ m"
| "agent_error_text tx (Ag_Timeout m) = ''Timeout: '' @ m"
| "agent_error_text tx Ag_Rate_Limited = ''Rate limited''"
| "agent_error_text tx (Ag_Conversation_Archived m) = ''Conversation archived: '' @ m"
| "agent_error_text tx (Ag_Workspace_Path_Runtime_Unavailable m) =
     ''Workspace path is unavailable during execution: '' @ m"
| "agent_error_text tx (Ag_Internal m) = ''Internal error: '' @ m"
| "agent_error_text tx (Ag_Acp a) = tx a"

fun agent_error_top_level_code :: "'a agent_error \<Rightarrow> string" where
  "agent_error_top_level_code (Ag_Bad_Request _) = ''BAD_REQUEST''"
| "agent_error_top_level_code (Ag_Unauthorized _) = ''UNAUTHORIZED''"
| "agent_error_top_level_code (Ag_Forbidden _) = ''FORBIDDEN''"
| "agent_error_top_level_code (Ag_Not_Found _) = ''NOT_FOUND''"
| "agent_error_top_level_code (Ag_Conflict _) = ''CONFLICT''"
| "agent_error_top_level_code (Ag_Bad_Gateway _) = ''BAD_GATEWAY''"
| "agent_error_top_level_code (Ag_Acp _) = ''BAD_GATEWAY''"
| "agent_error_top_level_code (Ag_Timeout _) = ''TIMEOUT''"
| "agent_error_top_level_code Ag_Rate_Limited = ''RATE_LIMITED''"
| "agent_error_top_level_code (Ag_Conversation_Archived _) = ''CONVERSATION_ARCHIVED''"
| "agent_error_top_level_code (Ag_Workspace_Path_Runtime_Unavailable _) = ''WORKSPACE_PATH_RUNTIME_UNAVAILABLE''"
| "agent_error_top_level_code (Ag_Internal _) = ''INTERNAL_ERROR''"

section \<open>Errors of a conversation\<close>

fun conv_error_text :: "'a conversation_error \<Rightarrow> string" where
  "conv_error_text (Conv_Not_Found i) = ''Conversation not found: '' @ i"
| "conv_error_text (Conv_Message_Not_Found i) = ''Message not found: '' @ i"
| "conv_error_text (Conv_Artifact_Not_Found i) = ''Artifact not found: '' @ i"
| "conv_error_text (Conv_Active_Agent_Not_Found c) = ''Active agent not found for conversation: '' @ c"
| "conv_error_text (Conv_Archived _ r) = ''Conversation is archived: '' @ r"
| "conv_error_text (Conv_Bad_Request r) = ''Bad request: '' @ r"
| "conv_error_text (Conv_Busy r) = ''Conversation is busy: '' @ r"
| "conv_error_text (Conv_Forbidden r) = ''Forbidden: '' @ r"
| "conv_error_text (Conv_Not_Found_Reason r) = ''Not found: '' @ r"
| "conv_error_text (Conv_Unauthorized r) = ''Unauthorized: '' @ r"
| "conv_error_text Conv_Rate_Limited = ''Rate limited''"
| "conv_error_text (Conv_Bad_Gateway r) = ''Bad gateway: '' @ r"
| "conv_error_text (Conv_Timeout r) = ''Request timeout: '' @ r"
| "conv_error_text (Conv_Config_Confirmation_Timeout _ _ _ _) = ''ACP config option confirmation timed out''"
| "conv_error_text (Conv_Config_Update_In_Progress _ _ _) = ''ACP config update is already in progress''"
| "conv_error_text (Conv_Team_Runtime_Required c _) = ''Team runtime is required for conversation: '' @ c"
| "conv_error_text (Conv_Unprocessable r) = ''Unprocessable entity: '' @ r"
| "conv_error_text (Conv_Internal r) = ''Internal error: '' @ r"
| "conv_error_text (Conv_Workspace_Path_Unavailable p) = ''Workspace path is unavailable: '' @ p"
| "conv_error_text (Conv_Workspace_Path_Runtime_Unavailable p) =
     ''Workspace path is unavailable during execution: '' @ p"
| "conv_error_text (Conv_Openclaw_Gateway_Unreachable d) = ''OpenClaw Gateway is not reachable: '' @ d"
| "conv_error_text (Conv_Acp _) = ''ACP error''"

fun conv_error_code :: "'a conversation_error \<Rightarrow> string" where
  "conv_error_code (Conv_Not_Found _) = ''NOT_FOUND''"
| "conv_error_code (Conv_Message_Not_Found _) = ''NOT_FOUND''"
| "conv_error_code (Conv_Artifact_Not_Found _) = ''NOT_FOUND''"
| "conv_error_code (Conv_Active_Agent_Not_Found _) = ''NOT_FOUND''"
| "conv_error_code (Conv_Not_Found_Reason _) = ''NOT_FOUND''"
| "conv_error_code (Conv_Bad_Request _) = ''BAD_REQUEST''"
| "conv_error_code (Conv_Unauthorized _) = ''UNAUTHORIZED''"
| "conv_error_code (Conv_Forbidden _) = ''FORBIDDEN''"
| "conv_error_code (Conv_Busy _) = ''CONFLICT''"
| "conv_error_code Conv_Rate_Limited = ''RATE_LIMITED''"
| "conv_error_code (Conv_Internal _) = ''INTERNAL_ERROR''"
| "conv_error_code (Conv_Acp _) = ''INTERNAL_ERROR''"
| "conv_error_code (Conv_Bad_Gateway _) = ''BAD_GATEWAY''"
| "conv_error_code (Conv_Timeout _) = ''TIMEOUT''"
| "conv_error_code (Conv_Config_Confirmation_Timeout _ _ _ _) = ''confirmation_timeout''"
| "conv_error_code (Conv_Config_Update_In_Progress _ _ _) = ''config_update_in_progress''"
| "conv_error_code (Conv_Team_Runtime_Required _ _) = ''TEAM_RUNTIME_REQUIRED''"
| "conv_error_code (Conv_Unprocessable _) = ''UNPROCESSABLE_ENTITY''"
| "conv_error_code (Conv_Archived _ _) = ''CONVERSATION_ARCHIVED''"
| "conv_error_code (Conv_Workspace_Path_Unavailable _) = ''WORKSPACE_PATH_UNAVAILABLE''"
| "conv_error_code (Conv_Workspace_Path_Runtime_Unavailable _) = ''WORKSPACE_PATH_RUNTIME_UNAVAILABLE''"
| "conv_error_code (Conv_Openclaw_Gateway_Unreachable _) = ''USER_AGENT_OPENCLAW_GATEWAY_UNREACHABLE''"

fun conv_to_agent_error :: "('a \<Rightarrow> string) \<Rightarrow> 'a conversation_error \<Rightarrow> 'a agent_error" where
  "conv_to_agent_error tx (Conv_Not_Found i) = Ag_Not_Found (''Conversation '' @ i @ '' not found'')"
| "conv_to_agent_error tx (Conv_Message_Not_Found i) = Ag_Not_Found (''Message '' @ i @ '' not found'')"
| "conv_to_agent_error tx (Conv_Artifact_Not_Found i) = Ag_Not_Found (''Artifact '' @ i @ '' not found'')"
| "conv_to_agent_error tx (Conv_Active_Agent_Not_Found _) = Ag_Not_Found ''No active agent for this conversation''"
| "conv_to_agent_error tx (Conv_Archived _ r) = Ag_Conversation_Archived r"
| "conv_to_agent_error tx (Conv_Bad_Request r) = Ag_Bad_Request r"
| "conv_to_agent_error tx (Conv_Busy r) = Ag_Conflict r"
| "conv_to_agent_error tx (Conv_Forbidden r) = Ag_Forbidden r"
| "conv_to_agent_error tx (Conv_Not_Found_Reason r) = Ag_Not_Found r"
| "conv_to_agent_error tx (Conv_Unauthorized r) = Ag_Unauthorized r"
| "conv_to_agent_error tx Conv_Rate_Limited = Ag_Rate_Limited"
| "conv_to_agent_error tx (Conv_Bad_Gateway r) = Ag_Bad_Gateway r"
| "conv_to_agent_error tx (Conv_Timeout r) = Ag_Timeout r"
| "conv_to_agent_error tx (Conv_Config_Confirmation_Timeout _ _ _ _) =
     Ag_Timeout ''ACP config option confirmation timed out''"
| "conv_to_agent_error tx (Conv_Config_Update_In_Progress _ _ _) =
     Ag_Conflict ''ACP config update is already in progress''"
| "conv_to_agent_error tx (Conv_Team_Runtime_Required _ _) =
     Ag_Conflict ''This conversation belongs to a team; use the team runtime session''"
| "conv_to_agent_error tx (Conv_Unprocessable r) = Ag_Bad_Request r"
| "conv_to_agent_error tx (Conv_Internal r) = Ag_Internal r"
| "conv_to_agent_error tx (Conv_Workspace_Path_Unavailable p) = Ag_Bad_Request (''Workspace path is unavailable: '' @ p)"
| "conv_to_agent_error tx (Conv_Workspace_Path_Runtime_Unavailable p) = Ag_Workspace_Path_Runtime_Unavailable p"
| "conv_to_agent_error tx (Conv_Openclaw_Gateway_Unreachable d) = Ag_Bad_Gateway d"
| "conv_to_agent_error tx (Conv_Acp a) = Ag_Bad_Gateway (tx a)"

fun conv_from_agent_error :: "'a agent_error \<Rightarrow> 'a conversation_error" where
  "conv_from_agent_error (Ag_Not_Found r) = Conv_Not_Found_Reason r"
| "conv_from_agent_error (Ag_Bad_Request r) = Conv_Bad_Request r"
| "conv_from_agent_error (Ag_Unauthorized r) = Conv_Unauthorized r"
| "conv_from_agent_error (Ag_Forbidden r) = Conv_Forbidden r"
| "conv_from_agent_error (Ag_Conflict r) = Conv_Busy r"
| "conv_from_agent_error Ag_Rate_Limited = Conv_Rate_Limited"
| "conv_from_agent_error (Ag_Internal r) = Conv_Internal r"
| "conv_from_agent_error (Ag_Bad_Gateway r) = Conv_Bad_Gateway r"
| "conv_from_agent_error (Ag_Timeout r) = Conv_Timeout r"
| "conv_from_agent_error (Ag_Conversation_Archived r) = Conv_Archived '''' r"
| "conv_from_agent_error (Ag_Workspace_Path_Runtime_Unavailable p) = Conv_Workspace_Path_Runtime_Unavailable p"
| "conv_from_agent_error (Ag_Acp a) = Conv_Acp a"

fun conv_from_db_error :: "db_error \<Rightarrow> 'a conversation_error" where
  "conv_from_db_error (Db_Not_Found r) = Conv_Not_Found_Reason r"
| "conv_from_db_error (Db_Conflict r) = Conv_Busy r"
| "conv_from_db_error (Db_Query e) = Conv_Internal (''Database error: '' @ e)"
| "conv_from_db_error (Db_Migration e) = Conv_Internal (''Migration error: '' @ e)"
| "conv_from_db_error (Db_Init r) = Conv_Internal (''Database init error: '' @ r)"

section \<open>The response\<close>

fun api_from_conv_error :: "'a conversation_error \<Rightarrow> api_error" where
  "api_from_conv_error (Conv_Not_Found i) = Api_Not_Found (''Conversation '' @ i @ '' not found'')"
| "api_from_conv_error (Conv_Message_Not_Found i) = Api_Not_Found (''Message '' @ i @ '' not found'')"
| "api_from_conv_error (Conv_Artifact_Not_Found i) = Api_Not_Found (''Artifact '' @ i @ '' not found'')"
| "api_from_conv_error (Conv_Active_Agent_Not_Found _) = Api_Not_Found ''No active agent for this conversation''"
| "api_from_conv_error (Conv_Archived _ r) = Api_Conversation_Archived r"
| "api_from_conv_error (Conv_Bad_Request r) = Api_Bad_Request r"
| "api_from_conv_error (Conv_Busy r) = Api_Conflict r"
| "api_from_conv_error (Conv_Forbidden r) = Api_Forbidden r"
| "api_from_conv_error (Conv_Not_Found_Reason r) = Api_Not_Found r"
| "api_from_conv_error (Conv_Unauthorized r) = Api_Unauthorized r"
| "api_from_conv_error Conv_Rate_Limited = Api_Rate_Limited"
| "api_from_conv_error (Conv_Bad_Gateway r) = Api_Bad_Gateway r"
| "api_from_conv_error (Conv_Timeout r) = Api_Timeout r"
| "api_from_conv_error (Conv_Config_Confirmation_Timeout c q r l) =
     Api_Coded 504 ''confirmation_timeout''
       ''ACP runtime did not confirm the requested config option before timeout''
       (Some [(''conversation_id'', Det_Str c), (''option_id'', Det_Str q), (''requested'', Det_Str r),
              (''last_observed'', Det_Opt_Str l)])"
| "api_from_conv_error (Conv_Config_Update_In_Progress c q r) =
     Api_Coded 409 ''config_update_in_progress'' ''ACP config update is already in progress''
       (Some [(''conversation_id'', Det_Str c), (''option_id'', Det_Str q), (''requested'', Det_Str r)])"
| "api_from_conv_error (Conv_Team_Runtime_Required c t) =
     Api_Coded 409 ''TEAM_RUNTIME_REQUIRED'' ''This conversation belongs to a team; use the team runtime session''
       (Some [(''conversation_id'', Det_Str c), (''team_id'', Det_Str t)])"
| "api_from_conv_error (Conv_Unprocessable r) = Api_Unprocessable_Entity r"
| "api_from_conv_error (Conv_Internal r) = Api_Internal r"
| "api_from_conv_error (Conv_Workspace_Path_Unavailable p) = Api_Workspace_Path_Unavailable p"
| "api_from_conv_error (Conv_Workspace_Path_Runtime_Unavailable p) = Api_Workspace_Path_Runtime_Unavailable p"
| "api_from_conv_error (Conv_Openclaw_Gateway_Unreachable d) =
     Api_Coded 502 ''USER_AGENT_OPENCLAW_GATEWAY_UNREACHABLE'' ''OpenClaw Gateway is not reachable''
       (Some [(''detail'', Det_Str d), (''error_kind'', Det_Str ''openclaw_gateway_unreachable''),
              (''backend'', Det_Str ''openclaw''), (''port'', Det_Num 18789)])"
| "api_from_conv_error (Conv_Acp _) = Api_Bad_Gateway ''Agent protocol error''"

section \<open>Codes\<close>

lemma conv_codes_agree:
  "api_error_code (api_from_conv_error e) = conv_error_code e
    \<longleftrightarrow> (\<forall>r. e \<noteq> Conv_Timeout r) \<and> (\<forall>a. e \<noteq> Conv_Acp a)"
  by (cases e) simp_all

lemma agent_code_round_trip:
  "agent_error_top_level_code (conv_to_agent_error tx (conv_from_agent_error e)) = agent_error_top_level_code e"
  by (cases e) simp_all

lemma api_status_range:
  "400 \<le> status_code (api_from_conv_error e) \<and> status_code (api_from_conv_error e) < 600"
  by (cases e) simp_all

lemma db_error_response:
  "error_response_of (api_from_conv_error (conv_from_db_error d)) =
    (case d of
       Db_Not_Found r \<Rightarrow> \<lparr>er_status = 404, er_code = ''NOT_FOUND'', er_message = r, er_details = None\<rparr>
     | Db_Conflict r \<Rightarrow> \<lparr>er_status = 409, er_code = ''CONFLICT'', er_message = r, er_details = None\<rparr>
     | _ \<Rightarrow> \<lparr>er_status = 500, er_code = ''INTERNAL_ERROR'', er_message = ''Internal server error.'', er_details = None\<rparr>)"
  by (cases d) (simp_all add: error_response_of_def)

end
