(* ===== verification/Turn_Orchestrator.thy ===== *)
theory Turn_Orchestrator
  imports Relay_Loop Conv_Errors
begin

text \<open>
  One turn of a conversation from its claim to its completion
  (\<open>aionui-conversation/src/turn_orchestrator.rs\<close>, with the operations of \<open>service.rs\<close>,
  \<open>message_persistence.rs\<close> and \<open>acp_error_recovery.rs\<close> it calls). An attempt builds the agent task,
  then sends a message and relays the stream, and sends the system responses of the reply back to the
  agent, at most four times; a failed attempt that showed nothing is repeated once.

  The agent is a record of what it does at each send: the polls of its stream, its answer to a mode
  change, its session key. Building the task of an attempt gives an agent or an error. The
  classification of an agent error for the client (\<open>AgentSendError\<close>) is the function \<open>te_classify\<close>. The
  runtime state of the conversation, the clock and the identifiers are read through the oracles of the
  relay, so that other tasks may change them at any \<open>await\<close>. What the turn does outside the database
  and the messages to the clients is kept in a log. Of the log lines of
  the program only the one for a tip that could not be stored is kept.
\<close>

section \<open>Agents, options and effects\<close>

record send_data =
  sd_content :: string
  sd_msg_id :: string
  sd_turn :: "string option"
  sd_files :: "string list"
  sd_skills :: "string list"

record ('a, 'x, 'd) agent =
  ag_type :: agent_type
  ag_workspace :: string
  ag_set_mode :: "nat \<Rightarrow> string \<Rightarrow> 'a agent_error option"
  ag_polls :: "nat \<Rightarrow> ('x, 'd) poll list"
  ag_session_key :: "nat \<Rightarrow> string option"

datatype session_kind = Kind_Acp "string option" "string option" | Kind_Aionrs

record build_options =
  bo_skills :: "string list"
  bo_workspace :: string
  bo_kind :: session_kind

datatype turn_effect =
    Task_Requested
  | Message_Sent send_data
  | Task_Killed kill_reason
  | Session_Failed string string string
  | Session_Succeeded string
  | Acp_Model_Cleared
  | Tip_Not_Stored
  | List_Changed
  | Claim_Released bool conv_runtime conv_runtime
  | Turn_Started string

record ('a, 'x, 'd, 'n, 'db) turn_env =
  te_relay :: "('x, 'd, 'n, 'db) relay_env"
  te_options :: build_options
  te_required_mode :: "string option"
  te_files :: "string list"
  te_inject_skills :: "string list"
  te_feedback :: bool
  te_build :: "nat \<Rightarrow> 'a agent_error + ('a, 'x, 'd) agent"
  te_classify :: "string option \<Rightarrow> 'a agent_error \<Rightarrow> 'x stream_error"
  te_acp_text :: "'a \<Rightarrow> string"
  te_task :: "nat \<Rightarrow> (conversation_status option \<times> nat) option"
  te_notify :: "'n notify_lib"

record ('x, 'd, 'db) turn_state =
  tn_relay :: "('x, 'd, 'db) relay_state"
  tn_log :: "turn_effect list"
  tn_builds :: nat

definition acp_backend_from_build_options :: "build_options \<Rightarrow> string option" where
  "acp_backend_from_build_options b = (case bo_kind b of Kind_Acp _ backend \<Rightarrow> backend | Kind_Aionrs \<Rightarrow> None)"

definition availability_agent_id :: "build_options \<Rightarrow> string option" where
  "availability_agent_id b =
     (case bo_kind b of Kind_Acp (Some i) _ \<Rightarrow> if i \<noteq> [] then Some i else None | _ \<Rightarrow> None)"

definition send_error_display_message :: "'x stream_error \<Rightarrow> string" where
  "send_error_display_message e = (case err_detail e of Some d \<Rightarrow> d | None \<Rightarrow> err_message e)"

definition turn_attempt_error_message :: "'x attempt_summary \<Rightarrow> string option" where
  "turn_attempt_error_message a =
     map_option (\<lambda>e. case err_detail e of
         Some d \<Rightarrow> if trim d \<noteq> [] then d else err_message e
       | None \<Rightarrow> err_message e) (terminal_error a)"

subsection \<open>State\<close>

definition note_effect :: "turn_effect \<Rightarrow> ('x, 'd, 'db) turn_state \<Rightarrow> ('x, 'd, 'db) turn_state" where
  "note_effect e st = st\<lparr>tn_log := tn_log st @ [e]\<rparr>"

definition with_relay ::
  "(('x, 'd, 'db) relay_state \<Rightarrow> ('x, 'd, 'db) relay_state) \<Rightarrow> ('x, 'd, 'db) turn_state \<Rightarrow> ('x, 'd, 'db) turn_state" where
  "with_relay f st = st\<lparr>tn_relay := f (tn_relay st)\<rparr>"

text \<open>The service always has its persistence coordinator; a turn's relay watches the runtime state and
  leaves the completion to the turn.\<close>

definition service_env :: "('a, 'x, 'd, 'n, 'db) turn_env \<Rightarrow> ('x, 'd, 'n, 'db) relay_env" where
  "service_env T = (te_relay T)\<lparr>env_persistence := True\<rparr>"

definition relay_env_for ::
  "('a, 'x, 'd, 'n, 'db) turn_env \<Rightarrow> string \<Rightarrow> bool \<Rightarrow> ('x, 'd, 'n, 'db) relay_env" where
  "relay_env_for T mid defer = (te_relay T)
     \<lparr>env_msg := mid, env_persistence := True, env_watches_runtime := True,
      env_allowed_skills := bo_skills (te_options T), env_complete_turn := False,
      env_defer_clean_errors := defer\<rparr>"

definition start_relay :: "('x, 'd, 'db) relay_state \<Rightarrow> ('x, 'd, 'db) relay_state" where
  "start_relay st = st
     \<lparr>rl_full_text := [], rl_segments := [], rl_text := None, rl_thinking := None, rl_used_primary := False,
      rl_send_done := False, rl_send_error := None, rl_attempt := default_attempt\<rparr>"

definition read_lifecycle ::
  "('a, 'x, 'd, 'n, 'db) turn_env \<Rightarrow> ('x, 'd, 'db) turn_state \<Rightarrow> lifecycle \<times> ('x, 'd, 'db) turn_state" where
  "read_lifecycle T st = (case read_service (service_env T) (tn_relay st) of
     (s, r) \<Rightarrow> (lifecycle_for (env_conversation (te_relay T)) s, st\<lparr>tn_relay := r\<rparr>))"

section \<open>Operations of the service\<close>

subsection \<open>Tips for a failed send\<close>

definition persist_send_failure_tip ::
  "'x stream_error \<Rightarrow> string option \<Rightarrow> ('a, 'x, 'd, 'n, 'db) turn_env \<Rightarrow> ('x, 'd, 'db) turn_state
    \<Rightarrow> ('x, 'd) msg_json message_row option \<times> ('x, 'd, 'db) turn_state" where
  "persist_send_failure_tip e ecode T st =
     (let E = service_env T in
      case allows_write Wk_Send_Failure_Tip E (tn_relay st) of (ok, r) \<Rightarrow>
        if \<not> ok then (None, st\<lparr>tn_relay := r\<rparr>)
        else case mint_msg_id E r of (i, r) \<Rightarrow> case now_ms E r of (t, r) \<Rightarrow>
          let row = \<lparr>msg_id = i, msg_conversation = env_conversation E, msg_msg_id = None, msg_type = ''tips'',
                   msg_content = Json_Send_Tip ecode e, msg_position = Some ''center'', msg_status = Some ''error'',
                   msg_hidden = False, msg_created_at = t\<rparr>
          in case run_insert row E r of (done, r) \<Rightarrow>
            (if done then (Some row, st\<lparr>tn_relay := r\<rparr>) else (None, note_effect Tip_Not_Stored (st\<lparr>tn_relay := r\<rparr>))))"

definition show_send_failure ::
  "'x stream_error \<Rightarrow> string option \<Rightarrow> ('a, 'x, 'd, 'n, 'db) turn_env \<Rightarrow> ('x, 'd, 'db) turn_state
    \<Rightarrow> ('x, 'd, 'db) turn_state" where
  "show_send_failure e ecode T st =
     (case persist_send_failure_tip e ecode T st of
        (None, st) \<Rightarrow> st
      | (Some row, st) \<Rightarrow> with_relay (broadcast (Stream_Row (env_turn (te_relay T)) row)) st)"

subsection \<open>The column \<open>extra\<close>\<close>

definition extra_object :: "conversation_row \<Rightarrow> (string, extra_value) hmap" where
  "extra_object r = (case conv_extra r of None \<Rightarrow> [] | Some m \<Rightarrow> m)"

definition write_extra ::
  "(string, extra_value) hmap \<Rightarrow> ('x, 'd, 'n, 'db, db_error + unit) relay_op" where
  "write_extra m E st = (case now_ms E st of (t, st) \<Rightarrow>
     case cr_update_conv (env_repo E) (env_conversation E)
         \<lparr>cu_extra = Some m, cu_status = None, cu_updated_at = Some t\<rparr> (rl_db st) of
       (res, db) \<Rightarrow> (res, st\<lparr>rl_db := db\<rparr>))"

definition maybe_persist_workspace ::
  "string \<Rightarrow> string \<Rightarrow> ('x, 'd, 'n, 'db, 'a conversation_error + unit) relay_op" where
  "maybe_persist_workspace stored resolved E st =
     (if resolved = [] \<or> resolved = stored then (Inr (), st)
      else case allows_write Wk_Resolved_Workspace E st of (ok, st) \<Rightarrow>
        if \<not> ok then (Inr (), st)
        else case cr_get (env_repo E) (env_conversation E) (rl_db st) of
          Inl e \<Rightarrow> (Inl (conv_from_db_error e), st)
        | Inr None \<Rightarrow> (Inl (Conv_Internal ''Conversation vanished during workspace sync''), st)
        | Inr (Some r) \<Rightarrow>
            (case write_extra (hm_insert ''workspace'' (Extra_Str resolved) (extra_object r)) E st of
               (Inl e, st) \<Rightarrow> (Inl (conv_from_db_error e), st)
             | (Inr _, st) \<Rightarrow> (Inr (), st)))"

definition persist_session_key ::
  "string \<Rightarrow> ('x, 'd, 'n, 'db) relay_env \<Rightarrow> ('x, 'd, 'db) relay_state \<Rightarrow> ('x, 'd, 'db) relay_state" where
  "persist_session_key key E st =
     (case allows_write Wk_Session_Key E st of (ok, st) \<Rightarrow>
        if \<not> ok then st
        else case cr_get (env_repo E) (env_conversation E) (rl_db st) of
          Inr (Some r) \<Rightarrow>
            if map_of (extra_object r) ''sessionKey'' = Some (Extra_Str key) then st
            else snd (write_extra (hm_insert ''sessionKey'' (Extra_Str key) (extra_object r)) E st)
        | _ \<Rightarrow> st)"

subsection \<open>Evicting a task\<close>

definition clear_persisted_acp_model ::
  "agent_error_code option \<Rightarrow> ('a, 'x, 'd, 'n, 'db) turn_env \<Rightarrow> ('x, 'd, 'db) turn_state \<Rightarrow> ('x, 'd, 'db) turn_state" where
  "clear_persisted_acp_model ecode T st =
     (if ecode \<noteq> Some User_Llm_Provider_Model_Not_Found then st
      else case allows_write Wk_Acp_Recovery_Cleanup (service_env T) (tn_relay st) of (ok, r) \<Rightarrow>
        let st = st\<lparr>tn_relay := r\<rparr> in if ok then note_effect Acp_Model_Cleared st else st)"

definition clear_conversation_model_seed ::
  "agent_error_code option \<Rightarrow> ('a, 'x, 'd, 'n, 'db) turn_env \<Rightarrow> ('x, 'd, 'db) turn_state \<Rightarrow> ('x, 'd, 'db) turn_state" where
  "clear_conversation_model_seed ecode T st =
     (let E = service_env T in
      if ecode \<noteq> Some User_Llm_Provider_Model_Not_Found then st
      else case allows_write Wk_Acp_Recovery_Cleanup E (tn_relay st) of (ok, r) \<Rightarrow>
        let st = st\<lparr>tn_relay := r\<rparr> in
        if \<not> ok then st
        else case cr_get (env_repo E) (env_conversation E) (rl_db r) of
          Inr (Some row) \<Rightarrow>
            (case conv_extra row of
               None \<Rightarrow> st
             | Some m \<Rightarrow>
                 if map_of m ''current_model_id'' = None then st
                 else case write_extra (hm_remove ''current_model_id'' m) E r of
                   (Inl _, r) \<Rightarrow> st\<lparr>tn_relay := r\<rparr>
                 | (Inr _, r) \<Rightarrow> note_effect List_Changed (st\<lparr>tn_relay := r\<rparr>))
        | _ \<Rightarrow> st)"

definition evict_acp_task_after_terminal_error ::
  "agent_type \<Rightarrow> 'x relay_outcome \<Rightarrow> ('a, 'x, 'd, 'n, 'db) turn_env \<Rightarrow> ('x, 'd, 'db) turn_state
    \<Rightarrow> bool \<times> ('x, 'd, 'db) turn_state" where
  "evict_acp_task_after_terminal_error ag ro T st =
     (if ag \<noteq> Acp \<or> \<not> term_is_error (outcome_terminal ro) then (False, st)
      else (True, clear_conversation_model_seed (term_code (outcome_terminal ro)) T
              (clear_persisted_acp_model (term_code (outcome_terminal ro)) T
                (note_effect (Task_Killed Kill_Agent_Error_Recovery) st))))"

subsection \<open>Feedback and completion\<close>

definition record_agent_session_failure ::
  "string \<Rightarrow> string \<Rightarrow> ('a, 'x, 'd, 'n, 'db) turn_env \<Rightarrow> ('x, 'd, 'db) turn_state \<Rightarrow> ('x, 'd, 'db) turn_state" where
  "record_agent_session_failure ecode message T st =
     (case availability_agent_id (te_options T) of
        None \<Rightarrow> st
      | Some i \<Rightarrow> if te_feedback T then note_effect (Session_Failed i ecode message) st else st)"

definition record_agent_session_success ::
  "('a, 'x, 'd, 'n, 'db) turn_env \<Rightarrow> ('x, 'd, 'db) turn_state \<Rightarrow> ('x, 'd, 'db) turn_state" where
  "record_agent_session_success T st =
     (case availability_agent_id (te_options T) of
        None \<Rightarrow> st
      | Some i \<Rightarrow> if te_feedback T then note_effect (Session_Succeeded i) st else st)"

definition runtime_summary_for ::
  "('a, 'x, 'd, 'n, 'db) turn_env \<Rightarrow> ('x, 'd, 'db) turn_state \<Rightarrow> runtime_summary \<times> ('x, 'd, 'db) turn_state" where
  "runtime_summary_for T st =
     (let task = te_task T (rl_reads (tn_relay st)) in
      case read_service (service_env T) (tn_relay st) of (s, r) \<Rightarrow>
        (summary_from_parts (env_conversation (te_relay T)) (Option.bind task fst) (task \<noteq> None)
           (case task of None \<Rightarrow> 0 | Some (_, pending) \<Rightarrow> pending) s,
         st\<lparr>tn_relay := r\<rparr>))"

definition complete_turn ::
  "('a, 'x, 'd, 'n, 'db) turn_env \<Rightarrow> ('x, 'd, 'db) turn_state \<Rightarrow> ('x, 'd, 'db) turn_state" where
  "complete_turn T st = (case runtime_summary_for T st of (sm, st) \<Rightarrow>
     with_relay (publish_completion (Some sm) (service_env T)) st)"

definition complete_released_turn ::
  "bool \<Rightarrow> ('a, 'x, 'd, 'n, 'db) turn_env \<Rightarrow> ('x, 'd, 'db) turn_state \<Rightarrow> ('x, 'd, 'db) turn_state" where
  "complete_released_turn was_deleting T st = (if was_deleting then st else complete_turn T st)"

text \<open>Releasing changes the runtime state of that moment: the log keeps the answer of the service, the runtime
  state it found and the one it left.\<close>

definition release_turn ::
  "turn_claim \<Rightarrow> ('a, 'x, 'd, 'n, 'db) turn_env \<Rightarrow> ('x, 'd, 'db) turn_state \<Rightarrow> bool \<times> ('x, 'd, 'db) turn_state" where
  "release_turn k T st = (case read_service (service_env T) (tn_relay st) of (s, r) \<Rightarrow>
     case release_for_turn (te_notify T) (env_turn (te_relay T)) k (Some s) of (d, _, left) \<Rightarrow>
       (d, note_effect (Claim_Released d (runtime s) (runtime (case left of None \<Rightarrow> s | Some s' \<Rightarrow> s')))
         (st\<lparr>tn_relay := r\<rparr>)))"

section \<open>One attempt\<close>

definition max_system_response_continuations :: nat where
  "max_system_response_continuations = 4"

datatype 'x attempt_end =
    Attempt_Failed string
  | Attempt_Done "'x relay_outcome" "'x attempt_summary" agent_type

record 'x attempt_state =
  at_send :: send_data
  at_count :: nat
  at_summary :: "'x attempt_summary"

definition fail_attempt ::
  "'x stream_error \<Rightarrow> string \<Rightarrow> string \<Rightarrow> ('a, 'x, 'd, 'n, 'db) turn_env \<Rightarrow> ('x, 'd, 'db) turn_state
    \<Rightarrow> 'x attempt_end \<times> ('x, 'd, 'db) turn_state" where
  "fail_attempt e ecode message T st =
     (Attempt_Failed message, show_send_failure e (Some ecode) T st)"

text \<open>The task that sends reports a failure to the feedback port before it hands the error to the relay.\<close>

fun note_send_errors ::
  "('x, 'd) poll list \<Rightarrow> ('a, 'x, 'd, 'n, 'db) turn_env \<Rightarrow> ('x, 'd, 'db) turn_state \<Rightarrow> ('x, 'd, 'db) turn_state" where
  "note_send_errors [] T st = st"
| "note_send_errors (Poll_Send_Error e # ps) T st =
     record_agent_session_failure ''session_send_failed'' (send_error_display_message e) T st"
| "note_send_errors (p # ps) T st = note_send_errors ps T st"

definition apply_required_mode ::
  "('a, 'x, 'd) agent \<Rightarrow> nat \<Rightarrow> ('a, 'x, 'd, 'n, 'db) turn_env \<Rightarrow> 'a agent_error option" where
  "apply_required_mode ag n T =
     (case map_option trim (te_required_mode T) of
        None \<Rightarrow> None
      | Some mode \<Rightarrow> if mode = [] then None else ag_set_mode ag n mode)"

text \<open>One round of the loop: relay one send and decide whether another follows; \<open>None\<close> when the stream
  does not end.\<close>

definition attempt_round ::
  "bool \<Rightarrow> ('a, 'x, 'd) agent \<Rightarrow> 'x attempt_state \<Rightarrow> ('a, 'x, 'd, 'n, 'db) turn_env \<Rightarrow> ('x, 'd, 'db) turn_state
    \<Rightarrow> (('x attempt_end + 'x attempt_state) \<times> ('x, 'd, 'db) turn_state) option" where
  "attempt_round defer_clean ag a T st =
     (case read_lifecycle T st of (l, st) \<Rightarrow>
        let mid = sd_msg_id (at_send a);
            defer = (defer_clean \<and> ag_type ag = Acp \<and> l = Lc_Active \<and> safe_to_auto_replay (at_summary a))
        in case apply_required_mode ag (at_count a) T of
          Some e \<Rightarrow>
            (case fail_attempt (te_classify T None e) (agent_error_top_level_code e)
                (agent_error_text (te_acp_text T) e) T st of (r, st) \<Rightarrow> Some (Inl r, st))
        | None \<Rightarrow>
            let st = note_effect (Message_Sent (at_send a)) st;
                st = note_send_errors (ag_polls ag (at_count a)) T st
            in case relay_run (ag_polls ag (at_count a)) (relay_env_for T mid defer) (start_relay (tn_relay st)) of
              None \<Rightarrow> None
            | Some (ro, r) \<Rightarrow>
                let st = st\<lparr>tn_relay := r\<rparr>;
                    agg = merge_attempt (at_summary a) (outcome_attempt ro);
                    st = (case ag_session_key ag (at_count a) of None \<Rightarrow> st
                          | Some key \<Rightarrow> with_relay (persist_session_key key (service_env T)) st)
                in case decide_continuation max_system_response_continuations (at_count a) ro l of
                  Stop _ \<Rightarrow> Some (Inl (Attempt_Done ro agg (ag_type ag)), st)
                | Continue content n \<Rightarrow>
                    (case mint_msg_id (service_env T) (tn_relay st) of (i, r) \<Rightarrow>
                       Some (Inr \<lparr>at_send = \<lparr>sd_content = content, sd_msg_id = i,
                               sd_turn = Some (env_turn (te_relay T)), sd_files = [], sd_skills = []\<rparr>,
                             at_count = n, at_summary = agg\<rparr>,
                         st\<lparr>tn_relay := r\<rparr>)))"

lemma decide_continuation_count:
  "decide_continuation m n ro l = Continue c n' \<Longrightarrow> n < m \<and> n' = Suc n"
  by (auto simp: decide_continuation_def split: if_splits)

lemma attempt_round_count:
  assumes "attempt_round d ag a T st = Some (Inr a', st')"
  shows "at_count a < max_system_response_continuations \<and> at_count a' = Suc (at_count a)"
  using assms
  by (auto simp: attempt_round_def Let_def fail_attempt_def dest: decide_continuation_count
      split: prod.splits option.splits continuation_decision.splits)

function attempt_loop ::
  "bool \<Rightarrow> ('a, 'x, 'd) agent \<Rightarrow> 'x attempt_state \<Rightarrow> ('a, 'x, 'd, 'n, 'db) turn_env \<Rightarrow> ('x, 'd, 'db) turn_state
    \<Rightarrow> ('x attempt_end \<times> ('x, 'd, 'db) turn_state) option" where
  "attempt_loop d ag a T st =
     (case attempt_round d ag a T st of
        None \<Rightarrow> None
      | Some (Inl r, st) \<Rightarrow> Some (r, st)
      | Some (Inr a, st) \<Rightarrow> attempt_loop d ag a T st)"
  by pat_completeness auto

termination
  by (relation "measure (\<lambda>(d, ag, a, T, st). max_system_response_continuations - at_count a)")
    (auto dest: attempt_round_count)

definition run_attempt ::
  "bool \<Rightarrow> send_data \<Rightarrow> ('a, 'x, 'd, 'n, 'db) turn_env \<Rightarrow> ('x, 'd, 'db) turn_state
    \<Rightarrow> ('x attempt_end \<times> ('x, 'd, 'db) turn_state) option" where
  "run_attempt defer_clean send T st =
     (let build = te_build T (tn_builds st);
          st = note_effect Task_Requested (st\<lparr>tn_builds := Suc (tn_builds st)\<rparr>)
      in case build of
        Inl e \<Rightarrow>
          (let se = te_classify T (acp_backend_from_build_options (te_options T)) e;
               ecode = (if err_code se = Some User_Agent_Openclaw_Gateway_Unreachable
                      then ''USER_AGENT_OPENCLAW_GATEWAY_UNREACHABLE'' else agent_error_top_level_code e);
               message = send_error_display_message se;
               st = record_agent_session_failure ''session_build_failed'' message T st
           in Some (fail_attempt se ecode message T st))
      | Inr ag \<Rightarrow>
          (case maybe_persist_workspace (bo_workspace (te_options T)) (ag_workspace ag) (service_env T) (tn_relay st) of
             (Inl e, r) \<Rightarrow>
               Some (fail_attempt (te_classify T None (conv_to_agent_error (te_acp_text T) e)) (conv_error_code e)
                 (conv_error_text e) T (st\<lparr>tn_relay := r\<rparr>))
           | (Inr _, r) \<Rightarrow>
               attempt_loop defer_clean ag \<lparr>at_send = send, at_count = 0, at_summary = default_attempt\<rparr> T
                 (st\<lparr>tn_relay := r\<rparr>)))"

section \<open>The turn\<close>

text \<open>One attempt and what follows from it: the turn is over, failed with a message or not, or it is
  played again.\<close>

datatype turn_verdict = Turn_Over bool "string option" | Turn_Replay

definition judge_attempt ::
  "bool \<Rightarrow> 'x attempt_end \<Rightarrow> ('a, 'x, 'd, 'n, 'db) turn_env \<Rightarrow> ('x, 'd, 'db) turn_state
    \<Rightarrow> turn_verdict \<times> ('x, 'd, 'db) turn_state" where
  "judge_attempt replayed r T st =
     (case r of
        Attempt_Failed message \<Rightarrow> (Turn_Over True (Some message), st)
      | Attempt_Done ro agg ag \<Rightarrow>
          case read_lifecycle T st of (l, st) \<Rightarrow>
            if \<not> term_is_error (outcome_terminal ro) then (Turn_Over False None, st)
            else case decide_recovery ag (ro\<lparr>outcome_attempt := agg\<rparr>) l replayed of
              Auto_Replay_Once _ _ _ \<Rightarrow> (Turn_Replay, snd (evict_acp_task_after_terminal_error ag ro T st))
            | Recovery_None \<Rightarrow>
                let st = (case (terminal_error_deferred (outcome_attempt ro), terminal_error (outcome_attempt ro)) of
                            (True, Some e) \<Rightarrow> show_send_failure e None T st
                          | _ \<Rightarrow> st);
                    st = (case decide_health ag ro l of Keep_Task \<Rightarrow> st
                          | Evict_Acp_Task _ _ _ \<Rightarrow> snd (evict_acp_task_after_terminal_error ag ro T st))
                in (Turn_Over True (turn_attempt_error_message agg), st))"

text \<open>A replayed attempt is never played again, so two attempts are all there is.\<close>

definition turn_attempt ::
  "bool \<Rightarrow> send_data \<Rightarrow> ('a, 'x, 'd, 'n, 'db) turn_env \<Rightarrow> ('x, 'd, 'db) turn_state
    \<Rightarrow> (turn_verdict \<times> ('x, 'd, 'db) turn_state) option" where
  "turn_attempt replayed send T st =
     (case run_attempt (\<not> replayed) send T st of
        None \<Rightarrow> None
      | Some (r, st) \<Rightarrow> Some (judge_attempt replayed r T st))"

lemma decide_recovery_replayed [simp]: "decide_recovery ag ro l True = Recovery_None"
  by (simp add: decide_recovery_def)

lemma turn_attempt_replayed: "turn_attempt True send T st \<noteq> Some (Turn_Replay, st')"
  by (auto simp: turn_attempt_def judge_attempt_def Let_def split: option.splits attempt_end.splits prod.splits)

function turn_loop ::
  "bool \<Rightarrow> send_data \<Rightarrow> ('a, 'x, 'd, 'n, 'db) turn_env \<Rightarrow> ('x, 'd, 'db) turn_state
    \<Rightarrow> ((bool \<times> string option) \<times> ('x, 'd, 'db) turn_state) option" where
  "turn_loop replayed send T st =
     (case turn_attempt replayed send T st of
        None \<Rightarrow> None
      | Some (Turn_Over failed message, st) \<Rightarrow> Some ((failed, message), st)
      | Some (Turn_Replay, st) \<Rightarrow> turn_loop True send T st)"
  by pat_completeness auto

termination
proof (relation "measure (\<lambda>(replayed, send, T, st). if replayed then 0 else 1)")
  fix replayed send T st x y st'
  assume "turn_attempt replayed send T st = Some x" "(y, st') = x" "y = Turn_Replay"
  then show "((True, send, T, st'), (replayed, send, T, st)) \<in> measure (\<lambda>(replayed, send, T, st). if replayed then 0 else 1)"
    using turn_attempt_replayed by (cases replayed) auto
qed simp

datatype turn_status = Turn_Completed_Ok | Turn_Failed

record turn_result =
  res_status :: turn_status
  res_error :: "string option"

definition run_user_turn ::
  "string \<Rightarrow> turn_claim \<Rightarrow> ('a, 'x, 'd, 'n, 'db) turn_env \<Rightarrow> ('x, 'd, 'db) turn_state
    \<Rightarrow> (turn_result \<times> ('x, 'd, 'db) turn_state) option" where
  "run_user_turn content k T st =
     (case mint_msg_id (service_env T) (tn_relay st) of (i, r) \<Rightarrow>
        case turn_loop False \<lparr>sd_content = content, sd_msg_id = i, sd_turn = Some (env_turn (te_relay T)),
            sd_files = te_files T, sd_skills = te_inject_skills T\<rparr> T (st\<lparr>tn_relay := r\<rparr>) of
          None \<Rightarrow> None
        | Some ((failed, message), st) \<Rightarrow>
            let st = (if \<not> failed then record_agent_session_success T st else st) in
            case release_turn k T st of (was_deleting, st) \<Rightarrow>
              Some (\<lparr>res_status = (if failed then Turn_Failed else Turn_Completed_Ok),
                     res_error = (if failed then message else None)\<rparr>,
                    complete_released_turn was_deleting T st))"

end
