(* ===== verification/Turn_Facts.thy ===== *)
theory Turn_Facts
  imports Turn_Orchestrator Relay_Facts
begin

text \<open>
  What a turn guarantees, whatever the agent and the other tasks do: it ends once the streams of
  its agent end, it sends at most ten messages in at most two attempts, it repeats an attempt only when
  that attempt showed nothing, and when it fails it says why.
\<close>

section \<open>Streams that end\<close>

fun ends_stream :: "('x, 'd) poll \<Rightarrow> bool" where
  "ends_stream (Poll_Event ev) = is_terminal_event ev"
| "ends_stream Poll_Closed = True"
| "ends_stream _ = False"

lemma receive_terminal: "is_terminal_event ev \<Longrightarrow> \<exists>ro st'. receive ev E st = (Some ro, st')"
  by (auto simp: receive_def split: prod.splits)

lemma relay_step_ends: "ends_stream p \<Longrightarrow> \<exists>ro st'. relay_step p E st = (Some ro, st')"
  by (cases p) (auto intro: receive_terminal split: option.splits prod.splits)

lemma relay_run_ends:
  assumes "\<exists>p \<in> set ps. ends_stream p"
  shows "relay_run ps E st \<noteq> None"
  using assms
proof (induction ps arbitrary: st)
  case (Cons p ps)
  then show ?case using relay_step_ends [of p E st] by (auto split: prod.splits option.splits)
qed simp

lemma attempt_round_ends:
  assumes "\<exists>p \<in> set (ag_polls ag (at_count a)). ends_stream p"
  shows "attempt_round d ag a T st \<noteq> None"
  by (simp add: attempt_round_def Let_def relay_run_ends [OF assms]
      split: prod.splits option.splits continuation_decision.splits)

lemma attempt_loop_ends:
  assumes "\<And>n. \<exists>p \<in> set (ag_polls ag n). ends_stream p"
  shows "attempt_loop d ag a T st \<noteq> None"
  using assms
proof (induction d ag a T st rule: attempt_loop.induct)
  case (1 d ag a T st)
  then show ?case
    using attempt_round_ends [OF 1(2), of d a T st]
    by (subst attempt_loop.simps) (auto simp del: attempt_loop.simps split: option.splits sum.splits)
qed

definition agents_end_streams :: "('a, 'x, 'd, 'n, 'db) turn_env \<Rightarrow> bool" where
  "agents_end_streams T \<longleftrightarrow>
     (\<forall>b ag n. te_build T b = Inr ag \<longrightarrow> (\<exists>p \<in> set (ag_polls ag n). ends_stream p))"

lemma run_attempt_ends:
  assumes "agents_end_streams T"
  shows "run_attempt d send T st \<noteq> None"
  using assms attempt_loop_ends unfolding agents_end_streams_def
  by (fastforce simp: run_attempt_def Let_def simp del: attempt_loop.simps split: sum.splits prod.splits)

lemma turn_loop_ends:
  assumes "agents_end_streams T"
  shows "turn_loop replayed send T st \<noteq> None"
  using assms
proof (induction replayed send T st rule: turn_loop.induct)
  case (1 replayed send T st)
  then show ?case
    using run_attempt_ends [OF 1(2), of "\<not> replayed" send st]
    by (subst turn_loop.simps) (auto simp: turn_attempt_def simp del: turn_loop.simps
        split: option.splits turn_verdict.splits prod.splits)
qed

section \<open>Calm operations\<close>

fun is_send :: "turn_effect \<Rightarrow> bool" where
  "is_send (Message_Sent _) = True"
| "is_send _ = False"

definition sends :: "('x, 'd, 'db) turn_state \<Rightarrow> nat" where
  "sends st = length (filter is_send (tn_log st))"

text \<open>An operation is calm when it builds and sends nothing, only adds to the log and is quiet.\<close>

definition calm :: "('x, 'd, 'db) turn_state \<Rightarrow> ('x, 'd, 'db) turn_state \<Rightarrow> bool" where
  "calm st st' \<longleftrightarrow> tn_builds st' = tn_builds st \<and> quiet (tn_relay st) (tn_relay st')
     \<and> (\<exists>es. tn_log st' = tn_log st @ es \<and> filter is_send es = [])"

lemma calm_refl [simp]: "calm st st"
  by (simp add: calm_def)

lemma calm_trans [trans]:
  assumes "calm a b" and "calm b c"
  shows "calm a c"
proof -
  obtain xs ys where "tn_log b = tn_log a @ xs" "filter is_send xs = []" "tn_log c = tn_log b @ ys" "filter is_send ys = []"
    using assms unfolding calm_def by blast
  then have "tn_log c = tn_log a @ xs @ ys" "filter is_send (xs @ ys) = []" by simp_all
  then show ?thesis
    using assms quiet_trans [of "tn_relay a" "tn_relay b" "tn_relay c"] unfolding calm_def by metis
qed

lemma calm_relay: "quiet (tn_relay st) r \<Longrightarrow> calm st (st\<lparr>tn_relay := r\<rparr>)"
  by (simp add: calm_def)

lemma calm_note: "\<not> is_send e \<Longrightarrow> calm st (note_effect e st)"
  by (simp add: calm_def note_effect_def)

lemma calm_after_relay: "calm a st \<Longrightarrow> quiet (tn_relay st) r \<Longrightarrow> calm a (st\<lparr>tn_relay := r\<rparr>)"
  by (blast intro: calm_trans calm_relay)

lemma calm_after_note: "calm a st \<Longrightarrow> \<not> is_send e \<Longrightarrow> calm a (note_effect e st)"
  by (blast intro: calm_trans calm_note)

lemma quiet_db: "quiet st (st\<lparr>rl_db := db\<rparr>)"
  by (rule quietI) simp_all

lemma quiet_write_extra: "quiet st (snd (write_extra m E st))"
  unfolding write_extra_def split_beta snd_conv by (rule quiet_trans [OF quiet_basic(2) quiet_db])

lemma quiet_checked_write_extra: "quiet st (snd (write_extra m E (snd (allows_write k E st))))"
  by (rule quiet_trans [OF quiet_basic(4) quiet_write_extra])

lemma quiet_persist_session_key: "quiet st (persist_session_key key E st)"
  unfolding persist_session_key_def split_beta
  by (simp add: quiet_checked_write_extra quiet_basic split: sum.split option.split)

lemma quiet_maybe_persist_workspace: "quiet st (snd (maybe_persist_workspace stored resolved E st))"
  unfolding maybe_persist_workspace_def split_beta
  by (simp add: quiet_checked_write_extra quiet_basic split: sum.split option.split)

lemma calm_read_lifecycle: "calm st (snd (read_lifecycle T st))"
  by (auto simp: read_lifecycle_def split_beta intro: calm_relay quiet_basic)

lemma quiet_broadcast_row: "quiet st (broadcast (Stream_Row i r) st)"
  by (auto simp: quiet_def broadcast_def)

lemma calm_persist_send_failure_tip: "calm st (snd (persist_send_failure_tip e c T st))"
  unfolding persist_send_failure_tip_def split_beta Let_def
  by (simp add: calm_after_note calm_relay quiet_after quiet_basic)

lemma calm_show_send_failure: "calm st (show_send_failure e c T st)"
proof -
  let ?p = "persist_send_failure_tip e c T st"
  have "calm st (snd ?p)" by (rule calm_persist_send_failure_tip)
  also have "calm (snd ?p) (with_relay (broadcast (Stream_Row i r)) (snd ?p))" for i r
    unfolding with_relay_def by (rule calm_relay [OF quiet_broadcast_row])
  finally show ?thesis
    using calm_persist_send_failure_tip [of st e c T] by (auto simp: show_send_failure_def split: prod.splits option.splits)
qed

lemma calm_clear_acp_model: "calm st (clear_persisted_acp_model c T st)"
  by (auto simp: clear_persisted_acp_model_def split_beta Let_def intro!: calm_after_note calm_relay quiet_basic)

lemma calm_clear_model_seed: "calm st (clear_conversation_model_seed c T st)"
proof -
  let ?r = "snd (allows_write Wk_Acp_Recovery_Cleanup (service_env T) (tn_relay st))"
  have "calm st (st\<lparr>tn_relay := snd (write_extra m (service_env T) ?r)\<rparr>)" for m
    by (intro calm_relay quiet_trans [OF quiet_basic(4) quiet_write_extra])
  moreover have "calm st (st\<lparr>tn_relay := ?r\<rparr>)" by (intro calm_relay quiet_basic)
  ultimately show ?thesis
    unfolding clear_conversation_model_seed_def split_beta Let_def
    by (auto simp: split_beta intro: calm_after_note split: sum.split option.split)
qed

lemma calm_evict: "calm st (snd (evict_acp_task_after_terminal_error ag ro T st))"
  by (simp add: evict_acp_task_after_terminal_error_def
      calm_trans [OF calm_trans [OF calm_note calm_clear_acp_model] calm_clear_model_seed])

lemma calm_record_failure: "calm st (record_agent_session_failure c m T st)"
  by (simp add: record_agent_session_failure_def calm_note split: option.split)

lemma calm_record_success: "calm st (record_agent_session_success T st)"
  by (simp add: record_agent_session_success_def calm_note split: option.split)

lemma calm_note_send_errors: "calm st (note_send_errors ps T st)"
  by (induction ps T st rule: note_send_errors.induct) (simp_all add: calm_record_failure)

lemma calm_complete_released_turn: "calm st (complete_released_turn d T st)"
proof -
  have 1: "calm st (snd (runtime_summary_for T st))"
    by (auto simp: runtime_summary_for_def split_beta Let_def intro: calm_relay quiet_basic)
  then have "calm st (complete_turn T st)"
    by (auto simp: complete_turn_def split_beta with_relay_def intro!: calm_after_relay quiet_publish)
  then show ?thesis by (simp add: complete_released_turn_def)
qed

lemma calm_release_turn: "calm st (snd (release_turn k T st))"
  by (auto simp: release_turn_def split_beta intro!: calm_after_note calm_relay quiet_basic)

lemma calm_fail_attempt: "calm st (snd (fail_attempt e c m T st))"
  by (simp add: fail_attempt_def calm_show_send_failure)

lemma calm_judge_attempt: "calm st (snd (judge_attempt replayed r T st))"
proof (cases r)
  case (Attempt_Done ro agg ag)
  let ?s = "snd (read_lifecycle T st)"
  have 1: "calm st ?s" by (rule calm_read_lifecycle)
  have 2: "calm st (show_send_failure e c T ?s)" for e c
    using calm_trans [OF 1 calm_show_send_failure] .
  have "calm st (snd (evict_acp_task_after_terminal_error ag ro T s))" if "calm st s" for s
    using calm_trans [OF that calm_evict] .
  then show ?thesis
    using 1 2 by (simp add: judge_attempt_def Attempt_Done split_beta Let_def
        split: recovery_decision.split health_action.split bool.split option.split)
qed (simp add: judge_attempt_def)

section \<open>Sends, attempts and what was shown\<close>

definition unshown :: "('x, 'd, 'db) turn_state \<Rightarrow> bool" where
  "unshown st \<longleftrightarrow> (\<forall>m \<in> set (rl_sent (tn_relay st)). \<not> shows_message m)"

lemma calm_unshown: "calm st st' \<Longrightarrow> unshown st \<Longrightarrow> unshown st'"
  by (auto simp: calm_def quiet_def unshown_def)

lemma sends_calm: "calm st st' \<Longrightarrow> sends st' = sends st" and builds_calm: "calm st st' \<Longrightarrow> tn_builds st' = tn_builds st"
  by (auto simp: calm_def sends_def)

lemma sends_relay [simp]: "sends (st\<lparr>tn_relay := r\<rparr>) = sends st"
  by (simp add: sends_def)

text \<open>What a round starts from and what it hands on.\<close>

fun round_summary :: "'x attempt_end + 'x attempt_state \<Rightarrow> 'x attempt_summary option" where
  "round_summary (Inl (Attempt_Failed _)) = None"
| "round_summary (Inl (Attempt_Done _ agg _)) = Some agg"
| "round_summary (Inr a) = Some (at_summary a)"

lemma attempt_round_cases:
  assumes "attempt_round d ag a T st = Some (res, st')"
  obtains (mode) e c m where "res = Inl (Attempt_Failed m)" "st' = snd (fail_attempt e c m T (snd (read_lifecycle T st)))"
  | (streamed) ro r s df where
      "relay_run (ag_polls ag (at_count a)) (relay_env_for T (sd_msg_id (at_send a)) df)
        (start_relay (tn_relay (note_send_errors (ag_polls ag (at_count a)) T
          (note_effect (Message_Sent (at_send a)) (snd (read_lifecycle T st)))))) = Some (ro, r)"
      "s = (note_send_errors (ag_polls ag (at_count a)) T
          (note_effect (Message_Sent (at_send a)) (snd (read_lifecycle T st))))\<lparr>tn_relay := r\<rparr>"
      "calm s st'" "round_summary res = Some (merge_attempt (at_summary a) (outcome_attempt ro))"
      "\<And>r agg ty. res = Inl (Attempt_Done r agg ty) \<Longrightarrow> r = ro \<and> ty = ag_type ag"
      "term_is_error (outcome_terminal ro) \<Longrightarrow> \<exists>agg. res = Inl (Attempt_Done ro agg (ag_type ag))"
proof (cases "apply_required_mode ag (at_count a) T")
  case (Some e)
  show ?thesis
    by (rule mode) (use assms Some in \<open>auto simp: attempt_round_def Let_def fail_attempt_def split_beta\<close>)
next
  case None
  let ?l = "fst (read_lifecycle T st)"
  let ?defer = "d \<and> ag_type ag = Acp \<and> ?l = Lc_Active \<and> safe_to_auto_replay (at_summary a)"
  let ?s0 = "note_send_errors (ag_polls ag (at_count a)) T (note_effect (Message_Sent (at_send a)) (snd (read_lifecycle T st)))"
  obtain ro r where run: "relay_run (ag_polls ag (at_count a)) (relay_env_for T (sd_msg_id (at_send a)) ?defer)
      (start_relay (tn_relay ?s0)) = Some (ro, r)"
    using assms None by (auto simp: attempt_round_def Let_def split_beta split: option.splits)
  let ?s = "?s0\<lparr>tn_relay := r\<rparr>"
  let ?s1 = "case ag_session_key ag (at_count a) of None \<Rightarrow> ?s | Some key \<Rightarrow> with_relay (persist_session_key key (service_env T)) ?s"
  have 1: "calm ?s ?s1"
    by (auto simp: with_relay_def calm_def quiet_persist_session_key split: option.split)
  then have 2: "calm ?s (?s1\<lparr>tn_relay := snd (mint_msg_id (service_env T) (tn_relay ?s1))\<rparr>)"
    by (rule calm_after_relay) (rule quiet_basic)
  show ?thesis
    by (rule streamed [OF run refl])
      (use assms None run 1 2 in \<open>auto simp: attempt_round_def Let_def split_beta decide_continuation_def
        split: continuation_decision.splits if_splits\<close>)
qed

lemma start_relay_frame [simp]:
  "rl_sent (start_relay st) = rl_sent st" "rl_db (start_relay st) = rl_db st" "rl_full_text (start_relay st) = []"
  "rl_attempt (start_relay st) = default_attempt"
  by (simp_all add: start_relay_def)

lemma attempt_round_frame:
  assumes "attempt_round d ag a T st = Some (res, st')"
  shows "tn_builds st' = tn_builds st" and "sends st' \<le> Suc (sends st)"
proof -
  have r: "calm st (snd (read_lifecycle T st))" by (rule calm_read_lifecycle)
  let ?s0 = "note_send_errors (ag_polls ag (at_count a)) T (note_effect (Message_Sent (at_send a)) (snd (read_lifecycle T st)))"
  have ns: "calm (note_effect (Message_Sent (at_send a)) (snd (read_lifecycle T st))) ?s0"
    by (rule calm_note_send_errors)
  have s0: "sends ?s0 = Suc (sends st)" "tn_builds ?s0 = tn_builds st"
    using sends_calm [OF r] builds_calm [OF r] sends_calm [OF ns] builds_calm [OF ns]
    by (simp_all add: sends_def note_effect_def)
  have "tn_builds st' = tn_builds st \<and> sends st' \<le> Suc (sends st)"
    using assms
  proof (cases rule: attempt_round_cases)
    case (mode e c m)
    then have "calm st st'" using calm_trans [OF r calm_fail_attempt] by simp
    then show ?thesis by (simp add: sends_calm builds_calm)
  next
    case (streamed ro r s df)
    then show ?thesis using s0 by (simp add: sends_calm builds_calm)
  qed
  then show "tn_builds st' = tn_builds st" and "sends st' \<le> Suc (sends st)" by simp_all
qed

lemma attempt_round_clean:
  assumes "attempt_round d ag a T st = Some (res, st')" and "round_summary res = Some agg" and "safe_to_auto_replay agg"
    and "unshown st"
  shows "unshown st'"
  using assms(1)
proof (cases rule: attempt_round_cases)
  case (mode e c m)
  then show ?thesis using assms(2) by simp
next
  case (streamed ro r s df)
  let ?s0 = "note_send_errors (ag_polls ag (at_count a)) T (note_effect (Message_Sent (at_send a)) (snd (read_lifecycle T st)))"
  have safe: "safe_to_auto_replay (outcome_attempt ro)"
    using streamed(4) assms(2,3) by auto
  have "unshown (note_effect (Message_Sent (at_send a)) (snd (read_lifecycle T st)))"
    using calm_unshown [OF calm_read_lifecycle assms(4)] by (simp add: unshown_def note_effect_def)
  then have "unshown ?s0" by (rule calm_unshown [OF calm_note_send_errors])
  then have "clean_inv (start_relay (tn_relay ?s0))"
    by (simp add: clean_inv_def unshown_def)
  then have "unseen r" by (rule clean_run [OF streamed(1) _ safe])
  then have "unshown s" by (simp add: streamed(2) unseen_def unshown_def)
  then show ?thesis by (rule calm_unshown [OF streamed(3)])
qed

lemma attempt_round_safe:
  assumes "attempt_round d ag a T st = Some (res, st')" and "round_summary res = Some agg" and "safe_to_auto_replay agg"
  shows "safe_to_auto_replay (at_summary a)"
  using assms(1) by (cases rule: attempt_round_cases) (use assms(2,3) in auto)

lemma attempt_loop_cases:
  assumes "attempt_loop d ag a T st = Some (r, st')"
  obtains (over) "attempt_round d ag a T st = Some (Inl r, st')"
  | (more) a1 st1 where "attempt_round d ag a T st = Some (Inr a1, st1)" "attempt_loop d ag a1 T st1 = Some (r, st')"
  using assms by (subst (asm) attempt_loop.simps) (auto simp del: attempt_loop.simps split: option.splits sum.splits prod.splits)

declare attempt_loop.simps [simp del] turn_loop.simps [simp del]

lemma attempt_loop_frame:
  assumes "attempt_loop d ag a T st = Some (r, st')" and "at_count a \<le> max_system_response_continuations"
  shows "tn_builds st' = tn_builds st \<and> sends st' + at_count a \<le> sends st + Suc max_system_response_continuations"
  using assms
proof (induction d ag a T st rule: attempt_loop.induct)
  case (1 d ag a T st)
  from 1(2) show ?case
  proof (cases rule: attempt_loop_cases)
    case over
    then show ?thesis using attempt_round_frame [OF over] 1(3) by simp
  next
    case (more a1 st1)
    have "at_count a1 = Suc (at_count a)" "at_count a < max_system_response_continuations"
      using attempt_round_count [OF more(1)] by simp_all
    then show ?thesis
      using 1(1) [OF more(1) refl refl more(2)] attempt_round_frame [OF more(1)] by simp
  qed
qed

lemma attempt_loop_safe:
  assumes "attempt_loop d ag a T st = Some (Attempt_Done ro agg ty, st')" and "safe_to_auto_replay agg"
  shows "safe_to_auto_replay (at_summary a)"
  using assms
proof (induction d ag a T st rule: attempt_loop.induct)
  case (1 d ag a T st)
  from 1(2) show ?case
  proof (cases rule: attempt_loop_cases)
    case over
    then show ?thesis using attempt_round_safe [OF over _ 1(3)] by simp
  next
    case (more a1 st1)
    show ?thesis
      using attempt_round_safe [OF more(1) _ 1(1) [OF more(1) refl refl more(2) 1(3)]] by simp
  qed
qed

lemma attempt_loop_clean:
  assumes "attempt_loop d ag a T st = Some (Attempt_Done ro agg ty, st')" and "safe_to_auto_replay agg" and "unshown st"
  shows "unshown st'"
  using assms
proof (induction d ag a T st rule: attempt_loop.induct)
  case (1 d ag a T st)
  from 1(2) show ?case
  proof (cases rule: attempt_loop_cases)
    case over
    then show ?thesis using attempt_round_clean [OF over _ 1(3,4)] by simp
  next
    case (more a1 st1)
    have "unshown st1"
      using attempt_round_clean [OF more(1) _ attempt_loop_safe [OF more(2) 1(3)] 1(4)] by simp
    then show ?thesis by (rule 1(1) [OF more(1) refl refl more(2) 1(3)])
  qed
qed

lemma run_attempt_cases:
  fixes T :: "('a, 'x, 'd, 'n, 'db) turn_env"
  assumes "run_attempt d send T st = Some (r, st')"
  obtains (fails) s e c m where "calm (st\<lparr>tn_builds := Suc (tn_builds st)\<rparr>) s" "fail_attempt e c m T s = (r, st')"
  | (runs) ag s where "calm (st\<lparr>tn_builds := Suc (tn_builds st)\<rparr>) s"
      "attempt_loop d ag \<lparr>at_send = send, at_count = 0, at_summary = default_attempt\<rparr> T s = Some (r, st')"
proof -
  let ?b = "st\<lparr>tn_builds := Suc (tn_builds st)\<rparr>"
  have n: "calm ?b (note_effect Task_Requested ?b)" by (rule calm_note) simp
  show ?thesis
  proof (cases "te_build T (tn_builds st)")
    case (Inl e)
    from assms show ?thesis
      unfolding run_attempt_def Let_def Inl sum.case option.inject
      by (rule fails [OF calm_trans [OF n calm_record_failure]])
  next
    case (Inr ag)
    let ?w = "maybe_persist_workspace (bo_workspace (te_options T)) (ag_workspace ag) (service_env T)
        (tn_relay (note_effect Task_Requested ?b)) :: ('a conversation_error + unit) \<times> ('x, 'd, 'db) relay_state"
    have w: "calm ?b ((note_effect Task_Requested ?b)\<lparr>tn_relay := snd ?w\<rparr>)"
      by (rule calm_after_relay [OF n quiet_maybe_persist_workspace])
    note run = assms [unfolded run_attempt_def Let_def Inr sum.case]
    show ?thesis
    proof (cases ?w)
      case (Pair res s)
      with run w show ?thesis
        by (cases res) (auto intro: fails runs)
    qed
  qed
qed

lemma turn_attempt_frame:
  assumes "turn_attempt replayed send T st = Some (v, st')"
  shows "tn_builds st' = Suc (tn_builds st)" and "sends st' \<le> sends st + 5"
proof -
  obtain r s where r: "run_attempt (\<not> replayed) send T st = Some (r, s)" and j: "judge_attempt replayed r T s = (v, st')"
    using assms by (auto simp: turn_attempt_def split: option.splits)
  have 1: "calm s st'" using calm_judge_attempt [of s replayed r T] j by simp
  have b: "sends (st\<lparr>tn_builds := n\<rparr>) = sends st" for n by (simp add: sends_def)
  have "tn_builds s = Suc (tn_builds st) \<and> sends s \<le> sends st + 5"
    using r
  proof (cases rule: run_attempt_cases)
    case (fails s0 e c m)
    have "calm (st\<lparr>tn_builds := Suc (tn_builds st)\<rparr>) s"
      using calm_trans [OF fails(1) calm_fail_attempt [of s0 e c m T]] fails(2) by simp
    from sends_calm [OF this] builds_calm [OF this] show ?thesis by (simp add: b)
  next
    case (runs ag s0)
    have "tn_builds s = tn_builds s0 \<and> sends s \<le> sends s0 + 5"
      using attempt_loop_frame [OF runs(2)] by (simp add: max_system_response_continuations_def)
    then show ?thesis using sends_calm [OF runs(1)] builds_calm [OF runs(1)] by (simp add: b)
  qed
  then show "tn_builds st' = Suc (tn_builds st)" and "sends st' \<le> sends st + 5"
    using 1 by (simp_all add: sends_calm builds_calm)
qed

lemma judge_replay:
  assumes "judge_attempt replayed r T st = (Turn_Replay, st')"
  obtains ro agg where "r = Attempt_Done ro agg Acp" and "safe_to_auto_replay agg" and "\<not> replayed"
    and "term_is_error (outcome_terminal ro)" and "term_retryable (outcome_terminal ro) = Some True"
  using assms
  by (auto simp: judge_attempt_def Let_def split_beta decide_recovery_def split: attempt_end.splits if_splits)

lemma turn_attempt_replay_clean:
  assumes "turn_attempt replayed send T st = Some (Turn_Replay, st')" and "unshown st"
  shows "unshown st'"
proof -
  obtain r s where r: "run_attempt (\<not> replayed) send T st = Some (r, s)"
    and j: "judge_attempt replayed r T s = (Turn_Replay, st')"
    using assms by (auto simp: turn_attempt_def split: option.splits)
  obtain ro agg where d: "r = Attempt_Done ro agg Acp" "safe_to_auto_replay agg" using judge_replay [OF j] .
  have b: "unshown (st\<lparr>tn_builds := n\<rparr>)" for n using assms(2) by (simp add: unshown_def)
  have "unshown s"
    using r
  proof (cases rule: run_attempt_cases)
    case (fails s0 e c m)
    then show ?thesis using d by (simp add: fail_attempt_def)
  next
    case (runs ag s0)
    then show ?thesis using attempt_loop_clean [OF _ d(2) calm_unshown [OF runs(1) b]] d(1) by simp
  qed
  then show ?thesis using calm_unshown calm_judge_attempt [of s replayed r T] j by fastforce
qed

lemma turn_loop_cases:
  assumes "turn_loop replayed send T st = Some ((failed, message), st')"
  obtains (over) "turn_attempt replayed send T st = Some (Turn_Over failed message, st')"
  | (replay) st1 where "\<not> replayed" "turn_attempt False send T st = Some (Turn_Replay, st1)"
      "turn_attempt True send T st1 = Some (Turn_Over failed message, st')"
proof -
  have once: "turn_loop True send T s = (case turn_attempt True send T s of None \<Rightarrow> None
      | Some (Turn_Over failed message, s') \<Rightarrow> Some ((failed, message), s') | Some (Turn_Replay, s') \<Rightarrow> None)" for s
    using turn_attempt_replayed [of send T s] by (subst turn_loop.simps) (auto split: option.splits turn_verdict.splits)
  have "replayed \<Longrightarrow> turn_attempt replayed send T st \<noteq> Some (Turn_Replay, st1)" for st1
    using turn_attempt_replayed [of send T st] by simp
  then show ?thesis
    using assms over replay
    by (subst (asm) turn_loop.simps)
      (cases replayed; auto simp: once split: option.splits turn_verdict.splits prod.splits)
qed

section \<open>The whole turn\<close>

definition first_send :: "string \<Rightarrow> ('a, 'x, 'd, 'n, 'db) turn_env \<Rightarrow> ('x, 'd, 'db) turn_state \<Rightarrow> send_data" where
  "first_send content T st = \<lparr>sd_content = content, sd_msg_id = env_mint (te_relay T) (rl_minted (tn_relay st)),
     sd_turn = Some (env_turn (te_relay T)), sd_files = te_files T, sd_skills = te_inject_skills T\<rparr>"

lemma run_user_turn_cases:
  assumes "run_user_turn content k T st = Some (r, st')"
  obtains s failed message s' where "calm st s"
    and "turn_loop False (first_send content T st) T s = Some ((failed, message), s')" and "calm s' st'"
    and "r = \<lparr>res_status = (if failed then Turn_Failed else Turn_Completed_Ok), res_error = (if failed then message else None)\<rparr>"
    and "\<exists>s1. st' = complete_released_turn (fst (release_turn k T s1)) T (snd (release_turn k T s1))"
proof -
  let ?s = "st\<lparr>tn_relay := snd (mint_msg_id (service_env T) (tn_relay st))\<rparr>"
  have 0: "calm st ?s" by (rule calm_relay [OF quiet_basic(3)])
  have first: "first_send content T st = \<lparr>sd_content = content, sd_msg_id = fst (mint_msg_id (service_env T) (tn_relay st)),
     sd_turn = Some (env_turn (te_relay T)), sd_files = te_files T, sd_skills = te_inject_skills T\<rparr>"
    by (simp add: first_send_def mint_msg_id_def service_env_def)
  obtain failed message s' where l: "turn_loop False (first_send content T st) T ?s = Some ((failed, message), s')"
    using assms by (auto simp: run_user_turn_def split_beta first split: option.splits)
  define s1 where "s1 = (if \<not> failed then record_agent_session_success T s' else s')"
  have 1: "calm s' s1" by (simp add: s1_def calm_record_success)
  have r: "r = \<lparr>res_status = (if failed then Turn_Failed else Turn_Completed_Ok), res_error = (if failed then message else None)\<rparr>"
    and st': "st' = complete_released_turn (fst (release_turn k T s1)) T (snd (release_turn k T s1))"
    using assms l by (auto simp: run_user_turn_def split_beta first s1_def Let_def)
  have 2: "calm s' st'"
    unfolding st' by (rule calm_trans [OF calm_trans [OF 1 calm_release_turn] calm_complete_released_turn])
  show ?thesis by (rule that [OF 0 l 2 r]) (use st' in blast)
qed

section \<open>Failures are reported\<close>

fun reports_error :: "('x, 'd) client_message \<Rightarrow> bool" where
  "reports_error (Stream_Event _ (Ev_Error _)) = True"
| "reports_error (Stream_Row _ row) = (msg_type row = ''tips'' \<and> msg_status row = Some ''error'')"
| "reports_error _ = False"

text \<open>The clients have been sent the error, or it is in the log that its tip could not be stored.\<close>

definition reported :: "('x, 'd, 'db) turn_state \<Rightarrow> bool" where
  "reported st \<longleftrightarrow> (\<exists>m \<in> set (rl_sent (tn_relay st)). reports_error m) \<or> Tip_Not_Stored \<in> set (tn_log st)"

definition active_turn :: "('a, 'x, 'd, 'n, 'db) turn_env \<Rightarrow> bool" where
  "active_turn T \<longleftrightarrow> (\<forall>n. lifecycle_for (env_conversation (te_relay T)) (env_service (te_relay T) n) = Lc_Active)
     \<and> (\<forall>e. env_serializes (te_relay T) (Ev_Error e))"

lemma reported_calm: "calm st st' \<Longrightarrow> reported st \<Longrightarrow> reported st'"
  unfolding reported_def calm_def quiet_def by auto

lemma reported_show_send_failure:
  assumes "active_turn T"
  shows "reported (show_send_failure e c T st)"
proof -
  have "fst (allows_write Wk_Send_Failure_Tip (service_env T) (tn_relay st))"
    using assms by (auto simp: allows_write_def service_env_def read_service_def allows_iff active_turn_def)
  then show ?thesis
    by (auto simp: show_send_failure_def persist_send_failure_tip_def Let_def split_beta reported_def with_relay_def
        broadcast_def note_effect_def)
qed

definition sent_more :: "('x, 'd, 'db) relay_state \<Rightarrow> ('x, 'd, 'db) relay_state \<Rightarrow> bool" where
  "sent_more st st' \<longleftrightarrow> set (rl_sent st) \<subseteq> set (rl_sent st')"

lemma sent_more_trans [trans]: "sent_more a b \<Longrightarrow> sent_more b c \<Longrightarrow> sent_more a c"
  by (auto simp: sent_more_def)

lemma sent_more_quiet: "quiet st st' \<Longrightarrow> sent_more st st'"
  by (auto simp: quiet_def sent_more_def)

lemma sent_more_overrides: "sent_more st (send_overrides os st)"
  by (induction os st rule: send_overrides.induct) (auto simp: sent_more_def broadcast_def)

lemma sent_more_responses: "sent_more st (send_system_responses rs E st)"
  by (induction rs E st rule: send_system_responses.induct) (auto simp: sent_more_def broadcast_def mint_msg_id_def)

lemma sent_more_finalize: "sent_more st (snd (finalize txt segs ev tm E st))"
proof -
  let ?p = "process_final_text E txt" and ?status = "if is_error_event ev then ''error'' else ''finish''"
  let ?o = "persist_final_text segs ?status (trim (fst ?p)) (trim (fst ?p) = []) (fst ?p \<noteq> txt \<or> trim (fst ?p) = []) E st"
  have "sent_more st (snd ?o)" by (rule sent_more_quiet [OF quiet_persist_final_text])
  also have "sent_more \<dots> (send_overrides (fst ?o) (snd ?o))" by (rule sent_more_overrides)
  also have "sent_more \<dots> (send_system_responses (snd ?p) E (send_overrides (fst ?o) (snd ?o)))" by (rule sent_more_responses)
  finally have 1: "sent_more st (send_system_responses (snd ?p) E (send_overrides (fst ?o) (snd ?o)))" .
  show ?thesis
  proof (cases "txt = []")
    case True
    then show ?thesis
      using sent_more_quiet [OF quiet_finalize_empty [of st segs ev tm E]] by simp
  next
    case False
    then show ?thesis
      using 1 by (auto simp: finalize_def Let_def split_beta sent_more_def split: option.split)
  qed
qed

lemma conclude_error:
  assumes "conclude deleting ev tm E st = (ro, st')"
  shows "outcome_terminal ro = tm" and "terminal_error (outcome_attempt ro) = terminal_error (rl_attempt st)"
    and "sent_more st st'"
proof -
  let ?f = "if deleting then (\<lparr>system_responses = [], outcome_terminal = tm, outcome_attempt = rl_attempt st\<rparr>, st)
      else finalize (rl_full_text st) (rl_segments st) ev tm E st"
  have st': "st' = (if env_complete_turn E \<and> \<not> deleting then complete_conversation E (snd ?f) else snd ?f)"
    and ro: "ro = (fst ?f)\<lparr>outcome_attempt := (if rl_full_text (snd ?f) \<noteq> []
      then (rl_attempt (snd ?f))\<lparr>persisted_assistant_output := True\<rparr> else rl_attempt (snd ?f))\<rparr>"
    using assms by (auto simp: conclude_def split_beta Let_def)
  have "keeps_attempt st (snd ?f)" "sent_more st (snd ?f)"
    using finalize_keeps [of st "rl_full_text st" "rl_segments st" ev tm E]
      sent_more_finalize [of st "rl_full_text st" "rl_segments st" ev tm E]
    by (simp_all add: sent_more_def)
  moreover have "outcome_terminal (fst ?f) = tm"
    by (auto simp: finalize_def Let_def split_beta split: stream_event.splits)
  moreover have "sent_more (snd ?f) (complete_conversation E (snd ?f))"
    by (rule sent_more_quiet [OF quiet_complete_conversation])
  ultimately show "outcome_terminal ro = tm" and "terminal_error (outcome_attempt ro) = terminal_error (rl_attempt st)"
    and "sent_more st st'"
    using st' ro sent_more_trans by (auto simp: keeps_attempt_def)
qed

text \<open>How an error leaves the relay.\<close>

definition error_out :: "'x relay_outcome \<Rightarrow> ('x, 'd, 'db) relay_state \<Rightarrow> bool" where
  "error_out ro st \<longleftrightarrow> (term_is_error (outcome_terminal ro) \<longrightarrow> terminal_error (outcome_attempt ro) \<noteq> None
     \<and> (terminal_error_deferred (outcome_attempt ro) \<or> (\<exists>m \<in> set (rl_sent st). reports_error m)))"

lemma error_out_terminal:
  assumes s: "\<And>e. env_serializes E (Ev_Error e)" and t: "on_terminal deleting ev E st = (ro, st')"
  shows "error_out ro st'"
proof (cases ev)
  case (Ev_Error e)
  show ?thesis
  proof (cases "defers (terminal_from_event ev) E st")
    case True
    then show ?thesis using t Ev_Error by (auto simp: on_terminal_def Let_def error_out_def)
  next
    case False
    let ?s = "forward (env_msg E) ev E
      (if deleting then st else close_segments (if is_error_event ev then ''error'' else ''finish'') E st)"
    have c: "conclude deleting ev (terminal_from_event ev) E (note_error ev ?s) = (ro, st')"
      using t False by (simp add: on_terminal_def Let_def)
    have "Stream_Event (env_msg E) ev \<in> set (rl_sent (note_error ev ?s))"
      using s Ev_Error by (simp add: forward_def broadcast_def note_error_def)
    then have "\<exists>m \<in> set (rl_sent st'). reports_error m"
      using conclude_error(3) [OF c] Ev_Error by (auto simp: sent_more_def intro!: bexI [of _ "Stream_Event (env_msg E) ev"])
    moreover have "terminal_error (outcome_attempt ro) = Some e"
      using conclude_error(2) [OF c] Ev_Error by (simp add: note_error_def)
    ultimately show ?thesis by (simp add: error_out_def)
  qed
next
  case (Ev_Finish x)
  then have "outcome_terminal ro = Term_Finish"
    using t conclude_error(1) by (fastforce simp: on_terminal_def Let_def defers_def)
  then show ?thesis by (simp add: error_out_def)
qed (use t conclude_error(1) in \<open>fastforce simp: on_terminal_def Let_def defers_def error_out_def\<close>)+

lemma error_out_receive:
  assumes "\<And>e. env_serializes E (Ev_Error e)" and "receive ev E st = (Some ro, st')"
  shows "error_out ro st'"
  using assms(2) error_out_terminal [OF assms(1)]
  by (auto simp: receive_def split: if_splits prod.splits)

lemma error_out_closed: "on_closed E st = (ro, st') \<Longrightarrow> error_out ro st'"
  using conclude_error(1) by (fastforce simp: on_closed_def split_beta error_out_def)

lemma error_out_step:
  assumes "\<And>e. env_serializes E (Ev_Error e)" and "relay_step p E st = (Some ro, st')"
  shows "error_out ro st'"
  using assms(2) error_out_receive [OF assms(1)] error_out_closed
  by (cases p) (auto split: option.splits prod.splits if_splits)

lemma error_out_run:
  assumes s: "\<And>e. env_serializes E (Ev_Error e)" and "relay_run ps E st = Some (ro, st')"
  shows "error_out ro st'"
  using assms(2)
proof (induction ps arbitrary: st)
  case (Cons p ps)
  then show ?case
    using error_out_step [OF s, of p st] by (auto split: prod.splits option.splits)
qed simp

fun attempt_report :: "'x attempt_end \<Rightarrow> ('x, 'd, 'db) turn_state \<Rightarrow> bool" where
  "attempt_report (Attempt_Failed _) st = reported st"
| "attempt_report (Attempt_Done ro agg _) st = (term_is_error (outcome_terminal ro) \<longrightarrow> terminal_error agg \<noteq> None
     \<and> (terminal_error_deferred (outcome_attempt ro) \<and> terminal_error (outcome_attempt ro) \<noteq> None \<or> reported st))"

lemma reported_fail_attempt:
  assumes "active_turn T" and "fail_attempt e c m T s = (r, st)"
  shows "attempt_report r st"
  using assms(2) reported_show_send_failure [OF assms(1)] by (auto simp: fail_attempt_def)

lemma attempt_round_report:
  assumes T: "active_turn T" and r: "attempt_round d ag a T st = Some (Inl r, st')"
  shows "attempt_report r st'"
  using r
proof (cases rule: attempt_round_cases)
  case (mode e c m)
  then show ?thesis
    using reported_show_send_failure [OF T] by (simp add: fail_attempt_def)
next
  case (streamed ro rr s df)
  have "env_serializes (relay_env_for T (sd_msg_id (at_send a)) df) (Ev_Error e)" for e
    using T by (simp add: relay_env_for_def active_turn_def)
  from error_out_run [OF this streamed(1)] have e: "error_out ro rr" .
  show ?thesis
  proof (cases r)
    case (Attempt_Failed m)
    with streamed(4) show ?thesis by simp
  next
    case (Attempt_Done ro' agg ty)
    then have ro: "ro' = ro" "agg = merge_attempt (at_summary a) (outcome_attempt ro)" using streamed(4,5) by auto
    have "reported st'" if "\<exists>m \<in> set (rl_sent rr). reports_error m"
      using that reported_calm [OF streamed(3)] by (auto simp: streamed(2) reported_def)
    then show ?thesis
      using e by (auto simp: Attempt_Done ro error_out_def merge_attempt_def split: option.split)
  qed
qed

lemma attempt_loop_report:
  assumes "active_turn T" and "attempt_loop d ag a T st = Some (r, st')"
  shows "attempt_report r st'"
  using assms
proof (induction d ag a T st rule: attempt_loop.induct)
  case (1 d ag a T st)
  from 1(3) show ?case
  proof (cases rule: attempt_loop_cases)
    case over
    then show ?thesis using attempt_round_report [OF 1(2)] by simp
  next
    case (more a1 st1)
    then show ?thesis using 1(1) [OF more(1) refl refl 1(2)] by simp
  qed
qed

lemma run_attempt_report:
  assumes T: "active_turn T" and r: "run_attempt d send T st = Some (r, st')"
  shows "attempt_report r st'"
  using r by (cases rule: run_attempt_cases) (auto intro: reported_fail_attempt [OF T] attempt_loop_report [OF T])

lemma turn_attempt_report:
  assumes T: "active_turn T" and r: "turn_attempt replayed send T st = Some (Turn_Over True message, st')"
  shows "message \<noteq> None \<and> reported st'"
proof -
  obtain r s where r: "run_attempt (\<not> replayed) send T st = Some (r, s)"
    and j: "judge_attempt replayed r T s = (Turn_Over True message, st')"
    using assms by (auto simp: turn_attempt_def split: option.splits)
  note rep = run_attempt_report [OF T r]
  show ?thesis
  proof (cases r)
    case (Attempt_Failed m)
    then show ?thesis using j rep by (auto simp: judge_attempt_def)
  next
    case (Attempt_Done ro agg ty)
    let ?s = "snd (read_lifecycle T s)" and ?l = "fst (read_lifecycle T s)"
    let ?s1 = "case (terminal_error_deferred (outcome_attempt ro), terminal_error (outcome_attempt ro)) of
        (True, Some e) \<Rightarrow> show_send_failure e None T ?s | _ \<Rightarrow> ?s"
    have err: "term_is_error (outcome_terminal ro)" and m: "message = turn_attempt_error_message agg"
      and st': "st' = (case decide_health ty ro ?l of Keep_Task \<Rightarrow> ?s1
        | Evict_Acp_Task _ _ _ \<Rightarrow> snd (evict_acp_task_after_terminal_error ty ro T ?s1))"
      using j by (auto simp: judge_attempt_def Attempt_Done Let_def split_beta
          split: if_splits recovery_decision.splits)
    have "reported ?s" if "reported s" using reported_calm [OF calm_read_lifecycle that] .
    then have "reported ?s1"
      using rep err reported_show_send_failure [OF T] reported_calm [OF calm_show_send_failure]
      by (auto simp: Attempt_Done split: bool.split option.split)
    moreover have "reported (snd (evict_acp_task_after_terminal_error ty ro T ?s1))" if "reported ?s1"
      by (rule reported_calm [OF calm_evict that])
    ultimately have "reported st'" by (simp add: st' split: health_action.split)
    moreover have "message \<noteq> None" using rep err by (auto simp: m Attempt_Done turn_attempt_error_message_def)
    ultimately show ?thesis by simp
  qed
qed

text \<open>The state in which a turn begins: nothing sent yet.\<close>

definition begin_turn :: "'db \<Rightarrow> ('x, 'd, 'db) turn_state" where
  "begin_turn db = \<lparr>tn_relay = new_relay True db, tn_log = [], tn_builds = 0\<rparr>"

lemma begin_turn_simps [simp]:
  "sends (begin_turn db) = 0" "tn_builds (begin_turn db) = 0" "unshown (begin_turn db)" "tn_log (begin_turn db) = []"
  by (simp_all add: begin_turn_def sends_def unshown_def new_relay_def)

lemma failed_turn_reported:
  assumes T: "active_turn T" and r: "run_user_turn content k T st = Some (r, st')" and f: "res_status r = Turn_Failed"
  shows "res_error r \<noteq> None \<and> reported st'"
  using r
proof (cases rule: run_user_turn_cases)
  case (1 s failed message s')
  have failed: "failed" using f 1(4) by (auto split: if_splits)
  have "message \<noteq> None \<and> reported s'"
    using 1(2) by (cases rule: turn_loop_cases) (use turn_attempt_report [OF T] failed in auto)
  then show ?thesis using reported_calm [OF 1(3)] 1(4) failed by simp
qed

lemma turn_bounds:
  assumes "run_user_turn content k T (begin_turn db) = Some (r, st')"
  shows "tn_builds st' \<le> 2 \<and> sends st' \<le> 10
    \<and> (tn_builds st' = 2 \<longrightarrow> (\<exists>s s1. calm (begin_turn db) s
        \<and> turn_attempt False (first_send content T (begin_turn db)) T s = Some (Turn_Replay, s1) \<and> unshown s1))"
  using assms
proof (cases rule: run_user_turn_cases)
  case (1 s failed message s')
  have s: "tn_builds s = 0" "sends s = 0" "unshown s"
    using sends_calm [OF 1(1)] builds_calm [OF 1(1)] calm_unshown [OF 1(1)] by simp_all
  have e: "tn_builds st' = tn_builds s'" "sends st' = sends s'"
    using sends_calm [OF 1(3)] builds_calm [OF 1(3)] by simp_all
  show ?thesis
    using 1(2)
  proof (cases rule: turn_loop_cases)
    case over
    then show ?thesis using turn_attempt_frame [OF over] s e by simp
  next
    case (replay s1)
    then show ?thesis
      using turn_attempt_frame [OF replay(2)] turn_attempt_frame [OF replay(3)] s e 1(1)
        turn_attempt_replay_clean [OF replay(2) s(3)] by auto
  qed
qed

text \<open>What the release at the end does to the runtime state it finds.\<close>

definition released_by :: "turn_claim \<Rightarrow> bool \<Rightarrow> conv_runtime \<Rightarrow> conv_runtime \<Rightarrow> bool" where
  "released_by k d before after \<longleftrightarrow>
     (let c = claim_conversation k in
      (if map_of (active_turns before) c = Some (claim_turn k)
       then map_of (active_turns after) c = None \<and> c \<notin> deleting_conversations after
         \<and> c \<notin> cancelling_conversations after \<and> d = (c \<in> deleting_conversations before)
       else after = before)
      \<and> (\<forall>c'. c' \<noteq> c \<longrightarrow> map_of (active_turns after) c' = map_of (active_turns before) c'))"

lemma release_turn_released:
  assumes "claim_turn k = env_turn (te_relay T)" and "\<not> claim_released k"
    and "\<forall>n. \<not> lock_poisoned (env_service (te_relay T) n)"
  shows "\<exists>n d before after. before = runtime (env_service (te_relay T) n) \<and> released_by k d before after
    \<and> tn_log (snd (release_turn k T st)) = tn_log st @ [Claim_Released d before after]"
proof -
  define s where "s = env_service (te_relay T) (rl_reads (tn_relay st))"
  obtain d s' where sr: "service_release (te_notify T) (claim_conversation k) (claim_turn k) s = (d, s')" by fastforce
  then have r: "release_for_turn (te_notify T) (env_turn (te_relay T)) k (Some s)
      = (d, k\<lparr>claim_released := True\<rparr>, Some s')"
    using assms(1,2) by (simp add: release_for_turn_def release_inner_def)
  have "released_by k d (runtime s) (runtime s')"
    using sr assms(3) by (auto simp: service_release_def lock_def s_def released_by_def Let_def split: if_splits)
  moreover have "tn_log (snd (release_turn k T st)) = tn_log st @ [Claim_Released d (runtime s) (runtime s')]"
    using r by (simp add: release_turn_def read_service_def service_env_def s_def note_effect_def)
  ultimately show ?thesis unfolding s_def by blast
qed

lemma complete_released_turn_log: "tn_log (complete_released_turn d T st) = tn_log st"
  by (simp add: complete_released_turn_def complete_turn_def runtime_summary_for_def with_relay_def split_beta Let_def)

lemma turn_ends:
  assumes "agents_end_streams T" and "claim_turn k = env_turn (te_relay T)" and "\<not> claim_released k"
    and "\<forall>n. \<not> lock_poisoned (env_service (te_relay T) n)"
  shows "\<exists>r st' es n d before after. run_user_turn content k T st = Some (r, st')
    \<and> tn_log st' = es @ [Claim_Released d before after]
    \<and> before = runtime (env_service (te_relay T) n) \<and> released_by k d before after"
proof -
  have "run_user_turn content k T st \<noteq> None"
    by (simp add: run_user_turn_def Let_def turn_loop_ends [OF assms(1)] split: prod.split option.split)
  then obtain r st' where r: "run_user_turn content k T st = Some (r, st')" by auto
  then obtain s1 where "st' = complete_released_turn (fst (release_turn k T s1)) T (snd (release_turn k T s1))"
    by (rule run_user_turn_cases) blast
  then have "tn_log st' = tn_log (snd (release_turn k T s1))" by (simp add: complete_released_turn_log)
  with r release_turn_released [OF assms(2-4), of s1] show ?thesis by metis
qed

end
