(* ===== verification/Turn_Properties.thy ===== *)
theory Turn_Properties
  imports Turn_World Relay_Text Turn_Facts
begin

text \<open>
  The properties of the turns of a conversation, over the contracts and invariants of the theories
  before: the claims of the runtime state, the relay of a stream, the orchestration of a turn and the
  errors shown to a client; and the runs behind the findings.
\<close>

section \<open>Concrete parameters for the witnesses\<close>

text \<open>A \<open>Notify\<close>: the number of futures made, and how many of them have been notified.\<close>

definition counting_notify :: "(nat \<times> nat) notify_lib" where
  "counting_notify = \<lparr>notified = (\<lambda>(made, woken). (made, (Suc made, woken))),
     notify_waiters = (\<lambda>(made, woken). (made, made)),
     is_notified = (\<lambda>(made, woken) t. t < woken), is_issued = (\<lambda>(made, woken) t. t < made)\<rparr>"

lemma counting_notify_laws: "notify_laws counting_notify"
  by (auto simp: notify_laws_def counting_notify_def)

definition idle_service :: "(nat \<times> nat) runtime_service" where
  "idle_service = new_runtime_service (0, 0)"

type_synonym plain_json = "(unit, unit) msg_json"

definition demo_json_sql :: "plain_json json_sql" where
  "demo_json_sql = \<lparr>sql_patch = (\<lambda>old new. new), sql_patch_keep = (\<lambda>acp old new. old)\<rparr>"

definition demo_db :: "plain_json conv_db" where
  "demo_db = \<lparr>db_conversations = [\<lparr>conv_id = ''c'', conv_user = ''u'', conv_extra = Some [], conv_status = ''running'',
     conv_updated_at = 0\<rparr>], db_messages = []\<rparr>"

definition demo_relay ::
  "(nat \<Rightarrow> (nat \<times> nat) runtime_service) \<Rightarrow> (unit, unit, nat \<times> nat, plain_json conv_db) relay_env" where
  "demo_relay srv = \<lparr>env_conversation = ''c'', env_msg = ''first'', env_turn = ''t'', env_persistence = True,
     env_watches_runtime = True, env_skill_loader = None, env_allowed_skills = [], env_complete_turn = False,
     env_defer_clean_errors = False, env_external_reply = None, env_strip = (\<lambda>s. s), env_captures = (\<lambda>s. []),
     env_serializes = (\<lambda>ev. True), env_repo = sqlite_conv_repo demo_json_sql, env_service = srv,
     env_now = int, env_mint = (\<lambda>n. CHR ''m'' # replicate n CHR ''x'')\<rparr>"

abbreviation active_demo :: "(unit, unit, nat \<times> nat, plain_json conv_db) relay_env" where
  "active_demo \<equiv> demo_relay (\<lambda>n. idle_service)"

lemma idle_active: "lifecycle_for c idle_service = Lc_Active"
  by (simp add: lifecycle_for_def lock_def idle_service_def new_runtime_service_def new_runtime_def)

lemma demo_fresh: "fresh_mint (demo_relay srv)"
  by (auto simp: fresh_mint_def demo_relay_def inj_def dest: arg_cong [where f = length])

lemma demo_active: "active_env active_demo"
  by (simp add: active_env_def demo_relay_def idle_active)

lemma demo_ready: "sqlite_ready ''c'' demo_db" "sqlite_row demo_db i = None"
  by (simp_all add: sqlite_ready_def sqlite_row_def demo_db_def)

section \<open>Claims\<close>

text \<open>C21. At every moment each claim of a turn that has not been released is the registered turn of its
  conversation and no two such claims are of one conversation; as long as the lock works, every
  registered turn has its claim.\<close>
theorem turn_claims_are_exclusive:
  assumes "turn_reachable N w"
  shows "(\<forall>i. live (tw_claims w) i \<longrightarrow> map_of (active_turns (runtime (tw_service w))) (claim_conversation (tw_claims w ! i))
        = Some (claim_turn (tw_claims w ! i)))
    \<and> (\<forall>i j. live (tw_claims w) i \<and> live (tw_claims w) j
        \<and> claim_conversation (tw_claims w ! i) = claim_conversation (tw_claims w ! j) \<longrightarrow> i = j)
    \<and> (\<not> lock_poisoned (tw_service w) \<longrightarrow> (\<forall>c t. active_turn_id_for c (tw_service w) = Some t \<longrightarrow>
        (\<exists>i. live (tw_claims w) i \<and> claim_conversation (tw_claims w ! i) = c \<and> claim_turn (tw_claims w ! i) = t)))"
  using turn_reachable_claims [OF assms]
  by (simp add: claims_inv_def claims_ok_def active_turn_id_for_def lock_def)

definition two_turns :: "(nat \<times> nat) turn_world" where
  "two_turns = \<lparr>tw_service = \<lparr>lock_poisoned = False,
       runtime = \<lparr>active_turns = [(''a'', ''t1''), (''b'', ''t2'')], deleting_conversations = {},
         cancelling_conversations = {}, shutting_down = False\<rparr>, release_notify = (0, 0)\<rparr>,
     tw_claims = [\<lparr>claim_conversation = ''a'', claim_turn = ''t1'', claim_released = False\<rparr>,
                  \<lparr>claim_conversation = ''b'', claim_turn = ''t2'', claim_released = False\<rparr>],
     tw_calls = [], tw_waiters = []\<rparr>"

lemma two_turns_reachable: "turn_reachable counting_notify two_turns"
proof -
  let ?k1 = "\<lparr>claim_conversation = ''a'', claim_turn = ''t1'', claim_released = False\<rparr>"
  let ?k2 = "\<lparr>claim_conversation = ''b'', claim_turn = ''t2'', claim_released = False\<rparr>"
  let ?rt = "\<lambda>A. \<lparr>active_turns = A, deleting_conversations = {}, cancelling_conversations = {}, shutting_down = False\<rparr>"
  let ?s = "\<lambda>A. \<lparr>lock_poisoned = False, runtime = ?rt A, release_notify = (0 :: nat, 0 :: nat)\<rparr>"
  let ?w = "\<lambda>A ks. \<lparr>tw_service = ?s A, tw_claims = ks, tw_calls = [], tw_waiters = []\<rparr>"
  have 0: "turn_reachable counting_notify (?w [] [])"
    using turn_reachable.start [of counting_notify "(0, 0)"]
    by (simp add: new_turn_world_def new_runtime_service_def new_runtime_def)
  have "turn_step counting_notify (?w [] []) (?w [(''a'', ''t1'')] [?k1])"
    using turn_step.claim [of "''a''" "''t1''" "?w [] []" ?k1 "?s [(''a'', ''t1'')]" counting_notify]
    by (simp add: try_claim_turn_def lock_def hm_insert_def)
  then have 1: "turn_reachable counting_notify (?w [(''a'', ''t1'')] [?k1])" by (rule turn_reachable.step [OF 0])
  have "turn_step counting_notify (?w [(''a'', ''t1'')] [?k1]) two_turns"
    using turn_step.claim [of "''b''" "''t2''" "?w [(''a'', ''t1'')] [?k1]" ?k2 "?s [(''a'', ''t1''), (''b'', ''t2'')]" counting_notify]
    by (simp add: try_claim_turn_def lock_def hm_insert_def two_turns_def)
  then show ?thesis by (rule turn_reachable.step [OF 1])
qed

theorem turn_claims_are_exclusive_witness:
  "live (tw_claims two_turns) 0 \<and> map_of (active_turns (runtime (tw_service two_turns))) ''a'' = Some ''t1''"
  using turn_claims_are_exclusive [OF two_turns_reachable] by (simp add: live_def two_turns_def)

text \<open>C22. No release is missed: whenever a task waits in \<open>wait_until_unclaimed\<close> for a conversation that is
  not claimed (and the lock works), it has been notified: its next two steps wake it, look again and return.\<close>
theorem waiting_misses_no_release:
  assumes "notify_laws N" and "turn_reachable N w" and "i < length (tw_waiters w)"
    and "wt_phase (tw_waiters w ! i) = Parked tok" and "\<not> lock_poisoned (tw_service w)"
    and "\<not> is_claimed (wt_conversation (tw_waiters w ! i)) (tw_service w)"
  shows "\<exists>w1 w2. turn_step N w w1 \<and> turn_step N w1 w2 \<and> wt_phase (tw_waiters w2 ! i) = Returned"
proof -
  let ?v = "tw_waiters w ! i"
  have "waiter_ok N (tw_service w) ?v"
    using turn_reachable_waiters [OF assms(1,2)] assms(3) by (simp add: waiters_inv_def)
  then have n: "is_notified N (release_notify (tw_service w)) tok"
    using assms(4-6) by (simp add: waiter_ok_def)
  obtain tok' s where r: "wait_register N (tw_service w) = (Registered tok', s)"
    by (cases "notified N (release_notify (tw_service w))") (auto simp: wait_register_def)
  define w1 where "w1 = w\<lparr>tw_service := s, tw_waiters := (tw_waiters w)[i := ?v\<lparr>wt_phase := Registered tok'\<rparr>]\<rparr>"
  have 1: "turn_step N w w1" unfolding w1_def by (rule turn_step.wait_wake [OF assms(3,4) n r])
  have i: "i < length (tw_waiters w1)" "wt_phase (tw_waiters w1 ! i) = Registered tok'"
    "wt_conversation (tw_waiters w1 ! i) = wt_conversation ?v" "tw_service w1 = s"
    using assms(3) by (simp_all add: w1_def)
  have c: "\<not> is_claimed (wt_conversation ?v) s"
    using assms(6) r by (simp add: is_claimed_iff mark_simps)
  show ?thesis
    by (intro exI conjI, rule 1, rule turn_step.wait_look [OF i(1,2)]) (simp add: i wait_check_def c)
qed

definition parked_world :: "(nat \<times> nat) turn_world" where
  "parked_world = \<lparr>tw_service = (new_runtime_service (1, 1)), 
     tw_claims = [\<lparr>claim_conversation = ''a'', claim_turn = ''t1'', claim_released = True\<rparr>],
     tw_calls = [], tw_waiters = [\<lparr>wt_conversation = ''a'', wt_phase = Parked 0\<rparr>]\<rparr>"

lemma parked_world_reachable: "turn_reachable counting_notify parked_world"
proof -
  let ?k = "\<lambda>b. \<lparr>claim_conversation = ''a'', claim_turn = ''t1'', claim_released = b\<rparr>"
  let ?s = "\<lambda>A n. \<lparr>lock_poisoned = False, runtime = \<lparr>active_turns = A, deleting_conversations = {},
      cancelling_conversations = {}, shutting_down = False\<rparr>, release_notify = (n :: nat \<times> nat)\<rparr>"
  let ?w = "\<lambda>A n ks vs. \<lparr>tw_service = ?s A n, tw_claims = ks, tw_calls = [], tw_waiters = vs\<rparr>"
  let ?v = "\<lambda>p. \<lparr>wt_conversation = ''a'', wt_phase = p\<rparr>"
  let ?A = "[(''a'', ''t1'')]"
  have 0: "turn_reachable counting_notify (?w [] (0, 0) [] [])"
    using turn_reachable.start [of counting_notify "(0, 0)"]
    by (simp add: new_turn_world_def new_runtime_service_def new_runtime_def)
  have "turn_step counting_notify (?w [] (0, 0) [] []) (?w ?A (0, 0) [?k False] [])"
    using turn_step.claim [of "''a''" "''t1''" "?w [] (0, 0) [] []" "?k False" "?s ?A (0, 0)" counting_notify]
    by (simp add: try_claim_turn_def lock_def hm_insert_def)
  then have 1: "turn_reachable counting_notify (?w ?A (0, 0) [?k False] [])" by (rule turn_reachable.step [OF 0])
  have "turn_step counting_notify (?w ?A (0, 0) [?k False] []) (?w ?A (1, 0) [?k False] [?v (Registered 0)])"
    using turn_step.wait_begin [of counting_notify "?w ?A (0, 0) [?k False] []" "Registered 0" "?s ?A (1, 0)" "''a''"]
    by (simp add: wait_register_def counting_notify_def)
  then have 2: "turn_reachable counting_notify (?w ?A (1, 0) [?k False] [?v (Registered 0)])"
    by (rule turn_reachable.step [OF 1])
  have "turn_step counting_notify (?w ?A (1, 0) [?k False] [?v (Registered 0)]) (?w ?A (1, 0) [?k False] [?v (Parked 0)])"
    using turn_step.wait_look [of 0 "?w ?A (1, 0) [?k False] [?v (Registered 0)]" 0 counting_notify]
    by (simp add: wait_check_def is_claimed_def lock_def)
  then have 3: "turn_reachable counting_notify (?w ?A (1, 0) [?k False] [?v (Parked 0)])"
    by (rule turn_reachable.step [OF 2])
  have "turn_step counting_notify (?w ?A (1, 0) [?k False] [?v (Parked 0)]) parked_world"
    using turn_step.release [of 0 "?w ?A (1, 0) [?k False] [?v (Parked 0)]" counting_notify False "?k True" "?s [] (1, 1)"]
    by (simp add: release_inner_def service_release_def lock_def counting_notify_def hm_remove_def parked_world_def
        new_runtime_service_def new_runtime_def)
  then show ?thesis by (rule turn_reachable.step [OF 3])
qed

theorem waiting_misses_no_release_witness:
  "\<exists>w1 w2. turn_step counting_notify parked_world w1 \<and> turn_step counting_notify w1 w2
    \<and> wt_phase (tw_waiters w2 ! 0) = Returned"
  by (rule waiting_misses_no_release [OF counting_notify_laws parked_world_reachable, where tok = 0])
    (simp_all add: parked_world_def is_claimed_def lock_def new_runtime_service_def new_runtime_def)

section \<open>The relay of a stream\<close>

text \<open>C23. No streamed text is lost: over the tables of SQLite, in an active conversation with fresh
  identifiers, the relay of any stream of events closed by a finish event ends, has received exactly the
  streamed text, and the visible rows of its segments, read in order, show the reply: the streamed text,
  or what the middleware made of it; each of these rows is marked as finished.\<close>
theorem streamed_reply_is_shown:
  assumes "active_env E" and "env_repo E = sqlite_conv_repo J" and "fresh_mint E"
    and "\<forall>ev \<in> set evs. \<not> is_terminal_event ev \<and> event_ids ev \<inter> own_ids E = {}"
    and "sqlite_ready (env_conversation E) db" and "\<forall>i \<in> own_ids E. sqlite_row db i = None"
  shows "\<exists>ro st'. relay_run (map Poll_Event evs @ [Poll_Event (Ev_Finish x)]) E (new_relay b db) = Some (ro, st')
    \<and> outcome_terminal ro = Term_Finish \<and> rl_full_text st' = streamed_text evs
    \<and> visible_text (sqlite_row (rl_db st')) (rl_segments st') = reply_text E (streamed_text evs)
    \<and> (streamed_text evs \<noteq> [] \<longrightarrow> (\<forall>i \<in> set (rl_segments st'). \<exists>m.
         sqlite_row (rl_db st') i = Some m \<and> msg_status m = Some ''finish''))"
  using sqlite_relay.reply_complete [OF assms] unfolding sqlite_relay.settled_def .

definition demo_reply :: "(unit, unit) stream_event list" where
  "demo_reply = [Ev_Text ''Hi'', Ev_Tool_Call \<lparr>tc_call_id = ''call'', tc_name = ''ls'', tc_status = Tool_Completed,
     tc_rest = ()\<rparr>, Ev_Text ''there'']"

theorem streamed_reply_is_shown_witness:
  "\<exists>ro st'. relay_run (map Poll_Event demo_reply @ [Poll_Event (Ev_Finish None)]) active_demo (new_relay True demo_db)
      = Some (ro, st')
    \<and> visible_text (sqlite_row (rl_db st')) (rl_segments st') = ''Hithere''"
proof -
  have "\<forall>ev \<in> set demo_reply. \<not> is_terminal_event ev \<and> event_ids ev \<inter> own_ids active_demo = {}"
    by (auto simp: demo_reply_def own_ids_def demo_relay_def)
  moreover have "reply_text active_demo (streamed_text demo_reply) = ''Hithere''"
    by (simp add: reply_text_def streamed_text_def demo_reply_def demo_relay_def Let_def) code_simp
  ultimately show ?thesis
    using streamed_reply_is_shown [of active_demo demo_json_sql demo_reply demo_db None True]
      demo_active demo_fresh demo_ready
    by (auto simp: demo_relay_def)
qed

text \<open>C24. From the moment a conversation is marked as being deleted, a relay that is still running stores
  nothing and hands nothing to the turn that would be sent to the agent, whatever it is sent.\<close>
theorem nothing_is_stored_while_deleting:
  assumes "\<forall>n \<ge> rl_reads st. is_deleting (env_conversation E) (env_service E n)"
    and "env_persistence E" and "env_watches_runtime E" and "relay_run ps E st = Some (ro, st')"
  shows "rl_db st' = rl_db st \<and> system_responses ro = []"
  using doomed_run [OF assms(4)] assms(1-3) by (simp add: doomed_def)

definition deleting_service :: "(nat \<times> nat) runtime_service" where
  "deleting_service = snd (mark_deleting ''c'' idle_service)"

theorem nothing_is_stored_while_deleting_witness:
  "\<exists>ro st'. relay_run [Poll_Event (Ev_Text ''late''), Poll_Closed] (demo_relay (\<lambda>n. deleting_service)) (new_relay True demo_db)
      = Some (ro, st') \<and> rl_db st' = demo_db"
proof -
  have d: "is_deleting ''c'' deleting_service"
    by (simp add: deleting_service_def mark_deleting_def is_deleting_def lock_def idle_service_def new_runtime_service_def
        new_runtime_def)
  obtain ro st' where r: "relay_run [Poll_Event (Ev_Text ''late''), Poll_Closed] (demo_relay (\<lambda>n. deleting_service))
      (new_relay True demo_db) = Some (ro, st')"
    using relay_run_ends [of "[Poll_Event (Ev_Text ''late''), Poll_Closed]" "demo_relay (\<lambda>n. deleting_service)" "new_relay True demo_db"]
    by auto
  then show ?thesis
    using nothing_is_stored_while_deleting [OF _ _ _ r] d by (auto simp: demo_relay_def new_relay_def)
qed

section \<open>The turn\<close>

text \<open>An agent and a turn for the witnesses.\<close>

definition plain_error :: "string \<Rightarrow> agent_error_code option \<Rightarrow> bool option \<Rightarrow> unit stream_error" where
  "plain_error m c r = \<lparr>err_message = m, err_code = c, err_detail = None, err_retryable = r, err_rest = ()\<rparr>"

definition demo_agent :: "(nat \<Rightarrow> (unit, unit) poll list) \<Rightarrow> (unit, unit, unit) agent" where
  "demo_agent polls = \<lparr>ag_type = Acp, ag_workspace = [], ag_set_mode = (\<lambda>n mode. None), ag_polls = polls,
     ag_session_key = (\<lambda>n. None)\<rparr>"

definition demo_turn ::
  "(nat \<Rightarrow> unit agent_error + (unit, unit, unit) agent) \<Rightarrow> (unit, unit, unit, nat \<times> nat, plain_json conv_db) turn_env" where
  "demo_turn build = \<lparr>te_relay = active_demo, te_options = \<lparr>bo_skills = [], bo_workspace = [], bo_kind = Kind_Acp None None\<rparr>,
     te_required_mode = None, te_files = [], te_inject_skills = [], te_feedback = False, te_build = build,
     te_classify = (\<lambda>backend e. plain_error (agent_error_text (\<lambda>u. []) e) None None),
     te_acp_text = (\<lambda>u. []), te_task = (\<lambda>n. None), te_notify = counting_notify\<rparr>"

definition demo_claim :: turn_claim where
  "demo_claim = \<lparr>claim_conversation = ''c'', claim_turn = ''t'', claim_released = False\<rparr>"

lemma demo_turn_active: "active_turn (demo_turn build)"
  by (simp add: active_turn_def demo_turn_def demo_relay_def idle_active)

text \<open>C25. A turn always ends and gives its conversation back: when the stream of every send of every agent
  contains a terminal event or a closed channel, \<open>run_user_turn\<close> returns, and the last thing it has done is to
  release its claim. If the runtime state it then found had the conversation claimed by this turn, the state it
  left has no turn for the conversation, which is neither being deleted nor cancelled any more, and the answer
  says whether it was being deleted; if not, nothing was changed; and the turns of other conversations are
  never touched. (The claim is the one of this turn and has not been released before; the lock of the
  service is not poisoned.)\<close>
theorem turn_ends_and_releases:
  assumes "agents_end_streams T" and "claim_conversation k = c" and "claim_turn k = env_turn (te_relay T)"
    and "\<not> claim_released k" and "\<forall>n. \<not> lock_poisoned (env_service (te_relay T) n)"
  shows "\<exists>r st' es n d before after. run_user_turn content k T st = Some (r, st')
    \<and> tn_log st' = es @ [Claim_Released d before after]
    \<and> before = runtime (env_service (te_relay T) n)
    \<and> (map_of (active_turns before) c = Some (claim_turn k) \<longrightarrow>
        map_of (active_turns after) c = None \<and> c \<notin> deleting_conversations after
        \<and> c \<notin> cancelling_conversations after \<and> d = (c \<in> deleting_conversations before))
    \<and> (map_of (active_turns before) c \<noteq> Some (claim_turn k) \<longrightarrow> after = before)
    \<and> (\<forall>c'. c' \<noteq> c \<longrightarrow> map_of (active_turns after) c' = map_of (active_turns before) c')"
  using turn_ends [OF assms(1,3-5), of content st] assms(2) unfolding released_by_def Let_def by (metis (full_types))

text \<open>The service while the turn runs.\<close>

definition busy_service :: "(nat \<times> nat) runtime_service" where
  "busy_service = idle_service\<lparr>runtime := new_runtime\<lparr>active_turns := [(''c'', ''t'')], cancelling_conversations := {''c''}\<rparr>\<rparr>"

definition greeting_turn :: "(unit, unit, unit, nat \<times> nat, plain_json conv_db) turn_env" where
  "greeting_turn = demo_turn (\<lambda>b. Inr (demo_agent (\<lambda>n. [Poll_Event (Ev_Text ''Hi''), Poll_Closed])))"

definition busy_turn :: "(unit, unit, unit, nat \<times> nat, plain_json conv_db) turn_env" where
  "busy_turn = greeting_turn\<lparr>te_relay := demo_relay (\<lambda>n. busy_service)\<rparr>"

theorem turn_ends_and_releases_witness:
  "\<exists>r st' es d after. run_user_turn ''hello'' demo_claim busy_turn (begin_turn demo_db) = Some (r, st')
    \<and> tn_log st' = es @ [Claim_Released d (runtime busy_service) after]
    \<and> map_of (active_turns after) ''c'' = None \<and> ''c'' \<notin> cancelling_conversations after"
proof -
  have s: "env_service (te_relay busy_turn) = (\<lambda>n. busy_service)"
    "claim_turn demo_claim = env_turn (te_relay busy_turn)"
    by (simp_all add: busy_turn_def demo_relay_def demo_claim_def)
  have e: "agents_end_streams busy_turn"
    by (simp add: agents_end_streams_def busy_turn_def greeting_turn_def demo_turn_def demo_agent_def)
  have "\<not> lock_poisoned busy_service" by (simp add: busy_service_def idle_service_def new_runtime_service_def)
  from turn_ends_and_releases [OF e refl s(2), of "''hello''" "begin_turn demo_db"] this show ?thesis
    unfolding s(1) by (auto simp: demo_claim_def busy_service_def)
qed

text \<open>C26. A turn builds its agent at most twice and sends at most ten messages, whatever the agent answers;
  it makes a second attempt only when the first one ended without showing the clients anything that
  the agent did.\<close>
theorem turn_is_bounded_and_replays_unseen:
  assumes "run_user_turn content k T (begin_turn db) = Some (r, st')"
  shows "tn_builds st' \<le> 2 \<and> length (filter is_send (tn_log st')) \<le> 10
    \<and> (tn_builds st' = 2 \<longrightarrow> (\<exists>s s1. tn_builds s = 0
        \<and> turn_attempt False (first_send content T (begin_turn db)) T s = Some (Turn_Replay, s1)
        \<and> (\<forall>m \<in> set (rl_sent (tn_relay s1)). \<not> shows_message m)))"
proof -
  have b: "tn_builds s = 0" if "calm (begin_turn db) s" for s
    using builds_calm [OF that] by simp
  then show ?thesis
    using turn_bounds [OF assms] unfolding sends_def unshown_def by blast
qed

text \<open>An agent whose first stream fails with a retryable error before anything is shown.\<close>

definition flaky_turn :: "(unit, unit, unit, nat \<times> nat, plain_json conv_db) turn_env" where
  "flaky_turn = demo_turn (\<lambda>b. Inr (demo_agent (\<lambda>n.
     if b = 0 then [Poll_Event (Ev_Error (plain_error ''lost'' None (Some True)))]
     else [Poll_Event (Ev_Text ''Hi''), Poll_Event (Ev_Finish None)])))"

definition run_builds :: "(turn_result \<times> ('x, 'd, 'db) turn_state) option \<Rightarrow> nat" where
  "run_builds z = (case z of None \<Rightarrow> 0 | Some (r, st) \<Rightarrow> tn_builds st)"

lemma flaky_turn_builds: "run_builds (run_user_turn ''hello'' demo_claim flaky_turn (begin_turn demo_db)) = 2"
  by code_simp

theorem turn_is_bounded_and_replays_unseen_witness:
  "\<exists>r st' s s1. run_user_turn ''hello'' demo_claim flaky_turn (begin_turn demo_db) = Some (r, st') \<and> tn_builds st' = 2
    \<and> length (filter is_send (tn_log st')) \<le> 10
    \<and> turn_attempt False (first_send ''hello'' flaky_turn (begin_turn demo_db)) flaky_turn s = Some (Turn_Replay, s1)"
proof -
  obtain r st' where r: "run_user_turn ''hello'' demo_claim flaky_turn (begin_turn demo_db) = Some (r, st')"
    using flaky_turn_builds by (cases "run_user_turn ''hello'' demo_claim flaky_turn (begin_turn demo_db)") (auto simp: run_builds_def)
  then have "tn_builds st' = 2" using flaky_turn_builds by (simp add: run_builds_def)
  then show ?thesis using turn_is_bounded_and_replays_unseen [OF r] r by blast
qed

text \<open>C27. A turn that fails in an active conversation never fails silently: its result carries a message,
  and the clients have been sent the error, as the event of the stream or as a tip in the
  conversation, unless the table refused that tip, which is logged.\<close>
theorem failed_turn_is_reported:
  assumes "\<forall>n. lifecycle_for (env_conversation (te_relay T)) (env_service (te_relay T) n) = Lc_Active"
    and "\<forall>e. env_serializes (te_relay T) (Ev_Error e)"
    and "run_user_turn content k T st = Some (r, st')" and "res_status r = Turn_Failed"
  shows "res_error r \<noteq> None
    \<and> ((\<exists>m \<in> set (rl_sent (tn_relay st')). reports_error m) \<or> Tip_Not_Stored \<in> set (tn_log st'))"
  using failed_turn_reported [OF _ assms(3,4)] assms(1,2) by (simp add: active_turn_def reported_def)

definition broken_turn :: "(unit, unit, unit, nat \<times> nat, plain_json conv_db) turn_env" where
  "broken_turn = demo_turn (\<lambda>b. Inl (Ag_Internal ''no agent''))"

definition run_failed :: "(turn_result \<times> ('x, 'd, 'db) turn_state) option \<Rightarrow> bool" where
  "run_failed z = (case z of None \<Rightarrow> False | Some (r, st) \<Rightarrow> res_status r = Turn_Failed)"

lemma broken_turn_fails: "run_failed (run_user_turn ''hello'' demo_claim broken_turn (begin_turn demo_db))"
  by code_simp

theorem failed_turn_is_reported_witness:
  "\<exists>r st'. run_user_turn ''hello'' demo_claim broken_turn (begin_turn demo_db) = Some (r, st') \<and> res_error r \<noteq> None
    \<and> ((\<exists>m \<in> set (rl_sent (tn_relay st')). reports_error m) \<or> Tip_Not_Stored \<in> set (tn_log st'))"
proof -
  obtain r st' where r: "run_user_turn ''hello'' demo_claim broken_turn (begin_turn demo_db) = Some (r, st')"
    "res_status r = Turn_Failed"
    using broken_turn_fails by (auto simp: run_failed_def split: option.splits)
  show ?thesis
    using failed_turn_is_reported [OF _ _ r] r(1) demo_turn_active [of "\<lambda>b. Inl (Ag_Internal ''no agent'')"]
    by (auto simp: broken_turn_def active_turn_def)
qed

section \<open>Errors shown to a client\<close>

text \<open>The mapping of a conversation's error to the response: the code of the response is the code of the error,
  except that a timeout is reported as \<open>GATEWAY_TIMEOUT\<close> and a protocol error of the agent as \<open>BAD_GATEWAY\<close>
  (a send failure tip has \<open>conv_error_code\<close>, so the two differ there). An agent's error keeps its code on the
  way through a conversation error and back, and an error of the database that is neither a missing row nor a
  conflict is not shown.\<close>

lemma error_responses:
  "400 \<le> status_code (api_from_conv_error e) \<and> status_code (api_from_conv_error e) < 600
    \<and> api_error_code (api_from_conv_error e) = (case e of Conv_Timeout _ \<Rightarrow> ''GATEWAY_TIMEOUT'' | Conv_Acp _ \<Rightarrow> ''BAD_GATEWAY''
        | _ \<Rightarrow> conv_error_code e)
    \<and> agent_error_top_level_code (conv_to_agent_error tx (conv_from_agent_error g)) = agent_error_top_level_code g
    \<and> error_response_of (api_from_conv_error (conv_from_db_error d)) =
       (case d of
          Db_Not_Found r \<Rightarrow> \<lparr>er_status = 404, er_code = ''NOT_FOUND'', er_message = r, er_details = None\<rparr>
        | Db_Conflict r \<Rightarrow> \<lparr>er_status = 409, er_code = ''CONFLICT'', er_message = r, er_details = None\<rparr>
        | _ \<Rightarrow> \<lparr>er_status = 500, er_code = ''INTERNAL_ERROR'', er_message = ''Internal server error.'', er_details = None\<rparr>)"
  by (intro conjI api_status_range [THEN conjunct1] api_status_range [THEN conjunct2] agent_code_round_trip
      db_error_response) (cases e; simp)

section \<open>Runs behind the findings\<close>

text \<open>A call of \<open>cancel\<close> that has compared the turn id marks the conversation after the turn has released
  it: nothing clears the mark, and the conversation counts as busy although no turn runs.\<close>

lemma cancel_outlives_its_turn:
  "\<exists>w. turn_reachable counting_notify w \<and> tw_calls w = [Call_Done] \<and> \<not> is_claimed ''a'' (tw_service w)
    \<and> \<not> sum_can_send (summary_from_parts ''a'' None False 0 (tw_service w)) \<and> lifecycle_for ''a'' (tw_service w) = Lc_Cancelling"
proof -
  let ?k = "\<lambda>b. \<lparr>claim_conversation = ''a'', claim_turn = ''t1'', claim_released = b\<rparr>"
  let ?w = "\<lambda>A C n ks calls. \<lparr>tw_service = \<lparr>lock_poisoned = False, runtime = \<lparr>active_turns = A, deleting_conversations = {},
      cancelling_conversations = C, shutting_down = False\<rparr>, release_notify = (n :: nat \<times> nat)\<rparr>, tw_claims = ks,
      tw_calls = calls, tw_waiters = []\<rparr>"
  let ?A = "[(''a'', ''t1'')]"
  note reach = turn_reachable.step [rotated]
  have 0: "turn_reachable counting_notify (?w [] {} (0, 0) [] [])"
    using turn_reachable.start [of counting_notify "(0, 0)"]
    by (simp add: new_turn_world_def new_runtime_service_def new_runtime_def)
  have 1: "turn_reachable counting_notify (?w ?A {} (0, 0) [?k False] [])"
    using turn_step.claim [of "''a''" "''t1''" "?w [] {} (0, 0) [] []" "?k False" "tw_service (?w ?A {} (0, 0) [] [])"]
    by (intro reach [OF _ 0]) (simp add: try_claim_turn_def lock_def hm_insert_def)
  have 2: "turn_reachable counting_notify (?w ?A {} (0, 0) [?k False] [Cancel_Checked ''a''])"
    using turn_step.cancel_check [of "''a''" "?w ?A {} (0, 0) [?k False] []" "''t1''"]
    by (intro reach [OF _ 1]) (simp add: active_turn_id_for_def lock_def)
  have 3: "turn_reachable counting_notify (?w [] {} (0, 0) [?k True] [Cancel_Checked ''a''])"
    using turn_step.release [of 0 "?w ?A {} (0, 0) [?k False] [Cancel_Checked ''a'']" counting_notify False "?k True"
        "tw_service (?w [] {} (0, 0) [] [])"]
    by (intro reach [OF _ 2])
      (simp add: release_inner_def service_release_def lock_def counting_notify_def hm_remove_def)
  have 4: "turn_reachable counting_notify (?w [] {''a''} (0, 0) [?k True] [Cancel_Marked ''a''])"
    using turn_step.cancel_mark [of 0 "?w [] {} (0, 0) [?k True] [Cancel_Checked ''a'']" "''a''"]
    by (intro reach [OF _ 3]) (simp add: mark_cancelling_def lock_def)
  have 5: "turn_reachable counting_notify (?w [] {''a''} (0, 0) [?k True] [Call_Done])"
    using turn_step.cancel_ok [of 0 "?w [] {''a''} (0, 0) [?k True] [Cancel_Marked ''a'']" "''a''"]
    by (intro reach [OF _ 4]) simp
  show ?thesis
    by (rule exI, intro conjI, rule 5)
      (simp_all add: is_claimed_def lock_def summary_from_parts_def lifecycle_for_def Let_def)
qed

text \<open>A turn that ends while its conversation is being deleted clears the mark, so that the next turn is let in
  before the rows are gone.\<close>

lemma claim_during_deletion:
  "\<exists>w. turn_reachable counting_notify w \<and> tw_calls w = [Delete_Marked ''a'' True] \<and> live (tw_claims w) 1
    \<and> claim_conversation (tw_claims w ! 1) = ''a'' \<and> \<not> is_deleting ''a'' (tw_service w)"
proof -
  let ?k = "\<lambda>t b. \<lparr>claim_conversation = ''a'', claim_turn = t, claim_released = b\<rparr>"
  let ?w = "\<lambda>A D ks calls. \<lparr>tw_service = \<lparr>lock_poisoned = False, runtime = \<lparr>active_turns = A, deleting_conversations = D,
      cancelling_conversations = {}, shutting_down = False\<rparr>, release_notify = (0 :: nat, 0 :: nat)\<rparr>, tw_claims = ks,
      tw_calls = calls, tw_waiters = []\<rparr>"
  let ?A = "[(''a'', ''t1'')]" and ?B = "[(''a'', ''t2'')]"
  note reach = turn_reachable.step [rotated]
  have 0: "turn_reachable counting_notify (?w [] {} [] [])"
    using turn_reachable.start [of counting_notify "(0, 0)"]
    by (simp add: new_turn_world_def new_runtime_service_def new_runtime_def)
  have 1: "turn_reachable counting_notify (?w ?A {} [?k ''t1'' False] [])"
    using turn_step.claim [of "''a''" "''t1''" "?w [] {} [] []" "?k ''t1'' False" "tw_service (?w ?A {} [] [])"]
    by (intro reach [OF _ 0]) (simp add: try_claim_turn_def lock_def hm_insert_def)
  have 2: "turn_reachable counting_notify (?w ?A {''a''} [?k ''t1'' False] [Delete_Marked ''a'' True])"
    using turn_step.delete_mark [of "''a''" "?w ?A {} [?k ''t1'' False] []" True "tw_service (?w ?A {''a''} [] [])"]
    by (intro reach [OF _ 1]) (simp add: mark_deleting_def lock_def)
  have 3: "turn_reachable counting_notify (?w [] {} [?k ''t1'' True] [Delete_Marked ''a'' True])"
    using turn_step.release [of 0 "?w ?A {''a''} [?k ''t1'' False] [Delete_Marked ''a'' True]" counting_notify True
        "?k ''t1'' True" "tw_service (?w [] {} [] [])"]
    by (intro reach [OF _ 2])
      (simp add: release_inner_def service_release_def lock_def counting_notify_def hm_remove_def)
  have 4: "turn_reachable counting_notify (?w ?B {} [?k ''t1'' True, ?k ''t2'' False] [Delete_Marked ''a'' True])"
    using turn_step.claim [of "''a''" "''t2''" "?w [] {} [?k ''t1'' True] [Delete_Marked ''a'' True]" "?k ''t2'' False"
        "tw_service (?w ?B {} [] [])"]
    by (intro reach [OF _ 3]) (simp add: try_claim_turn_def lock_def hm_insert_def)
  show ?thesis
    by (rule exI, intro conjI, rule 4) (simp_all add: live_def is_deleting_def lock_def)
qed

text \<open>A lagging channel makes the relay forget a send error it has not reported yet: it goes on waiting.\<close>

lemma lag_drops_the_send_error:
  assumes "\<not> rl_send_done st"
  shows "relay_run [Poll_Send_Error e, Poll_Empty] E st \<noteq> None"
    and "relay_run [Poll_Send_Error e, Poll_Lagged n, Poll_Empty] E st = None"
proof -
  obtain ro s where "receive (Ev_Error e) E (st\<lparr>rl_send_done := True, rl_send_error := None\<rparr>) = (Some ro, s)"
    using receive_terminal [of "Ev_Error e" E "st\<lparr>rl_send_done := True, rl_send_error := None\<rparr>"] by auto
  then show "relay_run [Poll_Send_Error e, Poll_Empty] E st \<noteq> None"
    and "relay_run [Poll_Send_Error e, Poll_Lagged n, Poll_Empty] E st = None"
    using assms by simp_all
qed

text \<open>A segment whose first row could not be inserted is marked as created all the same; finalizing it later
  updates a row that does not exist, and its text is in no segment.\<close>

lemma failed_flush_loses_the_segment:
  assumes "active_env E" and "ts_buffer g \<noteq> []" and "\<not> ts_record_created g"
    and "flush_text_segment g E st = (g', st')"
    and "\<And>u. is_err (fst (cr_update (env_repo E) (ts_id g) u (rl_db s)))"
  shows "fst (finalize_text_segment g' status E s) = None"
proof -
  have a: "fst (allows_write k E s)" for k and s :: "('a, 'b, 'd) relay_state"
    using active_reads(1) [OF assms(1)] .
  have g': "g' = g\<lparr>ts_record_created := True\<rparr>"
    using assms(2-4) a [of Wk_Assistant_Text_Flush st] by (auto simp: flush_text_segment_def split_beta)
  show ?thesis
    using assms(2,5) a same_text_basic(3) [of s Wk_Assistant_Text_Finalize E]
    by (simp add: g' finalize_text_segment_def split_beta run_update_def Let_def same_text_def)
qed

text \<open>The decision to send the system responses of a reply uses the lifecycle read before the reply was
  relayed: a turn cancelled during its stream sends to the agent again.\<close>

definition cancelled_turn :: "(unit, unit, unit, nat \<times> nat, plain_json conv_db) turn_env" where
  "cancelled_turn = (demo_turn (\<lambda>b. Inr (demo_agent (\<lambda>n. [Poll_Event (Ev_Text ''load''), Poll_Event (Ev_Finish None)]))))
     \<lparr>te_relay := (demo_relay (\<lambda>n. if n = 0 then idle_service else mark_cancelling ''c'' idle_service))
        \<lparr>env_captures := (\<lambda>s. [''x'']), env_allowed_skills := [''x''],
         env_skill_loader := Some (\<lambda>names. [\<lparr>skill_name = ''x'', skill_body = ''body''\<rparr>])\<rparr>,
      te_options := \<lparr>bo_skills = [''x''], bo_workspace = [], bo_kind = Kind_Acp None None\<rparr>\<rparr>"

definition run_sends :: "(turn_result \<times> ('x, 'd, 'db) turn_state) option \<Rightarrow> nat" where
  "run_sends z = (case z of None \<Rightarrow> 0 | Some (r, st) \<Rightarrow> length (filter is_send (tn_log st)))"

lemma cancelled_turn_sends_again:
  "run_sends (run_user_turn ''hello'' demo_claim cancelled_turn (begin_turn demo_db)) = 2"
  by code_simp

end
