(* ===== verification/Auth_Basics.thy ===== *)
theory Auth_Basics
  imports Api_Error
begin

text \<open>
  The parts of \<open>aionui-auth\<close> that compute without state: the errors (\<open>error.rs\<close>) and their responses
  (\<open>routes.rs\<close>), the checks of passwords and user names (\<open>validation.rs\<close>), what is read from the headers
  of a request (\<open>extract.rs\<close>) and the generated credentials (\<open>password.rs\<close>). A header value that is not
  visible ASCII counts as absent everywhere, so the headers are a map from lower case names to the
  values that are. The bytes of the operating system's random source are arguments.
\<close>

section \<open>Errors\<close>

datatype auth_error =
    Invalid_Credentials
  | Weak_Password string
  | Invalid_Username string
  | Token_Expired
  | Token_Invalid string
  | Token_Blacklisted
  | Rate_Limited
  | Hash_Error string

fun api_from_auth_error :: "auth_error \<Rightarrow> api_error" where
  "api_from_auth_error Invalid_Credentials = Api_Unauthorized ''Invalid username or password''"
| "api_from_auth_error (Weak_Password m) = Api_Bad_Request m"
| "api_from_auth_error (Invalid_Username m) = Api_Bad_Request m"
| "api_from_auth_error Token_Expired = Api_Unauthorized ''Token expired''"
| "api_from_auth_error (Token_Invalid m) = Api_Unauthorized m"
| "api_from_auth_error Token_Blacklisted = Api_Unauthorized ''Token has been revoked''"
| "api_from_auth_error Rate_Limited = Api_Rate_Limited"
| "api_from_auth_error (Hash_Error m) = Api_Internal (''Password hash error: '' @ m)"

section \<open>Passwords and user names\<close>

definition weak_passwords :: "string list" where
  "weak_passwords = [''password'', ''12345678'', ''123456789'', ''qwertyui'', ''abcdefgh'']"

text \<open>\<open>to_lowercase\<close> maps no character outside ASCII to a letter of these passwords (only the Kelvin sign and
  the dotted capital I have ASCII letters in their lower case, a \<open>k\<close> and an \<open>i\<close> with a combining dot), so the
  comparison is that of the ASCII lower case.\<close>

definition validate_password :: "string \<Rightarrow> auth_error + unit" where
  "validate_password p =
     (if length p < 8 then Inl (Weak_Password ''Password must be at least 8 characters'')
      else if length p > 128 then Inl (Weak_Password ''Password must not exceed 128 characters'')
      else if map ascii_lower p \<in> set weak_passwords then Inl (Weak_Password ''Password is too common'')
      else Inr ())"

definition is_dash :: "char \<Rightarrow> bool" where
  "is_dash c = (c = CHR ''-'' \<or> c = CHR ''_'')"

definition validate_username :: "string \<Rightarrow> auth_error + unit" where
  "validate_username u =
     (if length u < 3 then Inl (Invalid_Username ''Username must be at least 3 characters'')
      else if length u > 32 then Inl (Invalid_Username ''Username must not exceed 32 characters'')
      else if \<not> list_all (\<lambda>c. is_ascii_alphanumeric c \<or> is_dash c) u
      then Inl (Invalid_Username ''Username may only contain letters, digits, underscores, and hyphens'')
      else if is_dash (u ! 0) \<or> is_dash (u ! (length u - 1))
      then Inl (Invalid_Username ''Username must not start or end with a hyphen or underscore'')
      else Inr ())"

section \<open>Headers\<close>

type_synonym headers = "(string \<times> string) list"

definition cookie_name :: string where
  "cookie_name = ''aionui-session''"

definition extract_client_ip_from_headers :: "headers \<Rightarrow> string" where
  "extract_client_ip_from_headers h =
     (let real = (case map_of h ''x-real-ip'' of
          Some v \<Rightarrow> if trim v \<noteq> [] then trim v else ''unknown''
        | None \<Rightarrow> ''unknown'')
      in case map_of h ''x-forwarded-for'' of
          Some v \<Rightarrow> (let ip = trim (hd (split_char (CHR '','') v)) in if ip \<noteq> [] then ip else real)
        | None \<Rightarrow> real)"

text \<open>\<open>split_once\<close>.\<close>

fun split_once :: "char \<Rightarrow> string \<Rightarrow> (string \<times> string) option" where
  "split_once d [] = None"
| "split_once d (c # s) =
     (if c = d then Some ([], s) else map_option (\<lambda>(a, b). (c # a, b)) (split_once d s))"

fun find_cookie :: "string \<Rightarrow> string list \<Rightarrow> string option" where
  "find_cookie n [] = None"
| "find_cookie n (part # parts) =
     (case split_once (CHR ''='') (trim part) of
        None \<Rightarrow> find_cookie n parts
      | Some (k, v) \<Rightarrow>
          if trim k = n \<and> trim v \<noteq> [] then Some (trim v) else find_cookie n parts)"

definition extract_cookie_value :: "headers \<Rightarrow> string \<Rightarrow> string option" where
  "extract_cookie_value h n = (case map_of h ''cookie'' of
     None \<Rightarrow> None
   | Some v \<Rightarrow> find_cookie n (split_char (CHR '';'') v))"

definition extract_bearer_token :: "headers \<Rightarrow> string option" where
  "extract_bearer_token h = (case map_of h ''authorization'' of
     None \<Rightarrow> None
   | Some v \<Rightarrow> (case strip_prefix ''Bearer '' v of
       None \<Rightarrow> None
     | Some t \<Rightarrow> if t = [] then None else Some t))"

definition extract_token_from_headers :: "headers \<Rightarrow> string option" where
  "extract_token_from_headers h = (case extract_bearer_token h of
     Some t \<Rightarrow> Some t
   | None \<Rightarrow> extract_cookie_value h cookie_name)"

definition extract_token_from_ws_headers :: "headers \<Rightarrow> string option" where
  "extract_token_from_ws_headers h = (case extract_bearer_token h of
     Some t \<Rightarrow> Some t
   | None \<Rightarrow> (case extract_cookie_value h cookie_name of
       Some t \<Rightarrow> Some t
     | None \<Rightarrow> (case map_of h ''sec-websocket-protocol'' of
         None \<Rightarrow> None
       | Some v \<Rightarrow> (let first = trim (hd (split_char (CHR '','') v)) in if first = [] then None else Some first))))"

text \<open>A client names its own address: a header it sends decides under which key it is counted.\<close>

lemma client_chooses_its_address:
  assumes "map_of h ''x-forwarded-for'' = Some ip" and "trim ip = ip" and "ip \<noteq> []" and "CHR '','' \<notin> set ip"
  shows "extract_client_ip_from_headers h = ip"
proof -
  have "split_char (CHR '','') ip = [ip]"
    using split_char_join [of "[ip]" "CHR '',''"] assms(4) by simp
  with assms show ?thesis
    by (simp add: extract_client_ip_from_headers_def Let_def)
qed

section \<open>Generated credentials\<close>

definition lower_chars :: string where "lower_chars = ''abcdefghijklmnopqrstuvwxyz''"
definition upper_chars :: string where "upper_chars = ''ABCDEFGHIJKLMNOPQRSTUVWXYZ''"
definition digit_chars :: string where "digit_chars = ''0123456789''"
definition special_chars :: string where "special_chars = ''!@#$%^&*''"
definition alphanumeric_lower :: string where "alphanumeric_lower = ''abcdefghijklmnopqrstuvwxyz0123456789''"
definition all_password_chars :: string where
  "all_password_chars = ''ABCDEFGHIJKLMNOPQRSTUVWXYZabcdefghijklmnopqrstuvwxyz0123456789!@#$%^&*''"

definition pick :: "string \<Rightarrow> 8 word \<Rightarrow> char" where
  "pick cs b = cs ! (unat b mod length cs)"

definition random_string :: "8 word list \<Rightarrow> string \<Rightarrow> string" where
  "random_string bs cs = map (pick cs) bs"

text \<open>Fisher and Yates: from the last position down to 1.\<close>

definition swap :: "nat \<Rightarrow> nat \<Rightarrow> 'a list \<Rightarrow> 'a list" where
  "swap i j xs = xs[i := xs ! j, j := xs ! i]"

definition shuffle :: "8 word list \<Rightarrow> string \<Rightarrow> string" where
  "shuffle bs cs = fold (\<lambda>i. swap i (unat (bs ! i) mod (i + 1))) (rev [1..<length cs]) cs"

text \<open>The first four bytes pick one character of each category, the others fill the password up.\<close>

definition generate_strong_password :: "8 word list \<Rightarrow> 8 word list \<Rightarrow> string" where
  "generate_strong_password bs shuffle_bytes =
     shuffle shuffle_bytes
       ([pick upper_chars (bs ! 0), pick lower_chars (bs ! 1), pick digit_chars (bs ! 2), pick special_chars (bs ! 3)]
        @ map (pick all_password_chars) (drop 4 bs))"

lemma pick_in: "cs \<noteq> [] \<Longrightarrow> pick cs b \<in> set cs"
  by (simp add: pick_def)

lemma mset_swap_at [simp]: "i < length xs \<Longrightarrow> j < length xs \<Longrightarrow> mset (swap i j xs) = mset xs"
  by (simp add: swap_def mset_swap)

lemma length_swap [simp]: "length (swap i j xs) = length xs"
  by (simp add: swap_def)

lemma mset_fold_swap:
  assumes "\<forall>i\<in>set is. i < length xs \<and> f i < length xs"
  shows "mset (fold (\<lambda>i. swap i (f i)) is xs) = mset xs"
  using assms by (induction "is" arbitrary: xs) simp_all

lemma mset_shuffle: "mset (shuffle bs cs) = mset cs"
proof -
  have "i < length cs \<and> unat (bs ! i) mod (i + 1) < length cs" if "i \<in> set (rev [1..<length cs])" for i
    using that mod_less_divisor [of "i + 1" "unat (bs ! i)"] by (auto simp del: mod_less_divisor)
  then show ?thesis
    unfolding shuffle_def by (intro mset_fold_swap) auto
qed

lemma generate_strong_password_mset:
  "mset (generate_strong_password bs sh) =
     mset ([pick upper_chars (bs ! 0), pick lower_chars (bs ! 1), pick digit_chars (bs ! 2), pick special_chars (bs ! 3)]
        @ map (pick all_password_chars) (drop 4 bs))"
  unfolding generate_strong_password_def by (rule mset_shuffle)

text \<open>A generated password is long enough, holds a character of each category and passes the check.\<close>

lemma generated_password_length: "4 \<le> length bs \<Longrightarrow> length (generate_strong_password bs sh) = length bs"
  using arg_cong [OF generate_strong_password_mset, of size] by simp

lemma generated_password_categories:
  "\<exists>c\<in>set (generate_strong_password bs sh). c \<in> set upper_chars"
  "\<exists>c\<in>set (generate_strong_password bs sh). c \<in> set lower_chars"
  "\<exists>c\<in>set (generate_strong_password bs sh). c \<in> set digit_chars"
  "\<exists>c\<in>set (generate_strong_password bs sh). c \<in> set special_chars"
proof -
  have "set (generate_strong_password bs sh) \<supseteq>
      {pick upper_chars (bs ! 0), pick lower_chars (bs ! 1), pick digit_chars (bs ! 2), pick special_chars (bs ! 3)}"
    using arg_cong [OF generate_strong_password_mset, of set_mset] by auto
  moreover have "upper_chars \<noteq> []" "lower_chars \<noteq> []" "digit_chars \<noteq> []" "special_chars \<noteq> []"
    by (simp_all add: upper_chars_def lower_chars_def digit_chars_def special_chars_def)
  ultimately show
    "\<exists>c\<in>set (generate_strong_password bs sh). c \<in> set upper_chars"
    "\<exists>c\<in>set (generate_strong_password bs sh). c \<in> set lower_chars"
    "\<exists>c\<in>set (generate_strong_password bs sh). c \<in> set digit_chars"
    "\<exists>c\<in>set (generate_strong_password bs sh). c \<in> set special_chars"
    using pick_in by blast+
qed

lemma generated_password_is_valid:
  assumes "8 \<le> length bs" and "length bs \<le> 128"
  shows "validate_password (generate_strong_password bs sh) = Inr ()"
proof -
  let ?p = "generate_strong_password bs sh"
  obtain c where c: "c \<in> set ?p" "c \<in> set special_chars"
    using generated_password_categories(4) by blast
  have "list_all (\<lambda>c. ascii_lower c \<notin> set (concat weak_passwords)) special_chars"
    by code_simp
  with c(2) have n: "ascii_lower c \<notin> set w" if "w \<in> set weak_passwords" for w
    using that by (auto simp: list_all_iff)
  have "map ascii_lower ?p \<notin> set weak_passwords"
  proof
    assume "map ascii_lower ?p \<in> set weak_passwords"
    from n [OF this] c(1) show False by simp
  qed
  with assms generated_password_length [of bs sh] show ?thesis
    by (simp add: validate_password_def)
qed

lemma generated_username_is_valid:
  assumes "3 \<le> length bs" and "length bs \<le> 32"
  shows "validate_username (random_string bs alphanumeric_lower) = Inr ()"
proof -
  have "list_all (\<lambda>c. is_ascii_alphanumeric c \<and> \<not> is_dash c) alphanumeric_lower"
    by code_simp
  moreover have "pick alphanumeric_lower b \<in> set alphanumeric_lower" for b
    by (rule pick_in) (simp add: alphanumeric_lower_def)
  ultimately have ok: "is_ascii_alphanumeric (pick alphanumeric_lower b)" "\<not> is_dash (pick alphanumeric_lower b)" for b
    by (auto simp: list_all_iff)
  have "bs \<noteq> []" "length bs - 1 < length bs"
    using assms by auto
  with assms show ?thesis
    by (simp add: validate_username_def random_string_def list_all_iff ok)
qed

end
