(* ===== verification/User_Store.thy ===== *)
theory User_Store
  imports Auth_Basics
begin

text \<open>
  The users of the server: \<open>IUserRepository\<close> (\<open>aionui-db/src/repository/user.rs\<close>) as a record of
  functions on a state of the repository, and \<open>SqliteUserRepository\<close> (\<open>sqlite_user.rs\<close>) as the functions
  its statements denote on the table \<open>users\<close> with the constraints of the schema. Identifiers and the
  clock are arguments. The locale \<open>user_repository\<close> holds what the handlers rely on.
\<close>

record user_row =
  us_id :: string
  us_username :: string
  us_email :: "string option"
  us_password_hash :: string
  us_avatar_path :: "string option"
  us_jwt_secret :: "string option"
  us_created_at :: int
  us_updated_at :: int
  us_last_login :: "int option"

type_synonym user_db = "user_row list"

definition system_user_id :: string where "system_user_id = ''system_default_user''"

section \<open>The statements\<close>

definition has_users :: "user_db \<Rightarrow> bool" where
  "has_users db = list_ex (\<lambda>r. us_password_hash r \<noteq> []) db"

definition find_user_by_id :: "string \<Rightarrow> user_db \<Rightarrow> db_error + user_row option" where
  "find_user_by_id i db = Inr (find (\<lambda>r. us_id r = i) db)"

definition find_user_by_username :: "string \<Rightarrow> user_db \<Rightarrow> db_error + user_row option" where
  "find_user_by_username u db = Inr (find (\<lambda>r. us_username r = u) db)"

definition get_system_user :: "user_db \<Rightarrow> db_error + user_row option" where
  "get_system_user db = find_user_by_id system_user_id db"

definition get_primary_webui_user :: "user_db \<Rightarrow> db_error + user_row option" where
  "get_primary_webui_user db = and_then (get_system_user db) (\<lambda>u. case u of
     Some r \<Rightarrow> Inr (Some r)
   | None \<Rightarrow> find_user_by_username ''admin'' db)"

definition user_not_found :: "string \<Rightarrow> db_error" where
  "user_not_found i = Db_Not_Found (''User '' @ quoted i @ '' not found'')"

definition username_conflict :: "string \<Rightarrow> db_error" where
  "username_conflict u = Db_Conflict (''Username '' @ quoted u @ '' already exists'')"

text \<open>\<open>UPDATE users SET \<dots> WHERE id = ?\<close>; no row of the identifier is an error.\<close>

definition update_user :: "db_error \<Rightarrow> string \<Rightarrow> (user_row \<Rightarrow> user_row) \<Rightarrow> user_db \<Rightarrow> (db_error + unit) \<times> user_db" where
  "update_user e i f db =
     (if list_ex (\<lambda>r. us_id r = i) db then (Inr (), map (\<lambda>r. if us_id r = i then f r else r) db) else (Inl e, db))"

definition update_password :: "string \<Rightarrow> string \<Rightarrow> int \<Rightarrow> user_db \<Rightarrow> (db_error + unit) \<times> user_db" where
  "update_password i h now = update_user (user_not_found i) i (\<lambda>r. r\<lparr>us_password_hash := h, us_updated_at := now\<rparr>)"

definition update_last_login :: "string \<Rightarrow> int \<Rightarrow> user_db \<Rightarrow> (db_error + unit) \<times> user_db" where
  "update_last_login i now = update_user (user_not_found i) i (\<lambda>r. r\<lparr>us_last_login := Some now, us_updated_at := now\<rparr>)"

definition update_jwt_secret :: "string \<Rightarrow> string \<Rightarrow> int \<Rightarrow> user_db \<Rightarrow> (db_error + unit) \<times> user_db" where
  "update_jwt_secret i s now = update_user (user_not_found i) i (\<lambda>r. r\<lparr>us_jwt_secret := Some s, us_updated_at := now\<rparr>)"

text \<open>\<open>username\<close> is unique; the constraint can only fail when a row is written.\<close>

definition name_taken :: "string \<Rightarrow> string \<Rightarrow> user_db \<Rightarrow> bool" where
  "name_taken i u db = (list_ex (\<lambda>r. us_id r = i) db \<and> list_ex (\<lambda>r. us_id r \<noteq> i \<and> us_username r = u) db)"

definition update_username :: "string \<Rightarrow> string \<Rightarrow> int \<Rightarrow> user_db \<Rightarrow> (db_error + unit) \<times> user_db" where
  "update_username i u now db =
     (if name_taken i u db then (Inl (username_conflict u), db)
      else update_user (user_not_found i) i (\<lambda>r. r\<lparr>us_username := u, us_updated_at := now\<rparr>) db)"

definition set_system_user_credentials :: "string \<Rightarrow> string \<Rightarrow> int \<Rightarrow> user_db \<Rightarrow> (db_error + unit) \<times> user_db" where
  "set_system_user_credentials u h now db =
     (if name_taken system_user_id u db then (Inl (username_conflict u), db)
      else update_user (Db_Not_Found ''system_default_user not found'') system_user_id
        (\<lambda>r. r\<lparr>us_username := u, us_password_hash := h, us_updated_at := now\<rparr>) db)"

definition create_user :: "string \<Rightarrow> string \<Rightarrow> string \<Rightarrow> int \<Rightarrow> user_db \<Rightarrow> (db_error + user_row) \<times> user_db" where
  "create_user i u h now db =
     (let r = \<lparr>us_id = i, us_username = u, us_email = None, us_password_hash = h, us_avatar_path = None,
            us_jwt_secret = None, us_created_at = now, us_updated_at = now, us_last_login = None\<rparr>
      in if list_ex (\<lambda>r. us_id r = i) db then (Inl (Db_Query ''UNIQUE constraint failed: users.id''), db)
         else if list_ex (\<lambda>r. us_username r = u) db then (Inl (username_conflict u), db)
         else (Inr r, db @ [r]))"

section \<open>The repository\<close>

record 'db user_repo =
  ur_has_users :: "'db \<Rightarrow> db_error + bool"
  ur_system :: "'db \<Rightarrow> db_error + user_row option"
  ur_primary :: "'db \<Rightarrow> db_error + user_row option"
  ur_by_username :: "string \<Rightarrow> 'db \<Rightarrow> db_error + user_row option"
  ur_by_id :: "string \<Rightarrow> 'db \<Rightarrow> db_error + user_row option"
  ur_list :: "'db \<Rightarrow> db_error + user_row list"
  ur_count :: "'db \<Rightarrow> db_error + int"
  ur_create :: "string \<Rightarrow> string \<Rightarrow> string \<Rightarrow> int \<Rightarrow> 'db \<Rightarrow> (db_error + user_row) \<times> 'db"
  ur_set_system :: "string \<Rightarrow> string \<Rightarrow> int \<Rightarrow> 'db \<Rightarrow> (db_error + unit) \<times> 'db"
  ur_update_password :: "string \<Rightarrow> string \<Rightarrow> int \<Rightarrow> 'db \<Rightarrow> (db_error + unit) \<times> 'db"
  ur_update_username :: "string \<Rightarrow> string \<Rightarrow> int \<Rightarrow> 'db \<Rightarrow> (db_error + unit) \<times> 'db"
  ur_update_last_login :: "string \<Rightarrow> int \<Rightarrow> 'db \<Rightarrow> (db_error + unit) \<times> 'db"
  ur_update_jwt_secret :: "string \<Rightarrow> string \<Rightarrow> int \<Rightarrow> 'db \<Rightarrow> (db_error + unit) \<times> 'db"

definition sqlite_users :: "user_db user_repo" where
  "sqlite_users = \<lparr>ur_has_users = (\<lambda>db. Inr (has_users db)), ur_system = get_system_user,
     ur_primary = get_primary_webui_user, ur_by_username = find_user_by_username, ur_by_id = find_user_by_id,
     ur_list = Inr, ur_count = (\<lambda>db. Inr (int (length db))), ur_create = create_user,
     ur_set_system = set_system_user_credentials, ur_update_password = update_password,
     ur_update_username = update_username, ur_update_last_login = update_last_login,
     ur_update_jwt_secret = update_jwt_secret\<rparr>"

text \<open>
  What the handlers rely on: identifiers and names are unique in every state, which each update keeps,
  and an update of a user found by its identifier succeeds and changes its column of that user.
\<close>

locale user_repository =
  fixes R :: "'db user_repo" and ok :: "'db \<Rightarrow> bool"
  assumes password_updated: "ok db \<Longrightarrow> ur_by_id R i db = Inr (Some r) \<Longrightarrow> \<exists>db'.
      ur_update_password R i h now db = (Inr (), db') \<and> ok db'
      \<and> ur_by_id R i db' = Inr (Some (r\<lparr>us_password_hash := h, us_updated_at := now\<rparr>))"
    and secret_updated: "ok db \<Longrightarrow> ur_by_id R i db = Inr (Some r) \<Longrightarrow> \<exists>db'.
      ur_update_jwt_secret R i s now db = (Inr (), db') \<and> ok db'
      \<and> ur_by_id R i db' = Inr (Some (r\<lparr>us_jwt_secret := Some s, us_updated_at := now\<rparr>))"
    and found_by_name: "ok db \<Longrightarrow> ur_by_id R i db = Inr (Some r) \<Longrightarrow> ur_by_username R (us_username r) db = Inr (Some r)"
begin

text \<open>After both updates of a password change the user is found by name with the new hash and secret.\<close>

lemma credentials_updated:
  assumes "ok db" and "ur_by_id R i db = Inr (Some r)"
  obtains db1 db2 where "ur_update_password R i h t db = (Inr (), db1)"
    and "ur_update_jwt_secret R i s t' db1 = (Inr (), db2)" and "ok db2"
    and "ur_by_username R (us_username r) db2 =
      Inr (Some (r\<lparr>us_password_hash := h, us_updated_at := t, us_jwt_secret := Some s, us_updated_at := t'\<rparr>))"
proof -
  obtain db1 where 1: "ur_update_password R i h t db = (Inr (), db1)" "ok db1"
      "ur_by_id R i db1 = Inr (Some (r\<lparr>us_password_hash := h, us_updated_at := t\<rparr>))"
    using password_updated [OF assms] by blast
  obtain db2 where 2: "ur_update_jwt_secret R i s t' db1 = (Inr (), db2)" "ok db2"
      "ur_by_id R i db2 = Inr (Some (r\<lparr>us_password_hash := h, us_updated_at := t, us_jwt_secret := Some s, us_updated_at := t'\<rparr>))"
    using secret_updated [OF 1(2,3)] by blast
  show ?thesis
    using that [OF 1(1) 2(1,2)] found_by_name [OF 2(2,3)] by simp
qed

end

definition users_unique :: "user_db \<Rightarrow> bool" where
  "users_unique db \<longleftrightarrow> distinct (map us_id db) \<and> distinct (map us_username db)"

lemma find_map_unique:
  assumes "\<And>r. us_id (f r) = us_id r"
  shows "find (\<lambda>r. us_id r = i) (map (\<lambda>r. if us_id r = i then f r else r) db) = map_option f (find (\<lambda>r. us_id r = i) db)"
  using assms by (induction db) auto

lemma users_unique_map:
  assumes "\<And>r. us_id (f r) = us_id r" and "\<And>r. us_username (f r) = us_username r"
  shows "users_unique (map (\<lambda>r. if us_id r = i then f r else r) db) = users_unique db"
proof -
  have "map us_id (map (\<lambda>r. if us_id r = i then f r else r) db) = map us_id db"
    "map us_username (map (\<lambda>r. if us_id r = i then f r else r) db) = map us_username db"
    using assms by auto
  then show ?thesis by (simp add: users_unique_def del: map_map)
qed

lemma update_user_found:
  assumes "users_unique db" and "find_user_by_id i db = Inr (Some r)"
    and "\<And>r. us_id (f r) = us_id r" and "\<And>r. us_username (f r) = us_username r"
  shows "\<exists>db'. update_user e i f db = (Inr (), db') \<and> users_unique db' \<and> find_user_by_id i db' = Inr (Some (f r))"
proof -
  have "find (\<lambda>r. us_id r = i) db = Some r"
    using assms(2) by (simp add: find_user_by_id_def)
  moreover from this have "list_ex (\<lambda>r. us_id r = i) db"
    by (auto simp: find_Some_iff list_ex_iff)
  ultimately show ?thesis
    using assms(1,3,4) by (simp add: update_user_def find_user_by_id_def find_map_unique users_unique_map)
qed

lemma find_by_name_unique:
  assumes "users_unique db" and "find_user_by_id i db = Inr (Some r)"
  shows "find_user_by_username (us_username r) db = Inr (Some r)"
proof -
  have "r \<in> set db"
    using assms(2) by (auto simp: find_user_by_id_def find_Some_iff)
  moreover have "r' = r" if "r' \<in> set db" "us_username r' = us_username r" for r'
    using that calculation assms(1) by (auto simp: users_unique_def distinct_map inj_on_def)
  ultimately show ?thesis
    by (cases "find (\<lambda>s. us_username s = us_username r) db")
      (auto simp: find_user_by_username_def find_None_iff find_Some_iff dest: nth_mem)
qed

lemma find_by_id_unique:
  assumes "users_unique db" and "r \<in> set db"
  shows "find_user_by_id (us_id r) db = Inr (Some r)"
proof -
  have "r' = r" if "r' \<in> set db" "us_id r' = us_id r" for r'
    using that assms by (auto simp: users_unique_def distinct_map inj_on_def)
  with assms(2) show ?thesis
    by (cases "find (\<lambda>s. us_id s = us_id r) db") (auto simp: find_user_by_id_def find_None_iff find_Some_iff dest: nth_mem)
qed

interpretation sqlite_user: user_repository sqlite_users users_unique
proof unfold_locales
  fix db i r h and now :: int
  assume u: "users_unique db" and r: "ur_by_id sqlite_users i db = Inr (Some r)"
  then show "\<exists>db'. ur_update_password sqlite_users i h now db = (Inr (), db') \<and> users_unique db'
      \<and> ur_by_id sqlite_users i db' = Inr (Some (r\<lparr>us_password_hash := h, us_updated_at := now\<rparr>))"
    using update_user_found [OF u, of i r "\<lambda>r. r\<lparr>us_password_hash := h, us_updated_at := now\<rparr>"]
    by (simp add: sqlite_users_def update_password_def)
  show "\<exists>db'. ur_update_jwt_secret sqlite_users i h now db = (Inr (), db') \<and> users_unique db'
      \<and> ur_by_id sqlite_users i db' = Inr (Some (r\<lparr>us_jwt_secret := Some h, us_updated_at := now\<rparr>))"
    using r update_user_found [OF u, of i r "\<lambda>r. r\<lparr>us_jwt_secret := Some h, us_updated_at := now\<rparr>"]
    by (simp add: sqlite_users_def update_jwt_secret_def)
  show "ur_by_username sqlite_users (us_username r) db = Inr (Some r)"
    using r find_by_name_unique [OF u] by (simp add: sqlite_users_def)
qed

text \<open>The writes that can add or rename a user keep identifiers and names unique.\<close>

lemma create_user_unique: "users_unique db \<Longrightarrow> users_unique (snd (create_user i u h now db))"
  by (auto simp: create_user_def users_unique_def Let_def list_ex_iff)

lemma update_username_unique:
  assumes "users_unique db"
  shows "users_unique (snd (update_username i u now db))"
proof (cases "name_taken i u db \<or> \<not> list_ex (\<lambda>r. us_id r = i) db")
  case True
  with assms show ?thesis by (auto simp: update_username_def update_user_def)
next
  case False
  let ?f = "\<lambda>r. if us_id r = i then r\<lparr>us_username := u, us_updated_at := now\<rparr> else r"
  have "map us_id (map ?f db) = map us_id db"
    by auto
  moreover have "distinct (map us_username (map ?f db))"
    unfolding map_map distinct_map
  proof
    show "distinct db"
      using assms by (simp add: users_unique_def distinct_map)
    show "inj_on (us_username \<circ> ?f) (set db)"
      using assms False unfolding inj_on_def users_unique_def distinct_map name_taken_def list_ex_iff
      by (auto split: if_splits)
  qed
  ultimately show ?thesis
    using assms False by (simp add: update_username_def update_user_def users_unique_def del: map_map)
qed

end
