(* ===== verification/Rate_Limit.thy ===== *)
theory Rate_Limit
  imports Auth_Basics
begin

text \<open>
  \<open>aionui-auth/src/rate_limit.rs\<close>: the fixed window counter per key and the middlewares around it.
  Counters are \<open>u32\<close>, times \<open>u64\<close> milliseconds; the clock is an argument. An operation holds the entry of
  its key, so each is one step. The last section bounds what a run of requests lets through.
\<close>

section \<open>The limiter\<close>

record limit_entry =
  le_count :: "32 word"
  le_reset :: "64 word"

record limiter =
  lm_entries :: "(string, limit_entry) hmap"
  lm_max :: "32 word"
  lm_window :: "64 word"

definition new_limiter :: "32 word \<Rightarrow> 64 word \<Rightarrow> limiter" where
  "new_limiter m w = \<lparr>lm_entries = [], lm_max = m, lm_window = w\<rparr>"

text \<open>\<open>auth\<close>, \<open>api\<close> and \<open>authenticated_action\<close>.\<close>

definition auth_limiter :: limiter where "auth_limiter = new_limiter 5 (15 * 60 * 1000)"
definition api_limiter :: limiter where "api_limiter = new_limiter 60 (60 * 1000)"
definition action_limiter :: limiter where "action_limiter = new_limiter 20 (60 * 1000)"

definition check_limit :: "64 word \<Rightarrow> string \<Rightarrow> limiter \<Rightarrow> auth_error + unit" where
  "check_limit now key l = (case map_of (lm_entries l) key of
     None \<Rightarrow> Inr ()
   | Some e \<Rightarrow> if now < le_reset e \<and> le_count e \<ge> lm_max l then Inl Rate_Limited else Inr ())"

text \<open>The entry of a key after \<open>or_insert\<close> and after the window has been renewed.\<close>

definition entry_at :: "64 word \<Rightarrow> string \<Rightarrow> limiter \<Rightarrow> limit_entry" where
  "entry_at now key l =
     (let fresh = \<lparr>le_count = 0, le_reset = now + lm_window l\<rparr>;
          e = (case map_of (lm_entries l) key of None \<Rightarrow> fresh | Some e \<Rightarrow> e)
      in if now \<ge> le_reset e then fresh else e)"

definition check_and_increment :: "64 word \<Rightarrow> string \<Rightarrow> limiter \<Rightarrow> (auth_error + unit) \<times> limiter" where
  "check_and_increment now key l =
     (let e = entry_at now key l in
      if le_count e \<ge> lm_max l
      then (Inl Rate_Limited, l\<lparr>lm_entries := hm_insert key e (lm_entries l)\<rparr>)
      else (Inr (), l\<lparr>lm_entries := hm_insert key (e\<lparr>le_count := le_count e + 1\<rparr>) (lm_entries l)\<rparr>))"

definition record_attempt :: "64 word \<Rightarrow> string \<Rightarrow> limiter \<Rightarrow> limiter" where
  "record_attempt now key l =
     (let e = entry_at now key l
      in l\<lparr>lm_entries := hm_insert key (e\<lparr>le_count := le_count e + 1\<rparr>) (lm_entries l)\<rparr>)"

definition cleanup_limits :: "64 word \<Rightarrow> limiter \<Rightarrow> limiter" where
  "cleanup_limits now l = l\<lparr>lm_entries := hm_retain (\<lambda>e. now < le_reset e) (lm_entries l)\<rparr>"

section \<open>The middlewares\<close>

text \<open>What a request reads of its client: its headers and the user an earlier middleware has put in.\<close>

record request =
  rq_headers :: headers
  rq_user :: "(string \<times> string) option"

text \<open>The rest of the chain maps the state to a response and the state after it; a response is known by its
  status. \<open>t0\<close> and \<open>t1\<close> are the clock before and after.\<close>

definition auth_rate_limit_middleware ::
  "64 word \<Rightarrow> 64 word \<Rightarrow> (request \<Rightarrow> nat) \<Rightarrow> request \<Rightarrow> limiter \<Rightarrow> (api_error + nat) \<times> limiter" where
  "auth_rate_limit_middleware t0 t1 handler r l =
     (let ip = extract_client_ip_from_headers (rq_headers r) in
      case check_limit t0 ip l of
        Inl e \<Rightarrow> (Inl (api_from_auth_error e), l)
      | Inr _ \<Rightarrow>
          (let status = handler r in
           (Inr status, if 200 \<le> status \<and> status < 300 then l else record_attempt t1 ip l)))"

definition api_rate_limit_middleware ::
  "64 word \<Rightarrow> (request \<Rightarrow> 'r) \<Rightarrow> request \<Rightarrow> limiter \<Rightarrow> (api_error + 'r) \<times> limiter" where
  "api_rate_limit_middleware now handler r l =
     (case check_and_increment now (extract_client_ip_from_headers (rq_headers r)) l of
        (Inl e, l') \<Rightarrow> (Inl (api_from_auth_error e), l')
      | (Inr _, l') \<Rightarrow> (Inr (handler r), l'))"

definition action_key :: "request \<Rightarrow> string" where
  "action_key r = (case rq_user r of
     Some u \<Rightarrow> ''user:'' @ fst u
   | None \<Rightarrow> ''ip:'' @ extract_client_ip_from_headers (rq_headers r))"

definition action_rate_limit_middleware ::
  "64 word \<Rightarrow> (request \<Rightarrow> 'r) \<Rightarrow> request \<Rightarrow> limiter \<Rightarrow> (api_error + 'r) \<times> limiter" where
  "action_rate_limit_middleware now handler r l =
     (case check_and_increment now (action_key r) l of
        (Inl e, l') \<Rightarrow> (Inl (api_from_auth_error e), l')
      | (Inr _, l') \<Rightarrow> (Inr (handler r), l'))"

section \<open>Runs\<close>

datatype limit_event = Request_At (event_time: "64 word") string | Cleanup_At (event_time: "64 word")

text \<open>The log holds for each request its time, its key and whether it was let through.\<close>

fun limit_step :: "limit_event \<Rightarrow> (64 word \<times> string \<times> bool) list \<times> limiter \<Rightarrow> (64 word \<times> string \<times> bool) list \<times> limiter" where
  "limit_step (Request_At now key) (log, l) =
     (case check_and_increment now key l of (r, l') \<Rightarrow> (log @ [(now, key, r = Inr ())], l'))"
| "limit_step (Cleanup_At now) (log, l) = (log, cleanup_limits now l)"

definition run_limits :: "limit_event list \<Rightarrow> limiter \<Rightarrow> (64 word \<times> string \<times> bool) list \<times> limiter" where
  "run_limits es l = fold limit_step es ([], l)"

definition admitted :: "string \<Rightarrow> (64 word \<times> string \<times> bool) list \<Rightarrow> nat list" where
  "admitted key log = map (\<lambda>(t, _). unat t) (filter (\<lambda>(_, k, ok). k = key \<and> ok) log)"

text \<open>The attempts of \<open>auth_rate_limit_middleware\<close>, whose check and record are apart.\<close>

datatype attempt_event = Attempt_Begins "64 word" string | Attempt_Fails "64 word" string

fun attempt_step :: "attempt_event \<Rightarrow> (64 word \<times> string \<times> bool) list \<times> limiter \<Rightarrow> (64 word \<times> string \<times> bool) list \<times> limiter" where
  "attempt_step (Attempt_Begins now key) (log, l) = (log @ [(now, key, check_limit now key l = Inr ())], l)"
| "attempt_step (Attempt_Fails now key) (log, l) = (log, record_attempt now key l)"

section \<open>A failed attempt alone counts like a request\<close>

lemma attempt_alone_counts:
  assumes "lm_max l > 0"
  shows "(case check_limit now key l of Inl e \<Rightarrow> (Inl e, l) | Inr _ \<Rightarrow> (Inr (), record_attempt now key l))
    = check_and_increment now key l"
proof (cases "map_of (lm_entries l) key")
  case None
  then show ?thesis
    using assms by (auto simp: check_limit_def check_and_increment_def record_attempt_def entry_at_def Let_def)
next
  case (Some e)
  have "hm_insert key e (lm_entries l) = lm_entries l"
    unfolding hm_insert_def using Some by (rule update_triv)
  then show ?thesis
    using Some assms
    by (auto simp: check_limit_def check_and_increment_def record_attempt_def entry_at_def Let_def not_le)
qed

text \<open>Attempts that overlap are not held back: ten fail within the limit of five.\<close>

lemma overlapping_attempts_exceed_limit:
  "length (admitted ''k'' (fst (fold attempt_step
     (replicate 10 (Attempt_Begins 0 ''k'') @ replicate 10 (Attempt_Fails 1 ''k'')) ([], auth_limiter)))) = 10"
  by code_simp

section \<open>What a run lets through\<close>

text \<open>The admitted requests of one key, each with the end of the window it was counted in, against the
  counter and the end of the current window.\<close>

definition windows_ok :: "nat \<Rightarrow> nat \<Rightarrow> nat \<Rightarrow> (nat \<times> nat) list \<Rightarrow> (nat \<times> nat) option \<Rightarrow> bool" where
  "windows_ok m w now G en \<longleftrightarrow>
     (\<forall>(t, r)\<in>set G. t < r \<and> r \<le> t + w)
   \<and> (\<forall>r. length (filter (\<lambda>g. snd g = r) G) \<le> m)
   \<and> (\<forall>g\<in>set G. \<forall>h\<in>set G. snd g < snd h \<longrightarrow> snd g + w \<le> snd h)
   \<and> (case en of
        None \<Rightarrow> \<forall>g\<in>set G. snd g \<le> now
      | Some (c, r) \<Rightarrow> r \<le> now + w \<and> c = length (filter (\<lambda>g. snd g = r) G)
          \<and> (\<forall>g\<in>set G. snd g \<le> r \<and> (snd g < r \<longrightarrow> snd g + w \<le> r)))"

fun renewed :: "nat \<Rightarrow> nat \<Rightarrow> (nat \<times> nat) option \<Rightarrow> nat \<times> nat" where
  "renewed w now None = (0, now + w)"
| "renewed w now (Some (c, r)) = (if r \<le> now then (0, now + w) else (c, r))"

lemma windows_ok_empty [simp]: "windows_ok m w now [] None"
  by (simp add: windows_ok_def)

lemma windows_ok_later: "windows_ok m w t G en \<Longrightarrow> t \<le> now \<Longrightarrow> windows_ok m w now G en"
  by (fastforce simp: windows_ok_def split: option.splits)

lemma windows_ok_drop: "windows_ok m w now G (Some (c, r)) \<Longrightarrow> r \<le> now \<Longrightarrow> windows_ok m w now G None"
  by (fastforce simp: windows_ok_def)

lemma windows_ok_fresh:
  assumes "windows_ok m w now G None" and "0 < w"
  shows "windows_ok m w now G (Some (0, now + w))"
proof -
  have "\<forall>g\<in>set G. snd g \<le> now"
    using assms(1) by (simp add: windows_ok_def)
  moreover from this have "filter (\<lambda>g. snd g = now + w) G = []"
    using assms(2) by (fastforce simp: filter_empty_conv)
  ultimately show ?thesis
    using assms by (fastforce simp: windows_ok_def)
qed

lemma windows_ok_renewed:
  assumes "windows_ok m w now G en" and "0 < w"
  shows "windows_ok m w now G (Some (renewed w now en)) \<and> now < snd (renewed w now en)"
proof (cases en)
  case None
  with windows_ok_fresh assms show ?thesis by simp
next
  case (Some e)
  then obtain c r where e: "en = Some (c, r)" by (cases e) auto
  show ?thesis
  proof (cases "r \<le> now")
    case True
    with windows_ok_fresh windows_ok_drop assms e show ?thesis by auto
  qed (use assms e in auto)
qed

lemma windows_ok_admit:
  assumes "windows_ok m w now G (Some (c, r))" and "now < r" and "c < m"
  shows "windows_ok m w now (G @ [(now, r)]) (Some (c + 1, r))"
  using assms by (auto simp: windows_ok_def)

lemma windows_ok_rejected:
  assumes "windows_ok m w now G (Some (c, r))" and "now < r" and "m \<le> c"
  shows "m \<le> length (filter (\<lambda>t. now < t + w) (map fst G))"
proof -
  have "filter (\<lambda>g. snd g = r) G = filter (\<lambda>g. snd g = r) (filter (\<lambda>g. now < fst g + w) G)"
    using assms unfolding filter_filter by (intro filter_cong) (auto simp: windows_ok_def)
  then have "length (filter (\<lambda>g. snd g = r) G) \<le> length (filter (\<lambda>g. now < fst g + w) G)"
    by (metis length_filter_le)
  with assms show ?thesis
    by (simp add: windows_ok_def filter_map comp_def)
qed

lemma length_filter_le_add:
  assumes "\<forall>x\<in>set xs. P x \<longrightarrow> Q x \<or> R x"
  shows "length (filter P xs) \<le> length (filter Q xs) + length (filter R xs)"
  using assms by (induction xs) auto

lemma windows_ok_interval:
  assumes "windows_ok m w now G en"
  shows "length (filter (\<lambda>t. a \<le> t \<and> t < a + w) (map fst G)) \<le> 2 * m"
proof -
  let ?P = "\<lambda>g::nat \<times> nat. a \<le> fst g \<and> fst g < a + w"
  have r: "a < snd g" "snd g < a + 2 * w" if "g \<in> set G" "?P g" for g
    using assms that by (fastforce simp: windows_ok_def)+
  have apart: "snd g + w \<le> snd h" if "g \<in> set G" "h \<in> set G" "snd g < snd h" for g h
    using assms that by (simp add: windows_ok_def)
  have m: "length (filter (\<lambda>g. snd g = r) G) \<le> m" for r
    using assms by (simp add: windows_ok_def)
  have "\<exists>x y. \<forall>g\<in>set G. ?P g \<longrightarrow> snd g = x \<or> snd g = y"
  proof (cases "\<exists>g\<in>set G. ?P g")
    case True
    let ?S = "snd ` {g\<in>set G. ?P g}"
    have fin: "finite ?S" "?S \<noteq> {}"
      using True by auto
    have "snd g = Min ?S \<or> snd g = Max ?S" if g: "g \<in> set G" "?P g" for g
    proof (rule ccontr)
      assume n: "\<not> ?thesis"
      have "snd g \<in> ?S" using g by blast
      then have "Min ?S \<le> snd g" "snd g \<le> Max ?S"
        using fin(1) by (rule Min_le [rotated], rule Max_ge [rotated])
      with n have "Min ?S < snd g" "snd g < Max ?S"
        by linarith+
      moreover obtain u where "u \<in> set G" "?P u" "Min ?S = snd u"
        using Min_in [OF fin] by (elim imageE) blast
      moreover obtain v where "v \<in> set G" "?P v" "Max ?S = snd v"
        using Max_in [OF fin] by (elim imageE) blast
      ultimately show False
        using apart [of u g] apart [of g v] g r(1) [of u] r(2) [of v] by simp
    qed
    then show ?thesis by blast
  qed blast
  then obtain x y where "\<forall>g\<in>set G. ?P g \<longrightarrow> snd g = x \<or> snd g = y"
    by blast
  then have "length (filter ?P G) \<le> length (filter (\<lambda>g. snd g = x) G) + length (filter (\<lambda>g. snd g = y) G)"
    by (rule length_filter_le_add)
  with m [of x] m [of y] show ?thesis
    by (simp add: filter_map comp_def)
qed

definition entry_nats :: "limit_entry \<Rightarrow> nat \<times> nat" where
  "entry_nats e = (unat (le_count e), unat (le_reset e))"

definition fits :: "limit_event \<Rightarrow> 64 word \<Rightarrow> bool" where
  "fits e w \<longleftrightarrow> unat (event_time e) + unat w < 2 ^ 64"

lemma entry_at_nats:
  assumes "unat now + unat (lm_window l) < 2 ^ 64"
  shows "entry_nats (entry_at now k l)
    = renewed (unat (lm_window l)) (unat now) (map_option entry_nats (map_of (lm_entries l) k))"
proof -
  have "unat (now + lm_window l) = unat now + unat (lm_window l)"
    using assms unat_add_lem [of now "lm_window l"] by simp
  then show ?thesis
    by (cases "map_of (lm_entries l) k") (auto simp: entry_at_def Let_def entry_nats_def word_le_nat_alt)
qed

text \<open>The invariant of a run: each key has its windows, and each rejection its reason.\<close>

definition key_windows :: "nat \<Rightarrow> (64 word \<times> string \<times> bool) list \<Rightarrow> limiter \<Rightarrow> string \<Rightarrow> bool" where
  "key_windows now log l k \<longleftrightarrow> (\<exists>G. map fst G = admitted k log
     \<and> windows_ok (unat (lm_max l)) (unat (lm_window l)) now G (map_option entry_nats (map_of (lm_entries l) k)))"

definition rejections_ok :: "64 word \<Rightarrow> 32 word \<Rightarrow> (64 word \<times> string \<times> bool) list \<Rightarrow> bool" where
  "rejections_ok w m log \<longleftrightarrow> (\<forall>i t k. i < length log \<and> log ! i = (t, k, False)
     \<longrightarrow> unat m \<le> length (filter (\<lambda>s. unat t < s + unat w) (admitted k (take i log))))"

definition limits_ok :: "nat \<Rightarrow> (64 word \<times> string \<times> bool) list \<times> limiter \<Rightarrow> bool" where
  "limits_ok now s \<longleftrightarrow> (\<forall>k. key_windows now (fst s) (snd s) k) \<and> distinct (hm_keys (lm_entries (snd s)))
     \<and> rejections_ok (lm_window (snd s)) (lm_max (snd s)) (fst s)"

lemma admitted_simps [simp]:
  "admitted k [] = []"
  "admitted k (log @ [(t, k', ok)]) = (if k' = k \<and> ok then admitted k log @ [unat t] else admitted k log)"
  by (auto simp: admitted_def)

lemma rejections_ok_append:
  assumes "rejections_ok w m log"
    and "\<not> ok \<Longrightarrow> unat m \<le> length (filter (\<lambda>s. unat t < s + unat w) (admitted k log))"
  shows "rejections_ok w m (log @ [(t, k, ok)])"
  using assms by (fastforce simp: rejections_ok_def nth_append less_Suc_eq)

lemma key_windows_later: "key_windows t log l k \<Longrightarrow> t \<le> now \<Longrightarrow> key_windows now log l k"
  unfolding key_windows_def using windows_ok_later by blast

lemma key_windows_renewed:
  assumes "key_windows (unat now) log l k" and "0 < unat (lm_window l)" and "unat now + unat (lm_window l) < 2 ^ 64"
  obtains G where "map fst G = admitted k log"
    and "windows_ok (unat (lm_max l)) (unat (lm_window l)) (unat now) G (Some (entry_nats (entry_at now k l)))"
    and "unat now < unat (le_reset (entry_at now k l))"
proof -
  obtain G where "map fst G = admitted k log" and "windows_ok (unat (lm_max l)) (unat (lm_window l)) (unat now) G
      (map_option entry_nats (map_of (lm_entries l) k))"
    using assms(1) unfolding key_windows_def by blast
  note G = this
  from windows_ok_renewed [OF G(2) assms(2)]
  have "windows_ok (unat (lm_max l)) (unat (lm_window l)) (unat now) G (Some (entry_nats (entry_at now k l)))
      \<and> unat now < snd (entry_nats (entry_at now k l))"
    unfolding entry_at_nats [OF assms(3)] .
  with that [OF G(1)] show ?thesis
    by (simp add: entry_nats_def)
qed

lemma limits_ok_request:
  assumes ok: "limits_ok (unat now) (log, l)" and w: "0 < unat (lm_window l)" and fit: "unat now + unat (lm_window l) < 2 ^ 64"
  shows "limits_ok (unat now) (limit_step (Request_At now key) (log, l))"
proof -
  let ?e = "entry_at now key l"
  let ?full = "le_count ?e \<ge> lm_max l"
  let ?e' = "if ?full then ?e else ?e\<lparr>le_count := le_count ?e + 1\<rparr>"
  let ?l = "l\<lparr>lm_entries := hm_insert key ?e' (lm_entries l)\<rparr>"
  have step: "limit_step (Request_At now key) (log, l) = (log @ [(now, key, \<not> ?full)], ?l)"
    by (auto simp: check_and_increment_def Let_def)
  obtain G where G: "map fst G = admitted key log" "unat now < unat (le_reset ?e)"
      "windows_ok (unat (lm_max l)) (unat (lm_window l)) (unat now) G (Some (unat (le_count ?e), unat (le_reset ?e)))"
    using key_windows_renewed [OF _ w fit] ok unfolding limits_ok_def entry_nats_def by (metis fst_conv snd_conv)
  have this_key: "key_windows (unat now) (log @ [(now, key, \<not> ?full)]) ?l key"
  proof (cases ?full)
    case True
    with G show ?thesis by (auto simp: key_windows_def entry_nats_def)
  next
    case False
    then have c: "unat (le_count ?e) < unat (lm_max l)"
      by (simp add: word_less_nat_alt not_le)
    moreover have "unat (lm_max l) < 2 ^ 32"
      using unsigned_less [of "lm_max l"] by simp
    ultimately have "unat (le_count ?e + 1) = unat (le_count ?e) + 1"
      using unat_add_lem [of "le_count ?e" 1] by simp
    with windows_ok_admit [OF G(3,2) c] False show ?thesis
      unfolding key_windows_def by (intro exI [of _ "G @ [(unat now, unat (le_reset ?e))]"]) (simp add: G(1) entry_nats_def)
  qed
  have "\<forall>k. key_windows (unat now) (log @ [(now, key, \<not> ?full)]) ?l k"
  proof
    show "key_windows (unat now) (log @ [(now, key, \<not> ?full)]) ?l k" for k
      by (cases "k = key") (use this_key ok in \<open>simp_all add: limits_ok_def key_windows_def\<close>)
  qed
  moreover have "rejections_ok (lm_window l) (lm_max l) (log @ [(now, key, \<not> ?full)])"
  proof (rule rejections_ok_append)
    show "unat (lm_max l) \<le> length (filter (\<lambda>s. unat now < s + unat (lm_window l)) (admitted key log))" if "\<not> \<not> ?full"
      using windows_ok_rejected [OF G(3,2)] that G(1) by (simp add: word_le_nat_alt)
  qed (use ok in \<open>simp add: limits_ok_def\<close>)
  ultimately show ?thesis
    unfolding step limits_ok_def using ok by (simp add: limits_ok_def distinct_hm_insert del: if_split cong: if_cong)
qed

lemma limits_ok_cleanup:
  assumes "limits_ok (unat now) (log, l)"
  shows "limits_ok (unat now) (limit_step (Cleanup_At now) (log, l))"
proof -
  have "key_windows (unat now) log (cleanup_limits now l) k" for k
  proof -
    obtain G where G: "map fst G = admitted k log" and w: "windows_ok (unat (lm_max l)) (unat (lm_window l)) (unat now) G
        (map_option entry_nats (map_of (lm_entries l) k))"
      using assms unfolding limits_ok_def key_windows_def by auto
    have "map_of (lm_entries (cleanup_limits now l)) k
        = (case map_of (lm_entries l) k of None \<Rightarrow> None | Some e \<Rightarrow> if now < le_reset e then Some e else None)"
      using assms by (simp add: limits_ok_def cleanup_limits_def map_of_hm_retain)
    with w G show ?thesis
      unfolding key_windows_def
      by (intro exI [of _ G], cases "map_of (lm_entries l) k")
        (auto simp: cleanup_limits_def entry_nats_def not_less word_le_nat_alt elim: windows_ok_drop)
  qed
  with assms show ?thesis
    by (auto simp: limits_ok_def cleanup_limits_def intro: distinct_hm_retain)
qed

lemma limit_step_params [simp]:
  "lm_max (snd (limit_step e s)) = lm_max (snd s)" "lm_window (snd (limit_step e s)) = lm_window (snd s)"
  by (cases e; cases s; auto simp: check_and_increment_def cleanup_limits_def Let_def)+

lemma run_limits_snoc: "run_limits (es @ [e]) l = limit_step e (run_limits es l)"
  by (simp add: run_limits_def)

lemma run_limits_params [simp]:
  "lm_max (snd (run_limits es l)) = lm_max l" "lm_window (snd (run_limits es l)) = lm_window l"
  by (induction es rule: rev_induct) (simp_all add: run_limits_snoc, simp_all add: run_limits_def)

lemma limits_ok_run:
  assumes "0 < w" and "sorted (map event_time es)" and "list_all (\<lambda>e. fits e w) es"
  shows "limits_ok (if es = [] then 0 else unat (event_time (last es))) (run_limits es (new_limiter m w))"
  using assms(2,3)
proof (induction es rule: rev_induct)
  case Nil
  show ?case
    by (simp add: run_limits_def limits_ok_def key_windows_def new_limiter_def rejections_ok_def)
next
  case (snoc e es)
  obtain log l where l: "run_limits es (new_limiter m w) = (log, l)"
    by fastforce
  then have p: "lm_window l = w"
    using run_limits_params(2) [of es "new_limiter m w"] by (simp add: new_limiter_def)
  have so: "sorted (map event_time es)" and fi: "list_all (\<lambda>e. fits e w) es"
    and last: "es \<noteq> [] \<Longrightarrow> event_time (last es) \<le> event_time e"
    using snoc.prems by (simp_all add: sorted_append)
  have "(if es = [] then 0 else unat (event_time (last es))) \<le> unat (event_time e)"
    using last by (auto simp: word_le_nat_alt)
  with snoc.IH [OF so fi] have "limits_ok (unat (event_time e)) (log, l)"
    unfolding l limits_ok_def by (auto intro: key_windows_later)
  moreover have "0 < unat (lm_window l)"
    using assms(1) by (simp add: p word_neq_0_conv unat_gt_0)
  moreover have "unat (event_time e) + unat (lm_window l) < 2 ^ 64"
    using snoc.prems(2) by (simp add: p fits_def)
  ultimately have "limits_ok (unat (event_time e)) (limit_step e (log, l))"
    by (cases e) (simp_all only: limit_event.sel limits_ok_request limits_ok_cleanup)
  then show ?case
    by (simp add: run_limits_snoc l)
qed

lemma run_interval_bound:
  assumes "limits_ok now s"
  shows "length (filter (\<lambda>t. a \<le> t \<and> t < a + unat (lm_window (snd s))) (admitted k (fst s))) \<le> 2 * unat (lm_max (snd s))"
proof -
  obtain G where "map fst G = admitted k (fst s)" and "windows_ok (unat (lm_max (snd s))) (unat (lm_window (snd s))) now G
      (map_option entry_nats (map_of (lm_entries (snd s)) k))"
    using assms unfolding limits_ok_def key_windows_def by blast
  with windows_ok_interval [OF this(2)] show ?thesis by simp
qed

end
