(* ===== verification/Auth_Token.thy ===== *)
theory Auth_Token
  imports Rate_Limit
begin

text \<open>
  The tokens of \<open>aionui-auth\<close>: \<open>JwtService\<close> (\<open>jwt.rs\<close>), which signs and verifies session tokens, keeps
  the revoked ones in a blacklist and rotates its secret, and \<open>QrTokenStore\<close> (\<open>qr_token.rs\<close>). The crate
  \<open>jsonwebtoken\<close> and SHA-256 are the record \<open>jwt_lib\<close>, what they promise is \<open>jwt_ok\<close>. Times are \<open>u64\<close>
  seconds; random bytes and the clock, which may be before the epoch, are arguments. A panic of a
  thread that holds the secret poisons it.
\<close>

section \<open>Hexadecimal\<close>

definition hex_digit :: "nat \<Rightarrow> char" where
  "hex_digit d = ''0123456789abcdef'' ! d"

definition hex_bytes :: "8 word list \<Rightarrow> string" where
  "hex_bytes bs = concat (map (\<lambda>b. [hex_digit (unat b div 16), hex_digit (unat b mod 16)]) bs)"

section \<open>\<open>JwtService\<close>\<close>

record token_payload =
  tp_user :: string
  tp_name :: string
  tp_iat :: "64 word"
  tp_exp :: "64 word"
  tp_iss :: string
  tp_aud :: string

datatype jwt_error = Expired_Signature | Jwt_Error string

text \<open>\<open>jl_decode\<close> takes the secret, \<open>validate_exp\<close>, the issuer and the audience, and the time.\<close>

record jwt_lib =
  jl_encode :: "string \<Rightarrow> token_payload \<Rightarrow> string + string"
  jl_decode :: "string \<Rightarrow> bool \<Rightarrow> string \<Rightarrow> string \<Rightarrow> 64 word \<Rightarrow> string \<Rightarrow> jwt_error + token_payload"
  jl_sha256 :: "string \<Rightarrow> 8 word list"

record jwt_service =
  jw_secret :: string
  jw_poisoned :: bool
  jw_blacklist :: "(string, 64 word) hmap"

definition new_jwt :: "string \<Rightarrow> jwt_service" where
  "new_jwt secret = \<lparr>jw_secret = secret, jw_poisoned = False, jw_blacklist = []\<rparr>"

definition token_expiry :: "64 word" where "token_expiry = 24 * 60 * 60"
definition jwt_issuer :: string where "jwt_issuer = ''aionui''"
definition jwt_audience :: string where "jwt_audience = ''aionui-webui''"

definition now_secs :: "64 word option \<Rightarrow> auth_error + 64 word" where
  "now_secs clock = ok_or (Token_Invalid ''System clock error: second time provided was later than self'') clock"

definition lock_error :: auth_error where
  "lock_error = Token_Invalid ''Secret lock poisoned: poisoned lock: another task failed inside''"

definition token_hash :: "jwt_lib \<Rightarrow> string \<Rightarrow> string" where
  "token_hash L tok = hex_bytes (jl_sha256 L tok)"

definition session_claims :: "string \<Rightarrow> string \<Rightarrow> 64 word \<Rightarrow> token_payload" where
  "session_claims user name now = \<lparr>tp_user = user, tp_name = name, tp_iat = now, tp_exp = now + token_expiry,
     tp_iss = jwt_issuer, tp_aud = jwt_audience\<rparr>"

definition sign :: "jwt_lib \<Rightarrow> 64 word option \<Rightarrow> string \<Rightarrow> string \<Rightarrow> jwt_service \<Rightarrow> auth_error + string" where
  "sign L clock user name s = and_then (now_secs clock) (\<lambda>now.
     if jw_poisoned s then Inl lock_error
     else map_err (\<lambda>e. Token_Invalid (''JWT encoding failed: '' @ e))
       (jl_encode L (jw_secret s) (session_claims user name now)))"

fun decode_failed :: "jwt_error \<Rightarrow> auth_error" where
  "decode_failed Expired_Signature = Token_Expired"
| "decode_failed (Jwt_Error e) = Token_Invalid (''JWT verification failed: '' @ e)"

text \<open>\<open>verify\<close> looks into the blacklist first and takes the lock of the secret afterwards.\<close>

definition verify_check :: "jwt_lib \<Rightarrow> string \<Rightarrow> jwt_service \<Rightarrow> auth_error + unit" where
  "verify_check L tok s =
     (if map_of (jw_blacklist s) (token_hash L tok) \<noteq> None then Inl Token_Blacklisted else Inr ())"

definition verify_decode :: "jwt_lib \<Rightarrow> 64 word \<Rightarrow> string \<Rightarrow> jwt_service \<Rightarrow> auth_error + token_payload" where
  "verify_decode L now tok s =
     (if jw_poisoned s then Inl lock_error
      else map_err decode_failed (jl_decode L (jw_secret s) True jwt_issuer jwt_audience now tok))"

definition verify :: "jwt_lib \<Rightarrow> 64 word \<Rightarrow> string \<Rightarrow> jwt_service \<Rightarrow> auth_error + token_payload" where
  "verify L now tok s = and_then (verify_check L tok s) (\<lambda>_. verify_decode L now tok s)"

definition extract_expiry :: "jwt_lib \<Rightarrow> 64 word \<Rightarrow> string \<Rightarrow> jwt_service \<Rightarrow> 64 word option" where
  "extract_expiry L now tok s =
     (if jw_poisoned s then None
      else (case jl_decode L (jw_secret s) False jwt_issuer jwt_audience now tok of
          Inl _ \<Rightarrow> None
        | Inr c \<Rightarrow> Some (tp_exp c)))"

fun clock_or_zero :: "64 word option \<Rightarrow> 64 word" where
  "clock_or_zero None = 0"
| "clock_or_zero (Some t) = t"

definition blacklist_token :: "jwt_lib \<Rightarrow> 64 word option \<Rightarrow> string \<Rightarrow> jwt_service \<Rightarrow> jwt_service" where
  "blacklist_token L clock tok s =
     (let exp = (case extract_expiry L (clock_or_zero clock) tok s of
          Some e \<Rightarrow> e
        | None \<Rightarrow> clock_or_zero clock + token_expiry)
      in s\<lparr>jw_blacklist := hm_insert (token_hash L tok) exp (jw_blacklist s)\<rparr>)"

definition rotate_secret :: "string \<Rightarrow> jwt_service \<Rightarrow> (auth_error + string) \<times> jwt_service" where
  "rotate_secret new s =
     (if jw_poisoned s then (Inl lock_error, s) else (Inr new, s\<lparr>jw_secret := new, jw_blacklist := []\<rparr>))"

definition cleanup_blacklist :: "64 word option \<Rightarrow> jwt_service \<Rightarrow> jwt_service" where
  "cleanup_blacklist clock s = s\<lparr>jw_blacklist := hm_retain (\<lambda>e. e > clock_or_zero clock) (jw_blacklist s)\<rparr>"

text \<open>The secret at start-up; the flag says that it is the newly generated one.\<close>

definition resolve_jwt_secret :: "string option \<Rightarrow> string option \<Rightarrow> string \<Rightarrow> string \<times> bool" where
  "resolve_jwt_secret env db generated =
     (case env of Some s \<Rightarrow> (s, False)
      | None \<Rightarrow> (case db of Some s \<Rightarrow> (s, False) | None \<Rightarrow> (generated, True)))"

text \<open>
  What the crates promise: a signed token is read back by its secret alone (a signature of another
  secret is rejected), with the claims it was signed for; it is accepted until it expires, and with
  \<open>validate_exp\<close> off at any time.
\<close>

definition jwt_ok :: "jwt_lib \<Rightarrow> bool" where
  "jwt_ok L \<longleftrightarrow> (\<forall>k c t. jl_encode L k c = Inr t \<longrightarrow>
     (\<forall>k' v now i a. k' \<noteq> k \<longrightarrow> is_err (jl_decode L k' v i a now t))
   \<and> (\<forall>v now i a c'. jl_decode L k v i a now t = Inr c' \<longrightarrow> c' = c)
   \<and> (\<forall>v now. v = False \<or> now \<le> tp_exp c \<longrightarrow> jl_decode L k v (tp_iss c) (tp_aud c) now t = Inr c))"

lemma jwt_okD:
  assumes "jwt_ok L" and "jl_encode L k c = Inr t"
  shows "jl_decode L k' v i a now t = Inr c' \<Longrightarrow> k' = k \<and> c' = c"
    and "jl_decode L k False (tp_iss c) (tp_aud c) now t = Inr c"
    and "now \<le> tp_exp c \<Longrightarrow> jl_decode L k v (tp_iss c) (tp_aud c) now t = Inr c"
  using assms unfolding jwt_ok_def by (metis is_err.simps(2))+

section \<open>\<open>QrTokenStore\<close>\<close>

record qr_token =
  qr_created :: int
  qr_used :: bool

type_synonym qr_store = "(string, qr_token) hmap"

definition qr_token_ttl :: int where "qr_token_ttl = 5 * 60 * 1000"

text \<open>\<open>generate_with_expiry\<close> with the 32 random bytes; the sum is of \<open>i64\<close>.\<close>

definition generate_with_expiry :: "int \<Rightarrow> 8 word list \<Rightarrow> qr_store \<Rightarrow> (string \<times> int rust) \<times> qr_store" where
  "generate_with_expiry now bytes s =
     (let tok = hex_bytes bytes
      in ((tok, i64_or_panic (now + qr_token_ttl)), hm_insert tok \<lparr>qr_created = now, qr_used = False\<rparr> s))"

definition qr_expired :: "int \<Rightarrow> qr_token \<Rightarrow> bool" where
  "qr_expired now d \<longleftrightarrow> i64_saturating (now - qr_created d) > qr_token_ttl"

definition validate_and_consume :: "int \<Rightarrow> string \<Rightarrow> qr_store \<Rightarrow> (auth_error + unit) \<times> qr_store" where
  "validate_and_consume now tok s = (case map_of s tok of
     None \<Rightarrow> (Inl (Token_Invalid ''Invalid QR token''), s)
   | Some d \<Rightarrow>
       if qr_used d then (Inl (Token_Invalid ''QR token already used''), s)
       else if qr_expired now d then (Inl (Token_Invalid ''QR token expired''), s)
       else (Inr (), hm_modify tok (\<lambda>d. d\<lparr>qr_used := True\<rparr>) s))"

definition cleanup_qr :: "int \<Rightarrow> qr_store \<Rightarrow> qr_store" where
  "cleanup_qr now s = hm_retain (\<lambda>d. \<not> qr_expired now d) s"

end
