(* ===== verification/Auth_World.thy ===== *)
theory Auth_World
  imports Auth_Token
begin

text \<open>
  The requests that share a \<open>JwtService\<close> and a \<open>QrTokenStore\<close>, interleaved. For the proofs a world
  also remembers the tokens it has signed, with their secret and claims, the secrets used and the
  tokens logged out since the secret was last rotated and all tokens seen. The clock of the server never goes back.
\<close>

section \<open>Session tokens\<close>

record jwt_world =
  ww_jwt :: jwt_service
  ww_now :: "64 word"
  ww_issued :: "(string \<times> string \<times> token_payload) set"
  ww_secrets :: "string set"
  ww_logged_out :: "string set"
  ww_seen :: "string set"

definition new_jwt_world :: "string \<Rightarrow> 64 word \<Rightarrow> jwt_world" where
  "new_jwt_world secret now = \<lparr>ww_jwt = new_jwt secret, ww_now = now, ww_issued = {}, ww_secrets = {secret},
     ww_logged_out = {}, ww_seen = {}\<rparr>"

inductive jwt_step :: "jwt_lib \<Rightarrow> jwt_world \<Rightarrow> jwt_world \<Rightarrow> bool" for L where
  sign_in: "sign L (Some (ww_now w)) user name (ww_jwt w) = Inr tok \<Longrightarrow>
    jwt_step L w (w\<lparr>ww_issued := insert (tok, jw_secret (ww_jwt w), session_claims user name (ww_now w)) (ww_issued w),
      ww_seen := insert tok (ww_seen w)\<rparr>)"
| log_out: "jwt_step L w (w\<lparr>ww_jwt := blacklist_token L (Some (ww_now w)) tok (ww_jwt w),
    ww_logged_out := insert tok (ww_logged_out w), ww_seen := insert tok (ww_seen w)\<rparr>)"
| rotate: "new \<notin> ww_secrets w \<Longrightarrow> rotate_secret new (ww_jwt w) = (Inr new, j) \<Longrightarrow>
    jwt_step L w (w\<lparr>ww_jwt := j, ww_secrets := insert new (ww_secrets w), ww_logged_out := {}\<rparr>)"
| clean_up: "jwt_step L w (w\<lparr>ww_jwt := cleanup_blacklist (Some (ww_now w)) (ww_jwt w)\<rparr>)"
| tick: "ww_now w \<le> t \<Longrightarrow> jwt_step L w (w\<lparr>ww_now := t\<rparr>)"

inductive jwt_steps :: "jwt_lib \<Rightarrow> jwt_world \<Rightarrow> jwt_world \<Rightarrow> bool" for L where
  none: "jwt_steps L w w"
| more: "jwt_steps L w w' \<Longrightarrow> jwt_step L w' w'' \<Longrightarrow> jwt_steps L w w''"

definition jwt_reachable :: "jwt_lib \<Rightarrow> jwt_world \<Rightarrow> bool" where
  "jwt_reachable L w \<longleftrightarrow> (\<exists>secret now. jwt_steps L (new_jwt_world secret now) w)"

text \<open>A token that is to be rejected: logged out, or signed with an earlier secret.\<close>

definition revoked :: "jwt_world \<Rightarrow> string \<Rightarrow> string \<Rightarrow> bool" where
  "revoked w tok k \<longleftrightarrow> tok \<in> ww_logged_out w \<or> k \<noteq> jw_secret (ww_jwt w)"

text \<open>The hash tells the tokens seen in a world apart.\<close>

definition no_collision :: "jwt_lib \<Rightarrow> jwt_world \<Rightarrow> bool" where
  "no_collision L w \<longleftrightarrow> inj_on (token_hash L) (ww_seen w)"

definition own_claims :: "token_payload \<Rightarrow> bool" where
  "own_claims c \<longleftrightarrow> tp_iss c = jwt_issuer \<and> tp_aud c = jwt_audience"

definition jwt_inv :: "jwt_lib \<Rightarrow> jwt_world \<Rightarrow> bool" where
  "jwt_inv L w \<longleftrightarrow> \<not> jw_poisoned (ww_jwt w) \<and> distinct (hm_keys (jw_blacklist (ww_jwt w)))
   \<and> jw_secret (ww_jwt w) \<in> ww_secrets w
   \<and> (\<forall>(t, k, c)\<in>ww_issued w. jl_encode L k c = Inr t \<and> k \<in> ww_secrets w \<and> own_claims c \<and> t \<in> ww_seen w)
   \<and> ww_logged_out w \<subseteq> ww_seen w
   \<and> (\<forall>t\<in>ww_logged_out w. \<forall>c. own_claims c \<longrightarrow> jl_encode L (jw_secret (ww_jwt w)) c = Inr t \<longrightarrow> ww_now w < tp_exp c
        \<longrightarrow> map_of (jw_blacklist (ww_jwt w)) (token_hash L t) = Some (tp_exp c))
   \<and> (\<forall>h. map_of (jw_blacklist (ww_jwt w)) h \<noteq> None \<longrightarrow> h \<in> token_hash L ` ww_logged_out w)"

lemma jwt_inv_new: "jwt_inv L (new_jwt_world secret now)"
  by (simp add: jwt_inv_def new_jwt_world_def new_jwt_def)

lemma own_session_claims [simp]: "own_claims (session_claims u n t)"
  by (simp add: own_claims_def session_claims_def)

lemma blacklist_entry:
  assumes "jwt_ok L" and "jl_encode L (jw_secret s) c = Inr t" and "own_claims c" and "\<not> jw_poisoned s"
  shows "map_of (jw_blacklist (blacklist_token L clock t s)) (token_hash L t) = Some (tp_exp c)"
  using jwt_okD(2) [OF assms(1,2)] assms(3,4)
  by (simp add: blacklist_token_def extract_expiry_def own_claims_def)

lemma blacklist_other:
  assumes "token_hash L u \<noteq> token_hash L t"
  shows "map_of (jw_blacklist (blacklist_token L clock t s)) (token_hash L u) = map_of (jw_blacklist s) (token_hash L u)"
  using assms by (simp add: blacklist_token_def Let_def)

lemma blacklist_frame [simp]:
  "jw_poisoned (blacklist_token L clock t s) = jw_poisoned s" "jw_secret (blacklist_token L clock t s) = jw_secret s"
  by (simp_all add: blacklist_token_def Let_def)

lemma jwt_inv_log_out:
  assumes L: "jwt_ok L" and inv: "jwt_inv L w" and h: "inj_on (token_hash L) (insert tok (ww_seen w))"
  shows "jwt_inv L (w\<lparr>ww_jwt := blacklist_token L (Some (ww_now w)) tok (ww_jwt w),
    ww_logged_out := insert tok (ww_logged_out w), ww_seen := insert tok (ww_seen w)\<rparr>)"
proof -
  let ?s = "blacklist_token L (Some (ww_now w)) tok (ww_jwt w)"
  have "map_of (jw_blacklist ?s) (token_hash L t) = Some (tp_exp c)"
    if "t = tok \<or> t \<in> ww_logged_out w" "own_claims c" "jl_encode L (jw_secret (ww_jwt w)) c = Inr t" "ww_now w < tp_exp c" for t c
  proof (cases "t = tok")
    case True
    with that inv blacklist_entry [OF L, of "ww_jwt w"] show ?thesis by (simp add: jwt_inv_def)
  next
    case False
    with that(1) inv h have "token_hash L t \<noteq> token_hash L tok"
      unfolding inj_on_def jwt_inv_def by blast
    from blacklist_other [OF this] False that inv show ?thesis by (simp add: jwt_inv_def)
  qed
  moreover have "h \<in> token_hash L ` insert tok (ww_logged_out w)" if "map_of (jw_blacklist ?s) h \<noteq> None" for h
    using that inv by (auto simp: jwt_inv_def blacklist_token_def Let_def split: if_splits)
  moreover have "distinct (hm_keys (jw_blacklist ?s))"
    using inv by (simp add: jwt_inv_def blacklist_token_def Let_def distinct_hm_insert)
  moreover have "\<forall>(t, k, c)\<in>ww_issued w. jl_encode L k c = Inr t \<and> k \<in> ww_secrets w \<and> own_claims c \<and> t \<in> insert tok (ww_seen w)"
    using inv unfolding jwt_inv_def by blast
  moreover have "insert tok (ww_logged_out w) \<subseteq> insert tok (ww_seen w)"
    using inv unfolding jwt_inv_def by blast
  ultimately show ?thesis
    using inv unfolding jwt_inv_def by simp
qed

lemma jwt_inv_clean_up:
  assumes "jwt_inv L w"
  shows "jwt_inv L (w\<lparr>ww_jwt := cleanup_blacklist (Some (ww_now w)) (ww_jwt w)\<rparr>)"
proof -
  let ?b = "jw_blacklist (ww_jwt w)"
  have "distinct (hm_keys ?b)"
    using assms by (simp add: jwt_inv_def)
  note m = map_of_hm_retain [OF this, of "\<lambda>e. ww_now w < e"]
  show ?thesis
    using assms unfolding jwt_inv_def
    by (auto simp: cleanup_blacklist_def m distinct_hm_retain split: option.splits)
qed

lemma jwt_inv_step:
  assumes "jwt_ok L" and "no_collision L w'" and "jwt_inv L w" and "jwt_step L w w'"
  shows "jwt_inv L w'"
  using assms(4)
proof cases
  case (sign_in user name tok)
  then have "jl_encode L (jw_secret (ww_jwt w)) (session_claims user name (ww_now w)) = Inr tok"
    by (auto simp: sign_def now_secs_def split: if_splits)
  with sign_in assms(3) show ?thesis by (auto simp: jwt_inv_def)
next
  case (log_out tok)
  with jwt_inv_log_out [OF assms(1,3)] assms(2) show ?thesis by (simp add: no_collision_def)
next
  case (rotate new j)
  with assms(3) show ?thesis by (auto simp: jwt_inv_def rotate_secret_def split: if_splits)
next
  case clean_up
  with jwt_inv_clean_up [OF assms(3)] show ?thesis by simp
next
  case (tick t)
  with assms(3) show ?thesis
    unfolding jwt_inv_def by (auto dest: order.strict_trans1)
qed

lemma jwt_step_seen: "jwt_step L w w' \<Longrightarrow> ww_seen w \<subseteq> ww_seen w'"
  by (auto elim!: jwt_step.cases)

lemma no_collision_before: "jwt_step L w w' \<Longrightarrow> no_collision L w' \<Longrightarrow> no_collision L w"
  unfolding no_collision_def by (erule inj_on_subset) (rule jwt_step_seen)

lemma jwt_reachable_inv:
  assumes "jwt_ok L" and "jwt_reachable L w" and "no_collision L w"
  shows "jwt_inv L w"
proof -
  obtain k t where "jwt_steps L (new_jwt_world k t) w"
    using assms(2) by (auto simp: jwt_reachable_def)
  then show ?thesis
    using assms(3)
    by (induction "new_jwt_world k t" w rule: jwt_steps.induct)
      (blast intro: jwt_inv_new jwt_inv_step [OF assms(1)] dest: no_collision_before)+
qed

text \<open>What later steps keep: the clock, the issued tokens and that a secret once left never returns.\<close>

lemma jwt_step_keeps:
  assumes "jwt_step L w w'" and "k \<in> ww_secrets w" and "k \<noteq> jw_secret (ww_jwt w)"
  shows "k \<in> ww_secrets w' \<and> k \<noteq> jw_secret (ww_jwt w')"
  using assms by cases (auto simp: cleanup_blacklist_def rotate_secret_def split: if_splits)

lemma jwt_steps_keep:
  assumes "jwt_steps L w w'" and "k \<in> ww_secrets w" and "k \<noteq> jw_secret (ww_jwt w)"
  shows "k \<in> ww_secrets w' \<and> k \<noteq> jw_secret (ww_jwt w')"
  using assms by induction (auto dest: jwt_step_keeps)

lemma jwt_steps_clock: "jwt_steps L w w' \<Longrightarrow> ww_now w \<le> ww_now w'"
  by (induction rule: jwt_steps.induct) (auto elim!: jwt_step.cases intro: order.trans)

text \<open>A verification that begins after the revocation fails while the token has not expired.\<close>

lemma revoked_token_rejected:
  assumes L: "jwt_ok L" and w: "jwt_reachable L w" "no_collision L w" and t: "(tok, k, c) \<in> ww_issued w" "revoked w tok k"
    and later: "jwt_steps L w w'" and ok: "verify_check L tok (ww_jwt w) = Inr ()"
      "verify_decode L (ww_now w') tok (ww_jwt w') = Inr c'"
  shows "c' = c \<and> tp_exp c \<le> ww_now w'"
proof -
  have inv: "jwt_inv L w"
    using L w by (rule jwt_reachable_inv)
  then have e: "jl_encode L k c = Inr tok" "own_claims c" "k \<in> ww_secrets w"
    using t(1) unfolding jwt_inv_def by auto
  have d: "jw_secret (ww_jwt w') = k \<and> c' = c"
    using jwt_okD(1) [OF L e(1)] ok(2) by (auto simp: verify_decode_def split: if_splits)
  then have s: "k = jw_secret (ww_jwt w)"
    using jwt_steps_keep [OF later e(3)] by blast
  then have "\<not> ww_now w < tp_exp c"
    using inv t(2) e ok(1) unfolding jwt_inv_def revoked_def by (auto simp: verify_check_def)
  with d jwt_steps_clock [OF later] show ?thesis
    by (metis not_less order.trans)
qed

text \<open>Every other token is accepted until it expires, and gives the claims it was signed for.\<close>

lemma live_token_accepted:
  assumes L: "jwt_ok L" and w: "jwt_reachable L w" "no_collision L w" and t: "(tok, k, c) \<in> ww_issued w" "\<not> revoked w tok k"
    and exp: "ww_now w \<le> tp_exp c"
  shows "verify L (ww_now w) tok (ww_jwt w) = Inr c"
proof -
  have inv: "jwt_inv L w"
    using L w by (rule jwt_reachable_inv)
  then have e: "jl_encode L k c = Inr tok" "own_claims c" "\<not> jw_poisoned (ww_jwt w)"
    using t(1) unfolding jwt_inv_def by auto
  have "map_of (jw_blacklist (ww_jwt w)) (token_hash L tok) = None"
  proof (rule ccontr)
    assume "map_of (jw_blacklist (ww_jwt w)) (token_hash L tok) \<noteq> None"
    with inv have "token_hash L tok \<in> token_hash L ` ww_logged_out w"
      unfolding jwt_inv_def by blast
    with w(2) inv t(1) have "tok \<in> ww_logged_out w"
      unfolding no_collision_def jwt_inv_def inj_on_def by blast
    with t(2) show False by (simp add: revoked_def)
  qed
  with e t(2) jwt_okD(3) [OF L e(1) exp, of True] show ?thesis
    by (simp add: verify_def verify_check_def verify_decode_def revoked_def own_claims_def)
qed


section \<open>QR tokens\<close>

datatype qr_event = Qr_Generate int "8 word list" | Qr_Consume int string | Qr_Cleanup int

text \<open>The log holds the accepted tokens with the times they were accepted.\<close>

fun qr_step :: "qr_event \<Rightarrow> (string \<times> int) list \<times> qr_store \<Rightarrow> (string \<times> int) list \<times> qr_store" where
  "qr_step (Qr_Generate now bs) (log, s) = (log, snd (generate_with_expiry now bs s))"
| "qr_step (Qr_Consume now tok) (log, s) = (case validate_and_consume now tok s of
     (r, s') \<Rightarrow> (if r = Inr () then log @ [(tok, now)] else log, s'))"
| "qr_step (Qr_Cleanup now) (log, s) = (log, cleanup_qr now s)"

definition run_qr :: "qr_event list \<Rightarrow> (string \<times> int) list \<times> qr_store" where
  "run_qr es = fold qr_step es ([], [])"

fun generated :: "qr_event list \<Rightarrow> (string \<times> int) list" where
  "generated [] = []"
| "generated (Qr_Generate now bs # es) = (hex_bytes bs, now) # generated es"
| "generated (_ # es) = generated es"

lemma generated_append [simp]: "generated (es @ es') = generated es @ generated es'"
  by (induction es rule: generated.induct) simp_all

lemma run_qr_snoc: "run_qr (es @ [e]) = qr_step e (run_qr es)"
  by (simp add: run_qr_def)

lemma qr_expired_iff: "qr_expired now d \<longleftrightarrow> now - qr_created d > qr_token_ttl"
  by (auto simp: qr_expired_def i64_saturating_def qr_token_ttl_def i64_max_def i64_min_def)

definition qr_ok :: "(string \<times> int) list \<Rightarrow> (string \<times> int) list \<times> qr_store \<Rightarrow> bool" where
  "qr_ok G s \<longleftrightarrow> distinct (hm_keys (snd s)) \<and> distinct (map fst (fst s))
   \<and> (\<forall>tok d. map_of (snd s) tok = Some d \<longrightarrow> (tok, qr_created d) \<in> set G)
   \<and> (\<forall>(tok, t)\<in>set (fst s). (\<exists>g. (tok, g) \<in> set G \<and> t - g \<le> qr_token_ttl)
        \<and> (\<forall>d. map_of (snd s) tok = Some d \<longrightarrow> qr_used d))"

lemma qr_okI:
  assumes "distinct (hm_keys s)" and "distinct (map fst log)"
    and "\<And>tok d. map_of s tok = Some d \<Longrightarrow> (tok, qr_created d) \<in> set G"
    and "\<And>tok t. (tok, t) \<in> set log \<Longrightarrow> \<exists>g. (tok, g) \<in> set G \<and> t - g \<le> qr_token_ttl"
    and "\<And>tok t d. (tok, t) \<in> set log \<Longrightarrow> map_of s tok = Some d \<Longrightarrow> qr_used d"
  shows "qr_ok G (log, s)"
  using assms unfolding qr_ok_def by auto

lemma qr_okD:
  assumes "qr_ok G (log, s)"
  shows "distinct (hm_keys s)" and "distinct (map fst log)"
    and "map_of s tok = Some d \<Longrightarrow> (tok, qr_created d) \<in> set G"
    and "(tok, t) \<in> set log \<Longrightarrow> \<exists>g. (tok, g) \<in> set G \<and> t - g \<le> qr_token_ttl"
    and "(tok, t) \<in> set log \<Longrightarrow> map_of s tok = Some d \<Longrightarrow> qr_used d"
  using assms unfolding qr_ok_def by auto

lemma qr_ok_generate:
  assumes "qr_ok G (log, s)" and "hex_bytes bs \<notin> fst ` set G"
  shows "qr_ok (G @ [(hex_bytes bs, now)]) (qr_step (Qr_Generate now bs) (log, s))"
proof -
  note D = qr_okD [OF assms(1)]
  have new: "tok \<noteq> hex_bytes bs" if "(tok, t) \<in> set log" for tok t
    using D(4) [OF that] assms(2) by force
  show ?thesis
    unfolding qr_step.simps generate_with_expiry_def Let_def snd_conv
  proof (rule qr_okI)
    show "(tok, qr_created d) \<in> set (G @ [(hex_bytes bs, now)])"
      if "map_of (hm_insert (hex_bytes bs) \<lparr>qr_created = now, qr_used = False\<rparr> s) tok = Some d" for tok d
      using that D(3) by (auto split: if_splits)
    show "qr_used d" if "(tok, t) \<in> set log"
      "map_of (hm_insert (hex_bytes bs) \<lparr>qr_created = now, qr_used = False\<rparr> s) tok = Some d" for tok t d
      using that(2) D(5) [OF that(1)] new [OF that(1)] by simp
    show "\<exists>g. (tok, g) \<in> set (G @ [(hex_bytes bs, now)]) \<and> t - g \<le> qr_token_ttl" if "(tok, t) \<in> set log" for tok t
      using D(4) [OF that] by auto
  qed (use D(1,2) in \<open>auto intro: distinct_hm_insert\<close>)
qed

lemma validate_and_consume_ok:
  assumes "fst (validate_and_consume now tok s) = Inr ()"
  obtains d where "map_of s tok = Some d" and "\<not> qr_used d" and "now - qr_created d \<le> qr_token_ttl"
    and "validate_and_consume now tok s = (Inr (), hm_modify tok (\<lambda>d. d\<lparr>qr_used := True\<rparr>) s)"
  using assms by (auto simp: validate_and_consume_def qr_expired_iff split: option.splits if_splits)

lemma validate_and_consume_err:
  "fst (validate_and_consume now tok s) \<noteq> Inr () \<Longrightarrow> snd (validate_and_consume now tok s) = s"
  by (auto simp: validate_and_consume_def split: option.splits if_splits)

lemma qr_ok_consume:
  assumes "qr_ok G (log, s)"
  shows "qr_ok G (qr_step (Qr_Consume now tok) (log, s))"
proof (cases "fst (validate_and_consume now tok s) = Inr ()")
  case False
  then show ?thesis
    using assms validate_and_consume_err [OF False] by (simp add: split_beta)
next
  case True
  note D = qr_okD [OF assms]
  obtain d where d: "map_of s tok = Some d" "\<not> qr_used d" "now - qr_created d \<le> qr_token_ttl"
    "validate_and_consume now tok s = (Inr (), hm_modify tok (\<lambda>d. d\<lparr>qr_used := True\<rparr>) s)"
    using True by (rule validate_and_consume_ok)
  have new: "tok \<notin> fst ` set log"
    using D(5) d(1,2) by auto
  show ?thesis
    unfolding qr_step.simps d(4) prod.case if_P [OF refl]
  proof (rule qr_okI)
    show "(u, qr_created e) \<in> set G" if "map_of (hm_modify tok (\<lambda>d. d\<lparr>qr_used := True\<rparr>) s) u = Some e" for u e
      using that D(3) by (auto split: if_splits)
    show "\<exists>g. (u, g) \<in> set G \<and> t - g \<le> qr_token_ttl" if "(u, t) \<in> set (log @ [(tok, now)])" for u t
      using that D(4) D(3) [OF d(1)] d(3) by auto
    show "qr_used e" if "(u, t) \<in> set (log @ [(tok, now)])" "map_of (hm_modify tok (\<lambda>d. d\<lparr>qr_used := True\<rparr>) s) u = Some e" for u t e
      using that D(5) by (auto split: if_splits)
  qed (use D(1,2) new in auto)
qed

lemma qr_ok_cleanup:
  assumes "qr_ok G (log, s)"
  shows "qr_ok G (qr_step (Qr_Cleanup now) (log, s))"
proof -
  note D = qr_okD [OF assms]
  have "map_of (cleanup_qr now s) tok = Some d \<Longrightarrow> map_of s tok = Some d" for tok d
    using D(1) by (auto simp: cleanup_qr_def map_of_hm_retain split: option.splits if_splits)
  note old = this
  show ?thesis
    unfolding qr_step.simps
  proof (rule qr_okI)
    show "distinct (hm_keys (cleanup_qr now s))"
      using D(1) unfolding cleanup_qr_def by (rule distinct_hm_retain)
  qed (use D old in blast)+
qed

lemma qr_ok_run: "distinct (map fst (generated es)) \<Longrightarrow> qr_ok (generated es) (run_qr es)"
proof (induction es rule: rev_induct)
  case Nil
  show ?case by (simp add: run_qr_def qr_ok_def)
next
  case (snoc e es)
  obtain log s where s: "run_qr es = (log, s)" by fastforce
  with snoc have "qr_ok (generated es) (log, s)" by simp
  with snoc.prems show ?case
    by (cases e) (simp_all only: run_qr_snoc s generated_append generated.simps append_Nil2 qr_ok_consume qr_ok_cleanup,
        simp add: qr_ok_generate del: qr_step.simps)
qed

text \<open>A token that has been generated waits, unused, for its first use.\<close>

fun spares :: "string \<Rightarrow> int \<Rightarrow> qr_event \<Rightarrow> bool" where
  "spares tok g (Qr_Generate _ bs) \<longleftrightarrow> hex_bytes bs \<noteq> tok"
| "spares tok g (Qr_Consume _ t) \<longleftrightarrow> t \<noteq> tok"
| "spares tok g (Qr_Cleanup now) \<longleftrightarrow> now - g \<le> qr_token_ttl"

lemma qr_step_spares:
  assumes "spares tok g e" and "map_of s tok = Some \<lparr>qr_created = g, qr_used = False\<rparr>" and "distinct (hm_keys s)"
  shows "map_of (snd (qr_step e (log, s))) tok = Some \<lparr>qr_created = g, qr_used = False\<rparr>
    \<and> distinct (hm_keys (snd (qr_step e (log, s))))"
proof (cases e)
  case (Qr_Generate now bs)
  with assms show ?thesis by (simp add: generate_with_expiry_def Let_def distinct_hm_insert)
next
  case (Qr_Consume now t)
  with assms have "map_of (snd (validate_and_consume now t s)) tok = map_of s tok"
    "hm_keys (snd (validate_and_consume now t s)) = hm_keys s"
    by (simp_all add: validate_and_consume_def split: option.split)
  with Qr_Consume assms show ?thesis by (simp add: split_beta)
next
  case (Qr_Cleanup now)
  with assms show ?thesis
    by (simp add: cleanup_qr_def distinct_hm_retain map_of_hm_retain qr_expired_iff)
qed

lemma qr_run_spares:
  assumes "\<forall>e\<in>set es. spares tok g e" and "map_of (snd st) tok = Some \<lparr>qr_created = g, qr_used = False\<rparr>"
    and "distinct (hm_keys (snd st))"
  shows "map_of (snd (fold qr_step es st)) tok = Some \<lparr>qr_created = g, qr_used = False\<rparr>"
  using assms
proof (induction es arbitrary: st)
  case (Cons e es)
  then show ?case
    using qr_step_spares [of tok g e "snd st" "fst st"] by simp
qed simp

lemma qr_first_use_accepted:
  assumes "\<forall>e\<in>set es'. spares (hex_bytes bs) g e" and "distinct (map fst (generated es))" and "t - g \<le> qr_token_ttl"
  shows "fst (validate_and_consume t (hex_bytes bs) (snd (run_qr (es @ Qr_Generate g bs # es')))) = Inr ()"
proof -
  obtain log s where s: "run_qr es = (log, s)" by fastforce
  then have "distinct (hm_keys s)"
    using qr_ok_run [OF assms(2)] by (simp add: qr_ok_def)
  then have "map_of (snd (fold qr_step es' (qr_step (Qr_Generate g bs) (log, s)))) (hex_bytes bs)
      = Some \<lparr>qr_created = g, qr_used = False\<rparr>"
    by (intro qr_run_spares [OF assms(1)]) (simp_all add: generate_with_expiry_def Let_def distinct_hm_insert)
  moreover have "run_qr (es @ Qr_Generate g bs # es') = fold qr_step es' (qr_step (Qr_Generate g bs) (log, s))"
    using s by (simp add: run_qr_def)
  ultimately show ?thesis
    using assms(3) by (simp add: validate_and_consume_def qr_expired_iff)
qed

end
