(* ===== verification/Auth_Service.thy ===== *)
theory Auth_Service
  imports User_Store Auth_World
begin

text \<open>
  The handlers of \<open>aionui-auth/src/routes.rs\<close>, the authentication middleware (\<open>middleware.rs\<close>), the session
  cookie (\<open>cookie.rs\<close>) and the secret a server starts with (\<open>AppServices::from_config\<close>,
  \<open>aionui-app/src/services.rs\<close>). The crates \<open>jsonwebtoken\<close> and \<open>bcrypt\<close>, the repository and the client's
  request are arguments; a blocking task that fails to join gives its text on the left. The clock of a
  handler is a \<open>moment\<close>, after the epoch. A body that could not be parsed is its error. The dummy hash
  that is verified for an unknown user only takes time and is left out.
\<close>

section \<open>Environment and state\<close>

record 'db auth_env =
  ae_jwt :: jwt_lib
  ae_users :: "'db user_repo"
  ae_verify :: "string \<Rightarrow> string \<Rightarrow> string + (string + bool)"
  ae_hash :: "string \<Rightarrow> string + (string + string)"
  ae_https :: bool
  ae_local :: bool

record 'db auth_state =
  as_jwt :: jwt_service
  as_qr :: qr_store
  as_users :: 'db

record moment =
  mo_secs :: "64 word"
  mo_ms :: int

fun db_error_text :: "db_error \<Rightarrow> string" where
  "db_error_text (Db_Query e) = ''Database query failed: '' @ e"
| "db_error_text (Db_Migration e) = ''Migration failed: '' @ e"
| "db_error_text (Db_Not_Found m) = ''Record not found: '' @ m"
| "db_error_text (Db_Conflict m) = ''Duplicate record: '' @ m"
| "db_error_text (Db_Init m) = ''Database initialization failed: '' @ m"

definition database_error :: "db_error \<Rightarrow> api_error" where
  "database_error e = Api_Internal (''Database error: '' @ db_error_text e)"

fun auth_db_error :: "db_error \<Rightarrow> api_error" where
  "auth_db_error (Db_Not_Found m) = Api_Not_Found m"
| "auth_db_error (Db_Conflict m) = Api_Conflict m"
| "auth_db_error (Db_Query e) = Api_Internal (''Database error: '' @ e)"
| "auth_db_error (Db_Migration e) = Api_Internal (''Migration error: '' @ e)"
| "auth_db_error (Db_Init m) = Api_Internal (''Database init error: '' @ m)"

fun auth_error_text :: "auth_error \<Rightarrow> string" where
  "auth_error_text Invalid_Credentials = ''Invalid credentials''"
| "auth_error_text (Weak_Password m) = ''Password validation failed: '' @ m"
| "auth_error_text (Invalid_Username m) = ''Username validation failed: '' @ m"
| "auth_error_text Token_Expired = ''Token expired''"
| "auth_error_text (Token_Invalid m) = ''Token invalid: '' @ m"
| "auth_error_text Token_Blacklisted = ''Token blacklisted''"
| "auth_error_text Rate_Limited = ''Rate limit exceeded''"
| "auth_error_text (Hash_Error m) = ''Password hash error: '' @ m"

definition verify_password_timed :: "'db auth_env \<Rightarrow> string \<Rightarrow> string \<Rightarrow> auth_error + bool" where
  "verify_password_timed E pw h = (case ae_verify E pw h of
     Inl j \<Rightarrow> Inl (Hash_Error (''Task join error: '' @ j))
   | Inr (Inl e) \<Rightarrow> Inl (Hash_Error e)
   | Inr (Inr b) \<Rightarrow> Inr b)"

definition hash_password :: "'db auth_env \<Rightarrow> string \<Rightarrow> api_error + string" where
  "hash_password E pw = (case ae_hash E pw of
     Inl j \<Rightarrow> Inl (Api_Internal (''Task join error: '' @ j))
   | Inr (Inl e) \<Rightarrow> Inl (api_from_auth_error (Hash_Error e))
   | Inr (Inr h) \<Rightarrow> Inr h)"

section \<open>Cookies\<close>

definition cookie_flags :: "bool \<Rightarrow> string" where
  "cookie_flags https = (if https then ''Strict; Secure'' else ''Lax'')"

definition build_session_cookie :: "bool \<Rightarrow> string \<Rightarrow> string" where
  "build_session_cookie https tok =
     cookie_name @ ''='' @ tok @ ''; Path=/; HttpOnly; SameSite='' @ cookie_flags https @ ''; Max-Age=2592000''"

definition clear_session_cookie :: "bool \<Rightarrow> string" where
  "clear_session_cookie https =
     cookie_name @ ''=; Path=/; HttpOnly; SameSite='' @ cookie_flags https @ ''; Max-Age=0''"

definition csrf_cookie_name :: string where "csrf_cookie_name = ''aionui-csrf-token''"

definition build_csrf_cookie :: "bool \<Rightarrow> string \<Rightarrow> string" where
  "build_csrf_cookie https tok =
     csrf_cookie_name @ ''='' @ tok @ ''; Path=/; SameSite='' @ cookie_flags https @ ''; Max-Age=2592000''"

text \<open>\<open>csrf_middleware\<close> (\<open>csrf.rs\<close>): a request that changes state repeats the token of the cookie in a header; the
  response sets the cookie when the client has none. The answer is the response of the rest of the chain
  with the cookie to add; \<open>bytes\<close> are the random bytes of a new token.\<close>

definition csrf_middleware ::
  "bool \<Rightarrow> 8 word list \<Rightarrow> string \<Rightarrow> string \<Rightarrow> headers \<Rightarrow> 'r \<Rightarrow> api_error + 'r \<times> string option" where
  "csrf_middleware https bytes verb path h response =
     (let cookie = extract_cookie_value h csrf_cookie_name;
          needs_validation = (verb \<in> set [''POST'', ''PUT'', ''DELETE'', ''PATCH'']);
          is_exempt = (path = ''/login'' \<or> path = ''/api/auth/qr-login'');
          matches = (case (cookie, map_of h ''x-csrf-token'') of
              (Some c, Some t) \<Rightarrow> c \<noteq> [] \<and> c = t
            | _ \<Rightarrow> False)
      in if needs_validation \<and> \<not> is_exempt \<and> \<not> matches then Inl (Api_Csrf_Invalid ''CSRF token validation failed'')
         else Inr (response,
           if cookie = None then Some (build_csrf_cookie https (hex_bytes bytes)) else None))"

section \<open>Logging in\<close>

record login_response =
  lo_user :: "string \<times> string"
  lo_token :: string
  lo_cookie :: string

text \<open>A user without a password counts as unknown.\<close>

definition check_password :: "'db auth_env \<Rightarrow> string \<Rightarrow> user_row option \<Rightarrow> auth_error + user_row option \<times> bool" where
  "check_password E pw user = (case user of
     None \<Rightarrow> Inr (None, False)
   | Some u \<Rightarrow>
       if trim (us_password_hash u) = [] then Inr (None, False)
       else and_then (verify_password_timed E pw (us_password_hash u)) (\<lambda>valid. Inr (Some u, valid)))"

text \<open>The end of both logins: sign, note the login (a failure is only logged), answer.\<close>

definition start_session ::
  "'db auth_env \<Rightarrow> moment \<Rightarrow> user_row \<Rightarrow> 'db auth_state \<Rightarrow> (api_error + login_response) \<times> 'db auth_state" where
  "start_session E m user st =
     (case sign (ae_jwt E) (Some (mo_secs m)) (us_id user) (us_username user) (as_jwt st) of
        Inl e \<Rightarrow> (Inl (Api_Internal (''Token signing error: '' @ auth_error_text e)), st)
      | Inr tok \<Rightarrow>
          (Inr \<lparr>lo_user = (us_id user, us_username user), lo_token = tok, lo_cookie = build_session_cookie (ae_https E) tok\<rparr>,
           st\<lparr>as_users := snd (ur_update_last_login (ae_users E) (us_id user) (mo_ms m) (as_users st))\<rparr>))"

definition login_handler ::
  "'db auth_env \<Rightarrow> moment \<Rightarrow> api_error + string \<times> string \<Rightarrow> 'db auth_state \<Rightarrow> (api_error + login_response) \<times> 'db auth_state" where
  "login_handler E m body st = (case body of
     Inl e \<Rightarrow> (Inl e, st)
   | Inr (name, pw) \<Rightarrow>
       if length name > 32 then (Inl (Api_Bad_Request ''Username must not exceed 32 characters''), st)
       else if length pw > 128 then (Inl (Api_Bad_Request ''Password must not exceed 128 characters''), st)
       else (case ur_by_username (ae_users E) name (as_users st) of
           Inl e \<Rightarrow> (Inl (database_error e), st)
         | Inr user \<Rightarrow> (case check_password E pw user of
             Inl e \<Rightarrow> (Inl (api_from_auth_error e), st)
           | Inr (found, valid) \<Rightarrow>
               if \<not> valid then (Inl (Api_Unauthorized ''Invalid username or password''), st)
               else (case found of
                   None \<Rightarrow> (Inl (Api_Unauthorized ''Invalid username or password''), st)
                 | Some u \<Rightarrow> start_session E m u st))))"

definition qr_login_handler ::
  "'db auth_env \<Rightarrow> moment \<Rightarrow> api_error + string \<Rightarrow> 'db auth_state \<Rightarrow> (api_error + login_response) \<times> 'db auth_state" where
  "qr_login_handler E m body st = (case body of
     Inl e \<Rightarrow> (Inl e, st)
   | Inr qr \<Rightarrow> (case validate_and_consume (mo_ms m) qr (as_qr st) of
       (Inl e, q) \<Rightarrow> (Inl (api_from_auth_error e), st\<lparr>as_qr := q\<rparr>)
     | (Inr _, q) \<Rightarrow> (case ur_primary (ae_users E) (as_users st) of
         Inl e \<Rightarrow> (Inl (database_error e), st\<lparr>as_qr := q\<rparr>)
       | Inr None \<Rightarrow> (Inl (Api_Internal ''No primary user configured''), st\<lparr>as_qr := q\<rparr>)
       | Inr (Some u) \<Rightarrow> start_session E m u (st\<lparr>as_qr := q\<rparr>))))"

section \<open>Requests with a session\<close>

definition auth_middleware ::
  "'db auth_env \<Rightarrow> bool \<Rightarrow> moment \<Rightarrow> headers \<Rightarrow> 'db auth_state \<Rightarrow> api_error + string \<times> string" where
  "auth_middleware E skip m h st =
     (if skip then Inr (system_user_id, system_user_id)
      else (case extract_token_from_headers h of
          None \<Rightarrow> Inl (Api_Unauthorized ''Authentication required'')
        | Some tok \<Rightarrow> (case verify (ae_jwt E) (mo_secs m) tok (as_jwt st) of
            Inl _ \<Rightarrow> Inl (Api_Unauthorized ''Invalid or expired token'')
          | Inr c \<Rightarrow> (case ur_by_id (ae_users E) (tp_user c) (as_users st) of
              Inl _ \<Rightarrow> Inl (Api_Internal ''Authentication service unavailable'')
            | Inr None \<Rightarrow> Inl (Api_Unauthorized ''Invalid authentication subject'')
            | Inr (Some u) \<Rightarrow> Inr (us_id u, us_username u)))))"

definition logout_handler :: "'db auth_env \<Rightarrow> moment \<Rightarrow> headers \<Rightarrow> 'db auth_state \<Rightarrow> string \<times> 'db auth_state" where
  "logout_handler E m h st =
     (clear_session_cookie (ae_https E),
      case extract_token_from_headers h of
        None \<Rightarrow> st
      | Some tok \<Rightarrow> st\<lparr>as_jwt := blacklist_token (ae_jwt E) (Some (mo_secs m)) tok (as_jwt st)\<rparr>)"

definition status_handler :: "'db auth_env \<Rightarrow> moment \<Rightarrow> headers \<Rightarrow> 'db auth_state \<Rightarrow> api_error + bool \<times> int \<times> bool" where
  "status_handler E m h st =
     and_then (map_err database_error (ur_has_users (ae_users E) (as_users st))) (\<lambda>has.
     and_then (map_err database_error (ur_count (ae_users E) (as_users st))) (\<lambda>n.
       Inr (\<not> has, n, (case extract_token_from_headers h of
         None \<Rightarrow> False
       | Some tok \<Rightarrow> \<not> is_err (verify (ae_jwt E) (mo_secs m) tok (as_jwt st))))))"

definition refresh_handler :: "'db auth_env \<Rightarrow> moment \<Rightarrow> api_error + string \<Rightarrow> 'db auth_state \<Rightarrow> api_error + string" where
  "refresh_handler E m body st =
     and_then body (\<lambda>tok.
     and_then (map_err (\<lambda>_. Api_Unauthorized ''Invalid or expired token'') (verify (ae_jwt E) (mo_secs m) tok (as_jwt st))) (\<lambda>c.
       map_err (\<lambda>e. Api_Internal (''Token signing error: '' @ auth_error_text e))
         (sign (ae_jwt E) (Some (mo_secs m)) (tp_user c) (tp_name c) (as_jwt st))))"

definition ws_token_handler :: "'db auth_env \<Rightarrow> string \<Rightarrow> headers \<Rightarrow> 'db auth_state \<Rightarrow> api_error + string \<times> nat" where
  "ws_token_handler E user h st =
     and_then (ok_or (Api_Unauthorized ''No token found'') (extract_token_from_headers h)) (\<lambda>tok.
     and_then (map_err database_error (ur_by_id (ae_users E) user (as_users st))) (\<lambda>u.
     and_then (ok_or (Api_Unauthorized ''User not found'') u) (\<lambda>_. Inr (tok, 30 * 24 * 60 * 60 * 1000))))"

text \<open>\<open>new_secret\<close> is the secret the rotation generates; the repository is asked three times, at the times
  \<open>t1\<close> and \<open>t2\<close> for the writes.\<close>

definition change_password_handler ::
  "'db auth_env \<Rightarrow> int \<Rightarrow> int \<Rightarrow> string \<Rightarrow> string \<Rightarrow> api_error + string \<times> string \<Rightarrow> 'db auth_state
    \<Rightarrow> (api_error + unit) \<times> 'db auth_state" where
  "change_password_handler E t1 t2 new_secret user body st = (case body of
     Inl e \<Rightarrow> (Inl e, st)
   | Inr (current, new) \<Rightarrow> (case validate_password new of
       Inl e \<Rightarrow> (Inl (api_from_auth_error e), st)
     | Inr _ \<Rightarrow> (case ur_by_id (ae_users E) user (as_users st) of
         Inl e \<Rightarrow> (Inl (database_error e), st)
       | Inr None \<Rightarrow> (Inl (Api_Not_Found ''User not found''), st)
       | Inr (Some u) \<Rightarrow> (case verify_password_timed E current (us_password_hash u) of
           Inl e \<Rightarrow> (Inl (api_from_auth_error e), st)
         | Inr False \<Rightarrow> (Inl (Api_Unauthorized ''Current password is incorrect''), st)
         | Inr True \<Rightarrow> (case hash_password E new of
             Inl e \<Rightarrow> (Inl e, st)
           | Inr h \<Rightarrow> (case ur_update_password (ae_users E) user h t1 (as_users st) of
               (Inl e, db) \<Rightarrow> (Inl (database_error e), st\<lparr>as_users := db\<rparr>)
             | (Inr _, db) \<Rightarrow> (case rotate_secret new_secret (as_jwt st) of
                 (Inl e, j) \<Rightarrow> (Inl (Api_Internal (''Secret rotation error: '' @ auth_error_text e)),
                     st\<lparr>as_users := db, as_jwt := j\<rparr>)
               | (Inr s, j) \<Rightarrow> (case ur_update_jwt_secret (ae_users E) user s t2 db of
                   (r, db') \<Rightarrow> (map_err database_error r, st\<lparr>as_users := db', as_jwt := j\<rparr>)))))))))"

section \<open>Requests of the local application\<close>

definition ensure_local_mode :: "bool \<Rightarrow> api_error + unit" where
  "ensure_local_mode is_local =
     (if is_local then Inr () else Inl (Api_Forbidden ''This endpoint is only available in local mode''))"

text \<open>The internal routes call one operation of the repository each.\<close>

definition internal_route ::
  "'db auth_env \<Rightarrow> ('db \<Rightarrow> (db_error + 'a) \<times> 'db) \<Rightarrow> 'db auth_state \<Rightarrow> (api_error + 'a) \<times> 'db auth_state" where
  "internal_route E op st = (case ensure_local_mode (ae_local E) of
     Inl e \<Rightarrow> (Inl e, st)
   | Inr _ \<Rightarrow> (case op (as_users st) of (r, db) \<Rightarrow> (map_err auth_db_error r, st\<lparr>as_users := db\<rparr>)))"

definition resolve_webui_admin :: "'db auth_env \<Rightarrow> 'db \<Rightarrow> api_error + user_row" where
  "resolve_webui_admin E db =
     and_then (map_err database_error (ur_primary (ae_users E) db))
       (ok_or (Api_Not_Found ''No WebUI admin user configured''))"

definition set_admin_password :: "'db auth_env \<Rightarrow> int \<Rightarrow> string \<Rightarrow> 'db auth_state \<Rightarrow> (api_error + unit) \<times> 'db auth_state" where
  "set_admin_password E t pw st = (case resolve_webui_admin E (as_users st) of
     Inl e \<Rightarrow> (Inl e, st)
   | Inr u \<Rightarrow> (case hash_password E pw of
       Inl e \<Rightarrow> (Inl e, st)
     | Inr h \<Rightarrow> (case ur_update_password (ae_users E) (us_id u) h t (as_users st) of
         (r, db) \<Rightarrow> (map_err database_error r, st\<lparr>as_users := db\<rparr>))))"

definition webui_change_password_handler ::
  "'db auth_env \<Rightarrow> int \<Rightarrow> api_error + string \<Rightarrow> 'db auth_state \<Rightarrow> (api_error + unit) \<times> 'db auth_state" where
  "webui_change_password_handler E t body st =
     (case and_then (ensure_local_mode (ae_local E)) (\<lambda>_. and_then body (\<lambda>pw.
         and_then (map_err api_from_auth_error (validate_password pw)) (\<lambda>_. Inr pw))) of
        Inl e \<Rightarrow> (Inl e, st)
      | Inr pw \<Rightarrow> set_admin_password E t pw st)"

definition webui_change_username_handler ::
  "'db auth_env \<Rightarrow> int \<Rightarrow> api_error + string \<Rightarrow> 'db auth_state \<Rightarrow> (api_error + string) \<times> 'db auth_state" where
  "webui_change_username_handler E t body st =
     (case and_then (ensure_local_mode (ae_local E)) (\<lambda>_. and_then body (\<lambda>name.
         and_then (map_err api_from_auth_error (validate_username (trim name))) (\<lambda>_.
         and_then (resolve_webui_admin E (as_users st)) (\<lambda>u. Inr (trim name, u))))) of
        Inl e \<Rightarrow> (Inl e, st)
      | Inr (name, u) \<Rightarrow>
          if us_username u = name then (Inr name, st)
          else (case ur_update_username (ae_users E) (us_id u) name t (as_users st) of
              (r, db) \<Rightarrow> (and_then (map_err database_error r) (\<lambda>_. Inr name), st\<lparr>as_users := db\<rparr>)))"

text \<open>The random bytes of the new password are the arguments \<open>bs\<close> and \<open>sh\<close>, sixteen of them.\<close>

definition webui_reset_password_handler ::
  "'db auth_env \<Rightarrow> int \<Rightarrow> 8 word list \<Rightarrow> 8 word list \<Rightarrow> 'db auth_state \<Rightarrow> (api_error + string) \<times> 'db auth_state" where
  "webui_reset_password_handler E t bs sh st = (case ensure_local_mode (ae_local E) of
     Inl e \<Rightarrow> (Inl e, st)
   | Inr _ \<Rightarrow> (let pw = generate_strong_password bs sh in
       case set_admin_password E t pw st of (r, st') \<Rightarrow> (and_then r (\<lambda>_. Inr pw), st')))"

definition webui_generate_qr_token_handler ::
  "'db auth_env \<Rightarrow> moment \<Rightarrow> 8 word list \<Rightarrow> 'db auth_state \<Rightarrow> (api_error + string \<times> int rust) \<times> 'db auth_state" where
  "webui_generate_qr_token_handler E m bytes st = (case ensure_local_mode (ae_local E) of
     Inl e \<Rightarrow> (Inl e, st)
   | Inr _ \<Rightarrow> (case generate_with_expiry (mo_ms m) bytes (as_qr st) of
       (r, q) \<Rightarrow> (Inr r, st\<lparr>as_qr := q\<rparr>)))"

section \<open>Starting the server\<close>

text \<open>The secret of the environment, of the row of the system user or a new one, which is stored in that row;
  a failure of the repository stops the start. The key that encrypts stored credentials is the hash of
  the secret behind a fixed text.\<close>

definition db_secret :: "user_row option \<Rightarrow> string option" where
  "db_secret u = (case u of
     None \<Rightarrow> None
   | Some r \<Rightarrow> (case us_jwt_secret r of None \<Rightarrow> None | Some s \<Rightarrow> if s = [] then None else Some s))"

definition startup_secret ::
  "'db user_repo \<Rightarrow> string option \<Rightarrow> string \<Rightarrow> int \<Rightarrow> 'db \<Rightarrow> (db_error + string) \<times> 'db" where
  "startup_secret R env new t db = (case ur_system R db of
     Inl e \<Rightarrow> (Inl e, db)
   | Inr u \<Rightarrow> (case resolve_jwt_secret env (db_secret u) new of
       (s, is_new) \<Rightarrow>
         if is_new then (case u of
             None \<Rightarrow> (Inr s, db)
           | Some r \<Rightarrow> (case ur_update_jwt_secret R (us_id r) s t db of
               (Inl e, db') \<Rightarrow> (Inl e, db')
             | (Inr _, db') \<Rightarrow> (Inr s, db')))
         else (Inr s, db)))"

definition derive_encryption_key :: "jwt_lib \<Rightarrow> string \<Rightarrow> 8 word list" where
  "derive_encryption_key L secret = jl_sha256 L (''aionui-encryption-key:'' @ secret)"

definition start_server ::
  "'db user_repo \<Rightarrow> string option \<Rightarrow> string \<Rightarrow> int \<Rightarrow> 'db \<Rightarrow> db_error + 'db auth_state" where
  "start_server R env new t db = (case startup_secret R env new t db of
     (Inl e, _) \<Rightarrow> Inl e
   | (Inr s, db') \<Rightarrow> Inr \<lparr>as_jwt = new_jwt s, as_qr = [], as_users = db'\<rparr>)"

end
