(* ===== verification/Auth_Facts.thy ===== *)
theory Auth_Facts
  imports Auth_Service
begin

text \<open>
  What the handlers of a server promise together: who gets a session, what a change of password does
  to the sessions, and what is left of it after a restart. The last section is an executable
  \<open>jwt_lib\<close> that keeps the promises of the crates, with the leeway of sixty seconds that
  \<open>jsonwebtoken\<close> grants to expired tokens.
\<close>

section \<open>Logins\<close>

lemma check_password_valid:
  "check_password E pw user = Inr (found, True) \<longleftrightarrow>
    (\<exists>u. user = Some u \<and> found = Some u \<and> trim (us_password_hash u) \<noteq> []
      \<and> ae_verify E pw (us_password_hash u) = Inr (Inr True))"
  by (cases user) (auto simp: check_password_def verify_password_timed_def split: sum.splits)

lemma start_session_ok:
  "start_session E m u st = (Inr r, st') \<longleftrightarrow>
    (\<exists>tok. sign (ae_jwt E) (Some (mo_secs m)) (us_id u) (us_username u) (as_jwt st) = Inr tok
      \<and> r = \<lparr>lo_user = (us_id u, us_username u), lo_token = tok, lo_cookie = build_session_cookie (ae_https E) tok\<rparr>
      \<and> st' = st\<lparr>as_users := snd (ur_update_last_login (ae_users E) (us_id u) (mo_ms m) (as_users st))\<rparr>)"
  by (auto simp: start_session_def split: sum.splits)

lemma sign_ok:
  "sign L (Some now) user name s = Inr tok \<longleftrightarrow>
    \<not> jw_poisoned s \<and> jl_encode L (jw_secret s) (session_claims user name now) = Inr tok"
  by (simp add: sign_def now_secs_def)

lemma login_ok:
  "login_handler E m (Inr (name, pw)) st = (Inr r, st') \<longleftrightarrow>
    length name \<le> 32 \<and> length pw \<le> 128
    \<and> (\<exists>u. ur_by_username (ae_users E) name (as_users st) = Inr (Some u) \<and> trim (us_password_hash u) \<noteq> []
        \<and> ae_verify E pw (us_password_hash u) = Inr (Inr True) \<and> start_session E m u st = (Inr r, st'))"
  (is "?l \<longleftrightarrow> ?r")
proof
  assume l: ?l
  then obtain user found where "length name \<le> 32" "length pw \<le> 128"
    "ur_by_username (ae_users E) name (as_users st) = Inr user" "check_password E pw user = Inr (found, True)"
    "\<exists>u. found = Some u \<and> start_session E m u st = (Inr r, st')"
    by (auto simp: login_handler_def split: if_splits sum.splits prod.splits option.splits)
  then show ?r
    unfolding check_password_valid by auto
next
  assume r: ?r
  then obtain u where "check_password E pw (Some u) = Inr (Some u, True)" "ur_by_username (ae_users E) name (as_users st) = Inr (Some u)"
    "start_session E m u st = (Inr r, st')"
    unfolding check_password_valid by auto
  with r show ?l by (simp add: login_handler_def)
qed

text \<open>A client cannot tell an unknown name from a wrong password.\<close>

lemma login_refused:
  assumes "length name \<le> 32" and "length pw \<le> 128"
    and "ur_by_username (ae_users E) name (as_users st) = Inr user"
    and "\<And>u. user = Some u \<Longrightarrow> trim (us_password_hash u) = [] \<or> ae_verify E pw (us_password_hash u) = Inr (Inr False)"
  shows "login_handler E m (Inr (name, pw)) st = (Inl (Api_Unauthorized ''Invalid username or password''), st)"
  using assms by (cases user) (auto simp: login_handler_def check_password_def verify_password_timed_def)

text \<open>The middleware admits who holds a valid token of a user that exists.\<close>

lemma auth_middleware_ok:
  "auth_middleware E False m h st = Inr who \<longleftrightarrow>
    (\<exists>tok c u. extract_token_from_headers h = Some tok \<and> verify (ae_jwt E) (mo_secs m) tok (as_jwt st) = Inr c
      \<and> ur_by_id (ae_users E) (tp_user c) (as_users st) = Inr (Some u) \<and> who = (us_id u, us_username u))"
  by (auto simp: auth_middleware_def split: option.splits sum.splits)

text \<open>The user of a name, when the password matches, gets a session; the session is that user's for the middleware
  as well.\<close>

lemma login_of_the_user:
  assumes R: "ae_users E = sqlite_users" and unique: "users_unique (as_users st)" and u: "u \<in> set (as_users st)"
    and len: "length (us_username u) \<le> 32" "length pw \<le> 128" and hash: "trim (us_password_hash u) \<noteq> []"
      "ae_verify E pw (us_password_hash u) = Inr (Inr True)"
    and signs: "\<not> jw_poisoned (as_jwt st)" "\<And>c. \<not> is_err (jl_encode (ae_jwt E) (jw_secret (as_jwt st)) c)"
  shows "\<exists>r st'. login_handler E m (Inr (us_username u, pw)) st = (Inr r, st') \<and> start_session E m u st = (Inr r, st')"
proof -
  obtain tok where "sign (ae_jwt E) (Some (mo_secs m)) (us_id u) (us_username u) (as_jwt st) = Inr tok"
    using signs(1) signs(2) [of "session_claims (us_id u) (us_username u) (mo_secs m)"]
    by (cases "jl_encode (ae_jwt E) (jw_secret (as_jwt st)) (session_claims (us_id u) (us_username u) (mo_secs m))")
      (auto simp: sign_ok)
  then obtain r st' where s: "start_session E m u st = (Inr r, st')"
    by (auto simp: start_session_ok)
  have "ur_by_username (ae_users E) (us_username u) (as_users st) = Inr (Some u)"
    using find_by_name_unique [OF unique find_by_id_unique [OF unique u]] by (simp add: R sqlite_users_def)
  with s len hash show ?thesis by (auto simp: login_ok)
qed

lemma started_session:
  assumes R: "ae_users E = sqlite_users" and L: "jwt_ok (ae_jwt E)" and unique: "users_unique (as_users st)"
    and u: "u \<in> set (as_users st)" and s: "start_session E m u st = (Inr r, st')"
  shows "lo_user r = (us_id u, us_username u)"
    and "st' = st\<lparr>as_users := map (\<lambda>v. if us_id v = us_id u
        then v\<lparr>us_last_login := Some (mo_ms m), us_updated_at := mo_ms m\<rparr> else v) (as_users st)\<rparr>"
    and "extract_token_from_headers h = Some (lo_token r) \<Longrightarrow> verify_check (ae_jwt E) (lo_token r) (as_jwt st) = Inr ()
      \<Longrightarrow> mo_secs m' \<le> mo_secs m + token_expiry \<Longrightarrow> auth_middleware E False m' h st' = Inr (us_id u, us_username u)"
proof -
  let ?f = "\<lambda>v. v\<lparr>us_last_login := Some (mo_ms m), us_updated_at := mo_ms m\<rparr>"
  let ?c = "session_claims (us_id u) (us_username u) (mo_secs m)"
  obtain tok where tok: "sign (ae_jwt E) (Some (mo_secs m)) (us_id u) (us_username u) (as_jwt st) = Inr tok"
      "lo_token r = tok" "lo_user r = (us_id u, us_username u)"
      "st' = st\<lparr>as_users := snd (ur_update_last_login (ae_users E) (us_id u) (mo_ms m) (as_users st))\<rparr>"
    using s by (auto simp: start_session_ok)
  show "lo_user r = (us_id u, us_username u)" by (rule tok(3))
  have "list_ex (\<lambda>v. us_id v = us_id u) (as_users st)"
    using u by (auto simp: list_ex_iff)
  then show st': "st' = st\<lparr>as_users := map (\<lambda>v. if us_id v = us_id u then ?f v else v) (as_users st)\<rparr>"
    by (simp add: tok(4) R sqlite_users_def update_last_login_def update_user_def)
  assume h: "extract_token_from_headers h = Some (lo_token r)" and free: "verify_check (ae_jwt E) (lo_token r) (as_jwt st) = Inr ()"
    and before: "mo_secs m' \<le> mo_secs m + token_expiry"
  have "verify (ae_jwt E) (mo_secs m') (lo_token r) (as_jwt st') = Inr ?c"
    using tok(1,2) free before jwt_okD(3) [OF L, of "jw_secret (as_jwt st)" ?c tok "mo_secs m'" True]
    by (simp add: st' sign_ok verify_def verify_decode_def session_claims_def)
  moreover have "ur_by_id sqlite_users (us_id u) (as_users st') = Inr (Some (?f u))"
    using find_by_id_unique [OF unique u] by (simp add: st' sqlite_users_def find_user_by_id_def find_map_unique)
  ultimately show "auth_middleware E False m' h st' = Inr (us_id u, us_username u)"
    using h by (auto simp: auth_middleware_ok R session_claims_def)
qed

lemma auth_middleware_rejects:
  assumes "\<And>tok. extract_token_from_headers h = Some tok \<Longrightarrow> is_err (verify (ae_jwt E) (mo_secs m) tok (as_jwt st))"
  shows "\<exists>why. auth_middleware E False m h st = Inl (Api_Unauthorized why)"
proof (cases "extract_token_from_headers h")
  case (Some tok)
  with assms show ?thesis
    by (cases "verify (ae_jwt E) (mo_secs m) tok (as_jwt st)") (simp_all add: auth_middleware_def)
qed (simp add: auth_middleware_def)

text \<open>The lifetime a client is told for its token is thirty times the one the token has.\<close>

lemma ws_token_lifetime_is_overstated:
  "ws_token_handler E user h st = Inr (tok, n) \<Longrightarrow> n = 30 * (1000 * unat token_expiry)"
  by (auto simp: ws_token_handler_def token_expiry_def)

section \<open>A change of password\<close>

lemma change_password_ok:
  assumes "change_password_handler E t1 t2 new user (Inr (current, pw)) st = (Inr (), st')"
  obtains u h db where "validate_password pw = Inr ()" and "ur_by_id (ae_users E) user (as_users st) = Inr (Some u)"
    and "ae_hash E pw = Inr (Inr h)" and "ur_update_password (ae_users E) user h t1 (as_users st) = (Inr (), db)"
    and "\<not> jw_poisoned (as_jwt st)" and "ur_update_jwt_secret (ae_users E) user new t2 db = (Inr (), as_users st')"
    and "as_jwt st' = (as_jwt st)\<lparr>jw_secret := new, jw_blacklist := []\<rparr>"
  using assms
  by (auto simp: change_password_handler_def hash_password_def rotate_secret_def
      split: sum.splits option.splits prod.splits bool.splits if_splits)

text \<open>Tokens of the old secret no longer verify.\<close>

lemma old_token_rejected:
  assumes "jwt_ok L" and "jl_encode L k c = Inr tok" and "k \<noteq> jw_secret s"
  shows "is_err (verify L now tok s)"
proof (cases "verify L now tok s")
  case (Inr c')
  then have "jl_decode L (jw_secret s) True jwt_issuer jwt_audience now tok = Inr c'"
    by (auto simp: verify_def verify_decode_def split: if_splits)
  from jwt_okD(1) [OF assms(1,2) this] assms(3) show ?thesis by simp
qed simp

text \<open>The repository is known by its contract only; the interpretation for SQLite gives the property.\<close>

context user_repository
begin

lemma login_after_change:
  assumes ok: "ok (as_users st)" and R: "ae_users E = R"
    and change: "change_password_handler E t1 t2 new user (Inr (current, pw)) st = (Inr (), st')"
    and u: "ur_by_id R user (as_users st) = Inr (Some u)" "length (us_username u) \<le> 32"
    and hash: "\<And>h. ae_hash E pw = Inr (Inr h) \<Longrightarrow> trim h \<noteq> [] \<and> ae_verify E pw h = Inr (Inr True)"
    and sign: "sign (ae_jwt E) (Some (mo_secs m)) (us_id u) (us_username u) (as_jwt st') = Inr tok"
  shows "\<exists>r st''. login_handler E m (Inr (us_username u, pw)) st' = (Inr r, st'') \<and> lo_token r = tok"
proof -
  obtain h db where h: "validate_password pw = Inr ()" "ae_hash E pw = Inr (Inr h)"
      "ur_update_password R user h t1 (as_users st) = (Inr (), db)" "ur_update_jwt_secret R user new t2 db = (Inr (), as_users st')"
    using change by (rule change_password_ok) (use R in auto)
  have "ur_by_username R (us_username u) (as_users st') =
      Inr (Some (u\<lparr>us_password_hash := h, us_updated_at := t1, us_jwt_secret := Some new, us_updated_at := t2\<rparr>))"
    by (rule credentials_updated [OF ok u(1), of h t1 new t2]) (use h in auto)
  moreover have "length pw \<le> 128"
    using h(1) by (auto simp: validate_password_def split: if_splits)
  ultimately show ?thesis
    using R u(2) hash [OF h(2)] sign by (auto simp: login_ok start_session_ok)
qed

end

section \<open>What a restart forgets\<close>

text \<open>The secret of a server that is started again comes from the environment or the system user.\<close>

lemma startup_from_environment: "get_system_user db = Inr u \<Longrightarrow> startup_secret sqlite_users (Some s) new t db = (Inr s, db)"
  by (simp add: startup_secret_def sqlite_users_def resolve_jwt_secret_def)

lemma startup_from_row:
  "get_system_user db = Inr (Some r) \<Longrightarrow> us_jwt_secret r = Some s \<Longrightarrow> s \<noteq> []
    \<Longrightarrow> startup_secret sqlite_users None new t db = (Inr s, db)"
  by (simp add: startup_secret_def sqlite_users_def resolve_jwt_secret_def db_secret_def)

lemma find_other:
  assumes "i \<noteq> j" and "\<And>r. us_id (f r) = us_id r"
  shows "find (\<lambda>r. us_id r = j) (map (\<lambda>r. if us_id r = i then f r else r) db) = find (\<lambda>r. us_id r = j) db"
  using assms by (induction db) auto

lemma update_user_other:
  assumes "update_user e i f db = (Inr (), db')" and "i \<noteq> j" and "\<And>r. us_id (f r) = us_id r"
  shows "find_user_by_id j db' = find_user_by_id j db"
  using assms by (auto simp: update_user_def find_user_by_id_def find_other split: if_splits)

text \<open>The rotated secret is stored in the row of the user who changed the password, so a restart brings the
  old secret back unless that was the system user: the tokens the change revoked are accepted again.\<close>

lemma rotation_is_lost_at_restart:
  assumes R: "ae_users E = sqlite_users" and user: "user \<noteq> system_user_id"
    and change: "change_password_handler E t1 t2 new user (Inr (current, pw)) st = (Inr (), st')"
    and row: "get_system_user (as_users st) = Inr (Some r)" "us_jwt_secret r = Some (jw_secret (as_jwt st))"
    and ne: "jw_secret (as_jwt st) \<noteq> []"
  shows "jw_secret (as_jwt st') = new \<and> (\<exists>st''. start_server sqlite_users None fresh t (as_users st') = Inr st''
    \<and> as_jwt st'' = new_jwt (jw_secret (as_jwt st)))"
proof -
  obtain h db where h: "ur_update_password (ae_users E) user h t1 (as_users st) = (Inr (), db)"
      "ur_update_jwt_secret (ae_users E) user new t2 db = (Inr (), as_users st')"
      "as_jwt st' = (as_jwt st)\<lparr>jw_secret := new, jw_blacklist := []\<rparr>"
    using change by (rule change_password_ok) auto
  have p: "update_user (user_not_found user) user (\<lambda>r. r\<lparr>us_password_hash := h, us_updated_at := t1\<rparr>) (as_users st) = (Inr (), db)"
    and q: "update_user (user_not_found user) user (\<lambda>r. r\<lparr>us_jwt_secret := Some new, us_updated_at := t2\<rparr>) db
      = (Inr (), as_users st')"
    using h(1,2) R by (simp_all add: sqlite_users_def update_password_def update_jwt_secret_def)
  have "find_user_by_id system_user_id db = find_user_by_id system_user_id (as_users st)"
    by (rule update_user_other [OF p user]) simp
  moreover have "find_user_by_id system_user_id (as_users st') = find_user_by_id system_user_id db"
    by (rule update_user_other [OF q user]) simp
  ultimately have "get_system_user (as_users st') = Inr (Some r)"
    using row(1) by (simp add: get_system_user_def)
  from startup_from_row [OF this row(2) ne] h(3) show ?thesis
    by (simp add: start_server_def)
qed

text \<open>The key of the stored credentials is derived from the secret the server starts with: after the system user
  has changed the password, the next start derives another key.\<close>

lemma password_change_replaces_the_encryption_key:
  assumes R: "ae_users E = sqlite_users" and unique: "users_unique (as_users st)"
    and change: "change_password_handler E t1 t2 new system_user_id (Inr (current, pw)) st = (Inr (), st')"
    and new: "new \<noteq> []" "derive_encryption_key L new \<noteq> derive_encryption_key L (jw_secret (as_jwt st))"
  shows "\<exists>st''. start_server sqlite_users None fresh t (as_users st') = Inr st''
    \<and> derive_encryption_key L (jw_secret (as_jwt st'')) \<noteq> derive_encryption_key L (jw_secret (as_jwt st))"
proof -
  obtain u h db where h: "ur_by_id (ae_users E) system_user_id (as_users st) = Inr (Some u)"
      "ur_update_password (ae_users E) system_user_id h t1 (as_users st) = (Inr (), db)"
      "ur_update_jwt_secret (ae_users E) system_user_id new t2 db = (Inr (), as_users st')"
    using change by (rule change_password_ok) auto
  obtain db1 where 1: "ur_update_password sqlite_users system_user_id h t1 (as_users st) = (Inr (), db1)" "users_unique db1"
      "ur_by_id sqlite_users system_user_id db1 = Inr (Some (u\<lparr>us_password_hash := h, us_updated_at := t1\<rparr>))"
    using sqlite_user.password_updated [OF unique, of system_user_id u] h(1) R by auto
  obtain db2 where 2: "ur_update_jwt_secret sqlite_users system_user_id new t2 db1 = (Inr (), db2)"
      "ur_by_id sqlite_users system_user_id db2
        = Inr (Some (u\<lparr>us_password_hash := h, us_updated_at := t1, us_jwt_secret := Some new, us_updated_at := t2\<rparr>))"
    using sqlite_user.secret_updated [OF 1(2,3)] by blast
  have "db2 = as_users st'"
    using h(2,3) 1(1) 2(1) R by simp
  then have "get_system_user (as_users st')
      = Inr (Some (u\<lparr>us_password_hash := h, us_updated_at := t1, us_jwt_secret := Some new, us_updated_at := t2\<rparr>))"
    using 2(2) by (simp add: get_system_user_def sqlite_users_def)
  from startup_from_row [OF this _ new(1)] new(2) show ?thesis
    by (simp add: start_server_def new_jwt_def)
qed

section \<open>Tokens of one second\<close>

text \<open>A token is its claims, and they hold the time in seconds: who logs out and logs in again within the second
  is given the revoked token.\<close>

lemma login_after_logout_is_revoked:
  assumes "sign L (Some now) user name s = Inr tok"
  shows "sign L (Some now) user name (blacklist_token L (Some now) tok s) = Inr tok"
    and "verify L now tok (blacklist_token L (Some now) tok s) = Inl Token_Blacklisted"
  using assms by (simp_all add: sign_ok verify_def verify_check_def blacklist_token_def Let_def)

text \<open>A library that accepts an expired token for a while: after the cleanup a revoked token is accepted.\<close>

lemma cleanup_revives_a_revoked_token:
  assumes L: "jwt_ok L" "jl_encode L (jw_secret s) c = Inr tok" "own_claims c" and s: "\<not> jw_poisoned s" "distinct (hm_keys (jw_blacklist s))"
    and late: "tp_exp c \<le> now" "jl_decode L (jw_secret s) True jwt_issuer jwt_audience now tok = Inr c"
  shows "verify L now tok (cleanup_blacklist (Some now) (blacklist_token L (Some t) tok s)) = Inr c"
proof -
  let ?b = "blacklist_token L (Some t) tok s"
  have "distinct (hm_keys (jw_blacklist ?b))"
    using s(2) by (simp add: blacklist_token_def Let_def distinct_hm_insert)
  then have "map_of (jw_blacklist (cleanup_blacklist (Some now) ?b)) (token_hash L tok) = None"
    using blacklist_entry [OF L s(1)] late(1) by (simp add: cleanup_blacklist_def map_of_hm_retain)
  moreover have "jw_secret (cleanup_blacklist (Some now) ?b) = jw_secret s" "\<not> jw_poisoned (cleanup_blacklist (Some now) ?b)"
    using s(1) by (simp_all add: cleanup_blacklist_def)
  ultimately show ?thesis
    using late(2) by (simp add: verify_def verify_check_def verify_decode_def)
qed

section \<open>An executable library\<close>

text \<open>A token is the list of the secret and the claims, each string behind its length in unary.\<close>

definition enc_string :: "string \<Rightarrow> string" where
  "enc_string s = replicate (length s) (CHR ''1'') @ CHR ''0'' # s"

definition dec_string :: "string \<Rightarrow> string \<times> string" where
  "dec_string t = (let n = length (takeWhile (\<lambda>c. c = CHR ''1'') t); r = drop (n + 1) t in (take n r, drop n r))"

lemma dec_enc_string [simp]: "dec_string (enc_string s @ r) = (s, r)"
proof -
  have "takeWhile (\<lambda>c. c = CHR ''1'') (replicate n (CHR ''1'') @ CHR ''0'' # u) = replicate n (CHR ''1'')" for n u
    by (induction n) simp_all
  then show ?thesis
    by (simp add: dec_string_def enc_string_def Let_def)
qed

fun dec_strings :: "nat \<Rightarrow> string \<Rightarrow> string list" where
  "dec_strings 0 t = []"
| "dec_strings (Suc n) t = (case dec_string t of (s, r) \<Rightarrow> s # dec_strings n r)"

lemma dec_strings_enc: "dec_strings (length ss) (concat (map enc_string ss)) = ss"
  by (induction ss) simp_all

fun enc_nat :: "nat \<Rightarrow> string" where
  "enc_nat n = (if n = 0 then [] else (if even n then CHR ''0'' else CHR ''1'') # enc_nat (n div 2))"

fun dec_nat :: "string \<Rightarrow> nat" where
  "dec_nat [] = 0"
| "dec_nat (c # s) = (if c = CHR ''1'' then 1 else 0) + 2 * dec_nat s"

declare enc_nat.simps [simp del]

lemma dec_enc_nat [simp]: "dec_nat (enc_nat n) = n"
  by (induction n rule: enc_nat.induct) (subst enc_nat.simps, auto)

definition demo_encode :: "string \<Rightarrow> token_payload \<Rightarrow> string" where
  "demo_encode k c = concat (map enc_string
     [k, tp_user c, tp_name c, enc_nat (unat (tp_iat c)), enc_nat (unat (tp_exp c)), tp_iss c, tp_aud c])"

definition demo_decode :: "string \<Rightarrow> bool \<Rightarrow> string \<Rightarrow> string \<Rightarrow> 64 word \<Rightarrow> string \<Rightarrow> jwt_error + token_payload" where
  "demo_decode k v iss aud now t =
     (let ss = dec_strings 7 t; exp = dec_nat (ss ! 4) in
      if ss ! 0 \<noteq> k then Inl (Jwt_Error ''InvalidSignature'')
      else if v \<and> exp + 60 < unat now then Inl Expired_Signature
      else if ss ! 5 \<noteq> iss then Inl (Jwt_Error ''InvalidIssuer'')
      else if ss ! 6 \<noteq> aud then Inl (Jwt_Error ''InvalidAudience'')
      else Inr \<lparr>tp_user = ss ! 1, tp_name = ss ! 2, tp_iat = of_nat (dec_nat (ss ! 3)), tp_exp = of_nat exp,
        tp_iss = ss ! 5, tp_aud = ss ! 6\<rparr>)"

definition demo_jwt :: jwt_lib where
  "demo_jwt = \<lparr>jl_encode = (\<lambda>k c. Inr (demo_encode k c)), jl_decode = demo_decode,
     jl_sha256 = map (\<lambda>c. of_nat (of_char c))\<rparr>"

lemma demo_decode_encode:
  "demo_decode k' v iss aud now (demo_encode k c) =
    (if k \<noteq> k' then Inl (Jwt_Error ''InvalidSignature'')
     else if v \<and> unat (tp_exp c) + 60 < unat now then Inl Expired_Signature
     else if tp_iss c \<noteq> iss then Inl (Jwt_Error ''InvalidIssuer'')
     else if tp_aud c \<noteq> aud then Inl (Jwt_Error ''InvalidAudience'')
     else Inr c)"
proof -
  have "dec_strings 7 (demo_encode k c)
      = [k, tp_user c, tp_name c, enc_nat (unat (tp_iat c)), enc_nat (unat (tp_exp c)), tp_iss c, tp_aud c]"
    using dec_strings_enc [of "[k, tp_user c, tp_name c, enc_nat (unat (tp_iat c)), enc_nat (unat (tp_exp c)), tp_iss c, tp_aud c]"]
    unfolding demo_encode_def by (simp add: eval_nat_numeral del: dec_strings.simps)
  then show ?thesis
    by (cases c) (simp add: demo_decode_def Let_def)
qed

lemma demo_jwt_ok: "jwt_ok demo_jwt"
  unfolding jwt_ok_def demo_jwt_def by (auto simp: demo_decode_encode word_le_nat_alt split: if_splits)

end
