(* ===== verification/Auth_Properties.thy ===== *)
theory Auth_Properties
  imports Auth_Facts
begin

text \<open>What the authentication of a server guarantees.\<close>

section \<open>Session tokens\<close>

text \<open>C29. A session token can be revoked and is not revoked otherwise. In every reachable state of a server whose
  clock does not go back, a token it has signed that was logged out, or signed with a secret rotated since, is
  accepted by no verification that begins afterwards before the token expires, however sign-ins, log-outs,
  rotations and cleanups interleave with the two halves of the verification; every other token is accepted until
  it expires and gives the claims it was signed for.\<close>

theorem session_tokens_can_be_revoked:
  assumes "jwt_ok L" and "jwt_reachable L w" and "no_collision L w" and "(tok, k, c) \<in> ww_issued w"
  shows "(\<forall>w' c'. revoked w tok k \<and> jwt_steps L w w' \<and> verify_check L tok (ww_jwt w) = Inr ()
        \<and> verify_decode L (ww_now w') tok (ww_jwt w') = Inr c' \<longrightarrow> c' = c \<and> tp_exp c \<le> ww_now w')
    \<and> (\<not> revoked w tok k \<and> ww_now w \<le> tp_exp c \<longrightarrow> verify L (ww_now w) tok (ww_jwt w) = Inr c)"
  using revoked_token_rejected [OF assms] live_token_accepted [OF assms] by blast

definition demo_tok :: "string \<Rightarrow> string" where
  "demo_tok u = demo_encode ''k'' (session_claims u u 7)"

definition demo_jwt_world :: jwt_world where
  "demo_jwt_world = (let w = new_jwt_world ''k'' 7;
      w1 = w\<lparr>ww_issued := {(demo_tok ''a'', ''k'', session_claims ''a'' ''a'' 7)}, ww_seen := {demo_tok ''a''}\<rparr>;
      w2 = w1\<lparr>ww_issued := {(demo_tok ''bb'', ''k'', session_claims ''bb'' ''bb'' 7), (demo_tok ''a'', ''k'', session_claims ''a'' ''a'' 7)},
          ww_seen := {demo_tok ''bb'', demo_tok ''a''}\<rparr>
      in w2\<lparr>ww_jwt := blacklist_token demo_jwt (Some 7) (demo_tok ''a'') (ww_jwt w2),
            ww_logged_out := {demo_tok ''a''}, ww_seen := {demo_tok ''a'', demo_tok ''bb''}\<rparr>)"

lemma demo_sign: "sign demo_jwt (Some 7) u u (new_jwt ''k'') = Inr (demo_tok u)"
  by (simp add: sign_ok new_jwt_def demo_jwt_def demo_tok_def)

lemma demo_jwt_world_reachable: "jwt_reachable demo_jwt demo_jwt_world"
proof -
  let ?w = "new_jwt_world ''k'' 7"
  let ?w1 = "?w\<lparr>ww_issued := {(demo_tok ''a'', ''k'', session_claims ''a'' ''a'' 7)}, ww_seen := {demo_tok ''a''}\<rparr>"
  let ?w2 = "?w1\<lparr>ww_issued := {(demo_tok ''bb'', ''k'', session_claims ''bb'' ''bb'' 7), (demo_tok ''a'', ''k'', session_claims ''a'' ''a'' 7)},
          ww_seen := {demo_tok ''bb'', demo_tok ''a''}\<rparr>"
  have "jwt_step demo_jwt ?w ?w1"
    using jwt_step.sign_in [of demo_jwt ?w "''a''" "''a''" "demo_tok ''a''"] demo_sign [of "''a''"]
    by (simp add: new_jwt_world_def new_jwt_def)
  moreover have "jwt_step demo_jwt ?w1 ?w2"
    using jwt_step.sign_in [of demo_jwt ?w1 "''bb''" "''bb''" "demo_tok ''bb''"] demo_sign [of "''bb''"]
    by (simp add: new_jwt_world_def new_jwt_def)
  moreover have "jwt_step demo_jwt ?w2 demo_jwt_world"
    using jwt_step.log_out [of demo_jwt ?w2 "demo_tok ''a''"]
    by (simp add: new_jwt_world_def demo_jwt_world_def Let_def insert_commute)
  ultimately have "jwt_steps demo_jwt ?w demo_jwt_world"
    by (blast intro: jwt_steps.intros)
  then show ?thesis
    unfolding jwt_reachable_def by blast
qed

lemma demo_hash_distinct: "token_hash demo_jwt (demo_tok ''a'') \<noteq> token_hash demo_jwt (demo_tok ''bb'')"
proof -
  have "length (token_hash demo_jwt t) = 2 * length t" for t
    by (simp add: token_hash_def hex_bytes_def demo_jwt_def length_concat comp_def sum_list_triv)
  moreover have "length (demo_tok ''a'') < length (demo_tok ''bb'')"
    by (simp add: demo_tok_def demo_encode_def enc_string_def session_claims_def)
  ultimately show ?thesis
    by (metis nat_less_le nat_mult_eq_cancel1 zero_less_numeral)
qed

lemma session_tokens_can_be_revoked_witness:
  "verify_check demo_jwt (demo_tok ''a'') (ww_jwt demo_jwt_world) \<noteq> Inr ()
    \<and> verify demo_jwt 7 (demo_tok ''bb'') (ww_jwt demo_jwt_world) = Inr (session_claims ''bb'' ''bb'' 7)"
proof -
  let ?w = demo_jwt_world
  have n: "no_collision demo_jwt ?w"
    using demo_hash_distinct by (auto simp: no_collision_def demo_jwt_world_def Let_def)
  have i: "(demo_tok u, ''k'', session_claims u u 7) \<in> ww_issued ?w" if "u \<in> {''a'', ''bb''}" for u
    using that by (auto simp: demo_jwt_world_def Let_def)
  note T = session_tokens_can_be_revoked [OF demo_jwt_ok demo_jwt_world_reachable n i]
  have d: "demo_tok ''bb'' \<noteq> demo_tok ''a''"
    using demo_hash_distinct by auto
  have f: "ww_now ?w = 7" "ww_logged_out ?w = {demo_tok ''a''}" "jw_secret (ww_jwt ?w) = ''k''" "\<not> jw_poisoned (ww_jwt ?w)"
    by (simp_all add: demo_jwt_world_def Let_def new_jwt_world_def new_jwt_def)
  have e: "\<not> tp_exp (session_claims u u 7) \<le> 7" "7 \<le> tp_exp (session_claims u u 7)" for u
    by (simp_all add: session_claims_def token_expiry_def)
  have "verify_decode demo_jwt 7 (demo_tok ''a'') (ww_jwt ?w) = Inr (session_claims ''a'' ''a'' 7)"
    using e(2) by (simp add: verify_decode_def f demo_jwt_def demo_tok_def demo_decode_encode word_le_nat_alt)
      (simp add: session_claims_def)
  then have "verify_check demo_jwt (demo_tok ''a'') (ww_jwt ?w) \<noteq> Inr ()"
    using conjunct1 [OF T [of "''a''"], rule_format, of ?w "session_claims ''a'' ''a'' 7"] e(1) f jwt_steps.none [of demo_jwt ?w]
    by (auto simp: revoked_def)
  moreover have "verify demo_jwt 7 (demo_tok ''bb'') (ww_jwt ?w) = Inr (session_claims ''bb'' ''bb'' 7)"
    using T [of "''bb''"] e(2) f d by (auto simp: revoked_def)
  ultimately show ?thesis by blast
qed

section \<open>Rate limits\<close>

text \<open>C30. Whatever requests and cleanups reach a limiter of a positive window in the order of their times, at most
  twice its maximum of one key pass in any interval as long as the window, and a request is refused only if
  the maximum of its key has passed within the last window; the counters do not overflow.\<close>

theorem request_rate_is_bounded:
  assumes "0 < w" and "sorted (map event_time es)" and "list_all (\<lambda>e. fits e w) es"
  shows "length (filter (\<lambda>t. a \<le> t \<and> t < a + unat w) (admitted key (fst (run_limits es (new_limiter m w))))) \<le> 2 * unat m
    \<and> rejections_ok w m (fst (run_limits es (new_limiter m w)))"
  using run_interval_bound [OF limits_ok_run [OF assms, of m], of a key] limits_ok_run [OF assms, of m]
  by (simp add: limits_ok_def new_limiter_def)

lemma request_rate_is_bounded_witness:
  "fst (run_limits [Request_At 9 ''k'', Request_At 10 ''k'', Cleanup_At 12, Request_At 12 ''k'', Request_At 13 ''k''] (new_limiter 1 3))
      = [(9, ''k'', True), (10, ''k'', False), (12, ''k'', True), (13, ''k'', False)]
   \<and> length (filter (\<lambda>t. 10 \<le> t \<and> t < 10 + unat (3::64 word)) [9, 12]) \<le> 2 * unat (1::32 word)"
proof -
  let ?es = "[Request_At 9 ''k'', Request_At 10 ''k'', Cleanup_At 12, Request_At 12 ''k'', Request_At 13 ''k'']"
  have run: "fst (run_limits ?es (new_limiter 1 3)) = [(9, ''k'', True), (10, ''k'', False), (12, ''k'', True), (13, ''k'', False)]"
    by code_simp
  have "(0::64 word) < 3" "sorted (map event_time ?es)" "list_all (\<lambda>e. fits e 3) ?es"
    by (simp_all add: fits_def)
  from request_rate_is_bounded [OF this, of 10 "''k''" 1] run show ?thesis
    by (simp add: admitted_def)
qed

section \<open>QR tokens\<close>

text \<open>C31. In every run of the QR token store in which no token is generated twice, each token is accepted at most
  once, and only if it was generated no more than five minutes before; a token that waits unused is accepted
  within that time.\<close>

theorem qr_tokens_work_once_in_time:
  assumes "distinct (map fst (generated es))"
  shows "distinct (map fst (fst (run_qr es)))
    \<and> (\<forall>(tok, t)\<in>set (fst (run_qr es)). \<exists>g. (tok, g) \<in> set (generated es) \<and> t - g \<le> qr_token_ttl)
    \<and> (\<forall>es1 es2 g bs t. es = es1 @ Qr_Generate g bs # es2 \<and> (\<forall>e\<in>set es2. spares (hex_bytes bs) g e) \<and> t - g \<le> qr_token_ttl
        \<longrightarrow> fst (validate_and_consume t (hex_bytes bs) (snd (run_qr es))) = Inr ())"
proof (intro conjI allI impI)
  show "distinct (map fst (fst (run_qr es)))"
    "\<forall>(tok, t)\<in>set (fst (run_qr es)). \<exists>g. (tok, g) \<in> set (generated es) \<and> t - g \<le> qr_token_ttl"
    using qr_ok_run [OF assms] unfolding qr_ok_def by auto
  fix es1 es2 g bs t
  assume "es = es1 @ Qr_Generate g bs # es2 \<and> (\<forall>e\<in>set es2. spares (hex_bytes bs) g e) \<and> t - g \<le> qr_token_ttl"
  then show "fst (validate_and_consume t (hex_bytes bs) (snd (run_qr es))) = Inr ()"
    using qr_first_use_accepted [of es2 bs g es1 t] assms by simp
qed

lemma qr_tokens_work_once_in_time_witness:
  "fst (run_qr [Qr_Generate 0 [171], Qr_Consume 5 ''ab'', Qr_Consume 6 ''ab'', Qr_Generate 9 [1], Qr_Cleanup 10]) = [(''ab'', 5)]
   \<and> distinct (map fst [(''ab'', 5::int)])
   \<and> fst (validate_and_consume 300009 ''01''
        (snd (run_qr [Qr_Generate 0 [171], Qr_Consume 5 ''ab'', Qr_Consume 6 ''ab'', Qr_Generate 9 [1], Qr_Cleanup 10]))) = Inr ()"
proof -
  let ?es1 = "[Qr_Generate 0 [171], Qr_Consume 5 ''ab'', Qr_Consume 6 ''ab'']"
  let ?es = "?es1 @ Qr_Generate 9 [1] # [Qr_Cleanup 10]"
  have g: "hex_bytes [1] = ''01''" "hex_bytes [171] = ''ab''"
    by code_simp+
  then have "distinct (map fst (generated ?es))"
    by simp
  note T = qr_tokens_work_once_in_time [OF this]
  have log: "fst (run_qr ?es) = [(''ab'', 5)]"
    by code_simp
  have "\<forall>e\<in>set [Qr_Cleanup 10]. spares (hex_bytes [1]) 9 e" "300009 - 9 \<le> qr_token_ttl"
    by (simp_all add: qr_token_ttl_def)
  with T have "fst (validate_and_consume 300009 (hex_bytes [1]) (snd (run_qr ?es))) = Inr ()"
    by blast
  with T log g show ?thesis by simp
qed

section \<open>Passwords\<close>


definition demo_user :: "string \<Rightarrow> string \<Rightarrow> user_row" where
  "demo_user name h = \<lparr>us_id = ''id-'' @ name, us_username = name, us_email = None, us_password_hash = h, us_avatar_path = None,
     us_jwt_secret = None, us_created_at = 1, us_updated_at = 1, us_last_login = None\<rparr>"

definition demo_auth_env :: "user_db auth_env" where
  "demo_auth_env = \<lparr>ae_jwt = demo_jwt, ae_users = sqlite_users, ae_verify = (\<lambda>pw h. Inr (Inr (h = CHR ''$'' # pw))),
     ae_hash = (\<lambda>pw. Inr (Inr (CHR ''$'' # pw))), ae_https = False, ae_local = False\<rparr>"

definition demo_auth_state :: "user_db auth_state" where
  "demo_auth_state = \<lparr>as_jwt = new_jwt ''k'', as_qr = [], as_users = [demo_user ''ann'' ''$old-secret'', demo_user ''bob'' '''']\<rparr>"


text \<open>C33. After a successful change of the password the user of the row logs in with the new one, and every token
  signed with the secret before the change is refused, whenever it comes.\<close>

theorem password_change_ends_sessions:
  assumes R: "ae_users E = sqlite_users" and L: "jwt_ok (ae_jwt E)" and unique: "users_unique (as_users st)"
    and change: "change_password_handler E t1 t2 new user (Inr (current, pw)) st = (Inr (), st')"
    and u: "find_user_by_id user (as_users st) = Inr (Some u)" "length (us_username u) \<le> 32"
    and hash: "\<forall>h. ae_hash E pw = Inr (Inr h) \<longrightarrow> trim h \<noteq> [] \<and> ae_verify E pw h = Inr (Inr True)"
    and new: "new \<noteq> jw_secret (as_jwt st)"
  shows "(\<forall>m tok. sign (ae_jwt E) (Some (mo_secs m)) (us_id u) (us_username u) (as_jwt st') = Inr tok
        \<longrightarrow> (\<exists>r st''. login_handler E m (Inr (us_username u, pw)) st' = (Inr r, st'') \<and> lo_token r = tok))
    \<and> (\<forall>m h c tok. jl_encode (ae_jwt E) (jw_secret (as_jwt st)) c = Inr tok \<and> extract_token_from_headers h = Some tok
        \<longrightarrow> auth_middleware E False m h st' = Inl (Api_Unauthorized ''Invalid or expired token''))"
proof (intro conjI allI impI)
  have f: "ur_by_id sqlite_users user (as_users st) = Inr (Some u)"
    using u(1) by (simp add: sqlite_users_def)
  show "\<exists>r st''. login_handler E m (Inr (us_username u, pw)) st' = (Inr r, st'') \<and> lo_token r = tok"
    if "sign (ae_jwt E) (Some (mo_secs m)) (us_id u) (us_username u) (as_jwt st') = Inr tok" for m tok
    by (rule sqlite_user.login_after_change [OF unique R change f u(2) hash [rule_format] that])
  have "jw_secret (as_jwt st') = new"
    using change by (rule change_password_ok) simp
  then have old: "is_err (verify (ae_jwt E) now tok (as_jwt st'))"
    if "jl_encode (ae_jwt E) (jw_secret (as_jwt st)) c = Inr tok" for now c tok
    using old_token_rejected [OF L that] new by auto
  show "auth_middleware E False m h st' = Inl (Api_Unauthorized ''Invalid or expired token'')"
    if "jl_encode (ae_jwt E) (jw_secret (as_jwt st)) c = Inr tok \<and> extract_token_from_headers h = Some tok" for m h c tok
    using that old [of c tok "mo_secs m"] by (cases "verify (ae_jwt E) (mo_secs m) tok (as_jwt st')") (auto simp: auth_middleware_def)
qed

lemma password_change_ends_sessions_witness:
  "\<exists>st'. change_password_handler demo_auth_env 8 9 ''k2'' ''id-ann'' (Inr (''old-secret'', ''new-secret'')) demo_auth_state = (Inr (), st')
    \<and> (\<exists>r st''. login_handler demo_auth_env \<lparr>mo_secs = 7, mo_ms = 7000\<rparr> (Inr (''ann'', ''new-secret'')) st' = (Inr r, st''))
    \<and> auth_middleware demo_auth_env False \<lparr>mo_secs = 7, mo_ms = 7000\<rparr> [(''authorization'', ''Bearer '' @ demo_tok ''ann'')] st'
        = Inl (Api_Unauthorized ''Invalid or expired token'')"
proof -
  let ?E = demo_auth_env and ?st = demo_auth_state
  let ?u = "demo_user ''ann'' ''$old-secret''"
  obtain st' where ch: "change_password_handler ?E 8 9 ''k2'' ''id-ann'' (Inr (''old-secret'', ''new-secret'')) ?st = (Inr (), st')"
    "as_jwt st' = new_jwt ''k2''"
  proof (rule that)
    let ?r = "change_password_handler ?E 8 9 ''k2'' ''id-ann'' (Inr (''old-secret'', ''new-secret'')) ?st"
    have "validate_password ''new-secret'' = Inr ()"
      by code_simp
    then have "fst ?r = Inr () \<and> as_jwt (snd ?r) = new_jwt ''k2''"
      by (simp add: change_password_handler_def demo_auth_env_def demo_auth_state_def demo_user_def sqlite_users_def
        find_user_by_id_def verify_password_timed_def hash_password_def update_password_def update_user_def
        rotate_secret_def new_jwt_def update_jwt_secret_def)
    then show "?r = (Inr (), snd ?r)" "as_jwt (snd ?r) = new_jwt ''k2''"
      by (auto simp: prod_eq_iff)
  qed
  have pre: "ae_users ?E = sqlite_users" "jwt_ok (ae_jwt ?E)" "users_unique (as_users ?st)"
      "find_user_by_id ''id-ann'' (as_users ?st) = Inr (Some ?u)" "length (us_username ?u) \<le> 32" "''k2'' \<noteq> jw_secret (as_jwt ?st)"
    by (simp_all add: demo_auth_env_def demo_auth_state_def demo_user_def users_unique_def find_user_by_id_def new_jwt_def demo_jwt_ok)
  have t: "trim ''$new-secret'' \<noteq> []"
    by code_simp
  then have hash: "\<forall>h. ae_hash ?E ''new-secret'' = Inr (Inr h) \<longrightarrow> trim h \<noteq> [] \<and> ae_verify ?E ''new-secret'' h = Inr (Inr True)"
    by (auto simp: demo_auth_env_def)
  note T = password_change_ends_sessions [OF pre(1-3) ch(1) pre(4,5) hash pre(6)]
  let ?m = "\<lparr>mo_secs = 7, mo_ms = 7000\<rparr>"
  obtain tok where "sign (ae_jwt ?E) (Some (mo_secs ?m)) (us_id ?u) (us_username ?u) (as_jwt st') = Inr tok"
    using ch(2) by (simp add: sign_ok new_jwt_def demo_auth_env_def demo_jwt_def)
  from conjunct1 [OF T, rule_format, OF this]
  have 1: "\<exists>r st''. login_handler ?E ?m (Inr (''ann'', ''new-secret'')) st' = (Inr r, st'')"
    by (auto simp: demo_user_def)
  have "extract_token_from_headers [(''authorization'', ''Bearer '' @ demo_tok ''ann'')] = Some (demo_tok ''ann'')"
    by (simp add: extract_token_from_headers_def extract_bearer_token_def strip_prefix_def demo_tok_def demo_encode_def enc_string_def)
  moreover have "jl_encode (ae_jwt ?E) (jw_secret (as_jwt ?st)) (session_claims ''ann'' ''ann'' 7) = Inr (demo_tok ''ann'')"
    by (simp add: demo_auth_env_def demo_auth_state_def new_jwt_def demo_jwt_def demo_tok_def)
  ultimately have "auth_middleware ?E False ?m [(''authorization'', ''Bearer '' @ demo_tok ''ann'')] st'
      = Inl (Api_Unauthorized ''Invalid or expired token'')"
    by (intro conjunct2 [OF T, rule_format]) (rule conjI)
  with ch(1) 1 show ?thesis by blast
qed

end
