(* ===== verification/Team_Types.thy ===== *)
theory Team_Types
  imports Work_Model Rust_Std
begin

text \<open>
  The types of \<open>aionui-team/src/types.rs\<close> and the rows of \<open>aionui-db/src/models/team.rs\<close>. A string column that
  holds JSON is read and written by \<open>serde_json\<close>: \<open>team_json\<close> has the four conversions the crate uses (a list of
  strings, and the metadata of a task, of a type left open), \<open>team_json_ok\<close> what it relies on: what was written
  is read back, and \<open>[]\<close> is the empty list.
\<close>

section \<open>Enumerations\<close>

datatype teammate_role = Lead | Teammate

fun teammate_role_str :: "teammate_role \<Rightarrow> string" where
  "teammate_role_str Lead = ''lead''"
| "teammate_role_str Teammate = ''teammate''"

definition teammate_role_parse :: "string \<Rightarrow> teammate_role option" where
  "teammate_role_parse s =
     (if s = ''lead'' \<or> s = ''leader'' then Some Lead else if s = ''teammate'' then Some Teammate else None)"

fun target_role_for :: "teammate_role \<Rightarrow> target_role" where
  "target_role_for Lead = RoleLead"
| "target_role_for Teammate = RoleTeammate"

datatype teammate_status = StIdle | StWorking | StThinking | StToolUse | StCompleted | StError

fun teammate_status_str :: "teammate_status \<Rightarrow> string" where
  "teammate_status_str StIdle = ''idle''"
| "teammate_status_str StWorking = ''working''"
| "teammate_status_str StThinking = ''thinking''"
| "teammate_status_str StToolUse = ''tool_use''"
| "teammate_status_str StCompleted = ''completed''"
| "teammate_status_str StError = ''error''"

definition teammate_status_parse :: "string \<Rightarrow> teammate_status option" where
  "teammate_status_parse s =
     (if s = ''idle'' \<or> s = ''pending'' then Some StIdle
      else if s = ''working'' \<or> s = ''active'' then Some StWorking
      else if s = ''thinking'' then Some StThinking
      else if s = ''tool_use'' then Some StToolUse
      else if s = ''completed'' then Some StCompleted
      else if s = ''error'' \<or> s = ''failed'' then Some StError
      else None)"

datatype message_kind = MtMessage | MtIdleNotification | MtShutdownRequest

fun message_kind_str :: "message_kind \<Rightarrow> string" where
  "message_kind_str MtMessage = ''message''"
| "message_kind_str MtIdleNotification = ''idle_notification''"
| "message_kind_str MtShutdownRequest = ''shutdown_request''"

definition message_kind_parse :: "string \<Rightarrow> message_kind option" where
  "message_kind_parse s =
     (if s = ''message'' then Some MtMessage
      else if s = ''idle_notification'' then Some MtIdleNotification
      else if s = ''shutdown_request'' then Some MtShutdownRequest
      else None)"

datatype task_status = TkPending | TkInProgress | TkCompleted | TkDeleted

fun task_status_str :: "task_status \<Rightarrow> string" where
  "task_status_str TkPending = ''pending''"
| "task_status_str TkInProgress = ''in_progress''"
| "task_status_str TkCompleted = ''completed''"
| "task_status_str TkDeleted = ''deleted''"

definition task_status_parse :: "string \<Rightarrow> task_status option" where
  "task_status_parse s =
     (if s = ''pending'' then Some TkPending
      else if s = ''in_progress'' then Some TkInProgress
      else if s = ''completed'' then Some TkCompleted
      else if s = ''deleted'' then Some TkDeleted
      else None)"

interpretation task_codec: str_codec task_status_str "\<lambda>s. ok_or () (task_status_parse s)"
proof
  show "ok_or () (task_status_parse (task_status_str x)) = Inr x" for x
    by (cases x) (simp_all add: task_status_parse_def)
  show "ok_or () (task_status_parse s) = Inr x \<Longrightarrow> task_status_str x = s" for s x
    by (auto simp: task_status_parse_def split: if_splits)
qed

interpretation kind_codec: str_codec message_kind_str "\<lambda>s. ok_or () (message_kind_parse s)"
proof
  show "ok_or () (message_kind_parse (message_kind_str x)) = Inr x" for x
    by (cases x) (simp_all add: message_kind_parse_def)
  show "ok_or () (message_kind_parse s) = Inr x \<Longrightarrow> message_kind_str x = s" for s x
    by (auto simp: message_kind_parse_def split: if_splits)
qed

lemma task_status_parse_str [simp]: "task_status_parse (task_status_str x) = Some x"
  using task_codec.from_as [of x] unfolding ok_or_eq_Inr .

lemma message_kind_parse_str [simp]: "message_kind_parse (message_kind_str x) = Some x"
  using kind_codec.from_as [of x] unfolding ok_or_eq_Inr .

section \<open>Rows\<close>

record team_row =
  tm_id :: string
  tm_user_id :: string
  tm_name :: string
  tm_workspace :: string
  tm_workspace_mode :: string
  tm_agents :: string
  tm_lead_agent_id :: "string option"
  tm_session_mode :: "string option"
  tm_agents_version :: string
  tm_created_at :: int
  tm_updated_at :: int

record mailbox_row =
  mb_id :: string
  mb_team_id :: string
  mb_to_agent_id :: string
  mb_from_agent_id :: string
  mb_msg_type :: string
  mb_content :: string
  mb_summary :: "string option"
  mb_files :: "string option"
  mb_read :: bool
  mb_created_at :: int

record task_row =
  tk_id :: string
  tk_team_id :: string
  tk_subject :: string
  tk_description :: "string option"
  tk_status :: string
  tk_owner :: "string option"
  tk_blocked_by :: string
  tk_blocks :: string
  tk_metadata :: "string option"
  tk_created_at :: int
  tk_updated_at :: int

section \<open>The domain types\<close>

record team_agent =
  ag_slot_id :: string
  ag_name :: string
  ag_role :: teammate_role
  ag_conversation_id :: string
  ag_backend :: string
  ag_model :: string
  ag_assistant_id :: "string option"
  ag_status :: "teammate_status option"
  ag_conversation_type :: "string option"
  ag_cli_path :: "string option"

record mailbox_message =
  mm_id :: string
  mm_team_id :: string
  mm_to_agent_id :: string
  mm_from_agent_id :: string
  mm_msg_type :: message_kind
  mm_content :: string
  mm_summary :: "string option"
  mm_files :: "string list option"
  mm_read :: bool
  mm_created_at :: int

record 'm team_task =
  tt_id :: string
  tt_team_id :: string
  tt_subject :: string
  tt_description :: "string option"
  tt_status :: task_status
  tt_owner :: "string option"
  tt_blocked_by :: "string list"
  tt_blocks :: "string list"
  tt_metadata :: "'m option"
  tt_created_at :: int
  tt_updated_at :: int

record 'm team_json =
  tj_of_strings :: "string list \<Rightarrow> string + string"
  tj_to_strings :: "string \<Rightarrow> string + string list"
  tj_of_meta :: "'m \<Rightarrow> string + string"
  tj_to_meta :: "string \<Rightarrow> string + 'm"

definition team_json_ok :: "'m team_json \<Rightarrow> bool" where
  "team_json_ok J \<longleftrightarrow> (\<forall>xs. \<exists>s. tj_of_strings J xs = Inr s \<and> tj_to_strings J s = Inr xs)
     \<and> (\<forall>m s. tj_of_meta J m = Inr s \<longrightarrow> (\<exists>m'. tj_to_meta J s = Inr m'))
     \<and> tj_to_strings J ''[]'' = Inr []"

lemma team_json_okD:
  assumes "team_json_ok J"
  shows "\<exists>s. tj_of_strings J xs = Inr s \<and> tj_to_strings J s = Inr xs"
    and "tj_of_meta J m = Inr s \<Longrightarrow> \<exists>m'. tj_to_meta J s = Inr m'"
    and "tj_to_strings J ''[]'' = Inr []"
  using assms unfolding team_json_ok_def by blast+

text \<open>\<open>MailboxMessage::from_row\<close>: files that cannot be read are dropped, an unknown type drops the message.\<close>

definition message_from_row :: "'m team_json \<Rightarrow> mailbox_row \<Rightarrow> mailbox_message option" where
  "message_from_row J r = (case message_kind_parse (mb_msg_type r) of
     None \<Rightarrow> None
   | Some k \<Rightarrow>
      let files = (case mb_files r of
            None \<Rightarrow> None
          | Some s \<Rightarrow> (case tj_to_strings J s of Inl _ \<Rightarrow> None | Inr v \<Rightarrow> if v = [] then None else Some v))
      in Some \<lparr>mm_id = mb_id r, mm_team_id = mb_team_id r, mm_to_agent_id = mb_to_agent_id r,
           mm_from_agent_id = mb_from_agent_id r, mm_msg_type = k, mm_content = mb_content r,
           mm_summary = mb_summary r, mm_files = files, mm_read = mb_read r, mm_created_at = mb_created_at r\<rparr>)"

text \<open>\<open>TeamTask::from_row\<close>: an unknown status counts as pending, JSON that cannot be read is an error.\<close>

definition task_from_row :: "'m team_json \<Rightarrow> task_row \<Rightarrow> string + 'm team_task" where
  "task_from_row J r =
     (let status = (case task_status_parse (tk_status r) of None \<Rightarrow> TkPending | Some s \<Rightarrow> s)
      in and_then (tj_to_strings J (tk_blocked_by r)) (\<lambda>blocked_by.
         and_then (tj_to_strings J (tk_blocks r)) (\<lambda>blocks.
         and_then (map_transpose (tj_to_meta J) (tk_metadata r)) (\<lambda>metadata.
           Inr \<lparr>tt_id = tk_id r, tt_team_id = tk_team_id r, tt_subject = tk_subject r,
             tt_description = tk_description r, tt_status = status, tt_owner = tk_owner r,
             tt_blocked_by = blocked_by, tt_blocks = blocks, tt_metadata = metadata,
             tt_created_at = tk_created_at r, tt_updated_at = tk_updated_at r\<rparr>))))"

end
