(* ===== verification/Team_Store.thy ===== *)
theory Team_Store
  imports Team_Types
begin

text \<open>
  The tables \<open>teams\<close>, \<open>mailbox\<close> and \<open>team_tasks\<close>: \<open>ITeamRepository\<close> (\<open>aionui-db/src/repository/team.rs\<close>) as a
  record of functions on a state of the repository, and \<open>SqliteTeamRepository\<close> (\<open>sqlite_team.rs\<close>) as the
  functions its statements denote on the rows in the order of their insertion, with the constraints of the
  schema. Rows with the same \<open>created_at\<close> are listed in that order. A transaction is one step; the clock is an
  argument. The locale \<open>task_table\<close> holds what the task board relies on.
\<close>

record team_update =
  tu_name :: "string option"
  tu_workspace :: "string option"
  tu_agents :: "string option"
  tu_lead_agent_id :: "string option"
  tu_session_mode :: "string option"

record task_params =
  tq_status :: "string option"
  tq_description :: "string option"
  tq_owner :: "string option"
  tq_blocked_by :: "string option"
  tq_metadata :: "string option"

record team_db =
  td_teams :: "team_row list"
  td_mailbox :: "mailbox_row list"
  td_tasks :: "task_row list"

section \<open>Teams\<close>

definition create_team_row :: "team_row \<Rightarrow> team_db \<Rightarrow> (db_error + unit) \<times> team_db" where
  "create_team_row r db =
     (if list_ex (\<lambda>t. tm_id t = tm_id r) (td_teams db)
      then (Inl (Db_Query ''UNIQUE constraint failed: teams.id''), db)
      else (Inr (), db\<lparr>td_teams := td_teams db @ [r]\<rparr>))"

definition list_team_rows :: "team_db \<Rightarrow> db_error + team_row list" where
  "list_team_rows db = Inr (sort_key tm_created_at (td_teams db))"

definition list_team_rows_by_user :: "string \<Rightarrow> team_db \<Rightarrow> db_error + team_row list" where
  "list_team_rows_by_user u db = Inr (sort_key tm_created_at (filter (\<lambda>t. tm_user_id t = u) (td_teams db)))"

definition get_team_row :: "string \<Rightarrow> team_db \<Rightarrow> db_error + team_row option" where
  "get_team_row i db = Inr (find (\<lambda>t. tm_id t = i) (td_teams db))"

definition set_column :: "'a option \<Rightarrow> 'a \<Rightarrow> 'a" where
  "set_column new old = (case new of None \<Rightarrow> old | Some x \<Rightarrow> x)"

definition set_nullable :: "'a option \<Rightarrow> 'a option \<Rightarrow> 'a option" where
  "set_nullable new old = (case new of None \<Rightarrow> old | Some x \<Rightarrow> Some x)"

definition apply_team_update :: "team_update \<Rightarrow> int \<Rightarrow> team_row \<Rightarrow> team_row" where
  "apply_team_update u now r = r
     \<lparr>tm_name := set_column (tu_name u) (tm_name r),
      tm_workspace := set_column (tu_workspace u) (tm_workspace r),
      tm_agents := set_column (tu_agents u) (tm_agents r),
      tm_lead_agent_id := set_nullable (tu_lead_agent_id u) (tm_lead_agent_id r),
      tm_session_mode := set_nullable (tu_session_mode u) (tm_session_mode r),
      tm_updated_at := now\<rparr>"

definition update_team_row :: "string \<Rightarrow> team_update \<Rightarrow> int \<Rightarrow> team_db \<Rightarrow> (db_error + unit) \<times> team_db" where
  "update_team_row i u now db =
     (if tu_name u = None \<and> tu_workspace u = None \<and> tu_agents u = None \<and> tu_lead_agent_id u = None
         \<and> tu_session_mode u = None then (Inr (), db)
      else if \<not> list_ex (\<lambda>t. tm_id t = i) (td_teams db) then (Inl (Db_Not_Found (''team '' @ i)), db)
      else (Inr (), db\<lparr>td_teams := map (\<lambda>t. if tm_id t = i then apply_team_update u now t else t) (td_teams db)\<rparr>))"

definition delete_team_row :: "string \<Rightarrow> team_db \<Rightarrow> (db_error + unit) \<times> team_db" where
  "delete_team_row i db =
     (if list_ex (\<lambda>t. tm_id t = i) (td_teams db)
      then (Inr (), db\<lparr>td_teams := filter (\<lambda>t. tm_id t \<noteq> i) (td_teams db)\<rparr>)
      else (Inl (Db_Not_Found (''team '' @ i)), db))"

section \<open>Mailbox\<close>

definition write_message_row :: "mailbox_row \<Rightarrow> team_db \<Rightarrow> (db_error + unit) \<times> team_db" where
  "write_message_row r db =
     (if list_ex (\<lambda>m. mb_id m = mb_id r) (td_mailbox db)
      then (Inl (Db_Query ''UNIQUE constraint failed: mailbox.id''), db)
      else if mb_msg_type r \<notin> set [''message'', ''idle_notification'', ''shutdown_request'']
      then (Inl (Db_Query ''CHECK constraint failed''), db)
      else (Inr (), db\<lparr>td_mailbox := td_mailbox db @ [r]\<rparr>))"

definition unread_for :: "string \<Rightarrow> string \<Rightarrow> mailbox_row \<Rightarrow> bool" where
  "unread_for team agent m \<longleftrightarrow> mb_team_id m = team \<and> mb_to_agent_id m = agent \<and> \<not> mb_read m"

definition peek_unread_rows :: "string \<Rightarrow> string \<Rightarrow> team_db \<Rightarrow> db_error + mailbox_row list" where
  "peek_unread_rows team agent db = Inr (sort_key mb_created_at (filter (unread_for team agent) (td_mailbox db)))"

definition mark_rows :: "(mailbox_row \<Rightarrow> bool) \<Rightarrow> team_db \<Rightarrow> team_db" where
  "mark_rows p db = db\<lparr>td_mailbox := map (\<lambda>m. if p m then m\<lparr>mb_read := True\<rparr> else m) (td_mailbox db)\<rparr>"

definition read_unread_and_mark ::
  "string \<Rightarrow> string \<Rightarrow> team_db \<Rightarrow> (db_error + mailbox_row list) \<times> team_db" where
  "read_unread_and_mark team agent db =
     (let rows = sort_key mb_created_at (filter (unread_for team agent) (td_mailbox db)) in
      (Inr rows, if rows = [] then db else mark_rows (unread_for team agent) db))"

fun chunks :: "nat \<Rightarrow> 'a list \<Rightarrow> 'a list list" where
  "chunks n [] = []"
| "chunks n (x # xs) = (if n = 0 then [x # xs] else take n (x # xs) # chunks n (drop n (x # xs)))"

definition mark_read_rows :: "string list \<Rightarrow> team_db \<Rightarrow> (db_error + unit) \<times> team_db" where
  "mark_read_rows ids db = (Inr (), fold (\<lambda>chunk. mark_rows (\<lambda>m. mb_id m \<in> set chunk)) (chunks 500 ids) db)"

text \<open>\<open>LIMIT ?\<close>: a negative limit is no limit.\<close>

definition sql_limit :: "int option \<Rightarrow> 'a list \<Rightarrow> 'a list" where
  "sql_limit l xs = (case l of None \<Rightarrow> xs | Some n \<Rightarrow> if n < 0 then xs else take (nat n) xs)"

definition history_rows :: "string \<Rightarrow> string \<Rightarrow> int option \<Rightarrow> team_db \<Rightarrow> db_error + mailbox_row list" where
  "history_rows team agent l db = Inr (sql_limit l (sort_key mb_created_at
     (filter (\<lambda>m. mb_team_id m = team \<and> mb_to_agent_id m = agent) (td_mailbox db))))"

definition delete_mailbox_rows :: "string \<Rightarrow> team_db \<Rightarrow> (db_error + unit) \<times> team_db" where
  "delete_mailbox_rows team db = (Inr (), db\<lparr>td_mailbox := filter (\<lambda>m. mb_team_id m \<noteq> team) (td_mailbox db)\<rparr>)"

section \<open>Tasks\<close>

definition status_check :: "string \<Rightarrow> bool" where
  "status_check s \<longleftrightarrow> s \<in> set [''pending'', ''in_progress'', ''completed'', ''deleted'']"

definition create_task_row :: "task_row \<Rightarrow> team_db \<Rightarrow> (db_error + unit) \<times> team_db" where
  "create_task_row r db =
     (if list_ex (\<lambda>t. tk_id t = tk_id r) (td_tasks db)
      then (Inl (Db_Query ''UNIQUE constraint failed: team_tasks.id''), db)
      else if \<not> status_check (tk_status r) then (Inl (Db_Query ''CHECK constraint failed''), db)
      else (Inr (), db\<lparr>td_tasks := td_tasks db @ [r]\<rparr>))"

definition find_task_row :: "string \<Rightarrow> string \<Rightarrow> team_db \<Rightarrow> db_error + task_row option" where
  "find_task_row team i db = Inr (find (\<lambda>t. tk_team_id t = team \<and> tk_id t = i) (td_tasks db))"

definition task_at :: "team_db \<Rightarrow> string \<Rightarrow> task_row option" where
  "task_at db i = find (\<lambda>t. tk_id t = i) (td_tasks db)"

definition set_task :: "string \<Rightarrow> (task_row \<Rightarrow> task_row) \<Rightarrow> team_db \<Rightarrow> team_db" where
  "set_task i f db = db\<lparr>td_tasks := map (\<lambda>t. if tk_id t = i then f t else t) (td_tasks db)\<rparr>"

definition no_params :: "task_params \<Rightarrow> bool" where
  "no_params p \<longleftrightarrow> tq_status p = None \<and> tq_description p = None \<and> tq_owner p = None
     \<and> tq_blocked_by p = None \<and> tq_metadata p = None"

definition apply_task_params :: "task_params \<Rightarrow> int \<Rightarrow> task_row \<Rightarrow> task_row" where
  "apply_task_params p now r = r
     \<lparr>tk_status := set_column (tq_status p) (tk_status r),
      tk_description := set_nullable (tq_description p) (tk_description r),
      tk_owner := set_nullable (tq_owner p) (tk_owner r),
      tk_blocked_by := set_column (tq_blocked_by p) (tk_blocked_by r),
      tk_metadata := set_nullable (tq_metadata p) (tk_metadata r),
      tk_updated_at := now\<rparr>"

definition update_task_row :: "string \<Rightarrow> task_params \<Rightarrow> int \<Rightarrow> team_db \<Rightarrow> (db_error + unit) \<times> team_db" where
  "update_task_row i p now db =
     (if no_params p then (Inr (), db)
      else if task_at db i = None then (Inl (Db_Not_Found (''task '' @ i)), db)
      else if \<not> (case tq_status p of None \<Rightarrow> True | Some s \<Rightarrow> status_check s)
      then (Inl (Db_Query ''CHECK constraint failed''), db)
      else (Inr (), set_task i (apply_task_params p now) db))"

definition list_task_rows :: "string \<Rightarrow> team_db \<Rightarrow> db_error + task_row list" where
  "list_task_rows team db = Inr (sort_key tk_created_at (filter (\<lambda>t. tk_team_id t = team) (td_tasks db)))"

text \<open>\<open>unwrap_or_default\<close> of what is parsed and \<open>unwrap_or_else\<close> of what is written.\<close>

definition strings_or_empty :: "'m team_json \<Rightarrow> string \<Rightarrow> string list" where
  "strings_or_empty J s = (case tj_to_strings J s of Inl _ \<Rightarrow> [] | Inr xs \<Rightarrow> xs)"

definition strings_text :: "'m team_json \<Rightarrow> string list \<Rightarrow> string" where
  "strings_text J xs = (case tj_of_strings J xs of Inl _ \<Rightarrow> ''[]'' | Inr s \<Rightarrow> s)"

definition with_block :: "string \<Rightarrow> string list \<Rightarrow> string list" where
  "with_block i xs = (if i \<in> set xs then xs else xs @ [i])"

definition append_to_blocks ::
  "'m team_json \<Rightarrow> string \<Rightarrow> string \<Rightarrow> int \<Rightarrow> team_db \<Rightarrow> (db_error + unit) \<times> team_db" where
  "append_to_blocks J i blocked now db = (case task_at db i of
     None \<Rightarrow> (Inl (Db_Not_Found (''task '' @ i)), db)
   | Some r \<Rightarrow>
      let new_blocks = strings_text J (with_block blocked (strings_or_empty J (tk_blocks r)))
      in (Inr (), set_task i (\<lambda>t. t\<lparr>tk_blocks := new_blocks, tk_updated_at := now\<rparr>) db))"

definition remove_from_blocked_by ::
  "'m team_json \<Rightarrow> string \<Rightarrow> string \<Rightarrow> int \<Rightarrow> team_db \<Rightarrow> (db_error + unit) \<times> team_db" where
  "remove_from_blocked_by J i unblocked now db = (case task_at db i of
     None \<Rightarrow> (Inl (Db_Not_Found (''task '' @ i)), db)
   | Some r \<Rightarrow>
      let new_blocked_by = strings_text J (filter (\<lambda>j. j \<noteq> unblocked) (strings_or_empty J (tk_blocked_by r)))
      in (Inr (), set_task i (\<lambda>t. t\<lparr>tk_blocked_by := new_blocked_by, tk_updated_at := now\<rparr>) db))"

definition delete_task_rows :: "string \<Rightarrow> team_db \<Rightarrow> (db_error + unit) \<times> team_db" where
  "delete_task_rows team db = (Inr (), db\<lparr>td_tasks := filter (\<lambda>t. tk_team_id t \<noteq> team) (td_tasks db)\<rparr>)"

section \<open>The repository\<close>

record 'db team_repo =
  trp_write_message :: "mailbox_row \<Rightarrow> 'db \<Rightarrow> (db_error + unit) \<times> 'db"
  trp_read_unread_and_mark :: "string \<Rightarrow> string \<Rightarrow> 'db \<Rightarrow> (db_error + mailbox_row list) \<times> 'db"
  trp_peek_unread :: "string \<Rightarrow> string \<Rightarrow> 'db \<Rightarrow> db_error + mailbox_row list"
  trp_mark_read_batch :: "string list \<Rightarrow> 'db \<Rightarrow> (db_error + unit) \<times> 'db"
  trp_get_history :: "string \<Rightarrow> string \<Rightarrow> int option \<Rightarrow> 'db \<Rightarrow> db_error + mailbox_row list"
  trp_delete_mailbox :: "string \<Rightarrow> 'db \<Rightarrow> (db_error + unit) \<times> 'db"
  trp_create_task :: "task_row \<Rightarrow> 'db \<Rightarrow> (db_error + unit) \<times> 'db"
  trp_find_task :: "string \<Rightarrow> string \<Rightarrow> 'db \<Rightarrow> db_error + task_row option"
  trp_update_task :: "string \<Rightarrow> task_params \<Rightarrow> int \<Rightarrow> 'db \<Rightarrow> (db_error + unit) \<times> 'db"
  trp_list_tasks :: "string \<Rightarrow> 'db \<Rightarrow> db_error + task_row list"
  trp_append_to_blocks :: "string \<Rightarrow> string \<Rightarrow> int \<Rightarrow> 'db \<Rightarrow> (db_error + unit) \<times> 'db"
  trp_remove_from_blocked_by :: "string \<Rightarrow> string \<Rightarrow> int \<Rightarrow> 'db \<Rightarrow> (db_error + unit) \<times> 'db"
  trp_delete_tasks :: "string \<Rightarrow> 'db \<Rightarrow> (db_error + unit) \<times> 'db"

definition sqlite_team_repo :: "'m team_json \<Rightarrow> team_db team_repo" where
  "sqlite_team_repo J = \<lparr>trp_write_message = write_message_row, trp_read_unread_and_mark = read_unread_and_mark,
     trp_peek_unread = peek_unread_rows, trp_mark_read_batch = mark_read_rows, trp_get_history = history_rows,
     trp_delete_mailbox = delete_mailbox_rows, trp_create_task = create_task_row, trp_find_task = find_task_row,
     trp_update_task = update_task_row, trp_list_tasks = list_task_rows,
     trp_append_to_blocks = append_to_blocks J, trp_remove_from_blocked_by = remove_from_blocked_by J,
     trp_delete_tasks = delete_task_rows\<rparr>"

end
