(* ===== verification/Team_Mailbox.thy ===== *)
theory Team_Mailbox
  imports Team_Store
begin

text \<open>
  \<open>aionui-team/src/mailbox.rs\<close>: \<open>Mailbox\<close> over a repository, the messages between the members of a team. The
  generated identifier and the clock are arguments.
\<close>

definition new_message_row ::
  "'m team_json \<Rightarrow> string \<Rightarrow> string \<Rightarrow> string \<Rightarrow> string \<Rightarrow> message_kind \<Rightarrow> string \<Rightarrow> string option
   \<Rightarrow> string list option \<Rightarrow> int \<Rightarrow> mailbox_row" where
  "new_message_row J i team to from kind content summary files now =
     \<lparr>mb_id = i, mb_team_id = team, mb_to_agent_id = to, mb_from_agent_id = from,
      mb_msg_type = message_kind_str kind, mb_content = content, mb_summary = summary,
      mb_files = (case files of None \<Rightarrow> None
        | Some f \<Rightarrow> if f = [] then None else Some (case tj_of_strings J f of Inl _ \<Rightarrow> [] | Inr s \<Rightarrow> s)),
      mb_read = False, mb_created_at = now\<rparr>"

definition write_with_files ::
  "'m team_json \<Rightarrow> 'db team_repo \<Rightarrow> string \<Rightarrow> string \<Rightarrow> string \<Rightarrow> string \<Rightarrow> message_kind \<Rightarrow> string \<Rightarrow> string option
   \<Rightarrow> string list option \<Rightarrow> int \<Rightarrow> 'db \<Rightarrow> (team_error + mailbox_message) \<times> 'db" where
  "write_with_files J R i team to from kind content summary files now db =
     (let row = new_message_row J i team to from kind content summary files now in
      (case trp_write_message R row db of
         (Inl e, db') \<Rightarrow> (Inl (DatabaseError e), db')
       | (Inr _, db') \<Rightarrow>
          (ok_or (InvalidRequest (''invalid message type: '' @ message_kind_str kind)) (message_from_row J row), db')))"

definition mailbox_write ::
  "'m team_json \<Rightarrow> 'db team_repo \<Rightarrow> string \<Rightarrow> string \<Rightarrow> string \<Rightarrow> string \<Rightarrow> message_kind \<Rightarrow> string \<Rightarrow> string option
   \<Rightarrow> int \<Rightarrow> 'db \<Rightarrow> (team_error + mailbox_message) \<times> 'db" where
  "mailbox_write J R i team to from kind content summary =
     write_with_files J R i team to from kind content summary None"

definition mailbox_read_unread ::
  "'m team_json \<Rightarrow> 'db team_repo \<Rightarrow> string \<Rightarrow> string \<Rightarrow> 'db \<Rightarrow> (team_error + mailbox_message list) \<times> 'db" where
  "mailbox_read_unread J R team agent db = (case trp_read_unread_and_mark R team agent db of
     (Inl e, db') \<Rightarrow> (Inl (DatabaseError e), db')
   | (Inr rows, db') \<Rightarrow> (Inr (List.map_filter (message_from_row J) rows), db'))"

definition mailbox_peek_unread ::
  "'m team_json \<Rightarrow> 'db team_repo \<Rightarrow> string \<Rightarrow> string \<Rightarrow> 'db \<Rightarrow> team_error + mailbox_message list" where
  "mailbox_peek_unread J R team agent db = and_then (map_err DatabaseError (trp_peek_unread R team agent db))
     (\<lambda>rows. Inr (List.map_filter (message_from_row J) rows))"

definition mailbox_mark_read ::
  "'db team_repo \<Rightarrow> string list \<Rightarrow> 'db \<Rightarrow> (team_error + unit) \<times> 'db" where
  "mailbox_mark_read R ids db = (case trp_mark_read_batch R ids db of (r, db') \<Rightarrow> (map_err DatabaseError r, db'))"

fun unread_ids :: "'m team_json \<Rightarrow> 'db team_repo \<Rightarrow> string \<Rightarrow> string list \<Rightarrow> 'db \<Rightarrow> team_error + string list" where
  "unread_ids J R team [] db = Inr []"
| "unread_ids J R team (a # as) db = and_then (mailbox_peek_unread J R team a db) (\<lambda>unread.
     and_then (unread_ids J R team as db) (\<lambda>ids. Inr (map mm_id unread @ ids)))"

definition mark_all_unread_for_agents_read ::
  "'m team_json \<Rightarrow> 'db team_repo \<Rightarrow> string \<Rightarrow> string list \<Rightarrow> 'db \<Rightarrow> (team_error + nat) \<times> 'db" where
  "mark_all_unread_for_agents_read J R team agents db = (case unread_ids J R team agents db of
     Inl e \<Rightarrow> (Inl e, db)
   | Inr ids \<Rightarrow>
       if ids = [] then (Inr 0, db)
       else (case mailbox_mark_read R ids db of
           (Inl e, db') \<Rightarrow> (Inl e, db')
         | (Inr _, db') \<Rightarrow> (Inr (length ids), db')))"

definition mailbox_history ::
  "'m team_json \<Rightarrow> 'db team_repo \<Rightarrow> string \<Rightarrow> string \<Rightarrow> int option \<Rightarrow> 'db \<Rightarrow> team_error + mailbox_message list" where
  "mailbox_history J R team agent l db = and_then (map_err DatabaseError (trp_get_history R team agent l db))
     (\<lambda>rows. Inr (List.map_filter (message_from_row J) rows))"

definition has_unread :: "'db team_repo \<Rightarrow> string \<Rightarrow> string \<Rightarrow> 'db \<Rightarrow> team_error + bool" where
  "has_unread R team agent db = and_then (map_err DatabaseError (trp_get_history R team agent None db))
     (\<lambda>rows. Inr (list_ex (\<lambda>r. \<not> mb_read r) rows))"

definition mailbox_delete_by_team :: "'db team_repo \<Rightarrow> string \<Rightarrow> 'db \<Rightarrow> (team_error + unit) \<times> 'db" where
  "mailbox_delete_by_team R team db = (case trp_delete_mailbox R team db of (r, db') \<Rightarrow> (map_err DatabaseError r, db'))"

end
