(* ===== verification/Task_Board.thy ===== *)
theory Task_Board
  imports Team_Store
begin

text \<open>
  \<open>aionui-team/src/task_board.rs\<close>: \<open>TaskBoard\<close> over a repository. The generated identifier and the clock are
  arguments; \<open>clk k\<close> is the k-th reading of the clock in the call.
\<close>

record 'm task_update =
  tup_status :: "task_status option"
  tup_description :: "string option"
  tup_owner :: "string option"
  tup_blocked_by :: "string list option"
  tup_metadata :: "'m option"

definition no_task_update :: "'m task_update" where
  "no_task_update = \<lparr>tup_status = None, tup_description = None, tup_owner = None, tup_blocked_by = None, tup_metadata = None\<rparr>"

fun check_deps :: "'db team_repo \<Rightarrow> string \<Rightarrow> string list \<Rightarrow> 'db \<Rightarrow> team_error + unit" where
  "check_deps R team [] db = Inr ()"
| "check_deps R team (d # ds) db = and_then (map_err DatabaseError (trp_find_task R team d db)) (\<lambda>dep.
     if dep = None then Inl (BlockedTaskNotFound d) else check_deps R team ds db)"

definition new_task_row ::
  "string \<Rightarrow> string \<Rightarrow> string \<Rightarrow> string option \<Rightarrow> string option \<Rightarrow> string \<Rightarrow> int \<Rightarrow> task_row" where
  "new_task_row i team subject description owner blocked_by_json now =
     \<lparr>tk_id = i, tk_team_id = team, tk_subject = subject, tk_description = description,
      tk_status = task_status_str TkPending, tk_owner = owner, tk_blocked_by = blocked_by_json, tk_blocks = ''[]'',
      tk_metadata = None, tk_created_at = now, tk_updated_at = now\<rparr>"

fun append_all ::
  "'db team_repo \<Rightarrow> string list \<Rightarrow> string \<Rightarrow> (nat \<Rightarrow> int) \<Rightarrow> 'db \<Rightarrow> (team_error + unit) \<times> 'db" where
  "append_all R [] i clk db = (Inr (), db)"
| "append_all R (d # ds) i clk db = (case trp_append_to_blocks R d i (clk 0) db of
     (Inl e, db') \<Rightarrow> (Inl (DatabaseError e), db')
   | (Inr _, db') \<Rightarrow> append_all R ds i (\<lambda>k. clk (Suc k)) db')"

definition board_create ::
  "'m team_json \<Rightarrow> 'db team_repo \<Rightarrow> string \<Rightarrow> string \<Rightarrow> string option \<Rightarrow> string option \<Rightarrow> string list
   \<Rightarrow> string \<Rightarrow> (nat \<Rightarrow> int) \<Rightarrow> 'db \<Rightarrow> (team_error + 'm team_task) \<times> 'db" where
  "board_create J R team subject description owner blocked_by i clk db =
     (case check_deps R team blocked_by db of
        Inl e \<Rightarrow> (Inl e, db)
      | Inr _ \<Rightarrow>
     (case tj_of_strings J blocked_by of
        Inl e \<Rightarrow> (Inl (JsonError e), db)
      | Inr blocked_by_json \<Rightarrow>
         let row = new_task_row i team subject description owner blocked_by_json (clk 0) in
     (case trp_create_task R row db of
        (Inl e, db1) \<Rightarrow> (Inl (DatabaseError e), db1)
      | (Inr _, db1) \<Rightarrow>
     (case append_all R blocked_by i (\<lambda>k. clk (Suc k)) db1 of
        (Inl e, db2) \<Rightarrow> (Inl e, db2)
      | (Inr _, db2) \<Rightarrow> (map_err JsonError (task_from_row J row), db2)))))"

fun unblock_all ::
  "'db team_repo \<Rightarrow> string list \<Rightarrow> string \<Rightarrow> (nat \<Rightarrow> int) \<Rightarrow> 'db \<Rightarrow> (team_error + unit) \<times> 'db" where
  "unblock_all R [] i clk db = (Inr (), db)"
| "unblock_all R (t # ts) i clk db = (case trp_remove_from_blocked_by R t i (clk 0) db of
     (Inl e, db') \<Rightarrow> (Inl (DatabaseError e), db')
   | (Inr _, db') \<Rightarrow> unblock_all R ts i (\<lambda>k. clk (Suc k)) db')"

definition check_unblocks ::
  "'m team_json \<Rightarrow> 'db team_repo \<Rightarrow> string \<Rightarrow> task_row \<Rightarrow> (nat \<Rightarrow> int) \<Rightarrow> 'db \<Rightarrow> (team_error + unit) \<times> 'db" where
  "check_unblocks J R i row clk db = (case tj_to_strings J (tk_blocks row) of
     Inl e \<Rightarrow> (Inl (JsonError e), db)
   | Inr blocks \<Rightarrow> unblock_all R blocks i clk db)"

definition task_params_of :: "'m team_json \<Rightarrow> 'm task_update \<Rightarrow> team_error + task_params" where
  "task_params_of J u =
     and_then (map_err JsonError (map_transpose (tj_of_strings J) (tup_blocked_by u))) (\<lambda>blocked_by.
     and_then (map_err JsonError (map_transpose (tj_of_meta J) (tup_metadata u))) (\<lambda>metadata.
       Inr \<lparr>tq_status = map_option task_status_str (tup_status u), tq_description = tup_description u,
         tq_owner = tup_owner u, tq_blocked_by = blocked_by, tq_metadata = metadata\<rparr>))"

definition require_task :: "'db team_repo \<Rightarrow> string \<Rightarrow> string \<Rightarrow> 'db \<Rightarrow> team_error + task_row" where
  "require_task R team i db = and_then (map_err DatabaseError (trp_find_task R team i db)) (ok_or (TaskNotFound i))"

definition board_update ::
  "'m team_json \<Rightarrow> 'db team_repo \<Rightarrow> string \<Rightarrow> string \<Rightarrow> 'm task_update \<Rightarrow> (nat \<Rightarrow> int) \<Rightarrow> 'db
   \<Rightarrow> (team_error + 'm team_task) \<times> 'db" where
  "board_update J R team i u clk db =
     (case require_task R team i db of
        Inl e \<Rightarrow> (Inl e, db)
      | Inr existing \<Rightarrow>
     (case task_params_of J u of
        Inl e \<Rightarrow> (Inl e, db)
      | Inr params \<Rightarrow>
     (case trp_update_task R i params (clk 0) db of
        (Inl e, db1) \<Rightarrow> (Inl (DatabaseError e), db1)
      | (Inr _, db1) \<Rightarrow>
     (case (if tup_status u = Some TkCompleted then check_unblocks J R i existing (\<lambda>k. clk (Suc k)) db1
            else (Inr (), db1)) of
        (Inl e, db2) \<Rightarrow> (Inl e, db2)
      | (Inr _, db2) \<Rightarrow>
         (and_then (require_task R team i db2) (\<lambda>updated. map_err JsonError (task_from_row J updated)), db2)))))"

text \<open>Rows that cannot be read are left out.\<close>

definition board_list :: "'m team_json \<Rightarrow> 'db team_repo \<Rightarrow> string \<Rightarrow> 'db \<Rightarrow> team_error + 'm team_task list" where
  "board_list J R team db = and_then (map_err DatabaseError (trp_list_tasks R team db)) (\<lambda>rows.
     Inr (List.map_filter (\<lambda>r. case task_from_row J r of Inl _ \<Rightarrow> None | Inr t \<Rightarrow> Some t) rows))"

end
