(* ===== verification/Task_Table.thy ===== *)
theory Task_Table
  imports Task_Board
begin

text \<open>
  What the task board relies on, as the contract \<open>task_store\<close> of a repository: seen through \<open>from_row\<close>, the table
  is a map from identifiers to tasks, each operation changes the task of one identifier as it says, and
  tasks once stored can be read. The table of \<open>sqlite_team.rs\<close> meets it as long as its rows are well typed
  (\<open>tasks_ok\<close>), which every operation keeps.
\<close>

section \<open>Tasks and their rows\<close>

definition task_of_row :: "'m team_json \<Rightarrow> task_row \<Rightarrow> 'm team_task option" where
  "task_of_row J r = (case task_from_row J r of Inl _ \<Rightarrow> None | Inr t \<Rightarrow> Some t)"

definition task_of :: "'m team_json \<Rightarrow> team_db \<Rightarrow> string \<Rightarrow> 'm team_task option" where
  "task_of J db i = Option.bind (task_at db i) (task_of_row J)"

text \<open>What an update leaves of a task; the metadata are read back as some value.\<close>

definition updated_task :: "'m task_update \<Rightarrow> int \<Rightarrow> 'm option \<Rightarrow> 'm team_task \<Rightarrow> 'm team_task" where
  "updated_task u now meta t = t
     \<lparr>tt_status := set_column (tup_status u) (tt_status t),
      tt_description := set_nullable (tup_description u) (tt_description t),
      tt_owner := set_nullable (tup_owner u) (tt_owner t),
      tt_blocked_by := set_column (tup_blocked_by u) (tt_blocked_by t),
      tt_metadata := meta,
      tt_updated_at := now\<rparr>"

definition with_blocks :: "string \<Rightarrow> int \<Rightarrow> 'm team_task \<Rightarrow> 'm team_task" where
  "with_blocks i now t = t\<lparr>tt_blocks := with_block i (tt_blocks t), tt_updated_at := now\<rparr>"

definition without_blocker :: "string \<Rightarrow> int \<Rightarrow> 'm team_task \<Rightarrow> 'm team_task" where
  "without_blocker i now t = t\<lparr>tt_blocked_by := filter (\<lambda>j. j \<noteq> i) (tt_blocked_by t), tt_updated_at := now\<rparr>"

definition of_team :: "string \<Rightarrow> 'm team_task option \<Rightarrow> 'm team_task option" where
  "of_team team x = Option.bind x (\<lambda>t. if tt_team_id t = team then Some t else None)"

section \<open>The contract\<close>

locale task_store =
  fixes J :: "'m team_json" and R :: "'db team_repo"
    and task :: "'db \<Rightarrow> string \<Rightarrow> 'm team_task option" and ok :: "'db \<Rightarrow> bool"
  assumes find_task: "ok db \<Longrightarrow> \<exists>x. trp_find_task R team i db = Inr x
        \<and> map_option (task_from_row J) x = map_option Inr (of_team team (task db i))"
    and create_task: "ok db \<Longrightarrow> task_from_row J r = Inr t \<Longrightarrow> status_check (tk_status r) \<Longrightarrow> task db (tt_id t) = None
        \<Longrightarrow> \<exists>db'. trp_create_task R r db = (Inr (), db') \<and> ok db' \<and> task db' = (task db)(tt_id t \<mapsto> t)"
    and create_refused: "ok db \<Longrightarrow> task_from_row J r = Inr t \<Longrightarrow> task db (tt_id t) \<noteq> None
        \<Longrightarrow> \<exists>e. trp_create_task R r db = (Inl e, db)"
    and update_task: "ok db \<Longrightarrow> task_params_of J u = Inr p \<Longrightarrow> \<not> no_params p \<Longrightarrow> task db i = Some t
        \<Longrightarrow> \<exists>db' meta. trp_update_task R i p now db = (Inr (), db') \<and> ok db'
              \<and> task db' = (task db)(i \<mapsto> updated_task u now meta t)"
    and update_nothing: "ok db \<Longrightarrow> no_params p \<Longrightarrow> trp_update_task R i p now db = (Inr (), db)"
    and append_to: "ok db \<Longrightarrow> task db i = Some t
        \<Longrightarrow> \<exists>db'. trp_append_to_blocks R i j now db = (Inr (), db') \<and> ok db'
              \<and> task db' = (task db)(i \<mapsto> with_blocks j now t)"
    and remove_from: "ok db \<Longrightarrow> task db i = Some t
        \<Longrightarrow> \<exists>db'. trp_remove_from_blocked_by R i j now db = (Inr (), db') \<and> ok db'
              \<and> task db' = (task db)(i \<mapsto> without_blocker j now t)"
    and delete_all: "ok db \<Longrightarrow> \<exists>db'. trp_delete_tasks R team db = (Inr (), db') \<and> ok db'
              \<and> task db' = (\<lambda>i. if of_team team (task db i) = None then task db i else None)"
    and task_id: "ok db \<Longrightarrow> task db i = Some t \<Longrightarrow> tt_id t = i"
    and json: "ok db \<Longrightarrow> team_json_ok J"

section \<open>The table\<close>

definition row_typed :: "'m team_json \<Rightarrow> task_row \<Rightarrow> bool" where
  "row_typed J r \<longleftrightarrow> status_check (tk_status r) \<and> task_of_row J r \<noteq> None"

definition tasks_ok :: "'m team_json \<Rightarrow> team_db \<Rightarrow> bool" where
  "tasks_ok J db \<longleftrightarrow> distinct (map tk_id (td_tasks db)) \<and> (\<forall>r \<in> set (td_tasks db). row_typed J r)"

lemma status_check_str [simp]: "status_check (task_status_str s)"
  by (cases s) (simp_all add: status_check_def)

lemma status_check_parse: "status_check s \<longleftrightarrow> (\<exists>x. task_status_parse s = Some x)"
  by (auto simp: status_check_def task_status_parse_def split: if_splits)

lemma task_of_row_iff:
  "task_of_row J r = Some t \<longleftrightarrow> task_from_row J r = Inr t"
  by (auto simp: task_of_row_def split: sum.splits)

lemma task_from_row_iff:
  "task_from_row J r = Inr t \<longleftrightarrow> (\<exists>bs ks m. tj_to_strings J (tk_blocked_by r) = Inr bs
     \<and> tj_to_strings J (tk_blocks r) = Inr ks \<and> map_transpose (tj_to_meta J) (tk_metadata r) = Inr m
     \<and> t = \<lparr>tt_id = tk_id r, tt_team_id = tk_team_id r, tt_subject = tk_subject r,
          tt_description = tk_description r,
          tt_status = (case task_status_parse (tk_status r) of None \<Rightarrow> TkPending | Some s \<Rightarrow> s),
          tt_owner = tk_owner r, tt_blocked_by = bs, tt_blocks = ks, tt_metadata = m,
          tt_created_at = tk_created_at r, tt_updated_at = tk_updated_at r\<rparr>)"
  by (auto simp: task_from_row_def Let_def)

lemma task_from_row_ids:
  assumes "task_from_row J r = Inr t"
  shows "tt_id t = tk_id r" and "tt_team_id t = tk_team_id r" and "tt_created_at t = tk_created_at r"
  using assms by (auto simp: task_from_row_iff)

lemma strings_text_read:
  assumes "team_json_ok J"
  shows "tj_to_strings J (strings_text J xs) = Inr xs"
  using team_json_okD(1) [OF assms, of xs] by (auto simp: strings_text_def)

lemma find_set_task:
  assumes "\<And>r. tk_id (f r) = tk_id r"
  shows "find (\<lambda>r. tk_id r = j) (map (\<lambda>r. if tk_id r = i then f r else r) rs)
    = (if j = i then map_option f (find (\<lambda>r. tk_id r = j) rs) else find (\<lambda>r. tk_id r = j) rs)"
  using assms by (induction rs) auto

lemma find_task_iff:
  assumes "distinct (map tk_id rs)"
  shows "find (\<lambda>r. tk_id r = i) rs = Some r \<longleftrightarrow> r \<in> set rs \<and> tk_id r = i"
  using assms by (induction rs) auto

lemma find_team_task:
  "distinct (map tk_id rs) \<Longrightarrow> find (\<lambda>r. tk_team_id r = team \<and> tk_id r = i) rs
    = Option.bind (find (\<lambda>r. tk_id r = i) rs) (\<lambda>r. if tk_team_id r = team then Some r else None)"
  by (induction rs) (auto simp: find_None_iff find_task_iff image_iff split: bind_split)

lemma tasks_ok_row:
  assumes "tasks_ok J db" and "task_at db i = Some r"
  shows "r \<in> set (td_tasks db)" and "tk_id r = i" and "row_typed J r"
  using assms by (auto simp: tasks_ok_def task_at_def find_task_iff)

lemma task_of_iff:
  assumes "tasks_ok J db"
  shows "task_of J db i = Some t \<longleftrightarrow> (\<exists>r. task_at db i = Some r \<and> task_from_row J r = Inr t)"
  by (auto simp: task_of_def task_of_row_iff bind_eq_Some_conv)

lemma task_of_None:
  assumes "tasks_ok J db"
  shows "task_of J db i = None \<longleftrightarrow> task_at db i = None"
proof (cases "task_at db i")
  case (Some r)
  then have "row_typed J r"
    using assms by (rule tasks_ok_row(3) [rotated])
  with Some show ?thesis by (simp add: task_of_def row_typed_def)
qed (simp add: task_of_def)

text \<open>The one lemma behind every write to an existing row.\<close>

lemma set_task_ok:
  assumes db: "tasks_ok J db" and r: "task_at db i = Some r"
    and f: "\<And>r. tk_id (f r) = tk_id r" and t: "status_check (tk_status (f r))" "task_from_row J (f r) = Inr t"
  shows "tasks_ok J (set_task i f db)" and "task_of J (set_task i f db) = (task_of J db)(i \<mapsto> t)"
proof -
  have "map tk_id (map (\<lambda>r. if tk_id r = i then f r else r) (td_tasks db)) = map tk_id (td_tasks db)"
    using f by auto
  moreover have "row_typed J (f r')" if "r' \<in> set (td_tasks db)" "tk_id r' = i" for r'
  proof -
    have "r' = r"
      using that r db by (metis tasks_ok_def task_at_def find_task_iff option.inject)
    with t show ?thesis by (simp add: row_typed_def task_of_row_def)
  qed
  ultimately show "tasks_ok J (set_task i f db)"
    using db by (auto simp: tasks_ok_def set_task_def simp del: map_map)
  show "task_of J (set_task i f db) = (task_of J db)(i \<mapsto> t)"
    using r t by (auto simp: fun_eq_iff task_of_def task_at_def set_task_def find_set_task [of f, OF f] task_of_row_def)
qed

text \<open>Each write of the repository, seen on the tasks.\<close>

lemma create_task_row_ok:
  assumes db: "tasks_ok J db" and r: "task_from_row J r = Inr t" "status_check (tk_status r)"
    and new: "task_of J db (tt_id t) = None"
  shows "\<exists>db'. create_task_row r db = (Inr (), db') \<and> tasks_ok J db' \<and> task_of J db' = (task_of J db)(tt_id t \<mapsto> t)"
proof -
  have i: "tt_id t = tk_id r"
    by (rule task_from_row_ids [OF r(1)])
  have none: "task_at db (tk_id r) = None"
    using new unfolding i task_of_None [OF db] .
  then have n: "\<forall>x \<in> set (td_tasks db). tk_id x \<noteq> tk_id r"
    by (simp add: task_at_def find_None_iff)
  let ?db = "db\<lparr>td_tasks := td_tasks db @ [r]\<rparr>"
  have "create_task_row r db = (Inr (), ?db)"
    using n r(2) by (auto simp: create_task_row_def list_ex_iff)
  moreover have "tasks_ok J ?db"
    using db r n by (auto simp: tasks_ok_def row_typed_def task_of_row_def)
  moreover have "task_at ?db = (task_at db)(tk_id r \<mapsto> r)"
    using none by (auto simp: fun_eq_iff task_at_def find_append split: option.splits)
  then have "task_of J ?db = (task_of J db)(tt_id t \<mapsto> t)"
    using r(1) by (simp add: fun_eq_iff task_of_def i task_of_row_def)
  ultimately show ?thesis by blast
qed

lemma task_params_of_iff:
  "task_params_of J u = Inr p \<longleftrightarrow> (\<exists>bs m. map_transpose (tj_of_strings J) (tup_blocked_by u) = Inr bs
     \<and> map_transpose (tj_of_meta J) (tup_metadata u) = Inr m
     \<and> p = \<lparr>tq_status = map_option task_status_str (tup_status u), tq_description = tup_description u,
          tq_owner = tup_owner u, tq_blocked_by = bs, tq_metadata = m\<rparr>)"
  by (auto simp: task_params_of_def)

lemma apply_params_read:
  assumes J: "team_json_ok J" and p: "task_params_of J u = Inr p" and r: "task_from_row J r = Inr t"
  shows "\<exists>meta. task_from_row J (apply_task_params p now r) = Inr (updated_task u now meta t)"
proof -
  obtain bs m where p': "map_transpose (tj_of_strings J) (tup_blocked_by u) = Inr bs"
      "map_transpose (tj_of_meta J) (tup_metadata u) = Inr m"
      "p = \<lparr>tq_status = map_option task_status_str (tup_status u), tq_description = tup_description u,
          tq_owner = tup_owner u, tq_blocked_by = bs, tq_metadata = m\<rparr>"
    using p by (auto simp: task_params_of_iff)
  obtain ks0 bs0 m0 where r': "tj_to_strings J (tk_blocked_by r) = Inr bs0" "tj_to_strings J (tk_blocks r) = Inr ks0"
      "map_transpose (tj_to_meta J) (tk_metadata r) = Inr m0"
      and t: "t = \<lparr>tt_id = tk_id r, tt_team_id = tk_team_id r, tt_subject = tk_subject r,
          tt_description = tk_description r,
          tt_status = (case task_status_parse (tk_status r) of None \<Rightarrow> TkPending | Some s \<Rightarrow> s),
          tt_owner = tk_owner r, tt_blocked_by = bs0, tt_blocks = ks0, tt_metadata = m0,
          tt_created_at = tk_created_at r, tt_updated_at = tk_updated_at r\<rparr>"
    using r by (auto simp: task_from_row_iff)
  have "tj_to_strings J (set_column bs (tk_blocked_by r)) = Inr (set_column (tup_blocked_by u) bs0)"
  proof (cases "tup_blocked_by u")
    case None
    with p'(1) r' show ?thesis by (simp add: set_column_def)
  next
    case (Some xs)
    with p'(1) team_json_okD(1) [OF J, of xs] show ?thesis by (auto simp: set_column_def)
  qed
  moreover have "\<exists>meta. map_transpose (tj_to_meta J) (set_nullable m (tk_metadata r)) = Inr meta"
  proof (cases "tup_metadata u")
    case None
    with p'(2) r' show ?thesis by (simp add: set_nullable_def)
  next
    case (Some x)
    then obtain s where s: "m = Some s" "tj_of_meta J x = Inr s"
      using p'(2) by auto
    obtain y where "tj_to_meta J s = Inr y"
      using team_json_okD(2) [OF J s(2)] by blast
    then show ?thesis by (simp add: s(1) set_nullable_def)
  qed
  ultimately show ?thesis
    using r'(2) unfolding task_from_row_iff t p'(3)
    by (auto simp: apply_task_params_def updated_task_def set_column_def split: option.splits)
qed

lemma status_check_column: "status_check s \<Longrightarrow> status_check (set_column (map_option task_status_str x) s)"
  by (cases x) (simp_all add: set_column_def)

lemma update_task_row_ok:
  assumes J: "team_json_ok J" and db: "tasks_ok J db" and p: "task_params_of J u = Inr p" "\<not> no_params p"
    and t: "task_of J db i = Some t"
  shows "\<exists>db' meta. update_task_row i p now db = (Inr (), db') \<and> tasks_ok J db'
    \<and> task_of J db' = (task_of J db)(i \<mapsto> updated_task u now meta t)"
proof -
  obtain r where r: "task_at db i = Some r" "task_from_row J r = Inr t"
    using t unfolding task_of_iff [OF db] by blast
  have s: "tq_status p = map_option task_status_str (tup_status u)"
    using p(1) by (auto simp: task_params_of_iff)
  have "update_task_row i p now db = (Inr (), set_task i (apply_task_params p now) db)"
    using p(2) r(1) s by (auto simp: update_task_row_def split: option.splits)
  moreover have "status_check (tk_status (apply_task_params p now r))"
    using tasks_ok_row(3) [OF db r(1)] status_check_column [of "tk_status r"]
    by (simp add: apply_task_params_def s row_typed_def)
  moreover obtain meta where "task_from_row J (apply_task_params p now r) = Inr (updated_task u now meta t)"
    using apply_params_read [OF J p(1) r(2)] by blast
  ultimately show ?thesis
    using set_task_ok [OF db r(1), of "apply_task_params p now"] by (fastforce simp: apply_task_params_def)
qed

lemma append_to_blocks_ok:
  assumes J: "team_json_ok J" and db: "tasks_ok J db" and t: "task_of J db i = Some t"
  shows "\<exists>db'. append_to_blocks J i j now db = (Inr (), db') \<and> tasks_ok J db'
    \<and> task_of J db' = (task_of J db)(i \<mapsto> with_blocks j now t)"
proof -
  obtain r where r: "task_at db i = Some r" "task_from_row J r = Inr t"
    using t unfolding task_of_iff [OF db] by blast
  let ?f = "\<lambda>x. x\<lparr>tk_blocks := strings_text J (with_block j (strings_or_empty J (tk_blocks r))), tk_updated_at := now\<rparr>"
  have "task_from_row J (?f r) = Inr (with_blocks j now t)"
    using r(2) by (auto simp: task_from_row_iff strings_text_read [OF J] strings_or_empty_def with_blocks_def)
  moreover have "status_check (tk_status (?f r))"
    using tasks_ok_row(3) [OF db r(1)] by (simp add: row_typed_def)
  ultimately show ?thesis
    using set_task_ok [OF db r(1), of ?f] r(1) by (simp add: append_to_blocks_def Let_def)
qed

lemma remove_from_blocked_by_ok:
  assumes J: "team_json_ok J" and db: "tasks_ok J db" and t: "task_of J db i = Some t"
  shows "\<exists>db'. remove_from_blocked_by J i j now db = (Inr (), db') \<and> tasks_ok J db'
    \<and> task_of J db' = (task_of J db)(i \<mapsto> without_blocker j now t)"
proof -
  obtain r where r: "task_at db i = Some r" "task_from_row J r = Inr t"
    using t unfolding task_of_iff [OF db] by blast
  let ?f = "\<lambda>x. x\<lparr>tk_blocked_by := strings_text J (filter (\<lambda>k. k \<noteq> j) (strings_or_empty J (tk_blocked_by r))),
      tk_updated_at := now\<rparr>"
  have "task_from_row J (?f r) = Inr (without_blocker j now t)"
    using r(2) by (auto simp: task_from_row_iff strings_text_read [OF J] strings_or_empty_def without_blocker_def)
  moreover have "status_check (tk_status (?f r))"
    using tasks_ok_row(3) [OF db r(1)] by (simp add: row_typed_def)
  ultimately show ?thesis
    using set_task_ok [OF db r(1), of ?f] r(1) by (simp add: remove_from_blocked_by_def Let_def)
qed

lemma find_filter: "find P (filter Q xs) = find (\<lambda>x. P x \<and> Q x) xs"
  by (induction xs) auto

lemma delete_task_rows_ok:
  assumes db: "tasks_ok J db"
  shows "tasks_ok J (db\<lparr>td_tasks := filter (\<lambda>t. tk_team_id t \<noteq> team) (td_tasks db)\<rparr>)" (is "tasks_ok J ?db")
    and "task_of J (db\<lparr>td_tasks := filter (\<lambda>t. tk_team_id t \<noteq> team) (td_tasks db)\<rparr>)
      = (\<lambda>i. if of_team team (task_of J db i) = None then task_of J db i else None)"
proof -
  show ok: "tasks_ok J ?db"
    using db by (auto simp: tasks_ok_def distinct_map_filter)
  have at: "task_at ?db i = Some r \<longleftrightarrow> task_at db i = Some r \<and> tk_team_id r \<noteq> team" for i r
    using db ok by (auto simp: tasks_ok_def task_at_def find_task_iff)
  show "task_of J ?db = (\<lambda>i. if of_team team (task_of J db i) = None then task_of J db i else None)"
  proof
    fix i
    show "task_of J ?db i = (if of_team team (task_of J db i) = None then task_of J db i else None)"
    proof (cases "task_at db i")
      case None
      then have "task_at ?db i = None"
        using at [of i] by (cases "task_at ?db i") auto
      with None show ?thesis by (simp add: task_of_def)
    next
      case (Some r)
      obtain t where "task_of_row J r = Some t"
        using tasks_ok_row(3) [OF db Some] unfolding row_typed_def by blast
      then have t: "task_from_row J r = Inr t" "task_of J db i = Some t"
        using Some by (simp_all add: task_of_row_iff task_of_def)
      show ?thesis
      proof (cases "tk_team_id r = team")
        case True
        then have "task_at ?db i \<noteq> Some r'" for r'
          unfolding at Some by auto
        then have "task_at ?db i = None" by blast
        with True t task_from_row_ids(2) [OF t(1)] show ?thesis by (simp add: task_of_def of_team_def)
      next
        case False
        then have "task_at ?db i = Some r"
          using at [of i r] Some by simp
        with False t task_from_row_ids(2) [OF t(1)] show ?thesis
          by (simp add: task_of_def of_team_def task_of_row_def)
      qed
    qed
  qed
qed

lemma find_task_row_ok:
  assumes db: "tasks_ok J db"
  shows "\<exists>x. find_task_row team i db = Inr x
    \<and> map_option (task_from_row J) x = map_option Inr (of_team team (task_of J db i))"
proof -
  have x: "find_task_row team i db = Inr (Option.bind (task_at db i) (\<lambda>r. if tk_team_id r = team then Some r else None))"
    using db by (simp add: tasks_ok_def find_task_row_def task_at_def find_team_task)
  show ?thesis
  proof (cases "task_at db i")
    case None
    with x show ?thesis by (simp add: task_of_def of_team_def)
  next
    case (Some r)
    obtain t where "task_of_row J r = Some t"
      using tasks_ok_row(3) [OF db Some] unfolding row_typed_def by blast
    then have t: "task_from_row J r = Inr t" "task_of J db i = Some t"
      using Some by (simp_all add: task_of_row_iff task_of_def)
    with Some x task_from_row_ids(2) [OF t(1)] show ?thesis
      by (simp add: of_team_def)
  qed
qed

interpretation sqlite_task: task_store J "sqlite_team_repo J" "task_of J" "\<lambda>db. team_json_ok J \<and> tasks_ok J db"
proof unfold_locales
  fix db :: team_db and i j team and now :: int
  assume "team_json_ok J \<and> tasks_ok J db"
  then have J: "team_json_ok J" and db: "tasks_ok J db" by simp_all
  note simps = sqlite_team_repo_def J
  show "\<exists>x. trp_find_task (sqlite_team_repo J) team i db = Inr x
      \<and> map_option (task_from_row J) x = map_option Inr (of_team team (task_of J db i))"
    using find_task_row_ok [OF db] by (simp add: simps)
  show "\<exists>db'. trp_delete_tasks (sqlite_team_repo J) team db = (Inr (), db') \<and> (team_json_ok J \<and> tasks_ok J db')
      \<and> task_of J db' = (\<lambda>i. if of_team team (task_of J db i) = None then task_of J db i else None)"
    using delete_task_rows_ok [OF db, of team] by (simp add: simps delete_task_rows_def)
  show "team_json_ok J" by (rule J)
  {
    fix r t
    assume r: "task_from_row J r = Inr t"
    {
      assume "status_check (tk_status r)" and "task_of J db (tt_id t) = None"
      with create_task_row_ok [OF db r]
      show "\<exists>db'. trp_create_task (sqlite_team_repo J) r db = (Inr (), db') \<and> (team_json_ok J \<and> tasks_ok J db')
          \<and> task_of J db' = (task_of J db)(tt_id t \<mapsto> t)"
        by (simp add: simps)
    }
    assume "task_of J db (tt_id t) \<noteq> None"
    then have "\<exists>x. find (\<lambda>y. tk_id y = tk_id r) (td_tasks db) = Some x"
      unfolding task_of_None [OF db] task_from_row_ids(1) [OF r] by (simp add: task_at_def)
    then show "\<exists>e. trp_create_task (sqlite_team_repo J) r db = (Inl e, db)"
      by (auto simp: simps create_task_row_def list_ex_iff find_Some_iff)
  }
  {
    fix u p
    assume p: "no_params p"
    show "trp_update_task (sqlite_team_repo J) i p now db = (Inr (), db)"
      using p by (simp add: simps update_task_row_def)
  }
  fix t
  assume t: "task_of J db i = Some t"
  show "\<exists>db'. trp_append_to_blocks (sqlite_team_repo J) i j now db = (Inr (), db') \<and> (team_json_ok J \<and> tasks_ok J db')
      \<and> task_of J db' = (task_of J db)(i \<mapsto> with_blocks j now t)"
    using append_to_blocks_ok [OF J db t] by (simp add: simps)
  show "\<exists>db'. trp_remove_from_blocked_by (sqlite_team_repo J) i j now db = (Inr (), db')
      \<and> (team_json_ok J \<and> tasks_ok J db') \<and> task_of J db' = (task_of J db)(i \<mapsto> without_blocker j now t)"
    using remove_from_blocked_by_ok [OF J db t] by (simp add: simps)
  show "tt_id t = i"
    using t task_from_row_ids(1) tasks_ok_row(2) [OF db] unfolding task_of_iff [OF db] by metis
  fix u p
  assume "task_params_of J u = Inr p" and "\<not> no_params p"
  then show "\<exists>db' meta. trp_update_task (sqlite_team_repo J) i p now db = (Inr (), db')
      \<and> (team_json_ok J \<and> tasks_ok J db') \<and> task_of J db' = (task_of J db)(i \<mapsto> updated_task u now meta t)"
    using update_task_row_ok [OF J db _ _ t] by (simp add: simps)
qed

end
