(* ===== verification/Board_Facts.thy ===== *)
theory Board_Facts
  imports Task_Table
begin

text \<open>
  The dependencies between tasks, over the contract \<open>task_store\<close>. \<open>links_ok\<close>: a dependency of a task is a
  task of its team that lists it under \<open>blocks\<close>, and no task waits for itself through others. Calls of the
  board keep it unless an update sets \<open>blocked_by\<close>, and then completing a task unblocks all that wait for
  it. The calls are taken one after the other.
\<close>

section \<open>Runs of the board\<close>

datatype 'm board_call =
    Bc_Create string string "string option" "string option" "string list" string "nat \<Rightarrow> int"
  | Bc_Update string string "'m task_update" "nat \<Rightarrow> int"
  | Bc_Delete_Team string

fun run_call :: "'m team_json \<Rightarrow> 'db team_repo \<Rightarrow> 'm board_call \<Rightarrow> 'db \<Rightarrow> 'db" where
  "run_call J R (Bc_Create team subject desc owner deps i clk) db
     = snd (board_create J R team subject desc owner deps i clk db)"
| "run_call J R (Bc_Update team i u clk) db = snd (board_update J R team i u clk db)"
| "run_call J R (Bc_Delete_Team team) db = snd (trp_delete_tasks R team db)"

definition run_calls :: "'m team_json \<Rightarrow> 'db team_repo \<Rightarrow> 'm board_call list \<Rightarrow> 'db \<Rightarrow> 'db" where
  "run_calls J R cs db = fold (run_call J R) cs db"

fun sets_blocked_by :: "'m board_call \<Rightarrow> bool" where
  "sets_blocked_by (Bc_Update team i u clk) = (tup_blocked_by u \<noteq> None)"
| "sets_blocked_by _ = False"

lemma rel_option_trans:
  assumes "rel_option P x y" and "rel_option Q y z" and "\<And>a b c. P a b \<Longrightarrow> Q b c \<Longrightarrow> S a c"
  shows "rel_option S x z"
  using assms by (cases x; cases y; cases z) auto

section \<open>The graph of dependencies\<close>

definition waits_for :: "(string \<Rightarrow> 'm team_task option) \<Rightarrow> (string \<times> string) set" where
  "waits_for m = {(d, i). \<exists>t. m i = Some t \<and> d \<in> set (tt_blocked_by t)}"

definition links_ok :: "(string \<Rightarrow> 'm team_task option) \<Rightarrow> bool" where
  "links_ok m \<longleftrightarrow>
     (\<forall>i t d. m i = Some t \<longrightarrow> d \<in> set (tt_blocked_by t) \<longrightarrow>
        (\<exists>s. m d = Some s \<and> tt_team_id s = tt_team_id t \<and> i \<in> set (tt_blocks s)))
   \<and> (\<forall>i t k. m i = Some t \<longrightarrow> k \<in> set (tt_blocks t) \<longrightarrow> (\<exists>s. m k = Some s \<and> tt_team_id s = tt_team_id t))
   \<and> acyclic (waits_for m)"

lemma links_okI:
  assumes "\<And>i t d. m i = Some t \<Longrightarrow> d \<in> set (tt_blocked_by t)
      \<Longrightarrow> \<exists>s. m d = Some s \<and> tt_team_id s = tt_team_id t \<and> i \<in> set (tt_blocks s)"
    and "\<And>i t k. m i = Some t \<Longrightarrow> k \<in> set (tt_blocks t) \<Longrightarrow> \<exists>s. m k = Some s \<and> tt_team_id s = tt_team_id t"
    and "acyclic (waits_for m)"
  shows "links_ok m"
  using assms unfolding links_ok_def by blast

lemma links_okD:
  assumes "links_ok m"
  shows "m i = Some t \<Longrightarrow> d \<in> set (tt_blocked_by t)
      \<Longrightarrow> \<exists>s. m d = Some s \<and> tt_team_id s = tt_team_id t \<and> i \<in> set (tt_blocks s)"
    and "m i = Some t \<Longrightarrow> k \<in> set (tt_blocks t) \<Longrightarrow> \<exists>s. m k = Some s \<and> tt_team_id s = tt_team_id t"
    and "acyclic (waits_for m)"
  using assms unfolding links_ok_def by blast+

text \<open>Edges into a node that has no edge out of it close no cycle.\<close>

lemma acyclic_add_sink:
  assumes r: "acyclic r" and i: "i \<notin> Domain r" "i \<notin> D"
  shows "acyclic (r \<union> D \<times> {i})"
proof -
  let ?r = "r \<union> D \<times> {i}"
  have old: "(a, b) \<in> ?r\<^sup>+ \<Longrightarrow> b \<noteq> i \<Longrightarrow> (a, b) \<in> r\<^sup>+" for a b
  proof (induction rule: trancl_induct)
    case (step y z)
    then have "(y, z) \<in> r" by blast
    moreover from this have "y \<noteq> i" using i(1) by blast
    ultimately show ?case using step.IH by (meson trancl.trancl_into_trancl)
  qed blast
  have "(x, x) \<notin> ?r\<^sup>+" for x
  proof
    assume "(x, x) \<in> ?r\<^sup>+"
    moreover from this have "x \<noteq> i" using i by (blast dest: tranclD)
    ultimately show False using old r by (auto simp: acyclic_def)
  qed
  then show ?thesis by (simp add: acyclic_def)
qed

text \<open>A change of the tasks that keeps the teams, drops no entry of \<open>blocks\<close> and adds none to \<open>blocked_by\<close>.\<close>

definition relaxed :: "'m team_task \<Rightarrow> 'm team_task \<Rightarrow> bool" where
  "relaxed t t' \<longleftrightarrow> tt_team_id t' = tt_team_id t \<and> set (tt_blocks t') = set (tt_blocks t)
     \<and> set (tt_blocked_by t') \<subseteq> set (tt_blocked_by t)"

lemma links_ok_relaxed:
  assumes m: "links_ok m" and r: "\<forall>j. rel_option relaxed (m j) (m' j)"
  shows "links_ok m'"
proof (rule links_okI)
  have get: "\<exists>t. m i = Some t \<and> relaxed t t'" if "m' i = Some t'" for i t'
    using r [rule_format, of i] that by (auto elim: option.rel_cases)
  have put: "\<exists>t'. m' i = Some t' \<and> relaxed t t'" if "m i = Some t" for i t
    using r [rule_format, of i] that by (auto elim: option.rel_cases)
  show "\<exists>s. m' d = Some s \<and> tt_team_id s = tt_team_id t \<and> i \<in> set (tt_blocks s)"
    if t: "m' i = Some t" and d: "d \<in> set (tt_blocked_by t)" for i t d
    using get [OF t] d links_okD(1) [OF m, of i _ d] put [of d] unfolding relaxed_def by (metis subsetD)
  show "\<exists>s. m' k = Some s \<and> tt_team_id s = tt_team_id t"
    if t: "m' i = Some t" and k: "k \<in> set (tt_blocks t)" for i t k
    using get [OF t] k links_okD(2) [OF m, of i _ k] put [of k] unfolding relaxed_def by metis
  have "waits_for m' \<subseteq> waits_for m"
    using get unfolding waits_for_def relaxed_def by fast
  then show "acyclic (waits_for m')"
    using links_okD(3) [OF m] by (rule acyclic_subset [rotated])
qed

text \<open>A new task of the team \<open>team\<close> that waits for existing ones, which are told.\<close>

definition told :: "string list \<Rightarrow> string \<Rightarrow> string \<Rightarrow> 'm team_task \<Rightarrow> 'm team_task \<Rightarrow> bool" where
  "told ds i j t t' \<longleftrightarrow> tt_team_id t' = tt_team_id t \<and> tt_blocked_by t' = tt_blocked_by t
     \<and> set (tt_blocks t') = set (tt_blocks t) \<union> (if j \<in> set ds then {i} else {})"

lemma links_ok_create:
  assumes m: "links_ok m" and new: "m i = None"
    and deps: "\<forall>d \<in> set (tt_blocked_by n). \<exists>s. m d = Some s \<and> tt_team_id s = tt_team_id n"
    and n: "tt_blocks n = []"
    and told: "\<forall>j. rel_option (told (tt_blocked_by n) i j) ((m(i \<mapsto> n)) j) (m' j)"
  shows "links_ok m'"
proof (rule links_okI)
  let ?m = "m(i \<mapsto> n)"
  have nd: "i \<notin> set (tt_blocked_by n)"
    using deps new by fastforce
  have get: "\<exists>t. ?m j = Some t \<and> told (tt_blocked_by n) i j t t'" if "m' j = Some t'" for j t'
    using told [rule_format, of j] that by (cases "?m j") (auto simp del: fun_upd_apply)
  have put: "\<exists>t'. m' j = Some t' \<and> told (tt_blocked_by n) i j t t'" if "?m j = Some t" for j t
    using told [rule_format, of j] that by (cases "m' j") (auto simp del: fun_upd_apply)
  show "\<exists>s. m' d = Some s \<and> tt_team_id s = tt_team_id t' \<and> j \<in> set (tt_blocks s)"
    if t': "m' j = Some t'" and d: "d \<in> set (tt_blocked_by t')" for j t' d
  proof -
    obtain t where t: "?m j = Some t" "told (tt_blocked_by n) i j t t'" using get [OF t'] by blast
    have "\<exists>s. ?m d = Some s \<and> tt_team_id s = tt_team_id t \<and> (j \<in> set (tt_blocks s) \<or> j = i \<and> d \<in> set (tt_blocked_by n))"
    proof (cases "j = i")
      case True
      with t d deps nd show ?thesis by (auto simp: told_def)
    next
      case False
      with t d links_okD(1) [OF m, of j t d] new show ?thesis by (fastforce simp: told_def)
    qed
    then obtain s where s: "?m d = Some s" "tt_team_id s = tt_team_id t"
      "j \<in> set (tt_blocks s) \<or> j = i \<and> d \<in> set (tt_blocked_by n)" by blast
    obtain s' where "m' d = Some s'" "told (tt_blocked_by n) i d s s'" using put [OF s(1)] by blast
    with s t(2) show ?thesis by (auto simp: told_def)
  qed
  show "\<exists>s. m' k = Some s \<and> tt_team_id s = tt_team_id t'"
    if t': "m' j = Some t'" and k: "k \<in> set (tt_blocks t')" for j t' k
  proof -
    obtain t where t: "?m j = Some t" "told (tt_blocked_by n) i j t t'" using get [OF t'] by blast
    have "\<exists>s. ?m k = Some s \<and> tt_team_id s = tt_team_id t"
    proof (cases "j = i")
      case True
      with t k n nd show ?thesis by (auto simp: told_def)
    next
      case False
      then have j: "m j = Some t" using t(1) by simp
      from t(2) k consider "k \<in> set (tt_blocks t)" | "k = i" "j \<in> set (tt_blocked_by n)"
        by (auto simp: told_def split: if_splits)
      then show ?thesis
      proof cases
        case 1
        with links_okD(2) [OF m j] new show ?thesis by fastforce
      next
        case 2
        with deps j show ?thesis by fastforce
      qed
    qed
    then show ?thesis using put [of k] t(2) unfolding told_def by metis
  qed
  have "waits_for m' = waits_for ?m"
  proof -
    have "(d, j) \<in> waits_for m' \<longleftrightarrow> (d, j) \<in> waits_for ?m" for d j
      using get [of j] put [of j] unfolding waits_for_def told_def mem_Collect_eq case_prod_conv by metis
    then show ?thesis by auto
  qed
  also have "\<dots> = waits_for m \<union> set (tt_blocked_by n) \<times> {i}"
    using new by (auto simp: waits_for_def)
  finally have w: "waits_for m' = waits_for m \<union> set (tt_blocked_by n) \<times> {i}" .
  have "i \<notin> Domain (waits_for m)"
    using links_okD(1) [OF m] new unfolding waits_for_def by fastforce
  then show "acyclic (waits_for m')"
    unfolding w using nd links_okD(3) [OF m] by (intro acyclic_add_sink)
qed

text \<open>The tasks \<open>ts\<close> no longer wait for \<open>i\<close>.\<close>

definition unblocked :: "string list \<Rightarrow> string \<Rightarrow> string \<Rightarrow> 'm team_task \<Rightarrow> 'm team_task \<Rightarrow> bool" where
  "unblocked ts i j t t' \<longleftrightarrow> tt_team_id t' = tt_team_id t \<and> tt_blocks t' = tt_blocks t \<and> tt_status t' = tt_status t
     \<and> tt_blocked_by t' = (if j \<in> set ts then filter (\<lambda>k. k \<noteq> i) (tt_blocked_by t) else tt_blocked_by t)"

section \<open>The board over the contract\<close>

context task_store begin

lemma check_deps_iff:
  assumes "ok db"
  shows "check_deps R team ds db = (case find (\<lambda>d. of_team team (task db d) = None) ds of
     None \<Rightarrow> Inr () | Some d \<Rightarrow> Inl (BlockedTaskNotFound d))"
proof (induction ds)
  case (Cons d ds)
  obtain x where x: "trp_find_task R team d db = Inr x"
      "map_option (task_from_row J) x = map_option Inr (of_team team (task db d))"
    using find_task [OF assms] by blast
  then have "x = None \<longleftrightarrow> of_team team (task db d) = None"
    by (cases x; cases "of_team team (task db d)") simp_all
  with x(1) Cons show ?case by simp
qed simp

lemma of_team_eq_Some: "of_team team x = Some t \<longleftrightarrow> x = Some t \<and> tt_team_id t = team"
  by (auto simp: of_team_def split: bind_splits if_splits)

lemma check_depsD:
  assumes "ok db" and "check_deps R team ds db = Inr ()" and "d \<in> set ds"
  shows "\<exists>s. task db d = Some s \<and> tt_team_id s = team"
proof -
  have "find (\<lambda>d. of_team team (task db d) = None) ds = None"
    using assms(2) unfolding check_deps_iff [OF assms(1)] by (simp split: option.splits)
  then have "\<forall>x \<in> set ds. of_team team (task db x) \<noteq> None"
    unfolding find_None_iff by simp
  from bspec [OF this assms(3)] obtain s where "of_team team (task db d) = Some s" by blast
  then show ?thesis unfolding of_team_eq_Some by blast
qed

lemma told_refl: "told [] i j t t"
  by (simp add: told_def)

lemma told_step:
  assumes "told [d] i j t t1" and "told ds i j t1 t2"
  shows "told (d # ds) i j t t2"
  using assms by (auto simp: told_def)

lemma append_all_ok:
  assumes "ok db" and "\<forall>d \<in> set ds. task db d \<noteq> None"
  shows "\<exists>db'. append_all R ds i clk db = (Inr (), db') \<and> ok db'
    \<and> (\<forall>j. rel_option (told ds i j) (task db j) (task db' j))"
  using assms
proof (induction ds arbitrary: db clk)
  case Nil
  then show ?case by (simp add: option.rel_refl told_refl)
next
  case (Cons d ds)
  then obtain s where s: "task db d = Some s" by auto
  obtain db1 where db1: "trp_append_to_blocks R d i (clk 0) db = (Inr (), db1)" "ok db1"
      "task db1 = (task db)(d \<mapsto> with_blocks i (clk 0) s)"
    using append_to [OF Cons.prems(1) s] by blast
  have stored: "\<forall>x \<in> set ds. task db1 x \<noteq> None"
    using Cons.prems(2) by (simp add: db1(3))
  obtain db2 where db2: "append_all R ds i (\<lambda>k. clk (Suc k)) db1 = (Inr (), db2)" "ok db2"
      "\<forall>j. rel_option (told ds i j) (task db1 j) (task db2 j)"
    using Cons.IH [OF db1(2)] stored by blast
  have "rel_option (told [d] i j) (task db j) (task db1 j)" for j
    using s by (cases "task db j") (auto simp: db1(3) told_def with_blocks_def with_block_def)
  then have "rel_option (told (d # ds) i j) (task db j) (task db2 j)" for j
    using db2(3) told_step by (blast intro: rel_option_trans)
  with db1(1) db2(1,2) show ?case by auto
qed

lemma unblock_all_ok:
  assumes "ok db" and "\<forall>k \<in> set ts. task db k \<noteq> None"
  shows "\<exists>db'. unblock_all R ts i clk db = (Inr (), db') \<and> ok db'
    \<and> (\<forall>j. rel_option (unblocked ts i j) (task db j) (task db' j))"
  using assms
proof (induction ts arbitrary: db clk)
  case Nil
  then show ?case by (simp add: option.rel_refl unblocked_def)
next
  case (Cons k ts)
  then obtain s where s: "task db k = Some s" by auto
  obtain db1 where db1: "trp_remove_from_blocked_by R k i (clk 0) db = (Inr (), db1)" "ok db1"
      "task db1 = (task db)(k \<mapsto> without_blocker i (clk 0) s)"
    using remove_from [OF Cons.prems(1) s] by blast
  have stored: "\<forall>x \<in> set ts. task db1 x \<noteq> None"
    using Cons.prems(2) by (simp add: db1(3))
  obtain db2 where db2: "unblock_all R ts i (\<lambda>k. clk (Suc k)) db1 = (Inr (), db2)" "ok db2"
      "\<forall>j. rel_option (unblocked ts i j) (task db1 j) (task db2 j)"
    using Cons.IH [OF db1(2)] stored by blast
  have "rel_option (unblocked [k] i j) (task db j) (task db1 j)" for j
    using s by (cases "task db j") (auto simp: db1(3) unblocked_def without_blocker_def)
  moreover have "unblocked (k # ts) i j t t2" if "unblocked [k] i j t t1" "unblocked ts i j t1 t2" for j t t1 t2
    using that by (auto simp: unblocked_def)
  ultimately have "rel_option (unblocked (k # ts) i j) (task db j) (task db2 j)" for j
    using db2(3) by (blast intro: rel_option_trans)
  with db1(1) db2(1,2) show ?case by auto
qed

subsection \<open>Creating a task\<close>

lemma new_task_read:
  assumes "ok db" and "tj_of_strings J ds = Inr s"
  shows "task_from_row J (new_task_row i team subject desc owner s now) = Inr
    \<lparr>tt_id = i, tt_team_id = team, tt_subject = subject, tt_description = desc, tt_status = TkPending, tt_owner = owner,
     tt_blocked_by = ds, tt_blocks = [], tt_metadata = None, tt_created_at = now, tt_updated_at = now\<rparr>"
  using team_json_okD(1) [OF json [OF assms(1)], of ds] team_json_okD(3) [OF json [OF assms(1)]] assms(2)
    task_status_parse_str [of TkPending]
  by (auto simp: task_from_row_iff new_task_row_def)

lemma board_create_keeps:
  assumes db: "ok db" "links_ok (task db)"
  shows "ok (snd (board_create J R team subject desc owner ds i clk db))"
    and "links_ok (task (snd (board_create J R team subject desc owner ds i clk db)))"
proof -
  let ?res = "board_create J R team subject desc owner ds i clk db"
  obtain s where s: "tj_of_strings J ds = Inr s"
    using team_json_okD(1) [OF json [OF db(1)]] by blast
  define n where "n = \<lparr>tt_id = i, tt_team_id = team, tt_subject = subject, tt_description = desc,
     tt_status = TkPending, tt_owner = owner, tt_blocked_by = ds, tt_blocks = [], tt_metadata = (None::'m option),
     tt_created_at = clk 0, tt_updated_at = clk 0\<rparr>"
  let ?row = "new_task_row i team subject desc owner s (clk 0)"
  have row: "task_from_row J ?row = Inr n" "status_check (tk_status ?row)"
    using new_task_read [OF db(1) s] status_check_str [of TkPending] by (simp_all add: n_def new_task_row_def)
  have "ok (snd ?res) \<and> links_ok (task (snd ?res))"
  proof (cases "check_deps R team ds db")
    case (Inl e)
    then show ?thesis using db by (simp add: board_create_def)
  next
    case (Inr u)
    then have deps: "\<exists>x. task db d = Some x \<and> tt_team_id x = team" if "d \<in> set ds" for d
      using check_depsD [OF db(1) _ that] by simp
    show ?thesis
    proof (cases "task db i")
      case (Some x)
      then have "\<exists>e. trp_create_task R ?row db = (Inl e, db)"
        using create_refused [OF db(1) row(1)] by (simp add: n_def)
      with Inr s db show ?thesis by (auto simp: board_create_def Let_def)
    next
      case None
      obtain db1 where db1: "trp_create_task R ?row db = (Inr (), db1)" "ok db1" "task db1 = (task db)(i \<mapsto> n)"
        using create_task [OF db(1) row] None by (auto simp: n_def)
      obtain db2 where db2: "append_all R ds i (\<lambda>k. clk (Suc k)) db1 = (Inr (), db2)" "ok db2"
          "\<forall>j. rel_option (told ds i j) (task db1 j) (task db2 j)"
        using append_all_ok [OF db1(2), of ds] deps by (fastforce simp: db1(3))
      have "links_ok (task db2)"
        using links_ok_create [OF db(2) None, of n] deps db2(3) unfolding db1(3) by (simp add: n_def)
      with Inr s db1 db2 show ?thesis by (simp add: board_create_def Let_def)
    qed
  qed
  then show "ok (snd ?res)" and "links_ok (task (snd ?res))" by simp_all
qed

end

section \<open>Updating a task\<close>

context task_store begin

lemma require_task_iff:
  assumes "ok db"
  shows "(\<exists>r. require_task R team i db = Inr r \<and> task_from_row J r = Inr t)
    \<longleftrightarrow> task db i = Some t \<and> tt_team_id t = team"
proof -
  obtain x where x: "trp_find_task R team i db = Inr x"
      "map_option (task_from_row J) x = map_option Inr (of_team team (task db i))"
    using find_task [OF assms] by blast
  then have "(\<exists>r. x = Some r \<and> task_from_row J r = Inr t) \<longleftrightarrow> of_team team (task db i) = Some t"
    by (cases x; cases "of_team team (task db i)") auto
  moreover have "require_task R team i db = ok_or (TaskNotFound i) x"
    by (simp add: require_task_def x(1))
  ultimately show ?thesis
    unfolding of_team_eq_Some by (cases x) auto
qed

lemma require_taskD:
  assumes "ok db" and "require_task R team i db = Inr r"
  obtains t where "task_from_row J r = Inr t" and "task db i = Some t" and "tt_team_id t = team"
proof -
  obtain x where x: "trp_find_task R team i db = Inr x"
      "map_option (task_from_row J) x = map_option Inr (of_team team (task db i))"
    using find_task [OF assms(1)] by blast
  moreover from x(1) assms(2) have "x = Some r"
    by (cases x) (simp_all add: require_task_def)
  ultimately obtain t where "task_from_row J r = Inr t" "of_team team (task db i) = Some t"
    by (cases "of_team team (task db i)") auto
  with that show ?thesis unfolding of_team_eq_Some by blast
qed

text \<open>The statement of an update that does not set \<open>blocked_by\<close>.\<close>

lemma update_step:
  assumes db: "ok db" and p: "task_params_of J u = Inr p" "tup_blocked_by u = None" and t: "task db i = Some t"
  obtains db1 t1 where "trp_update_task R i p now db = (Inr (), db1)" and "ok db1" and "task db1 = (task db)(i \<mapsto> t1)"
    and "tt_team_id t1 = tt_team_id t" and "tt_blocks t1 = tt_blocks t" and "tt_blocked_by t1 = tt_blocked_by t"
    and "tt_status t1 = set_column (tup_status u) (tt_status t)"
proof (cases "no_params p")
  case True
  then have "tup_status u = None"
    using p(1) by (auto simp: task_params_of_iff no_params_def)
  then show ?thesis
    using that [of db t] update_nothing [OF db True] db t by (auto simp: set_column_def fun_upd_idem)
next
  case False
  from update_task [OF db p(1) False t] obtain db1 meta where
    "trp_update_task R i p now db = (Inr (), db1)" "ok db1" "task db1 = (task db)(i \<mapsto> updated_task u now meta t)"
    by blast
  with that p(2) show ?thesis by (simp add: updated_task_def set_column_def)
qed

lemma relaxed_update:
  assumes "task db i = Some t" and "task db1 = (task db)(i \<mapsto> t1)"
    and "tt_team_id t1 = tt_team_id t" and "tt_blocks t1 = tt_blocks t" and "tt_blocked_by t1 = tt_blocked_by t"
  shows "rel_option relaxed (task db j) (task db1 j)"
  using assms by (cases "task db j") (auto simp: relaxed_def)

lemma unblocked_relaxed: "unblocked ts i j t t' \<Longrightarrow> relaxed t t'"
  by (auto simp: unblocked_def relaxed_def)

lemma board_update_keeps:
  assumes db: "ok db" "links_ok (task db)" and u: "tup_blocked_by u = None"
  shows "ok (snd (board_update J R team i u clk db))"
    and "links_ok (task (snd (board_update J R team i u clk db)))"
proof -
  let ?res = "board_update J R team i u clk db"
  have "ok (snd ?res) \<and> links_ok (task (snd ?res))"
  proof (cases "require_task R team i db")
    case (Inl e)
    with db show ?thesis by (simp add: board_update_def)
  next
    case (Inr r)
    obtain t where t: "task_from_row J r = Inr t" "task db i = Some t"
      using require_taskD [OF db(1) Inr] by blast
    show ?thesis
    proof (cases "task_params_of J u")
      case Inl
      with \<open>require_task R team i db = Inr r\<close> db show ?thesis by (simp add: board_update_def)
    next
      case p: (Inr p)
      obtain db1 t1 where db1: "trp_update_task R i p (clk 0) db = (Inr (), db1)" "ok db1"
          "task db1 = (task db)(i \<mapsto> t1)" "tt_team_id t1 = tt_team_id t" "tt_blocks t1 = tt_blocks t"
          "tt_blocked_by t1 = tt_blocked_by t"
        using update_step [OF db(1) p u t(2)] by blast
      have links1: "links_ok (task db1)"
        using relaxed_update [OF t(2) db1(3-6)] by (intro links_ok_relaxed [OF db(2)]) blast
      show ?thesis
      proof (cases "tup_status u = Some TkCompleted")
        case False
        with Inr p db1(1,2) links1 show ?thesis by (simp add: board_update_def)
      next
        case True
        have "tj_to_strings J (tk_blocks r) = Inr (tt_blocks t)"
          using t(1) by (auto simp: task_from_row_iff)
        moreover have "\<forall>k \<in> set (tt_blocks t). task db1 k \<noteq> None"
          using links_okD(2) [OF db(2) t(2)] by (fastforce simp: db1(3))
        from unblock_all_ok [OF db1(2) this] obtain db2 where db2: "unblock_all R (tt_blocks t) i (\<lambda>k. clk (Suc k)) db1 = (Inr (), db2)"
            "ok db2" "\<forall>j. rel_option (unblocked (tt_blocks t) i j) (task db1 j) (task db2 j)"
          by blast
        have "rel_option relaxed (task db1 j) (task db2 j)" for j
          using db2(3) [rule_format, of j] unblocked_relaxed by (rule option.rel_mono_strong)
        then have "links_ok (task db2)"
          by (intro links_ok_relaxed [OF links1]) blast
        ultimately show ?thesis
          using Inr p db1(1) True db2(1,2) by (simp add: board_update_def check_unblocks_def)
      qed
    qed
  qed
  then show "ok (snd ?res)" and "links_ok (task (snd ?res))" by simp_all
qed

text \<open>Completing a task.\<close>

lemma board_complete:
  assumes db: "ok db" "links_ok (task db)" and t: "task db i = Some t" "tt_team_id t = team"
    and u: "tup_status u = Some TkCompleted" "tup_blocked_by u = None" "tup_metadata u = None"
  shows "\<exists>t' db'. board_update J R team i u clk db = (Inr t', db') \<and> task db' i = Some t' \<and> tt_status t' = TkCompleted
    \<and> (\<forall>j. rel_option (\<lambda>s s'. tt_blocked_by s' = filter (\<lambda>k. k \<noteq> i) (tt_blocked_by s)) (task db j) (task db' j))"
proof -
  obtain r where r: "require_task R team i db = Inr r" "task_from_row J r = Inr t"
    using require_task_iff [OF db(1)] t by blast
  obtain p where p: "task_params_of J u = Inr p"
    using u by (simp add: task_params_of_def)
  obtain db1 t1 where db1: "trp_update_task R i p (clk 0) db = (Inr (), db1)" "ok db1"
      "task db1 = (task db)(i \<mapsto> t1)" "tt_team_id t1 = tt_team_id t" "tt_blocks t1 = tt_blocks t"
      "tt_blocked_by t1 = tt_blocked_by t" "tt_status t1 = TkCompleted"
    using update_step [OF db(1) p u(2) t(1), where now = "clk 0"] u(1) by (auto simp: set_column_def)
  have blocks: "tj_to_strings J (tk_blocks r) = Inr (tt_blocks t)"
    using r(2) by (auto simp: task_from_row_iff)
  have "\<forall>k \<in> set (tt_blocks t). task db1 k \<noteq> None"
    using links_okD(2) [OF db(2) t(1)] by (fastforce simp: db1(3))
  from unblock_all_ok [OF db1(2) this] obtain db2 where db2: "unblock_all R (tt_blocks t) i (\<lambda>k. clk (Suc k)) db1 = (Inr (), db2)"
      "ok db2" "\<forall>j. rel_option (unblocked (tt_blocks t) i j) (task db1 j) (task db2 j)"
    by blast
  obtain t2 where t2: "task db2 i = Some t2" "unblocked (tt_blocks t) i i t1 t2"
    using db2(3) [rule_format, of i] by (cases "task db2 i") (auto simp: db1(3))
  obtain r2 where r2: "require_task R team i db2 = Inr r2" "task_from_row J r2 = Inr t2"
    using require_task_iff [OF db2(2), of team i t2] t2 t(2) db1(4) unfolding unblocked_def by metis
  have "rel_option (\<lambda>s s'. tt_blocked_by s' = filter (\<lambda>k. k \<noteq> i) (tt_blocked_by s)) (task db j) (task db2 j)" for j
  proof (cases "task db j")
    case None
    then have "task db1 j = None"
      using t(1) by (cases "j = i") (simp_all add: db1(3))
    with None db2(3) [rule_format, of j] show ?thesis by simp
  next
    case (Some s)
    obtain s1 where s1: "task db1 j = Some s1" "tt_blocked_by s1 = tt_blocked_by s"
      using Some t(1) db1(3,6) by (cases "j = i") auto
    obtain s2 where s2: "task db2 j = Some s2" "unblocked (tt_blocks t) i j s1 s2"
      using db2(3) [rule_format, of j] s1(1) by (cases "task db2 j") auto
    have "i \<notin> set (tt_blocked_by s)" if "j \<notin> set (tt_blocks t)"
      using links_okD(1) [OF db(2) Some, of i] t(1) that by auto
    then have "filter (\<lambda>k. k \<noteq> i) (tt_blocked_by s) = tt_blocked_by s" if "j \<notin> set (tt_blocks t)"
      using that by (auto simp: filter_id_conv)
    then have "tt_blocked_by s2 = filter (\<lambda>k. k \<noteq> i) (tt_blocked_by s)"
      using s2(2) s1(2) unfolding unblocked_def by metis
    with Some s2(1) show ?thesis by simp
  qed
  moreover have "board_update J R team i u clk db = (Inr t2, db2)"
    using r p db1(1) db2(1) r2 u(1) blocks by (simp add: board_update_def check_unblocks_def)
  moreover have "tt_status t2 = TkCompleted"
    using t2(2) db1(7) by (simp add: unblocked_def)
  ultimately show ?thesis using t2(1) by blast
qed

lemma delete_keeps:
  assumes db: "ok db" "links_ok (task db)"
  shows "ok (snd (trp_delete_tasks R team db))" and "links_ok (task (snd (trp_delete_tasks R team db)))"
proof -
  obtain db' where db': "trp_delete_tasks R team db = (Inr (), db')" "ok db'"
      "task db' = (\<lambda>i. if of_team team (task db i) = None then task db i else None)"
    using delete_all [OF db(1)] by blast
  have at: "task db' i = Some t \<longleftrightarrow> task db i = Some t \<and> tt_team_id t \<noteq> team" for i t
    using of_team_eq_Some [of team "task db i"] by (cases "task db i") (auto simp: db'(3) of_team_def)
  have "links_ok (task db')"
  proof (rule links_okI)
    show "\<exists>s. task db' d = Some s \<and> tt_team_id s = tt_team_id t \<and> i \<in> set (tt_blocks s)"
      if "task db' i = Some t" "d \<in> set (tt_blocked_by t)" for i t d
      using that links_okD(1) [OF db(2), of i t d] unfolding at by metis
    show "\<exists>s. task db' k = Some s \<and> tt_team_id s = tt_team_id t"
      if "task db' i = Some t" "k \<in> set (tt_blocks t)" for i t k
      using that links_okD(2) [OF db(2), of i t k] unfolding at by metis
    have "waits_for (task db') \<subseteq> waits_for (task db)"
      unfolding waits_for_def at by blast
    then show "acyclic (waits_for (task db'))"
      using links_okD(3) [OF db(2)] by (rule acyclic_subset [rotated])
  qed
  with db'(1,2) show "ok (snd (trp_delete_tasks R team db))" and "links_ok (task (snd (trp_delete_tasks R team db)))"
    by simp_all
qed

lemma run_calls_keep:
  assumes "ok db" and "links_ok (task db)" and "list_all (\<lambda>c. \<not> sets_blocked_by c) cs"
  shows "ok (run_calls J R cs db) \<and> links_ok (task (run_calls J R cs db))"
  using assms
proof (induction cs arbitrary: db)
  case (Cons c cs)
  have "ok (run_call J R c db) \<and> links_ok (task (run_call J R c db))"
    using Cons.prems board_create_keeps board_update_keeps delete_keeps by (cases c) simp_all
  with Cons show ?case by (simp add: run_calls_def)
qed (simp add: run_calls_def)

end

end
