(* ===== verification/Team_Rows.thy ===== *)
theory Team_Rows
  imports Team_Mailbox Board_Facts
begin

text \<open>
  The rows of the team tables are well typed. The relation \<open>team_step\<close> has one rule per statement the
  server issues on these tables, with the parameters \<open>TaskBoard\<close> and \<open>Mailbox\<close> compute for it, so that its runs are the
  interleavings of any number of concurrent calls.
\<close>

definition empty_team_db :: team_db where
  "empty_team_db = \<lparr>td_teams = [], td_mailbox = [], td_tasks = []\<rparr>"

inductive team_step :: "'m team_json \<Rightarrow> team_db \<Rightarrow> team_db \<Rightarrow> bool" for J where
  insert_task: "tj_of_strings J ds = Inr s
    \<Longrightarrow> team_step J db (snd (create_task_row (new_task_row i team subject desc owner s now) db))"
| change_task: "task_params_of J u = Inr p \<Longrightarrow> team_step J db (snd (update_task_row i p now db))"
| append_block: "team_step J db (snd (append_to_blocks J i j now db))"
| remove_blocker: "team_step J db (snd (remove_from_blocked_by J i j now db))"
| drop_tasks: "team_step J db (snd (delete_task_rows team db))"
| insert_message: "team_step J db
    (snd (write_message_row (new_message_row J i team to from kind content summary files now) db))"
| read_messages: "team_step J db (snd (read_unread_and_mark team agent db))"
| mark_messages: "team_step J db (snd (mark_read_rows ids db))"
| drop_messages: "team_step J db (snd (delete_mailbox_rows team db))"
| insert_team: "team_step J db (snd (create_team_row t db))"
| change_team: "team_step J db (snd (update_team_row i tu now db))"
| drop_team: "team_step J db (snd (delete_team_row i db))"

inductive_cases team_stepE: "team_step J db db'"

abbreviation team_steps :: "'m team_json \<Rightarrow> team_db \<Rightarrow> team_db \<Rightarrow> bool" where
  "team_steps J \<equiv> (team_step J)\<^sup>*\<^sup>*"

section \<open>Mailbox rows\<close>

definition message_typed :: "'m team_json \<Rightarrow> mailbox_row \<Rightarrow> bool" where
  "message_typed J r \<longleftrightarrow> message_kind_parse (mb_msg_type r) \<noteq> None
     \<and> (case mb_files r of None \<Rightarrow> True | Some s \<Rightarrow> \<exists>fs. fs \<noteq> [] \<and> tj_to_strings J s = Inr fs)"

definition mailbox_ok :: "'m team_json \<Rightarrow> team_db \<Rightarrow> bool" where
  "mailbox_ok J db \<longleftrightarrow> (\<forall>r \<in> set (td_mailbox db). message_typed J r)"

lemma new_message_typed:
  assumes "team_json_ok J"
  shows "message_typed J (new_message_row J i team to from kind content summary files now)"
proof (cases files)
  case (Some fs)
  with team_json_okD(1) [OF assms, of fs] show ?thesis
    by (auto simp: message_typed_def new_message_row_def)
qed (simp add: message_typed_def new_message_row_def)

lemma message_typed_mark [simp]: "message_typed J (r\<lparr>mb_read := b\<rparr>) = message_typed J r"
  by (simp add: message_typed_def)

lemma mailbox_ok_mark: "mailbox_ok J db \<Longrightarrow> mailbox_ok J (mark_rows p db)"
  by (auto simp: mailbox_ok_def mark_rows_def)

lemma mailbox_ok_mark_chunks:
  "mailbox_ok J db \<Longrightarrow> mailbox_ok J (fold (\<lambda>chunk. mark_rows (\<lambda>m. mb_id m \<in> set chunk)) cs db)"
  by (induction cs arbitrary: db) (simp_all add: mailbox_ok_mark)

lemmas mailbox_statements = write_message_row_def read_unread_and_mark_def mark_read_rows_def delete_mailbox_rows_def

lemmas other_statements = create_task_row_def update_task_row_def set_task_def append_to_blocks_def
  remove_from_blocked_by_def delete_task_rows_def create_team_row_def update_team_row_def delete_team_row_def

lemma tasks_ok_cong: "td_tasks db' = td_tasks db \<Longrightarrow> tasks_ok J db' = tasks_ok J db"
  by (simp add: tasks_ok_def)

lemma mailbox_ok_cong: "td_mailbox db' = td_mailbox db \<Longrightarrow> mailbox_ok J db' = mailbox_ok J db"
  by (simp add: mailbox_ok_def)

lemma td_tasks_mark_rows [simp]: "td_tasks (mark_rows p db) = td_tasks db"
  by (simp add: mark_rows_def)

lemma td_tasks_mark_chunks [simp]:
  "td_tasks (fold (\<lambda>chunk. mark_rows (\<lambda>m. mb_id m \<in> set chunk)) cs db) = td_tasks db"
  by (induction cs arbitrary: db) simp_all

lemma mailbox_step:
  assumes J: "team_json_ok J" and db: "mailbox_ok J db" and s: "team_step J db db'"
  shows "mailbox_ok J db'"
  using s
proof (cases rule: team_step.cases)
  case (insert_message i team to "from" kind content summary files now)
  with db new_message_typed [OF J] show ?thesis by (auto simp: mailbox_ok_def write_message_row_def)
next
  case (read_messages team agent)
  with db show ?thesis by (simp add: read_unread_and_mark_def Let_def mailbox_ok_mark)
next
  case (mark_messages ids)
  with db show ?thesis by (simp add: mark_read_rows_def mailbox_ok_mark_chunks)
next
  case (drop_messages team)
  with db show ?thesis by (simp add: mailbox_ok_def delete_mailbox_rows_def)
qed (use db in \<open>auto simp: other_statements mailbox_ok_def Let_def split: option.splits\<close>)

section \<open>Task rows\<close>

lemma create_keeps_tasks_ok:
  assumes J: "team_json_ok J" and db: "tasks_ok J db" and s: "tj_of_strings J ds = Inr s"
  shows "tasks_ok J (snd (create_task_row (new_task_row i team subject desc owner s now) db))"
proof (cases "task_of J db i")
  case None
  have "task_from_row J (new_task_row i team subject desc owner s now) = Inr
    \<lparr>tt_id = i, tt_team_id = team, tt_subject = subject, tt_description = desc, tt_status = TkPending, tt_owner = owner,
     tt_blocked_by = ds, tt_blocks = [], tt_metadata = None, tt_created_at = now, tt_updated_at = now\<rparr>"
    using sqlite_task.new_task_read [OF conjI [OF J db] s] .
  from create_task_row_ok [OF db this] None show ?thesis
    using status_check_str [of TkPending] by (auto simp: new_task_row_def)
next
  case (Some t)
  then have "list_ex (\<lambda>r. tk_id r = i) (td_tasks db)"
    by (auto simp: task_of_def task_at_def bind_eq_Some_conv find_Some_iff list_ex_iff)
  with db show ?thesis by (simp add: create_task_row_def new_task_row_def)
qed

lemma update_keeps_tasks_ok:
  assumes J: "team_json_ok J" and db: "tasks_ok J db" and p: "task_params_of J u = Inr p"
  shows "tasks_ok J (snd (update_task_row i p now db))"
proof (cases "no_params p \<or> task_at db i = None")
  case True
  with db show ?thesis by (auto simp: update_task_row_def)
next
  case False
  then obtain t where "task_of J db i = Some t"
    using task_of_None [OF db, of i] by auto
  with update_task_row_ok [OF J db p _ this, of now] False show ?thesis by fastforce
qed

lemma tasks_step:
  assumes J: "team_json_ok J" and db: "tasks_ok J db" and s: "team_step J db db'"
  shows "tasks_ok J db'"
  using s
proof (cases rule: team_step.cases)
  case insert_task
  with create_keeps_tasks_ok [OF J db] show ?thesis by simp
next
  case change_task
  with update_keeps_tasks_ok [OF J db] show ?thesis by simp
next
  case (append_block i j now)
  show ?thesis
  proof (cases "task_of J db i")
    case None
    with db show ?thesis unfolding append_block task_of_None [OF db] by (simp add: append_to_blocks_def)
  next
    case (Some t)
    from append_to_blocks_ok [OF J db this, of j now] show ?thesis unfolding append_block by fastforce
  qed
next
  case (remove_blocker i j now)
  show ?thesis
  proof (cases "task_of J db i")
    case None
    with db show ?thesis unfolding remove_blocker task_of_None [OF db] by (simp add: remove_from_blocked_by_def)
  next
    case (Some t)
    from remove_from_blocked_by_ok [OF J db this, of j now] show ?thesis unfolding remove_blocker by fastforce
  qed
next
  case (drop_tasks team)
  with delete_task_rows_ok(1) [OF db] show ?thesis by (simp add: delete_task_rows_def)
qed (use db in \<open>auto simp: mailbox_statements create_team_row_def update_team_row_def delete_team_row_def
    Let_def tasks_ok_def\<close>)

lemma team_rows_ok:
  assumes J: "team_json_ok J" and s: "team_steps J empty_team_db db"
  shows "tasks_ok J db \<and> mailbox_ok J db"
  using s
proof (induction rule: rtranclp_induct)
  case base
  show ?case by (simp add: tasks_ok_def mailbox_ok_def empty_team_db_def)
next
  case (step db db')
  then show ?case using tasks_step [OF J] mailbox_step [OF J] by blast
qed

section \<open>What is read\<close>

lemma map_filter_total:
  assumes "\<And>x. x \<in> set xs \<Longrightarrow> \<exists>y. f x = Some y \<and> P x y"
  shows "list_all2 (\<lambda>x y. f x = Some y \<and> P x y) xs (List.map_filter f xs)"
  using assms by (induction xs) (fastforce simp: map_filter_def)+

text \<open>A row and the task, or the message, that is read from it.\<close>

definition reads_task :: "'m team_json \<Rightarrow> task_row \<Rightarrow> 'm team_task \<Rightarrow> bool" where
  "reads_task J r t \<longleftrightarrow> task_from_row J r = Inr t \<and> task_status_parse (tk_status r) = Some (tt_status t)"

definition reads_message :: "'m team_json \<Rightarrow> mailbox_row \<Rightarrow> mailbox_message \<Rightarrow> bool" where
  "reads_message J r m \<longleftrightarrow> message_from_row J r = Some m \<and> message_kind_parse (mb_msg_type r) = Some (mm_msg_type m)
     \<and> map_option (tj_to_strings J) (mb_files r) = map_option Inr (mm_files m)"

lemma row_typed_reads:
  assumes "row_typed J r"
  shows "\<exists>t. (case task_from_row J r of Inl _ \<Rightarrow> None | Inr t \<Rightarrow> Some t) = Some t \<and> reads_task J r t"
proof -
  obtain t where t: "task_from_row J r = Inr t"
    using assms by (auto simp: row_typed_def task_of_row_iff)
  moreover obtain s where s: "task_status_parse (tk_status r) = Some s"
    using assms by (auto simp: row_typed_def status_check_parse)
  moreover have "tt_status t = s"
    using t s by (auto simp: task_from_row_iff)
  ultimately show ?thesis by (simp add: reads_task_def)
qed

lemma message_typed_reads:
  assumes "message_typed J r"
  shows "\<exists>m. message_from_row J r = Some m \<and> reads_message J r m"
  using assms by (auto simp: message_typed_def reads_message_def message_from_row_def Let_def split: option.splits)

lemma reads_tasks:
  assumes "tasks_ok J db"
  obtains ts where "board_list J (sqlite_team_repo J) team db = Inr ts"
    and "list_all2 (reads_task J) (sort_key tk_created_at (filter (\<lambda>r. tk_team_id r = team) (td_tasks db))) ts"
proof -
  let ?rows = "sort_key tk_created_at (filter (\<lambda>r. tk_team_id r = team) (td_tasks db))"
  have "list_all2 (\<lambda>r t. (case task_from_row J r of Inl _ \<Rightarrow> None | Inr t \<Rightarrow> Some t) = Some t \<and> reads_task J r t) ?rows
     (List.map_filter (\<lambda>r. case task_from_row J r of Inl _ \<Rightarrow> None | Inr t \<Rightarrow> Some t) ?rows)"
    using assms row_typed_reads by (intro map_filter_total) (auto simp: tasks_ok_def)
  then have "list_all2 (reads_task J) ?rows
     (List.map_filter (\<lambda>r. case task_from_row J r of Inl _ \<Rightarrow> None | Inr t \<Rightarrow> Some t) ?rows)"
    by (rule list_all2_mono) simp
  then show ?thesis
    by (intro that) (simp_all add: board_list_def sqlite_team_repo_def list_task_rows_def)
qed

lemma reads_messages:
  assumes "\<forall>r \<in> set rows. message_typed J r"
  shows "list_all2 (reads_message J) rows (List.map_filter (message_from_row J) rows)"
proof -
  have "list_all2 (\<lambda>r m. message_from_row J r = Some m \<and> reads_message J r m) rows (List.map_filter (message_from_row J) rows)"
    using assms message_typed_reads by (intro map_filter_total) blast
  then show ?thesis by (rule list_all2_mono) simp
qed

end
