(* ===== verification/Team_Properties.thy ===== *)
theory Team_Properties
  imports Team_Rows
begin

text \<open>
  The properties of the mailbox and the task board of a team, and the runs behind the findings. \<open>demo_team_json\<close> is
  a simple encoding of lists of strings on which the hypotheses hold.
\<close>

section \<open>An encoding\<close>

definition demo_strings_text :: "string list \<Rightarrow> string" where
  "demo_strings_text xs = CHR ''['' # concat (map (\<lambda>s. concat (map (\<lambda>c. [CHR ''_'', c]) s) @ '','') xs) @ '']''"

fun demo_decode_from :: "string \<Rightarrow> string \<Rightarrow> string list option" where
  "demo_decode_from cur [] = None"
| "demo_decode_from cur [x] = (if x = CHR '']'' \<and> cur = [] then Some [] else None)"
| "demo_decode_from cur (x # y # r) =
     (if x = CHR '','' then map_option (Cons cur) (demo_decode_from [] (y # r))
      else if x = CHR ''_'' then demo_decode_from (cur @ [y]) r
      else None)"

fun demo_decode_strings :: "string \<Rightarrow> string + string list" where
  "demo_decode_strings (x # r) = (if x = CHR ''['' then ok_or ''invalid'' (demo_decode_from [] r) else Inl ''invalid'')"
| "demo_decode_strings [] = Inl ''invalid''"

definition demo_team_json :: "string team_json" where
  "demo_team_json = \<lparr>tj_of_strings = (\<lambda>xs. Inr (demo_strings_text xs)), tj_to_strings = demo_decode_strings,
     tj_of_meta = Inr, tj_to_meta = Inr\<rparr>"

lemma demo_decode_string:
  assumes "r \<noteq> []"
  shows "demo_decode_from cur (concat (map (\<lambda>c. [CHR ''_'', c]) s) @ '','' @ r)
    = map_option (Cons (cur @ s)) (demo_decode_from [] r)"
proof (induction s arbitrary: cur)
  case Nil
  with assms show ?case by (cases r) simp_all
next
  case (Cons c s)
  then show ?case by simp
qed

lemma demo_decode_list:
  "demo_decode_from [] (concat (map (\<lambda>s. concat (map (\<lambda>c. [CHR ''_'', c]) s) @ '','') xs) @ '']'') = Some xs"
proof (induction xs)
  case (Cons s xs)
  then show ?case using demo_decode_string [of _ "[]" s] by simp
qed simp

lemma demo_team_json_ok: "team_json_ok demo_team_json"
  using demo_decode_list by (simp add: team_json_ok_def demo_team_json_def demo_strings_text_def)

abbreviation demo_repo :: "team_db team_repo" where
  "demo_repo \<equiv> sqlite_team_repo demo_team_json"

section \<open>Rows\<close>

text \<open>C34. Whatever the calls on a team, interleaved statement by statement, every stored row is well typed: the task
  list of a team has exactly its rows, in the order of their creation, each with the status, the links
  and the metadata the row holds; the unread messages and the history of a member have exactly its rows, each with the type and
  the files the row holds. So no row is dropped and no status is replaced by the default.
\<close>

theorem team_rows_are_well_typed:
  assumes "team_json_ok J" and "team_steps J empty_team_db db"
  shows "(\<exists>ts. board_list J (sqlite_team_repo J) team db = Inr ts
        \<and> list_all2 (reads_task J) (sort_key tk_created_at (filter (\<lambda>r. tk_team_id r = team) (td_tasks db))) ts)
      \<and> (\<exists>ms. mailbox_peek_unread J (sqlite_team_repo J) team agent db = Inr ms
        \<and> list_all2 (reads_message J) (sort_key mb_created_at (filter (unread_for team agent) (td_mailbox db))) ms)
      \<and> (\<exists>ms. mailbox_history J (sqlite_team_repo J) team agent l db = Inr ms
        \<and> list_all2 (reads_message J) (sql_limit l (sort_key mb_created_at
            (filter (\<lambda>m. mb_team_id m = team \<and> mb_to_agent_id m = agent) (td_mailbox db)))) ms)"
    (is "?tasks \<and> ?unread \<and> ?history")
proof -
  have ok: "tasks_ok J db" "mailbox_ok J db"
    using team_rows_ok [OF assms] by simp_all
  have ?tasks
    using reads_tasks [OF ok(1)] by blast
  moreover have "\<forall>r \<in> set (sort_key mb_created_at (filter (unread_for team agent) (td_mailbox db))). message_typed J r"
    using ok(2) by (simp add: mailbox_ok_def)
  from reads_messages [OF this] have ?unread
    by (simp add: mailbox_peek_unread_def sqlite_team_repo_def peek_unread_rows_def)
  moreover have "\<forall>r \<in> set (sql_limit l (sort_key mb_created_at
      (filter (\<lambda>m. mb_team_id m = team \<and> mb_to_agent_id m = agent) (td_mailbox db)))). message_typed J r"
    using ok(2) by (auto simp: mailbox_ok_def sql_limit_def dest!: in_set_takeD split: option.splits if_splits)
  from reads_messages [OF this] have ?history
    by (simp add: mailbox_history_def sqlite_team_repo_def history_rows_def)
  ultimately show ?thesis by blast
qed

text \<open>A run with a task that is completed and a message with a file.\<close>

definition demo_task_row :: task_row where
  "demo_task_row = new_task_row ''a'' ''team'' ''Subject'' None None (demo_strings_text []) 5"

definition demo_message :: mailbox_row where
  "demo_message = new_message_row demo_team_json ''m'' ''team'' ''w'' ''lead'' MtMessage ''hi'' None (Some [''f'']) 7"

lemma demo_rows_run:
  "team_steps demo_team_json empty_team_db
     (snd (write_message_row demo_message (snd (create_task_row demo_task_row empty_team_db))))"
proof (rule rtranclp.rtrancl_into_rtrancl [OF r_into_rtranclp])
  show "team_step demo_team_json empty_team_db (snd (create_task_row demo_task_row empty_team_db))"
    unfolding demo_task_row_def by (rule insert_task [of demo_team_json "[]"]) (simp add: demo_team_json_def)
  show "team_step demo_team_json (snd (create_task_row demo_task_row empty_team_db))
      (snd (write_message_row demo_message (snd (create_task_row demo_task_row empty_team_db))))"
    unfolding demo_message_def by (rule insert_message)
qed

lemma team_rows_are_well_typed_witness:
  "\<exists>ts. board_list demo_team_json demo_repo ''team''
       (snd (write_message_row demo_message (snd (create_task_row demo_task_row empty_team_db)))) = Inr ts
     \<and> list_all2 (reads_task demo_team_json) (sort_key tk_created_at (filter (\<lambda>r. tk_team_id r = ''team'')
         (td_tasks (snd (write_message_row demo_message (snd (create_task_row demo_task_row empty_team_db))))))) ts"
  using team_rows_are_well_typed [OF demo_team_json_ok demo_rows_run] by blast

section \<open>Dependencies\<close>

text \<open>C35. After any calls of the board of which none sets \<open>blocked_by\<close> of an existing task, one after the other, no task waits for itself
  through others, and completing a task succeeds, returns it as completed and takes it, and nothing
  else, out of the dependencies of every task: no task waits for it any longer.
\<close>

theorem completing_a_task_unblocks:
  assumes "team_json_ok J" and "list_all (\<lambda>c. \<not> sets_blocked_by c) cs"
    and "db = run_calls J (sqlite_team_repo J) cs empty_team_db"
    and "task_of J db i = Some t" and "tup_status u = Some TkCompleted" and "tup_blocked_by u = None" and "tup_metadata u = None"
  shows "acyclic (waits_for (task_of J db))
    \<and> (\<exists>t' db'. board_update J (sqlite_team_repo J) (tt_team_id t) i u clk db = (Inr t', db')
      \<and> task_of J db' i = Some t' \<and> tt_status t' = TkCompleted
      \<and> (\<forall>j. rel_option (\<lambda>s s'. tt_blocked_by s' = filter (\<lambda>k. k \<noteq> i) (tt_blocked_by s)) (task_of J db j) (task_of J db' j)))"
proof -
  have "team_json_ok J \<and> tasks_ok J empty_team_db"
    using assms(1) by (simp add: tasks_ok_def empty_team_db_def)
  moreover have "links_ok (task_of J empty_team_db)"
    by (simp add: links_ok_def waits_for_def task_of_def task_at_def empty_team_db_def acyclic_def)
  ultimately have db: "(team_json_ok J \<and> tasks_ok J db) \<and> links_ok (task_of J db)"
    using sqlite_task.run_calls_keep [OF _ _ assms(2)] unfolding assms(3) by blast
  then have "acyclic (waits_for (task_of J db))"
    using links_okD(3) by blast
  with sqlite_task.board_complete [OF conjunct1 [OF db] conjunct2 [OF db] assms(4) refl assms(5-7)] show ?thesis
    by blast
qed

definition demo_calls :: "string board_call list" where
  "demo_calls = [Bc_Create ''team'' ''First'' None None [] ''a'' (\<lambda>_. 1),
     Bc_Create ''team'' ''Second'' None None [''a''] ''b'' (\<lambda>_. 2)]"

definition demo_done :: "string task_update" where
  "demo_done = no_task_update\<lparr>tup_status := Some TkCompleted\<rparr>"

definition demo_first :: "string team_task" where
  "demo_first = \<lparr>tt_id = ''a'', tt_team_id = ''team'', tt_subject = ''First'', tt_description = None, tt_status = TkPending,
     tt_owner = None, tt_blocked_by = [], tt_blocks = [''b''], tt_metadata = None, tt_created_at = 1, tt_updated_at = 2\<rparr>"

lemma demo_first_stored:
  "task_of demo_team_json (run_calls demo_team_json demo_repo demo_calls empty_team_db) ''a'' = Some demo_first"
  unfolding demo_calls_def demo_first_def demo_team_json_def by code_simp

lemma completing_a_task_unblocks_witness:
  "\<exists>t' db'. board_update demo_team_json demo_repo ''team'' ''a'' demo_done (\<lambda>_. 3)
        (run_calls demo_team_json demo_repo demo_calls empty_team_db) = (Inr t', db')
     \<and> task_of demo_team_json db' ''a'' = Some t' \<and> tt_status t' = TkCompleted
     \<and> (\<forall>j. rel_option (\<lambda>s s'. tt_blocked_by s' = filter (\<lambda>k. k \<noteq> ''a'') (tt_blocked_by s))
          (task_of demo_team_json (run_calls demo_team_json demo_repo demo_calls empty_team_db) j)
          (task_of demo_team_json db' j))"
proof -
  have calls: "list_all (\<lambda>c. \<not> sets_blocked_by c) demo_calls"
    by (simp add: demo_calls_def)
  have team: "tt_team_id demo_first = ''team''"
    by (simp add: demo_first_def)
  have u: "tup_status demo_done = Some TkCompleted" "tup_blocked_by demo_done = None" "tup_metadata demo_done = None"
    by (simp_all add: demo_done_def no_task_update_def)
  show ?thesis
    using conjunct2 [OF completing_a_task_unblocks [OF demo_team_json_ok calls refl demo_first_stored u, of "\<lambda>_. 3"]]
    unfolding team .
qed

section \<open>Runs behind the findings\<close>

text \<open>What a list of tasks says about who waits for whom.\<close>

definition blockers :: "team_error + 'm team_task list \<Rightarrow> (string \<times> string list) list" where
  "blockers x = (case x of Inl _ \<Rightarrow> [] | Inr ts \<Rightarrow> map (\<lambda>t. (tt_id t, tt_blocked_by t)) ts)"

text \<open>
  An update that sets \<open>blocked_by\<close> does not enter the task under \<open>blocks\<close> of its new dependencies: completing
  the dependency does not unblock it.
\<close>

lemma update_links_one_way:
  "blockers (board_list demo_team_json demo_repo ''team'' (run_calls demo_team_json demo_repo
     [Bc_Create ''team'' ''First'' None None [] ''a'' (\<lambda>_. 1), Bc_Create ''team'' ''Second'' None None [] ''b'' (\<lambda>_. 2),
      Bc_Update ''team'' ''b'' (no_task_update\<lparr>tup_blocked_by := Some [''a'']\<rparr>) (\<lambda>_. 3),
      Bc_Update ''team'' ''a'' demo_done (\<lambda>_. 4)] empty_team_db))
   = [(''a'', []), (''b'', [''a''])]"
  unfolding demo_team_json_def demo_done_def by code_simp

text \<open>An update accepts dependencies that \<open>create_task\<close> refuses: the task itself, or one that does not exist.\<close>

lemma update_accepts_any_dependency:
  "blockers (board_list demo_team_json demo_repo ''team'' (run_calls demo_team_json demo_repo
     [Bc_Create ''team'' ''First'' None None [] ''a'' (\<lambda>_. 1),
      Bc_Update ''team'' ''a'' (no_task_update\<lparr>tup_blocked_by := Some [''a'', ''none'']\<rparr>) (\<lambda>_. 2)] empty_team_db))
   = [(''a'', [''a'', ''none''])]"
  and "fst (board_create demo_team_json demo_repo ''team'' ''First'' None None [''none''] ''a'' (\<lambda>_. 1) empty_team_db)
   = Inl (BlockedTaskNotFound ''none'')"
  unfolding demo_team_json_def by code_simp+

text \<open>A task created on a dependency that is completed already waits for it and is not unblocked.\<close>

lemma created_on_a_completed_task_waits:
  "blockers (board_list demo_team_json demo_repo ''team'' (run_calls demo_team_json demo_repo
     [Bc_Create ''team'' ''First'' None None [] ''a'' (\<lambda>_. 1), Bc_Update ''team'' ''a'' demo_done (\<lambda>_. 2),
      Bc_Create ''team'' ''Second'' None None [''a''] ''b'' (\<lambda>_. 3)] empty_team_db))
   = [(''a'', []), (''b'', [''a''])]"
  unfolding demo_team_json_def demo_done_def by code_simp

end
