(* ===== verification/Member_Runtime.thy ===== *)
theory Member_Runtime
  imports Team_Types
begin

text \<open>
  \<open>aionui-team/src/member_runtime.rs\<close>: the lifecycle of the runtimes of a team's members in one session. A
  \<open>watch\<close> channel is a cell of \<open>mr_cells\<close>, named by its index; a sender or a receiver is that index. Each
  operation holds the lock of the entries from its first read to its last write and is one step.
  \<open>operation_id\<close> is a \<open>u64\<close> that wraps around.
\<close>

record runtime_failure =
  rf_classification :: string
  rf_public_reason :: string

datatype attach_outcome = Ao_Ready | Ao_Failed runtime_failure | Ao_Removed | Ao_Session_Stopped

datatype attach_signal = Sig_Pending | Sig_Terminal attach_outcome

record attach_waiter =
  aw_operation_id :: "64 word"
  aw_cell :: nat

record attach_lease =
  al_generation :: string
  al_agent_id :: string
  al_waiter :: attach_waiter

record remove_lease =
  rl_generation :: string
  rl_agent_id :: string
  rl_operation_id :: "64 word"

datatype reserve_attach =
    Ra_Start attach_lease
  | Ra_Join attach_waiter
  | Ra_Already_Ready
  | Ra_Removing attach_waiter
  | Ra_Session_Stopped

datatype begin_remove =
    Br_Start remove_lease
  | Br_Join attach_waiter
  | Br_Absent
  | Br_Session_Stopped

datatype runtime_snapshot =
    Ms_Absent
  | Ms_Attaching "64 word"
  | Ms_Ready
  | Ms_Failed "64 word" runtime_failure
  | Ms_Removing "64 word"
  | Ms_Session_Stopped

datatype runtime_entry =
    Me_Attaching "64 word" nat
  | Me_Ready
  | Me_Failed "64 word" runtime_failure nat
  | Me_Removing "64 word" nat

record member_registry =
  mr_generation :: string
  mr_next_operation_id :: "64 word"
  mr_entries :: "(string, runtime_entry) hmap"
  mr_stopped :: bool
  mr_cells :: "attach_signal list"

definition new_registry :: "string \<Rightarrow> member_registry" where
  "new_registry g = \<lparr>mr_generation = g, mr_next_operation_id = 1, mr_entries = [], mr_stopped = False, mr_cells = []\<rparr>"

section \<open>Waiting\<close>

text \<open>
  \<open>wait\<close>: the outcome once there is one, \<open>SessionStopped\<close> if the last sender is gone before; None while it
  waits. The senders are held by the entries.
\<close>

fun entry_cell :: "runtime_entry \<Rightarrow> nat option" where
  "entry_cell (Me_Attaching n k) = Some k"
| "entry_cell Me_Ready = None"
| "entry_cell (Me_Failed n f k) = Some k"
| "entry_cell (Me_Removing n k) = Some k"

definition wait_outcome :: "attach_waiter \<Rightarrow> member_registry \<Rightarrow> attach_outcome option" where
  "wait_outcome w r = (case mr_cells r ! aw_cell w of
     Sig_Terminal o' \<Rightarrow> Some o'
   | Sig_Pending \<Rightarrow>
       if list_ex (\<lambda>e. entry_cell e = Some (aw_cell w)) (hm_values (mr_entries r)) then None
       else Some Ao_Session_Stopped)"

section \<open>Operations\<close>

definition send :: "nat \<Rightarrow> attach_outcome \<Rightarrow> member_registry \<Rightarrow> member_registry" where
  "send k o' r = r\<lparr>mr_cells := (mr_cells r)[k := Sig_Terminal o']\<rparr>"

definition set_entry :: "string \<Rightarrow> runtime_entry \<Rightarrow> member_registry \<Rightarrow> member_registry" where
  "set_entry a e r = r\<lparr>mr_entries := hm_insert a e (mr_entries r)\<rparr>"

definition drop_entry :: "string \<Rightarrow> member_registry \<Rightarrow> member_registry" where
  "drop_entry a r = r\<lparr>mr_entries := hm_remove a (mr_entries r)\<rparr>"

text \<open>\<open>next_operation_id\<close> and the creation of a channel.\<close>

definition new_operation :: "member_registry \<Rightarrow> 64 word \<times> nat \<times> member_registry" where
  "new_operation r = (mr_next_operation_id r, length (mr_cells r),
     r\<lparr>mr_next_operation_id := mr_next_operation_id r + 1, mr_cells := mr_cells r @ [Sig_Pending]\<rparr>)"

definition seed_ready :: "string \<Rightarrow> member_registry \<Rightarrow> bool \<times> member_registry" where
  "seed_ready a r =
     (if mr_stopped r then (False, r)
      else case map_of (mr_entries r) a of
        None \<Rightarrow> (True, set_entry a Me_Ready r)
      | Some Me_Ready \<Rightarrow> (True, r)
      | Some _ \<Rightarrow> (False, r))"

definition start_attach :: "string \<Rightarrow> member_registry \<Rightarrow> reserve_attach \<times> member_registry" where
  "start_attach a r = (case new_operation r of (n, k, r') \<Rightarrow>
     (Ra_Start \<lparr>al_generation = mr_generation r, al_agent_id = a,
        al_waiter = \<lparr>aw_operation_id = n, aw_cell = k\<rparr>\<rparr>, set_entry a (Me_Attaching n k) r'))"

definition reserve_attach_for :: "string \<Rightarrow> bool \<Rightarrow> member_registry \<Rightarrow> reserve_attach \<times> member_registry" where
  "reserve_attach_for a retry_failed r =
     (if mr_stopped r then (Ra_Session_Stopped, r)
      else case map_of (mr_entries r) a of
        Some (Me_Attaching n k) \<Rightarrow> (Ra_Join \<lparr>aw_operation_id = n, aw_cell = k\<rparr>, r)
      | Some Me_Ready \<Rightarrow> (Ra_Already_Ready, r)
      | Some (Me_Failed n f k) \<Rightarrow>
          if retry_failed then start_attach a r else (Ra_Join \<lparr>aw_operation_id = n, aw_cell = k\<rparr>, r)
      | Some (Me_Removing n k) \<Rightarrow> (Ra_Removing \<lparr>aw_operation_id = n, aw_cell = k\<rparr>, r)
      | None \<Rightarrow> start_attach a r)"

definition reserve_repair :: "string \<Rightarrow> member_registry \<Rightarrow> reserve_attach \<times> member_registry" where
  "reserve_repair a r =
     (if mr_stopped r then (Ra_Session_Stopped, r)
      else case map_of (mr_entries r) a of
        Some (Me_Attaching n k) \<Rightarrow> (Ra_Join \<lparr>aw_operation_id = n, aw_cell = k\<rparr>, r)
      | Some Me_Ready \<Rightarrow> start_attach a r
      | Some (Me_Failed n f k) \<Rightarrow> (Ra_Join \<lparr>aw_operation_id = n, aw_cell = k\<rparr>, r)
      | Some (Me_Removing n k) \<Rightarrow> (Ra_Removing \<lparr>aw_operation_id = n, aw_cell = k\<rparr>, r)
      | None \<Rightarrow> start_attach a r)"

definition attach_cell :: "attach_lease \<Rightarrow> member_registry \<Rightarrow> nat option" where
  "attach_cell l r = (case map_of (mr_entries r) (al_agent_id l) of
     Some (Me_Attaching n k) \<Rightarrow> if n = aw_operation_id (al_waiter l) then Some k else None
   | _ \<Rightarrow> None)"

definition owns_attach :: "attach_lease \<Rightarrow> member_registry \<Rightarrow> bool" where
  "owns_attach l r \<longleftrightarrow> al_generation l = mr_generation r \<and> \<not> mr_stopped r \<and> attach_cell l r \<noteq> None"

definition commit_attach ::
  "attach_lease \<Rightarrow> (nat \<Rightarrow> runtime_entry) \<Rightarrow> attach_outcome \<Rightarrow> member_registry \<Rightarrow> bool \<times> member_registry" where
  "commit_attach l e o' r =
     (if al_generation l \<noteq> mr_generation r \<or> mr_stopped r then (False, r)
      else case attach_cell l r of
        None \<Rightarrow> (False, r)
      | Some k \<Rightarrow> (True, send k o' (set_entry (al_agent_id l) (e k) r)))"

definition commit_ready :: "attach_lease \<Rightarrow> member_registry \<Rightarrow> bool \<times> member_registry" where
  "commit_ready l = commit_attach l (\<lambda>k. Me_Ready) Ao_Ready"

definition commit_failed :: "attach_lease \<Rightarrow> runtime_failure \<Rightarrow> member_registry \<Rightarrow> bool \<times> member_registry" where
  "commit_failed l f = commit_attach l (Me_Failed (aw_operation_id (al_waiter l)) f) (Ao_Failed f)"

definition begin_remove_of :: "string \<Rightarrow> member_registry \<Rightarrow> begin_remove \<times> member_registry" where
  "begin_remove_of a r =
     (if mr_stopped r then (Br_Session_Stopped, r)
      else case map_of (mr_entries r) a of
        Some (Me_Removing n k) \<Rightarrow> (Br_Join \<lparr>aw_operation_id = n, aw_cell = k\<rparr>, r)
      | None \<Rightarrow> (Br_Absent, r)
      | Some e \<Rightarrow> (case new_operation (drop_entry a r) of (n, k, r') \<Rightarrow>
          let r1 = set_entry a (Me_Removing n k) r'
          in (Br_Start \<lparr>rl_generation = mr_generation r, rl_agent_id = a, rl_operation_id = n\<rparr>,
              case e of Me_Attaching n0 k0 \<Rightarrow> send k0 Ao_Removed r1 | _ \<Rightarrow> r1)))"

definition remove_cell :: "remove_lease \<Rightarrow> member_registry \<Rightarrow> nat option" where
  "remove_cell l r = (case map_of (mr_entries r) (rl_agent_id l) of
     Some (Me_Removing n k) \<Rightarrow> if n = rl_operation_id l then Some k else None
   | _ \<Rightarrow> None)"

definition finish_remove :: "remove_lease \<Rightarrow> member_registry \<Rightarrow> bool \<times> member_registry" where
  "finish_remove l r =
     (if rl_generation l \<noteq> mr_generation r \<or> mr_stopped r then (False, r)
      else case remove_cell l r of
        None \<Rightarrow> (False, r)
      | Some k \<Rightarrow> (True, send k Ao_Removed (drop_entry (rl_agent_id l) r)))"

text \<open>\<open>restore_attach_required_after_remove_persist_error\<close>\<close>

definition restore_after_remove :: "remove_lease \<Rightarrow> runtime_failure \<Rightarrow> member_registry \<Rightarrow> bool \<times> member_registry" where
  "restore_after_remove l f r =
     (if rl_generation l \<noteq> mr_generation r \<or> mr_stopped r then (False, r)
      else case remove_cell l r of
        None \<Rightarrow> (False, r)
      | Some k \<Rightarrow> (True, send k (Ao_Failed f) (set_entry (rl_agent_id l) (Me_Failed (rl_operation_id l) f k) r)))"

definition runtime_snapshot_of :: "string \<Rightarrow> member_registry \<Rightarrow> runtime_snapshot" where
  "runtime_snapshot_of a r =
     (if mr_stopped r then Ms_Session_Stopped
      else case map_of (mr_entries r) a of
        None \<Rightarrow> Ms_Absent
      | Some (Me_Attaching n k) \<Rightarrow> Ms_Attaching n
      | Some Me_Ready \<Rightarrow> Ms_Ready
      | Some (Me_Failed n f k) \<Rightarrow> Ms_Failed n f
      | Some (Me_Removing n k) \<Rightarrow> Ms_Removing n)"

fun stop_entry :: "runtime_entry \<Rightarrow> member_registry \<Rightarrow> member_registry" where
  "stop_entry (Me_Attaching n k) r = send k Ao_Session_Stopped r"
| "stop_entry (Me_Removing n k) r = send k Ao_Session_Stopped r"
| "stop_entry Me_Ready r = r"
| "stop_entry (Me_Failed n f k) r = r"

definition stop_registry :: "member_registry \<Rightarrow> bool \<times> member_registry" where
  "stop_registry r =
     (if mr_stopped r then (False, r)
      else (True, fold stop_entry (hm_values (mr_entries r)) (r\<lparr>mr_stopped := True, mr_entries := []\<rparr>)))"

end
