(* ===== verification/Member_World.thy ===== *)
theory Member_World
  imports Member_Runtime
begin

text \<open>
  The runtimes of a team's members under any sequence of calls, by any holder of any lease.
  \<open>registry_ok\<close>: an attach or a removal in progress is the entry of its member and the only one with its cell, which is
  pending; every pending cell belongs to one. An operation's identifier is the index of its cell plus one, as a \<open>u64\<close>.
\<close>

record member_world =
  mw_registry :: member_registry
  mw_leases :: "attach_lease set"

fun started_lease :: "reserve_attach \<Rightarrow> attach_lease set" where
  "started_lease (Ra_Start l) = {l}"
| "started_lease _ = {}"

inductive member_step :: "member_world \<Rightarrow> member_world \<Rightarrow> bool" where
  seed: "member_step w (w\<lparr>mw_registry := snd (seed_ready a (mw_registry w))\<rparr>)"
| attach: "reserve_attach_for a retry (mw_registry w) = (res, r) \<Longrightarrow>
    member_step w (w\<lparr>mw_registry := r, mw_leases := mw_leases w \<union> started_lease res\<rparr>)"
| repair: "reserve_repair a (mw_registry w) = (res, r) \<Longrightarrow>
    member_step w (w\<lparr>mw_registry := r, mw_leases := mw_leases w \<union> started_lease res\<rparr>)"
| ready: "member_step w (w\<lparr>mw_registry := snd (commit_ready l (mw_registry w))\<rparr>)"
| failed: "member_step w (w\<lparr>mw_registry := snd (commit_failed l f (mw_registry w))\<rparr>)"
| begin_removal: "member_step w (w\<lparr>mw_registry := snd (begin_remove_of a (mw_registry w))\<rparr>)"
| finish_removal: "member_step w (w\<lparr>mw_registry := snd (finish_remove rl (mw_registry w))\<rparr>)"
| restore: "member_step w (w\<lparr>mw_registry := snd (restore_after_remove rl f (mw_registry w))\<rparr>)"
| stop: "member_step w (w\<lparr>mw_registry := snd (stop_registry (mw_registry w))\<rparr>)"

abbreviation member_steps :: "member_world \<Rightarrow> member_world \<Rightarrow> bool" where
  "member_steps \<equiv> member_step\<^sup>*\<^sup>*"

definition new_member_world :: "string \<Rightarrow> member_world" where
  "new_member_world g = \<lparr>mw_registry = new_registry g, mw_leases = {}\<rparr>"

section \<open>The invariant\<close>

text \<open>The operation in progress of an entry: its identifier and cell.\<close>

fun operation_of :: "runtime_entry \<Rightarrow> (64 word \<times> nat) option" where
  "operation_of (Me_Attaching n k) = Some (n, k)"
| "operation_of (Me_Removing n k) = Some (n, k)"
| "operation_of _ = None"

definition operation_at :: "member_registry \<Rightarrow> string \<Rightarrow> (64 word \<times> nat) option" where
  "operation_at r a = Option.bind (map_of (mr_entries r) a) operation_of"

definition registry_ok :: "member_registry \<Rightarrow> bool" where
  "registry_ok r \<longleftrightarrow> distinct (hm_keys (mr_entries r))
     \<and> mr_next_operation_id r = of_nat (Suc (length (mr_cells r)))
     \<and> (mr_stopped r \<longrightarrow> mr_entries r = [])
     \<and> (\<forall>a n k. operation_at r a = Some (n, k) \<longrightarrow>
          k < length (mr_cells r) \<and> mr_cells r ! k = Sig_Pending \<and> n = of_nat (Suc k))
     \<and> (\<forall>a b n k m. operation_at r a = Some (n, k) \<longrightarrow> operation_at r b = Some (m, k) \<longrightarrow> a = b)
     \<and> (\<forall>k. k < length (mr_cells r) \<longrightarrow> mr_cells r ! k = Sig_Pending \<longrightarrow> (\<exists>a n. operation_at r a = Some (n, k)))
     \<and> (\<forall>a n f k. map_of (mr_entries r) a = Some (Me_Failed n f k) \<longrightarrow>
          k < length (mr_cells r) \<and> mr_cells r ! k = Sig_Terminal (Ao_Failed f))"

lemma registry_okI:
  assumes "distinct (hm_keys (mr_entries r))" and "mr_next_operation_id r = of_nat (Suc (length (mr_cells r)))"
    and "mr_stopped r \<Longrightarrow> mr_entries r = []"
    and "\<And>a n k. operation_at r a = Some (n, k) \<Longrightarrow>
          k < length (mr_cells r) \<and> mr_cells r ! k = Sig_Pending \<and> n = of_nat (Suc k)"
    and "\<And>a b n k m. operation_at r a = Some (n, k) \<Longrightarrow> operation_at r b = Some (m, k) \<Longrightarrow> a = b"
    and "\<And>k. k < length (mr_cells r) \<Longrightarrow> mr_cells r ! k = Sig_Pending \<Longrightarrow> \<exists>a n. operation_at r a = Some (n, k)"
    and "\<And>a n f k. map_of (mr_entries r) a = Some (Me_Failed n f k) \<Longrightarrow>
          k < length (mr_cells r) \<and> mr_cells r ! k = Sig_Terminal (Ao_Failed f)"
  shows "registry_ok r"
  using assms unfolding registry_ok_def by blast

lemma registry_okD:
  assumes "registry_ok r"
  shows "distinct (hm_keys (mr_entries r))" and "mr_next_operation_id r = of_nat (Suc (length (mr_cells r)))"
    and "mr_stopped r \<Longrightarrow> mr_entries r = []"
    and "operation_at r a = Some (n, k) \<Longrightarrow> k < length (mr_cells r)"
    and "operation_at r a = Some (n, k) \<Longrightarrow> mr_cells r ! k = Sig_Pending"
    and "operation_at r a = Some (n, k) \<Longrightarrow> n = of_nat (Suc k)"
    and "operation_at r a = Some (n, k) \<Longrightarrow> operation_at r b = Some (m, k) \<Longrightarrow> a = b"
    and "k < length (mr_cells r) \<Longrightarrow> mr_cells r ! k = Sig_Pending \<Longrightarrow> \<exists>a n. operation_at r a = Some (n, k)"
    and "map_of (mr_entries r) a = Some (Me_Failed n f k) \<Longrightarrow> k < length (mr_cells r)"
    and "map_of (mr_entries r) a = Some (Me_Failed n f k) \<Longrightarrow> mr_cells r ! k = Sig_Terminal (Ao_Failed f)"
  using assms unfolding registry_ok_def by blast+

lemma registry_ok_new: "registry_ok (new_registry g)"
  by (simp add: registry_ok_def new_registry_def operation_at_def)

text \<open>The four changes the operations are made of: an entry without an operation is written, an operation begins, an
  operation ends, the session stops.\<close>

lemma operation_at_set_entry [simp]:
  "operation_at (set_entry a e r) b = (if b = a then operation_of e else operation_at r b)"
  by (simp add: operation_at_def set_entry_def)

lemma operation_at_drop_entry [simp]:
  "operation_at (drop_entry a r) b = (if b = a then None else operation_at r b)"
  by (simp add: operation_at_def drop_entry_def)

lemma set_entry_simps [simp]:
  "mr_generation (set_entry a e r) = mr_generation r" "mr_next_operation_id (set_entry a e r) = mr_next_operation_id r"
  "mr_stopped (set_entry a e r) = mr_stopped r" "mr_cells (set_entry a e r) = mr_cells r"
  "mr_generation (drop_entry a r) = mr_generation r" "mr_next_operation_id (drop_entry a r) = mr_next_operation_id r"
  "mr_stopped (drop_entry a r) = mr_stopped r" "mr_cells (drop_entry a r) = mr_cells r"
  "mr_generation (send k o' r) = mr_generation r" "mr_next_operation_id (send k o' r) = mr_next_operation_id r"
  "mr_stopped (send k o' r) = mr_stopped r" "mr_cells (send k o' r) = (mr_cells r)[k := Sig_Terminal o']"
  "mr_entries (send k o' r) = mr_entries r"
  by (simp_all add: set_entry_def drop_entry_def send_def)

lemma operation_at_send [simp]: "operation_at (send k o' r) a = operation_at r a"
  by (simp add: operation_at_def)

lemma map_of_set_entry [simp]:
  "map_of (mr_entries (set_entry a e r)) = (map_of (mr_entries r))(a \<mapsto> e)"
  "map_of (mr_entries (drop_entry a r)) = (map_of (mr_entries r))(a := None)"
  by (simp_all add: set_entry_def drop_entry_def)

lemma keys_set_entry:
  "distinct (hm_keys (mr_entries r)) \<Longrightarrow> distinct (hm_keys (mr_entries (set_entry a e r)))"
  "distinct (hm_keys (mr_entries r)) \<Longrightarrow> distinct (hm_keys (mr_entries (drop_entry a r)))"
  by (simp_all add: set_entry_def drop_entry_def distinct_hm_insert distinct_hm_remove)

lemma ok_set_idle:
  assumes r: "registry_ok r" and s: "\<not> mr_stopped r" and a: "operation_at r a = None"
    and x: "x = set_entry a Me_Ready r \<or> x = drop_entry a r"
  shows "registry_ok x"
proof (rule registry_okI)
  note ok = registry_okD [OF r]
  have [simp]: "mr_cells x = mr_cells r" "mr_next_operation_id x = mr_next_operation_id r" "mr_stopped x = mr_stopped r"
    using x by auto
  have at: "operation_at x b = (if b = a then None else operation_at r b)" for b
    using x by auto
  show "distinct (hm_keys (mr_entries x))" "mr_next_operation_id x = of_nat (Suc (length (mr_cells x)))"
    using x ok(1,2) by (auto simp: keys_set_entry)
  show "mr_stopped x \<Longrightarrow> mr_entries x = []"
    using s by simp
  show "k < length (mr_cells x) \<and> mr_cells x ! k = Sig_Pending \<and> n = of_nat (Suc k)"
    if "operation_at x b = Some (n, k)" for b n k
    using that ok(4-6) [of b n k] by (simp add: at split: if_splits)
  show "b = c" if "operation_at x b = Some (n, k)" "operation_at x c = Some (m, k)" for b c n k m
    using that ok(7) [of b n k c m] by (simp add: at split: if_splits)
  show "\<exists>b n. operation_at x b = Some (n, k)" if k: "k < length (mr_cells x)" "mr_cells x ! k = Sig_Pending" for k
  proof -
    obtain b n where b: "operation_at r b = Some (n, k)" using k ok(8) [of k] by auto
    moreover from this a have "b \<noteq> a" by auto
    ultimately show ?thesis by (intro exI [of _ b]) (simp add: at)
  qed
  show "k < length (mr_cells x) \<and> mr_cells x ! k = Sig_Terminal (Ao_Failed f)"
    if "map_of (mr_entries x) b = Some (Me_Failed n f k)" for b n f k
    using that x ok(9,10) [of b n f k] by (auto split: if_splits)
qed

definition begun :: "string \<Rightarrow> (64 word \<Rightarrow> nat \<Rightarrow> runtime_entry) \<Rightarrow> member_registry \<Rightarrow> member_registry" where
  "begun a e r = (case new_operation r of (n, k, r') \<Rightarrow> set_entry a (e n k) r')"

lemma begun_simps [simp]:
  "mr_generation (begun a e r) = mr_generation r" "mr_stopped (begun a e r) = mr_stopped r"
  "mr_cells (begun a e r) = mr_cells r @ [Sig_Pending]"
  "mr_next_operation_id (begun a e r) = mr_next_operation_id r + 1"
  "map_of (mr_entries (begun a e r)) = (map_of (mr_entries r))(a \<mapsto> e (mr_next_operation_id r) (length (mr_cells r)))"
  by (simp_all add: begun_def new_operation_def)

lemma operation_at_begun:
  assumes "\<And>n k. operation_of (e n k) = Some (n, k)"
  shows "operation_at (begun a e r) b
    = (if b = a then Some (mr_next_operation_id r, length (mr_cells r)) else operation_at r b)"
  using assms by (simp add: operation_at_def)

lemma ok_begun:
  assumes r: "registry_ok r" and s: "\<not> mr_stopped r" and a: "operation_at r a = None"
    and e: "\<And>n k. operation_of (e n k) = Some (n, k)"
  shows "registry_ok (begun a e r)"
proof (rule registry_okI)
  note ok = registry_okD [OF r] and at = operation_at_begun [of e, OF e]
  show "distinct (hm_keys (mr_entries (begun a e r)))"
    using ok(1) keys_set_entry(1) [of "r\<lparr>mr_next_operation_id := x, mr_cells := y\<rparr>" for x y]
    by (simp add: begun_def new_operation_def)
  show "mr_next_operation_id (begun a e r) = of_nat (Suc (length (mr_cells (begun a e r))))"
    using ok(2) by simp
  show "mr_stopped (begun a e r) \<Longrightarrow> mr_entries (begun a e r) = []"
    using s by simp
  show "k < length (mr_cells (begun a e r)) \<and> mr_cells (begun a e r) ! k = Sig_Pending \<and> n = of_nat (Suc k)"
    if "operation_at (begun a e r) b = Some (n, k)" for b n k
    using that ok(2) ok(4-6) [of b n k] by (auto simp: at nth_append split: if_splits)
  show "b = c" if "operation_at (begun a e r) b = Some (n, k)" "operation_at (begun a e r) c = Some (m, k)" for b c n k m
    using that ok(4) [of b n k] ok(4) [of c m k] ok(7) [of b n k c m] by (auto simp: at split: if_splits)
  show "\<exists>b n. operation_at (begun a e r) b = Some (n, k)"
    if k: "k < length (mr_cells (begun a e r))" "mr_cells (begun a e r) ! k = Sig_Pending" for k
  proof (cases "k = length (mr_cells r)")
    case True
    then show ?thesis by (intro exI [of _ a]) (simp add: at)
  next
    case False
    then obtain b n where "operation_at r b = Some (n, k)"
      using k ok(8) [of k] by (auto simp: nth_append)
    moreover from this a have "b \<noteq> a" by auto
    ultimately show ?thesis by (intro exI [of _ b]) (simp add: at)
  qed
  show "k < length (mr_cells (begun a e r)) \<and> mr_cells (begun a e r) ! k = Sig_Terminal (Ao_Failed f)"
    if "map_of (mr_entries (begun a e r)) b = Some (Me_Failed n f k)" for b n f k
    using that e [of "mr_next_operation_id r" "length (mr_cells r)"] ok(9,10) [of b n f k]
    by (auto simp: nth_append split: if_splits)
qed

text \<open>An operation ends: its member's entry is written or dropped, its cell gets the outcome.\<close>

lemma ok_ended:
  assumes r: "registry_ok r" and s: "\<not> mr_stopped r" and a: "operation_at r a = Some (n, k)"
    and e: "x = set_entry a e r \<and> operation_of e = None \<and> (\<forall>m f j. e = Me_Failed m f j \<longrightarrow> j = k \<and> o' = Ao_Failed f)
      \<or> x = drop_entry a r"
  shows "registry_ok (send k o' x)"
proof (rule registry_okI)
  note ok = registry_okD [OF r]
  have x [simp]: "mr_cells x = mr_cells r" "mr_next_operation_id x = mr_next_operation_id r" "mr_stopped x = mr_stopped r"
    using e by auto
  have at: "operation_at x b = (if b = a then None else operation_at r b)" for b
    using e by auto
  have other: "j \<noteq> k" if "operation_at r b = Some (m, j)" "b \<noteq> a" for b m j
    using ok(7) [OF a, of b m] that by auto
  show "distinct (hm_keys (mr_entries (send k o' x)))"
    using e ok(1) by (auto simp: keys_set_entry)
  show "mr_next_operation_id (send k o' x) = of_nat (Suc (length (mr_cells (send k o' x))))"
    using ok(2) by simp
  show "mr_stopped (send k o' x) \<Longrightarrow> mr_entries (send k o' x) = []"
    using s by simp
  show "j < length (mr_cells (send k o' x)) \<and> mr_cells (send k o' x) ! j = Sig_Pending \<and> m = of_nat (Suc j)"
    if "operation_at (send k o' x) b = Some (m, j)" for b m j
    using that other [of b m j] ok(4-6) [of b m j] by (auto simp: at split: if_splits)
  show "b = c" if "operation_at (send k o' x) b = Some (m, j)" "operation_at (send k o' x) c = Some (i, j)" for b c m j i
    using that ok(7) [of b m j c i] by (auto simp: at split: if_splits)
  show "\<exists>b m. operation_at (send k o' x) b = Some (m, j)"
    if j: "j < length (mr_cells (send k o' x))" "mr_cells (send k o' x) ! j = Sig_Pending" for j
  proof -
    have "j \<noteq> k" using j ok(4) [OF a] by auto
    then obtain b m where b: "operation_at r b = Some (m, j)" using j ok(8) [of j] by auto
    moreover from this a \<open>j \<noteq> k\<close> have "b \<noteq> a" by auto
    ultimately show ?thesis by (intro exI [of _ b]) (simp add: at)
  qed
  show "j < length (mr_cells (send k o' x)) \<and> mr_cells (send k o' x) ! j = Sig_Terminal (Ao_Failed f)"
    if m: "map_of (mr_entries (send k o' x)) b = Some (Me_Failed m f j)" for b m f j
  proof (cases "b = a")
    case True
    with m e ok(4) [OF a] show ?thesis by auto
  next
    case False
    then have m': "map_of (mr_entries r) b = Some (Me_Failed m f j)" using m e by auto
    then have "j \<noteq> k" using ok(10) [OF m'] ok(5) [OF a] by auto
    with ok(9,10) [OF m'] show ?thesis by simp
  qed
qed


text \<open>The session stops: every pending cell gets \<open>SessionStopped\<close>.\<close>

lemma stop_entries:
  "mr_entries (fold stop_entry es r) = mr_entries r" "mr_generation (fold stop_entry es r) = mr_generation r"
  "mr_next_operation_id (fold stop_entry es r) = mr_next_operation_id r" "mr_stopped (fold stop_entry es r) = mr_stopped r"
  "length (mr_cells (fold stop_entry es r)) = length (mr_cells r)"
proof (induction es arbitrary: r)
  case (Cons e es)
  {
    case 1 then show ?case using Cons.IH(1) by (cases e) simp_all
  next
    case 2 then show ?case using Cons.IH(2) by (cases e) simp_all
  next
    case 3 then show ?case using Cons.IH(3) by (cases e) simp_all
  next
    case 4 then show ?case using Cons.IH(4) by (cases e) simp_all
  next
    case 5 then show ?case using Cons.IH(5) by (cases e) simp_all
  }
qed simp_all

lemma stop_entries_cells:
  "k < length (mr_cells r) \<Longrightarrow> mr_cells (fold stop_entry es r) ! k
    = (if \<exists>e \<in> set es. \<exists>n. operation_of e = Some (n, k) then Sig_Terminal Ao_Session_Stopped else mr_cells r ! k)"
proof (induction es arbitrary: r)
  case (Cons e es)
  show ?case
  proof (cases "operation_of e")
    case None
    then have "stop_entry e r = r" by (cases e) simp_all
    with Cons None show ?thesis by simp
  next
    case (Some p)
    then obtain n j where p: "operation_of e = Some (n, j)" by (cases p) auto
    then have "stop_entry e r = send j Ao_Session_Stopped r" by (cases e) simp_all
    with Cons p show ?thesis by (cases "j = k") auto
  qed
qed simp

lemma operation_at_value:
  assumes "operation_at r a = Some (n, k)"
  shows "\<exists>e \<in> set (hm_values (mr_entries r)). operation_of e = Some (n, k)"
  using assms by (force simp: operation_at_def bind_eq_Some_conv dest!: map_of_SomeD)

lemma ok_stop:
  assumes r: "registry_ok r" and s: "\<not> mr_stopped r"
  shows "registry_ok (snd (stop_registry r))"
proof -
  let ?x = "fold stop_entry (hm_values (mr_entries r)) (r\<lparr>mr_stopped := True, mr_entries := []\<rparr>)"
  have "registry_ok ?x"
  proof (rule registry_okI)
    show "\<exists>a n. operation_at ?x a = Some (n, k)"
      if k: "k < length (mr_cells ?x)" "mr_cells ?x ! k = Sig_Pending" for k
    proof -
      have k': "k < length (mr_cells r)" using k(1) by (simp add: stop_entries)
      have "\<exists>a n. operation_at r a = Some (n, k)"
        using k(2) k' registry_okD(8) [OF r k'] stop_entries_cells [of k "r\<lparr>mr_stopped := True, mr_entries := []\<rparr>"]
        by (auto split: if_splits)
      then obtain a n where "operation_at r a = Some (n, k)" by blast
      from operation_at_value [OF this] k(2) k' show ?thesis
        by (auto simp: stop_entries_cells split: if_splits)
    qed
  qed (use registry_okD(2) [OF r] in \<open>simp_all add: stop_entries operation_at_def\<close>)
  with s show ?thesis by (simp add: stop_registry_def)
qed


section \<open>What no operation undoes\<close>

text \<open>An outcome stays, no new operation takes an old cell, and an old operation in progress keeps its entry.\<close>

definition keeps_outcomes :: "member_registry \<Rightarrow> member_registry \<Rightarrow> bool" where
  "keeps_outcomes r r' \<longleftrightarrow> mr_generation r' = mr_generation r \<and> length (mr_cells r) \<le> length (mr_cells r')
     \<and> (\<forall>k o'. k < length (mr_cells r) \<longrightarrow> mr_cells r ! k = Sig_Terminal o' \<longrightarrow> mr_cells r' ! k = Sig_Terminal o')
     \<and> (\<forall>a n k. operation_at r' a = Some (n, k) \<longrightarrow> k < length (mr_cells r) \<longrightarrow>
          map_of (mr_entries r') a = map_of (mr_entries r) a)"

lemma keeps_outcomesI:
  assumes "mr_generation r' = mr_generation r" and "length (mr_cells r) \<le> length (mr_cells r')"
    and "\<And>k o'. k < length (mr_cells r) \<Longrightarrow> mr_cells r ! k = Sig_Terminal o' \<Longrightarrow> mr_cells r' ! k = Sig_Terminal o'"
    and "\<And>a n k. operation_at r' a = Some (n, k) \<Longrightarrow> k < length (mr_cells r)
      \<Longrightarrow> map_of (mr_entries r') a = map_of (mr_entries r) a"
  shows "keeps_outcomes r r'"
  using assms unfolding keeps_outcomes_def by blast

lemma keeps_outcomesD:
  assumes "keeps_outcomes r r'"
  shows "mr_generation r' = mr_generation r" and "length (mr_cells r) \<le> length (mr_cells r')"
    and "k < length (mr_cells r) \<Longrightarrow> mr_cells r ! k = Sig_Terminal o' \<Longrightarrow> mr_cells r' ! k = Sig_Terminal o'"
    and "operation_at r' a = Some (n, k) \<Longrightarrow> k < length (mr_cells r) \<Longrightarrow> map_of (mr_entries r') a = map_of (mr_entries r) a"
  using assms unfolding keeps_outcomes_def by blast+

lemma keeps_outcomes_refl: "keeps_outcomes r r"
  by (simp add: keeps_outcomes_def)

lemma keeps_outcomes_trans:
  assumes 1: "keeps_outcomes r r'" and 2: "keeps_outcomes r' r''"
  shows "keeps_outcomes r r''"
proof (rule keeps_outcomesI)
  show "mr_generation r'' = mr_generation r" "length (mr_cells r) \<le> length (mr_cells r'')"
    using keeps_outcomesD(1,2) [OF 1] keeps_outcomesD(1,2) [OF 2] by simp_all
  show "mr_cells r'' ! k = Sig_Terminal o'" if "k < length (mr_cells r)" "mr_cells r ! k = Sig_Terminal o'" for k o'
    using keeps_outcomesD(3) [OF 1 that] keeps_outcomesD(3) [OF 2, of k o'] keeps_outcomesD(2) [OF 1] that(1) by simp
  show "map_of (mr_entries r'') a = map_of (mr_entries r) a"
    if k: "operation_at r'' a = Some (n, k)" "k < length (mr_cells r)" for a n k
  proof -
    have e: "map_of (mr_entries r'') a = map_of (mr_entries r') a"
      using keeps_outcomesD(4) [OF 2 k(1)] k(2) keeps_outcomesD(2) [OF 1] by simp
    then have "operation_at r' a = Some (n, k)" using k(1) by (simp add: operation_at_def)
    with e keeps_outcomesD(4) [OF 1 _ k(2)] show ?thesis by simp
  qed
qed

lemma keeps_outcomes_set_idle:
  assumes "x = set_entry a Me_Ready r \<or> x = drop_entry a r"
  shows "keeps_outcomes r x"
  using assms by (auto simp: keeps_outcomes_def split: if_splits)

lemma keeps_outcomes_begun:
  assumes "\<And>n k. operation_of (e n k) = Some (n, k)"
  shows "keeps_outcomes r (begun a e r)"
  using assms by (auto simp: keeps_outcomes_def operation_at_begun nth_append split: if_splits)

lemma keeps_outcomes_ended:
  assumes r: "registry_ok r" and a: "operation_at r a = Some (n, k)"
    and e: "x = set_entry a e r \<and> operation_of e = None \<or> x = drop_entry a r"
  shows "keeps_outcomes r (send k o' x)"
proof -
  have "k \<noteq> j" if "mr_cells r ! j = Sig_Terminal y" for j y
    using registry_okD(5) [OF r a] that by auto
  then show ?thesis
    using e by (auto simp: keeps_outcomes_def split: if_splits)
qed

lemma keeps_outcomes_stop:
  assumes "registry_ok r"
  shows "keeps_outcomes r (snd (stop_registry r))"
proof -
  have "mr_cells (fold stop_entry (hm_values (mr_entries r)) (r\<lparr>mr_stopped := True, mr_entries := []\<rparr>)) ! k = Sig_Terminal o'"
    if k: "k < length (mr_cells r)" "mr_cells r ! k = Sig_Terminal o'" for k o'
  proof -
    have "operation_of e \<noteq> Some (n, k)" if e: "e \<in> set (hm_values (mr_entries r))" for e n
    proof
      assume n: "operation_of e = Some (n, k)"
      obtain b where "map_of (mr_entries r) b = Some e"
        using iffD1 [OF hm_values_iff [OF registry_okD(1) [OF assms]] e] ..
      with n have "operation_at r b = Some (n, k)" by (simp add: operation_at_def)
      from registry_okD(5) [OF assms this] k(2) show False by simp
    qed
    with k show ?thesis by (simp add: stop_entries_cells)
  qed
  then show ?thesis
    by (simp add: stop_registry_def keeps_outcomes_def stop_entries operation_at_def)
qed

section \<open>The operations\<close>

text \<open>Each operation is one of these changes.\<close>

lemma operation_at_idle:
  assumes "map_of (mr_entries r) a = Some e" and "operation_of e = None"
  shows "operation_at r a = None"
  using assms by (simp add: operation_at_def)

lemma operation_at_absent: "map_of (mr_entries r) a = None \<Longrightarrow> operation_at r a = None"
  by (simp add: operation_at_def)

lemma seed_ready_ok:
  assumes "registry_ok r"
  shows "registry_ok (snd (seed_ready a r)) \<and> keeps_outcomes r (snd (seed_ready a r))"
  using assms ok_set_idle [OF assms _ operation_at_absent, of a "set_entry a Me_Ready r"]
    keeps_outcomes_set_idle [of "set_entry a Me_Ready r" a r]
  by (auto simp: seed_ready_def keeps_outcomes_refl split: option.splits runtime_entry.splits)

lemma start_attach_eq:
  "start_attach a r = (Ra_Start \<lparr>al_generation = mr_generation r, al_agent_id = a, al_waiter =
     \<lparr>aw_operation_id = mr_next_operation_id r, aw_cell = length (mr_cells r)\<rparr>\<rparr>, begun a Me_Attaching r)"
  by (simp add: start_attach_def begun_def new_operation_def)

lemma start_attach_ok:
  assumes "registry_ok r" and "\<not> mr_stopped r" and "operation_at r a = None"
  shows "registry_ok (snd (start_attach a r)) \<and> keeps_outcomes r (snd (start_attach a r))"
  unfolding start_attach_eq using ok_begun [OF assms, of Me_Attaching] keeps_outcomes_begun [of Me_Attaching] by simp

lemma reserve_ok:
  assumes "registry_ok r"
  shows "registry_ok (snd (reserve_attach_for a retry r)) \<and> keeps_outcomes r (snd (reserve_attach_for a retry r))"
    and "registry_ok (snd (reserve_repair a r)) \<and> keeps_outcomes r (snd (reserve_repair a r))"
  using assms start_attach_ok [OF assms, of a] operation_at_idle [of r a] operation_at_absent [of r a]
  by (auto simp: reserve_attach_for_def reserve_repair_def keeps_outcomes_refl split: option.splits runtime_entry.splits)

lemma attach_cell_iff:
  "attach_cell l r = Some k \<longleftrightarrow> map_of (mr_entries r) (al_agent_id l) = Some (Me_Attaching (aw_operation_id (al_waiter l)) k)"
  by (auto simp: attach_cell_def split: option.splits runtime_entry.splits)

lemma remove_cell_iff:
  "remove_cell l r = Some k \<longleftrightarrow> map_of (mr_entries r) (rl_agent_id l) = Some (Me_Removing (rl_operation_id l) k)"
  by (auto simp: remove_cell_def split: option.splits runtime_entry.splits)

lemma commit_attach_ok:
  assumes r: "registry_ok r"
    and e: "\<And>k. operation_of (e k) = None" "\<And>m f j k. e k = Me_Failed m f j \<Longrightarrow> j = k \<and> o' = Ao_Failed f"
  shows "registry_ok (snd (commit_attach l e o' r)) \<and> keeps_outcomes r (snd (commit_attach l e o' r))"
proof (cases "al_generation l \<noteq> mr_generation r \<or> mr_stopped r \<or> attach_cell l r = None")
  case True
  then have "snd (commit_attach l e o' r) = r"
    unfolding commit_attach_def by (auto split: option.splits)
  with r show ?thesis by (simp add: keeps_outcomes_refl)
next
  case False
  then obtain k where k: "attach_cell l r = Some k" by auto
  then have a: "operation_at r (al_agent_id l) = Some (aw_operation_id (al_waiter l), k)"
    unfolding attach_cell_iff by (simp add: operation_at_def)
  let ?x = "set_entry (al_agent_id l) (e k) r"
  have "registry_ok (send k o' ?x)"
    using False e by (intro ok_ended [OF r _ a]) auto
  moreover have "keeps_outcomes r (send k o' ?x)"
    using e by (intro keeps_outcomes_ended [OF r a]) auto
  moreover have "snd (commit_attach l e o' r) = send k o' ?x"
    using False k by (simp add: commit_attach_def)
  ultimately show ?thesis by simp
qed

lemma commits_ok:
  assumes "registry_ok r"
  shows "registry_ok (snd (commit_ready l r)) \<and> keeps_outcomes r (snd (commit_ready l r))"
    and "registry_ok (snd (commit_failed l f r)) \<and> keeps_outcomes r (snd (commit_failed l f r))"
  unfolding commit_ready_def commit_failed_def by (rule commit_attach_ok [OF assms]; simp)+

lemma end_removal_ok:
  assumes r: "registry_ok r"
  shows "registry_ok (snd (finish_remove l r)) \<and> keeps_outcomes r (snd (finish_remove l r))"
    and "registry_ok (snd (restore_after_remove l f r)) \<and> keeps_outcomes r (snd (restore_after_remove l f r))"
proof -
  have "(registry_ok (snd (finish_remove l r)) \<and> keeps_outcomes r (snd (finish_remove l r)))
      \<and> registry_ok (snd (restore_after_remove l f r)) \<and> keeps_outcomes r (snd (restore_after_remove l f r))"
  proof (cases "rl_generation l \<noteq> mr_generation r \<or> mr_stopped r \<or> remove_cell l r = None")
    case True
    then have "snd (finish_remove l r) = r" "snd (restore_after_remove l f r) = r"
      unfolding finish_remove_def restore_after_remove_def by (auto split: option.splits)
    with r show ?thesis by (simp add: keeps_outcomes_refl)
  next
    case False
    then obtain k where k: "remove_cell l r = Some k" by auto
    then have a: "operation_at r (rl_agent_id l) = Some (rl_operation_id l, k)"
      unfolding remove_cell_iff by (simp add: operation_at_def)
    let ?x = "set_entry (rl_agent_id l) (Me_Failed (rl_operation_id l) f k) r"
    have "registry_ok (send k Ao_Removed (drop_entry (rl_agent_id l) r))" "registry_ok (send k (Ao_Failed f) ?x)"
      using False by (auto intro!: ok_ended [OF r _ a])
    moreover have "keeps_outcomes r (send k Ao_Removed (drop_entry (rl_agent_id l) r))" "keeps_outcomes r (send k (Ao_Failed f) ?x)"
      by (auto intro!: keeps_outcomes_ended [OF r a])
    ultimately show ?thesis
      using False k by (simp add: finish_remove_def restore_after_remove_def)
  qed
  then show "registry_ok (snd (finish_remove l r)) \<and> keeps_outcomes r (snd (finish_remove l r))"
    and "registry_ok (snd (restore_after_remove l f r)) \<and> keeps_outcomes r (snd (restore_after_remove l f r))"
    by blast+
qed

lemma begin_remove_ok:
  assumes r: "registry_ok r"
  shows "registry_ok (snd (begin_remove_of a r)) \<and> keeps_outcomes r (snd (begin_remove_of a r))"
proof (cases "mr_stopped r \<or> map_of (mr_entries r) a = None \<or> (\<exists>n k. map_of (mr_entries r) a = Some (Me_Removing n k))")
  case True
  then have "snd (begin_remove_of a r) = r"
    by (auto simp: begin_remove_of_def)
  with r show ?thesis by (simp add: keeps_outcomes_refl)
next
  case False
  then obtain e where e: "map_of (mr_entries r) a = Some e" "\<not> mr_stopped r" by auto
  show ?thesis
  proof (cases "operation_of e")
    case None
    note idle = ok_set_idle [OF r e(2) operation_at_idle [OF e(1) None] disjI2 [OF refl]]
    have "registry_ok (begun a Me_Removing (drop_entry a r))"
      using e(2) by (intro ok_begun [OF idle]) simp_all
    moreover have "keeps_outcomes r (begun a Me_Removing (drop_entry a r))"
      using keeps_outcomes_trans [OF keeps_outcomes_set_idle [OF disjI2 [OF refl]] keeps_outcomes_begun [of Me_Removing]] by simp
    moreover have "snd (begin_remove_of a r) = begun a Me_Removing (drop_entry a r)"
      using e False None by (cases e) (simp_all add: begin_remove_of_def begun_def new_operation_def Let_def)
    ultimately show ?thesis by simp
  next
    case (Some p)
    then obtain n k where p: "e = Me_Attaching n k"
      using e(1) False by (cases e) auto
    then have a: "operation_at r a = Some (n, k)"
      using e(1) by (simp add: operation_at_def)
    note k = registry_okD(4) [OF r a]
    let ?x = "send k Ao_Removed (drop_entry a r)"
    have x: "registry_ok ?x" "keeps_outcomes r ?x"
      using ok_ended [OF r e(2) a] keeps_outcomes_ended [OF r a] by blast+
    have "registry_ok (begun a Me_Removing ?x)"
      using e(2) by (intro ok_begun [OF x(1)]) simp_all
    moreover have "keeps_outcomes r (begun a Me_Removing ?x)"
      using keeps_outcomes_trans [OF x(2) keeps_outcomes_begun [of Me_Removing]] by simp
    moreover have "snd (begin_remove_of a r) = begun a Me_Removing ?x"
      using e p k by (simp add: begin_remove_of_def begun_def new_operation_def Let_def send_def set_entry_def
          drop_entry_def list_update_append1)
    ultimately show ?thesis by simp
  qed
qed

lemma stop_ok:
  assumes "registry_ok r"
  shows "registry_ok (snd (stop_registry r)) \<and> keeps_outcomes r (snd (stop_registry r))"
  using ok_stop [OF assms] keeps_outcomes_stop [OF assms] assms by (cases "mr_stopped r") (simp_all add: stop_registry_def)

lemma member_step_ok:
  assumes "member_step w w'" and "registry_ok (mw_registry w)"
  shows "registry_ok (mw_registry w') \<and> keeps_outcomes (mw_registry w) (mw_registry w')"
  using assms
proof (cases rule: member_step.cases)
  case (attach a retry res r)
  with reserve_ok(1) [OF assms(2), of a retry] show ?thesis by simp
next
  case (repair a res r)
  with reserve_ok(2) [OF assms(2), of a] show ?thesis by simp
qed (use assms(2) in \<open>simp_all add: seed_ready_ok commits_ok end_removal_ok begin_remove_ok stop_ok\<close>)

section \<open>Leases\<close>

text \<open>The leases handed out: each has a cell of its own, and the operation with its cell is its attach.\<close>

definition attach_lease_ok :: "member_registry \<Rightarrow> attach_lease \<Rightarrow> bool" where
  "attach_lease_ok r l \<longleftrightarrow> al_generation l = mr_generation r \<and> aw_cell (al_waiter l) < length (mr_cells r)
     \<and> aw_operation_id (al_waiter l) = of_nat (Suc (aw_cell (al_waiter l)))
     \<and> (\<forall>a n. operation_at r a = Some (n, aw_cell (al_waiter l)) \<longrightarrow>
          a = al_agent_id l \<and> map_of (mr_entries r) a = Some (Me_Attaching n (aw_cell (al_waiter l))))"

definition leases_ok :: "member_world \<Rightarrow> bool" where
  "leases_ok w \<longleftrightarrow> (\<forall>l \<in> mw_leases w. attach_lease_ok (mw_registry w) l) \<and> inj_on (\<lambda>l. aw_cell (al_waiter l)) (mw_leases w)"

lemma attach_lease_ok_later:
  assumes s: "keeps_outcomes r r'" and l: "attach_lease_ok r l"
  shows "attach_lease_ok r' l"
proof -
  let ?k = "aw_cell (al_waiter l)"
  have k: "?k < length (mr_cells r)" using l by (simp add: attach_lease_ok_def)
  have "a = al_agent_id l \<and> map_of (mr_entries r') a = Some (Me_Attaching n ?k)" if a: "operation_at r' a = Some (n, ?k)" for a n
  proof -
    have e: "map_of (mr_entries r') a = map_of (mr_entries r) a"
      using keeps_outcomesD(4) [OF s a k] .
    then have "operation_at r a = Some (n, ?k)" using a by (simp add: operation_at_def)
    with l e show ?thesis unfolding attach_lease_ok_def by metis
  qed
  with l keeps_outcomesD(1,2) [OF s] show ?thesis by (auto simp: attach_lease_ok_def)
qed

lemma started_lease_ok:
  assumes r: "registry_ok r"
  shows "l \<in> started_lease (fst (reserve_attach_for a retry r)) \<Longrightarrow>
      attach_lease_ok (snd (reserve_attach_for a retry r)) l \<and> aw_cell (al_waiter l) = length (mr_cells r)"
    and "l \<in> started_lease (fst (reserve_repair a r)) \<Longrightarrow>
      attach_lease_ok (snd (reserve_repair a r)) l \<and> aw_cell (al_waiter l) = length (mr_cells r)"
proof -
  have fresh: "operation_at r b \<noteq> Some (n, length (mr_cells r))" for b n
    using registry_okD(4) [OF r] by fastforce
  have start: "attach_lease_ok (snd (start_attach a r)) l \<and> aw_cell (al_waiter l) = length (mr_cells r)"
    if "l \<in> started_lease (fst (start_attach a r))"
    using that registry_okD(2) [OF r] fresh by (simp add: start_attach_eq attach_lease_ok_def operation_at_begun)
  show "l \<in> started_lease (fst (reserve_attach_for a retry r)) \<Longrightarrow>
      attach_lease_ok (snd (reserve_attach_for a retry r)) l \<and> aw_cell (al_waiter l) = length (mr_cells r)"
    using start by (auto simp: reserve_attach_for_def split: option.splits runtime_entry.splits if_splits)
  show "l \<in> started_lease (fst (reserve_repair a r)) \<Longrightarrow>
      attach_lease_ok (snd (reserve_repair a r)) l \<and> aw_cell (al_waiter l) = length (mr_cells r)"
    using start by (auto simp: reserve_repair_def split: option.splits runtime_entry.splits if_splits)
qed

lemma started_lease_single: "l \<in> started_lease res \<Longrightarrow> l' \<in> started_lease res \<Longrightarrow> l = l'"
  by (cases res) auto

lemma leases_ok_add:
  assumes w: "leases_ok w" and s: "keeps_outcomes (mw_registry w) r"
    and new: "\<And>l. l \<in> started_lease res \<Longrightarrow> attach_lease_ok r l \<and> aw_cell (al_waiter l) = length (mr_cells (mw_registry w))"
  shows "leases_ok (w\<lparr>mw_registry := r, mw_leases := mw_leases w \<union> started_lease res\<rparr>)"
proof -
  have old: "aw_cell (al_waiter l) < length (mr_cells (mw_registry w))" if "l \<in> mw_leases w" for l
    using w that by (simp add: leases_ok_def attach_lease_ok_def)
  have "inj_on (\<lambda>l. aw_cell (al_waiter l)) (mw_leases w \<union> started_lease res)"
    using w old new started_lease_single unfolding leases_ok_def inj_on_def by (metis Un_iff less_irrefl)
  moreover have "attach_lease_ok r l" if "l \<in> mw_leases w \<union> started_lease res" for l
    using that w new attach_lease_ok_later [OF s] unfolding leases_ok_def by blast
  ultimately show ?thesis by (simp add: leases_ok_def)
qed

lemma leases_ok_same:
  assumes "leases_ok w" and "keeps_outcomes (mw_registry w) r"
  shows "leases_ok (w\<lparr>mw_registry := r\<rparr>)"
  using assms attach_lease_ok_later by (auto simp: leases_ok_def)

lemma member_step_leases:
  assumes s: "member_step w w'" and r: "registry_ok (mw_registry w)" and l: "leases_ok w"
  shows "leases_ok w'"
  using s
proof (cases rule: member_step.cases)
  case (attach a retry res r')
  then have "keeps_outcomes (mw_registry w) r'" using member_step_ok [OF s r] by simp
  with attach started_lease_ok(1) [OF r, of _ a retry] show ?thesis by (auto intro!: leases_ok_add [OF l])
next
  case (repair a res r')
  then have "keeps_outcomes (mw_registry w) r'" using member_step_ok [OF s r] by simp
  with repair started_lease_ok(2) [OF r, of _ a] show ?thesis by (auto intro!: leases_ok_add [OF l])
qed (use member_step_ok [OF s r] leases_ok_same [OF l] in auto)

lemma member_steps_settle:
  assumes "member_steps w w'" and "registry_ok (mw_registry w)" and "leases_ok w"
  shows "registry_ok (mw_registry w') \<and> keeps_outcomes (mw_registry w) (mw_registry w') \<and> leases_ok w' \<and> mw_leases w \<subseteq> mw_leases w'"
  using assms
proof (induction rule: rtranclp_induct)
  case base
  then show ?case by (simp add: keeps_outcomes_refl)
next
  case (step v w')
  have "mw_leases v \<subseteq> mw_leases w'"
    using step.hyps(2) by (cases rule: member_step.cases) auto
  with step member_step_ok [OF step.hyps(2)] member_step_leases [OF step.hyps(2)] keeps_outcomes_trans
  show ?case by blast
qed

lemma member_invariant:
  assumes "member_steps (new_member_world g) w"
  shows "registry_ok (mw_registry w)" and "leases_ok w"
  using member_steps_settle [OF assms] registry_ok_new [of g] by (simp_all add: new_member_world_def leases_ok_def)

section \<open>Outcomes\<close>

lemma wait_pending:
  assumes r: "registry_ok r" and k: "aw_cell w < length (mr_cells r)"
  shows "wait_outcome w r = (case mr_cells r ! aw_cell w of Sig_Terminal o' \<Rightarrow> Some o' | Sig_Pending \<Rightarrow> None)"
proof (cases "mr_cells r ! aw_cell w")
  case Sig_Pending
  obtain a n where "operation_at r a = Some (n, aw_cell w)"
    using registry_okD(8) [OF r k Sig_Pending] by blast
  then obtain e where "e \<in> set (hm_values (mr_entries r))" "operation_of e = Some (n, aw_cell w)"
    using operation_at_value by blast
  moreover from this(2) have "entry_cell e = Some (aw_cell w)"
    by (cases e) auto
  ultimately have "list_ex (\<lambda>e. entry_cell e = Some (aw_cell w)) (hm_values (mr_entries r))"
    unfolding list_ex_iff by blast
  with Sig_Pending show ?thesis by (simp add: wait_outcome_def)
qed (simp add: wait_outcome_def)

lemma operation_id_inject:
  assumes "of_nat (Suc j) = (of_nat (Suc k) :: 64 word)" and "j < n" and "k < n" and "n < 2 ^ 64"
  shows "j = k"
proof -
  have "unat (of_nat (Suc i) :: 64 word) = Suc i" if "i < n" for i
    using that assms(4) by (simp add: unsigned_of_nat take_bit_nat_eq_self del: of_nat_Suc)
  with assms(1-3) show ?thesis by (metis Suc_inject)
qed

text \<open>A lease owns its attach exactly as long as its waiters wait.\<close>

lemma owns_iff_waiting:
  assumes r: "registry_ok r" and l: "attach_lease_ok r l" and n: "length (mr_cells r) < 2 ^ 64"
  shows "owns_attach l r \<longleftrightarrow> mr_cells r ! aw_cell (al_waiter l) = Sig_Pending"
    and "owns_attach l r \<Longrightarrow> attach_cell l r = Some (aw_cell (al_waiter l))"
proof -
  let ?k = "aw_cell (al_waiter l)"
  have k: "?k < length (mr_cells r)" and op: "aw_operation_id (al_waiter l) = of_nat (Suc ?k)"
    and gen: "al_generation l = mr_generation r"
    using l by (simp_all add: attach_lease_ok_def)
  have cell: "attach_cell l r = Some ?k" if owns: "owns_attach l r"
  proof -
    obtain j where j: "attach_cell l r = Some j"
      using owns by (auto simp: owns_attach_def)
    then have a: "operation_at r (al_agent_id l) = Some (aw_operation_id (al_waiter l), j)"
      unfolding attach_cell_iff by (simp add: operation_at_def)
    have "j = ?k"
      using operation_id_inject [OF _ registry_okD(4) [OF r a] k n] registry_okD(6) [OF r a] op by simp
    with j show ?thesis by simp
  qed
  then show "owns_attach l r \<Longrightarrow> attach_cell l r = Some ?k" .
  show "owns_attach l r \<longleftrightarrow> mr_cells r ! ?k = Sig_Pending"
  proof
    assume "owns_attach l r"
    from cell [OF this] show "mr_cells r ! ?k = Sig_Pending"
      using registry_okD(5) [OF r, of "al_agent_id l"] unfolding attach_cell_iff by (simp add: operation_at_def)
  next
    assume p: "mr_cells r ! ?k = Sig_Pending"
    obtain a n where a: "operation_at r a = Some (n, ?k)"
      using registry_okD(8) [OF r k p] by blast
    then have e: "map_of (mr_entries r) (al_agent_id l) = Some (Me_Attaching n ?k)"
      using l unfolding attach_lease_ok_def by metis
    then have "\<not> mr_stopped r"
      using registry_okD(3) [OF r] by auto
    moreover have "n = aw_operation_id (al_waiter l)"
      using registry_okD(6) [OF r a] op by simp
    ultimately show "owns_attach l r"
      using e gen attach_cell_iff [of l r ?k] by (simp add: owns_attach_def)
  qed
qed

lemma commit_attach_owner:
  assumes "al_generation l = mr_generation r"
  shows "fst (commit_attach l e o' r) = owns_attach l r"
  using assms by (auto simp: commit_attach_def owns_attach_def split: option.splits)

end
