(* ===== verification/Member_Properties.thy ===== *)
theory Member_Properties
  imports Member_World
begin

text \<open>What a lease of an attach promises to its holder and to those who wait for it.\<close>

lemma outcome_of_lease:
  assumes "registry_ok r" and "attach_lease_ok r l" and "length (mr_cells r) < 2 ^ 64"
  shows "wait_outcome (al_waiter l) r = None \<longleftrightarrow> owns_attach l r"
  using assms owns_iff_waiting(1) [OF assms] wait_pending [OF assms(1), of "al_waiter l"]
  by (simp add: attach_lease_ok_def split: attach_signal.splits)

lemma commit_by_owner:
  assumes r: "registry_ok r" and l: "attach_lease_ok r l" and n: "length (mr_cells r) < 2 ^ 64" and owns: "owns_attach l r"
  shows "\<exists>r'. commit_attach l e o' r = (True, r') \<and> wait_outcome (al_waiter l) r' = Some o'"
proof -
  let ?k = "aw_cell (al_waiter l)"
  have "commit_attach l e o' r = (True, send ?k o' (set_entry (al_agent_id l) (e ?k) r))"
    using owns owns_iff_waiting(2) [OF r l n owns] by (simp add: commit_attach_def owns_attach_def)
  moreover have "?k < length (mr_cells r)"
    using l by (simp add: attach_lease_ok_def)
  ultimately show ?thesis by (simp add: wait_outcome_def)
qed

text \<open>C36. The attach of a member's runtime ends once, for as long as a session has begun fewer than 2^64 operations: whatever is
  called in whatever order, those who wait on a lease wait exactly as long as its holder owns the attach; the owner's commit
  succeeds and gives them the outcome; an outcome, once there, never changes and every later commit of the lease is refused; no
  two leases own an attach of the same member; and when the session has stopped nobody waits.\<close>

theorem attach_ends_once:
  assumes "member_steps (new_member_world g) w" and "l \<in> mw_leases w" and "member_steps w w'"
    and "length (mr_cells (mw_registry w')) < 2 ^ 64"
  shows "(wait_outcome (al_waiter l) (mw_registry w) = None \<longleftrightarrow> owns_attach l (mw_registry w))
    \<and> (owns_attach l (mw_registry w) \<longrightarrow>
        (\<exists>r. commit_ready l (mw_registry w) = (True, r) \<and> wait_outcome (al_waiter l) r = Some Ao_Ready)
        \<and> (\<exists>r. commit_failed l f (mw_registry w) = (True, r) \<and> wait_outcome (al_waiter l) r = Some (Ao_Failed f)))
    \<and> (\<forall>o'. wait_outcome (al_waiter l) (mw_registry w) = Some o' \<longrightarrow>
        wait_outcome (al_waiter l) (mw_registry w') = Some o'
        \<and> \<not> fst (commit_ready l (mw_registry w')) \<and> \<not> fst (commit_failed l f (mw_registry w')))
    \<and> (\<forall>l'. l' \<in> mw_leases w \<and> owns_attach l (mw_registry w) \<and> owns_attach l' (mw_registry w)
        \<and> al_agent_id l' = al_agent_id l \<longrightarrow> l' = l)
    \<and> (mr_stopped (mw_registry w) \<longrightarrow> wait_outcome (al_waiter l) (mw_registry w) \<noteq> None)"
proof -
  note inv = member_invariant [OF assms(1)]
  note later = member_steps_settle [OF assms(3) inv]
  have r: "registry_ok (mw_registry w)" "registry_ok (mw_registry w')" and s: "keeps_outcomes (mw_registry w) (mw_registry w')"
    using inv(1) later by blast+
  have l: "attach_lease_ok (mw_registry w) l" "attach_lease_ok (mw_registry w') l"
    using inv(2) later assms(2) by (auto simp: leases_ok_def)
  have n: "length (mr_cells (mw_registry w)) < 2 ^ 64"
    using keeps_outcomesD(2) [OF s] assms(4) by simp
  have wait: "wait_outcome (al_waiter l) (mw_registry w) = None \<longleftrightarrow> owns_attach l (mw_registry w)"
    using outcome_of_lease [OF r(1) l(1) n] .
  have commit: "(\<exists>r. commit_ready l (mw_registry w) = (True, r) \<and> wait_outcome (al_waiter l) r = Some Ao_Ready)
      \<and> (\<exists>r. commit_failed l f (mw_registry w) = (True, r) \<and> wait_outcome (al_waiter l) r = Some (Ao_Failed f))"
    if "owns_attach l (mw_registry w)"
    unfolding commit_ready_def commit_failed_def using commit_by_owner [OF r(1) l(1) n that] by blast
  have final: "wait_outcome (al_waiter l) (mw_registry w') = Some o'
      \<and> \<not> fst (commit_ready l (mw_registry w')) \<and> \<not> fst (commit_failed l f (mw_registry w'))"
    if o': "wait_outcome (al_waiter l) (mw_registry w) = Some o'" for o'
  proof -
    have k: "aw_cell (al_waiter l) < length (mr_cells (mw_registry w))" "aw_cell (al_waiter l) < length (mr_cells (mw_registry w'))"
      using l by (simp_all add: attach_lease_ok_def)
    have "mr_cells (mw_registry w) ! aw_cell (al_waiter l) = Sig_Terminal o'"
      using o' wait_pending [OF r(1) k(1)] by (simp split: attach_signal.splits)
    then have w': "wait_outcome (al_waiter l) (mw_registry w') = Some o'"
      using keeps_outcomesD(3) [OF s k(1)] wait_pending [OF r(2) k(2)] by simp
    then have "\<not> owns_attach l (mw_registry w')"
      using outcome_of_lease [OF r(2) l(2) assms(4)] by simp
    moreover have "al_generation l = mr_generation (mw_registry w')"
      using l(2) by (simp add: attach_lease_ok_def)
    ultimately show ?thesis
      using w' by (simp add: commit_ready_def commit_failed_def commit_attach_owner)
  qed
  have single: "l' = l" if "l' \<in> mw_leases w" "owns_attach l (mw_registry w)" "owns_attach l' (mw_registry w)"
    "al_agent_id l' = al_agent_id l" for l'
  proof -
    have l': "attach_lease_ok (mw_registry w) l'"
      using inv(2) that(1) by (simp add: leases_ok_def)
    have "aw_cell (al_waiter l') = aw_cell (al_waiter l)"
      using owns_iff_waiting(2) [OF r(1) l(1) n that(2)] owns_iff_waiting(2) [OF r(1) l' n that(3)] that(4)
      unfolding attach_cell_iff by simp
    with inv(2) assms(2) that(1) show ?thesis
      unfolding leases_ok_def inj_on_def by blast
  qed
  have "wait_outcome (al_waiter l) (mw_registry w) \<noteq> None" if "mr_stopped (mw_registry w)"
    using wait that by (simp add: owns_attach_def)
  with wait commit final single show ?thesis by blast
qed

text \<open>A member is removed while its runtime is attached.\<close>

definition demo_attach_lease :: attach_lease where
  "demo_attach_lease = \<lparr>al_generation = ''g'', al_agent_id = ''a'', al_waiter = \<lparr>aw_operation_id = 1, aw_cell = 0\<rparr>\<rparr>"

definition demo_attaching :: member_world where
  "demo_attaching = \<lparr>mw_registry = snd (reserve_attach_for ''a'' False (new_registry ''g'')), mw_leases = {demo_attach_lease}\<rparr>"

definition demo_removing :: member_world where
  "demo_removing = demo_attaching\<lparr>mw_registry := snd (begin_remove_of ''a'' (mw_registry demo_attaching))\<rparr>"

definition demo_late :: member_world where
  "demo_late = demo_removing\<lparr>mw_registry := snd (commit_ready demo_attach_lease (mw_registry demo_removing))\<rparr>"

lemma demo_member_run:
  "member_steps (new_member_world ''g'') demo_removing" "member_steps demo_removing demo_late"
proof -
  have "reserve_attach_for ''a'' False (mw_registry (new_member_world ''g'')) = (Ra_Start demo_attach_lease, mw_registry demo_attaching)"
    unfolding demo_attaching_def demo_attach_lease_def new_member_world_def by code_simp
  from member_step.attach [OF this] have "member_step (new_member_world ''g'') demo_attaching"
    by (simp add: new_member_world_def demo_attaching_def)
  moreover have "member_step demo_attaching demo_removing"
    unfolding demo_removing_def by (rule begin_removal)
  ultimately show "member_steps (new_member_world ''g'') demo_removing" by simp
  show "member_steps demo_removing demo_late"
    unfolding demo_late_def by (intro r_into_rtranclp ready)
qed

lemma attach_ends_once_witness:
  "wait_outcome (al_waiter demo_attach_lease) (mw_registry demo_late) = Some Ao_Removed
   \<and> \<not> fst (commit_ready demo_attach_lease (mw_registry demo_late))
   \<and> \<not> fst (commit_failed demo_attach_lease \<lparr>rf_classification = ''c'', rf_public_reason = ''r''\<rparr> (mw_registry demo_late))"
proof -
  have l: "demo_attach_lease \<in> mw_leases demo_removing"
    by (simp add: demo_removing_def demo_attaching_def)
  have "length (mr_cells (mw_registry demo_late)) = 2"
    by code_simp
  then have n: "length (mr_cells (mw_registry demo_late)) < 2 ^ 64"
    by simp
  have "wait_outcome (al_waiter demo_attach_lease) (mw_registry demo_removing) = Some Ao_Removed"
    by code_simp
  with attach_ends_once [OF demo_member_run(1) l demo_member_run(2) n] show ?thesis
    by blast
qed

end
