(* ===== verification/Team_Scheduler.thy ===== *)
theory Team_Scheduler
  imports Task_Board Team_Mailbox
begin

text \<open>
  \<open>aionui-team/src/scheduler/\<close>: \<open>TeammateManager\<close>, the members of a team with their status, over the
  mailbox and the task board. Each locked section is atomic, and a function runs without another one in between. \<open>mint k\<close> is the
  identifier and the time of the k-th row a call writes; \<open>lower\<close> is Unicode's lower case. The watchdog that
  \<open>arm_wake_timeout\<close> spawns, and the timer of \<open>begin_finalize\<close>, are not part of the state but calls at some time; an \<open>Instant\<close> is its milliseconds.
\<close>

datatype agent_event =
    Ev_Status string teammate_status
  | Ev_Spawned team_agent
  | Ev_Removed string
  | Ev_Renamed string string

record agent_slot =
  sl_agent :: team_agent
  sl_status :: teammate_status
  sl_needs_role_prompt :: bool

record team_manager =
  tg_team_id :: string
  tg_slots :: "(string, agent_slot) hmap"
  tg_active_wakes :: "string list"
  tg_finalized_turns :: "(string, int) hmap"
  tg_wake_timeouts :: "string list"
  tg_events :: "agent_event list"

record 'db team_state =
  te_manager :: team_manager
  te_db :: 'db

type_synonym mint = "nat \<Rightarrow> string \<times> int"

abbreviation slot_of :: "'db team_state \<Rightarrow> string \<Rightarrow> agent_slot option" where
  "slot_of te i \<equiv> map_of (tg_slots (te_manager te)) i"

definition on_slots ::
  "((string, agent_slot) hmap \<Rightarrow> (string, agent_slot) hmap) \<Rightarrow> 'db team_state \<Rightarrow> 'db team_state" where
  "on_slots f te = te\<lparr>te_manager := (te_manager te)\<lparr>tg_slots := f (tg_slots (te_manager te))\<rparr>\<rparr>"

definition emit_event :: "agent_event \<Rightarrow> 'db team_state \<Rightarrow> 'db team_state" where
  "emit_event e te = te\<lparr>te_manager := (te_manager te)\<lparr>tg_events := tg_events (te_manager te) @ [e]\<rparr>\<rparr>"

definition new_slot :: "team_agent \<Rightarrow> agent_slot" where
  "new_slot a = \<lparr>sl_agent = a, sl_status = StIdle, sl_needs_role_prompt = True\<rparr>"

definition new_team_manager :: "string \<Rightarrow> team_agent list \<Rightarrow> team_manager" where
  "new_team_manager team agents =
     \<lparr>tg_team_id = team,
      tg_slots = fold (\<lambda>a. hm_insert (ag_slot_id a) (new_slot (a\<lparr>ag_status := Some StIdle\<rparr>))) agents [],
      tg_active_wakes = [], tg_finalized_turns = [], tg_wake_timeouts = [], tg_events = []\<rparr>"

section \<open>Members\<close>

definition get_agent :: "string \<Rightarrow> 'db team_state \<Rightarrow> team_error + team_agent" where
  "get_agent i te = ok_or (AgentNotFound i) (map_option sl_agent (slot_of te i))"

definition list_agents :: "'db team_state \<Rightarrow> team_agent list" where
  "list_agents te = map sl_agent (hm_values (tg_slots (te_manager te)))"

definition manager_list_tasks :: "'m team_json \<Rightarrow> 'db team_repo \<Rightarrow> 'db team_state \<Rightarrow> team_error + 'm team_task list" where
  "manager_list_tasks J R te = board_list J R (tg_team_id (te_manager te)) (te_db te)"

definition find_lead_slot_id :: "'db team_state \<Rightarrow> string option" where
  "find_lead_slot_id te = map_option (\<lambda>s. ag_slot_id (sl_agent s))
     (find (\<lambda>s. ag_role (sl_agent s) = Lead) (hm_values (tg_slots (te_manager te))))"

text \<open>\<open>is_control\<close>: the bytes below 32, 127, and U+0080 to U+009F in two bytes.\<close>

fun drop_controls :: "string \<Rightarrow> string" where
  "drop_controls [] = []"
| "drop_controls (c # s) =
     (if of_char c < (32::nat) \<or> of_char c = (127::nat) then drop_controls s
      else case s of
        [] \<Rightarrow> [c]
      | d # r \<Rightarrow>
          if of_char c = (194::nat) \<and> 128 \<le> (of_char d :: nat) \<and> (of_char d :: nat) < 160 then drop_controls r
          else c # drop_controls s)"

definition normalize_name :: "(string \<Rightarrow> string) \<Rightarrow> string \<Rightarrow> string" where
  "normalize_name lower name = lower (drop_controls (trim name))"

definition add_agent :: "team_agent \<Rightarrow> 'db team_state \<Rightarrow> 'db team_state" where
  "add_agent a te = emit_event (Ev_Spawned a) (on_slots (hm_insert (ag_slot_id a) (new_slot a)) te)"

definition clear_agent_state :: "string \<Rightarrow> string \<Rightarrow> 'db team_state \<Rightarrow> 'db team_state" where
  "clear_agent_state i conv te = te\<lparr>te_manager := (te_manager te)
     \<lparr>tg_active_wakes := removeAll i (tg_active_wakes (te_manager te)),
      tg_wake_timeouts := removeAll i (tg_wake_timeouts (te_manager te)),
      tg_finalized_turns := hm_remove conv (tg_finalized_turns (te_manager te))\<rparr>\<rparr>"

definition remove_agent :: "string \<Rightarrow> 'db team_state \<Rightarrow> (team_error + string option) \<times> 'db team_state" where
  "remove_agent i te = (case slot_of te i of
     None \<Rightarrow> (Inl (AgentNotFound i), te)
   | Some s \<Rightarrow>
      let conv = ag_conversation_id (sl_agent s)
      in (Inr (Some conv), emit_event (Ev_Removed i) (clear_agent_state i conv (on_slots (hm_remove i) te))))"

definition rename_agent ::
  "(string \<Rightarrow> string) \<Rightarrow> string \<Rightarrow> string \<Rightarrow> 'db team_state \<Rightarrow> (team_error + unit) \<times> 'db team_state" where
  "rename_agent lower i name te =
     (let normalized = normalize_name lower name in
      if normalized = [] then (Inl (InvalidRequest ''rename_agent.new_name is empty after normalization''), te)
      else if slot_of te i = None then (Inl (AgentNotFound i), te)
      else if list_ex (\<lambda>(k, s). k \<noteq> i \<and> normalize_name lower (ag_name (sl_agent s)) = normalized)
                (tg_slots (te_manager te))
      then (Inl (DuplicateAgentName name), te)
      else (Inr (), emit_event (Ev_Renamed i name)
             (on_slots (hm_modify i (\<lambda>s. s\<lparr>sl_agent := (sl_agent s)\<lparr>ag_name := name\<rparr>\<rparr>)) te)))"

section \<open>Status\<close>

fun is_settled_status :: "teammate_status \<Rightarrow> bool" where
  "is_settled_status StIdle = True"
| "is_settled_status StCompleted = True"
| "is_settled_status StError = True"
| "is_settled_status _ = False"

definition set_status :: "string \<Rightarrow> teammate_status \<Rightarrow> 'db team_state \<Rightarrow> (team_error + unit) \<times> 'db team_state" where
  "set_status i s te =
     (if slot_of te i = None then (Inl (AgentNotFound i), te)
      else (Inr (), emit_event (Ev_Status i s) (on_slots (hm_modify i
             (\<lambda>x. x\<lparr>sl_status := s, sl_agent := (sl_agent x)\<lparr>ag_status := Some s\<rparr>\<rparr>)) te)))"

definition get_status :: "string \<Rightarrow> 'db team_state \<Rightarrow> team_error + teammate_status" where
  "get_status i te = ok_or (AgentNotFound i) (map_option sl_status (slot_of te i))"

definition take_needs_role_prompt :: "string \<Rightarrow> 'db team_state \<Rightarrow> bool \<times> 'db team_state" where
  "take_needs_role_prompt i te = (case slot_of te i of
     None \<Rightarrow> (False, te)
   | Some s \<Rightarrow> (sl_needs_role_prompt s, on_slots (hm_modify i (\<lambda>x. x\<lparr>sl_needs_role_prompt := False\<rparr>)) te))"

text \<open>The loop over the slots, which stops at the first member that is not settled: the lead seen so far,
  whether there are teammates, whether all are settled.\<close>

fun scan_slots :: "agent_slot list \<Rightarrow> string option \<Rightarrow> bool \<Rightarrow> string option \<times> bool \<times> bool" where
  "scan_slots [] lead has = (lead, has, True)"
| "scan_slots (s # ss) lead has =
     (if ag_role (sl_agent s) = Lead then scan_slots ss (Some (ag_slot_id (sl_agent s))) has
      else if \<not> is_settled_status (sl_status s) then (lead, True, False)
      else scan_slots ss lead True)"

definition maybe_wake_leader :: "'db team_state \<Rightarrow> string option" where
  "maybe_wake_leader te = (case scan_slots (hm_values (tg_slots (te_manager te))) None False of
     (None, _) \<Rightarrow> None
   | (Some lead, has, all_settled) \<Rightarrow>
       if \<not> has \<or> \<not> all_settled then None
       else if (case slot_of te lead of None \<Rightarrow> False | Some s \<Rightarrow> sl_status s = StIdle) then Some lead
       else None)"

definition write_db ::
  "('db \<Rightarrow> (team_error + 'a) \<times> 'db) \<Rightarrow> 'db team_state \<Rightarrow> (team_error + 'a) \<times> 'db team_state" where
  "write_db f te = (case f (te_db te) of (r, db) \<Rightarrow> (r, te\<lparr>te_db := db\<rparr>))"

definition write_to ::
  "'m team_json \<Rightarrow> 'db team_repo \<Rightarrow> string \<times> int \<Rightarrow> string \<Rightarrow> string \<Rightarrow> message_kind \<Rightarrow> string \<Rightarrow> string option
   \<Rightarrow> string list option \<Rightarrow> 'db team_state \<Rightarrow> (team_error + mailbox_message) \<times> 'db team_state" where
  "write_to J R m to from kind content summary files te =
     write_db (write_with_files J R (fst m) (tg_team_id (te_manager te)) to from kind content summary files (snd m)) te"

definition mark_idle ::
  "'m team_json \<Rightarrow> 'db team_repo \<Rightarrow> mint \<Rightarrow> string \<Rightarrow> string option \<Rightarrow> 'db team_state
   \<Rightarrow> (team_error + string option) \<times> 'db team_state" where
  "mark_idle J R mint i summary te = (case set_status i StIdle te of
     (Inl e, te1) \<Rightarrow> (Inl e, te1)
   | (Inr _, te1) \<Rightarrow> (case slot_of te1 i of
       None \<Rightarrow> (Inl (AgentNotFound i), te1)
     | Some s \<Rightarrow>
         if ag_role (sl_agent s) = Lead then (Inr None, te1)
         else (case find_lead_slot_id te1 of
             None \<Rightarrow> (Inr (maybe_wake_leader te1), te1)
           | Some lead \<Rightarrow>
               if lead = i then (Inr (maybe_wake_leader te1), te1)
               else (case write_to J R (mint 0) lead i MtIdleNotification
                         (case summary of None \<Rightarrow> ''idle'' | Some t \<Rightarrow> t) summary None te1 of
                   (Inl e, te2) \<Rightarrow> (Inl e, te2)
                 | (Inr _, te2) \<Rightarrow> (Inr (maybe_wake_leader te2), te2)))))"

section \<open>Waking\<close>

record 'm wake_payload =
  wk_agent :: team_agent
  wk_tasks :: "'m team_task list"
  wk_unread_messages :: "mailbox_message list"

definition build_wake_payload ::
  "'m team_json \<Rightarrow> 'db team_repo \<Rightarrow> string \<Rightarrow> 'db team_state \<Rightarrow> (team_error + 'm wake_payload) \<times> 'db team_state" where
  "build_wake_payload J R i te = (case get_agent i te of
     Inl e \<Rightarrow> (Inl e, te)
   | Inr agent \<Rightarrow> (case manager_list_tasks J R te of
       Inl e \<Rightarrow> (Inl e, te)
     | Inr tasks \<Rightarrow> (case write_db (mailbox_read_unread J R (tg_team_id (te_manager te)) i) te of
         (Inl e, te1) \<Rightarrow> (Inl e, te1)
       | (Inr unread, te1) \<Rightarrow> (Inr \<lparr>wk_agent = agent, wk_tasks = tasks, wk_unread_messages = unread\<rparr>, te1))))"

definition try_wake ::
  "'m team_json \<Rightarrow> 'db team_repo \<Rightarrow> string \<Rightarrow> 'db team_state
   \<Rightarrow> (team_error + 'm wake_payload option) \<times> 'db team_state" where
  "try_wake J R i te = (case get_status i te of
     Inl e \<Rightarrow> (Inl e, te)
   | Inr s \<Rightarrow>
      if s \<noteq> StIdle then (Inr None, te)
      else (case set_status i StWorking te of
          (Inl e, te1) \<Rightarrow> (Inl e, te1)
        | (Inr _, te1) \<Rightarrow> (case build_wake_payload J R i te1 of
             (Inl e, te2) \<Rightarrow> (Inl e, te2)
           | (Inr p, te2) \<Rightarrow> (Inr (Some p), te2))))"

definition acquire_wake_lock :: "string \<Rightarrow> 'db team_state \<Rightarrow> bool \<times> 'db team_state" where
  "acquire_wake_lock i te = (i \<notin> set (tg_active_wakes (te_manager te)),
     te\<lparr>te_manager := (te_manager te)\<lparr>tg_active_wakes := List.insert i (tg_active_wakes (te_manager te))\<rparr>\<rparr>)"

definition release_wake_lock :: "string \<Rightarrow> 'db team_state \<Rightarrow> 'db team_state" where
  "release_wake_lock i te = te\<lparr>te_manager := (te_manager te)
     \<lparr>tg_active_wakes := removeAll i (tg_active_wakes (te_manager te))\<rparr>\<rparr>"

definition is_wake_active :: "string \<Rightarrow> 'db team_state \<Rightarrow> bool" where
  "is_wake_active i te = (i \<in> set (tg_active_wakes (te_manager te)))"

definition clear_wake_timeout :: "string \<Rightarrow> 'db team_state \<Rightarrow> 'db team_state" where
  "clear_wake_timeout i te = te\<lparr>te_manager := (te_manager te)
     \<lparr>tg_wake_timeouts := removeAll i (tg_wake_timeouts (te_manager te))\<rparr>\<rparr>"

definition arm_wake_timeout :: "string \<Rightarrow> 'db team_state \<Rightarrow> 'db team_state" where
  "arm_wake_timeout i te = te\<lparr>te_manager := (te_manager te)
     \<lparr>tg_wake_timeouts := List.insert i (tg_wake_timeouts (te_manager te))\<rparr>\<rparr>"

section \<open>Finish events\<close>

definition finalize_dedup_window :: int where "finalize_dedup_window = 5000"

definition begin_finalize :: "int \<Rightarrow> string \<Rightarrow> 'db team_state \<Rightarrow> bool \<times> 'db team_state" where
  "begin_finalize now conv te =
     (let proceed = (case map_of (tg_finalized_turns (te_manager te)) conv of
            None \<Rightarrow> True | Some t \<Rightarrow> \<not> max 0 (now - t) < finalize_dedup_window)
      in (proceed, if proceed then te\<lparr>te_manager := (te_manager te)
            \<lparr>tg_finalized_turns := hm_insert conv now (tg_finalized_turns (te_manager te))\<rparr>\<rparr> else te))"

definition clear_finalized_turn :: "string \<Rightarrow> 'db team_state \<Rightarrow> 'db team_state" where
  "clear_finalized_turn conv te = te\<lparr>te_manager := (te_manager te)
     \<lparr>tg_finalized_turns := hm_remove conv (tg_finalized_turns (te_manager te))\<rparr>\<rparr>"

section \<open>Actions\<close>

datatype scheduler_action =
    Sa_Send_Message string string "string list"
  | Sa_Task_Create string "string option" "string option" "string list"
  | Sa_Task_Update string "string option" "string option" "string option" "string list option"
  | Sa_Spawn_Agent string string string
  | Sa_Idle_Notification "string option"
  | Sa_Shutdown_Agent string "string option"
  | Sa_Rename_Agent string string

definition manager_create_task ::
  "'m team_json \<Rightarrow> 'db team_repo \<Rightarrow> mint \<Rightarrow> string \<Rightarrow> string option \<Rightarrow> string option \<Rightarrow> string list \<Rightarrow> 'db team_state
   \<Rightarrow> (team_error + 'm team_task) \<times> 'db team_state" where
  "manager_create_task J R mint subject description owner blocked_by te =
     write_db (board_create J R (tg_team_id (te_manager te)) subject description owner blocked_by
       (fst (mint 0)) (\<lambda>k. snd (mint k))) te"

text \<open>A status that is not known is left out of the update.\<close>

definition manager_update_task ::
  "'m team_json \<Rightarrow> 'db team_repo \<Rightarrow> mint \<Rightarrow> string \<Rightarrow> string option \<Rightarrow> string option \<Rightarrow> string option
   \<Rightarrow> string list option \<Rightarrow> 'db team_state \<Rightarrow> (team_error + 'm team_task) \<times> 'db team_state" where
  "manager_update_task J R mint i status description owner blocked_by te =
     write_db (board_update J R (tg_team_id (te_manager te)) i
       (no_task_update\<lparr>tup_status := Option.bind status task_status_parse, tup_description := description,
          tup_owner := owner, tup_blocked_by := blocked_by\<rparr>) (\<lambda>k. snd (mint k))) te"

fun write_each ::
  "'m team_json \<Rightarrow> 'db team_repo \<Rightarrow> mint \<Rightarrow> string list \<Rightarrow> string \<Rightarrow> string \<Rightarrow> string list \<Rightarrow> 'db team_state
   \<Rightarrow> (team_error + unit) \<times> 'db team_state" where
  "write_each J R mint [] from content files te = (Inr (), te)"
| "write_each J R mint (t # ts) from content files te =
     (case write_to J R (mint 0) t from MtMessage content None (Some files) te of
        (Inl e, te') \<Rightarrow> (Inl e, te')
      | (Inr _, te') \<Rightarrow> write_each J R (\<lambda>k. mint (Suc k)) ts from content files te')"

definition handle_send_message ::
  "'m team_json \<Rightarrow> 'db team_repo \<Rightarrow> mint \<Rightarrow> string \<Rightarrow> string \<Rightarrow> string \<Rightarrow> string list \<Rightarrow> 'db team_state
   \<Rightarrow> (team_error + unit) \<times> 'db team_state" where
  "handle_send_message J R mint from to content files te =
     write_each J R mint
       (if to = ''*'' then filter (\<lambda>i. i \<noteq> from) (hm_keys (tg_slots (te_manager te))) else [to]) from content files te"

definition request_shutdown_agent ::
  "'m team_json \<Rightarrow> 'db team_repo \<Rightarrow> mint \<Rightarrow> string \<Rightarrow> string \<Rightarrow> string option \<Rightarrow> 'db team_state
   \<Rightarrow> (team_error + mailbox_message) \<times> 'db team_state" where
  "request_shutdown_agent J R mint from target reason te = (case slot_of te from of
     None \<Rightarrow> (Inl (AgentNotFound from), te)
   | Some f \<Rightarrow>
      if ag_role (sl_agent f) \<noteq> Lead then (Inl (InvalidRequest ''only lead can shutdown agents''), te)
      else (case slot_of te target of
          None \<Rightarrow> (Inl (AgentNotFound target), te)
        | Some t \<Rightarrow>
            if ag_role (sl_agent t) = Lead then (Inl (InvalidRequest ''cannot shutdown the team lead''), te)
            else write_to J R (mint 0) target from MtShutdownRequest
              (case reason of None \<Rightarrow> ''shutdown requested'' | Some r \<Rightarrow> r) None None te))"

definition execute_action ::
  "(string \<Rightarrow> string) \<Rightarrow> 'm team_json \<Rightarrow> 'db team_repo \<Rightarrow> mint \<Rightarrow> string \<Rightarrow> scheduler_action \<Rightarrow> 'db team_state
   \<Rightarrow> (team_error + string option) \<times> 'db team_state" where
  "execute_action lower J R mint from a te = (case a of
     Sa_Send_Message to content files \<Rightarrow>
       apfst (map_sum id (\<lambda>_. None)) (handle_send_message J R mint from to content files te)
   | Sa_Task_Create subject description owner blocked_by \<Rightarrow>
       apfst (map_sum id (\<lambda>_. None)) (manager_create_task J R mint subject description owner blocked_by te)
   | Sa_Task_Update i status description owner blocked_by \<Rightarrow>
       apfst (map_sum id (\<lambda>_. None)) (manager_update_task J R mint i status description owner blocked_by te)
   | Sa_Idle_Notification summary \<Rightarrow> mark_idle J R mint from summary te
   | Sa_Spawn_Agent name role backend \<Rightarrow> (Inr None, te)
   | Sa_Shutdown_Agent i reason \<Rightarrow>
       apfst (map_sum id (\<lambda>_. None)) (request_shutdown_agent J R mint from i reason te)
   | Sa_Rename_Agent i name \<Rightarrow> apfst (map_sum id (\<lambda>_. None)) (rename_agent lower i name te))"

text \<open>\<open>finalize_turn\<close>: \<open>mint k\<close> is for the k-th action, the last one for the notification.\<close>

fun run_actions ::
  "(string \<Rightarrow> string) \<Rightarrow> 'm team_json \<Rightarrow> 'db team_repo \<Rightarrow> (nat \<Rightarrow> mint) \<Rightarrow> string \<Rightarrow> scheduler_action list
   \<Rightarrow> string option \<Rightarrow> 'db team_state \<Rightarrow> (team_error + string option) \<times> 'db team_state" where
  "run_actions lower J R mint i [] summary te = (Inr summary, te)"
| "run_actions lower J R mint i (a # as) summary te = (case a of
     Sa_Idle_Notification s \<Rightarrow>
       run_actions lower J R (\<lambda>k. mint (Suc k)) i as (if summary = None then s else summary) te
   | _ \<Rightarrow> (case execute_action lower J R (mint 0) i a te of
         (Inl e, te') \<Rightarrow> (Inl e, te')
       | (Inr _, te') \<Rightarrow> run_actions lower J R (\<lambda>k. mint (Suc k)) i as summary te'))"

definition finalize_turn ::
  "(string \<Rightarrow> string) \<Rightarrow> 'm team_json \<Rightarrow> 'db team_repo \<Rightarrow> (nat \<Rightarrow> mint) \<Rightarrow> string \<Rightarrow> scheduler_action list
   \<Rightarrow> 'db team_state \<Rightarrow> (team_error + string option) \<times> 'db team_state" where
  "finalize_turn lower J R mint i actions te = (case run_actions lower J R mint i actions None te of
     (Inl e, te') \<Rightarrow> (Inl e, te')
   | (Inr summary, te') \<Rightarrow> mark_idle J R (mint (length actions)) i summary te')"

section \<open>Crashes\<close>

datatype crash_reason = Process_Exited | Session_Not_Found | Crash_Unknown string

text \<open>\<open>detect_crash\<close>: the message of an \<open>Error\<close> event, None for another event.\<close>

definition detect_crash :: "string option \<Rightarrow> crash_reason option" where
  "detect_crash error = map_option (\<lambda>msg.
     if str_contains msg ''process exited unexpectedly'' \<or> str_contains msg ''process exited'' then Process_Exited
     else if str_contains msg ''Session not found'' \<or> str_contains msg ''session not found'' then Session_Not_Found
     else Crash_Unknown msg) error"

fun crash_reason_str :: "crash_reason \<Rightarrow> string" where
  "crash_reason_str Process_Exited = ''ProcessExited''"
| "crash_reason_str Session_Not_Found = ''SessionNotFound''"
| "crash_reason_str (Crash_Unknown msg) = ''Unknown '' @ map byte [226, 128, 148] @ '' '' @ msg"

definition format_crash_testament :: "string \<Rightarrow> crash_reason \<Rightarrow> string option \<Rightarrow> string" where
  "format_crash_testament name reason last_message =
     ''Teammate '' @ quoted name @ '' crashed during task (reason: '' @ crash_reason_str reason @ '').''
     @ (case last_message of None \<Rightarrow> [] | Some msg \<Rightarrow> '' Last message: '' @ msg @ ''.'') @ '' Please investigate.''"

definition lookup_member :: "string \<Rightarrow> 'db team_state \<Rightarrow> team_error + string \<times> bool" where
  "lookup_member i te = ok_or (AgentNotFound i)
     (map_option (\<lambda>s. (ag_name (sl_agent s), ag_role (sl_agent s) = Lead)) (slot_of te i))"

definition tell_lead ::
  "'m team_json \<Rightarrow> 'db team_repo \<Rightarrow> mint \<Rightarrow> string \<Rightarrow> string \<Rightarrow> 'db team_state \<Rightarrow> (team_error + unit) \<times> 'db team_state" where
  "tell_lead J R mint i content te = (case find_lead_slot_id te of
     None \<Rightarrow> (Inr (), te)
   | Some lead \<Rightarrow>
      if lead = i then (Inr (), te)
      else apfst (map_sum id (\<lambda>_. ())) (write_to J R (mint 0) lead i MtMessage content None None te))"

definition write_crash_testament ::
  "'m team_json \<Rightarrow> 'db team_repo \<Rightarrow> mint \<Rightarrow> string \<Rightarrow> string \<Rightarrow> crash_reason \<Rightarrow> string option \<Rightarrow> 'db team_state
   \<Rightarrow> (team_error + unit) \<times> 'db team_state" where
  "write_crash_testament J R mint i name reason last_message te =
     tell_lead J R mint i (format_crash_testament name reason last_message) te"

definition handle_agent_crash ::
  "'m team_json \<Rightarrow> 'db team_repo \<Rightarrow> mint \<Rightarrow> string \<Rightarrow> crash_reason \<Rightarrow> string option \<Rightarrow> 'db team_state
   \<Rightarrow> (team_error + string option) \<times> 'db team_state" where
  "handle_agent_crash J R mint i reason last_message te = (case lookup_member i te of
     Inl e \<Rightarrow> (Inl e, te)
   | Inr (name, is_lead) \<Rightarrow> (case write_crash_testament J R mint i name reason last_message te of
       (Inl e, te1) \<Rightarrow> (Inl e, te1)
     | (Inr _, te1) \<Rightarrow> (case set_status i StError te1 of
         (Inl e, te2) \<Rightarrow> (Inl e, te2)
       | (Inr _, te2) \<Rightarrow>
           let te3 = clear_wake_timeout i (release_wake_lock i te2)
           in (Inr (if is_lead then None else find_lead_slot_id te3), te3))))"

definition handle_inactivity_timeout ::
  "'m team_json \<Rightarrow> 'db team_repo \<Rightarrow> mint \<Rightarrow> string \<Rightarrow> 'db team_state
   \<Rightarrow> (team_error + string option) \<times> 'db team_state" where
  "handle_inactivity_timeout J R mint i te = (case lookup_member i te of
     Inl e \<Rightarrow> (Inl e, te)
   | Inr (name, is_lead) \<Rightarrow> (case set_status i StError te of
       (Inl e, te1) \<Rightarrow> (Inl e, te1)
     | (Inr _, te1) \<Rightarrow>
         let te2 = clear_wake_timeout i (release_wake_lock i te1)
         in if is_lead then (Inr None, te2)
         else (case find_lead_slot_id te2 of
             None \<Rightarrow> (Inr None, te2)
           | Some lead \<Rightarrow> (case write_to J R (mint 0) lead i MtMessage
                 (''Teammate '' @ quoted name @ '' timed out after 60s of inactivity. Please investigate.'') None None te2 of
               (Inl e, te3) \<Rightarrow> (Inl e, te3)
             | (Inr _, te3) \<Rightarrow> (Inr (Some lead), te3)))))"

definition notify_shutdown_rejected ::
  "'m team_json \<Rightarrow> 'db team_repo \<Rightarrow> mint \<Rightarrow> string \<Rightarrow> string \<Rightarrow> 'db team_state
   \<Rightarrow> (team_error + unit) \<times> 'db team_state" where
  "notify_shutdown_rejected J R mint from reason te =
     tell_lead J R mint from
       (''Teammate '' @ quoted (case get_agent from te of Inl _ \<Rightarrow> from | Inr a \<Rightarrow> ag_name a) @ '' declined shutdown: ''
          @ reason) te"

end
