(* ===== verification/Scheduler_Facts.thy ===== *)
theory Scheduler_Facts
  imports Team_Scheduler
begin

text \<open>
  What the scheduler does. \<open>members_ok\<close>: each member is stored under its slot id once, which every operation
  keeps. \<open>leads\<close> is the set of the leads, which the code takes to be one: then \<open>find_lead_slot_id\<close> finds it,
  and \<open>maybe_wake_leader\<close> does not depend on the order of the hash map (\<open>lead_due\<close>).
\<close>

section \<open>Members\<close>

definition members_ok :: "'db team_state \<Rightarrow> bool" where
  "members_ok te \<longleftrightarrow> distinct (hm_keys (tg_slots (te_manager te)))
     \<and> (\<forall>i s. slot_of te i = Some s \<longrightarrow> ag_slot_id (sl_agent s) = i)"

lemma members_okI:
  assumes "distinct (hm_keys (tg_slots (te_manager te)))"
    and "\<And>i s. slot_of te i = Some s \<Longrightarrow> ag_slot_id (sl_agent s) = i"
  shows "members_ok te"
  using assms by (simp add: members_ok_def)

lemma members_okD:
  assumes "members_ok te"
  shows "distinct (hm_keys (tg_slots (te_manager te)))"
    and "slot_of te i = Some s \<Longrightarrow> ag_slot_id (sl_agent s) = i"
  using assms by (auto simp: members_ok_def)

named_theorems slot_simps

lemma slots_on_slots [slot_simps]: "tg_slots (te_manager (on_slots f te)) = f (tg_slots (te_manager te))"
  by (simp add: on_slots_def)

lemma slots_emit [slot_simps]: "tg_slots (te_manager (emit_event e te)) = tg_slots (te_manager te)"
  by (simp add: emit_event_def)

lemma slots_clear [slot_simps]: "tg_slots (te_manager (clear_agent_state i conv te)) = tg_slots (te_manager te)"
  by (simp add: clear_agent_state_def)

lemma slots_write_db [slot_simps]: "te_manager (snd (write_db f te)) = te_manager te"
  by (simp add: write_db_def split: prod.split)

lemma slots_write_to [slot_simps]: "te_manager (snd (write_to J R m to from kind content summary files te)) = te_manager te"
  by (simp add: write_to_def slots_write_db)

lemma db_on_slots [slot_simps]: "te_db (on_slots f te) = te_db te" "te_db (emit_event e te) = te_db te"
  by (simp_all add: on_slots_def emit_event_def)

lemma team_id_on_slots [slot_simps]:
  "tg_team_id (te_manager (on_slots f te)) = tg_team_id (te_manager te)"
  "tg_team_id (te_manager (emit_event e te)) = tg_team_id (te_manager te)"
  by (simp_all add: on_slots_def emit_event_def)

lemma members_ok_cong:
  "tg_slots (te_manager te') = tg_slots (te_manager te) \<Longrightarrow> members_ok te' = members_ok te"
  by (simp add: members_ok_def)

lemma members_ok_modify:
  assumes "members_ok te" and "\<And>s. ag_slot_id (sl_agent (f s)) = ag_slot_id (sl_agent s)"
  shows "members_ok (on_slots (hm_modify i f) te)"
  by (rule members_okI) (use assms members_okD [OF assms(1)] in \<open>auto simp: slot_simps split: if_splits\<close>)

lemma members_ok_emit [simp]: "members_ok (emit_event e te) = members_ok te"
  by (rule members_ok_cong) (simp add: slot_simps)

lemma members_ok_set_status: "members_ok te \<Longrightarrow> members_ok (snd (set_status i s te))"
  by (simp add: set_status_def members_ok_modify)

lemma members_ok_remove:
  assumes "members_ok te"
  shows "members_ok (snd (remove_agent i te))"
proof (cases "slot_of te i")
  case None
  with assms show ?thesis by (simp add: remove_agent_def)
next
  case (Some s)
  have "members_ok (on_slots (hm_remove i) te)"
  proof (rule members_okI)
    show "distinct (hm_keys (tg_slots (te_manager (on_slots (hm_remove i) te))))"
      using members_okD(1) [OF assms] by (simp add: slot_simps distinct_hm_remove)
    fix j x assume "slot_of (on_slots (hm_remove i) te) j = Some x"
    then have "slot_of te j = Some x" by (cases "j = i") (simp_all add: slots_on_slots)
    then show "ag_slot_id (sl_agent x) = j" by (rule members_okD(2) [OF assms])
  qed
  then have "members_ok (clear_agent_state j conv (on_slots (hm_remove i) te))" for j conv
    by (rule members_ok_cong [THEN iffD2, rotated]) (simp add: slot_simps)
  with Some show ?thesis by (simp add: remove_agent_def Let_def)
qed

lemma members_ok_rename: "members_ok te \<Longrightarrow> members_ok (snd (rename_agent lower i name te))"
  by (simp add: rename_agent_def Let_def members_ok_modify)

lemma members_ok_take: "members_ok te \<Longrightarrow> members_ok (snd (take_needs_role_prompt i te))"
  by (simp add: take_needs_role_prompt_def members_ok_modify split: option.split)

lemma members_ok_insert:
  assumes "members_ok te" and "ag_slot_id (sl_agent x) = k"
  shows "members_ok (on_slots (hm_insert k x) te)"
proof (rule members_okI)
  show "distinct (hm_keys (tg_slots (te_manager (on_slots (hm_insert k x) te))))"
    using members_okD(1) [OF assms(1)] by (simp add: slot_simps distinct_hm_insert)
  fix j s assume "slot_of (on_slots (hm_insert k x) te) j = Some s"
  then show "ag_slot_id (sl_agent s) = j"
    using assms(2) members_okD(2) [OF assms(1), of j s] by (cases "j = k") (auto simp: slot_simps)
qed

lemma members_ok_add: "members_ok te \<Longrightarrow> members_ok (add_agent a te)"
  by (simp add: add_agent_def members_ok_insert new_slot_def)

lemma members_ok_fold:
  assumes "members_ok te"
  shows "members_ok (on_slots (fold (\<lambda>a. hm_insert (ag_slot_id a) (new_slot (a\<lparr>ag_status := st\<rparr>))) as) te)"
  using assms
proof (induction as arbitrary: te)
  case Nil
  then show ?case by (simp add: on_slots_def)
next
  case (Cons a as)
  have "members_ok (on_slots (hm_insert (ag_slot_id a) (new_slot (a\<lparr>ag_status := st\<rparr>))) te)"
    by (rule members_ok_insert) (use Cons.prems in \<open>simp_all add: new_slot_def\<close>)
  from Cons.IH [OF this] show ?case by (simp add: on_slots_def)
qed

lemma members_ok_new: "members_ok \<lparr>te_manager = new_team_manager team agents, te_db = db\<rparr>"
proof -
  have "members_ok \<lparr>te_manager = new_team_manager team [], te_db = db\<rparr>"
    by (rule members_okI) (simp_all add: new_team_manager_def)
  from members_ok_fold [OF this, of "Some StIdle" agents] show ?thesis
    by (simp add: on_slots_def new_team_manager_def)
qed

section \<open>The lead\<close>

definition leads :: "'db team_state \<Rightarrow> string set" where
  "leads te = {i. \<exists>s. slot_of te i = Some s \<and> ag_role (sl_agent s) = Lead}"

lemma slot_values:
  "members_ok te \<Longrightarrow> s \<in> set (hm_values (tg_slots (te_manager te))) \<longleftrightarrow> slot_of te (ag_slot_id (sl_agent s)) = Some s"
  using hm_values_iff [OF members_okD(1)] members_okD(2) by metis

lemma find_lead_iff:
  assumes "members_ok te"
  shows "find_lead_slot_id te = None \<longleftrightarrow> leads te = {}"
    and "find_lead_slot_id te = Some l \<Longrightarrow> l \<in> leads te"
    and "leads te = {l} \<Longrightarrow> find_lead_slot_id te = Some l"
proof -
  show none: "find_lead_slot_id te = None \<longleftrightarrow> leads te = {}"
    unfolding find_lead_slot_id_def option.map_disc_iff find_None_iff leads_def
    using slot_values [OF assms] members_okD(2) [OF assms] by fastforce
  show some: "find_lead_slot_id te = Some l \<Longrightarrow> l \<in> leads te" for l
  proof -
    assume "find_lead_slot_id te = Some l"
    then obtain s where s: "find (\<lambda>s. ag_role (sl_agent s) = Lead) (hm_values (tg_slots (te_manager te))) = Some s"
      "l = ag_slot_id (sl_agent s)" by (auto simp: find_lead_slot_id_def)
    then have "s \<in> set (hm_values (tg_slots (te_manager te)))" "ag_role (sl_agent s) = Lead"
      by (auto simp: find_Some_iff)
    with s(2) show "l \<in> leads te" using slot_values [OF assms] by (auto simp: leads_def)
  qed
  show "find_lead_slot_id te = Some l" if "leads te = {l}"
    using none some that by (cases "find_lead_slot_id te") auto
qed

lemma scan_slots_settled:
  "list_all (\<lambda>s. ag_role (sl_agent s) \<noteq> Lead \<longrightarrow> is_settled_status (sl_status s)) ss
   \<Longrightarrow> scan_slots ss lead has = (case filter (\<lambda>s. ag_role (sl_agent s) = Lead) ss of [] \<Rightarrow> lead
         | xs \<Rightarrow> Some (ag_slot_id (sl_agent (last xs))), has \<or> list_ex (\<lambda>s. ag_role (sl_agent s) \<noteq> Lead) ss, True)"
  by (induction ss arbitrary: lead has) (auto split: list.splits)

lemma scan_slots_unsettled:
  "\<not> list_all (\<lambda>s. ag_role (sl_agent s) \<noteq> Lead \<longrightarrow> is_settled_status (sl_status s)) ss
   \<Longrightarrow> \<exists>l h. scan_slots ss lead has = (l, h, False)"
  by (induction ss arbitrary: lead has) auto

definition teammate_status_in :: "'db team_state \<Rightarrow> string \<Rightarrow> teammate_status option" where
  "teammate_status_in te i = (case slot_of te i of
     None \<Rightarrow> None | Some s \<Rightarrow> if ag_role (sl_agent s) = Lead then None else Some (sl_status s))"

text \<open>The lead \<open>l\<close> is due: it is idle, there is a teammate, and every teammate is settled.\<close>

definition lead_due :: "'db team_state \<Rightarrow> string \<Rightarrow> bool" where
  "lead_due te l \<longleftrightarrow> map_option sl_status (slot_of te l) = Some StIdle
     \<and> (\<exists>i. teammate_status_in te i \<noteq> None)
     \<and> (\<forall>i s. teammate_status_in te i = Some s \<longrightarrow> is_settled_status s)"

lemma teammate_status_values:
  assumes "members_ok te"
  shows "list_ex (\<lambda>s. ag_role (sl_agent s) \<noteq> Lead) (hm_values (tg_slots (te_manager te)))
      \<longleftrightarrow> (\<exists>i. teammate_status_in te i \<noteq> None)"
    and "list_all (\<lambda>s. ag_role (sl_agent s) \<noteq> Lead \<longrightarrow> is_settled_status (sl_status s)) (hm_values (tg_slots (te_manager te)))
      \<longleftrightarrow> (\<forall>i s. teammate_status_in te i = Some s \<longrightarrow> is_settled_status s)"
  using slot_values [OF assms] members_okD(2) [OF assms]
  unfolding list_ex_iff list_all_iff teammate_status_in_def
  by (fastforce split: option.splits if_splits)+

lemma leads_filter:
  assumes "members_ok te" and "leads te = {l}"
  shows "\<exists>s. filter (\<lambda>s. ag_role (sl_agent s) = Lead) (hm_values (tg_slots (te_manager te))) \<noteq> []
    \<and> ag_slot_id (sl_agent (last (filter (\<lambda>s. ag_role (sl_agent s) = Lead) (hm_values (tg_slots (te_manager te)))))) = l"
proof -
  let ?xs = "filter (\<lambda>s. ag_role (sl_agent s) = Lead) (hm_values (tg_slots (te_manager te)))"
  from assms obtain s where "slot_of te l = Some s" "ag_role (sl_agent s) = Lead" by (auto simp: leads_def)
  then have ne: "?xs \<noteq> []"
    using slot_values [OF assms(1), of s] members_okD(2) [OF assms(1)] by (auto simp: filter_empty_conv)
  then have "last ?xs \<in> set ?xs" by (rule last_in_set)
  then have "ag_slot_id (sl_agent (last ?xs)) \<in> leads te"
    using slot_values [OF assms(1), of "last ?xs"] by (auto simp: leads_def)
  with ne assms(2) show ?thesis by simp
qed

theorem maybe_wake_leader_iff:
  assumes "members_ok te" and "leads te = {l}"
  shows "maybe_wake_leader te = (if lead_due te l then Some l else None)"
proof (cases "list_all (\<lambda>s. ag_role (sl_agent s) \<noteq> Lead \<longrightarrow> is_settled_status (sl_status s)) (hm_values (tg_slots (te_manager te)))")
  case True
  with leads_filter [OF assms] scan_slots_settled [OF True, of None False] show ?thesis
    by (auto simp: maybe_wake_leader_def lead_due_def teammate_status_values [OF assms(1)] split: list.splits option.splits)
next
  case False
  with scan_slots_unsettled [OF False, of None False] show ?thesis
    by (auto simp: maybe_wake_leader_def lead_due_def teammate_status_values [OF assms(1)] split: option.splits)
qed

section \<open>Turns\<close>

definition message_fresh :: "string \<Rightarrow> team_db team_state \<Rightarrow> bool" where
  "message_fresh i te \<longleftrightarrow> \<not> list_ex (\<lambda>m. mb_id m = i) (td_mailbox (te_db te))"

definition posted :: "mailbox_row \<Rightarrow> team_db team_state \<Rightarrow> team_db team_state" where
  "posted r te = te\<lparr>te_db := (te_db te)\<lparr>td_mailbox := td_mailbox (te_db te) @ [r]\<rparr>\<rparr>"

lemma te_manager_posted [slot_simps]: "te_manager (posted r te) = te_manager te"
  by (simp add: posted_def)

lemma write_to_sqlite:
  assumes "message_fresh (fst m) te"
    and "r = new_message_row J (fst m) (tg_team_id (te_manager te)) to from kind content summary files (snd m)"
  shows "\<exists>msg. message_from_row J r = Some msg
    \<and> write_to J (sqlite_team_repo J) m to from kind content summary files te = (Inr msg, posted r te)"
  using assms
  by (cases kind) (simp_all add: write_to_def write_db_def write_with_files_def sqlite_team_repo_def write_message_row_def
      message_fresh_def posted_def new_message_row_def message_from_row_def Let_def message_kind_parse_def )

lemma role_set_status:
  "set_status i s te = (res, te') \<Longrightarrow> map_option (ag_role \<circ> sl_agent) (slot_of te' j) = map_option (ag_role \<circ> sl_agent) (slot_of te j)"
  by (auto simp: set_status_def slot_simps option.map_comp comp_def split: if_splits)

lemma leads_alt: "leads te = {j. map_option (ag_role \<circ> sl_agent) (slot_of te j) = Some Lead}"
  by (auto simp: leads_def)

lemma leads_roles:
  "(\<And>j. map_option (ag_role \<circ> sl_agent) (slot_of te' j) = map_option (ag_role \<circ> sl_agent) (slot_of te j)) \<Longrightarrow> leads te' = leads te"
  by (simp add: leads_alt)

text \<open>A teammate that finishes a turn: it is idle, the lead has one more message, and is returned when it is due.\<close>

definition idle_row :: "'m team_json \<Rightarrow> mint \<Rightarrow> string \<Rightarrow> string \<Rightarrow> string \<Rightarrow> string option \<Rightarrow> mailbox_row" where
  "idle_row J mint team lead i summary = new_message_row J (fst (mint 0)) team lead i MtIdleNotification
     (case summary of None \<Rightarrow> ''idle'' | Some t \<Rightarrow> t) summary None (snd (mint 0))"

lemma mark_idle_teammate:
  assumes ok: "members_ok te" and l: "leads te = {l}" and s: "slot_of te i = Some s"
    and r: "ag_role (sl_agent s) \<noteq> Lead" and fresh: "message_fresh (fst (mint 0)) te"
    and te': "te' = posted (idle_row J mint (tg_team_id (te_manager te)) l i summary) (snd (set_status i StIdle te))"
  shows "mark_idle J (sqlite_team_repo J) mint i summary te = (Inr (if lead_due te' l then Some l else None), te')"
proof -
  define te1 where "te1 = snd (set_status i StIdle te)"
  have set: "set_status i StIdle te = (Inr (), te1)"
    using s by (simp add: te1_def set_status_def)
  have ok1: "members_ok te1" unfolding te1_def by (rule members_ok_set_status [OF ok])
  have l1: "leads te1 = {l}" using leads_roles [OF role_set_status [OF set]] l by simp
  have team: "tg_team_id (te_manager te1) = tg_team_id (te_manager te)"
    by (simp add: te1_def set_status_def slot_simps)
  obtain s1 where s1: "slot_of te1 i = Some s1" "ag_role (sl_agent s1) \<noteq> Lead"
    using role_set_status [OF set, of i] s r by (auto simp: map_option_eq_Some)
  have "i \<notin> leads te" using s r by (simp add: leads_def)
  then have "l \<noteq> i" using l by auto
  have "message_fresh (fst (mint 0)) te1"
    using fresh by (simp add: message_fresh_def te1_def set_status_def slot_simps)
  from write_to_sqlite [OF this refl, of J l i MtIdleNotification "case summary of None \<Rightarrow> ''idle'' | Some t \<Rightarrow> t" summary None]
  obtain msg where w: "write_to J (sqlite_team_repo J) (mint 0) l i MtIdleNotification
      (case summary of None \<Rightarrow> ''idle'' | Some t \<Rightarrow> t) summary None te1 = (Inr msg, te')"
    unfolding te' idle_row_def te1_def [symmetric] team by blast
  have slots: "tg_slots (te_manager te') = tg_slots (te_manager te1)"
    by (simp add: te' te1_def posted_def)
  have "maybe_wake_leader te' = (if lead_due te' l then Some l else None)"
    by (rule maybe_wake_leader_iff) (use ok1 l1 slots in \<open>simp_all add: members_ok_cong [OF slots] leads_def\<close>)
  with set s1 \<open>l \<noteq> i\<close> w find_lead_iff(3) [OF ok1 l1] show ?thesis
    by (simp add: mark_idle_def)
qed

lemma mark_idle_lead:
  "slot_of te i = Some s \<Longrightarrow> ag_role (sl_agent s) = Lead
   \<Longrightarrow> mark_idle J R mint i summary te = (Inr None, snd (set_status i StIdle te))"
  by (simp add: mark_idle_def set_status_def slot_simps)

lemma finalize_turn_no_actions: "finalize_turn lower J R mint i [] te = mark_idle J R (mint 0) i None te"
  by (simp add: finalize_turn_def)

text \<open>The status \<open>Error\<close> that the event loop sets after a failed turn is gone once the turn is finalised.\<close>

lemma get_status_set_status:
  "slot_of te i \<noteq> None \<Longrightarrow> get_status i (snd (set_status i s te)) = Inr s"
  by (auto simp: get_status_def set_status_def slot_simps )

lemma get_status_posted [simp]: "get_status i (posted r te) = get_status i te"
  by (simp add: get_status_def slot_simps)

theorem failed_turn_ends_idle:
  assumes "members_ok te" and "leads te = {l}" and "slot_of te i = Some s" and "ag_role (sl_agent s) \<noteq> Lead"
    and "message_fresh (fst (mint 0 0)) te"
  shows "get_status i (snd (finalize_turn lower J (sqlite_team_repo J) mint i [] (snd (set_status i StError te)))) = Inr StIdle"
proof -
  let ?te = "snd (set_status i StError te)"
  have set: "set_status i StError te = (Inr (), ?te)"
    using assms(3) by (simp add: set_status_def)
  obtain s1 where s1: "slot_of ?te i = Some s1" "ag_role (sl_agent s1) \<noteq> Lead"
    using role_set_status [OF set, of i] assms(3,4) by (auto simp: map_option_eq_Some)
  have "message_fresh (fst (mint 0 0)) ?te"
    using assms(5) by (simp add: message_fresh_def set_status_def slot_simps)
  moreover have "leads ?te = {l}" using leads_roles [OF role_set_status [OF set]] assms(2) by simp
  ultimately have "mark_idle J (sqlite_team_repo J) (mint 0) i None ?te
      = (Inr (if lead_due (posted r (snd (set_status i StIdle ?te))) l then Some l else None), posted r (snd (set_status i StIdle ?te)))"
    if "r = idle_row J (mint 0) (tg_team_id (te_manager ?te)) l i None" for r
    using mark_idle_teammate [OF members_ok_set_status [OF assms(1)] _ s1] that by blast
  from this [OF refl] s1 show ?thesis by (simp add: finalize_turn_no_actions get_status_set_status)
qed

text \<open>A member is woken only when it is idle, which it then is no longer; it gets its unread messages once.\<close>

lemma try_wake_idle:
  assumes "try_wake J R i te = (Inr (Some p), te')"
  shows "get_status i te = Inr StIdle" and "get_status i te' = Inr StWorking"
  using assms
  by (auto simp: try_wake_def build_wake_payload_def write_db_def get_status_def set_status_def slot_simps 
      split: sum.splits if_splits prod.splits option.splits)

end
