(* ===== verification/Team_Projection.thy ===== *)
theory Team_Projection
  imports Conv_Store Conv_Errors Team_Types
begin

text \<open>
  How a message of a team gets into the conversation of a member: \<open>visibility.rs\<close> and
  \<open>message_projection.rs\<close> of \<open>aionui-team/src\<close>, over the store of \<open>aionui-app\<close>'s \<open>TeamConversationAdapters\<close>,
  whose \<open>insert_raw_message\<close> (\<open>aionui-conversation/src/service.rs\<close>) also broadcasts the row. The JSON of the
  column \<open>content\<close> is the value it encodes, built by \<open>projection_json\<close>; the generated identifier and the clock
  are arguments.
\<close>

section \<open>Visibility\<close>

record visibility_policy =
  vp_write_mailbox :: bool
  vp_insert_user_visible_bubble :: bool
  vp_insert_teammate_visible_bubble :: bool
  vp_allow_hidden_conversation_message :: bool
  vp_strip_system_notes :: bool

definition user_message_policy :: visibility_policy where
  "user_message_policy = \<lparr>vp_write_mailbox = True, vp_insert_user_visible_bubble = True,
     vp_insert_teammate_visible_bubble = False, vp_allow_hidden_conversation_message = False,
     vp_strip_system_notes = True\<rparr>"

definition teammate_message_policy :: visibility_policy where
  "teammate_message_policy = \<lparr>vp_write_mailbox = True, vp_insert_user_visible_bubble = False,
     vp_insert_teammate_visible_bubble = True, vp_allow_hidden_conversation_message = False,
     vp_strip_system_notes = False\<rparr>"

definition hidden_runtime_policy :: visibility_policy where
  "hidden_runtime_policy = \<lparr>vp_write_mailbox = False, vp_insert_user_visible_bubble = False,
     vp_insert_teammate_visible_bubble = False, vp_allow_hidden_conversation_message = True,
     vp_strip_system_notes = False\<rparr>"

text \<open>\<open>find\<close>: the position of the first occurrence.\<close>

fun find_str :: "string \<Rightarrow> string \<Rightarrow> nat option" where
  "find_str p [] = (if p = [] then Some 0 else None)"
| "find_str p (c # s) = (if starts_with (c # s) p then Some 0 else map_option Suc (find_str p s))"

lemma find_str_less: "find_str p s = Some n \<Longrightarrow> p \<noteq> [] \<Longrightarrow> n < length s"
  by (induction s arbitrary: n) (auto split: if_splits)

definition system_note :: string where "system_note = ''[SYSTEM NOTE:''"

text \<open>The loop of \<open>strip_system_notes\<close> over what is left, with the result so far.\<close>

function strip_notes :: "string \<Rightarrow> string \<Rightarrow> string" where
  "strip_notes result rest = (case find_str system_note rest of
     None \<Rightarrow> result @ rest
   | Some start \<Rightarrow>
      let result' = result @ take start rest in
      (case find_str '']'' (drop start rest) of
         None \<Rightarrow> result' @ drop start rest
       | Some n \<Rightarrow>
          let after = drop (start + n + 1) rest
          in strip_notes result'
               (if ends_with result' [byte 10] \<and> starts_with after [byte 10] then drop 1 after else after)))"
  by pat_completeness auto
termination
  by (relation "measure (\<lambda>(r, s). length s)")
    (auto dest!: find_str_less simp: system_note_def)

declare strip_notes.simps [simp del]

definition strip_system_notes :: "string \<Rightarrow> string" where
  "strip_system_notes s = trim (strip_notes [] s)"

section \<open>Requests\<close>

datatype projection_source =
    Src_User
  | Src_Team_System
  | Src_Teammate string string "string option" "string option"

record projection_request =
  pq_team_id :: string
  pq_slot_id :: string
  pq_conversation_id :: string
  pq_source :: projection_source
  pq_content :: string
  pq_files :: "string list"
  pq_visibility :: visibility_policy
  pq_dedupe_key :: "string option"

definition teammate_dedupe_key :: "string \<Rightarrow> string \<Rightarrow> string \<Rightarrow> string" where
  "teammate_dedupe_key team message conv = ''team:'' @ team @ '':mailbox:'' @ message @ '':conversation:'' @ conv"

definition user_visible :: "string \<Rightarrow> string \<Rightarrow> string \<Rightarrow> string \<Rightarrow> string list \<Rightarrow> projection_request" where
  "user_visible team slot conv content files =
     \<lparr>pq_team_id = team, pq_slot_id = slot, pq_conversation_id = conv, pq_source = Src_User, pq_content = content,
      pq_files = files, pq_visibility = user_message_policy, pq_dedupe_key = None\<rparr>"

definition teammate_visible ::
  "string \<Rightarrow> string \<Rightarrow> string \<Rightarrow> string \<Rightarrow> string \<Rightarrow> string \<Rightarrow> string \<Rightarrow> projection_request" where
  "teammate_visible team slot conv from name content message =
     \<lparr>pq_team_id = team, pq_slot_id = slot, pq_conversation_id = conv,
      pq_source = Src_Teammate from name None None, pq_content = content, pq_files = [],
      pq_visibility = teammate_message_policy, pq_dedupe_key = Some (teammate_dedupe_key team message conv)\<rparr>"

definition team_system_visible :: "string \<Rightarrow> string \<Rightarrow> string \<Rightarrow> string \<Rightarrow> string \<Rightarrow> projection_request" where
  "team_system_visible team slot conv content message =
     \<lparr>pq_team_id = team, pq_slot_id = slot, pq_conversation_id = conv, pq_source = Src_Team_System,
      pq_content = content, pq_files = [], pq_visibility = teammate_message_policy,
      pq_dedupe_key = Some (teammate_dedupe_key team message conv)\<rparr>"

definition should_insert_visible_bubble :: "projection_request \<Rightarrow> bool" where
  "should_insert_visible_bubble q = (case pq_source q of
     Src_User \<Rightarrow> vp_insert_user_visible_bubble (pq_visibility q)
   | _ \<Rightarrow> vp_insert_teammate_visible_bubble (pq_visibility q))"

section \<open>Projecting\<close>

datatype projected = Pj_Inserted string | Pj_Already_Projected string | Pj_Skipped

record 'c projection_json =
  pj_user :: "string \<Rightarrow> 'c"
  pj_member :: "string \<Rightarrow> string \<Rightarrow> string option \<Rightarrow> string option \<Rightarrow> 'c"

record teammate_event =
  ev_team_id :: string
  ev_slot_id :: string
  ev_conversation_id :: string
  ev_msg_id :: string
  ev_content :: string
  ev_from_slot_id :: string
  ev_from_name :: string
  ev_sender_backend :: "string option"
  ev_sender_conversation_id :: "string option"

text \<open>The tables, and what has been broadcast: rows as \<open>message.stream\<close>, teammate messages.\<close>

record ('c, 'db) projection_world =
  pw_db :: 'db
  pw_stream :: "'c message_row list"
  pw_teammate :: "teammate_event list"

definition insert_raw_message ::
  "('c, 'db) conv_repo \<Rightarrow> 'c message_row \<Rightarrow> ('c, 'db) projection_world
   \<Rightarrow> ('a conversation_error + unit) \<times> ('c, 'db) projection_world" where
  "insert_raw_message R row w = (case cr_insert R row (pw_db w) of
     (Inl e, db) \<Rightarrow> (Inl (conv_from_db_error e), w\<lparr>pw_db := db\<rparr>)
   | (Inr _, db) \<Rightarrow> (Inr (), w\<lparr>pw_db := db, pw_stream := pw_stream w @ [row]\<rparr>))"

fun conv_update_error :: "'a conversation_error \<Rightarrow> team_error" where
  "conv_update_error (Conv_Workspace_Path_Unavailable p) = WorkspacePathUnavailable p"
| "conv_update_error (Conv_Workspace_Path_Runtime_Unavailable p) = WorkspacePathRuntimeUnavailable p"
| "conv_update_error (Conv_Forbidden r) = Forbidden r"
| "conv_update_error (Conv_Active_Agent_Not_Found c) = RuntimeNotReady c"
| "conv_update_error (Conv_Not_Found i) = InvalidRequest (''conversation not found: '' @ i)"
| "conv_update_error (Conv_Not_Found_Reason r) = InvalidRequest r"
| "conv_update_error e = InvalidRequest (conv_error_text e)"

definition insert_projected_message ::
  "('c, 'db) conv_repo \<Rightarrow> 'c message_row \<Rightarrow> ('c, 'db) projection_world
   \<Rightarrow> (team_error + unit) \<times> ('c, 'db) projection_world" where
  "insert_projected_message R row w =
     apfst (map_err (conv_update_error :: string conversation_error \<Rightarrow> team_error)) (insert_raw_message R row w)"

definition find_projected_message ::
  "('c, 'db) conv_repo \<Rightarrow> string \<Rightarrow> string \<Rightarrow> string \<Rightarrow> ('c, 'db) projection_world
   \<Rightarrow> team_error + 'c message_row option" where
  "find_projected_message R conv i ty w = map_err DatabaseError (cr_find R conv i ty (pw_db w))"

definition build_message_row :: "'c projection_json \<Rightarrow> projection_request \<Rightarrow> string \<Rightarrow> int \<Rightarrow> 'c message_row" where
  "build_message_row PJ q i now =
     (let (position, content) = (case pq_source q of
          Src_User \<Rightarrow> (''right'', pj_user PJ
            (if vp_strip_system_notes (pq_visibility q) then strip_system_notes (pq_content q) else pq_content q))
        | Src_Team_System \<Rightarrow> (''left'', pj_member PJ (pq_content q) ''team_system'' None None)
        | Src_Teammate _ name backend conv \<Rightarrow> (''left'', pj_member PJ (pq_content q) name backend conv))
      in \<lparr>msg_id = i, msg_conversation = pq_conversation_id q, msg_msg_id = Some i, msg_type = ''text'',
          msg_content = content, msg_position = Some position, msg_status = Some ''finish'',
          msg_hidden = vp_allow_hidden_conversation_message (pq_visibility q), msg_created_at = now\<rparr>)"

definition teammate_event_of :: "projection_request \<Rightarrow> string \<Rightarrow> teammate_event option" where
  "teammate_event_of q i =
     (let event = (\<lambda>from name backend conv. Some \<lparr>ev_team_id = pq_team_id q, ev_slot_id = pq_slot_id q,
            ev_conversation_id = pq_conversation_id q, ev_msg_id = i, ev_content = pq_content q,
            ev_from_slot_id = from, ev_from_name = name, ev_sender_backend = backend,
            ev_sender_conversation_id = conv\<rparr>)
      in case pq_source q of
           Src_User \<Rightarrow> None
         | Src_Team_System \<Rightarrow> event ''team_system'' ''team_system'' None None
         | Src_Teammate from name backend conv \<Rightarrow> event from name backend conv)"

definition project_new ::
  "('c, 'db) conv_repo \<Rightarrow> 'c projection_json \<Rightarrow> string \<Rightarrow> int \<Rightarrow> projection_request
   \<Rightarrow> ('c, 'db) projection_world \<Rightarrow> (team_error + projected) \<times> ('c, 'db) projection_world" where
  "project_new R PJ i now q w = (case insert_projected_message R (build_message_row PJ q i now) w of
     (Inl e, w') \<Rightarrow> (Inl e, w')
   | (Inr _, w') \<Rightarrow> (Inr (Pj_Inserted i), w'\<lparr>pw_teammate := pw_teammate w'
        @ (case teammate_event_of q i of None \<Rightarrow> [] | Some ev \<Rightarrow> [ev])\<rparr>))"

definition project ::
  "('c, 'db) conv_repo \<Rightarrow> 'c projection_json \<Rightarrow> string \<Rightarrow> int \<Rightarrow> projection_request
   \<Rightarrow> ('c, 'db) projection_world \<Rightarrow> (team_error + projected) \<times> ('c, 'db) projection_world" where
  "project R PJ minted now q w =
     (if \<not> should_insert_visible_bubble q then (Inr Pj_Skipped, w)
      else case pq_dedupe_key q of
          None \<Rightarrow> project_new R PJ minted now q w
        | Some k \<Rightarrow> (case find_projected_message R (pq_conversation_id q) k ''text'' w of
              Inl e \<Rightarrow> (Inl e, w)
            | Inr (Some old) \<Rightarrow>
                (Inr (Pj_Already_Projected (case msg_msg_id old of None \<Rightarrow> msg_id old | Some j \<Rightarrow> j)), w)
            | Inr None \<Rightarrow> project_new R PJ k now q w))"

section \<open>What it does\<close>

text \<open>A message with a key that has been projected is not projected again.\<close>

lemma build_message_row_simps [simp]:
  "msg_id (build_message_row PJ q i now) = i" "msg_conversation (build_message_row PJ q i now) = pq_conversation_id q"
  "msg_msg_id (build_message_row PJ q i now) = Some i" "msg_type (build_message_row PJ q i now) = ''text''"
  by (simp_all add: build_message_row_def split: prod.split)

lemma project_insertedD:
  assumes "project R PJ m now q w = (Inr (Pj_Inserted i), w')" and "pq_dedupe_key q = Some k"
  shows "project_new R PJ k now q w = (Inr (Pj_Inserted i), w')"
    and "cr_find R (pq_conversation_id q) k ''text'' (pw_db w) = Inr None"
  using assms
  by (simp_all add: project_def find_projected_message_def split: if_splits sum.splits option.splits)

lemma project_newD:
  assumes "project_new R PJ k now q w = (Inr r, w')"
  shows "r = Pj_Inserted k" and "cr_insert R (build_message_row PJ q k now) (pw_db w) = (Inr (), pw_db w')"
  using assms
  by (cases "cr_insert R (build_message_row PJ q k now) (pw_db w)";
      cases "fst (cr_insert R (build_message_row PJ q k now) (pw_db w))";
      auto simp: project_new_def insert_projected_message_def insert_raw_message_def)+

lemma insert_message_rows: "insert_message r db = (Inr (), db') \<Longrightarrow> db_messages db' = db_messages db @ [r]"
  by (auto simp: insert_message_def split: if_splits)

lemma project_twice:
  assumes "project (sqlite_conv_repo J) PJ m now q w = (Inr (Pj_Inserted i), w')" and "pq_dedupe_key q = Some k"
    and "pq_conversation_id q' = pq_conversation_id q" and "pq_dedupe_key q' = Some k" and "should_insert_visible_bubble q'"
  shows "i = k" and "project (sqlite_conv_repo J) PJ m' now' q' w' = (Inr (Pj_Already_Projected k), w')"
proof -
  let ?row = "build_message_row PJ q k now"
  note new = project_insertedD [OF assms(1,2)]
  from project_newD [OF new(1)] show "i = k" by simp
  from project_newD(2) [OF new(1)] have "db_messages (pw_db w') = db_messages (pw_db w) @ [?row]"
    by (simp add: sqlite_conv_repo_def insert_message_rows)
  with new(2) have "cr_find (sqlite_conv_repo J) (pq_conversation_id q) k ''text'' (pw_db w') = Inr (Some ?row)"
    by (simp add: sqlite_conv_repo_def find_message_def find_append)
  with assms(3-5) show "project (sqlite_conv_repo J) PJ m' now' q' w' = (Inr (Pj_Already_Projected k), w')"
    by (simp add: project_def find_projected_message_def)
qed

text \<open>Taking a note out can put another one together.\<close>

lemma stripped_note_remains:
  "strip_system_notes ''[SYSTEM [SYSTEM NOTE: a]NOTE: b]'' = ''[SYSTEM NOTE: b]''"
  by code_simp

end
