(* ===== verification/Wake_Summary.thy ===== *)
theory Wake_Summary
  imports Team_Types
begin

text \<open>
  The message that wakes a member of a team: \<open>build_wake_payload\<close> (\<open>aionui-team/src/prompts/mod.rs\<close>) and the
  summary of the task board in it (\<open>prompts/wake_summary.rs\<close>). A \<open>HashSet\<close> of identifiers is a set, the roster
  of the team a list. \<open>sort_by\<close> is stable; its comparison of two tasks is that of their keys.
\<close>

section \<open>Which tasks are shown\<close>

fun status_active :: "task_status \<Rightarrow> bool" where
  "status_active TkPending = True"
| "status_active TkInProgress = True"
| "status_active _ = False"

fun status_rank :: "task_status \<Rightarrow> nat" where
  "status_rank TkInProgress = 0"
| "status_rank TkPending = 1"
| "status_rank TkCompleted = 2"
| "status_rank TkDeleted = 3"

definition is_current_or_ownerless :: "string list \<Rightarrow> 'm team_task \<Rightarrow> bool" where
  "is_current_or_ownerless roster t = (case tt_owner t of None \<Rightarrow> True | Some w \<Rightarrow> w \<in> set roster)"

definition is_removed_owner :: "string list \<Rightarrow> 'm team_task \<Rightarrow> bool" where
  "is_removed_owner roster t = (case tt_owner t of None \<Rightarrow> False | Some w \<Rightarrow> w \<notin> set roster)"

definition ids_where :: "('m team_task \<Rightarrow> bool) \<Rightarrow> 'm team_task list \<Rightarrow> string set" where
  "ids_where p tasks = set (map tt_id (filter p tasks))"

definition links_where ::
  "('m team_task \<Rightarrow> string list) \<Rightarrow> ('m team_task \<Rightarrow> bool) \<Rightarrow> 'm team_task list \<Rightarrow> string set" where
  "links_where f p tasks = set (concat (map f (filter p tasks)))"

definition filter_summary_input :: "string list \<Rightarrow> 'm team_task list \<Rightarrow> 'm team_task list" where
  "filter_summary_input roster tasks =
     (let base = ids_where (\<lambda>t. status_active (tt_status t) \<and> is_current_or_ownerless roster t) tasks;
          blockers = links_where tt_blocked_by (\<lambda>t. tt_id t \<in> base) tasks
      in filter (\<lambda>t. is_current_or_ownerless roster t
           \<or> (status_active (tt_status t) \<and> is_removed_owner roster t \<and> tt_id t \<in> blockers)) tasks)"

record summary_ids =
  si_own :: "string set"
  si_blockers :: "string set"
  si_blocked :: "string set"

definition summary_ids_for :: "team_agent \<Rightarrow> 'm team_task list \<Rightarrow> summary_ids" where
  "summary_ids_for agent tasks =
     (let own = ids_where (\<lambda>t. status_active (tt_status t) \<and> tt_owner t = Some (ag_slot_id agent)) tasks
      in \<lparr>si_own = own,
          si_blockers = links_where tt_blocked_by (\<lambda>t. tt_id t \<in> own) tasks,
          si_blocked = links_where tt_blocks (\<lambda>t. tt_id t \<in> own) tasks
            \<union> ids_where (\<lambda>t. status_active (tt_status t) \<and> list_ex (\<lambda>i. i \<in> own) (tt_blocked_by t)) tasks\<rparr>)"

definition active_rank :: "summary_ids \<Rightarrow> 'm team_task \<Rightarrow> nat" where
  "active_rank ids t =
     (if tt_id t \<in> si_own ids then 0
      else if tt_id t \<in> si_blockers ids then 1
      else if tt_id t \<in> si_blocked ids then 2
      else if tt_status t = TkInProgress then 3
      else 4)"

text \<open>\<open>compare_active_tasks\<close>: the rank, the status, the latest update first, then creation and identifier.\<close>

definition active_key :: "summary_ids \<Rightarrow> 'm team_task \<Rightarrow> nat \<times> nat \<times> int \<times> int \<times> string" where
  "active_key ids t = (active_rank ids t, status_rank (tt_status t), - tt_updated_at t, tt_created_at t, tt_id t)"

definition completed_key :: "'m team_task \<Rightarrow> int \<times> int \<times> string" where
  "completed_key t = (- tt_updated_at t, tt_created_at t, tt_id t)"

definition max_wake_task_rows :: nat where "max_wake_task_rows = 40"
definition max_recent_completed_rows :: nat where "max_recent_completed_rows = 8"
definition max_teammate_recent_completed_rows :: nat where "max_teammate_recent_completed_rows = 3"
definition max_subject_chars :: nat where "max_subject_chars = 120"
definition max_blocked_by_ids :: nat where "max_blocked_by_ids = 5"

text \<open>The shared end of the two selections: the first active tasks, then some completed ones.\<close>

definition select_rows ::
  "summary_ids \<Rightarrow> 'm team_task list \<Rightarrow> nat \<Rightarrow> 'm team_task list \<Rightarrow> 'm team_task list" where
  "select_rows ids active n completed =
     (let selected = take max_wake_task_rows (sort_key (active_key ids) active)
      in if length selected < max_wake_task_rows
         then selected @ take (min n (max_wake_task_rows - length selected)) (sort_key completed_key completed)
         else selected)"

definition select_leader_summary_tasks :: "summary_ids \<Rightarrow> 'm team_task list \<Rightarrow> 'm team_task list" where
  "select_leader_summary_tasks ids tasks =
     select_rows ids (filter (\<lambda>t. status_active (tt_status t)) tasks) max_recent_completed_rows
       (filter (\<lambda>t. tt_status t = TkCompleted) tasks)"

definition select_teammate_summary_tasks :: "team_agent \<Rightarrow> summary_ids \<Rightarrow> 'm team_task list \<Rightarrow> 'm team_task list" where
  "select_teammate_summary_tasks agent ids tasks =
     select_rows ids
       (filter (\<lambda>t. tt_id t \<in> si_own ids \<or> tt_id t \<in> si_blockers ids \<or> tt_id t \<in> si_blocked ids)
         (filter (\<lambda>t. status_active (tt_status t)) tasks))
       max_teammate_recent_completed_rows
       (filter (\<lambda>t. tt_owner t = Some (ag_slot_id agent)) (filter (\<lambda>t. tt_status t = TkCompleted) tasks))"

definition select_summary_tasks :: "team_agent \<Rightarrow> 'm team_task list \<Rightarrow> 'm team_task list" where
  "select_summary_tasks agent tasks =
     (let ids = summary_ids_for agent tasks
      in if ag_role agent = Teammate then select_teammate_summary_tasks agent ids tasks
         else select_leader_summary_tasks ids tasks)"

section \<open>Rendering\<close>

text \<open>\<open>chars()\<close> of a string in UTF-8: a character starts at each byte that is not a continuation byte.\<close>

definition continuation :: "char \<Rightarrow> bool" where
  "continuation c \<longleftrightarrow> 128 \<le> code c \<and> code c < 192"

definition char_count :: "string \<Rightarrow> nat" where
  "char_count s = length (filter (\<lambda>c. \<not> continuation c) s)"

fun take_chars :: "nat \<Rightarrow> string \<Rightarrow> string" where
  "take_chars n [] = []"
| "take_chars n (c # s) =
     (if continuation c then c # take_chars n s
      else case n of 0 \<Rightarrow> [] | Suc k \<Rightarrow> c # take_chars k s)"

definition newline :: string where "newline = [byte 10]"

definition short_task_id :: "string \<Rightarrow> string" where
  "short_task_id i = take_chars 8 i @ map byte [226, 128, 166]"

definition truncate_subject :: "string \<Rightarrow> string" where
  "truncate_subject s =
     (if char_count s \<le> max_subject_chars then s else take_chars max_subject_chars s @ ''...'')"

definition render_owner :: "string list \<Rightarrow> 'm team_task \<Rightarrow> string" where
  "render_owner roster t = (case tt_owner t of
     None \<Rightarrow> ''-''
   | Some w \<Rightarrow> if w \<in> set roster then w else w @ '' (removed)'')"

definition show_nat :: "nat \<Rightarrow> string" where
  "show_nat n = show_int (int n)"

definition render_blocked_by :: "string list \<Rightarrow> string" where
  "render_blocked_by ids =
     (if ids = [] then ''-''
      else join '', '' (map short_task_id (take max_blocked_by_ids ids)
        @ (if max_blocked_by_ids < length ids then [''+'' @ show_nat (length ids - max_blocked_by_ids) @ '' more''] else [])))"

definition render_row :: "string list \<Rightarrow> 'm team_task \<Rightarrow> string" where
  "render_row roster t = ''| '' @ short_task_id (tt_id t) @ '' | '' @ truncate_subject (tt_subject t) @ '' | ''
     @ task_status_str (tt_status t) @ '' | '' @ render_owner roster t @ '' | '' @ render_blocked_by (tt_blocked_by t)
     @ '' |'' @ newline"

record summary_counts =
  sc_shown :: nat
  sc_total :: nat
  sc_hidden_active :: nat
  sc_hidden_completed :: nat
  sc_hidden_deleted :: nat

definition count_tasks :: "('m team_task \<Rightarrow> bool) \<Rightarrow> 'm team_task list \<Rightarrow> nat" where
  "count_tasks p tasks = length (filter p tasks)"

definition summary_counts_of :: "'m team_task list \<Rightarrow> 'm team_task list \<Rightarrow> summary_counts" where
  "summary_counts_of tasks selected =
     \<lparr>sc_shown = length selected, sc_total = length tasks,
      sc_hidden_active =
        count_tasks (\<lambda>t. status_active (tt_status t) \<and> tt_id t \<notin> set (map tt_id selected)) tasks,
      sc_hidden_completed = count_tasks (\<lambda>t. tt_status t = TkCompleted) tasks
        - count_tasks (\<lambda>t. tt_status t = TkCompleted) selected,
      sc_hidden_deleted = count_tasks (\<lambda>t. tt_status t = TkDeleted) tasks\<rparr>"

definition render_counts :: "summary_counts \<Rightarrow> string" where
  "render_counts n =
     ''Showing '' @ show_nat (sc_shown n) @ '' of '' @ show_nat (sc_total n) @ '' tasks.'' @ newline
     @ ''Hidden: active='' @ show_nat (sc_hidden_active n) @ '', completed='' @ show_nat (sc_hidden_completed n)
     @ '', deleted='' @ show_nat (sc_hidden_deleted n) @ ''.'' @ newline
     @ (if 0 < sc_hidden_active n + sc_hidden_completed n + sc_hidden_deleted n
        then ''More tasks are available via `team_task_list`; use filters when needed.'' @ newline else [])
     @ newline"

definition summary_rows :: "team_agent \<Rightarrow> 'm team_task list \<Rightarrow> string list \<Rightarrow> 'm team_task list" where
  "summary_rows agent tasks roster = select_summary_tasks agent (filter_summary_input roster tasks)"

definition render_task_board_summary :: "team_agent \<Rightarrow> 'm team_task list \<Rightarrow> string list \<Rightarrow> string" where
  "render_task_board_summary agent tasks roster = ''## Current Task Board Summary'' @ newline @ newline @
     (if tasks = [] then ''No tasks on the board.'' @ newline @ newline
      else let selected = summary_rows agent tasks roster
        in render_counts (summary_counts_of tasks selected)
           @ ''| ID | Subject | Status | Owner | Blocked By |'' @ newline
           @ ''|---|---|---|---|---|'' @ newline
           @ concat (map (render_row roster) selected) @ newline)"

section \<open>The message\<close>

definition render_message :: "mailbox_message \<Rightarrow> string" where
  "render_message m = ''- From `'' @ mm_from_agent_id m @ ''` ['' @ message_kind_str (mm_msg_type m) @ '']: ''
     @ mm_content m @ newline
     @ (case mm_summary m of None \<Rightarrow> [] | Some s \<Rightarrow> ''  Summary: '' @ s @ newline)"

definition wake_text :: "team_agent \<Rightarrow> 'm team_task list \<Rightarrow> mailbox_message list \<Rightarrow> string list \<Rightarrow> string" where
  "wake_text agent tasks unread roster =
     (if unread \<noteq> [] then ''## New Messages'' @ newline @ newline @ concat (map render_message unread) @ newline
      else ''## New Messages'' @ newline @ newline @ ''No new messages.'' @ newline @ newline)
     @ render_task_board_summary agent tasks roster
     @ ''You are **'' @ ag_name agent @ ''** (role: '' @ teammate_role_str (ag_role agent)
     @ ''). Proceed with your work.'' @ newline"

section \<open>What the summary shows\<close>

text \<open>No row is left out of a sorted prefix before one that comes later.\<close>

lemma sorted_prefix:
  fixes k :: "'a \<Rightarrow> 'k :: linorder"
  assumes "x \<in> set xs" and "x \<notin> set (take n (sort_key k xs))" and "y \<in> set (take n (sort_key k xs))"
  shows "k y \<le> k x"
proof -
  let ?s = "sort_key k xs"
  have "x \<in> set (take n ?s @ drop n ?s)" using assms(1) unfolding append_take_drop_id by simp
  with assms(2) have x: "x \<in> set (drop n ?s)" unfolding set_append by blast
  have "sorted (map k (take n ?s @ drop n ?s))" by simp
  with assms(3) x show ?thesis
    unfolding map_append sorted_append by auto
qed

lemma short_prefix:
  assumes "x \<in> set xs" and "x \<notin> set (take n (sort_key k xs))"
  shows "length (take n (sort_key k xs)) = n"
proof (rule ccontr)
  assume "length (take n (sort_key k xs)) \<noteq> n"
  then have "take n (sort_key k xs) = sort_key k xs" by simp
  with assms show False by simp
qed

text \<open>A selection of rows of the board: some of its tasks, once each, at most 40, none deleted.\<close>

definition row_selection :: "'m team_task list \<Rightarrow> 'm team_task list \<Rightarrow> bool" where
  "row_selection tasks rows \<longleftrightarrow> set rows \<subseteq> set tasks \<and> distinct rows \<and> length rows \<le> 40
     \<and> (\<forall>t \<in> set rows. tt_status t \<noteq> TkDeleted)"

lemma row_selectionD:
  assumes "row_selection tasks rows"
  shows "set rows \<subseteq> set tasks" and "distinct rows" and "length rows \<le> 40"
    and "t \<in> set rows \<Longrightarrow> tt_status t \<noteq> TkDeleted"
  using assms by (auto simp: row_selection_def)

lemma row_selection_mono: "row_selection xs rows \<Longrightarrow> set xs \<subseteq> set ys \<Longrightarrow> row_selection ys rows"
  by (auto simp: row_selection_def)

lemma set_take_sort: "set (take n (sort_key k xs)) \<subseteq> set xs"
  using set_take_subset [of n "sort_key k xs"] by simp

lemma select_rows_cases:
  obtains A C where "select_rows ids active n completed = A @ C" and "set A \<subseteq> set active" and "set C \<subseteq> set completed"
    and "distinct active \<longrightarrow> distinct A" and "distinct completed \<longrightarrow> distinct C" and "length A + length C \<le> 40"
    and "A = take 40 (sort_key (active_key ids) active)"
proof -
  let ?A = "take 40 (sort_key (active_key ids) active)"
  let ?C = "if length ?A < 40 then take (min n (40 - length ?A)) (sort_key completed_key completed) else []"
  have "select_rows ids active n completed = ?A @ ?C"
    by (simp add: select_rows_def Let_def max_wake_task_rows_def)
  moreover have "set ?C \<subseteq> set completed"
    using set_take_sort [of "min n (40 - length ?A)" completed_key completed] by auto
  ultimately show thesis
    by (rule that [OF _ set_take_sort]) auto
qed

lemma select_rows_selection:
  assumes d: "distinct tasks"
  shows "row_selection tasks (select_rows ids (filter p (filter (\<lambda>t. status_active (tt_status t)) tasks)) n
      (filter q (filter (\<lambda>t. tt_status t = TkCompleted) tasks)))"
    (is "row_selection tasks (select_rows ids ?active n ?completed)")
proof -
  obtain A C where r: "select_rows ids ?active n ?completed = A @ C"
    and a: "set A \<subseteq> set ?active" and c: "set C \<subseteq> set ?completed"
    and "distinct ?active \<longrightarrow> distinct A" "distinct ?completed \<longrightarrow> distinct C" and "length A + length C \<le> 40"
    and "A = take 40 (sort_key (active_key ids) ?active)"
    by (rule select_rows_cases [of ids ?active n ?completed])
  moreover have "set A \<inter> set C = {}" using a c by fastforce
  moreover have "set (A @ C) \<subseteq> set tasks" using a c by auto
  moreover have "\<forall>t \<in> set (A @ C). tt_status t \<noteq> TkDeleted" using a c by fastforce
  ultimately show ?thesis using d by (simp only: row_selection_def distinct_filter distinct_append length_append simp_thms)
qed

lemma select_summary_selection:
  assumes "distinct tasks"
  shows "row_selection tasks (select_summary_tasks agent tasks)"
  using select_rows_selection [OF assms, of _ _ _ "\<lambda>_. True"] select_rows_selection [OF assms, of _ "\<lambda>_. True" _ "\<lambda>_. True"]
    select_rows_selection [OF assms]
  unfolding select_summary_tasks_def select_leader_summary_tasks_def select_teammate_summary_tasks_def Let_def
  by (simp add: filter_True)

lemma distinct_tasks: "distinct (map tt_id tasks) \<Longrightarrow> distinct tasks"
  by (simp add: distinct_map)

lemma summary_rows_selection:
  assumes "distinct (map tt_id tasks)"
  shows "row_selection tasks (summary_rows agent tasks roster)"
proof -
  have "distinct (filter_summary_input roster tasks)"
    using distinct_tasks [OF assms] by (simp add: filter_summary_input_def Let_def)
  from select_summary_selection [OF this] show ?thesis
    unfolding summary_rows_def by (rule row_selection_mono) (auto simp: filter_summary_input_def Let_def)
qed

text \<open>The numbers in the head of the summary add up.\<close>

lemma shown_and_hidden:
  assumes d: "distinct (map tt_id tasks)" and s: "set rows \<subseteq> set tasks" "distinct rows"
  shows "count_tasks p rows + count_tasks (\<lambda>t. p t \<and> tt_id t \<notin> set (map tt_id rows)) tasks = count_tasks p tasks"
proof -
  have id: "tt_id t \<in> set (map tt_id rows) \<longleftrightarrow> t \<in> set rows" if "t \<in> set tasks" for t
    using d s(1) that by (auto simp: distinct_map dest: inj_onD)
  have "set (filter p rows) \<union> set (filter (\<lambda>t. p t \<and> tt_id t \<notin> set (map tt_id rows)) tasks) = set (filter p tasks)"
    using s(1) id by auto
  moreover have "set (filter p rows) \<inter> set (filter (\<lambda>t. p t \<and> tt_id t \<notin> set (map tt_id rows)) tasks) = {}"
    using id by auto
  moreover have "count_tasks q xs = card (set (filter q xs))" if "distinct xs" for q and xs :: "'a team_task list"
    using distinct_card [OF distinct_filter [OF that], of q] by (simp add: count_tasks_def)
  ultimately show ?thesis
    using distinct_tasks [OF d] s(2)
      card_Un_disjoint [of "set (filter p rows)" "set (filter (\<lambda>t. p t \<and> tt_id t \<notin> set (map tt_id rows)) tasks)"]
    by (simp only: finite_set)
qed

lemma count_statuses:
  "count_tasks (\<lambda>t. status_active (tt_status t)) xs + count_tasks (\<lambda>t. tt_status t = TkCompleted) xs
     + count_tasks (\<lambda>t. tt_status t = TkDeleted) xs = length xs"
proof (induction xs)
  case (Cons t xs)
  then show ?case by (cases "tt_status t") (simp_all add: count_tasks_def)
qed (simp add: count_tasks_def)

lemma summary_counts_add_up:
  assumes d: "distinct (map tt_id tasks)" and sel: "row_selection tasks rows"
  shows "sc_shown (summary_counts_of tasks rows) + sc_hidden_active (summary_counts_of tasks rows)
    + sc_hidden_completed (summary_counts_of tasks rows) + sc_hidden_deleted (summary_counts_of tasks rows) = length tasks"
proof -
  note sub = row_selectionD(1,2) [OF sel]
  have "count_tasks (\<lambda>t. tt_status t = TkDeleted) rows = 0"
    using row_selectionD(4) [OF sel] by (simp add: count_tasks_def filter_empty_conv)
  with count_statuses [of rows] count_statuses [of tasks] shown_and_hidden [OF d sub, of "\<lambda>t. status_active (tt_status t)"]
    shown_and_hidden [OF d sub, of "\<lambda>t. tt_status t = TkCompleted"]
  show ?thesis by (simp add: summary_counts_of_def)
qed

text \<open>The tasks of the woken member come first.\<close>

definition own_task :: "team_agent \<Rightarrow> 'm team_task \<Rightarrow> bool" where
  "own_task agent t \<longleftrightarrow> status_active (tt_status t) \<and> tt_owner t = Some (ag_slot_id agent)"

lemma own_tasks_first:
  assumes d: "distinct (map tt_id tasks)" and few: "count_tasks (own_task agent) tasks \<le> 40"
    and t: "t \<in> set tasks" "own_task agent t"
    and p: "\<And>x. x \<in> set tasks \<Longrightarrow> own_task agent x \<Longrightarrow> p x"
  shows "t \<in> set (select_rows (summary_ids_for agent tasks) (filter p (filter (\<lambda>t. status_active (tt_status t)) tasks)) n c)"
proof -
  let ?ids = "summary_ids_for agent tasks"
  let ?active = "filter p (filter (\<lambda>t. status_active (tt_status t)) tasks)"
  let ?a = "take 40 (sort_key (active_key ?ids) ?active)"
  have own: "tt_id x \<in> si_own ?ids \<longleftrightarrow> own_task agent x" if "x \<in> set tasks" for x
    using d that by (auto simp: summary_ids_for_def Let_def ids_where_def own_task_def distinct_map dest: inj_onD)
  have "t \<in> set ?active" using t p by (simp add: own_task_def)
  have "t \<in> set ?a"
  proof (rule ccontr)
    assume no: "t \<notin> set ?a"
    have "own_task agent y" if "y \<in> set ?a" for y
    proof -
      have y: "y \<in> set tasks" using that set_take_sort [of 40 "active_key ?ids" ?active] by auto
      have "active_key ?ids y \<le> active_key ?ids t" by (rule sorted_prefix [OF \<open>t \<in> set ?active\<close> no that])
      then have "active_rank ?ids y = 0" using own [OF t(1)] t(2) by (simp add: active_key_def active_rank_def)
      then show ?thesis using own [OF y] by (simp add: active_rank_def split: if_splits)
    qed
    then have "set ?a \<union> {t} \<subseteq> set (filter (own_task agent) tasks)"
      using t set_take_sort [of 40 "active_key ?ids" ?active] by auto
    then have "card (set ?a \<union> {t}) \<le> card (set (filter (own_task agent) tasks))" by (simp add: card_mono)
    moreover have "distinct ?a" using distinct_tasks [OF d] by (simp add: distinct_filter)
    then have "card (set ?a) = 40"
      using short_prefix [OF \<open>t \<in> set ?active\<close> no] distinct_card by metis
    moreover have "card (set (filter (own_task agent) tasks)) \<le> 40"
      using few distinct_card [OF distinct_filter [OF distinct_tasks [OF d]], of "own_task agent"]
      by (simp add: count_tasks_def)
    ultimately show False using no by simp
  qed
  moreover obtain A C where "select_rows ?ids ?active n c = A @ C" "A = ?a"
    by (rule select_rows_cases [of ?ids ?active n c])
  ultimately show ?thesis by (simp only: set_append Un_iff simp_thms)
qed

lemma summary_rows_own:
  assumes d: "distinct (map tt_id tasks)" and few: "count_tasks (own_task agent) tasks \<le> 40"
    and roster: "ag_slot_id agent \<in> set roster" and t: "t \<in> set tasks" "own_task agent t"
  shows "t \<in> set (summary_rows agent tasks roster)"
proof -
  let ?in = "filter_summary_input roster tasks"
  have "is_current_or_ownerless roster x" if "own_task agent x" for x :: "'a team_task"
    using that roster by (simp add: is_current_or_ownerless_def own_task_def)
  then have in': "x \<in> set ?in" if "x \<in> set tasks" "own_task agent x" for x
    using that by (simp add: filter_summary_input_def Let_def)
  have d': "distinct (map tt_id ?in)"
    using d by (simp add: filter_summary_input_def Let_def distinct_map_filter)
  have "count_tasks (own_task agent) ?in \<le> count_tasks (own_task agent) tasks"
    unfolding count_tasks_def distinct_card [OF distinct_filter [OF distinct_tasks [OF d]], symmetric]
      distinct_card [OF distinct_filter [OF distinct_tasks [OF d']], symmetric]
    by (rule card_mono) (auto simp: filter_summary_input_def Let_def)
  with few have few': "count_tasks (own_task agent) ?in \<le> 40" by simp
  have own: "tt_id x \<in> si_own (summary_ids_for agent ?in)" if "x \<in> set ?in" "own_task agent x" for x
    using that by (auto simp: summary_ids_for_def Let_def ids_where_def own_task_def)
  show ?thesis
    using own_tasks_first [OF d' few' in' [OF t] t(2), of "\<lambda>_. True"]
      own_tasks_first [OF d' few' in' [OF t] t(2), of "\<lambda>x. tt_id x \<in> si_own (summary_ids_for agent ?in)
        \<or> tt_id x \<in> si_blockers (summary_ids_for agent ?in) \<or> tt_id x \<in> si_blocked (summary_ids_for agent ?in)"] own
    by (simp add: summary_rows_def select_summary_tasks_def Let_def select_leader_summary_tasks_def
        select_teammate_summary_tasks_def filter_True del: filter_filter)
qed

text \<open>Two identifiers with the same first eight characters look the same in the table, as do those of two
  tasks created in the same minute: the first eight digits of a UUID of version 7 are a time in units of 65.5 s.\<close>

lemma short_task_id_collides: "take_chars 8 i = take_chars 8 j \<Longrightarrow> short_task_id i = short_task_id j"
  by (simp add: short_task_id_def)

end
