(* ===== verification/Team_Session.thy ===== *)
theory Team_Session
  imports Team_Scheduler Team_Projection Wake_Summary Member_Runtime Team_Run
begin

text \<open>
  \<open>aionui-team/src/session.rs\<close>: \<open>TeamSession\<close>, which puts the parts of a team together: the scheduler with the
  mailbox and the task board (\<open>sx_team\<close>), the work coordinator with the run manager (\<open>sx_work\<close>), the runtimes of
  the members, the conversations, and the registry of the event loops of \<open>event_loop.rs\<close>. An operation runs from
  its first to its last access without another one in between; where the code can be interrupted, its parts are
  operations too (\<open>commit_persisted\<close> after \<open>write_message\<close>, the three parts of a turn in \<open>Team_Loop\<close>).

  What the code generates or reads from the clock in a call is a \<open>mints\<close>. \<open>session_env\<close> has what does not
  change: the repositories, and as functions the answer of the cancellation port and the role prompt with the
  tool transport it depends on, which may fail. Calls of ports and broadcasts are the effects in \<open>sx_effects\<close>.
\<close>

section \<open>State\<close>

record event_loops =
  lp_notifiers :: "(string, bool) hmap"
  lp_stopped :: bool

record child_turn =
  ct_team_run_id :: string
  ct_slot_id :: string
  ct_role :: target_role
  ct_conversation_id :: string
  ct_turn_id :: string
  ct_status :: team_run_status

datatype child_turn_event = Ct_Started | Ct_Completed | Ct_Cancelled

datatype session_effect =
    Fx_Cancel_Turn string string string
  | Fx_Child_Turn child_turn_event child_turn
  | Fx_Kill string

record ('c, 'cdb, 'db) session =
  sx_team :: "'db team_state"
  sx_work :: "run_manager coordinator"
  sx_members :: member_registry
  sx_loops :: event_loops
  sx_conv :: "('c, 'cdb) projection_world"
  sx_recovery_scan_completed :: bool
  sx_effects :: "session_effect list"

record ('m, 'c, 'cdb, 'db) session_env =
  sv_user_id :: string
  sv_json :: "'m team_json"
  sv_repo :: "'db team_repo"
  sv_conv :: "('c, 'cdb) conv_repo"
  sv_projection_json :: "'c projection_json"
  sv_lower :: "string \<Rightarrow> string"
  sv_role_prompt :: "team_agent \<Rightarrow> team_agent list \<Rightarrow> team_error + string"
  sv_cancel :: "string \<Rightarrow> string \<Rightarrow> string \<Rightarrow> string + unit"

record mints =
  mt_row :: "string \<times> int"
  mt_bubble :: "string \<times> int"
  mt_lease :: string
  mt_run :: string
  mt_intent :: string
  mt_batch :: string
  mt_now :: timestamp_ms
  mt_clock :: clock
  mt_recovery :: "nat \<Rightarrow> string"
  mt_times :: "nat \<Rightarrow> timestamp_ms"

section \<open>Operations\<close>

text \<open>An operation gives a result or an error, with the new state; \<open>sbind\<close> is the operator \<open>?\<close>.\<close>

type_synonym ('s, 'a) sess = "'s \<Rightarrow> ((team_error + 'a) \<times> 's) rust"

definition sret :: "'a \<Rightarrow> ('s, 'a) sess" where
  "sret x s = Ret (Inr x, s)"

definition sfail :: "team_error \<Rightarrow> ('s, 'a) sess" where
  "sfail e s = Ret (Inl e, s)"

definition sbind :: "('s, 'a) sess \<Rightarrow> ('a \<Rightarrow> ('s, 'b) sess) \<Rightarrow> ('s, 'b) sess" where
  "sbind m f s = bind_rust (m s) (\<lambda>(r, s'). case r of Inl e \<Rightarrow> Ret (Inl e, s') | Inr x \<Rightarrow> f x s')"

text \<open>\<open>Err(error) => { handler; return Err(error) }\<close> and \<open>let _ = \<dots>\<close>.\<close>

definition on_error :: "('s, 'a) sess \<Rightarrow> ('s, 'b) sess \<Rightarrow> ('s, 'a) sess" where
  "on_error m h s = bind_rust (m s) (\<lambda>(r, s'). case r of
     Inl e \<Rightarrow> bind_rust (h s') (\<lambda>(_, s''). Ret (Inl e, s''))
   | Inr x \<Rightarrow> Ret (Inr x, s'))"

definition attempt :: "('s, 'a) sess \<Rightarrow> ('s, team_error + 'a) sess" where
  "attempt m s = bind_rust (m s) (\<lambda>(r, s'). Ret (Inr r, s'))"

definition sread :: "('s \<Rightarrow> team_error + 'a) \<Rightarrow> ('s, 'a) sess" where
  "sread f s = Ret (f s, s)"

definition on_team ::
  "('db team_state \<Rightarrow> (team_error + 'a) \<times> 'db team_state) \<Rightarrow> (('c, 'cdb, 'db) session, 'a) sess" where
  "on_team f s = (case f (sx_team s) of (r, te) \<Rightarrow> Ret (r, s\<lparr>sx_team := te\<rparr>))"

definition on_work ::
  "(run_manager coordinator \<Rightarrow> ((team_error + 'a) \<times> run_manager coordinator) rust)
   \<Rightarrow> (('c, 'cdb, 'db) session, 'a) sess" where
  "on_work f s = bind_rust (f (sx_work s)) (\<lambda>(r, c). Ret (r, s\<lparr>sx_work := c\<rparr>))"

text \<open>Operations of the coordinator that do not fail.\<close>

definition infallible :: "('c \<Rightarrow> ('a \<times> 'c) rust) \<Rightarrow> 'c \<Rightarrow> ((team_error + 'a) \<times> 'c) rust" where
  "infallible f c = bind_rust (f c) (\<lambda>(x, c'). Ret (Inr x, c'))"

definition on_members ::
  "(member_registry \<Rightarrow> 'a \<times> member_registry) \<Rightarrow> (('c, 'cdb, 'db) session, 'a) sess" where
  "on_members f s = (case f (sx_members s) of (x, r) \<Rightarrow> Ret (Inr x, s\<lparr>sx_members := r\<rparr>))"

definition emit_effect :: "session_effect \<Rightarrow> (('c, 'cdb, 'db) session, unit) sess" where
  "emit_effect e s = Ret (Inr (), s\<lparr>sx_effects := sx_effects s @ [e]\<rparr>)"

definition port :: "mints \<Rightarrow> run_manager run_causality_port" where
  "port M = manager_port (mt_run M) (mt_clock M)"

definition session_team_id :: "('c, 'cdb, 'db) session \<Rightarrow> string" where
  "session_team_id s = tg_team_id (te_manager (sx_team s))"

section \<open>Event loops\<close>

definition loops_has :: "string \<Rightarrow> event_loops \<Rightarrow> bool" where
  "loops_has i l = (map_of (lp_notifiers l) i \<noteq> None)"

text \<open>\<open>notify_one\<close> leaves a permit for the loop.\<close>

definition loops_notify :: "string \<Rightarrow> event_loops \<Rightarrow> event_loops" where
  "loops_notify i l = l\<lparr>lp_notifiers := hm_modify i (\<lambda>_. True) (lp_notifiers l)\<rparr>"

datatype registration_error = Reg_Duplicate | Reg_Stopped

definition loops_spawn :: "string \<Rightarrow> event_loops \<Rightarrow> (registration_error + unit) \<times> event_loops" where
  "loops_spawn i l =
     (if lp_stopped l then (Inl Reg_Stopped, l)
      else if loops_has i l then (Inl Reg_Duplicate, l)
      else (Inr (), l\<lparr>lp_notifiers := hm_insert i False (lp_notifiers l)\<rparr>))"

definition loops_remove :: "string \<Rightarrow> event_loops \<Rightarrow> event_loops" where
  "loops_remove i l = l\<lparr>lp_notifiers := hm_remove i (lp_notifiers l)\<rparr>"

definition loops_shutdown :: "event_loops \<Rightarrow> event_loops" where
  "loops_shutdown l = (if lp_stopped l then l else l\<lparr>lp_stopped := True, lp_notifiers := []\<rparr>)"

definition on_loops :: "(event_loops \<Rightarrow> event_loops) \<Rightarrow> (('c, 'cdb, 'db) session, unit) sess" where
  "on_loops f s = Ret (Inr (), s\<lparr>sx_loops := f (sx_loops s)\<rparr>)"

section \<open>Shared steps\<close>

fun constraint_of :: "bool \<Rightarrow> runtime_snapshot \<Rightarrow> runtime_constraint" where
  "constraint_of has_loop Ms_Absent = (if has_loop then RcReady else RcStarting 0)"
| "constraint_of has_loop (Ms_Attaching n) = RcStarting n"
| "constraint_of has_loop Ms_Ready = RcReady"
| "constraint_of has_loop (Ms_Failed n f) = RcFailed n (rf_classification f)"
| "constraint_of has_loop (Ms_Removing n) = RcRemoving n"
| "constraint_of has_loop Ms_Session_Stopped = RcSessionStopped"

definition session_constraint :: "string \<Rightarrow> ('c, 'cdb, 'db) session \<Rightarrow> runtime_constraint" where
  "session_constraint i s = constraint_of (loops_has i (sx_loops s)) (runtime_snapshot_of i (sx_members s))"

definition mark_read ::
  "('m, 'c, 'cdb, 'db) session_env \<Rightarrow> string list \<Rightarrow> (('c, 'cdb, 'db) session, unit) sess" where
  "mark_read V ids = on_team (write_db (mailbox_mark_read (sv_repo V) ids))"

definition mark_terminal ::
  "('m, 'c, 'cdb, 'db) session_env \<Rightarrow> string list \<Rightarrow> (('c, 'cdb, 'db) session, unit) sess" where
  "mark_terminal V ids = (if ids = [] then sret () else mark_read V ids)"

definition publish_runtime_constraint ::
  "('m, 'c, 'cdb, 'db) session_env \<Rightarrow> mints \<Rightarrow> string \<Rightarrow> (('c, 'cdb, 'db) session, unit) sess" where
  "publish_runtime_constraint V M i s =
     sbind (on_work (infallible (set_runtime_constraint (port M) i (session_constraint i s))))
       (\<lambda>update. mark_terminal V (rcu_terminal_message_ids update)) s"

definition agent_of :: "string \<Rightarrow> (('c, 'cdb, 'db) session, team_agent) sess" where
  "agent_of i = sread (\<lambda>s. get_agent i (sx_team s))"

definition members_of :: "(('c, 'cdb, 'db) session, team_agent list) sess" where
  "members_of = sread (\<lambda>s. Inr (list_agents (sx_team s)))"

definition write_message ::
  "('m, 'c, 'cdb, 'db) session_env \<Rightarrow> mints \<Rightarrow> string \<Rightarrow> string \<Rightarrow> message_kind \<Rightarrow> string \<Rightarrow> string option
   \<Rightarrow> string list option \<Rightarrow> (('c, 'cdb, 'db) session, mailbox_message) sess" where
  "write_message V M to from kind content summary files =
     on_team (write_to (sv_json V) (sv_repo V) (mt_row M) to from kind content summary files)"

definition unread_of ::
  "('m, 'c, 'cdb, 'db) session_env \<Rightarrow> string \<Rightarrow> (('c, 'cdb, 'db) session, mailbox_message list) sess" where
  "unread_of V i = sread (\<lambda>s. mailbox_peek_unread (sv_json V) (sv_repo V) (session_team_id s) i (te_db (sx_team s)))"

text \<open>A failed projection is logged.\<close>

definition project_bubble ::
  "('m, 'c, 'cdb, 'db) session_env \<Rightarrow> string \<times> int \<Rightarrow> projection_request \<Rightarrow> (('c, 'cdb, 'db) session, unit) sess" where
  "project_bubble V b q s =
     (case project (sv_conv V) (sv_projection_json V) (fst b) (snd b) q (sx_conv s) of
        (_, w) \<Rightarrow> Ret (Inr (), s\<lparr>sx_conv := w\<rparr>))"

section \<open>Preparing a batch\<close>

record wake_input =
  wn_conversation_id :: string
  wn_first_message :: string
  wn_unread :: "mailbox_message list"
  wn_agent_role :: teammate_role

datatype prepare_result =
    Pb_Execute work_batch wake_input
  | Pb_Settle_Signals "string list"
  | Pb_Waiting_For_Completion
  | Pb_Blocked
  | Pb_Quiescent

definition prepare_claimed ::
  "('m, 'c, 'cdb, 'db) session_env \<Rightarrow> mints \<Rightarrow> team_agent \<Rightarrow> string \<Rightarrow> mailbox_message list \<Rightarrow> work_batch
   \<Rightarrow> (('c, 'cdb, 'db) session, prepare_result) sess" where
  "prepare_claimed V M agent i unread batch =
     (let claimed = filter (\<lambda>m. mm_id m \<in> set (wb_mailbox_message_ids batch)) unread;
          execute = (\<lambda>message. Pb_Execute batch \<lparr>wn_conversation_id = ag_conversation_id agent,
            wn_first_message = message, wn_unread = claimed, wn_agent_role = ag_role agent\<rparr>)
      in sbind (on_error (sread (\<lambda>s. manager_list_tasks (sv_json V) (sv_repo V) (sx_team s)))
             (on_work (infallible (retry_start (port M) batch)))) (\<lambda>tasks.
         sbind members_of (\<lambda>members.
         let body = wake_text agent tasks claimed (map ag_slot_id members) in
         sbind (on_team (\<lambda>te. apfst Inr (take_needs_role_prompt i te))) (\<lambda>needs_role_prompt.
           if needs_role_prompt
           then sbind (sread (\<lambda>s. sv_role_prompt V agent (list_agents (sx_team s)))) (\<lambda>role_prompt.
             sret (execute (role_prompt @ newline @ newline @ body)))
           else sret (execute body)))))"

definition prepare_next_batch ::
  "('m, 'c, 'cdb, 'db) session_env \<Rightarrow> mints \<Rightarrow> string \<Rightarrow> (('c, 'cdb, 'db) session, prepare_result) sess" where
  "prepare_next_batch V M i =
     sbind (agent_of i) (\<lambda>agent.
     sbind (publish_runtime_constraint V M i) (\<lambda>_.
     sbind (unread_of V i) (\<lambda>all_unread.
     let unread = filter (\<lambda>m. mm_from_agent_id m \<noteq> i) all_unread in
     sbind (on_work (infallible (reconcile_mailbox (mt_recovery M) (mt_times M) i (map mm_id unread)
         (target_role_for (ag_role agent))))) (\<lambda>_.
     sbind (on_work (infallible (next_work (port M) (mt_batch M) i))) (\<lambda>decision. case decision of
         Claim batch \<Rightarrow> prepare_claimed V M agent i unread batch
       | SettleSignals ids \<Rightarrow> sret (Pb_Settle_Signals ids)
       | WaitingForCompletion \<Rightarrow> sret Pb_Waiting_For_Completion
       | Blocked _ \<Rightarrow> sret Pb_Blocked
       | Quiescent \<Rightarrow> sret Pb_Quiescent)))))"

definition handle_signal_intents ::
  "mints \<Rightarrow> string \<Rightarrow> string list \<Rightarrow> (('c, 'cdb, 'db) session, commit_result) sess" where
  "handle_signal_intents M i ids = on_work (\<lambda>c. case complete_signals (port M) i ids c of (r, c') \<Rightarrow> Ret (Inr r, c'))"

section \<open>Enqueueing\<close>

definition acquire ::
  "mints \<Rightarrow> string \<Rightarrow> target_role \<Rightarrow> work_source \<Rightarrow> causal_binding \<Rightarrow> (('c, 'cdb, 'db) session, enqueue_lease) sess" where
  "acquire M i role source binding = on_work (\<lambda>c. Ret (acquire_enqueue (port M) (mt_lease M)
     \<lparr>er_slot_id = i, er_role = role, er_source = source, er_binding = binding\<rparr> c))"

definition abort :: "mints \<Rightarrow> enqueue_lease \<Rightarrow> (('c, 'cdb, 'db) session, commit_result) sess" where
  "abort M lease = on_work (\<lambda>c. case abort_enqueue (port M) lease c of (r, c') \<Rightarrow> Ret (Inr r, c'))"

definition commit_lease ::
  "mints \<Rightarrow> enqueue_lease \<Rightarrow> string option \<Rightarrow> (('c, 'cdb, 'db) session, enqueue_commit) sess" where
  "commit_lease M lease message = on_work (commit_enqueue (port M) (mt_intent M) (mt_now M) lease message)"

definition commit_persisted ::
  "('m, 'c, 'cdb, 'db) session_env \<Rightarrow> mints \<Rightarrow> enqueue_lease \<Rightarrow> string \<Rightarrow> (('c, 'cdb, 'db) session, enqueue_commit) sess" where
  "commit_persisted V M lease message =
     on_error (commit_lease M lease (Some message))
       (sbind (abort M lease) (\<lambda>_. attempt (mark_read V [message])))"

record team_run_ack =
  ak_enqueue_status :: enqueue_disposition
  ak_message_id :: string
  ak_run :: team_run_payload

definition run_payload :: "mints \<Rightarrow> (('c, 'cdb, 'db) session, team_run_payload) sess" where
  "run_payload M = sread (\<lambda>s. ok_or (InvalidRequest ''user-visible enqueue lost its team run'')
     (current_payload (mt_clock M) (snapshot (sx_work s)) (co_run_causality (sx_work s))))"

definition enqueue_user_message ::
  "('m, 'c, 'cdb, 'db) session_env \<Rightarrow> mints \<Rightarrow> string \<Rightarrow> target_role \<Rightarrow> string \<Rightarrow> string list option
   \<Rightarrow> (('c, 'cdb, 'db) session, team_run_ack) sess" where
  "enqueue_user_message V M i role content files =
     sbind (publish_runtime_constraint V M i) (\<lambda>_.
     sbind (agent_of i) (\<lambda>agent.
     sbind (sread (\<lambda>s. Inr (if current_active_run_id (co_run_causality (sx_work s)) \<noteq> None
         then UserIntervention else UserMessage))) (\<lambda>source.
     sbind (acquire M i role source UserVisible) (\<lambda>lease.
     sbind (on_error (write_message V M i ''user'' MtMessage content None files) (abort M lease)) (\<lambda>message.
     sbind (\<lambda>s. project_bubble V (mt_bubble M) (user_visible (session_team_id s) i (ag_conversation_id agent) content
         (case files of None \<Rightarrow> [] | Some f \<Rightarrow> f)) s) (\<lambda>_.
     sbind (commit_persisted V M lease (mm_id message)) (\<lambda>commit.
     sbind (on_loops (loops_notify i)) (\<lambda>_.
     sbind (run_payload M) (\<lambda>run.
       sret \<lparr>ak_enqueue_status = ec_disposition commit, ak_message_id = mm_id message, ak_run = run\<rparr>)))))))))"

definition send_message ::
  "('m, 'c, 'cdb, 'db) session_env \<Rightarrow> mints \<Rightarrow> string \<Rightarrow> string list option \<Rightarrow> (('c, 'cdb, 'db) session, team_run_ack) sess" where
  "send_message V M content files =
     sbind (sread (\<lambda>s. ok_or (AgentNotFound ''no lead agent in team'') (find_lead_slot_id (sx_team s)))) (\<lambda>lead.
       enqueue_user_message V M lead RoleLead content files)"

definition send_message_to_agent ::
  "('m, 'c, 'cdb, 'db) session_env \<Rightarrow> mints \<Rightarrow> string \<Rightarrow> string \<Rightarrow> string list option
   \<Rightarrow> (('c, 'cdb, 'db) session, team_run_ack) sess" where
  "send_message_to_agent V M i content files =
     sbind (agent_of i) (\<lambda>agent. enqueue_user_message V M i (target_role_for (ag_role agent)) content files)"

definition teammate_request ::
  "string \<Rightarrow> string \<Rightarrow> string \<Rightarrow> projection_source \<Rightarrow> string \<Rightarrow> string list \<Rightarrow> string \<Rightarrow> projection_request" where
  "teammate_request team i conv source content files message =
     \<lparr>pq_team_id = team, pq_slot_id = i, pq_conversation_id = conv, pq_source = source, pq_content = content,
      pq_files = files, pq_visibility = teammate_message_policy,
      pq_dedupe_key = Some (teammate_dedupe_key team message conv)\<rparr>"

record queue_result =
  qr_team_run_id :: "string option"
  qr_target :: team_slot_work_payload

definition send_agent_message_from_agent ::
  "('m, 'c, 'cdb, 'db) session_env \<Rightarrow> mints \<Rightarrow> string \<Rightarrow> string \<Rightarrow> string \<Rightarrow> string list option
   \<Rightarrow> (('c, 'cdb, 'db) session, queue_result) sess" where
  "send_agent_message_from_agent V M from to content files =
     sbind (agent_of to) (\<lambda>to_agent.
     sbind (agent_of from) (\<lambda>from_agent.
     sbind (publish_runtime_constraint V M to) (\<lambda>_.
     sbind (acquire M to (target_role_for (ag_role to_agent)) McpSendMessage (InheritRunningBatch from)) (\<lambda>lease.
     sbind (on_error (write_message V M to from MtMessage content None files) (abort M lease)) (\<lambda>message.
     sbind (\<lambda>s. project_bubble V (mt_bubble M) (teammate_request (session_team_id s) to (ag_conversation_id to_agent)
         (Src_Teammate from (ag_name from_agent) (Some (ag_backend from_agent)) (Some (ag_conversation_id from_agent)))
         content (case files of None \<Rightarrow> [] | Some f \<Rightarrow> f) (mm_id message)) s) (\<lambda>_.
     sbind (commit_persisted V M lease (mm_id message)) (\<lambda>commit.
     sbind (on_loops (loops_notify to)) (\<lambda>_.
       sret \<lparr>qr_team_run_id = ec_team_run_id commit, qr_target = slot_payload (mt_clock M 0) (ec_slot commit)\<rparr>))))))))"

definition shutdown_agent ::
  "('m, 'c, 'cdb, 'db) session_env \<Rightarrow> mints \<Rightarrow> string \<Rightarrow> string \<Rightarrow> string option
   \<Rightarrow> (('c, 'cdb, 'db) session, unit) sess" where
  "shutdown_agent V M caller target reason =
     sbind (agent_of caller) (\<lambda>caller_agent.
     if ag_role caller_agent \<noteq> Lead then sfail (LeaderOnly ''team_shutdown_agent'') else
     sbind (agent_of target) (\<lambda>target_agent.
     if ag_role target_agent = Lead then sfail (InvalidRequest ''cannot shutdown the team lead'') else
     sbind (publish_runtime_constraint V M target) (\<lambda>_.
     sbind (acquire M target (target_role_for (ag_role target_agent)) McpShutdownRequest (InheritRunningBatch caller)) (\<lambda>lease.
     sbind (on_error (on_team (request_shutdown_agent (sv_json V) (sv_repo V) (\<lambda>_. mt_row M) caller target reason))
         (abort M lease)) (\<lambda>message.
     if mm_to_agent_id message \<noteq> target
     then sbind (abort M lease) (\<lambda>_. sfail (InvalidRequest (''shutdown mailbox target mismatch: expected '' @ target
         @ '', got '' @ mm_to_agent_id message)))
     else
     sbind (commit_persisted V M lease (mm_id message)) (\<lambda>_.
       on_loops (loops_notify target)))))))"

definition enqueue_existing_work ::
  "('m, 'c, 'cdb, 'db) session_env \<Rightarrow> mints \<Rightarrow> string \<Rightarrow> work_source \<Rightarrow> string option \<Rightarrow> causal_binding
   \<Rightarrow> (('c, 'cdb, 'db) session, string option) sess" where
  "enqueue_existing_work V M i source message binding =
     sbind (agent_of i) (\<lambda>agent.
     sbind (publish_runtime_constraint V M i) (\<lambda>_.
     sbind (acquire M i (target_role_for (ag_role agent)) source binding) (\<lambda>lease.
     sbind (case message of
         Some m \<Rightarrow> commit_persisted V M lease m
       | None \<Rightarrow> on_error (commit_lease M lease None) (abort M lease)) (\<lambda>commit.
     sbind (on_loops (loops_notify i)) (\<lambda>_. sret (ec_team_run_id commit))))))"

definition enqueue_leader_settle_signal ::
  "('m, 'c, 'cdb, 'db) session_env \<Rightarrow> mints \<Rightarrow> string \<Rightarrow> work_source \<Rightarrow> (('c, 'cdb, 'db) session, unit) sess" where
  "enqueue_leader_settle_signal V M i source =
     sbind (enqueue_existing_work V M i source None ActiveRunOrBackground) (\<lambda>_. sret ())"

section \<open>Recovery\<close>

text \<open>\<open>Ms j k\<close> is for the k-th message of the j-th member.\<close>

fun recover_messages ::
  "('m, 'c, 'cdb, 'db) session_env \<Rightarrow> (nat \<Rightarrow> mints) \<Rightarrow> string \<Rightarrow> string list \<Rightarrow> (('c, 'cdb, 'db) session, unit) sess" where
  "recover_messages V Ms i [] = sret ()"
| "recover_messages V Ms i (m # ms) =
     sbind (enqueue_existing_work V (Ms 0) i RecoveryDrain (Some m) BackgroundBinding) (\<lambda>_.
       recover_messages V (\<lambda>k. Ms (Suc k)) i ms)"

fun recover_members ::
  "('m, 'c, 'cdb, 'db) session_env \<Rightarrow> (nat \<Rightarrow> nat \<Rightarrow> mints) \<Rightarrow> team_agent list \<Rightarrow> (('c, 'cdb, 'db) session, string list) sess" where
  "recover_members V Ms [] = sret []"
| "recover_members V Ms (a # as) =
     sbind (unread_of V (ag_slot_id a)) (\<lambda>all_unread.
     let unread = filter (\<lambda>m. mm_from_agent_id m \<noteq> ag_slot_id a) all_unread in
     sbind (recover_messages V (Ms 0) (ag_slot_id a) (map mm_id unread)) (\<lambda>_.
     sbind (recover_members V (\<lambda>j. Ms (Suc j)) as) (\<lambda>rest.
       sret (if unread = [] then rest else ag_slot_id a # rest))))"

definition try_start_recovery_drain ::
  "('m, 'c, 'cdb, 'db) session_env \<Rightarrow> (nat \<Rightarrow> nat \<Rightarrow> mints) \<Rightarrow> (('c, 'cdb, 'db) session, string list) sess" where
  "try_start_recovery_drain V Ms s =
     (if sx_recovery_scan_completed s then sret [] s
      else sbind members_of (recover_members V Ms) (s\<lparr>sx_recovery_scan_completed := True\<rparr>))"

text \<open>The \<open>k\<close>-th message of the wake input has the \<open>k\<close>-th generated identifier.\<close>

definition mirror_request :: "team_agent list \<Rightarrow> nat \<Rightarrow> string \<Rightarrow> string \<Rightarrow> mailbox_message \<Rightarrow> projection_request" where
  "mirror_request agents total_count team conv m =
     (let sender = find (\<lambda>a. ag_slot_id a = mm_from_agent_id m) agents;
          name = (case sender of None \<Rightarrow> mm_from_agent_id m | Some a \<Rightarrow> ag_name a)
      in teammate_request team (mm_to_agent_id m) conv
           (Src_Teammate (mm_from_agent_id m) name (map_option ag_backend sender) (map_option ag_conversation_id sender))
           (if 1 < total_count then ''['' @ name @ ''] '' @ mm_content m else mm_content m)
           (case mm_files m of None \<Rightarrow> [] | Some f \<Rightarrow> f) (mm_id m))"

fun mirror_messages ::
  "('m, 'c, 'cdb, 'db) session_env \<Rightarrow> (nat \<Rightarrow> string \<times> int) \<Rightarrow> team_agent list \<Rightarrow> nat \<Rightarrow> string \<Rightarrow> mailbox_message list
   \<Rightarrow> (('c, 'cdb, 'db) session, unit) sess" where
  "mirror_messages V bs agents n conv [] = sret ()"
| "mirror_messages V bs agents n conv (m # ms) =
     sbind (if mm_from_agent_id m = ''user'' \<or> mm_msg_type m = MtIdleNotification then sret ()
       else (\<lambda>s. project_bubble V (bs 0) (mirror_request agents n (session_team_id s) conv m) s)) (\<lambda>_.
     mirror_messages V (\<lambda>k. bs (Suc k)) agents n conv ms)"

definition mirror_unread_to_conversation ::
  "('m, 'c, 'cdb, 'db) session_env \<Rightarrow> (nat \<Rightarrow> string \<times> int) \<Rightarrow> wake_input \<Rightarrow> (('c, 'cdb, 'db) session, unit) sess" where
  "mirror_unread_to_conversation V bs input =
     (if wn_unread input = [] then sret ()
      else sbind members_of (\<lambda>agents.
        mirror_messages V bs agents (length (wn_unread input)) (wn_conversation_id input) (wn_unread input)))"

end
