(* ===== verification/Team_Control.thy ===== *)
theory Team_Control
  imports Team_Session
begin

text \<open>
  The rest of \<open>session.rs\<close>: cancelling and pausing, the notices to the lead, the membership of a team, the end of
  a session; and \<open>event_loop.rs\<close>: one round of an event loop is \<open>prepare_next_batch\<close> and, for a batch, the three
  parts of \<open>execute_and_finalize\<close>, between which others run: \<open>begin_agent_turn\<close>, the callback \<open>turn_started\<close>, and
  \<open>end_turn\<close> with the outcome of the turn port. \<open>mt_row\<close> of \<open>Ms k\<close> is for the k-th row that a call writes.
\<close>

section \<open>Notices to the lead\<close>

definition wake_leader_after_recovery_message ::
  "('m, 'c, 'cdb, 'db) session_env \<Rightarrow> mints \<Rightarrow> string \<Rightarrow> work_source \<Rightarrow> (('c, 'cdb, 'db) session, unit) sess" where
  "wake_leader_after_recovery_message V M source_slot source =
     sbind (sread (\<lambda>s. ok_or (AgentNotFound ''lead'') (find_lead_slot_id (sx_team s)))) (\<lambda>lead.
     sbind (unread_of V lead) (\<lambda>unread.
     case find (\<lambda>m. mm_from_agent_id m = source_slot) (rev unread) of
       None \<Rightarrow> sret ()
     | Some m \<Rightarrow> sbind (enqueue_existing_work V M lead source (Some (mm_id m)) (InheritRunningBatch source_slot))
         (\<lambda>_. sret ())))"

definition notify_leader_child_interrupted ::
  "('m, 'c, 'cdb, 'db) session_env \<Rightarrow> mints \<Rightarrow> string \<Rightarrow> string option \<Rightarrow> (('c, 'cdb, 'db) session, unit) sess" where
  "notify_leader_child_interrupted V M i reason =
     sbind (sread (\<lambda>s. Inr (find_lead_slot_id (sx_team s)))) (\<lambda>lead. case lead of
       None \<Rightarrow> sret ()
     | Some l \<Rightarrow>
        sbind (write_message V M l i MtIdleNotification
          (case reason of Some r \<Rightarrow> r | None \<Rightarrow> ''Agent '' @ i @ '' was interrupted by the user.'')
          (Some ''Interrupted by user'') None) (\<lambda>_.
        wake_leader_after_recovery_message V M i InterruptedNotification))"

definition notify_leader_spawn_attach_failed ::
  "('m, 'c, 'cdb, 'db) session_env \<Rightarrow> mints \<Rightarrow> string \<Rightarrow> string \<Rightarrow> (('c, 'cdb, 'db) session, unit) sess" where
  "notify_leader_spawn_attach_failed V M i error =
     sbind (sread (\<lambda>s. ok_or (AgentNotFound ''lead'') (find_lead_slot_id (sx_team s)))) (\<lambda>l.
     sbind (write_message V M l i MtMessage
       (''Spawned teammate '' @ i @ '' failed to attach its runtime. Error: '' @ error) None None) (\<lambda>_.
     wake_leader_after_recovery_message V M i SpawnAttachFailure))"

section \<open>Cancelling and pausing\<close>

definition ask_cancel ::
  "('m, 'c, 'cdb, 'db) session_env \<Rightarrow> string \<Rightarrow> string \<Rightarrow> (('c, 'cdb, 'db) session, unit) sess" where
  "ask_cancel V conv turn =
     sbind (emit_effect (Fx_Cancel_Turn (sv_user_id V) conv turn)) (\<lambda>_.
     sread (\<lambda>_. map_err InvalidRequest (sv_cancel V (sv_user_id V) conv turn)))"

definition broadcast_child_turn ::
  "child_turn_event \<Rightarrow> team_run_status \<Rightarrow> string \<Rightarrow> string \<Rightarrow> target_role \<Rightarrow> string \<Rightarrow> string
   \<Rightarrow> (('c, 'cdb, 'db) session, unit) sess" where
  "broadcast_child_turn e status run i role conv turn =
     emit_effect (Fx_Child_Turn e \<lparr>ct_team_run_id = run, ct_slot_id = i, ct_role = role, ct_conversation_id = conv,
       ct_turn_id = turn, ct_status = status\<rparr>)"

fun cancel_targets ::
  "('m, 'c, 'cdb, 'db) session_env \<Rightarrow> string \<Rightarrow> batch_cancel_target list \<Rightarrow> (('c, 'cdb, 'db) session, unit) sess" where
  "cancel_targets V run [] = sret ()"
| "cancel_targets V run (t # ts) =
     sbind (case bc_turn_id t of
         None \<Rightarrow> sret ()
       | Some turn \<Rightarrow>
          sbind (agent_of (wb_slot_id (bc_batch t))) (\<lambda>agent.
          sbind (attempt (ask_cancel V (ag_conversation_id agent) turn)) (\<lambda>_.
          broadcast_child_turn Ct_Cancelled RunCancelled run (wb_slot_id (bc_batch t)) (target_role_for (ag_role agent))
            (ag_conversation_id agent) turn))) (\<lambda>_.
     cancel_targets V run ts)"

definition require_active_run :: "string \<Rightarrow> (('c, 'cdb, 'db) session, unit) sess" where
  "require_active_run run = sread (\<lambda>s.
     if current_active_run_id (co_run_causality (sx_work s)) \<noteq> Some run
     then Inl (InvalidRequest (''team run '' @ run @ '' is not active'')) else Inr ())"

definition cancel_team_run ::
  "('m, 'c, 'cdb, 'db) session_env \<Rightarrow> mints \<Rightarrow> string \<Rightarrow> string option \<Rightarrow> (('c, 'cdb, 'db) session, unit) sess" where
  "cancel_team_run V M run reason =
     sbind (require_active_run run) (\<lambda>_.
     sbind (on_work (\<lambda>c. case begin_cancel (mt_clock M) run reason (co_run_causality c) of
       (r, m) \<Rightarrow> Ret (r, c\<lparr>co_run_causality := m\<rparr>))) (\<lambda>_.
     sbind (on_work (infallible (cancel_run (port M) run))) (\<lambda>result.
     sbind (mark_terminal V (cr_terminal_message_ids result)) (\<lambda>_.
     cancel_targets V run (cr_cancel_targets result)))))"

definition cancel_batch_of ::
  "mints \<Rightarrow> work_batch \<Rightarrow> string \<Rightarrow> (('c, 'cdb, 'db) session, commit_result) sess" where
  "cancel_batch_of M b cls = on_work (infallible (cancel_batch (port M) b cls))"

definition cancel_child_turn ::
  "('m, 'c, 'cdb, 'db) session_env \<Rightarrow> mints \<Rightarrow> string \<Rightarrow> string \<Rightarrow> string option \<Rightarrow> (('c, 'cdb, 'db) session, unit) sess" where
  "cancel_child_turn V M run i reason =
     sbind (sread (\<lambda>s. ok_or (AgentNotFound i) (slot_snapshot i (sx_work s)))) (\<lambda>snap.
     sbind (sread (\<lambda>_. ok_or (InvalidRequest (''slot has no active batch: '' @ i)) (sw_active_batch snap))) (\<lambda>batch.
     if run \<notin> set (wb_team_run_ids batch)
     then sfail (InvalidRequest (''agent '' @ i @ '' is not active in team run '' @ run))
     else sbind (case sw_active_turn_id snap of
            None \<Rightarrow> sret ()
          | Some turn \<Rightarrow>
             sbind (agent_of i) (\<lambda>agent.
             sbind (ask_cancel V (ag_conversation_id agent) turn) (\<lambda>_.
             broadcast_child_turn Ct_Cancelled RunCancelled run i (sw_role snap) (ag_conversation_id agent) turn))) (\<lambda>_.
          sbind (cancel_batch_of M batch ''child_cancelled'') (\<lambda>_.
          if sw_role snap = RoleTeammate then notify_leader_child_interrupted V M i reason else sret ()))))"

definition interrupt_batch ::
  "('m, 'c, 'cdb, 'db) session_env \<Rightarrow> mints \<Rightarrow> string \<Rightarrow> string \<Rightarrow> target_role \<Rightarrow> string option \<Rightarrow> batch_cancel_target
   \<Rightarrow> (('c, 'cdb, 'db) session, unit) sess" where
  "interrupt_batch V M run i role reason t =
     sbind (case bc_turn_id t of
         None \<Rightarrow> sret ()
       | Some turn \<Rightarrow>
          sbind (agent_of i) (\<lambda>agent.
          sbind (ask_cancel V (ag_conversation_id agent) turn) (\<lambda>_.
          broadcast_child_turn Ct_Cancelled RunCancelled run i role (ag_conversation_id agent) turn))) (\<lambda>_.
     sbind (cancel_batch_of M (bc_batch t) ''slot_paused'') (\<lambda>_.
     if role = RoleTeammate then notify_leader_child_interrupted V M i reason else sret ()))"

definition pause_slot_work ::
  "('m, 'c, 'cdb, 'db) session_env \<Rightarrow> mints \<Rightarrow> string \<Rightarrow> string \<Rightarrow> string option \<Rightarrow> (('c, 'cdb, 'db) session, unit) sess" where
  "pause_slot_work V M run i reason =
     sbind (require_active_run run) (\<lambda>_.
     sbind (on_work (infallible (pause_slot i))) (\<lambda>outcome. case pw_cancel_target outcome of
       None \<Rightarrow> sret ()
     | Some t \<Rightarrow> interrupt_batch V M run i (sw_role (pw_slot outcome)) reason t))"

section \<open>Membership\<close>

definition session_add_agent :: "team_agent \<Rightarrow> (('c, 'cdb, 'db) session, unit) sess" where
  "session_add_agent a = on_team (\<lambda>te. (Inr (), add_agent a te))"

definition reserve_dynamic_member_attach :: "team_agent \<Rightarrow> (('c, 'cdb, 'db) session, reserve_attach) sess" where
  "reserve_dynamic_member_attach a = on_members (reserve_attach_for (ag_slot_id a) False)"

definition project_team_system_message ::
  "('m, 'c, 'cdb, 'db) session_env \<Rightarrow> mints \<Rightarrow> string \<Rightarrow> string \<Rightarrow> string \<Rightarrow> string \<Rightarrow> (('c, 'cdb, 'db) session, unit) sess" where
  "project_team_system_message V M i conv message content s =
     project_bubble V (mt_bubble M) (team_system_visible (session_team_id s) i conv content message) s"

definition roster_notice :: "team_agent \<Rightarrow> string" where
  "roster_notice a = ag_slot_id a @ '', assistant_id='' @ (case ag_assistant_id a of None \<Rightarrow> [] | Some x \<Rightarrow> x)
     @ '', model='' @ ag_model a @ ''). Call team_members to get the latest roster before delegating work.''"

definition add_manual_agent ::
  "('m, 'c, 'cdb, 'db) session_env \<Rightarrow> (nat \<Rightarrow> mints) \<Rightarrow> team_agent \<Rightarrow> (('c, 'cdb, 'db) session, unit) sess" where
  "add_manual_agent V Ms a =
     sbind (session_add_agent a) (\<lambda>_.
     sbind (sread (\<lambda>s. ok_or (InvalidRequest ''team lead not found'') (find_lead_slot_id (sx_team s)))) (\<lambda>lead.
     sbind (write_message V (Ms 0) (ag_slot_id a) ''team_system'' MtMessage
       ''You were manually added to this team. Read your mailbox and wait for instructions.'' None None) (\<lambda>welcome.
     sbind (write_message V (Ms 1) lead ''team_system'' MtMessage
       (''The user manually added teammate '' @ quoted (ag_name a) @ '' (slot_id='' @ roster_notice a) None None) (\<lambda>notice.
     sbind (project_team_system_message V (Ms 0) (ag_slot_id a) (ag_conversation_id a) (mm_id welcome) (mm_content welcome)) (\<lambda>_.
     sbind (agent_of lead) (\<lambda>lead_agent.
     sbind (project_team_system_message V (Ms 1) lead (ag_conversation_id lead_agent) (mm_id notice) (mm_content notice)) (\<lambda>_.
     sbind (enqueue_existing_work V (Ms 0) (ag_slot_id a) SpawnWelcome (Some (mm_id welcome)) ActiveRunOrBackground) (\<lambda>_.
     sbind (enqueue_existing_work V (Ms 1) lead TeamMembershipChanged (Some (mm_id notice)) ActiveRunOrBackground) (\<lambda>_.
     sret ())))))))))"

definition notify_leader_membership_removed ::
  "('m, 'c, 'cdb, 'db) session_env \<Rightarrow> mints \<Rightarrow> team_agent \<Rightarrow> (('c, 'cdb, 'db) session, unit) sess" where
  "notify_leader_membership_removed V M removed =
     sbind (sread (\<lambda>s. ok_or (InvalidRequest ''team lead not found'') (find_lead_slot_id (sx_team s)))) (\<lambda>lead.
     sbind (write_message V M lead ''team_system'' MtMessage
       (''Teammate '' @ quoted (ag_name removed) @ '' was removed from the team (slot_id='' @ roster_notice removed) None None) (\<lambda>notice.
     sbind (agent_of lead) (\<lambda>lead_agent.
     sbind (project_team_system_message V M lead (ag_conversation_id lead_agent) (mm_id notice) (mm_content notice)) (\<lambda>_.
     sbind (enqueue_existing_work V M lead TeamMembershipChanged (Some (mm_id notice)) ActiveRunOrBackground) (\<lambda>_.
     sret ())))))"

text \<open>\<open>remove_agent\<close>. A caller that joins a removal in progress waits for its end and changes nothing.\<close>

definition finish_member_removal :: "begin_remove \<Rightarrow> (('c, 'cdb, 'db) session, unit) sess" where
  "finish_member_removal removal = (case removal of
     Br_Start lease \<Rightarrow> sbind (on_members (finish_remove lease)) (\<lambda>_. sret ())
   | _ \<Rightarrow> sret ())"

definition remove_member_work ::
  "('m, 'c, 'cdb, 'db) session_env \<Rightarrow> mints \<Rightarrow> string \<Rightarrow> (('c, 'cdb, 'db) session, unit) sess" where
  "remove_member_work V M i =
     sbind (on_work (infallible (remove_slot (port M) i))) (\<lambda>work.
     sbind (mark_terminal V (rw_terminal_message_ids work)) (\<lambda>_.
     case Option.bind (rw_cancel_target work) bc_turn_id of
       None \<Rightarrow> sret ()
     | Some turn \<Rightarrow>
        sbind (agent_of i) (\<lambda>agent.
        sbind (attempt (ask_cancel V (ag_conversation_id agent) turn)) (\<lambda>_. sret ()))))"

definition session_remove_agent ::
  "('m, 'c, 'cdb, 'db) session_env \<Rightarrow> mints \<Rightarrow> string \<Rightarrow> (('c, 'cdb, 'db) session, unit) sess" where
  "session_remove_agent V M i =
     sbind (on_members (begin_remove_of i)) (\<lambda>removal. case removal of
       Br_Join w \<Rightarrow> sret ()
     | _ \<Rightarrow>
        sbind (case removal of
            Br_Start lease \<Rightarrow> sbind (on_work (infallible (set_runtime_constraint (port M) i (RcRemoving (rl_operation_id lease)))))
              (\<lambda>_. sret ())
          | _ \<Rightarrow> sret ()) (\<lambda>_.
        sbind (remove_member_work V M i) (\<lambda>_.
        sbind (on_loops (loops_remove i)) (\<lambda>_.
        sbind (on_team (remove_agent i)) (\<lambda>conversation.
        sbind (case conversation of None \<Rightarrow> sret () | Some conv \<Rightarrow> emit_effect (Fx_Kill conv)) (\<lambda>_.
        finish_member_removal removal))))))"

definition session_rename_agent ::
  "('m, 'c, 'cdb, 'db) session_env \<Rightarrow> string \<Rightarrow> string \<Rightarrow> (('c, 'cdb, 'db) session, unit) sess" where
  "session_rename_agent V i name = on_team (rename_agent (sv_lower V) i name)"

text \<open>The checks of \<open>spawn_agent\<close> before the team service is called: the caller and the requested name and assistant.\<close>

definition check_spawn ::
  "('m, 'c, 'cdb, 'db) session_env \<Rightarrow> string \<Rightarrow> string \<Rightarrow> string option \<Rightarrow> ('c, 'cdb, 'db) session
   \<Rightarrow> team_error + team_agent \<times> string \<times> string" where
  "check_spawn V caller name assistant s = and_then (get_agent caller (sx_team s)) (\<lambda>agent.
     if ag_role agent \<noteq> Lead then Inl (LeaderOnly ''spawn_agent'')
     else let requested = trim name; normalized = normalize_name (sv_lower V) requested in
     if requested = [] then Inl (InvalidRequest ''spawn_agent.name must not be empty'')
     else if normalized = [] then Inl (InvalidRequest ''spawn_agent.name is empty after normalization'')
     else if list_ex (\<lambda>a. normalize_name (sv_lower V) (ag_name a) = normalized) (list_agents (sx_team s))
     then Inl (DuplicateAgentName requested)
     else (case map_option trim assistant of
         None \<Rightarrow> Inl (InvalidRequest ''spawn_agent.assistant_id is required'')
       | Some a \<Rightarrow> if a = [] then Inl (InvalidRequest ''spawn_agent.assistant_id is required'')
           else Inr (agent, requested, a)))"

section \<open>The end of a turn and of a session\<close>

definition on_agent_finish ::
  "('m, 'c, 'cdb, 'db) session_env \<Rightarrow> mints \<Rightarrow> int \<Rightarrow> string \<Rightarrow> bool \<Rightarrow> (('c, 'cdb, 'db) session, string option) sess" where
  "on_agent_finish V M now conv is_error =
     sbind (on_team (\<lambda>te. apfst Inr (begin_finalize now conv te))) (\<lambda>proceed.
     if \<not> proceed then sret None else
     sbind (sread (\<lambda>s. ok_or (AgentNotFound (''no agent with conversation_id='' @ conv))
       (map_option ag_slot_id (find (\<lambda>a. ag_conversation_id a = conv) (list_agents (sx_team s)))))) (\<lambda>i.
     sbind (if is_error then on_team (set_status i StError) else sret ()) (\<lambda>_.
     sbind (on_team (finalize_turn (sv_lower V) (sv_json V) (sv_repo V) (\<lambda>_ _. mt_row M) i [])) (\<lambda>target.
     sbind (on_team (\<lambda>te. (Inr (), clear_finalized_turn conv te))) (\<lambda>_.
     if target = Some i then sret target else
     sbind (attempt (sread (\<lambda>s. has_unread (sv_repo V) (session_team_id s) i (te_db (sx_team s))))) (\<lambda>unread.
     sret (if unread = Inr True then Some i else target)))))))"

definition stop_session :: "mints \<Rightarrow> (('c, 'cdb, 'db) session, unit) sess" where
  "stop_session M =
     sbind (on_work (\<lambda>c. case stop (port M) c of (_, c') \<Rightarrow> Ret (Inr (), c'))) (\<lambda>_.
     sbind (on_members stop_registry) (\<lambda>_.
     on_loops loops_shutdown))"

section \<open>Event loops\<close>

record turn_request =
  rq_team_run_id :: "string option"
  rq_team_id :: string
  rq_slot_id :: string
  rq_role :: target_role
  rq_conversation_id :: string
  rq_user_id :: string
  rq_content :: string
  rq_files :: "string list"
  rq_unread_message_ids :: "string list"

definition turn_request_of ::
  "('m, 'c, 'cdb, 'db) session_env \<Rightarrow> string \<Rightarrow> string \<Rightarrow> work_batch \<Rightarrow> wake_input \<Rightarrow> turn_request" where
  "turn_request_of V team i b input =
     \<lparr>rq_team_run_id = first_run_id (wb_team_run_ids b), rq_team_id = team, rq_slot_id = i,
      rq_role = target_role_for (wn_agent_role input), rq_conversation_id = wn_conversation_id input,
      rq_user_id = sv_user_id V, rq_content = wn_first_message input,
      rq_files = concat (List.map_filter mm_files (wn_unread input)), rq_unread_message_ids = map mm_id (wn_unread input)\<rparr>"

definition begin_agent_turn ::
  "('m, 'c, 'cdb, 'db) session_env \<Rightarrow> (nat \<Rightarrow> string \<times> int) \<Rightarrow> string \<Rightarrow> work_batch \<Rightarrow> wake_input
   \<Rightarrow> (('c, 'cdb, 'db) session, turn_request) sess" where
  "begin_agent_turn V bs i b input =
     sbind (mirror_unread_to_conversation V bs input) (\<lambda>_.
     sbind (attempt (on_team (set_status i StWorking))) (\<lambda>_.
     sread (\<lambda>s. Inr (turn_request_of V (session_team_id s) i b input))))"

definition announce_child_turn ::
  "child_turn_event \<Rightarrow> team_run_status \<Rightarrow> string option \<Rightarrow> turn_request \<Rightarrow> string \<Rightarrow> (('c, 'cdb, 'db) session, unit) sess" where
  "announce_child_turn e status run q turn = (case run of
     None \<Rightarrow> sret ()
   | Some r \<Rightarrow> broadcast_child_turn e status r (rq_slot_id q) (rq_role q) (rq_conversation_id q) turn)"

definition turn_started ::
  "('m, 'c, 'cdb, 'db) session_env \<Rightarrow> mints \<Rightarrow> work_batch \<Rightarrow> turn_request \<Rightarrow> string \<Rightarrow> (('c, 'cdb, 'db) session, unit) sess" where
  "turn_started V M b q turn =
     sbind (on_work (\<lambda>c. case mark_started (port M) (mt_now M) b turn c of (r, c') \<Rightarrow> Ret (Inr r, c'))) (\<lambda>r. case r of
       StartAccepted \<Rightarrow> announce_child_turn Ct_Started RunRunning (rq_team_run_id q) q turn
     | CancelImmediately \<Rightarrow>
        sbind (attempt (ask_cancel V (rq_conversation_id q) turn)) (\<lambda>_.
        sbind (cancel_batch_of M b ''late_start_cancelled'') (\<lambda>_.
        announce_child_turn Ct_Cancelled RunCancelled (rq_team_run_id q) q turn))
     | StartStaleOwner \<Rightarrow> sret ())"

datatype turn_outcome =
    To_Skipped string
  | To_Failed string
  | To_Ended string string bool

datatype execute_result = Continue_Draining | Wait_For_Signal

definition is_retryable_start_skip :: "turn_outcome \<Rightarrow> bool" where
  "is_retryable_start_skip o' = (case o' of To_Skipped r \<Rightarrow> str_contains r ''already running'' | _ \<Rightarrow> False)"

definition mark_batch_messages_read ::
  "('m, 'c, 'cdb, 'db) session_env \<Rightarrow> work_batch \<Rightarrow> (('c, 'cdb, 'db) session, unit) sess" where
  "mark_batch_messages_read V b = sbind (attempt (mark_terminal V (wb_mailbox_message_ids b))) (\<lambda>_. sret ())"

fun completed_turns ::
  "turn_request \<Rightarrow> string \<Rightarrow> string \<Rightarrow> team_run_status \<Rightarrow> string list \<Rightarrow> (('c, 'cdb, 'db) session, unit) sess" where
  "completed_turns q conv turn status [] = sret ()"
| "completed_turns q conv turn status (r # rs) =
     sbind (broadcast_child_turn Ct_Completed status r (rq_slot_id q) (rq_role q) conv turn)
       (\<lambda>_. completed_turns q conv turn status rs)"

text \<open>The end of a turn that ran: the batch is completed or failed, and the turn finalised.\<close>

definition close_batch ::
  "mints \<Rightarrow> string \<Rightarrow> work_batch \<Rightarrow> bool \<Rightarrow> (('c, 'cdb, 'db) session, team_run_status option) sess" where
  "close_batch M i b success =
     (if success
      then sbind (on_work (infallible (complete_batch (port M) b))) (\<lambda>r.
        sret (if r = Committed then Some RunCompleted else None))
      else sbind (on_work (infallible (fail_batch (port M) b ''turn_failed''))) (\<lambda>r.
        sbind (attempt (on_team (set_status i StError))) (\<lambda>_.
        sret (if r = Committed then Some RunFailed else None))))"

definition settle_turn ::
  "('m, 'c, 'cdb, 'db) session_env \<Rightarrow> mints \<Rightarrow> string \<Rightarrow> (('c, 'cdb, 'db) session, unit) sess" where
  "settle_turn V M i =
     sbind (attempt (on_team (finalize_turn (sv_lower V) (sv_json V) (sv_repo V) (\<lambda>_ _. mt_row M) i []))) (\<lambda>r. case r of
       Inr (Some target) \<Rightarrow>
         if target \<noteq> i then sbind (attempt (enqueue_leader_settle_signal V M target IdleNotification)) (\<lambda>_. sret ())
         else sret ()
     | _ \<Rightarrow> sret ())"

definition end_turn ::
  "('m, 'c, 'cdb, 'db) session_env \<Rightarrow> mints \<Rightarrow> work_batch \<Rightarrow> turn_request \<Rightarrow> bool \<Rightarrow> turn_outcome
   \<Rightarrow> (('c, 'cdb, 'db) session, execute_result) sess" where
  "end_turn V M b q started outcome = (case outcome of
     To_Ended conv turn success \<Rightarrow>
       sbind (mark_batch_messages_read V b) (\<lambda>_.
       sbind (close_batch M (rq_slot_id q) b success) (\<lambda>status.
       sbind (case status of None \<Rightarrow> sret () | Some st \<Rightarrow> completed_turns q conv turn st (wb_team_run_ids b)) (\<lambda>_.
       sbind (settle_turn V M (rq_slot_id q)) (\<lambda>_. sret Continue_Draining))))
   | _ \<Rightarrow>
       if \<not> started \<and> is_retryable_start_skip outcome
       then sbind (on_work (infallible (retry_start (port M) b))) (\<lambda>_.
            sbind (attempt (on_team (set_status (rq_slot_id q) StIdle))) (\<lambda>_. sret Wait_For_Signal))
       else sbind (mark_batch_messages_read V b) (\<lambda>_.
            sbind (on_work (infallible (fail_batch (port M) b ''turn_start_failed''))) (\<lambda>_.
            sbind (attempt (on_team (set_status (rq_slot_id q) StError))) (\<lambda>_. sret Continue_Draining))))"

end
