(* ===== verification/Session_Facts.thy ===== *)
theory Session_Facts
  imports Team_Control Work_System
begin

text \<open>
  Every operation of a session is a path of steps of the coordinator's transition system (\<open>Work_System\<close>), so
  the invariant of that system and what follows from it hold in sessions. \<open>follows N A m G\<close> says it of an operation
  \<open>m\<close> that uses the new identifiers \<open>A\<close> and calls back with the batches \<open>N\<close>: it does not panic, and \<open>G x\<close> are
  batches that its result \<open>x\<close> hands out. The rules go along the structure of an operation.
\<close>

section \<open>Paths\<close>

definition system_of :: "('c, 'cdb, 'db) session \<Rightarrow> work_batch set \<Rightarrow> string set \<Rightarrow> run_manager system" where
  "system_of s B U = \<lparr>sy_coordinator = sx_work s, sy_issued = B, sy_used = U\<rparr>"

definition follows ::
  "work_batch set \<Rightarrow> string set \<Rightarrow> (('c, 'cdb, 'db) session, 'a) sess \<Rightarrow> ('a \<Rightarrow> work_batch set) \<Rightarrow> bool" where
  "follows N A m G \<longleftrightarrow> (\<forall>s B U. system_inv (system_of s B U) \<longrightarrow> N \<subseteq> B \<longrightarrow> A \<inter> U = {} \<longrightarrow>
     (\<exists>r s' B' U'. m s = Ret (r, s') \<and> step\<^sup>*\<^sup>* (system_of s B U) (system_of s' B' U') \<and> B \<subseteq> B' \<and> U' \<subseteq> U \<union> A
        \<and> (\<forall>x. r = Inr x \<longrightarrow> G x \<subseteq> B')))"

lemma followsI:
  assumes "\<And>s B U. system_inv (system_of s B U) \<Longrightarrow> N \<subseteq> B \<Longrightarrow> A \<inter> U = {}
    \<Longrightarrow> \<exists>r s' B' U'. m s = Ret (r, s') \<and> step\<^sup>*\<^sup>* (system_of s B U) (system_of s' B' U') \<and> B \<subseteq> B' \<and> U' \<subseteq> U \<union> A
        \<and> (\<forall>x. r = Inr x \<longrightarrow> G x \<subseteq> B')"
  shows "follows N A m G"
  using assms unfolding follows_def by blast

lemma followsE:
  assumes "follows N A m G" and "system_inv (system_of s B U)" and "N \<subseteq> B" and "A \<inter> U = {}"
  obtains r s' B' U' where "m s = Ret (r, s')" and "step\<^sup>*\<^sup>* (system_of s B U) (system_of s' B' U')" and "B \<subseteq> B'"
    and "U' \<subseteq> U \<union> A" and "\<And>x. r = Inr x \<Longrightarrow> G x \<subseteq> B'"
  using assms unfolding follows_def by meson

lemma steps_inv: "step\<^sup>*\<^sup>* s s' \<Longrightarrow> system_inv s \<Longrightarrow> system_inv s'"
  by (induction rule: rtranclp_induct) (auto intro: step_inv)

lemma follows_weaken:
  assumes "follows N A m G" and "N \<subseteq> N'" and "A \<subseteq> A'" and "\<And>x. G' x \<subseteq> G x"
  shows "follows N' A' m G'"
proof (rule followsI)
  fix s :: "('a, 'b, 'c) session" and B U
  assume "system_inv (system_of s B U)" "N' \<subseteq> B" "A' \<inter> U = {}"
  with assms show "\<exists>r s' B' U'. m s = Ret (r, s') \<and> step\<^sup>*\<^sup>* (system_of s B U) (system_of s' B' U') \<and> B \<subseteq> B'
      \<and> U' \<subseteq> U \<union> A' \<and> (\<forall>x. r = Inr x \<longrightarrow> G' x \<subseteq> B')"
    by (elim followsE [of N A m G s B U]) (blast+)
qed

text \<open>An operation that leaves the coordinator alone.\<close>

lemma follows_quiet:
  assumes "\<And>s. \<exists>r s'. m s = Ret (r, s') \<and> sx_work s' = sx_work s"
  shows "follows {} {} m (\<lambda>_. {})"
proof (rule followsI)
  fix s :: "('a, 'b, 'c) session" and B U
  obtain r s' where "m s = Ret (r, s')" "sx_work s' = sx_work s" using assms by blast
  then show "\<exists>r s' B' U'. m s = Ret (r, s') \<and> step\<^sup>*\<^sup>* (system_of s B U) (system_of s' B' U') \<and> B \<subseteq> B'
      \<and> U' \<subseteq> U \<union> {} \<and> (\<forall>x. r = Inr x \<longrightarrow> {} \<subseteq> B')"
    by (auto simp: system_of_def)
qed

lemma follows_sbind:
  assumes m: "follows N A m G" and f: "\<And>x. follows (N \<union> G x) C (f x) H" and d: "A \<inter> C = {}"
  shows "follows N (A \<union> C) (sbind m f) H"
proof (rule followsI)
  fix s :: "('a, 'b, 'c) session" and B U
  assume inv: "system_inv (system_of s B U)" and n: "N \<subseteq> B" and u: "(A \<union> C) \<inter> U = {}"
  from u have "A \<inter> U = {}" by blast
  with m inv n obtain r s1 B1 U1 where 1: "m s = Ret (r, s1)" "step\<^sup>*\<^sup>* (system_of s B U) (system_of s1 B1 U1)" "B \<subseteq> B1"
    "U1 \<subseteq> U \<union> A" and g: "\<And>x. r = Inr x \<Longrightarrow> G x \<subseteq> B1" by (rule followsE) blast
  show "\<exists>r s' B' U'. sbind m f s = Ret (r, s') \<and> step\<^sup>*\<^sup>* (system_of s B U) (system_of s' B' U') \<and> B \<subseteq> B'
      \<and> U' \<subseteq> U \<union> (A \<union> C) \<and> (\<forall>x. r = Inr x \<longrightarrow> H x \<subseteq> B')"
  proof (cases r)
    case (Inl e)
    with 1 have "sbind m f s = Ret (Inl e, s1)" "U1 \<subseteq> U \<union> (A \<union> C)" by (auto simp: sbind_def)
    with 1 show ?thesis by blast
  next
    case (Inr x)
    have "N \<union> G x \<subseteq> B1" using n 1(3) g [OF Inr] by blast
    moreover have "C \<inter> U1 = {}" using u d 1(4) by blast
    ultimately obtain r' s2 B2 U2 where 2: "f x s1 = Ret (r', s2)" "step\<^sup>*\<^sup>* (system_of s1 B1 U1) (system_of s2 B2 U2)"
      "B1 \<subseteq> B2" "U2 \<subseteq> U1 \<union> C" and h: "\<And>x. r' = Inr x \<Longrightarrow> H x \<subseteq> B2"
      using followsE [OF f [of x] steps_inv [OF 1(2) inv]] by metis
    have "sbind m f s = Ret (r', s2)" using 1(1) 2(1) Inr by (simp add: sbind_def)
    moreover have "B \<subseteq> B2" "U2 \<subseteq> U \<union> (A \<union> C)" using 1(3,4) 2(3,4) by blast+
    ultimately show ?thesis using rtranclp_trans [OF 1(2) 2(2)] h by blast
  qed
qed

lemma follows_on_error:
  assumes m: "follows N A m G" and h: "follows N C h H" and d: "A \<inter> C = {}"
  shows "follows N (A \<union> C) (on_error m h) G"
proof (rule followsI)
  fix s :: "('a, 'b, 'c) session" and B U
  assume inv: "system_inv (system_of s B U)" and n: "N \<subseteq> B" and u: "(A \<union> C) \<inter> U = {}"
  from u have "A \<inter> U = {}" by blast
  with m inv n obtain r s1 B1 U1 where 1: "m s = Ret (r, s1)" "step\<^sup>*\<^sup>* (system_of s B U) (system_of s1 B1 U1)" "B \<subseteq> B1"
    "U1 \<subseteq> U \<union> A" and g: "\<And>x. r = Inr x \<Longrightarrow> G x \<subseteq> B1" by (rule followsE) blast
  show "\<exists>r s' B' U'. on_error m h s = Ret (r, s') \<and> step\<^sup>*\<^sup>* (system_of s B U) (system_of s' B' U') \<and> B \<subseteq> B'
      \<and> U' \<subseteq> U \<union> (A \<union> C) \<and> (\<forall>x. r = Inr x \<longrightarrow> G x \<subseteq> B')"
  proof (cases r)
    case (Inr x)
    with 1 have "on_error m h s = Ret (Inr x, s1)" "U1 \<subseteq> U \<union> (A \<union> C)" by (auto simp: on_error_def)
    with 1 g Inr show ?thesis by blast
  next
    case (Inl e)
    have "N \<subseteq> B1" using n 1(3) by blast
    moreover have "C \<inter> U1 = {}" using u d 1(4) by blast
    ultimately obtain r' s2 B2 U2 where 2: "h s1 = Ret (r', s2)" "step\<^sup>*\<^sup>* (system_of s1 B1 U1) (system_of s2 B2 U2)"
      "B1 \<subseteq> B2" "U2 \<subseteq> U1 \<union> C"
      using followsE [OF h steps_inv [OF 1(2) inv]] by metis
    have "on_error m h s = Ret (Inl e, s2)" using 1(1) 2(1) Inl by (simp add: on_error_def)
    moreover have "B \<subseteq> B2" "U2 \<subseteq> U \<union> (A \<union> C)" using 1(3,4) 2(3,4) by blast+
    ultimately show ?thesis using rtranclp_trans [OF 1(2) 2(2)] by blast
  qed
qed

lemma follows_attempt:
  assumes "follows N A m G"
  shows "follows N A (attempt m) (\<lambda>r. case r of Inl _ \<Rightarrow> {} | Inr x \<Rightarrow> G x)"
proof (rule followsI)
  fix s :: "('a, 'b, 'c) session" and B U
  assume "system_inv (system_of s B U)" "N \<subseteq> B" "A \<inter> U = {}"
  with assms obtain r s1 B1 U1 where 1: "m s = Ret (r, s1)" "step\<^sup>*\<^sup>* (system_of s B U) (system_of s1 B1 U1)" "B \<subseteq> B1"
    "U1 \<subseteq> U \<union> A" and g: "\<And>x. r = Inr x \<Longrightarrow> G x \<subseteq> B1" by (rule followsE) blast
  then have "attempt m s = Ret (Inr r, s1)" by (simp add: attempt_def)
  moreover have "(case r of Inl _ \<Rightarrow> {} | Inr x \<Rightarrow> G x) \<subseteq> B1" using g by (auto split: sum.split)
  ultimately show "\<exists>r s' B' U'. attempt m s = Ret (r, s') \<and> step\<^sup>*\<^sup>* (system_of s B U) (system_of s' B' U') \<and> B \<subseteq> B'
      \<and> U' \<subseteq> U \<union> A \<and> (\<forall>x. r = Inr x \<longrightarrow> (case x of Inl _ \<Rightarrow> {} | Inr x \<Rightarrow> G x) \<subseteq> B')"
    using 1 by blast
qed

text \<open>One step of the coordinator.\<close>

lemma follows_on_work:
  fixes f :: "run_manager coordinator \<Rightarrow> ((team_error + 'x) \<times> run_manager coordinator) rust"
  assumes "\<And>(s :: ('a, 'b, 'c) session) B U. system_inv (system_of s B U) \<Longrightarrow> N \<subseteq> B \<Longrightarrow> A \<inter> U = {} \<Longrightarrow>
    \<exists>r c B' U'. f (sx_work s) = Ret (r, c)
      \<and> step \<lparr>sy_coordinator = sx_work s, sy_issued = B, sy_used = U\<rparr> \<lparr>sy_coordinator = c, sy_issued = B', sy_used = U'\<rparr>
      \<and> B \<subseteq> B' \<and> U' \<subseteq> U \<union> A \<and> (\<forall>x. r = Inr x \<longrightarrow> G x \<subseteq> B')"
  shows "follows N A (on_work f :: (('a, 'b, 'c) session, 'x) sess) G"
proof (rule followsI)
  fix s :: "('a, 'b, 'c) session" and B U
  assume "system_inv (system_of s B U)" "N \<subseteq> B" "A \<inter> U = {}"
  from assms [OF this] obtain r c B' U' where 1: "f (sx_work s) = Ret (r, c)"
    "step (system_of s B U) (system_of (s\<lparr>sx_work := c\<rparr>) B' U')" "B \<subseteq> B'" "U' \<subseteq> U \<union> A" "\<forall>x. r = Inr x \<longrightarrow> G x \<subseteq> B'"
    by (auto simp: system_of_def)
  then have "on_work f s = Ret (r, s\<lparr>sx_work := c\<rparr>)" by (simp add: on_work_def)
  with 1 show "\<exists>r s' B' U'. on_work f s = Ret (r, s') \<and> step\<^sup>*\<^sup>* (system_of s B U) (system_of s' B' U') \<and> B \<subseteq> B'
      \<and> U' \<subseteq> U \<union> A \<and> (\<forall>x. r = Inr x \<longrightarrow> G x \<subseteq> B')" by blast
qed

lemma returnsE: "returns m \<Longrightarrow> \<exists>x c. m = Ret (x, c)"
  by (cases m) auto

lemma system_of_inv: "system_inv (system_of s B U) \<Longrightarrow> coordinator_inv (sx_work s)"
  by (simp add: system_inv_def system_of_def)

lemma infallible_Ret: "f c = Ret (x, c') \<Longrightarrow> infallible f c = Ret (Inr x, c')"
  by (simp add: infallible_def)

lemma follows_infallible:
  fixes f :: "run_manager coordinator \<Rightarrow> ('x \<times> run_manager coordinator) rust"
  assumes "\<And>(s :: ('a, 'b, 'c) session) B U. system_inv (system_of s B U) \<Longrightarrow> N \<subseteq> B \<Longrightarrow> A \<inter> U = {} \<Longrightarrow>
    \<exists>x c B' U'. f (sx_work s) = Ret (x, c)
      \<and> step \<lparr>sy_coordinator = sx_work s, sy_issued = B, sy_used = U\<rparr> \<lparr>sy_coordinator = c, sy_issued = B', sy_used = U'\<rparr>
      \<and> B \<subseteq> B' \<and> U' \<subseteq> U \<union> A \<and> G x \<subseteq> B'"
  shows "follows N A (on_work (infallible f) :: (('a, 'b, 'c) session, 'x) sess) G"
proof (rule follows_on_work)
  fix s :: "('a, 'b, 'c) session" and B U
  assume "system_inv (system_of s B U)" "N \<subseteq> B" "A \<inter> U = {}"
  from assms [OF this] obtain x c B' U' where 1: "f (sx_work s) = Ret (x, c)"
    "step \<lparr>sy_coordinator = sx_work s, sy_issued = B, sy_used = U\<rparr> \<lparr>sy_coordinator = c, sy_issued = B', sy_used = U'\<rparr>"
    "B \<subseteq> B'" "U' \<subseteq> U \<union> A" "G x \<subseteq> B'" by blast
  have "infallible f (sx_work s) = Ret (Inr x, c)" by (rule infallible_Ret) (rule 1(1))
  with 1 show "\<exists>r c B' U'. infallible f (sx_work s) = Ret (r, c)
      \<and> step \<lparr>sy_coordinator = sx_work s, sy_issued = B, sy_used = U\<rparr> \<lparr>sy_coordinator = c, sy_issued = B', sy_used = U'\<rparr>
      \<and> B \<subseteq> B' \<and> U' \<subseteq> U \<union> A \<and> (\<forall>x. r = Inr x \<longrightarrow> G x \<subseteq> B')" by auto
qed

section \<open>The operations of the coordinator\<close>

definition enqueue_ids :: "mints \<Rightarrow> string set" where
  "enqueue_ids M = {mt_lease M, mt_run M, mt_intent M}"

definition batch_ids_of :: "mints \<Rightarrow> string set" where
  "batch_ids_of M = insert (mt_batch M) (range (mt_recovery M))"

definition minted_ok :: "mints \<Rightarrow> bool" where
  "minted_ok M \<longleftrightarrow> mt_intent M \<noteq> mt_lease M \<and> mt_intent M \<noteq> mt_run M
     \<and> inj (mt_recovery M) \<and> mt_batch M \<notin> range (mt_recovery M)"

lemma follows_constraint: "follows {} {} (on_work (infallible (set_runtime_constraint (port M) i k))) (\<lambda>_. {})"
proof (rule follows_infallible, goal_cases)
  case (1 s B U)
  obtain x c where r: "set_runtime_constraint (port M) i k (sx_work s) = Ret (x, c)"
    using returnsE [OF set_runtime_constraint_returns [OF system_of_inv [OF 1(1)]]] by blast
  with r step_constraint [OF r [unfolded port_def]] show ?case by auto
qed

lemma create_recovery_created:
  "create_recovery g i role gen clock k msgs st = Ret (st', created) \<Longrightarrow> set created \<subseteq> range gen"
  by (induction msgs arbitrary: k st created) (auto split: if_splits option.splits, blast)

lemma reconcile_created:
  "reconcile_mailbox gen clock i unread role c = Ret (p, c') \<Longrightarrow> set (rp_created_recovery_intent_ids p) \<subseteq> range gen"
  by (elim reconcile_mailbox_cases) (auto dest: create_recovery_created)

lemma follows_reconcile:
  assumes "minted_ok M"
  shows "follows {} (range (mt_recovery M)) (on_work (infallible (reconcile_mailbox (mt_recovery M) ts i ids role))) (\<lambda>_. {})"
proof (rule follows_infallible, goal_cases)
  case (1 s B U)
  obtain p c where r: "reconcile_mailbox (mt_recovery M) ts i ids role (sx_work s) = Ret (p, c)"
    using returnsE [OF reconcile_mailbox_returns [OF system_of_inv [OF 1(1)]]] by blast
  have inj: "inj (mt_recovery M)" and fresh: "mt_recovery M j \<notin> U" for j
    using assms 1(3) by (auto simp: minted_ok_def)
  have "set (rp_created_recovery_intent_ids p) \<subseteq> range (mt_recovery M)" by (rule reconcile_created [OF r])
  moreover have "step \<lparr>sy_coordinator = sx_work s, sy_issued = B, sy_used = U\<rparr>
      \<lparr>sy_coordinator = c, sy_issued = B, sy_used = U \<union> set (rp_created_recovery_intent_ids p)\<rparr>"
    by (rule step_reconcile [OF inj fresh r])
  ultimately show ?case using r by blast
qed

lemma follows_next: "follows {} {mt_batch M} (on_work (infallible (next_work (port M) (mt_batch M) i))) claimed"
proof (rule follows_infallible, goal_cases)
  case (1 s B U)
  obtain d c where r: "next_work (port M) (mt_batch M) i (sx_work s) = Ret (d, c)"
    using returnsE [OF next_work_returns [OF system_of_inv [OF 1(1)]]] by blast
  have "mt_batch M \<notin> U" using 1(3) by simp
  from r step_claim [OF this r [unfolded port_def], of B] show ?case
    by (intro exI [of _ d] exI [of _ c] exI [of _ "B \<union> claimed d"] exI [of _ "insert (mt_batch M) U"]) auto
qed

lemma follows_retry: "follows {b} {} (on_work (infallible (retry_start (port M) b))) (\<lambda>_. {})"
proof (rule follows_infallible, goal_cases)
  case (1 s B U)
  obtain x c where r: "retry_start (port M) b (sx_work s) = Ret (x, c)"
    using returnsE [OF retry_start_returns] by blast
  with r step_retried [OF _ r [unfolded port_def], of B] 1(2) show ?case by auto
qed

lemma follows_complete: "follows {b} {} (on_work (infallible (complete_batch (port M) b))) (\<lambda>_. {})"
proof (rule follows_infallible, goal_cases)
  case (1 s B U)
  obtain x c where r: "complete_batch (port M) b (sx_work s) = Ret (x, c)"
    using returnsE [OF terminalize_batch_returns] unfolding complete_batch_def by blast
  with r step_completed [OF _ r [unfolded port_def], of B] 1(2) show ?case by auto
qed

lemma follows_fail: "follows {b} {} (on_work (infallible (fail_batch (port M) b cls))) (\<lambda>_. {})"
proof (rule follows_infallible, goal_cases)
  case (1 s B U)
  obtain x c where r: "fail_batch (port M) b cls (sx_work s) = Ret (x, c)"
    using returnsE [OF terminalize_batch_returns] unfolding fail_batch_def by blast
  with r step_failed [OF _ r [unfolded port_def], of B] 1(2) show ?case by auto
qed

lemma follows_cancel: "follows {b} {} (on_work (infallible (cancel_batch (port M) b cls))) (\<lambda>_. {})"
proof (rule follows_infallible, goal_cases)
  case (1 s B U)
  obtain x c where r: "cancel_batch (port M) b cls (sx_work s) = Ret (x, c)"
    using returnsE [OF terminalize_batch_returns] unfolding cancel_batch_def by blast
  with r step_cancelled [OF _ r [unfolded port_def], of B] 1(2) show ?case by auto
qed

lemma follows_cancel_run: "follows {} {} (on_work (infallible (cancel_run (port M) run))) (\<lambda>_. {})"
proof (rule follows_infallible, goal_cases)
  case (1 s B U)
  obtain x c where r: "cancel_run (port M) run (sx_work s) = Ret (x, c)"
    using returnsE [OF cancel_run_returns [OF system_of_inv [OF 1(1)]]] by blast
  with r step_run_cancelled [OF r [unfolded port_def], of B] show ?case by auto
qed

lemma follows_remove_slot: "follows {} {} (on_work (infallible (remove_slot (port M) i))) (\<lambda>_. {})"
proof (rule follows_infallible, goal_cases)
  case (1 s B U)
  obtain x c where r: "remove_slot (port M) i (sx_work s) = Ret (x, c)"
    using returnsE [OF remove_slot_returns [OF system_of_inv [OF 1(1)]]] by blast
  with r step_removed [OF r [unfolded port_def], of B] show ?case by auto
qed

text \<open>The batch that \<open>pause_slot\<close> and a snapshot show is the active one, which has been handed out.\<close>

lemma follows_pause:
  "follows {} {} (on_work (infallible (pause_slot i))) (\<lambda>p. bc_batch ` set_option (pw_cancel_target p))"
proof (rule follows_infallible, goal_cases)
  case (1 s B U)
  obtain p c where r: "pause_slot i (sx_work s) = Ret (p, c)"
    using returnsE [OF pause_slot_returns [OF system_of_inv [OF 1(1)]]] by blast
  have "bc_batch t \<in> B" if "pw_cancel_target p = Some t" for t
  proof -
    have so: "bt_sorted (cs_slots (co_state (sx_work s)))"
      using system_of_inv [OF 1(1)] by (simp add: coordinator_inv_def state_inv_def)
    from r that obtain a slot where "map_of (cs_slots (co_state (sx_work s))) i = Some slot" "ss_active slot = Some a"
      "t = cancel_target_of a"
      by (auto simp: pause_slot_def Let_def map_of_entry_update [OF so] slot_new_def split: option.splits)
    then have "active_in (co_state (sx_work s)) (bc_batch t)"
      by (auto simp: active_in_def cancel_target_of_def)
    then show ?thesis using 1(1) by (simp add: system_of_def system_inv_def ids_ok_def)
  qed
  with r step_paused [OF r, of B] show ?case by (fastforce)
qed

lemma follows_snapshot:
  "follows {} {} (sread (\<lambda>s. ok_or e (slot_snapshot i (sx_work s)))) (\<lambda>snap. set_option (sw_active_batch snap))"
proof (rule followsI)
  fix s :: "('a, 'b, 'c) session" and B U
  assume inv: "system_inv (system_of s B U)"
  have "b \<in> B" if "slot_snapshot i (sx_work s) = Some snap" "sw_active_batch snap = Some b" for snap b
  proof -
    from that obtain slot a where "map_of (cs_slots (co_state (sx_work s))) i = Some slot" "ss_active slot = Some a" "b = ab_batch a"
      by (auto simp: slot_snapshot_def slot_snapshot_locked_def)
    then have "active_in (co_state (sx_work s)) b" by (auto simp: active_in_def)
    then show ?thesis using inv by (simp add: system_of_def system_inv_def ids_ok_def)
  qed
  then have "\<forall>x. ok_or e (slot_snapshot i (sx_work s)) = Inr x \<longrightarrow> set_option (sw_active_batch x) \<subseteq> B"
    by (auto simp: ok_or_eq_Inr)
  then show "\<exists>r s' B' U'. sread (\<lambda>s. ok_or e (slot_snapshot i (sx_work s))) s = Ret (r, s')
      \<and> step\<^sup>*\<^sup>* (system_of s B U) (system_of s' B' U') \<and> B \<subseteq> B' \<and> U' \<subseteq> U \<union> {}
      \<and> (\<forall>x. r = Inr x \<longrightarrow> set_option (sw_active_batch x) \<subseteq> B')"
    by (auto simp: sread_def)
qed

lemma follows_started:
  "follows {b} {} (on_work (\<lambda>c. case mark_started (port M) now b turn c of (r, c') \<Rightarrow> Ret (Inr r, c'))) (\<lambda>_. {})"
proof (rule follows_on_work, goal_cases)
  case (1 s B U)
  obtain x c where r: "mark_started (port M) now b turn (sx_work s) = (x, c)" by fastforce
  with step_started [OF _ r [unfolded port_def], of B] 1(2) show ?case by auto
qed

lemma follows_signals: "follows {} {} (handle_signal_intents M i ids) (\<lambda>_. {})"
  unfolding handle_signal_intents_def
proof (rule follows_on_work, goal_cases)
  case (1 s B U)
  obtain x c where r: "complete_signals (port M) i ids (sx_work s) = (x, c)" by fastforce
  with step_signals [OF r [unfolded port_def], of B] show ?case by auto
qed

lemma follows_begin_cancel:
  "follows {} {} (on_work (\<lambda>c. case begin_cancel clock run reason (co_run_causality c) of
     (r, m) \<Rightarrow> Ret (r, c\<lparr>co_run_causality := m\<rparr>))) (\<lambda>_. {})"
proof (rule follows_on_work, goal_cases)
  case (1 s B U)
  obtain x m where r: "begin_cancel clock run reason (co_run_causality (sx_work s)) = (x, m)" by fastforce
  with step.port_moved [of "sx_work s" B U m] show ?case by auto
qed

lemma follows_stop: "follows {} {} (on_work (\<lambda>c. case stop (port M) c of (_, c') \<Rightarrow> Ret (Inr (), c'))) (\<lambda>_. {})"
proof (rule follows_on_work, goal_cases)
  case (1 s B U)
  obtain x c where r: "stop (port M) (sx_work s) = (x, c)" by fastforce
  with step_stopped [OF r [unfolded port_def], of B] show ?case by auto
qed

lemma follows_acquire: "follows {} {mt_lease M, mt_run M} (acquire M i role source binding) (\<lambda>_. {})"
  unfolding acquire_def
proof (rule follows_on_work, goal_cases)
  case (1 s B U)
  obtain x c where r: "acquire_enqueue (port M) (mt_lease M)
      \<lparr>er_slot_id = i, er_role = role, er_source = source, er_binding = binding\<rparr> (sx_work s) = (x, c)" by fastforce
  have "mt_lease M \<notin> U" using 1(3) by auto
  with r step_acquire [OF this r [unfolded port_def], of B] show ?case by auto
qed

lemma follows_abort: "follows {} {} (abort M lease) (\<lambda>_. {})"
  unfolding abort_def
proof (rule follows_on_work, goal_cases)
  case (1 s B U)
  obtain x c where r: "abort_enqueue (port M) lease (sx_work s) = (x, c)" by fastforce
  with step_abort [OF r [unfolded port_def], of B] show ?case by auto
qed

lemma follows_commit: "follows {} {mt_intent M} (commit_lease M lease message) (\<lambda>_. {})"
  unfolding commit_lease_def
proof (rule follows_on_work, goal_cases)
  case (1 s B U)
  obtain x c where r: "commit_enqueue (port M) (mt_intent M) (mt_now M) lease message (sx_work s) = Ret (x, c)"
    using returnsE [OF commit_enqueue_returns] by blast
  have "mt_intent M \<notin> U" using 1(3) by simp
  from step_commit [OF this r [unfolded port_def], of B] r show ?case by auto
qed

section \<open>The operations of a session\<close>

named_theorems follow \<open>rules for \<open>follows\<close> along the structure of an operation\<close>

abbreviation none :: "'a \<Rightarrow> work_batch set" where
  "none \<equiv> \<lambda>_. {}"

lemma follows_none: "follows {} A m none \<Longrightarrow> follows N A m none"
  by (rule follows_weaken) auto

lemmas coordinator_follows [follow] =
  follows_none [OF follows_constraint] follows_none [OF follows_cancel_run] follows_none [OF follows_remove_slot]
  follows_none [OF follows_signals] follows_none [OF follows_begin_cancel] follows_none [OF follows_stop]
  follows_none [OF follows_acquire] follows_none [OF follows_abort] follows_none [OF follows_commit]

lemma follows_quiet_any:
  assumes "\<And>s. \<exists>r s'. m s = Ret (r, s') \<and> sx_work s' = sx_work s"
  shows "follows N {} m none"
  by (rule follows_none [OF follows_quiet [OF assms]])

lemma follows_sret [follow]: "G x \<subseteq> N \<Longrightarrow> follows N {} (sret x) G"
  unfolding follows_def sret_def by blast

lemma follows_sfail [follow]: "follows N {} (sfail e) G"
  unfolding follows_def sfail_def by blast

lemma follows_sread [follow]: "follows N {} (sread f) none"
  by (rule follows_quiet_any) (simp add: sread_def)

lemma follows_on_team [follow]: "follows N {} (on_team f) none"
  by (rule follows_quiet_any) (simp add: on_team_def split: prod.split)

lemma follows_on_members [follow]: "follows N {} (on_members f) none"
  by (rule follows_quiet_any) (simp add: on_members_def split: prod.split)

lemma follows_on_loops [follow]: "follows N {} (on_loops f) none"
  by (rule follows_quiet_any) (simp add: on_loops_def)

lemma follows_emit [follow]: "follows N {} (emit_effect e) none"
  by (rule follows_quiet_any) (simp add: emit_effect_def)

lemma follows_project [follow]: "follows N {} (\<lambda>s. project_bubble V b (q s) s) none"
  by (rule follows_quiet_any) (simp add: project_bubble_def split: prod.split)

lemma follows_then [follow]:
  assumes "follows N A m none" and "\<And>x. follows N C (f x) H" and "A \<inter> C = {}"
  shows "follows N (A \<union> C) (sbind m f) H"
  by (rule follows_sbind [OF assms(1) _ assms(3)]) (simp add: assms(2))

lemma follows_on_error_none [follow]:
  "follows N A m none \<Longrightarrow> follows N C h none \<Longrightarrow> A \<inter> C = {} \<Longrightarrow> follows N (A \<union> C) (on_error m h) none"
  by (rule follows_on_error)

lemma follows_attempt_none [follow]:
  assumes "follows N A m none"
  shows "follows N A (attempt m) none"
  by (rule follows_weaken [OF follows_attempt [OF assms]]) auto

lemma follows_if [follow]:
  assumes "follows N A m G" and "follows N C m' G"
  shows "follows N (A \<union> C) (if b then m else m') G"
  using follows_weaken [OF assms(1), of N "A \<union> C" G] follows_weaken [OF assms(2), of N "A \<union> C" G] by simp

lemma follows_case_option [follow]:
  assumes "follows N A m G" and "\<And>x. follows N C (f x) G"
  shows "follows N (A \<union> C) (case x of None \<Rightarrow> m | Some y \<Rightarrow> f y) G"
  using follows_weaken [OF assms(1), of N "A \<union> C" G] follows_weaken [OF assms(2), of N "A \<union> C" G]
  by (simp split: option.split)

lemma follows_case_sum [follow]:
  assumes "\<And>x. follows N A (m x) G" and "\<And>x. follows N C (f x) G"
  shows "follows N (A \<union> C) (case x of Inl y \<Rightarrow> m y | Inr y \<Rightarrow> f y) G"
  using follows_weaken [OF assms(1), of N "A \<union> C" G] follows_weaken [OF assms(2), of N "A \<union> C" G]
  by (simp split: sum.split)

lemma follows_state:
  assumes "\<And>t. follows N A (m t) G"
  shows "follows N A (\<lambda>s. m s s) G"
  using assms unfolding follows_def by blast

lemma follows_subset: "follows N A m G \<Longrightarrow> A \<subseteq> A' \<Longrightarrow> follows N A' m G"
  by (rule follows_weaken) auto

lemma follows_mark_terminal [follow]: "follows N {} (mark_terminal V ids) none"
  unfolding mark_terminal_def mark_read_def by (rule follows_subset, (rule follow | auto)+)

lemma follows_mark_read [follow]: "follows N {} (mark_read V ids) none"
  unfolding mark_read_def by (rule follow)

lemma follows_write [follow]: "follows N {} (write_message V M to from kind content summary files) none"
  unfolding write_message_def by (rule follow)

lemma follows_reads [follow]: "follows N {} (agent_of i) none" "follows N {} members_of none" "follows N {} (unread_of V i) none"
  "follows N {} (run_payload M) none"
  unfolding agent_of_def members_of_def unread_of_def run_payload_def by (rule follow)+

lemma follows_publish [follow]: "follows N {} (publish_runtime_constraint V M i) none"
proof -
  have "follows N {} (\<lambda>s. sbind (on_work (infallible (set_runtime_constraint (port M) i (session_constraint i s))))
      (\<lambda>update. mark_terminal V (rcu_terminal_message_ids update)) s) none"
    by (rule follows_state, rule follows_subset, (rule follow | auto)+)
  then show ?thesis unfolding publish_runtime_constraint_def .
qed

lemma follows_commit_persisted [follow]: "follows N {mt_intent M} (commit_persisted V M lease message) none"
  unfolding commit_persisted_def by (rule follows_subset, (rule follow | auto)+)

lemma follows_enqueue_user [follow]:
  assumes "minted_ok M"
  shows "follows N (enqueue_ids M) (enqueue_user_message V M i role content files) none"
  unfolding enqueue_user_message_def enqueue_ids_def
  by (rule follows_subset, (rule follow assms | (use assms in \<open>auto simp: minted_ok_def\<close>)[1])+)

lemma follows_sends [follow]:
  assumes "minted_ok M"
  shows "follows N (enqueue_ids M) (send_message V M content files) none"
    and "follows N (enqueue_ids M) (send_message_to_agent V M i content files) none"
  unfolding send_message_def send_message_to_agent_def
  by (rule follows_subset, (rule follow assms | auto)+)+

lemma follows_agent_message [follow]:
  assumes "minted_ok M"
  shows "follows N (enqueue_ids M) (send_agent_message_from_agent V M from to content files) none"
  unfolding send_agent_message_from_agent_def enqueue_ids_def
  by (rule follows_subset, (rule follow assms | (use assms in \<open>auto simp: minted_ok_def\<close>)[1])+)

lemma follows_shutdown [follow]:
  assumes "minted_ok M"
  shows "follows N (enqueue_ids M) (shutdown_agent V M caller target reason) none"
  unfolding shutdown_agent_def enqueue_ids_def
  by (rule follows_subset, (rule follow assms | (use assms in \<open>auto simp: minted_ok_def\<close>)[1])+)

lemma follows_existing [follow]:
  assumes "minted_ok M"
  shows "follows N (enqueue_ids M) (enqueue_existing_work V M i source message binding) none"
  unfolding enqueue_existing_work_def enqueue_ids_def
  by (rule follows_subset, (rule follow assms | (use assms in \<open>auto simp: minted_ok_def\<close>)[1])+)

lemma follows_settle [follow]:
  assumes "minted_ok M"
  shows "follows N (enqueue_ids M) (enqueue_leader_settle_signal V M i source) none"
  unfolding enqueue_leader_settle_signal_def by (rule follows_subset, (rule follow assms | auto)+)

end
