(* ===== verification/Team_Attach.thy ===== *)
theory Team_Attach
  imports Team_Control
begin

text \<open>
  The attach of a member's runtime, \<open>attach_member_runtime\<close> and \<open>spawn_attach_agent_process_bg\<close> of
  \<open>session.rs\<close>, with \<open>register_event_loop\<close> and \<open>cleanup_stale_member_runtime_task\<close> of \<open>service.rs\<close>:
  \<open>attach_started\<close> comes before the call of the provisioner and \<open>attach_returned\<close> handles its result. Which
  session of the team the service shows at that time is an argument; the broadcasts of the status are left out.
\<close>

datatype shown_session = Shown_This | Shown_Other | Shown_None

definition attach_started :: "mints \<Rightarrow> team_agent \<Rightarrow> attach_lease \<Rightarrow> (('c, 'cdb, 'db) session, unit) sess" where
  "attach_started M agent lease =
     sbind (on_work (infallible (set_runtime_constraint (port M) (ag_slot_id agent)
       (RcStarting (aw_operation_id (al_waiter lease)))))) (\<lambda>_. sret ())"

definition sanitize_member_runtime_failure :: "team_error \<Rightarrow> runtime_failure" where
  "sanitize_member_runtime_failure e =
     \<lparr>rf_classification = (case e of
        DatabaseError _ \<Rightarrow> ''runtime_configuration_failed''
      | SessionNotFound _ \<Rightarrow> ''session_stopped''
      | _ \<Rightarrow> ''runtime_start_failed''),
      rf_public_reason = ''Agent runtime failed to start''\<rparr>"

definition cleanup_stale_task :: "shown_session \<Rightarrow> string \<Rightarrow> (('c, 'cdb, 'db) session, unit) sess" where
  "cleanup_stale_task shown conv = (if shown = Shown_Other then sret () else emit_effect (Fx_Kill conv))"

definition on_registry ::
  "(event_loops \<Rightarrow> (registration_error + unit) \<times> event_loops)
   \<Rightarrow> (('c, 'cdb, 'db) session, registration_error + unit) sess" where
  "on_registry f s = (case f (sx_loops s) of (r, l) \<Rightarrow> Ret (Inr r, s\<lparr>sx_loops := l\<rparr>))"

definition register_event_loop :: "string \<Rightarrow> (('c, 'cdb, 'db) session, registration_error + bool) sess" where
  "register_event_loop i = sbind (on_registry (loops_spawn i)) (\<lambda>r. sret (case r of
     Inr _ \<Rightarrow> Inr True
   | Inl Reg_Duplicate \<Rightarrow> Inr False
   | Inl Reg_Stopped \<Rightarrow> Inl Reg_Stopped))"

definition attach_failed ::
  "('m, 'c, 'cdb, 'db) session_env \<Rightarrow> mints \<Rightarrow> shown_session \<Rightarrow> team_agent \<Rightarrow> attach_lease \<Rightarrow> team_error
   \<Rightarrow> (('c, 'cdb, 'db) session, unit) sess" where
  "attach_failed V M shown agent lease error =
     sbind (cleanup_stale_task shown (ag_conversation_id agent)) (\<lambda>_.
     let failure = sanitize_member_runtime_failure error; i = ag_slot_id agent in
     sbind (on_members (commit_failed lease failure)) (\<lambda>owned.
     if \<not> owned then sret () else
     sbind (attempt (on_team (set_status i StError))) (\<lambda>_.
     sbind (on_work (infallible (set_runtime_constraint (port M) i
         (RcFailed (aw_operation_id (al_waiter lease)) (rf_classification failure))))) (\<lambda>update.
     sbind (attempt (mark_terminal V (rcu_terminal_message_ids update))) (\<lambda>_.
     sbind (attempt (notify_leader_spawn_attach_failed V M i (rf_public_reason failure))) (\<lambda>_. sret ()))))))"

definition registration_failure :: runtime_failure where
  "registration_failure = \<lparr>rf_classification = ''event_loop_registration_failed'',
     rf_public_reason = ''Agent runtime event loop could not be registered''\<rparr>"

definition registration_failed ::
  "mints \<Rightarrow> shown_session \<Rightarrow> team_agent \<Rightarrow> attach_lease \<Rightarrow> (('c, 'cdb, 'db) session, unit) sess" where
  "registration_failed M shown agent lease =
     sbind (cleanup_stale_task shown (ag_conversation_id agent)) (\<lambda>_.
     sbind (on_members (commit_failed lease registration_failure)) (\<lambda>_.
     sbind (on_work (infallible (set_runtime_constraint (port M) (ag_slot_id agent)
         (RcFailed (aw_operation_id (al_waiter lease)) (rf_classification registration_failure))))) (\<lambda>_. sret ())))"

definition withdraw_loop ::
  "bool \<Rightarrow> shown_session \<Rightarrow> team_agent \<Rightarrow> (('c, 'cdb, 'db) session, unit) sess" where
  "withdraw_loop registered shown agent =
     sbind (if registered then on_loops (loops_remove (ag_slot_id agent)) else sret ()) (\<lambda>_.
       cleanup_stale_task shown (ag_conversation_id agent))"

definition publish_ready ::
  "mints \<Rightarrow> string \<Rightarrow> (('c, 'cdb, 'db) session, unit) sess" where
  "publish_ready M i =
     sbind (on_work (infallible (set_runtime_constraint (port M) i RcReady))) (\<lambda>_. on_loops (loops_notify i))"

text \<open>The outcome is None where the caller waits for the one that the registry sends.\<close>

definition attach_succeeded ::
  "mints \<Rightarrow> shown_session \<Rightarrow> team_agent \<Rightarrow> attach_lease \<Rightarrow> (('c, 'cdb, 'db) session, attach_outcome option) sess" where
  "attach_succeeded M shown agent lease =
     sbind (sread (\<lambda>s. Inr (owns_attach lease (sx_members s)))) (\<lambda>owns.
     if \<not> owns then sbind (cleanup_stale_task shown (ag_conversation_id agent)) (\<lambda>_. sret None) else
     sbind (sread (\<lambda>s. Inr (loops_has (ag_slot_id agent) (sx_loops s)))) (\<lambda>has.
     sbind (if has then sret (Inr False) else register_event_loop (ag_slot_id agent)) (\<lambda>r. case r of
       Inl _ \<Rightarrow> sbind (registration_failed M shown agent lease) (\<lambda>_. sret None)
     | Inr registered \<Rightarrow>
        sbind (on_members (commit_ready lease)) (\<lambda>committed.
        if \<not> committed then sbind (withdraw_loop registered shown agent) (\<lambda>_. sret None) else
        sbind (publish_ready M (ag_slot_id agent)) (\<lambda>_.
        if shown \<noteq> Shown_This
        then sbind (withdraw_loop registered shown agent) (\<lambda>_. sret (Some Ao_Session_Stopped))
        else sret (Some Ao_Ready))))))"

definition attach_returned ::
  "('m, 'c, 'cdb, 'db) session_env \<Rightarrow> mints \<Rightarrow> shown_session \<Rightarrow> team_agent \<Rightarrow> attach_lease \<Rightarrow> team_error + unit
   \<Rightarrow> (('c, 'cdb, 'db) session, attach_outcome option) sess" where
  "attach_returned V M shown agent lease result = (case result of
     Inl e \<Rightarrow> sbind (attach_failed V M shown agent lease e) (\<lambda>_. sret None)
   | Inr _ \<Rightarrow> attach_succeeded M shown agent lease)"

text \<open>What \<open>spawn_attach_agent_process_bg\<close> does with the outcome.\<close>

definition attach_outcome_seen ::
  "mints \<Rightarrow> shown_session \<Rightarrow> string \<Rightarrow> attach_outcome \<Rightarrow> (('c, 'cdb, 'db) session, unit) sess" where
  "attach_outcome_seen M shown i outcome =
     (if outcome \<noteq> Ao_Ready \<or> shown \<noteq> Shown_This then sret () else publish_ready M i)"

section \<open>A registration that fails\<close>

text \<open>
  \<open>event_loop_registration_failed\<close>: the messages whose work the new constraint ends are neither marked read nor is
  the lead told, as they are where the provisioner fails; the tables stay as they are.
\<close>

lemma registration_failure_leaves_messages:
  assumes "registration_failed M shown agent lease s = Ret (r, s')"
  shows "sx_team s' = sx_team s"
  using assms
  by (auto simp: registration_failed_def cleanup_stale_task_def sbind_def on_members_def on_work_def infallible_def
      emit_effect_def sret_def split: prod.splits sum.splits if_splits)
    (metis (full_types) old.sum.exhaust old.unit.exhaust)+

end
