(* ===== verification/Session_World.thy ===== *)
theory Session_World
  imports Session_Facts Team_Attach
begin

text \<open>
  The calls of a session, with any arguments and with identifiers not used before; a turn calls back with a batch it was
  given. Each operation of the coordinator that a call contains is one step of the coordinator's system (\<open>follows_call\<close>).
  An operation of a session that awaits several times (\<open>prepare_next_batch\<close>, \<open>cancel_team_run\<close>, the enqueueing ones) is the sequence of
  its parts without another operation in between; where the program starts work and comes back to it (the turns,
  the attach of a runtime) the two halves are calls of their own.
\<close>

section \<open>The remaining operations\<close>

fun handed :: "prepare_result \<Rightarrow> work_batch set" where
  "handed (Pb_Execute b input) = {b}"
| "handed _ = {}"

lemma follows_retry_none: "b \<in> N \<Longrightarrow> follows N {} (on_work (infallible (retry_start (port M) b))) none"
  by (rule follows_weaken [OF follows_retry]) auto

lemma follows_prepare_claimed:
  "follows {batch} {} (prepare_claimed V M agent i unread batch) handed"
  unfolding prepare_claimed_def Let_def
  by (rule follows_subset, (rule follow follows_retry_none | (simp)[1])+)

lemma follows_prepare:
  assumes "minted_ok M"
  shows "follows N (batch_ids_of M) (prepare_next_batch V M i) handed"
proof -
  have decide: "follows ({} \<union> claimed d) {} (case d of
      Claim batch \<Rightarrow> prepare_claimed V M agent i unread batch
    | SettleSignals ids \<Rightarrow> sret (Pb_Settle_Signals ids)
    | WaitingForCompletion \<Rightarrow> sret Pb_Waiting_For_Completion
    | Blocked _ \<Rightarrow> sret Pb_Blocked
    | Quiescent \<Rightarrow> sret Pb_Quiescent) handed" for d agent unread
    using follows_prepare_claimed by (cases d) (auto intro: follows_sret)
  have next': "follows {} ({mt_batch M} \<union> {}) (sbind (on_work (infallible (next_work (port M) (mt_batch M) i))) (\<lambda>d. case d of
      Claim batch \<Rightarrow> prepare_claimed V M agent i unread batch
    | SettleSignals ids \<Rightarrow> sret (Pb_Settle_Signals ids)
    | WaitingForCompletion \<Rightarrow> sret Pb_Waiting_For_Completion
    | Blocked _ \<Rightarrow> sret Pb_Blocked
    | Quiescent \<Rightarrow> sret Pb_Quiescent)) handed" for agent unread
    by (rule follows_sbind [OF follows_next decide]) simp
  have "follows {} (batch_ids_of M) (prepare_next_batch V M i) handed"
    unfolding prepare_next_batch_def Let_def batch_ids_of_def
    by (rule follows_subset, (rule next' follow follows_none [OF follows_reconcile [OF assms]]
        | (use assms in \<open>auto simp: minted_ok_def\<close>)[1])+)
  then show ?thesis by (rule follows_weaken) auto
qed

section \<open>Families of generated values\<close>

definition all_ids :: "mints \<Rightarrow> string set" where
  "all_ids M = enqueue_ids M \<union> batch_ids_of M"

definition mints_ok :: "(nat \<Rightarrow> nat \<Rightarrow> mints) \<Rightarrow> bool" where
  "mints_ok Ms \<longleftrightarrow> (\<forall>j k. minted_ok (Ms j k))
     \<and> (\<forall>j k j' k'. (j, k) \<noteq> (j', k') \<longrightarrow> all_ids (Ms j k) \<inter> all_ids (Ms j' k') = {})"

lemma mints_okD:
  assumes "mints_ok Ms"
  shows "minted_ok (Ms j k)" and "(j, k) \<noteq> (j', k') \<Longrightarrow> enqueue_ids (Ms j k) \<inter> enqueue_ids (Ms j' k') = {}"
  using assms unfolding mints_ok_def all_ids_def by blast+

definition row_ids :: "(nat \<Rightarrow> nat \<Rightarrow> mints) \<Rightarrow> nat \<Rightarrow> nat \<Rightarrow> string set" where
  "row_ids Ms j k = (\<Union>n \<in> {k..}. enqueue_ids (Ms j n))"

lemma row_ids_Suc: "row_ids Ms j k = enqueue_ids (Ms j k) \<union> row_ids Ms j (Suc k)"
proof -
  have "{k..} = insert k {Suc k..}" by auto
  then show ?thesis by (simp add: row_ids_def)
qed

lemma row_ids_disjoint:
  assumes "mints_ok Ms"
  shows "enqueue_ids (Ms j k) \<inter> row_ids Ms j (Suc k) = {}"
proof -
  have "enqueue_ids (Ms j k) \<inter> enqueue_ids (Ms j n) = {}" if "n \<in> {Suc k..}" for n
    by (rule mints_okD(2) [OF assms]) (use that in auto)
  then show ?thesis unfolding row_ids_def Int_UN_distrib by blast
qed

lemma follows_recover_messages:
  assumes "mints_ok Ms"
  shows "follows N (row_ids Ms j k) (recover_messages V (\<lambda>n. Ms j (k + n)) i ms) none"
proof (induction ms arbitrary: k)
  case Nil
  show ?case unfolding recover_messages.simps by (rule follows_subset, rule follow) auto
next
  case (Cons m ms)
  from follows_then [OF follows_existing [OF mints_okD(1) [OF assms]] Cons.IH [of "Suc k"] row_ids_disjoint [OF assms]]
  show ?case by (simp add: row_ids_Suc [of Ms j k])
qed

lemma rows_disjoint:
  assumes "mints_ok Ms"
  shows "row_ids Ms j 0 \<inter> (\<Union>n \<in> {Suc j..}. row_ids Ms n 0) = {}"
proof -
  have "enqueue_ids (Ms j k) \<inter> enqueue_ids (Ms n k') = {}" if "n \<in> {Suc j..}" for n k k'
    by (rule mints_okD(2) [OF assms]) (use that in auto)
  then show ?thesis unfolding row_ids_def Int_UN_distrib Int_UN_distrib2 by blast
qed

lemma follows_recover_members:
  assumes "mints_ok Ms"
  shows "follows N (\<Union>n \<in> {j..}. row_ids Ms n 0) (recover_members V (\<lambda>n. Ms (j + n)) as) none"
proof (induction as arbitrary: j)
  case Nil
  show ?case unfolding recover_members.simps by (rule follows_subset, rule follow) auto
next
  case (Cons a as)
  have j: "{j..} = insert j {Suc j..}" by auto
  note messages = follows_recover_messages [OF assms, of N j 0 V "ag_slot_id a", simplified]
  note rest = Cons.IH [of "Suc j", simplified]
  show ?case unfolding recover_members.simps Let_def j UN_insert
    by (rule follows_subset, (rule follow messages rest | (use rows_disjoint [OF assms, of j] in \<open>auto\<close>)[1])+)
qed

lemma follows_recovery [follow]:
  assumes "mints_ok Ms"
  shows "follows N (\<Union>n. row_ids Ms n 0) (try_start_recovery_drain V Ms) none"
proof (rule followsI)
  fix s :: "('a, 'b, 'c) session" and B U
  assume a: "system_inv (system_of s B U)" "N \<subseteq> B" "(\<Union>n. row_ids Ms n 0) \<inter> U = {}"
  have "follows N ({} \<union> (\<Union>n \<in> {0..}. row_ids Ms n 0)) (sbind members_of (recover_members V Ms)) none"
    using follows_recover_members [OF assms, of N 0 V] by (intro follows_then follow) simp_all
  moreover have "system_inv (system_of (s\<lparr>sx_recovery_scan_completed := True\<rparr>) B U)"
    using a(1) by (simp add: system_of_def)
  ultimately obtain r s' B' U' where
    "sbind members_of (recover_members V Ms) (s\<lparr>sx_recovery_scan_completed := True\<rparr>) = Ret (r, s')"
    "step\<^sup>*\<^sup>* (system_of (s\<lparr>sx_recovery_scan_completed := True\<rparr>) B U) (system_of s' B' U')" "B \<subseteq> B'" "U' \<subseteq> U \<union> (\<Union>n. row_ids Ms n 0)"
    using a(2,3) by (elim followsE [where B = B and U = U]) auto
  note run = this
  have "try_start_recovery_drain V Ms s = Ret (Inr [], s)" if "sx_recovery_scan_completed s"
    using that by (simp add: try_start_recovery_drain_def sret_def)
  moreover have "try_start_recovery_drain V Ms s = Ret (r, s')" if "\<not> sx_recovery_scan_completed s"
    using that run(1) by (simp add: try_start_recovery_drain_def)
  moreover have "system_of (s\<lparr>sx_recovery_scan_completed := True\<rparr>) B U = system_of s B U" by (simp add: system_of_def)
  ultimately show "\<exists>r s' B' U'. try_start_recovery_drain V Ms s = Ret (r, s')
      \<and> step\<^sup>*\<^sup>* (system_of s B U) (system_of s' B' U') \<and> B \<subseteq> B' \<and> U' \<subseteq> U \<union> (\<Union>n. row_ids Ms n 0) \<and> (\<forall>x. r = Inr x \<longrightarrow> none x \<subseteq> B')"
    using run by (cases "sx_recovery_scan_completed s") (simp, blast, metis empty_subsetI)
qed

lemma follows_mirror [follow]: "follows N {} (mirror_unread_to_conversation V bs input) none"
proof -
  have messages: "follows N {} (mirror_messages V bs agents n conv ms) none" for agents n conv ms
  proof (induction ms arbitrary: bs)
    case Nil
    show ?case unfolding mirror_messages.simps by (rule follow) simp
  next
    case (Cons m ms)
    show ?case unfolding mirror_messages.simps by (rule follows_subset, (rule follow Cons.IH | (simp)[1])+)
  qed
  show ?thesis
    unfolding mirror_unread_to_conversation_def
    by (rule follows_subset, (rule follow messages | (auto)[1])+)
qed

lemma follows_wake_leader [follow]:
  assumes "minted_ok M"
  shows "follows N (enqueue_ids M) (wake_leader_after_recovery_message V M i source) none"
  unfolding wake_leader_after_recovery_message_def
  by (rule follows_subset, (rule follow assms | (auto)[1])+)

lemma follows_interrupted [follow]:
  assumes "minted_ok M"
  shows "follows N (enqueue_ids M) (notify_leader_child_interrupted V M i reason) none"
  unfolding notify_leader_child_interrupted_def
  by (rule follows_subset, (rule follow assms | (auto)[1])+)

lemma follows_attach_failed [follow]:
  assumes "minted_ok M"
  shows "follows N (enqueue_ids M) (notify_leader_spawn_attach_failed V M i error) none"
  unfolding notify_leader_spawn_attach_failed_def
  by (rule follows_subset, (rule follow assms | (auto)[1])+)

lemma follows_ask [follow]: "follows N {} (ask_cancel V conv turn) none"
  unfolding ask_cancel_def by (rule follows_subset, (rule follow | (auto)[1])+)

lemma follows_event [follow]: "follows N {} (broadcast_child_turn e status run i role conv turn) none"
  unfolding broadcast_child_turn_def by (rule follow)

lemma follows_targets [follow]: "follows N {} (cancel_targets V run ts) none"
proof (induction ts)
  case Nil
  show ?case unfolding cancel_targets.simps by (rule follow) simp
next
  case (Cons t ts)
  show ?case unfolding cancel_targets.simps by (rule follows_subset, (rule follow Cons.IH | (auto)[1])+)
qed

lemma follows_cancel_team_run [follow]: "follows N {} (cancel_team_run V M run reason) none"
  unfolding cancel_team_run_def require_active_run_def by (rule follows_subset, (rule follow | (auto)[1])+)

lemma follows_cancel_batch [follow]: "b \<in> N \<Longrightarrow> follows N {} (cancel_batch_of M b cls) none"
  unfolding cancel_batch_of_def by (rule follows_weaken [OF follows_cancel]) auto

lemma follows_then_holding:
  assumes "follows {} A m G" and "\<And>x. follows (N \<union> G x) C (f x) H" and "A \<inter> C = {}"
  shows "follows N (A \<union> C) (sbind m f) H"
  by (rule follows_sbind [OF follows_weaken [OF assms(1)] assms(2,3)]) auto

lemma follows_cancel_child [follow]:
  assumes "minted_ok M"
  shows "follows N (enqueue_ids M) (cancel_child_turn V M run i reason) none"
proof -
  have known: "follows (N \<union> set_option (sw_active_batch snap)) {} (sread (\<lambda>_. ok_or e (sw_active_batch snap))) (\<lambda>b. {b})" for snap e
    unfolding follows_def sread_def by (auto simp: ok_or_eq_Inr)
  show ?thesis
    unfolding cancel_child_turn_def
    apply (rule follows_subset)
    apply (rule follows_then_holding [OF follows_snapshot])
    apply (rule follows_sbind [OF known])
    by (rule follow assms | (auto)[1])+
qed

lemma follows_pause_work [follow]:
  assumes "minted_ok M"
  shows "follows N (enqueue_ids M) (pause_slot_work V M run i reason) none"
proof -
  have interrupt: "follows N' (enqueue_ids M) (interrupt_batch V M run i role reason t) none" if "bc_batch t \<in> N'" for N' role t
    unfolding interrupt_batch_def by (rule follows_subset, (rule follow assms that | (auto)[1])+)
  have after: "follows (N' \<union> bc_batch ` set_option target) (enqueue_ids M) (case target of
      None \<Rightarrow> sret () | Some t \<Rightarrow> interrupt_batch V M run i role reason t) none" for N' target role
    by (cases target) (auto intro!: interrupt intro: follows_subset [OF follows_sret])
  have pause: "follows N ({} \<union> enqueue_ids M) (sbind (on_work (infallible (pause_slot i))) (\<lambda>outcome. case pw_cancel_target outcome of
       None \<Rightarrow> sret ()
     | Some t \<Rightarrow> interrupt_batch V M run i (sw_role (pw_slot outcome)) reason t)) none"
    by (rule follows_then_holding [OF follows_pause after]) simp
  show ?thesis unfolding pause_slot_work_def require_active_run_def
    by (rule follows_subset, (rule pause follow | (auto)[1])+)
qed

lemma follows_member_changes [follow]:
  "follows N {} (session_add_agent a) none" "follows N {} (reserve_dynamic_member_attach a) none"
  "follows N {} (session_rename_agent V i name) none"
  unfolding session_add_agent_def reserve_dynamic_member_attach_def session_rename_agent_def by (rule follow)+

lemma follows_system_message [follow]: "follows N {} (project_team_system_message V M i conv message content) none"
proof -
  have "follows N {} (\<lambda>s. project_bubble V (mt_bubble M) (team_system_visible (session_team_id s) i conv content message) s) none"
    by (rule follow)
  then show ?thesis unfolding project_team_system_message_def .
qed

lemma follows_add_manual [follow]:
  assumes "mints_ok Ms"
  shows "follows N (enqueue_ids (Ms 0 0) \<union> enqueue_ids (Ms 0 1)) (add_manual_agent V (Ms 0) a) none"
  unfolding add_manual_agent_def
  by (rule follows_subset, (rule follow mints_okD(1) [OF assms]
      | (use mints_okD(2) [OF assms, of 0 0 0 1] in \<open>auto\<close>)[1])+)

lemma follows_removed_notice [follow]:
  assumes "minted_ok M"
  shows "follows N (enqueue_ids M) (notify_leader_membership_removed V M a) none"
  unfolding notify_leader_membership_removed_def by (rule follows_subset, (rule follow assms | (auto)[1])+)

lemma follows_remove [follow]: "follows N {} (session_remove_agent V M i) none"
proof -
  have work: "follows N {} (remove_member_work V M i) none"
    unfolding remove_member_work_def by (rule follows_subset, (rule follow | (auto)[1])+)
  have finish: "follows N {} (finish_member_removal r) none" for r
    unfolding finish_member_removal_def
    by (cases r; simp; rule follows_subset, (rule follow | (auto)[1])+)
  have body: "follows N {} (sbind m (\<lambda>_.
        sbind (remove_member_work V M i) (\<lambda>_.
        sbind (on_loops (loops_remove i)) (\<lambda>_.
        sbind (on_team (remove_agent i)) (\<lambda>conversation.
        sbind (case conversation of None \<Rightarrow> sret () | Some conv \<Rightarrow> emit_effect (Fx_Kill conv)) (\<lambda>_.
        finish_member_removal r)))))) none" if "follows N {} m none" for r and m :: "(('a, 'b, 'c) session, unit) sess"
    by (rule follows_subset, (rule that work finish follow | (auto)[1])+)
  have "follows N {} (case r of Br_Join w \<Rightarrow> sret () | _ \<Rightarrow>
        sbind (case r of Br_Start lease \<Rightarrow>
            sbind (on_work (infallible (set_runtime_constraint (port M) i (RcRemoving (rl_operation_id lease))))) (\<lambda>_. sret ())
          | _ \<Rightarrow> sret ()) (\<lambda>_.
        sbind (remove_member_work V M i) (\<lambda>_.
        sbind (on_loops (loops_remove i)) (\<lambda>_.
        sbind (on_team (remove_agent i)) (\<lambda>conversation.
        sbind (case conversation of None \<Rightarrow> sret () | Some conv \<Rightarrow> emit_effect (Fx_Kill conv)) (\<lambda>_.
        finish_member_removal r)))))) none" for r :: begin_remove
    by (cases r; simp only: begin_remove.case; (rule body)?; rule follows_subset, (rule follow | (auto)[1])+)
  then show ?thesis
    unfolding session_remove_agent_def
    by (intro follows_subset [of N "{} \<union> {}" _ none "{}"]) (rule follow | assumption | (auto)[1])+
qed

lemma follows_agent_finish [follow]: "follows N {} (on_agent_finish V M now conv is_error) none"
  unfolding on_agent_finish_def by (rule follows_subset, (rule follow | (auto)[1])+)

lemma follows_stop_session [follow]: "follows N {} (stop_session M) none"
  unfolding stop_session_def by (rule follows_subset, (rule follow | (auto)[1])+)

section \<open>Turns\<close>

lemma follows_begin_turn [follow]: "follows N {} (begin_agent_turn V bs i b input) none"
  unfolding begin_agent_turn_def by (rule follows_subset, (rule follow | (auto)[1])+)

lemma follows_announce [follow]: "follows N {} (announce_child_turn e status run q turn) none"
  unfolding announce_child_turn_def by (rule follows_subset, (rule follow | (auto)[1])+)

lemma follows_turn_started [follow]:
  assumes "b \<in> N"
  shows "follows N {} (turn_started V M b q turn) none"
proof -
  have started: "follows N {} (on_work (\<lambda>c. case mark_started (port M) now b turn c of (r, c') \<Rightarrow> Ret (Inr r, c'))) none" for now
    by (rule follows_weaken [OF follows_started]) (use assms in auto)
  have after: "follows N {} (case r of
       StartAccepted \<Rightarrow> announce_child_turn Ct_Started RunRunning (rq_team_run_id q) q turn
     | CancelImmediately \<Rightarrow>
        sbind (attempt (ask_cancel V (rq_conversation_id q) turn)) (\<lambda>_.
        sbind (cancel_batch_of M b ''late_start_cancelled'') (\<lambda>_.
        announce_child_turn Ct_Cancelled RunCancelled (rq_team_run_id q) q turn))
     | StartStaleOwner \<Rightarrow> sret ()) none" for r
    by (cases r; simp; rule follows_subset, (rule follow assms | (auto)[1])+)
  show ?thesis unfolding turn_started_def
    by (rule follows_subset, (rule started after follow | (auto)[1])+)
qed

lemma follows_end_turn [follow]:
  assumes "b \<in> N" and "minted_ok M"
  shows "follows N (enqueue_ids M) (end_turn V M b q started outcome) none"
proof -
  have fail: "follows N {} (on_work (infallible (fail_batch (port M) b cls))) none" for cls
    by (rule follows_weaken [OF follows_fail]) (use assms in auto)
  have complete: "follows N {} (on_work (infallible (complete_batch (port M) b))) none"
    by (rule follows_weaken [OF follows_complete]) (use assms in auto)
  have read: "follows N {} (mark_batch_messages_read V b) none"
    unfolding mark_batch_messages_read_def by (rule follows_subset, (rule follow | (auto)[1])+)
  have close: "follows N {} (close_batch M i b success) none" for i success
    unfolding close_batch_def by (rule follows_subset, (rule follow fail complete | (auto)[1])+)
  have announce: "follows N {} (completed_turns q conv turn status rs) none" for conv turn status rs
    by (induction rs) (simp_all only: completed_turns.simps, (rule follows_subset, (rule follow | assumption | (auto)[1])+)+)
  have settle: "follows N (enqueue_ids M) (settle_turn V M i) none" for i
    unfolding settle_turn_def by (rule follows_subset, (rule follow assms | (auto)[1])+)
  show ?thesis
    unfolding end_turn_def
    by (cases outcome; simp only: turn_outcome.case;
        rule follows_subset, (rule follow fail close read announce settle follows_retry_none assms | (auto)[1])+)
qed

section \<open>The attach of a runtime\<close>

lemma follows_cleanup [follow]: "follows N {} (cleanup_stale_task shown conv) none"
  unfolding cleanup_stale_task_def by (rule follows_subset, (rule follow | (auto)[1])+)

lemma follows_registry [follow]: "follows N {} (on_registry f) none"
  by (rule follows_quiet_any) (simp add: on_registry_def split: prod.split)

lemma follows_register [follow]: "follows N {} (register_event_loop i) none"
  unfolding register_event_loop_def by (rule follows_subset, (rule follow | (auto)[1])+)

lemma follows_attach_started [follow]: "follows N {} (attach_started M agent lease) none"
  unfolding attach_started_def by (rule follows_subset, (rule follow | (auto)[1])+)

lemma follows_publish_ready [follow]: "follows N {} (publish_ready M i) none"
  unfolding publish_ready_def by (rule follows_subset, (rule follow | (auto)[1])+)

lemma follows_withdraw [follow]: "follows N {} (withdraw_loop registered shown agent) none"
  unfolding withdraw_loop_def by (rule follows_subset, (rule follow | (auto)[1])+)

lemma follows_registration_failed [follow]: "follows N {} (registration_failed M shown agent lease) none"
  unfolding registration_failed_def by (rule follows_subset, (rule follow | (auto)[1])+)

lemma follows_failed_attach [follow]:
  assumes "minted_ok M"
  shows "follows N (enqueue_ids M) (attach_failed V M shown agent lease e) none"
  unfolding attach_failed_def Let_def by (rule follows_subset, (rule follow assms | (auto)[1])+)

lemma follows_attach_returned [follow]:
  assumes "minted_ok M"
  shows "follows N (enqueue_ids M) (attach_returned V M shown agent lease result) none"
proof -
  have ok: "follows N {} (attach_succeeded M shown agent lease) none"
    unfolding attach_succeeded_def by (rule follows_subset, (rule follow | (auto)[1])+)
  show ?thesis unfolding attach_returned_def
    by (rule follows_subset, (rule ok follow assms | (auto)[1])+)
qed

lemma follows_outcome_seen [follow]: "follows N {} (attach_outcome_seen M shown i outcome) none"
  unfolding attach_outcome_seen_def by (rule follows_subset, (rule follow | (auto)[1])+)

section \<open>Calls\<close>

text \<open>
  The operations of a session with their arguments, as its callers (the handlers of the team service, the tools of the
  agents and the event loops) use them, and the calls of the registries that the service makes on a session.
\<close>

datatype session_call =
    Sc_Send string "string list option"
  | Sc_Send_To string string "string list option"
  | Sc_Agent_Message string string string "string list option"
  | Sc_Shutdown_Agent string string "string option"
  | Sc_Existing_Work string work_source "string option" causal_binding
  | Sc_Settle_Signal string work_source
  | Sc_Recovery
  | Sc_Prepare string
  | Sc_Signals string "string list"
  | Sc_Wake_Leader string work_source
  | Sc_Interrupted string "string option"
  | Sc_Attach_Failure string string
  | Sc_Cancel_Run string "string option"
  | Sc_Cancel_Child string string "string option"
  | Sc_Pause string string "string option"
  | Sc_Add_Agent team_agent
  | Sc_Add_Manual team_agent
  | Sc_Membership_Removed team_agent
  | Sc_Remove_Agent string
  | Sc_Rename_Agent string string
  | Sc_Agent_Finish int string bool
  | Sc_Stop
  | Sc_Begin_Turn string work_batch wake_input
  | Sc_Turn_Started work_batch turn_request string
  | Sc_End_Turn work_batch turn_request bool turn_outcome
  | Sc_Seed_Ready string
  | Sc_Reserve_Attach string bool
  | Sc_Reserve_Repair string
  | Sc_Restore_Removal remove_lease runtime_failure
  | Sc_Register_Loop string
  | Sc_Attach_Started team_agent attach_lease
  | Sc_Attach_Returned shown_session team_agent attach_lease "team_error + unit"
  | Sc_Attach_Seen shown_session string attach_outcome

text \<open>The batches that a call of an event loop brings back.\<close>

fun call_batches :: "session_call \<Rightarrow> work_batch set" where
  "call_batches (Sc_Begin_Turn i b input) = {b}"
| "call_batches (Sc_Turn_Started b q turn) = {b}"
| "call_batches (Sc_End_Turn b q started outcome) = {b}"
| "call_batches _ = {}"

definition quietly :: "('s, 'a) sess \<Rightarrow> ('s, prepare_result option) sess" where
  "quietly m = sbind m (\<lambda>_. sret None)"

fun call_session ::
  "('m, 'c, 'cdb, 'db) session_env \<Rightarrow> (nat \<Rightarrow> nat \<Rightarrow> mints) \<Rightarrow> session_call
   \<Rightarrow> (('c, 'cdb, 'db) session, prepare_result option) sess" where
  "call_session V Ms (Sc_Send content files) = quietly (send_message V (Ms 0 0) content files)"
| "call_session V Ms (Sc_Send_To i content files) = quietly (send_message_to_agent V (Ms 0 0) i content files)"
| "call_session V Ms (Sc_Agent_Message from to content files) =
     quietly (send_agent_message_from_agent V (Ms 0 0) from to content files)"
| "call_session V Ms (Sc_Shutdown_Agent caller target reason) = quietly (shutdown_agent V (Ms 0 0) caller target reason)"
| "call_session V Ms (Sc_Existing_Work i source message binding) =
     quietly (enqueue_existing_work V (Ms 0 0) i source message binding)"
| "call_session V Ms (Sc_Settle_Signal i source) = quietly (enqueue_leader_settle_signal V (Ms 0 0) i source)"
| "call_session V Ms Sc_Recovery = quietly (try_start_recovery_drain V Ms)"
| "call_session V Ms (Sc_Prepare i) = sbind (prepare_next_batch V (Ms 0 0) i) (\<lambda>p. sret (Some p))"
| "call_session V Ms (Sc_Signals i ids) = quietly (handle_signal_intents (Ms 0 0) i ids)"
| "call_session V Ms (Sc_Wake_Leader i source) = quietly (wake_leader_after_recovery_message V (Ms 0 0) i source)"
| "call_session V Ms (Sc_Interrupted i reason) = quietly (notify_leader_child_interrupted V (Ms 0 0) i reason)"
| "call_session V Ms (Sc_Attach_Failure i error) = quietly (notify_leader_spawn_attach_failed V (Ms 0 0) i error)"
| "call_session V Ms (Sc_Cancel_Run run reason) = quietly (cancel_team_run V (Ms 0 0) run reason)"
| "call_session V Ms (Sc_Cancel_Child run i reason) = quietly (cancel_child_turn V (Ms 0 0) run i reason)"
| "call_session V Ms (Sc_Pause run i reason) = quietly (pause_slot_work V (Ms 0 0) run i reason)"
| "call_session V Ms (Sc_Add_Agent a) = quietly (session_add_agent a)"
| "call_session V Ms (Sc_Add_Manual a) = quietly (add_manual_agent V (Ms 0) a)"
| "call_session V Ms (Sc_Membership_Removed a) = quietly (notify_leader_membership_removed V (Ms 0 0) a)"
| "call_session V Ms (Sc_Remove_Agent i) = quietly (session_remove_agent V (Ms 0 0) i)"
| "call_session V Ms (Sc_Rename_Agent i name) = quietly (session_rename_agent V i name)"
| "call_session V Ms (Sc_Agent_Finish now conv is_error) = quietly (on_agent_finish V (Ms 0 0) now conv is_error)"
| "call_session V Ms Sc_Stop = quietly (stop_session (Ms 0 0))"
| "call_session V Ms (Sc_Begin_Turn i b input) = quietly (begin_agent_turn V (\<lambda>k. mt_bubble (Ms 0 k)) i b input)"
| "call_session V Ms (Sc_Turn_Started b q turn) = quietly (turn_started V (Ms 0 0) b q turn)"
| "call_session V Ms (Sc_End_Turn b q started outcome) = quietly (end_turn V (Ms 0 0) b q started outcome)"
| "call_session V Ms (Sc_Seed_Ready i) = quietly (on_members (seed_ready i))"
| "call_session V Ms (Sc_Reserve_Attach i retry) = quietly (on_members (reserve_attach_for i retry))"
| "call_session V Ms (Sc_Reserve_Repair i) = quietly (on_members (reserve_repair i))"
| "call_session V Ms (Sc_Restore_Removal lease failure) = quietly (on_members (restore_after_remove lease failure))"
| "call_session V Ms (Sc_Register_Loop i) = quietly (register_event_loop i)"
| "call_session V Ms (Sc_Attach_Started agent lease) = quietly (attach_started (Ms 0 0) agent lease)"
| "call_session V Ms (Sc_Attach_Returned shown agent lease result) =
     quietly (attach_returned V (Ms 0 0) shown agent lease result)"
| "call_session V Ms (Sc_Attach_Seen shown i outcome) = quietly (attach_outcome_seen (Ms 0 0) shown i outcome)"

fun given :: "team_error + prepare_result option \<Rightarrow> work_batch set" where
  "given (Inr (Some p)) = handed p"
| "given _ = {}"

definition minted_ids :: "(nat \<Rightarrow> nat \<Rightarrow> mints) \<Rightarrow> string set" where
  "minted_ids Ms = (\<Union>j. \<Union>k. all_ids (Ms j k))"

lemma minted_ids_include:
  "enqueue_ids (Ms j k) \<subseteq> minted_ids Ms" "batch_ids_of (Ms j k) \<subseteq> minted_ids Ms" "(\<Union>n. row_ids Ms n 0) \<subseteq> minted_ids Ms"
  "enqueue_ids (Ms j k) \<union> enqueue_ids (Ms j k') \<subseteq> minted_ids Ms" "{} \<subseteq> minted_ids Ms"
  unfolding minted_ids_def all_ids_def row_ids_def by blast+

lemma follows_quietly:
  assumes "follows N A m none" and "A \<subseteq> A'"
  shows "follows N A' (quietly m) (\<lambda>x. given (Inr x))"
proof -
  have "follows N (A \<union> {}) (quietly m) (\<lambda>x. given (Inr x))"
    unfolding quietly_def by (rule follows_then [OF assms(1)], rule follows_sret) simp_all
  then show ?thesis by (rule follows_subset) (use assms(2) in auto)
qed

lemma follows_quietly_prepare:
  assumes "minted_ok M" and "batch_ids_of M \<subseteq> A"
  shows "follows N A (sbind (prepare_next_batch V M i) (\<lambda>p. sret (Some p))) (\<lambda>x. given (Inr x))"
proof -
  have "follows N (batch_ids_of M \<union> {}) (sbind (prepare_next_batch V M i) (\<lambda>p. sret (Some p))) (\<lambda>x. given (Inr x))"
    by (rule follows_sbind [OF follows_prepare [OF assms(1)]], rule follows_sret) simp_all
  then show ?thesis by (rule follows_subset) (use assms(2) in auto)
qed

lemma follows_call:
  assumes "mints_ok Ms"
  shows "follows (call_batches c) (minted_ids Ms) (call_session V Ms c) (\<lambda>x. given (Inr x))"
  by (cases c; simp only: call_session.simps call_batches.simps;
      (rule follows_quietly | rule follows_quietly_prepare);
      (rule follow mints_okD(1) [OF assms] minted_ids_include assms follows_end_turn follows_turn_started singletonI
        minted_ids_include)+)

section \<open>Sessions\<close>

definition new_session :: "string \<Rightarrow> string \<Rightarrow> team_agent list \<Rightarrow> 'db \<Rightarrow> ('c, 'cdb) projection_world \<Rightarrow> ('c, 'cdb, 'db) session" where
  "new_session team generation agents db conv =
     \<lparr>sx_team = \<lparr>te_manager = new_team_manager team agents, te_db = db\<rparr>,
      sx_work = new_coordinator team generation (new_run_manager team),
      sx_members = new_registry generation,
      sx_loops = \<lparr>lp_notifiers = [], lp_stopped = False\<rparr>,
      sx_conv = conv, sx_recovery_scan_completed = False, sx_effects = []\<rparr>"

lemma steps_from_reachable: "step\<^sup>*\<^sup>* s s' \<Longrightarrow> reachable team g s \<Longrightarrow> reachable team g s'"
  by (induction rule: rtranclp_induct) (auto intro: by_step)

text \<open>
  A call on a session whose coordinator is in a reachable state, with new identifiers and batches that have been handed
  out, does not panic, and leaves the coordinator in a reachable state. Nothing is asked of the rest of the session, so this
  holds whatever other operations have done to it, also when they have been left at an await.
\<close>

lemma call_returns:
  assumes "reachable team g (system_of s B' U')" and "B \<subseteq> B'" and "U' \<subseteq> U"
    and "mints_ok Ms" and "minted_ids Ms \<inter> U = {}" and "call_batches c \<subseteq> B"
  obtains r s' B'' U'' where "call_session V Ms c s = Ret (r, s')" and "reachable team g (system_of s' B'' U'')"
    and "B \<union> given r \<subseteq> B''" and "U'' \<subseteq> U \<union> minted_ids Ms"
proof -
  have "call_batches c \<subseteq> B'" "minted_ids Ms \<inter> U' = {}" using assms by blast+
  with follows_call [OF assms(4), of c V] reachable_inv [OF assms(1)] obtain r s' B'' U'' where
    1: "call_session V Ms c s = Ret (r, s')" "step\<^sup>*\<^sup>* (system_of s B' U') (system_of s' B'' U'')" "B' \<subseteq> B''"
      "U'' \<subseteq> U' \<union> minted_ids Ms" and g: "\<And>x. r = Inr x \<Longrightarrow> given (Inr x) \<subseteq> B''"
    by (rule followsE) blast
  have "given r \<subseteq> B''" using g by (cases r) auto
  with 1 assms(2,3) show ?thesis
    by (intro that [OF 1(1) steps_from_reachable [OF 1(2) assms(1)]]) blast+
qed

end
