(* ===== verification/Session_Mail.thy ===== *)
theory Session_Mail
  imports Session_World Work_Properties
begin

text \<open>
  What \<open>prepare_next_batch\<close> does with the unread messages of a member, and what becomes of a message that has been
  written for an enqueue.
\<close>

section \<open>Open intents and claims\<close>

lemma open_intentE:
  assumes "state_inv g st" and "already_owned i m (cs_intents st)"
  obtains x w slot where "map_of (cs_intents st) x = Some w" and "wi_slot_id w = i" and "wi_mailbox_message_id w = Some m"
    and "\<not> is_terminal (wi_state w)" and "map_of (cs_slots st) i = Some slot"
proof -
  obtain x w where w: "map_of (cs_intents st) x = Some w" "wi_slot_id w = i" "wi_mailbox_message_id w = Some m"
    "\<not> is_terminal (wi_state w)"
    using assms(2) unfolding already_owned_iff [OF state_inv_distinct [OF assms(1)]] by blast
  moreover obtain slot where "map_of (cs_slots st) i = Some slot"
    using assms(1) w unfolding state_inv_def work_inv_def by blast
  ultimately show ?thesis by (rule that)
qed

text \<open>A slot without a batch that still has an open intent has it in a queue.\<close>

lemma quiescent_slot:
  assumes inv: "coordinator_inv c" and own: "already_owned i m (cs_intents (co_state c))"
    and run: "next_work P bid i c = Ret (Quiescent, c')"
  obtains slot where "map_of (cs_slots (co_state c)) i = Some slot" and "ss_paused slot"
proof -
  have st: "state_inv (co_session_generation c) (co_state c)" using inv by (simp add: coordinator_inv_def)
  obtain x w slot where w: "map_of (cs_intents (co_state c)) x = Some w" "wi_slot_id w = i" "wi_mailbox_message_id w = Some m"
    "\<not> is_terminal (wi_state w)" "map_of (cs_slots (co_state c)) i = Some slot"
    by (rule open_intentE [OF st own])
  note sl = state_inv_slotD [OF st w(5)]
  have J: "slot_intents (map_of (cs_intents (co_state c))) i x = Some w" using w(1,2) by simp
  have "ss_active slot = None" using run w(5) by (auto simp: next_work_def split: if_splits)
  then have "wi_state w = WsQueued"
    using slot_inv_flightD [OF sl J] w(4) by (cases "wi_state w") auto
  with slot_inv_queueI [OF sl J] have "queue (wi_priority w) slot \<noteq> []" by auto
  then have "selected_priority slot \<noteq> None"
    by (cases "wi_priority w") (auto simp: selected_priority_def)
  with run w(5) have "ss_paused slot"
    by (auto simp: next_work_def claim_batch_def Let_def split: if_splits option.splits prod.splits)
  then show ?thesis by (rule that [OF w(5)])
qed

lemma quiescent_changes_nothing:
  assumes "next_work P bid i c = Ret (Quiescent, c')"
  shows "c' = c"
  using assms by (cases rule: next_work_cases) (auto elim: claim_batch_cases)

lemma next_work_keeps_owned:
  assumes inv: "coordinator_inv c" and run: "next_work P bid i c = Ret (d, c')"
    and own: "already_owned j m (cs_intents (co_state c))"
  shows "already_owned j m (cs_intents (co_state c'))"
  using run
proof (cases rule: next_work_cases)
  case 1
  then show ?thesis using own by simp
next
  case (2 slot prio ids)
  let ?op = "saturating_add_one (cs_next_operation_id (co_state c))"
  have st: "state_inv (co_session_generation c) (co_state c)" using inv by (simp add: coordinator_inv_def)
  have st': "state_inv (co_session_generation c') (co_state c')"
    using next_work_inv [OF inv run] by (simp add: coordinator_inv_def)
  from 2(8) obtain intents msgs runs b pub where
    cl: "claim_intents bid ?op ids (cs_intents (co_state c)) [] [] = Ret (intents, msgs, runs)"
    and c': "c' = commit_runs P ((co_state c)\<lparr>
            cs_next_operation_id := wb_operation_id b, cs_intents := intents,
            cs_slots := hm_modify i (claimed_slot b) (cs_slots (co_state c))\<rparr>) pub c"
    by (elim claim_batch_cases) blast
  have I: "map_of (cs_intents (co_state c')) = restate (set_states ids (WsStarting bid ?op)) (map_of (cs_intents (co_state c)))"
  proof -
    have "map_of intents = restate (set_states ids (WsStarting bid ?op)) (map_of (cs_intents (co_state c)))"
      using claim_intents_Ret [OF cl] by (simp only: map_of_modify_all_set_state)
    then show ?thesis by (simp add: c')
  qed
  from own obtain x w where w: "map_of (cs_intents (co_state c)) x = Some w" "wi_slot_id w = j"
    "wi_mailbox_message_id w = Some m" "\<not> is_terminal (wi_state w)"
    unfolding already_owned_iff [OF state_inv_distinct [OF st]] by blast
  then have "map_of (cs_intents (co_state c')) x = Some (set_state (set_states ids (WsStarting bid ?op) x w) w)"
    "\<not> is_terminal (set_states ids (WsStarting bid ?op) x w)"
    by (simp_all add: I restate_def)
  with w(2,3) show ?thesis
    unfolding already_owned_iff [OF state_inv_distinct [OF st']] by force
qed

text \<open>A batch has at least one message, and each is that of an intent that was queued for the slot.\<close>

lemma claimed_messages:
  assumes inv: "coordinator_inv c" and run: "next_work P bid i c = Ret (Claim b, c')"
  shows "wb_mailbox_message_ids b \<noteq> []
    \<and> (\<forall>m \<in> set (wb_mailbox_message_ids b). \<exists>w \<in> set (hm_values (cs_intents (co_state c))).
        wi_slot_id w = i \<and> wi_state w = WsQueued \<and> wi_mailbox_message_id w = Some m)"
  using run
proof (cases rule: next_work_cases)
  case 1
  then show ?thesis by blast
next
  case (2 slot prio ids)
  have st: "state_inv (co_session_generation c) (co_state c)" using inv by (simp add: coordinator_inv_def)
  let ?msg = "\<lambda>x. Option.bind (map_of (cs_intents (co_state c)) x) wi_mailbox_message_id"
  from 2(8) obtain intents msgs runs op where
    cl: "claim_intents bid op ids (cs_intents (co_state c)) [] [] = Ret (intents, msgs, runs)"
    and b: "b = claimed_batch bid (co_session_generation c) i prio ids msgs runs op"
    by (elim claim_batch_cases) blast
  have msgs: "wb_mailbox_message_ids b = List.map_filter ?msg ids"
    using claim_intents_Ret [OF cl] by (simp add: b claimed_batch_def)
  have some: "?msg x \<noteq> None" if "x \<in> set ids" for x
    using that by (simp add: 2(6) is_message_intent_def)
  have "wb_mailbox_message_ids b = map (\<lambda>x. the (?msg x)) ids"
    unfolding msgs by (rule map_filter_the) (rule some)
  moreover have "\<exists>w \<in> set (hm_values (cs_intents (co_state c))).
      wi_slot_id w = i \<and> wi_state w = WsQueued \<and> wi_mailbox_message_id w = Some (the (?msg x))" if x: "x \<in> set ids" for x
  proof -
    have "x \<in> set (queue prio slot)" using x by (simp add: 2(6))
    from slot_inv_queueD [OF state_inv_slotD [OF st 2(1)] this] obtain w where
      w: "map_of (cs_intents (co_state c)) x = Some w" "wi_slot_id w = i" "wi_state w = WsQueued" by auto
    with some [OF x] have "wi_mailbox_message_id w = Some (the (?msg x))" by auto
    with w show ?thesis using values_iff [OF st, of w] by blast
  qed
  ultimately show ?thesis using 2(7) by auto
qed

section \<open>Preparing a batch\<close>

lemma sbind_Inr: "sbind m f s = Ret (Inr x, s') \<longleftrightarrow> (\<exists>y s1. m s = Ret (Inr y, s1) \<and> f y s1 = Ret (Inr x, s'))"
  by (auto simp: sbind_def split: sum.splits) (metis sum.exhaust)

lemma on_error_Inr: "on_error m h s = Ret (Inr x, s') \<longleftrightarrow> m s = Ret (Inr x, s')"
  by (auto simp: on_error_def split: sum.splits) (metis sum.exhaust)

lemma on_work_Inr: "on_work f s = Ret (Inr x, s') \<longleftrightarrow> (\<exists>c. f (sx_work s) = Ret (Inr x, c) \<and> s' = s\<lparr>sx_work := c\<rparr>)"
  by (auto simp: on_work_def)

lemma infallible_Inr: "infallible f c = Ret (Inr x, c') \<longleftrightarrow> f c = Ret (x, c')"
  by (auto simp: infallible_def)

lemma sread_Inr: "sread f s = Ret (Inr x, s') \<longleftrightarrow> f s = Inr x \<and> s' = s"
  by (auto simp: sread_def)

lemma sret_Inr: "sret y s = Ret (Inr x, s') \<longleftrightarrow> x = y \<and> s' = s"
  by (auto simp: sret_def)

lemma on_team_Inr: "on_team f s = Ret (Inr x, s') \<longleftrightarrow> (\<exists>te. f (sx_team s) = (Inr x, te) \<and> s' = s\<lparr>sx_team := te\<rparr>)"
  by (auto simp: on_team_def split: prod.split)

lemmas sess_Inr = sbind_Inr on_error_Inr on_work_Inr infallible_Inr sread_Inr sret_Inr on_team_Inr

text \<open>The unread messages of a member that are from another one.\<close>

definition unread_from_others ::
  "('m, 'c, 'cdb, 'db) session_env \<Rightarrow> string \<Rightarrow> ('c, 'cdb, 'db) session \<Rightarrow> mailbox_message list" where
  "unread_from_others V i s =
     (case mailbox_peek_unread (sv_json V) (sv_repo V) (session_team_id s) i (te_db (sx_team s)) of
        Inl _ \<Rightarrow> [] | Inr ms \<Rightarrow> filter (\<lambda>m. mm_from_agent_id m \<noteq> i) ms)"

lemma take_needs_frame:
  "take_needs_role_prompt i te = (x, te') \<Longrightarrow> te_db te' = te_db te \<and> tg_team_id (te_manager te') = tg_team_id (te_manager te)
    \<and> get_agent j te' = get_agent j te"
  by (auto simp: take_needs_role_prompt_def on_slots_def get_agent_def split: option.splits if_splits)

lemma on_db_Inr: "on_team (write_db f) s = Ret (Inr x, s')
    \<longleftrightarrow> (\<exists>db. f (te_db (sx_team s)) = (Inr x, db) \<and> s' = s\<lparr>sx_team := (sx_team s)\<lparr>te_db := db\<rparr>\<rparr>)"
  by (cases "f (te_db (sx_team s))") (auto simp: on_team_def write_db_def)

lemma publish_frame:
  "publish_runtime_constraint V M i s = Ret (Inr (), s') \<Longrightarrow> te_manager (sx_team s') = te_manager (sx_team s)"
  by (auto simp: publish_runtime_constraint_def mark_terminal_def mark_read_def on_db_Inr sbind_Inr on_work_Inr infallible_Inr sret_Inr
      split: if_splits)

lemma prepare_claimed_Inr:
  assumes "prepare_claimed V M agent i unread b s = Ret (Inr p, s')"
  obtains input pre roster tasks where "p = Pb_Execute b input" and "sx_work s' = sx_work s"
    and "unread_from_others V j s' = unread_from_others V j s"
    and "wn_unread input = filter (\<lambda>m. mm_id m \<in> set (wb_mailbox_message_ids b)) unread"
    and "manager_list_tasks (sv_json V) (sv_repo V) (sx_team s') = Inr tasks"
    and "\<And>j. get_agent j (sx_team s') = get_agent j (sx_team s)"
    and "wn_first_message input = pre @ wake_text agent tasks (wn_unread input) roster"
proof -
  let ?claimed = "filter (\<lambda>m. mm_id m \<in> set (wb_mailbox_message_ids b)) unread"
  let ?roster = "map ag_slot_id (list_agents (sx_team s))"
  define input where "input message = \<lparr>wn_conversation_id = ag_conversation_id agent,
     wn_first_message = message, wn_unread = ?claimed, wn_agent_role = ag_role agent\<rparr>" for message
  define execute where "execute message = Pb_Execute b (input message)" for message
  obtain x te where 1: "take_needs_role_prompt i (sx_team s) = (x, te)" by fastforce
  from assms 1 obtain tasks where tasks: "manager_list_tasks (sv_json V) (sv_repo V) (sx_team s) = Inr tasks"
    and rest: "(if x then sbind (sread (\<lambda>s. sv_role_prompt V agent (list_agents (sx_team s)))) (\<lambda>role_prompt.
           sret (execute (role_prompt @ newline @ newline @ wake_text agent tasks ?claimed ?roster)))
       else sret (execute (wake_text agent tasks ?claimed ?roster))) (s\<lparr>sx_team := te\<rparr>) = Ret (Inr p, s')"
    unfolding prepare_claimed_def Let_def members_of_def input_def [symmetric] execute_def [symmetric]
    by (auto simp: sess_Inr)
  from rest obtain message where 2: "s' = s\<lparr>sx_team := te\<rparr>" "p = execute message"
    and message: "\<exists>pre. message = pre @ wake_text agent tasks ?claimed ?roster"
    by (cases x) (auto simp: sess_Inr)
  from message obtain pre where "message = pre @ wake_text agent tasks
      (filter (\<lambda>m. mm_id m \<in> set (wb_mailbox_message_ids b)) unread) (map ag_slot_id (list_agents (sx_team s)))" by blast
  with 2 take_needs_frame [OF 1] tasks show ?thesis
    by (intro that [of "input message" tasks pre "map ag_slot_id (list_agents (sx_team s))"])
      (simp_all add: unread_from_others_def session_team_id_def execute_def input_def manager_list_tasks_def)
qed

text \<open>The steps of \<open>prepare_next_batch\<close>.\<close>

lemma prepare_steps:
  assumes "prepare_next_batch V M i s = Ret (Inr p, s')"
  obtains agent s1 unread pr c2 d c3 where
    "publish_runtime_constraint V M i s = Ret (Inr (), s1)" and "unread = unread_from_others V i s1"
    and "reconcile_mailbox (mt_recovery M) (mt_times M) i (map mm_id unread) (target_role_for (ag_role agent)) (sx_work s1) = Ret (pr, c2)"
    and "next_work (port M) (mt_batch M) i c2 = Ret (d, c3)"
    and "sx_work s' = c3" and "unread_from_others V i s' = unread"
    and "p = Pb_Quiescent \<longrightarrow> d = Quiescent"
    and "\<forall>b input. p = Pb_Execute b input \<longrightarrow> d = Claim b
      \<and> wn_unread input = filter (\<lambda>m. mm_id m \<in> set (wb_mailbox_message_ids b)) unread
      \<and> (\<exists>pre tasks roster. get_agent i (sx_team s') = Inr agent
          \<and> manager_list_tasks (sv_json V) (sv_repo V) (sx_team s') = Inr tasks
          \<and> wn_first_message input = pre @ wake_text agent tasks (wn_unread input) roster)"
proof -
  from assms obtain agent s1 all_unread pr c2 d c3 where
    1: "publish_runtime_constraint V M i s = Ret (Inr (), s1)" and agent: "get_agent i (sx_team s) = Inr agent"
    and peek: "mailbox_peek_unread (sv_json V) (sv_repo V) (session_team_id s1) i (te_db (sx_team s1)) = Inr all_unread"
    and 2: "reconcile_mailbox (mt_recovery M) (mt_times M) i (map mm_id (filter (\<lambda>m. mm_from_agent_id m \<noteq> i) all_unread))
      (target_role_for (ag_role agent)) (sx_work s1) = Ret (pr, c2)"
    and 3: "next_work (port M) (mt_batch M) i c2 = Ret (d, c3)"
    and rest: "(case d of
         Claim batch \<Rightarrow> prepare_claimed V M agent i (filter (\<lambda>m. mm_from_agent_id m \<noteq> i) all_unread) batch
       | SettleSignals ids \<Rightarrow> sret (Pb_Settle_Signals ids)
       | WaitingForCompletion \<Rightarrow> sret Pb_Waiting_For_Completion
       | Blocked _ \<Rightarrow> sret Pb_Blocked
       | Quiescent \<Rightarrow> sret Pb_Quiescent) (s1\<lparr>sx_work := c3\<rparr>) = Ret (Inr p, s')"
    unfolding prepare_next_batch_def Let_def agent_of_def unread_of_def by (auto simp: sess_Inr)
  define unread where "unread = unread_from_others V i s1"
  have u: "filter (\<lambda>m. mm_from_agent_id m \<noteq> i) all_unread = unread"
    using peek by (simp add: unread_def unread_from_others_def)
  have u': "unread_from_others V i (s1\<lparr>sx_work := c3\<rparr>) = unread"
    by (simp add: unread_def unread_from_others_def session_team_id_def)
  have "sx_work s' = c3 \<and> unread_from_others V i s' = unread \<and> (p = Pb_Quiescent \<longrightarrow> d = Quiescent)
    \<and> (\<forall>b input. p = Pb_Execute b input \<longrightarrow> d = Claim b
      \<and> wn_unread input = filter (\<lambda>m. mm_id m \<in> set (wb_mailbox_message_ids b)) unread
      \<and> (\<exists>pre tasks roster. get_agent i (sx_team s') = Inr agent
          \<and> manager_list_tasks (sv_json V) (sv_repo V) (sx_team s') = Inr tasks
          \<and> wn_first_message input = pre @ wake_text agent tasks (wn_unread input) roster))"
  proof (cases d)
    case (Claim b)
    from rest have "prepare_claimed V M agent i unread b (s1\<lparr>sx_work := c3\<rparr>) = Ret (Inr p, s')"
      by (simp add: Claim u)
    moreover have "get_agent i (sx_team s1) = Inr agent"
      using agent publish_frame [OF 1] by (simp add: get_agent_def)
    ultimately show ?thesis by (elim prepare_claimed_Inr [where j = i]) (use u' Claim in auto)
  qed (use rest u' in \<open>auto simp: sret_Inr\<close>)
  note after = this
  show ?thesis
    by (rule that [OF 1 unread_def 2 [unfolded u] 3])
      (use after in \<open>blast+\<close>)
qed

text \<open>After the constraint is published the coordinator is still in a reachable state.\<close>

lemma publish_reachable:
  assumes "reachable team g (system_of s B U)" and "publish_runtime_constraint V M i s = Ret (r, s1)"
  obtains B1 U1 where "reachable team g (system_of s1 B1 U1)" and "U1 \<subseteq> U"
proof -
  obtain r' s' B1 U1 where 1: "publish_runtime_constraint V M i s = Ret (r', s')"
    "step\<^sup>*\<^sup>* (system_of s B U) (system_of s' B1 U1)" "U1 \<subseteq> U \<union> {}"
    by (rule followsE [OF follows_publish [of "{}" V M i] reachable_inv [OF assms(1)]]) auto
  with assms show ?thesis
    by (intro that [OF steps_from_reachable [OF 1(2) assms(1), THEN back_subst [of "\<lambda>s. reachable team g (system_of s B1 U1)"]]]) auto
qed

text \<open>What \<open>prepare_next_batch\<close> says of the unread messages that others have sent to the member.\<close>

definition nothing_stranded ::
  "('m, 'c, 'cdb, 'db) session_env \<Rightarrow> string \<Rightarrow> prepare_result \<Rightarrow> ('c, 'cdb, 'db) session \<Rightarrow> bool" where
  "nothing_stranded V i p s = (let unread = unread_from_others V i s in
     (\<forall>m \<in> set unread. already_owned i (mm_id m) (cs_intents (co_state (sx_work s))))
   \<and> (case p of
        Pb_Execute b input \<Rightarrow>
          wb_mailbox_message_ids b \<noteq> [] \<and> set (wb_mailbox_message_ids b) \<subseteq> mm_id ` set unread
          \<and> wn_unread input = filter (\<lambda>m. mm_id m \<in> set (wb_mailbox_message_ids b)) unread
          \<and> (\<exists>before agent tasks roster. get_agent i (sx_team s) = Inr agent
              \<and> manager_list_tasks (sv_json V) (sv_repo V) (sx_team s) = Inr tasks
              \<and> wn_first_message input = before @ wake_text agent tasks (wn_unread input) roster)
      | Pb_Quiescent \<Rightarrow> unread = [] \<or> (\<exists>slot. map_of (cs_slots (co_state (sx_work s))) i = Some slot \<and> ss_paused slot)
      | _ \<Rightarrow> True))"

lemma prepare_strands_nothing:
  assumes session: "reachable team g (system_of s B U)"
    and fresh: "minted_ok M" "batch_ids_of M \<inter> U = {}"
    and run: "prepare_next_batch V M i s = Ret (Inr p, s')"
  shows "nothing_stranded V i p s'"
proof -
  obtain agent s1 unread pr c2 d c3 where 1: "publish_runtime_constraint V M i s = Ret (Inr (), s1)"
    and u: "unread = unread_from_others V i s1"
    and 2: "reconcile_mailbox (mt_recovery M) (mt_times M) i (map mm_id unread) (target_role_for (ag_role agent)) (sx_work s1) = Ret (pr, c2)"
    and 3: "next_work (port M) (mt_batch M) i c2 = Ret (d, c3)"
    and c3: "sx_work s' = c3" and u': "unread_from_others V i s' = unread"
    and quiet: "p = Pb_Quiescent \<longrightarrow> d = Quiescent"
    and execute: "\<forall>b input. p = Pb_Execute b input \<longrightarrow> d = Claim b
      \<and> wn_unread input = filter (\<lambda>m. mm_id m \<in> set (wb_mailbox_message_ids b)) unread
      \<and> (\<exists>pre tasks roster. get_agent i (sx_team s') = Inr agent
          \<and> manager_list_tasks (sv_json V) (sv_repo V) (sx_team s') = Inr tasks
          \<and> wn_first_message input = pre @ wake_text agent tasks (wn_unread input) roster)"
    by (rule prepare_steps [OF run])
  obtain B1 U1 where r: "reachable team g (system_of s1 B1 U1)" "U1 \<subseteq> U"
    by (rule publish_reachable [OF session 1])
  have inj: "inj (mt_recovery M)" using fresh(1) by (simp add: minted_ok_def)
  have new: "\<forall>j. mt_recovery M j \<notin> U1" using fresh(2) r(2) by (auto simp: batch_ids_of_def)
  have inv1: "coordinator_inv (sx_work s1)" using reachable_coordinator_inv [OF r(1)] by (simp add: system_of_def)
  have none: "map_of (cs_intents (co_state (sx_work s1))) (mt_recovery M j) = None" for j
    using reachable_inv [OF r(1)] new by (auto simp: system_of_def system_inv_def ids_ok_def)
  have inv2: "coordinator_inv c2" by (rule reconcile_mailbox_inv [OF inv1 inj none 2])
  note R = reconcile_owns_every_unread_message [OF r(1) _ inj _ 2, unfolded system_of_def, simplified, OF new]
  have own: "already_owned i (mm_id m) (cs_intents (co_state c2))" if "m \<in> set unread" for m
    using R that by simp
  have queued: "x \<in> mm_id ` set unread"
    if "w \<in> set (hm_values (cs_intents (co_state c2)))" "wi_slot_id w = i" "wi_state w = WsQueued" "wi_mailbox_message_id w = Some x" for w x
    using R that by auto
  have own3: "already_owned i (mm_id m) (cs_intents (co_state c3))" if "m \<in> set unread" for m
    by (rule next_work_keeps_owned [OF inv2 3 own [OF that]])
  have idle: "unread = [] \<or> (\<exists>slot. map_of (cs_slots (co_state c3)) i = Some slot \<and> ss_paused slot)" if "p = Pb_Quiescent"
  proof (cases unread)
    case (Cons m ms)
    then have "already_owned i (mm_id m) (cs_intents (co_state c2))" using own by simp
    moreover have q: "next_work (port M) (mt_batch M) i c2 = Ret (Quiescent, c3)" using 3 quiet that by simp
    ultimately obtain slot where "map_of (cs_slots (co_state c2)) i = Some slot" "ss_paused slot"
      by (rule quiescent_slot [OF inv2])
    then show ?thesis using quiescent_changes_nothing [OF q] by blast
  qed simp
  have claim: "wb_mailbox_message_ids b \<noteq> [] \<and> set (wb_mailbox_message_ids b) \<subseteq> mm_id ` set unread"
    if "p = Pb_Execute b input" for b input
    using claimed_messages [OF inv2, of "port M" "mt_batch M" i b c3] execute that 3 queued by blast
  show ?thesis
  proof (cases p)
    case (Pb_Execute b input)
    from execute [rule_format, OF this] claim [OF this] own3 show ?thesis
      by (simp add: nothing_stranded_def Let_def u' c3 Pb_Execute) metis
  qed (use own3 idle in \<open>simp_all add: nothing_stranded_def Let_def u' c3\<close>)
qed

end
