(* ===== verification/Session_Enqueue.thy ===== *)
theory Session_Enqueue
  imports Session_World Work_Properties
begin

text \<open>
  The operations of a session that enqueue work: whatever fails on the way, the lease they acquire is gone at the end,
  and when they succeed the intent is in its queue. \<open>holds_after P m Q\<close> is a Hoare triple over the coordinator.
\<close>

section \<open>Triples\<close>

definition holds_after ::
  "(run_manager coordinator \<Rightarrow> bool) \<Rightarrow> (('c, 'cdb, 'db) session, 'a) sess
   \<Rightarrow> (team_error + 'a \<Rightarrow> run_manager coordinator \<Rightarrow> bool) \<Rightarrow> bool" where
  "holds_after P m Q \<longleftrightarrow> (\<forall>s r s'. P (sx_work s) \<longrightarrow> m s = Ret (r, s') \<longrightarrow> Q r (sx_work s'))"

lemma holds_afterD: "holds_after P m Q \<Longrightarrow> P (sx_work s) \<Longrightarrow> m s = Ret (r, s') \<Longrightarrow> Q r (sx_work s')"
  by (simp add: holds_after_def)

lemma after_sbind:
  assumes m: "holds_after P m (case_sum (\<lambda>e c. Q (Inl e) c) R)" and f: "\<And>x. holds_after (R x) (f x) Q"
  shows "holds_after P (sbind m f) Q"
  unfolding holds_after_def
proof (intro allI impI)
  fix s r s' assume p: "P (sx_work s)" and run: "sbind m f s = Ret (r, s')"
  then obtain r1 s1 where 1: "m s = Ret (r1, s1)" by (auto simp: sbind_def)
  note Q = holds_afterD [OF m p 1]
  show "Q r (sx_work s')"
  proof (cases r1)
    case (Inl e)
    then show ?thesis using run 1 Q by (simp add: sbind_def)
  next
    case (Inr x)
    then show ?thesis using run 1 Q holds_afterD [OF f [of x], of s1 r s'] by (simp add: sbind_def)
  qed
qed

lemma after_on_error:
  assumes m: "holds_after P m (case_sum (\<lambda>e. R) (\<lambda>x c. Q (Inr x) c))" and h: "holds_after R h (\<lambda>_ c. \<forall>e. Q (Inl e) c)"
  shows "holds_after P (on_error m h) Q"
  unfolding holds_after_def
proof (intro allI impI)
  fix s r s' assume p: "P (sx_work s)" and run: "on_error m h s = Ret (r, s')"
  then obtain r1 s1 where 1: "m s = Ret (r1, s1)" by (auto simp: on_error_def)
  note Q = holds_afterD [OF m p 1]
  show "Q r (sx_work s')"
  proof (cases r1)
    case (Inl e)
    with run 1 obtain r2 where "h s1 = Ret (r2, s')" "r = Inl e" by (auto simp: on_error_def)
    then show ?thesis using Inl Q holds_afterD [OF h, of s1 r2 s'] by simp
  next
    case (Inr x)
    then have "r = Inr x" "s' = s1" using run 1 by (auto simp: on_error_def)
    then show ?thesis using Inr Q by simp
  qed
qed

text \<open>What does not touch the coordinator.\<close>

lemma after_quiet:
  assumes "\<And>s r s'. m s = Ret (r, s') \<Longrightarrow> sx_work s' = sx_work s"
  shows "holds_after P m (\<lambda>_. P)"
  using assms unfolding holds_after_def by metis

lemma after_weaken: "holds_after P m Q \<Longrightarrow> (\<And>c. P' c \<Longrightarrow> P c) \<Longrightarrow> (\<And>r c. Q r c \<Longrightarrow> Q' r c) \<Longrightarrow> holds_after P' m Q'"
  unfolding holds_after_def by blast

lemma quiet_ops:
  "sread f s = Ret (r, s') \<Longrightarrow> sx_work s' = sx_work s" "on_team h s = Ret (r', s') \<Longrightarrow> sx_work s' = sx_work s"
  "on_loops l s = Ret (r'', s') \<Longrightarrow> sx_work s' = sx_work s" "project_bubble V b q s = Ret (u, s') \<Longrightarrow> sx_work s' = sx_work s"
  "sret x s = Ret (v, s') \<Longrightarrow> sx_work s' = sx_work s" "sfail e s = Ret (w, s') \<Longrightarrow> sx_work s' = sx_work s"
  by (auto simp: sread_def on_team_def on_loops_def project_bubble_def sret_def sfail_def split: prod.splits)

lemma after_quiet_ops:
  "holds_after P (sread f) (\<lambda>_. P)" "holds_after P (on_team h) (\<lambda>_. P)" "holds_after P (on_loops l) (\<lambda>_. P)"
  "holds_after P (\<lambda>s. project_bubble V b (q s) s) (\<lambda>_. P)"
  by (rule after_quiet, erule quiet_ops)+

section \<open>Leases\<close>

definition no_lease :: "mints \<Rightarrow> 'r coordinator \<Rightarrow> bool" where
  "no_lease M c \<longleftrightarrow> map_of (cs_enqueue_leases (co_state c)) (mt_lease M) = None"

definition has_lease :: "mints \<Rightarrow> string \<Rightarrow> enqueue_lease \<Rightarrow> 'r coordinator \<Rightarrow> bool" where
  "has_lease M i l c \<longleftrightarrow> el_lease_id l = mt_lease M \<and> el_slot_id l = i \<and> el_session_generation l = co_session_generation c
     \<and> map_option lr_lease (map_of (cs_enqueue_leases (co_state c)) (mt_lease M)) = Some l"

definition queued_work :: "mints \<Rightarrow> string \<Rightarrow> string option \<Rightarrow> 'r coordinator \<Rightarrow> bool" where
  "queued_work M i message c \<longleftrightarrow> no_lease M c
     \<and> (\<exists>w slot. map_of (cs_intents (co_state c)) (mt_intent M) = Some w \<and> wi_slot_id w = i \<and> wi_state w = WsQueued
          \<and> wi_mailbox_message_id w = message
          \<and> map_of (cs_slots (co_state c)) i = Some slot \<and> mt_intent M \<in> set (queue (wi_priority w) slot))"

lemma after_publish:
  "holds_after (\<lambda>c. coordinator_inv c \<and> no_lease M c) (publish_runtime_constraint V M i) (\<lambda>_ c. no_lease M c)"
  unfolding holds_after_def
proof (intro allI impI, goal_cases)
  case (1 s r s')
  note pre = 1(1) and run = 1(2)
  obtain u c where 1: "set_runtime_constraint (port M) i (session_constraint i s) (sx_work s) = Ret (u, c)"
    using returnsE [OF set_runtime_constraint_returns [OF conjunct1 [OF pre]]] by blast
  have "sx_work s' = c"
    using run 1 by (auto simp: publish_runtime_constraint_def sbind_def on_work_def infallible_def mark_terminal_def mark_read_def
        on_team_def sret_def split: prod.splits if_splits)
  with set_runtime_constraint_tame [OF conjunct1 [OF pre] 1] pre show ?case
    by (auto simp: tame_def settles_def no_lease_def simp del: map_of_eq_None_iff)
      (metis not_Some_eq)
qed

lemma after_acquire:
  "holds_after (no_lease M) (acquire M i role source binding) (case_sum (\<lambda>_. no_lease M) (has_lease M i))"
  unfolding holds_after_def
proof (intro allI impI, goal_cases)
  case (1 s r s')
  note pre = 1(1) and run = 1(2)
  from run have "acquire_enqueue (port M) (mt_lease M) \<lparr>er_slot_id = i, er_role = role, er_source = source, er_binding = binding\<rparr> (sx_work s)
      = (r, sx_work s')"
    by (auto simp: acquire_def on_work_def split: prod.splits)
  then show ?case
    by (cases rule: acquire_enqueue_cases)
      (use pre in \<open>simp_all add: no_lease_def has_lease_def touched_def new_lease_def\<close>)
qed

lemma abort_removes:
  assumes "has_lease M i l c"
  shows "no_lease M (snd (abort_enqueue P l c))"
proof -
  have id: "mt_lease M = el_lease_id l" and g: "el_session_generation l = co_session_generation c"
    using assms unfolding has_lease_def by simp_all
  have "map_option lr_lease (map_of (cs_enqueue_leases (co_state c)) (el_lease_id l)) = Some l"
    using assms unfolding has_lease_def id by blast
  then obtain k where k: "map_of (cs_enqueue_leases (co_state c)) (el_lease_id l) = Some k" "lr_lease k = l"
    by (cases "map_of (cs_enqueue_leases (co_state c)) (el_lease_id l)") simp_all
  show ?thesis unfolding no_lease_def id abort_enqueue_def Let_def k option.case
    by (simp add: k(2) g)
qed

lemma after_abort:
  "holds_after (has_lease M i l) (abort M l) (\<lambda>_. no_lease M)"
  unfolding holds_after_def
proof (intro allI impI, goal_cases)
  case (1 s r s')
  note pre = 1(1) and run = 1(2)
  then have "sx_work s' = snd (abort_enqueue (port M) l (sx_work s))" by (auto simp: abort_def on_work_def split: prod.splits)
  then show ?case using abort_removes [OF pre, of "port M"] by simp
qed

lemma after_commit:
  "holds_after (has_lease M i l) (commit_lease M l message)
     (case_sum (\<lambda>_. has_lease M i l) (\<lambda>_. queued_work M i message))"
  unfolding holds_after_def
proof (intro allI impI, goal_cases)
  case (1 s r s')
  note pre = 1(1) and run = 1(2)
  from run have "commit_enqueue (port M) (mt_intent M) (mt_now M) l message (sx_work s) = Ret (r, sx_work s')"
    by (auto simp: commit_lease_def on_work_def)
  then show ?case
    by (cases rule: commit_enqueue_cases)
      (use pre in \<open>simp_all add: no_lease_def has_lease_def queued_work_def enqueued_intent_def queue_commit_enqueue_slot\<close>)
qed

lemma after_commit_persisted:
  "holds_after (has_lease M i l) (commit_persisted V M l message)
     (case_sum (\<lambda>_. no_lease M) (\<lambda>_. queued_work M i (Some message)))"
  unfolding commit_persisted_def mark_read_def attempt_def
proof (rule after_on_error)
  show "holds_after (has_lease M i l) (commit_lease M l (Some message))
      (case_sum (\<lambda>e. has_lease M i l) (\<lambda>x. case_sum (\<lambda>_. no_lease M) (\<lambda>_. queued_work M i (Some message)) (Inr x)))"
    by (rule after_weaken [OF after_commit]) (auto split: sum.splits)
  have "holds_after (no_lease M) (\<lambda>s. bind_rust (on_team (write_db (mailbox_mark_read (sv_repo V) [message])) s)
      (\<lambda>(r, s'). Ret (Inr r, s'))) (\<lambda>_. no_lease M)"
    by (rule after_quiet) (auto dest: quiet_ops split: prod.splits)
  then show "holds_after (has_lease M i l) (sbind (abort M l) (\<lambda>_. (\<lambda>s. bind_rust (on_team (write_db (mailbox_mark_read (sv_repo V) [message])) s)
      (\<lambda>(r, s'). Ret (Inr r, s'))))) (\<lambda>_ c. \<forall>e. case_sum (\<lambda>_. no_lease M) (\<lambda>_. queued_work M i (Some message)) (Inl e) c)"
    by (intro after_sbind after_weaken [OF after_abort]) (auto split: sum.splits intro: after_weaken)
qed

section \<open>The operations\<close>

text \<open>Sequencing with a step that leaves the coordinator alone, and with the steps above.\<close>

lemma quietly_then:
  assumes "holds_after P m (\<lambda>_. P)" and "\<And>x. holds_after P (f x) Q" and "\<And>e c. P c \<Longrightarrow> Q (Inl e) c"
  shows "holds_after P (sbind m f) Q"
  by (rule after_sbind [where R = "\<lambda>_. P"]) (rule after_weaken [OF assms(1)], use assms in \<open>auto split: sum.splits\<close>)

lemma then_step:
  assumes "holds_after P m (case_sum (\<lambda>_. E) R)" and "\<And>x. holds_after (R x) (f x) Q" and "\<And>e c. E c \<Longrightarrow> Q (Inl e) c"
  shows "holds_after P (sbind m f) Q"
  by (rule after_sbind [where R = R]) (rule after_weaken [OF assms(1)], use assms in \<open>auto split: sum.splits\<close>)

definition lease_settled :: "mints \<Rightarrow> ('a \<Rightarrow> run_manager coordinator \<Rightarrow> bool) \<Rightarrow> team_error + 'a \<Rightarrow> run_manager coordinator \<Rightarrow> bool" where
  "lease_settled M R r c = (case r of Inl _ \<Rightarrow> no_lease M c | Inr x \<Rightarrow> no_lease M c \<and> R x c)"

lemma settled_Inl: "no_lease M c \<Longrightarrow> lease_settled M R (Inl e) c"
  by (simp add: lease_settled_def)

lemma queued_settled: "queued_work M i msg c \<Longrightarrow> lease_settled M R (Inl e) c"
  by (simp add: lease_settled_def queued_work_def)

lemma after_write_or_abort:
  assumes "holds_after (has_lease M i l) m (\<lambda>_. has_lease M i l)"
  shows "holds_after (has_lease M i l) (on_error m (abort M l)) (case_sum (\<lambda>_. no_lease M) (\<lambda>_. has_lease M i l))"
  by (rule after_on_error [where R = "has_lease M i l"])
    (rule after_weaken [OF assms], simp, simp split: sum.split, rule after_weaken [OF after_abort], auto)

text \<open>From the commit on: the notification of the event loop and what is read for the answer.\<close>

lemma committed_then:
  assumes "holds_after (has_lease M i l) m (case_sum (\<lambda>_. no_lease M) (\<lambda>_. queued_work M i msg))"
    and "\<And>x. holds_after (queued_work M i msg) (f x) (lease_settled M R)"
  shows "holds_after (has_lease M i l) (sbind m f) (lease_settled M R)"
  by (rule then_step [OF assms]) (rule settled_Inl)

lemma after_sret: "(\<And>c. P c \<Longrightarrow> Q (Inr x) c) \<Longrightarrow> holds_after P (sret x) Q"
  by (simp add: holds_after_def sret_def)

lemma after_sfail: "(\<And>c. P c \<Longrightarrow> Q (Inl e) c) \<Longrightarrow> holds_after P (sfail e) Q"
  by (simp add: holds_after_def sfail_def)

lemma publish_then:
  assumes "\<And>x. holds_after (no_lease M) (f x) (lease_settled M R)"
  shows "holds_after (\<lambda>c. coordinator_inv c \<and> no_lease M c) (sbind (publish_runtime_constraint V M i) f) (lease_settled M R)"
  by (rule then_step [where E = "no_lease M" and R = "\<lambda>_. no_lease M"])
    (rule after_weaken [OF after_publish], assumption, simp split: sum.split, rule assms, rule settled_Inl)

lemma acquire_then:
  assumes "\<And>l. holds_after (has_lease M i l) (f l) (lease_settled M R)"
  shows "holds_after (no_lease M) (sbind (acquire M i role source binding) f) (lease_settled M R)"
  by (rule then_step [OF after_acquire assms]) (rule settled_Inl)

lemma written_then:
  assumes "\<And>m. holds_after (has_lease M i l) (f m) (lease_settled M R)"
  shows "holds_after (has_lease M i l) (sbind (on_error (on_team g) (abort M l)) f) (lease_settled M R)"
  by (rule then_step [OF after_write_or_abort [OF after_quiet_ops(2)] assms]) (rule settled_Inl)

text \<open>A projection that fails is only logged.\<close>

lemma bubble_then:
  assumes "\<And>x. holds_after P (f x) Q"
  shows "holds_after P (sbind (\<lambda>s. project_bubble V b (q s) s) f) Q"
  unfolding holds_after_def
proof (intro allI impI, goal_cases)
  case (1 s r s')
  obtain x w where "project (sv_conv V) (sv_projection_json V) (fst b) (snd b) (q s) (sx_conv s) = (x, w)" by fastforce
  with 1(2) have "f () (s\<lparr>sx_conv := w\<rparr>) = Ret (r, s')" by (simp add: sbind_def project_bubble_def)
  from holds_afterD [OF assms _ this] 1(1) show ?case by simp
qed

lemmas enqueue_steps =
  publish_then acquire_then written_then committed_then [OF after_commit_persisted]
  quietly_then [OF after_quiet_ops(1)] quietly_then [OF after_quiet_ops(2)] quietly_then [OF after_quiet_ops(3)]
  bubble_then after_sret after_sfail

lemma enqueue_user_message_settles:
  "holds_after (\<lambda>c. coordinator_inv c \<and> no_lease M c) (enqueue_user_message V M i role content files)
     (lease_settled M (\<lambda>ack. queued_work M i (Some (ak_message_id ack))))"
  unfolding enqueue_user_message_def agent_of_def write_message_def run_payload_def
  by (rule enqueue_steps | simp add: lease_settled_def queued_work_def)+

lemma agent_message_settles:
  "holds_after (\<lambda>c. coordinator_inv c \<and> no_lease M c) (send_agent_message_from_agent V M from to content files)
     (lease_settled M (\<lambda>_ c. \<exists>m. queued_work M to (Some m) c))"
  unfolding send_agent_message_from_agent_def agent_of_def write_message_def
  by (rule enqueue_steps | simp add: lease_settled_def queued_work_def, blast?)+

lemma after_if: "holds_after P m Q \<Longrightarrow> holds_after P m' Q \<Longrightarrow> holds_after P (if b then m else m') Q"
  by simp

lemma aborted_then:
  assumes "\<And>x. holds_after (no_lease M) (f x) (lease_settled M R)"
  shows "holds_after (has_lease M i l) (sbind (abort M l) f) (lease_settled M R)"
  by (rule then_step [where E = "no_lease M" and R = "\<lambda>_. no_lease M"])
    (rule after_weaken [OF after_abort], assumption, simp split: sum.split, rule assms, rule settled_Inl)

lemma shutdown_settles:
  "holds_after (\<lambda>c. coordinator_inv c \<and> no_lease M c) (shutdown_agent V M caller target reason)
     (lease_settled M (\<lambda>_ c. \<exists>m. queued_work M target (Some m) c))"
proof -
  have notify: "holds_after (queued_work M target (Some m)) (on_loops (loops_notify target))
      (lease_settled M (\<lambda>_ c. \<exists>m. queued_work M target (Some m) c))" for m
    by (rule after_weaken [OF after_quiet_ops(3)], assumption) (auto simp: lease_settled_def queued_work_def split: sum.split)
  show ?thesis unfolding shutdown_agent_def agent_of_def
    by (rule enqueue_steps notify after_if aborted_then | simp add: lease_settled_def)+
qed

lemma after_commit_or_abort:
  "holds_after (has_lease M i l) (case message of
       Some m \<Rightarrow> commit_persisted V M l m
     | None \<Rightarrow> on_error (commit_lease M l None) (abort M l)) (case_sum (\<lambda>_. no_lease M) (\<lambda>_. queued_work M i message))"
proof (cases message)
  case None
  have "holds_after (has_lease M i l) (on_error (commit_lease M l None) (abort M l)) (case_sum (\<lambda>_. no_lease M) (\<lambda>_. queued_work M i None))"
    by (rule after_on_error [where R = "has_lease M i l"])
      (rule after_weaken [OF after_commit], assumption, simp split: sum.splits, rule after_weaken [OF after_abort], auto)
  then show ?thesis by (simp add: None)
qed (simp add: after_commit_persisted)

lemma existing_work_settles:
  "holds_after (\<lambda>c. coordinator_inv c \<and> no_lease M c) (enqueue_existing_work V M i source message binding)
     (lease_settled M (\<lambda>_. queued_work M i message))"
  unfolding enqueue_existing_work_def agent_of_def
  by (rule enqueue_steps committed_then [OF after_commit_or_abort] | simp add: lease_settled_def queued_work_def)+

end
