(* ===== verification/Session_Properties.thy ===== *)
theory Session_Properties
  imports Session_Mail Session_Enqueue Team_Properties
begin

text \<open>
  The properties of the sessions of a team, and a run of a session on which their hypotheses hold.
\<close>

section \<open>A session\<close>

definition demo_tag :: "char \<Rightarrow> char \<Rightarrow> nat \<Rightarrow> nat \<Rightarrow> nat \<Rightarrow> string" where
  "demo_tag a c j k n = a # c # replicate j CHR ''x'' @ CHR ''y'' # replicate k CHR ''x'' @ CHR ''y'' # replicate n CHR ''x''"

lemma tag_part: "replicate j CHR ''x'' @ CHR ''y'' # r = replicate j' CHR ''x'' @ CHR ''y'' # r' \<longleftrightarrow> j = j' \<and> r = r'"
proof (induction j arbitrary: j')
  case 0
  then show ?case by (cases j') auto
next
  case (Suc j)
  then show ?case by (cases j') auto
qed

lemma demo_tag_inject [simp]: "demo_tag a c j k n = demo_tag a' c' j' k' n' \<longleftrightarrow> a = a' \<and> c = c' \<and> j = j' \<and> k = k' \<and> n = n'"
  using replicate_eq_replicate [of n "CHR ''x''" n' "CHR ''x''"] by (auto simp: demo_tag_def tag_part)

definition demo_mints :: "char \<Rightarrow> nat \<Rightarrow> nat \<Rightarrow> mints" where
  "demo_mints a j k = \<lparr>mt_row = (demo_tag a CHR ''m'' j k 0, 1), mt_bubble = (demo_tag a CHR ''p'' j k 0, 1),
     mt_lease = demo_tag a CHR ''l'' j k 0, mt_run = demo_tag a CHR ''r'' j k 0, mt_intent = demo_tag a CHR ''i'' j k 0,
     mt_batch = demo_tag a CHR ''b'' j k 0, mt_now = 1, mt_clock = (\<lambda>_. 1), mt_recovery = demo_tag a CHR ''c'' j k, mt_times = (\<lambda>_. 1)\<rparr>"

lemma demo_minted_ok: "minted_ok (demo_mints a j k)"
  by (auto simp: minted_ok_def demo_mints_def intro: injI)

lemma demo_all_ids:
  "all_ids (demo_mints a j k) = {demo_tag a CHR ''l'' j k 0, demo_tag a CHR ''r'' j k 0, demo_tag a CHR ''i'' j k 0, demo_tag a CHR ''b'' j k 0}
     \<union> range (demo_tag a CHR ''c'' j k)"
  by (auto simp: all_ids_def enqueue_ids_def batch_ids_of_def demo_mints_def)

lemma demo_mints_ok: "mints_ok (demo_mints a)"
  unfolding mints_ok_def demo_all_ids by (auto simp: demo_minted_ok)

definition demo_team_member :: "string \<Rightarrow> teammate_role \<Rightarrow> team_agent" where
  "demo_team_member i role = \<lparr>ag_slot_id = i, ag_name = i, ag_role = role, ag_conversation_id = ''conv-'' @ i, ag_backend = ''b'',
     ag_model = ''m'', ag_assistant_id = None, ag_status = None, ag_conversation_type = None, ag_cli_path = None\<rparr>"

definition demo_projection_json :: "unit projection_json" where
  "demo_projection_json = \<lparr>pj_user = (\<lambda>_. ()), pj_member = (\<lambda>_ _ _ _. ())\<rparr>"

definition demo_session_env :: "(string, unit, unit conv_db, team_db) session_env" where
  "demo_session_env = \<lparr>sv_user_id = ''u'', sv_json = demo_team_json, sv_repo = demo_repo,
     sv_conv = sqlite_conv_repo \<lparr>sql_patch = (\<lambda>_ _. ()), sql_patch_keep = (\<lambda>_ _ _. ())\<rparr>, sv_projection_json = demo_projection_json,
     sv_lower = (\<lambda>s. s), sv_role_prompt = (\<lambda>_ _. Inr ''role''), sv_cancel = (\<lambda>_ _ _. Inr ())\<rparr>"

definition demo_session :: "(unit, unit conv_db, team_db) session" where
  "demo_session = new_session ''t'' ''g'' [demo_team_member ''lead'' Lead, demo_team_member ''w'' Teammate] empty_team_db
     \<lparr>pw_db = \<lparr>db_conversations = [], db_messages = []\<rparr>, pw_stream = [], pw_teammate = []\<rparr>"

lemma demo_minted_ids: "minted_ids (demo_mints a) \<inter> minted_ids (demo_mints b) = {}" if "a \<noteq> b"
  using that by (auto simp: minted_ids_def demo_all_ids)

text \<open>The coordinator of a session is in a reachable state, and only identifiers of the set have been used.\<close>

definition work_reachable :: "('c, 'cdb, 'db) session \<Rightarrow> string set \<Rightarrow> bool" where
  "work_reachable s A \<longleftrightarrow> (\<exists>B U. reachable ''t'' ''g'' (system_of s B U) \<and> U \<subseteq> A)"

lemma reach_after:
  assumes s: "work_reachable s A" and c: "mints_ok Ms" "minted_ids Ms \<inter> A = {}" "call_batches c = {}"
  shows "work_reachable (snd (ret_val (call_session V Ms c s))) (A \<union> minted_ids Ms)"
proof -
  obtain B U where "reachable ''t'' ''g'' (system_of s B U)" "U \<subseteq> A" using s by (auto simp: work_reachable_def)
  with c obtain r s' B' U' where "call_session V Ms c s = Ret (r, s')" "reachable ''t'' ''g'' (system_of s' B' U')"
    "U' \<subseteq> A \<union> minted_ids Ms"
    by (elim call_returns [of "''t''" "''g''" s B U "{}" A Ms c V]) auto
  then show ?thesis by (auto simp: work_reachable_def)
qed

definition demo_seeded :: "(unit, unit conv_db, team_db) session" where
  "demo_seeded = snd (ret_val (call_session demo_session_env (demo_mints CHR ''0'') (Sc_Seed_Ready ''lead'') demo_session))"

definition demo_sent :: "(unit, unit conv_db, team_db) session" where
  "demo_sent = snd (ret_val (call_session demo_session_env (demo_mints CHR ''1'') (Sc_Send ''hi'' None) demo_seeded))"

lemma demo_session_reachable: "work_reachable demo_session {}"
  unfolding work_reachable_def demo_session_def new_session_def system_of_def
  using reachable.initially [of "''t''" "''g''" "new_run_manager ''t''"]
  by (intro exI [of _ "{}"]) (simp add: initial_system_def)

lemma demo_seeded_reachable: "work_reachable demo_seeded (minted_ids (demo_mints CHR ''0''))"
  unfolding demo_seeded_def
  using reach_after [OF demo_session_reachable demo_mints_ok [of "CHR ''0''"], of "Sc_Seed_Ready ''lead''" demo_session_env]
  by (simp del: call_session.simps)

lemma demo_sent_reachable:
  "work_reachable demo_sent (minted_ids (demo_mints CHR ''0'') \<union> minted_ids (demo_mints CHR ''1''))"
  unfolding demo_sent_def
  using reach_after [OF demo_seeded_reachable demo_mints_ok [of "CHR ''1''"], of "Sc_Send ''hi'' None" demo_session_env]
    demo_minted_ids [of "CHR ''1''" "CHR ''0''"]
  by (simp del: call_session.simps)

section \<open>Messages\<close>

text \<open>C39. When an event loop prepares a batch for a member, in a session whose coordinator is in any state it can reach and whatever the
  rest of the session is like, and no other operation comes in between, no message is left behind: every unread message that another
  member has sent it has an open intent of its slot. If the loop is given a batch, the batch has messages, all of
  them unread ones, and the prompt ends with the wake text of exactly these messages, in the order of the mailbox, and of the
  current tasks of the board. If the loop is told that there is nothing to do, there is no unread message, or the member is paused.\<close>

theorem prepare_leaves_no_message_behind:
  assumes "reachable team g \<lparr>sy_coordinator = sx_work s, sy_issued = B, sy_used = U\<rparr>"
    and "minted_ok M" and "batch_ids_of M \<inter> U = {}" and "prepare_next_batch V M i s = Ret (Inr p, s')" and "unread = unread_from_others V i s'"
  shows "(\<forall>m \<in> set unread. already_owned i (mm_id m) (cs_intents (co_state (sx_work s'))))
    \<and> (case p of
        Pb_Execute b input \<Rightarrow>
          wb_mailbox_message_ids b \<noteq> [] \<and> set (wb_mailbox_message_ids b) \<subseteq> mm_id ` set unread
          \<and> wn_unread input = filter (\<lambda>m. mm_id m \<in> set (wb_mailbox_message_ids b)) unread
          \<and> (\<exists>before agent tasks roster. get_agent i (sx_team s') = Inr agent
              \<and> manager_list_tasks (sv_json V) (sv_repo V) (sx_team s') = Inr tasks
              \<and> wn_first_message input = before @ wake_text agent tasks (wn_unread input) roster)
      | Pb_Quiescent \<Rightarrow> unread = [] \<or> (\<exists>slot. map_of (cs_slots (co_state (sx_work s'))) i = Some slot \<and> ss_paused slot)
      | _ \<Rightarrow> True)"
  using prepare_strands_nothing [OF assms(1) [folded system_of_def] assms(2-4)] unfolding nothing_stranded_def Let_def assms(5) .

lemma prepare_returns:
  assumes "reachable team g (system_of s B U)" and "minted_ok M" and "batch_ids_of M \<inter> U = {}"
  shows "\<exists>r s'. prepare_next_batch V M i s = Ret (r, s')"
  using follows_prepare [OF assms(2), of "{}" V i] reachable_inv [OF assms(1)] assms(3) unfolding follows_def by blast

lemma demo_prepared:
  "(case fst (ret_val (prepare_next_batch demo_session_env (demo_mints CHR ''2'' 0 0) ''lead'' demo_sent)) of
      Inr (Pb_Execute b input) \<Rightarrow> wb_mailbox_message_ids b = [demo_tag CHR ''1'' CHR ''m'' 0 0 0]
    | _ \<Rightarrow> False)"
  by code_simp

theorem prepare_leaves_no_message_behind_witness:
  "\<exists>b input s'. prepare_next_batch demo_session_env (demo_mints CHR ''2'' 0 0) ''lead'' demo_sent = Ret (Inr (Pb_Execute b input), s')
    \<and> wb_mailbox_message_ids b = [demo_tag CHR ''1'' CHR ''m'' 0 0 0]
    \<and> wn_unread input = filter (\<lambda>m. mm_id m \<in> set (wb_mailbox_message_ids b)) (unread_from_others demo_session_env ''lead'' s')"
proof -
  have new: "minted_ids (demo_mints CHR ''2'') \<inter> (minted_ids (demo_mints CHR ''0'') \<union> minted_ids (demo_mints CHR ''1'')) = {}"
    using demo_minted_ids [of "CHR ''2''"] by (simp add: Int_Un_distrib)
  then have fresh: "batch_ids_of (demo_mints CHR ''2'' 0 0) \<inter> (minted_ids (demo_mints CHR ''0'') \<union> minted_ids (demo_mints CHR ''1'')) = {}"
    using minted_ids_include(2) [of "demo_mints CHR ''2''" 0 0] by blast
  obtain B U where r0: "reachable ''t'' ''g'' (system_of demo_sent B U)"
    "U \<subseteq> minted_ids (demo_mints CHR ''0'') \<union> minted_ids (demo_mints CHR ''1'')"
    using demo_sent_reachable unfolding work_reachable_def by blast
  then have fresh': "batch_ids_of (demo_mints CHR ''2'' 0 0) \<inter> U = {}" using fresh by blast
  obtain r s' where run: "prepare_next_batch demo_session_env (demo_mints CHR ''2'' 0 0) ''lead'' demo_sent = Ret (r, s')"
    using prepare_returns [OF r0(1) demo_minted_ok fresh', of demo_session_env "''lead''"] by blast
  with demo_prepared obtain b input where r: "r = Inr (Pb_Execute b input)" "wb_mailbox_message_ids b = [demo_tag CHR ''1'' CHR ''m'' 0 0 0]"
    by (auto split: sum.splits prepare_result.splits)
  with prepare_leaves_no_message_behind [OF r0(1) [unfolded system_of_def] demo_minted_ok fresh' run [unfolded r(1)] refl] run
  show ?thesis by auto
qed

lemma lease_settled_iff: "lease_settled M R r c \<longleftrightarrow> no_lease M c \<and> (\<forall>x. r = Inr x \<longrightarrow> R x c)"
  by (cases r) (simp_all add: lease_settled_def)

text \<open>C40. The operations that enqueue work acquire a lease, write a message and commit. In a session whose coordinator is in any
  state it can reach, and when no other operation comes in between, whatever fails on the way, the lease
  is gone when they return, so that it keeps no run alive; and when they succeed a new intent with the message is
  queued for the addressed slot.\<close>

theorem enqueueing_settles_its_lease:
  assumes "reachable team g \<lparr>sy_coordinator = sx_work s, sy_issued = B, sy_used = U\<rparr>"
    and "map_of (cs_enqueue_leases (co_state (sx_work s))) (mt_lease M) = None"
  shows "(\<forall>r s'. enqueue_user_message V M i role content files s = Ret (r, s') \<longrightarrow>
        no_lease M (sx_work s') \<and> (\<forall>ack. r = Inr ack \<longrightarrow> queued_work M i (Some (ak_message_id ack)) (sx_work s')))
    \<and> (\<forall>r s'. send_agent_message_from_agent V M i to content files s = Ret (r, s') \<longrightarrow>
        no_lease M (sx_work s') \<and> (\<forall>q. r = Inr q \<longrightarrow> (\<exists>m. queued_work M to (Some m) (sx_work s'))))
    \<and> (\<forall>r s'. shutdown_agent V M i to reason s = Ret (r, s') \<longrightarrow>
        no_lease M (sx_work s') \<and> (r = Inr () \<longrightarrow> (\<exists>m. queued_work M to (Some m) (sx_work s'))))
    \<and> (\<forall>r s'. enqueue_existing_work V M i source message binding s = Ret (r, s') \<longrightarrow>
        no_lease M (sx_work s') \<and> (\<forall>run. r = Inr run \<longrightarrow> queued_work M i message (sx_work s')))"
proof -
  have pre: "coordinator_inv (sx_work s) \<and> no_lease M (sx_work s)"
  proof
    show "coordinator_inv (sx_work s)" using reachable_coordinator_inv [OF assms(1)] by simp
    show "no_lease M (sx_work s)" using assms(2) by (simp add: no_lease_def)
  qed
  show ?thesis
    using holds_afterD [OF enqueue_user_message_settles [of M V i role content files] pre]
      holds_afterD [OF agent_message_settles [of M V i to content files] pre]
      holds_afterD [OF shutdown_settles [of M V i to reason] pre]
      holds_afterD [OF existing_work_settles [of M V i source message binding] pre]
    unfolding lease_settled_iff by blast
qed

theorem enqueueing_settles_its_lease_witness:
  "\<exists>ack s'. enqueue_user_message demo_session_env (demo_mints CHR ''1'' 0 0) ''lead'' RoleLead ''hi'' None demo_seeded = Ret (Inr ack, s')
    \<and> no_lease (demo_mints CHR ''1'' 0 0) (sx_work s')
    \<and> queued_work (demo_mints CHR ''1'' 0 0) ''lead'' (Some (ak_message_id ack)) (sx_work s')"
proof -
  have lease: "map_of (cs_enqueue_leases (co_state (sx_work demo_seeded))) (mt_lease (demo_mints CHR ''1'' 0 0)) = None"
    by code_simp
  have ok: "\<not> isl (fst (ret_val (enqueue_user_message demo_session_env (demo_mints CHR ''1'' 0 0) ''lead'' RoleLead ''hi'' None demo_seeded)))"
    by code_simp
  obtain B' U' where r: "reachable ''t'' ''g'' (system_of demo_seeded B' U')" "U' \<subseteq> minted_ids (demo_mints CHR ''0'')"
    using demo_seeded_reachable unfolding work_reachable_def by blast
  have "enqueue_ids (demo_mints CHR ''1'' 0 0) \<inter> U' = {}"
    using r(2) demo_minted_ids [of "CHR ''1''" "CHR ''0''"] minted_ids_include(1) [of "demo_mints CHR ''1''" 0 0] by auto
  with follows_enqueue_user [OF demo_minted_ok [of "CHR ''1''" 0 0], of "{}" demo_session_env "''lead''" RoleLead "''hi''" None] reachable_inv [OF r(1)]
  obtain x s' where run: "enqueue_user_message demo_session_env (demo_mints CHR ''1'' 0 0) ''lead'' RoleLead ''hi'' None demo_seeded = Ret (x, s')"
    unfolding follows_def by blast
  with ok obtain ack where "x = Inr ack" by (cases x) auto
  with run enqueueing_settles_its_lease [OF r(1) [unfolded system_of_def] lease, of demo_session_env "''lead''" RoleLead "''hi''" None]
  show ?thesis by blast
qed

section \<open>The wake text\<close>

text \<open>C37. The table of tasks in the wake text has at most 40 rows, each a task of the board, none twice and none deleted; it
  has every active task of the woken member unless there are more than 40 of these; and the counts in its head, of the
  rows shown and of the active, completed and deleted tasks hidden, add up to the number of tasks on the board.\<close>

theorem wake_text_shows_own_tasks:
  assumes "distinct (map tt_id tasks)" and "rows = summary_rows agent tasks roster" and "n = summary_counts_of tasks rows"
  shows "set rows \<subseteq> set tasks \<and> distinct rows \<and> length rows \<le> 40 \<and> (\<forall>t \<in> set rows. tt_status t \<noteq> TkDeleted)
    \<and> (length (filter (\<lambda>t. status_active (tt_status t) \<and> tt_owner t = Some (ag_slot_id agent)) tasks) \<le> 40
         \<longrightarrow> ag_slot_id agent \<in> set roster
         \<longrightarrow> (\<forall>t \<in> set tasks. status_active (tt_status t) \<and> tt_owner t = Some (ag_slot_id agent) \<longrightarrow> t \<in> set rows))
    \<and> sc_shown n = length rows \<and> sc_total n = length tasks
    \<and> sc_shown n + sc_hidden_active n + sc_hidden_completed n + sc_hidden_deleted n = length tasks"
proof -
  have sel: "row_selection tasks rows" unfolding assms(2) by (rule summary_rows_selection [OF assms(1)])
  have "sc_shown n = length rows \<and> sc_total n = length tasks" by (simp add: assms(3) summary_counts_of_def)
  moreover have "t \<in> set rows" if "count_tasks (own_task agent) tasks \<le> 40" "ag_slot_id agent \<in> set roster" "t \<in> set tasks" "own_task agent t" for t
    unfolding assms(2) by (rule summary_rows_own [OF assms(1) that])
  ultimately show ?thesis
    using row_selectionD [OF sel] summary_counts_add_up [OF assms(1) sel]
    unfolding assms(3) by (simp add: count_tasks_def own_task_def [abs_def])
qed

theorem wake_text_shows_own_tasks_witness:
  "\<exists>rows. rows = summary_rows (demo_team_member ''w'' Teammate) [demo_first\<lparr>tt_owner := Some ''w''\<rparr>] [''w'']
    \<and> demo_first\<lparr>tt_owner := Some ''w''\<rparr> \<in> set rows"
  using wake_text_shows_own_tasks [of "[demo_first\<lparr>tt_owner := Some ''w''\<rparr>]" _ "demo_team_member ''w'' Teammate" "[''w'']", OF _ refl refl]
  by (simp add: demo_team_member_def demo_first_def)

section \<open>Runs behind the findings\<close>

text \<open>
  If the tool transport or the role prompt of a member cannot be built, \<open>prepare_next_batch\<close> fails after it has claimed the batch: unlike
  after a failed read of the board, the batch stays active, no turn will end it, and the slot waits for it; and the role prompt is not tried again.
\<close>

lemma prompt_failure_keeps_the_batch:
  assumes "manager_list_tasks (sv_json V) (sv_repo V) (sx_team s) = Inr tasks"
    and "take_needs_role_prompt i (sx_team s) = (True, te)" and "sv_role_prompt V agent (list_agents te) = Inl e"
  shows "prepare_claimed V M agent i unread b s = Ret (Inl e, s\<lparr>sx_team := te\<rparr>)"
  using assms
  by (simp add: prepare_claimed_def Let_def sbind_def on_error_def sread_def members_of_def on_team_def)

lemma active_batch_blocks:
  assumes "map_of (cs_slots (co_state c)) i = Some slot" and "ss_active slot = Some a"
  shows "next_work P x i c = Ret (WaitingForCompletion, c)"
  using assms by (simp add: next_work_def)

text \<open>With a failed read of the board the batch is given back.\<close>

lemma board_failure_returns_the_batch:
  assumes "manager_list_tasks (sv_json V) (sv_repo V) (sx_team s) = Inl e"
    and "retry_start (port M) b (sx_work s) = Ret (r, c)"
  shows "prepare_claimed V M agent i unread b s = Ret (Inl e, s\<lparr>sx_work := c\<rparr>)"
  using assms by (simp add: prepare_claimed_def Let_def sbind_def on_error_def sread_def on_work_def infallible_def)

end
