(* ===== verification/Spec2Isabelle.thy ===== *)
theory Spec2Isabelle
  imports Work_Properties Cron_Properties Ext_Properties Turn_Properties Auth_Properties Team_Properties Member_Properties Scheduler_Facts Session_Properties
begin

text \<open>
  Verification development of the server \<open>aion_core\<close>: a Rust workspace whose crates under \<open>crates/\<close> run
  conversations between users and agents, teams of agents that hand each other work, and jobs on a
  schedule. The development models the state machines that decide what runs when, what is stored and
  what a client is told. It is a shallow embedding: structs are records, enums datatypes, one definition per
  function in the order of the source, fallible functions return a sum or an option, and every call that
  changes state returns the new state.

  \<^bold>\<open>Parts and how they interact.\<close> A user message or a team member's work becomes a turn of a
  conversation. The service claims the conversation in its runtime state, the orchestrator builds the agent,
  sends the message and relays the stream of events to the clients and the tables, repeats a failed
  attempt when it is safe, and releases the claim. A team's session ties the parts of a team together:
  messages between its members wait in the mailbox, tasks on the board, the scheduler keeps the members' status,
  a registry the state of their runtimes. A message becomes an intent of the coordinator, which queues work
  per member; the event loop of a member asks the session for the next batch, runs it as a turn and
  reports its end, and a run manager follows the work of one run until it has ended. The scheduler fires the jobs of the cron service, which claims each occurrence in the
  database so that only one server runs it. Extensions are loaded in the order of their dependencies. Every
  request passes the rate limiters and the middleware of authentication, which reads the session token and
  the user table.

  \<^bold>\<open>Theories.\<close>

  \<^item> \<open>Prelude\<close>: lists, maps as association lists, counting, words; the collections \<open>map_simps\<close> and others.
    \<open>Rust_Std\<close>: the functions of the standard library the sources use on strings and numbers, and the
    locale \<open>str_codec\<close> of an enumeration stored as text. \<open>Db_Error\<close>: \<open>DbError\<close>.

  \<^item> Team work (\<open>aionui-team/src/work_source.rs\<close>, \<open>work_coordinator/\<close>, \<open>team_run/manager.rs\<close>).
    \<open>Work_Model\<close> has the types, \<open>Work_Coordinator\<close> the state and the operations of
    \<open>SlotWorkCoordinator\<close>, \<open>Team_Run\<close> the run manager, \<open>Run_Causality\<close> the port by which the coordinator
    binds work to a run (a locale, interpreted on the run manager). \<open>Work_Invariant\<close>, \<open>Work_Batches\<close>,
    \<open>Work_Cancel\<close> and \<open>Work_Effects\<close> prove the invariant of the queues and batches and what each operation
    does, \<open>Work_System\<close> composes the operations to a transition system (its steps are the calls of the coordinator with
    any port, and moves of the port between them), \<open>Run_Publication\<close> instantiates it with an outbox in which summaries
    wait for their delivery to the run manager, \<open>Work_Properties\<close> states the properties: a run ends only with reason, every open intent is in exactly one place, a batch is claimed from the highest queue in
    order, stale batches change nothing, a cancelled run leaves no work, and others.

  \<^item> The tables of teams (\<open>aionui-team/src/types.rs\<close>, \<open>task_board.rs\<close>, \<open>mailbox.rs\<close>,
    \<open>aionui-db/src/repository/sqlite_team.rs\<close>). \<open>Team_Types\<close> has the types and their rows, \<open>Team_Store\<close> the tables,
    \<open>Team_Mailbox\<close> and \<open>Task_Board\<close> the operations on them. \<open>Task_Table\<close> states what the board needs of a
    repository as the locale \<open>task_store\<close>, interpreted on the tables; \<open>Board_Facts\<close> is its client (the links between tasks
    agree and have no cycle, a completed task unblocks the ones that wait for it), \<open>Team_Rows\<close> shows that every row can be read
    back; \<open>Team_Properties\<close> states the properties.

  \<^item> The runtimes of members (\<open>member_runtime.rs\<close>): \<open>Member_Runtime\<close>, its runs in \<open>Member_World\<close>, and
    \<open>Member_Properties\<close>: an attach ends once, with one outcome.

  \<^item> The members at work. \<open>Team_Scheduler\<close> is \<open>scheduler/\<close> and \<open>crash_detection.rs\<close>, \<open>Scheduler_Facts\<close> when the lead is
    woken; \<open>Wake_Summary\<close> the text with which a member is woken (\<open>prompts/wake_summary.rs\<close>); \<open>Team_Projection\<close> the
    bubbles that messages leave in conversations (\<open>message_projection.rs\<close>, \<open>visibility.rs\<close>).

  \<^item> Sessions (\<open>session.rs\<close>, \<open>event_loop.rs\<close>, two functions of \<open>service.rs\<close>). \<open>Team_Session\<close> has the session, the
    preparation of batches and the enqueueing of messages, \<open>Team_Control\<close> cancelling, pausing, membership and
    turns, \<open>Team_Attach\<close> the attach of a runtime. \<open>Session_Facts\<close> and \<open>Session_World\<close> show that a call does a run of the
    coordinator's transition system, \<open>Session_Mail\<close> what a preparation does with unread messages, \<open>Session_Enqueue\<close> (Hoare
    triples over the coordinator) that an enqueue leaves no lease; \<open>Session_Properties\<close> states the properties.

  \<^item> Scheduled jobs (\<open>aionui-cron/src/types.rs\<close>, \<open>scheduler.rs\<close>, \<open>service.rs\<close>, \<open>aionui-db/src/repository/\<close>
    \<open>sqlite_cron.rs\<close>). \<open>Cron_Types\<close>, \<open>Cron_Schedule\<close>, \<open>Cron_Store\<close> and \<open>Cron_Service\<close> follow these files;
    \<open>Cron_Schedule\<close> has the operations of the scheduler twice: composed, as the service uses them, and as sequences of
    accesses that a step relation interleaves; \<open>Cron_Properties\<close>: the round trip of a job through its row, one timer
    per job as long as its operations do not overlap, the lease of an occurrence is exclusive, a tick runs only
    what it has claimed, and others.

  \<^item> Extension dependencies (\<open>aionui-extension/src/dependency.rs\<close>): \<open>Ext_Dependency\<close> and
    \<open>Ext_Properties\<close>, the load order and the reported cycles.

  \<^item> Turns (\<open>aionui-conversation/src/\<close>). \<open>Turn_State\<close> is \<open>runtime_state.rs\<close>; \<open>Turn_World\<close> interleaves its
    operations as the tasks of the server do, as an inductive step relation; \<open>Turn_Policy\<close> the four policy
    files; \<open>Conv_Store\<close> the tables of conversations and messages
    (\<open>aionui-db/src/repository/sqlite_conversation.rs\<close>) with the contract \<open>message_store\<close>;
    \<open>Stream_Relay\<close> and \<open>Relay_Loop\<close> are \<open>stream_relay.rs\<close>, \<open>stream_persistence.rs\<close>,
    \<open>response_middleware.rs\<close> and \<open>runtime_completion.rs\<close>; \<open>Conv_Errors\<close> the errors and their mapping to
    responses; \<open>Turn_Orchestrator\<close> is \<open>turn_orchestrator.rs\<close> with the parts of \<open>service.rs\<close>,
    \<open>acp_error_recovery.rs\<close> and \<open>message_persistence.rs\<close> it calls. \<open>Relay_Facts\<close> shows what operations of a relay
    leave alone, \<open>Relay_Text\<close> (a client of \<open>message_store\<close>) that no text is lost, \<open>Turn_Facts\<close> that turns
    end and release their claim, are bounded and report their failures; \<open>Turn_Properties\<close> has the properties and the runs behind
    the findings.

  \<^item> Authentication (\<open>aionui-auth/src/\<close>, \<open>aionui-db/src/repository/sqlite_user.rs\<close>). \<open>Auth_Basics\<close> has
    the errors, the validation of names and passwords, the headers that carry a token and the generated
    passwords (\<open>error.rs\<close>, \<open>validation.rs\<close>, \<open>extract.rs\<close>, \<open>password.rs\<close>); \<open>Rate_Limit\<close> the limiter of
    \<open>rate_limit.rs\<close> with its middlewares and the bound of a run; \<open>User_Store\<close> the users table with the
    contract \<open>user_repository\<close>, interpreted on the table; \<open>Auth_Token\<close> is \<open>jwt.rs\<close> and \<open>qr_token.rs\<close>;
    \<open>Auth_World\<close> interleaves the operations of the token service as a step relation with ghost logs of the
    tokens signed and revoked; \<open>Auth_Service\<close> has the handlers of \<open>routes.rs\<close>, the middlewares of
    \<open>middleware.rs\<close> and \<open>csrf.rs\<close>, the cookies and the secrets read at startup. \<open>Auth_Facts\<close> shows what a
    login and a change of password do, \<open>Auth_Properties\<close> that a session token works until it expires or is
    revoked, that the rate of requests is bounded, that a QR token works once and in time, that a login
    needs the password and opens a session the middleware accepts for that user and no other, that a change of password ends the sessions. \<open>Api_Error\<close>: \<open>ApiError\<close>.

  \<^bold>\<open>Conventions.\<close> Code outside the repository and what the model does not look into are arguments: the
  crates \<open>cron\<close> and \<open>chrono\<close> (\<open>cron_lib\<close>), \<open>serde_json\<close>, \<open>tokio::sync::Notify\<close> (\<open>notify_lib\<close> with its laws
  \<open>notify_laws\<close>), regular expressions, agents and their processes, the classification of an agent's error. State
  shared with other tasks is read through an oracle indexed by the number of reads (\<open>env_service\<close>, \<open>env_now\<close>,
  \<open>env_mint\<close>), so that a theorem for every oracle covers every interleaving at the \<open>await\<close> points; the section of an
  operation under one lock is atomic. What follows the lock is not part of it: the summaries that the coordinator publishes after it has dropped its lock reach the
  run manager in later steps of \<open>run_step\<close>, late and in any order (\<open>cancelled_run_is_reported\<close>, which says so, is about the port \<open>manager_port\<close>,
  where a summary is delivered at once), and the scheduler of jobs, which has no lock around its accesses, is
  interleaved access by access (\<open>timer_step\<close>). The operations of a session are run one after the other, each in whatever state of the coordinator
  is reachable; the start and the end of a turn and of an attach are operations of their own. \<open>mints\<close> are the identifiers and clock values
  that one call generates, \<open>minted_ok\<close> says that they are new and distinct; \<open>team_json_ok\<close> that JSON that was written is read back. The
  repositories of teams do not fail between the statements of one transaction. The theorem about attaches assumes fewer than \<open>2 ^ 64\<close> of them in a session. The signatures of session tokens are \<open>jwt_lib\<close>: \<open>jwt_ok\<close> says that a token
  decodes under the key it was signed with and under no other, \<open>no_collision\<close> that the hashes of the tokens in
  question differ; bcrypt and the random generator are arguments. The theorems about session tokens assume
  a clock after the epoch that is not set back and, where a secret is rotated, that it is a fresh one. Log lines are left out, except the one that \<open>failed_turn_is_reported\<close> refers to.

  \<^bold>\<open>Bounds and termination.\<close> No fuel is used where the code has a bound: the loop of an attempt ends because
  of \<open>max_system_response_continuations\<close>, the loop of a turn because a replay is never repeated, Kahn's
  algorithm and the search for cycles by the number of extensions left. A relay consumes the list of what its
  channels yield and is \<open>None\<close> while it still waits; \<open>turn_ends_and_releases\<close> shows that a turn returns as soon as
  its streams end. The authentication has no loop but the walk over a header or a map. Integers that may overflow keep their width (\<open>saturating_add_one\<close>, the lease and
  interval arithmetic of the jobs, the counters of the rate limiter).

  \<^bold>\<open>Not modelled.\<close> Agent processes and protocols (\<open>aionui-ai-agent\<close>), the HTTP layer and the realtime connections,
  the security headers and the table of routes, messaging channels, files, MCP configuration, office and shell integration, settings and
  the other tables: mostly input and output around third-party code. Of the conversation service the
  creation, listing, artifacts and confirmations of conversations; of the team crate the team
  service around the sessions, role prompts, spawning and the tools of the agents; of the cron service the preparation of runs, skill files and prompts;
  of the extensions loading, permissions and states.
\<close>

end
